(* ===== verification/Prelude.thy ===== *)
theory Prelude
  imports Main "HOL-Library.Word"
begin

text \<open>
  Shared vocabulary of the development: Rust's \<open>Result\<close> as a sum, the unsigned machine
  integers as words with the saturating and checked operations the sources call, \<open>i64\<close> as
  \<open>int\<close> with the saturation written out, the small \<open>Option\<close> combinators, \<open>BTreeMap\<close> as
  a strictly sorted association list, and the \<open>char::is_control\<close> scan of a UTF-8 string.
\<close>

section \<open>Collections of facts\<close>

named_theorems result_simps "evaluation and inversion of Result chains"
named_theorems sat_simps "saturating and checked word arithmetic"
named_theorems bt_simps "laws of the sorted association list behind BTreeMap"

section \<open>Types\<close>

type_synonym u8 = "8 word"
type_synonym u16 = "16 word"
type_synonym u32 = "32 word"
type_synonym u64 = "64 word"
type_synonym i64 = int
type_synonym uuid = "128 word"
type_synonym bytes = "8 word list"
type_synonym ('e, 'a) result = "'e + 'a"

abbreviation Ok :: "'a \<Rightarrow> ('e, 'a) result" where "Ok \<equiv> Inr"
abbreviation Err :: "'e \<Rightarrow> ('e, 'a) result" where "Err \<equiv> Inl"

section \<open>Result\<close>

text \<open>\<open>and_then r f\<close> is the question mark operator: run \<open>f\<close> on the value, pass the error on.\<close>

definition and_then :: "('e, 'a) result \<Rightarrow> ('a \<Rightarrow> ('e, 'b) result) \<Rightarrow> ('e, 'b) result" where
  "and_then r f = (case r of Inl e \<Rightarrow> Inl e | Inr x \<Rightarrow> f x)"

definition map_err :: "('e \<Rightarrow> 'f) \<Rightarrow> ('e, 'a) result \<Rightarrow> ('f, 'a) result" where
  "map_err g r = (case r of Inl e \<Rightarrow> Inl (g e) | Inr x \<Rightarrow> Inr x)"

definition is_ok :: "('e, 'a) result \<Rightarrow> bool" where
  "is_ok r = (case r of Inl _ \<Rightarrow> False | Inr _ \<Rightarrow> True)"

definition ok_or :: "'a option \<Rightarrow> 'e \<Rightarrow> ('e, 'a) result" where
  "ok_or v e = (case v of None \<Rightarrow> Inl e | Some x \<Rightarrow> Inr x)"

section \<open>Option\<close>

definition is_some_and :: "'a option \<Rightarrow> ('a \<Rightarrow> bool) \<Rightarrow> bool" where
  "is_some_and v p = (case v of None \<Rightarrow> False | Some x \<Rightarrow> p x)"

definition is_none_or :: "'a option \<Rightarrow> ('a \<Rightarrow> bool) \<Rightarrow> bool" where
  "is_none_or v p = (case v of None \<Rightarrow> True | Some x \<Rightarrow> p x)"

definition opt_or :: "'a option \<Rightarrow> 'a option \<Rightarrow> 'a option" where
  "opt_or v w = (case v of None \<Rightarrow> w | Some x \<Rightarrow> Some x)"

section \<open>Machine integers\<close>

definition saturating_add :: "'a::len word \<Rightarrow> 'a word \<Rightarrow> 'a word" where
  "saturating_add a b = (if unat a + unat b < 2 ^ LENGTH('a) then a + b else -1)"

definition saturating_sub :: "'a::len word \<Rightarrow> 'a word \<Rightarrow> 'a word" where
  "saturating_sub a b = (if b \<le> a then a - b else 0)"

definition saturating_mul :: "'a::len word \<Rightarrow> 'a word \<Rightarrow> 'a word" where
  "saturating_mul a b = (if unat a * unat b < 2 ^ LENGTH('a) then a * b else -1)"

definition checked_add :: "'a::len word \<Rightarrow> 'a word \<Rightarrow> 'a word option" where
  "checked_add a b = (if unat a + unat b < 2 ^ LENGTH('a) then Some (a + b) else None)"

definition checked_sub :: "'a::len word \<Rightarrow> 'a word \<Rightarrow> 'a word option" where
  "checked_sub a b = (if b \<le> a then Some (a - b) else None)"

definition i64_max :: i64 where "i64_max = 2 ^ 63 - 1"
definition i64_min :: i64 where "i64_min = - (2 ^ 63)"

definition i64_saturating_add_unsigned :: "i64 \<Rightarrow> u64 \<Rightarrow> i64" where
  "i64_saturating_add_unsigned a b = min i64_max (a + uint b)"

definition i64_of_u64 :: "u64 \<Rightarrow> i64 option" where
  "i64_of_u64 a = (if uint a \<le> i64_max then Some (uint a) else None)"

definition u64_of_i64 :: "i64 \<Rightarrow> u64 option" where
  "u64_of_i64 a = (if 0 \<le> a then Some (word_of_int a) else None)"

section \<open>BTreeMap\<close>

text \<open>
  A \<open>BTreeMap\<close> is the list of its entries in key order: \<open>values()\<close> iterates in that order,
  \<open>insert\<close> replaces the value of a key that is present.
\<close>

type_synonym ('k, 'v) btree = "('k \<times> 'v) list"

definition bt_ok :: "('k::linorder, 'v) btree \<Rightarrow> bool" where
  "bt_ok m = sorted_wrt (<) (map fst m)"

definition bt_get :: "'k \<Rightarrow> ('k, 'v) btree \<Rightarrow> 'v option" where
  "bt_get k m = map_of m k"

fun bt_insert :: "'k::linorder \<Rightarrow> 'v \<Rightarrow> ('k, 'v) btree \<Rightarrow> ('k, 'v) btree" where
  "bt_insert k v [] = [(k, v)]"
| "bt_insert k v ((k', v') # m) =
     (if k < k' then (k, v) # (k', v') # m
      else if k = k' then (k, v) # m
      else (k', v') # bt_insert k v m)"

definition bt_values :: "('k, 'v) btree \<Rightarrow> 'v list" where
  "bt_values m = map snd m"

section \<open>Strings\<close>

text \<open>
  A Rust \<open>String\<close> is its UTF-8 bytes, so \<open>len()\<close> is \<^const>\<open>length\<close>. The control characters
  (general category Cc) are U+0000 to U+001F, U+007F and U+0080 to U+009F; the last group is
  encoded as the byte C2 followed by 80 to 9F, and C2 is never a continuation byte.
\<close>

fun has_control :: "string \<Rightarrow> bool" where
  "has_control [] = False"
| "has_control (c # cs) =
     (of_char c < (32::nat) \<or> of_char c = (127::nat) \<or>
      (of_char c = (194::nat) \<and>
        (case cs of [] \<Rightarrow> False | d # _ \<Rightarrow> (128::nat) \<le> of_char d \<and> of_char d < (160::nat))) \<or>
      has_control cs)"

text \<open>Well-formed UTF-8 (the table of the Unicode standard): what \<open>str::from_utf8\<close> and
  \<open>OsStr::to_str\<close> accept.\<close>

definition utf8_cont :: "nat \<Rightarrow> bool" where
  "utf8_cont b = (128 \<le> b \<and> b < 192)"

fun utf8_ok :: "nat list \<Rightarrow> bool" where
  "utf8_ok [] = True"
| "utf8_ok (a # r) =
     (if a < 128 then utf8_ok r
      else case r of
        [] \<Rightarrow> False
      | b # r1 \<Rightarrow>
          if 194 \<le> a \<and> a < 224 then utf8_cont b \<and> utf8_ok r1
          else case r1 of
            [] \<Rightarrow> False
          | c # r2 \<Rightarrow>
              if 224 \<le> a \<and> a < 240
              then utf8_cont b \<and> utf8_cont c \<and> (a = 224 \<longrightarrow> 160 \<le> b) \<and> (a = 237 \<longrightarrow> b < 160) \<and> utf8_ok r2
              else case r2 of
                [] \<Rightarrow> False
              | d # r3 \<Rightarrow>
                  240 \<le> a \<and> a < 245 \<and> utf8_cont b \<and> utf8_cont c \<and> utf8_cont d \<and>
                  (a = 240 \<longrightarrow> 144 \<le> b) \<and> (a = 244 \<longrightarrow> b < 144) \<and> utf8_ok r3)"

definition valid_utf8 :: "string \<Rightarrow> bool" where
  "valid_utf8 s = utf8_ok (map of_char s)"

definition is_nil :: "uuid \<Rightarrow> bool" where
  "is_nil u = (u = 0)"

section \<open>Laws\<close>

lemma and_then_Ok [simp, result_simps]: "and_then (Inr x) f = f x"
  by (simp add: and_then_def)

lemma and_then_Err [simp, result_simps]: "and_then (Inl e) f = Inl e"
  by (simp add: and_then_def)

lemma and_then_eq_Ok [result_simps]:
  "and_then r f = Inr y \<longleftrightarrow> (\<exists>x. r = Inr x \<and> f x = Inr y)"
  by (cases r) auto

lemma and_then_eq_Err [result_simps]:
  "and_then r f = Inl e \<longleftrightarrow> r = Inl e \<or> (\<exists>x. r = Inr x \<and> f x = Inl e)"
  by (cases r) auto

lemma map_err_Ok_iff [simp, result_simps]: "map_err g r = Inr x \<longleftrightarrow> r = Inr x"
  by (cases r) (auto simp: map_err_def)

lemma map_err_simps [simp, result_simps]:
  "map_err g (Inl e) = Inl (g e)" "map_err g (Inr x) = Inr x"
  by (simp_all add: map_err_def)

lemma map_err_Err_iff [result_simps]: "map_err g r = Inl f \<longleftrightarrow> (\<exists>e. r = Inl e \<and> f = g e)"
  by (cases r) (auto simp: map_err_def)

lemma is_ok_simps [simp, result_simps]: "is_ok (Inr x)" "\<not> is_ok (Inl e)"
  by (simp_all add: is_ok_def)

lemma is_ok_iff: "is_ok r \<longleftrightarrow> (\<exists>x. r = Inr x)"
  by (cases r) auto

lemma is_ok_unit: "is_ok (r :: ('e, unit) result) \<longleftrightarrow> r = Inr ()"
  by (cases r) auto

lemma ok_or_simps [simp, result_simps]:
  "ok_or (Some x) e = Inr x" "ok_or None e = Inl e"
  by (simp_all add: ok_or_def)

lemma ok_or_eq_Ok [simp, result_simps]: "ok_or v e = Inr x \<longleftrightarrow> v = Some x"
  by (cases v) auto

lemma is_some_and_simps [simp]: "is_some_and (Some x) p = p x" "is_some_and None p = False"
  by (simp_all add: is_some_and_def)

lemma is_none_or_simps [simp]: "is_none_or (Some x) p = p x" "is_none_or None p = True"
  by (simp_all add: is_none_or_def)

lemma not_is_some_and: "\<not> is_some_and v p \<longleftrightarrow> is_none_or v (\<lambda>x. \<not> p x)"
  by (cases v) auto

lemma is_none_or_iff: "is_none_or v p \<longleftrightarrow> (\<forall>x. v = Some x \<longrightarrow> p x)"
  by (cases v) auto

lemma is_some_and_iff: "is_some_and v p \<longleftrightarrow> (\<exists>x. v = Some x \<and> p x)"
  by (cases v) auto

lemma opt_or_simps [simp]: "opt_or (Some x) w = Some x" "opt_or None w = w"
  by (simp_all add: opt_or_def)

lemma unat_less_pow: "unat (a :: 'a::len word) < 2 ^ LENGTH('a)"
  by (rule unsigned_less)

lemma unat_max_word [sat_simps]: "unat (-1 :: 'a::len word) = 2 ^ LENGTH('a) - 1"
  by (simp add: unsigned_minus_1_eq_mask mask_eq_exp_minus_1)

lemma unat_saturating_add [sat_simps]:
  "unat (saturating_add a b) = min (unat a + unat b) (2 ^ LENGTH('a) - 1)"
  for a b :: "'a::len word"
  by (auto simp: saturating_add_def unat_max_word unat_add_lem [THEN iffD1])

lemma saturating_add_ge [sat_simps]: "a \<le> saturating_add a b"
  using unat_less_pow [of a] unfolding word_le_nat_alt unat_saturating_add by linarith

lemma unat_saturating_mul [sat_simps]:
  "unat (saturating_mul a b) = min (unat a * unat b) (2 ^ LENGTH('a) - 1)"
  for a b :: "'a::len word"
  by (auto simp: saturating_mul_def unat_max_word unat_mult_lem [THEN iffD1])

lemma unat_saturating_sub [sat_simps]: "unat (saturating_sub a b) = unat a - unat b"
  by (auto simp: saturating_sub_def unat_sub word_le_nat_alt not_le)

lemma saturating_add_1_gr: "a \<noteq> -1 \<Longrightarrow> a < saturating_add a 1"
proof -
  assume "a \<noteq> -1"
  then have "unat a \<noteq> 2 ^ LENGTH('a) - 1"
    by (metis unat_max_word word_unat_eq_iff)
  then have "unat a + 1 < 2 ^ LENGTH('a)"
    using unat_less_pow [of a] by linarith
  then show ?thesis
    by (simp add: word_less_nat_alt unat_saturating_add)
qed

lemma saturating_add_1_max [simp]: "saturating_add (-1) 1 = -1"
  by (simp add: saturating_add_def unat_max_word)

lemma saturating_add_1_eq_iff [simp]: "saturating_add a 1 = a \<longleftrightarrow> a = -1"
  using saturating_add_1_gr [of a] by (cases "a = -1") auto

lemma unat_inc: "a < b \<Longrightarrow> unat (a + 1) = unat a + 1" for a b :: "'a::len word"
proof -
  assume "a < b"
  then have "unat a + unat (1::'a word) < 2 ^ LENGTH('a)"
    using unat_less_pow [of b] unfolding word_less_nat_alt unat_1 by linarith
  then show ?thesis by (simp add: unat_add_lem [THEN iffD1])
qed

lemma inc_bounds: "a < b \<Longrightarrow> a + 1 \<le> b \<and> 0 < a + 1" for a b :: "'a::len word"
  using unat_inc [of a b] by (auto simp: word_le_nat_alt word_less_nat_alt)

lemma checked_add_Some [sat_simps]:
  "checked_add a b = Some c \<longleftrightarrow> c = a + b \<and> unat c = unat a + unat b"
  by (auto simp: checked_add_def unat_add_lem [THEN iffD1])
     (metis unat_less_pow)

lemma checked_sub_Some [sat_simps]:
  "checked_sub a b = Some c \<longleftrightarrow> b \<le> a \<and> c = a - b"
  by (auto simp: checked_sub_def)

lemma i64_saturating_add_unsigned_ge:
  "a \<le> i64_max \<Longrightarrow> a \<le> i64_saturating_add_unsigned a b"
  by (simp add: i64_saturating_add_unsigned_def)

lemma i64_saturating_add_unsigned_le_max: "i64_saturating_add_unsigned a b \<le> i64_max"
  by (simp add: i64_saturating_add_unsigned_def)

lemma u64_of_i64_of_u64: "i64_of_u64 a = Some b \<Longrightarrow> u64_of_i64 b = Some a"
  by (auto simp: i64_of_u64_def u64_of_i64_def split: if_splits)

subsection \<open>BTreeMap\<close>

lemma bt_ok_Nil [simp, bt_simps]: "bt_ok []"
  by (simp add: bt_ok_def)

lemma bt_get_Nil [simp, bt_simps]: "bt_get k [] = None"
  by (simp add: bt_get_def)

lemma bt_values_Nil [simp, bt_simps]: "bt_values [] = []"
  by (simp add: bt_values_def)

lemma bt_keys_insert: "fst ` set (bt_insert k v m) = insert k (fst ` set m)"
  by (induction k v m rule: bt_insert.induct) auto

lemma bt_ok_Cons [bt_simps]: "bt_ok (e # m) \<longleftrightarrow> (\<forall>k \<in> fst ` set m. fst e < k) \<and> bt_ok m"
  by (auto simp: bt_ok_def)

lemma bt_ok_insert [simp, bt_simps]: "bt_ok m \<Longrightarrow> bt_ok (bt_insert k v m)"
  by (induction k v m rule: bt_insert.induct) (force simp: bt_ok_Cons bt_keys_insert)+

lemma bt_get_insert [simp, bt_simps]:
  "bt_get k' (bt_insert k v m) = (if k' = k then Some v else bt_get k' m)"
  by (induction k v m rule: bt_insert.induct) (auto simp: bt_get_def)

lemma bt_ok_distinct: "bt_ok m \<Longrightarrow> distinct (map fst m)"
  by (induction m) (force simp: bt_ok_Cons)+

lemma bt_get_None_iff: "bt_get k m = None \<longleftrightarrow> k \<notin> fst ` set m"
  by (simp add: bt_get_def map_of_eq_None_iff)

lemma bt_get_in_values: "bt_get k m = Some v \<Longrightarrow> v \<in> set (bt_values m)"
  by (force simp: bt_get_def bt_values_def dest: map_of_SomeD)

lemma bt_values_get: "bt_ok m \<Longrightarrow> v \<in> set (bt_values m) \<Longrightarrow> \<exists>k. bt_get k m = Some v"
  by (auto simp: bt_get_def bt_values_def intro!: map_of_is_SomeI bt_ok_distinct)

lemma bt_values_insert_subset: "set (bt_values (bt_insert k v m)) \<subseteq> insert v (set (bt_values m))"
  by (induction k v m rule: bt_insert.induct) (auto simp: bt_values_def)

text \<open>
  How one insertion changes a count over the values: the value the key had leaves, the new
  one enters. \<open>bt_absent\<close> says that a key below the first entry has no value.
\<close>

lemma bt_absent: "bt_ok ((k', v') # m) \<Longrightarrow> k < k' \<Longrightarrow> bt_get k ((k', v') # m) = None"
  by (auto simp: bt_get_None_iff bt_ok_Cons)

lemma bt_count_insert:
  "bt_ok m \<Longrightarrow>
   length (filter P (bt_values (bt_insert k v m))) + (if is_some_and (bt_get k m) P then 1 else 0)
     = length (filter P (bt_values m)) + (if P v then 1 else 0)"
proof (induction k v m rule: bt_insert.induct)
  case (1 k v)
  then show ?case by (simp add: bt_values_def)
next
  case (2 k v k' v' m)
  consider "k < k'" | "k = k'" | "k' < k" by (rule linorder_cases)
  then show ?case
  proof cases
    case 1
    then have "bt_get k ((k', v') # m) = None" using "2.prems" by (rule bt_absent [rotated])
    with 1 show ?thesis by (simp add: bt_values_def)
  next
    case 2
    then show ?thesis by (simp add: bt_values_def bt_get_def)
  next
    case 3
    then have "\<not> k < k'" and "k \<noteq> k'" by auto
    moreover have "bt_ok m" using "2.prems" by (simp add: bt_ok_Cons)
    ultimately show ?thesis
      using "2.IH" by (auto simp: bt_values_def bt_get_def split: if_splits)
  qed
qed

lemma bt_length_insert:
  "bt_ok m \<Longrightarrow> length (bt_insert k v m) = (if bt_get k m = None then Suc (length m) else length m)"
  using bt_count_insert [of m "\<lambda>_. True" k v]
  by (cases "bt_get k m") (simp_all add: bt_values_def)

end
