(* ===== verification/Remote_Core.thy ===== *)
theory Remote_Core
  imports Prelude
begin

text \<open>
  The vocabulary of crates/remote-core that every protocol adapter and the transfer engine
  share: reason codes, typed errors and retry dispositions (error.rs), remote paths, capability
  matrices and object identities (entry.rs), and the deadline-and-cancellation control that every
  I/O call carries (adapter.rs).
\<close>

section \<open>Reason codes and errors (error.rs)\<close>

datatype safe_reason = SafeReason string

datatype safe_reason_error = Reason_InvalidLength | Reason_InvalidCharacter

definition reason_char :: "char \<Rightarrow> bool" where
  "reason_char c =
     (let b = (of_char c :: nat)
      in (97 \<le> b \<and> b \<le> 122) \<or> (48 \<le> b \<and> b \<le> 57) \<or> b = 95 \<or> b = 46 \<or> b = 45)"

definition safe_reason_new :: "string \<Rightarrow> (safe_reason_error, safe_reason) result" where
  "safe_reason_new value =
     (if value = [] \<or> length value > 96 then Err Reason_InvalidLength
      else if \<not> list_all reason_char value then Err Reason_InvalidCharacter
      else Ok (SafeReason value))"

datatype remote_error_kind =
    Ek_Transport | Ek_Trust | Ek_Authentication | Ek_PermissionDenied | Ek_NotFound | Ek_Conflict
  | Ek_Unsupported | Ek_RateLimited | Ek_Timeout | Ek_RemoteProtocol | Ek_Cancelled
  | Ek_InvalidInput | Ek_SecretStore

datatype remote_operation =
    Op_Connect | Op_Disconnect | Op_List | Op_Stat | Op_Read | Op_Write | Op_CreateDirectory
  | Op_Rename | Op_Delete | Op_Resume | Op_ResolveSecret | Op_DeleteSecret

datatype retry_disposition = Retry_Never | Retry_Backoff | Retry_Reauthenticate | Retry_UserAction

fun disposition_retryable :: "retry_disposition \<Rightarrow> bool" where
  "disposition_retryable Retry_Never = False"
| "disposition_retryable _ = True"

record remote_error =
  re_kind :: remote_error_kind
  re_operation :: remote_operation
  re_reason :: safe_reason
  re_retry :: retry_disposition

definition remote_error_retryable :: "remote_error \<Rightarrow> bool" where
  "remote_error_retryable e = disposition_retryable (re_retry e)"

section \<open>Profile identifiers and protocols (profile.rs)\<close>

datatype profile_id = ProfileId uuid

fun profile_uuid :: "profile_id \<Rightarrow> uuid" where
  "profile_uuid (ProfileId u) = u"

datatype remote_protocol = Proto_Ssh | Proto_Sftp | Proto_Ftp | Proto_FtpsExplicit | Proto_Smb

section \<open>Paths, capabilities and identities (entry.rs)\<close>

datatype remote_path = RemotePath string

fun path_str :: "remote_path \<Rightarrow> string" where
  "path_str (RemotePath s) = s"

datatype remote_path_error = InvalidPath

definition remote_path_new :: "string \<Rightarrow> (remote_path_error, remote_path) result" where
  "remote_path_new value =
     (if value = [] \<or> length value > 16 * 1024 \<or> CHR 0x00 \<in> set value
      then Err InvalidPath else Ok (RemotePath value))"

datatype entry_kind = Entry_File | Entry_Directory | Entry_Symlink | Entry_Other

datatype file_operation =
    File_List | File_Stat | File_Read | File_Write | File_CreateDirectory | File_Rename
  | File_Delete | File_ResumeRead | File_ResumeWrite | File_AtomicRename | File_SetPermissions

definition FILE_OPERATIONS :: "file_operation list" where
  "FILE_OPERATIONS =
     [File_List, File_Stat, File_Read, File_Write, File_CreateDirectory, File_Rename,
      File_Delete, File_ResumeRead, File_ResumeWrite, File_AtomicRename, File_SetPermissions]"

datatype capability_status = Cap_Supported | Cap_Unsupported safe_reason

fun cap_is_supported :: "capability_status \<Rightarrow> bool" where
  "cap_is_supported Cap_Supported = True"
| "cap_is_supported (Cap_Unsupported _) = False"

record operation_capability =
  oc_operation :: file_operation
  oc_status :: capability_status

datatype capability_matrix = CapabilityMatrix "operation_capability list"

datatype capability_matrix_error = Matrix_Missing file_operation | Matrix_Duplicate file_operation

text \<open>\<open>CapabilityMatrix::complete\<close>: the loop over \<open>FILE_OPERATIONS\<close> stops at the first
  operation that is not represented exactly once.\<close>

fun matrix_check ::
  "operation_capability list \<Rightarrow> file_operation list \<Rightarrow> (capability_matrix_error, unit) result" where
  "matrix_check caps [] = Ok ()"
| "matrix_check caps (op # ops) =
     (let n = length (filter (\<lambda>c. oc_operation c = op) caps)
      in if n = 0 then Err (Matrix_Missing op)
         else if n = 1 then matrix_check caps ops
         else Err (Matrix_Duplicate op))"

definition matrix_complete ::
  "operation_capability list \<Rightarrow> (capability_matrix_error, capability_matrix) result" where
  "matrix_complete caps = and_then (matrix_check caps FILE_OPERATIONS) (\<lambda>_. Ok (CapabilityMatrix caps))"

text \<open>\<open>status\<close> panics on a missing operation (\<open>expect\<close>): \<^const>\<open>None\<close> is the panic.\<close>

fun matrix_status :: "capability_matrix \<Rightarrow> file_operation \<Rightarrow> capability_status option" where
  "matrix_status (CapabilityMatrix caps) op =
     map_option oc_status (find (\<lambda>c. oc_operation c = op) caps)"

record object_identity =
  oi_size_bytes :: "u64 option"
  oi_modified_at_unix_ms :: "i64 option"
  oi_etag :: "string option"

record remote_entry =
  ent_name :: string
  ent_path :: remote_path
  ent_kind :: entry_kind
  ent_identity :: object_identity
  ent_unix_mode :: "u32 option"
  ent_capabilities :: capability_matrix

section \<open>I/O control (adapter.rs)\<close>

text \<open>
  \<open>RemoteIoControl\<close> is a deadline and an \<open>Arc<AtomicBool>\<close>. Derived controls share the flag, so
  the flags live in an explicit store (a list of cells, an address is an index) and a control holds
  the address. \<open>Instant\<close> is a number of nanoseconds.
\<close>

type_synonym cells = "bool list"

record io_control =
  ctl_deadline :: nat
  ctl_cell :: nat

definition control_new :: "nat \<Rightarrow> cells \<Rightarrow> io_control \<times> cells" where
  "control_new deadline h = (\<lparr>ctl_deadline = deadline, ctl_cell = length h\<rparr>, h @ [False])"

definition control_with_deadline :: "io_control \<Rightarrow> nat \<Rightarrow> io_control" where
  "control_with_deadline c deadline =
     \<lparr>ctl_deadline = min deadline (ctl_deadline c), ctl_cell = ctl_cell c\<rparr>"

definition control_cancel :: "io_control \<Rightarrow> cells \<Rightarrow> cells" where
  "control_cancel c h = h[ctl_cell c := True]"

definition control_is_cancelled :: "cells \<Rightarrow> io_control \<Rightarrow> bool" where
  "control_is_cancelled h c = (ctl_cell c < length h \<and> h ! ctl_cell c)"

definition control_check ::
  "cells \<Rightarrow> nat \<Rightarrow> io_control \<Rightarrow> remote_operation \<Rightarrow> (remote_error, unit) result" where
  "control_check h now c op =
     (if control_is_cancelled h c
      then Err \<lparr>re_kind = Ek_Cancelled, re_operation = op,
                re_reason = SafeReason ''remote_io_cancelled'', re_retry = Retry_Never\<rparr>
      else if ctl_deadline c \<le> now
      then Err \<lparr>re_kind = Ek_Timeout, re_operation = op,
                re_reason = SafeReason ''remote_io_deadline_elapsed'', re_retry = Retry_Backoff\<rparr>
      else Ok ())"

datatype io_control_support = Control_Supported | Control_Unsupported safe_reason

definition MAX_REMOTE_CHUNK_BYTES :: nat where
  "MAX_REMOTE_CHUNK_BYTES = 1024 * 1024"

record remote_read_request =
  rr_path :: remote_path
  rr_offset :: u64
  rr_max_bytes :: u32
  rr_expected_identity :: "object_identity option"

record remote_read_chunk =
  rc_offset :: u64
  rc_bytes :: bytes
  rc_eof :: bool
  rc_identity :: object_identity

record begin_write_request =
  bw_final_path :: remote_path
  bw_temporary_path :: remote_path
  bw_expected_size_bytes :: "u64 option"
  bw_resume_from :: "u64 option"
  bw_expected_destination :: "object_identity option"

datatype remote_write_handle = RemoteWriteHandle uuid

record remote_write_receipt =
  rw_handle :: remote_write_handle
  rw_next_offset :: u64
  rw_identity :: "object_identity option"

section \<open>Lemmas\<close>

lemma safe_reason_new_Ok:
  "safe_reason_new s = Ok r \<longleftrightarrow>
     r = SafeReason s \<and> s \<noteq> [] \<and> length s \<le> 96 \<and> list_all reason_char s"
  by (auto simp: safe_reason_new_def)

lemma remote_path_new_Ok:
  "remote_path_new s = Ok p \<longleftrightarrow>
     p = RemotePath s \<and> s \<noteq> [] \<and> length s \<le> 16384 \<and> CHR 0x00 \<notin> set s"
  by (auto simp: remote_path_new_def)

lemma matrix_check_Ok:
  "matrix_check caps ops = Ok () \<longleftrightarrow>
     (\<forall>op \<in> set ops. length (filter (\<lambda>c. oc_operation c = op) caps) = 1)"
  by (induction ops) (auto simp: Let_def)

lemma FILE_OPERATIONS_all: "op \<in> set FILE_OPERATIONS"
  by (cases op) (simp_all add: FILE_OPERATIONS_def)

lemma find_of_filter_singleton:
  "filter P xs = [x] \<Longrightarrow> find P xs = Some x"
  by (induction xs) (auto split: if_splits)

text \<open>A completed matrix answers every query, with the status of the operation's only entry.\<close>

lemma matrix_complete_status:
  assumes "matrix_complete caps = Ok m"
  shows "\<exists>c. filter (\<lambda>c. oc_operation c = op) caps = [c] \<and> matrix_status m op = Some (oc_status c)"
proof -
  from assms have m: "m = CapabilityMatrix caps"
    and "length (filter (\<lambda>c. oc_operation c = op) caps) = 1"
    by (auto simp: matrix_complete_def matrix_check_Ok and_then_eq_Ok FILE_OPERATIONS_all)
  then obtain c where "filter (\<lambda>c. oc_operation c = op) caps = [c]"
    by (auto simp: length_Suc_conv)
  with m show ?thesis by (auto dest: find_of_filter_singleton)
qed

lemma matrix_complete_total: "matrix_complete caps = Ok m \<Longrightarrow> matrix_status m op \<noteq> None"
  using matrix_complete_status by fastforce

lemma control_check_Ok:
  "control_check h now c op = Ok () \<longleftrightarrow> \<not> control_is_cancelled h c \<and> now < ctl_deadline c"
  by (auto simp: control_check_def)

lemma control_derived_deadline:
  "ctl_deadline (control_with_deadline c d) \<le> ctl_deadline c"
  by (simp add: control_with_deadline_def)

lemma control_derived_cancelled:
  "control_is_cancelled h (control_with_deadline c d) = control_is_cancelled h c"
  by (simp add: control_is_cancelled_def control_with_deadline_def)

lemma control_cancel_seen:
  "ctl_cell c < length h \<Longrightarrow> ctl_cell c' = ctl_cell c \<Longrightarrow> control_is_cancelled (control_cancel c h) c'"
  by (simp add: control_is_cancelled_def control_cancel_def)

lemma control_cancel_frame:
  "ctl_cell c' \<noteq> ctl_cell c \<Longrightarrow>
   control_is_cancelled (control_cancel c h) c' = control_is_cancelled h c'"
  by (simp add: control_is_cancelled_def control_cancel_def)

end
