(* ===== verification/Transfer_Model.thy ===== *)
theory Transfer_Model
  imports Remote_Core
begin

text \<open>
  crates/transfers/src/model.rs: identifiers, endpoints and the direction check, the feature set an
  adapter's capabilities give, bandwidth limits, the retry policy with its exponential backoff, and
  progress records.
\<close>

section \<open>Identifiers and endpoints\<close>

datatype transfer_id = TransferId uuid

fun transfer_uuid :: "transfer_id \<Rightarrow> uuid" where
  "transfer_uuid (TransferId u) = u"

text \<open>\<open>TransferId\<close> derives \<open>Ord\<close> from its \<open>Uuid\<close>, which compares the 128-bit values.\<close>

instantiation transfer_id :: linorder
begin

definition less_eq_transfer_id :: "transfer_id \<Rightarrow> transfer_id \<Rightarrow> bool" where
  "less_eq_transfer_id a b = (transfer_uuid a \<le> transfer_uuid b)"

definition less_transfer_id :: "transfer_id \<Rightarrow> transfer_id \<Rightarrow> bool" where
  "less_transfer_id a b = (transfer_uuid a < transfer_uuid b)"

instance
proof
  fix x y z :: transfer_id
  show "(x < y) = (x \<le> y \<and> \<not> y \<le> x)"
    by (auto simp: less_eq_transfer_id_def less_transfer_id_def)
  show "x \<le> x" by (simp add: less_eq_transfer_id_def)
  show "x \<le> y \<Longrightarrow> y \<le> z \<Longrightarrow> x \<le> z" by (simp add: less_eq_transfer_id_def)
  show "x \<le> y \<Longrightarrow> y \<le> x \<Longrightarrow> x = y"
    by (cases x; cases y) (simp add: less_eq_transfer_id_def)
  show "x \<le> y \<or> y \<le> x" by (auto simp: less_eq_transfer_id_def)
qed

end

datatype local_file_handle = LocalFileHandle uuid

fun local_handle_uuid :: "local_file_handle \<Rightarrow> uuid" where
  "local_handle_uuid (LocalFileHandle u) = u"

record remote_transfer_endpoint =
  rte_profile_id :: profile_id
  rte_protocol :: remote_protocol
  rte_path :: remote_path

datatype transfer_endpoint = Ep_Local local_file_handle | Ep_Remote remote_transfer_endpoint

fun endpoint_remote :: "transfer_endpoint \<Rightarrow> remote_transfer_endpoint option" where
  "endpoint_remote (Ep_Local _) = None"
| "endpoint_remote (Ep_Remote r) = Some r"

datatype transfer_validation_error =
  Tv_DirectionEndpointMismatch | Tv_InvalidBandwidthLimit | Tv_InconsistentExpectedSize

datatype transfer_direction = Upload | Download

fun validate_endpoints ::
  "transfer_direction \<Rightarrow> transfer_endpoint \<Rightarrow> transfer_endpoint \<Rightarrow>
   (transfer_validation_error, unit) result" where
  "validate_endpoints Upload (Ep_Local _) (Ep_Remote _) = Ok ()"
| "validate_endpoints Download (Ep_Remote _) (Ep_Local _) = Ok ()"
| "validate_endpoints _ _ _ = Err Tv_DirectionEndpointMismatch"

fun resume_operation :: "transfer_direction \<Rightarrow> file_operation" where
  "resume_operation Upload = File_ResumeWrite"
| "resume_operation Download = File_ResumeRead"

section \<open>Features\<close>

datatype feature_support = Feature_Supported | Feature_Unsupported safe_reason

fun feature_is_supported :: "feature_support \<Rightarrow> bool" where
  "feature_is_supported Feature_Supported = True"
| "feature_is_supported (Feature_Unsupported _) = False"

fun feature_of_capability :: "capability_status \<Rightarrow> feature_support" where
  "feature_of_capability Cap_Supported = Feature_Supported"
| "feature_of_capability (Cap_Unsupported r) = Feature_Unsupported r"

datatype resume_validation = Rv_RemoteIdentity | Rv_SizeOnly

record transfer_feature_set =
  fs_pause :: feature_support
  fs_resume :: feature_support
  fs_resume_validation :: "resume_validation option"

fun protocol_resume_validation :: "remote_protocol \<Rightarrow> resume_validation" where
  "protocol_resume_validation Proto_Ftp = Rv_SizeOnly"
| "protocol_resume_validation Proto_FtpsExplicit = Rv_SizeOnly"
| "protocol_resume_validation Proto_Sftp = Rv_RemoteIdentity"
| "protocol_resume_validation Proto_Ssh = Rv_SizeOnly"
| "protocol_resume_validation Proto_Smb = Rv_SizeOnly"

text \<open>\<open>TransferFeatureSet::from_adapter\<close>; \<^const>\<open>None\<close> is the panic of \<open>CapabilityMatrix::status\<close>.\<close>

definition features_from_adapter ::
  "transfer_direction \<Rightarrow> remote_protocol \<Rightarrow> capability_matrix \<Rightarrow> transfer_feature_set option" where
  "features_from_adapter direction protocol caps =
     (case matrix_status caps (resume_operation direction) of
        None \<Rightarrow> None
      | Some st \<Rightarrow>
          let resume = feature_of_capability st
          in Some \<lparr>fs_pause =
                     Feature_Unsupported (SafeReason ''transfer_pause_requires_inflight_control''),
                   fs_resume = resume,
                   fs_resume_validation =
                     (if feature_is_supported resume
                      then Some (protocol_resume_validation protocol) else None)\<rparr>)"

datatype conflict_policy = Policy_Fail | Policy_Overwrite | Policy_Rename | Policy_Resume

section \<open>Bandwidth\<close>

definition MAX_BANDWIDTH_BYTES_PER_SECOND :: u64 where
  "MAX_BANDWIDTH_BYTES_PER_SECOND = 1024 * 1024 * 1024 * 1024"

text \<open>\<open>BandwidthLimit(Option<NonZeroU64>)\<close>: the constructor never stores 0.\<close>

type_synonym bandwidth_limit = "u64 option"

definition bandwidth_bytes_per_second ::
  "u64 \<Rightarrow> (transfer_validation_error, bandwidth_limit) result" where
  "bandwidth_bytes_per_second value =
     (if value = 0 then Err Tv_InvalidBandwidthLimit
      else if value > MAX_BANDWIDTH_BYTES_PER_SECOND then Err Tv_InvalidBandwidthLimit
      else Ok (Some value))"

section \<open>Retry policy\<close>

definition MAX_RETRY_ATTEMPTS :: u16 where
  "MAX_RETRY_ATTEMPTS = 20"

record retry_policy =
  rp_max_attempts :: u16
  rp_initial_backoff_ms :: u64
  rp_max_backoff_ms :: u64

datatype retry_policy_error = Rp_InvalidAttempts | Rp_InvalidBackoff

definition retry_policy_new ::
  "u16 \<Rightarrow> u64 \<Rightarrow> u64 \<Rightarrow> (retry_policy_error, retry_policy) result" where
  "retry_policy_new max_attempts initial_backoff_ms max_backoff_ms =
     (if max_attempts = 0 \<or> max_attempts > MAX_RETRY_ATTEMPTS then Err Rp_InvalidAttempts
      else if initial_backoff_ms = 0 \<or> max_backoff_ms < initial_backoff_ms
              \<or> max_backoff_ms > 24 * 60 * 60 * 1000
      then Err Rp_InvalidBackoff
      else Ok \<lparr>rp_max_attempts = max_attempts, rp_initial_backoff_ms = initial_backoff_ms,
               rp_max_backoff_ms = max_backoff_ms\<rparr>)"

definition retry_policy_default :: retry_policy where
  "retry_policy_default =
     \<lparr>rp_max_attempts = 5, rp_initial_backoff_ms = 1000, rp_max_backoff_ms = 60000\<rparr>"

definition backoff_ms :: "retry_policy \<Rightarrow> u16 \<Rightarrow> u64" where
  "backoff_ms p completed_attempts =
     (let exponent = unat (min (saturating_sub completed_attempts 1) 31)
      in min (saturating_mul (rp_initial_backoff_ms p) (push_bit exponent 1))
             (rp_max_backoff_ms p))"

section \<open>Progress\<close>

record transfer_progress =
  pg_bytes_transferred :: u64
  pg_total_bytes :: "u64 option"
  pg_bytes_per_second :: "u64 option"
  pg_sampled_at_unix_ms :: "i64 option"

definition progress_pending :: "u64 option \<Rightarrow> transfer_progress" where
  "progress_pending total_bytes =
     \<lparr>pg_bytes_transferred = 0, pg_total_bytes = total_bytes, pg_bytes_per_second = None,
      pg_sampled_at_unix_ms = None\<rparr>"

definition expected_size :: "object_identity option \<Rightarrow> u64 option" where
  "expected_size identity = Option.bind identity oi_size_bytes"

section \<open>Lemmas\<close>

lemma validate_endpoints_Ok:
  "validate_endpoints d s t = Ok () \<longleftrightarrow>
     (d = Upload \<and> (\<exists>h r. s = Ep_Local h \<and> t = Ep_Remote r)) \<or>
     (d = Download \<and> (\<exists>h r. s = Ep_Remote r \<and> t = Ep_Local h))"
  by (cases d; cases s; cases t) auto

lemma validate_endpoints_has_remote:
  "validate_endpoints d s t = Ok () \<Longrightarrow> opt_or (endpoint_remote s) (endpoint_remote t) \<noteq> None"
  by (auto simp: validate_endpoints_Ok)

lemma feature_is_supported_iff: "feature_is_supported s \<longleftrightarrow> s = Feature_Supported"
  by (cases s) simp_all

lemma features_from_adapter_consistent:
  "features_from_adapter d p m = Some f \<Longrightarrow>
   (fs_resume f = Feature_Supported) = (fs_resume_validation f \<noteq> None)"
  by (auto simp: features_from_adapter_def Let_def feature_is_supported_iff
      split: option.splits if_splits)

lemma retry_policy_new_Ok:
  "retry_policy_new a i m = Ok p \<longleftrightarrow>
     p = \<lparr>rp_max_attempts = a, rp_initial_backoff_ms = i, rp_max_backoff_ms = m\<rparr> \<and>
     0 < a \<and> a \<le> MAX_RETRY_ATTEMPTS \<and> 0 < i \<and> i \<le> m \<and> m \<le> 86400000"
  by (auto simp: retry_policy_new_def word_gt_0 not_less)

lemma unat_min: "unat (min a b) = min (unat a) (unat b)"
  by (simp add: min_def word_le_nat_alt)

lemma unat_push_bit_one: "e < 64 \<Longrightarrow> unat (push_bit e (1::u64)) = 2 ^ e"
  using unsigned_of_nat [of "2 ^ e", where 'b = 64, where 'a = nat]
  by (simp add: take_bit_nat_eq_self_iff)

text \<open>The backoff the code computes with saturation and a shift is the textbook one: the initial
  delay doubled once per completed attempt after the first, capped at the maximum.\<close>

definition backoff_reference :: "retry_policy \<Rightarrow> nat \<Rightarrow> nat" where
  "backoff_reference p n =
     min (unat (rp_initial_backoff_ms p) * 2 ^ min (n - 1) 31) (unat (rp_max_backoff_ms p))"

lemma backoff_ms_reference: "unat (backoff_ms p n) = backoff_reference p (unat n)"
proof -
  let ?e = "min (unat n - 1) 31"
  have e: "unat (min (saturating_sub n 1) 31) = ?e"
    by (simp add: unat_min unat_saturating_sub)
  have pow: "unat (push_bit ?e (1::u64)) = 2 ^ ?e"
    by (rule unat_push_bit_one) simp
  have "unat (rp_max_backoff_ms p) \<le> 2 ^ LENGTH(64) - 1"
    using unat_less_pow [of "rp_max_backoff_ms p"] by simp
  then have "min (min x (2 ^ LENGTH(64) - 1)) (unat (rp_max_backoff_ms p))
      = min x (unat (rp_max_backoff_ms p))" for x
    by linarith
  then show ?thesis
    unfolding backoff_ms_def backoff_reference_def Let_def e
    unfolding unat_min unat_saturating_mul pow .
qed

lemma backoff_ms_le_max: "backoff_ms p n \<le> rp_max_backoff_ms p"
  by (simp add: backoff_ms_def Let_def)

lemma backoff_reference_mono: "m \<le> n \<Longrightarrow> backoff_reference p m \<le> backoff_reference p n"
proof -
  assume "m \<le> n"
  then have "(2::nat) ^ min (m - 1) 31 \<le> 2 ^ min (n - 1) 31"
    by (intro power_increasing) auto
  then have "unat (rp_initial_backoff_ms p) * 2 ^ min (m - 1) 31
      \<le> unat (rp_initial_backoff_ms p) * 2 ^ min (n - 1) 31"
    by (rule mult_le_mono2)
  then show ?thesis
    unfolding backoff_reference_def by (rule min.mono) simp
qed

end
