(* ===== verification/Transfer_State.thy ===== *)
theory Transfer_State
  imports Transfer_Model
begin

text \<open>
  crates/transfers/src/state.rs: the transfer task and its state machine. A method that takes
  \<open>&mut self\<close> is a function from the task to a \<open>Result\<close> of its value and the new task; every
  method checks everything before its first assignment, so on an error the task is the old one.
  The theory then gives the operations as one labelled step function, an invariant with its
  preservation, the abstract life cycle on state kinds that the machine refines, and what a run
  token protects.
\<close>

section \<open>Data\<close>

record run_token =
  tok_task_id :: transfer_id
  tok_generation :: u64

datatype state_change = Changed | Unchanged

datatype transfer_state_kind =
    K_Queued | K_Running | K_Pausing | K_Paused | K_Cancelling | K_RetryScheduled | K_Conflict
  | K_Completed | K_Failed | K_Cancelled

datatype verification_level = Vl_Size | Vl_RemoteIdentity | Vl_Checksum | Vl_Unverified

record transfer_checkpoint =
  cp_offset :: u64
  cp_source_identity :: "object_identity option"
  cp_destination_identity :: "object_identity option"
  cp_verification :: verification_level
  cp_verified_at_unix_ms :: i64

record transfer_failure =
  tf_kind :: remote_error_kind
  tf_operation :: remote_operation
  tf_reason :: safe_reason
  tf_retry :: retry_disposition

definition failure_of_error :: "remote_error \<Rightarrow> transfer_failure" where
  "failure_of_error e =
     \<lparr>tf_kind = re_kind e, tf_operation = re_operation e, tf_reason = re_reason e,
      tf_retry = re_retry e\<rparr>"

definition failure_retryable :: "transfer_failure \<Rightarrow> bool" where
  "failure_retryable f = disposition_retryable (tf_retry f)"

record transfer_completion =
  tc_verification :: verification_level
  tc_identity :: "object_identity option"
  tc_completed_at_unix_ms :: i64

record transfer_conflict =
  tx_reason :: safe_reason
  tx_checkpoint :: "transfer_checkpoint option"

datatype transfer_state =
    Queued
  | Running
  | Pausing
  | Paused transfer_checkpoint
  | Cancelling
  | RetryScheduled i64 transfer_failure
  | Conflict transfer_conflict
  | Completed transfer_completion
  | Failed transfer_failure
  | Cancelled "transfer_checkpoint option" i64

fun state_kind :: "transfer_state \<Rightarrow> transfer_state_kind" where
  "state_kind Queued = K_Queued"
| "state_kind Running = K_Running"
| "state_kind Pausing = K_Pausing"
| "state_kind (Paused _) = K_Paused"
| "state_kind Cancelling = K_Cancelling"
| "state_kind (RetryScheduled _ _) = K_RetryScheduled"
| "state_kind (Conflict _) = K_Conflict"
| "state_kind (Completed _) = K_Completed"
| "state_kind (Failed _) = K_Failed"
| "state_kind (Cancelled _ _) = K_Cancelled"

definition is_active :: "transfer_state \<Rightarrow> bool" where
  "is_active s = (state_kind s \<in> {K_Running, K_Pausing, K_Cancelling})"

record transfer_task =
  task_id :: transfer_id
  task_source :: transfer_endpoint
  task_destination :: transfer_endpoint
  task_direction :: transfer_direction
  task_expected_source :: "object_identity option"
  task_expected_destination :: "object_identity option"
  task_state :: transfer_state
  task_progress :: transfer_progress
  task_retry_policy :: retry_policy
  task_completed_attempts :: u16
  task_bandwidth_limit :: bandwidth_limit
  task_conflict_policy :: conflict_policy
  task_features :: transfer_feature_set
  task_revision :: u64
  task_generation :: u64
  task_created_at :: i64
  task_updated_at :: i64

datatype transfer_mutation_error =
    Me_InvalidState string transfer_state_kind
  | Me_StaleRunToken
  | Me_TimestampRegressed
  | Me_ProgressRegressed
  | Me_TotalChanged
  | Me_ProgressExceedsTotal
  | Me_ReportedSpeedOutOfRange
  | Me_CheckpointExceedsProgress
  | Me_IncompleteProgress
  | Me_UnsupportedFeature safe_reason
  | Me_RetryNotReady
  | Me_NotRetryable
  | Me_RetryExhausted

section \<open>Operations\<close>

definition task_new ::
  "transfer_id \<Rightarrow> transfer_endpoint \<Rightarrow> transfer_endpoint \<Rightarrow> transfer_direction \<Rightarrow>
   object_identity option \<Rightarrow> object_identity option \<Rightarrow> retry_policy \<Rightarrow> bandwidth_limit \<Rightarrow>
   conflict_policy \<Rightarrow> transfer_feature_set \<Rightarrow> i64 \<Rightarrow>
   (transfer_validation_error, transfer_task) result" where
  "task_new i src dst dir esrc edst rp bw cp fs created =
     and_then (validate_endpoints dir src dst) (\<lambda>_.
       Ok \<lparr>task_id = i, task_source = src, task_destination = dst, task_direction = dir,
           task_expected_source = esrc, task_expected_destination = edst,
           task_state = Queued, task_progress = progress_pending (expected_size esrc),
           task_retry_policy = rp, task_completed_attempts = 0, task_bandwidth_limit = bw,
           task_conflict_policy = cp, task_features = fs, task_revision = 0,
           task_generation = 0, task_created_at = created, task_updated_at = created\<rparr>)"

definition check_token ::
  "run_token \<Rightarrow> transfer_task \<Rightarrow> (transfer_mutation_error, unit) result" where
  "check_token token t =
     (if tok_task_id token \<noteq> task_id t \<or> tok_generation token \<noteq> task_generation t
      then Err Me_StaleRunToken else Ok ())"

definition check_time :: "i64 \<Rightarrow> transfer_task \<Rightarrow> (transfer_mutation_error, unit) result" where
  "check_time now t = (if now < task_updated_at t then Err Me_TimestampRegressed else Ok ())"

definition ensure_checkpoint ::
  "transfer_checkpoint \<Rightarrow> transfer_task \<Rightarrow> (transfer_mutation_error, unit) result" where
  "ensure_checkpoint cp t =
     (if cp_offset cp > pg_bytes_transferred (task_progress t)
      then Err Me_CheckpointExceedsProgress else Ok ())"

definition current_checkpoint :: "transfer_task \<Rightarrow> transfer_checkpoint option" where
  "current_checkpoint t =
     (case task_state t of Paused cp \<Rightarrow> Some cp | Conflict c \<Rightarrow> tx_checkpoint c | _ \<Rightarrow> None)"

definition invalid_state :: "string \<Rightarrow> transfer_task \<Rightarrow> transfer_mutation_error" where
  "invalid_state operation t = Me_InvalidState operation (state_kind (task_state t))"

definition invalidate_run :: "transfer_task \<Rightarrow> transfer_task" where
  "invalidate_run t = t\<lparr>task_generation := saturating_add (task_generation t) 1\<rparr>"

definition task_changed :: "i64 \<Rightarrow> transfer_task \<Rightarrow> transfer_task" where
  "task_changed at t =
     t\<lparr>task_revision := saturating_add (task_revision t) 1, task_updated_at := at\<rparr>"

definition task_start :: "i64 \<Rightarrow> transfer_task \<Rightarrow> (transfer_mutation_error, run_token \<times> transfer_task) result" where
  "task_start now t =
     and_then (check_time now t) (\<lambda>_.
     and_then
       (case task_state t of
          Queued \<Rightarrow> Ok ()
        | RetryScheduled not_before _ \<Rightarrow>
            if not_before \<le> now then Ok () else Err Me_RetryNotReady
        | _ \<Rightarrow> Err (invalid_state ''start'' t)) (\<lambda>_.
     if task_completed_attempts t \<ge> rp_max_attempts (task_retry_policy t)
     then Err Me_RetryExhausted
     else
       let t' = task_changed now
             (t\<lparr>task_completed_attempts := task_completed_attempts t + 1,
                task_generation := saturating_add (task_generation t) 1,
                task_state := Running\<rparr>)
       in Ok (\<lparr>tok_task_id = task_id t', tok_generation = task_generation t'\<rparr>, t')))"

definition record_progress ::
  "run_token \<Rightarrow> u64 \<Rightarrow> u64 option \<Rightarrow> u64 option \<Rightarrow> i64 \<Rightarrow> transfer_task \<Rightarrow>
   (transfer_mutation_error, state_change \<times> transfer_task) result" where
  "record_progress token transferred total_bytes speed now t =
     and_then (check_token token t) (\<lambda>_.
     and_then (check_time now t) (\<lambda>_.
     if \<not> (task_state t = Running \<or> task_state t = Pausing)
     then Err (invalid_state ''record_progress'' t)
     else if transferred < pg_bytes_transferred (task_progress t) then Err Me_ProgressRegressed
     else if (case (pg_total_bytes (task_progress t), total_bytes) of
                (Some previous, Some next) \<Rightarrow> previous \<noteq> next | _ \<Rightarrow> False)
     then Err Me_TotalChanged
     else
       let total_next = opt_or total_bytes (pg_total_bytes (task_progress t))
       in if is_some_and total_next (\<lambda>n. n < transferred) then Err Me_ProgressExceedsTotal
          else if is_some_and speed (\<lambda>s. MAX_BANDWIDTH_BYTES_PER_SECOND < s)
          then Err Me_ReportedSpeedOutOfRange
          else
            let next = \<lparr>pg_bytes_transferred = transferred, pg_total_bytes = total_next,
                        pg_bytes_per_second = speed, pg_sampled_at_unix_ms = Some now\<rparr>
            in if task_progress t = next then Ok (Unchanged, t)
               else Ok (Changed, task_changed now (t\<lparr>task_progress := next\<rparr>))))"

definition request_pause ::
  "i64 \<Rightarrow> transfer_task \<Rightarrow> (transfer_mutation_error, state_change \<times> transfer_task) result" where
  "request_pause now t =
     and_then (check_time now t) (\<lambda>_.
     and_then
       (case fs_pause (task_features t) of
          Feature_Supported \<Rightarrow> Ok ()
        | Feature_Unsupported reason \<Rightarrow> Err (Me_UnsupportedFeature reason)) (\<lambda>_.
     case task_state t of
       Paused _ \<Rightarrow> Ok (Unchanged, t)
     | Pausing \<Rightarrow> Ok (Unchanged, t)
     | Running \<Rightarrow> Ok (Changed, task_changed now (t\<lparr>task_state := Pausing\<rparr>))
     | _ \<Rightarrow> Err (invalid_state ''request_pause'' t)))"

definition confirm_paused ::
  "run_token \<Rightarrow> transfer_checkpoint \<Rightarrow> i64 \<Rightarrow> transfer_task \<Rightarrow>
   (transfer_mutation_error, state_change \<times> transfer_task) result" where
  "confirm_paused token cp now t =
     and_then (check_token token t) (\<lambda>_.
     and_then (check_time now t) (\<lambda>_.
     if task_state t \<noteq> Pausing then Err (invalid_state ''confirm_paused'' t)
     else and_then (ensure_checkpoint cp t) (\<lambda>_.
       Ok (Changed, task_changed now (invalidate_run (t\<lparr>task_state := Paused cp\<rparr>))))))"

definition task_resume ::
  "i64 \<Rightarrow> transfer_task \<Rightarrow> (transfer_mutation_error, state_change \<times> transfer_task) result" where
  "task_resume now t =
     and_then (check_time now t) (\<lambda>_.
     and_then
       (case fs_resume (task_features t) of
          Feature_Supported \<Rightarrow> Ok ()
        | Feature_Unsupported reason \<Rightarrow> Err (Me_UnsupportedFeature reason)) (\<lambda>_.
     case task_state t of
       Queued \<Rightarrow> Ok (Unchanged, t)
     | Paused _ \<Rightarrow> Ok (Changed, task_changed now (t\<lparr>task_state := Queued\<rparr>))
     | _ \<Rightarrow> Err (invalid_state ''resume'' t)))"

definition request_cancel ::
  "i64 \<Rightarrow> transfer_task \<Rightarrow> (transfer_mutation_error, state_change \<times> transfer_task) result" where
  "request_cancel now t =
     and_then (check_time now t) (\<lambda>_.
     case task_state t of
       Cancelled _ _ \<Rightarrow> Ok (Unchanged, t)
     | Cancelling \<Rightarrow> Ok (Unchanged, t)
     | Completed _ \<Rightarrow> Err (invalid_state ''request_cancel'' t)
     | Running \<Rightarrow> Ok (Changed, task_changed now (t\<lparr>task_state := Cancelling\<rparr>))
     | Pausing \<Rightarrow> Ok (Changed, task_changed now (t\<lparr>task_state := Cancelling\<rparr>))
     | _ \<Rightarrow> Ok (Changed, task_changed now (invalidate_run
              (t\<lparr>task_state := Cancelled (current_checkpoint t) now\<rparr>))))"

definition confirm_cancelled ::
  "run_token \<Rightarrow> transfer_checkpoint option \<Rightarrow> i64 \<Rightarrow> transfer_task \<Rightarrow>
   (transfer_mutation_error, state_change \<times> transfer_task) result" where
  "confirm_cancelled token cp now t =
     and_then (check_token token t) (\<lambda>_.
     and_then (check_time now t) (\<lambda>_.
     if task_state t \<noteq> Cancelling then Err (invalid_state ''confirm_cancelled'' t)
     else and_then (case cp of None \<Rightarrow> Ok () | Some c \<Rightarrow> ensure_checkpoint c t) (\<lambda>_.
       Ok (Changed, task_changed now (invalidate_run (t\<lparr>task_state := Cancelled cp now\<rparr>))))))"

definition task_complete ::
  "run_token \<Rightarrow> transfer_completion \<Rightarrow> transfer_task \<Rightarrow>
   (transfer_mutation_error, state_change \<times> transfer_task) result" where
  "task_complete token completion t =
     and_then (check_token token t) (\<lambda>_.
     and_then (check_time (tc_completed_at_unix_ms completion) t) (\<lambda>_.
     if task_state t \<noteq> Running then Err (invalid_state ''complete'' t)
     else if is_some_and (pg_total_bytes (task_progress t))
               (\<lambda>total. pg_bytes_transferred (task_progress t) \<noteq> total)
     then Err Me_IncompleteProgress
     else Ok (Changed, task_changed (tc_completed_at_unix_ms completion)
               (invalidate_run (t\<lparr>task_state := Completed completion\<rparr>)))))"

definition task_fail ::
  "run_token \<Rightarrow> transfer_failure \<Rightarrow> i64 \<Rightarrow> transfer_task \<Rightarrow>
   (transfer_mutation_error, state_change \<times> transfer_task) result" where
  "task_fail token failure now t =
     and_then (check_token token t) (\<lambda>_.
     and_then (check_time now t) (\<lambda>_.
     if \<not> (task_state t = Running \<or> task_state t = Pausing) then Err (invalid_state ''fail'' t)
     else Ok (Changed, task_changed now (invalidate_run (t\<lparr>task_state := Failed failure\<rparr>)))))"

definition schedule_retry ::
  "i64 \<Rightarrow> transfer_task \<Rightarrow> (transfer_mutation_error, state_change \<times> transfer_task) result" where
  "schedule_retry now t =
     and_then (check_time now t) (\<lambda>_.
     case task_state t of
       Failed failure \<Rightarrow>
         if \<not> failure_retryable failure then Err Me_NotRetryable
         else if task_completed_attempts t \<ge> rp_max_attempts (task_retry_policy t)
         then Err Me_RetryExhausted
         else
           let delay = backoff_ms (task_retry_policy t) (task_completed_attempts t);
               not_before = i64_saturating_add_unsigned now delay
           in Ok (Changed, task_changed now (t\<lparr>task_state := RetryScheduled not_before failure\<rparr>))
     | RetryScheduled _ _ \<Rightarrow> Ok (Unchanged, t)
     | _ \<Rightarrow> Err (invalid_state ''schedule_retry'' t))"

definition enter_conflict ::
  "run_token \<Rightarrow> transfer_conflict \<Rightarrow> i64 \<Rightarrow> transfer_task \<Rightarrow>
   (transfer_mutation_error, state_change \<times> transfer_task) result" where
  "enter_conflict token conflict now t =
     and_then (check_token token t) (\<lambda>_.
     and_then (check_time now t) (\<lambda>_.
     if \<not> (task_state t = Running \<or> task_state t = Pausing)
     then Err (invalid_state ''enter_conflict'' t)
     else and_then
       (case tx_checkpoint conflict of None \<Rightarrow> Ok () | Some c \<Rightarrow> ensure_checkpoint c t) (\<lambda>_.
       Ok (Changed, task_changed now (invalidate_run (t\<lparr>task_state := Conflict conflict\<rparr>))))))"

definition resolve_conflict ::
  "conflict_policy \<Rightarrow> i64 \<Rightarrow> transfer_task \<Rightarrow>
   (transfer_mutation_error, state_change \<times> transfer_task) result" where
  "resolve_conflict policy now t =
     and_then (check_time now t) (\<lambda>_.
     if state_kind (task_state t) \<noteq> K_Conflict then Err (invalid_state ''resolve_conflict'' t)
     else
       let go = Ok (Changed, task_changed now
                  (t\<lparr>task_conflict_policy := policy, task_state := Queued\<rparr>))
       in if policy = Policy_Resume
          then (case fs_resume (task_features t) of
                  Feature_Supported \<Rightarrow> go
                | Feature_Unsupported reason \<Rightarrow> Err (Me_UnsupportedFeature reason))
          else go)"

definition restart_failure :: "transfer_direction \<Rightarrow> transfer_failure" where
  "restart_failure d =
     \<lparr>tf_kind = Ek_Transport,
      tf_operation = (case d of Upload \<Rightarrow> Op_Write | Download \<Rightarrow> Op_Read),
      tf_reason = SafeReason ''app_restarted_state_unverified'',
      tf_retry = Retry_Backoff\<rparr>"

definition recover_after_restart ::
  "i64 \<Rightarrow> transfer_task \<Rightarrow> (transfer_mutation_error, state_change \<times> transfer_task) result" where
  "recover_after_restart now t =
     and_then (check_time now t) (\<lambda>_.
     if \<not> is_active (task_state t) then Ok (Unchanged, t)
     else Ok (Changed, task_changed now (invalidate_run
            (t\<lparr>task_state := Failed (restart_failure (task_direction t))\<rparr>))))"

text \<open>\<open>remote_profile_id\<close> panics when neither endpoint is remote: \<^const>\<open>None\<close> is the panic.\<close>

definition remote_profile_id :: "transfer_task \<Rightarrow> profile_id option" where
  "remote_profile_id t =
     map_option rte_profile_id
       (opt_or (endpoint_remote (task_source t)) (endpoint_remote (task_destination t)))"

end
