(* ===== verification/Transfer_Machine.thy ===== *)
theory Transfer_Machine
  imports Transfer_State
begin

text \<open>
  The transfer task as a machine. The mutating methods of state.rs become one labelled step
  function; each has an inversion lemma that says exactly when it succeeds and what the new task
  is. On top of them: the task invariant and its preservation, the life cycle on state kinds as
  an abstract transition system that the machine refines and that contains no superfluous edge,
  what a run token protects, the bound on the number of starts, and the effect of a restart.
\<close>

section \<open>The step function\<close>

datatype task_op =
    Do_start i64
  | Do_record_progress run_token u64 "u64 option" "u64 option" i64
  | Do_request_pause i64
  | Do_confirm_paused run_token transfer_checkpoint i64
  | Do_resume i64
  | Do_request_cancel i64
  | Do_confirm_cancelled run_token "transfer_checkpoint option" i64
  | Do_complete run_token transfer_completion
  | Do_fail run_token transfer_failure i64
  | Do_schedule_retry i64
  | Do_enter_conflict run_token transfer_conflict i64
  | Do_resolve_conflict conflict_policy i64
  | Do_recover i64

fun run_op :: "task_op \<Rightarrow> transfer_task \<Rightarrow> (transfer_mutation_error, transfer_task) result" where
  "run_op (Do_start now) t = map_sum id snd (task_start now t)"
| "run_op (Do_record_progress tok b n s now) t = map_sum id snd (record_progress tok b n s now t)"
| "run_op (Do_request_pause now) t = map_sum id snd (request_pause now t)"
| "run_op (Do_confirm_paused tok cp now) t = map_sum id snd (confirm_paused tok cp now t)"
| "run_op (Do_resume now) t = map_sum id snd (task_resume now t)"
| "run_op (Do_request_cancel now) t = map_sum id snd (request_cancel now t)"
| "run_op (Do_confirm_cancelled tok cp now) t = map_sum id snd (confirm_cancelled tok cp now t)"
| "run_op (Do_complete tok c) t = map_sum id snd (task_complete tok c t)"
| "run_op (Do_fail tok f now) t = map_sum id snd (task_fail tok f now t)"
| "run_op (Do_schedule_retry now) t = map_sum id snd (schedule_retry now t)"
| "run_op (Do_enter_conflict tok c now) t = map_sum id snd (enter_conflict tok c now t)"
| "run_op (Do_resolve_conflict p now) t = map_sum id snd (resolve_conflict p now t)"
| "run_op (Do_recover now) t = map_sum id snd (recover_after_restart now t)"

fun op_time :: "task_op \<Rightarrow> i64" where
  "op_time (Do_start now) = now"
| "op_time (Do_record_progress _ _ _ _ now) = now"
| "op_time (Do_request_pause now) = now"
| "op_time (Do_confirm_paused _ _ now) = now"
| "op_time (Do_resume now) = now"
| "op_time (Do_request_cancel now) = now"
| "op_time (Do_confirm_cancelled _ _ now) = now"
| "op_time (Do_complete _ c) = tc_completed_at_unix_ms c"
| "op_time (Do_fail _ _ now) = now"
| "op_time (Do_schedule_retry now) = now"
| "op_time (Do_enter_conflict _ _ now) = now"
| "op_time (Do_resolve_conflict _ now) = now"
| "op_time (Do_recover now) = now"

fun op_token :: "task_op \<Rightarrow> run_token option" where
  "op_token (Do_record_progress tok _ _ _ _) = Some tok"
| "op_token (Do_confirm_paused tok _ _) = Some tok"
| "op_token (Do_confirm_cancelled tok _ _) = Some tok"
| "op_token (Do_complete tok _) = Some tok"
| "op_token (Do_fail tok _ _) = Some tok"
| "op_token (Do_enter_conflict tok _ _) = Some tok"
| "op_token _ = None"

definition is_start :: "task_op \<Rightarrow> bool" where
  "is_start op = (case op of Do_start _ \<Rightarrow> True | _ \<Rightarrow> False)"

section \<open>When an operation succeeds\<close>

named_theorems op_ok "inversion of the successful operations"

lemma check_token_Ok:
  "check_token tok t = Ok () \<longleftrightarrow> tok_task_id tok = task_id t \<and> tok_generation tok = task_generation t"
  by (auto simp: check_token_def)

lemma check_time_Ok: "check_time now t = Ok () \<longleftrightarrow> task_updated_at t \<le> now"
  by (auto simp: check_time_def)

lemma ensure_checkpoint_Ok:
  "ensure_checkpoint cp t = Ok () \<longleftrightarrow> cp_offset cp \<le> pg_bytes_transferred (task_progress t)"
  by (auto simp: ensure_checkpoint_def)

lemmas guard_ok = check_token_Ok check_time_Ok ensure_checkpoint_Ok and_then_eq_Ok

definition runnable :: "i64 \<Rightarrow> transfer_state \<Rightarrow> bool" where
  "runnable now s = (case s of Queued \<Rightarrow> True | RetryScheduled nb _ \<Rightarrow> nb \<le> now | _ \<Rightarrow> False)"

lemma task_start_Ok [op_ok]:
  "task_start now t = Ok (tok, t') \<longleftrightarrow>
     task_updated_at t \<le> now \<and> runnable now (task_state t) \<and>
     task_completed_attempts t < rp_max_attempts (task_retry_policy t) \<and>
     tok = \<lparr>tok_task_id = task_id t, tok_generation = saturating_add (task_generation t) 1\<rparr> \<and>
     t' = task_changed now (invalidate_run
       (t\<lparr>task_completed_attempts := task_completed_attempts t + 1, task_state := Running\<rparr>))"
  by (auto simp: task_start_def guard_ok runnable_def Let_def task_changed_def invalidate_run_def
      split: transfer_state.splits if_splits)

definition total_after :: "u64 option \<Rightarrow> transfer_task \<Rightarrow> u64 option" where
  "total_after n t = opt_or n (pg_total_bytes (task_progress t))"

lemma record_progress_Ok [op_ok]:
  "record_progress tok b n s now t = Ok (ch, t') \<longleftrightarrow>
     check_token tok t = Ok () \<and> task_updated_at t \<le> now \<and>
     (task_state t = Running \<or> task_state t = Pausing) \<and>
     pg_bytes_transferred (task_progress t) \<le> b \<and>
     (\<forall>p q. pg_total_bytes (task_progress t) = Some p \<and> n = Some q \<longrightarrow> p = q) \<and>
     is_none_or (total_after n t) (\<lambda>m. b \<le> m) \<and>
     is_none_or s (\<lambda>v. v \<le> MAX_BANDWIDTH_BYTES_PER_SECOND) \<and>
     (let next = \<lparr>pg_bytes_transferred = b, pg_total_bytes = total_after n t,
                  pg_bytes_per_second = s, pg_sampled_at_unix_ms = Some now\<rparr>
      in if task_progress t = next then ch = Unchanged \<and> t' = t
         else ch = Changed \<and> t' = task_changed now (t\<lparr>task_progress := next\<rparr>))"
  unfolding record_progress_def total_after_def Let_def
  by (auto simp: guard_ok is_some_and_def is_none_or_def
      split: option.splits if_splits)

lemma request_pause_Ok [op_ok]:
  "request_pause now t = Ok (ch, t') \<longleftrightarrow>
     task_updated_at t \<le> now \<and> fs_pause (task_features t) = Feature_Supported \<and>
     (task_state t = Running \<and> ch = Changed \<and> t' = task_changed now (t\<lparr>task_state := Pausing\<rparr>) \<or>
      (task_state t = Pausing \<or> (\<exists>cp. task_state t = Paused cp)) \<and> ch = Unchanged \<and> t' = t)"
  by (auto simp: request_pause_def guard_ok split: transfer_state.splits feature_support.splits)

lemma confirm_paused_Ok [op_ok]:
  "confirm_paused tok cp now t = Ok (ch, t') \<longleftrightarrow>
     check_token tok t = Ok () \<and> task_updated_at t \<le> now \<and> task_state t = Pausing \<and>
     cp_offset cp \<le> pg_bytes_transferred (task_progress t) \<and> ch = Changed \<and>
     t' = task_changed now (invalidate_run (t\<lparr>task_state := Paused cp\<rparr>))"
  by (auto simp: confirm_paused_def guard_ok split: if_splits)

lemma task_resume_Ok [op_ok]:
  "task_resume now t = Ok (ch, t') \<longleftrightarrow>
     task_updated_at t \<le> now \<and> fs_resume (task_features t) = Feature_Supported \<and>
     (task_state t = Queued \<and> ch = Unchanged \<and> t' = t \<or>
      (\<exists>cp. task_state t = Paused cp) \<and> ch = Changed \<and>
      t' = task_changed now (t\<lparr>task_state := Queued\<rparr>))"
  by (auto simp: task_resume_def guard_ok split: transfer_state.splits feature_support.splits)

lemma request_cancel_Ok [op_ok]:
  "request_cancel now t = Ok (ch, t') \<longleftrightarrow>
     task_updated_at t \<le> now \<and>
     (case state_kind (task_state t) of
        K_Cancelled \<Rightarrow> ch = Unchanged \<and> t' = t
      | K_Cancelling \<Rightarrow> ch = Unchanged \<and> t' = t
      | K_Completed \<Rightarrow> False
      | K_Running \<Rightarrow> ch = Changed \<and> t' = task_changed now (t\<lparr>task_state := Cancelling\<rparr>)
      | K_Pausing \<Rightarrow> ch = Changed \<and> t' = task_changed now (t\<lparr>task_state := Cancelling\<rparr>)
      | _ \<Rightarrow> ch = Changed \<and> t' = task_changed now (invalidate_run
               (t\<lparr>task_state := Cancelled (current_checkpoint t) now\<rparr>)))"
  by (cases "task_state t") (auto simp: request_cancel_def guard_ok)

lemma confirm_cancelled_Ok [op_ok]:
  "confirm_cancelled tok cp now t = Ok (ch, t') \<longleftrightarrow>
     check_token tok t = Ok () \<and> task_updated_at t \<le> now \<and> task_state t = Cancelling \<and>
     is_none_or cp (\<lambda>c. cp_offset c \<le> pg_bytes_transferred (task_progress t)) \<and> ch = Changed \<and>
     t' = task_changed now (invalidate_run (t\<lparr>task_state := Cancelled cp now\<rparr>))"
  by (auto simp: confirm_cancelled_def guard_ok is_none_or_def split: if_splits option.splits)

lemma task_complete_Ok [op_ok]:
  "task_complete tok c t = Ok (ch, t') \<longleftrightarrow>
     check_token tok t = Ok () \<and> task_updated_at t \<le> tc_completed_at_unix_ms c \<and>
     task_state t = Running \<and>
     is_none_or (pg_total_bytes (task_progress t)) (\<lambda>n. pg_bytes_transferred (task_progress t) = n) \<and>
     ch = Changed \<and>
     t' = task_changed (tc_completed_at_unix_ms c) (invalidate_run (t\<lparr>task_state := Completed c\<rparr>))"
  by (auto simp: task_complete_def guard_ok is_none_or_def is_some_and_def
      split: if_splits option.splits)

lemma task_fail_Ok [op_ok]:
  "task_fail tok f now t = Ok (ch, t') \<longleftrightarrow>
     check_token tok t = Ok () \<and> task_updated_at t \<le> now \<and>
     (task_state t = Running \<or> task_state t = Pausing) \<and> ch = Changed \<and>
     t' = task_changed now (invalidate_run (t\<lparr>task_state := Failed f\<rparr>))"
  by (auto simp: task_fail_def guard_ok split: if_splits)

definition retry_at :: "i64 \<Rightarrow> transfer_task \<Rightarrow> i64" where
  "retry_at now t =
     i64_saturating_add_unsigned now (backoff_ms (task_retry_policy t) (task_completed_attempts t))"

lemma schedule_retry_Ok [op_ok]:
  "schedule_retry now t = Ok (ch, t') \<longleftrightarrow>
     task_updated_at t \<le> now \<and>
     ((\<exists>f. task_state t = Failed f \<and> failure_retryable f \<and>
           task_completed_attempts t < rp_max_attempts (task_retry_policy t) \<and> ch = Changed \<and>
           t' = task_changed now (t\<lparr>task_state := RetryScheduled (retry_at now t) f\<rparr>)) \<or>
      state_kind (task_state t) = K_RetryScheduled \<and> ch = Unchanged \<and> t' = t)"
  by (cases "task_state t") (auto simp: schedule_retry_def guard_ok retry_at_def Let_def)

lemma enter_conflict_Ok [op_ok]:
  "enter_conflict tok c now t = Ok (ch, t') \<longleftrightarrow>
     check_token tok t = Ok () \<and> task_updated_at t \<le> now \<and>
     (task_state t = Running \<or> task_state t = Pausing) \<and>
     is_none_or (tx_checkpoint c) (\<lambda>c. cp_offset c \<le> pg_bytes_transferred (task_progress t)) \<and>
     ch = Changed \<and> t' = task_changed now (invalidate_run (t\<lparr>task_state := Conflict c\<rparr>))"
  by (auto simp: enter_conflict_def guard_ok is_none_or_def split: if_splits option.splits)

lemma resolve_conflict_Ok [op_ok]:
  "resolve_conflict p now t = Ok (ch, t') \<longleftrightarrow>
     task_updated_at t \<le> now \<and> state_kind (task_state t) = K_Conflict \<and>
     (p = Policy_Resume \<longrightarrow> fs_resume (task_features t) = Feature_Supported) \<and> ch = Changed \<and>
     t' = task_changed now (t\<lparr>task_conflict_policy := p, task_state := Queued\<rparr>)"
  by (auto simp: resolve_conflict_def guard_ok Let_def split: if_splits feature_support.splits)

lemma recover_after_restart_Ok [op_ok]:
  "recover_after_restart now t = Ok (ch, t') \<longleftrightarrow>
     task_updated_at t \<le> now \<and>
     (if is_active (task_state t)
      then ch = Changed \<and> t' = task_changed now (invalidate_run
             (t\<lparr>task_state := Failed (restart_failure (task_direction t))\<rparr>))
      else ch = Unchanged \<and> t' = t)"
  by (auto simp: recover_after_restart_def guard_ok split: if_splits)

lemma map_sum_snd_Ok [simp]: "map_sum id snd r = Ok y \<longleftrightarrow> (\<exists>x. r = Ok (x, y))"
  by (cases r) (auto simp: prod_eq_iff)

lemma map_sum_snd_Err [simp]: "map_sum id snd r = Err e \<longleftrightarrow> r = Err e"
  by (cases r) auto

lemma run_op_time: "run_op op t = Ok t' \<Longrightarrow> task_updated_at t \<le> op_time op"
  by (cases op) (auto simp: op_ok)

lemma run_op_token: "run_op op t = Ok t' \<Longrightarrow> op_token op = Some tok \<Longrightarrow> check_token tok t = Ok ()"
  by (cases op) (auto simp: op_ok)

text \<open>What no operation touches: the identity of the task, what it transfers, its retry policy,
  its bandwidth limit, its feature set and the time of its creation. The conflict policy is not
  among them: the resolution of a conflict replaces it.\<close>

definition task_frame where
  "task_frame t =
     (task_id t, task_source t, task_destination t, task_direction t, task_expected_source t,
      task_expected_destination t, task_retry_policy t, task_bandwidth_limit t, task_features t,
      task_created_at t)"

lemmas touch_defs = task_changed_def invalidate_run_def

lemma run_op_frame: "run_op op t = Ok t' \<Longrightarrow> task_frame t' = task_frame t"
proof (cases op)
  case (Do_request_cancel now)
  then show "run_op op t = Ok t' \<Longrightarrow> ?thesis"
    by (cases "state_kind (task_state t)") (auto simp: op_ok task_frame_def touch_defs)
qed (auto simp: op_ok task_frame_def touch_defs Let_def split: if_splits)

text \<open>The conflict policy after an operation.\<close>

fun policy_after :: "task_op \<Rightarrow> conflict_policy \<Rightarrow> conflict_policy" where
  "policy_after (Do_resolve_conflict p _) _ = p"
| "policy_after _ p = p"

lemma run_op_policy:
  "run_op op t = Ok t' \<Longrightarrow> task_conflict_policy t' = policy_after op (task_conflict_policy t)"
proof (cases op)
  case (Do_request_cancel now)
  then show "run_op op t = Ok t' \<Longrightarrow> ?thesis"
    by (cases "state_kind (task_state t)") (auto simp: op_ok touch_defs)
qed (auto simp: op_ok touch_defs Let_def split: if_splits)

section \<open>The invariant\<close>

definition progress_ok :: "transfer_task \<Rightarrow> bool" where
  "progress_ok t =
     (is_none_or (pg_total_bytes (task_progress t)) (\<lambda>n. pg_bytes_transferred (task_progress t) \<le> n) \<and>
      is_none_or (pg_bytes_per_second (task_progress t)) (\<lambda>s. s \<le> MAX_BANDWIDTH_BYTES_PER_SECOND) \<and>
      is_none_or (pg_sampled_at_unix_ms (task_progress t)) (\<lambda>at. at \<le> task_updated_at t))"

definition checkpoint_ok :: "transfer_task \<Rightarrow> transfer_checkpoint \<Rightarrow> bool" where
  "checkpoint_ok t = (\<lambda>cp. cp_offset cp \<le> pg_bytes_transferred (task_progress t))"

fun state_ok :: "transfer_state \<Rightarrow> transfer_task \<Rightarrow> bool" where
  "state_ok (Paused cp) t = checkpoint_ok t cp"
| "state_ok (RetryScheduled nb f) t =
     (failure_retryable f \<and> task_updated_at t \<le> nb \<and>
      task_completed_attempts t < rp_max_attempts (task_retry_policy t))"
| "state_ok (Conflict c) t = is_none_or (tx_checkpoint c) (checkpoint_ok t)"
| "state_ok (Completed c) t =
     (tc_completed_at_unix_ms c = task_updated_at t \<and>
      is_none_or (pg_total_bytes (task_progress t)) (\<lambda>n. pg_bytes_transferred (task_progress t) = n))"
| "state_ok (Cancelled cp at) t = (at = task_updated_at t \<and> is_none_or cp (checkpoint_ok t))"
| "state_ok _ t = True"

definition task_inv :: "transfer_task \<Rightarrow> bool" where
  "task_inv t =
     (validate_endpoints (task_direction t) (task_source t) (task_destination t) = Ok () \<and>
      task_completed_attempts t \<le> rp_max_attempts (task_retry_policy t) \<and>
      task_created_at t \<le> task_updated_at t \<and>
      (state_kind (task_state t) \<in> {K_Running, K_Pausing, K_Cancelling} \<longrightarrow> 0 < task_completed_attempts t) \<and>
      progress_ok t \<and> state_ok (task_state t) t)"

lemma task_new_inv:
  "task_new i s d dir es ed rp bw cp fs c = Ok t \<Longrightarrow> task_inv t \<and> task_state t = Queued"
  by (auto simp: task_new_def and_then_eq_Ok task_inv_def progress_ok_def progress_pending_def
      is_none_or_def split: option.splits)

lemma retry_at_ge: "now \<le> i64_max \<Longrightarrow> now \<le> retry_at now t"
  by (simp add: retry_at_def i64_saturating_add_unsigned_ge)

lemmas inv_defs = task_inv_def progress_ok_def checkpoint_ok_def touch_defs

lemma start_inv: "run_op (Do_start now) t = Ok t' \<Longrightarrow> task_inv t \<Longrightarrow> task_inv t'"
  using inc_bounds [of "task_completed_attempts t"]
  by (cases "pg_sampled_at_unix_ms (task_progress t)") (auto simp: op_ok inv_defs)

lemma record_progress_inv:
  "run_op (Do_record_progress tok b n s now) t = Ok t' \<Longrightarrow> task_inv t \<Longrightarrow> task_inv t'"
  by (auto simp: op_ok inv_defs Let_def total_after_def split: if_splits)

lemma sampled_le_trans:
  "is_none_or v (\<lambda>at. at \<le> (a::int)) \<Longrightarrow> a \<le> b \<Longrightarrow> is_none_or v (\<lambda>at. at \<le> b)"
  by (cases v) auto

lemma run_op_inv:
  "run_op op t = Ok t' \<Longrightarrow> task_inv t \<Longrightarrow> op_time op \<le> i64_max \<Longrightarrow> task_inv t'"
proof (cases op)
  case (Do_start now)
  then show "run_op op t = Ok t' \<Longrightarrow> task_inv t \<Longrightarrow> task_inv t'" by (simp only: start_inv)
next
  case (Do_record_progress tok b n s now)
  then show "run_op op t = Ok t' \<Longrightarrow> task_inv t \<Longrightarrow> task_inv t'" by (simp only: record_progress_inv)
next
  case (Do_request_cancel now)
  then show "run_op op t = Ok t' \<Longrightarrow> task_inv t \<Longrightarrow> task_inv t'"
    by (cases "task_state t")
       (auto simp: op_ok inv_defs current_checkpoint_def intro: sampled_le_trans)
next
  case (Do_resolve_conflict p now)
  then show "run_op op t = Ok t' \<Longrightarrow> task_inv t \<Longrightarrow> task_inv t'"
    by (auto simp: op_ok inv_defs intro: sampled_le_trans)
qed (auto simp: op_ok inv_defs retry_at_ge intro: sampled_le_trans split: if_splits)

section \<open>The life cycle\<close>

text \<open>The state diagram the task promises, on kinds alone.\<close>

inductive kind_step :: "transfer_state_kind \<Rightarrow> transfer_state_kind \<Rightarrow> bool" where
  ks_start: "k \<in> {K_Queued, K_RetryScheduled} \<Longrightarrow> kind_step k K_Running"
| ks_pause: "kind_step K_Running K_Pausing"
| ks_paused: "kind_step K_Pausing K_Paused"
| ks_resume: "kind_step K_Paused K_Queued"
| ks_cancel: "k \<in> {K_Running, K_Pausing} \<Longrightarrow> kind_step k K_Cancelling"
| ks_cancelled:
    "k \<in> {K_Queued, K_Paused, K_Cancelling, K_RetryScheduled, K_Conflict, K_Failed} \<Longrightarrow>
     kind_step k K_Cancelled"
| ks_complete: "kind_step K_Running K_Completed"
| ks_fail: "k \<in> {K_Running, K_Pausing, K_Cancelling} \<Longrightarrow> kind_step k K_Failed"
| ks_retry: "kind_step K_Failed K_RetryScheduled"
| ks_conflict: "k \<in> {K_Running, K_Pausing} \<Longrightarrow> kind_step k K_Conflict"
| ks_resolve: "kind_step K_Conflict K_Queued"

code_pred kind_step .

inductive_simps kind_step_from [simp]:
  "kind_step K_Completed k" "kind_step K_Cancelled k"

lemma run_op_kind:
  "run_op op t = Ok t' \<Longrightarrow>
   state_kind (task_state t') = state_kind (task_state t) \<or>
   kind_step (state_kind (task_state t)) (state_kind (task_state t'))"
proof (cases op)
  case (Do_request_cancel now)
  then show "run_op op t = Ok t' \<Longrightarrow> ?thesis"
    by (cases "task_state t") (auto simp: op_ok touch_defs intro: kind_step.intros)
next
  case (Do_record_progress tok b n s now)
  then show "run_op op t = Ok t' \<Longrightarrow> ?thesis"
    by (simp add: op_ok touch_defs Let_def split: if_splits) auto
next
  case (Do_start now)
  then show "run_op op t = Ok t' \<Longrightarrow> ?thesis"
    by (cases "task_state t") (auto simp: op_ok touch_defs runnable_def intro: kind_step.intros)
qed (auto simp: op_ok touch_defs is_active_def intro: kind_step.intros split: if_splits)

text \<open>A task in a given state, with permissive features: what the exactness of the diagram and the
  witnesses below are evaluated on.\<close>

definition sample_failure :: transfer_failure where
  "sample_failure = restart_failure Download"

definition sample_checkpoint :: transfer_checkpoint where
  "sample_checkpoint =
     \<lparr>cp_offset = 0, cp_source_identity = None, cp_destination_identity = None,
      cp_verification = Vl_Unverified, cp_verified_at_unix_ms = 0\<rparr>"

definition sample_conflict :: transfer_conflict where
  "sample_conflict = \<lparr>tx_reason = SafeReason ''destination_exists'', tx_checkpoint = None\<rparr>"

definition sample_completion :: transfer_completion where
  "sample_completion =
     \<lparr>tc_verification = Vl_Size, tc_identity = None, tc_completed_at_unix_ms = 0\<rparr>"

fun sample_state :: "transfer_state_kind \<Rightarrow> transfer_state" where
  "sample_state K_Queued = Queued"
| "sample_state K_Running = Running"
| "sample_state K_Pausing = Pausing"
| "sample_state K_Paused = Paused sample_checkpoint"
| "sample_state K_Cancelling = Cancelling"
| "sample_state K_RetryScheduled = RetryScheduled 0 sample_failure"
| "sample_state K_Conflict = Conflict sample_conflict"
| "sample_state K_Completed = Completed sample_completion"
| "sample_state K_Failed = Failed sample_failure"
| "sample_state K_Cancelled = Cancelled None 0"

definition sample_features :: transfer_feature_set where
  "sample_features =
     \<lparr>fs_pause = Feature_Supported, fs_resume = Feature_Supported,
      fs_resume_validation = Some Rv_SizeOnly\<rparr>"

definition sample_remote :: remote_transfer_endpoint where
  "sample_remote = \<lparr>rte_profile_id = ProfileId 7, rte_protocol = Proto_Sftp, rte_path = RemotePath ''/data/a''\<rparr>"

definition sample_task :: "transfer_state \<Rightarrow> transfer_task" where
  "sample_task s =
     \<lparr>task_id = TransferId 1, task_source = Ep_Remote sample_remote,
      task_destination = Ep_Local (LocalFileHandle 2), task_direction = Download,
      task_expected_source = None, task_expected_destination = None, task_state = s,
      task_progress = progress_pending None, task_retry_policy = retry_policy_default,
      task_completed_attempts = 1, task_bandwidth_limit = None,
      task_conflict_policy = Policy_Fail, task_features = sample_features, task_revision = 3,
      task_generation = 1, task_created_at = 0, task_updated_at = 0\<rparr>"

definition sample_token :: run_token where
  "sample_token = \<lparr>tok_task_id = TransferId 1, tok_generation = 1\<rparr>"

fun op_towards :: "transfer_state_kind \<Rightarrow> transfer_state_kind \<Rightarrow> task_op" where
  "op_towards k K_Running = Do_start 0"
| "op_towards k K_Pausing = Do_request_pause 0"
| "op_towards k K_Paused = Do_confirm_paused sample_token sample_checkpoint 0"
| "op_towards k K_Queued = (if k = K_Paused then Do_resume 0 else Do_resolve_conflict Policy_Fail 0)"
| "op_towards k K_Cancelling = Do_request_cancel 0"
| "op_towards k K_Cancelled =
     (if k = K_Cancelling then Do_confirm_cancelled sample_token None 0 else Do_request_cancel 0)"
| "op_towards k K_Completed = Do_complete sample_token sample_completion"
| "op_towards k K_Failed = Do_recover 0"
| "op_towards k K_RetryScheduled = Do_schedule_retry 0"
| "op_towards k K_Conflict = Do_enter_conflict sample_token sample_conflict 0"

lemmas sample_defs =
  sample_failure_def sample_checkpoint_def sample_conflict_def sample_completion_def
  sample_features_def sample_remote_def sample_task_def sample_token_def restart_failure_def
  progress_pending_def retry_policy_default_def failure_retryable_def

lemma sample_kind [simp]: "state_kind (task_state (sample_task (sample_state k))) = k"
  by (cases k) (simp_all add: sample_task_def)

lemma sample_inv: "task_inv (sample_task (sample_state k))"
  by (cases k) (simp_all add: inv_defs sample_defs)

lemma op_towards_step:
  "kind_step k k' \<Longrightarrow>
   \<exists>t'. run_op (op_towards k k') (sample_task (sample_state k)) = Ok t' \<and>
        state_kind (task_state t') = k'"
  by (induction rule: kind_step.induct)
     (auto simp: op_ok check_token_Ok runnable_def touch_defs sample_defs is_active_def)

section \<open>Runs\<close>

text \<open>A run is a sequence of operations that succeeded; a refused operation leaves the task as it
  was. The time argument of an operation is an \<open>i64\<close>.\<close>

inductive task_run :: "transfer_task \<Rightarrow> task_op list \<Rightarrow> transfer_task \<Rightarrow> bool" for t0 where
  run_nil: "task_run t0 [] t0"
| run_snoc:
    "task_run t0 ops t \<Longrightarrow> op_time op \<le> i64_max \<Longrightarrow> run_op op t = Ok t' \<Longrightarrow>
     task_run t0 (ops @ [op]) t'"

lemma task_run_inv: "task_run t0 ops t \<Longrightarrow> task_inv t0 \<Longrightarrow> task_inv t"
  by (induction rule: task_run.induct) (simp_all add: run_op_inv)

lemma task_run_frame: "task_run t0 ops t \<Longrightarrow> task_frame t = task_frame t0"
  by (induction rule: task_run.induct) (simp_all add: run_op_frame)

lemma task_run_policy:
  "task_run t0 ops t \<Longrightarrow> task_conflict_policy t = fold policy_after ops (task_conflict_policy t0)"
  by (induction rule: task_run.induct) (simp_all add: run_op_policy)

lemma task_run_kinds:
  "task_run t0 ops t \<Longrightarrow> kind_step\<^sup>*\<^sup>* (state_kind (task_state t0)) (state_kind (task_state t))"
proof (induction rule: task_run.induct)
  case (run_snoc ops t op t')
  then show ?case using run_op_kind [of op t t'] by (auto intro: rtranclp.rtrancl_into_rtrancl)
qed simp

lemma run_op_generation: "run_op op t = Ok t' \<Longrightarrow> task_generation t \<le> task_generation t'"
proof (cases op)
  case (Do_request_cancel now)
  then show "run_op op t = Ok t' \<Longrightarrow> ?thesis"
    by (cases "state_kind (task_state t)") (auto simp: op_ok touch_defs saturating_add_ge)
qed (auto simp: op_ok touch_defs saturating_add_ge Let_def split: if_splits)

lemma task_run_generation: "task_run t0 ops t \<Longrightarrow> task_generation t0 \<le> task_generation t"
proof (induction rule: task_run.induct)
  case (run_snoc ops t op t')
  then show ?case using run_op_generation [of op t t'] by simp
qed simp

text \<open>Leaving the active states retires the run: the generation moves on.\<close>

lemma run_op_retires:
  "run_op op t = Ok t' \<Longrightarrow> is_active (task_state t) \<Longrightarrow> \<not> is_active (task_state t') \<Longrightarrow>
   task_generation t' = saturating_add (task_generation t) 1"
proof (cases op)
  case (Do_request_cancel now)
  then show "run_op op t = Ok t' \<Longrightarrow> is_active (task_state t) \<Longrightarrow> \<not> is_active (task_state t') \<Longrightarrow> ?thesis"
    by (cases "task_state t") (auto simp: op_ok touch_defs is_active_def)
qed (auto simp: op_ok touch_defs is_active_def runnable_def Let_def split: if_splits transfer_state.splits)

lemma stale_run_op:
  "op_token op = Some tok \<Longrightarrow> check_token tok t \<noteq> Ok () \<Longrightarrow> run_op op t = Err Me_StaleRunToken"
  by (cases op)
     (auto simp: check_token_def record_progress_def confirm_paused_def confirm_cancelled_def
       task_complete_def task_fail_def enter_conflict_def split: if_splits)

lemma run_op_attempts:
  "run_op op t = Ok t' \<Longrightarrow>
   unat (task_completed_attempts t') =
     unat (task_completed_attempts t) + (if is_start op then 1 else 0)"
proof (cases op)
  case (Do_request_cancel now)
  then show "run_op op t = Ok t' \<Longrightarrow> ?thesis"
    by (cases "state_kind (task_state t)") (auto simp: op_ok touch_defs is_start_def)
next
  case (Do_start now)
  then show "run_op op t = Ok t' \<Longrightarrow> ?thesis"
    by (auto simp: op_ok touch_defs is_start_def unat_inc)
qed (auto simp: op_ok touch_defs is_start_def Let_def split: if_splits)

lemma task_run_attempts:
  "task_run t0 ops t \<Longrightarrow>
   unat (task_completed_attempts t) =
     unat (task_completed_attempts t0) + length (filter is_start ops)"
  by (induction rule: task_run.induct) (auto simp: run_op_attempts)

lemma run_op_terminal:
  "run_op op t = Ok t' \<Longrightarrow> state_kind (task_state t) \<in> {K_Completed, K_Cancelled} \<Longrightarrow> t' = t"
  by (cases op; cases "task_state t") (auto simp: op_ok runnable_def is_active_def)

text \<open>Every success either leaves the task alone or moves its revision and its clock.\<close>

lemma run_op_changed:
  "run_op op t = Ok t' \<Longrightarrow>
   t' = t \<or> task_revision t' = saturating_add (task_revision t) 1 \<and> task_updated_at t' = op_time op"
proof (cases op)
  case (Do_request_cancel now)
  then show "run_op op t = Ok t' \<Longrightarrow> ?thesis"
    by (cases "state_kind (task_state t)") (auto simp: op_ok touch_defs)
qed (auto simp: op_ok touch_defs Let_def split: if_splits)

section \<open>Properties\<close>

lemma kind_step_irrefl: "kind_step k k' \<Longrightarrow> k \<noteq> k'"
  by (induction rule: kind_step.induct) auto

definition sample_new :: "(transfer_validation_error, transfer_task) result" where
  "sample_new = task_new (TransferId 1) (Ep_Remote sample_remote) (Ep_Local (LocalFileHandle 2))
     Download None None retry_policy_default None Policy_Fail sample_features 0"

definition sample_fresh :: transfer_task where
  "sample_fresh = (sample_task Queued)\<lparr>task_completed_attempts := 0, task_revision := 0,
     task_generation := 0\<rparr>"

definition sample_started :: transfer_task where
  "sample_started = (sample_task Running)\<lparr>task_revision := 1, task_updated_at := 5\<rparr>"

lemma sample_new_Ok: "sample_new = Ok sample_fresh"
  by (simp add: sample_new_def sample_fresh_def task_new_def sample_task_def expected_size_def)

lemma sample_start: "run_op (Do_start 5) sample_fresh = Ok sample_started"
  by (simp add: op_ok sample_fresh_def sample_started_def sample_defs runnable_def touch_defs
      saturating_add_def)

lemma sample_run: "task_run sample_fresh [Do_start 5] sample_started"
  using run_snoc [OF run_nil, of "Do_start 5" sample_fresh sample_started] sample_start
  by (simp add: i64_max_def)

text \<open>C10: Every task the code can reach, from \<open>TransferTask::new\<close> through any sequence of
  successful operations, satisfies the task invariant: endpoints that fit the direction, attempts
  within the retry policy, progress within the known total, checkpoints and completion consistent
  with the progress, a scheduled retry that is retryable and not in the past. Its identifier,
  endpoints, direction, expected objects, retry policy, bandwidth limit, features and time of
  creation are those passed to \<open>new\<close>; its conflict policy is the one passed to \<open>new\<close> until a
  conflict is resolved, and then that of the last resolution.\<close>

theorem task_run_safe:
  assumes "task_new i s d dir es ed rp bw cp fs c = Ok t0" and "task_run t0 ops t"
  shows "task_inv t \<and> task_frame t = (i, s, d, dir, es, ed, rp, bw, fs, c) \<and>
    task_conflict_policy t = fold policy_after ops cp"
proof -
  have "task_frame t0 = (i, s, d, dir, es, ed, rp, bw, fs, c)" "task_conflict_policy t0 = cp"
    using assms(1) by (auto simp: task_new_def and_then_eq_Ok task_frame_def)
  then show ?thesis
    using task_new_inv [OF assms(1)] task_run_inv [OF assms(2)] task_run_frame [OF assms(2)]
      task_run_policy [OF assms(2)] by simp
qed

theorem task_run_safe_witness:
  "task_inv sample_started \<and> task_conflict_policy sample_started = Policy_Fail"
  using task_run_safe [OF sample_new_Ok [unfolded sample_new_def] sample_run] by simp

text \<open>C2: The life cycle is exact. One state kind can follow another, different one if and only if
  the state diagram \<^const>\<open>kind_step\<close> has that edge: every successful operation on any task stays
  inside the diagram, and every edge is taken by an operation on a well-formed task.\<close>

theorem life_cycle_exact:
  "kind_step k k' \<longleftrightarrow>
     k \<noteq> k' \<and> (\<exists>op t t'. task_inv t \<and> run_op op t = Ok t' \<and>
                 state_kind (task_state t) = k \<and> state_kind (task_state t') = k')"
proof
  assume "kind_step k k'"
  then show "k \<noteq> k' \<and> (\<exists>op t t'. task_inv t \<and> run_op op t = Ok t' \<and>
      state_kind (task_state t) = k \<and> state_kind (task_state t') = k')"
    using op_towards_step kind_step_irrefl sample_inv sample_kind by metis
next
  assume "k \<noteq> k' \<and> (\<exists>op t t'. task_inv t \<and> run_op op t = Ok t' \<and>
      state_kind (task_state t) = k \<and> state_kind (task_state t') = k')"
  then show "kind_step k k'" using run_op_kind by metis
qed

text \<open>C9: A run token dies with its run. Once an active task has left the active states (paused,
  cancelled, completed, failed, in conflict, recovered), every operation that carries the token of
  that run is refused as stale, however the task moves on, a new start included (the generation
  counter short of its maximum).\<close>

theorem retired_token_rejected:
  assumes "check_token tok t = Ok ()" and "is_active (task_state t)"
    and "task_generation t \<noteq> -1"
    and "run_op op t = Ok t'" and "\<not> is_active (task_state t')"
    and "task_run t' ops t''" and "op_token op' = Some tok"
  shows "run_op op' t'' = Err Me_StaleRunToken"
proof -
  from assms(1) have "tok_generation tok = task_generation t" by (simp add: check_token_Ok)
  also have "\<dots> < task_generation t'"
    using run_op_retires [OF assms(4,2,5)] saturating_add_1_gr [OF assms(3)] by simp
  also have "\<dots> \<le> task_generation t''" by (rule task_run_generation [OF assms(6)])
  finally have "check_token tok t'' \<noteq> Ok ()" by (auto simp: check_token_Ok)
  then show ?thesis by (rule stale_run_op [OF assms(7)])
qed

theorem retired_token_rejected_witness:
  "run_op (Do_record_progress sample_token 4 None None 9)
     (task_changed 8 (invalidate_run (sample_started\<lparr>task_state := Failed sample_failure\<rparr>)))
   = Err Me_StaleRunToken"
proof -
  let ?t' = "task_changed 8 (invalidate_run (sample_started\<lparr>task_state := Failed sample_failure\<rparr>))"
  have tok: "check_token sample_token sample_started = Ok ()"
    by (simp add: check_token_Ok sample_started_def sample_task_def sample_token_def)
  have act: "is_active (task_state sample_started)" "task_generation sample_started \<noteq> -1"
    by (simp_all add: is_active_def sample_started_def sample_task_def)
  have "task_updated_at sample_started \<le> 8" "task_state sample_started = Running"
    by (simp_all add: sample_started_def sample_task_def)
  then have fail: "run_op (Do_fail sample_token sample_failure 8) sample_started = Ok ?t'"
    by (simp add: op_ok tok)
  have "\<not> is_active (task_state ?t')" by (simp add: is_active_def touch_defs)
  then show ?thesis
    by (rule retired_token_rejected [OF tok act fail _ run_nil]) simp
qed

text \<open>The retry policy bounds the work. Along any run of a new task the number of successful
  starts is exactly the recorded number of attempts, and never exceeds the policy's maximum.\<close>

theorem starts_bounded:
  assumes "task_new i s d dir es ed rp bw cp fs c = Ok t0" and "task_run t0 ops t"
  shows "length (filter is_start ops) = unat (task_completed_attempts t) \<and>
         length (filter is_start ops) \<le> unat (rp_max_attempts rp)"
proof -
  from assms(1) have 0: "task_completed_attempts t0 = 0" "task_retry_policy t0 = rp"
    by (auto simp: task_new_def and_then_eq_Ok)
  from task_run_frame [OF assms(2)] have "task_retry_policy t = rp"
    by (simp add: task_frame_def 0)
  moreover have "task_inv t"
    using task_run_inv [OF assms(2)] task_new_inv [OF assms(1)] by blast
  ultimately show ?thesis
    using task_run_attempts [OF assms(2)] 0 by (simp add: task_inv_def word_le_nat_alt)
qed

theorem starts_bounded_witness:
  "length (filter is_start [Do_start 5]) = unat (task_completed_attempts sample_started)"
  using starts_bounded [OF sample_new_Ok [unfolded sample_new_def] sample_run] by simp

text \<open>Completed and cancelled are final: no sequence of operations changes such a task at
  all, neither its state nor its progress, revision or time stamps.\<close>

theorem terminal_absorbing:
  assumes "task_run t ops t'" and "state_kind (task_state t) \<in> {K_Completed, K_Cancelled}"
  shows "t' = t"
  using assms by (induction rule: task_run.induct) (auto dest: run_op_terminal)

theorem terminal_absorbing_witness:
  "task_run (sample_task (Completed sample_completion)) [Do_recover 4]
     (sample_task (Completed sample_completion)) \<and>
   sample_task (Completed sample_completion) = sample_task (Completed sample_completion)"
proof
  have "run_op (Do_recover 4) (sample_task (Completed sample_completion))
      = Ok (sample_task (Completed sample_completion))"
    by (simp add: op_ok sample_task_def is_active_def)
  then show *: "task_run (sample_task (Completed sample_completion)) [Do_recover 4]
     (sample_task (Completed sample_completion))"
    using run_snoc [OF run_nil, of "Do_recover 4"] by (simp add: i64_max_def)
  show "sample_task (Completed sample_completion) = sample_task (Completed sample_completion)"
    by (rule terminal_absorbing [OF *]) (simp add: sample_task_def)
qed

text \<open>A task that is not completed can always be brought to its cancelled state: the request
  succeeds at any time not before the last update, and either the task is cancelled at once or the
  owner of the current run confirms it.\<close>

theorem cancel_reaches_cancelled:
  assumes "state_kind (task_state t) \<noteq> K_Completed" and "task_updated_at t \<le> now"
  shows "\<exists>ch t'. request_cancel now t = Ok (ch, t') \<and>
     (state_kind (task_state t') = K_Cancelled \<or>
      (\<exists>t''. confirm_cancelled \<lparr>tok_task_id = task_id t', tok_generation = task_generation t'\<rparr>
               None (max now (task_updated_at t')) t' = Ok (Changed, t'') \<and>
             task_state t'' = Cancelled None (max now (task_updated_at t'))))"
  using assms
  by (cases "task_state t") (auto simp: op_ok check_token_Ok touch_defs)

theorem cancel_reaches_cancelled_witness:
  "\<exists>ch t'. request_cancel 9 sample_started = Ok (ch, t')"
  using cancel_reaches_cancelled [of sample_started 9]
  by (auto simp: sample_started_def sample_task_def)

text \<open>A retry waits exactly its backoff. After a failed task is scheduled for retry at
  \<open>now\<close>, it can be started at a later time if and only if the initial delay, doubled per completed
  attempt after the first and capped at the policy's maximum, has passed.\<close>

theorem retry_waits_backoff:
  assumes "task_state t = Failed f" and "schedule_retry now t = Ok (ch, t')"
    and "now + int (backoff_reference (task_retry_policy t) (unat (task_completed_attempts t)))
           \<le> i64_max"
  shows "is_ok (task_start later t') \<longleftrightarrow>
     now + int (backoff_reference (task_retry_policy t) (unat (task_completed_attempts t))) \<le> later"
proof -
  let ?b = "backoff_ms (task_retry_policy t) (task_completed_attempts t)"
  have b: "int (backoff_reference (task_retry_policy t) (unat (task_completed_attempts t))) = uint ?b"
    by (metis backoff_ms_reference uint_nat)
  have "retry_at now t = now + uint ?b"
    using assms(3) by (simp add: b retry_at_def i64_saturating_add_unsigned_def)
  then have "t' = task_changed now (t\<lparr>task_state := RetryScheduled (now + uint ?b) f\<rparr>)"
    and "task_completed_attempts t < rp_max_attempts (task_retry_policy t)"
    using assms(1,2) by (auto simp: op_ok)
  moreover have "now + uint ?b \<le> later \<Longrightarrow> now \<le> later"
    using uint_ge_0 [of ?b] by linarith
  ultimately show ?thesis
    unfolding b by (auto simp: is_ok_iff op_ok touch_defs runnable_def)
qed

definition sample_retry :: transfer_task where
  "sample_retry = task_changed 7
     ((sample_task (Failed sample_failure))\<lparr>task_state := RetryScheduled 1007 sample_failure\<rparr>)"

theorem retry_waits_backoff_witness:
  "is_ok (task_start 1007 sample_retry) \<and> \<not> is_ok (task_start 1006 sample_retry)"
proof -
  have b: "backoff_reference (task_retry_policy (sample_task (Failed sample_failure)))
      (unat (task_completed_attempts (sample_task (Failed sample_failure)))) = 1000"
    by (simp add: sample_defs backoff_reference_def)
  then have "backoff_ms (task_retry_policy (sample_task (Failed sample_failure)))
      (task_completed_attempts (sample_task (Failed sample_failure))) = 1000"
    by (simp flip: backoff_ms_reference add: word_unat_eq_iff)
  then have "schedule_retry 7 (sample_task (Failed sample_failure)) = Ok (Changed, sample_retry)"
    by (simp add: op_ok retry_at_def sample_retry_def i64_saturating_add_unsigned_def i64_max_def)
       (simp add: sample_defs)
  then show ?thesis
    using retry_waits_backoff [of "sample_task (Failed sample_failure)" sample_failure 7 Changed
        sample_retry 1007]
      retry_waits_backoff [of "sample_task (Failed sample_failure)" sample_failure 7 Changed
        sample_retry 1006]
    by (simp add: b i64_max_def) (simp add: sample_task_def)
qed

end
