(* ===== verification/Transfer_Public.thy ===== *)
theory Transfer_Public
  imports Transfer_Machine
begin

text \<open>
  crates/transfers/src/public.rs: the contract of the transfer service towards the desktop client.
  Drafts and their conversion to tasks, list queries and pages, commands and outputs, and the
  validation each of them goes through. \<open>serde_json::to_vec\<close> is the parameter \<open>json\<close> (None is its
  error); only the length of what it returns matters here.
\<close>

section \<open>Bounds and errors\<close>

definition MAX_TRANSFER_PAGE_TASKS :: u8 where "MAX_TRANSFER_PAGE_TASKS = 64"
definition MAX_TRANSFER_QUERY_OFFSET :: u32 where "MAX_TRANSFER_QUERY_OFFSET = 100000"
definition MAX_TRANSFER_STATE_FILTERS :: nat where "MAX_TRANSFER_STATE_FILTERS = 10"
definition MAX_TRANSFER_REMOTE_PATH_BYTES :: nat where "MAX_TRANSFER_REMOTE_PATH_BYTES = 8 * 1024"
definition MAX_TRANSFER_ETAG_BYTES :: nat where "MAX_TRANSFER_ETAG_BYTES = 4 * 1024"
definition MAX_PUBLIC_TRANSFER_TASK_BYTES :: nat where "MAX_PUBLIC_TRANSFER_TASK_BYTES = 48 * 1024"
definition MAX_LOCAL_HANDLE_DISPLAY_NAME_BYTES :: nat where
  "MAX_LOCAL_HANDLE_DISPLAY_NAME_BYTES = 255"

datatype transfer_public_error =
    Pe_InvalidTransferId | Pe_InvalidLocalHandle | Pe_InvalidLocalHandleGrant | Pe_InvalidProfileId
  | Pe_DirectionEndpointMismatch | Pe_RemotePathTooLarge | Pe_IdentityTooLarge
  | Pe_InvalidRetryPolicy | Pe_InvalidBandwidth | Pe_InvalidQueryLimit | Pe_InvalidQueryOffset
  | Pe_InvalidStateFilters | Pe_InvalidPage | Pe_InvalidTask | Pe_TaskTooLarge | Pe_ResultMismatch

fun public_of_validation :: "transfer_validation_error \<Rightarrow> transfer_public_error" where
  "public_of_validation Tv_DirectionEndpointMismatch = Pe_DirectionEndpointMismatch"
| "public_of_validation Tv_InvalidBandwidthLimit = Pe_InvalidBandwidth"
| "public_of_validation Tv_InconsistentExpectedSize = Pe_InvalidTask"

fun public_of_retry :: "retry_policy_error \<Rightarrow> transfer_public_error" where
  "public_of_retry _ = Pe_InvalidRetryPolicy"

section \<open>Local handle grants\<close>

datatype transfer_local_handle_purpose = UploadSource | DownloadDestination

record transfer_local_handle_grant =
  grant_handle :: local_file_handle
  grant_purpose :: transfer_local_handle_purpose
  grant_display_name :: string
  grant_size_bytes :: "u64 option"

definition grant_validate ::
  "transfer_local_handle_grant \<Rightarrow> (transfer_public_error, unit) result" where
  "grant_validate g =
     (if is_nil (local_handle_uuid (grant_handle g)) then Err Pe_InvalidLocalHandle
      else if grant_display_name g = []
           \<or> length (grant_display_name g) > MAX_LOCAL_HANDLE_DISPLAY_NAME_BYTES
           \<or> has_control (grant_display_name g)
           \<or> CHR ''/'' \<in> set (grant_display_name g) \<or> CHR 0x5C \<in> set (grant_display_name g)
           \<or> (grant_purpose g = DownloadDestination \<and> grant_size_bytes g \<noteq> None)
      then Err Pe_InvalidLocalHandleGrant else Ok ())"

section \<open>Field validation\<close>

definition validate_id :: "transfer_id \<Rightarrow> (transfer_public_error, unit) result" where
  "validate_id i = (if is_nil (transfer_uuid i) then Err Pe_InvalidTransferId else Ok ())"

definition validate_path :: "remote_path \<Rightarrow> (transfer_public_error, unit) result" where
  "validate_path p =
     (if length (path_str p) > MAX_TRANSFER_REMOTE_PATH_BYTES \<or> has_control (path_str p)
      then Err Pe_RemotePathTooLarge else Ok ())"

definition validate_identity ::
  "object_identity option \<Rightarrow> (transfer_public_error, unit) result" where
  "validate_identity identity =
     (if is_some_and (Option.bind identity oi_etag)
           (\<lambda>etag. length etag > MAX_TRANSFER_ETAG_BYTES \<or> has_control etag)
      then Err Pe_IdentityTooLarge else Ok ())"

definition validate_state_identities ::
  "transfer_state \<Rightarrow> (transfer_public_error, unit) result" where
  "validate_state_identities s =
     (let checkpoint =
        (case s of
           Paused cp \<Rightarrow> Some cp
         | Conflict c \<Rightarrow> tx_checkpoint c
         | Cancelled cp _ \<Rightarrow> cp
         | _ \<Rightarrow> None)
      in and_then
           (case checkpoint of
              None \<Rightarrow> Ok ()
            | Some cp \<Rightarrow>
                and_then (validate_identity (cp_source_identity cp)) (\<lambda>_.
                validate_identity (cp_destination_identity cp))) (\<lambda>_.
         case s of
           Completed completion \<Rightarrow> validate_identity (tc_identity completion)
         | _ \<Rightarrow> Ok ()))"

definition validate_retry_policy :: "retry_policy \<Rightarrow> (transfer_public_error, unit) result" where
  "validate_retry_policy p =
     map_err public_of_retry
       (and_then (retry_policy_new (rp_max_attempts p) (rp_initial_backoff_ms p)
                    (rp_max_backoff_ms p)) (\<lambda>_. Ok ()))"

definition validate_bandwidth :: "bandwidth_limit \<Rightarrow> (transfer_public_error, unit) result" where
  "validate_bandwidth limit =
     (if is_some_and limit (\<lambda>v. v > MAX_BANDWIDTH_BYTES_PER_SECOND)
      then Err Pe_InvalidBandwidth else Ok ())"

section \<open>Tasks\<close>

fun validate_task_endpoint :: "transfer_endpoint \<Rightarrow> (transfer_public_error, unit) result" where
  "validate_task_endpoint (Ep_Local h) =
     (if is_nil (local_handle_uuid h) then Err Pe_InvalidLocalHandle else Ok ())"
| "validate_task_endpoint (Ep_Remote r) =
     (if is_nil (profile_uuid (rte_profile_id r)) then Err Pe_InvalidProfileId
      else validate_path (rte_path r))"

definition validate_public ::
  "(transfer_task \<Rightarrow> bytes option) \<Rightarrow> transfer_task \<Rightarrow> (transfer_public_error, unit) result" where
  "validate_public json t =
     and_then (validate_id (task_id t)) (\<lambda>_.
     and_then (map_err public_of_validation
       (validate_endpoints (task_direction t) (task_source t) (task_destination t))) (\<lambda>_.
     and_then (validate_task_endpoint (task_source t)) (\<lambda>_.
     and_then (validate_task_endpoint (task_destination t)) (\<lambda>_.
     and_then (validate_identity (task_expected_source t)) (\<lambda>_.
     and_then (validate_identity (task_expected_destination t)) (\<lambda>_.
     and_then (validate_state_identities (task_state t)) (\<lambda>_.
     and_then (validate_retry_policy (task_retry_policy t)) (\<lambda>_.
     and_then (validate_bandwidth (task_bandwidth_limit t)) (\<lambda>_.
     if task_completed_attempts t > rp_max_attempts (task_retry_policy t)
        \<or> task_created_at t < 0
        \<or> task_updated_at t < task_created_at t
        \<or> is_some_and (pg_total_bytes (task_progress t))
            (\<lambda>n. pg_bytes_transferred (task_progress t) > n)
        \<or> is_some_and (pg_bytes_per_second (task_progress t))
            (\<lambda>s. s > MAX_BANDWIDTH_BYTES_PER_SECOND)
     then Err Pe_InvalidTask
     else and_then
       (case (fs_resume (task_features t), fs_resume_validation (task_features t)) of
          (Feature_Supported, None) \<Rightarrow> Err Pe_InvalidTask
        | (Feature_Unsupported _, Some _) \<Rightarrow> Err Pe_InvalidTask
        | _ \<Rightarrow> Ok ()) (\<lambda>_.
     and_then (ok_or (json t) Pe_InvalidTask) (\<lambda>encoded.
     if length encoded > MAX_PUBLIC_TRANSFER_TASK_BYTES then Err Pe_TaskTooLarge
     else Ok ())))))))))))"

section \<open>Drafts\<close>

datatype transfer_draft_endpoint =
    Draft_Local local_file_handle
  | Draft_Remote profile_id remote_path

fun draft_local_handle :: "transfer_draft_endpoint \<Rightarrow> local_file_handle option" where
  "draft_local_handle (Draft_Local h) = Some h"
| "draft_local_handle (Draft_Remote _ _) = None"

fun draft_remote_profile :: "transfer_draft_endpoint \<Rightarrow> profile_id option" where
  "draft_remote_profile (Draft_Local _) = None"
| "draft_remote_profile (Draft_Remote p _) = Some p"

record transfer_draft =
  dr_id :: transfer_id
  dr_source :: transfer_draft_endpoint
  dr_destination :: transfer_draft_endpoint
  dr_direction :: transfer_direction
  dr_expected_source :: "object_identity option"
  dr_expected_destination :: "object_identity option"
  dr_retry_policy :: retry_policy
  dr_bandwidth_limit :: bandwidth_limit
  dr_conflict_policy :: conflict_policy

definition validate_draft_pair ::
  "local_file_handle \<Rightarrow> profile_id \<Rightarrow> remote_path \<Rightarrow> (transfer_public_error, unit) result" where
  "validate_draft_pair handle profile path =
     (if is_nil (local_handle_uuid handle) then Err Pe_InvalidLocalHandle
      else if is_nil (profile_uuid profile) then Err Pe_InvalidProfileId
      else validate_path path)"

fun validate_draft_endpoints ::
  "transfer_direction \<Rightarrow> transfer_draft_endpoint \<Rightarrow> transfer_draft_endpoint \<Rightarrow>
   (transfer_public_error, unit) result" where
  "validate_draft_endpoints Upload (Draft_Local h) (Draft_Remote p path) =
     validate_draft_pair h p path"
| "validate_draft_endpoints Download (Draft_Remote p path) (Draft_Local h) =
     validate_draft_pair h p path"
| "validate_draft_endpoints _ _ _ = Err Pe_DirectionEndpointMismatch"

definition draft_validate :: "transfer_draft \<Rightarrow> (transfer_public_error, unit) result" where
  "draft_validate d =
     and_then (validate_id (dr_id d)) (\<lambda>_.
     and_then (validate_draft_endpoints (dr_direction d) (dr_source d) (dr_destination d)) (\<lambda>_.
     and_then (validate_identity (dr_expected_source d)) (\<lambda>_.
     and_then (validate_identity (dr_expected_destination d)) (\<lambda>_.
     and_then (validate_retry_policy (dr_retry_policy d)) (\<lambda>_.
     validate_bandwidth (dr_bandwidth_limit d))))))"

text \<open>The two accessors panic on a draft without the endpoint: None is the panic.\<close>

definition draft_profile :: "transfer_draft \<Rightarrow> profile_id option" where
  "draft_profile d =
     opt_or (draft_remote_profile (dr_source d)) (draft_remote_profile (dr_destination d))"

definition draft_handle :: "transfer_draft \<Rightarrow> local_file_handle option" where
  "draft_handle d = opt_or (draft_local_handle (dr_source d)) (draft_local_handle (dr_destination d))"

fun draft_endpoint :: "transfer_draft_endpoint \<Rightarrow> remote_protocol \<Rightarrow> transfer_endpoint" where
  "draft_endpoint (Draft_Local h) _ = Ep_Local h"
| "draft_endpoint (Draft_Remote p path) proto =
     Ep_Remote \<lparr>rte_profile_id = p, rte_protocol = proto, rte_path = path\<rparr>"

definition draft_into_task ::
  "(transfer_task \<Rightarrow> bytes option) \<Rightarrow> transfer_draft \<Rightarrow> remote_protocol \<Rightarrow> transfer_feature_set \<Rightarrow>
   i64 \<Rightarrow> (transfer_public_error, transfer_task) result" where
  "draft_into_task json d proto features created =
     and_then (draft_validate d) (\<lambda>_.
     let source = draft_endpoint (dr_source d) proto;
         destination = draft_endpoint (dr_destination d) proto
     in and_then (map_err public_of_validation
          (task_new (dr_id d) source destination (dr_direction d) (dr_expected_source d)
             (dr_expected_destination d) (dr_retry_policy d) (dr_bandwidth_limit d)
             (dr_conflict_policy d) features created)) (\<lambda>task.
        and_then (validate_public json task) (\<lambda>_. Ok task)))"

section \<open>Queries and pages\<close>

record transfer_query =
  q_limit :: u8
  q_offset :: u32
  q_states :: "transfer_state_kind list"
  q_direction :: "transfer_direction option"
  q_profile_id :: "profile_id option"

definition query_validate :: "transfer_query \<Rightarrow> (transfer_public_error, unit) result" where
  "query_validate q =
     (if q_limit q = 0 \<or> q_limit q > MAX_TRANSFER_PAGE_TASKS then Err Pe_InvalidQueryLimit
      else if q_offset q > MAX_TRANSFER_QUERY_OFFSET then Err Pe_InvalidQueryOffset
      else if length (q_states q) > MAX_TRANSFER_STATE_FILTERS
           \<or> list_ex (\<lambda>i. q_states q ! i \<in> set (take i (q_states q))) [0..<length (q_states q)]
      then Err Pe_InvalidStateFilters
      else if is_some_and (q_profile_id q) (\<lambda>p. is_nil (profile_uuid p))
      then Err Pe_InvalidProfileId
      else Ok ())"

text \<open>\<open>matches\<close> asks the task for its remote profile only when every test before it passed and
  the query names a profile; a task without a remote endpoint then panics (None).\<close>

definition query_matches :: "transfer_query \<Rightarrow> transfer_task \<Rightarrow> bool option" where
  "query_matches q t =
     (if (q_states q = [] \<or> state_kind (task_state t) \<in> set (q_states q))
         \<and> is_none_or (q_direction q) (\<lambda>d. d = task_direction t)
      then (case q_profile_id q of
              None \<Rightarrow> Some True
            | Some p \<Rightarrow> map_option (\<lambda>p'. p = p') (remote_profile_id t))
      else Some False)"

record transfer_page =
  page_query :: transfer_query
  page_tasks :: "transfer_task list"
  page_has_more :: bool
  page_next_offset :: "u32 option"

text \<open>\<open>TransferPage::validate\<close> asks \<open>matches\<close> only of tasks that passed \<open>validate_public\<close>, which
  have a remote endpoint (lemma \<open>public_matches\<close> below), so the panic is out of reach and counts
  as no match here.\<close>

definition page_validate ::
  "(transfer_task \<Rightarrow> bytes option) \<Rightarrow> transfer_page \<Rightarrow> (transfer_public_error, unit) result" where
  "page_validate json p =
     and_then (query_validate (page_query p)) (\<lambda>_.
     if length (page_tasks p) > unat (q_limit (page_query p))
        \<or> list_ex (\<lambda>t. \<not> is_ok (validate_public json t)
                        \<or> query_matches (page_query p) t \<noteq> Some True) (page_tasks p)
     then Err Pe_InvalidPage
     else and_then
       (ok_or (if length (page_tasks p) < 2 ^ 32
               then checked_add (q_offset (page_query p)) (of_nat (length (page_tasks p)))
               else None) Pe_InvalidPage) (\<lambda>expected_next.
     if page_has_more p
     then (if page_tasks p = [] \<or> page_next_offset p \<noteq> Some expected_next
           then Err Pe_InvalidPage else Ok ())
     else if page_next_offset p \<noteq> None then Err Pe_InvalidPage else Ok ()))"

section \<open>Commands and outputs\<close>

datatype transfer_command =
    Cmd_Enqueue transfer_draft
  | Cmd_List transfer_query
  | Cmd_Get transfer_id
  | Cmd_Cancel transfer_id u64
  | Cmd_Retry transfer_id u64
  | Cmd_ResolveConflict transfer_id u64 conflict_policy

fun command_validate :: "transfer_command \<Rightarrow> (transfer_public_error, unit) result" where
  "command_validate (Cmd_Enqueue d) = draft_validate d"
| "command_validate (Cmd_List q) = query_validate q"
| "command_validate (Cmd_Get i) = validate_id i"
| "command_validate (Cmd_Cancel i _) = validate_id i"
| "command_validate (Cmd_Retry i _) = validate_id i"
| "command_validate (Cmd_ResolveConflict i _ _) = validate_id i"

fun command_task_id :: "transfer_command \<Rightarrow> transfer_id option" where
  "command_task_id (Cmd_Enqueue d) = Some (dr_id d)"
| "command_task_id (Cmd_List _) = None"
| "command_task_id (Cmd_Get i) = Some i"
| "command_task_id (Cmd_Cancel i _) = Some i"
| "command_task_id (Cmd_Retry i _) = Some i"
| "command_task_id (Cmd_ResolveConflict i _ _) = Some i"

fun command_expected_revision :: "transfer_command \<Rightarrow> u64 option" where
  "command_expected_revision (Cmd_Cancel _ r) = Some r"
| "command_expected_revision (Cmd_Retry _ r) = Some r"
| "command_expected_revision (Cmd_ResolveConflict _ r _) = Some r"
| "command_expected_revision _ = None"

datatype transfer_mutation_result =
    Mr_Updated transfer_task
  | Mr_Conflict u64 transfer_task

datatype transfer_output =
    Out_Task transfer_task
  | Out_Page transfer_page
  | Out_Mutation transfer_mutation_result

fun validate_mutation ::
  "(transfer_task \<Rightarrow> bytes option) \<Rightarrow> transfer_id \<Rightarrow> u64 \<Rightarrow> transfer_mutation_result \<Rightarrow>
   (transfer_public_error, unit) result" where
  "validate_mutation json i expected (Mr_Updated t) =
     (if task_id t = i \<and> task_revision t \<ge> expected \<and> is_ok (validate_public json t)
      then Ok () else Err Pe_ResultMismatch)"
| "validate_mutation json i expected (Mr_Conflict returned current) =
     (if returned = expected \<and> task_id current = i \<and> task_revision current \<noteq> expected
         \<and> is_ok (validate_public json current)
      then Ok () else Err Pe_ResultMismatch)"

fun output_matches ::
  "(transfer_task \<Rightarrow> bytes option) \<Rightarrow> transfer_command \<Rightarrow> transfer_output \<Rightarrow>
   (transfer_public_error, unit) result" where
  "output_matches json (Cmd_Enqueue d) (Out_Task t) =
     (if task_id t = dr_id d \<and> is_ok (validate_public json t) then Ok ()
      else Err Pe_ResultMismatch)"
| "output_matches json (Cmd_Get i) (Out_Task t) =
     (if task_id t = i \<and> is_ok (validate_public json t) then Ok () else Err Pe_ResultMismatch)"
| "output_matches json (Cmd_List q) (Out_Page p) =
     (if page_query p = q \<and> is_ok (page_validate json p) then Ok () else Err Pe_ResultMismatch)"
| "output_matches json (Cmd_Cancel i r) (Out_Mutation m) = validate_mutation json i r m"
| "output_matches json (Cmd_Retry i r) (Out_Mutation m) = validate_mutation json i r m"
| "output_matches json (Cmd_ResolveConflict i r _) (Out_Mutation m) = validate_mutation json i r m"
| "output_matches _ _ _ = Err Pe_ResultMismatch"

definition output_validate_for ::
  "(transfer_task \<Rightarrow> bytes option) \<Rightarrow> transfer_output \<Rightarrow> transfer_command \<Rightarrow>
   (transfer_public_error, unit) result" where
  "output_validate_for json out cmd =
     and_then (command_validate cmd) (\<lambda>_. output_matches json cmd out)"

section \<open>Lemmas\<close>

definition json_fits :: "(transfer_task \<Rightarrow> bytes option) \<Rightarrow> transfer_task \<Rightarrow> bool" where
  "json_fits json t =
     is_some_and (json t) (\<lambda>encoded. length encoded \<le> MAX_PUBLIC_TRANSFER_TASK_BYTES)"

definition features_consistent :: "transfer_feature_set \<Rightarrow> bool" where
  "features_consistent f = ((fs_resume f = Feature_Supported) = (fs_resume_validation f \<noteq> None))"

definition public_static :: "transfer_task \<Rightarrow> bool" where
  "public_static t =
     (validate_id (task_id t) = Ok () \<and>
      validate_endpoints (task_direction t) (task_source t) (task_destination t) = Ok () \<and>
      validate_task_endpoint (task_source t) = Ok () \<and>
      validate_task_endpoint (task_destination t) = Ok () \<and>
      validate_identity (task_expected_source t) = Ok () \<and>
      validate_identity (task_expected_destination t) = Ok () \<and>
      validate_retry_policy (task_retry_policy t) = Ok () \<and>
      validate_bandwidth (task_bandwidth_limit t) = Ok () \<and>
      0 \<le> task_created_at t \<and> features_consistent (task_features t))"

definition public_dynamic :: "transfer_task \<Rightarrow> bool" where
  "public_dynamic t =
     (validate_state_identities (task_state t) = Ok () \<and>
      task_completed_attempts t \<le> rp_max_attempts (task_retry_policy t) \<and>
      task_created_at t \<le> task_updated_at t \<and>
      is_none_or (pg_total_bytes (task_progress t))
        (\<lambda>n. pg_bytes_transferred (task_progress t) \<le> n) \<and>
      is_none_or (pg_bytes_per_second (task_progress t))
        (\<lambda>s. s \<le> MAX_BANDWIDTH_BYTES_PER_SECOND))"

lemma unit_result_simps [simp]:
  "(\<exists>x. (r :: ('e, unit) result) = Ok x) \<longleftrightarrow> r = Ok ()" "(x :: unit) = y"
  by auto

lemma validate_public_Ok:
  "validate_public json t = Ok () \<longleftrightarrow> public_static t \<and> public_dynamic t \<and> json_fits json t"
proof -
  have "(case (fs_resume f, fs_resume_validation f) of
          (Feature_Supported, None) \<Rightarrow> Err Pe_InvalidTask
        | (Feature_Unsupported _, Some _) \<Rightarrow> Err Pe_InvalidTask
        | _ \<Rightarrow> Ok ()) = Ok () \<longleftrightarrow> features_consistent f" for f
    by (auto simp: features_consistent_def split: feature_support.splits option.splits)
  then show ?thesis
    unfolding validate_public_def public_static_def public_dynamic_def json_fits_def
    by (simp add: and_then_eq_Ok not_is_some_and not_less is_some_and_iff)
       (auto simp: not_le not_less is_none_or_def is_some_and_def split: option.splits)
qed

lemma run_op_public_static: "run_op op t = Ok t' \<Longrightarrow> public_static t' = public_static t"
  using run_op_frame [of op t t'] by (auto simp: task_frame_def public_static_def)

lemma task_inv_dynamic:
  "task_inv t \<Longrightarrow> validate_state_identities (task_state t) = Ok () \<Longrightarrow> public_dynamic t"
  by (simp add: task_inv_def progress_ok_def public_dynamic_def)

lemma public_has_profile: "public_static t \<Longrightarrow> \<exists>p. remote_profile_id t = Some p"
  using validate_endpoints_has_remote
  by (auto simp: public_static_def remote_profile_id_def)

lemma public_matches: "public_static t \<Longrightarrow> query_matches q t \<noteq> None"
  using public_has_profile [of t] by (auto simp: query_matches_def split: option.splits)

lemma draft_endpoints_valid:
  "validate_draft_endpoints dir s d = Ok () \<longleftrightarrow>
     validate_endpoints dir (draft_endpoint s proto) (draft_endpoint d proto) = Ok () \<and>
     validate_task_endpoint (draft_endpoint s proto) = Ok () \<and>
     validate_task_endpoint (draft_endpoint d proto) = Ok ()"
  by (cases dir; cases s; cases d) (auto simp: validate_draft_pair_def)

definition draft_task ::
  "transfer_draft \<Rightarrow> remote_protocol \<Rightarrow> transfer_feature_set \<Rightarrow> i64 \<Rightarrow> transfer_task" where
  "draft_task d proto features created =
     \<lparr>task_id = dr_id d, task_source = draft_endpoint (dr_source d) proto,
      task_destination = draft_endpoint (dr_destination d) proto, task_direction = dr_direction d,
      task_expected_source = dr_expected_source d,
      task_expected_destination = dr_expected_destination d, task_state = Queued,
      task_progress = progress_pending (expected_size (dr_expected_source d)),
      task_retry_policy = dr_retry_policy d, task_completed_attempts = 0,
      task_bandwidth_limit = dr_bandwidth_limit d, task_conflict_policy = dr_conflict_policy d,
      task_features = features, task_revision = 0, task_generation = 0,
      task_created_at = created, task_updated_at = created\<rparr>"

lemma draft_task_dynamic: "public_dynamic (draft_task d proto features created)"
  by (cases "expected_size (dr_expected_source d)")
     (simp_all add: public_dynamic_def draft_task_def progress_pending_def
       validate_state_identities_def)

lemma draft_task_static:
  "public_static (draft_task d proto features created) \<longleftrightarrow>
     draft_validate d = Ok () \<and> 0 \<le> created \<and> features_consistent features"
  by (auto simp: public_static_def draft_task_def draft_validate_def and_then_eq_Ok
      draft_endpoints_valid [of _ _ _ proto])

section \<open>Properties\<close>

text \<open>Converting a draft is exact. A draft becomes a task if and only if the draft itself
  validates, the creation time is not negative, the feature set is consistent and the encoding
  fits; the task is then the draft's, queued, at revision and generation zero, with nothing
  transferred. No check of the public contract can fail on a valid draft beyond these.\<close>

theorem draft_into_task_exact:
  "draft_into_task json d proto features created = Ok t \<longleftrightarrow>
     t = draft_task d proto features created \<and> draft_validate d = Ok () \<and> 0 \<le> created \<and>
     features_consistent features \<and> json_fits json t"
proof -
  have "task_new (dr_id d) (draft_endpoint (dr_source d) proto)
      (draft_endpoint (dr_destination d) proto) (dr_direction d) (dr_expected_source d)
      (dr_expected_destination d) (dr_retry_policy d) (dr_bandwidth_limit d)
      (dr_conflict_policy d) features created = Ok t' \<longleftrightarrow>
    validate_endpoints (dr_direction d) (draft_endpoint (dr_source d) proto)
      (draft_endpoint (dr_destination d) proto) = Ok () \<and> t' = draft_task d proto features created"
    for t'
    by (auto simp: task_new_def draft_task_def and_then_eq_Ok)
  moreover have "draft_validate d = Ok () \<Longrightarrow>
    validate_endpoints (dr_direction d) (draft_endpoint (dr_source d) proto)
      (draft_endpoint (dr_destination d) proto) = Ok ()"
    by (auto simp: draft_validate_def and_then_eq_Ok draft_endpoints_valid [of _ _ _ proto])
  ultimately show ?thesis
    unfolding draft_into_task_def Let_def
    by (auto simp: and_then_eq_Ok validate_public_Ok draft_task_dynamic draft_task_static)
qed

text \<open>The public contract is stable. A well-formed task that satisfies the contract still
  satisfies it after any successful operation, provided the object identities the operation
  brought in are within their bounds and the new encoding fits.\<close>

theorem public_contract_stable:
  assumes "validate_public json t = Ok ()" and "task_inv t"
    and "run_op op t = Ok t'" and "op_time op \<le> i64_max"
    and "validate_state_identities (task_state t') = Ok ()" and "json_fits json t'"
  shows "validate_public json t' = Ok () \<and> task_inv t'"
proof -
  from assms(1) have "public_static t" by (simp add: validate_public_Ok)
  then have "public_static t'" using run_op_public_static [OF assms(3)] by simp
  moreover have inv: "task_inv t'" by (rule run_op_inv [OF assms(3,2,4)])
  moreover have "public_dynamic t'" by (rule task_inv_dynamic [OF inv assms(5)])
  ultimately show ?thesis by (simp add: validate_public_Ok assms(6))
qed

lemma sample_fresh_public: "validate_public (\<lambda>_. Some []) sample_fresh = Ok ()"
  by (simp add: validate_public_def validate_id_def is_nil_def sample_fresh_def sample_task_def
      sample_remote_def validate_path_def validate_identity_def validate_state_identities_def
      validate_retry_policy_def retry_policy_new_def retry_policy_default_def MAX_RETRY_ATTEMPTS_def
      validate_bandwidth_def progress_pending_def sample_features_def
      MAX_TRANSFER_REMOTE_PATH_BYTES_def)

theorem public_contract_stable_witness: "validate_public (\<lambda>_. Some []) sample_started = Ok ()"
proof -
  have "task_inv sample_fresh" using task_new_inv sample_new_Ok sample_new_def by metis
  moreover have "validate_state_identities (task_state sample_started) = Ok ()"
    by (simp add: validate_state_identities_def sample_started_def sample_task_def)
  ultimately show ?thesis
    using public_contract_stable [OF sample_fresh_public _ sample_start]
    by (simp add: i64_max_def json_fits_def)
qed

end
