(* ===== verification/Transfer_Store.thy ===== *)
theory Transfer_Store
  imports Transfer_Machine "HOL-Library.Char_ord" "HOL-Library.List_Lexorder"
    "HOL-Library.Product_Lexorder"
begin

text \<open>
  crates/transfers/src/persistence.rs: the durable store of transfer tasks. The trait
  \<open>TransferStore\<close> is a record of operations on a store state, with its promises as the locale
  \<open>transfer_store\<close>; \<open>InMemoryTransferStore\<close> and \<open>SqliteTransferStore\<close> are its two
  implementations. SQLite, serde\_json and the text form of a uuid are outside the repository:
  they are parameters, with the documented behaviour the store relies on as the locale
  \<open>sqlite_engine\<close> and the codec assumptions of \<open>sqlite_store\<close>.
\<close>

section \<open>The trait\<close>

datatype store_error =
    Se_AlreadyExists | Se_NotFound | Se_RevisionConflict | Se_Unavailable | Se_Corrupt
  | Se_UnsupportedSchema | Se_DocumentTooLarge

record 's store_ops =
  st_load_all :: "'s \<Rightarrow> (store_error, transfer_task list) result \<times> 's"
  st_insert :: "transfer_task \<Rightarrow> 's \<Rightarrow> (store_error, unit) result \<times> 's"
  st_compare_and_swap :: "u64 \<Rightarrow> transfer_task \<Rightarrow> 's \<Rightarrow> (store_error, unit) result \<times> 's"

section \<open>The in-memory store\<close>

type_synonym memory_store = "(transfer_id, transfer_task) btree"

definition memory_with_tasks :: "transfer_task list \<Rightarrow> memory_store" where
  "memory_with_tasks ts = fold (\<lambda>t m. bt_insert (task_id t) t m) ts []"

definition memory_task :: "transfer_id \<Rightarrow> memory_store \<Rightarrow> transfer_task option" where
  "memory_task i m = bt_get i m"

definition memory_load_all :: "memory_store \<Rightarrow> (store_error, transfer_task list) result \<times> memory_store" where
  "memory_load_all m = (Ok (bt_values m), m)"

definition memory_insert ::
  "transfer_task \<Rightarrow> memory_store \<Rightarrow> (store_error, unit) result \<times> memory_store" where
  "memory_insert t m =
     (if bt_get (task_id t) m \<noteq> None then (Err Se_AlreadyExists, m)
      else (Ok (), bt_insert (task_id t) t m))"

definition memory_compare_and_swap ::
  "u64 \<Rightarrow> transfer_task \<Rightarrow> memory_store \<Rightarrow> (store_error, unit) result \<times> memory_store" where
  "memory_compare_and_swap expected t m =
     (case bt_get (task_id t) m of
        None \<Rightarrow> (Err Se_NotFound, m)
      | Some current \<Rightarrow>
          if task_revision current \<noteq> expected then (Err Se_RevisionConflict, m)
          else (Ok (), bt_insert (task_id t) t m))"

definition memory_ops :: "memory_store store_ops" where
  "memory_ops =
     \<lparr>st_load_all = memory_load_all, st_insert = memory_insert,
      st_compare_and_swap = memory_compare_and_swap\<rparr>"

section \<open>The SQLite store\<close>

record task_row =
  row_task_id :: string
  row_revision :: i64
  row_state :: string
  row_document :: bytes
  row_updated_at :: i64

datatype sqlite_code =
    Sq_ConstraintViolation | Sq_DatabaseCorrupt | Sq_NotADatabase | Sq_SchemaChanged | Sq_OtherCode

datatype sqlite_error = SqliteFailure sqlite_code | SqliteOther

definition is_constraint_violation :: "sqlite_error \<Rightarrow> bool" where
  "is_constraint_violation e = (e = SqliteFailure Sq_ConstraintViolation)"

definition map_sqlite_error :: "sqlite_error \<Rightarrow> store_error" where
  "map_sqlite_error e =
     (case e of
        SqliteFailure code \<Rightarrow>
          if code \<in> {Sq_DatabaseCorrupt, Sq_NotADatabase, Sq_SchemaChanged}
          then Se_Corrupt else Se_Unavailable
      | SqliteOther \<Rightarrow> Se_Unavailable)"

text \<open>The calls the store makes on its connection. \<open>sq_select_all\<close> is the ordered SELECT of
  \<open>load_all\<close>: the outer result is \<open>prepare\<close> and \<open>query\<close>, the list has what each
  \<open>rows.next()\<close> with its column reads gives. Dropping an open transaction rolls it back.\<close>

record 'db sqlite_ops =
  sq_begin_immediate :: "'db \<Rightarrow> (sqlite_error, unit) result \<times> 'db"
  sq_insert_row :: "task_row \<Rightarrow> 'db \<Rightarrow> (sqlite_error, nat) result \<times> 'db"
  sq_update_row :: "task_row \<Rightarrow> i64 \<Rightarrow> 'db \<Rightarrow> (sqlite_error, nat) result \<times> 'db"
  sq_select_revision :: "string \<Rightarrow> 'db \<Rightarrow> (sqlite_error, i64 option) result \<times> 'db"
  sq_select_all :: "'db \<Rightarrow> (sqlite_error, (sqlite_error, task_row) result list) result \<times> 'db"
  sq_commit :: "'db \<Rightarrow> (sqlite_error, unit) result \<times> 'db"
  sq_rollback :: "'db \<Rightarrow> 'db"

record codec =
  cd_to_vec :: "transfer_task \<Rightarrow> bytes option"
  cd_from_slice :: "bytes \<Rightarrow> transfer_task option"
  cd_uuid_text :: "uuid \<Rightarrow> string"

definition MAX_TRANSFER_DOCUMENT_BYTES :: nat where
  "MAX_TRANSFER_DOCUMENT_BYTES = 256 * 1024"

fun state_code :: "transfer_state_kind \<Rightarrow> string" where
  "state_code K_Queued = ''queued''"
| "state_code K_Running = ''running''"
| "state_code K_Pausing = ''pausing''"
| "state_code K_Paused = ''paused''"
| "state_code K_Cancelling = ''cancelling''"
| "state_code K_RetryScheduled = ''retry_scheduled''"
| "state_code K_Conflict = ''conflict''"
| "state_code K_Completed = ''completed''"
| "state_code K_Failed = ''failed''"
| "state_code K_Cancelled = ''cancelled''"

definition sqlite_encode :: "codec \<Rightarrow> transfer_task \<Rightarrow> (store_error, bytes) result" where
  "sqlite_encode cd t =
     and_then (ok_or (cd_to_vec cd t) Se_Corrupt) (\<lambda>document.
     if length document > MAX_TRANSFER_DOCUMENT_BYTES then Err Se_DocumentTooLarge
     else Ok document)"

definition decode_row :: "codec \<Rightarrow> task_row \<Rightarrow> (store_error, transfer_task) result" where
  "decode_row cd row =
     (if length (row_document row) > MAX_TRANSFER_DOCUMENT_BYTES \<or> row_revision row < 0
      then Err Se_Corrupt
      else
        and_then (ok_or (cd_from_slice cd (row_document row)) Se_Corrupt) (\<lambda>task.
        and_then (ok_or (u64_of_i64 (row_revision row)) Se_Corrupt) (\<lambda>revision.
        if cd_uuid_text cd (transfer_uuid (task_id task)) \<noteq> row_task_id row
           \<or> task_revision task \<noteq> revision
           \<or> state_code (state_kind (task_state task)) \<noteq> row_state row
           \<or> task_updated_at task \<noteq> row_updated_at row
        then Err Se_Corrupt
        else Ok task)))"

definition task_to_row :: "codec \<Rightarrow> transfer_task \<Rightarrow> bytes \<Rightarrow> i64 \<Rightarrow> task_row" where
  "task_to_row cd t document revision =
     \<lparr>row_task_id = cd_uuid_text cd (transfer_uuid (task_id t)), row_revision = revision,
      row_state = state_code (state_kind (task_state t)), row_document = document,
      row_updated_at = task_updated_at t\<rparr>"

fun decode_rows ::
  "codec \<Rightarrow> (sqlite_error, task_row) result list \<Rightarrow> (store_error, transfer_task list) result" where
  "decode_rows cd [] = Ok []"
| "decode_rows cd (r # rs) =
     and_then (map_err map_sqlite_error r) (\<lambda>row.
     and_then (decode_row cd row) (\<lambda>task.
     and_then (decode_rows cd rs) (\<lambda>tasks. Ok (task # tasks))))"

definition sqlite_load_all ::
  "'db sqlite_ops \<Rightarrow> codec \<Rightarrow> 'db \<Rightarrow> (store_error, transfer_task list) result \<times> 'db" where
  "sqlite_load_all sq cd db =
     (case sq_select_all sq db of
        (Err e, db1) \<Rightarrow> (Err (map_sqlite_error e), db1)
      | (Ok rows, db1) \<Rightarrow> (decode_rows cd rows, db1))"

text \<open>\<open>transaction.commit().map_err(map_sqlite_error)\<close>, with the rollback of the dropped
  transaction when the commit failed.\<close>

definition sqlite_finish :: "'db sqlite_ops \<Rightarrow> 'db \<Rightarrow> (store_error, unit) result \<times> 'db" where
  "sqlite_finish sq db =
     (case sq_commit sq db of
        (Err e, db1) \<Rightarrow> (Err (map_sqlite_error e), sq_rollback sq db1)
      | (Ok _, db1) \<Rightarrow> (Ok (), db1))"

definition sqlite_insert ::
  "'db sqlite_ops \<Rightarrow> codec \<Rightarrow> transfer_task \<Rightarrow> 'db \<Rightarrow> (store_error, unit) result \<times> 'db" where
  "sqlite_insert sq cd t db =
     (case sqlite_encode cd t of
        Err e \<Rightarrow> (Err e, db)
      | Ok document \<Rightarrow>
     (case i64_of_u64 (task_revision t) of
        None \<Rightarrow> (Err Se_Corrupt, db)
      | Some revision \<Rightarrow>
     (case sq_begin_immediate sq db of
        (Err e, db1) \<Rightarrow> (Err (map_sqlite_error e), db1)
      | (Ok _, db1) \<Rightarrow>
     (case sq_insert_row sq (task_to_row cd t document revision) db1 of
        (Err e, db2) \<Rightarrow>
          (Err (if is_constraint_violation e then Se_AlreadyExists else map_sqlite_error e),
           sq_rollback sq db2)
      | (Ok _, db2) \<Rightarrow> sqlite_finish sq db2))))"

text \<open>What follows the conditional UPDATE: no row changed means a lookup to tell a conflict from a
  missing task, in the same transaction.\<close>

definition sqlite_swap_tail ::
  "'db sqlite_ops \<Rightarrow> string \<Rightarrow> (sqlite_error, nat) result \<Rightarrow> 'db \<Rightarrow> (store_error, unit) result \<times> 'db"
where
  "sqlite_swap_tail sq key n db =
     (case n of
        Err e \<Rightarrow> (Err (map_sqlite_error e), sq_rollback sq db)
      | Ok changed \<Rightarrow>
          if changed = 0
          then (case sq_select_revision sq key db of
                  (Err e, db1) \<Rightarrow> (Err (map_sqlite_error e), sq_rollback sq db1)
                | (Ok current, db1) \<Rightarrow>
                    (Err (if current \<noteq> None then Se_RevisionConflict else Se_NotFound),
                     sq_rollback sq db1))
          else sqlite_finish sq db)"

definition sqlite_compare_and_swap ::
  "'db sqlite_ops \<Rightarrow> codec \<Rightarrow> u64 \<Rightarrow> transfer_task \<Rightarrow> 'db \<Rightarrow> (store_error, unit) result \<times> 'db" where
  "sqlite_compare_and_swap sq cd expected t db =
     (case sqlite_encode cd t of
        Err e \<Rightarrow> (Err e, db)
      | Ok document \<Rightarrow>
     (case (i64_of_u64 expected, i64_of_u64 (task_revision t)) of
        (Some expected_revision, Some revision) \<Rightarrow>
     (case sq_begin_immediate sq db of
        (Err e, db1) \<Rightarrow> (Err (map_sqlite_error e), db1)
      | (Ok _, db1) \<Rightarrow>
     (case sq_update_row sq (task_to_row cd t document revision) expected_revision db1 of
        (n, db2) \<Rightarrow> sqlite_swap_tail sq (cd_uuid_text cd (transfer_uuid (task_id t))) n db2))
      | _ \<Rightarrow> (Err Se_Corrupt, db)))"

definition sqlite_ops_of :: "'db sqlite_ops \<Rightarrow> codec \<Rightarrow> 'db store_ops" where
  "sqlite_ops_of sq cd =
     \<lparr>st_load_all = sqlite_load_all sq cd, st_insert = sqlite_insert sq cd,
      st_compare_and_swap = sqlite_compare_and_swap sq cd\<rparr>"

section \<open>Opening the database\<close>

definition SQLITE_TRANSFER_SCHEMA_VERSION :: u32 where "SQLITE_TRANSFER_SCHEMA_VERSION = 1"

text \<open>The calls of \<open>from_connection\<close>, in order. \<open>op_migrate\<close> is the execution of the version 1
  schema inside the transaction, which also sets \<open>user_version\<close>.\<close>

record 'db sqlite_open_ops =
  op_busy_timeout :: "'db \<Rightarrow> (sqlite_error, unit) result \<times> 'db"
  op_quick_check :: "'db \<Rightarrow> (sqlite_error, string) result \<times> 'db"
  op_user_version :: "'db \<Rightarrow> (sqlite_error, u32) result \<times> 'db"
  op_pragmas :: "'db \<Rightarrow> (sqlite_error, unit) result \<times> 'db"
  op_begin :: "'db \<Rightarrow> (sqlite_error, unit) result \<times> 'db"
  op_migrate :: "'db \<Rightarrow> (sqlite_error, unit) result \<times> 'db"
  op_commit :: "'db \<Rightarrow> (sqlite_error, unit) result \<times> 'db"
  op_rollback :: "'db \<Rightarrow> 'db"

definition ensure_database_integrity ::
  "'db sqlite_open_ops \<Rightarrow> 'db \<Rightarrow> (store_error, unit) result \<times> 'db" where
  "ensure_database_integrity ops db =
     (case op_quick_check ops db of
        (Err e, db1) \<Rightarrow> (Err (map_sqlite_error e), db1)
      | (Ok text, db1) \<Rightarrow> (if text \<noteq> ''ok'' then Err Se_Corrupt else Ok (), db1))"

definition migrate_schema ::
  "'db sqlite_open_ops \<Rightarrow> 'db \<Rightarrow> (store_error, unit) result \<times> 'db" where
  "migrate_schema ops db =
     (case op_begin ops db of
        (Err e, db1) \<Rightarrow> (Err (map_sqlite_error e), db1)
      | (Ok _, db1) \<Rightarrow>
     (case op_migrate ops db1 of
        (Err e, db2) \<Rightarrow> (Err (map_sqlite_error e), op_rollback ops db2)
      | (Ok _, db2) \<Rightarrow>
     (case op_commit ops db2 of
        (Err e, db3) \<Rightarrow> (Err (map_sqlite_error e), op_rollback ops db3)
      | (Ok _, db3) \<Rightarrow> (Ok (), db3))))"

definition from_connection ::
  "'db sqlite_open_ops \<Rightarrow> 'db \<Rightarrow> (store_error, unit) result \<times> 'db" where
  "from_connection ops db =
     (case op_busy_timeout ops db of
        (Err e, db1) \<Rightarrow> (Err (map_sqlite_error e), db1)
      | (Ok _, db1) \<Rightarrow>
     (case ensure_database_integrity ops db1 of
        (Err e, db2) \<Rightarrow> (Err e, db2)
      | (Ok _, db2) \<Rightarrow>
     (case op_user_version ops db2 of
        (Err e, db3) \<Rightarrow> (Err (map_sqlite_error e), db3)
      | (Ok version, db3) \<Rightarrow>
     if version > SQLITE_TRANSFER_SCHEMA_VERSION then (Err Se_UnsupportedSchema, db3)
     else
     (case op_pragmas ops db3 of
        (Err e, db4) \<Rightarrow> (Err (map_sqlite_error e), db4)
      | (Ok _, db4) \<Rightarrow>
     if version = 0 then migrate_schema ops db4
     else if version = SQLITE_TRANSFER_SCHEMA_VERSION then (Ok (), db4)
     else (Err Se_UnsupportedSchema, db4)))))"

section \<open>The promise of a store\<close>

text \<open>\<open>tasks_of\<close> is the map a store holds durably. A store answers a successful \<open>load_all\<close>
  with exactly that map, one task per identifier; a successful write is one update of it, and a
  failed one changes nothing.\<close>

locale transfer_store =
  fixes st_ops :: "'s store_ops"
    and tasks_of :: "'s \<Rightarrow> transfer_id \<Rightarrow> transfer_task option"
    and st_ok :: "'s \<Rightarrow> bool"
  assumes keys: "st_ok s \<Longrightarrow> tasks_of s i = Some t \<Longrightarrow> task_id t = i"
    and load_all: "st_ok s \<Longrightarrow> st_load_all st_ops s = (loaded, s') \<Longrightarrow>
      st_ok s' \<and> tasks_of s' = tasks_of s \<and>
      (\<forall>ts. loaded = Ok ts \<longrightarrow> distinct (map task_id ts) \<and>
         (\<forall>t. t \<in> set ts \<longleftrightarrow> tasks_of s (task_id t) = Some t))"
    and insert: "st_ok s \<Longrightarrow> st_insert st_ops t s = (r, s') \<Longrightarrow>
      st_ok s' \<and>
      (if r = Ok () then tasks_of s (task_id t) = None \<and> tasks_of s' = (tasks_of s)(task_id t \<mapsto> t)
       else tasks_of s' = tasks_of s)"
    and compare_and_swap: "st_ok s \<Longrightarrow> st_compare_and_swap st_ops expected t s = (r, s') \<Longrightarrow>
      st_ok s' \<and>
      (if r = Ok () then (\<exists>c. tasks_of s (task_id t) = Some c \<and> task_revision c = expected) \<and>
                         tasks_of s' = (tasks_of s)(task_id t \<mapsto> t)
       else tasks_of s' = tasks_of s)"
begin

lemma insert_Ok:
  "st_ok s \<Longrightarrow> st_insert st_ops t s = (Ok (), s') \<Longrightarrow>
   st_ok s' \<and> tasks_of s (task_id t) = None \<and> tasks_of s' = (tasks_of s)(task_id t \<mapsto> t)"
  using insert by fastforce

lemma insert_Err:
  "st_ok s \<Longrightarrow> st_insert st_ops t s = (Err e, s') \<Longrightarrow> st_ok s' \<and> tasks_of s' = tasks_of s"
  using insert by fastforce

lemma swap_Ok:
  "st_ok s \<Longrightarrow> st_compare_and_swap st_ops r t s = (Ok (), s') \<Longrightarrow>
   st_ok s' \<and> tasks_of s' = (tasks_of s)(task_id t \<mapsto> t)"
  using compare_and_swap by fastforce

lemma swap_Err:
  "st_ok s \<Longrightarrow> st_compare_and_swap st_ops r t s = (Err e, s') \<Longrightarrow>
   st_ok s' \<and> tasks_of s' = tasks_of s"
  using compare_and_swap by fastforce

text \<open>Lost updates are impossible: of two writers that read the same revision, only one wins.\<close>

lemma no_lost_update:
  assumes "st_ok s" "st_compare_and_swap st_ops r t1 s = (Ok (), s1)"
    "st_ok s1" "task_id t2 = task_id t1" "task_revision t1 \<noteq> r"
    "st_compare_and_swap st_ops r t2 s1 = (r2, s2)"
  shows "r2 \<noteq> Ok () \<and> tasks_of s2 = tasks_of s1"
  using swap_Ok [OF assms(1,2)] compare_and_swap [OF assms(3,6)] assms(4,5)
  by (auto split: if_splits)

end

section \<open>The in-memory store keeps the promise\<close>

definition memory_ok :: "memory_store \<Rightarrow> bool" where
  "memory_ok m = (bt_ok m \<and> list_all (\<lambda>(i, t). task_id t = i) m)"

lemma memory_ok_get: "memory_ok m \<Longrightarrow> bt_get i m = Some t \<Longrightarrow> task_id t = i"
  by (auto simp: memory_ok_def list_all_iff bt_get_def dest: map_of_SomeD)

lemma memory_ok_insert: "memory_ok m \<Longrightarrow> memory_ok (bt_insert (task_id t) t m)"
proof -
  have "list_all P m \<Longrightarrow> P (k, v) \<Longrightarrow> list_all P (bt_insert k v m)" for P k v
    by (induction k v m rule: bt_insert.induct) auto
  then show "memory_ok m \<Longrightarrow> ?thesis" by (auto simp: memory_ok_def)
qed

lemma memory_ok_values: "memory_ok m \<Longrightarrow> map task_id (bt_values m) = map fst m"
  by (induction m) (auto simp: memory_ok_def bt_values_def bt_ok_Cons)

lemma memory_ok_in_values:
  assumes "memory_ok m"
  shows "t \<in> set (bt_values m) \<longleftrightarrow> bt_get (task_id t) m = Some t"
proof
  assume "t \<in> set (bt_values m)"
  then show "bt_get (task_id t) m = Some t"
    using assms bt_values_get [of m t] memory_ok_get [OF assms] by (force simp: memory_ok_def)
qed (rule bt_get_in_values)

interpretation memory: transfer_store memory_ops "\<lambda>m i. bt_get i m" memory_ok
proof
  fix m :: memory_store and r m'
  assume *: "memory_ok m" and l: "st_load_all memory_ops m = (r, m')"
  have "distinct (map task_id (bt_values m))"
    using * by (simp add: memory_ok_values bt_ok_distinct memory_ok_def)
  then show "memory_ok m' \<and> (\<lambda>i. bt_get i m') = (\<lambda>i. bt_get i m) \<and>
      (\<forall>ts. r = Ok ts \<longrightarrow> distinct (map task_id ts) \<and>
         (\<forall>t. t \<in> set ts \<longleftrightarrow> bt_get (task_id t) m = Some t))"
    using * l by (auto simp: memory_ops_def memory_load_all_def memory_ok_in_values)
qed (auto simp: memory_ops_def memory_insert_def memory_compare_and_swap_def memory_ok_get
       fun_eq_iff memory_ok_insert split: if_splits option.splits)

section \<open>What the store relies on in SQLite\<close>

text \<open>\<open>durable\<close> is the committed table, \<open>table\<close> what the open transaction sees. A transaction
  starts from the committed table; INSERT respects the primary key; the conditional UPDATE touches
  the one row whose key and revision match; a commit makes the transaction's table durable, a
  rollback or a failed call leaves the committed table as it was; SELECT returns the table.\<close>

locale sqlite_engine =
  fixes sq :: "'db sqlite_ops"
    and durable :: "'db \<Rightarrow> string \<Rightarrow> task_row option"
    and visible :: "'db \<Rightarrow> string \<Rightarrow> task_row option"
    and idle :: "'db \<Rightarrow> bool"
    and open_tx :: "'db \<Rightarrow> bool"
  assumes begin_tx: "idle db \<Longrightarrow> sq_begin_immediate sq db = (r, db') \<Longrightarrow>
      durable db' = durable db \<and>
      (if r = Ok () then open_tx db' \<and> visible db' = durable db' else idle db')"
    and insert_row: "open_tx db \<Longrightarrow> sq_insert_row sq row db = (n, db') \<Longrightarrow>
      open_tx db' \<and> durable db' = durable db \<and>
      (if is_ok n then visible db (row_task_id row) = None \<and>
                       visible db' = (visible db)(row_task_id row \<mapsto> row)
       else visible db' = visible db)"
    and update_row: "open_tx db \<Longrightarrow> sq_update_row sq row expected db = (n, db') \<Longrightarrow>
      open_tx db' \<and> durable db' = durable db \<and>
      (\<forall>k. n = Ok k \<longrightarrow>
         (if is_some_and (visible db (row_task_id row)) (\<lambda>old. row_revision old = expected)
          then k = 1 \<and> visible db' = (visible db)(row_task_id row \<mapsto> row)
          else k = 0 \<and> visible db' = visible db))"
    and select_revision: "open_tx db \<Longrightarrow> sq_select_revision sq key db = (v, db') \<Longrightarrow>
      open_tx db' \<and> durable db' = durable db \<and>
      (\<forall>x. v = Ok x \<longrightarrow> x = map_option row_revision (visible db key))"
    and commit: "open_tx db \<Longrightarrow> sq_commit sq db = (r, db') \<Longrightarrow>
      (if r = Ok () then idle db' \<and> durable db' = visible db
       else open_tx db' \<and> durable db' = durable db)"
    and rollback: "open_tx db \<Longrightarrow> idle (sq_rollback sq db) \<and> durable (sq_rollback sq db) = durable db"
    and select_all: "idle db \<Longrightarrow> sq_select_all sq db = (found, db') \<Longrightarrow>
      idle db' \<and> durable db' = durable db \<and>
      (\<forall>rows. found = Ok (map Ok rows) \<longrightarrow>
         distinct (map row_task_id rows) \<and>
         sorted (map (\<lambda>row. (row_updated_at row, row_task_id row)) rows) \<and>
         (\<forall>row. row \<in> set rows \<longleftrightarrow> durable db (row_task_id row) = Some row))"

definition sqlite_tasks ::
  "codec \<Rightarrow> ('db \<Rightarrow> string \<Rightarrow> task_row option) \<Rightarrow> 'db \<Rightarrow> transfer_id \<Rightarrow> transfer_task option" where
  "sqlite_tasks cd durable db i =
     Option.bind (durable db (cd_uuid_text cd (transfer_uuid i)))
       (\<lambda>row. case decode_row cd row of Ok t \<Rightarrow> Some t | Err _ \<Rightarrow> None)"

definition sqlite_ok ::
  "codec \<Rightarrow> ('db \<Rightarrow> string \<Rightarrow> task_row option) \<Rightarrow> ('db \<Rightarrow> bool) \<Rightarrow> 'db \<Rightarrow> bool" where
  "sqlite_ok cd durable idle db =
     (idle db \<and>
      (\<forall>key row. durable db key = Some row \<longrightarrow>
         row_task_id row = key \<and> is_ok (decode_row cd row)))"

lemma sqlite_tasks_Some:
  "sqlite_tasks cd durable db i = Some t \<longleftrightarrow>
     (\<exists>row. durable db (cd_uuid_text cd (transfer_uuid i)) = Some row \<and> decode_row cd row = Ok t)"
  by (cases "durable db (cd_uuid_text cd (transfer_uuid i))")
     (auto simp: sqlite_tasks_def split: sum.splits)

lemma decode_row_Ok:
  "decode_row cd row = Ok t \<Longrightarrow>
   cd_uuid_text cd (transfer_uuid (task_id t)) = row_task_id row \<and>
   task_revision t = word_of_int (row_revision row) \<and> cd_from_slice cd (row_document row) = Some t"
  by (auto simp: decode_row_def and_then_eq_Ok u64_of_i64_def split: if_splits)

lemma decode_rows_Ok:
  "decode_rows cd rs = Ok ts \<Longrightarrow>
   \<exists>rows. rs = map Ok rows \<and> list_all2 (\<lambda>row t. decode_row cd row = Ok t) rows ts"
proof (induction rs arbitrary: ts)
  case (Cons r rs)
  then obtain row t ts' where "r = Ok row" "decode_row cd row = Ok t" "decode_rows cd rs = Ok ts'"
    "ts = t # ts'"
    by (auto simp: and_then_eq_Ok)
  moreover obtain rows where "rs = map Ok rows"
    "list_all2 (\<lambda>row t. decode_row cd row = Ok t) rows ts'"
    using Cons.IH calculation by blast
  ultimately show ?case by (intro exI [of _ "row # rows"]) simp
qed simp

lemma encode_Ok:
  "sqlite_encode cd t = Ok b \<longleftrightarrow> cd_to_vec cd t = Some b \<and> length b \<le> MAX_TRANSFER_DOCUMENT_BYTES"
  by (cases "cd_to_vec cd t") (auto simp: sqlite_encode_def)

text \<open>With a codec that reads back what it wrote, a row that the store writes decodes to the task
  it was written for.\<close>

lemma decode_encoded:
  assumes "cd_from_slice cd b = Some t" "sqlite_encode cd t = Ok b"
    "i64_of_u64 (task_revision t) = Some r"
  shows "decode_row cd (task_to_row cd t b r) = Ok t"
  using assms u64_of_i64_of_u64 [OF assms(3)]
  by (auto simp: decode_row_def task_to_row_def encode_Ok i64_of_u64_def split: if_splits)

locale sqlite_store = sqlite_engine +
  fixes cd :: codec
  assumes round_trip: "cd_to_vec cd t = Some b \<Longrightarrow> cd_from_slice cd b = Some t"
    and uuid_text_inj: "cd_uuid_text cd u = cd_uuid_text cd v \<Longrightarrow> u = v"
begin

abbreviation "key t \<equiv> cd_uuid_text cd (transfer_uuid (task_id t))"

lemma key_inj: "cd_uuid_text cd (transfer_uuid i) = cd_uuid_text cd (transfer_uuid j) \<longleftrightarrow> i = j"
  using uuid_text_inj by (cases i; cases j) auto

lemma tasks_update:
  assumes "durable db' = (durable db)(key t \<mapsto> row)" "decode_row cd row = Ok t"
  shows "sqlite_tasks cd durable db' = (sqlite_tasks cd durable db)(task_id t \<mapsto> t)"
  using assms by (auto simp: sqlite_tasks_def fun_eq_iff key_inj)

lemma ok_update:
  assumes "sqlite_ok cd durable idle db" "idle db'" "durable db' = (durable db)(key t \<mapsto> row)"
    "decode_row cd row = Ok t" "row_task_id row = key t"
  shows "sqlite_ok cd durable idle db'"
  using assms by (auto simp: sqlite_ok_def)

lemma tasks_same: "durable db' = durable db \<Longrightarrow> sqlite_tasks cd durable db' = sqlite_tasks cd durable db"
  by (simp add: sqlite_tasks_def fun_eq_iff)

lemma ok_same:
  "sqlite_ok cd durable idle db \<Longrightarrow> idle db' \<Longrightarrow> durable db' = durable db \<Longrightarrow>
   sqlite_ok cd durable idle db'"
  by (simp add: sqlite_ok_def)

lemma written_row:
  assumes "sqlite_encode cd t = Ok b" "i64_of_u64 (task_revision t) = Some r"
  shows "decode_row cd (task_to_row cd t b r) = Ok t \<and> row_task_id (task_to_row cd t b r) = key t"
  using assms decode_encoded [OF round_trip assms] by (auto simp: encode_Ok task_to_row_def)

lemma finish:
  "open_tx db \<Longrightarrow> sqlite_finish sq db = (r, db') \<Longrightarrow>
   idle db' \<and> durable db' = (if r = Ok () then visible db else durable db)"
  using commit [of db] rollback [of "snd (sq_commit sq db)"]
  by (cases "sq_commit sq db"; cases "fst (sq_commit sq db)")
     (fastforce simp: sqlite_finish_def split: if_splits)+

lemma insert_in_tx:
  assumes "open_tx db" "sq_insert_row sq row db = (n, db1)"
    "(case n of Err e \<Rightarrow> (Err (err e), sq_rollback sq db1) | Ok _ \<Rightarrow> sqlite_finish sq db1) = (r, db')"
  shows "idle db' \<and>
    (if r = Ok () then visible db (row_task_id row) = None \<and>
       durable db' = (visible db)(row_task_id row \<mapsto> row)
     else durable db' = durable db)"
proof (cases n)
  case (Inl e)
  then show ?thesis using insert_row [OF assms(1,2)] rollback [of db1] assms(3) by auto
next
  case (Inr k)
  then show ?thesis
    using insert_row [OF assms(1,2)] finish [of db1 r db'] assms(3) by (auto split: if_splits)
qed

lemma insert_durable:
  assumes "idle db" "sqlite_insert sq cd t db = (r, db')"
  shows "idle db' \<and>
    (if r = Ok () then durable db (key t) = None \<and>
       (\<exists>row. durable db' = (durable db)(key t \<mapsto> row) \<and> decode_row cd row = Ok t \<and>
          row_task_id row = key t)
     else durable db' = durable db)"
proof (cases "\<exists>b rev db1. sqlite_encode cd t = Ok b \<and> i64_of_u64 (task_revision t) = Some rev \<and>
    sq_begin_immediate sq db = (Ok (), db1)")
  case True
  then obtain b rev db1 where *: "sqlite_encode cd t = Ok b" "i64_of_u64 (task_revision t) = Some rev"
    "sq_begin_immediate sq db = (Ok (), db1)" by blast
  let ?row = "task_to_row cd t b rev"
  obtain n db2 where n: "sq_insert_row sq ?row db1 = (n, db2)" by (cases "sq_insert_row sq ?row db1")
  have tx: "open_tx db1" "visible db1 = durable db" "durable db1 = durable db"
    using begin_tx [OF assms(1) *(3)] by auto
  have "(case n of Err e \<Rightarrow>
            (Err (if is_constraint_violation e then Se_AlreadyExists else map_sqlite_error e),
             sq_rollback sq db2)
          | Ok _ \<Rightarrow> sqlite_finish sq db2) = (r, db')"
    using assms(2) by (simp add: sqlite_insert_def * n split: sum.splits)
  from insert_in_tx [OF tx(1) n this] show ?thesis
    using written_row [OF *(1,2)] tx by auto
next
  case False
  then show ?thesis
    using assms(2) assms(1) begin_tx [OF assms(1)]
    by (auto simp: sqlite_insert_def split: sum.splits option.splits prod.splits)
qed

lemma cas_tail_zero:
  assumes "open_tx db" "sqlite_swap_tail sq k (Ok 0) db = (r, db')"
  shows "idle db' \<and> r \<noteq> Ok () \<and> durable db' = durable db"
proof -
  obtain v db3 where v: "sq_select_revision sq k db = (v, db3)" by (cases "sq_select_revision sq k db")
  then show ?thesis
    using select_revision [OF assms(1) v] rollback [of db3] assms(2)
    by (cases v) (auto simp: sqlite_swap_tail_def)
qed

lemma swap_in_tx:
  assumes "open_tx db" "sq_update_row sq row expected db = (n, db1)" "sqlite_swap_tail sq k n db1 = (r, db')"
  shows "idle db' \<and>
    (if r = Ok () then is_some_and (visible db (row_task_id row)) (\<lambda>old. row_revision old = expected) \<and>
       durable db' = (visible db)(row_task_id row \<mapsto> row)
     else durable db' = durable db)"
proof (cases n)
  case (Inl e)
  then show ?thesis
    using update_row [OF assms(1,2)] rollback [of db1] assms(3) by (auto simp: sqlite_swap_tail_def)
next
  case (Inr c)
  note upd = update_row [OF assms(1,2)] and c = Inr
  show ?thesis
  proof (cases "is_some_and (visible db (row_task_id row)) (\<lambda>old. row_revision old = expected)")
    case True
    then show ?thesis
      using upd c assms(3) finish [of db1 r db'] by (auto simp: sqlite_swap_tail_def)
  next
    case False
    then show ?thesis using upd c assms(3) cas_tail_zero [of db1 k r db'] by auto
  qed
qed

lemma swap_durable:
  assumes "idle db" "sqlite_compare_and_swap sq cd expected t db = (r, db')"
  shows "idle db' \<and>
    (if r = Ok () then
       is_some_and (durable db (key t)) (\<lambda>old. row_revision old = uint expected) \<and>
       (\<exists>row. durable db' = (durable db)(key t \<mapsto> row) \<and> decode_row cd row = Ok t \<and>
          row_task_id row = key t)
     else durable db' = durable db)"
proof (cases "\<exists>b e rev db1. sqlite_encode cd t = Ok b \<and> i64_of_u64 expected = Some e \<and>
    i64_of_u64 (task_revision t) = Some rev \<and> sq_begin_immediate sq db = (Ok (), db1)")
  case True
  then obtain b e rev db1 where *: "sqlite_encode cd t = Ok b" "i64_of_u64 expected = Some e"
    "i64_of_u64 (task_revision t) = Some rev" "sq_begin_immediate sq db = (Ok (), db1)" by blast
  let ?row = "task_to_row cd t b rev"
  obtain n db2 where n: "sq_update_row sq ?row e db1 = (n, db2)" by (cases "sq_update_row sq ?row e db1")
  have tx: "open_tx db1" "visible db1 = durable db" "durable db1 = durable db"
    using begin_tx [OF assms(1) *(4)] by auto
  have "sqlite_swap_tail sq (key t) n db2 = (r, db')"
    using assms(2) by (simp add: sqlite_compare_and_swap_def * n)
  note swap_in_tx [OF tx(1) n this]
  moreover have "e = uint expected" using *(2) by (auto simp: i64_of_u64_def split: if_splits)
  ultimately show ?thesis
    using written_row [OF *(1,3)] tx by auto
next
  case False
  then show ?thesis
    using assms begin_tx [OF assms(1)]
    by (auto simp: sqlite_compare_and_swap_def split: sum.splits option.splits prod.splits)
qed

lemma tasks_of_row:
  "sqlite_ok cd durable idle db \<Longrightarrow> durable db (cd_uuid_text cd (transfer_uuid i)) = Some row \<Longrightarrow>
   \<exists>t. decode_row cd row = Ok t \<and> sqlite_tasks cd durable db i = Some t \<and> task_id t = i \<and>
       task_revision t = word_of_int (row_revision row)"
  using decode_row_Ok [of cd row] key_inj [of _ i]
  by (cases "decode_row cd row") (force simp: sqlite_ok_def sqlite_tasks_def)+

lemma load_all_tasks:
  assumes ok: "sqlite_ok cd durable idle db" and l: "sqlite_load_all sq cd db = (Ok ts, db')"
  shows "distinct (map task_id ts) \<and>
         (\<forall>t. t \<in> set ts \<longleftrightarrow> sqlite_tasks cd durable db (task_id t) = Some t)"
proof -
  obtain rs where rs: "sq_select_all sq db = (Ok rs, db')" "decode_rows cd rs = Ok ts"
    using l by (auto simp: sqlite_load_all_def split: sum.splits prod.splits)
  then obtain rows where rows: "rs = map Ok rows"
    "list_all2 (\<lambda>row t. decode_row cd row = Ok t) rows ts"
    using decode_rows_Ok by blast
  have sel: "distinct (map row_task_id rows)"
      "\<forall>row. row \<in> set rows \<longleftrightarrow> durable db (row_task_id row) = Some row"
    using select_all [of db _ db'] ok rs rows by (auto simp: sqlite_ok_def)
  have "map row_task_id rows = map key ts"
    using rows(2) by (induction) (auto dest: decode_row_Ok)
  then have "distinct (map task_id ts)"
    using sel(1) by (auto simp: distinct_map inj_on_def)
  moreover have in_ts: "t \<in> set ts \<longleftrightarrow> (\<exists>row \<in> set rows. decode_row cd row = Ok t)" for t
    using rows(2) by (induction) auto
  have "t \<in> set ts \<longleftrightarrow> sqlite_tasks cd durable db (task_id t) = Some t" for t
  proof
    assume "t \<in> set ts"
    then obtain row where "row \<in> set rows" "decode_row cd row = Ok t" using in_ts by blast
    then have "durable db (key t) = Some row" "decode_row cd row = Ok t"
      using sel(2) decode_row_Ok [of cd row t] by auto
    then show "sqlite_tasks cd durable db (task_id t) = Some t" by (simp add: sqlite_tasks_def)
  next
    assume "sqlite_tasks cd durable db (task_id t) = Some t"
    then obtain row where row: "durable db (key t) = Some row" "decode_row cd row = Ok t"
      by (auto simp: sqlite_tasks_Some)
    then have "row \<in> set rows" using sel(2) decode_row_Ok [of cd row t] by auto
    then show "t \<in> set ts" using in_ts row(2) by blast
  qed
  ultimately show ?thesis by blast
qed

end

sublocale sqlite_store \<subseteq> store: transfer_store "sqlite_ops_of sq cd" "sqlite_tasks cd durable"
  "sqlite_ok cd durable idle"
proof
  fix db i t
  assume "sqlite_ok cd durable idle db" "sqlite_tasks cd durable db i = Some t"
  then show "task_id t = i"
    using tasks_of_row [of db i] by (auto simp: sqlite_tasks_def bind_eq_Some_conv)
next
  fix db loaded db'
  assume ok: "sqlite_ok cd durable idle db" and l: "st_load_all (sqlite_ops_of sq cd) db = (loaded, db')"
  then have l': "sqlite_load_all sq cd db = (loaded, db')" by (simp add: sqlite_ops_of_def)
  then have "idle db' \<and> durable db' = durable db"
    using select_all [of db "fst (sq_select_all sq db)" db'] ok
    by (cases "sq_select_all sq db") (auto simp: sqlite_load_all_def sqlite_ok_def split: sum.splits)
  then show "sqlite_ok cd durable idle db' \<and> sqlite_tasks cd durable db' = sqlite_tasks cd durable db \<and>
      (\<forall>ts. loaded = Ok ts \<longrightarrow> distinct (map task_id ts) \<and>
         (\<forall>t. t \<in> set ts \<longleftrightarrow> sqlite_tasks cd durable db (task_id t) = Some t))"
    using load_all_tasks [OF ok] l' ok_same [OF ok] tasks_same by blast
next
  fix db t r db'
  assume ok: "sqlite_ok cd durable idle db" and i: "st_insert (sqlite_ops_of sq cd) t db = (r, db')"
  then have "sqlite_insert sq cd t db = (r, db')" "idle db" by (simp_all add: sqlite_ops_of_def sqlite_ok_def)
  note ins = insert_durable [OF this(2,1)]
  show "sqlite_ok cd durable idle db' \<and>
      (if r = Ok () then sqlite_tasks cd durable db (task_id t) = None \<and>
         sqlite_tasks cd durable db' = (sqlite_tasks cd durable db)(task_id t \<mapsto> t)
       else sqlite_tasks cd durable db' = sqlite_tasks cd durable db)"
  proof (cases "r = Ok ()")
    case True
    then have none: "sqlite_tasks cd durable db (task_id t) = None"
      using ins by (simp add: sqlite_tasks_def)
    from True obtain row where "idle db'" "durable db' = (durable db)(key t \<mapsto> row)"
      "decode_row cd row = Ok t" "row_task_id row = key t" using ins by auto
    then have "sqlite_ok cd durable idle db'"
      "sqlite_tasks cd durable db' = (sqlite_tasks cd durable db)(task_id t \<mapsto> t)"
      using ok_update [OF ok] tasks_update by blast+
    then show ?thesis using True none by simp
  next
    case False
    then have "idle db'" "durable db' = durable db" using ins by auto
    then show ?thesis using False ok_same [OF ok] tasks_same [of db' db] by simp
  qed
next
  fix db e t r db'
  assume ok: "sqlite_ok cd durable idle db"
    and c: "st_compare_and_swap (sqlite_ops_of sq cd) e t db = (r, db')"
  then have "sqlite_compare_and_swap sq cd e t db = (r, db')" "idle db"
    by (simp_all add: sqlite_ops_of_def sqlite_ok_def)
  note cas = swap_durable [OF this(2,1)]
  show "sqlite_ok cd durable idle db' \<and>
      (if r = Ok () then (\<exists>c. sqlite_tasks cd durable db (task_id t) = Some c \<and> task_revision c = e) \<and>
         sqlite_tasks cd durable db' = (sqlite_tasks cd durable db)(task_id t \<mapsto> t)
       else sqlite_tasks cd durable db' = sqlite_tasks cd durable db)"
  proof (cases "r = Ok ()")
    case True
    then obtain old row where old: "durable db (key t) = Some old" "row_revision old = uint e"
      and "idle db'" "durable db' = (durable db)(key t \<mapsto> row)"
      "decode_row cd row = Ok t" "row_task_id row = key t" using cas by (auto simp: is_some_and_iff)
    moreover from old have "\<exists>c. sqlite_tasks cd durable db (task_id t) = Some c \<and> task_revision c = e"
      using tasks_of_row [OF ok old(1)] by auto
    moreover have "sqlite_ok cd durable idle db'"
      "sqlite_tasks cd durable db' = (sqlite_tasks cd durable db)(task_id t \<mapsto> t)"
      using calculation ok_update [OF ok] tasks_update by blast+
    ultimately show ?thesis using True by simp
  next
    case False
    then have "idle db'" "durable db' = durable db" using cas by auto
    then show ?thesis using False ok_same [OF ok] tasks_same [of db' db] by simp
  qed
qed

section \<open>An engine that satisfies the assumptions\<close>

text \<open>A table of rows, an optional open transaction with its own copy, and a script of failures:
  each call consumes one entry, \<open>Some e\<close> makes it fail with \<open>e\<close>. It shows that the assumptions on
  SQLite can hold with failures at any point, and it is what the witnesses run on. The codec keeps
  tasks in a list and writes the index of the task; a uuid is written in unary.\<close>

record table_db =
  td_rows :: "task_row list"
  td_open :: "task_row list option"
  td_faults :: "sqlite_error option list"

definition pop_fault :: "table_db \<Rightarrow> sqlite_error option \<times> table_db" where
  "pop_fault db =
     (case td_faults db of
        [] \<Rightarrow> (None, db)
      | f # fs \<Rightarrow> (f, db\<lparr>td_faults := fs\<rparr>))"

definition faulty :: "(table_db \<Rightarrow> (sqlite_error, 'a) result \<times> table_db) \<Rightarrow> table_db \<Rightarrow>
    (sqlite_error, 'a) result \<times> table_db" where
  "faulty f db = (case pop_fault db of (Some e, db1) \<Rightarrow> (Err e, db1) | (None, db1) \<Rightarrow> f db1)"

definition rows_map :: "task_row list \<Rightarrow> string \<Rightarrow> task_row option" where
  "rows_map rows = map_of (map (\<lambda>row. (row_task_id row, row)) rows)"

definition open_rows :: "table_db \<Rightarrow> task_row list" where
  "open_rows db = (case td_open db of Some rows \<Rightarrow> rows | None \<Rightarrow> td_rows db)"

definition replace_row :: "task_row \<Rightarrow> task_row list \<Rightarrow> task_row list" where
  "replace_row row rows = map (\<lambda>old. if row_task_id old = row_task_id row then row else old) rows"

definition table_ops :: "table_db sqlite_ops" where
  "table_ops =
     \<lparr>sq_begin_immediate = faulty (\<lambda>db. (Ok (), db\<lparr>td_open := Some (td_rows db)\<rparr>)),
      sq_insert_row = (\<lambda>row. faulty (\<lambda>db.
        if rows_map (open_rows db) (row_task_id row) \<noteq> None
        then (Err (SqliteFailure Sq_ConstraintViolation), db)
        else (Ok 1, db\<lparr>td_open := Some (row # open_rows db)\<rparr>))),
      sq_update_row = (\<lambda>row expected. faulty (\<lambda>db.
        if is_some_and (rows_map (open_rows db) (row_task_id row)) (\<lambda>old. row_revision old = expected)
        then (Ok 1, db\<lparr>td_open := Some (replace_row row (open_rows db))\<rparr>)
        else (Ok 0, db))),
      sq_select_revision = (\<lambda>key. faulty (\<lambda>db.
        (Ok (map_option row_revision (rows_map (open_rows db) key)), db))),
      sq_select_all = faulty (\<lambda>db.
        (Ok (map Ok (sort_key (\<lambda>row. (row_updated_at row, row_task_id row)) (td_rows db))), db)),
      sq_commit = faulty (\<lambda>db. (Ok (), db\<lparr>td_rows := open_rows db, td_open := None\<rparr>)),
      sq_rollback = (\<lambda>db. db\<lparr>td_open := None\<rparr>)\<rparr>"

definition table_idle :: "table_db \<Rightarrow> bool" where
  "table_idle db = (distinct (map row_task_id (td_rows db)) \<and> td_open db = None)"

definition table_open :: "table_db \<Rightarrow> bool" where
  "table_open db =
     (distinct (map row_task_id (td_rows db)) \<and>
      is_some_and (td_open db) (\<lambda>rows. distinct (map row_task_id rows)))"

lemma rows_map_None: "rows_map rows k = None \<longleftrightarrow> k \<notin> row_task_id ` set rows"
  by (simp add: rows_map_def map_of_eq_None_iff image_image)

lemma rows_map_Cons: "rows_map (row # rows) = (rows_map rows)(row_task_id row \<mapsto> row)"
  by (simp add: rows_map_def)

lemma replace_row_ids: "map row_task_id (replace_row row rows) = map row_task_id rows"
  by (simp add: replace_row_def)

lemma rows_map_replace_if:
  "rows_map (replace_row row rows) k =
     (if k = row_task_id row \<and> rows_map rows k \<noteq> None then Some row else rows_map rows k)"
  by (induction rows) (auto simp: replace_row_def rows_map_def)

lemma rows_map_replace:
  "rows_map rows (row_task_id row) \<noteq> None \<Longrightarrow>
   rows_map (replace_row row rows) = (rows_map rows)(row_task_id row \<mapsto> row)"
  by (auto simp: fun_eq_iff rows_map_replace_if)

lemma rows_map_in_set:
  "distinct (map row_task_id rows) \<Longrightarrow> row \<in> set rows \<longleftrightarrow> rows_map rows (row_task_id row) = Some row"
  by (induction rows) (auto simp: rows_map_def image_iff split: if_splits)

lemma faulty_cases:
  assumes "faulty f db = (r, db')"
  obtains (fault) e db1 where "r = Err e" "db' = db1" "td_rows db1 = td_rows db" "td_open db1 = td_open db"
  | (run) db1 where "f db1 = (r, db')" "td_rows db1 = td_rows db" "td_open db1 = td_open db"
  using assms by (auto simp: faulty_def pop_fault_def split: list.splits option.splits)

interpretation table: sqlite_engine table_ops "\<lambda>db. rows_map (td_rows db)"
  "\<lambda>db. rows_map (open_rows db)" table_idle table_open
proof
  fix db found db'
  assume idle: "table_idle db" and sel: "sq_select_all table_ops db = (found, db')"
  let ?key = "\<lambda>row. (row_updated_at row, row_task_id row)"
  have d: "distinct (map row_task_id (sort_key ?key (td_rows db)))"
    using idle by (simp add: table_idle_def distinct_map)
  have "table_idle db' \<and> td_rows db' = td_rows db \<and>
      (\<forall>rows. found = Ok (map Ok rows) \<longrightarrow> rows = sort_key ?key (td_rows db))"
    using sel idle unfolding table_ops_def sqlite_ops.simps
    by (elim faulty_cases) (auto simp: table_idle_def inj_map_eq_map)
  then show "table_idle db' \<and> rows_map (td_rows db') = rows_map (td_rows db) \<and>
      (\<forall>rows. found = Ok (map Ok rows) \<longrightarrow> distinct (map row_task_id rows) \<and>
         sorted (map ?key rows) \<and>
         (\<forall>row. row \<in> set rows \<longleftrightarrow> rows_map (td_rows db) (row_task_id row) = Some row))"
    using d idle rows_map_in_set [of "td_rows db"] by (auto simp: table_idle_def)
next
  fix db row and expected :: i64 and n db'
  assume o: "table_open db" and u: "sq_update_row table_ops row expected db = (n, db')"
  from u show "table_open db' \<and> rows_map (td_rows db') = rows_map (td_rows db) \<and>
      (\<forall>k. n = Ok k \<longrightarrow>
         (if is_some_and (rows_map (open_rows db) (row_task_id row)) (\<lambda>old. row_revision old = expected)
          then k = 1 \<and> rows_map (open_rows db') = (rows_map (open_rows db))(row_task_id row \<mapsto> row)
          else k = 0 \<and> rows_map (open_rows db') = rows_map (open_rows db)))"
    using o unfolding table_ops_def sqlite_ops.simps
    by (elim faulty_cases)
       (auto simp: table_open_def is_some_and_iff open_rows_def replace_row_ids rows_map_replace
         split: if_splits)
qed (auto simp: table_ops_def table_idle_def table_open_def open_rows_def rows_map_Cons rows_map_None
       is_some_and_iff image_iff elim!: faulty_cases split: if_splits)

definition sample_codec :: codec where
  "sample_codec =
     \<lparr>cd_to_vec = (\<lambda>t. if t = sample_fresh then Some [0] else if t = sample_started then Some [1] else None),
      cd_from_slice = (\<lambda>b. if b = [0] then Some sample_fresh else if b = [1] then Some sample_started else None),
      cd_uuid_text = (\<lambda>u. replicate (unat u) CHR ''x'')\<rparr>"

lemma sample_fresh_neq: "sample_fresh \<noteq> sample_started"
  by (simp add: sample_fresh_def sample_started_def sample_task_def)

interpretation table: sqlite_store table_ops "\<lambda>db. rows_map (td_rows db)"
  "\<lambda>db. rows_map (open_rows db)" table_idle table_open sample_codec
proof
  fix t b assume "cd_to_vec sample_codec t = Some b"
  then show "cd_from_slice sample_codec b = Some t"
    by (auto simp: sample_codec_def split: if_splits)
next
  fix u v assume "cd_uuid_text sample_codec u = cd_uuid_text sample_codec v"
  then have "length (cd_uuid_text sample_codec u) = length (cd_uuid_text sample_codec v)" by simp
  then show "u = v" by (simp add: sample_codec_def word_unat_eq_iff)
qed

context sqlite_store
begin

lemma swap_spec:
  "sqlite_ok cd durable idle db \<Longrightarrow> sqlite_compare_and_swap sq cd expected t db = (r, db') \<Longrightarrow>
   sqlite_ok cd durable idle db' \<and>
   (if r = Ok ()
    then (\<exists>c. sqlite_tasks cd durable db (task_id t) = Some c \<and> task_revision c = expected) \<and>
         sqlite_tasks cd durable db' = (sqlite_tasks cd durable db)(task_id t \<mapsto> t)
    else sqlite_tasks cd durable db' = sqlite_tasks cd durable db)"
  using store.compare_and_swap [of db expected t r db'] by (simp add: sqlite_ops_of_def)

lemma insert_spec:
  "sqlite_ok cd durable idle db \<Longrightarrow> sqlite_insert sq cd t db = (Ok (), db') \<Longrightarrow>
   sqlite_ok cd durable idle db' \<and> sqlite_tasks cd durable db (task_id t) = None \<and>
   sqlite_tasks cd durable db' = (sqlite_tasks cd durable db)(task_id t \<mapsto> t)"
  using store.insert_Ok [of db t db'] by (simp add: sqlite_ops_of_def)

lemma load_spec:
  "sqlite_ok cd durable idle db \<Longrightarrow> sqlite_load_all sq cd db = (Ok ts, db') \<Longrightarrow>
   distinct (map task_id ts) \<and>
   (\<forall>t. t \<in> set ts \<longleftrightarrow> sqlite_tasks cd durable db (task_id t) = Some t)"
  using store.load_all [of db "Ok ts" db'] by (simp add: sqlite_ops_of_def)

lemma is_transfer_store:
  "transfer_store (sqlite_ops_of sq cd) (sqlite_tasks cd durable) (sqlite_ok cd durable idle)"
  by (rule store.transfer_store_axioms)

end

section \<open>Properties\<close>

definition sample_db :: table_db where
  "sample_db = \<lparr>td_rows = [], td_open = None, td_faults = []\<rparr>"

definition sample_row :: task_row where
  "sample_row = task_to_row sample_codec sample_fresh [0] 0"

definition sample_db1 :: table_db where
  "sample_db1 = \<lparr>td_rows = [sample_row], td_open = None, td_faults = []\<rparr>"

definition sample_db2 :: table_db where
  "sample_db2 = \<lparr>td_rows = [task_to_row sample_codec sample_started [1] 1], td_open = None,
     td_faults = []\<rparr>"

lemmas table_run_defs =
  table_ops_def faulty_def pop_fault_def sqlite_encode_def sqlite_finish_def sqlite_swap_tail_def
  open_rows_def i64_of_u64_def i64_max_def MAX_TRANSFER_DOCUMENT_BYTES_def

lemma sample_ok: "sqlite_ok sample_codec (\<lambda>db. rows_map (td_rows db)) table_idle sample_db"
  by (simp add: sqlite_ok_def table_idle_def sample_db_def rows_map_def)

lemma sample_revisions: "task_revision sample_fresh = 0" "task_revision sample_started = 1"
  "task_id sample_fresh = TransferId 1" "task_id sample_started = TransferId 1"
  by (simp_all add: sample_fresh_def sample_started_def sample_task_def)

lemma sample_codec_simps:
  "cd_to_vec sample_codec sample_fresh = Some [0]" "cd_to_vec sample_codec sample_started = Some [1]"
  using sample_fresh_neq by (simp_all add: sample_codec_def)

lemma sample_insert: "sqlite_insert table_ops sample_codec sample_fresh sample_db = (Ok (), sample_db1)"
  by (simp add: sqlite_insert_def table_run_defs sample_codec_simps sample_revisions sample_db_def
      sample_db1_def rows_map_def sample_row_def)

lemma sample_swap:
  "sqlite_compare_and_swap table_ops sample_codec 0 sample_started sample_db1 = (Ok (), sample_db2)"
  by (simp add: sqlite_compare_and_swap_def table_run_defs sample_codec_simps sample_revisions
      sample_db1_def sample_db2_def rows_map_def sample_row_def task_to_row_def replace_row_def)

lemma sample_ok1: "sqlite_ok sample_codec (\<lambda>db. rows_map (td_rows db)) table_idle sample_db1"
  using table.insert_spec [OF sample_ok sample_insert] by simp

text \<open>C3: Replacing a task in SQLite is atomic and guarded by its revision. Whichever calls
  fail, either nothing durable changed, or the durable task had exactly the expected revision and
  is now the new one, every other task untouched; and the database stays one whose every row
  decodes under its key. This assumes SQLite's transaction semantics, and that the JSON codec reads
  back what it wrote.\<close>

theorem sqlite_swap_atomic:
  assumes "sqlite_store sq durable visible idle open_tx cd"
    and "sqlite_ok cd durable idle db"
    and "sqlite_compare_and_swap sq cd expected t db = (r, db')"
  shows "sqlite_ok cd durable idle db' \<and>
    (if r = Ok ()
     then (\<exists>c. sqlite_tasks cd durable db (task_id t) = Some c \<and> task_revision c = expected) \<and>
          sqlite_tasks cd durable db' = (sqlite_tasks cd durable db)(task_id t \<mapsto> t)
     else sqlite_tasks cd durable db' = sqlite_tasks cd durable db)"
  by (rule sqlite_store.swap_spec [OF assms])

theorem sqlite_swap_atomic_witness:
  "sqlite_tasks sample_codec (\<lambda>db. rows_map (td_rows db)) sample_db2 (TransferId 1)
     = Some sample_started"
  using sqlite_swap_atomic [OF table.sqlite_store_axioms sample_ok1 sample_swap]
  by (simp add: sample_revisions)

text \<open>What was inserted is what is loaded. After a successful insert the identifier was new,
  and a later successful load returns, with each identifier once, exactly the tasks stored before
  and the inserted one.\<close>

theorem sqlite_insert_load_roundtrip:
  assumes "sqlite_store sq durable visible idle open_tx cd"
    and "sqlite_ok cd durable idle db"
    and "sqlite_insert sq cd t db = (Ok (), db1)"
    and "sqlite_load_all sq cd db1 = (Ok ts, db2)"
  shows "distinct (map task_id ts) \<and> sqlite_tasks cd durable db (task_id t) = None \<and>
     set ts = insert t {u. sqlite_tasks cd durable db (task_id u) = Some u}"
proof -
  note ins = sqlite_store.insert_spec [OF assms(1-3)]
  then have "sqlite_ok cd durable idle db1" by simp
  note load = sqlite_store.load_spec [OF assms(1) this assms(4)]
  have "u \<in> set ts \<longleftrightarrow> u = t \<or> sqlite_tasks cd durable db (task_id u) = Some u" for u
    using ins load by (cases "task_id u = task_id t") auto
  then show ?thesis using ins load by blast
qed

theorem sqlite_insert_load_roundtrip_witness:
  "sqlite_load_all table_ops sample_codec sample_db1 = (Ok [sample_fresh], sample_db1) \<and>
   set [sample_fresh] = insert sample_fresh
     {u. sqlite_tasks sample_codec (\<lambda>db. rows_map (td_rows db)) sample_db (task_id u) = Some u}"
proof -
  have "sqlite_load_all table_ops sample_codec sample_db1 = (Ok [sample_fresh], sample_db1)"
    by (simp add: sqlite_load_all_def table_run_defs sample_db1_def sample_row_def decode_row_def
        task_to_row_def sample_codec_def sample_revisions u64_of_i64_def)
  then show ?thesis
    using sqlite_insert_load_roundtrip [OF table.sqlite_store_axioms sample_ok sample_insert]
    by blast
qed

text \<open>No update is lost. In any store that keeps the trait's promise, when two writers
  replace a task from the same revision they read, and the first write moved the revision, the
  second is refused and changes nothing.\<close>

theorem store_no_lost_update:
  assumes "transfer_store st_ops tasks_of st_ok" and "st_ok s"
    and "st_compare_and_swap st_ops read_rev t1 s = (Ok (), s1)" and "task_revision t1 \<noteq> read_rev"
    and "task_id t2 = task_id t1" and "st_compare_and_swap st_ops read_rev t2 s1 = (r, s2)"
  shows "r \<noteq> Ok () \<and> tasks_of s2 = tasks_of s1 \<and> tasks_of s1 (task_id t1) = Some t1"
proof -
  have s1: "st_ok s1 \<and> tasks_of s1 = (tasks_of s)(task_id t1 \<mapsto> t1)"
    by (rule transfer_store.swap_Ok [OF assms(1-3)])
  then show ?thesis
    using transfer_store.no_lost_update [OF assms(1-3) _ assms(5,4,6)] by simp
qed

theorem store_no_lost_update_witness:
  "fst (memory_compare_and_swap 0 sample_fresh [(TransferId 1, sample_started)]) \<noteq> Ok ()"
proof -
  have "memory_ok [(TransferId 1, sample_fresh)]"
    by (simp add: memory_ok_def bt_ok_def sample_revisions)
  moreover have "st_compare_and_swap memory_ops 0 sample_started [(TransferId 1, sample_fresh)]
      = (Ok (), [(TransferId 1, sample_started)])"
    by (simp add: memory_ops_def memory_compare_and_swap_def bt_get_def sample_revisions)
  ultimately show ?thesis
    using store_no_lost_update [OF memory.transfer_store_axioms, of _ 0 sample_started
        "[(TransferId 1, sample_started)]" sample_fresh
        "fst (memory_compare_and_swap 0 sample_fresh [(TransferId 1, sample_started)])"
        "snd (memory_compare_and_swap 0 sample_fresh [(TransferId 1, sample_started)])"]
    by (simp add: sample_revisions memory_ops_def)
qed

end
