(* ===== verification/Transfer_Queue.thy ===== *)
theory Transfer_Queue
  imports Transfer_Public Transfer_Store
begin

text \<open>
  crates/transfers/src/queue.rs: the durable queue. It caches the stored tasks, starts the oldest
  runnable task within the concurrency limits, and writes every change through to the store with
  a compare-and-swap before it becomes visible. The store is the record of operations of
  \<open>Transfer_Store\<close>; what the queue relies on is the locale \<open>transfer_store\<close>. A panic
  (\<open>remote_profile_id\<close> on a task without a remote endpoint) is the error \<open>Q_Panicked\<close>.
\<close>

section \<open>Data\<close>

definition MAX_QUEUED_TASKS :: nat where "MAX_QUEUED_TASKS = 10000"
definition MAX_CONCURRENT_TRANSFERS :: nat where "MAX_CONCURRENT_TRANSFERS = 64"

record queue_limits =
  ql_max_tasks :: nat
  ql_max_concurrent :: nat
  ql_max_concurrent_per_profile :: nat

datatype queue_limits_error =
  Ql_InvalidTaskLimit | Ql_InvalidConcurrency | Ql_InvalidPerProfileConcurrency

definition queue_limits_new :: "nat \<Rightarrow> nat \<Rightarrow> nat \<Rightarrow> (queue_limits_error, queue_limits) result" where
  "queue_limits_new max_tasks max_concurrent max_concurrent_per_profile =
     (if max_tasks = 0 \<or> max_tasks > MAX_QUEUED_TASKS then Err Ql_InvalidTaskLimit
      else if max_concurrent = 0 \<or> max_concurrent > MAX_CONCURRENT_TRANSFERS
      then Err Ql_InvalidConcurrency
      else if max_concurrent_per_profile = 0 \<or> max_concurrent_per_profile > max_concurrent
      then Err Ql_InvalidPerProfileConcurrency
      else Ok \<lparr>ql_max_tasks = max_tasks, ql_max_concurrent = max_concurrent,
               ql_max_concurrent_per_profile = max_concurrent_per_profile\<rparr>)"

definition queue_limits_default :: queue_limits where
  "queue_limits_default =
     \<lparr>ql_max_tasks = 1000, ql_max_concurrent = 4, ql_max_concurrent_per_profile = 2\<rparr>"

datatype queue_error =
    Q_QueueFull
  | Q_TaskNotFound
  | Q_DuplicateTask transfer_id
  | Q_Mutation transfer_mutation_error
  | Q_Store store_error
  | Q_InvalidPublicContract transfer_public_error
  | Q_Panicked

record 's transfer_queue =
  tq_store :: 's
  tq_tasks :: "(transfer_id, transfer_task) btree"
  tq_limits :: queue_limits

section \<open>Operations\<close>

fun open_loop ::
  "'s store_ops \<Rightarrow> i64 \<Rightarrow> transfer_task list \<Rightarrow> (transfer_id, transfer_task) btree \<Rightarrow> 's \<Rightarrow>
   (queue_error, (transfer_id, transfer_task) btree) result \<times> 's" where
  "open_loop st now [] tasks s = (Ok tasks, s)"
| "open_loop st now (task # rest) tasks s =
     (if bt_get (task_id task) tasks \<noteq> None then (Err (Q_DuplicateTask (task_id task)), s)
      else
        (case recover_after_restart now task of
           Err e \<Rightarrow> (Err (Q_Mutation e), s)
         | Ok (change, task') \<Rightarrow>
             if change = Changed
             then (case st_compare_and_swap st (task_revision task) task' s of
                     (Err e, s1) \<Rightarrow> (Err (Q_Store e), s1)
                   | (Ok _, s1) \<Rightarrow> open_loop st now rest (bt_insert (task_id task') task' tasks) s1)
             else open_loop st now rest (bt_insert (task_id task') task' tasks) s))"

definition queue_open ::
  "'s store_ops \<Rightarrow> 's \<Rightarrow> queue_limits \<Rightarrow> i64 \<Rightarrow> (queue_error, 's transfer_queue) result \<times> 's" where
  "queue_open st s limits now =
     (case st_load_all st s of
        (Err e, s1) \<Rightarrow> (Err (Q_Store e), s1)
      | (Ok loaded, s1) \<Rightarrow>
          if length loaded > ql_max_tasks limits then (Err Q_QueueFull, s1)
          else (case open_loop st now loaded [] s1 of
                  (Err e, s2) \<Rightarrow> (Err e, s2)
                | (Ok tasks, s2) \<Rightarrow>
                    (Ok \<lparr>tq_store = s2, tq_tasks = tasks, tq_limits = limits\<rparr>, s2)))"

definition enqueue ::
  "'s store_ops \<Rightarrow> transfer_task \<Rightarrow> 's transfer_queue \<Rightarrow>
   (queue_error, unit) result \<times> 's transfer_queue" where
  "enqueue st task q =
     (if length (tq_tasks q) \<ge> ql_max_tasks (tq_limits q) then (Err Q_QueueFull, q)
      else if bt_get (task_id task) (tq_tasks q) \<noteq> None
      then (Err (Q_DuplicateTask (task_id task)), q)
      else (case st_insert st task (tq_store q) of
              (Err e, s1) \<Rightarrow> (Err (Q_Store e), q\<lparr>tq_store := s1\<rparr>)
            | (Ok _, s1) \<Rightarrow>
                (Ok (), q\<lparr>tq_store := s1,
                          tq_tasks := bt_insert (task_id task) task (tq_tasks q)\<rparr>)))"

definition queue_task :: "transfer_id \<Rightarrow> 's transfer_queue \<Rightarrow> transfer_task option" where
  "queue_task i q = bt_get i (tq_tasks q)"

definition mutate ::
  "'s store_ops \<Rightarrow> transfer_id \<Rightarrow>
   (transfer_task \<Rightarrow> (transfer_mutation_error, 'a \<times> transfer_task) result) \<Rightarrow>
   's transfer_queue \<Rightarrow> (queue_error, 'a) result \<times> 's transfer_queue" where
  "mutate st i mutation q =
     (case bt_get i (tq_tasks q) of
        None \<Rightarrow> (Err Q_TaskNotFound, q)
      | Some current \<Rightarrow>
          (case mutation current of
             Err e \<Rightarrow> (Err (Q_Mutation e), q)
           | Ok (x, next) \<Rightarrow>
               if task_revision next \<noteq> task_revision current
               then (case st_compare_and_swap st (task_revision current) next (tq_store q) of
                       (Err e, s1) \<Rightarrow> (Err (Q_Store e), q\<lparr>tq_store := s1\<rparr>)
                     | (Ok _, s1) \<Rightarrow>
                         (Ok x, q\<lparr>tq_store := s1, tq_tasks := bt_insert i next (tq_tasks q)\<rparr>))
               else (Ok x, q)))"

text \<open>The key of the queue's order, and \<open>min_by_key\<close>: the first of the least elements.\<close>

definition age_key :: "transfer_task \<Rightarrow> i64 \<times> transfer_id" where
  "age_key t = (task_created_at t, task_id t)"

fun min_by_age :: "transfer_task list \<Rightarrow> transfer_task option" where
  "min_by_age [] = None"
| "min_by_age (t # ts) =
     (case min_by_age ts of
        None \<Rightarrow> Some t
      | Some m \<Rightarrow> Some (if age_key t \<le> age_key m then t else m))"

text \<open>The profiles of the active tasks; None when one of the \<open>remote_profile_id\<close> calls panics.\<close>

definition active_profiles :: "(transfer_id, transfer_task) btree \<Rightarrow> profile_id list option" where
  "active_profiles tasks =
     those (map remote_profile_id (filter (\<lambda>t. is_active (task_state t)) (bt_values tasks)))"

text \<open>The candidate filter of \<open>start_next\<close>. It asks a task for its profile once per active
  profile, so not at all when nothing is active; None is a panic.\<close>

definition profile_load :: "profile_id list \<Rightarrow> transfer_task \<Rightarrow> nat option" where
  "profile_load active t =
     (if active = [] then Some 0
      else map_option (\<lambda>p. length (filter (\<lambda>p'. p' = p) active)) (remote_profile_id t))"

definition is_candidate :: "i64 \<Rightarrow> queue_limits \<Rightarrow> profile_id list \<Rightarrow> transfer_task \<Rightarrow> bool option" where
  "is_candidate now limits active t =
     (if (case task_state t of
            Queued \<Rightarrow> True
          | RetryScheduled not_before _ \<Rightarrow> now \<ge> not_before
          | _ \<Rightarrow> False)
      then map_option (\<lambda>n. n < ql_max_concurrent_per_profile limits) (profile_load active t)
      else Some False)"

text \<open>A filter whose predicate may panic.\<close>

fun filter_panic :: "('a \<Rightarrow> bool option) \<Rightarrow> 'a list \<Rightarrow> 'a list option" where
  "filter_panic p [] = Some []"
| "filter_panic p (x # xs) =
     (case p x of
        None \<Rightarrow> None
      | Some b \<Rightarrow> map_option (\<lambda>ys. if b then x # ys else ys) (filter_panic p xs))"

definition start_next ::
  "'s store_ops \<Rightarrow> i64 \<Rightarrow> 's transfer_queue \<Rightarrow>
   (queue_error, run_token option) result \<times> 's transfer_queue" where
  "start_next st now q =
     (case active_profiles (tq_tasks q) of
        None \<Rightarrow> (Err Q_Panicked, q)
      | Some active \<Rightarrow>
          if length active \<ge> ql_max_concurrent (tq_limits q) then (Ok None, q)
          else
            (case filter_panic (is_candidate now (tq_limits q) active) (bt_values (tq_tasks q)) of
               None \<Rightarrow> (Err Q_Panicked, q)
             | Some candidates \<Rightarrow>
                 (case min_by_age candidates of
                    None \<Rightarrow> (Ok None, q)
                  | Some task \<Rightarrow>
                      (case mutate st (task_id task) (task_start now) q of
                         (Err e, q1) \<Rightarrow> (Err e, q1)
                       | (Ok token, q1) \<Rightarrow> (Ok (Some token), q1)))))"

definition queue_page ::
  "(transfer_task \<Rightarrow> bytes option) \<Rightarrow> transfer_query \<Rightarrow> 's transfer_queue \<Rightarrow>
   (queue_error, transfer_page) result" where
  "queue_page json query q =
     and_then (map_err Q_InvalidPublicContract (query_validate query)) (\<lambda>_.
     and_then (ok_or (filter_panic (query_matches query) (bt_values (tq_tasks q))) Q_Panicked)
       (\<lambda>found.
     let matching = sort_key age_key found;
         offset = unat (q_offset query);
         tasks = take (unat (q_limit query)) (drop offset matching);
         consumed = offset + length tasks;
         has_more = consumed < length matching
     in if consumed \<ge> 2 ^ 32 then Err (Q_InvalidPublicContract Pe_InvalidPage)
        else
          let page = \<lparr>page_query = query, page_tasks = tasks, page_has_more = has_more,
                      page_next_offset = (if has_more then Some (of_nat consumed) else None)\<rparr>
          in and_then (map_err Q_InvalidPublicContract (page_validate json page)) (\<lambda>_. Ok page)))"

section \<open>The queue over a store that keeps its promise\<close>

text \<open>The cache is sorted with each task under its own identifier, within the task limit, and
  equals what the store holds durably.\<close>

definition queue_inv ::
  "('s \<Rightarrow> transfer_id \<Rightarrow> transfer_task option) \<Rightarrow> ('s \<Rightarrow> bool) \<Rightarrow> 's transfer_queue \<Rightarrow> bool" where
  "queue_inv tasks_of st_ok q =
     (st_ok (tq_store q) \<and> memory_ok (tq_tasks q) \<and>
      (\<forall>i. tasks_of (tq_store q) i = bt_get i (tq_tasks q)) \<and>
      length (tq_tasks q) \<le> ql_max_tasks (tq_limits q))"

definition op_mutation ::
  "task_op \<Rightarrow> transfer_task \<Rightarrow> (transfer_mutation_error, unit \<times> transfer_task) result" where
  "op_mutation op t = map_sum id (Pair ()) (run_op op t)"

lemma op_mutation_Ok [simp]: "op_mutation op t = Ok (x, t') \<longleftrightarrow> run_op op t = Ok t'"
  by (cases "run_op op t") (auto simp: op_mutation_def)

lemma op_mutation_id: "op_mutation op t = Ok (x, t') \<Longrightarrow> task_id t' = task_id t"
  using run_op_frame [of op t t'] by (simp add: task_frame_def)

lemma memory_ok_length:
  "memory_ok m \<Longrightarrow> bt_get i m = Some t \<Longrightarrow> length (bt_insert i t' m) = length m"
  by (simp add: memory_ok_def bt_length_insert)

lemma recover_id: "recover_after_restart now t = Ok (ch, t') \<Longrightarrow>
   task_id t' = task_id t \<and> \<not> is_active (task_state t') \<and> (ch = Unchanged \<longrightarrow> t' = t)"
  by (auto simp: op_ok touch_defs is_active_def split: if_splits)

definition recovered :: "i64 \<Rightarrow> transfer_task \<Rightarrow> transfer_task" where
  "recovered now t = (case recover_after_restart now t of Ok (_, t') \<Rightarrow> t' | Err _ \<Rightarrow> t)"

lemma recovered_eq:
  "is_ok (recover_after_restart now t) \<Longrightarrow>
   recovered now t = (if is_active (task_state t)
     then task_changed now (invalidate_run
            (t\<lparr>task_state := Failed (restart_failure (task_direction t))\<rparr>))
     else t)"
  by (auto simp: recovered_def recover_after_restart_def check_time_def)

lemma recovered_inactive:
  "is_ok (recover_after_restart now t) \<Longrightarrow> \<not> is_active (task_state (recovered now t))"
  by (auto simp: recovered_eq touch_defs is_active_def)

definition by_id :: "transfer_task list \<Rightarrow> transfer_id \<Rightarrow> transfer_task option" where
  "by_id ts = map_of (map (\<lambda>t. (task_id t, t)) ts)"

lemma by_id_Nil [simp]: "by_id [] i = None"
  by (simp add: by_id_def)

lemma by_id_Cons [simp]: "by_id (t # ts) i = (if i = task_id t then Some t else by_id ts i)"
  by (simp add: by_id_def)

lemma by_id_set: "distinct (map task_id ts) \<Longrightarrow> by_id ts i = Some t \<longleftrightarrow> t \<in> set ts \<and> task_id t = i"
  by (induction ts) (auto simp: image_iff)

context transfer_store
begin

lemma mutate_effect:
  assumes inv: "queue_inv tasks_of st_ok q" and m: "mutate st_ops i m q = (r, q')"
    and ids: "\<And>t x t'. m t = Ok (x, t') \<Longrightarrow> task_id t' = task_id t"
  shows "queue_inv tasks_of st_ok q' \<and> tq_limits q' = tq_limits q \<and>
    (tq_tasks q' = tq_tasks q \<or>
     (\<exists>t x t'. bt_get i (tq_tasks q) = Some t \<and> m t = Ok (x, t') \<and> r = Ok x \<and>
        task_revision t' \<noteq> task_revision t \<and> tq_tasks q' = bt_insert i t' (tq_tasks q)))"
proof (cases "\<exists>t x t'. bt_get i (tq_tasks q) = Some t \<and> m t = Ok (x, t') \<and>
    task_revision t' \<noteq> task_revision t")
  case True
  then obtain t x t' where t: "bt_get i (tq_tasks q) = Some t" "m t = Ok (x, t')"
    "task_revision t' \<noteq> task_revision t" by blast
  have id: "task_id t' = i"
    using ids [OF t(2)] memory_ok_get [OF _ t(1)] inv by (simp add: queue_inv_def)
  obtain c s1 where c: "st_compare_and_swap st_ops (task_revision t) t' (tq_store q) = (c, s1)"
    by (cases "st_compare_and_swap st_ops (task_revision t) t' (tq_store q)")
  have ok: "st_ok (tq_store q)" using inv by (simp add: queue_inv_def)
  show ?thesis
  proof (cases c)
    case (Inl e)
    then have "q' = q\<lparr>tq_store := s1\<rparr>" using m t c by (simp add: mutate_def)
    then show ?thesis using inv swap_Err [OF ok] c Inl by (auto simp: queue_inv_def)
  next
    case (Inr u)
    then have q': "q' = q\<lparr>tq_store := s1, tq_tasks := bt_insert i t' (tq_tasks q)\<rparr>" "r = Ok x"
      using m t c by (simp_all add: mutate_def)
    have s1: "st_ok s1 \<and> tasks_of s1 = (tasks_of (tq_store q))(i \<mapsto> t')"
      using swap_Ok [OF ok, of "task_revision t" t' s1] c Inr id by simp
    have "memory_ok (bt_insert i t' (tq_tasks q))"
      using memory_ok_insert [of "tq_tasks q" t'] inv id by (simp add: queue_inv_def)
    then have "queue_inv tasks_of st_ok q'"
      using inv s1 q' t(1) memory_ok_length [of "tq_tasks q" i t t']
      by (simp add: queue_inv_def)
    then show ?thesis using q' t by simp
  qed
next
  case False
  then have "q' = q" using m
    by (auto simp: mutate_def split: option.splits sum.splits prod.splits if_splits)
  then show ?thesis using inv by simp
qed

lemma mutate_op_effect:
  assumes "queue_inv tasks_of st_ok q" and "mutate st_ops i (op_mutation op) q = (r, q')"
  shows "queue_inv tasks_of st_ok q' \<and> tq_limits q' = tq_limits q \<and>
    (tq_tasks q' = tq_tasks q \<or>
     (\<exists>t t'. bt_get i (tq_tasks q) = Some t \<and> run_op op t = Ok t' \<and>
        tq_tasks q' = bt_insert i t' (tq_tasks q)))"
  using mutate_effect [OF assms op_mutation_id] by fastforce

lemma enqueue_effect:
  assumes inv: "queue_inv tasks_of st_ok q" and e: "enqueue st_ops t q = (r, q')"
  shows "queue_inv tasks_of st_ok q' \<and> tq_limits q' = tq_limits q \<and>
    (if r = Ok () then bt_get (task_id t) (tq_tasks q) = None \<and>
       tq_tasks q' = bt_insert (task_id t) t (tq_tasks q)
     else tq_tasks q' = tq_tasks q)"
proof (cases "length (tq_tasks q) < ql_max_tasks (tq_limits q) \<and> bt_get (task_id t) (tq_tasks q) = None")
  case True
  obtain c s1 where c: "st_insert st_ops t (tq_store q) = (c, s1)"
    by (cases "st_insert st_ops t (tq_store q)")
  have ok: "st_ok (tq_store q)" "memory_ok (tq_tasks q)" using inv by (simp_all add: queue_inv_def)
  show ?thesis
  proof (cases c)
    case (Inl x)
    then show ?thesis using insert_Err [OF ok(1)] c e True inv by (auto simp: enqueue_def queue_inv_def)
  next
    case (Inr u)
    then have "st_ok s1 \<and> tasks_of s1 = (tasks_of (tq_store q))(task_id t \<mapsto> t)"
      using insert_Ok [OF ok(1), of t s1] c by simp
    then show ?thesis
      using Inr c e True inv memory_ok_insert [OF ok(2), of t]
      by (auto simp: enqueue_def queue_inv_def bt_length_insert memory_ok_def)
  qed
next
  case False
  then show ?thesis using e inv by (auto simp: enqueue_def split: if_splits)
qed

text \<open>The loop of \<open>open\<close>: what is still to do is stored as loaded, what is done is stored as
  recovered.\<close>

lemma open_loop_effect:
  assumes "open_loop st_ops now rest tasks s = (Ok tasks', s')"
    and "st_ok s" "memory_ok tasks" "distinct (map task_id rest)"
    and "\<And>t. t \<in> set rest \<Longrightarrow> bt_get (task_id t) tasks = None"
    and "\<And>i. tasks_of s i = opt_or (bt_get i tasks) (by_id rest i)"
  shows "st_ok s' \<and> memory_ok tasks' \<and> (\<forall>i. tasks_of s' i = bt_get i tasks') \<and>
     (\<forall>i. bt_get i tasks' = opt_or (bt_get i tasks) (map_option (recovered now) (by_id rest i))) \<and>
     length tasks' = length tasks + length rest \<and>
     (\<forall>t \<in> set rest. is_ok (recover_after_restart now t))"
  using assms
proof (induction rest arbitrary: tasks s)
  case Nil
  then show ?case by (auto simp: opt_or_def split: option.splits)
next
  case (Cons t rest)
  have none: "bt_get (task_id t) tasks = None" using Cons.prems(5) by simp
  then obtain ch t' where rec: "recover_after_restart now t = Ok (ch, t')"
    using Cons.prems(1) by (auto split: sum.splits prod.splits)
  note id = recover_id [OF rec]
  let ?tasks = "bt_insert (task_id t) t' tasks"
  have mem: "memory_ok ?tasks" using memory_ok_insert [OF Cons.prems(3), of t'] id by simp
  have len: "length ?tasks = Suc (length tasks)"
    using Cons.prems(3) none by (simp add: bt_length_insert memory_ok_def)
  have rd: "recovered now t = t'" by (simp add: recovered_def rec)
  have fresh: "u \<in> set rest \<Longrightarrow> bt_get (task_id u) ?tasks = None" for u
    using Cons.prems(4,5) by (auto simp: image_iff)
  have "\<exists>s1. open_loop st_ops now rest ?tasks s1 = (Ok tasks', s') \<and> st_ok s1 \<and>
      tasks_of s1 = (tasks_of s)(task_id t \<mapsto> t')"
  proof (cases ch)
    case Changed
    then obtain s1 where "st_compare_and_swap st_ops (task_revision t) t' s = (Ok (), s1)"
      "open_loop st_ops now rest ?tasks s1 = (Ok tasks', s')"
      using Cons.prems(1) none rec id by (auto split: sum.splits prod.splits)
    then show ?thesis using swap_Ok [OF Cons.prems(2)] id by fastforce
  next
    case Unchanged
    moreover from this have "tasks_of s (task_id t) = Some t'"
      using Cons.prems(6) [of "task_id t"] none id by simp
    then have "(tasks_of s)(task_id t \<mapsto> t') = tasks_of s" by (simp add: map_upd_triv)
    ultimately show ?thesis
      using Cons.prems(1,2) none rec id by (auto split: sum.splits prod.splits)
  qed
  then obtain s1 where s1: "open_loop st_ops now rest ?tasks s1 = (Ok tasks', s')" "st_ok s1"
    "tasks_of s1 = (tasks_of s)(task_id t \<mapsto> t')" by blast
  have "tasks_of s1 i = opt_or (bt_get i ?tasks) (by_id rest i)" for i
    using Cons.prems(6) [of i] s1(3) by auto
  from Cons.IH [OF s1(1,2) mem _ fresh this] show ?case
    using Cons.prems(4) none len rd rec by auto
qed

lemma open_effect:
  assumes "st_ok s" and "queue_open st_ops s limits now = (Ok q, s')"
  shows "queue_inv tasks_of st_ok q \<and> tq_limits q = limits \<and> tq_store q = s' \<and>
    (\<forall>i. bt_get i (tq_tasks q) = map_option (recovered now) (tasks_of s i)) \<and>
    (\<forall>i t. tasks_of s i = Some t \<longrightarrow> is_ok (recover_after_restart now t))"
proof -
  obtain ts s1 where l: "st_load_all st_ops s = (Ok ts, s1)"
    and len: "length ts \<le> ql_max_tasks limits"
    and o: "open_loop st_ops now ts [] s1 = (Ok (tq_tasks q), s')"
    and q: "q = \<lparr>tq_store = s', tq_tasks = tq_tasks q, tq_limits = limits\<rparr>"
    using assms(2) by (auto simp: queue_open_def split: sum.splits prod.splits if_splits)
  have load: "st_ok s1" "tasks_of s1 = tasks_of s" "distinct (map task_id ts)"
    "\<And>t. t \<in> set ts \<longleftrightarrow> tasks_of s (task_id t) = Some t"
    using load_all [OF assms(1) l] by auto
  have found: "by_id ts i = tasks_of s i" for i
  proof (cases "tasks_of s i")
    case None
    then have "by_id ts i \<noteq> Some t" for t using by_id_set [OF load(3), of i t] load(4) [of t] by auto
    then show ?thesis using None by (cases "by_id ts i") auto
  next
    case (Some t)
    then show ?thesis using by_id_set [OF load(3), of i t] load(4) keys [OF assms(1)] by auto
  qed
  have "memory_ok []" by (simp add: memory_ok_def)
  note loop = open_loop_effect [OF o load(1) this load(3)]
  have "is_ok (recover_after_restart now t)" if "tasks_of s i = Some t" for i t
    using that loop load(4) [of t] keys [OF assms(1) that] by (simp add: found load(2))
  moreover have "queue_inv tasks_of st_ok q \<and> tq_limits q = limits \<and> tq_store q = s' \<and>
    (\<forall>i. bt_get i (tq_tasks q) = map_option (recovered now) (tasks_of s i))"
    using q len loop
    by (simp add: found load(2) queue_inv_def) (metis transfer_queue.select_convs)
  ultimately show ?thesis by blast
qed

end

section \<open>Choosing the next task\<close>

lemma those_Some: "those xs = Some ys \<Longrightarrow> xs = map Some ys"
  by (induction xs arbitrary: ys) (auto split: option.splits)

lemma filter_panic_Some:
  "filter_panic p xs = Some ys \<longleftrightarrow>
     (\<forall>x \<in> set xs. p x \<noteq> None) \<and> ys = filter (\<lambda>x. p x = Some True) xs"
  by (induction xs arbitrary: ys) (auto split: option.splits)

lemma min_by_age_None [simp]: "min_by_age ts = None \<longleftrightarrow> ts = []"
  by (cases ts) (auto split: option.splits)

lemma min_by_age_Some:
  "min_by_age ts = Some m \<Longrightarrow> m \<in> set ts \<and> (\<forall>t \<in> set ts. age_key m \<le> age_key t)"
proof (induction ts arbitrary: m)
  case (Cons t ts)
  then show ?case
    by (cases "min_by_age ts") (fastforce split: if_splits)+
qed simp

definition active_count :: "(transfer_id, transfer_task) btree \<Rightarrow> nat" where
  "active_count tasks = length (filter (\<lambda>t. is_active (task_state t)) (bt_values tasks))"

definition profile_active :: "profile_id \<Rightarrow> (transfer_id, transfer_task) btree \<Rightarrow> nat" where
  "profile_active p tasks =
     length (filter (\<lambda>t. is_active (task_state t) \<and> remote_profile_id t = Some p) (bt_values tasks))"

lemma active_profiles_counts:
  assumes "active_profiles tasks = Some active"
  shows "length active = active_count tasks \<and>
         length (filter (\<lambda>p'. p' = p) active) = profile_active p tasks"
proof -
  have m: "map remote_profile_id (filter (\<lambda>t. is_active (task_state t)) (bt_values tasks)) = map Some active"
    using assms those_Some by (auto simp: active_profiles_def)
  then have len: "length active = active_count tasks"
    by (metis active_count_def length_map)
  have "length (filter (\<lambda>p'. p' = p) active)
      = length (filter (\<lambda>v. v = Some p) (map Some active))"
    by (simp add: filter_map o_def)
  also have "\<dots> = length (filter (\<lambda>t. remote_profile_id t = Some p)
      (filter (\<lambda>t. is_active (task_state t)) (bt_values tasks)))"
    unfolding m [symmetric] by (simp add: filter_map o_def)
  also have "\<dots> = profile_active p tasks"
    by (simp add: profile_active_def conj_commute)
  finally show ?thesis using len by simp
qed

definition limits_kept :: "queue_limits \<Rightarrow> (transfer_id, transfer_task) btree \<Rightarrow> bool" where
  "limits_kept l tasks =
     (active_count tasks \<le> ql_max_concurrent l \<and>
      (\<forall>p. profile_active p tasks \<le> ql_max_concurrent_per_profile l))"

text \<open>A task that may take a slot: runnable, and its profile has one free.\<close>

definition eligible :: "i64 \<Rightarrow> queue_limits \<Rightarrow> (transfer_id, transfer_task) btree \<Rightarrow> transfer_task \<Rightarrow> bool"
where
  "eligible now l tasks t =
     (runnable now (task_state t) \<and>
      is_none_or (remote_profile_id t) (\<lambda>p. profile_active p tasks < ql_max_concurrent_per_profile l))"

lemma profile_active_zero: "active_count tasks = 0 \<Longrightarrow> profile_active p tasks = 0"
  by (auto simp: active_count_def profile_active_def filter_empty_conv)

lemma is_candidate_eligible:
  assumes "active_profiles tasks = Some active" "0 < ql_max_concurrent_per_profile l"
    and "is_candidate now l active t \<noteq> None"
  shows "is_candidate now l active t = Some True \<longleftrightarrow> eligible now l tasks t"
proof (cases "active = []")
  case True
  then have "profile_active p tasks = 0" for p
    using active_profiles_counts [OF assms(1)] profile_active_zero by fastforce
  then show ?thesis
    using True assms(2)
    by (auto simp: is_candidate_def profile_load_def eligible_def runnable_def is_none_or_iff
        split: transfer_state.splits)
next
  case False
  then show ?thesis
    using assms(3) active_profiles_counts [OF assms(1)]
    by (auto simp: is_candidate_def profile_load_def eligible_def runnable_def
        split: transfer_state.splits if_splits)
qed

lemma start_keeps_identity:
  "task_start now t = Ok (tok, t') \<Longrightarrow>
   task_id t' = task_id t \<and> remote_profile_id t' = remote_profile_id t \<and> task_state t' = Running \<and>
   \<not> is_active (task_state t) \<and> tok_task_id tok = task_id t \<and> tok_generation tok = task_generation t'"
  by (auto simp: op_ok touch_defs remote_profile_id_def runnable_def is_active_def
      split: transfer_state.splits)

lemma count_start:
  assumes "memory_ok tasks" "bt_get i tasks = Some t" "task_start now t = Ok (tok, t')"
  shows "active_count (bt_insert i t' tasks) = Suc (active_count tasks) \<and>
    profile_active p (bt_insert i t' tasks) =
      profile_active p tasks + (if remote_profile_id t = Some p then 1 else 0)"
  using start_keeps_identity [OF assms(3)] assms(1,2)
    bt_count_insert [of tasks "\<lambda>t. is_active (task_state t)" i t']
    bt_count_insert [of tasks "\<lambda>t. is_active (task_state t) \<and> remote_profile_id t = Some p" i t']
  by (auto simp: active_count_def profile_active_def memory_ok_def is_active_def)

text \<open>No operation but a start makes a task active.\<close>

lemma run_op_activates:
  "run_op op t = Ok t' \<Longrightarrow> \<not> is_start op \<Longrightarrow> is_active (task_state t') \<Longrightarrow> is_active (task_state t)"
proof (cases op)
  case (Do_request_cancel now)
  then show "run_op op t = Ok t' \<Longrightarrow> is_active (task_state t') \<Longrightarrow> ?thesis"
    by (cases "task_state t") (auto simp: op_ok touch_defs is_active_def)
qed (auto simp: op_ok touch_defs is_active_def is_start_def Let_def split: if_splits)

lemma count_inactive:
  assumes "memory_ok tasks" "is_active (task_state t') \<Longrightarrow>
      is_some_and (bt_get i tasks) (\<lambda>t. is_active (task_state t) \<and> remote_profile_id t = remote_profile_id t')"
  shows "active_count (bt_insert i t' tasks) \<le> active_count tasks \<and>
    profile_active p (bt_insert i t' tasks) \<le> profile_active p tasks"
  using assms
    bt_count_insert [of tasks "\<lambda>t. is_active (task_state t)" i t']
    bt_count_insert [of tasks "\<lambda>t. is_active (task_state t) \<and> remote_profile_id t = Some p" i t']
  by (cases "is_active (task_state t')"; cases "bt_get i tasks")
     (auto simp: active_count_def profile_active_def memory_ok_def split: if_splits)

lemma start_next_choice:
  assumes ok: "memory_ok (tq_tasks q)" and s: "start_next st now q = (r, q')"
  obtains (none) "q' = q" "r = Ok None \<or> r = Err Q_Panicked"
  | (some) t active r1 where "active_profiles (tq_tasks q) = Some active"
      "active_count (tq_tasks q) < ql_max_concurrent (tq_limits q)"
      "bt_get (task_id t) (tq_tasks q) = Some t"
      "is_candidate now (tq_limits q) active t = Some True"
      "\<And>u. u \<in> set (bt_values (tq_tasks q)) \<Longrightarrow> is_candidate now (tq_limits q) active u \<noteq> None \<and>
         (is_candidate now (tq_limits q) active u = Some True \<longrightarrow> age_key t \<le> age_key u)"
      "mutate st (task_id t) (task_start now) q = (r1, q')" "r = map_sum id Some r1"
proof (cases "\<exists>active cands t. active_profiles (tq_tasks q) = Some active \<and>
    length active < ql_max_concurrent (tq_limits q) \<and>
    filter_panic (is_candidate now (tq_limits q) active) (bt_values (tq_tasks q)) = Some cands \<and>
    min_by_age cands = Some t")
  case False
  then have "q' = q" "r = Ok None \<or> r = Err Q_Panicked" using s
    by (auto simp: start_next_def not_le split: option.splits if_splits)
  then show ?thesis by (rule none)
next
  case True
  then obtain active cands t where a: "active_profiles (tq_tasks q) = Some active"
    "length active < ql_max_concurrent (tq_limits q)"
    "filter_panic (is_candidate now (tq_limits q) active) (bt_values (tq_tasks q)) = Some cands"
    "min_by_age cands = Some t" by blast
  have cands: "cands = filter (\<lambda>u. is_candidate now (tq_limits q) active u = Some True)
      (bt_values (tq_tasks q))" using a(3) by (simp add: filter_panic_Some)
  then have t: "t \<in> set (bt_values (tq_tasks q))" "is_candidate now (tq_limits q) active t = Some True"
    using min_by_age_Some [OF a(4)] by auto
  have g: "bt_get (task_id t) (tq_tasks q) = Some t"
    using t(1) memory_ok_in_values [OF ok] by simp
  obtain r1 where m: "mutate st (task_id t) (task_start now) q = (r1, q')" "r = map_sum id Some r1"
    using s a by (cases "mutate st (task_id t) (task_start now) q")
      (auto simp: start_next_def split: sum.splits)
  have cnt: "active_count (tq_tasks q) < ql_max_concurrent (tq_limits q)"
    using active_profiles_counts [OF a(1)] a(2) by simp
  show ?thesis
    by (rule some [OF a(1) cnt g t(2) _ m])
       (use min_by_age_Some [OF a(4)] a(3) in \<open>auto simp: filter_panic_Some\<close>)
qed

context transfer_store
begin

lemma start_next_effect:
  assumes inv: "queue_inv tasks_of st_ok q" and s: "start_next st_ops now q = (r, q')"
  shows "queue_inv tasks_of st_ok q' \<and> tq_limits q' = tq_limits q \<and>
    (tq_tasks q' = tq_tasks q \<or>
     (\<exists>t t' tok active. bt_get (task_id t) (tq_tasks q) = Some t \<and> task_start now t = Ok (tok, t') \<and>
        tq_tasks q' = bt_insert (task_id t) t' (tq_tasks q) \<and>
        active_profiles (tq_tasks q) = Some active \<and>
        active_count (tq_tasks q) < ql_max_concurrent (tq_limits q) \<and>
        is_candidate now (tq_limits q) active t = Some True))"
proof -
  have "memory_ok (tq_tasks q)" using inv by (simp add: queue_inv_def)
  then show ?thesis
  proof (rule start_next_choice [OF _ s])
    fix t active r1
    assume *: "active_profiles (tq_tasks q) = Some active"
      "active_count (tq_tasks q) < ql_max_concurrent (tq_limits q)"
      "bt_get (task_id t) (tq_tasks q) = Some t"
      "is_candidate now (tq_limits q) active t = Some True"
      and m: "mutate st_ops (task_id t) (task_start now) q = (r1, q')"
    have "\<And>t x t'. task_start now t = Ok (x, t') \<Longrightarrow> task_id t' = task_id t"
      using start_keeps_identity by blast
    from mutate_effect [OF inv m this] * show ?thesis by fastforce
  qed (use inv in simp)
qed

end

text \<open>The queue in use. A start goes through \<open>start_next\<close> only; \<open>mutate\<close> applies any other
  operation; what is enqueued is not already running. Failed calls are steps too: they may have
  left their mark on the store.\<close>

inductive queue_step :: "'s store_ops \<Rightarrow> 's transfer_queue \<Rightarrow> 's transfer_queue \<Rightarrow> bool" for st where
  qs_enqueue: "\<not> is_active (task_state t) \<Longrightarrow> enqueue st t q = (r, q') \<Longrightarrow> queue_step st q q'"
| qs_start: "start_next st now q = (r, q') \<Longrightarrow> queue_step st q q'"
| qs_mutate: "\<not> is_start op \<Longrightarrow> mutate st i (op_mutation op) q = (r, q') \<Longrightarrow> queue_step st q q'"

lemma candidate_slot:
  "is_candidate now l active t = Some True \<Longrightarrow> active_profiles tasks = Some active \<Longrightarrow>
   remote_profile_id t = Some p \<Longrightarrow> profile_active p tasks < ql_max_concurrent_per_profile l"
  using active_profiles_counts [of tasks active p] profile_active_zero [of tasks p]
  by (auto simp: is_candidate_def profile_load_def split: transfer_state.splits if_splits)

context transfer_store
begin

lemma start_next_limits:
  assumes inv: "queue_inv tasks_of st_ok q" and s: "start_next st_ops now q = (r, q')"
    and k: "limits_kept (tq_limits q) (tq_tasks q)"
  shows "limits_kept (tq_limits q) (tq_tasks q')"
proof -
  have ok: "memory_ok (tq_tasks q)" using inv by (simp add: queue_inv_def)
  consider "tq_tasks q' = tq_tasks q"
    | t t' tok active where "bt_get (task_id t) (tq_tasks q) = Some t" "task_start now t = Ok (tok, t')"
        "tq_tasks q' = bt_insert (task_id t) t' (tq_tasks q)"
        "active_profiles (tq_tasks q) = Some active"
        "active_count (tq_tasks q) < ql_max_concurrent (tq_limits q)"
        "is_candidate now (tq_limits q) active t = Some True"
    using start_next_effect [OF inv s] by blast
  then show ?thesis
  proof cases
    case 2
    then show ?thesis
      using k count_start [OF ok 2(1,2)] candidate_slot [OF 2(6,4)]
      by (auto simp: limits_kept_def)
  qed (simp add: k)
qed

lemma step_keeps:
  assumes "queue_step st_ops q q'" and inv: "queue_inv tasks_of st_ok q"
    and k: "limits_kept (tq_limits q) (tq_tasks q)"
  shows "queue_inv tasks_of st_ok q' \<and> tq_limits q' = tq_limits q \<and>
         limits_kept (tq_limits q) (tq_tasks q')"
proof -
  have ok: "memory_ok (tq_tasks q)" using inv by (simp add: queue_inv_def)
  note ins = count_inactive [OF ok]
  from assms(1) show ?thesis
  proof cases
    case (qs_enqueue t r)
    note e = enqueue_effect [OF inv qs_enqueue(2)]
    have "limits_kept (tq_limits q) (tq_tasks q')"
    proof (cases "r = Ok ()")
      case True
      then show ?thesis using e k ins [of t "task_id t"] qs_enqueue(1)
        by (auto simp: limits_kept_def intro: order_trans)
    qed (use e k in simp)
    then show ?thesis using e by blast
  next
    case (qs_start now r)
    then show ?thesis
      using start_next_effect [OF inv qs_start] start_next_limits [OF inv qs_start k] by blast
  next
    case (qs_mutate op i r)
    note e = mutate_op_effect [OF inv qs_mutate(2)]
    have "limits_kept (tq_limits q) (tq_tasks q')"
    proof (cases "tq_tasks q' = tq_tasks q")
      case False
      then obtain t t' where t: "bt_get i (tq_tasks q) = Some t" "run_op op t = Ok t'"
        "tq_tasks q' = bt_insert i t' (tq_tasks q)" using e by auto
      have "remote_profile_id t' = remote_profile_id t"
        using run_op_frame [OF t(2)] by (simp add: task_frame_def remote_profile_id_def)
      then have "is_active (task_state t') \<Longrightarrow> is_some_and (bt_get i (tq_tasks q))
          (\<lambda>t. is_active (task_state t) \<and> remote_profile_id t = remote_profile_id t')"
        using run_op_activates [OF t(2) qs_mutate(1)] t(1) by simp
      then show ?thesis using ins [of t' i] k t(3) by (auto simp: limits_kept_def intro: order_trans)
    qed (use k in simp)
    then show ?thesis using e by blast
  qed
qed

lemma run_keeps:
  assumes "(queue_step st_ops)\<^sup>*\<^sup>* q q'" and "queue_inv tasks_of st_ok q"
    and "limits_kept (tq_limits q) (tq_tasks q)"
  shows "queue_inv tasks_of st_ok q' \<and> tq_limits q' = tq_limits q \<and>
         limits_kept (tq_limits q) (tq_tasks q')"
  using assms by (induction rule: rtranclp_induct) (auto dest: step_keeps)

lemma open_limits:
  assumes "st_ok s" and "queue_open st_ops s limits now = (Ok q, s')"
  shows "active_count (tq_tasks q) = 0 \<and> limits_kept limits (tq_tasks q)"
proof -
  note o = open_effect [OF assms]
  have "\<not> is_active (task_state t)" if "t \<in> set (bt_values (tq_tasks q))" for t
  proof -
    have ok: "memory_ok (tq_tasks q)" using o by (simp add: queue_inv_def)
    have "map_option (recovered now) (tasks_of s (task_id t)) = Some t"
      using o that memory_ok_in_values [OF ok, of t] by simp
    then obtain u where u: "t = recovered now u" "tasks_of s (task_id t) = Some u" by auto
    have "is_ok (recover_after_restart now u)" using o u(2) by blast
    then show ?thesis unfolding u(1) by (rule recovered_inactive)
  qed
  then have "active_count (tq_tasks q) = 0" by (simp add: active_count_def filter_empty_conv)
  then show ?thesis using profile_active_zero by (simp add: limits_kept_def)
qed

end

section \<open>Walking the pages of a query\<close>

definition matching_tasks :: "transfer_query \<Rightarrow> (transfer_id, transfer_task) btree \<Rightarrow> transfer_task list" where
  "matching_tasks query tasks =
     sort_key age_key (filter (\<lambda>t. query_matches query t = Some True) (bt_values tasks))"

lemma matching_tasks_offset [simp]:
  "matching_tasks (query\<lparr>q_offset := off\<rparr>) tasks = matching_tasks query tasks"
  by (simp add: matching_tasks_def query_matches_def)

text \<open>What a client does: ask for a page, and follow \<open>next_offset\<close> while there is one.\<close>

fun walk_pages ::
  "(transfer_task \<Rightarrow> bytes option) \<Rightarrow> 's transfer_queue \<Rightarrow> nat \<Rightarrow> transfer_query \<Rightarrow> transfer_task list option"
where
  "walk_pages json q 0 query = None"
| "walk_pages json q (Suc n) query =
     (case queue_page json query q of
        Err _ \<Rightarrow> None
      | Ok page \<Rightarrow>
          (case page_next_offset page of
             None \<Rightarrow> Some (page_tasks page)
           | Some offset \<Rightarrow>
               map_option ((@) (page_tasks page)) (walk_pages json q n (query\<lparr>q_offset := offset\<rparr>))))"

definition page_at :: "transfer_query \<Rightarrow> transfer_task list \<Rightarrow> transfer_page" where
  "page_at query matching =
     (let tasks = take (unat (q_limit query)) (drop (unat (q_offset query)) matching);
          consumed = unat (q_offset query) + length tasks
      in \<lparr>page_query = query, page_tasks = tasks, page_has_more = consumed < length matching,
          page_next_offset = (if consumed < length matching then Some (of_nat consumed) else None)\<rparr>)"

lemma query_validate_Ok:
  "query_validate q = Ok () \<Longrightarrow>
   0 < q_limit q \<and> q_limit q \<le> MAX_TRANSFER_PAGE_TASKS \<and> q_offset q \<le> MAX_TRANSFER_QUERY_OFFSET"
  by (auto simp: query_validate_def word_gt_0 split: if_splits)

lemma query_validate_offset:
  "query_validate q = Ok () \<Longrightarrow> off \<le> MAX_TRANSFER_QUERY_OFFSET \<Longrightarrow>
   query_validate (q\<lparr>q_offset := off\<rparr>) = Ok ()"
  by (auto simp: query_validate_def split: if_splits)

lemma page_at_bounds:
  assumes "query_validate query = Ok ()"
  shows "unat (q_limit query) \<le> 64 \<and> 0 < unat (q_limit query) \<and> unat (q_offset query) \<le> 100000 \<and>
    length (page_tasks (page_at query m)) \<le> unat (q_limit query)"
  using query_validate_Ok [OF assms]
  by (auto simp: page_at_def Let_def MAX_TRANSFER_PAGE_TASKS_def MAX_TRANSFER_QUERY_OFFSET_def
      word_le_nat_alt word_less_nat_alt)

lemma page_at_validates:
  assumes q: "query_validate query = Ok ()"
    and m: "\<And>t. t \<in> set m \<Longrightarrow> validate_public json t = Ok () \<and> query_matches query t = Some True"
  shows "page_validate json (page_at query m) = Ok ()"
proof -
  let ?p = "page_at query m" and ?n = "length (page_tasks (page_at query m))"
  note b = page_at_bounds [OF q, of m]
  have "unat (q_offset query) + unat (of_nat ?n :: u32) < 2 ^ 32"
    using b by (simp add: unat_of_nat take_bit_eq_mod)
  then have next_ok: "checked_add (q_offset query) (of_nat ?n) = Some (q_offset query + of_nat ?n)"
    by (simp add: checked_add_def)
  have eq: "page_query ?p = query" by (simp add: page_at_def Let_def)
  have set: "set (page_tasks ?p) \<subseteq> set m"
    by (auto simp: page_at_def Let_def dest!: in_set_takeD in_set_dropD)
  have bad: "\<not> list_ex (\<lambda>t. \<not> is_ok (validate_public json t) \<or> query_matches query t \<noteq> Some True)
      (page_tasks ?p)"
    using m set by (fastforce simp: list_ex_iff)
  have more: "page_has_more ?p \<Longrightarrow> page_tasks ?p \<noteq> [] \<and>
      page_next_offset ?p = Some (q_offset query + of_nat ?n)"
    using b by (auto simp: page_at_def Let_def)
  have last: "\<not> page_has_more ?p \<Longrightarrow> page_next_offset ?p = None"
    by (simp add: page_at_def Let_def)
  show ?thesis
    using b q bad more last next_ok
    by (cases "page_has_more ?p") (simp_all add: page_validate_def eq not_less)
qed

lemma queue_page_Ok:
  assumes "query_validate query = Ok ()"
    and pub: "\<And>t. t \<in> set (bt_values (tq_tasks q)) \<Longrightarrow> validate_public json t = Ok ()"
  shows "queue_page json query q = Ok (page_at query (matching_tasks query (tq_tasks q)))"
proof -
  let ?m = "matching_tasks query (tq_tasks q)"
  have "filter_panic (query_matches query) (bt_values (tq_tasks q)) =
      Some (filter (\<lambda>t. query_matches query t = Some True) (bt_values (tq_tasks q)))"
    using pub public_matches by (auto simp: filter_panic_Some validate_public_Ok)
  moreover have "page_validate json (page_at query ?m) = Ok ()"
    using pub by (intro page_at_validates assms(1)) (auto simp: matching_tasks_def)
  moreover have "unat (q_offset query) + length (page_tasks (page_at query ?m)) < 2 ^ 32"
    using page_at_bounds [OF assms(1), of ?m] by simp
  ultimately show ?thesis
    using assms(1) by (simp add: queue_page_def Let_def page_at_def matching_tasks_def)
qed

lemma walk_pages_drop:
  assumes q: "query_validate query = Ok ()"
    and pub: "\<And>t. t \<in> set (bt_values (tq_tasks q)) \<Longrightarrow> validate_public json t = Ok ()"
    and len: "length (matching_tasks query (tq_tasks q)) \<le> 100000"
    and fuel: "length (matching_tasks query (tq_tasks q)) < unat (q_offset query) + fuel"
    and off: "unat (q_offset query) \<le> length (matching_tasks query (tq_tasks q))"
  shows "walk_pages json q fuel query =
    Some (drop (unat (q_offset query)) (matching_tasks query (tq_tasks q)))"
  using q len fuel off
proof (induction fuel arbitrary: query)
  case 0
  then show ?case by simp
next
  case (Suc n)
  let ?m = "matching_tasks query (tq_tasks q)" and ?o = "unat (q_offset query)"
  let ?p = "page_at query ?m"
  let ?c = "?o + length (page_tasks ?p)"
  note b = page_at_bounds [OF Suc.prems(1), of ?m]
  have page: "queue_page json query q = Ok ?p" by (rule queue_page_Ok [OF Suc.prems(1) pub])
  show ?case
  proof (cases "?c < length ?m")
    case True
    let ?q = "query\<lparr>q_offset := of_nat ?c\<rparr>"
    have c: "unat (of_nat ?c :: u32) = ?c"
      using True Suc.prems(2) unfolding unat_of_nat by (intro mod_less) simp
    have "query_validate ?q = Ok ()"
      using True Suc.prems(2) c
      by (intro query_validate_offset Suc.prems(1))
         (simp add: word_le_nat_alt MAX_TRANSFER_QUERY_OFFSET_def)
    moreover have "0 < length (page_tasks ?p)"
      using True b by (auto simp: page_at_def Let_def)
    then have "length ?m < ?c + n" using Suc.prems(3) by linarith
    then have "length ?m < unat (q_offset ?q) + n" using c by simp
    ultimately have "walk_pages json q n ?q = Some (drop ?c ?m)"
      using Suc.IH [of ?q] Suc.prems(2) c True by simp
    moreover have "page_next_offset ?p = Some (of_nat ?c)"
      using True by (simp add: page_at_def Let_def)
    moreover have "page_tasks ?p = take (unat (q_limit query)) (drop ?o ?m)"
      "length (page_tasks ?p) = unat (q_limit query)"
      using True by (auto simp: page_at_def Let_def min_def split: if_splits)
    then have "page_tasks ?p @ drop ?c ?m = drop ?o ?m"
      by (metis add.commute append_take_drop_id drop_drop)
    ultimately show ?thesis using page by simp
  next
    case False
    then have "page_next_offset ?p = None" "page_tasks ?p = drop ?o ?m"
      by (auto simp: page_at_def Let_def min_def split: if_splits)
    then show ?thesis using page by simp
  qed
qed

section \<open>Properties\<close>

definition sample_limits :: queue_limits where
  "sample_limits = queue_limits_default"

definition sample_queue :: "memory_store transfer_queue" where
  "sample_queue = \<lparr>tq_store = [(TransferId 1, sample_fresh)], tq_tasks = [(TransferId 1, sample_fresh)],
     tq_limits = sample_limits\<rparr>"

definition sample_queue1 :: "memory_store transfer_queue" where
  "sample_queue1 = \<lparr>tq_store = [(TransferId 1, sample_started)],
     tq_tasks = [(TransferId 1, sample_started)], tq_limits = sample_limits\<rparr>"

lemmas queue_run_defs =
  start_next_def active_profiles_def is_candidate_def profile_load_def mutate_def memory_ops_def
  memory_compare_and_swap_def memory_load_all_def bt_values_def bt_get_def

lemma sample_memory_ok: "memory_ok [(TransferId 1, sample_fresh)]"
  by (simp add: memory_ok_def bt_ok_def sample_revisions)

lemma sample_states: "task_state sample_fresh = Queued" "task_state sample_started = Running"
  by (simp_all add: sample_fresh_def sample_started_def sample_task_def)

lemma sample_open:
  "queue_open memory_ops [(TransferId 1, sample_fresh)] sample_limits 3
     = (Ok sample_queue, [(TransferId 1, sample_fresh)])"
  by (simp add: queue_open_def queue_run_defs sample_limits_def queue_limits_default_def
      recover_after_restart_def check_time_def sample_states is_active_def sample_revisions
      sample_queue_def)
     (simp add: sample_fresh_def sample_task_def)

lemma sample_start_token:
  "task_start 5 sample_fresh = Ok (\<lparr>tok_task_id = TransferId 1, tok_generation = 1\<rparr>, sample_started)"
  using sample_start by (auto simp: op_ok sample_revisions)
     (simp add: sample_fresh_def saturating_add_def)

lemma sample_start_next:
  "start_next memory_ops 5 sample_queue
     = (Ok (Some \<lparr>tok_task_id = TransferId 1, tok_generation = 1\<rparr>), sample_queue1)"
  by (simp add: queue_run_defs sample_queue_def sample_queue1_def sample_states is_active_def
      sample_revisions sample_start_token sample_limits_def queue_limits_default_def)

text \<open>C1: The concurrency limits hold at all times. From opening the queue on any stored state,
  through any sequence of enqueues, starts and other operations, failed ones included, the number of
  active transfers never exceeds the limit, for no remote profile does it exceed the per-profile
  limit, the number of tasks stays within its bound, and the cache is exactly what is stored.\<close>

theorem queue_limits_hold:
  assumes "transfer_store st tasks_of st_ok" and "st_ok s"
    and "queue_open st s limits now = (Ok q0, s0)" and "(queue_step st)\<^sup>*\<^sup>* q0 q"
  shows "active_count (tq_tasks q) \<le> ql_max_concurrent limits \<and>
    (\<forall>p. profile_active p (tq_tasks q) \<le> ql_max_concurrent_per_profile limits) \<and>
    length (tq_tasks q) \<le> ql_max_tasks limits \<and>
    (\<forall>i. queue_task i q = tasks_of (tq_store q) i)"
proof -
  note o = transfer_store.open_effect [OF assms(1-3)]
  have "limits_kept (tq_limits q0) (tq_tasks q0)"
    using transfer_store.open_limits [OF assms(1-3)] o by simp
  from transfer_store.run_keeps [OF assms(1,4) _ this] o show ?thesis
    by (auto simp: limits_kept_def queue_inv_def queue_task_def)
qed

theorem queue_limits_hold_witness: "active_count (tq_tasks sample_queue1) \<le> 4"
proof -
  have "(queue_step memory_ops)\<^sup>*\<^sup>* sample_queue sample_queue1"
    using qs_start [OF sample_start_next] by blast
  from queue_limits_hold [OF memory.transfer_store_axioms sample_memory_ok sample_open this]
  show ?thesis by (simp add: sample_limits_def queue_limits_default_def)
qed

text \<open>C11: A restart loses nothing. Reopening the queue on the store a running queue left behind
  gives back every task under its identifier: the idle ones unchanged, the active ones as failed
  with a retryable, unverified failure and their run retired; none is active.\<close>

theorem queue_restart_recovers:
  assumes "transfer_store st tasks_of st_ok" and "st_ok s"
    and "queue_open st s limits now = (Ok q0, s0)" and "(queue_step st)\<^sup>*\<^sup>* q0 q"
    and "queue_open st (tq_store q) limits' later = (Ok q', s')"
  shows "(\<forall>i. queue_task i q' = map_option (recovered later) (queue_task i q)) \<and>
    active_count (tq_tasks q') = 0 \<and>
    (\<forall>i t. queue_task i q = Some t \<longrightarrow>
       recovered later t = (if is_active (task_state t)
         then task_changed later (invalidate_run
                (t\<lparr>task_state := Failed (restart_failure (task_direction t))\<rparr>))
         else t))"
proof -
  note o = transfer_store.open_effect [OF assms(1-3)]
  have "limits_kept (tq_limits q0) (tq_tasks q0)"
    using transfer_store.open_limits [OF assms(1-3)] o by simp
  from transfer_store.run_keeps [OF assms(1,4) _ this] o
  have q: "st_ok (tq_store q)" "\<forall>i. tasks_of (tq_store q) i = queue_task i q"
    by (auto simp: queue_inv_def queue_task_def)
  note o' = transfer_store.open_effect [OF assms(1) q(1) assms(5)]
  have "recovered later t = (if is_active (task_state t)
         then task_changed later (invalidate_run
                (t\<lparr>task_state := Failed (restart_failure (task_direction t))\<rparr>))
         else t)" if "queue_task i q = Some t" for i t
  proof -
    have "is_ok (recover_after_restart later t)" using o' q that by auto
    then show ?thesis by (rule recovered_eq)
  qed
  then show ?thesis
    using o' q transfer_store.open_limits [OF assms(1) q(1) assms(5)] by (auto simp: queue_task_def)
qed

theorem queue_restart_recovers_witness:
  "queue_task (TransferId 1) sample_queue = map_option (recovered 3) (queue_task (TransferId 1) sample_queue)"
proof -
  have "queue_open memory_ops (tq_store sample_queue) sample_limits 3
     = (Ok sample_queue, [(TransferId 1, sample_fresh)])"
    using sample_open by (simp add: sample_queue_def)
  then show ?thesis
    using queue_restart_recovers [OF memory.transfer_store_axioms sample_memory_ok sample_open
        rtranclp.rtrancl_refl] by blast
qed

text \<open>C12: The queue is first in, first out among what may run, and work conserving. A call that
  starts a task starts the oldest eligible one (by creation time, then identifier) and changes no
  other; a call that answers "nothing to start" left the queue as it was, and either all slots are
  taken or no task is eligible.\<close>

theorem start_next_fifo:
  assumes "transfer_store st tasks_of st_ok" and "queue_inv tasks_of st_ok q"
    and "0 < ql_max_concurrent_per_profile (tq_limits q)"
    and "start_next st now q = (Ok r, q')"
  shows "case r of
      None \<Rightarrow> q' = q \<and> (ql_max_concurrent (tq_limits q) \<le> active_count (tq_tasks q) \<or>
        (\<forall>u \<in> set (bt_values (tq_tasks q)). \<not> eligible now (tq_limits q) (tq_tasks q) u))
    | Some tok \<Rightarrow> (\<exists>t t'. queue_task (tok_task_id tok) q = Some t \<and> task_start now t = Ok (tok, t') \<and>
        eligible now (tq_limits q) (tq_tasks q) t \<and>
        (\<forall>u \<in> set (bt_values (tq_tasks q)). eligible now (tq_limits q) (tq_tasks q) u \<longrightarrow>
           age_key t \<le> age_key u) \<and>
        (task_revision t \<noteq> -1 \<longrightarrow> queue_task (tok_task_id tok) q' = Some t') \<and>
        (\<forall>i. i \<noteq> tok_task_id tok \<longrightarrow> queue_task i q' = queue_task i q))"
proof (cases r)
  case None
  show ?thesis
  proof (cases "ql_max_concurrent (tq_limits q) \<le> active_count (tq_tasks q)")
    case True
    then show ?thesis using None assms(4) active_profiles_counts [of "tq_tasks q"]
      by (auto simp: start_next_def split: option.splits sum.splits prod.splits if_splits)
  next
    case False
    then obtain active where a: "active_profiles (tq_tasks q) = Some active" "q' = q"
      "filter_panic (is_candidate now (tq_limits q) active) (bt_values (tq_tasks q)) = Some []"
      using None assms(4) active_profiles_counts [of "tq_tasks q"]
      by (auto simp: start_next_def split: option.splits sum.splits prod.splits if_splits)
    then have "\<not> eligible now (tq_limits q) (tq_tasks q) u" if "u \<in> set (bt_values (tq_tasks q))" for u
      using that is_candidate_eligible [OF a(1) assms(3), of now u]
        filter_empty_conv [of "\<lambda>u. is_candidate now (tq_limits q) active u = Some True"]
      unfolding filter_panic_Some by metis
    then show ?thesis using None a(2) by simp
  qed
next
  case (Some tok)
  have "memory_ok (tq_tasks q)" using assms(2) by (simp add: queue_inv_def)
  then show ?thesis
  proof (rule start_next_choice [OF _ assms(4)])
    fix t active r1
    assume a: "active_profiles (tq_tasks q) = Some active"
      and g: "bt_get (task_id t) (tq_tasks q) = Some t"
      and c: "is_candidate now (tq_limits q) active t = Some True"
      and least: "\<And>u. u \<in> set (bt_values (tq_tasks q)) \<Longrightarrow>
         is_candidate now (tq_limits q) active u \<noteq> None \<and>
         (is_candidate now (tq_limits q) active u = Some True \<longrightarrow> age_key t \<le> age_key u)"
      and m: "mutate st (task_id t) (task_start now) q = (r1, q')" "Ok r = map_sum id Some r1"
    from m(2) Some have r1: "r1 = Ok tok" by (cases r1) auto
    then obtain t' where st: "task_start now t = Ok (tok, t')"
      using m(1) g by (auto simp: mutate_def split: sum.splits prod.splits if_splits)
    have frame: "i \<noteq> task_id t \<Longrightarrow> queue_task i q' = queue_task i q" for i
      using m(1) g st r1 by (auto simp: mutate_def queue_task_def split: sum.splits prod.splits if_splits)
    have new: "task_revision t \<noteq> -1 \<Longrightarrow> queue_task (task_id t) q' = Some t'"
      using m(1) g st r1
      by (auto simp: mutate_def queue_task_def op_ok touch_defs split: sum.splits prod.splits if_splits)
    have "eligible now (tq_limits q) (tq_tasks q) u \<Longrightarrow> age_key t \<le> age_key u"
      if "u \<in> set (bt_values (tq_tasks q))" for u
      using least [OF that] is_candidate_eligible [OF a assms(3)] by auto
    moreover have "eligible now (tq_limits q) (tq_tasks q) t"
      using c is_candidate_eligible [OF a assms(3)] by auto
    moreover have "tok_task_id tok = task_id t" using start_keeps_identity [OF st] by simp
    ultimately show ?thesis using Some st g frame new by (auto simp: queue_task_def)
  qed (use Some in auto)
qed

theorem start_next_fifo_witness:
  "eligible 5 sample_limits [(TransferId 1, sample_fresh)] sample_fresh"
proof -
  have "queue_inv (\<lambda>m i. bt_get i m) memory_ok sample_queue"
    using memory.open_effect [OF sample_memory_ok sample_open] by simp
  from start_next_fifo [OF memory.transfer_store_axioms this _ sample_start_next] show ?thesis
    by (auto simp: sample_queue_def sample_limits_def queue_limits_default_def queue_task_def
        bt_get_def sample_revisions)
qed

text \<open>Paging is complete. When every task satisfies the public contract, following
  \<open>next_offset\<close> from the first page of a valid query ends, and the pages together are exactly the
  tasks that match the query, oldest first, none twice and none left out.\<close>

theorem paging_complete:
  assumes "query_validate query = Ok ()" and "q_offset query = 0"
    and "\<forall>t \<in> set (bt_values (tq_tasks q)). validate_public json t = Ok ()"
    and "length (tq_tasks q) \<le> MAX_QUEUED_TASKS"
  shows "walk_pages json q (Suc (length (tq_tasks q))) query
         = Some (matching_tasks query (tq_tasks q))"
proof -
  have "length (matching_tasks query (tq_tasks q)) \<le> length (tq_tasks q)"
    by (simp add: matching_tasks_def bt_values_def order_trans [OF length_filter_le])
  then show ?thesis
    using walk_pages_drop [OF assms(1), of q json "Suc (length (tq_tasks q))"] assms(2-4)
    by (simp add: MAX_QUEUED_TASKS_def)
qed

definition sample_query :: transfer_query where
  "sample_query = \<lparr>q_limit = 1, q_offset = 0, q_states = [K_Queued], q_direction = None,
     q_profile_id = Some (ProfileId 7)\<rparr>"

theorem paging_complete_witness:
  "walk_pages (\<lambda>_. Some []) sample_queue 2 sample_query = Some [sample_fresh]"
proof -
  have "query_validate sample_query = Ok ()"
    by (simp add: sample_query_def query_validate_def is_nil_def MAX_TRANSFER_PAGE_TASKS_def
        MAX_TRANSFER_STATE_FILTERS_def MAX_TRANSFER_QUERY_OFFSET_def)
  moreover have "matching_tasks sample_query (tq_tasks sample_queue) = [sample_fresh]"
    by (simp add: matching_tasks_def sample_queue_def bt_values_def query_matches_def
        sample_query_def sample_states remote_profile_id_def)
       (simp add: sample_fresh_def sample_task_def sample_remote_def)
  moreover have "q_offset sample_query = 0" by (simp add: sample_query_def)
  moreover have "\<forall>t \<in> set (bt_values (tq_tasks sample_queue)). validate_public (\<lambda>_. Some []) t = Ok ()"
    using sample_fresh_public by (simp add: sample_queue_def bt_values_def)
  moreover have "length (tq_tasks sample_queue) \<le> MAX_QUEUED_TASKS"
    "Suc (length (tq_tasks sample_queue)) = 2"
    by (simp_all add: sample_queue_def MAX_QUEUED_TASKS_def)
  ultimately show ?thesis
    using paging_complete [of sample_query sample_queue "\<lambda>_. Some []"] by metis
qed

lemma those_map: "\<forall>x \<in> set xs. f x \<noteq> None \<Longrightarrow> those (map f xs) = Some (map (\<lambda>x. the (f x)) xs)"
  by (induction xs) auto

lemma min_by_age_unique:
  assumes "memory_ok tasks" "set cands \<subseteq> set (bt_values tasks)" "t \<in> set cands"
    "\<forall>u \<in> set cands. age_key t \<le> age_key u"
  shows "min_by_age cands = Some t"
proof -
  obtain m where m: "min_by_age cands = Some m" using assms(3) by (cases "min_by_age cands") auto
  then have "m \<in> set cands" "age_key m \<le> age_key t" "age_key t \<le> age_key m"
    using min_by_age_Some [OF m] assms(3,4) by auto
  then have "age_key m = age_key t" by (metis order.antisym)
  then have "task_id m = task_id t" by (simp add: age_key_def)
  moreover have "m \<in> set (bt_values tasks)" "t \<in> set (bt_values tasks)"
    using \<open>m \<in> set cands\<close> assms(2,3) by auto
  ultimately have "m = t" using memory_ok_in_values [OF assms(1)] by (metis option.inject)
  then show ?thesis using m by simp
qed

text \<open>With every task on a remote profile \<open>start_next\<close> cannot panic: it tries to start the
  oldest eligible task.\<close>

lemma start_next_oldest:
  assumes "memory_ok (tq_tasks q)" and per: "0 < ql_max_concurrent_per_profile (tq_limits q)"
    and t: "t \<in> set (bt_values (tq_tasks q))" "eligible now (tq_limits q) (tq_tasks q) t"
    and least: "\<forall>u \<in> set (bt_values (tq_tasks q)). eligible now (tq_limits q) (tq_tasks q) u \<longrightarrow>
           age_key t \<le> age_key u"
    and remote: "\<forall>u \<in> set (bt_values (tq_tasks q)). remote_profile_id u \<noteq> None"
    and free: "active_count (tq_tasks q) < ql_max_concurrent (tq_limits q)"
  shows "start_next st now q = map_prod (map_sum id Some) id (mutate st (task_id t) (task_start now) q)"
proof -
  obtain active where a: "active_profiles (tq_tasks q) = Some active"
    using those_map [of "filter (\<lambda>t. is_active (task_state t)) (bt_values (tq_tasks q))" remote_profile_id]
      remote by (auto simp: active_profiles_def)
  have len: "length active < ql_max_concurrent (tq_limits q)"
    using active_profiles_counts [OF a] free by simp
  have np: "is_candidate now (tq_limits q) active u \<noteq> None" if "u \<in> set (bt_values (tq_tasks q))" for u
    using remote that by (auto simp: is_candidate_def profile_load_def split: transfer_state.splits)
  let ?cands = "filter (\<lambda>u. is_candidate now (tq_limits q) active u = Some True) (bt_values (tq_tasks q))"
  have c: "u \<in> set ?cands \<longleftrightarrow> u \<in> set (bt_values (tq_tasks q)) \<and> eligible now (tq_limits q) (tq_tasks q) u"
    for u using is_candidate_eligible [OF a per np] by auto
  have "min_by_age ?cands = Some t"
    by (rule min_by_age_unique [OF assms(1)]) (use c t least in blast)+
  moreover have "filter_panic (is_candidate now (tq_limits q) active) (bt_values (tq_tasks q)) = Some ?cands"
    using np by (auto simp: filter_panic_Some)
  ultimately show ?thesis
    using a len by (auto simp: start_next_def split: prod.splits sum.splits)
qed

text \<open>An exhausted task blocks the queue. When the oldest eligible task has used up its
  attempts, \<open>start_next\<close> fails with \<open>RetryExhausted\<close> and changes nothing, so that as long as the
  task stays queued no other task starts, although slots are free and other tasks are eligible.
  A task gets there when its last attempt ends in a conflict that is then resolved: the resolution
  queues it again without regard to the attempts used.\<close>

theorem exhausted_task_blocks:
  assumes "transfer_store st tasks_of st_ok" and "queue_inv tasks_of st_ok q"
    and "0 < ql_max_concurrent_per_profile (tq_limits q)"
    and "t \<in> set (bt_values (tq_tasks q))" and "eligible now (tq_limits q) (tq_tasks q) t"
    and "\<forall>u \<in> set (bt_values (tq_tasks q)). eligible now (tq_limits q) (tq_tasks q) u \<longrightarrow>
           age_key t \<le> age_key u"
    and "\<forall>u \<in> set (bt_values (tq_tasks q)). remote_profile_id u \<noteq> None"
    and "active_count (tq_tasks q) < ql_max_concurrent (tq_limits q)"
    and "task_updated_at t \<le> now"
    and "rp_max_attempts (task_retry_policy t) \<le> task_completed_attempts t"
  shows "start_next st now q = (Err (Q_Mutation Me_RetryExhausted), q)"
proof -
  have ok: "memory_ok (tq_tasks q)" using assms(2) by (simp add: queue_inv_def)
  have "bt_get (task_id t) (tq_tasks q) = Some t" using memory_ok_in_values [OF ok] assms(4) by simp
  moreover have "task_start now t = Err Me_RetryExhausted"
    using assms(5,9,10)
    by (auto simp: task_start_def eligible_def runnable_def check_time_def split: transfer_state.splits)
  ultimately have "mutate st (task_id t) (task_start now) q = (Err (Q_Mutation Me_RetryExhausted), q)"
    by (simp add: mutate_def)
  then show ?thesis by (simp add: start_next_oldest [OF ok assms(3-8)])
qed

text \<open>The blocking is reachable: a policy of one attempt, a conflict during that attempt, and its
  resolution; a second, younger task waits behind.\<close>

definition once_policy :: retry_policy where
  "once_policy = \<lparr>rp_max_attempts = 1, rp_initial_backoff_ms = 1000, rp_max_backoff_ms = 60000\<rparr>"

definition stuck_fresh :: transfer_task where
  "stuck_fresh = sample_fresh\<lparr>task_retry_policy := once_policy\<rparr>"

definition stuck_running :: transfer_task where
  "stuck_running = stuck_fresh\<lparr>task_state := Running, task_completed_attempts := 1,
     task_generation := 1, task_revision := 1, task_updated_at := 5\<rparr>"

definition stuck_conflict :: transfer_task where
  "stuck_conflict = task_changed 6 (invalidate_run (stuck_running\<lparr>task_state := Conflict sample_conflict\<rparr>))"

definition stuck_queued :: transfer_task where
  "stuck_queued = task_changed 7
     (stuck_conflict\<lparr>task_conflict_policy := Policy_Overwrite, task_state := Queued\<rparr>)"

definition waiting_task :: transfer_task where
  "waiting_task = sample_fresh\<lparr>task_id := TransferId 9, task_created_at := 1, task_updated_at := 1\<rparr>"

lemmas stuck_defs = stuck_queued_def stuck_conflict_def stuck_running_def stuck_fresh_def
  once_policy_def touch_defs sample_fresh_def sample_task_def waiting_task_def

lemma stuck_run:
  "task_run stuck_fresh
     [Do_start 5, Do_enter_conflict sample_token sample_conflict 6, Do_resolve_conflict Policy_Overwrite 7]
     stuck_queued"
proof -
  have "run_op (Do_start 5) stuck_fresh = Ok stuck_running"
    by (simp add: op_ok runnable_def) (simp add: stuck_defs saturating_add_def)
  moreover have "run_op (Do_enter_conflict sample_token sample_conflict 6) stuck_running = Ok stuck_conflict"
    by (simp add: op_ok check_token_Ok sample_token_def sample_conflict_def)
       (simp add: stuck_defs sample_conflict_def)
  moreover have "run_op (Do_resolve_conflict Policy_Overwrite 7) stuck_conflict = Ok stuck_queued"
    by (simp add: op_ok) (simp add: stuck_defs)
  ultimately show ?thesis
    using run_snoc [OF run_snoc [OF run_snoc [OF run_nil]]] by (force simp: i64_max_def)
qed

definition stuck_tasks :: "(transfer_id, transfer_task) btree" where
  "stuck_tasks = [(TransferId 1, stuck_queued), (TransferId 9, waiting_task)]"

definition stuck_queue :: "memory_store transfer_queue" where
  "stuck_queue = \<lparr>tq_store = stuck_tasks, tq_tasks = stuck_tasks, tq_limits = sample_limits\<rparr>"

lemma stuck_facts:
  "task_state stuck_queued = Queued" "task_id stuck_queued = TransferId 1"
  "task_created_at stuck_queued = 0" "task_updated_at stuck_queued = 7"
  "remote_profile_id stuck_queued = Some (ProfileId 7)"
  "rp_max_attempts (task_retry_policy stuck_queued) = 1" "task_completed_attempts stuck_queued = 1"
  "task_state waiting_task = Queued" "task_id waiting_task = TransferId 9"
  "task_created_at waiting_task = 1" "remote_profile_id waiting_task = Some (ProfileId 7)"
  by (simp_all add: stuck_defs remote_profile_id_def sample_remote_def)

theorem exhausted_task_blocks_witness:
  "start_next memory_ops 10 stuck_queue = (Err (Q_Mutation Me_RetryExhausted), stuck_queue)"
proof (rule exhausted_task_blocks [OF memory.transfer_store_axioms])
  show "queue_inv (\<lambda>m i. bt_get i m) memory_ok stuck_queue"
    by (simp add: queue_inv_def stuck_queue_def stuck_tasks_def memory_ok_def bt_ok_def stuck_facts
        sample_limits_def queue_limits_default_def less_transfer_id_def)
  have none: "active_count stuck_tasks = 0"
    by (simp add: active_count_def stuck_tasks_def bt_values_def stuck_facts is_active_def)
  then show "active_count (tq_tasks stuck_queue) < ql_max_concurrent (tq_limits stuck_queue)"
    by (simp add: stuck_queue_def sample_limits_def queue_limits_default_def)
  show "eligible 10 (tq_limits stuck_queue) (tq_tasks stuck_queue) stuck_queued"
    using profile_active_zero [OF none, of "ProfileId 7"]
    by (simp add: eligible_def runnable_def stuck_facts stuck_queue_def sample_limits_def
        queue_limits_default_def)
qed (simp_all add: stuck_queue_def stuck_tasks_def bt_values_def stuck_facts sample_limits_def
      queue_limits_default_def age_key_def)

end
