(* ===== verification/Host.thy ===== *)
theory Host
  imports Remote_Core
begin

text \<open>
  What the transfer executor uses of the host through the Rust standard library: paths, the calls
  on files (by name, and on open files), the wall clock, the monotonic clock and the cancellation
  flags. Names point to inodes, so that an open file survives a rename or an unlink. Other
  processes and threads act between the calls: the host carries a script, and before every call the
  next entry of the script happens, a list of events (a call that fails, a name that changes under
  the program, a flag that is set, time that passes). An empty script is a quiet host.
\<close>

section \<open>Paths\<close>

text \<open>A \<open>PathBuf\<close> is its list of components and whether it starts at the root.\<close>

record path =
  p_absolute :: bool
  p_components :: "string list"

definition path_parent :: "path \<Rightarrow> path option" where
  "path_parent p =
     (if p_components p = [] then None else Some (p\<lparr>p_components := butlast (p_components p)\<rparr>))"

definition path_file_name :: "path \<Rightarrow> string option" where
  "path_file_name p =
     (if p_components p = [] \<or> last (p_components p) = ''..'' then None
      else Some (last (p_components p)))"

definition path_join :: "path \<Rightarrow> string \<Rightarrow> path" where
  "path_join p name = p\<lparr>p_components := p_components p @ [name]\<rparr>"

definition path_with_file_name :: "path \<Rightarrow> string \<Rightarrow> path" where
  "path_with_file_name p name =
     (if path_file_name p \<noteq> None
      then p\<lparr>p_components := butlast (p_components p) @ [name]\<rparr> else path_join p name)"

section \<open>State\<close>

datatype node_kind = Node_File | Node_Dir | Node_Symlink | Node_Other

record fs_node =
  nd_kind :: node_kind
  nd_content :: bytes
  nd_uid :: u32
  nd_modified :: "int option"
  nd_readable :: bool
  nd_writable :: bool
  nd_target_exists :: bool

datatype io_kind = Io_NotFound | Io_PermissionDenied | Io_Other

datatype host_event =
    Ev_Fault io_kind
  | Ev_Replace path "fs_node option"
  | Ev_Cancel nat
  | Ev_Time nat i64

record host =
  h_names :: "path \<Rightarrow> nat option"
  h_nodes :: "fs_node list"
  h_cells :: cells
  h_instant :: nat
  h_clock :: i64
  h_uid :: u32
  h_script :: "host_event list list"

definition lookup_inode :: "path \<Rightarrow> host \<Rightarrow> nat option" where
  "lookup_inode p h =
     Option.bind (h_names h p) (\<lambda>i. if i < length (h_nodes h) then Some i else None)"

definition lookup_node :: "path \<Rightarrow> host \<Rightarrow> fs_node option" where
  "lookup_node p h = map_option (\<lambda>i. h_nodes h ! i) (lookup_inode p h)"

definition link_new :: "path \<Rightarrow> fs_node \<Rightarrow> host \<Rightarrow> host" where
  "link_new p n h =
     h\<lparr>h_names := (h_names h)(p \<mapsto> length (h_nodes h)), h_nodes := h_nodes h @ [n]\<rparr>"

text \<open>One event; the second component is the failure it injects into the call.\<close>

fun apply_event :: "host_event \<Rightarrow> io_kind option \<times> host \<Rightarrow> io_kind option \<times> host" where
  "apply_event (Ev_Fault k) (f, h) = (Some k, h)"
| "apply_event (Ev_Replace p None) (f, h) = (f, h\<lparr>h_names := (h_names h)(p := None)\<rparr>)"
| "apply_event (Ev_Replace p (Some n)) (f, h) = (f, link_new p n h)"
| "apply_event (Ev_Cancel c) (f, h) = (f, h\<lparr>h_cells := (h_cells h)[c := True]\<rparr>)"
| "apply_event (Ev_Time d t) (f, h) = (f, h\<lparr>h_instant := h_instant h + d, h_clock := t\<rparr>)"

definition tick :: "host \<Rightarrow> io_kind option \<times> host" where
  "tick h =
     (case h_script h of
        [] \<Rightarrow> (None, h)
      | evs # rest \<Rightarrow> fold apply_event evs (None, h\<lparr>h_script := rest\<rparr>))"

definition host_call ::
  "(host \<Rightarrow> (io_kind, 'a) result \<times> host) \<Rightarrow> host \<Rightarrow> (io_kind, 'a) result \<times> host" where
  "host_call f h = (case tick h of (Some k, h1) \<Rightarrow> (Err k, h1) | (None, h1) \<Rightarrow> f h1)"

section \<open>Calls\<close>

record metadata =
  md_kind :: node_kind
  md_len :: u64
  md_uid :: u32
  md_modified :: "int option"

definition node_metadata :: "fs_node \<Rightarrow> metadata" where
  "node_metadata n =
     \<lparr>md_kind = nd_kind n, md_len = of_nat (length (nd_content n)), md_uid = nd_uid n,
      md_modified = nd_modified n\<rparr>"

definition fs_symlink_metadata :: "path \<Rightarrow> host \<Rightarrow> (io_kind, metadata) result \<times> host" where
  "fs_symlink_metadata p =
     host_call (\<lambda>h. (case lookup_node p h of
        None \<Rightarrow> Err Io_NotFound
      | Some n \<Rightarrow> Ok (node_metadata n), h))"

text \<open>\<open>Path::exists\<close> follows a symbolic link and turns every error into \<open>false\<close>.\<close>

definition path_exists :: "path \<Rightarrow> host \<Rightarrow> bool \<times> host" where
  "path_exists p h =
     (case tick h of
        (Some _, h1) \<Rightarrow> (False, h1)
      | (None, h1) \<Rightarrow>
          ((case lookup_node p h1 of
              None \<Rightarrow> False
            | Some n \<Rightarrow> nd_kind n \<noteq> Node_Symlink \<or> nd_target_exists n), h1))"

text \<open>An open file is its inode. \<open>O_NOFOLLOW\<close> refuses a symbolic link in the last place; a
  directory cannot be opened for writing.\<close>

definition new_file :: "host \<Rightarrow> fs_node" where
  "new_file h =
     \<lparr>nd_kind = Node_File, nd_content = [], nd_uid = h_uid h, nd_modified = Some (h_clock h),
      nd_readable = True, nd_writable = True, nd_target_exists = False\<rparr>"

definition update_node :: "nat \<Rightarrow> fs_node \<Rightarrow> host \<Rightarrow> host" where
  "update_node i n h = h\<lparr>h_nodes := (h_nodes h)[i := n]\<rparr>"

definition fs_open ::
  "path \<Rightarrow> bool \<Rightarrow> bool \<Rightarrow> bool \<Rightarrow> host \<Rightarrow> (io_kind, nat) result \<times> host" where
  "fs_open p write create trunc =
     host_call (\<lambda>h.
       case lookup_inode p h of
         None \<Rightarrow>
           if create \<and> is_some_and (Option.bind (path_parent p) (\<lambda>q. lookup_node q h))
                         (\<lambda>d. nd_kind d = Node_Dir \<and> nd_writable d)
           then (Ok (length (h_nodes h)), link_new p (new_file h) h)
           else (Err (if create then Io_Other else Io_NotFound), h)
       | Some i \<Rightarrow>
           let n = h_nodes h ! i
           in if nd_kind n = Node_Symlink \<or> (write \<and> nd_kind n = Node_Dir) then (Err Io_Other, h)
              else if (if write then \<not> nd_writable n else \<not> nd_readable n)
              then (Err Io_PermissionDenied, h)
              else if write \<and> trunc
              then (Ok i, update_node i (n\<lparr>nd_content := [], nd_modified := Some (h_clock h)\<rparr>) h)
              else (Ok i, h))"

definition fd_metadata :: "nat \<Rightarrow> host \<Rightarrow> (io_kind, metadata) result \<times> host" where
  "fd_metadata i = host_call (\<lambda>h. (Ok (node_metadata (h_nodes h ! i)), h))"

text \<open>Positioning an open file. The offset passes as it is; an offset beyond \<open>i64::MAX\<close> is an
  invalid argument of \<open>lseek\<close>.\<close>

definition fd_seek :: "u64 \<Rightarrow> host \<Rightarrow> (io_kind, unit) result \<times> host" where
  "fd_seek offset = host_call (\<lambda>h. (if uint offset \<le> i64_max then Ok () else Err Io_Other, h))"

text \<open>One \<open>read\<close> into a buffer of \<open>max_bytes\<close>. It may return fewer bytes than asked for but, of a
  regular file, none only at the end; here it returns what is there.\<close>

definition fd_read :: "nat \<Rightarrow> u64 \<Rightarrow> nat \<Rightarrow> host \<Rightarrow> (io_kind, bytes) result \<times> host" where
  "fd_read i offset max_bytes =
     host_call (\<lambda>h. (Ok (take max_bytes (drop (unat offset) (nd_content (h_nodes h ! i)))), h))"

text \<open>\<open>write_all\<close> at the position: what is beyond is overwritten, a gap is filled with zeros. A write that
  fails has written nothing here; the system may have written a part of it.\<close>

definition write_at :: "nat \<Rightarrow> bytes \<Rightarrow> bytes \<Rightarrow> bytes" where
  "write_at offset bs content =
     take offset (content @ replicate (offset - length content) 0) @ bs @
     drop (offset + length bs) content"

definition fd_write_all :: "nat \<Rightarrow> u64 \<Rightarrow> bytes \<Rightarrow> host \<Rightarrow> (io_kind, unit) result \<times> host" where
  "fd_write_all i offset bs =
     host_call (\<lambda>h.
       let n = h_nodes h ! i
       in (Ok (), update_node i
             (n\<lparr>nd_content := write_at (unat offset) bs (nd_content n),
                nd_modified := Some (h_clock h)\<rparr>) h))"

definition fd_sync_data :: "nat \<Rightarrow> host \<Rightarrow> (io_kind, unit) result \<times> host" where
  "fd_sync_data i = host_call (\<lambda>h. (Ok (), h))"

text \<open>\<open>rename\<close> replaces the target atomically unless it is a directory; with
  \<open>RENAME_NOREPLACE\<close> an existing target is an error.\<close>

definition fs_rename :: "bool \<Rightarrow> path \<Rightarrow> path \<Rightarrow> host \<Rightarrow> (io_kind, unit) result \<times> host" where
  "fs_rename noreplace src dst =
     host_call (\<lambda>h.
       case lookup_inode src h of
         None \<Rightarrow> (Err Io_NotFound, h)
       | Some i \<Rightarrow>
           if noreplace \<and> lookup_node dst h \<noteq> None then (Err Io_Other, h)
           else if is_some_and (lookup_node dst h) (\<lambda>n. nd_kind n = Node_Dir) then (Err Io_Other, h)
           else (Ok (), h\<lparr>h_names := (h_names h)(src := None, dst \<mapsto> i)\<rparr>))"

definition fs_remove_file :: "path \<Rightarrow> host \<Rightarrow> (io_kind, unit) result \<times> host" where
  "fs_remove_file p =
     host_call (\<lambda>h.
       case lookup_node p h of
         None \<Rightarrow> (Err Io_NotFound, h)
       | Some n \<Rightarrow>
           if nd_kind n = Node_Dir then (Err Io_Other, h)
           else (Ok (), h\<lparr>h_names := (h_names h)(p := None)\<rparr>))"

text \<open>The clocks, and the check of a control against the flags and the monotonic clock.\<close>

definition host_instant :: "host \<Rightarrow> nat \<times> host" where
  "host_instant h = (let h1 = snd (tick h) in (h_instant h1, h1))"

definition host_check ::
  "io_control \<Rightarrow> remote_operation \<Rightarrow> host \<Rightarrow> (remote_error, unit) result \<times> host" where
  "host_check c op h =
     (let h1 = snd (tick h) in (control_check (h_cells h1) (h_instant h1) c op, h1))"

definition quiet :: "host \<Rightarrow> bool" where
  "quiet h = (h_script h = [])"

section \<open>Lemmas\<close>

lemma quiet_tick [simp]: "quiet h \<Longrightarrow> tick h = (None, h)"
  by (simp add: quiet_def tick_def)

lemma quiet_call [simp]: "quiet h \<Longrightarrow> host_call f h = f h"
  by (simp add: host_call_def)

lemma quiet_updates [simp]:
  "quiet (link_new p n h) = quiet h" "quiet (update_node i n h) = quiet h"
  "quiet (h\<lparr>h_names := names\<rparr>) = quiet h"
  by (simp_all add: quiet_def link_new_def update_node_def)

lemma quiet_check: "quiet h \<Longrightarrow> host_check c op h = (control_check (h_cells h) (h_instant h) c op, h)"
  by (simp add: host_check_def)

lemma write_at_end: "write_at (length c) bs c = c @ bs"
  by (simp add: write_at_def)

text \<open>Every name points to an inode that exists.\<close>

definition host_ok :: "host \<Rightarrow> bool" where
  "host_ok h = (\<forall>p i. h_names h p = Some i \<longrightarrow> i < length (h_nodes h))"

lemma host_ok_updates:
  "host_ok h \<Longrightarrow> host_ok (link_new p n h)" "host_ok h \<Longrightarrow> host_ok (update_node i n h)"
  "host_ok h \<Longrightarrow> host_ok (h\<lparr>h_names := (h_names h)(p := None)\<rparr>)"
  "host_ok h \<Longrightarrow> lookup_inode q h = Some i \<Longrightarrow> host_ok (h\<lparr>h_names := (h_names h)(p := None, r \<mapsto> i)\<rparr>)"
  by (auto simp: host_ok_def link_new_def update_node_def lookup_inode_def less_SucI
      split: if_splits bind_splits)

lemma lookup_inode_ok: "host_ok h \<Longrightarrow> lookup_inode p h = h_names h p"
  by (cases "h_names h p") (auto simp: host_ok_def lookup_inode_def)

lemma lookup_link_new:
  "host_ok h \<Longrightarrow> lookup_node q (link_new p n h) = (if q = p then Some n else lookup_node q h)"
  by (cases "h_names h q")
     (auto simp: lookup_node_def lookup_inode_def link_new_def nth_append host_ok_def less_Suc_eq)

lemma path_parent_join:
  "path_parent p = Some q \<Longrightarrow> path_parent (path_join q name) = Some q"
  by (auto simp: path_parent_def path_join_def split: if_splits)

end
