(* ===== verification/Local_Owner.thy ===== *)
theory Local_Owner
  imports Host Transfer_Model
begin

text \<open>
  The local side of a transfer (crates/transfers/src/executor.rs): \<open>LocalHandleOwner\<close> maps the
  opaque handles of the client to paths, checks what it opens, and writes a download into a staged
  file next to its destination that a rename puts in place. The text form of a uuid is the
  parameter \<open>uuid_text\<close>. The two mutexes can be poisoned; nothing here poisons them.
\<close>

section \<open>Errors\<close>

definition mk_error ::
  "remote_error_kind \<Rightarrow> remote_operation \<Rightarrow> string \<Rightarrow> retry_disposition \<Rightarrow> remote_error" where
  "mk_error kind op reason retry =
     \<lparr>re_kind = kind, re_operation = op, re_reason = SafeReason reason, re_retry = retry\<rparr>"

definition err_invalid :: "remote_operation \<Rightarrow> string \<Rightarrow> remote_error" where
  "err_invalid op reason = mk_error Ek_InvalidInput op reason Retry_Never"

definition err_unsupported :: "remote_operation \<Rightarrow> string \<Rightarrow> remote_error" where
  "err_unsupported op reason = mk_error Ek_Unsupported op reason Retry_Never"

definition protocol_error :: "remote_operation \<Rightarrow> string \<Rightarrow> remote_error" where
  "protocol_error op reason = mk_error Ek_RemoteProtocol op reason Retry_Never"

definition io_error :: "remote_operation \<Rightarrow> string \<Rightarrow> remote_error" where
  "io_error op reason = mk_error Ek_Transport op reason Retry_Backoff"

definition owner_poisoned :: "remote_operation \<Rightarrow> remote_error" where
  "owner_poisoned op = io_error op ''local_handle_owner_poisoned''"

definition stat_error :: remote_error where
  "stat_error = io_error Op_Stat ''local_file_stat_failed''"

definition missing_write_handle :: remote_error where
  "missing_write_handle =
     mk_error Ek_NotFound Op_Write ''local_write_handle_not_found'' Retry_Never"

section \<open>State\<close>

datatype local_handle_access = ReadSource | StagedDestination

datatype local_write_handle = LocalWriteHandle uuid

definition write_handle_from_local :: "local_file_handle \<Rightarrow> local_write_handle" where
  "write_handle_from_local h = LocalWriteHandle (local_handle_uuid h)"

record local_read_chunk =
  lc_offset :: u64
  lc_bytes :: bytes
  lc_eof :: bool
  lc_identity :: object_identity

record local_write_receipt =
  lr_handle :: local_write_handle
  lr_next_offset :: u64
  lr_identity :: "object_identity option"

record local_binding =
  lb_path :: path
  lb_access :: local_handle_access

record staged_write =
  sw_staged_path :: path
  sw_final_path :: path
  sw_conflict_policy :: conflict_policy

record local_owner =
  lo_bindings :: "local_file_handle \<Rightarrow> local_binding option"
  lo_bindings_poisoned :: bool
  lo_staged :: "local_write_handle \<Rightarrow> staged_write option"
  lo_staged_poisoned :: bool
  lo_uid :: u32

definition owner_new :: "u32 \<Rightarrow> local_owner" where
  "owner_new uid =
     \<lparr>lo_bindings = (\<lambda>_. None), lo_bindings_poisoned = False, lo_staged = (\<lambda>_. None),
      lo_staged_poisoned = False, lo_uid = uid\<rparr>"

text \<open>An operation runs on the owner and the host; results compose with the question mark.\<close>

type_synonym 'a local_io = "local_owner \<times> host \<Rightarrow> (remote_error, 'a) result \<times> (local_owner \<times> host)"

definition lo_return :: "'a \<Rightarrow> 'a local_io" where
  "lo_return x w = (Ok x, w)"

definition lo_fail :: "remote_error \<Rightarrow> 'a local_io" where
  "lo_fail e w = (Err e, w)"

definition lo_bind :: "'a local_io \<Rightarrow> ('a \<Rightarrow> 'b local_io) \<Rightarrow> 'b local_io" where
  "lo_bind m f w = (case m w of (Err e, w1) \<Rightarrow> (Err e, w1) | (Ok x, w1) \<Rightarrow> f x w1)"

text \<open>A call on the host with its error mapped, and a computation on the owner alone.\<close>

definition lo_host :: "(io_kind \<Rightarrow> remote_error) \<Rightarrow> (host \<Rightarrow> (io_kind, 'a) result \<times> host) \<Rightarrow> 'a local_io" where
  "lo_host g call w = (case call (snd w) of (r, h) \<Rightarrow> (map_err g r, (fst w, h)))"

definition lo_check :: "io_control \<Rightarrow> remote_operation \<Rightarrow> unit local_io" where
  "lo_check c op w = (case host_check c op (snd w) of (r, h) \<Rightarrow> (r, (fst w, h)))"

definition lo_owner :: "(local_owner \<Rightarrow> (remote_error, 'a) result) \<Rightarrow> 'a local_io" where
  "lo_owner f w = (f (fst w), w)"

definition lo_modify :: "(local_owner \<Rightarrow> local_owner) \<Rightarrow> unit local_io" where
  "lo_modify f w = (Ok (), (f (fst w), snd w))"

section \<open>Files\<close>

definition identity_of :: "metadata \<Rightarrow> object_identity" where
  "identity_of md =
     \<lparr>oi_size_bytes = Some (md_len md),
      oi_modified_at_unix_ms =
        Option.bind (md_modified md) (\<lambda>v. if 0 \<le> v \<and> v \<le> i64_max then Some v else None),
      oi_etag = None\<rparr>"

definition ensure_identity ::
  "object_identity option \<Rightarrow> object_identity option \<Rightarrow> remote_operation \<Rightarrow>
   (remote_error, unit) result" where
  "ensure_identity expected actual op =
     (case expected of
        None \<Rightarrow> Ok ()
      | Some e \<Rightarrow>
          if is_some_and actual (\<lambda>a.
               is_none_or (oi_size_bytes e) (\<lambda>v. oi_size_bytes a = Some v) \<and>
               is_none_or (oi_modified_at_unix_ms e) (\<lambda>v. oi_modified_at_unix_ms a = Some v) \<and>
               is_none_or (oi_etag e) (\<lambda>v. oi_etag a = Some v))
          then Ok ()
          else Err (mk_error Ek_Conflict op ''transfer_object_identity_changed'' Retry_UserAction))"

definition open_file_error :: "bool \<Rightarrow> remote_operation \<Rightarrow> io_kind \<Rightarrow> remote_error" where
  "open_file_error write op k =
     (if \<not> write \<and> k = Io_PermissionDenied
      then mk_error Ek_PermissionDenied op ''local_file_permission_denied'' Retry_UserAction
      else io_error op (if write then ''local_staged_open_failed'' else ''local_source_open_failed''))"

definition open_file ::
  "path \<Rightarrow> bool \<Rightarrow> bool \<Rightarrow> bool \<Rightarrow> remote_operation \<Rightarrow> nat local_io" where
  "open_file p write create trunc op =
     lo_host (open_file_error write op) (fs_open p write create trunc)"

definition not_found_error :: "remote_operation \<Rightarrow> remote_error" where
  "not_found_error op = mk_error Ek_NotFound op ''local_file_not_found'' Retry_UserAction"

definition unsafe_file_error :: "remote_operation \<Rightarrow> remote_error" where
  "unsafe_file_error op = mk_error Ek_PermissionDenied op ''local_file_unsafe'' Retry_Never"

definition validate_owned_file ::
  "path \<Rightarrow> u32 \<Rightarrow> remote_operation \<Rightarrow> object_identity local_io" where
  "validate_owned_file p uid op =
     (if \<not> p_absolute p then lo_fail (err_invalid op ''local_owner_path_must_be_absolute'')
      else lo_bind (lo_host (\<lambda>_. not_found_error op) (fs_symlink_metadata p)) (\<lambda>md.
        if md_kind md \<noteq> Node_File \<or> md_uid md \<noteq> uid then lo_fail (unsafe_file_error op)
        else lo_return (identity_of md)))"

definition open_source_file ::
  "path \<Rightarrow> remote_operation \<Rightarrow> (nat \<times> object_identity) local_io" where
  "open_source_file p op =
     (if \<not> p_absolute p then lo_fail (err_invalid op ''local_owner_path_must_be_absolute'')
      else lo_bind (lo_host (\<lambda>_. not_found_error op) (fs_symlink_metadata p)) (\<lambda>path_md.
        if md_kind path_md \<noteq> Node_File then lo_fail (unsafe_file_error op)
        else lo_bind (open_file p False False False op) (\<lambda>file.
          lo_bind (lo_host (\<lambda>_. io_error op ''local_source_metadata_failed'') (fd_metadata file)) (\<lambda>md.
          if md_kind md \<noteq> Node_File then lo_fail (unsafe_file_error op)
          else lo_return (file, identity_of md)))))"

definition lo_exists :: "path \<Rightarrow> bool local_io" where
  "lo_exists p w = (case path_exists p (snd w) of (b, h) \<Rightarrow> (Ok b, (fst w, h)))"

definition validate_destination :: "path \<Rightarrow> u32 \<Rightarrow> unit local_io" where
  "validate_destination p uid =
     (if \<not> p_absolute p then lo_fail (err_invalid Op_Write ''local_owner_path_must_be_absolute'')
      else case path_parent p of
        None \<Rightarrow> lo_fail (err_invalid Op_Write ''local_destination_parent_invalid'')
      | Some parent \<Rightarrow>
          lo_bind (lo_host (\<lambda>_. stat_error) (fs_symlink_metadata parent)) (\<lambda>md.
          if md_kind md \<noteq> Node_Dir \<or> md_uid md \<noteq> uid
          then lo_fail (mk_error Ek_PermissionDenied Op_Write ''local_destination_parent_unsafe'' Retry_Never)
          else lo_bind (lo_exists p) (\<lambda>there.
            if there then lo_bind (validate_owned_file p uid Op_Write) (\<lambda>_. lo_return ())
            else lo_return ())))"

text \<open>\<open>optional_identity\<close> looks twice: a name that is there is then validated.\<close>

definition optional_identity ::
  "path \<Rightarrow> u32 \<Rightarrow> remote_operation \<Rightarrow> object_identity option local_io" where
  "optional_identity p uid op w =
     (case fs_symlink_metadata p (snd w) of
        (Ok _, h) \<Rightarrow>
          lo_bind (validate_owned_file p uid op) (\<lambda>i. lo_return (Some i)) (fst w, h)
      | (Err k, h) \<Rightarrow> (if k = Io_NotFound then Ok None else Err stat_error, (fst w, h)))"

definition staged_path :: "(uuid \<Rightarrow> string) \<Rightarrow> path \<Rightarrow> local_file_handle \<Rightarrow> (remote_error, path) result" where
  "staged_path uuid_text p handle =
     and_then (ok_or (path_parent p) stat_error) (\<lambda>parent.
     Ok (path_join parent
           (''.localdesk-transfer-'' @ uuid_text (local_handle_uuid handle) @ ''.part'')))"

definition renamed_path :: "(uuid \<Rightarrow> string) \<Rightarrow> path \<Rightarrow> local_file_handle \<Rightarrow> path" where
  "renamed_path uuid_text p handle =
     (let name = (case path_file_name p of
                    Some n \<Rightarrow> if valid_utf8 n then n else ''download''
                  | None \<Rightarrow> ''download'')
      in path_with_file_name p (name @ ''.localdesk-'' @ uuid_text (local_handle_uuid handle)))"

section \<open>Binding handles\<close>

definition owner_bind ::
  "local_file_handle \<Rightarrow> path \<Rightarrow> local_handle_access \<Rightarrow> unit local_io" where
  "owner_bind handle p access =
     (if \<not> p_absolute p
      then lo_fail (mk_error Ek_InvalidInput Op_Stat ''local_owner_path_must_be_absolute'' Retry_Never)
      else lo_bind (lo_owner (\<lambda>o1.
          if lo_bindings_poisoned o1 then Err (owner_poisoned Op_Stat)
          else if lo_bindings o1 handle \<noteq> None
          then Err (mk_error Ek_Conflict Op_Stat ''local_handle_already_bound'' Retry_UserAction)
          else Ok ())) (\<lambda>_.
        lo_modify (\<lambda>o1. o1\<lparr>lo_bindings :=
          (lo_bindings o1)(handle \<mapsto> \<lparr>lb_path = p, lb_access = access\<rparr>)\<rparr>)))"

definition bind_source :: "local_file_handle \<Rightarrow> path \<Rightarrow> unit local_io" where
  "bind_source handle p =
     lo_bind (open_source_file p Op_Read) (\<lambda>_. owner_bind handle p ReadSource)"

definition bind_destination :: "local_file_handle \<Rightarrow> path \<Rightarrow> unit local_io" where
  "bind_destination handle p w =
     lo_bind (validate_destination p (lo_uid (fst w))) (\<lambda>_. owner_bind handle p StagedDestination) w"

definition owner_unbind :: "local_file_handle \<Rightarrow> bool local_io" where
  "owner_unbind handle =
     lo_bind (lo_owner (\<lambda>o1. if lo_bindings_poisoned o1 then Err (owner_poisoned Op_Disconnect)
                            else Ok (lo_bindings o1 handle \<noteq> None))) (\<lambda>present.
     lo_bind (lo_modify (\<lambda>o1. o1\<lparr>lo_bindings := (lo_bindings o1)(handle := None)\<rparr>)) (\<lambda>_.
     lo_return present))"

definition owner_path ::
  "local_file_handle \<Rightarrow> local_handle_access \<Rightarrow> remote_operation \<Rightarrow> local_owner \<Rightarrow>
   (remote_error, path) result" where
  "owner_path handle access op o1 =
     (if lo_bindings_poisoned o1 then Err (owner_poisoned op)
      else case lo_bindings o1 handle of
        None \<Rightarrow> Err (mk_error Ek_NotFound op ''local_handle_not_bound'' Retry_UserAction)
      | Some b \<Rightarrow>
          if lb_access b \<noteq> access
          then Err (mk_error Ek_PermissionDenied op ''local_handle_access_mismatch'' Retry_Never)
          else Ok (lb_path b))"

definition validate_handle ::
  "local_file_handle \<Rightarrow> local_handle_access \<Rightarrow> local_owner \<Rightarrow> (remote_error, unit) result" where
  "validate_handle handle access o1 =
     (let op = (case access of ReadSource \<Rightarrow> Op_Read | StagedDestination \<Rightarrow> Op_Write)
      in and_then (owner_path handle access op o1) (\<lambda>_. Ok ()))"

section \<open>Reading the source\<close>

definition source_identity :: "local_file_handle \<Rightarrow> io_control \<Rightarrow> object_identity local_io" where
  "source_identity handle control =
     lo_bind (lo_check control Op_Stat) (\<lambda>_.
     lo_bind (lo_owner (owner_path handle ReadSource Op_Stat)) (\<lambda>p.
     lo_bind (open_source_file p Op_Stat) (\<lambda>(_, identity). lo_return identity)))"

definition local_read_chunk_op ::
  "local_file_handle \<Rightarrow> u64 \<Rightarrow> u32 \<Rightarrow> object_identity option \<Rightarrow> io_control \<Rightarrow> local_read_chunk local_io" where
  "local_read_chunk_op handle offset max_bytes expected control =
     lo_bind (lo_check control Op_Read) (\<lambda>_.
     if max_bytes = 0 \<or> unat max_bytes > MAX_REMOTE_CHUNK_BYTES
     then lo_fail (err_invalid Op_Read ''local_read_chunk_unbounded'')
     else
     lo_bind (lo_owner (owner_path handle ReadSource Op_Read)) (\<lambda>p.
     lo_bind (open_source_file p Op_Read) (\<lambda>(file, identity).
     lo_bind (lo_owner (\<lambda>_. ensure_identity expected (Some identity) Op_Read)) (\<lambda>_.
     lo_bind (lo_host (\<lambda>_. io_error Op_Read ''local_source_seek_failed'') (fd_seek offset)) (\<lambda>_.
     lo_bind (lo_host (\<lambda>_. io_error Op_Read ''local_source_read_failed'')
       (fd_read file offset (unat max_bytes))) (\<lambda>bytes.
     lo_bind (lo_check control Op_Read) (\<lambda>_.
     let next = saturating_add offset (of_nat (length bytes))
     in lo_return \<lparr>lc_offset = offset, lc_bytes = bytes,
          lc_eof = is_some_and (oi_size_bytes identity) (\<lambda>size. next \<ge> size),
          lc_identity = identity\<rparr>)))))))"

section \<open>The staged write\<close>

definition choose_final_path ::
  "(uuid \<Rightarrow> string) \<Rightarrow> local_file_handle \<Rightarrow> path \<Rightarrow> object_identity option \<Rightarrow> conflict_policy \<Rightarrow>
   (remote_error, path) result" where
  "choose_final_path uuid_text handle bound current policy =
     (if current \<noteq> None
      then (case policy of
              Policy_Fail \<Rightarrow>
                Err (mk_error Ek_Conflict Op_Write ''local_destination_exists'' Retry_UserAction)
            | Policy_Rename \<Rightarrow> Ok (renamed_path uuid_text bound handle)
            | Policy_Overwrite \<Rightarrow> Ok bound
            | Policy_Resume \<Rightarrow> Ok bound)
      else Ok bound)"

definition register_staged :: "local_write_handle \<Rightarrow> staged_write \<Rightarrow> unit local_io" where
  "register_staged handle staged =
     lo_bind (lo_owner (\<lambda>o1. if lo_staged_poisoned o1 then Err (owner_poisoned Op_Write) else Ok ())) (\<lambda>_.
     lo_modify (\<lambda>o1. o1\<lparr>lo_staged := (lo_staged o1)(handle \<mapsto> staged)\<rparr>))"

definition begin_staged_write ::
  "(uuid \<Rightarrow> string) \<Rightarrow> local_file_handle \<Rightarrow> u64 option \<Rightarrow> u64 option \<Rightarrow> object_identity option \<Rightarrow>
   conflict_policy \<Rightarrow> io_control \<Rightarrow> local_write_receipt local_io" where
  "begin_staged_write uuid_text handle exp_size resume_from expected_destination policy control w =
     (let uid = lo_uid (fst w) in
     lo_bind (lo_check control Op_Write) (\<lambda>_.
     lo_bind (lo_owner (owner_path handle StagedDestination Op_Write)) (\<lambda>bound.
     lo_bind (validate_destination bound uid) (\<lambda>_.
     lo_bind (optional_identity bound uid Op_Write) (\<lambda>current.
     lo_bind (lo_owner (\<lambda>_. ensure_identity expected_destination current Op_Write)) (\<lambda>_.
     lo_bind (lo_owner (\<lambda>_. choose_final_path uuid_text handle bound current policy)) (\<lambda>final_path.
     lo_bind (lo_owner (\<lambda>_. staged_path uuid_text final_path handle)) (\<lambda>staged.
     let offset = (case resume_from of Some n \<Rightarrow> n | None \<Rightarrow> 0)
     in if is_some_and exp_size (\<lambda>size. offset > size)
        then lo_fail (mk_error Ek_Conflict Op_Resume ''local_resume_offset_exceeds_size'' Retry_UserAction)
        else
     lo_bind (open_file staged True True (resume_from = None) Op_Write) (\<lambda>file.
     lo_bind
       (if resume_from \<noteq> None
        then lo_bind (lo_host (\<lambda>_. stat_error) (fd_metadata file)) (\<lambda>md.
               if md_len md \<noteq> offset
               then lo_fail (mk_error Ek_Conflict Op_Resume ''local_partial_size_changed'' Retry_UserAction)
               else lo_return ())
        else lo_return ()) (\<lambda>_.
     let write_handle = write_handle_from_local handle
     in
     lo_bind (register_staged write_handle
       \<lparr>sw_staged_path = staged, sw_final_path = final_path, sw_conflict_policy = policy\<rparr>) (\<lambda>_.
     lo_return \<lparr>lr_handle = write_handle, lr_next_offset = offset, lr_identity = current\<rparr>)))))))))) w)"

definition find_staged :: "local_write_handle \<Rightarrow> local_owner \<Rightarrow> (remote_error, staged_write) result" where
  "find_staged handle o1 =
     (if lo_staged_poisoned o1 then Err (owner_poisoned Op_Write)
      else ok_or (lo_staged o1 handle) missing_write_handle)"

definition local_write_chunk ::
  "local_write_handle \<Rightarrow> u64 \<Rightarrow> bytes \<Rightarrow> io_control \<Rightarrow> local_write_receipt local_io" where
  "local_write_chunk handle offset bytes control =
     lo_bind (lo_check control Op_Write) (\<lambda>_.
     if bytes = [] \<or> length bytes > MAX_REMOTE_CHUNK_BYTES
     then lo_fail (err_invalid Op_Write ''local_write_chunk_invalid_size'')
     else
     lo_bind (lo_owner (find_staged handle)) (\<lambda>staged.
     lo_bind (open_file (sw_staged_path staged) True False False Op_Write) (\<lambda>file.
     lo_bind (lo_host (\<lambda>_. stat_error) (fd_metadata file)) (\<lambda>md.
     if md_len md \<noteq> offset
     then lo_fail (mk_error Ek_Conflict Op_Write ''local_write_offset_mismatch'' Retry_UserAction)
     else
     lo_bind (lo_host (\<lambda>_. io_error Op_Write ''local_staged_write_failed'') (fd_seek offset)) (\<lambda>_.
     lo_bind (lo_host (\<lambda>_. io_error Op_Write ''local_staged_write_failed'')
       (fd_write_all file offset bytes)) (\<lambda>_.
     lo_bind (lo_host (\<lambda>_. io_error Op_Write ''local_staged_write_failed'') (fd_sync_data file)) (\<lambda>_.
     lo_bind (lo_check control Op_Write) (\<lambda>_.
     lo_return \<lparr>lr_handle = handle,
       lr_next_offset = saturating_add offset (of_nat (length bytes)), lr_identity = None\<rparr>))))))))"

definition commit_staged_write ::
  "local_write_handle \<Rightarrow> u64 option \<Rightarrow> io_control \<Rightarrow> object_identity local_io" where
  "commit_staged_write handle exp_size control w =
     (let uid = lo_uid (fst w) in
     lo_bind (lo_check control Op_Write) (\<lambda>_.
     lo_bind (lo_owner (find_staged handle)) (\<lambda>staged.
     lo_bind (lo_host (\<lambda>_. stat_error) (fs_symlink_metadata (sw_staged_path staged))) (\<lambda>md.
     if is_some_and exp_size (\<lambda>expected. md_len md \<noteq> expected)
     then lo_fail (mk_error Ek_Conflict Op_Write ''local_staged_size_mismatch'' Retry_UserAction)
     else
     lo_bind
       (if sw_conflict_policy staged = Policy_Fail
        then lo_host (\<lambda>_. mk_error Ek_Conflict Op_Write ''local_destination_changed_before_commit''
                            Retry_UserAction)
               (fs_rename True (sw_staged_path staged) (sw_final_path staged))
        else lo_host (\<lambda>_. io_error Op_Write ''local_staged_commit_failed'')
               (fs_rename False (sw_staged_path staged) (sw_final_path staged))) (\<lambda>_.
     lo_bind (lo_check control Op_Write) (\<lambda>_.
     lo_bind (lo_owner (\<lambda>o1. if lo_staged_poisoned o1 then Err (owner_poisoned Op_Write) else Ok ())) (\<lambda>_.
     lo_bind (lo_modify (\<lambda>o1. o1\<lparr>lo_staged := (lo_staged o1)(handle := None)\<rparr>)) (\<lambda>_.
     validate_owned_file (sw_final_path staged) uid Op_Write))))))) w)"

definition abort_staged_write :: "local_write_handle \<Rightarrow> io_control \<Rightarrow> unit local_io" where
  "abort_staged_write handle control =
     lo_bind (lo_check control Op_Write) (\<lambda>_.
     lo_bind (lo_owner (\<lambda>o1. if lo_staged_poisoned o1 then Err (owner_poisoned Op_Write)
                            else Ok (lo_staged o1 handle))) (\<lambda>found.
     lo_bind (lo_modify (\<lambda>o1. o1\<lparr>lo_staged := (lo_staged o1)(handle := None)\<rparr>)) (\<lambda>_.
     case found of
       None \<Rightarrow> lo_return ()
     | Some staged \<Rightarrow>
         (\<lambda>w. case fs_remove_file (sw_staged_path staged) (snd w) of
                (Ok _, h) \<Rightarrow> (Ok (), (fst w, h))
              | (Err k, h) \<Rightarrow>
                  (if k = Io_NotFound then Ok ()
                   else Err (io_error Op_Write ''local_staged_abort_failed''), (fst w, h))))))"

end
