(* ===== verification/Transfer_Executor.thy ===== *)
theory Transfer_Executor
  imports Transfer_Queue Local_Owner
begin

text \<open>
  crates/transfers/src/executor.rs: the executor. It serves the public requests on the queue, takes
  the next task, opens a remote session, copies chunks in either direction with progress written
  through the queue, and turns a failure into the next state of the task. The remote session is
  outside this crate: its calls are parameters, and each of them may change the whole executor,
  since it is where other tasks and requests get to run. The local calls run on the \<open>host\<close>.
  A panic while the queue is locked poisons its mutex.
\<close>

section \<open>Limits\<close>

record executor_limits =
  el_max_concurrent :: nat
  el_chunk_bytes :: u32
  el_operation_timeout :: nat
  el_total_timeout :: nat

datatype executor_limits_error = El_InvalidConcurrency | El_InvalidChunkSize | El_InvalidTimeout

definition SECOND :: nat where "SECOND = 1000000000"
definition MAX_OPERATION_TIMEOUT :: nat where "MAX_OPERATION_TIMEOUT = 5 * 60 * SECOND"
definition MAX_TOTAL_TIMEOUT :: nat where "MAX_TOTAL_TIMEOUT = 24 * 60 * 60 * SECOND"
definition DEFAULT_TRANSFER_CHUNK_BYTES :: u32 where "DEFAULT_TRANSFER_CHUNK_BYTES = 256 * 1024"
definition DEFAULT_EXECUTOR_CONCURRENCY :: nat where "DEFAULT_EXECUTOR_CONCURRENCY = 4"

definition executor_limits_new ::
  "nat \<Rightarrow> u32 \<Rightarrow> nat \<Rightarrow> nat \<Rightarrow> (executor_limits_error, executor_limits) result" where
  "executor_limits_new max_concurrent chunk_bytes operation_timeout total_timeout =
     (if max_concurrent = 0 \<or> max_concurrent > MAX_CONCURRENT_TRANSFERS then Err El_InvalidConcurrency
      else if chunk_bytes = 0 \<or> unat chunk_bytes > MAX_REMOTE_CHUNK_BYTES then Err El_InvalidChunkSize
      else if operation_timeout = 0 \<or> operation_timeout > MAX_OPERATION_TIMEOUT
              \<or> total_timeout < operation_timeout \<or> total_timeout > MAX_TOTAL_TIMEOUT
      then Err El_InvalidTimeout
      else Ok \<lparr>el_max_concurrent = max_concurrent, el_chunk_bytes = chunk_bytes,
               el_operation_timeout = operation_timeout, el_total_timeout = total_timeout\<rparr>)"

definition executor_limits_default :: executor_limits where
  "executor_limits_default =
     \<lparr>el_max_concurrent = DEFAULT_EXECUTOR_CONCURRENCY,
      el_chunk_bytes = DEFAULT_TRANSFER_CHUNK_BYTES,
      el_operation_timeout = 30 * SECOND, el_total_timeout = 60 * 60 * SECOND\<rparr>"

section \<open>State and parameters\<close>

datatype executor_error =
    X_QueuePoisoned | X_TaskDisappeared | X_ExecutorClosed | X_WorkerFailed | X_PauseUnsupported
  | X_Queue queue_error
  | X_Remote remote_error
  | X_Panicked

record ('s, 'r) exec =
  x_queue :: "'s transfer_queue"
  x_poisoned :: bool
  x_owner :: local_owner
  x_host :: host
  x_active :: "(transfer_id \<times> io_control) list"
  x_closed :: bool
  x_remote :: 'r

text \<open>What \<open>RemoteFileSession::snapshot\<close> and \<open>io_control_support\<close> say of an open session.\<close>

record session_info =
  si_profile_id :: profile_id
  si_protocol :: remote_protocol
  si_capabilities :: capability_matrix
  si_io_support :: io_control_support

type_synonym ('s, 'r, 'a) remote_call =
  "io_control \<Rightarrow> ('s, 'r) exec \<Rightarrow> (remote_error, 'a) result \<times> ('s, 'r) exec"

record ('s, 'r) exec_env =
  xe_store :: "'s store_ops"
  xe_json :: "transfer_task \<Rightarrow> bytes option"
  xe_uuid_text :: "uuid \<Rightarrow> string"
  xe_limits :: executor_limits
  xe_throttle_ns :: "u64 \<Rightarrow> u64 \<Rightarrow> nat"
  xe_sleep :: "nat \<Rightarrow> ('s, 'r) exec \<Rightarrow> ('s, 'r) exec"
  xe_factory_support :: "remote_transfer_endpoint \<Rightarrow> io_control_support"
  xe_open :: "remote_transfer_endpoint \<Rightarrow> ('s, 'r, session_info) remote_call"
  xe_disconnect :: "('s, 'r, unit) remote_call"
  xe_begin_write :: "begin_write_request \<Rightarrow> ('s, 'r, remote_write_receipt) remote_call"
  xe_write_chunk :: "remote_write_handle \<Rightarrow> u64 \<Rightarrow> bytes \<Rightarrow> ('s, 'r, remote_write_receipt) remote_call"
  xe_commit_write :: "remote_write_handle \<Rightarrow> object_identity option \<Rightarrow> ('s, 'r, remote_entry) remote_call"
  xe_abort_write :: "remote_write_handle \<Rightarrow> ('s, 'r, unit) remote_call"
  xe_read_chunk :: "remote_read_request \<Rightarrow> ('s, 'r, remote_read_chunk) remote_call"

text \<open>\<open>xe_throttle_ns\<close> is \<open>Duration::from_secs_f64\<close> of the quotient of two floats, in nanoseconds;
  \<open>xe_sleep\<close> is the sleep of the asynchronous runtime, during which others run.\<close>

text \<open>\<open>unix_time_ms\<close>: a clock before the epoch or beyond \<open>i64\<close> reads as \<open>i64::MAX\<close>.\<close>

definition unix_time_ms :: "('s, 'r) exec \<Rightarrow> i64 \<times> ('s, 'r) exec" where
  "unix_time_ms x =
     (let h = snd (tick (x_host x)); t = h_clock h
      in (if 0 \<le> t \<and> t \<le> i64_max then t else i64_max, x\<lparr>x_host := h\<rparr>))"

text \<open>Work under the lock of the queue.\<close>

definition with_queue ::
  "('s transfer_queue \<Rightarrow> (queue_error, 'a) result \<times> 's transfer_queue) \<Rightarrow> ('s, 'r) exec \<Rightarrow>
   (executor_error, 'a) result \<times> ('s, 'r) exec" where
  "with_queue f x =
     (if x_poisoned x then (Err X_QueuePoisoned, x)
      else case f (x_queue x) of
        (Ok v, q) \<Rightarrow> (Ok v, x\<lparr>x_queue := q\<rparr>)
      | (Err e, q) \<Rightarrow>
          if e = Q_Panicked then (Err X_Panicked, x\<lparr>x_queue := q, x_poisoned := True\<rparr>)
          else (Err (X_Queue e), x\<lparr>x_queue := q\<rparr>))"

section \<open>Endpoints and checks\<close>

text \<open>Both accessors panic on a task without the endpoint they look for: None.\<close>

definition remote_endpoint :: "transfer_task \<Rightarrow> remote_transfer_endpoint option" where
  "remote_endpoint t = opt_or (endpoint_remote (task_source t)) (endpoint_remote (task_destination t))"

definition local_handle :: "transfer_task \<Rightarrow> local_file_handle option" where
  "local_handle t =
     (case task_source t of
        Ep_Local h \<Rightarrow> Some h
      | Ep_Remote _ \<Rightarrow> (case task_destination t of Ep_Local h \<Rightarrow> Some h | Ep_Remote _ \<Rightarrow> None))"

definition ensure_transfer_protocol :: "remote_protocol \<Rightarrow> (remote_error, unit) result" where
  "ensure_transfer_protocol p =
     (if p = Proto_Ssh then Err (err_unsupported Op_Connect ''ssh_terminal_only'') else Ok ())"

definition require_capability ::
  "capability_matrix \<Rightarrow> file_operation \<Rightarrow> (remote_error, unit) result option" where
  "require_capability caps op =
     map_option
       (\<lambda>status. case status of
          Cap_Supported \<Rightarrow> Ok ()
        | Cap_Unsupported reason \<Rightarrow>
            Err \<lparr>re_kind = Ek_Unsupported,
                 re_operation = (case op of
                    File_Read \<Rightarrow> Op_Read
                  | File_Write \<Rightarrow> Op_Write
                  | File_ResumeRead \<Rightarrow> Op_Resume
                  | File_ResumeWrite \<Rightarrow> Op_Resume
                  | _ \<Rightarrow> Op_Connect),
                 re_reason = reason, re_retry = Retry_Never\<rparr>)
       (matrix_status caps op)"

definition upload_final_path ::
  "(uuid \<Rightarrow> string) \<Rightarrow> transfer_task \<Rightarrow> remote_path \<Rightarrow> (remote_error, remote_path) result" where
  "upload_final_path uuid_text t p =
     (if task_conflict_policy t = Policy_Rename
      then map_err (\<lambda>_. err_invalid Op_Write ''transfer_renamed_path_invalid'')
             (remote_path_new (path_str p @ ''.localdesk-'' @ uuid_text (transfer_uuid (task_id t))))
      else Ok p)"

definition task_checkpoint :: "transfer_task \<Rightarrow> i64 \<Rightarrow> transfer_checkpoint" where
  "task_checkpoint t now =
     \<lparr>cp_offset = pg_bytes_transferred (task_progress t),
      cp_source_identity = task_expected_source t,
      cp_destination_identity = task_expected_destination t,
      cp_verification =
        (case fs_resume_validation (task_features t) of
           Some Rv_RemoteIdentity \<Rightarrow> Vl_RemoteIdentity
         | Some Rv_SizeOnly \<Rightarrow> Vl_Size
         | None \<Rightarrow> Vl_Unverified),
      cp_verified_at_unix_ms = now\<rparr>"

definition ensure_final_size ::
  "u64 \<Rightarrow> u64 option \<Rightarrow> remote_operation \<Rightarrow> (remote_error, unit) result" where
  "ensure_final_size transferred expected op =
     (if is_some_and expected (\<lambda>v. v \<noteq> transferred)
      then Err (mk_error Ek_Conflict op ''transfer_source_size_changed'' Retry_UserAction)
      else Ok ())"

definition queue_unavailable :: remote_error where
  "queue_unavailable = io_error Op_Write ''transfer_queue_unavailable''"

text \<open>\<open>map_queue_error\<close>, on what \<open>with_queue\<close> returns: a poisoned lock and every queue error but a
  stale token become the same transport error.\<close>

definition map_queue_error :: "executor_error \<Rightarrow> remote_error" where
  "map_queue_error e =
     (if e = X_Queue (Q_Mutation Me_StaleRunToken)
      then mk_error Ek_Cancelled Op_Write ''transfer_run_token_stale'' Retry_Never
      else queue_unavailable)"

section \<open>Public requests\<close>

definition ensure_open :: "('s, 'r) exec \<Rightarrow> (executor_error, unit) result" where
  "ensure_open x = (if x_closed x then Err X_ExecutorClosed else Ok ())"

definition contract_error :: "transfer_public_error \<Rightarrow> executor_error" where
  "contract_error e = X_Queue (Q_InvalidPublicContract e)"

definition enqueue_public ::
  "('s, 'r) exec_env \<Rightarrow> transfer_task \<Rightarrow> ('s, 'r) exec \<Rightarrow>
   (executor_error, transfer_task) result \<times> ('s, 'r) exec" where
  "enqueue_public env t x =
     (case and_then (ensure_open x) (\<lambda>_.
           and_then (map_err contract_error (validate_public (xe_json env) t)) (\<lambda>_.
           let access = (case task_direction t of Upload \<Rightarrow> ReadSource | Download \<Rightarrow> StagedDestination)
           in and_then (ok_or (local_handle t) X_Panicked) (\<lambda>handle.
              map_err X_Remote (validate_handle handle access (x_owner x))))) of
        Err e \<Rightarrow> (Err e, x)
      | Ok _ \<Rightarrow>
          (case with_queue (enqueue (xe_store env) t) x of
             (Err e, x1) \<Rightarrow> (Err e, x1)
           | (Ok _, x1) \<Rightarrow> (Ok t, x1)))"

definition get_public ::
  "('s, 'r) exec_env \<Rightarrow> transfer_id \<Rightarrow> ('s, 'r) exec \<Rightarrow> (executor_error, transfer_task) result" where
  "get_public env i x =
     and_then (ensure_open x) (\<lambda>_.
     if x_poisoned x then Err X_QueuePoisoned
     else and_then (ok_or (queue_task i (x_queue x)) (X_Queue Q_TaskNotFound)) (\<lambda>t.
       and_then (map_err contract_error (validate_public (xe_json env) t)) (\<lambda>_. Ok t)))"

definition list_public ::
  "('s, 'r) exec_env \<Rightarrow> transfer_query \<Rightarrow> ('s, 'r) exec \<Rightarrow>
   (executor_error, transfer_page) result \<times> ('s, 'r) exec" where
  "list_public env query x =
     (case ensure_open x of
        Err e \<Rightarrow> (Err e, x)
      | Ok _ \<Rightarrow> with_queue (\<lambda>q. (queue_page (xe_json env) query q, q)) x)"

text \<open>\<open>any\<close> stops at the first match; a task without a remote endpoint before it panics.\<close>

fun any_profile :: "profile_id \<Rightarrow> transfer_task list \<Rightarrow> bool option" where
  "any_profile p [] = Some False"
| "any_profile p (t # ts) =
     (case remote_profile_id t of
        None \<Rightarrow> None
      | Some p' \<Rightarrow> if p' = p then Some True else any_profile p ts)"

definition references_profile ::
  "profile_id \<Rightarrow> ('s, 'r) exec \<Rightarrow> (executor_error, bool) result \<times> ('s, 'r) exec" where
  "references_profile p x =
     (case ensure_open x of
        Err e \<Rightarrow> (Err e, x)
      | Ok _ \<Rightarrow> with_queue (\<lambda>q. (ok_or (any_profile p (bt_values (tq_tasks q))) Q_Panicked, q)) x)"

definition referenced_profiles ::
  "('s, 'r) exec \<Rightarrow> (executor_error, profile_id set) result \<times> ('s, 'r) exec" where
  "referenced_profiles x =
     with_queue (\<lambda>q. (ok_or (map_option set (those (map remote_profile_id (bt_values (tq_tasks q)))))
                        Q_Panicked, q)) x"

definition mutate_public ::
  "('s, 'r) exec_env \<Rightarrow> transfer_id \<Rightarrow> u64 \<Rightarrow>
   (i64 \<Rightarrow> transfer_task \<Rightarrow> (transfer_mutation_error, state_change \<times> transfer_task) result) \<Rightarrow>
   ('s, 'r) exec \<Rightarrow> (executor_error, transfer_mutation_result) result \<times> ('s, 'r) exec" where
  "mutate_public env i expected mutation x =
     (if x_poisoned x then (Err X_QueuePoisoned, x)
      else case queue_task i (x_queue x) of
        None \<Rightarrow> (Err (X_Queue Q_TaskNotFound), x)
      | Some current \<Rightarrow>
     (case validate_public (xe_json env) current of
        Err e \<Rightarrow> (Err (contract_error e), x)
      | Ok _ \<Rightarrow>
     if task_revision current \<noteq> expected then (Ok (Mr_Conflict expected current), x)
     else
     (case unix_time_ms x of
        (now, x1) \<Rightarrow>
     (case with_queue (mutate (xe_store env) i (mutation now)) x1 of
        (Err e, x2) \<Rightarrow> (Err e, x2)
      | (Ok _, x2) \<Rightarrow>
     (case queue_task i (x_queue x2) of
        None \<Rightarrow> (Err X_TaskDisappeared, x2)
      | Some task \<Rightarrow>
     (case validate_public (xe_json env) task of
        Err e \<Rightarrow> (Err (contract_error e), x2)
      | Ok _ \<Rightarrow> (Ok (Mr_Updated task), x2)))))))"

text \<open>Cancelling a control sets its flag in the host, where every derived control sees it.\<close>

definition cancel_control :: "io_control \<Rightarrow> ('s, 'r) exec \<Rightarrow> ('s, 'r) exec" where
  "cancel_control c x =
     x\<lparr>x_host := (x_host x)\<lparr>h_cells := control_cancel c (h_cells (x_host x))\<rparr>\<rparr>"

definition cancel_active :: "transfer_id \<Rightarrow> ('s, 'r) exec \<Rightarrow> ('s, 'r) exec" where
  "cancel_active i x =
     (case map_of (x_active x) i of None \<Rightarrow> x | Some c \<Rightarrow> cancel_control c x)"

definition request_cancel_public ::
  "('s, 'r) exec_env \<Rightarrow> transfer_id \<Rightarrow> u64 \<Rightarrow> ('s, 'r) exec \<Rightarrow>
   (executor_error, transfer_mutation_result) result \<times> ('s, 'r) exec" where
  "request_cancel_public env i expected x =
     (case ensure_open x of
        Err e \<Rightarrow> (Err e, x)
      | Ok _ \<Rightarrow>
     (case mutate_public env i expected request_cancel x of
        (Err e, x1) \<Rightarrow> (Err e, x1)
      | (Ok (Mr_Updated t), x1) \<Rightarrow> (Ok (Mr_Updated t), cancel_active i x1)
      | (Ok (Mr_Conflict r t), x1) \<Rightarrow> (Ok (Mr_Conflict r t), x1)))"

definition request_retry_public ::
  "('s, 'r) exec_env \<Rightarrow> transfer_id \<Rightarrow> u64 \<Rightarrow> ('s, 'r) exec \<Rightarrow>
   (executor_error, transfer_mutation_result) result \<times> ('s, 'r) exec" where
  "request_retry_public env i expected x =
     (case ensure_open x of
        Err e \<Rightarrow> (Err e, x)
      | Ok _ \<Rightarrow> mutate_public env i expected schedule_retry x)"

definition resolve_conflict_public ::
  "('s, 'r) exec_env \<Rightarrow> transfer_id \<Rightarrow> u64 \<Rightarrow> conflict_policy \<Rightarrow> ('s, 'r) exec \<Rightarrow>
   (executor_error, transfer_mutation_result) result \<times> ('s, 'r) exec" where
  "resolve_conflict_public env i expected policy x =
     (case ensure_open x of
        Err e \<Rightarrow> (Err e, x)
      | Ok _ \<Rightarrow> mutate_public env i expected (resolve_conflict policy) x)"

definition request_cancel_exec ::
  "('s, 'r) exec_env \<Rightarrow> transfer_id \<Rightarrow> ('s, 'r) exec \<Rightarrow> (executor_error, unit) result \<times> ('s, 'r) exec" where
  "request_cancel_exec env i x =
     (if x_poisoned x then (Err X_QueuePoisoned, x)
      else case unix_time_ms x of (now, x1) \<Rightarrow>
     (case with_queue (mutate (xe_store env) i (request_cancel now)) x1 of
        (Err e, x2) \<Rightarrow> (Err e, x2)
      | (Ok _, x2) \<Rightarrow> (Ok (), cancel_active i x2)))"

definition request_pause_exec :: "transfer_id \<Rightarrow> (executor_error, unit) result" where
  "request_pause_exec i = Err X_PauseUnsupported"

definition shutdown_mutation ::
  "i64 \<Rightarrow> transfer_task \<Rightarrow> (transfer_mutation_error, state_change \<times> transfer_task) result" where
  "shutdown_mutation now t =
     (if is_active (task_state t) then request_cancel now t else Ok (Unchanged, t))"

fun shutdown_loop ::
  "('s, 'r) exec_env \<Rightarrow> i64 \<Rightarrow> transfer_id list \<Rightarrow> ('s, 'r) exec \<Rightarrow>
   (executor_error, unit) result \<times> ('s, 'r) exec" where
  "shutdown_loop env now [] x = (Ok (), x)"
| "shutdown_loop env now (i # is) x =
     (case with_queue (mutate (xe_store env) i (shutdown_mutation now)) x of
        (Err e, x1) \<Rightarrow> (Err e, x1)
      | (Ok _, x1) \<Rightarrow> shutdown_loop env now is x1)"

definition request_shutdown ::
  "('s, 'r) exec_env \<Rightarrow> ('s, 'r) exec \<Rightarrow> (executor_error, nat) result \<times> ('s, 'r) exec" where
  "request_shutdown env x =
     (let active = x_active x;
          x1 = fold (\<lambda>(_, c). cancel_control c) active x;
          x2 = x1\<lparr>x_closed := True\<rparr>
      in case unix_time_ms x2 of (now, x3) \<Rightarrow>
         if x_poisoned x3 then (Err X_QueuePoisoned, x3)
         else (case shutdown_loop env now (map fst active) x3 of
                 (Err e, x4) \<Rightarrow> (Err e, x4)
               | (Ok _, x4) \<Rightarrow> (Ok (length active), x4)))"

section \<open>Running a transfer\<close>

text \<open>The outcome of an asynchronous function: None when it does not return, because it panicked
  or because its loop used up the fuel.\<close>

type_synonym ('s, 'r, 'a) xio = "('s, 'r) exec \<Rightarrow> ((remote_error, 'a) result \<times> ('s, 'r) exec) option"

definition xret :: "'a \<Rightarrow> ('s, 'r, 'a) xio" where
  "xret v x = Some (Ok v, x)"

definition xfail :: "remote_error \<Rightarrow> ('s, 'r, 'a) xio" where
  "xfail e x = Some (Err e, x)"

definition xpanic :: "('s, 'r, 'a) xio" where
  "xpanic x = None"

definition xres :: "(remote_error, 'a) result \<Rightarrow> ('s, 'r, 'a) xio" where
  "xres r x = Some (r, x)"

definition xbind :: "('s, 'r, 'a) xio \<Rightarrow> ('a \<Rightarrow> ('s, 'r, 'b) xio) \<Rightarrow> ('s, 'r, 'b) xio" where
  "xbind m f x =
     (case m x of
        None \<Rightarrow> None
      | Some (Err e, x1) \<Rightarrow> Some (Err e, x1)
      | Some (Ok v, x1) \<Rightarrow> f v x1)"

definition xlocal :: "'a local_io \<Rightarrow> ('s, 'r, 'a) xio" where
  "xlocal m x =
     (case m (x_owner x, x_host x) of
        (r, (o1, h1)) \<Rightarrow> Some (r, x\<lparr>x_owner := o1, x_host := h1\<rparr>))"

definition xremote :: "('s, 'r, 'a) remote_call \<Rightarrow> io_control \<Rightarrow> ('s, 'r, 'a) xio" where
  "xremote call c x = Some (call c x)"

definition xcheck :: "io_control \<Rightarrow> remote_operation \<Rightarrow> ('s, 'r, unit) xio" where
  "xcheck c op x = (case host_check c op (x_host x) of (r, h) \<Rightarrow> Some (r, x\<lparr>x_host := h\<rparr>))"

definition xinstant :: "('s, 'r, nat) xio" where
  "xinstant x = (case host_instant (x_host x) of (t, h) \<Rightarrow> Some (Ok t, x\<lparr>x_host := h\<rparr>))"

definition operation_control :: "('s, 'r) exec_env \<Rightarrow> io_control \<Rightarrow> ('s, 'r, io_control) xio" where
  "operation_control env c =
     xbind xinstant (\<lambda>now. xret (control_with_deadline c (now + el_operation_timeout (xe_limits env))))"

definition cleanup_control :: "('s, 'r) exec_env \<Rightarrow> ('s, 'r, io_control) xio" where
  "cleanup_control env =
     xbind xinstant (\<lambda>now x.
       case control_new (now + el_operation_timeout (xe_limits env)) (h_cells (x_host x)) of
         (c, cells) \<Rightarrow> Some (Ok c, x\<lparr>x_host := (x_host x)\<lparr>h_cells := cells\<rparr>\<rparr>))"

definition record_progress_exec ::
  "('s, 'r) exec_env \<Rightarrow> transfer_id \<Rightarrow> run_token \<Rightarrow> u64 \<Rightarrow> u64 option \<Rightarrow> u64 option \<Rightarrow> ('s, 'r, unit) xio" where
  "record_progress_exec env i token bytes total_bytes speed x =
     (if x_poisoned x then Some (Err queue_unavailable, x)
      else case unix_time_ms x of (now, x1) \<Rightarrow>
     (case with_queue (mutate (xe_store env) i (record_progress token bytes total_bytes speed now)) x1 of
        (Err e, x2) \<Rightarrow> Some (Err (map_queue_error e), x2)
      | (Ok _, x2) \<Rightarrow> Some (Ok (), x2)))"

definition record_zero_progress ::
  "('s, 'r) exec_env \<Rightarrow> transfer_task \<Rightarrow> run_token \<Rightarrow> u64 \<Rightarrow> u64 option \<Rightarrow> ('s, 'r, unit) xio" where
  "record_zero_progress env t token offset total_bytes =
     (if pg_bytes_transferred (task_progress t) = offset \<and> total_bytes = Some offset
      then record_progress_exec env (task_id t) token offset total_bytes None
      else xret ())"

text \<open>The loop of the bandwidth limit. The remaining time is a subtraction of durations, which
  panics when the time has run out since the loop condition was evaluated.\<close>

fun throttle_loop ::
  "('s, 'r) exec_env \<Rightarrow> nat \<Rightarrow> nat \<Rightarrow> nat \<Rightarrow> io_control \<Rightarrow> ('s, 'r, unit) xio" where
  "throttle_loop env 0 expected started c = xpanic"
| "throttle_loop env (Suc fuel) expected started c =
     xbind xinstant (\<lambda>now.
     if expected > now - started
     then xbind (xcheck c Op_Write) (\<lambda>_.
          xbind xinstant (\<lambda>now1.
          if now1 - started > expected then xpanic
          else xbind (\<lambda>x. Some (Ok (), xe_sleep env
                 (min (expected - (now1 - started)) (100 * 1000000)) x)) (\<lambda>_.
               throttle_loop env fuel expected started c)))
     else xret ())"

definition throttle_and_record ::
  "('s, 'r) exec_env \<Rightarrow> nat \<Rightarrow> transfer_task \<Rightarrow> run_token \<Rightarrow> u64 \<Rightarrow> u64 option \<Rightarrow> nat \<Rightarrow> io_control \<Rightarrow>
   ('s, 'r, unit) xio" where
  "throttle_and_record env fuel t token bytes total_bytes started c =
     xbind (case task_bandwidth_limit t of
              Some limit \<Rightarrow> throttle_loop env fuel (xe_throttle_ns env bytes limit) started c
            | None \<Rightarrow> xret ()) (\<lambda>_.
     xbind (xcheck c Op_Write) (\<lambda>_.
     xbind xinstant (\<lambda>now.
     let elapsed_ms = of_nat (max ((now - started) div 1000000) 1) :: u64;
         speed = (if elapsed_ms = 0 then None else Some (saturating_mul bytes 1000 div elapsed_ms))
     in record_progress_exec env (task_id t) token bytes total_bytes speed)))"

definition complete_exec ::
  "('s, 'r) exec_env \<Rightarrow> transfer_task \<Rightarrow> run_token \<Rightarrow> object_identity \<Rightarrow> ('s, 'r, unit) xio" where
  "complete_exec env t token identity x =
     (case remote_endpoint t of
        None \<Rightarrow> None
      | Some endpoint \<Rightarrow>
     let verification = (case rte_protocol endpoint of
           Proto_Sftp \<Rightarrow> Vl_RemoteIdentity
         | Proto_Smb \<Rightarrow> Vl_RemoteIdentity
         | Proto_Ftp \<Rightarrow> Vl_Size
         | Proto_FtpsExplicit \<Rightarrow> Vl_Size
         | Proto_Ssh \<Rightarrow> Vl_Unverified)
     in if x_poisoned x then Some (Err queue_unavailable, x)
        else case unix_time_ms x of (now, x1) \<Rightarrow>
        (case with_queue (mutate (xe_store env) (task_id t) (task_complete token
                \<lparr>tc_verification = verification, tc_identity = Some identity,
                 tc_completed_at_unix_ms = now\<rparr>)) x1 of
           (Err e, x2) \<Rightarrow> Some (Err (map_queue_error e), x2)
         | (Ok _, x2) \<Rightarrow> Some (Ok (), x2)))"

text \<open>The copy loop of an upload: until the known size is reached or the source ends.\<close>

fun upload_loop ::
  "('s, 'r) exec_env \<Rightarrow> nat \<Rightarrow> transfer_task \<Rightarrow> run_token \<Rightarrow> io_control \<Rightarrow> local_file_handle \<Rightarrow>
   object_identity \<Rightarrow> u64 option \<Rightarrow> nat \<Rightarrow> remote_write_handle \<Rightarrow> u64 \<Rightarrow> ('s, 'r, u64) xio" where
  "upload_loop env 0 t token c local source total_bytes started wh offset = xpanic"
| "upload_loop env (Suc fuel) t token c local source total_bytes started wh offset =
     (if is_some_and total_bytes (\<lambda>size. offset \<ge> size) then xret offset
      else
      xbind (xcheck c Op_Read) (\<lambda>_.
      xbind (operation_control env c) (\<lambda>oc.
      xbind (xlocal (local_read_chunk_op local offset (el_chunk_bytes (xe_limits env)) (Some source) oc)) (\<lambda>chunk.
      if lc_offset chunk \<noteq> offset \<or> (lc_bytes chunk = [] \<and> \<not> lc_eof chunk)
      then xfail (protocol_error Op_Read ''local_read_chunk_invalid'')
      else
      xbind
        (if lc_bytes chunk \<noteq> []
         then
           xbind (operation_control env c) (\<lambda>oc1.
           xbind (xremote (xe_write_chunk env wh offset (lc_bytes chunk)) oc1) (\<lambda>receipt.
           let offset1 = saturating_add offset (of_nat (length (lc_bytes chunk)))
           in if rw_next_offset receipt \<noteq> offset1
              then xfail (protocol_error Op_Write ''remote_write_offset_mismatch'')
              else xbind (throttle_and_record env fuel t token offset1 total_bytes started c) (\<lambda>_.
                   xret offset1)))
         else xret offset) (\<lambda>offset1.
      if lc_eof chunk then xret offset1
      else upload_loop env fuel t token c local source total_bytes started wh offset1)))))"

definition upload_started ::
  "('s, 'r) exec_env \<Rightarrow> nat \<Rightarrow> transfer_task \<Rightarrow> run_token \<Rightarrow> io_control \<Rightarrow> local_file_handle \<Rightarrow>
   object_identity \<Rightarrow> u64 option \<Rightarrow> u64 \<Rightarrow> remote_write_handle \<Rightarrow> ('s, 'r, unit) xio" where
  "upload_started env fuel t token c local source total_bytes offset wh =
     xbind xinstant (\<lambda>started.
     xbind (upload_loop env fuel t token c local source total_bytes started wh offset) (\<lambda>offset1.
     xbind (xres (ensure_final_size offset1 total_bytes Op_Read)) (\<lambda>_.
     xbind (record_zero_progress env t token offset1 total_bytes) (\<lambda>_.
     xbind (operation_control env c) (\<lambda>oc.
     xbind (xremote (xe_commit_write env wh (task_expected_destination t)) oc) (\<lambda>entry.
     complete_exec env t token (ent_identity entry)))))))"

text \<open>Run \<open>cleanup\<close> when the result is an error, and keep that error.\<close>

definition xon_error :: "('s, 'r, 'a) xio \<Rightarrow> ('s, 'r, unit) xio \<Rightarrow> ('s, 'r, 'a) xio" where
  "xon_error m cleanup x =
     (case m x of
        Some (Err e, x1) \<Rightarrow> map_option (\<lambda>(_, x2). (Err e, x2)) (cleanup x1)
      | r \<Rightarrow> r)"

definition upload ::
  "('s, 'r) exec_env \<Rightarrow> nat \<Rightarrow> transfer_task \<Rightarrow> run_token \<Rightarrow> io_control \<Rightarrow> ('s, 'r, unit) xio" where
  "upload env fuel t token c =
     (case (local_handle t, remote_endpoint t) of
        (Some local, Some remote) \<Rightarrow>
          xbind (operation_control env c) (\<lambda>oc.
          xbind (xlocal (source_identity local oc)) (\<lambda>source.
          xbind (xres (ensure_identity (task_expected_source t) (Some source) Op_Read)) (\<lambda>_.
          let total_bytes = oi_size_bytes source;
              offset = pg_bytes_transferred (task_progress t)
          in
          xbind (xres (upload_final_path (xe_uuid_text env) t (rte_path remote))) (\<lambda>final_path.
          xbind (xres (map_err (\<lambda>_. err_invalid Op_Write ''transfer_staged_path_invalid'')
            (remote_path_new (path_str final_path @ ''.localdesk-'' @
               xe_uuid_text env (transfer_uuid (task_id t)) @ ''.part'')))) (\<lambda>temporary_path.
          xbind (operation_control env c) (\<lambda>oc1.
          xbind (xremote (xe_begin_write env
            \<lparr>bw_final_path = final_path, bw_temporary_path = temporary_path,
             bw_expected_size_bytes = total_bytes,
             bw_resume_from = (if offset > 0 then Some offset else None),
             bw_expected_destination = task_expected_destination t\<rparr>) oc1) (\<lambda>receipt.
          if rw_next_offset receipt \<noteq> offset
          then xfail (protocol_error Op_Write ''remote_write_offset_mismatch'')
          else xon_error
            (upload_started env fuel t token c local source total_bytes offset (rw_handle receipt))
            (xbind (cleanup_control env) (\<lambda>cc. xremote (xe_abort_write env (rw_handle receipt)) cc)))))))))
      | _ \<Rightarrow> xpanic)"

text \<open>The copy loop of a download: until the remote side reports the end. It returns the offset
  reached and the size, known from the task or learned from the first chunk that tells it.\<close>

fun download_loop ::
  "('s, 'r) exec_env \<Rightarrow> nat \<Rightarrow> transfer_task \<Rightarrow> run_token \<Rightarrow> io_control \<Rightarrow> remote_path \<Rightarrow> nat \<Rightarrow>
   local_write_handle \<Rightarrow> u64 option \<Rightarrow> u64 \<Rightarrow> ('s, 'r, u64 \<times> u64 option) xio" where
  "download_loop env 0 t token c path started wh total_bytes offset = xpanic"
| "download_loop env (Suc fuel) t token c path started wh total_bytes offset =
     xbind (xcheck c Op_Read) (\<lambda>_.
     xbind (operation_control env c) (\<lambda>oc.
     xbind (xremote (xe_read_chunk env
       \<lparr>rr_path = path, rr_offset = offset, rr_max_bytes = el_chunk_bytes (xe_limits env),
        rr_expected_identity = task_expected_source t\<rparr>) oc) (\<lambda>chunk.
     if rc_offset chunk \<noteq> offset \<or> (rc_bytes chunk = [] \<and> \<not> rc_eof chunk)
     then xfail (protocol_error Op_Read ''remote_read_chunk_invalid'')
     else
     let total1 = opt_or total_bytes (oi_size_bytes (rc_identity chunk))
     in
     xbind
       (if rc_bytes chunk \<noteq> []
        then
          xbind (operation_control env c) (\<lambda>oc1.
          xbind (xlocal (local_write_chunk wh offset (rc_bytes chunk) oc1)) (\<lambda>receipt.
          let offset1 = saturating_add offset (of_nat (length (rc_bytes chunk)))
          in if lr_next_offset receipt \<noteq> offset1
             then xfail (protocol_error Op_Write ''local_write_offset_mismatch'')
             else xbind (throttle_and_record env fuel t token offset1 total1 started c) (\<lambda>_.
                  xret offset1)))
        else xret offset) (\<lambda>offset1.
     if rc_eof chunk then xret (offset1, total1)
     else download_loop env fuel t token c path started wh total1 offset1))))"

definition download_started ::
  "('s, 'r) exec_env \<Rightarrow> nat \<Rightarrow> transfer_task \<Rightarrow> run_token \<Rightarrow> io_control \<Rightarrow> remote_path \<Rightarrow> u64 option \<Rightarrow>
   u64 \<Rightarrow> local_write_handle \<Rightarrow> ('s, 'r, unit) xio" where
  "download_started env fuel t token c path total_bytes offset wh =
     xbind xinstant (\<lambda>started.
     xbind (download_loop env fuel t token c path started wh total_bytes offset) (\<lambda>(offset1, total1).
     xbind (xres (ensure_final_size offset1 total1 Op_Read)) (\<lambda>_.
     xbind (record_zero_progress env t token offset1 total1) (\<lambda>_.
     xbind (operation_control env c) (\<lambda>oc.
     xbind (xlocal (commit_staged_write wh total1 oc)) (\<lambda>identity.
     complete_exec env t token identity))))))"

definition download ::
  "('s, 'r) exec_env \<Rightarrow> nat \<Rightarrow> transfer_task \<Rightarrow> run_token \<Rightarrow> io_control \<Rightarrow> ('s, 'r, unit) xio" where
  "download env fuel t token c =
     (case (local_handle t, remote_endpoint t) of
        (Some local, Some remote) \<Rightarrow>
          let offset = pg_bytes_transferred (task_progress t);
              total_bytes = expected_size (task_expected_source t)
          in
          xbind (operation_control env c) (\<lambda>oc.
          xbind (xlocal (begin_staged_write (xe_uuid_text env) local total_bytes
            (if offset > 0 then Some offset else None) (task_expected_destination t)
            (task_conflict_policy t) oc)) (\<lambda>receipt.
          if lr_next_offset receipt \<noteq> offset
          then xfail (protocol_error Op_Write ''local_write_offset_mismatch'')
          else xon_error
            (download_started env fuel t token c (rte_path remote) total_bytes offset (lr_handle receipt))
            (xbind (cleanup_control env) (\<lambda>cc. xlocal (abort_staged_write (lr_handle receipt) cc)))))
      | _ \<Rightarrow> xpanic)"

definition xcapability :: "capability_matrix \<Rightarrow> file_operation \<Rightarrow> ('s, 'r, unit) xio" where
  "xcapability caps op x = map_option (\<lambda>r. (r, x)) (require_capability caps op)"

text \<open>Close the session with a control of its own and ignore what that gives.\<close>

definition disconnect_quietly :: "('s, 'r) exec_env \<Rightarrow> ('s, 'r, unit) xio" where
  "disconnect_quietly env =
     xbind (cleanup_control env) (\<lambda>cc x. Some (Ok (), snd (xe_disconnect env cc x)))"

definition execute_session ::
  "('s, 'r) exec_env \<Rightarrow> nat \<Rightarrow> transfer_task \<Rightarrow> run_token \<Rightarrow> io_control \<Rightarrow> session_info \<Rightarrow> ('s, 'r, unit) xio" where
  "execute_session env fuel t token c info =
     xbind (xcapability (si_capabilities info)
       (case task_direction t of Upload \<Rightarrow> File_Write | Download \<Rightarrow> File_Read)) (\<lambda>_.
     xbind (if pg_bytes_transferred (task_progress t) > 0
            then xcapability (si_capabilities info) (resume_operation (task_direction t))
            else xret ()) (\<lambda>_.
     case task_direction t of
       Upload \<Rightarrow> upload env fuel t token c
     | Download \<Rightarrow> download env fuel t token c))"

text \<open>Close the session after the work: an error of the work comes first.\<close>

definition disconnect_after :: "('s, 'r) exec_env \<Rightarrow> ('s, 'r, unit) xio \<Rightarrow> ('s, 'r, unit) xio" where
  "disconnect_after env work x =
     (case work x of
        None \<Rightarrow> None
      | Some (result, x1) \<Rightarrow>
          xbind (cleanup_control env) (\<lambda>cc x2.
            case xe_disconnect env cc x2 of
              (disconnect, x3) \<Rightarrow> Some (and_then result (\<lambda>_. disconnect), x3)) x1)"

definition execute_io ::
  "('s, 'r) exec_env \<Rightarrow> nat \<Rightarrow> transfer_task \<Rightarrow> run_token \<Rightarrow> io_control \<Rightarrow> ('s, 'r, unit) xio" where
  "execute_io env fuel t token c =
     (case remote_endpoint t of
        None \<Rightarrow> xpanic
      | Some endpoint \<Rightarrow>
     xbind (xres (ensure_transfer_protocol (rte_protocol endpoint))) (\<lambda>_.
     xbind (case xe_factory_support env endpoint of
              Control_Supported \<Rightarrow> xret ()
            | Control_Unsupported reason \<Rightarrow>
                xfail \<lparr>re_kind = Ek_Unsupported, re_operation = Op_Connect, re_reason = reason,
                       re_retry = Retry_Never\<rparr>) (\<lambda>_.
     xbind (operation_control env c) (\<lambda>oc.
     xbind (xremote (xe_open env endpoint) oc) (\<lambda>info.
     if si_profile_id info \<noteq> rte_profile_id endpoint \<or> si_protocol info \<noteq> rte_protocol endpoint
     then xbind (disconnect_quietly env) (\<lambda>_.
          xfail (protocol_error Op_Connect ''transfer_session_identity_mismatch''))
     else case si_io_support info of
       Control_Unsupported reason \<Rightarrow>
         xbind (disconnect_quietly env) (\<lambda>_.
         xfail \<lparr>re_kind = Ek_Unsupported, re_operation = Op_Connect, re_reason = reason,
                re_retry = Retry_Never\<rparr>)
     | Control_Supported \<Rightarrow>
         disconnect_after env (execute_session env fuel t token c info))))))"

definition persist_failure ::
  "('s, 'r) exec_env \<Rightarrow> transfer_task \<Rightarrow> run_token \<Rightarrow> remote_error \<Rightarrow> ('s, 'r) exec \<Rightarrow>
   (executor_error, unit) result \<times> ('s, 'r) exec" where
  "persist_failure env t token failure x =
     (case unix_time_ms x of (now, x1) \<Rightarrow>
     if x_poisoned x1 then (Err X_QueuePoisoned, x1)
     else case queue_task (task_id t) (x_queue x1) of
       None \<Rightarrow> (Err X_TaskDisappeared, x1)
     | Some current \<Rightarrow>
     let checkpoint = task_checkpoint current now in
     if state_kind (task_state current) = K_Cancelling \<or> re_kind failure = Ek_Cancelled
     then (case with_queue (mutate (xe_store env) (task_id t)
                  (confirm_cancelled token (Some checkpoint) now)) x1 of
             (Err e, x2) \<Rightarrow> (Err e, x2)
           | (Ok _, x2) \<Rightarrow> (Ok (), x2))
     else if re_kind failure = Ek_Conflict
     then (case with_queue (mutate (xe_store env) (task_id t)
                  (enter_conflict token \<lparr>tx_reason = re_reason failure, tx_checkpoint = Some checkpoint\<rparr> now)) x1 of
             (Err e, x2) \<Rightarrow> (Err e, x2)
           | (Ok _, x2) \<Rightarrow> (Ok (), x2))
     else
     (case with_queue (mutate (xe_store env) (task_id t)
             (task_fail token (failure_of_error failure) now)) x1 of
        (Err e, x2) \<Rightarrow> (Err e, x2)
      | (Ok _, x2) \<Rightarrow>
          if \<not> remote_error_retryable failure then (Ok (), x2)
          else (case with_queue (mutate (xe_store env) (task_id t) (schedule_retry now)) x2 of
                  (Ok _, x3) \<Rightarrow> (Ok (), x3)
                | (Err e, x3) \<Rightarrow>
                    if e = X_Queue (Q_Mutation Me_RetryExhausted) then (Ok (), x3) else (Err e, x3))))"

record transfer_run_outcome =
  ro_task_id :: transfer_id
  ro_state :: transfer_state_kind

definition start_next_exec ::
  "('s, 'r) exec_env \<Rightarrow> ('s, 'r) exec \<Rightarrow>
   (executor_error, (transfer_task \<times> run_token) option) result \<times> ('s, 'r) exec" where
  "start_next_exec env x =
     (if x_poisoned x then (Err X_QueuePoisoned, x)
      else case unix_time_ms x of (now, x1) \<Rightarrow>
     (case with_queue (start_next (xe_store env) now) x1 of
        (Err e, x2) \<Rightarrow> (Err e, x2)
      | (Ok None, x2) \<Rightarrow> (Ok None, x2)
      | (Ok (Some token), x2) \<Rightarrow>
          (case queue_task (tok_task_id token) (x_queue x2) of
             None \<Rightarrow> (Err X_TaskDisappeared, x2)
           | Some t \<Rightarrow> (Ok (Some (t, token)), x2))))"

text \<open>\<open>execute_started\<close>; the wait for a permit ends when one is free or the executor is closed.\<close>

definition execute_started ::
  "('s, 'r) exec_env \<Rightarrow> nat \<Rightarrow> transfer_task \<Rightarrow> run_token \<Rightarrow> ('s, 'r) exec \<Rightarrow>
   ((executor_error, transfer_run_outcome) result \<times> ('s, 'r) exec) option" where
  "execute_started env fuel t token x =
     (if x_closed x then Some (Err X_ExecutorClosed, x)
      else case host_instant (x_host x) of (now, h) \<Rightarrow>
     (case control_new (now + el_total_timeout (xe_limits env)) (h_cells h) of (c, cells) \<Rightarrow>
     let x1 = x\<lparr>x_host := h\<lparr>h_cells := cells\<rparr>, x_active := (task_id t, c) # x_active x\<rparr>
     in if x_poisoned x1 then Some (Err X_QueuePoisoned, x1)
        else
     let x2 = (if is_some_and (queue_task (task_id t) (x_queue x1))
                    (\<lambda>current. state_kind (task_state current) = K_Cancelling)
               then cancel_control c x1 else x1)
     in (case execute_io env fuel t token c x2 of
           None \<Rightarrow> None
         | Some (execution, x3) \<Rightarrow>
             (case (case execution of
                      Ok _ \<Rightarrow> (Ok (), x3)
                    | Err failure \<Rightarrow> persist_failure env t token failure x3) of
                (persisted, x4) \<Rightarrow>
             let x5 = x4\<lparr>x_active := filter (\<lambda>(i, _). i \<noteq> task_id t) (x_active x4)\<rparr>
             in Some
               (and_then persisted (\<lambda>_.
                if x_poisoned x5 then Err X_QueuePoisoned
                else and_then (ok_or (queue_task (task_id t) (x_queue x5)) X_TaskDisappeared) (\<lambda>current.
                Ok \<lparr>ro_task_id = task_id t, ro_state = state_kind (task_state current)\<rparr>)), x5)))))"

definition run_next ::
  "('s, 'r) exec_env \<Rightarrow> nat \<Rightarrow> ('s, 'r) exec \<Rightarrow>
   ((executor_error, transfer_run_outcome option) result \<times> ('s, 'r) exec) option" where
  "run_next env fuel x =
     (case start_next_exec env x of
        (Err e, x1) \<Rightarrow> Some (Err e, x1)
      | (Ok None, x1) \<Rightarrow> Some (Ok None, x1)
      | (Ok (Some (t, token)), x1) \<Rightarrow>
          map_option (\<lambda>(r, x2). (and_then r (\<lambda>v. Ok (Some v)), x2)) (execute_started env fuel t token x1))"

end
