(* ===== verification/Local_Staging.thy ===== *)
theory Local_Staging
  imports Local_Owner
begin

text \<open>
  What the staged write of \<open>LocalHandleOwner\<close> guarantees: on a quiet host the destination is not
  touched before the commit, and the commit puts exactly the written bytes in place, at once; a
  staged file that was aborted cannot be resumed.
\<close>

section \<open>Inversion of the sequenced operations\<close>

named_theorems lo_simps "evaluation and inversion of sequenced local operations"

lemma lo_bind_Ok [lo_simps]:
  "lo_bind m f w = (Ok y, w') \<longleftrightarrow> (\<exists>x a h. m w = (Ok x, (a, h)) \<and> f x (a, h) = (Ok y, w'))"
  by (cases "m w"; cases "fst (m w)") (auto simp: lo_bind_def)

lemma lo_return_Ok [lo_simps]: "lo_return x w = (Ok y, w') \<longleftrightarrow> y = x \<and> w' = w"
  by (auto simp: lo_return_def)

lemma lo_fail_Ok [lo_simps]: "lo_fail e w = (Ok y, w') \<longleftrightarrow> False"
  by (simp add: lo_fail_def)

lemma lo_owner_Ok [lo_simps]: "lo_owner f (a, h) = (Ok y, w') \<longleftrightarrow> f a = Ok y \<and> w' = (a, h)"
  by (auto simp: lo_owner_def)

lemma lo_modify_Ok [lo_simps]: "lo_modify f (a, h) = (Ok y, w') \<longleftrightarrow> w' = (f a, h)"
  by (auto simp: lo_modify_def)

lemma lo_host_Ok [lo_simps]:
  "lo_host g call (a, h) = (Ok y, (a', h')) \<longleftrightarrow> a' = a \<and> call h = (Ok y, h')"
  by (cases "call h"; cases "fst (call h)") (auto simp: lo_host_def)

lemma lo_check_Ok [lo_simps]:
  "lo_check c op (a, h) = (Ok y, (a', h')) \<longleftrightarrow> a' = a \<and> host_check c op h = (Ok y, h')"
  by (cases "host_check c op h") (auto simp: lo_check_def)

lemma quiet_check_Ok [simp]:
  "quiet h \<Longrightarrow> host_check c op h = (Ok y, h') \<longleftrightarrow>
     h' = h \<and> control_check (h_cells h) (h_instant h) c op = Ok y"
  by (auto simp: quiet_check)

lemma quiet_metadata_Ok [simp]:
  "quiet h \<Longrightarrow> fs_symlink_metadata p h = (Ok md, h') \<longleftrightarrow>
     h' = h \<and> (\<exists>n. lookup_node p h = Some n \<and> md = node_metadata n)"
  by (auto simp: fs_symlink_metadata_def split: option.splits)

lemma quiet_fd_metadata_Ok [simp]:
  "quiet h \<Longrightarrow> fd_metadata i h = (Ok md, h') \<longleftrightarrow> h' = h \<and> md = node_metadata (h_nodes h ! i)"
  by (auto simp: fd_metadata_def)

text \<open>On a quiet host the checks read only.\<close>

lemma quiet_owned_file:
  "validate_owned_file p uid op (a, h) = (Ok i, (a', h')) \<Longrightarrow> quiet h \<Longrightarrow>
   a' = a \<and> h' = h \<and> (\<exists>n. lookup_node p h = Some n \<and> nd_kind n = Node_File \<and> nd_uid n = uid \<and>
     i = identity_of (node_metadata n))"
  by (auto simp: validate_owned_file_def lo_simps node_metadata_def split: if_splits)

lemma quiet_lo_exists: "lo_exists p (a, h) = (Ok b, (a', h')) \<Longrightarrow> quiet h \<Longrightarrow> a' = a \<and> h' = h"
  by (auto simp: lo_exists_def path_exists_def)

lemma quiet_validate_destination:
  "validate_destination p uid (a, h) = (Ok u, (a', h')) \<Longrightarrow> quiet h \<Longrightarrow> a' = a \<and> h' = h"
  by (auto simp: validate_destination_def lo_simps
       dest!: quiet_lo_exists quiet_owned_file split: if_splits option.splits)

lemma quiet_optional_identity:
  "optional_identity p uid op (a, h) = (Ok i, (a', h')) \<Longrightarrow> quiet h \<Longrightarrow> a' = a \<and> h' = h"
  by (auto simp: optional_identity_def fs_symlink_metadata_def lo_simps
       dest: quiet_owned_file split: option.splits if_splits)

text \<open>Opening the staged file: it exists afterwards, and no other name changed.\<close>

definition content_at :: "path \<Rightarrow> host \<Rightarrow> bytes option" where
  "content_at p h = map_option nd_content (lookup_node p h)"

text \<open>No other name shares the inode of \<open>p\<close>.\<close>

definition sole_link :: "path \<Rightarrow> host \<Rightarrow> bool" where
  "sole_link p h = (\<forall>q i. h_names h p = Some i \<and> h_names h q = Some i \<longrightarrow> q = p)"

definition others_same :: "path set \<Rightarrow> host \<Rightarrow> host \<Rightarrow> bool" where
  "others_same S h h' = (\<forall>q. q \<notin> S \<longrightarrow> lookup_node q h' = lookup_node q h)"

lemma lookup_update:
  assumes "host_ok h" "h_names h p = Some i" "sole_link p h"
  shows "lookup_node q (update_node i n h) = (if q = p then Some n else lookup_node q h)"
proof (cases "h_names h q")
  case None
  then show ?thesis using assms(2) by (auto simp: lookup_node_def lookup_inode_def update_node_def)
next
  case (Some j)
  have "i < length (h_nodes h)" "j < length (h_nodes h)"
    using assms(1,2) Some by (auto simp: host_ok_def)
  moreover have "q \<noteq> p \<Longrightarrow> j \<noteq> i" using assms(2,3) Some unfolding sole_link_def by metis
  ultimately show ?thesis
    using Some assms(2) by (auto simp: lookup_node_def lookup_inode_def update_node_def)
qed

lemma sole_link_new: "host_ok h \<Longrightarrow> sole_link p (link_new p n h)"
  by (auto simp: sole_link_def link_new_def host_ok_def split: if_splits)

lemma quiet_open_staged:
  assumes q: "quiet h" "host_ok h" "sole_link p h" and o: "fs_open p True True tr h = (Ok i, h')"
  shows "quiet h' \<and> host_ok h' \<and> sole_link p h' \<and> h_names h' p = Some i \<and> others_same {p} h h' \<and>
    content_at p h' = (if tr \<or> content_at p h = None then Some [] else content_at p h) \<and>
    h_cells h' = h_cells h \<and> h_instant h' = h_instant h"
proof (cases "lookup_inode p h")
  case None
  then have h': "h' = link_new p (new_file h) h" "i = length (h_nodes h)"
    using o q(1) by (auto simp: fs_open_def split: if_splits)
  have "content_at p h = None" using None by (simp add: content_at_def lookup_node_def)
  moreover have "others_same {p} h h'" "content_at p h' = Some []"
    unfolding h'(1) by (simp_all add: others_same_def content_at_def lookup_link_new [OF q(2)] new_file_def)
  moreover have "sole_link p h'" "host_ok h'" "quiet h'"
    unfolding h'(1) using q by (simp_all add: sole_link_new host_ok_updates)
  ultimately show ?thesis using h' by (simp add: link_new_def)
next
  case (Some j)
  let ?n = "(h_nodes h ! j)\<lparr>nd_content := [], nd_modified := Some (h_clock h)\<rparr>"
  have j: "h_names h p = Some j" using Some lookup_inode_ok [OF q(2)] by simp
  have h': "i = j" "h' = (if tr then update_node j ?n h else h)"
    using o q(1) Some by (auto simp: fs_open_def Let_def split: if_splits)
  show ?thesis
  proof (cases tr)
    case True
    then have h'': "h' = update_node j ?n h" using h' by simp
    have "others_same {p} h h'" "content_at p h' = Some []"
      unfolding h'' by (simp_all add: others_same_def content_at_def lookup_update [OF q(2) j q(3)])
    moreover have "host_ok h'" "quiet h'" unfolding h'' using q by (simp_all add: host_ok_updates)
    moreover have "sole_link p h'" using q(3) by (simp add: h'' sole_link_def update_node_def)
    ultimately show ?thesis using h' j True by (simp add: update_node_def)
  next
    case False
    then show ?thesis
      using h' q j Some by (simp add: others_same_def content_at_def lookup_node_def)
  qed
qed

lemma quiet_open: "fs_open p wr cr tr h = (r, h') \<Longrightarrow> quiet h \<Longrightarrow> quiet h'"
  by (auto simp: fs_open_def Let_def split: option.splits if_splits)

section \<open>The operations on a quiet host\<close>

lemma register_staged_Ok [lo_simps]:
  "register_staged wh sw (a, h) = (Ok u, w') \<longleftrightarrow>
     \<not> lo_staged_poisoned a \<and> w' = (a\<lparr>lo_staged := (lo_staged a)(wh \<mapsto> sw)\<rparr>, h)"
  by (auto simp: register_staged_def lo_simps split: if_splits)

lemma choose_final_path_Ok:
  "choose_final_path ut handle bound current policy = Ok final \<Longrightarrow>
   final = bound \<or> final = renamed_path ut bound handle"
  by (auto simp: choose_final_path_def split: if_splits conflict_policy.splits)

lemma quiet_begin:
  assumes "begin_staged_write ut handle es rf ed pol c (a, h) = (Ok rc, (a', h'))" "quiet h"
  obtains bound final staged i where
    "owner_path handle StagedDestination Op_Write a = Ok bound"
    "final = bound \<or> final = renamed_path ut bound handle"
    "staged_path ut final handle = Ok staged"
    "fs_open staged True True (rf = None) h = (Ok i, h')"
    "a' = a\<lparr>lo_staged := (lo_staged a)(write_handle_from_local handle \<mapsto>
       \<lparr>sw_staged_path = staged, sw_final_path = final, sw_conflict_policy = pol\<rparr>)\<rparr>"
    "lr_handle rc = write_handle_from_local handle"
    "lr_next_offset rc = (case rf of Some n \<Rightarrow> n | None \<Rightarrow> 0)"
    "\<And>n. rf = Some n \<Longrightarrow> md_len (node_metadata (h_nodes h' ! i)) = n"
proof -
  from assms obtain bound current final staged i h1 where
    b: "owner_path handle StagedDestination Op_Write a = Ok bound" and
    f: "choose_final_path ut handle bound current pol = Ok final"
    "staged_path ut final handle = Ok staged"
    "fs_open staged True True (rf = None) h = (Ok i, h1)"
    "(if rf \<noteq> None
        then lo_bind (lo_host (\<lambda>_. stat_error) (fd_metadata i)) (\<lambda>md.
               if md_len md \<noteq> (case rf of Some n \<Rightarrow> n | None \<Rightarrow> 0)
               then lo_fail (mk_error Ek_Conflict Op_Resume ''local_partial_size_changed'' Retry_UserAction)
               else lo_return ())
        else lo_return ()) (a, h1) = (Ok (), (a, h1))"
    "a' = a\<lparr>lo_staged := (lo_staged a)(write_handle_from_local handle \<mapsto>
       \<lparr>sw_staged_path = staged, sw_final_path = final, sw_conflict_policy = pol\<rparr>)\<rparr>"
    "h' = h1" "rc = \<lparr>lr_handle = write_handle_from_local handle,
       lr_next_offset = (case rf of Some n \<Rightarrow> n | None \<Rightarrow> 0), lr_identity = current\<rparr>"
    unfolding begin_staged_write_def Let_def fst_conv
    by (auto simp: lo_simps open_file_def quiet_open
        dest!: quiet_validate_destination quiet_optional_identity split: if_splits)
  have "rf = Some n \<Longrightarrow> md_len (node_metadata (h_nodes h' ! i)) = n" for n
    using f(4,6) quiet_open [OF f(3) assms(2)] by (auto simp: lo_simps split: if_splits)
  then show ?thesis
    using that [OF b choose_final_path_Ok [OF f(1)] f(2) _ f(5)] f by simp
qed

lemma quiet_write_chunk:
  assumes "local_write_chunk wh off bs c (a, h) = (Ok rc, (a', h'))" "quiet h"
  obtains sw i where
    "lo_staged a wh = Some sw" "a' = a" "lookup_inode (sw_staged_path sw) h = Some i"
    "of_nat (length (nd_content (h_nodes h ! i))) = off"
    "h' = update_node i ((h_nodes h ! i)\<lparr>
       nd_content := write_at (unat off) bs (nd_content (h_nodes h ! i)),
       nd_modified := Some (h_clock h)\<rparr>) h"
    "lr_next_offset rc = saturating_add off (of_nat (length bs))" "lr_handle rc = wh"
proof -
  have op: "fs_open p True False False h = (Ok i, h1) \<Longrightarrow> h1 = h \<and> lookup_inode p h = Some i" for p i h1
    using assms(2) by (auto simp: fs_open_def Let_def split: option.splits if_splits)
  have "\<exists>sw i. lo_staged a wh = Some sw \<and> a' = a \<and> lookup_inode (sw_staged_path sw) h = Some i \<and>
    of_nat (length (nd_content (h_nodes h ! i))) = off \<and>
    h' = update_node i ((h_nodes h ! i)\<lparr>
       nd_content := write_at (unat off) bs (nd_content (h_nodes h ! i)),
       nd_modified := Some (h_clock h)\<rparr>) h \<and>
    lr_next_offset rc = saturating_add off (of_nat (length bs)) \<and> lr_handle rc = wh"
    using assms
    by (auto simp: local_write_chunk_def lo_simps open_file_def find_staged_def fd_seek_def
        fd_write_all_def fd_sync_data_def node_metadata_def Let_def dest!: op split: if_splits)
  then show ?thesis using that by blast
qed

lemma quiet_commit:
  assumes "commit_staged_write wh es c (a, h) = (Ok ident, (a', h'))" "quiet h"
  obtains sw i where
    "lo_staged a wh = Some sw" "a' = a\<lparr>lo_staged := (lo_staged a)(wh := None)\<rparr>"
    "lookup_inode (sw_staged_path sw) h = Some i"
    "h' = h\<lparr>h_names := (h_names h)(sw_staged_path sw := None, sw_final_path sw \<mapsto> i)\<rparr>"
    "is_none_or es (\<lambda>n. of_nat (length (nd_content (h_nodes h ! i))) = n)"
proof -
  have ren: "fs_rename nr p q h = (Ok u, h1) \<Longrightarrow>
      \<exists>i. lookup_inode p h = Some i \<and> h1 = h\<lparr>h_names := (h_names h)(p := None, q \<mapsto> i)\<rparr>" for nr p q u h1
    using assms(2) by (auto simp: fs_rename_def split: option.splits if_splits)
  have "\<exists>sw i. lo_staged a wh = Some sw \<and> a' = a\<lparr>lo_staged := (lo_staged a)(wh := None)\<rparr> \<and>
    lookup_inode (sw_staged_path sw) h = Some i \<and>
    h' = h\<lparr>h_names := (h_names h)(sw_staged_path sw := None, sw_final_path sw \<mapsto> i)\<rparr> \<and>
    is_none_or es (\<lambda>n. of_nat (length (nd_content (h_nodes h ! i))) = n)"
    using assms
    by (auto simp: commit_staged_write_def Let_def lo_simps find_staged_def lookup_node_def
        node_metadata_def not_is_some_and dest!: ren quiet_owned_file split: if_splits)
  then show ?thesis using that by blast
qed

section \<open>A whole staged write\<close>

fun write_chunks :: "local_write_handle \<Rightarrow> u64 \<Rightarrow> bytes list \<Rightarrow> io_control \<Rightarrow> u64 local_io" where
  "write_chunks wh off [] c = lo_return off"
| "write_chunks wh off (b # bs) c =
     lo_bind (local_write_chunk wh off b c) (\<lambda>rc. write_chunks wh (lr_next_offset rc) bs c)"

definition staging :: "local_owner \<Rightarrow> host \<Rightarrow> local_write_handle \<Rightarrow> staged_write \<Rightarrow> bytes \<Rightarrow> bool" where
  "staging a h wh sw content =
     (lo_staged a wh = Some sw \<and> quiet h \<and> host_ok h \<and> sole_link (sw_staged_path sw) h \<and>
      content_at (sw_staged_path sw) h = Some content)"

lemma others_same_trans: "others_same S h h1 \<Longrightarrow> others_same S h1 h2 \<Longrightarrow> others_same S h h2"
  by (simp add: others_same_def)

lemma write_chunk_step:
  assumes "staging a h wh sw pre" "length pre < 2 ^ 64"
    and "local_write_chunk wh (of_nat (length pre)) b c (a, h) = (Ok rc, (a', h'))"
  shows "staging a' h' wh sw (pre @ b) \<and> others_same {sw_staged_path sw} h h' \<and>
    lr_next_offset rc = saturating_add (of_nat (length pre)) (of_nat (length b))"
proof -
  have s: "lo_staged a wh = Some sw" "quiet h" "host_ok h" "sole_link (sw_staged_path sw) h"
    "content_at (sw_staged_path sw) h = Some pre"
    using assms(1) by (auto simp: staging_def)
  obtain i where i: "a' = a" "lookup_inode (sw_staged_path sw) h = Some i"
    "h' = update_node i ((h_nodes h ! i)\<lparr>
       nd_content := write_at (unat (of_nat (length pre) :: u64)) b (nd_content (h_nodes h ! i)),
       nd_modified := Some (h_clock h)\<rparr>) h"
    "lr_next_offset rc = saturating_add (of_nat (length pre)) (of_nat (length b))"
    by (rule quiet_write_chunk [OF assms(3) s(2)]) (use s(1) in auto)
  have n: "h_names h (sw_staged_path sw) = Some i" using i(2) lookup_inode_ok [OF s(3)] by simp
  have c: "nd_content (h_nodes h ! i) = pre" using s(5) i(2) by (simp add: content_at_def lookup_node_def)
  have u: "unat (of_nat (length pre) :: u64) = length pre"
    using assms(2) by (simp add: unat_of_nat)
  note up = lookup_update [OF s(3) n s(4)]
  have "content_at (sw_staged_path sw) h' = Some (pre @ b)"
    by (simp add: i(3) content_at_def up c u write_at_end)
  moreover have "others_same {sw_staged_path sw} h h'" by (simp add: i(3) others_same_def up)
  moreover have "quiet h'" "host_ok h'" "sole_link (sw_staged_path sw) h'"
    using s by (simp_all add: i(3) host_ok_updates) (simp add: sole_link_def update_node_def)
  ultimately show ?thesis using i s(1) by (simp add: staging_def)
qed

lemma write_chunks_all:
  assumes "staging a h wh sw pre" "length (pre @ concat bs) < 2 ^ 64"
    and "write_chunks wh (of_nat (length pre)) bs c (a, h) = (Ok off, (a', h'))"
  shows "staging a' h' wh sw (pre @ concat bs) \<and> others_same {sw_staged_path sw} h h' \<and>
    off = of_nat (length (pre @ concat bs))"
  using assms
proof (induction bs arbitrary: a h pre)
  case Nil
  then show ?case by (simp add: lo_simps others_same_def)
next
  case (Cons b bs)
  then obtain rc a1 h1 where w: "local_write_chunk wh (of_nat (length pre)) b c (a, h) = (Ok rc, (a1, h1))"
    "write_chunks wh (lr_next_offset rc) bs c (a1, h1) = (Ok off, (a', h'))"
    by (auto simp: lo_simps)
  have l: "length pre < 2 ^ 64" "length (pre @ b) < 2 ^ 64" using Cons.prems(2) by auto
  note step = write_chunk_step [OF Cons.prems(1) l(1) w(1)]
  have "lr_next_offset rc = of_nat (length (pre @ b))"
    using step l by (simp add: saturating_add_def unat_of_nat)
  then have "staging a' h' wh sw ((pre @ b) @ concat bs) \<and> others_same {sw_staged_path sw} h1 h' \<and>
      off = of_nat (length ((pre @ b) @ concat bs))"
    using Cons.IH [of a1 h1 "pre @ b"] step w(2) Cons.prems(2) by simp
  then show ?case using step others_same_trans by auto
qed

lemma commit_places:
  assumes st: "staging a h wh sw content"
    and c: "commit_staged_write wh cs c (a, h) = (Ok ident, (a', h'))"
  shows "content_at (sw_final_path sw) h' = Some content \<and>
    (sw_staged_path sw \<noteq> sw_final_path sw \<longrightarrow> lookup_node (sw_staged_path sw) h' = None) \<and>
    others_same {sw_staged_path sw, sw_final_path sw} h h' \<and>
    is_none_or cs (\<lambda>n. n = of_nat (length content)) \<and> lo_staged a' wh = None"
proof -
  have q: "quiet h" "lo_staged a wh = Some sw" using st by (simp_all add: staging_def)
  obtain i where i: "a' = a\<lparr>lo_staged := (lo_staged a)(wh := None)\<rparr>"
    "lookup_inode (sw_staged_path sw) h = Some i"
    "h' = h\<lparr>h_names := (h_names h)(sw_staged_path sw := None, sw_final_path sw \<mapsto> i)\<rparr>"
    "is_none_or cs (\<lambda>n. of_nat (length (nd_content (h_nodes h ! i))) = n)"
    by (rule quiet_commit [OF c q(1)]) (use q in auto)
  have "nd_content (h_nodes h ! i) = content"
    using st i(2) by (simp add: staging_def content_at_def lookup_node_def)
  moreover have "i < length (h_nodes h)"
    using i(2) by (auto simp: lookup_inode_def bind_eq_Some_conv split: if_splits)
  ultimately show ?thesis
    using i(1,4)
    by (auto simp: i(3) content_at_def lookup_node_def lookup_inode_def others_same_def is_none_or_iff)
qed

lemma begin_staging:
  assumes "begin_staged_write ut handle es None ed pol c (a, h) = (Ok rc, (a1, h1))"
    and "quiet h" "host_ok h" "\<forall>p. sole_link p h"
  obtains bound sw where "owner_path handle StagedDestination Op_Write a = Ok bound"
    "sw_final_path sw = bound \<or> sw_final_path sw = renamed_path ut bound handle"
    "staged_path ut (sw_final_path sw) handle = Ok (sw_staged_path sw)"
    "staging a1 h1 (lr_handle rc) sw []" "others_same {sw_staged_path sw} h h1"
    "lr_next_offset rc = 0"
proof (rule quiet_begin [OF assms(1,2)])
  fix bound final staged i
  assume *: "owner_path handle StagedDestination Op_Write a = Ok bound"
    "final = bound \<or> final = renamed_path ut bound handle" "staged_path ut final handle = Ok staged"
    "fs_open staged True True (None = None) h = (Ok i, h1)"
    "a1 = a\<lparr>lo_staged := (lo_staged a)(write_handle_from_local handle \<mapsto>
       \<lparr>sw_staged_path = staged, sw_final_path = final, sw_conflict_policy = pol\<rparr>)\<rparr>"
    "lr_handle rc = write_handle_from_local handle"
    "lr_next_offset rc = (case None of Some n \<Rightarrow> n | None \<Rightarrow> 0)"
  let ?sw = "\<lparr>sw_staged_path = staged, sw_final_path = final, sw_conflict_policy = pol\<rparr>"
  have "sole_link staged h" using assms(4) by blast
  note o = quiet_open_staged [OF assms(2,3) this *(4)]
  then have "staging a1 h1 (lr_handle rc) ?sw []" using * by (simp add: staging_def)
  then show ?thesis using that [of bound ?sw] * o by simp
qed

text \<open>A download replaces its destination in one step. On a quiet host, between a successful
  begin and the commit only the staged file, next to the destination, differs from before, so the
  destination still has its old content; after the commit the destination holds exactly the bytes
  of the chunks in order, the staged name is gone, and nothing else changed.\<close>

theorem staged_write_atomic:
  assumes "begin_staged_write ut handle es None ed pol c (a, h) = (Ok rc, (a1, h1))"
    and "write_chunks (lr_handle rc) (lr_next_offset rc) bs c (a1, h1) = (Ok off, (a2, h2))"
    and "commit_staged_write (lr_handle rc) cs c (a2, h2) = (Ok ident, (a3, h3))"
    and "quiet h" and "host_ok h" and "\<forall>p. sole_link p h" and "length (concat bs) < 2 ^ 64"
  shows "\<exists>bound final staged.
     owner_path handle StagedDestination Op_Write a = Ok bound \<and>
     (final = bound \<or> final = renamed_path ut bound handle) \<and>
     staged_path ut final handle = Ok staged \<and>
     others_same {staged} h h2 \<and> content_at staged h2 = Some (concat bs) \<and>
     content_at final h3 = Some (concat bs) \<and>
     (staged \<noteq> final \<longrightarrow> lookup_node staged h3 = None) \<and>
     others_same {staged, final} h h3 \<and> is_none_or cs (\<lambda>n. n = of_nat (length (concat bs)))"
proof (rule begin_staging [OF assms(1,4-6)])
  fix bound sw
  assume b: "owner_path handle StagedDestination Op_Write a = Ok bound"
    "sw_final_path sw = bound \<or> sw_final_path sw = renamed_path ut bound handle"
    "staged_path ut (sw_final_path sw) handle = Ok (sw_staged_path sw)"
    and st: "staging a1 h1 (lr_handle rc) sw []" and o: "others_same {sw_staged_path sw} h h1"
    and z: "lr_next_offset rc = 0"
  have w: "staging a2 h2 (lr_handle rc) sw (concat bs)" "others_same {sw_staged_path sw} h1 h2"
    using write_chunks_all [OF st, of bs c off a2 h2] assms(2,7) z by simp_all
  note c = commit_places [OF w(1) assms(3)]
  have "others_same {sw_staged_path sw} h h2" using o w(2) by (rule others_same_trans)
  moreover from this have "others_same {sw_staged_path sw, sw_final_path sw} h h3"
    using c by (simp add: others_same_def)
  moreover have "content_at (sw_staged_path sw) h2 = Some (concat bs)"
    using w(1) by (simp add: staging_def)
  ultimately show ?thesis using b c by blast
qed

definition sample_dir :: path where
  "sample_dir = \<lparr>p_absolute = True, p_components = [''d'']\<rparr>"

definition sample_dest :: path where
  "sample_dest = \<lparr>p_absolute = True, p_components = [''d'', ''f'']\<rparr>"

definition sample_host :: host where
  "sample_host =
     \<lparr>h_names = [sample_dir \<mapsto> 0],
      h_nodes = [\<lparr>nd_kind = Node_Dir, nd_content = [], nd_uid = 1000, nd_modified = Some 1,
                  nd_readable = True, nd_writable = True, nd_target_exists = False\<rparr>],
      h_cells = [False], h_instant = 0, h_clock = 5, h_uid = 1000, h_script = []\<rparr>"

definition sample_owner :: local_owner where
  "sample_owner = (owner_new 1000)\<lparr>lo_bindings :=
     [LocalFileHandle 2 \<mapsto> \<lparr>lb_path = sample_dest, lb_access = StagedDestination\<rparr>]\<rparr>"

definition sample_control :: io_control where
  "sample_control = \<lparr>ctl_deadline = 100, ctl_cell = 0\<rparr>"

definition sample_begin where
  "sample_begin = begin_staged_write (\<lambda>_. ''u'') (LocalFileHandle 2) (Some 3) None None Policy_Fail
     sample_control (sample_owner, sample_host)"

definition sample_receipt :: local_write_receipt where
  "sample_receipt = \<lparr>lr_handle = LocalWriteHandle 2, lr_next_offset = 0, lr_identity = None\<rparr>"

definition sample_writes where
  "sample_writes = write_chunks (LocalWriteHandle 2) 0 [[1, 2], [3]] sample_control (snd sample_begin)"

definition sample_commit where
  "sample_commit = commit_staged_write (LocalWriteHandle 2) (Some 3) sample_control (snd sample_writes)"

lemmas run_defs = lo_bind_def lo_return_def lo_fail_def lo_host_def lo_check_def lo_owner_def
  lo_modify_def host_check_def control_check_def control_is_cancelled_def tick_def host_call_def
  owner_path_def validate_destination_def validate_owned_file_def optional_identity_def lo_exists_def
  path_exists_def fs_symlink_metadata_def lookup_node_def lookup_inode_def node_metadata_def
  ensure_identity_def choose_final_path_def staged_path_def path_parent_def path_join_def
  open_file_def fs_open_def link_new_def new_file_def register_staged_def write_handle_from_local_def
  fd_metadata_def find_staged_def fd_seek_def fd_write_all_def fd_sync_data_def update_node_def
  write_at_def fs_rename_def Let_def saturating_add_def MAX_REMOTE_CHUNK_BYTES_def i64_max_def

lemmas sample_host_defs = sample_dir_def sample_dest_def sample_host_def sample_owner_def
  owner_new_def sample_control_def sample_receipt_def

lemma sample_begin_Ok: "fst sample_begin = Ok sample_receipt"
  by (simp add: sample_begin_def begin_staged_write_def run_defs sample_host_defs)

lemma sample_writes_Ok: "fst sample_writes = Ok 3"
  by (simp add: sample_writes_def sample_begin_def begin_staged_write_def local_write_chunk_def
      run_defs sample_host_defs)

lemma sample_commit_Ok: "is_ok (fst sample_commit)"
  by (simp add: sample_commit_def commit_staged_write_def sample_writes_def sample_begin_def
      begin_staged_write_def local_write_chunk_def run_defs sample_host_defs)

theorem staged_write_atomic_witness:
  "\<exists>final. (final = sample_dest \<or> final = renamed_path (\<lambda>_. ''u'') sample_dest (LocalFileHandle 2)) \<and>
     content_at final (snd (snd sample_commit)) = Some [1, 2, 3]"
proof -
  obtain ident where i: "fst sample_commit = Ok ident" using sample_commit_Ok by (auto simp: is_ok_iff)
  have b: "begin_staged_write (\<lambda>_. ''u'') (LocalFileHandle 2) (Some 3) None None Policy_Fail
      sample_control (sample_owner, sample_host)
      = (Ok sample_receipt, (fst (snd sample_begin), snd (snd sample_begin)))"
    using sample_begin_Ok by (metis prod.collapse sample_begin_def)
  have w: "write_chunks (lr_handle sample_receipt) (lr_next_offset sample_receipt) [[1, 2], [3]]
      sample_control (fst (snd sample_begin), snd (snd sample_begin))
      = (Ok 3, (fst (snd sample_writes), snd (snd sample_writes)))"
    using sample_writes_Ok by (simp add: sample_writes_def sample_receipt_def prod_eq_iff)
  have c: "commit_staged_write (lr_handle sample_receipt) (Some 3) sample_control
      (fst (snd sample_writes), snd (snd sample_writes))
      = (Ok ident, (fst (snd sample_commit), snd (snd sample_commit)))"
    using i by (simp add: sample_commit_def sample_receipt_def prod_eq_iff)
  have h: "quiet sample_host" "host_ok sample_host" "\<forall>p. sole_link p sample_host"
    by (auto simp: quiet_def host_ok_def sole_link_def sample_host_def split: if_splits)
  have p: "owner_path (LocalFileHandle 2) StagedDestination Op_Write sample_owner = Ok sample_dest"
    by (simp add: owner_path_def sample_owner_def owner_new_def)
  show ?thesis using staged_write_atomic [OF b w c h] p by auto
qed

section \<open>Abort and resume\<close>

lemma renamed_parent:
  "path_file_name p \<noteq> None \<Longrightarrow> path_parent (renamed_path ut p handle) = path_parent p"
  by (auto simp: path_parent_def renamed_path_def path_with_file_name_def path_file_name_def Let_def
      split: if_splits)

lemma owner_path_staged [simp]:
  "owner_path handle access op (a\<lparr>lo_staged := s\<rparr>) = owner_path handle access op a"
  by (simp add: owner_path_def cong: if_cong)

lemma quiet_abort:
  assumes "abort_staged_write wh c (a, h) = (Ok u, (a', h'))" "quiet h" "lo_staged a wh = Some sw"
  shows "quiet h' \<and> lookup_inode (sw_staged_path sw) h' = None \<and>
    a' = a\<lparr>lo_staged := (lo_staged a)(wh := None)\<rparr>"
  using assms
  by (auto simp: abort_staged_write_def lo_simps fs_remove_file_def lookup_node_def
      split: if_splits option.splits prod.splits sum.splits)
     (auto simp: lookup_inode_def quiet_def)

lemma open_created_empty:
  "fs_open p True True False h = (Ok i, h') \<Longrightarrow> quiet h \<Longrightarrow> lookup_inode p h = None \<Longrightarrow>
   nd_content (h_nodes h' ! i) = []"
  by (auto simp: fs_open_def link_new_def new_file_def split: if_splits)

text \<open>What was aborted cannot be resumed. Aborting a staged write removes the staged file; a
  later begin that asks to resume the same handle at a positive offset never succeeds, whatever
  the expected size, identity, policy and deadline (on a quiet host, with the destination still
  bound as it was).\<close>

theorem aborted_write_cannot_resume:
  assumes "quiet h" and "lo_staged a (write_handle_from_local handle) = Some sw"
    and "owner_path handle StagedDestination Op_Write a = Ok bound"
    and "path_file_name bound \<noteq> None"
    and "staged_path ut bound handle = Ok (sw_staged_path sw)"
    and "abort_staged_write (write_handle_from_local handle) c (a, h) = (Ok (), (a', h'))"
    and "0 < n"
  shows "\<not> is_ok (fst (begin_staged_write ut handle es (Some n) ed pol c' (a', h')))"
proof
  assume "is_ok (fst (begin_staged_write ut handle es (Some n) ed pol c' (a', h')))"
  then obtain rc a2 h2 where
    b: "begin_staged_write ut handle es (Some n) ed pol c' (a', h') = (Ok rc, (a2, h2))"
    by (metis is_ok_iff prod.collapse)
  note ab = quiet_abort [OF assms(6,1,2)]
  have q: "quiet h'" "lookup_inode (sw_staged_path sw) h' = None" using ab by auto
  show False
  proof (rule quiet_begin [OF b q(1)])
    fix bound' final staged i
    assume *: "owner_path handle StagedDestination Op_Write a' = Ok bound'"
      "final = bound' \<or> final = renamed_path ut bound' handle" "staged_path ut final handle = Ok staged"
      "fs_open staged True True (Some n = None) h' = (Ok i, h2)"
      "\<And>m. Some n = Some m \<Longrightarrow> md_len (node_metadata (h_nodes h2 ! i)) = m"
    have "bound' = bound" using *(1) assms(3) ab by simp
    then have "staged = sw_staged_path sw"
      using *(2,3) assms(4,5) by (auto simp: staged_path_def renamed_parent and_then_eq_Ok)
    then have "nd_content (h_nodes h2 ! i) = []" using *(4) open_created_empty q by simp
    then show False using *(5) [of n] assms(7) by (simp add: node_metadata_def)
  qed
qed

definition sample_abort where
  "sample_abort = abort_staged_write (LocalWriteHandle 2) sample_control (snd sample_writes)"

theorem aborted_write_cannot_resume_witness:
  "\<not> is_ok (fst (begin_staged_write (\<lambda>_. ''u'') (LocalFileHandle 2) (Some 3) (Some 3) None Policy_Resume
     sample_control (snd sample_abort)))"
proof -
  let ?sw = "\<lparr>sw_staged_path = sample_dest\<lparr>p_components := [''d'', ''.localdesk-transfer-u.part'']\<rparr>,
    sw_final_path = sample_dest, sw_conflict_policy = Policy_Fail\<rparr>"
  have st: "quiet (snd (snd sample_writes))"
    "lo_staged (fst (snd sample_writes)) (write_handle_from_local (LocalFileHandle 2)) = Some ?sw"
    "owner_path (LocalFileHandle 2) StagedDestination Op_Write (fst (snd sample_writes)) = Ok sample_dest"
    by (simp_all add: sample_writes_def sample_begin_def begin_staged_write_def local_write_chunk_def
        run_defs sample_host_defs quiet_def)
  have ab: "fst sample_abort = Ok ()"
    by (simp add: sample_abort_def abort_staged_write_def fs_remove_file_def sample_writes_def
        sample_begin_def begin_staged_write_def local_write_chunk_def run_defs sample_host_defs)
  then have "abort_staged_write (write_handle_from_local (LocalFileHandle 2)) sample_control
      (fst (snd sample_writes), snd (snd sample_writes)) = (Ok (), (fst (snd sample_abort), snd (snd sample_abort)))"
    by (simp add: sample_abort_def write_handle_from_local_def prod_eq_iff)
  from aborted_write_cannot_resume [OF st _ _ this, of "\<lambda>_. ''u''" 3]
  show ?thesis
    by (simp add: path_file_name_def sample_dest_def staged_path_def path_parent_def path_join_def)
qed

end
