(* ===== verification/Transfer_Runs.thy ===== *)
theory Transfer_Runs
  imports Transfer_Executor Local_Staging
begin

text \<open>
  One run of a transfer ends: the copy loops advance by at least one byte per round for every
  remote side, every store and every behaviour of the host. The bandwidth limit is kept, but the
  loop that keeps it can panic. A session that serves a fixed file is the example environment.
\<close>

section \<open>Sequenced steps of the executor\<close>

named_theorems xio_simps "evaluation and inversion of the steps of a run"

lemma xbind_None [xio_simps]:
  "xbind m f x = None \<longleftrightarrow> m x = None \<or> (\<exists>v x1. m x = Some (Ok v, x1) \<and> f v x1 = None)"
  by (auto simp: xbind_def split: option.splits prod.splits sum.splits)

lemma xbind_Ok [xio_simps]:
  "xbind m f x = Some (Ok y, x') \<longleftrightarrow> (\<exists>v x1. m x = Some (Ok v, x1) \<and> f v x1 = Some (Ok y, x'))"
  by (auto simp: xbind_def split: option.splits prod.splits sum.splits)

lemma xio_prims [xio_simps]:
  "xret v x = Some (Ok y, x') \<longleftrightarrow> y = v \<and> x' = x" "xret v x = None \<longleftrightarrow> False"
  "xfail e x = Some (Ok y, x') \<longleftrightarrow> False" "xfail e x = None \<longleftrightarrow> False"
  "xpanic x = None"
  "xres r x = Some (Ok y, x') \<longleftrightarrow> r = Ok y \<and> x' = x" "xres r x = None \<longleftrightarrow> False"
  "xremote call c x = None \<longleftrightarrow> False" "xlocal m x = None \<longleftrightarrow> False"
  "xcheck c op x = None \<longleftrightarrow> False" "xinstant x = None \<longleftrightarrow> False"
  by (auto simp: xret_def xfail_def xpanic_def xres_def xremote_def xlocal_def xcheck_def
      xinstant_def split: prod.splits)

lemma record_progress_None [xio_simps]: "record_progress_exec env i tok b n s x = None \<longleftrightarrow> False"
  by (simp add: record_progress_exec_def split: prod.splits sum.splits)

lemma record_zero_None [xio_simps]: "record_zero_progress env t tok off n x = None \<longleftrightarrow> False"
  by (auto simp: record_zero_progress_def xio_simps simp del: not_None_eq)

lemma operation_control_None [xio_simps]: "operation_control env c x = None \<longleftrightarrow> False"
  by (simp add: operation_control_def xio_simps)

lemma throttle_unlimited [xio_simps]:
  "task_bandwidth_limit t = None \<Longrightarrow> throttle_and_record env fuel t tok b n started c x = None \<longleftrightarrow> False"
  by (auto simp: throttle_and_record_def xio_simps Let_def)

section \<open>The copy loops end\<close>

text \<open>A step of progress that goes beyond the known size is refused.\<close>

lemma mutate_Ok:
  "mutate st i m q = (Ok v, q') \<Longrightarrow> \<exists>t t'. bt_get i (tq_tasks q) = Some t \<and> m t = Ok (v, t')"
  by (auto simp: mutate_def split: option.splits sum.splits prod.splits if_splits)

lemma with_queue_Ok [xio_simps]:
  "with_queue f x = (Ok v, x') \<longleftrightarrow>
     \<not> x_poisoned x \<and> (\<exists>q. f (x_queue x) = (Ok v, q) \<and> x' = x\<lparr>x_queue := q\<rparr>)"
  by (auto simp: with_queue_def split: prod.splits sum.splits if_splits)

lemma record_progress_within:
  assumes "record_progress_exec env i tok b (Some n) s x = Some (Ok (), x')"
  shows "b \<le> n"
proof -
  obtain now x1 q where "with_queue (mutate (xe_store env) i (record_progress tok b (Some n) s now)) x1
      = (Ok q, x')"
    using assms by (auto simp: record_progress_exec_def split: prod.splits sum.splits if_splits)
  then obtain t t' where "record_progress tok b (Some n) s now t = Ok (q, t')"
    by (auto simp: xio_simps dest!: mutate_Ok)
  then show ?thesis by (cases q) (auto simp: op_ok total_after_def)
qed

lemma throttle_within:
  "throttle_and_record env fuel t tok b (Some n) started c x = Some (Ok (), x') \<Longrightarrow> b \<le> n"
  by (auto simp: throttle_and_record_def xio_simps Let_def dest!: record_progress_within)

text \<open>A successful local read or write is at an offset the file system accepts and moves at most
  one chunk, whatever happens on the host.\<close>

lemma seek_Ok: "fd_seek off h = (Ok u, h') \<Longrightarrow> uint off \<le> i64_max"
  by (auto simp: fd_seek_def host_call_def split: prod.splits option.splits if_splits)

lemma read_Ok: "fd_read i off n h = (Ok bs, h') \<Longrightarrow> length bs \<le> n"
  by (auto simp: fd_read_def host_call_def split: prod.splits option.splits)

lemma write_chunk_bounds:
  assumes "local_write_chunk wh off bs c (a, h) = (Ok rc, w')"
  shows "uint off \<le> i64_max \<and> bs \<noteq> [] \<and> length bs \<le> MAX_REMOTE_CHUNK_BYTES"
  using assms
  by (cases w') (auto simp: local_write_chunk_def lo_simps dest!: seek_Ok split: if_splits)

lemma read_chunk_bounds:
  assumes "local_read_chunk_op lh off k ex c (a, h) = (Ok ch, w')"
  shows "uint off \<le> i64_max \<and> length (lc_bytes ch) \<le> MAX_REMOTE_CHUNK_BYTES"
  using assms
  by (cases w') (auto simp: local_read_chunk_op_def lo_simps Let_def dest!: seek_Ok read_Ok
      split: if_splits)

lemma chunk_advances:
  assumes "uint (off :: u64) \<le> i64_max" "bs \<noteq> []" "length bs \<le> MAX_REMOTE_CHUNK_BYTES"
  shows "unat off < unat (saturating_add off (of_nat (length bs)))"
proof -
  have l: "0 < length bs" "length bs < 2 ^ 64"
    using assms(2,3) by (auto simp: MAX_REMOTE_CHUNK_BYTES_def)
  then have "unat (of_nat (length bs) :: u64) = length bs" by (simp add: unat_of_nat)
  moreover have "unat off < 2 ^ 63"
    using assms(1) by (simp add: i64_max_def flip: nat_uint_eq)
  ultimately show ?thesis using l by (simp add: unat_saturating_add min_def)
qed

lemma xlocal_Ok [xio_simps]:
  "xlocal m x = Some (Ok v, x') \<longleftrightarrow>
     (\<exists>a h. m (x_owner x, x_host x) = (Ok v, (a, h)) \<and> x' = x\<lparr>x_owner := a, x_host := h\<rparr>)"
  by (auto simp: xlocal_def split: prod.splits)

lemma download_loop_ends:
  assumes "task_bandwidth_limit t = None" and "2 ^ 64 < fuel + unat off"
  shows "download_loop env fuel t tok c path started wh total_bytes off x \<noteq> None"
  using assms(2)
proof (induction fuel arbitrary: off total_bytes x)
  case 0
  then show ?case using unat_less_pow [of off] by simp
next
  case (Suc fuel)
  have IH: "download_loop env fuel t tok c path started wh n off1 y \<noteq> None"
    if "unat off < unat off1" for n off1 y
    using Suc.IH [of off1 n y] Suc.prems that by simp
  show ?case
  proof
    assume "download_loop env (Suc fuel) t tok c path started wh total_bytes off x = None"
    then show False
      by (auto simp: xio_simps assms(1) Let_def IH chunk_advances dest!: write_chunk_bounds
          split: if_splits simp del: not_None_eq)
  qed
qed

lemma upload_loop_ends:
  assumes "task_bandwidth_limit t = None" and "2 ^ 64 < fuel + unat off"
  shows "upload_loop env fuel t tok c lh src total_bytes started wh off x \<noteq> None"
  using assms(2)
proof (induction fuel arbitrary: off x)
  case 0
  then show ?case using unat_less_pow [of off] by simp
next
  case (Suc fuel)
  have IH: "upload_loop env fuel t tok c lh src total_bytes started wh off1 y \<noteq> None"
    if "unat off < unat off1" for off1 y
    using Suc.IH [of off1 y] Suc.prems that by simp
  show ?case
  proof
    assume "upload_loop env (Suc fuel) t tok c lh src total_bytes started wh off x = None"
    then show False
      by (auto simp: xio_simps assms(1) Let_def IH chunk_advances dest!: read_chunk_bounds
          split: if_splits simp del: not_None_eq)
  qed
qed

lemma cleanup_control_None [xio_simps]: "cleanup_control env x = None \<longleftrightarrow> False"
  by (auto simp: cleanup_control_def xio_simps split: prod.splits)

lemma xon_error_None [xio_simps]:
  "xon_error m cleanup x = None \<longleftrightarrow>
     m x = None \<or> (\<exists>e x1. m x = Some (Err e, x1) \<and> cleanup x1 = None)"
  by (auto simp: xon_error_def split: option.splits prod.splits sum.splits)

lemma complete_exec_None [xio_simps]:
  "complete_exec env t tok i x = None \<longleftrightarrow> remote_endpoint t = None"
  by (auto simp: complete_exec_def Let_def split: option.splits prod.splits sum.splits)

lemma upload_ends:
  assumes "task_bandwidth_limit t = None" "2 ^ 64 < fuel"
    and "local_handle t \<noteq> None" "remote_endpoint t \<noteq> None"
  shows "upload env fuel t tok c x \<noteq> None"
proof
  have "2 ^ 64 < fuel + unat off" for off :: u64 using assms(2) by linarith
  note ends = upload_loop_ends [OF assms(1) this]
  assume "upload env fuel t tok c x = None"
  then show False
    using assms(3,4)
    by (auto simp: ends upload_def upload_started_def xio_simps Let_def
        split: if_splits simp del: not_None_eq)
qed

lemma download_ends:
  assumes "task_bandwidth_limit t = None" "2 ^ 64 < fuel"
    and "local_handle t \<noteq> None" "remote_endpoint t \<noteq> None"
  shows "download env fuel t tok c x \<noteq> None"
proof
  have "2 ^ 64 < fuel + unat off" for off :: u64 using assms(2) by linarith
  note ends = download_loop_ends [OF assms(1) this]
  assume "download env fuel t tok c x = None"
  then show False
    using assms(3,4)
    by (auto simp: ends download_def download_started_def xio_simps Let_def
        split: if_splits prod.splits simp del: not_None_eq)
qed

text \<open>What a run needs of its task and of the session: an endpoint on either side, as
  \<^const>\<open>validate_endpoints\<close> demands, no bandwidth limit, and a complete capability matrix.\<close>

definition runs_unlimited :: "transfer_task \<Rightarrow> bool" where
  "runs_unlimited t =
     (validate_endpoints (task_direction t) (task_source t) (task_destination t) = Ok () \<and>
      task_bandwidth_limit t = None)"

definition complete_sessions :: "('s, 'r) exec_env \<Rightarrow> bool" where
  "complete_sessions env =
     (\<forall>e c x info x'. xe_open env e c x = (Ok info, x') \<longrightarrow>
        (\<exists>caps. matrix_complete caps = Ok (si_capabilities info)))"

lemma runs_unlimited_endpoints:
  "runs_unlimited t \<Longrightarrow> local_handle t \<noteq> None \<and> remote_endpoint t \<noteq> None"
  by (auto simp: runs_unlimited_def validate_endpoints_Ok local_handle_def remote_endpoint_def
      split: transfer_endpoint.splits)

lemma xcapability_None [xio_simps]: "xcapability caps op x = None \<longleftrightarrow> matrix_status caps op = None"
  by (simp add: xcapability_def require_capability_def)

lemma disconnect_quietly_None [xio_simps]: "disconnect_quietly env x = None \<longleftrightarrow> False"
  by (auto simp: disconnect_quietly_def xio_simps)

lemma execute_session_ends:
  assumes "runs_unlimited t" "2 ^ 64 < fuel" "matrix_complete caps = Ok (si_capabilities info)"
  shows "execute_session env fuel t tok c info x \<noteq> None"
proof
  have status: "matrix_status (si_capabilities info) op \<noteq> None" for op
    using matrix_complete_status [OF assms(3), of op] by auto
  have e: "task_bandwidth_limit t = None" "local_handle t \<noteq> None" "remote_endpoint t \<noteq> None"
    using assms(1) runs_unlimited_endpoints [OF assms(1)] by (simp_all add: runs_unlimited_def)
  note ends = upload_ends [OF e(1) assms(2) e(2,3)] download_ends [OF e(1) assms(2) e(2,3)]
  assume "execute_session env fuel t tok c info x = None"
  then show False
    by (auto simp: execute_session_def xio_simps status ends
        split: if_splits transfer_direction.splits simp del: not_None_eq)
qed

lemma xremote_Ok [xio_simps]: "xremote call c x = Some (Ok v, x') \<longleftrightarrow> call c x = (Ok v, x')"
  by (simp add: xremote_def)

lemma disconnect_after_None [xio_simps]: "disconnect_after env m x = None \<longleftrightarrow> m x = None"
  by (auto simp: disconnect_after_def xio_simps split: option.splits prod.splits simp del: not_None_eq)

lemma execute_io_ends:
  assumes "runs_unlimited t" "2 ^ 64 < fuel" "complete_sessions env"
  shows "execute_io env fuel t tok c x \<noteq> None"
proof
  have session: "xe_open env e cc y = (Ok info, y') \<Longrightarrow> execute_session env fuel t tok c info z \<noteq> None"
    for e cc y info y' z
    using execute_session_ends [OF assms(1,2)] assms(3) unfolding complete_sessions_def by metis
  assume "execute_io env fuel t tok c x = None"
  then show False
    using runs_unlimited_endpoints [OF assms(1)]
    by (auto simp: execute_io_def xio_simps session
        split: if_splits io_control_support.splits option.splits simp del: not_None_eq)
      (metis io_control_support.exhaust)
qed

lemma execute_started_ends:
  assumes "runs_unlimited t" "2 ^ 64 < fuel" "complete_sessions env"
  shows "execute_started env fuel t tok x \<noteq> None"
proof
  assume "execute_started env fuel t tok x = None"
  then show False
    by (auto simp: execute_started_def Let_def execute_io_ends [OF assms]
        split: if_splits option.splits prod.splits sum.splits simp del: not_None_eq)
qed

lemma frame_unlimited: "task_frame t' = task_frame t \<Longrightarrow> runs_unlimited t' = runs_unlimited t"
  by (auto simp: task_frame_def runs_unlimited_def)

context transfer_store
begin

lemma started_unlimited:
  assumes inv: "queue_inv tasks_of st_ok (x_queue x)" and "xe_store env = st_ops"
    and all: "\<forall>t \<in> set (bt_values (tq_tasks (x_queue x))). runs_unlimited t"
    and s: "start_next_exec env x = (Ok (Some (t, tok)), x')"
  shows "runs_unlimited t"
proof -
  obtain now q where q: "start_next st_ops now (x_queue x) = (Ok (Some tok), q)"
    "queue_task (tok_task_id tok) q = Some t"
    using s assms(2)
    by (auto simp: start_next_exec_def unix_time_ms_def Let_def xio_simps
        split: if_splits option.splits prod.splits sum.splits)
  then have "t \<in> set (bt_values (tq_tasks q))" by (simp add: queue_task_def bt_get_in_values)
  moreover have "runs_unlimited u'"
    if "bt_get (task_id u) (tq_tasks (x_queue x)) = Some u" "task_start now u = Ok (k, u')" for u u' k
  proof -
    have "task_frame u' = task_frame u" using run_op_frame [of "Do_start now"] that(2) by simp
    then show ?thesis using all that(1) frame_unlimited bt_get_in_values by metis
  qed
  ultimately show ?thesis
    using start_next_effect [OF inv q(1)] all bt_values_insert_subset by fastforce
qed

end

text \<open>C15: A run returns. Whatever the remote side answers, whatever the store and the host do, and
  whoever else changes the queue meanwhile, \<open>run_next\<close> on a queue of tasks without a bandwidth
  limit ends with a result: the copy loops advance by at least one byte per round and stop at the
  latest when the offset leaves the range of file positions, so $2^{64}$ rounds are enough.\<close>

theorem run_next_returns:
  assumes "transfer_store (xe_store env) tasks_of st_ok" and "queue_inv tasks_of st_ok (x_queue x)"
    and "\<forall>t \<in> set (bt_values (tq_tasks (x_queue x))). runs_unlimited t"
    and "complete_sessions env" and "2 ^ 64 < fuel"
  shows "\<exists>r x'. run_next env fuel x = Some (r, x')"
proof -
  have "execute_started env fuel t tok y \<noteq> None"
    if "start_next_exec env x = (Ok (Some (t, tok)), y)" for t tok y
    using transfer_store.started_unlimited [OF assms(1,2) refl assms(3) that]
      execute_started_ends assms(4,5) by blast
  then have "run_next env fuel x \<noteq> None"
    by (auto simp: run_next_def split: prod.splits sum.splits option.splits)
  then show ?thesis by (cases "run_next env fuel x") auto
qed

section \<open>An environment\<close>

text \<open>A session that serves one file and accepts nothing, on the in-memory store.\<close>

definition sample_matrix :: capability_matrix where
  "sample_matrix = CapabilityMatrix
     (map (\<lambda>op. \<lparr>oc_operation = op, oc_status = Cap_Supported\<rparr>) FILE_OPERATIONS)"

definition serve_chunk :: "bytes \<Rightarrow> remote_read_request \<Rightarrow> (remote_error, remote_read_chunk) result" where
  "serve_chunk content r =
     Ok \<lparr>rc_offset = rr_offset r,
         rc_bytes = take (unat (rr_max_bytes r)) (drop (unat (rr_offset r)) content),
         rc_eof = (length content \<le> unat (rr_offset r) + unat (rr_max_bytes r)),
         rc_identity = \<lparr>oi_size_bytes = Some (of_nat (length content)), oi_modified_at_unix_ms = None,
                        oi_etag = None\<rparr>\<rparr>"

definition refuse :: "('s, 'r) exec \<Rightarrow> (remote_error, 'a) result \<times> ('s, 'r) exec" where
  "refuse x = (Err (err_unsupported Op_Write ''read_only''), x)"

definition sample_env :: "(memory_store, unit) exec_env" where
  "sample_env =
     \<lparr>xe_store = memory_ops, xe_json = (\<lambda>_. Some []), xe_uuid_text = (\<lambda>_. ''u''),
      xe_limits = executor_limits_default\<lparr>el_chunk_bytes := 2\<rparr>,
      xe_throttle_ns = (\<lambda>b n. unat b * SECOND div unat n), xe_sleep = (\<lambda>_ x. x),
      xe_factory_support = (\<lambda>_. Control_Supported),
      xe_open = (\<lambda>e c x. (Ok \<lparr>si_profile_id = rte_profile_id e, si_protocol = rte_protocol e,
         si_capabilities = sample_matrix, si_io_support = Control_Supported\<rparr>, x)),
      xe_disconnect = (\<lambda>c x. (Ok (), x)),
      xe_begin_write = (\<lambda>r c. refuse),
      xe_write_chunk = (\<lambda>w off b c. refuse),
      xe_commit_write = (\<lambda>w i c. refuse),
      xe_abort_write = (\<lambda>w c. refuse),
      xe_read_chunk = (\<lambda>r c x. (serve_chunk [1, 2, 3] r, x))\<rparr>"

definition sample_exec :: "memory_store transfer_queue \<Rightarrow> (memory_store, unit) exec" where
  "sample_exec q =
     \<lparr>x_queue = q, x_poisoned = False, x_owner = sample_owner, x_host = sample_host, x_active = [],
      x_closed = False, x_remote = ()\<rparr>"

lemma sample_env_simps [simp]:
  "xe_store sample_env = memory_ops" "xe_json sample_env = (\<lambda>_. Some [])"
  by (simp_all add: sample_env_def)

lemma sample_sessions: "complete_sessions sample_env"
proof -
  have "matrix_complete (map (\<lambda>op. \<lparr>oc_operation = op, oc_status = Cap_Supported\<rparr>) FILE_OPERATIONS)
      = Ok sample_matrix"
    by (simp add: matrix_complete_def sample_matrix_def FILE_OPERATIONS_def)
  then show ?thesis by (auto simp: complete_sessions_def sample_env_def)
qed

lemma sample_queue_inv: "queue_inv (\<lambda>m i. bt_get i m) memory_ok sample_queue"
  by (simp add: queue_inv_def sample_queue_def sample_memory_ok sample_limits_def
      queue_limits_default_def)

theorem run_next_returns_witness:
  "\<exists>r x'. run_next sample_env (2 ^ 64 + 1) (sample_exec sample_queue) = Some (r, x')"
proof -
  have "transfer_store (xe_store sample_env) (\<lambda>m i. bt_get i m) memory_ok"
    using memory.transfer_store_axioms by simp
  moreover have "\<forall>t \<in> set (bt_values (tq_tasks (x_queue (sample_exec sample_queue)))). runs_unlimited t"
    by (simp add: sample_exec_def sample_queue_def bt_values_def runs_unlimited_def sample_fresh_def
        sample_task_def validate_endpoints_Ok)
  ultimately show ?thesis
    using run_next_returns [of sample_env "\<lambda>m i. bt_get i m" memory_ok
        "sample_exec sample_queue" "2 ^ 64 + 1"] sample_sessions sample_queue_inv
    by (simp add: sample_exec_def)
qed

section \<open>The bandwidth limit\<close>

text \<open>The monotonic clock never goes back.\<close>

lemma apply_event_instant: "h_instant (snd w) \<le> h_instant (snd (apply_event e w))"
  by (induction e w rule: apply_event.induct) (auto simp: link_new_def)

lemma tick_instant: "h_instant h \<le> h_instant (snd (tick h))"
proof -
  have "h_instant (snd w) \<le> h_instant (snd (fold apply_event evs w))" for evs w
    by (induction evs arbitrary: w) (simp, metis apply_event_instant fold_simps(2) order_trans)
  from this [of "(None, h\<lparr>h_script := tl (h_script h)\<rparr>)" "hd (h_script h)"]
  show ?thesis by (cases "h_script h") (auto simp: tick_def)
qed

lemma xinstant_Ok [xio_simps]:
  "xinstant x = Some (Ok v, x') \<longleftrightarrow>
     x' = x\<lparr>x_host := snd (tick (x_host x))\<rparr> \<and> v = h_instant (snd (tick (x_host x)))"
  by (auto simp: xinstant_def host_instant_def Let_def)

lemma xcheck_instant:
  "xcheck c op x = Some (Ok u, x') \<Longrightarrow> h_instant (x_host x) \<le> h_instant (x_host x')"
  by (auto simp: xcheck_def host_check_def Let_def tick_instant)

lemma throttle_waits:
  "throttle_loop env fuel ns started c x = Some (Ok u, x') \<Longrightarrow> ns \<le> h_instant (x_host x') - started"
  by (induction env fuel ns started c arbitrary: x rule: throttle_loop.induct)
     (auto simp: xio_simps split: if_splits)

lemma record_progress_instant:
  "record_progress_exec env i tok b n s x = Some (Ok u, x') \<Longrightarrow>
   h_instant (x_host x) \<le> h_instant (x_host x')"
  by (auto simp: record_progress_exec_def unix_time_ms_def Let_def xio_simps tick_instant
      split: if_splits prod.splits sum.splits)

text \<open>The bandwidth limit is kept. When a limited transfer records that some number of bytes is
  across, at least the time that many bytes take at the limit has passed since the copy started,
  whatever the host, the runtime's sleep and the store do.\<close>

theorem bandwidth_limit_kept:
  assumes "throttle_and_record env fuel t tok bytes total_bytes started c x = Some (Ok (), x')"
    and "task_bandwidth_limit t = Some limit"
  shows "xe_throttle_ns env bytes limit \<le> h_instant (x_host x') - started"
proof -
  obtain x1 x2 s where x1: "throttle_loop env fuel (xe_throttle_ns env bytes limit) started c x = Some (Ok (), x1)"
    "xcheck c Op_Write x1 = Some (Ok (), x2)"
    and r: "record_progress_exec env (task_id t) tok bytes total_bytes s
      (x2\<lparr>x_host := snd (tick (x_host x2))\<rparr>) = Some (Ok (), x')"
    using assms by (auto simp: throttle_and_record_def xio_simps Let_def)
  have "h_instant (x_host x1) \<le> h_instant (x_host x')"
    using xcheck_instant [OF x1(2)] tick_instant [of "x_host x2"] record_progress_instant [OF r] by simp
  then show ?thesis using throttle_waits [OF x1(1)] by linarith
qed

text \<open>The loop that keeps the limit can panic. When the time a chunk has to take runs out between
  the loop condition and the computation of the remaining time, that computation subtracts a longer
  duration from a shorter one, and the run does not return, however much fuel it has.\<close>

theorem throttle_can_panic:
  assumes "task_bandwidth_limit t = Some limit"
    and "host_instant (x_host x) = (n0, h1)" and "n0 - started < xe_throttle_ns env bytes limit"
    and "host_check c Op_Write h1 = (Ok (), h2)"
    and "host_instant h2 = (n1, h3)" and "xe_throttle_ns env bytes limit < n1 - started"
  shows "throttle_and_record env fuel t tok bytes total_bytes started c x = None"
proof -
  have "throttle_loop env fuel (xe_throttle_ns env bytes limit) started c x = None"
    using assms(2-) by (cases fuel) (auto simp: xio_simps xbind_def xinstant_def xcheck_def)
  then show ?thesis by (simp add: throttle_and_record_def assms(1) xbind_def)
qed

text \<open>One second passes between the two readings of the clock, after the first two calls.\<close>

definition limited_task :: transfer_task where
  "limited_task = sample_started\<lparr>task_bandwidth_limit := Some 8\<rparr>"

definition slow_exec :: "host_event list list \<Rightarrow> (memory_store, unit) exec" where
  "slow_exec script = (sample_exec (sample_queue1\<lparr>tq_store := [(TransferId 1, limited_task)],
     tq_tasks := [(TransferId 1, limited_task)]\<rparr>))\<lparr>x_host := sample_host\<lparr>h_script := script\<rparr>\<rparr>"

lemmas slow_defs = slow_exec_def limited_task_def sample_exec_def host_instant_def host_check_def tick_def
  control_check_def control_is_cancelled_def sample_host_def sample_control_def sample_env_def SECOND_def

theorem throttle_can_panic_witness:
  "throttle_and_record sample_env (Suc 0) limited_task sample_token 4 None 0
     \<lparr>ctl_deadline = 10 * SECOND, ctl_cell = 0\<rparr> (slow_exec [[], [], [Ev_Time SECOND 6]]) = None"
  by (rule throttle_can_panic [of limited_task 8 _ 0 "sample_host\<lparr>h_script := [[], [Ev_Time SECOND 6]]\<rparr>" 0
        _ _ _ "sample_host\<lparr>h_script := [[Ev_Time SECOND 6]]\<rparr>" SECOND
        "sample_host\<lparr>h_script := [], h_instant := SECOND, h_clock := 6\<rparr>"])
     (simp_all add: slow_defs)

lemma slow_run:
  "\<exists>x'. throttle_and_record sample_env (Suc 0) limited_task sample_token 4 None 0
     \<lparr>ctl_deadline = 10 * SECOND, ctl_cell = 0\<rparr> (slow_exec [[Ev_Time SECOND 6]]) = Some (Ok (), x')"
  by (simp add: throttle_and_record_def xbind_def xret_def xinstant_def xcheck_def slow_defs
      record_progress_exec_def unix_time_ms_def with_queue_def sample_queue1_def mutate_def
      bt_get_def sample_token_def sample_started_def sample_task_def record_progress_def check_token_def
      check_time_def progress_pending_def memory_ops_def memory_compare_and_swap_def task_changed_def
      saturating_mul_def saturating_add_def MAX_BANDWIDTH_BYTES_PER_SECOND_def i64_max_def Let_def)

theorem bandwidth_limit_kept_witness:
  "\<exists>x'. throttle_and_record sample_env (Suc 0) limited_task sample_token 4 None 0
     \<lparr>ctl_deadline = 10 * SECOND, ctl_cell = 0\<rparr> (slow_exec [[Ev_Time SECOND 6]]) = Some (Ok (), x') \<and>
     SECOND div 2 \<le> h_instant (x_host x')"
proof -
  obtain x' where x': "throttle_and_record sample_env (Suc 0) limited_task sample_token 4 None 0
     \<lparr>ctl_deadline = 10 * SECOND, ctl_cell = 0\<rparr> (slow_exec [[Ev_Time SECOND 6]]) = Some (Ok (), x')"
    using slow_run by blast
  have "task_bandwidth_limit limited_task = Some 8" by (simp add: limited_task_def)
  from bandwidth_limit_kept [OF x' this] x' show ?thesis by (simp add: sample_env_def SECOND_def)
qed

end
