(* ===== verification/Transfer_Delivery.thy ===== *)
theory Transfer_Delivery
  imports Transfer_Runs
begin

text \<open>
  A download that reports success has delivered the file. The copy loop of the executor is related to
  the staged write of the local owner: after every round the staged file holds exactly the part of
  the remote content up to the offset, and the commit puts the whole content in place. The queue may
  be changed by others meanwhile; the local files are only touched by this run.
\<close>

section \<open>Steps that leave the files alone\<close>

definition calm :: "('s, 'r) exec \<Rightarrow> ('s, 'r) exec \<Rightarrow> bool" where
  "calm x x' =
     (x_owner x' = x_owner x \<and> h_names (x_host x') = h_names (x_host x) \<and>
      h_nodes (x_host x') = h_nodes (x_host x) \<and> h_script (x_host x') = h_script (x_host x))"

named_theorems calm_intros "steps of a run on a quiet host that leave the files alone"

lemma calm_refl [simp]: "calm x x"
  by (simp add: calm_def)

lemma calm_trans: "calm x y \<Longrightarrow> calm y z \<Longrightarrow> calm x z"
  by (simp add: calm_def)

lemma calm_quiet: "calm x x' \<Longrightarrow> quiet (x_host x') = quiet (x_host x)"
  by (simp add: calm_def quiet_def)

lemma calm_lookup: "calm x x' \<Longrightarrow> lookup_node p (x_host x') = lookup_node p (x_host x)"
  by (simp add: calm_def lookup_node_def lookup_inode_def)

lemma calm_staging:
  "calm x x' \<Longrightarrow> staging (x_owner x') (x_host x') wh sw b = staging (x_owner x) (x_host x) wh sw b"
  using calm_lookup [of x x']
  by (auto simp: staging_def content_at_def calm_quiet)
     (auto simp: calm_def host_ok_def sole_link_def)

lemma calm_others_same:
  "calm x x' \<Longrightarrow> others_same S h (x_host x') = others_same S h (x_host x)"
  "calm x x' \<Longrightarrow> others_same S (x_host x') h = others_same S (x_host x) h"
  by (simp_all add: others_same_def calm_lookup)

text \<open>A sequence of steps that, on a quiet host, leaves the files alone whenever it succeeds.\<close>

definition calm_io :: "('s, 'r, 'a) xio \<Rightarrow> bool" where
  "calm_io m = (\<forall>x v x'. quiet (x_host x) \<longrightarrow> m x = Some (Ok v, x') \<longrightarrow> calm x x')"

lemma calm_ioD: "calm_io m \<Longrightarrow> m x = Some (Ok v, x') \<Longrightarrow> quiet (x_host x) \<Longrightarrow> calm x x'"
  unfolding calm_io_def by blast

lemma calm_io_bind [calm_intros]: "calm_io m \<Longrightarrow> (\<And>v. calm_io (f v)) \<Longrightarrow> calm_io (xbind m f)"
  unfolding calm_io_def xbind_Ok by (metis calm_quiet calm_trans)

lemma calm_io_if [calm_intros]: "(b \<Longrightarrow> calm_io m) \<Longrightarrow> (\<not> b \<Longrightarrow> calm_io n) \<Longrightarrow> calm_io (if b then m else n)"
  by simp

lemma calm_io_prims [calm_intros]:
  "calm_io (xret v)" "calm_io (xfail e)" "calm_io xpanic" "calm_io (xres r)" "calm_io xinstant"
  "calm_io (xcheck c op)"
  by (auto simp: calm_io_def xio_simps xcheck_def host_check_def Let_def)

lemma calm_operation_control [calm_intros]: "calm_io (operation_control env c)"
  unfolding operation_control_def by (intro calm_intros)

lemma calm_with_queue: "with_queue f x = (r, x') \<Longrightarrow> calm x x'"
  by (auto simp: with_queue_def calm_def split: prod.splits sum.splits if_splits)

lemma calm_unix_time: "unix_time_ms x = (n, x') \<Longrightarrow> quiet (x_host x) \<Longrightarrow> calm x x'"
  by (auto simp: unix_time_ms_def Let_def)

lemma calm_record_progress [calm_intros]: "calm_io (record_progress_exec env i tok b n s)"
  by (auto simp: calm_io_def record_progress_exec_def split: prod.splits sum.splits if_splits
      dest!: calm_unix_time calm_with_queue intro: calm_trans)

lemma calm_record_zero [calm_intros]: "calm_io (record_zero_progress env t tok off n)"
  unfolding record_zero_progress_def by (intro calm_intros)

definition calm_sleep :: "('s, 'r) exec_env \<Rightarrow> bool" where
  "calm_sleep env = (\<forall>n x. calm x (xe_sleep env n x))"

lemma calm_throttle_loop [calm_intros]:
  "calm_sleep env \<Longrightarrow> calm_io (throttle_loop env fuel ns started c)"
proof (induction fuel)
  case (Suc fuel)
  have "calm_io (\<lambda>x. Some (Ok (), xe_sleep env n x))" for n
    using Suc.prems by (auto simp: calm_io_def calm_sleep_def)
  then show ?case using Suc unfolding throttle_loop.simps by (intro calm_intros) auto
qed (simp add: calm_intros)

lemma calm_throttle [calm_intros]:
  "calm_sleep env \<Longrightarrow> calm_io (throttle_and_record env fuel t tok b n started c)"
  unfolding throttle_and_record_def Let_def
  by (cases "task_bandwidth_limit t") (auto intro!: calm_intros)

lemma calm_complete [calm_intros]: "calm_io (complete_exec env t tok i)"
  by (auto simp: calm_io_def complete_exec_def Let_def split: option.splits prod.splits sum.splits if_splits
      dest!: calm_unix_time calm_with_queue intro: calm_trans)

section \<open>The copy loop\<close>

text \<open>The documented behaviour of \<open>read_chunk\<close> on an unchanged remote file: bytes from the requested
  offset, end of file only at the end; and nobody touches the local files meanwhile.\<close>

definition faithful_reads :: "('s, 'r) exec_env \<Rightarrow> remote_path \<Rightarrow> bytes \<Rightarrow> bool" where
  "faithful_reads env path content =
     (\<forall>req c x r x'. xe_read_chunk env req c x = (r, x') \<longrightarrow> calm x x' \<and>
        (\<forall>ch. r = Ok ch \<longrightarrow> rr_path req = path \<longrightarrow> rc_offset ch = rr_offset req \<longrightarrow>
           rc_bytes ch = take (length (rc_bytes ch)) (drop (unat (rr_offset req)) content) \<and>
           (rc_eof ch \<longrightarrow> length content \<le> unat (rr_offset req) + length (rc_bytes ch))))"

definition copied :: "path \<Rightarrow> local_write_handle \<Rightarrow> staged_write \<Rightarrow> host \<Rightarrow> bytes \<Rightarrow> ('s, 'r) exec \<Rightarrow> bool" where
  "copied p wh sw h0 part x =
     (staging (x_owner x) (x_host x) wh sw part \<and> others_same {p} h0 (x_host x))"

lemma copied_calm: "calm x x' \<Longrightarrow> copied p wh sw h0 part x \<Longrightarrow> copied p wh sw h0 part x'"
  by (simp add: copied_def calm_staging calm_others_same)

lemma copied_quiet: "copied p wh sw h0 part x \<Longrightarrow> quiet (x_host x)"
  by (simp add: copied_def staging_def)

lemma copied_io: "calm_io m \<Longrightarrow> m x = Some (Ok v, x') \<Longrightarrow> copied p wh sw h0 part x \<Longrightarrow> copied p wh sw h0 part x'"
  using calm_ioD copied_calm copied_quiet by metis

text \<open>One round that writes a chunk.\<close>

lemma copied_write:
  assumes "copied (sw_staged_path sw) wh sw h0 part x" and "length part + length b < 2 ^ 64"
    and "xlocal (local_write_chunk wh (of_nat (length part)) b oc) x = Some (Ok rc, x')"
  shows "copied (sw_staged_path sw) wh sw h0 (part @ b) x' \<and>
    unat (saturating_add (of_nat (length part)) (of_nat (length b)) :: u64) = length part + length b"
proof -
  obtain a h where w: "local_write_chunk wh (of_nat (length part)) b oc (x_owner x, x_host x) = (Ok rc, (a, h))"
    "x' = x\<lparr>x_owner := a, x_host := h\<rparr>" using assms(3) by (auto simp: xio_simps)
  have "length part < 2 ^ 64" using assms(2) by simp
  from write_chunk_step [OF _ this w(1)] assms(1) w(2)
  have "copied (sw_staged_path sw) wh sw h0 (part @ b) x'"
    by (auto simp: copied_def intro: others_same_trans)
  then show ?thesis using assms(2) by (simp add: unat_saturating_add unat_of_nat)
qed

lemma download_loop_copies:
  assumes "calm_sleep env" "faithful_reads env path content" "length content < 2 ^ 64"
    and "copied (sw_staged_path sw) wh sw h0 (take (unat off) content) x" "unat off \<le> length content"
    and "download_loop env fuel t tok c path started wh total_bytes off x = Some (Ok (off', total'), x')"
  shows "copied (sw_staged_path sw) wh sw h0 content x'"
  using assms(4-)
proof (induction fuel arbitrary: off total_bytes x)
  case 0
  then show ?case by (simp add: xio_simps)
next
  case (Suc fuel)
  let ?req = "\<lparr>rr_path = path, rr_offset = off, rr_max_bytes = el_chunk_bytes (xe_limits env),
        rr_expected_identity = task_expected_source t\<rparr>"
  from Suc.prems(3) obtain x1 oc x2 ch x3 total1 off1 x4 where
    x1: "xcheck c Op_Read x = Some (Ok (), x1)" and x2: "operation_control env c x1 = Some (Ok oc, x2)"
    and x3: "xe_read_chunk env ?req oc x2 = (Ok ch, x3)" and ch: "rc_offset ch = off"
    and x4: "if rc_bytes ch \<noteq> [] then \<exists>oc1 x5 rc x6. operation_control env c x3 = Some (Ok oc1, x5) \<and>
        xlocal (local_write_chunk wh off (rc_bytes ch) oc1) x5 = Some (Ok rc, x6) \<and>
        off1 = saturating_add off (of_nat (length (rc_bytes ch))) \<and>
        throttle_and_record env fuel t tok off1 total1 started c x6 = Some (Ok (), x4)
      else off1 = off \<and> x4 = x3"
    and rest: "if rc_eof ch then x' = x4
      else download_loop env fuel t tok c path started wh total1 off1 x4 = Some (Ok (off', total'), x')"
    by (fastforce simp: xio_simps Let_def split: if_splits)
  note f = assms(2) [unfolded faithful_reads_def, rule_format, OF x3]
  let ?part = "take (unat off) content" and ?b = "rc_bytes ch"
  have c3: "copied (sw_staged_path sw) wh sw h0 ?part x3"
    using copied_io [OF calm_operation_control x2 copied_io [OF calm_io_prims(6) x1 Suc.prems(1)]]
      copied_calm f by blast
  have b: "?b = take (length ?b) (drop (unat off) content)"
    and eof: "rc_eof ch \<Longrightarrow> length content \<le> unat off + length ?b"
    using f ch by auto
  have len: "length ?part = unat off" using Suc.prems(2) by simp
  have le: "unat off + length ?b \<le> length content"
    using arg_cong [OF b, of length] Suc.prems(2) by simp
  have ext: "?part @ ?b = take (unat off + length ?b) content" using b by (simp add: take_add)
  have "copied (sw_staged_path sw) wh sw h0 (?part @ ?b) x4 \<and> unat off1 = unat off + length ?b"
  proof (cases "?b = []")
    case True
    then show ?thesis using x4 c3 by simp
  next
    case False
    with x4 obtain oc1 x5 rc x6 where x5: "operation_control env c x3 = Some (Ok oc1, x5)"
      and x6: "xlocal (local_write_chunk wh off ?b oc1) x5 = Some (Ok rc, x6)"
      and o: "off1 = saturating_add off (of_nat (length ?b))"
      and x7: "throttle_and_record env fuel t tok off1 total1 started c x6 = Some (Ok (), x4)" by auto
    have c5: "copied (sw_staged_path sw) wh sw h0 ?part x5"
      by (rule copied_io [OF calm_operation_control x5 c3])
    have off: "off = of_nat (length ?part)" using len by simp
    have "length ?part + length ?b < 2 ^ 64" using le len assms(3) by simp
    note w = copied_write [OF c5 this, folded off, OF x6]
    then have "unat off1 = unat off + length ?b"
      using o len by simp
    then show ?thesis using w copied_io [OF calm_throttle [OF assms(1)] x7] by blast
  qed
  then show ?case
    using rest Suc.IH [of off1 x4 total1] eof le ext by (auto split: if_splits)
qed

section \<open>A whole download\<close>

text \<open>Where the local handle's download goes: the bound path or its renamed variant, and the staged
  file beside it.\<close>

definition destination :: "(uuid \<Rightarrow> string) \<Rightarrow> local_file_handle \<Rightarrow> local_owner \<Rightarrow> path \<Rightarrow> path \<Rightarrow> bool" where
  "destination ut handle a final staged =
     (\<exists>bound. owner_path handle StagedDestination Op_Write a = Ok bound \<and>
        (final = bound \<or> final = renamed_path ut bound handle) \<and> staged_path ut final handle = Ok staged)"

lemma begin_partial:
  assumes b: "begin_staged_write ut handle es rf ed pol c (a, h) = (Ok rc, (a1, h1))"
    and "quiet h" "host_ok h" "\<forall>p. sole_link p h"
    and part: "\<And>n final staged. rf = Some n \<Longrightarrow> destination ut handle a final staged \<Longrightarrow>
      content_at staged h = Some (take (unat n) content)"
  obtains sw where "destination ut handle a (sw_final_path sw) (sw_staged_path sw)"
    "staging a1 h1 (lr_handle rc) sw (case rf of Some n \<Rightarrow> take (unat n) content | None \<Rightarrow> [])"
    "others_same {sw_staged_path sw} h h1"
    "lr_next_offset rc = (case rf of Some n \<Rightarrow> n | None \<Rightarrow> 0)"
proof (rule quiet_begin [OF b assms(2)])
  fix bound final staged i
  assume *: "owner_path handle StagedDestination Op_Write a = Ok bound"
    "final = bound \<or> final = renamed_path ut bound handle" "staged_path ut final handle = Ok staged"
    "fs_open staged True True (rf = None) h = (Ok i, h1)"
    "a1 = a\<lparr>lo_staged := (lo_staged a)(write_handle_from_local handle \<mapsto>
       \<lparr>sw_staged_path = staged, sw_final_path = final, sw_conflict_policy = pol\<rparr>)\<rparr>"
    "lr_handle rc = write_handle_from_local handle"
    "lr_next_offset rc = (case rf of Some n \<Rightarrow> n | None \<Rightarrow> 0)"
  let ?sw = "\<lparr>sw_staged_path = staged, sw_final_path = final, sw_conflict_policy = pol\<rparr>"
  have "sole_link staged h" using assms(4) by blast
  note o = quiet_open_staged [OF assms(2,3) this *(4)]
  have d: "destination ut handle a final staged" using *(1-3) by (auto simp: destination_def)
  have "content_at staged h1 = Some (case rf of Some n \<Rightarrow> take (unat n) content | None \<Rightarrow> [])"
    using o part [OF _ d] by (cases rf) auto
  then have "staging a1 h1 (lr_handle rc) ?sw (case rf of Some n \<Rightarrow> take (unat n) content | None \<Rightarrow> [])"
    using o * by (simp add: staging_def)
  then show ?thesis using that [of ?sw] d o *(7) by simp
qed

lemma xon_error_Ok [xio_simps]: "xon_error m cleanup x = Some (Ok v, x') \<longleftrightarrow> m x = Some (Ok v, x')"
  by (auto simp: xon_error_def split: option.splits prod.splits sum.splits)

lemma complete_exec_task:
  assumes "complete_exec env t tok i x = Some (Ok (), x')"
  shows "\<exists>t'. queue_task (task_id t) (x_queue x') = Some t' \<and>
    (state_kind (task_state t') = K_Completed \<or> task_revision t' = -1)"
proof -
  obtain q0 q completion v where m: "mutate (xe_store env) (task_id t) (task_complete tok completion) q0
      = (Ok v, q)" "x_queue x' = q"
    using assms by (auto simp: complete_exec_def Let_def xio_simps
        split: option.splits prod.splits sum.splits if_splits)
  then obtain cur t' where c: "bt_get (task_id t) (tq_tasks q0) = Some cur"
    "task_complete tok completion cur = Ok (v, t')" using mutate_Ok [OF m(1)] by blast
  show ?thesis
  proof (cases "task_revision cur = -1")
    case True
    then have "q = q0" using m c by (simp add: mutate_def op_ok touch_defs)
    then show ?thesis using m(2) c(1) True by (simp add: queue_task_def)
  next
    case False
    then have t': "task_revision t' \<noteq> task_revision cur" "state_kind (task_state t') = K_Completed"
      using c(2) by (auto simp: op_ok touch_defs)
    then have "tq_tasks q = bt_insert (task_id t) t' (tq_tasks q0)"
      using m(1) c by (auto simp: mutate_def split: prod.splits sum.splits)
    then show ?thesis using m(2) t'(2) by (simp add: queue_task_def)
  qed
qed

lemma download_started_delivers:
  assumes env: "calm_sleep env" "faithful_reads env path content" "length content < 2 ^ 64"
    and cp: "copied (sw_staged_path sw) wh sw h0 (take (unat off) content) x" "unat off \<le> length content"
    and d: "download_started env fuel t tok c path total_bytes off wh x = Some (Ok (), x')"
  shows "content_at (sw_final_path sw) (x_host x') = Some content \<and>
    (sw_staged_path sw \<noteq> sw_final_path sw \<longrightarrow> lookup_node (sw_staged_path sw) (x_host x') = None) \<and>
    others_same {sw_staged_path sw, sw_final_path sw} h0 (x_host x') \<and>
    (\<exists>t'. queue_task (task_id t) (x_queue x') = Some t' \<and>
       (state_kind (task_state t') = K_Completed \<or> task_revision t' = -1))"
proof -
  from d obtain started x1 off1 total1 x2 x3 oc x4 ident a h where
    x1: "xinstant x = Some (Ok started, x1)"
    and x2: "download_loop env fuel t tok c path started wh total_bytes off x1 = Some (Ok (off1, total1), x2)"
    and x3: "record_zero_progress env t tok off1 total1 x2 = Some (Ok (), x3)"
    and x4: "operation_control env c x3 = Some (Ok oc, x4)"
    and cm: "commit_staged_write wh total1 oc (x_owner x4, x_host x4) = (Ok ident, (a, h))"
    and fin: "complete_exec env t tok ident (x4\<lparr>x_owner := a, x_host := h\<rparr>) = Some (Ok (), x')"
    by (fastforce simp: download_started_def xio_simps)
  have c1: "copied (sw_staged_path sw) wh sw h0 (take (unat off) content) x1"
    by (rule copied_io [OF calm_io_prims(5) x1 cp(1)])
  have c4: "copied (sw_staged_path sw) wh sw h0 content x4"
    by (rule copied_io [OF calm_operation_control x4 copied_io [OF calm_record_zero x3
          download_loop_copies [OF env c1 cp(2) x2]]])
  then have st: "staging (x_owner x4) (x_host x4) wh sw content" "others_same {sw_staged_path sw} h0 (x_host x4)"
    by (simp_all add: copied_def)
  note pl = commit_places [OF st(1) cm]
  have "quiet h" using cm st(1) by (auto simp: staging_def elim!: quiet_commit)
  then have cl: "calm (x4\<lparr>x_owner := a, x_host := h\<rparr>) x'"
    using calm_ioD [OF calm_complete fin] by simp
  have "others_same {sw_staged_path sw, sw_final_path sw} h0 h"
    using st(2) pl by (simp add: others_same_def)
  then show ?thesis
    using pl complete_exec_task [OF fin] calm_lookup [OF cl] calm_others_same(1) [OF cl]
    by (simp add: content_at_def)
qed

text \<open>C4: A successful download delivers the remote file. When \<open>download\<close> returns success, fresh or
  resumed from a partial file that holds the first part of the content, the destination holds
  exactly the remote content, the staged file is gone, no other local file changed, and the task is
  recorded as completed (unless its revision counter is at its maximum). The remote side serves one
  unchanged content, and nobody else touches the local files; the queue may change at any time.\<close>

theorem download_delivers:
  assumes "download env fuel t tok c x = Some (Ok (), x')"
    and "local_handle t = Some handle" "remote_endpoint t = Some ep"
    and "calm_sleep env" "faithful_reads env (rte_path ep) content" "length content < 2 ^ 64"
    and "quiet (x_host x)" "host_ok (x_host x)" "\<forall>p. sole_link p (x_host x)"
    and "unat (pg_bytes_transferred (task_progress t)) \<le> length content"
    and "0 < pg_bytes_transferred (task_progress t) \<longrightarrow>
      (\<forall>final staged. destination (xe_uuid_text env) handle (x_owner x) final staged \<longrightarrow>
         content_at staged (x_host x) = Some (take (unat (pg_bytes_transferred (task_progress t))) content))"
  shows "\<exists>final staged. destination (xe_uuid_text env) handle (x_owner x) final staged \<and>
    content_at final (x_host x') = Some content \<and>
    (staged \<noteq> final \<longrightarrow> lookup_node staged (x_host x') = None) \<and>
    others_same {staged, final} (x_host x) (x_host x') \<and>
    (\<exists>t'. queue_task (task_id t) (x_queue x') = Some t' \<and>
       (state_kind (task_state t') = K_Completed \<or> task_revision t' = -1))"
proof -
  let ?off = "pg_bytes_transferred (task_progress t)"
  let ?rf = "if ?off > 0 then Some ?off else None"
  from assms(1-3) obtain oc x1 rc a h where
    x1: "operation_control env c x = Some (Ok oc, x1)"
    and b: "begin_staged_write (xe_uuid_text env) handle (expected_size (task_expected_source t)) ?rf
      (task_expected_destination t) (task_conflict_policy t) oc (x_owner x1, x_host x1) = (Ok rc, (a, h))"
    and off: "lr_next_offset rc = ?off"
    and d: "download_started env fuel t tok c (rte_path ep) (expected_size (task_expected_source t)) ?off
      (lr_handle rc) (x1\<lparr>x_owner := a, x_host := h\<rparr>) = Some (Ok (), x')"
    by (auto simp: download_def Let_def xio_simps split: if_splits)
  have cl: "calm x x1" using calm_ioD [OF calm_operation_control x1 assms(7)] .
  have h1: "quiet (x_host x1)" "host_ok (x_host x1)" "\<forall>p. sole_link p (x_host x1)"
    using assms(7-9) cl by (simp_all add: calm_def quiet_def host_ok_def sole_link_def)
  have "?rf = Some n \<Longrightarrow> destination (xe_uuid_text env) handle (x_owner x1) final staged \<Longrightarrow>
      content_at staged (x_host x1) = Some (take (unat n) content)" for n final staged
    using assms(11) cl calm_lookup [OF cl] by (auto simp: calm_def content_at_def split: if_splits)
  then show ?thesis
  proof (rule begin_partial [OF b h1])
    fix sw
    assume sw: "destination (xe_uuid_text env) handle (x_owner x1) (sw_final_path sw) (sw_staged_path sw)"
      "staging a h (lr_handle rc) sw (case ?rf of Some n \<Rightarrow> take (unat n) content | None \<Rightarrow> [])"
      "others_same {sw_staged_path sw} (x_host x1) h"
    have "(case ?rf of Some n \<Rightarrow> take (unat n) content | None \<Rightarrow> []) = take (unat ?off) content"
      using word_gt_0 [of ?off] by auto
    then have "copied (sw_staged_path sw) (lr_handle rc) sw (x_host x) (take (unat ?off) content)
        (x1\<lparr>x_owner := a, x_host := h\<rparr>)"
      using sw(2,3) calm_others_same(2) [OF cl] by (simp add: copied_def)
    from download_started_delivers [OF assms(4-6) this assms(10) d] show ?thesis
      using sw(1) cl by (auto simp: calm_def)
  qed
qed

definition sample_download where
  "sample_download = download sample_env (Suc (Suc (Suc 0))) sample_started sample_token
     \<lparr>ctl_deadline = 100, ctl_cell = 0\<rparr> (sample_exec sample_queue1)"

lemmas download_run_defs = xbind_def xret_def xres_def xlocal_def xremote_def xinstant_def xcheck_def
  xon_error_def operation_control_def host_instant_def control_with_deadline_def
  throttle_and_record_def record_progress_exec_def record_zero_progress_def complete_exec_def
  unix_time_ms_def with_queue_def mutate_def queue_task_def bt_get_def memory_ops_def
  memory_compare_and_swap_def record_progress_def task_complete_def check_token_def check_time_def
  task_changed_def invalidate_run_def saturating_mul_def MAX_BANDWIDTH_BYTES_PER_SECOND_def
  ensure_final_size_def local_handle_def remote_endpoint_def expected_size_def

lemma sample_download_Ok: "\<exists>x'. sample_download = Some (Ok (), x')"
  by (simp add: sample_download_def download_def download_started_def download_run_defs
      sample_env_def serve_chunk_def executor_limits_default_def SECOND_def sample_exec_def sample_queue1_def
      sample_started_def sample_task_def sample_remote_def sample_token_def progress_pending_def
      begin_staged_write_def local_write_chunk_def commit_staged_write_def run_defs sample_host_defs
      identity_of_def)

lemma serve_faithful:
  assumes "\<And>req c x. xe_read_chunk env req c x = (serve_chunk content req, x)"
  shows "faithful_reads env path content"
proof -
  have "take (min (length xs) n) xs = take n xs" for n and xs :: bytes
    by (cases "n \<le> length xs") (simp_all add: min_def)
  from this [of "drop _ content"] show ?thesis
    by (auto simp: faithful_reads_def assms serve_chunk_def)
qed

lemma sample_reads: "faithful_reads sample_env path [1, 2, 3]" "calm_sleep sample_env"
  by (rule serve_faithful) (simp_all add: calm_sleep_def sample_env_def)

theorem download_delivers_witness:
  "\<exists>final x'. sample_download = Some (Ok (), x') \<and>
     (final = sample_dest \<or> final = renamed_path (\<lambda>_. ''u'') sample_dest (LocalFileHandle 2)) \<and>
     content_at final (x_host x') = Some [1, 2, 3]"
proof -
  obtain x' where d: "sample_download = Some (Ok (), x')" using sample_download_Ok by blast
  have "local_handle sample_started = Some (LocalFileHandle 2)" "remote_endpoint sample_started = Some sample_remote"
    "pg_bytes_transferred (task_progress sample_started) = 0"
    by (simp_all add: local_handle_def remote_endpoint_def sample_started_def sample_task_def progress_pending_def)
  moreover have "quiet (x_host (sample_exec sample_queue1))" "host_ok (x_host (sample_exec sample_queue1))"
    "\<forall>p. sole_link p (x_host (sample_exec sample_queue1))"
    by (auto simp: sample_exec_def quiet_def host_ok_def sole_link_def sample_host_def split: if_splits)
  ultimately obtain final staged where
    "destination (xe_uuid_text sample_env) (LocalFileHandle 2) (x_owner (sample_exec sample_queue1)) final staged"
    "content_at final (x_host x') = Some [1, 2, 3]"
    using download_delivers [OF d [unfolded sample_download_def], of "LocalFileHandle 2" sample_remote "[1, 2, 3]"]
      sample_reads by auto
  then show ?thesis
    using d by (auto simp: destination_def sample_exec_def sample_env_def owner_path_def sample_owner_def owner_new_def)
qed

end
