(* ===== verification/Transfer_Failures.thy ===== *)
theory Transfer_Failures
  imports Transfer_Runs
begin

text \<open>
  How the executor writes the end of a run into the queue, and how it answers public requests.
  A failure is turned into exactly one next state, a stale run changes nothing, and a request
  answered with success satisfies the contract that the client checks the answer against.
\<close>

section \<open>Mutations and the answer of the store\<close>

text \<open>The store refuses with this error to replace the task under an identifier although the
  expected revision is the stored one. The in-memory store never does; the SQLite store does when a
  call of SQLite fails, the document of the task is too large or its revision exceeds an \<open>i64\<close>.\<close>

definition store_refuses ::
  "'s store_ops \<Rightarrow> ('s \<Rightarrow> transfer_id \<Rightarrow> transfer_task option) \<Rightarrow> ('s \<Rightarrow> bool) \<Rightarrow> transfer_id \<Rightarrow>
   store_error \<Rightarrow> bool" where
  "store_refuses st_ops tasks_of st_ok i e \<longleftrightarrow>
     (\<exists>s c t. st_ok s \<and> tasks_of s i = Some c \<and> task_id t = i \<and>
        fst (st_compare_and_swap st_ops (task_revision c) t s) = Err e)"

lemma memory_never_refuses: "\<not> store_refuses memory_ops (\<lambda>m i. bt_get i m) memory_ok i e"
  by (auto simp: store_refuses_def memory_ops_def memory_compare_and_swap_def)

context transfer_store
begin

lemma mutate_swaps:
  assumes inv: "queue_inv tasks_of st_ok q" and "bt_get i (tq_tasks q) = Some t"
    and "m t = Ok (v, t')" and "task_revision t' \<noteq> task_revision t" and "task_id t' = task_id t"
    and run: "mutate st_ops i m q = (r, q')"
  shows "queue_inv tasks_of st_ok q' \<and>
    (r = Ok v \<and> tq_tasks q' = bt_insert i t' (tq_tasks q) \<or>
     (\<exists>e. r = Err (Q_Store e) \<and> store_refuses st_ops tasks_of st_ok i e \<and> tq_tasks q' = tq_tasks q))"
proof -
  have ok: "st_ok (tq_store q)" "tasks_of (tq_store q) i = Some t" "task_id t = i"
    "memory_ok (tq_tasks q)" "length (tq_tasks q) \<le> ql_max_tasks (tq_limits q)"
    "\<forall>j. tasks_of (tq_store q) j = bt_get j (tq_tasks q)"
    using inv assms(2) memory_ok_get by (auto simp: queue_inv_def)
  obtain a s1 where s1: "st_compare_and_swap st_ops (task_revision t) t' (tq_store q) = (a, s1)"
    by (cases "st_compare_and_swap st_ops (task_revision t) t' (tq_store q)")
  show ?thesis
  proof (cases a)
    case (Inl e)
    then have "r = Err (Q_Store e)" "q' = q\<lparr>tq_store := s1\<rparr>"
      using run assms(2-4) s1 by (simp_all add: mutate_def)
    moreover have "st_ok s1 \<and> tasks_of s1 = tasks_of (tq_store q)"
      using swap_Err [OF ok(1)] s1 Inl by simp
    moreover have "store_refuses st_ops tasks_of st_ok i e"
      unfolding store_refuses_def using ok s1 Inl assms(5)
      by (intro exI [of _ "tq_store q"] exI [of _ t] exI [of _ t']) simp
    ultimately show ?thesis using ok by (simp add: queue_inv_def)
  next
    case (Inr u)
    let ?q = "q\<lparr>tq_store := s1, tq_tasks := bt_insert i t' (tq_tasks q)\<rparr>"
    have "st_ok s1 \<and> tasks_of s1 = (tasks_of (tq_store q))(i \<mapsto> t')"
      using swap_Ok [OF ok(1)] s1 Inr assms(5) ok(3) by simp
    moreover have "memory_ok (bt_insert i t' (tq_tasks q))"
      using memory_ok_insert [of "tq_tasks q" t'] ok assms(5) by simp
    ultimately have "queue_inv tasks_of st_ok ?q"
      using ok assms(2) memory_ok_length [of "tq_tasks q" i t t'] by (simp add: queue_inv_def)
    moreover have "r = Ok v" "q' = ?q" using run assms(2-4) s1 Inr by (simp_all add: mutate_def)
    ultimately show ?thesis by simp
  qed
qed

end

section \<open>The end of a failed run\<close>

text \<open>The state kind a failure leads to.\<close>

definition settled_kind :: "remote_error \<Rightarrow> transfer_task \<Rightarrow> transfer_state_kind" where
  "settled_kind failure t =
     (if state_kind (task_state t) = K_Cancelling then K_Cancelled
      else if re_kind failure = Ek_Conflict then K_Conflict
      else if remote_error_retryable failure \<and>
              task_completed_attempts t < rp_max_attempts (task_retry_policy t)
      then K_RetryScheduled else K_Failed)"

lemma is_active_cases:
  "is_active s \<longleftrightarrow> s = Running \<or> s = Pausing \<or> s = Cancelling"
  by (cases s) (auto simp: is_active_def)

lemma sat_rev_neq: "unat (r :: u64) + 1 < 2 ^ 64 \<Longrightarrow> saturating_add r 1 \<noteq> r \<and>
    unat (saturating_add r 1) = unat r + 1"
  by (auto simp: sat_simps)

lemma unix_time_frame:
  "unix_time_ms x = (now, x1) \<Longrightarrow> \<exists>h. x1 = x\<lparr>x_host := h\<rparr>"
  by (auto simp: unix_time_ms_def Let_def)

definition only_task_changed ::
  "transfer_id \<Rightarrow> transfer_task \<Rightarrow> ('s, 'r) exec \<Rightarrow> ('s, 'r) exec \<Rightarrow> bool" where
  "only_task_changed i t x x' =
     (\<forall>j. queue_task j (x_queue x') = (if j = i then Some t else queue_task j (x_queue x)))"

text \<open>The run of the task under this identifier is over: the task now has a state of the given kind
  and a new generation, it keeps its progress and identity, and no other task changed.\<close>

definition run_ended ::
  "('s \<Rightarrow> transfer_id \<Rightarrow> transfer_task option) \<Rightarrow> ('s \<Rightarrow> bool) \<Rightarrow> transfer_id \<Rightarrow> transfer_task \<Rightarrow>
   transfer_state_kind \<Rightarrow> ('s, 'r) exec \<Rightarrow> ('s, 'r) exec \<Rightarrow> bool" where
  "run_ended tasks_of st_ok i cur kind x x' =
     (\<exists>t'. queue_inv tasks_of st_ok (x_queue x') \<and> only_task_changed i t' x x' \<and>
        state_kind (task_state t') = kind \<and> task_progress t' = task_progress cur \<and>
        task_frame t' = task_frame cur \<and>
        task_generation t' = saturating_add (task_generation cur) 1)"

text \<open>The queue holds the tasks it held.\<close>

definition queue_kept ::
  "('s \<Rightarrow> transfer_id \<Rightarrow> transfer_task option) \<Rightarrow> ('s \<Rightarrow> bool) \<Rightarrow> ('s, 'r) exec \<Rightarrow> ('s, 'r) exec \<Rightarrow> bool" where
  "queue_kept tasks_of st_ok x x' \<longleftrightarrow> queue_inv tasks_of st_ok (x_queue x') \<and>
     (\<forall>j. queue_task j (x_queue x') = queue_task j (x_queue x))"

text \<open>The end of a run that failed: the task has a state of the given kind, or the store refused a
  write; then the task is as before, or failed when it was only the retry that could not be
  written.\<close>

definition run_settled ::
  "'s store_ops \<Rightarrow> ('s \<Rightarrow> transfer_id \<Rightarrow> transfer_task option) \<Rightarrow> ('s \<Rightarrow> bool) \<Rightarrow> transfer_id \<Rightarrow>
   transfer_task \<Rightarrow> transfer_state_kind \<Rightarrow> ('s, 'r) exec \<Rightarrow> (executor_error, unit) result \<Rightarrow> ('s, 'r) exec \<Rightarrow> bool" where
  "run_settled st_ops tasks_of st_ok i cur kind x r x' \<longleftrightarrow>
     r = Ok () \<and> run_ended tasks_of st_ok i cur kind x x' \<or>
     (\<exists>e. r = Err (X_Queue (Q_Store e)) \<and> store_refuses st_ops tasks_of st_ok i e \<and>
        (queue_kept tasks_of st_ok x x' \<or>
         kind = K_RetryScheduled \<and> run_ended tasks_of st_ok i cur K_Failed x x'))"

text \<open>A clock behind the task, and a cancellation that nobody requested.\<close>

lemma early_failure_refused:
  assumes "fst (unix_time_ms x) < task_updated_at cur" "persist_failure env t tok failure x = (r, x')"
    and "\<not> x_poisoned x" "queue_task (task_id t) (x_queue x) = Some cur" "check_token tok cur = Ok ()"
  shows "r = Err (X_Queue (Q_Mutation Me_TimestampRegressed)) \<and> x_queue x' = x_queue x"
proof -
  obtain n h where u: "unix_time_ms x = (n, x\<lparr>x_host := h\<rparr>)"
    using unix_time_frame by (metis surj_pair)
  then have "check_time n cur = Err Me_TimestampRegressed" using assms(1) by (simp add: check_time_def)
  then show ?thesis using assms u
    by (auto simp: persist_failure_def Let_def with_queue_def mutate_def queue_task_def confirm_cancelled_def
        enter_conflict_def task_fail_def split: if_splits)
qed

lemma odd_cancel_refused:
  assumes "task_updated_at cur \<le> fst (unix_time_ms x)" "re_kind failure = Ek_Cancelled"
    and "task_state cur \<noteq> Cancelling" "persist_failure env t tok failure x = (r, x')"
    and "\<not> x_poisoned x" "queue_task (task_id t) (x_queue x) = Some cur" "check_token tok cur = Ok ()"
  shows "r = Err (X_Queue (Q_Mutation (invalid_state ''confirm_cancelled'' cur))) \<and> x_queue x' = x_queue x"
proof -
  obtain n h where u: "unix_time_ms x = (n, x\<lparr>x_host := h\<rparr>)"
    using unix_time_frame by (metis surj_pair)
  then have "confirm_cancelled tok cp n cur = Err (invalid_state ''confirm_cancelled'' cur)" for cp
    using assms(1,3,7) by (simp add: confirm_cancelled_def check_time_def)
  then show ?thesis using assms u
    by (auto simp: persist_failure_def Let_def with_queue_def mutate_def queue_task_def split: if_splits)
qed

context transfer_store
begin

text \<open>One operation on the task under the lock: written, or refused by the store.\<close>

lemma with_queue_swaps:
  assumes "queue_inv tasks_of st_ok (x_queue x)" "\<not> x_poisoned x"
    and "queue_task i (x_queue x) = Some t" and "m t = Ok (v, t')"
    and "task_revision t' \<noteq> task_revision t" "task_id t' = task_id t"
    and run: "with_queue (mutate st_ops i m) x = (r, x')"
  shows "\<not> x_poisoned x' \<and>
    (r = Ok v \<and> queue_inv tasks_of st_ok (x_queue x') \<and> only_task_changed i t' x x' \<or>
     (\<exists>e. r = Err (X_Queue (Q_Store e)) \<and> store_refuses st_ops tasks_of st_ok i e \<and>
        queue_kept tasks_of st_ok x x'))"
proof -
  obtain a q' where q': "mutate st_ops i m (x_queue x) = (a, q')"
    by (cases "mutate st_ops i m (x_queue x)")
  have "memory_ok (tq_tasks (x_queue x))" using assms(1) by (simp add: queue_inv_def)
  then have "bt_ok (tq_tasks (x_queue x))" by (simp add: memory_ok_def)
  note simps = with_queue_def only_task_changed_def queue_kept_def queue_task_def
  from mutate_swaps [OF assms(1) assms(3) [unfolded queue_task_def] assms(4-6) q']
  consider "queue_inv tasks_of st_ok q'" "a = Ok v" "tq_tasks q' = bt_insert i t' (tq_tasks (x_queue x))"
    | e where "queue_inv tasks_of st_ok q'" "a = Err (Q_Store e)" "store_refuses st_ops tasks_of st_ok i e"
      "tq_tasks q' = tq_tasks (x_queue x)" by blast
  then show ?thesis
    using run q' assms(2) \<open>bt_ok _\<close> by cases (auto simp: simps)
qed

text \<open>One operation that ends the run.\<close>

lemma end_step:
  assumes "queue_inv tasks_of st_ok (x_queue x)" "\<not> x_poisoned x"
    and "queue_task i (x_queue x) = Some cur"
    and m: "m cur = Ok (v, task_changed n (invalidate_run (cur\<lparr>task_state := s\<rparr>)))"
    and rev: "unat (task_revision cur) + 1 < 2 ^ 64"
    and run: "with_queue (mutate st_ops i m) x = (r, x')"
  shows "\<not> x_poisoned x' \<and>
    (r = Ok v \<and> run_ended tasks_of st_ok i cur (state_kind s) x x' \<and>
       only_task_changed i (task_changed n (invalidate_run (cur\<lparr>task_state := s\<rparr>))) x x' \<or>
     (\<exists>e. r = Err (X_Queue (Q_Store e)) \<and> store_refuses st_ops tasks_of st_ok i e \<and>
        queue_kept tasks_of st_ok x x'))"
proof -
  let ?t = "task_changed n (invalidate_run (cur\<lparr>task_state := s\<rparr>))"
  have t: "task_revision ?t \<noteq> task_revision cur" "task_id ?t = task_id cur"
    using sat_rev_neq [OF rev] by (simp_all add: touch_defs)
  have "run_ended tasks_of st_ok i cur (state_kind s) x x'"
    if "queue_inv tasks_of st_ok (x_queue x')" "only_task_changed i ?t x x'"
    unfolding run_ended_def
    by (intro exI [of _ ?t] conjI that) (simp_all add: touch_defs task_frame_def)
  then show ?thesis using with_queue_swaps [OF assms(1-3) m t run] by blast
qed

text \<open>The retry after the failure has been recorded: scheduled, refused because the attempts are
  used up, which leaves the task failed, or refused by the store.\<close>

lemma retry_step:
  assumes "queue_inv tasks_of st_ok (x_queue x)" "\<not> x_poisoned x"
    and "queue_task i (x_queue x) = Some t" "task_state t = Failed f" "failure_retryable f"
    and "task_updated_at t \<le> now" "unat (task_revision t) + 1 < 2 ^ 64"
    and run: "with_queue (mutate st_ops i (schedule_retry now)) x = (r, x')"
  shows "if task_completed_attempts t < rp_max_attempts (task_retry_policy t)
    then r = Ok Changed \<and> queue_inv tasks_of st_ok (x_queue x') \<and>
         only_task_changed i (task_changed now (t\<lparr>task_state := RetryScheduled (retry_at now t) f\<rparr>)) x x' \<or>
       (\<exists>e. r = Err (X_Queue (Q_Store e)) \<and> store_refuses st_ops tasks_of st_ok i e \<and>
          queue_kept tasks_of st_ok x x')
    else r = Err (X_Queue (Q_Mutation Me_RetryExhausted)) \<and> queue_kept tasks_of st_ok x x'"
proof (cases "task_completed_attempts t < rp_max_attempts (task_retry_policy t)")
  case True
  let ?t = "task_changed now (t\<lparr>task_state := RetryScheduled (retry_at now t) f\<rparr>)"
  have m: "schedule_retry now t = Ok (Changed, ?t)" using assms True by (simp add: op_ok)
  have t: "task_revision ?t \<noteq> task_revision t" "task_id ?t = task_id t"
    using sat_rev_neq assms(7) by (simp_all add: task_changed_def)
  show ?thesis using with_queue_swaps [OF assms(1-3) m t run] True by simp
next
  case False
  then have "schedule_retry now t = Err Me_RetryExhausted"
    using assms by (simp add: schedule_retry_def check_time_def not_less)
  then show ?thesis
    using run assms(1-3) False by (auto simp: with_queue_def mutate_def queue_task_def queue_kept_def)
qed

lemma ended_kept:
  "run_ended tasks_of st_ok i cur k x x1 \<Longrightarrow> queue_kept tasks_of st_ok x1 x2 \<Longrightarrow>
   run_ended tasks_of st_ok i cur k x x2"
  by (force simp: run_ended_def queue_kept_def only_task_changed_def)

lemma retry_settles:
  assumes f: "f = task_changed n (invalidate_run (cur\<lparr>task_state := Failed failure\<rparr>))"
    and x1: "run_ended tasks_of st_ok i cur K_Failed x x1" "\<not> x_poisoned x1" "only_task_changed i f x x1"
    and "failure_retryable failure" and rev: "unat (task_revision cur) + 2 < 2 ^ 64"
    and run: "with_queue (mutate st_ops i (schedule_retry n)) x1 = (r, x2)"
  shows "if task_completed_attempts cur < rp_max_attempts (task_retry_policy cur)
    then r = Ok Changed \<and> run_ended tasks_of st_ok i cur K_RetryScheduled x x2 \<or>
      (\<exists>e. r = Err (X_Queue (Q_Store e)) \<and> store_refuses st_ops tasks_of st_ok i e \<and>
         run_ended tasks_of st_ok i cur K_Failed x x2)
    else r = Err (X_Queue (Q_Mutation Me_RetryExhausted)) \<and> run_ended tasks_of st_ok i cur K_Failed x x2"
proof -
  have q: "queue_inv tasks_of st_ok (x_queue x1)" "queue_task i (x_queue x1) = Some f"
    using x1(1,3) by (auto simp: run_ended_def only_task_changed_def)
  have t: "task_state f = Failed failure" "task_updated_at f \<le> n" "unat (task_revision f) + 1 < 2 ^ 64"
    "task_completed_attempts f = task_completed_attempts cur" "task_retry_policy f = task_retry_policy cur"
    using rev sat_rev_neq [of "task_revision cur"] by (simp_all add: f touch_defs)
  let ?t = "task_changed n (f\<lparr>task_state := RetryScheduled (retry_at n f) failure\<rparr>)"
  have "run_ended tasks_of st_ok i cur K_RetryScheduled x x2"
    if "queue_inv tasks_of st_ok (x_queue x2)" "only_task_changed i ?t x1 x2"
    unfolding run_ended_def using x1(3) that
    by (intro exI [of _ ?t]) (simp add: only_task_changed_def f touch_defs task_frame_def)
  then show ?thesis
    using retry_step [OF q(1) x1(2) q(2) t(1) assms(5) t(2,3) run] ended_kept [OF x1(1)] t(4,5)
    by (auto split: if_splits)
qed

lemma persist_settles:
  assumes inv: "queue_inv tasks_of st_ok (x_queue x)" "\<not> x_poisoned x" and st: "xe_store env = st_ops"
    and cur: "queue_task (task_id t) (x_queue x) = Some cur" "check_token tok cur = Ok ()"
      "is_active (task_state cur)" "re_kind failure = Ek_Cancelled \<longrightarrow> task_state cur = Cancelling"
    and now: "task_updated_at cur \<le> fst (unix_time_ms x)" and rev: "unat (task_revision cur) + 2 < 2 ^ 64"
    and run: "persist_failure env t tok failure x = (r, x')"
  shows "run_settled st_ops tasks_of st_ok (task_id t) cur (settled_kind failure cur) x r x'"
proof -
  obtain n h where u: "unix_time_ms x = (n, x\<lparr>x_host := h\<rparr>)"
    using unix_time_frame by (metis surj_pair)
  let ?x = "x\<lparr>x_host := h\<rparr>" and ?cp = "task_checkpoint cur n" and ?i = "task_id t"
  have x1: "queue_inv tasks_of st_ok (x_queue ?x)" "\<not> x_poisoned ?x"
    "queue_task (task_id t) (x_queue ?x) = Some cur" using inv cur by simp_all
  have rev1: "unat (task_revision cur) + 1 < 2 ^ 64" using rev by simp
  have frame: "run_ended tasks_of st_ok i cur k ?x y = run_ended tasks_of st_ok i cur k x y"
    "only_task_changed i v ?x y = only_task_changed i v x y"
    "queue_kept tasks_of st_ok ?x y = queue_kept tasks_of st_ok x y" for i k v y
    by (simp_all add: run_ended_def only_task_changed_def queue_kept_def)
  note step = end_step [OF x1 _ rev1, unfolded frame, rotated]
  have ok: "task_updated_at cur \<le> n" "cp_offset ?cp \<le> pg_bytes_transferred (task_progress cur)"
    using now u by (simp_all add: task_checkpoint_def)
  consider (cancel) "task_state cur = Cancelling"
    | (conflict) "task_state cur = Running \<or> task_state cur = Pausing" "re_kind failure = Ek_Conflict"
    | (fail) "task_state cur = Running \<or> task_state cur = Pausing" "re_kind failure \<noteq> Ek_Conflict"
        "re_kind failure \<noteq> Ek_Cancelled"
    using cur(3,4) by (auto simp: is_active_cases)
  then show ?thesis
  proof cases
    case cancel
    then have m: "confirm_cancelled tok (Some ?cp) n cur =
        Ok (Changed, task_changed n (invalidate_run (cur\<lparr>task_state := Cancelled (Some ?cp) n\<rparr>)))"
      using cur(2) ok by (simp add: op_ok)
    obtain a y where a: "with_queue (mutate st_ops ?i (confirm_cancelled tok (Some ?cp) n)) ?x = (a, y)" by fastforce
    have "r = (case a of Inl e \<Rightarrow> Err e | Inr _ \<Rightarrow> Ok ())" "x' = y"
      using run u inv cur st cancel a by (auto simp: persist_failure_def Let_def split: sum.splits)
    then show ?thesis using cancel step [OF a m]
      by (auto simp: settled_kind_def run_settled_def)
  next
    case conflict
    let ?c = "\<lparr>tx_reason = re_reason failure, tx_checkpoint = Some ?cp\<rparr>"
    have m: "enter_conflict tok ?c n cur =
        Ok (Changed, task_changed n (invalidate_run (cur\<lparr>task_state := Conflict ?c\<rparr>)))"
      using conflict cur(2) ok by (auto simp: op_ok)
    obtain a y where a: "with_queue (mutate st_ops ?i (enter_conflict tok ?c n)) ?x = (a, y)" by fastforce
    have "r = (case a of Inl e \<Rightarrow> Err e | Inr _ \<Rightarrow> Ok ())" "x' = y"
      using run u inv cur st conflict a by (auto simp: persist_failure_def Let_def split: sum.splits)
    then show ?thesis using conflict step [OF a m]
      by (auto simp: settled_kind_def run_settled_def)
  next
    case fail
    let ?f = "failure_of_error failure"
    have r: "failure_retryable ?f = remote_error_retryable failure"
      by (simp add: failure_retryable_def failure_of_error_def remote_error_retryable_def)
    have m: "task_fail tok ?f n cur =
        Ok (Changed, task_changed n (invalidate_run (cur\<lparr>task_state := Failed ?f\<rparr>)))"
      using fail cur(2) ok by (auto simp: op_ok)
    obtain a y where a: "with_queue (mutate st_ops ?i (task_fail tok ?f n)) ?x = (a, y)" by fastforce
    obtain b z where b: "with_queue (mutate st_ops ?i (schedule_retry n)) y = (b, z)" by fastforce
    from step [OF a m] have y: "\<not> x_poisoned y"
      "a = Ok Changed \<and> run_ended tasks_of st_ok ?i cur K_Failed x y \<and>
         only_task_changed ?i (task_changed n (invalidate_run (cur\<lparr>task_state := Failed ?f\<rparr>))) x y \<or>
       (\<exists>e. a = Err (X_Queue (Q_Store e)) \<and> store_refuses st_ops tasks_of st_ok ?i e \<and>
          queue_kept tasks_of st_ok x y)" by auto
    note retry = retry_settles [OF refl _ y(1) _ _ rev b, where failure = ?f and x = x, unfolded r]
    have rx: "(case a of Inl e \<Rightarrow> (Err e, y) | Inr _ \<Rightarrow> if \<not> remote_error_retryable failure then (Ok (), y)
        else (case b of Inr _ \<Rightarrow> (Ok (), z)
          | Inl e \<Rightarrow> if e = X_Queue (Q_Mutation Me_RetryExhausted) then (Ok (), z) else (Err e, z))) = (r, x')"
      using run u inv cur st fail a b by (auto simp: persist_failure_def Let_def split: sum.splits if_splits)
    have k: "settled_kind failure cur =
        (if remote_error_retryable failure \<and> task_completed_attempts cur < rp_max_attempts (task_retry_policy cur)
         then K_RetryScheduled else K_Failed)"
      using fail by (auto simp: settled_kind_def)
    from y(2) show ?thesis
    proof
      assume ended: "a = Ok Changed \<and> run_ended tasks_of st_ok ?i cur K_Failed x y \<and>
         only_task_changed ?i (task_changed n (invalidate_run (cur\<lparr>task_state := Failed ?f\<rparr>))) x y"
      then show ?thesis using rx retry k by (auto simp: run_settled_def split: if_splits)
    next
      assume "\<exists>e. a = Err (X_Queue (Q_Store e)) \<and> store_refuses st_ops tasks_of st_ok ?i e \<and>
          queue_kept tasks_of st_ok x y"
      then show ?thesis using rx by (auto simp: run_settled_def)
    qed
  qed
qed

end

text \<open>C13: A failure ends the run, in exactly one way. When the run still owns the active task, its
  failure turns the task into cancelled if a cancel was requested, into a conflict if the failure is
  one, into a scheduled retry if it is retryable and attempts are left, and into failed otherwise;
  the task is no longer active, its progress and identity are kept, the token of the run is retired
  by a new generation, and no other task changes. There are three exceptions, each reported as an
  error: the store refuses a write, which leaves every task as it was, or the task failed when only
  the retry could not be written; the clock is behind the task; and a cancellation that nobody
  requested. In the last two the queue does not change and the task stays active. It holds for every store
  that keeps the promise of the transfer stores, the SQLite store included, as long as two more
  changes fit the revision counter.\<close>

theorem failure_settles_task:
  assumes "transfer_store (xe_store env) tasks_of st_ok"
    and "queue_inv tasks_of st_ok (x_queue x)" "\<not> x_poisoned x"
    and "queue_task (task_id t) (x_queue x) = Some cur" "check_token tok cur = Ok ()"
    and "is_active (task_state cur)" "unat (task_revision cur) + 2 < 2 ^ 64"
    and run: "persist_failure env t tok failure x = (r, x')"
  shows "if fst (unix_time_ms x) < task_updated_at cur
    then r = Err (X_Queue (Q_Mutation Me_TimestampRegressed)) \<and> x_queue x' = x_queue x
    else if re_kind failure = Ek_Cancelled \<and> task_state cur \<noteq> Cancelling
    then r = Err (X_Queue (Q_Mutation (invalid_state ''confirm_cancelled'' cur))) \<and> x_queue x' = x_queue x
    else run_settled (xe_store env) tasks_of st_ok (task_id t) cur (settled_kind failure cur) x r x'"
proof -
  have early: "r = Err (X_Queue (Q_Mutation Me_TimestampRegressed)) \<and> x_queue x' = x_queue x"
    if "fst (unix_time_ms x) < task_updated_at cur"
    using that run assms(3-5) by (rule early_failure_refused)
  have odd: "r = Err (X_Queue (Q_Mutation (invalid_state ''confirm_cancelled'' cur))) \<and> x_queue x' = x_queue x"
    if "task_updated_at cur \<le> fst (unix_time_ms x)" "re_kind failure = Ek_Cancelled" "task_state cur \<noteq> Cancelling"
    using that run assms(3-5) by (rule odd_cancel_refused)
  show ?thesis
    using early odd transfer_store.persist_settles [OF assms(1-3) refl assms(4-6) _ _ assms(7) run]
    by (auto simp: not_less)
qed

definition dropped_link :: remote_error where
  "dropped_link = mk_error Ek_Transport Op_Read ''connection_lost'' Retry_Backoff"

definition running_exec :: "(memory_store, unit) exec" where
  "running_exec = sample_exec sample_queue1"

lemma running_exec_facts:
  "queue_inv (\<lambda>m i. bt_get i m) memory_ok (x_queue running_exec)" "\<not> x_poisoned running_exec"
  "queue_task (task_id sample_started) (x_queue running_exec) = Some sample_started"
  "check_token sample_token sample_started = Ok ()" "is_active (task_state sample_started)"
  "task_updated_at sample_started \<le> fst (unix_time_ms running_exec)"
  "unat (task_revision sample_started) + 2 < 2 ^ 64" "task_state sample_started = Running"
  by (simp_all add: running_exec_def sample_exec_def queue_inv_def sample_queue1_def memory_ok_def
      bt_ok_def sample_started_def sample_task_def sample_limits_def queue_limits_default_def
      queue_task_def bt_get_def sample_token_def check_token_def is_active_def unix_time_ms_def
      sample_host_def tick_def i64_max_def)

theorem failure_settles_task_witness:
  "\<exists>x'. persist_failure sample_env sample_started sample_token dropped_link running_exec = (Ok (), x') \<and>
     run_ended (\<lambda>m i. bt_get i m) memory_ok (TransferId 1) sample_started K_RetryScheduled running_exec x'"
proof -
  have k: "settled_kind dropped_link sample_started = K_RetryScheduled"
    by (simp add: settled_kind_def dropped_link_def mk_error_def sample_started_def sample_task_def
        remote_error_retryable_def retry_policy_default_def)
  obtain r x' where run: "persist_failure sample_env sample_started sample_token dropped_link running_exec = (r, x')"
    by fastforce
  have "transfer_store (xe_store sample_env) (\<lambda>m i. bt_get i m) memory_ok"
    using memory.transfer_store_axioms by simp
  from failure_settles_task [OF this running_exec_facts(1-5,7) run]
  have "run_settled memory_ops (\<lambda>m i. bt_get i m) memory_ok (TransferId 1) sample_started K_RetryScheduled running_exec r x'"
    using k running_exec_facts(6)
    by (simp add: not_less dropped_link_def mk_error_def sample_started_def sample_task_def)
  then show ?thesis using run memory_never_refuses by (auto simp: run_settled_def)
qed

text \<open>A stale run changes nothing. When the run no longer owns the task, because the task was
  completed, recovered or started again, reporting a failure of that run is refused as stale, and
  the queue is as before. A session that fails to disconnect after a completed copy is such a case:
  the executor reports an error and the task stays completed.\<close>

theorem stale_failure_changes_nothing:
  assumes "\<not> x_poisoned x" and "queue_task (task_id t) (x_queue x) = Some cur"
    and "check_token tok cur \<noteq> Ok ()"
  shows "\<exists>x'. persist_failure env t tok failure x = (Err (X_Queue (Q_Mutation Me_StaleRunToken)), x') \<and>
    x_queue x' = x_queue x"
proof -
  obtain n h where u: "unix_time_ms x = (n, x\<lparr>x_host := h\<rparr>)"
    using unix_time_frame by (metis surj_pair)
  have "confirm_cancelled tok cp n cur = Err Me_StaleRunToken"
    "enter_conflict tok c n cur = Err Me_StaleRunToken" "task_fail tok f n cur = Err Me_StaleRunToken"
    for cp c f
    using stale_run_op [of "Do_confirm_cancelled tok cp n"] stale_run_op [of "Do_enter_conflict tok c n"]
      stale_run_op [of "Do_fail tok f n"] assms(3) by auto
  then show ?thesis
    using assms(1,2) u
    by (auto simp: persist_failure_def Let_def with_queue_def mutate_def queue_task_def)
qed

definition older_token :: run_token where
  "older_token = sample_token\<lparr>tok_generation := 0\<rparr>"

theorem stale_failure_changes_nothing_witness:
  "\<exists>x'. persist_failure sample_env sample_started older_token dropped_link running_exec =
      (Err (X_Queue (Q_Mutation Me_StaleRunToken)), x') \<and> x_queue x' = x_queue running_exec"
  by (rule stale_failure_changes_nothing [OF running_exec_facts(2,3)])
     (simp add: older_token_def sample_token_def check_token_def sample_started_def sample_task_def)

text \<open>A run that is cancelled before the cancel is recorded stays active. When the control of a
  run is cancelled while its task is still running, as \<open>request_shutdown\<close> does before it takes
  the lock of the queue, the failure is a cancellation, which is refused because no cancel was
  requested: the executor reports an error, and the task keeps its active state and its slot.\<close>

theorem unrequested_cancel_leaves_active:
  assumes "\<not> x_poisoned x" and "queue_task (task_id t) (x_queue x) = Some cur"
    and "check_token tok cur = Ok ()" and "task_updated_at cur \<le> fst (unix_time_ms x)"
    and "task_state cur = Running \<or> task_state cur = Pausing" and "re_kind failure = Ek_Cancelled"
  shows "\<exists>x'. persist_failure env t tok failure x =
      (Err (X_Queue (Q_Mutation (Me_InvalidState ''confirm_cancelled'' (state_kind (task_state cur))))), x') \<and>
    x_queue x' = x_queue x"
proof -
  obtain r x' where run: "persist_failure env t tok failure x = (r, x')" by fastforce
  then show ?thesis using odd_cancel_refused [OF assms(4,6) _ run assms(1-3)] assms(5)
    by (auto simp: invalid_state_def)
qed

definition cancelled_io :: remote_error where
  "cancelled_io = mk_error Ek_Cancelled Op_Read ''remote_io_cancelled'' Retry_Never"

theorem unrequested_cancel_leaves_active_witness:
  "\<exists>x'. persist_failure sample_env sample_started sample_token cancelled_io running_exec =
      (Err (X_Queue (Q_Mutation (Me_InvalidState ''confirm_cancelled'' K_Running))), x') \<and>
    x_queue x' = x_queue running_exec"
  using unrequested_cancel_leaves_active [OF running_exec_facts(2,3,4,6), of cancelled_io sample_env]
    running_exec_facts(8)
  by (simp add: cancelled_io_def mk_error_def)

end
