(* ===== verification/Rust_Text.thy ===== *)
theory Rust_Text
  imports Prelude "HOL-Library.Sublist"
begin

text \<open>
  The text operations of Rust's standard library that several components call, on the UTF-8
  bytes of a string: \<open>chars().count()\<close>, \<open>trim\<close> and \<open>trim_start\<close> with the Unicode white
  space, \<open>split_inclusive\<close> and \<open>lines\<close>, decimal formatting and parsing.
\<close>

section \<open>Characters\<close>

definition is_ascii_digit :: "char \<Rightarrow> bool" where
  "is_ascii_digit c = (48 \<le> (of_char c :: nat) \<and> (of_char c :: nat) \<le> 57)"

text \<open>Every character of a UTF-8 string has exactly one byte that is no continuation byte.\<close>

definition char_count :: "string \<Rightarrow> nat" where
  "char_count s = length (filter (\<lambda>c. \<not> utf8_cont (of_char c)) s)"

text \<open>The characters with the property \<open>White_Space\<close>, encoded: U+0009 to U+000D, U+0020, U+0085,
  U+00A0, U+1680, U+2000 to U+200A, U+2028, U+2029, U+202F, U+205F, U+3000.\<close>

definition white_spaces :: "string list" where
  "white_spaces = map (map char_of)
     (map (\<lambda>b. [b]) ([9..<14] @ [32 :: nat]) @
      [[194, 133], [194, 160], [225, 154, 128], [226, 129, 159], [227, 128, 128]] @
      map (\<lambda>b. [226, 128, b]) ([128..<139] @ [168, 169, 175]))"

function strip_front :: "string list \<Rightarrow> string \<Rightarrow> string" where
  "strip_front ws s =
     (case find (\<lambda>w. w \<noteq> [] \<and> prefix w s) ws of
        None \<Rightarrow> s
      | Some w \<Rightarrow> strip_front ws (drop (length w) s))"
  by pat_completeness auto
termination
proof (relation "measure (\<lambda>(_, s). length s)")
  fix ws s w assume "find (\<lambda>w. w \<noteq> [] \<and> prefix w s) ws = Some w"
  then have "w \<noteq> []" "prefix w s" by (auto simp: find_Some_iff)
  then show "((ws, drop (length w) s), ws, s) \<in> measure (\<lambda>(_, s). length s)"
    by (auto simp: prefix_def)
qed simp

declare strip_front.simps [simp del]

definition trim_start :: "string \<Rightarrow> string" where
  "trim_start s = strip_front white_spaces s"

definition trim_end :: "string \<Rightarrow> string" where
  "trim_end s = rev (strip_front (map rev white_spaces) (rev s))"

definition trim :: "string \<Rightarrow> string" where
  "trim s = trim_end (trim_start s)"

section \<open>Lines\<close>

definition newline :: char where "newline = CHR 0x0A"
definition carriage_return :: char where "carriage_return = CHR 0x0D"

fun split_inclusive :: "string \<Rightarrow> string list" where
  "split_inclusive [] = []"
| "split_inclusive (c # cs) =
     (if c = newline then [c] # split_inclusive cs
      else case split_inclusive cs of [] \<Rightarrow> [[c]] | l # ls \<Rightarrow> (c # l) # ls)"

definition strip_suffix :: "char \<Rightarrow> string \<Rightarrow> string option" where
  "strip_suffix c s = (if s \<noteq> [] \<and> last s = c then Some (butlast s) else None)"

definition strip_newline :: "string \<Rightarrow> string" where
  "strip_newline line =
     (case strip_suffix newline line of
        None \<Rightarrow> line
      | Some l \<Rightarrow> (case strip_suffix carriage_return l of None \<Rightarrow> l | Some k \<Rightarrow> k))"

definition text_lines :: "string \<Rightarrow> string list" where
  "text_lines s = map strip_newline (split_inclusive s)"

section \<open>Decimal numbers\<close>

text \<open>Formatting, and formatting padded with zeros to a width.\<close>

fun decimal :: "nat \<Rightarrow> string" where
  "decimal n = (if n < 10 then [char_of (48 + n)] else decimal (n div 10) @ [char_of (48 + n mod 10)])"

declare decimal.simps [simp del]

definition padded :: "nat \<Rightarrow> nat \<Rightarrow> string" where
  "padded w n = replicate (w - length (decimal n)) (CHR ''0'') @ decimal n"

text \<open>\<open>str::parse::<u32>\<close>: an optional plus sign, at least one digit, a value that fits.\<close>

fun digits_value :: "nat \<Rightarrow> string \<Rightarrow> nat" where
  "digits_value acc [] = acc"
| "digits_value acc (c # cs) = digits_value (acc * 10 + (of_char c - 48)) cs"

definition parse_u32 :: "string \<Rightarrow> u32 option" where
  "parse_u32 s =
     (let ds = (if s \<noteq> [] \<and> hd s = CHR ''+'' then tl s else s) in
      if ds = [] \<or> \<not> list_all is_ascii_digit ds \<or> 2 ^ 32 \<le> digits_value 0 ds then None
      else Some (of_nat (digits_value 0 ds)))"

section \<open>Laws of trimming\<close>

lemma strip_front_suffix: "suffix (strip_front ws s) s"
proof (induction ws s rule: strip_front.induct)
  case (1 ws s)
  then show ?case
    by (subst strip_front.simps) (auto split: option.splits intro: suffix_order.trans suffix_drop)
qed

lemma strip_front_idem: "w \<in> set ws \<Longrightarrow> w \<noteq> [] \<Longrightarrow> \<not> prefix w (strip_front ws s)"
proof (induction ws s rule: strip_front.induct)
  case (1 ws s)
  show ?case
  proof (cases "find (\<lambda>v. v \<noteq> [] \<and> prefix v s) ws")
    case None
    then have "strip_front ws s = s" by (simp add: strip_front.simps)
    then show ?thesis using None "1.prems" by (auto simp: find_None_iff)
  next
    case (Some v)
    then have "strip_front ws s = strip_front ws (drop (length v) s)" by (simp add: strip_front.simps)
    then show ?thesis using "1.IH" [OF Some "1.prems"] by simp
  qed
qed

lemma strip_front_clean:
  assumes "\<forall>w \<in> set ws. w \<noteq> [] \<longrightarrow> \<not> prefix w s"
  shows "strip_front ws s = s"
proof -
  have "find (\<lambda>w. w \<noteq> [] \<and> prefix w s) ws = None" using assms by (auto simp: find_None_iff)
  then show ?thesis by (simp add: strip_front.simps)
qed

lemma trim_end_prefix: "prefix (trim_end s) s"
  using strip_front_suffix [of "map rev white_spaces" "rev s"]
  by (simp add: trim_end_def suffix_to_prefix)

lemma trim_parts: "\<exists>a b. s = a @ trim s @ b"
  using strip_front_suffix [of white_spaces s] trim_end_prefix [of "trim_start s"]
  unfolding trim_def trim_start_def prefix_def suffix_def by (metis append.assoc)

lemma trim_idem [simp]: "trim (trim s) = trim s"
proof -
  have "\<forall>w \<in> set white_spaces. w \<noteq> [] \<longrightarrow> \<not> prefix w (trim_start s)"
    unfolding trim_start_def by (blast dest: strip_front_idem)
  then have "\<forall>w \<in> set white_spaces. w \<noteq> [] \<longrightarrow> \<not> prefix w (trim s)"
    unfolding trim_def using trim_end_prefix prefix_order.trans by blast
  then have "trim_start (trim s) = trim s"
    unfolding trim_start_def by (rule strip_front_clean)
  moreover have "trim_end (trim s) = trim s"
    unfolding trim_def [of s] trim_end_def by (simp add: strip_front_clean strip_front_idem)
  ultimately show ?thesis by (simp add: trim_def [of "trim s"])
qed

lemma trim_set: "set (trim s) \<subseteq> set s"
  using trim_parts [of s] by (metis Un_iff set_append subsetI)

lemma char_count_append [simp]: "char_count (a @ b) = char_count a + char_count b"
  by (simp add: char_count_def)

lemma char_count_trim: "char_count (trim s) \<le> char_count s"
  using trim_parts [of s] by (metis char_count_append le_add1 le_add2 order.trans)

lemma char_count_le: "char_count s \<le> length s"
  by (simp add: char_count_def)

text \<open>A text that begins and ends with a printable ASCII character is not changed.\<close>

definition graphic :: "char \<Rightarrow> bool" where
  "graphic c = (33 \<le> (of_char c :: nat) \<and> (of_char c :: nat) \<le> 126)"

lemma white_spaces_ends:
  "w \<in> set white_spaces \<Longrightarrow> \<not> graphic (hd w) \<and> \<not> graphic (last w)"
  by (auto simp: white_spaces_def graphic_def)

lemma trim_plain:
  assumes "s \<noteq> []" "graphic (hd s)" "graphic (last s)"
  shows "trim s = s"
proof -
  have "hd w = hd s" if "prefix w s" "w \<noteq> []" for w using that by (auto simp: prefix_def)
  then have "\<forall>w \<in> set white_spaces. w \<noteq> [] \<longrightarrow> \<not> prefix w s"
    using white_spaces_ends assms(2) by metis
  then have 1: "trim_start s = s" unfolding trim_start_def by (rule strip_front_clean)
  have "last w = last s" if "prefix (rev w) (rev s)" "w \<noteq> []" for w
    using that by (auto simp: suffix_to_prefix [symmetric] suffix_def)
  then have "\<forall>w \<in> set (map rev white_spaces). w \<noteq> [] \<longrightarrow> \<not> prefix w (rev s)"
    using white_spaces_ends assms(3) by fastforce
  then have "trim_end s = s" unfolding trim_end_def by (simp add: strip_front_clean)
  with 1 show ?thesis by (simp add: trim_def)
qed

section \<open>Laws of lines\<close>

text \<open>A list of lines as \<open>split_inclusive\<close> gives it.\<close>

fun line_list :: "string list \<Rightarrow> bool" where
  "line_list [] = True"
| "line_list (l # ls) =
     (l \<noteq> [] \<and> newline \<notin> set (butlast l) \<and> (ls \<noteq> [] \<longrightarrow> last l = newline) \<and> line_list ls)"

lemma concat_split_inclusive [simp]: "concat (split_inclusive s) = s"
  by (induction s) (auto split: list.splits)

lemma split_inclusive_Nil [simp]: "split_inclusive s = [] \<longleftrightarrow> s = []"
  by (cases s) (auto split: list.splits)

lemma line_list_split: "line_list (split_inclusive s)"
  by (induction s) (auto split: list.splits)

lemma split_inclusive_line:
  "l \<noteq> [] \<Longrightarrow> newline \<notin> set (butlast l) \<Longrightarrow> s \<noteq> [] \<longrightarrow> last l = newline \<Longrightarrow>
   split_inclusive (l @ s) = l # split_inclusive s"
proof (induction l)
  case (Cons c l)
  then show ?case by (cases "l = []") (auto split: list.splits if_splits)
qed simp

lemma line_list_nonempty: "line_list ls \<Longrightarrow> concat ls = [] \<longleftrightarrow> ls = []"
  by (cases ls) auto

lemma split_inclusive_concat: "line_list ls \<Longrightarrow> split_inclusive (concat ls) = ls"
proof (induction ls)
  case (Cons l ls)
  then show ?case using split_inclusive_line [of l "concat ls"] by (auto simp: line_list_nonempty)
qed simp

lemma line_list_nth: "line_list ls \<Longrightarrow> i < length ls \<Longrightarrow> newline \<notin> set (butlast (ls ! i))"
  by (induction ls arbitrary: i) (auto simp: nth_Cons split: nat.splits)

lemma line_list_update:
  assumes "line_list ls" "i < length ls" "l \<noteq> []" "newline \<notin> set (butlast l)" "last l = last (ls ! i)"
  shows "line_list (ls[i := l])"
  using assms by (induction ls arbitrary: i) (auto split: nat.splits)

section \<open>Laws of decimal numbers\<close>

lemma decimal_digit: "n < 10 \<Longrightarrow> decimal n = [char_of (48 + n)]"
  by (simp add: decimal.simps)

lemma decimal_step: "10 \<le> n \<Longrightarrow> decimal n = decimal (n div 10) @ [char_of (48 + n mod 10)]"
  by (subst decimal.simps) simp

lemma digits_value_append [simp]: "digits_value acc (a @ b) = digits_value (digits_value acc a) b"
  by (induction a arbitrary: acc) auto

lemma digit_char: "(n :: nat) < 10 \<Longrightarrow> (of_char (char_of (48 + n) :: char) :: nat) = 48 + n"
  by simp

lemma is_ascii_digit_char: "(n :: nat) < 10 \<Longrightarrow> is_ascii_digit (char_of (48 + n))"
  by (simp add: is_ascii_digit_def)

lemma decimal_digits: "list_all is_ascii_digit (decimal n)"
  by (induction n rule: decimal.induct) (subst decimal.simps, simp add: is_ascii_digit_char)

lemma decimal_nonempty [simp]: "decimal n \<noteq> []"
  by (subst decimal.simps) simp

lemma digits_value_decimal: "digits_value 0 (decimal n) = n"
proof (induction n rule: decimal.induct)
  case (1 n)
  then show ?case by (subst decimal.simps) (auto simp: digit_char)
qed

end
