(* ===== verification/Remote_Profiles.thy ===== *)
theory Remote_Profiles
  imports Remote_Core Rust_Text
begin

text \<open>
  Connection profiles and the adapter catalog (crates/remote-core/src/profile.rs and catalog.rs):
  the data, the validation of profiles, pages, commands and results, secrets, and the
  catalog with its set of protocols. Shown: a page that validates is strictly ordered and within
  its query, and a catalog validates exactly when it lists every protocol once.
\<close>

section \<open>Identifiers\<close>

text \<open>\<open>ProfileId\<close> derives \<open>Ord\<close> from its \<open>Uuid\<close>, which compares the 128-bit values.\<close>

instantiation profile_id :: linorder
begin

definition less_eq_profile_id :: "profile_id \<Rightarrow> profile_id \<Rightarrow> bool" where
  "less_eq_profile_id a b = (profile_uuid a \<le> profile_uuid b)"

definition less_profile_id :: "profile_id \<Rightarrow> profile_id \<Rightarrow> bool" where
  "less_profile_id a b = (profile_uuid a < profile_uuid b)"

instance
proof
  fix p q s :: profile_id
  show "(p < q) = (p \<le> q \<and> \<not> q \<le> p)" by (auto simp: less_eq_profile_id_def less_profile_id_def)
  show "p \<le> p" by (simp add: less_eq_profile_id_def)
  show "p \<le> q \<Longrightarrow> q \<le> s \<Longrightarrow> p \<le> s" by (simp add: less_eq_profile_id_def)
  show "p \<le> q \<Longrightarrow> q \<le> p \<Longrightarrow> p = q" by (cases p; cases q) (simp add: less_eq_profile_id_def)
  show "p \<le> q \<or> q \<le> p" by (auto simp: less_eq_profile_id_def)
qed

end

fun default_port :: "remote_protocol \<Rightarrow> u16" where
  "default_port Proto_Ssh = 22"
| "default_port Proto_Sftp = 22"
| "default_port Proto_Ftp = 21"
| "default_port Proto_FtpsExplicit = 21"
| "default_port Proto_Smb = 445"

datatype profile_validation_error =
    Pv_InvalidLabel | Pv_InvalidHost | Pv_InvalidPort | Pv_InvalidUsername | Pv_InvalidDomain
  | Pv_ProtocolOptionsMismatch | Pv_TrustPolicyMismatch | Pv_InvalidPinnedTlsCertificate
  | Pv_InvalidTimestamp | Pv_InvalidPageLimit | Pv_InvalidPage | Pv_InvalidRevision
  | Pv_InvalidResult | Pv_InvalidSecretInput | Pv_AuthenticationMismatch

section \<open>Endpoints\<close>

record host_endpoint =
  ep_host :: string
  ep_port :: u16

text \<open>\<open>char::is_whitespace\<close> of some character: the encodings are self-synchronizing, so the
  encoding of a white space occurs in a string exactly where that character does.\<close>

definition has_white_space :: "string \<Rightarrow> bool" where
  "has_white_space s = list_ex (\<lambda>r. list_ex (\<lambda>w. prefix w r) white_spaces) (suffixes s)"

definition str_contains :: "string \<Rightarrow> string \<Rightarrow> bool" where
  "str_contains s pat = list_ex (\<lambda>r. prefix pat r) (suffixes s)"

definition endpoint_new :: "string \<Rightarrow> u16 \<Rightarrow> (profile_validation_error, host_endpoint) result" where
  "endpoint_new host port =
     (if host = [] \<or> 255 < length host then Err Pv_InvalidHost
      else if has_control host \<or> has_white_space host \<or>
        list_ex (\<lambda>c. c \<in> {CHR ''/'', CHR 0x5C, CHR ''@''}) host \<or> str_contains host ''://''
      then Err Pv_InvalidHost
      else if port = 0 then Err Pv_InvalidPort
      else Ok \<lparr>ep_host = host, ep_port = port\<rparr>)"

section \<open>Secrets\<close>

datatype secret_backend = SecretService

record secret_ref =
  sr_backend :: secret_backend
  sr_item_id :: uuid

definition MAX_SECRET_INPUT_BYTES :: nat where "MAX_SECRET_INPUT_BYTES = 8 * 1024"

datatype secret_kind = Secret_Password | Secret_PrivateKey | Secret_KeyPassphrase

datatype secret_input = SecretInput bytes

definition secret_input_new :: "bytes \<Rightarrow> (profile_validation_error, secret_input) result" where
  "secret_input_new value =
     (if value = [] \<or> MAX_SECRET_INPUT_BYTES < length value then Err Pv_InvalidSecretInput
      else Ok (SecretInput value))"

datatype secret_command = Secret_Store secret_kind secret_input | Secret_Delete secret_ref

datatype secret_command_result = Secret_Stored secret_ref | Secret_Deleted

fun secret_command_validate :: "secret_command \<Rightarrow> (profile_validation_error, unit) result" where
  "secret_command_validate (Secret_Store kind (SecretInput value)) =
     (if value = [] \<or> MAX_SECRET_INPUT_BYTES < length value then Err Pv_InvalidSecretInput else Ok ())"
| "secret_command_validate (Secret_Delete reference) = Ok ()"

fun secret_result_validate_for ::
  "secret_command_result \<Rightarrow> secret_command \<Rightarrow> (profile_validation_error, unit) result" where
  "secret_result_validate_for (Secret_Stored reference) (Secret_Store _ _) =
     (if sr_backend reference = SecretService then Ok () else Err Pv_InvalidResult)"
| "secret_result_validate_for Secret_Deleted (Secret_Delete _) = Ok ()"
| "secret_result_validate_for _ _ = Err Pv_InvalidResult"

definition secret_service :: "uuid \<Rightarrow> secret_ref" where
  "secret_service item_id = \<lparr>sr_backend = SecretService, sr_item_id = item_id\<rparr>"

datatype secret_store_error =
    Ss_Locked safe_reason | Ss_PermissionDenied safe_reason | Ss_Unavailable safe_reason
  | Ss_NotFound safe_reason | Ss_Backend safe_reason

section \<open>Profiles\<close>

datatype authentication =
    Auth_Anonymous
  | Auth_Password secret_ref
  | Auth_SshAgent
  | Auth_SshKey secret_ref "secret_ref option"
  | Auth_Kerberos

datatype first_use_policy = FirstUse_Reject | FirstUse_AskUser

datatype trust_policy =
    Trust_SshKnownHosts first_use_policy
  | Trust_SystemTls
  | Trust_PinnedTlsCertificate string
  | Trust_PlaintextAcknowledged
  | Trust_SmbNegotiated

definition MAX_PINNED_TLS_CERTIFICATE_BYTES :: nat where
  "MAX_PINNED_TLS_CERTIFICATE_BYTES = 16 * 1024"

datatype data_connection_mode = Data_Passive | Data_ActiveRestricted

datatype smb_dialect = Smb2 | Smb3

datatype profile_options =
    Opt_Ssh "profile_id list" bool
  | Opt_Sftp "profile_id list"
  | Opt_Ftp data_connection_mode
  | Opt_FtpsExplicit data_connection_mode bool
  | Opt_Smb "string option" smb_dialect bool bool

fun options_protocol :: "profile_options \<Rightarrow> remote_protocol" where
  "options_protocol (Opt_Ssh _ _) = Proto_Ssh"
| "options_protocol (Opt_Sftp _) = Proto_Sftp"
| "options_protocol (Opt_Ftp _) = Proto_Ftp"
| "options_protocol (Opt_FtpsExplicit _ _) = Proto_FtpsExplicit"
| "options_protocol (Opt_Smb _ _ _ _) = Proto_Smb"

record connection_profile =
  cp_id :: profile_id
  cp_label :: string
  cp_protocol :: remote_protocol
  cp_endpoint :: host_endpoint
  cp_username :: "string option"
  cp_domain :: "string option"
  cp_authentication :: authentication
  cp_trust :: trust_policy
  cp_options :: profile_options

definition validate_display_field ::
  "string \<Rightarrow> nat \<Rightarrow> profile_validation_error \<Rightarrow> (profile_validation_error, unit) result" where
  "validate_display_field v max_bytes e =
     (if v = [] \<or> max_bytes < length v \<or> has_control v then Err e else Ok ())"

text \<open>\<open>str::matches(pat).count()\<close>: the occurrences from the left that do not overlap.\<close>

function count_matches :: "string \<Rightarrow> string \<Rightarrow> nat" where
  "count_matches pat s =
     (if pat = [] \<or> s = [] then 0
      else if prefix pat s then Suc (count_matches pat (drop (length pat) s))
      else count_matches pat (tl s))"
  by pat_completeness auto
termination
  by (relation "measure (\<lambda>(pat, s). length s)") (auto simp: prefix_def)

declare count_matches.simps [simp del]

definition PEM_BEGIN :: string where "PEM_BEGIN = ''-----BEGIN CERTIFICATE-----''"
definition PEM_END :: string where "PEM_END = ''-----END CERTIFICATE-----''"

definition is_ascii_alphanumeric :: "char \<Rightarrow> bool" where
  "is_ascii_alphanumeric c =
     (let b = (of_char c :: nat)
      in (48 \<le> b \<and> b \<le> 57) \<or> (65 \<le> b \<and> b \<le> 90) \<or> (97 \<le> b \<and> b \<le> 122))"

definition validate_pinned_tls_certificate :: "string \<Rightarrow> (profile_validation_error, unit) result" where
  "validate_pinned_tls_certificate v =
     (if MAX_PINNED_TLS_CERTIFICATE_BYTES < length v \<or> \<not> prefix PEM_BEGIN v \<or> \<not> suffix PEM_END (trim_end v) \<or>
        count_matches PEM_BEGIN v \<noteq> 1 \<or> count_matches PEM_END v \<noteq> 1 \<or>
        list_ex (\<lambda>c. \<not> (is_ascii_alphanumeric c \<or>
          c \<in> {CHR ''+'', CHR ''/'', CHR ''='', CHR ''-'', CHR '' '', carriage_return, newline})) v
      then Err Pv_InvalidPinnedTlsCertificate else Ok ())"

definition trust_matches :: "remote_protocol \<Rightarrow> trust_policy \<Rightarrow> bool" where
  "trust_matches protocol trust =
     (case trust of
        Trust_SshKnownHosts _ \<Rightarrow> protocol \<in> {Proto_Ssh, Proto_Sftp}
      | Trust_PlaintextAcknowledged \<Rightarrow> protocol = Proto_Ftp
      | Trust_SystemTls \<Rightarrow> protocol = Proto_FtpsExplicit
      | Trust_PinnedTlsCertificate _ \<Rightarrow> protocol = Proto_FtpsExplicit
      | Trust_SmbNegotiated \<Rightarrow> protocol = Proto_Smb)"

definition authentication_matches :: "remote_protocol \<Rightarrow> authentication \<Rightarrow> bool" where
  "authentication_matches protocol a =
     (case a of
        Auth_SshAgent \<Rightarrow> protocol \<in> {Proto_Ssh, Proto_Sftp}
      | Auth_SshKey _ _ \<Rightarrow> protocol \<in> {Proto_Ssh, Proto_Sftp}
      | Auth_Anonymous \<Rightarrow> protocol \<in> {Proto_Ftp, Proto_FtpsExplicit}
      | Auth_Password _ \<Rightarrow> True
      | Auth_Kerberos \<Rightarrow> protocol = Proto_Smb)"

definition profile_validate :: "connection_profile \<Rightarrow> (profile_validation_error, unit) result" where
  "profile_validate p =
     and_then (validate_display_field (cp_label p) 128 Pv_InvalidLabel) (\<lambda>_.
     and_then (case cp_username p of None \<Rightarrow> Ok () | Some u \<Rightarrow> validate_display_field u 256 Pv_InvalidUsername) (\<lambda>_.
     and_then (case cp_domain p of None \<Rightarrow> Ok () | Some d \<Rightarrow> validate_display_field d 255 Pv_InvalidDomain) (\<lambda>_.
     if cp_protocol p \<noteq> options_protocol (cp_options p) then Err Pv_ProtocolOptionsMismatch
     else if \<not> trust_matches (cp_protocol p) (cp_trust p) then Err Pv_TrustPolicyMismatch
     else and_then (case cp_trust p of Trust_PinnedTlsCertificate pem \<Rightarrow> validate_pinned_tls_certificate pem | _ \<Rightarrow> Ok ()) (\<lambda>_.
       if authentication_matches (cp_protocol p) (cp_authentication p) then Ok () else Err Pv_AuthenticationMismatch))))"

definition profile_new :: "connection_profile \<Rightarrow> (profile_validation_error, connection_profile) result" where
  "profile_new p = and_then (profile_validate p) (\<lambda>_. Ok p)"

section \<open>Stored profiles, pages, commands\<close>

definition MAX_REMOTE_PROFILE_PAGE_SIZE :: u16 where "MAX_REMOTE_PROFILE_PAGE_SIZE = 16"

record stored_profile =
  sp_profile :: connection_profile
  sp_revision :: u64
  sp_created_at_unix_ms :: i64
  sp_updated_at_unix_ms :: i64

definition stored_validate :: "stored_profile \<Rightarrow> (profile_validation_error, unit) result" where
  "stored_validate s =
     and_then (profile_validate (sp_profile s)) (\<lambda>_.
     if sp_created_at_unix_ms s < 0 \<or> sp_updated_at_unix_ms s < sp_created_at_unix_ms s
     then Err Pv_InvalidTimestamp else Ok ())"

record profile_page_query =
  pp_after :: "profile_id option"
  pp_limit :: u16

definition page_query_validate :: "profile_page_query \<Rightarrow> (profile_validation_error, unit) result" where
  "page_query_validate q =
     (if pp_limit q = 0 \<or> MAX_REMOTE_PROFILE_PAGE_SIZE < pp_limit q then Err Pv_InvalidPageLimit else Ok ())"

record profile_page =
  pg_profiles :: "stored_profile list"
  pg_next_after :: "profile_id option"

abbreviation sp_id :: "stored_profile \<Rightarrow> profile_id" where
  "sp_id s \<equiv> cp_id (sp_profile s)"

definition profile_page_validate ::
  "profile_page \<Rightarrow> profile_page_query \<Rightarrow> (profile_validation_error, unit) result" where
  "profile_page_validate page query =
     and_then (page_query_validate query) (\<lambda>_.
     if unat (pp_limit query) < length (pg_profiles page) \<or>
       list_ex (\<lambda>(a, b). sp_id b \<le> sp_id a) (zip (pg_profiles page) (tl (pg_profiles page))) \<or>
       list_ex (\<lambda>s. \<not> is_ok (stored_validate s)) (pg_profiles page) \<or>
       is_some_and (pp_after query) (\<lambda>after.
         pg_profiles page \<noteq> [] \<and> sp_id (hd (pg_profiles page)) \<le> after) \<or>
       is_some_and (pg_next_after page) (\<lambda>next.
         pg_profiles page = [] \<or> sp_id (last (pg_profiles page)) \<noteq> next)
     then Err Pv_InvalidPage else Ok ())"

datatype profile_command =
    ProfileList profile_page_query
  | ProfileUpsert connection_profile "u64 option"
  | ProfileDelete profile_id u64

datatype profile_result =
    ProfilePage profile_page
  | ProfileStored stored_profile
  | ProfileDeleted profile_id

fun profile_command_validate :: "profile_command \<Rightarrow> (profile_validation_error, unit) result" where
  "profile_command_validate (ProfileList query) = page_query_validate query"
| "profile_command_validate (ProfileUpsert profile expected) =
     and_then (profile_validate profile) (\<lambda>_. if expected = Some (-1) then Err Pv_InvalidRevision else Ok ())"
| "profile_command_validate (ProfileDelete _ _) = Ok ()"

fun profile_result_validate_for ::
  "profile_result \<Rightarrow> profile_command \<Rightarrow> (profile_validation_error, unit) result" where
  "profile_result_validate_for (ProfilePage page) (ProfileList query) = profile_page_validate page query"
| "profile_result_validate_for (ProfileStored stored) (ProfileUpsert profile expected) =
     and_then (stored_validate stored) (\<lambda>_.
     let expected_next = (case expected of None \<Rightarrow> 0 | Some revision \<Rightarrow> revision + 1)
     in if sp_id stored \<noteq> cp_id profile \<or> sp_revision stored \<noteq> expected_next then Err Pv_InvalidResult else Ok ())"
| "profile_result_validate_for (ProfileDeleted i) (ProfileDelete requested _) =
     (if i = requested then Ok () else Err Pv_InvalidResult)"
| "profile_result_validate_for _ _ = Err Pv_InvalidResult"

section \<open>The adapter catalog\<close>

definition REMOTE_CATALOG_SCHEMA_VERSION :: u16 where "REMOTE_CATALOG_SCHEMA_VERSION = 1"

definition REMOTE_PROTOCOLS :: "remote_protocol list" where
  "REMOTE_PROTOCOLS = [Proto_Ssh, Proto_Sftp, Proto_Ftp, Proto_FtpsExplicit, Proto_Smb]"

datatype adapter_availability =
    Av_Healthy | Av_Degraded safe_reason | Av_Unsupported safe_reason | Av_Unreachable safe_reason

record adapter_descriptor =
  ad_protocol :: remote_protocol
  ad_availability :: adapter_availability
  ad_terminal :: capability_status
  ad_file_operations :: capability_matrix

record adapter_catalog =
  ac_schema_version :: u16
  ac_snapshot_id :: uuid
  ac_captured_at_unix_ms :: i64
  ac_adapters :: "adapter_descriptor list"

definition catalog_new :: "uuid \<Rightarrow> i64 \<Rightarrow> adapter_descriptor list \<Rightarrow> adapter_catalog" where
  "catalog_new snapshot_id captured adapters =
     \<lparr>ac_schema_version = REMOTE_CATALOG_SCHEMA_VERSION, ac_snapshot_id = snapshot_id,
      ac_captured_at_unix_ms = captured, ac_adapters = adapters\<rparr>"

definition catalog_validate :: "adapter_catalog \<Rightarrow> (string, unit) result" where
  "catalog_validate c =
     (if ac_schema_version c \<noteq> REMOTE_CATALOG_SCHEMA_VERSION then Err ''remote_catalog_schema_unsupported''
      else if is_nil (ac_snapshot_id c) then Err ''remote_catalog_snapshot_id_nil''
      else if ac_captured_at_unix_ms c < 0 then Err ''remote_catalog_capture_time_invalid''
      else if length (ac_adapters c) \<noteq> length REMOTE_PROTOCOLS then Err ''remote_catalog_protocol_set_incomplete''
      else let protocols = remdups (map ad_protocol (ac_adapters c)) in
        if length protocols \<noteq> length REMOTE_PROTOCOLS \<or> list_ex (\<lambda>p. p \<notin> set protocols) REMOTE_PROTOCOLS
        then Err ''remote_catalog_protocol_set_invalid''
        else Ok ())"

text \<open>\<^const>\<open>None\<close> is the panic of \<open>expect\<close>.\<close>

definition unsupported_file_capabilities :: "safe_reason \<Rightarrow> capability_matrix option" where
  "unsupported_file_capabilities reason =
     (case matrix_complete (map (\<lambda>op. \<lparr>oc_operation = op, oc_status = Cap_Unsupported reason\<rparr>) FILE_OPERATIONS) of
        Inl _ \<Rightarrow> None | Inr m \<Rightarrow> Some m)"

section \<open>Laws\<close>

lemma unsupported_file_capabilities_total: "unsupported_file_capabilities reason \<noteq> None"
  by (simp add: unsupported_file_capabilities_def matrix_complete_def FILE_OPERATIONS_def Let_def)

lemma zip_tl_sorted:
  "\<not> list_ex (\<lambda>(a, b). f b \<le> f a) (zip xs (tl xs)) \<longleftrightarrow> sorted_wrt (<) (map f xs)"
  for f :: "'a \<Rightarrow> 'b::linorder"
proof (induction xs rule: induct_list012)
  case (3 x y zs)
  then show ?case by (auto simp: not_le intro: less_trans)
qed auto

text \<open>A page validates exactly when it is a strictly ordered slice within its query.\<close>

lemma profile_page_validate_Ok:
  "profile_page_validate page query = Ok () \<longleftrightarrow>
     page_query_validate query = Ok () \<and> length (pg_profiles page) \<le> unat (pp_limit query) \<and>
     sorted_wrt (<) (map sp_id (pg_profiles page)) \<and> (\<forall>s \<in> set (pg_profiles page). stored_validate s = Ok ()) \<and>
     (\<forall>after. pp_after query = Some after \<longrightarrow> (\<forall>s \<in> set (pg_profiles page). after < sp_id s)) \<and>
     (\<forall>next. pg_next_after page = Some next \<longrightarrow> pg_profiles page \<noteq> [] \<and> sp_id (last (pg_profiles page)) = next)"
proof -
  let ?ps = "pg_profiles page"
  have after: "\<not> (?ps \<noteq> [] \<and> sp_id (hd ?ps) \<le> after) \<longleftrightarrow> (\<forall>s \<in> set ?ps. after < sp_id s)"
    if "sorted_wrt (<) (map sp_id ?ps)" for after
    using that by (cases ?ps) (auto intro: less_trans)
  have z: "list_ex (\<lambda>(a, b). sp_id b \<le> sp_id a) (zip ?ps (tl ?ps)) \<longleftrightarrow> \<not> sorted_wrt (<) (map sp_id ?ps)"
    using zip_tl_sorted [of sp_id ?ps] by blast
  have v: "list_ex (\<lambda>s. \<not> is_ok (stored_validate s)) ?ps \<longleftrightarrow> \<not> (\<forall>s \<in> set ?ps. stored_validate s = Ok ())"
    by (simp add: list_ex_iff is_ok_unit)
  have o: "is_some_and (pp_after query) (\<lambda>after. ?ps \<noteq> [] \<and> sp_id (hd ?ps) \<le> after) \<longleftrightarrow>
      \<not> (\<forall>after. pp_after query = Some after \<longrightarrow> (\<forall>s \<in> set ?ps. after < sp_id s))"
    if "sorted_wrt (<) (map sp_id ?ps)"
    using after [OF that] by (cases "pp_after query") (simp_all only: is_some_and_simps option.simps, auto)
  have n: "is_some_and (pg_next_after page) (\<lambda>next. ?ps = [] \<or> sp_id (last ?ps) \<noteq> next) \<longleftrightarrow>
      \<not> (\<forall>next. pg_next_after page = Some next \<longrightarrow> ?ps \<noteq> [] \<and> sp_id (last ?ps) = next)"
    by (cases "pg_next_after page") auto
  show ?thesis unfolding profile_page_validate_def and_then_eq_Ok z v n
    using o by (cases "sorted_wrt (<) (map sp_id ?ps)") (auto simp: not_less not_le)
qed

lemma catalog_validate_Ok:
  "catalog_validate c = Ok () \<longleftrightarrow>
     ac_schema_version c = 1 \<and> ac_snapshot_id c \<noteq> 0 \<and> 0 \<le> ac_captured_at_unix_ms c \<and>
     distinct (map ad_protocol (ac_adapters c)) \<and> set (map ad_protocol (ac_adapters c)) = set REMOTE_PROTOCOLS"
proof -
  have all: "set REMOTE_PROTOCOLS = UNIV" by (rule UNIV_eq_I [symmetric], case_tac x) (simp_all add: REMOTE_PROTOCOLS_def)
  have d: "distinct REMOTE_PROTOCOLS" by (simp add: REMOTE_PROTOCOLS_def)
  let ?ps = "map ad_protocol (ac_adapters c)"
  have "distinct ?ps \<and> set ?ps = set REMOTE_PROTOCOLS \<longleftrightarrow>
      length (ac_adapters c) = length REMOTE_PROTOCOLS \<and> length (remdups ?ps) = length REMOTE_PROTOCOLS \<and>
      \<not> list_ex (\<lambda>p. p \<notin> set (remdups ?ps)) REMOTE_PROTOCOLS"
  proof (intro iffI conjI)
    assume a: "distinct ?ps \<and> set ?ps = set REMOTE_PROTOCOLS"
    then show l: "length (ac_adapters c) = length REMOTE_PROTOCOLS" by (metis d distinct_card length_map)
    show "length (remdups ?ps) = length REMOTE_PROTOCOLS" using a l by (simp add: distinct_remdups_id)
    show "\<not> list_ex (\<lambda>p. p \<notin> set (remdups ?ps)) REMOTE_PROTOCOLS" using a by (simp add: list_ex_iff)
  next
    assume a: "length (ac_adapters c) = length REMOTE_PROTOCOLS \<and> length (remdups ?ps) = length REMOTE_PROTOCOLS \<and>
      \<not> list_ex (\<lambda>p. p \<notin> set (remdups ?ps)) REMOTE_PROTOCOLS"
    then show "distinct ?ps" by (metis length_map length_remdups_eq remdups_id_iff_distinct)
    show "set ?ps = set REMOTE_PROTOCOLS" using a all by (auto simp: list_ex_iff)
  qed
  then show ?thesis by (auto simp: catalog_validate_def REMOTE_CATALOG_SCHEMA_VERSION_def is_nil_def Let_def)
qed

end
