(* ===== verification/Appd_Transfers.thy ===== *)
theory Appd_Transfers
  imports Transfer_Failures Remote_Profiles
begin

text \<open>
  bins/appd/src/remote.rs, \<open>RemoteRuntime::transfer_command\<close>: how the service answers a public
  transfer command with the executor, with the translation of every error. The profile store and the
  protocol adapters are parameters: what \<open>load_profile\<close> returns of a profile, and what the methods
  of \<open>RemoteFileAdapter\<close> return. The service checks its own answer before it sends it; the property
  here is that this check never fails.
\<close>

section \<open>Errors\<close>

record runtime_error =
  er_code :: string
  er_reason :: string
  er_retryable :: bool

definition runtime_error_new :: "string \<Rightarrow> string \<Rightarrow> bool \<Rightarrow> runtime_error" where
  "runtime_error_new code reason retryable =
     \<lparr>er_code = code, er_reason = reason, er_retryable = retryable\<rparr>"

fun reason_str :: "safe_reason \<Rightarrow> string" where
  "reason_str (SafeReason s) = s"

fun remote_kind_code :: "remote_error_kind \<Rightarrow> string" where
  "remote_kind_code Ek_Transport = ''remote_transport_error''"
| "remote_kind_code Ek_Trust = ''remote_trust_error''"
| "remote_kind_code Ek_Authentication = ''remote_authentication_error''"
| "remote_kind_code Ek_PermissionDenied = ''remote_permission_denied''"
| "remote_kind_code Ek_NotFound = ''remote_not_found''"
| "remote_kind_code Ek_Conflict = ''remote_conflict''"
| "remote_kind_code Ek_Unsupported = ''remote_unsupported''"
| "remote_kind_code Ek_RateLimited = ''remote_rate_limited''"
| "remote_kind_code Ek_Timeout = ''remote_timeout''"
| "remote_kind_code Ek_RemoteProtocol = ''remote_protocol_error''"
| "remote_kind_code Ek_Cancelled = ''remote_cancelled''"
| "remote_kind_code Ek_InvalidInput = ''remote_invalid_input''"
| "remote_kind_code Ek_SecretStore = ''remote_secret_store_error''"

definition map_remote_error :: "remote_error \<Rightarrow> runtime_error" where
  "map_remote_error e =
     runtime_error_new (remote_kind_code (re_kind e)) (reason_str (re_reason e)) (remote_error_retryable e)"

fun map_transfer_store_error :: "store_error \<Rightarrow> runtime_error" where
  "map_transfer_store_error Se_AlreadyExists =
     runtime_error_new ''transfer_conflict'' ''transfer_store_conflict'' False"
| "map_transfer_store_error Se_RevisionConflict =
     runtime_error_new ''transfer_conflict'' ''transfer_store_conflict'' False"
| "map_transfer_store_error Se_NotFound =
     runtime_error_new ''transfer_not_found'' ''transfer_task_not_found'' False"
| "map_transfer_store_error Se_DocumentTooLarge =
     runtime_error_new ''transfer_invalid'' ''transfer_task_document_too_large'' False"
| "map_transfer_store_error Se_Unavailable =
     runtime_error_new ''transfer_unavailable'' ''transfer_store_unavailable'' True"
| "map_transfer_store_error Se_Corrupt =
     runtime_error_new ''transfer_unavailable'' ''transfer_store_invalid'' False"
| "map_transfer_store_error Se_UnsupportedSchema =
     runtime_error_new ''transfer_unavailable'' ''transfer_store_invalid'' False"

definition map_mutation_error :: "transfer_mutation_error \<Rightarrow> runtime_error" where
  "map_mutation_error e =
     (case e of
        Me_InvalidState _ _ \<Rightarrow>
          runtime_error_new ''transfer_invalid_state'' ''transfer_state_does_not_allow_operation'' False
      | Me_UnsupportedFeature _ \<Rightarrow>
          runtime_error_new ''transfer_unsupported'' ''transfer_feature_unsupported'' False
      | Me_NotRetryable \<Rightarrow>
          runtime_error_new ''transfer_not_retryable'' ''transfer_failure_not_retryable'' False
      | Me_RetryExhausted \<Rightarrow>
          runtime_error_new ''transfer_retry_exhausted'' ''transfer_retry_attempts_exhausted'' False
      | Me_RetryNotReady \<Rightarrow>
          runtime_error_new ''transfer_retry_not_ready'' ''transfer_retry_delay_not_elapsed'' False
      | _ \<Rightarrow> runtime_error_new ''transfer_invalid'' ''transfer_mutation_invalid'' False)"

text \<open>None is a panic, which is not an error of the command.\<close>

fun map_transfer_queue_error :: "queue_error \<Rightarrow> runtime_error option" where
  "map_transfer_queue_error Q_QueueFull =
     Some (runtime_error_new ''transfer_capacity_exceeded'' ''transfer_queue_full'' True)"
| "map_transfer_queue_error Q_TaskNotFound =
     Some (runtime_error_new ''transfer_not_found'' ''transfer_task_not_found'' False)"
| "map_transfer_queue_error (Q_DuplicateTask _) =
     Some (runtime_error_new ''transfer_conflict'' ''transfer_task_already_exists'' False)"
| "map_transfer_queue_error (Q_Mutation e) = Some (map_mutation_error e)"
| "map_transfer_queue_error (Q_Store e) = Some (map_transfer_store_error e)"
| "map_transfer_queue_error (Q_InvalidPublicContract _) =
     Some (runtime_error_new ''transfer_invalid'' ''transfer_public_contract_invalid'' False)"
| "map_transfer_queue_error Q_Panicked = None"

fun map_transfer_executor_error :: "executor_error \<Rightarrow> runtime_error option" where
  "map_transfer_executor_error X_QueuePoisoned =
     Some (runtime_error_new ''transfer_unavailable'' ''transfer_queue_poisoned'' True)"
| "map_transfer_executor_error X_TaskDisappeared =
     Some (runtime_error_new ''transfer_unavailable'' ''transfer_task_disappeared'' True)"
| "map_transfer_executor_error X_ExecutorClosed =
     Some (runtime_error_new ''transfer_provider_unavailable'' ''transfer_runner_stopped'' True)"
| "map_transfer_executor_error X_WorkerFailed =
     Some (runtime_error_new ''transfer_unavailable'' ''transfer_worker_failed'' True)"
| "map_transfer_executor_error X_PauseUnsupported =
     Some (runtime_error_new ''transfer_unsupported'' ''transfer_pause_unsupported'' False)"
| "map_transfer_executor_error (X_Queue e) = map_transfer_queue_error e"
| "map_transfer_executor_error (X_Remote e) =
     (let mapped = map_remote_error e
      in Some (runtime_error_new ''transfer_local_handle_unavailable'' (er_reason mapped)
                 (er_retryable mapped)))"
| "map_transfer_executor_error X_Panicked = None"

section \<open>Adapters\<close>

record file_adapter =
  fa_availability :: adapter_availability
  fa_capabilities :: capability_matrix
  fa_io_support :: io_control_support

fun matrix_entries :: "capability_matrix \<Rightarrow> operation_capability list" where
  "matrix_entries (CapabilityMatrix caps) = caps"

definition ensure_file_adapter_usable :: "file_adapter \<Rightarrow> (runtime_error, unit) result" where
  "ensure_file_adapter_usable a =
     and_then
       (case fa_availability a of
          Av_Healthy \<Rightarrow> Ok ()
        | Av_Degraded _ \<Rightarrow> Ok ()
        | Av_Unsupported reason \<Rightarrow> Err (runtime_error_new ''remote_unsupported'' (reason_str reason) False)
        | Av_Unreachable reason \<Rightarrow> Err (runtime_error_new ''remote_unreachable'' (reason_str reason) True))
       (\<lambda>_. if \<not> list_ex (\<lambda>c. oc_status c = Cap_Supported) (matrix_entries (fa_capabilities a))
            then Err (runtime_error_new ''remote_unsupported'' ''remote_file_operations_unsupported'' False)
            else Ok ())"

definition transfer_protocol_unsupported :: "remote_protocol \<Rightarrow> runtime_error" where
  "transfer_protocol_unsupported p =
     runtime_error_new ''transfer_unsupported''
       (case p of Proto_Ssh \<Rightarrow> ''ssh_terminal_only'' | _ \<Rightarrow> ''remote_protocol_has_no_file_adapter'') False"

section \<open>Commands\<close>

record ('s, 'r) remote_runtime =
  rt_provider_live :: bool
  rt_executor :: "('s, 'r) exec option"

text \<open>The clock of the service: 0 before the epoch.\<close>

definition appd_unix_time_ms :: "('s, 'r) exec \<Rightarrow> i64 \<times> ('s, 'r) exec" where
  "appd_unix_time_ms x =
     (let h = snd (tick (x_host x)); t = h_clock h
      in (if t < 0 then 0 else min t i64_max, x\<lparr>x_host := h\<rparr>))"

type_synonym ('s, 'r) answer = "((runtime_error, transfer_output) result \<times> ('s, 'r) exec) option"

definition answer ::
  "('a \<Rightarrow> transfer_output) \<Rightarrow> (executor_error, 'a) result \<times> ('s, 'r) exec \<Rightarrow> ('s, 'r) answer" where
  "answer f w =
     (case w of
        (Ok v, x) \<Rightarrow> Some (Ok (f v), x)
      | (Err e, x) \<Rightarrow> map_option (\<lambda>m. (Err m, x)) (map_transfer_executor_error e))"

text \<open>\<open>Enqueue\<close>: the protocol of the profile, its adapter, and the draft made into a task.\<close>

definition enqueue_adapter ::
  "(profile_id \<Rightarrow> (runtime_error, remote_protocol) result) \<Rightarrow> (remote_protocol \<Rightarrow> file_adapter option) \<Rightarrow>
   profile_id \<Rightarrow> (runtime_error, remote_protocol \<times> file_adapter) result" where
  "enqueue_adapter load_profile file_adapters profile_id =
     and_then (load_profile profile_id) (\<lambda>protocol.
     if protocol = Proto_Ssh then Err (transfer_protocol_unsupported protocol)
     else and_then (ok_or (file_adapters protocol) (transfer_protocol_unsupported protocol)) (\<lambda>adapter.
     and_then (ensure_file_adapter_usable adapter) (\<lambda>_.
     if fa_io_support adapter \<noteq> Control_Supported
     then Err (runtime_error_new ''transfer_unsupported'' ''remote_io_control_not_supported'' False)
     else Ok (protocol, adapter))))"

definition enqueue_command ::
  "('s, 'r) exec_env \<Rightarrow> (profile_id \<Rightarrow> (runtime_error, remote_protocol) result) \<Rightarrow>
   (remote_protocol \<Rightarrow> file_adapter option) \<Rightarrow> transfer_draft \<Rightarrow> ('s, 'r) exec \<Rightarrow> ('s, 'r) answer" where
  "enqueue_command env load_profile file_adapters draft x =
     (case draft_profile draft of
        None \<Rightarrow> None
      | Some profile_id \<Rightarrow>
     (case enqueue_adapter load_profile file_adapters profile_id of
        Err e \<Rightarrow> Some (Err e, x)
      | Ok (protocol, adapter) \<Rightarrow>
     (case matrix_status (fa_capabilities adapter)
             (case dr_direction draft of Upload \<Rightarrow> File_Write | Download \<Rightarrow> File_Read) of
        None \<Rightarrow> None
      | Some (Cap_Unsupported reason) \<Rightarrow>
          Some (Err (runtime_error_new ''transfer_unsupported'' (reason_str reason) False), x)
      | Some Cap_Supported \<Rightarrow>
     (case features_from_adapter (dr_direction draft) protocol (fa_capabilities adapter) of
        None \<Rightarrow> None
      | Some features \<Rightarrow>
     (case appd_unix_time_ms x of (now, x1) \<Rightarrow>
     (case draft_into_task (xe_json env) draft protocol features now of
        Err _ \<Rightarrow> Some (Err (runtime_error_new ''transfer_invalid'' ''transfer_draft_invalid'' False), x1)
      | Ok task \<Rightarrow> answer Out_Task (enqueue_public env task x1)))))))"

fun dispatch_command ::
  "('s, 'r) exec_env \<Rightarrow> (profile_id \<Rightarrow> (runtime_error, remote_protocol) result) \<Rightarrow>
   (remote_protocol \<Rightarrow> file_adapter option) \<Rightarrow> transfer_command \<Rightarrow> ('s, 'r) exec \<Rightarrow> ('s, 'r) answer" where
  "dispatch_command env load_profile file_adapters (Cmd_Enqueue draft) x =
     enqueue_command env load_profile file_adapters draft x"
| "dispatch_command env load_profile file_adapters (Cmd_List query) x =
     answer Out_Page (list_public env query x)"
| "dispatch_command env load_profile file_adapters (Cmd_Get i) x =
     answer Out_Task (get_public env i x, x)"
| "dispatch_command env load_profile file_adapters (Cmd_Cancel i expected) x =
     answer Out_Mutation (request_cancel_public env i expected x)"
| "dispatch_command env load_profile file_adapters (Cmd_Retry i expected) x =
     answer Out_Mutation (request_retry_public env i expected x)"
| "dispatch_command env load_profile file_adapters (Cmd_ResolveConflict i expected policy) x =
     answer Out_Mutation (resolve_conflict_public env i expected policy x)"

definition transfer_command_op ::
  "('s, 'r) exec_env \<Rightarrow> (profile_id \<Rightarrow> (runtime_error, remote_protocol) result) \<Rightarrow>
   (remote_protocol \<Rightarrow> file_adapter option) \<Rightarrow> transfer_command \<Rightarrow> ('s, 'r) remote_runtime \<Rightarrow>
   ((runtime_error, transfer_output) result \<times> ('s, 'r) remote_runtime) option" where
  "transfer_command_op env load_profile file_adapters command rt =
     (case command_validate command of
        Err _ \<Rightarrow> Some (Err (runtime_error_new ''transfer_invalid'' ''transfer_command_invalid'' False), rt)
      | Ok _ \<Rightarrow>
     if \<not> rt_provider_live rt
     then Some (Err (runtime_error_new ''transfer_provider_unavailable'' ''transfer_provider_not_wired'' True), rt)
     else case rt_executor rt of
       None \<Rightarrow>
         Some (Err (runtime_error_new ''transfer_provider_unavailable'' ''transfer_runner_not_active'' True), rt)
     | Some x \<Rightarrow>
     (case dispatch_command env load_profile file_adapters command x of
        None \<Rightarrow> None
      | Some (Err e, x1) \<Rightarrow> Some (Err e, rt\<lparr>rt_executor := Some x1\<rparr>)
      | Some (Ok output, x1) \<Rightarrow>
          Some
            (case output_validate_for (xe_json env) output command of
               Err _ \<Rightarrow> Err (runtime_error_new ''transfer_invalid'' ''transfer_result_invalid'' False)
             | Ok _ \<Rightarrow> Ok output, rt\<lparr>rt_executor := Some x1\<rparr>)))"

section \<open>Answers satisfy the contract\<close>

lemma unix_time_queue: "unix_time_ms x = (now, x1) \<Longrightarrow> x_queue x1 = x_queue x \<and> x_poisoned x1 = x_poisoned x"
  by (auto simp: unix_time_ms_def Let_def)

lemma run_op_revision: "run_op op t = Ok t' \<Longrightarrow> task_id t' = task_id t \<and> task_revision t \<le> task_revision t'"
  using run_op_changed [of op t t'] run_op_frame [of op t t']
  by (auto simp: task_frame_def saturating_add_ge)

definition keeps_revision ::
  "(i64 \<Rightarrow> transfer_task \<Rightarrow> (transfer_mutation_error, state_change \<times> transfer_task) result) \<Rightarrow> bool" where
  "keeps_revision m =
     (\<forall>now t v t'. m now t = Ok (v, t') \<longrightarrow> task_id t' = task_id t \<and> task_revision t \<le> task_revision t')"

lemma public_mutations:
  "keeps_revision request_cancel" "keeps_revision schedule_retry" "keeps_revision (resolve_conflict p)"
proof -
  have "task_id t' = task_id t \<and> task_revision t \<le> task_revision t'"
    if "request_cancel now t = Ok (v, t') \<or> schedule_retry now t = Ok (v, t') \<or>
        resolve_conflict p now t = Ok (v, t')" for now t v t'
    using that run_op_revision [of "Do_request_cancel now" t t'] run_op_revision [of "Do_schedule_retry now" t t']
      run_op_revision [of "Do_resolve_conflict p now" t t'] by auto
  then show "keeps_revision request_cancel" "keeps_revision schedule_retry"
    "keeps_revision (resolve_conflict p)" unfolding keeps_revision_def by blast+
qed

lemma cancel_active_queue [simp]: "x_queue (cancel_active i x) = x_queue x"
  by (simp add: cancel_active_def cancel_control_def split: option.splits)

context transfer_store
begin

lemma with_mutate_effect:
  assumes inv: "queue_inv tasks_of st_ok (x_queue x)" and w: "with_queue (mutate st_ops i m) x = (r, x')"
    and ids: "\<And>t v t'. m t = Ok (v, t') \<Longrightarrow> task_id t' = task_id t"
  shows "queue_inv tasks_of st_ok (x_queue x') \<and>
    (queue_task i (x_queue x') = queue_task i (x_queue x) \<or>
     (\<exists>t v t'. queue_task i (x_queue x) = Some t \<and> m t = Ok (v, t') \<and> queue_task i (x_queue x') = Some t'))"
proof (cases "x_poisoned x")
  case False
  obtain r1 q where q: "mutate st_ops i m (x_queue x) = (r1, q)" by fastforce
  have x': "x_queue x' = q" using w q False by (auto simp: with_queue_def split: sum.splits if_splits)
  have "queue_inv tasks_of st_ok q \<and> (tq_tasks q = tq_tasks (x_queue x) \<or>
      (\<exists>t v t'. bt_get i (tq_tasks (x_queue x)) = Some t \<and> m t = Ok (v, t') \<and>
         tq_tasks q = bt_insert i t' (tq_tasks (x_queue x))))"
    using mutate_effect [OF inv q] ids by blast
  moreover have "bt_ok (tq_tasks (x_queue x))" using inv by (simp add: queue_inv_def memory_ok_def)
  ultimately show ?thesis by (auto simp: x' queue_task_def)
qed (use assms in \<open>auto simp: with_queue_def\<close>)

lemma mutate_public_contract:
  assumes inv: "queue_inv tasks_of st_ok (x_queue x)" and st: "xe_store env = st_ops"
    and m: "keeps_revision m" and r: "mutate_public env i expected m x = (r, x')"
  shows "queue_inv tasks_of st_ok (x_queue x') \<and>
    (\<forall>res. r = Ok res \<longrightarrow> validate_mutation (xe_json env) i expected res = Ok ())"
proof -
  have ids: "\<And>now t v t'. m now t = Ok (v, t') \<Longrightarrow> task_id t' = task_id t \<and> task_revision t \<le> task_revision t'"
    using m by (auto simp: keeps_revision_def)
  have get: "queue_inv tasks_of st_ok q \<Longrightarrow> queue_task j q = Some t \<Longrightarrow> task_id t = j" for q j t
    by (auto simp: queue_inv_def queue_task_def memory_ok_get)
  consider (kept) "x' = x" "\<forall>res. r = Ok res \<longrightarrow> (\<exists>cur. res = Mr_Conflict expected cur \<and>
        queue_task i (x_queue x) = Some cur \<and> task_revision cur \<noteq> expected \<and>
        validate_public (xe_json env) cur = Ok ())"
    | (changed) cur now x1 r1 where "queue_task i (x_queue x) = Some cur" "task_revision cur = expected"
        "unix_time_ms x = (now, x1)" "with_queue (mutate st_ops i (m now)) x1 = (r1, x')"
        "\<forall>res. r = Ok res \<longrightarrow> (\<exists>t. res = Mr_Updated t \<and> queue_task i (x_queue x') = Some t \<and>
           validate_public (xe_json env) t = Ok ())"
    using r st unfolding mutate_public_def
    by (cases "unix_time_ms x")
       (auto split: if_splits option.splits sum.splits prod.splits)
  then show ?thesis
  proof cases
    case kept
    then show ?thesis using inv get [OF inv] by (auto simp: is_ok_unit)
  next
    case changed
    have inv1: "queue_inv tasks_of st_ok (x_queue x1)" and q1: "x_queue x1 = x_queue x"
      using inv unix_time_queue [OF changed(3)] by simp_all
    note e = with_mutate_effect [OF inv1 changed(4)]
    have "queue_inv tasks_of st_ok (x_queue x')" using e ids by blast
    moreover have "expected \<le> task_revision t" if "queue_task i (x_queue x') = Some t" for t
      using e ids changed(1,2) q1 that by fastforce
    ultimately show ?thesis using changed(5) get by (auto simp: is_ok_unit)
  qed
qed

lemma public_requests_contract:
  assumes inv: "queue_inv tasks_of st_ok (x_queue x)" and st: "xe_store env = st_ops"
    and "request_cancel_public env i expected x = (r, x') \<or> request_retry_public env i expected x = (r, x') \<or>
      resolve_conflict_public env i expected p x = (r, x')"
  shows "queue_inv tasks_of st_ok (x_queue x') \<and>
    (\<forall>res. r = Ok res \<longrightarrow> validate_mutation (xe_json env) i expected res = Ok ())"
proof -
  have *: "queue_inv tasks_of st_ok (x_queue y) \<and>
      (\<forall>res. r1 = Ok res \<longrightarrow> validate_mutation (xe_json env) i expected res = Ok ())"
    if "mutate_public env i expected m x = (r1, y)" "keeps_revision m" for m r1 y
    using mutate_public_contract [OF inv st that(2,1)] .
  show ?thesis
    using assms(3) inv *[OF _ public_mutations(1)] *[OF _ public_mutations(2)] *[OF _ public_mutations(3)]
    by (auto simp: request_cancel_public_def request_retry_public_def resolve_conflict_public_def
        split: sum.splits prod.splits transfer_mutation_result.splits)
qed

lemma enqueue_public_contract:
  assumes inv: "queue_inv tasks_of st_ok (x_queue x)" and st: "xe_store env = st_ops"
    and e: "enqueue_public env t x = (r, x')"
  shows "queue_inv tasks_of st_ok (x_queue x') \<and>
    (\<forall>t'. r = Ok t' \<longrightarrow> t' = t \<and> validate_public (xe_json env) t = Ok ())"
proof -
  have q: "with_queue (enqueue st_ops t) x = (r1, y) \<Longrightarrow> queue_inv tasks_of st_ok (x_queue y)" for r1 y
    using enqueue_effect [OF inv] inv
    by (auto simp: with_queue_def split: if_splits prod.splits sum.splits)
  show ?thesis using e st inv q
    by (auto simp: enqueue_public_def Let_def and_then_eq_Ok split: sum.splits prod.splits)
qed

end

lemma get_public_contract:
  assumes "queue_inv tasks_of st_ok (x_queue x)" "get_public env i x = Ok t"
  shows "task_id t = i \<and> validate_public (xe_json env) t = Ok ()"
  using assms
  by (auto simp: get_public_def and_then_eq_Ok queue_task_def queue_inv_def memory_ok_get split: if_splits)

lemma list_public_contract:
  assumes "list_public env query x = (Ok p, x')"
  shows "x_queue x' = x_queue x \<and> page_query p = query \<and> page_validate (xe_json env) p = Ok ()"
  using assms
  by (auto simp: list_public_def xio_simps queue_page_def and_then_eq_Ok Let_def
      split: sum.splits if_splits)

lemma answer_Ok: "answer f w = Some (Ok out, x') \<longleftrightarrow> (\<exists>v. w = (Ok v, x') \<and> out = f v)"
  by (auto simp: answer_def split: prod.splits sum.splits)

lemma draft_task_id: "draft_into_task json d p f now = Ok t \<Longrightarrow> task_id t = dr_id d"
  by (auto simp: draft_into_task_def and_then_eq_Ok task_new_def Let_def)

lemma answer_Some:
  "answer f w = Some (r, x') \<Longrightarrow>
   \<exists>r1. w = (r1, x') \<and> (\<forall>out. r = Ok out \<longrightarrow> (\<exists>v. r1 = Ok v \<and> out = f v))"
  by (auto simp: answer_def split: prod.splits sum.splits)

lemma list_public_queue: "list_public env query x = (r, x') \<Longrightarrow> x_queue x' = x_queue x"
  by (auto simp: list_public_def with_queue_def split: sum.splits prod.splits if_splits)

lemma appd_time_queue: "appd_unix_time_ms x = (n, x1) \<Longrightarrow> x_queue x1 = x_queue x"
  by (auto simp: appd_unix_time_ms_def Let_def)

lemma enqueue_command_Some:
  assumes "enqueue_command env lp fa d x = Some (r, x')"
  shows "(\<exists>e. r = Err e) \<and> x_queue x' = x_queue x \<or>
    (\<exists>t x1. task_id t = dr_id d \<and> x_queue x1 = x_queue x \<and>
       answer Out_Task (enqueue_public env t x1) = Some (r, x'))"
  using assms unfolding enqueue_command_def
  by (auto dest: appd_time_queue split: option.splits sum.splits prod.splits capability_status.splits)
     (metis draft_task_id appd_time_queue)+

lemma dispatch_contract:
  assumes st: "transfer_store (xe_store env) tasks_of st_ok" and inv: "queue_inv tasks_of st_ok (x_queue x)"
    and v: "command_validate cmd = Ok ()" and d: "dispatch_command env lp fa cmd x = Some (r, x')"
  shows "queue_inv tasks_of st_ok (x_queue x') \<and>
    (\<forall>out. r = Ok out \<longrightarrow> output_validate_for (xe_json env) out cmd = Ok ())"
proof (cases cmd)
  case (Cmd_Enqueue draft)
  then have e: "enqueue_command env lp fa draft x = Some (r, x')" using d by simp
  have ?thesis if t: "task_id t = dr_id draft" "x_queue x1 = x_queue x"
    and a: "answer Out_Task (enqueue_public env t x1) = Some (r, x')" for t x1
  proof -
    obtain r1 where r1: "enqueue_public env t x1 = (r1, x')"
      "\<forall>out. r = Ok out \<longrightarrow> (\<exists>v. r1 = Ok v \<and> out = Out_Task v)" using answer_Some [OF a] by blast
    have "queue_inv tasks_of st_ok (x_queue x1)" using inv t by simp
    from transfer_store.enqueue_public_contract [OF st this refl r1(1)] show ?thesis
      using r1(2) t(1) v Cmd_Enqueue by (auto simp: output_validate_for_def is_ok_unit)
  qed
  then show ?thesis using enqueue_command_Some [OF e] inv by auto
next
  case (Cmd_List query)
  then show ?thesis using d v inv
    by (auto simp: output_validate_for_def is_ok_unit list_public_queue list_public_contract
        dest!: answer_Some)
next
  case (Cmd_Get i)
  then show ?thesis using d v inv get_public_contract [OF inv]
    by (auto simp: output_validate_for_def is_ok_unit dest!: answer_Some)
next
  case (Cmd_Cancel i e)
  then obtain r1 where r1: "request_cancel_public env i e x = (r1, x')"
    and out: "\<forall>out. r = Ok out \<longrightarrow> (\<exists>v. r1 = Ok v \<and> out = Out_Mutation v)" using d by (auto dest!: answer_Some)
  from transfer_store.public_requests_contract [OF st inv refl disjI1, OF r1] show ?thesis
    using v Cmd_Cancel out by (auto simp: output_validate_for_def)
next
  case (Cmd_Retry i e)
  then obtain r1 where r1: "request_retry_public env i e x = (r1, x')"
    and out: "\<forall>out. r = Ok out \<longrightarrow> (\<exists>v. r1 = Ok v \<and> out = Out_Mutation v)" using d by (auto dest!: answer_Some)
  from transfer_store.public_requests_contract [OF st inv refl disjI2 [OF disjI1], OF r1] show ?thesis
    using v Cmd_Retry out by (auto simp: output_validate_for_def)
next
  case (Cmd_ResolveConflict i e p)
  then obtain r1 where r1: "resolve_conflict_public env i e p x = (r1, x')"
    and out: "\<forall>out. r = Ok out \<longrightarrow> (\<exists>v. r1 = Ok v \<and> out = Out_Mutation v)" using d by (auto dest!: answer_Some)
  from transfer_store.public_requests_contract [OF st inv refl disjI2 [OF disjI2], OF r1] show ?thesis
    using v Cmd_ResolveConflict out by (auto simp: output_validate_for_def)
qed

text \<open>C14: The service's answers satisfy its contract. For a valid command on a live executor, the
  check of the answer against the command at the end of \<open>transfer_command\<close> never rejects: the
  command has exactly the outcome of its dispatch, every answer is the task, page or mutation result
  that the command asked for, and the queue's cache still equals the store.\<close>

theorem transfer_command_answers:
  assumes "transfer_store (xe_store env) tasks_of st_ok" and "queue_inv tasks_of st_ok (x_queue x)"
    and "rt_provider_live rt" "rt_executor rt = Some x" "command_validate cmd = Ok ()"
  shows "transfer_command_op env lp fa cmd rt =
      map_option (\<lambda>(r, x'). (r, rt\<lparr>rt_executor := Some x'\<rparr>)) (dispatch_command env lp fa cmd x) \<and>
    (\<forall>r x'. dispatch_command env lp fa cmd x = Some (r, x') \<longrightarrow>
       queue_inv tasks_of st_ok (x_queue x') \<and>
       (\<forall>out. r = Ok out \<longrightarrow> output_validate_for (xe_json env) out cmd = Ok ()))"
proof -
  note c = dispatch_contract [OF assms(1,2,5)]
  show ?thesis
  proof (cases "dispatch_command env lp fa cmd x")
    case None
    then show ?thesis using assms(3-5) by (simp add: transfer_command_op_def)
  next
    case (Some w)
    obtain r x' where w: "w = (r, x')" by fastforce
    show ?thesis using c [of lp fa r x'] Some w assms(3-5)
      by (cases r) (simp_all add: transfer_command_op_def)
  qed
qed

definition sample_runtime :: "(memory_store, unit) remote_runtime" where
  "sample_runtime = \<lparr>rt_provider_live = True, rt_executor = Some running_exec\<rparr>"

theorem transfer_command_answers_witness:
  "\<exists>t rt'. transfer_command_op sample_env (\<lambda>_. Ok Proto_Sftp) (\<lambda>_. None) (Cmd_Cancel (TransferId 1) 1) sample_runtime
     = Some (Ok (Out_Mutation (Mr_Updated t)), rt') \<and> task_state t = Cancelling \<and>
     output_validate_for (\<lambda>_. Some []) (Out_Mutation (Mr_Updated t)) (Cmd_Cancel (TransferId 1) 1) = Ok ()"
proof -
  let ?d = "dispatch_command sample_env (\<lambda>_. Ok Proto_Sftp) (\<lambda>_. None) (Cmd_Cancel (TransferId 1) 1) running_exec"
  have "\<exists>t x'. ?d = Some (Ok (Out_Mutation (Mr_Updated t)), x') \<and> task_state t = Cancelling"
    by (simp add: answer_def request_cancel_public_def ensure_open_def mutate_public_def running_exec_def
        sample_exec_def sample_queue1_def queue_task_def bt_get_def unix_time_ms_def with_queue_def mutate_def
        sample_started_def sample_task_def sample_remote_def request_cancel_def check_time_def sample_host_def
        tick_def i64_max_def memory_ops_def memory_compare_and_swap_def task_changed_def saturating_add_def
        validate_public_def validate_id_def is_nil_def validate_path_def validate_identity_def
        validate_state_identities_def validate_retry_policy_def retry_policy_new_def retry_policy_default_def
        MAX_RETRY_ATTEMPTS_def validate_bandwidth_def progress_pending_def sample_features_def
        MAX_TRANSFER_REMOTE_PATH_BYTES_def Let_def)
  then obtain t x' where d: "?d = Some (Ok (Out_Mutation (Mr_Updated t)), x')" "task_state t = Cancelling" by blast
  have st: "transfer_store (xe_store sample_env) (\<lambda>m i. bt_get i m) memory_ok"
    using memory.transfer_store_axioms by simp
  have "command_validate (Cmd_Cancel (TransferId 1) 1) = Ok ()" by (simp add: validate_id_def is_nil_def)
  from transfer_command_answers [OF st running_exec_facts(1) _ _ this, of sample_runtime]
  show ?thesis using d by (auto simp: sample_runtime_def)
qed

end
