(* ===== verification/Sql_Statements.thy ===== *)
theory Sql_Statements
  imports Prelude
begin

text \<open>
  The way the stores of the program call SQLite through rusqlite. A database handle is the
  value of its tables together with a script of failures, one entry for each call, so that a
  theorem about every handle covers a failure at any statement. One statement either changes
  the tables or fails and leaves them as they were; an immediate transaction keeps the tables of
  its start until the commit succeeds. The rules of this theory relate the tables before and
  after a call, whatever the script; the stores instantiate the tables and the error of a
  failing call.
\<close>

type_synonym 't handle = "'t \<times> bool list"
type_synonym ('t, 'e, 'a) stm = "'t handle \<Rightarrow> ('e, 'a) result \<times> 't handle"

section \<open>Statements and transactions\<close>

text \<open>
  One call of \<open>execute\<close> or \<open>query_row\<close>: it fails when the script says so or when the statement
  itself does (\<open>None\<close>: a violated constraint, an integer overflow, a row that does not decode);
  then nothing changes.
\<close>

definition statement :: "'e \<Rightarrow> ('t \<Rightarrow> ('a \<times> 't) option) \<Rightarrow> ('t, 'e, 'a) stm" where
  "statement err f db =
     (if snd db \<noteq> [] \<and> hd (snd db) then (Err err, (fst db, tl (snd db)))
      else case f (fst db) of
        None \<Rightarrow> (Err err, (fst db, tl (snd db)))
      | Some (x, t) \<Rightarrow> (Ok x, (t, tl (snd db))))"

definition u_bind :: "('t, 'e, 'a) stm \<Rightarrow> ('a \<Rightarrow> ('t, 'e, 'b) stm) \<Rightarrow> ('t, 'e, 'b) stm" where
  "u_bind m f db = (case m db of (Inl e, db') \<Rightarrow> (Err e, db') | (Inr x, db') \<Rightarrow> f x db')"

definition u_lift :: "('e, 'a) result \<Rightarrow> ('t, 'e, 'a) stm" where
  "u_lift r db = (r, db)"

text \<open>\<open>transaction_with_behavior(Immediate)\<close>, the body, \<open>commit\<close>: the handle's drop rolls back
  on every error.\<close>

definition transaction :: "'e \<Rightarrow> ('t, 'e, 'a) stm \<Rightarrow> ('t, 'e, 'a) stm" where
  "transaction err body db =
     (case u_bind (statement err (\<lambda>t. Some ((), t)))
             (\<lambda>_. u_bind body (\<lambda>x. u_bind (statement err (\<lambda>t. Some ((), t))) (\<lambda>_. u_lift (Ok x)))) db of
        (Inl e, db') \<Rightarrow> (Err e, (fst db, snd db'))
      | (Inr x, db') \<Rightarrow> (Ok x, db'))"

text \<open>A body that may return before the commit: \<open>Inl\<close> drops the transaction, which rolls back,
  and returns the value; \<open>Inr\<close> commits it first.\<close>

definition transaction_early :: "'e \<Rightarrow> ('t, 'e, 'a + 'a) stm \<Rightarrow> ('t, 'e, 'a) stm" where
  "transaction_early err body db =
     (case u_bind (statement err (\<lambda>t. Some ((), t))) (\<lambda>_. u_bind body (\<lambda>r. case r of
             Inl x \<Rightarrow> u_lift (Ok (x, False))
           | Inr x \<Rightarrow> u_bind (statement err (\<lambda>t. Some ((), t))) (\<lambda>_. u_lift (Ok (x, True))))) db of
        (Inl e, db') \<Rightarrow> (Err e, (fst db, snd db'))
      | (Inr (x, committed), db') \<Rightarrow> (Ok x, (if committed then fst db' else fst db, snd db')))"

section \<open>Rules for statements\<close>

text \<open>What a call does to the tables, whatever the script of failures.\<close>

definition stm_rel :: "('t, 'e, 'a) stm \<Rightarrow> ('t \<Rightarrow> ('e, 'a) result \<Rightarrow> 't \<Rightarrow> bool) \<Rightarrow> bool" where
  "stm_rel m R \<longleftrightarrow> (\<forall>db r db'. m db = (r, db') \<longrightarrow> R (fst db) r (fst db'))"

lemma stm_relD: "stm_rel m R \<Longrightarrow> m db = (r, db') \<Longrightarrow> R (fst db) r (fst db')"
  unfolding stm_rel_def by blast

lemma stm_rel_sql:
  assumes "\<And>t x t'. f t = Some (x, t') \<Longrightarrow> R t (Ok x) t'" "\<And>t. R t (Err err) t"
  shows "stm_rel (statement err f) R"
  using assms by (auto simp: stm_rel_def statement_def split: if_splits option.splits)

lemma stm_rel_lift: "(\<And>t. R t r t) \<Longrightarrow> stm_rel (u_lift r) R"
  by (simp add: stm_rel_def u_lift_def)

lemma stm_rel_weaken: "stm_rel m R \<Longrightarrow> (\<And>t r t'. R t r t' \<Longrightarrow> S t r t') \<Longrightarrow> stm_rel m S"
  by (auto simp: stm_rel_def)

lemma stm_rel_bind:
  assumes "stm_rel m R" "\<And>x. stm_rel (f x) (S x)"
    "\<And>t e t'. R t (Err e) t' \<Longrightarrow> T t (Err e) t'"
    "\<And>t x t1 r t'. R t (Ok x) t1 \<Longrightarrow> S x t1 r t' \<Longrightarrow> T t r t'"
  shows "stm_rel (u_bind m f) T"
  using assms by (fastforce simp: stm_rel_def u_bind_def split: prod.splits sum.splits)

lemma stm_rel_lift_bind:
  "(\<And>x. r = Ok x \<Longrightarrow> stm_rel (f x) R) \<Longrightarrow> (\<And>e t. r = Err e \<Longrightarrow> R t (Err e) t) \<Longrightarrow> stm_rel (u_bind (u_lift r) f) R"
  by (cases r) (auto simp: stm_rel_def u_bind_def u_lift_def)

text \<open>A transaction changes the tables only when it succeeds, and then as its body does.\<close>

lemma transaction_Err: "transaction err body db = (Err e, db') \<Longrightarrow> fst db' = fst db"
  by (auto simp: transaction_def split: prod.splits sum.splits)

lemma transaction_Ok:
  assumes "transaction err body db = (Ok x, db')"
  obtains fs fs' where "body (fst db, fs) = (Ok x, (fst db', fs'))"
  using assms
  by (auto simp: transaction_def u_bind_def statement_def u_lift_def split: prod.splits sum.splits if_splits)

lemma stm_rel_transaction:
  assumes "stm_rel body R" "\<And>t e. S t (Err e) t" "\<And>t x t'. R t (Ok x) t' \<Longrightarrow> S t (Ok x) t'"
  shows "stm_rel (transaction err body) S"
  unfolding stm_rel_def
proof (intro allI impI)
  fix db r db' assume i: "transaction err body db = (r, db')"
  show "S (fst db) r (fst db')"
  proof (cases r)
    case (Inl e)
    then show ?thesis using transaction_Err i assms(2) by metis
  next
    case (Inr x)
    then obtain fs fs' where "body (fst db, fs) = (Ok x, (fst db', fs'))"
      using transaction_Ok i by metis
    then show ?thesis using stm_relD [OF assms(1)] assms(3) Inr by fastforce
  qed
qed

lemma stm_rel_transaction_err:
  assumes "stm_rel body R" "\<And>t. S t (Err err) t" "\<And>t e t'. R t (Err e) t' \<Longrightarrow> S t (Err e) t"
    "\<And>t x t'. R t (Ok x) t' \<Longrightarrow> S t (Ok x) t'"
  shows "stm_rel (transaction err body) S"
proof -
  have "S (fst db) r (fst db')" if i: "transaction err body db = (r, db')" for db r db'
    using i assms(2-4) stm_relD [OF assms(1)]
    by (fastforce simp: transaction_def u_bind_def statement_def u_lift_def split: prod.splits sum.splits if_splits)
  then show ?thesis by (simp add: stm_rel_def)
qed

lemma transaction_early_cases:
  assumes "transaction_early err body db = (r, db')"
  obtains (failed) e where "r = Err e" "fst db' = fst db" "e = err \<or> (\<exists>fs db1. body (fst db, fs) = (Err e, db1))"
  | (early) x fs db1 where "r = Ok x" "fst db' = fst db" "body (fst db, fs) = (Ok (Inl x), db1)"
  | (committed) x fs fs' where "r = Ok x" "body (fst db, fs) = (Ok (Inr x), (fst db', fs'))"
proof (cases "\<exists>e. r = Err e")
  case True
  then obtain e where e: "r = Err e" by blast
  with assms have "fst db' = fst db"
    by (auto simp: transaction_early_def split: prod.splits sum.splits)
  moreover have "e = err \<or> (\<exists>fs db1. body (fst db, fs) = (Err e, db1))"
    using assms e by (fastforce simp: transaction_early_def u_bind_def statement_def u_lift_def split: prod.splits sum.splits if_splits)
  ultimately show ?thesis using failed e by blast
next
  case False
  then obtain x where r: "r = Ok x" by (cases r) auto
  obtain y db1 where body: "body (fst db, tl (snd db)) = (Ok y, db1)"
    using assms r by (auto simp: transaction_early_def u_bind_def statement_def split: prod.splits sum.splits if_splits)
  show ?thesis
  proof (cases y)
    case (Inl z)
    then have "z = x" "fst db' = fst db"
      using assms r body by (auto simp: transaction_early_def u_bind_def statement_def u_lift_def split: if_splits)
    then show ?thesis using early [OF r] body Inl by blast
  next
    case (Inr z)
    then have "z = x" "fst db' = fst db1"
      using assms r body by (auto simp: transaction_early_def u_bind_def statement_def u_lift_def split: if_splits)
    then show ?thesis using committed [OF r] body Inr by (metis prod.collapse)
  qed
qed

lemma stm_rel_early:
  assumes "stm_rel body R" "\<And>t e. S t (Err e) t" "\<And>t x t'. R t (Ok (Inl x)) t' \<Longrightarrow> S t (Ok x) t"
    "\<And>t x t'. R t (Ok (Inr x)) t' \<Longrightarrow> S t (Ok x) t'"
  shows "stm_rel (transaction_early err body) S"
  unfolding stm_rel_def
proof (intro allI impI)
  fix db r db' assume "transaction_early err body db = (r, db')"
  then show "S (fst db) r (fst db')"
    by (cases rule: transaction_early_cases) (use assms stm_relD [OF assms(1)] in fastforce)+
qed

text \<open>An invariant of the tables.\<close>

abbreviation keeps :: "('t \<Rightarrow> bool) \<Rightarrow> ('t, 'e, 'a) stm \<Rightarrow> bool" where
  "keeps P m \<equiv> stm_rel m (\<lambda>t r t'. P t \<longrightarrow> P t')"

lemma keeps_bind [intro]: "keeps P m \<Longrightarrow> (\<And>x. keeps P (f x)) \<Longrightarrow> keeps P (u_bind m f)"
  by (rule stm_rel_bind [of _ "\<lambda>t r t'. P t \<longrightarrow> P t'" _ "\<lambda>_ t r t'. P t \<longrightarrow> P t'"]) auto

lemma keeps_lift [simp, intro]: "keeps P (u_lift r)"
  by (rule stm_rel_lift) simp

lemma keeps_lift_bind: "(\<And>x. r = Ok x \<Longrightarrow> keeps P (f x)) \<Longrightarrow> keeps P (u_bind (u_lift r) f)"
  by (cases r) (auto simp: stm_rel_def u_bind_def u_lift_def)

lemma keeps_transaction [intro]: "keeps P m \<Longrightarrow> keeps P (transaction err m)"
  by (erule stm_rel_transaction) auto

lemma keeps_early [intro]: "keeps P m \<Longrightarrow> keeps P (transaction_early err m)"
  by (erule stm_rel_early) auto

lemma keeps_sql [intro]: "(\<And>t x t'. f t = Some (x, t') \<Longrightarrow> P t \<Longrightarrow> P t') \<Longrightarrow> keeps P (statement err f)"
  by (rule stm_rel_sql) auto

text \<open>Inversion of a run that ends well.\<close>

lemma u_bind_Ok:
  assumes "u_bind m f db = (Ok y, db')"
  obtains x db1 where "m db = (Ok x, db1)" "f x db1 = (Ok y, db')"
  using assms by (auto simp: u_bind_def split: prod.splits sum.splits)

lemma u_lift_eq [simp]: "u_lift r db = (r', db') \<longleftrightarrow> r = r' \<and> db' = db"
  by (auto simp: u_lift_def)

lemma statement_Ok:
  "statement err f db = (Ok x, db') \<Longrightarrow> f (fst db) = Some (x, fst db')"
  by (auto simp: statement_def split: if_splits option.splits)

text \<open>Evaluation when no failure is scripted.\<close>

lemma statement_run:
  "statement err f (t, []) =
     (case f t of None \<Rightarrow> (Err err, (t, [])) | Some r \<Rightarrow> (Ok (fst r), (snd r, [])))"
  by (simp add: statement_def split: option.splits prod.splits)

lemma transaction_run:
  assumes "body (t, []) = (r, (t', []))"
  shows "transaction err body (t, []) = (r, (case r of Inl _ \<Rightarrow> t | Inr _ \<Rightarrow> t', []))"
  using assms by (cases r) (simp_all add: transaction_def u_bind_def statement_def u_lift_def)

end
