(* ===== verification/Appd_Profiles.thy ===== *)
theory Appd_Profiles
  imports Appd_Transfers Sql_Statements "HOL-Library.List_Lexorder" "HOL-Library.Char_ord"
begin

text \<open>
  The profile store of the service (bins/appd/src/remote.rs, \<open>RemoteProfileStore\<close> and
  \<open>RemoteRuntime::profile_command\<close>): one SQLite table of JSON documents with revisions. The
  texts of \<open>serde_json\<close> and of a UUID are a record of parameters, the clock reading is an
  argument, every statement can fail. What the store guarantees is shown in \<open>Profile_Store\<close>.
\<close>

section \<open>The table\<close>

record profile_row =
  pw_profile_id :: string
  pw_protocol :: string
  pw_revision :: i64
  pw_document :: bytes
  pw_created_at_unix_ms :: i64
  pw_updated_at_unix_ms :: i64

type_synonym profile_table = "profile_row list"

record profiles_env =
  pe_to_vec :: "connection_profile \<Rightarrow> bytes option"
  pe_from_slice :: "bytes \<Rightarrow> connection_profile option"
  pe_uuid_text :: "uuid \<Rightarrow> string"

definition MAX_REMOTE_PROFILE_DOCUMENT_BYTES :: nat where
  "MAX_REMOTE_PROFILE_DOCUMENT_BYTES = 64 * 1024"

text \<open>A call ends in an error of the service or in a panic of its worker.\<close>

datatype profile_failure = Failed runtime_error | WorkerPanic

type_synonym 'a profile_stm = "(profile_table, profile_failure, 'a) stm"

definition profile_store_unavailable :: runtime_error where
  "profile_store_unavailable = runtime_error_new ''remote_profile_unavailable'' ''remote_profile_store_unavailable'' True"

definition profile_store_corrupt :: runtime_error where
  "profile_store_corrupt = runtime_error_new ''remote_profile_unavailable'' ''remote_profile_store_corrupt'' False"

definition remote_profile_invalid :: runtime_error where
  "remote_profile_invalid = runtime_error_new ''remote_profile_invalid'' ''remote_profile_invalid'' False"

definition remote_profile_conflict :: runtime_error where
  "remote_profile_conflict = runtime_error_new ''remote_profile_conflict'' ''remote_profile_revision_conflict'' False"

definition remote_profile_not_found :: runtime_error where
  "remote_profile_not_found = runtime_error_new ''remote_profile_not_found'' ''remote_profile_not_found'' False"

definition remote_profile_in_use :: "string \<Rightarrow> runtime_error" where
  "remote_profile_in_use reason = runtime_error_new ''remote_profile_in_use'' reason False"

abbreviation psql :: "(profile_table \<Rightarrow> ('a \<times> profile_table) option) \<Rightarrow> 'a profile_stm" where
  "psql \<equiv> statement (Failed profile_store_unavailable)"

abbreviation fail_with :: "runtime_error \<Rightarrow> 'a profile_stm" where
  "fail_with e \<equiv> u_lift (Err (Failed e))"

fun protocol_code :: "remote_protocol \<Rightarrow> string" where
  "protocol_code Proto_Ssh = ''ssh''"
| "protocol_code Proto_Sftp = ''sftp''"
| "protocol_code Proto_Ftp = ''ftp''"
| "protocol_code Proto_FtpsExplicit = ''ftps_explicit''"
| "protocol_code Proto_Smb = ''smb''"

section \<open>Documents\<close>

definition encode_profile :: "profiles_env \<Rightarrow> connection_profile \<Rightarrow> (profile_failure, bytes) result" where
  "encode_profile env p =
     and_then (ok_or (pe_to_vec env p) (Failed remote_profile_invalid)) (\<lambda>document.
     if MAX_REMOTE_PROFILE_DOCUMENT_BYTES < length document
     then Err (Failed (runtime_error_new ''remote_profile_invalid'' ''remote_profile_document_too_large'' False))
     else Ok document)"

definition id_text :: "profiles_env \<Rightarrow> profile_id \<Rightarrow> string" where
  "id_text env i = pe_uuid_text env (profile_uuid i)"

definition decode_profile_row :: "profiles_env \<Rightarrow> profile_row \<Rightarrow> (profile_failure, stored_profile) result" where
  "decode_profile_row env r =
     (if MAX_REMOTE_PROFILE_DOCUMENT_BYTES < length (pw_document r) \<or> pw_revision r < 0
      then Err (Failed profile_store_corrupt)
      else and_then (ok_or (pe_from_slice env (pw_document r)) (Failed profile_store_corrupt)) (\<lambda>profile.
        and_then (ok_or (u64_of_i64 (pw_revision r)) (Failed profile_store_corrupt)) (\<lambda>revision.
        let stored = \<lparr>sp_profile = profile, sp_revision = revision,
              sp_created_at_unix_ms = pw_created_at_unix_ms r, sp_updated_at_unix_ms = pw_updated_at_unix_ms r\<rparr>
        in and_then (map_err (\<lambda>_. Failed profile_store_corrupt) (stored_validate stored)) (\<lambda>_.
           if id_text env (sp_id stored) \<noteq> pw_profile_id r \<or> protocol_code (cp_protocol profile) \<noteq> pw_protocol r
           then Err (Failed profile_store_corrupt) else Ok stored))))"

definition find_row :: "profiles_env \<Rightarrow> profile_id \<Rightarrow> profile_table \<Rightarrow> profile_row option" where
  "find_row env i t = find (\<lambda>r. pw_profile_id r = id_text env i) t"

definition load_profile_by_id :: "profiles_env \<Rightarrow> profile_id \<Rightarrow> stored_profile option profile_stm" where
  "load_profile_by_id env i =
     u_bind (psql (\<lambda>t. Some (find_row env i t, t))) (\<lambda>row. u_lift
       (case row of None \<Rightarrow> Ok None | Some r \<Rightarrow> and_then (decode_profile_row env r) (\<lambda>s. Ok (Some s))))"

section \<open>Listing\<close>

text \<open>\<open>while let Some(row) = rows.next()?\<close>: each step of the cursor can fail.\<close>

fun fetch_profiles :: "profiles_env \<Rightarrow> profile_row list \<Rightarrow> stored_profile list profile_stm" where
  "fetch_profiles env [] = u_bind (psql (\<lambda>t. Some ((), t))) (\<lambda>_. u_lift (Ok []))"
| "fetch_profiles env (r # rs) =
     u_bind (psql (\<lambda>t. Some ((), t))) (\<lambda>_.
     u_bind (u_lift (decode_profile_row env r)) (\<lambda>s.
     u_bind (fetch_profiles env rs) (\<lambda>ss. u_lift (Ok (s # ss)))))"

text \<open>\<open>WHERE profile_id > ? ORDER BY profile_id LIMIT ?\<close>, on the bytes of the text.\<close>

definition select_profiles :: "string \<Rightarrow> nat \<Rightarrow> profile_table \<Rightarrow> profile_row list" where
  "select_profiles after limit t = take limit (sort_key pw_profile_id (filter (\<lambda>r. after < pw_profile_id r) t))"

definition profile_list :: "profiles_env \<Rightarrow> profile_page_query \<Rightarrow> profile_result profile_stm" where
  "profile_list env query =
     (let limit = unat (pp_limit query);
          after = (case pp_after query of None \<Rightarrow> [] | Some i \<Rightarrow> id_text env i)
      in u_bind (psql (\<lambda>t. Some (select_profiles after (limit + 1) t, t))) (\<lambda>rows.
         u_bind (fetch_profiles env rows) (\<lambda>profiles.
         let has_more = limit < length profiles; kept = take limit profiles
         in if has_more \<and> kept = [] then u_lift (Err WorkerPanic)
            else let page = \<lparr>pg_profiles = kept, pg_next_after = (if has_more then Some (sp_id (last kept)) else None)\<rparr>
                 in u_lift (and_then (map_err (\<lambda>_. Failed profile_store_corrupt) (profile_page_validate page query))
                      (\<lambda>_. Ok (ProfilePage page))))))"

section \<open>References\<close>

fun jump_profiles :: "profile_options \<Rightarrow> profile_id list" where
  "jump_profiles (Opt_Ssh jumps _) = jumps"
| "jump_profiles (Opt_Sftp jumps) = jumps"
| "jump_profiles _ = []"

fun scan_references :: "profiles_env \<Rightarrow> profile_id \<Rightarrow> bool \<Rightarrow> profile_row list \<Rightarrow> bool profile_stm" where
  "scan_references env i transfer_referenced [] =
     u_bind (psql (\<lambda>t. Some ((), t))) (\<lambda>_. u_lift (Ok transfer_referenced))"
| "scan_references env i transfer_referenced (r # rs) =
     u_bind (psql (\<lambda>t. Some ((), t))) (\<lambda>_.
     u_bind (u_lift (decode_profile_row env r)) (\<lambda>s.
     if sp_id s \<noteq> i \<and> i \<in> set (jump_profiles (cp_options (sp_profile s))) then u_lift (Ok True)
     else scan_references env i transfer_referenced rs))"

definition profile_is_referenced :: "profiles_env \<Rightarrow> profile_id \<Rightarrow> bool \<Rightarrow> bool profile_stm" where
  "profile_is_referenced env i transfer_referenced =
     u_bind (psql (\<lambda>t. Some (t, t))) (scan_references env i transfer_referenced)"

section \<open>Changes\<close>

definition update_profile_row :: "string \<Rightarrow> i64 \<Rightarrow> string \<Rightarrow> i64 \<Rightarrow> bytes \<Rightarrow> i64 \<Rightarrow> profile_table \<Rightarrow> nat \<times> profile_table" where
  "update_profile_row i expected protocol revision document now t =
     (let hit = (\<lambda>r. pw_profile_id r = i \<and> pw_revision r = expected)
      in (length (filter hit t),
          map (\<lambda>r. if hit r then r\<lparr>pw_protocol := protocol, pw_revision := revision, pw_document := document,
                pw_updated_at_unix_ms := now\<rparr> else r) t))"

text \<open>\<open>INSERT OR IGNORE\<close>\<close>

definition insert_profile_row :: "profile_row \<Rightarrow> profile_table \<Rightarrow> nat \<times> profile_table" where
  "insert_profile_row row t =
     (if list_ex (\<lambda>r. pw_profile_id r = pw_profile_id row) t then (0, t) else (1, t @ [row]))"

definition check_upsert ::
  "profiles_env \<Rightarrow> connection_profile \<Rightarrow> u64 option \<Rightarrow> bool \<Rightarrow> stored_profile option \<Rightarrow> unit profile_stm" where
  "check_upsert env profile expected transfer_referenced existing =
     (case existing of
        Some current \<Rightarrow>
          if expected \<noteq> Some (sp_revision current) then fail_with remote_profile_conflict
          else if cp_protocol (sp_profile current) \<noteq> cp_protocol profile
          then u_bind (profile_is_referenced env (cp_id profile) transfer_referenced) (\<lambda>used.
            if used then fail_with (remote_profile_in_use ''remote_profile_protocol_change_in_use'') else u_lift (Ok ()))
          else u_lift (Ok ())
      | None \<Rightarrow> if expected \<noteq> None then fail_with remote_profile_not_found else u_lift (Ok ()))"

definition new_revision :: "u64 option \<Rightarrow> u64" where
  "new_revision expected = (case expected of None \<Rightarrow> 0 | Some v \<Rightarrow> v + 1)"

definition write_profile_row ::
  "profiles_env \<Rightarrow> i64 \<Rightarrow> connection_profile \<Rightarrow> u64 option \<Rightarrow> bytes \<Rightarrow> nat profile_stm" where
  "write_profile_row env now profile expected document =
     (case expected of
        Some e \<Rightarrow>
          u_bind (u_lift (ok_or (i64_of_u64 (new_revision expected)) (Failed remote_profile_invalid))) (\<lambda>revision'.
          u_bind (u_lift (ok_or (i64_of_u64 e) (Failed remote_profile_invalid))) (\<lambda>e'.
          psql (\<lambda>t. Some (update_profile_row (id_text env (cp_id profile)) e' (protocol_code (cp_protocol profile))
            revision' document now t))))
      | None \<Rightarrow>
          psql (\<lambda>t. Some (insert_profile_row \<lparr>pw_profile_id = id_text env (cp_id profile),
            pw_protocol = protocol_code (cp_protocol profile), pw_revision = 0, pw_document = document,
            pw_created_at_unix_ms = now, pw_updated_at_unix_ms = now\<rparr> t)))"

definition stored_answer ::
  "i64 \<Rightarrow> connection_profile \<Rightarrow> u64 option \<Rightarrow> stored_profile option \<Rightarrow> stored_profile" where
  "stored_answer now profile expected existing =
     \<lparr>sp_profile = profile, sp_revision = new_revision expected,
      sp_created_at_unix_ms = (case existing of None \<Rightarrow> now | Some s \<Rightarrow> sp_created_at_unix_ms s), sp_updated_at_unix_ms = now\<rparr>"

definition profile_upsert ::
  "profiles_env \<Rightarrow> i64 \<Rightarrow> connection_profile \<Rightarrow> u64 option \<Rightarrow> bool \<Rightarrow> profile_result profile_stm" where
  "profile_upsert env now profile expected transfer_referenced =
     u_bind (u_lift (map_err (\<lambda>_. Failed remote_profile_invalid) (profile_validate profile))) (\<lambda>_.
     u_bind (u_lift (encode_profile env profile)) (\<lambda>document.
     u_bind (load_profile_by_id env (cp_id profile)) (\<lambda>existing.
     u_bind (check_upsert env profile expected transfer_referenced existing) (\<lambda>_.
     transaction (Failed profile_store_unavailable)
       (u_bind (write_profile_row env now profile expected document) (\<lambda>changed.
        if changed \<noteq> 1 then fail_with remote_profile_conflict
        else u_lift (Ok (ProfileStored (stored_answer now profile expected existing)))))))))"

definition delete_profile_row :: "profiles_env \<Rightarrow> profile_id \<Rightarrow> u64 \<Rightarrow> profile_result profile_stm" where
  "delete_profile_row env i expected =
     u_bind (u_lift (ok_or (i64_of_u64 expected) (Failed remote_profile_invalid))) (\<lambda>e.
     u_bind (psql (\<lambda>t. let hit = (\<lambda>r. pw_profile_id r = id_text env i \<and> pw_revision r = e)
       in Some (length (filter hit t), filter (\<lambda>r. \<not> hit r) t))) (\<lambda>changed.
     if changed \<noteq> 1
     then u_bind (psql (\<lambda>t. Some (list_ex (\<lambda>r. pw_profile_id r = id_text env i) t, t))) (\<lambda>exists.
       fail_with (if exists then remote_profile_conflict else remote_profile_not_found))
     else u_lift (Ok (ProfileDeleted i))))"

definition profile_delete ::
  "profiles_env \<Rightarrow> profile_id \<Rightarrow> u64 \<Rightarrow> bool \<Rightarrow> profile_result profile_stm" where
  "profile_delete env i expected transfer_referenced =
     u_bind (profile_is_referenced env i transfer_referenced) (\<lambda>used.
     if used then fail_with (remote_profile_in_use ''remote_profile_in_use'')
     else transaction (Failed profile_store_unavailable) (delete_profile_row env i expected))"

definition profile_execute ::
  "profiles_env \<Rightarrow> i64 \<Rightarrow> profile_command \<Rightarrow> bool \<Rightarrow> profile_result profile_stm" where
  "profile_execute env now command transfer_referenced =
     (case command of
        ProfileList query \<Rightarrow> profile_list env query
      | ProfileUpsert profile expected \<Rightarrow> profile_upsert env now profile expected transfer_referenced
      | ProfileDelete i expected \<Rightarrow> profile_delete env i expected transfer_referenced)"

section \<open>Commands of the service\<close>

text \<open>What \<open>profile_command\<close> uses of the runtime: the store behind its mutex, which a panic of the
  worker poisons, the executor, and the references of the transfers while no executor runs.\<close>

record ('s, 'r) profile_runtime = "('s, 'r) remote_runtime" +
  pf_store :: "profile_table handle option"
  pf_poisoned :: bool
  pf_inactive_refs :: "profile_id list option"

text \<open>None is a panic.\<close>

definition transfer_profile_is_referenced ::
  "profile_id \<Rightarrow> ('s, 'r) profile_runtime \<Rightarrow> ((runtime_error, bool) result \<times> ('s, 'r) profile_runtime) option" where
  "transfer_profile_is_referenced i rt =
     (case rt_executor rt of
        Some x \<Rightarrow>
          (case references_profile i x of
             (Inr b, x') \<Rightarrow> Some (Ok b, rt\<lparr>rt_executor := Some x'\<rparr>)
           | (Inl e, x') \<Rightarrow> map_option (\<lambda>m. (Err m, rt\<lparr>rt_executor := Some x'\<rparr>)) (map_transfer_executor_error e))
      | None \<Rightarrow>
          Some (case pf_inactive_refs rt of
             None \<Rightarrow> Err (runtime_error_new ''transfer_unavailable'' ''transfer_reference_snapshot_unavailable'' True)
           | Some refs \<Rightarrow> Ok (i \<in> set refs), rt))"

definition run_profile_worker ::
  "profiles_env \<Rightarrow> i64 \<Rightarrow> profile_command \<Rightarrow> bool \<Rightarrow> ('s, 'r) profile_runtime \<Rightarrow>
   (runtime_error, profile_result) result \<times> ('s, 'r) profile_runtime" where
  "run_profile_worker env now command transfer_referenced rt =
     (case pf_store rt of
        None \<Rightarrow> (Err profile_store_unavailable, rt)
      | Some db \<Rightarrow>
          if pf_poisoned rt
          then (Err (runtime_error_new ''remote_profile_unavailable'' ''remote_profile_store_poisoned'' True), rt)
          else case profile_execute env now command transfer_referenced db of
            (Inr v, db') \<Rightarrow> (Ok v, rt\<lparr>pf_store := Some db'\<rparr>)
          | (Inl (Failed e), db') \<Rightarrow> (Err e, rt\<lparr>pf_store := Some db'\<rparr>)
          | (Inl WorkerPanic, db') \<Rightarrow>
              (Err (runtime_error_new ''remote_profile_unavailable'' ''remote_profile_worker_failed'' True),
               rt\<lparr>pf_store := Some db', pf_poisoned := True\<rparr>))"

definition profile_command_op ::
  "profiles_env \<Rightarrow> i64 \<Rightarrow> profile_command \<Rightarrow> ('s, 'r) profile_runtime \<Rightarrow>
   ((runtime_error, profile_result) result \<times> ('s, 'r) profile_runtime) option" where
  "profile_command_op env now command rt =
     (case profile_command_validate command of
        Inl _ \<Rightarrow> Some (Err remote_profile_invalid, rt)
      | Inr _ \<Rightarrow>
          (let profile_id = (case command of ProfileList _ \<Rightarrow> None | ProfileUpsert p _ \<Rightarrow> Some (cp_id p) | ProfileDelete i _ \<Rightarrow> Some i)
           in case profile_id of
                None \<Rightarrow> Some (run_profile_worker env now command False rt)
              | Some i \<Rightarrow>
                  (case transfer_profile_is_referenced i rt of
                     None \<Rightarrow> None
                   | Some (Inl e, rt1) \<Rightarrow> Some (Err e, rt1)
                   | Some (Inr referenced, rt1) \<Rightarrow> Some (run_profile_worker env now command referenced rt1))))"

definition load_profile ::
  "profiles_env \<Rightarrow> profile_id \<Rightarrow> ('s, 'r) profile_runtime \<Rightarrow>
   (runtime_error, stored_profile) result \<times> ('s, 'r) profile_runtime" where
  "load_profile env i rt =
     (case pf_store rt of
        None \<Rightarrow> (Err profile_store_unavailable, rt)
      | Some db \<Rightarrow>
          if pf_poisoned rt then (Err profile_store_unavailable, rt)
          else case load_profile_by_id env i db of
            (Inr (Some s), db') \<Rightarrow> (Ok s, rt\<lparr>pf_store := Some db'\<rparr>)
          | (Inr None, db') \<Rightarrow> (Err remote_profile_not_found, rt\<lparr>pf_store := Some db'\<rparr>)
          | (Inl (Failed e), db') \<Rightarrow> (Err e, rt\<lparr>pf_store := Some db'\<rparr>)
          | (Inl WorkerPanic, db') \<Rightarrow>
              (Err (runtime_error_new ''remote_worker_failed'' ''remote_worker_failed'' True),
               rt\<lparr>pf_store := Some db', pf_poisoned := True\<rparr>))"

end
