(* ===== verification/Profile_Store.thy ===== *)
theory Profile_Store
  imports Appd_Profiles
begin

text \<open>
  What users of the profile store rely on. Shown, for every content the store can reach and any
  failing statements: it is a map that compare-and-swap changes, pages list every profile once,
  a profile in use is kept, and an update under a clock that was set back blocks the store.
\<close>

section \<open>The store as a map\<close>

text \<open>What the code relies on of \<open>serde_json\<close> and of the text of a UUID: a document parses back, and
  the texts are ordered as the identifiers are.\<close>

definition codec_laws :: "profiles_env \<Rightarrow> bool" where
  "codec_laws env \<longleftrightarrow>
     (\<forall>p d. pe_to_vec env p = Some d \<longrightarrow> pe_from_slice env d = Some p) \<and>
     (\<forall>u v. u < v \<longrightarrow> pe_uuid_text env u < pe_uuid_text env v) \<and> (\<forall>u. pe_uuid_text env u \<noteq> [])"

definition profile_at :: "profiles_env \<Rightarrow> profile_table \<Rightarrow> profile_id \<Rightarrow> stored_profile option" where
  "profile_at env t i =
     (case find_row env i t of None \<Rightarrow> None
      | Some r \<Rightarrow> (case decode_profile_row env r of Inl _ \<Rightarrow> None | Inr s \<Rightarrow> Some s))"

definition profiles_ok :: "profiles_env \<Rightarrow> i64 \<Rightarrow> profile_table \<Rightarrow> bool" where
  "profiles_ok env now t \<longleftrightarrow> distinct (map pw_profile_id t) \<and>
     (\<forall>r \<in> set t. is_ok (decode_profile_row env r) \<and> pw_created_at_unix_ms r \<le> now \<and> pw_revision r < 2 ^ 64)"

lemma id_text_less: "codec_laws env \<Longrightarrow> id_text env i < id_text env j \<longleftrightarrow> i < j"
  unfolding codec_laws_def id_text_def less_profile_id_def by (metis linorder_cases order_less_asym)

lemma id_text_eq [simp]: "codec_laws env \<Longrightarrow> id_text env i = id_text env j \<longleftrightarrow> i = j"
  using id_text_less by (metis linorder_neq_iff)

lemma decode_profile_row_Ok:
  "decode_profile_row env r = Ok s \<longleftrightarrow>
     length (pw_document r) \<le> MAX_REMOTE_PROFILE_DOCUMENT_BYTES \<and> 0 \<le> pw_revision r \<and>
     pe_from_slice env (pw_document r) = Some (sp_profile s) \<and> sp_revision s = word_of_int (pw_revision r) \<and>
     sp_created_at_unix_ms s = pw_created_at_unix_ms r \<and> sp_updated_at_unix_ms s = pw_updated_at_unix_ms r \<and>
     stored_validate s = Ok () \<and> id_text env (sp_id s) = pw_profile_id r \<and>
     protocol_code (cp_protocol (sp_profile s)) = pw_protocol r"
proof -
  have "stored_validate s = Ok () \<longleftrightarrow> (\<exists>x. stored_validate s = Ok x)" for s by auto
  then show ?thesis
    by (cases s) (auto simp: decode_profile_row_def and_then_eq_Ok u64_of_i64_def Let_def split: if_splits)
qed

lemma find_row_Some:
  "find_row env i t = Some r \<Longrightarrow> r \<in> set t \<and> pw_profile_id r = id_text env i"
  by (auto simp: find_row_def find_Some_iff)

lemma find_row_None: "find_row env i t = None \<longleftrightarrow> id_text env i \<notin> pw_profile_id ` set t"
  by (force simp: find_row_def find_None_iff)

lemma find_row_mem:
  "distinct (map pw_profile_id t) \<Longrightarrow> find_row env i t = Some r \<longleftrightarrow> r \<in> set t \<and> pw_profile_id r = id_text env i"
proof
  assume d: "distinct (map pw_profile_id t)" and r: "r \<in> set t \<and> pw_profile_id r = id_text env i"
  then obtain q where q: "find_row env i t = Some q" by (metis find_row_None imageI option.exhaust)
  with find_row_Some [OF q] d r show "find_row env i t = Some r" by (metis distinct_map inj_onD)
qed (rule find_row_Some)

lemma profile_at_row:
  assumes "profiles_ok env now t" "find_row env i t = Some r"
  obtains s where "decode_profile_row env r = Ok s" "profile_at env t i = Some s"
  using assms find_row_Some [OF assms(2)] by (auto simp: profiles_ok_def profile_at_def is_ok_iff)

lemma profile_at_None: "profiles_ok env now t \<Longrightarrow> profile_at env t i = None \<longleftrightarrow> find_row env i t = None"
  by (cases "find_row env i t") (auto simp: profile_at_def elim: profile_at_row)

lemma profile_at_Some_id: "codec_laws env \<Longrightarrow> profile_at env t i = Some s \<Longrightarrow> sp_id s = i"
  by (auto simp: profile_at_def decode_profile_row_Ok dest!: find_row_Some split: option.splits sum.splits)

text \<open>Reading leaves the table alone.\<close>

lemma psql_read: "stm_rel (psql (\<lambda>t. Some (f t, t))) (\<lambda>t r t'. t' = t \<and> (\<forall>x. r = Ok x \<longrightarrow> x = f t) \<and> r \<noteq> Err WorkerPanic)"
  by (rule stm_rel_sql) auto

lemma decode_not_panic: "decode_profile_row env r \<noteq> Err WorkerPanic"
  by (auto simp: decode_profile_row_def and_then_eq_Err map_err_Err_iff ok_or_def Let_def split: if_splits option.splits)

lemma load_profile_rel:
  "stm_rel (load_profile_by_id env i) (\<lambda>t r t'. t' = t \<and> r \<noteq> Err WorkerPanic \<and>
     (\<forall>v. r = Ok v \<longrightarrow> v = profile_at env t i \<and> (v = None \<longleftrightarrow> find_row env i t = None)))"
  unfolding load_profile_by_id_def
  by (rule stm_rel_bind [OF psql_read [of "find_row env i"]],
      rule stm_rel_lift [of "\<lambda>t r t'. t' = t \<and> r = _"])
     (auto simp: profile_at_def and_then_def decode_not_panic split: option.splits sum.splits)

lemma fetch_profiles_rel:
  "stm_rel (fetch_profiles env rs) (\<lambda>t r t'. t' = t \<and> r \<noteq> Err WorkerPanic \<and>
     (\<forall>ss. r = Ok ss \<longrightarrow> list_all2 (\<lambda>r s. decode_profile_row env r = Ok s) rs ss))"
proof (induction rs)
  case Nil
  show ?case
    by (simp, rule stm_rel_bind [OF psql_read [of "\<lambda>_. ()"]], rule stm_rel_lift [of "\<lambda>t r t'. t' = t \<and> r = Ok []"]) auto
next
  case (Cons r rs)
  have step: "stm_rel (u_bind (fetch_profiles env rs) (\<lambda>ss. u_lift (Ok (s # ss))))
      (\<lambda>t q t'. t' = t \<and> q \<noteq> Err WorkerPanic \<and> (\<forall>ss. q = Ok ss \<longrightarrow> ss \<noteq> [] \<and> hd ss = s \<and> list_all2 (\<lambda>r s. decode_profile_row env r = Ok s) rs (tl ss)))" for s
    by (rule stm_rel_bind [OF Cons], rule stm_rel_lift [of "\<lambda>t q t'. t' = t \<and> q = Ok _"]) auto
  have "stm_rel (u_bind (u_lift (decode_profile_row env r)) (\<lambda>s. u_bind (fetch_profiles env rs) (\<lambda>ss. u_lift (Ok (s # ss)))))
      (\<lambda>t q t'. t' = t \<and> q \<noteq> Err WorkerPanic \<and> (\<forall>ss. q = Ok ss \<longrightarrow> list_all2 (\<lambda>r s. decode_profile_row env r = Ok s) (r # rs) ss))"
    by (rule stm_rel_bind [OF stm_rel_lift [of "\<lambda>t q t'. t' = t \<and> decode_profile_row env r = q"] step])
       (auto simp: decode_not_panic list_all2_Cons1 neq_Nil_conv)
  then show ?case
    by (simp only: fetch_profiles.simps, intro stm_rel_bind [OF psql_read [of "\<lambda>_. ()"]]) auto
qed

lemma scan_references_rel:
  "stm_rel (scan_references env i b rs) (\<lambda>t r t'. t' = t \<and> r \<noteq> Err WorkerPanic \<and>
     (r = Ok False \<longrightarrow> \<not> b \<and> (\<forall>q \<in> set rs. \<exists>s. decode_profile_row env q = Ok s \<and>
        (sp_id s = i \<or> i \<notin> set (jump_profiles (cp_options (sp_profile s)))))))"
proof (induction rs)
  case Nil
  show ?case
    by (simp, rule stm_rel_bind [OF psql_read [of "\<lambda>_. ()"]], rule stm_rel_lift [of "\<lambda>t r t'. t' = t \<and> r = Ok b"]) auto
next
  case (Cons r rs)
  let ?R = "\<lambda>t q t'. t' = t \<and> q \<noteq> Err WorkerPanic \<and>
     (q = Ok False \<longrightarrow> \<not> b \<and> (\<forall>q \<in> set rs. \<exists>s. decode_profile_row env q = Ok s \<and>
        (sp_id s = i \<or> i \<notin> set (jump_profiles (cp_options (sp_profile s))))))"
  have step: "stm_rel (if sp_id s \<noteq> i \<and> i \<in> set (jump_profiles (cp_options (sp_profile s))) then u_lift (Ok True)
     else scan_references env i b rs)
     (\<lambda>t q t'. ?R t q t' \<and> (q = Ok False \<longrightarrow> sp_id s = i \<or> i \<notin> set (jump_profiles (cp_options (sp_profile s)))))" for s
    using stm_rel_weaken [OF Cons] by (auto intro!: stm_rel_lift)
  have "stm_rel (u_bind (u_lift (decode_profile_row env r)) (\<lambda>s.
     if sp_id s \<noteq> i \<and> i \<in> set (jump_profiles (cp_options (sp_profile s))) then u_lift (Ok True)
     else scan_references env i b rs))
     (\<lambda>t q t'. t' = t \<and> q \<noteq> Err WorkerPanic \<and>
     (q = Ok False \<longrightarrow> \<not> b \<and> (\<forall>q \<in> set (r # rs). \<exists>s. decode_profile_row env q = Ok s \<and>
        (sp_id s = i \<or> i \<notin> set (jump_profiles (cp_options (sp_profile s)))))))"
    by (rule stm_rel_bind [OF stm_rel_lift [of "\<lambda>t q t'. t' = t \<and> decode_profile_row env r = q"] step])
       (auto simp: decode_not_panic)
  then show ?case
    by (simp only: scan_references.simps, intro stm_rel_bind [OF psql_read [of "\<lambda>_. ()"]]) auto
qed

lemma profile_is_referenced_rel:
  "stm_rel (profile_is_referenced env i b) (\<lambda>t r t'. t' = t \<and> r \<noteq> Err WorkerPanic \<and>
     (r = Ok False \<longrightarrow> \<not> b \<and> (\<forall>q \<in> set t. \<exists>s. decode_profile_row env q = Ok s \<and>
        (sp_id s = i \<or> i \<notin> set (jump_profiles (cp_options (sp_profile s)))))))"
  unfolding profile_is_referenced_def
  by (rule stm_rel_bind [OF psql_read [of "\<lambda>t. t"] scan_references_rel]) auto

section \<open>What a change does\<close>

definition profile_written ::
  "profiles_env \<Rightarrow> i64 \<Rightarrow> connection_profile \<Rightarrow> bytes \<Rightarrow> u64 option \<Rightarrow> profile_table \<Rightarrow> profile_table \<Rightarrow> bool" where
  "profile_written env now p d expected t t' \<longleftrightarrow>
     (case expected of
        None \<Rightarrow> insert_profile_row \<lparr>pw_profile_id = id_text env (cp_id p), pw_protocol = protocol_code (cp_protocol p), pw_revision = 0,
          pw_document = d, pw_created_at_unix_ms = now, pw_updated_at_unix_ms = now\<rparr> t = (1, t')
      | Some e \<Rightarrow> update_profile_row (id_text env (cp_id p)) (uint e) (protocol_code (cp_protocol p)) (uint (e + 1)) d now t = (1, t'))"

lemma write_profile_row_rel:
  "stm_rel (write_profile_row env now p expected d)
     (\<lambda>t r t'. r \<noteq> Err WorkerPanic \<and> (r = Ok 1 \<longrightarrow> profile_written env now p d expected t t'))"
proof (cases expected)
  case None
  then show ?thesis unfolding write_profile_row_def by (auto simp: profile_written_def intro!: stm_rel_sql)
next
  case (Some e)
  then show ?thesis unfolding write_profile_row_def
    by (auto simp: profile_written_def new_revision_def stm_rel_def u_bind_def u_lift_def statement_def ok_or_def i64_of_u64_def
        split: if_splits option.splits prod.splits)
qed

definition unreferenced :: "profiles_env \<Rightarrow> profile_id \<Rightarrow> bool \<Rightarrow> profile_table \<Rightarrow> bool" where
  "unreferenced env i b t \<longleftrightarrow> \<not> b \<and> (\<forall>q \<in> set t. \<exists>s. decode_profile_row env q = Ok s \<and>
     (sp_id s = i \<or> i \<notin> set (jump_profiles (cp_options (sp_profile s)))))"

lemma check_upsert_rel:
  "stm_rel (check_upsert env p expected b existing)
   (\<lambda>t r t'. t' = t \<and> r \<noteq> Err WorkerPanic \<and> (\<forall>x. r = Ok x \<longrightarrow> expected = map_option sp_revision existing \<and>
      (\<forall>current. existing = Some current \<longrightarrow> cp_protocol (sp_profile current) \<noteq> cp_protocol p \<longrightarrow> unreferenced env (cp_id p) b t)))"
proof -
  let ?S = "\<lambda>used t r t'. t' = t \<and> r = (if used then Err (Failed (remote_profile_in_use ''remote_profile_protocol_change_in_use'')) else Ok ())"
  have used: "stm_rel (u_bind (profile_is_referenced env (cp_id p) b) (\<lambda>used.
      if used then fail_with (remote_profile_in_use ''remote_profile_protocol_change_in_use'') else u_lift (Ok ())))
    (\<lambda>t r t'. t' = t \<and> r \<noteq> Err WorkerPanic \<and> (\<forall>x. r = Ok x \<longrightarrow> unreferenced env (cp_id p) b t))"
    by (rule stm_rel_bind [OF profile_is_referenced_rel, of _ ?S]) (auto intro!: stm_rel_lift simp: unreferenced_def split: if_splits)
  show ?thesis
  proof (cases existing)
    case (Some current)
    then show ?thesis unfolding check_upsert_def using stm_rel_weaken [OF used] by (auto intro!: stm_rel_lift)
  qed (auto simp: check_upsert_def intro!: stm_rel_lift)
qed

lemma profile_upsert_rel:
  "stm_rel (profile_upsert env now p expected b) (\<lambda>t r t'. r \<noteq> Err WorkerPanic \<and> (\<forall>e. r = Err e \<longrightarrow> t' = t) \<and>
     (\<forall>v. r = Ok v \<longrightarrow> profile_validate p = Ok () \<and> expected = map_option sp_revision (profile_at env t (cp_id p)) \<and>
        v = ProfileStored (stored_answer now p expected (profile_at env t (cp_id p))) \<and>
        (\<exists>d. encode_profile env p = Ok d \<and> profile_written env now p d expected t t') \<and>
        (\<forall>current. profile_at env t (cp_id p) = Some current \<longrightarrow> cp_protocol (sp_profile current) \<noteq> cp_protocol p \<longrightarrow>
          unreferenced env (cp_id p) b t)))"
proof -
  have enc: "encode_profile env p \<noteq> Err WorkerPanic"
    by (auto simp: encode_profile_def and_then_def ok_or_def split: option.splits if_splits)
  have tx: "stm_rel (transaction (Failed profile_store_unavailable)
       (u_bind (write_profile_row env now p expected d) (\<lambda>changed.
        if changed \<noteq> 1 then fail_with remote_profile_conflict else u_lift (Ok v))))
    (\<lambda>t r t'. r \<noteq> Err WorkerPanic \<and> (\<forall>e. r = Err e \<longrightarrow> t' = t) \<and> (\<forall>x. r = Ok x \<longrightarrow> x = v \<and> profile_written env now p d expected t t'))" for d v
  proof (rule stm_rel_transaction_err [where R = "\<lambda>t r t'. r \<noteq> Err WorkerPanic \<and> (\<forall>x. r = Ok x \<longrightarrow> x = v \<and> profile_written env now p d expected t t')"])
    show "stm_rel (u_bind (write_profile_row env now p expected d) (\<lambda>changed.
        if changed \<noteq> 1 then fail_with remote_profile_conflict else u_lift (Ok v)))
      (\<lambda>t r t'. r \<noteq> Err WorkerPanic \<and> (\<forall>x. r = Ok x \<longrightarrow> x = v \<and> profile_written env now p d expected t t'))"
      by (rule stm_rel_bind [OF write_profile_row_rel,
            where S = "\<lambda>n t r t'. t' = t \<and> r = (if n \<noteq> 1 then Err (Failed remote_profile_conflict) else Ok v)"])
         (auto intro!: stm_rel_lift split: if_splits)
  qed auto
  have checked: "stm_rel (u_bind (check_upsert env p expected b existing) (\<lambda>_. transaction (Failed profile_store_unavailable)
       (u_bind (write_profile_row env now p expected d) (\<lambda>changed.
        if changed \<noteq> 1 then fail_with remote_profile_conflict else u_lift (Ok v)))))
    (\<lambda>t r t'. r \<noteq> Err WorkerPanic \<and> (\<forall>e. r = Err e \<longrightarrow> t' = t) \<and>
       (\<forall>x. r = Ok x \<longrightarrow> x = v \<and> profile_written env now p d expected t t' \<and> expected = map_option sp_revision existing \<and>
        (\<forall>current. existing = Some current \<longrightarrow> cp_protocol (sp_profile current) \<noteq> cp_protocol p \<longrightarrow> unreferenced env (cp_id p) b t)))"
    for d v existing
    by (rule stm_rel_bind [OF check_upsert_rel tx]) auto
  have loaded: "stm_rel (u_bind (load_profile_by_id env (cp_id p)) (\<lambda>existing.
      u_bind (check_upsert env p expected b existing) (\<lambda>_. transaction (Failed profile_store_unavailable)
       (u_bind (write_profile_row env now p expected d) (\<lambda>changed.
        if changed \<noteq> 1 then fail_with remote_profile_conflict
        else u_lift (Ok (ProfileStored (stored_answer now p expected existing))))))))
    (\<lambda>t r t'. r \<noteq> Err WorkerPanic \<and> (\<forall>e. r = Err e \<longrightarrow> t' = t) \<and>
       (\<forall>x. r = Ok x \<longrightarrow> x = ProfileStored (stored_answer now p expected (profile_at env t (cp_id p))) \<and>
        profile_written env now p d expected t t' \<and> expected = map_option sp_revision (profile_at env t (cp_id p)) \<and>
        (\<forall>current. profile_at env t (cp_id p) = Some current \<longrightarrow> cp_protocol (sp_profile current) \<noteq> cp_protocol p \<longrightarrow>
          unreferenced env (cp_id p) b t)))" for d
    by (rule stm_rel_bind [OF load_profile_rel checked]) auto
  show ?thesis unfolding profile_upsert_def
    by (rule stm_rel_lift_bind, rule stm_rel_lift_bind, rule stm_rel_weaken [OF loaded]) (use enc in \<open>auto simp: map_err_Err_iff\<close>)
qed

lemma delete_profile_row_rel:
  "stm_rel (delete_profile_row env i expected) (\<lambda>t r t'. r \<noteq> Err WorkerPanic \<and> (\<forall>v. r = Ok v \<longrightarrow> v = ProfileDeleted i \<and>
     length (filter (\<lambda>r. pw_profile_id r = id_text env i \<and> pw_revision r = uint expected) t) = 1 \<and>
     t' = filter (\<lambda>r. \<not> (pw_profile_id r = id_text env i \<and> pw_revision r = uint expected)) t))"
  unfolding delete_profile_row_def
  by (auto simp: stm_rel_def u_bind_def u_lift_def statement_def ok_or_def i64_of_u64_def Let_def split: if_splits option.splits prod.splits)

lemma profile_delete_rel:
  "stm_rel (profile_delete env i expected b) (\<lambda>t r t'. r \<noteq> Err WorkerPanic \<and> (\<forall>e. r = Err e \<longrightarrow> t' = t) \<and>
     (\<forall>v. r = Ok v \<longrightarrow> v = ProfileDeleted i \<and> unreferenced env i b t \<and>
        length (filter (\<lambda>r. pw_profile_id r = id_text env i \<and> pw_revision r = uint expected) t) = 1 \<and>
        t' = filter (\<lambda>r. \<not> (pw_profile_id r = id_text env i \<and> pw_revision r = uint expected)) t))"
proof -
  let ?R = "\<lambda>t r t'. r \<noteq> Err WorkerPanic \<and> (\<forall>e. r = Err e \<longrightarrow> t' = t) \<and> (\<forall>v. r = Ok v \<longrightarrow> v = ProfileDeleted i \<and>
        length (filter (\<lambda>r. pw_profile_id r = id_text env i \<and> pw_revision r = uint expected) t) = 1 \<and>
        t' = filter (\<lambda>r. \<not> (pw_profile_id r = id_text env i \<and> pw_revision r = uint expected)) t)"
  have tx: "stm_rel (transaction (Failed profile_store_unavailable) (delete_profile_row env i expected)) ?R"
    by (rule stm_rel_transaction_err [OF delete_profile_row_rel]) auto
  have "stm_rel (if used then fail_with (remote_profile_in_use ''remote_profile_in_use'') else
     transaction (Failed profile_store_unavailable) (delete_profile_row env i expected))
    (\<lambda>t r t'. ?R t r t' \<and> (\<forall>v. r = Ok v \<longrightarrow> \<not> used))" for used
    using tx by (cases used) (auto intro!: stm_rel_lift)
  from stm_rel_bind [OF profile_is_referenced_rel this] show ?thesis unfolding profile_delete_def
    by (rule stm_rel_weaken) (auto simp: unreferenced_def)
qed

lemma find_row_map:
  "(\<And>r. pw_profile_id (f r) = pw_profile_id r) \<Longrightarrow> find_row env j (map f t) = map_option f (find_row env j t)"
  by (induction t) (auto simp: find_row_def)

lemma find_row_append:
  "find_row env j (t @ [row]) = (case find_row env j t of Some r \<Rightarrow> Some r
     | None \<Rightarrow> if pw_profile_id row = id_text env j then Some row else None)"
  by (induction t) (auto simp: find_row_def)

lemma singleton_hit:
  assumes "length (filter P t) = 1"
  obtains r where "r \<in> set t" "P r"
proof -
  have "filter P t \<noteq> []" using assms by auto
  then show ?thesis using that by (auto simp: filter_empty_conv)
qed

lemma encode_decode:
  assumes "codec_laws env" "encode_profile env p = Ok d" "profile_validate p = Ok ()" "0 \<le> created" "created \<le> updated"
  shows "decode_profile_row env \<lparr>pw_profile_id = id_text env (cp_id p), pw_protocol = protocol_code (cp_protocol p), pw_revision = uint e,
      pw_document = d, pw_created_at_unix_ms = created, pw_updated_at_unix_ms = updated\<rparr> =
    Ok \<lparr>sp_profile = p, sp_revision = e, sp_created_at_unix_ms = created, sp_updated_at_unix_ms = updated\<rparr>"
  using assms by (auto simp: decode_profile_row_Ok encode_profile_def codec_laws_def and_then_eq_Ok stored_validate_def split: if_splits)

lemma profiles_ok_later: "profiles_ok env now t \<Longrightarrow> now \<le> now' \<Longrightarrow> profiles_ok env now' t"
  by (force simp: profiles_ok_def)

lemma written_new:
  assumes "codec_laws env" "profiles_ok env now t" "0 \<le> now" "profile_validate p = Ok ()" "encode_profile env p = Ok d"
    "profile_written env now p d None t t'" "profile_at env t (cp_id p) = None"
  shows "profiles_ok env now t' \<and> profile_at env t' = (profile_at env t)(cp_id p \<mapsto> stored_answer now p None None)"
proof -
  define row where "row = \<lparr>pw_profile_id = id_text env (cp_id p), pw_protocol = protocol_code (cp_protocol p), pw_revision = 0,
      pw_document = d, pw_created_at_unix_ms = now, pw_updated_at_unix_ms = now\<rparr>"
  have t': "t' = t @ [row]" "id_text env (cp_id p) \<notin> pw_profile_id ` set t"
    using assms(6) by (auto simp: profile_written_def insert_profile_row_def row_def list_ex_iff split: if_splits)
  have dec: "decode_profile_row env row = Ok (stored_answer now p None None)"
    using encode_decode [OF assms(1,5,4,3), of now 0] by (simp add: row_def stored_answer_def new_revision_def)
  have row: "pw_profile_id row = id_text env (cp_id p)" "pw_created_at_unix_ms row = now" "pw_revision row < 2 ^ 64" by (simp_all add: row_def)
  have "find_row env j (t @ [row]) = (if j = cp_id p then Some row else find_row env j t)" for j
  proof (cases "find_row env j t")
    case None
    then show ?thesis using assms(1) by (auto simp: find_row_append row)
  next
    case (Some r)
    then have "r \<in> set t" "pw_profile_id r = id_text env j" using find_row_Some by blast+
    then have "j \<noteq> cp_id p" using t'(2) by (metis imageI)
    then show ?thesis using Some by (simp add: find_row_append)
  qed
  then have "profile_at env t' = (profile_at env t)(cp_id p \<mapsto> stored_answer now p None None)"
    by (auto simp: profile_at_def t' dec fun_eq_iff)
  moreover have "profiles_ok env now t'"
    using assms(2) t'(2) dec row by (auto simp: profiles_ok_def t'(1))
  ultimately show ?thesis by blast
qed

lemma written_update:
  assumes "codec_laws env" "profiles_ok env now t" "profile_validate p = Ok ()" "encode_profile env p = Ok d"
    "profile_written env now p d (Some e) t t'" "profile_at env t (cp_id p) = Some cur"
  shows "profiles_ok env now t' \<and> profile_at env t' = (profile_at env t)(cp_id p \<mapsto> stored_answer now p (Some e) (Some cur))"
proof -
  let ?hit = "\<lambda>r. pw_profile_id r = id_text env (cp_id p) \<and> pw_revision r = uint e"
  define f where "f = (\<lambda>r :: profile_row. if ?hit r then r\<lparr>pw_protocol := protocol_code (cp_protocol p), pw_revision := uint (e + 1), pw_document := d,
      pw_updated_at_unix_ms := now\<rparr> else r)"
  have t': "t' = map f t" and hits: "length (filter ?hit t) = 1"
    using assms(5) by (auto simp: profile_written_def update_profile_row_def Let_def f_def)
  have ids: "pw_profile_id (f r) = pw_profile_id r" "pw_created_at_unix_ms (f r) = pw_created_at_unix_ms r" for r by (simp_all add: f_def)
  have d: "distinct (map pw_profile_id t)" using assms(2) by (simp add: profiles_ok_def)
  obtain r0 where r0: "r0 \<in> set t" "?hit r0" by (rule singleton_hit [OF hits])
  have find: "find_row env (cp_id p) t = Some r0" using r0 find_row_mem [OF d] by blast
  then have cur: "decode_profile_row env r0 = Ok cur"
    using assms(6) by (auto simp: profile_at_def split: sum.splits)
  then have times: "0 \<le> pw_created_at_unix_ms r0" "pw_created_at_unix_ms r0 \<le> now" "sp_created_at_unix_ms cur = pw_created_at_unix_ms r0"
    using assms(2) r0(1) by (auto simp: decode_profile_row_Ok stored_validate_def and_then_eq_Ok profiles_ok_def split: if_splits)
  have f0: "f r0 = \<lparr>pw_profile_id = id_text env (cp_id p), pw_protocol = protocol_code (cp_protocol p), pw_revision = uint (e + 1),
      pw_document = d, pw_created_at_unix_ms = pw_created_at_unix_ms r0, pw_updated_at_unix_ms = now\<rparr>"
    using r0(2) by (simp add: f_def)
  have dec: "decode_profile_row env (f r0) = Ok (stored_answer now p (Some e) (Some cur))"
    unfolding f0 by (simp add: encode_decode [OF assms(1,4,3) times(1,2)] stored_answer_def new_revision_def times(3))
  have other: "f r = r" if "r \<in> set t" "r \<noteq> r0" for r
  proof -
    have "pw_profile_id r \<noteq> pw_profile_id r0" using that r0(1) d by (auto simp: distinct_map dest: inj_onD)
    then show ?thesis using r0(2) by (simp add: f_def)
  qed
  have "profile_at env t' j = (if j = cp_id p then Some (stored_answer now p (Some e) (Some cur)) else profile_at env t j)" for j
  proof (cases "find_row env j t")
    case None
    then have "j \<noteq> cp_id p" using find by auto
    then show ?thesis using None by (simp add: profile_at_def t' find_row_map [OF ids(1)])
  next
    case (Some r)
    show ?thesis
    proof (cases "j = cp_id p")
      case True
      then show ?thesis using find dec by (simp add: profile_at_def t' find_row_map [OF ids(1)])
    next
      case False
      then have "r \<noteq> r0" using find_row_Some [OF Some] r0(2) assms(1) by auto
      then show ?thesis using Some False other find_row_Some [OF Some] by (simp add: profile_at_def t' find_row_map [OF ids(1)])
    qed
  qed
  moreover have "profiles_ok env now t'"
    unfolding profiles_ok_def t'
  proof (intro conjI ballI)
    show "distinct (map pw_profile_id (map f t))" using d by (simp add: comp_def ids)
    fix q assume "q \<in> set (map f t)"
    then obtain r where r: "r \<in> set t" "q = f r" by auto
    then have "is_ok (decode_profile_row env r)" "pw_created_at_unix_ms r \<le> now" "pw_revision r < 2 ^ 64" using assms(2) by (auto simp: profiles_ok_def)
    moreover have "pw_revision (f r0) < 2 ^ 64" unfolding f0 using uint_lt2p [of "e + 1"] by simp
    ultimately show "is_ok (decode_profile_row env q)" "pw_created_at_unix_ms q \<le> now" "pw_revision q < 2 ^ 64"
      using other [OF r(1)] dec r(2) ids(2) [of r] by (cases "r = r0"; simp)+
  qed
  ultimately show ?thesis by auto
qed

lemma deleted_row:
  assumes "codec_laws env" "profiles_ok env now t"
    "length (filter (\<lambda>r. pw_profile_id r = id_text env i \<and> pw_revision r = uint e) t) = 1"
    and t': "t' = filter (\<lambda>r. \<not> (pw_profile_id r = id_text env i \<and> pw_revision r = uint e)) t"
  shows "profiles_ok env now t' \<and> profile_at env t' = (profile_at env t)(i := None) \<and> map_option sp_revision (profile_at env t i) = Some e"
proof -
  have d: "distinct (map pw_profile_id t)" using assms(2) by (simp add: profiles_ok_def)
  obtain r0 where r0: "r0 \<in> set t" "pw_profile_id r0 = id_text env i" "pw_revision r0 = uint e"
    by (rule singleton_hit [OF assms(3)]) auto
  have only: "pw_profile_id r = id_text env i \<longleftrightarrow> r = r0" if "r \<in> set t" for r
    using that r0 d by (metis distinct_map inj_onD)
  have t0: "t' = filter (\<lambda>r. r \<noteq> r0) t" unfolding t' using only r0 by (auto intro!: filter_cong)
  have find: "find_row env i t = Some r0" using r0 find_row_mem [OF d] by blast
  obtain s where s: "decode_profile_row env r0 = Ok s" "profile_at env t i = Some s" by (rule profile_at_row [OF assms(2) find])
  have d': "distinct (map pw_profile_id t')" unfolding t0 using d by (rule distinct_map_filter)
  have "find_row env j t' = (if j = i then None else find_row env j t)" for j
  proof (cases "j = i")
    case True
    moreover have "id_text env i \<notin> pw_profile_id ` set t'"
    proof
      assume "id_text env i \<in> pw_profile_id ` set t'"
      then obtain q where "q \<in> set t" "q \<noteq> r0" "pw_profile_id q = id_text env i" by (auto simp: t0)
      then show False using only by blast
    qed
    ultimately show ?thesis by (simp add: find_row_None)
  next
    case False
    then have "id_text env j \<noteq> id_text env i" using assms(1) by simp
    then have "find_row env j t' = Some r \<longleftrightarrow> find_row env j t = Some r" for r
      unfolding find_row_mem [OF d] find_row_mem [OF d'] using r0 by (auto simp: t0)
    then show ?thesis using False by (metis not_Some_eq)
  qed
  then have "profile_at env t' = (profile_at env t)(i := None)" by (auto simp: profile_at_def fun_eq_iff)
  moreover have "profiles_ok env now t'" using assms(2) d' by (auto simp: profiles_ok_def t0)
  moreover have "sp_revision s = e" using s(1) r0(3) by (simp add: decode_profile_row_Ok)
  ultimately show ?thesis using s(2) by simp
qed

lemma profile_list_rel:
  "stm_rel (profile_list env q) (\<lambda>t r t'. t' = t \<and> (pp_limit q \<noteq> 0 \<longrightarrow> r \<noteq> Err WorkerPanic) \<and>
     (\<forall>v. r = Ok v \<longrightarrow> (\<exists>page. v = ProfilePage page \<and> profile_page_validate page q = Ok ())))"
proof -
  let ?l = "unat (pp_limit q)"
  have l: "pp_limit q \<noteq> 0 \<Longrightarrow> ?l \<noteq> 0" by (simp add: unat_eq_zero)
  have "stm_rel (u_bind (fetch_profiles env rows) (\<lambda>profiles.
       let has_more = ?l < length profiles; kept = take ?l profiles
       in if has_more \<and> kept = [] then u_lift (Err WorkerPanic)
          else let page = \<lparr>pg_profiles = kept, pg_next_after = (if has_more then Some (sp_id (last kept)) else None)\<rparr>
               in u_lift (and_then (map_err (\<lambda>_. Failed profile_store_corrupt) (profile_page_validate page q)) (\<lambda>_. Ok (ProfilePage page)))))
    (\<lambda>t r t'. t' = t \<and> (pp_limit q \<noteq> 0 \<longrightarrow> r \<noteq> Err WorkerPanic) \<and>
     (\<forall>v. r = Ok v \<longrightarrow> (\<exists>page. v = ProfilePage page \<and> profile_page_validate page q = Ok ())))" for rows
    by (rule stm_rel_bind [OF fetch_profiles_rel, where S = "\<lambda>_ t r t'. t' = t \<and> (pp_limit q \<noteq> 0 \<longrightarrow> r \<noteq> Err WorkerPanic) \<and>
         (\<forall>v. r = Ok v \<longrightarrow> (\<exists>page. v = ProfilePage page \<and> profile_page_validate page q = Ok ()))"])
       (auto intro!: stm_rel_lift simp: Let_def and_then_eq_Err and_then_eq_Ok map_err_Err_iff dest: l)
  then show ?thesis unfolding profile_list_def Let_def [of "unat _"] Let_def [of "case_option _ _ _"]
    by (rule stm_rel_bind [OF psql_read]) auto
qed

section \<open>Reachable stores\<close>

text \<open>The contents the store can have: from the empty table by validated commands, with any statement
  failing, as long as the clock does not go back.\<close>

inductive profiles_reached :: "profiles_env \<Rightarrow> i64 \<Rightarrow> profile_table \<Rightarrow> bool" for env where
  reached_empty: "profiles_reached env 0 []"
| reached_step: "profiles_reached env now t \<Longrightarrow> now \<le> now' \<Longrightarrow> profile_command_validate command = Ok () \<Longrightarrow>
    profile_execute env now' command b (t, fs) = (r, (t', fs')) \<Longrightarrow> profiles_reached env now' t'"

lemma execute_exact:
  assumes "codec_laws env" "profiles_ok env now t" "0 \<le> now" "profile_command_validate command = Ok ()"
    and run: "profile_execute env now command b (t, fs) = (r, (t', fs'))"
  shows "profiles_ok env now t' \<and> r \<noteq> Err WorkerPanic \<and> (\<forall>e. r = Err e \<longrightarrow> t' = t) \<and>
    (\<forall>v. r = Ok v \<longrightarrow> profile_result_validate_for v command = Ok () \<and>
      (case command of
         ProfileList _ \<Rightarrow> t' = t
       | ProfileUpsert p expected \<Rightarrow>
           map_option sp_revision (profile_at env t (cp_id p)) = expected \<and>
           (\<exists>s. v = ProfileStored s \<and> sp_profile s = p \<and> sp_revision s = new_revision expected \<and>
              profile_at env t' = (profile_at env t)(cp_id p \<mapsto> s))
       | ProfileDelete i expected \<Rightarrow>
           map_option sp_revision (profile_at env t i) = Some expected \<and> v = ProfileDeleted i \<and>
           profile_at env t' = (profile_at env t)(i := None)))"
proof (cases command)
  case (ProfileList q)
  then have "pp_limit q \<noteq> 0" using assms(4) by (auto simp: page_query_validate_def split: if_splits)
  then show ?thesis using stm_relD [OF profile_list_rel run [unfolded profile_execute_def ProfileList profile_command.case]] assms(2)
    by (auto simp: ProfileList)
next
  case (ProfileDelete i expected)
  note rel = stm_relD [OF profile_delete_rel run [unfolded profile_execute_def ProfileDelete profile_command.case]]
  show ?thesis
  proof (cases r)
    case (Inr v)
    then have "profiles_ok env now t' \<and> profile_at env t' = (profile_at env t)(i := None) \<and> map_option sp_revision (profile_at env t i) = Some expected"
      using rel by (intro deleted_row [OF assms(1,2)]) auto
    then show ?thesis using rel Inr by (auto simp: ProfileDelete)
  qed (use rel assms(2) in auto)
next
  case (ProfileUpsert p expected)
  note rel = stm_relD [OF profile_upsert_rel run [unfolded profile_execute_def ProfileUpsert profile_command.case]]
  show ?thesis
  proof (cases r)
    case (Inr v)
    let ?s = "stored_answer now p expected (profile_at env t (cp_id p))"
    obtain d where d: "encode_profile env p = Ok d" "profile_written env now p d expected t t'" "profile_validate p = Ok ()"
      "expected = map_option sp_revision (profile_at env t (cp_id p))" "v = ProfileStored ?s"
      using rel Inr by auto
    have eff: "profiles_ok env now t' \<and> profile_at env t' = (profile_at env t)(cp_id p \<mapsto> ?s)"
    proof (cases "profile_at env t (cp_id p)")
      case None
      then show ?thesis using written_new [OF assms(1-3) d(3,1)] d(2,4) by simp
    next
      case (Some cur)
      then show ?thesis using written_update [OF assms(1,2) d(3,1)] d(2,4) by simp
    qed
    then have "profile_at env t' (cp_id p) = Some ?s" by simp
    then obtain row where "decode_profile_row env row = Ok ?s"
      unfolding profile_at_def [of env t'] by (auto split: option.splits sum.splits)
    then have "stored_validate ?s = Ok ()" by (simp add: decode_profile_row_Ok)
    then show ?thesis using eff d Inr
      by (auto simp: ProfileUpsert stored_answer_def new_revision_def Let_def split: option.splits)
  qed (use rel assms(2) in auto)
qed

lemma reached_ok: "profiles_reached env now t \<Longrightarrow> codec_laws env \<Longrightarrow> profiles_ok env now t \<and> 0 \<le> now"
proof (induction rule: profiles_reached.induct)
  case (reached_step now t now' command b fs r t' fs')
  then have ok: "profiles_ok env now' t" "0 \<le> now'" using profiles_ok_later by (blast, linarith)
  from execute_exact [OF reached_step.prems ok reached_step.hyps(3,4)] ok(2) show ?case by blast
qed (simp add: profiles_ok_def)

text \<open>C24: The profile store is a map changed by compare-and-swap: from every content it can reach, with any
  statement failing, a command never panics; one that fails leaves every row as it was; an upsert that
  succeeds named the revision the profile had (none for a new one), and afterwards exactly that
  profile has changed, to the answer; a delete that succeeds named the current revision and
  removed exactly that profile. Every answer satisfies the contract of the client. The clock is
  taken not to go back between the commands.
\<close>

theorem profile_store_is_map:
  assumes "codec_laws env" "profiles_reached env now t" "now \<le> now'" "profile_command_validate command = Ok ()"
    and "profile_execute env now' command b (t, fs) = (r, (t', fs'))"
  shows "r \<noteq> Err WorkerPanic \<and> (\<forall>e. r = Err e \<longrightarrow> t' = t) \<and>
    (\<forall>v. r = Ok v \<longrightarrow> profile_result_validate_for v command = Ok () \<and>
      (case command of
         ProfileList _ \<Rightarrow> t' = t
       | ProfileUpsert p expected \<Rightarrow>
           map_option sp_revision (profile_at env t (cp_id p)) = expected \<and>
           (\<exists>s. v = ProfileStored s \<and> sp_profile s = p \<and> sp_revision s = new_revision expected \<and>
              profile_at env t' = (profile_at env t)(cp_id p \<mapsto> s))
       | ProfileDelete i expected \<Rightarrow>
           map_option sp_revision (profile_at env t i) = Some expected \<and> v = ProfileDeleted i \<and>
           profile_at env t' = (profile_at env t)(i := None)))"
proof -
  have "profiles_ok env now' t" "0 \<le> now'"
    using reached_ok [OF assms(2,1)] assms(3) profiles_ok_later by (blast, linarith)
  from execute_exact [OF assms(1) this assms(4,5)] show ?thesis by blast
qed

section \<open>Pages\<close>

text \<open>The pages a client gets that follows \<open>next_after\<close>; the fuel bounds the number of requests.\<close>

fun profile_pages :: "profiles_env \<Rightarrow> nat \<Rightarrow> u16 \<Rightarrow> profile_id option \<Rightarrow> profile_table \<Rightarrow> stored_profile list option" where
  "profile_pages env 0 limit after t = None"
| "profile_pages env (Suc n) limit after t =
     (case fst (profile_list env \<lparr>pp_after = after, pp_limit = limit\<rparr> (t, [])) of
        Inr (ProfilePage page) \<Rightarrow>
          (case pg_next_after page of
             None \<Rightarrow> Some (pg_profiles page)
           | Some next \<Rightarrow> map_option (\<lambda>ps. pg_profiles page @ ps) (profile_pages env n limit (Some next) t))
      | _ \<Rightarrow> None)"

definition decoded :: "profiles_env \<Rightarrow> profile_row \<Rightarrow> stored_profile" where
  "decoded env r = (case decode_profile_row env r of Inr s \<Rightarrow> s | Inl _ \<Rightarrow> undefined)"

lemma fetch_profiles_run:
  "\<forall>r \<in> set rs. is_ok (decode_profile_row env r) \<Longrightarrow> fetch_profiles env rs (t, []) = (Ok (map (decoded env) rs), (t, []))"
proof (induction rs)
  case (Cons r rs)
  then obtain s where "decode_profile_row env r = Ok s" by (auto simp: is_ok_iff)
  then show ?case using Cons by (simp add: u_bind_def u_lift_def statement_run decoded_def)
qed (simp add: u_bind_def u_lift_def statement_run)

lemma decoded_Ok:
  "is_ok (decode_profile_row env r) \<Longrightarrow> decode_profile_row env r = Ok (decoded env r) \<and>
     id_text env (sp_id (decoded env r)) = pw_profile_id r \<and> stored_validate (decoded env r) = Ok ()"
proof -
  assume "is_ok (decode_profile_row env r)"
  then have "decode_profile_row env r = Ok (decoded env r)" by (auto simp: is_ok_iff decoded_def)
  then show ?thesis using decode_profile_row_Ok by blast
qed

text \<open>One page is the next slice of the rows in the order of their identifiers.\<close>

lemma profile_list_slice:
  assumes laws: "codec_laws env" and ok: "profiles_ok env now t" and l: "1 \<le> limit" "limit \<le> 16"
    and rows: "rows = sort_key pw_profile_id (filter (\<lambda>r. (case after of None \<Rightarrow> [] | Some i \<Rightarrow> id_text env i) < pw_profile_id r) t)"
  shows "fst (profile_list env \<lparr>pp_after = after, pp_limit = limit\<rparr> (t, [])) =
    Ok (ProfilePage \<lparr>pg_profiles = map (decoded env) (take (unat limit) rows),
      pg_next_after = (if unat limit < length rows then Some (sp_id (decoded env (rows ! (unat limit - 1)))) else None)\<rparr>)"
proof -
  let ?l = "unat limit"
  let ?q = "\<lparr>pp_after = after, pp_limit = limit\<rparr>"
  let ?ps = "map (decoded env) (take ?l rows)"
  let ?page = "\<lparr>pg_profiles = ?ps, pg_next_after = (if ?l < length rows then Some (sp_id (last ?ps)) else None)\<rparr>"
  have l1: "1 \<le> ?l" using l(1) by (simp add: word_le_nat_alt)
  have okr: "is_ok (decode_profile_row env r)" if "r \<in> set rows" for r
    using that ok by (auto simp: rows profiles_ok_def)
  have ids: "id_text env (sp_id (decoded env r)) = pw_profile_id r" "stored_validate (decoded env r) = Ok ()" if "r \<in> set rows" for r
    using decoded_Ok [OF okr [OF that]] by auto
  have sorted: "sorted_wrt (<) (map pw_profile_id rows)"
  proof -
    have "distinct (map pw_profile_id (sort_key pw_profile_id xs)) \<longleftrightarrow> distinct (map pw_profile_id xs)" for xs :: profile_table
      by (metis distinct_map distinct_sort set_sort)
    then have "distinct (map pw_profile_id rows)" unfolding rows using ok by (simp add: profiles_ok_def distinct_map_filter)
    moreover have "sorted (map pw_profile_id rows)" unfolding rows by simp
    ultimately show ?thesis by (simp add: strict_sorted_iff)
  qed
  have psorted: "sorted_wrt (<) (map sp_id ?ps)"
  proof -
    have "sorted_wrt (\<lambda>a b. sp_id (decoded env a) < sp_id (decoded env b)) rows"
      using sorted ids(1) id_text_less [OF laws] unfolding sorted_wrt_map by (metis (mono_tags, lifting) sorted_wrt_mono_rel)
    then show ?thesis unfolding sorted_wrt_map by (simp add: sorted_wrt_take)
  qed
  have after: "i < sp_id s" if i: "after = Some i" and s: "s \<in> set ?ps" for i s
  proof -
    obtain r where r: "r \<in> set rows" "s = decoded env r" using s by (auto dest: in_set_takeD)
    then have "id_text env i < pw_profile_id r" using i by (simp add: rows)
    then show ?thesis using ids(1) [OF r(1)] id_text_less [OF laws] r(2) by metis
  qed
  have "page_query_validate ?q = Ok ()" using l by (auto simp: page_query_validate_def MAX_REMOTE_PROFILE_PAGE_SIZE_def)
  moreover have "stored_validate s = Ok ()" if "s \<in> set ?ps" for s using that ids(2) by (auto dest: in_set_takeD)
  ultimately have valid: "profile_page_validate ?page ?q = Ok ()"
    using psorted after l1 by (auto simp: profile_page_validate_Ok)
  have fetch: "fetch_profiles env (take (?l + 1) rows) (t, []) = (Ok (map (decoded env) (take (?l + 1) rows)), (t, []))"
    using okr by (intro fetch_profiles_run) (meson in_set_takeD)
  have sel: "select_profiles (case after of None \<Rightarrow> [] | Some i \<Rightarrow> id_text env i) (?l + 1) t = take (?l + 1) rows"
    by (simp add: select_profiles_def rows)
  have "fst (profile_list env ?q (t, [])) = Ok (ProfilePage ?page)"
    using fetch valid l1 unfolding profile_list_def Let_def
    by (auto simp: u_bind_def u_lift_def statement_run sel [simplified] take_map min_def)
  moreover have "last ?ps = decoded env (rows ! (?l - 1))" if "?l < length rows"
  proof -
    have "take ?l rows \<noteq> []" using that l1 by auto
    then show ?thesis using that l1 by (simp add: last_map last_conv_nth)
  qed
  ultimately show ?thesis by simp
qed

lemma filter_after:
  fixes f :: "'a \<Rightarrow> 'b::linorder"
  assumes "sorted_wrt (<) (map f xs)" "1 \<le> l" "l \<le> length xs"
  shows "filter (\<lambda>x. f (xs ! (l - 1)) < f x) xs = drop l xs"
proof -
  have less: "f (xs ! i) < f (xs ! j)" if "i < j" "j < length xs" for i j
    using assms(1) that sorted_wrt_nth_less [of "\<lambda>x y. f x < f y" xs i j] by (simp add: sorted_wrt_map)
  have "\<not> f (xs ! (l - 1)) < f x" if x: "x \<in> set (take l xs)" for x
  proof -
    obtain i where i: "i < l" "x = xs ! i" using x assms(3) by (auto simp: in_set_conv_nth)
    show ?thesis
    proof (cases "i = l - 1")
      case False
      then have "f (xs ! i) < f (xs ! (l - 1))" using i assms(2,3) by (intro less) auto
      then show ?thesis using i by auto
    qed (simp add: i)
  qed
  moreover have "f (xs ! (l - 1)) < f x" if x: "x \<in> set (drop l xs)" for x
  proof -
    obtain i where "i < length xs - l" "x = xs ! (l + i)" using x assms(3) by (auto simp: in_set_conv_nth)
    then show ?thesis using less [of "l - 1" "l + i"] assms(2,3) by auto
  qed
  ultimately have "filter (\<lambda>x. f (xs ! (l - 1)) < f x) (take l xs) = []" "filter (\<lambda>x. f (xs ! (l - 1)) < f x) (drop l xs) = drop l xs"
    by (auto simp: filter_empty_conv filter_id_conv)
  then show ?thesis by (metis append_Nil append_take_drop_id filter_append)
qed

lemma sorted_rows:
  assumes "profiles_ok env now t"
  shows "sorted_wrt (<) (map pw_profile_id (sort_key pw_profile_id (filter P t)))"
proof -
  have "distinct (map pw_profile_id (filter P t))" using assms by (simp add: profiles_ok_def distinct_map_filter)
  then have "distinct (map pw_profile_id (sort_key pw_profile_id (filter P t)))" by (metis distinct_map distinct_sort set_sort)
  moreover have "sorted (map pw_profile_id (sort_key pw_profile_id (filter P t)))" by simp
  ultimately show ?thesis by (simp add: strict_sorted_iff)
qed

lemma profile_pages_run:
  assumes laws: "codec_laws env" and ok: "profiles_ok env now t" and l: "1 \<le> limit" "limit \<le> 16"
  shows "rows = sort_key pw_profile_id (filter (\<lambda>r. (case after of None \<Rightarrow> [] | Some i \<Rightarrow> id_text env i) < pw_profile_id r) t) \<Longrightarrow>
    length rows < n \<Longrightarrow> profile_pages env n limit after t = Some (map (decoded env) rows)"
proof (induction n arbitrary: after rows)
  case (Suc n)
  let ?l = "unat limit"
  note page = profile_list_slice [OF laws ok l Suc.prems(1)]
  have l1: "1 \<le> ?l" using l(1) by (simp add: word_le_nat_alt)
  show ?case
  proof (cases "?l < length rows")
    case False
    then show ?thesis using page by simp
  next
    case True
    let ?k = "rows ! (?l - 1)"
    let ?a = "case after of None \<Rightarrow> [] | Some i \<Rightarrow> id_text env i"
    have k: "?k \<in> set rows" using True by simp
    then have "?k \<in> set t" "?a < pw_profile_id ?k" by (simp_all add: Suc.prems(1))
    then have id: "id_text env (sp_id (decoded env ?k)) = pw_profile_id ?k"
      using decoded_Ok ok by (auto simp: profiles_ok_def)
    have "filter (\<lambda>r. pw_profile_id ?k < pw_profile_id r) t = filter (\<lambda>r. pw_profile_id ?k < pw_profile_id r) (filter (\<lambda>r. ?a < pw_profile_id r) t)"
      using \<open>?a < pw_profile_id ?k\<close> by (auto intro!: filter_cong)
    then have "sort_key pw_profile_id (filter (\<lambda>r. pw_profile_id ?k < pw_profile_id r) t) =
        filter (\<lambda>r. pw_profile_id ?k < pw_profile_id r) rows"
      by (simp add: Suc.prems(1) filter_sort)
    also have "\<dots> = drop ?l rows"
      using sorted_rows [OF ok] True l1 by (intro filter_after) (auto simp: Suc.prems(1))
    finally have "profile_pages env n limit (Some (sp_id (decoded env ?k))) t = Some (map (decoded env) (drop ?l rows))"
      using Suc.prems(2) True l1 by (intro Suc.IH) (auto simp: id [simplified])
    then show ?thesis using page True by (simp add: take_map [symmetric] drop_map [symmetric])
  qed
qed simp

text \<open>Listing is complete: a client that starts without \<open>after\<close>, asks for pages of any permitted size
  and follows \<open>next_after\<close> comes to an end, after at most one request more than there are profiles, and
  has then received every stored profile exactly once, in the order of the identifiers.
\<close>

theorem profile_listing_complete:
  assumes "codec_laws env" "profiles_reached env now t" "1 \<le> limit" "limit \<le> 16"
  shows "\<exists>ps. profile_pages env (length t + 1) limit None t = Some ps \<and> sorted_wrt (<) (map sp_id ps) \<and>
    length ps = length t \<and> (\<forall>i s. profile_at env t i = Some s \<longleftrightarrow> s \<in> set ps \<and> sp_id s = i)"
proof -
  have ok: "profiles_ok env now t" using reached_ok assms by blast
  define rows where "rows = sort_key pw_profile_id (filter (\<lambda>r. [] < pw_profile_id r) t)"
  have row: "decode_profile_row env r = Ok (decoded env r)" "id_text env (sp_id (decoded env r)) = pw_profile_id r" if "r \<in> set t" for r
    using decoded_Ok ok that by (auto simp: profiles_ok_def)
  have "[] < pw_profile_id r" if "r \<in> set t" for r
  proof -
    have "pw_profile_id r \<noteq> []" using row(2) [OF that] assms(1) unfolding codec_laws_def id_text_def by metis
    then show ?thesis by (simp add: neq_Nil_conv) (metis Nil_less_Cons)
  qed
  then have all: "set rows = set t" "length rows = length t" by (auto simp: rows_def filter_id_conv)
  have "profile_pages env (length t + 1) limit None t = Some (map (decoded env) rows)"
    using all by (intro profile_pages_run [OF assms(1) ok assms(3,4)]) (simp_all add: rows_def)
  moreover have "sorted_wrt (<) (map sp_id (map (decoded env) rows))"
  proof -
    have "sorted_wrt (\<lambda>a b. pw_profile_id a < pw_profile_id b) rows"
      using sorted_rows [OF ok, of "\<lambda>r. [] < pw_profile_id r"] by (simp add: rows_def sorted_wrt_map)
    moreover have "sp_id (decoded env a) < sp_id (decoded env b)" if "a \<in> set rows" "b \<in> set rows" "pw_profile_id a < pw_profile_id b" for a b
      using that all row(2) id_text_less [OF assms(1)] by metis
    ultimately show ?thesis unfolding sorted_wrt_map by (rule sorted_wrt_mono_rel [rotated]) blast
  qed
  moreover have "profile_at env t i = Some s \<longleftrightarrow> s \<in> set (map (decoded env) rows) \<and> sp_id s = i" for i s
  proof
    assume s: "profile_at env t i = Some s"
    then obtain r where r: "find_row env i t = Some r" "decode_profile_row env r = Ok s"
      by (auto simp: profile_at_def split: option.splits sum.splits)
    then have "r \<in> set t" using find_row_Some by blast
    then show "s \<in> set (map (decoded env) rows) \<and> sp_id s = i"
      using r row(1) all profile_at_Some_id [OF assms(1) s] by force
  next
    assume "s \<in> set (map (decoded env) rows) \<and> sp_id s = i"
    then obtain r where r: "r \<in> set t" "s = decoded env r" "sp_id s = i" using all by auto
    then have "find_row env i t = Some r" using row(2) ok by (subst find_row_mem) (auto simp: profiles_ok_def)
    then show "profile_at env t i = Some s" using row(1) r by (simp add: profile_at_def)
  qed
  ultimately show ?thesis using all by (intro exI [of _ "map (decoded env) rows"]) simp
qed

section \<open>Profiles in use\<close>

lemma unreferenced_at:
  "unreferenced env i b t \<Longrightarrow> profile_at env t j = Some s \<Longrightarrow> j \<noteq> i \<Longrightarrow> codec_laws env \<Longrightarrow>
     \<not> b \<and> i \<notin> set (jump_profiles (cp_options (sp_profile s)))"
proof -
  assume u: "unreferenced env i b t" and s: "profile_at env t j = Some s" and j: "j \<noteq> i" and laws: "codec_laws env"
  obtain r where r: "r \<in> set t" "decode_profile_row env r = Ok s"
    using s by (auto simp: profile_at_def split: option.splits sum.splits dest: find_row_Some)
  then show ?thesis using u profile_at_Some_id [OF laws s] j by (force simp: unreferenced_def)
qed

lemma any_profile_False: "any_profile p ts = Some False \<Longrightarrow> t \<in> set ts \<Longrightarrow> remote_profile_id t \<noteq> Some p"
  by (induction p ts rule: any_profile.induct) (auto split: option.splits if_splits)

text \<open>A transfer refers to the profile: a task of the executor's queue names it as its remote side, or,
  while no executor runs, it is in the references the service kept of the stored transfers.\<close>

definition transfer_refers :: "profile_id \<Rightarrow> ('s, 'r) profile_runtime \<Rightarrow> bool" where
  "transfer_refers i rt \<longleftrightarrow>
     (case rt_executor rt of
        Some x \<Rightarrow> (\<exists>j t. queue_task j (x_queue x) = Some t \<and> remote_profile_id t = Some i)
      | None \<Rightarrow> (\<exists>refs. pf_inactive_refs rt = Some refs \<and> i \<in> set refs))"

lemma not_referenced:
  assumes "transfer_profile_is_referenced i rt = Some (Ok False, rt')"
  shows "\<not> transfer_refers i rt \<and> (rt_executor rt = None \<longrightarrow> pf_inactive_refs rt \<noteq> None) \<and>
    pf_store rt' = pf_store rt \<and> pf_poisoned rt' = pf_poisoned rt"
proof (cases "rt_executor rt")
  case (Some x)
  then obtain x' where x': "references_profile i x = (Ok False, x')" "rt' = rt\<lparr>rt_executor := Some x'\<rparr>"
    using assms by (auto simp: transfer_profile_is_referenced_def split: prod.splits sum.splits)
  then have "any_profile i (bt_values (tq_tasks (x_queue x))) = Some False"
    by (auto simp: references_profile_def ensure_open_def with_queue_def ok_or_def split: if_splits option.splits)
  then have "remote_profile_id t \<noteq> Some i" if "queue_task j (x_queue x) = Some t" for j t
    using that any_profile_False bt_get_in_values by (metis queue_task_def)
  then show ?thesis using Some x'(2) by (auto simp: transfer_refers_def)
next
  case None
  then show ?thesis using assms
    by (auto simp: transfer_profile_is_referenced_def transfer_refers_def split: option.splits)
qed

lemma command_op_Ok:
  assumes "profile_command_op env now command rt = Some (Ok v, rt')" "pf_store rt = Some (t, fs)"
    and "command = ProfileDelete i expected \<or> (\<exists>p expected'. command = ProfileUpsert p expected' \<and> cp_id p = i)"
  obtains b rt1 t' fs' where "profile_command_validate command = Ok ()"
    "transfer_profile_is_referenced i rt = Some (Ok b, rt1)"
    "profile_execute env now command b (t, fs) = (Ok v, (t', fs'))" "pf_store rt' = Some (t', fs')"
proof -
  have valid: "profile_command_validate command = Ok ()"
    using assms(1) by (auto simp: profile_command_op_def split: sum.splits)
  then obtain b rt1 where b: "transfer_profile_is_referenced i rt = Some (Ok b, rt1)"
    "run_profile_worker env now command b rt1 = (Ok v, rt')"
    using assms(1,3) by (auto simp: profile_command_op_def Let_def split: option.splits prod.splits sum.splits)
  have "pf_store rt1 = pf_store rt"
    using b(1) by (auto simp: transfer_profile_is_referenced_def split: option.splits prod.splits sum.splits)
  then show ?thesis using that [OF valid b(1)] b(2) assms(2)
    by (auto simp: run_profile_worker_def split: if_splits prod.splits sum.splits profile_failure.splits)
qed

text \<open>C25: A profile in use is kept: whatever the store contains and whatever statement fails, when the service's
  command to delete a profile succeeds, no task of the transfer queue refers to the profile (while no
  executor runs, it is not among the references the service kept, and such references are known),
  and no other stored profile names it as a jump host; when an upsert that changes the protocol of a
  stored profile succeeds, the same holds of that profile. So when every jump host of every profile is
  stored, it still is after the deletion.
\<close>

theorem profile_in_use_kept:
  assumes "codec_laws env" "profiles_reached env now t" "now \<le> now'" "pf_store rt = Some (t, fs)"
    and run: "profile_command_op env now' command rt = Some (Ok v, rt')"
    and target: "command = ProfileDelete i expected \<or>
      (command = ProfileUpsert p expected' \<and> cp_id p = i \<and> profile_at env t i = Some cur \<and> cp_protocol (sp_profile cur) \<noteq> cp_protocol p)"
  shows "\<not> transfer_refers i rt \<and> (rt_executor rt = None \<longrightarrow> pf_inactive_refs rt \<noteq> None) \<and>
    (\<forall>j s. profile_at env t j = Some s \<longrightarrow> j \<noteq> i \<longrightarrow> i \<notin> set (jump_profiles (cp_options (sp_profile s)))) \<and>
    (\<exists>t' fs'. pf_store rt' = Some (t', fs') \<and> (command = ProfileDelete i expected \<longrightarrow>
      (\<forall>j s k. profile_at env t j = Some s \<longrightarrow> k \<in> set (jump_profiles (cp_options (sp_profile s))) \<longrightarrow> profile_at env t k \<noteq> None) \<longrightarrow>
      (\<forall>j s k. profile_at env t' j = Some s \<longrightarrow> k \<in> set (jump_profiles (cp_options (sp_profile s))) \<longrightarrow> profile_at env t' k \<noteq> None)))"
proof -
  from target have "command = ProfileDelete i expected \<or> (\<exists>p expected'. command = ProfileUpsert p expected' \<and> cp_id p = i)" by blast
  from command_op_Ok [OF run assms(4) this] obtain b rt1 t' fs' where op: "profile_command_validate command = Ok ()"
    "transfer_profile_is_referenced i rt = Some (Ok b, rt1)" "profile_execute env now' command b (t, fs) = (Ok v, (t', fs'))"
    "pf_store rt' = Some (t', fs')" .
  have u: "unreferenced env i b t"
    using target
  proof
    assume c: "command = ProfileDelete i expected"
    show ?thesis using stm_relD [OF profile_delete_rel op(3) [unfolded profile_execute_def c profile_command.case]] by simp
  next
    assume c: "command = ProfileUpsert p expected' \<and> cp_id p = i \<and> profile_at env t i = Some cur \<and> cp_protocol (sp_profile cur) \<noteq> cp_protocol p"
    then have c': "command = ProfileUpsert p expected'" by simp
    show ?thesis using c stm_relD [OF profile_upsert_rel op(3) [unfolded profile_execute_def c' profile_command.case]] by auto
  qed
  have ok: "profiles_ok env now' t" "0 \<le> now'"
    using reached_ok [OF assms(2,1)] assms(3) profiles_ok_later by (blast, linarith)
  have gone: "profile_at env t' = (profile_at env t)(i := None)" if "command = ProfileDelete i expected"
    using execute_exact [OF assms(1) ok op(1,3)] that by simp
  note free = unreferenced_at [OF u _ _ assms(1)]
  have "\<not> b" using u by (simp add: unreferenced_def)
  with op(2) have "\<not> transfer_refers i rt \<and> (rt_executor rt = None \<longrightarrow> pf_inactive_refs rt \<noteq> None)"
    using not_referenced [of i rt rt1] by simp
  then show ?thesis using op(4) free gone by (auto split: if_splits)
qed

section \<open>A clock set back\<close>

text \<open>A row whose time of update lies before its creation; it decodes to an error for ever.\<close>

definition stuck_row :: "profiles_env \<Rightarrow> profile_id \<Rightarrow> profile_table \<Rightarrow> bool" where
  "stuck_row env i t \<longleftrightarrow> (\<exists>r. find_row env i t = Some r \<and> decode_profile_row env r = Err (Failed profile_store_corrupt))"

lemma decode_error: "decode_profile_row env r = Err e \<Longrightarrow> e = Failed profile_store_corrupt"
  by (auto simp: decode_profile_row_def and_then_eq_Err map_err_Err_iff ok_or_def Let_def split: if_splits option.splits)

lemma stuck_load: "stuck_row env i t \<Longrightarrow> load_profile_by_id env i (t, fs) = (r, db) \<Longrightarrow> fst db = t \<and> (\<forall>v. r \<noteq> Ok v)"
  by (auto simp: stuck_row_def load_profile_by_id_def u_bind_def u_lift_def statement_def split: if_splits)

lemma stuck_not_unreferenced: "stuck_row env i t \<Longrightarrow> \<not> unreferenced env j b t"
  by (force simp: stuck_row_def unreferenced_def dest: find_row_Some)

lemma stuck_step:
  assumes "codec_laws env" "stuck_row env i t" "profile_execute env now command b (t, fs) = (r, (t', fs'))"
  shows "stuck_row env i t' \<and> (\<forall>v. r = Ok v \<longrightarrow> (\<forall>j e. command \<noteq> ProfileDelete j e) \<and> (\<forall>p e. command = ProfileUpsert p e \<longrightarrow> cp_id p \<noteq> i))"
proof (cases command)
  case (ProfileList q)
  then show ?thesis using stm_relD [OF profile_list_rel assms(3) [unfolded profile_execute_def ProfileList profile_command.case]] assms(2) by simp
next
  case (ProfileDelete j e)
  then show ?thesis
    using stm_relD [OF profile_delete_rel assms(3) [unfolded profile_execute_def ProfileDelete profile_command.case]] assms(2)
      stuck_not_unreferenced [OF assms(2)] by (cases r) auto
next
  case (ProfileUpsert p e)
  note rel = stm_relD [OF profile_upsert_rel assms(3) [unfolded profile_execute_def ProfileUpsert profile_command.case]]
  show ?thesis
  proof (cases r)
    case (Inr v)
    then obtain d where e: "e = map_option sp_revision (profile_at env t (cp_id p))" and w: "profile_written env now p d e t t'"
      using rel by auto
    obtain q where q: "find_row env i t = Some q" "decode_profile_row env q = Err (Failed profile_store_corrupt)"
      using assms(2) by (auto simp: stuck_row_def)
    have other: "cp_id p \<noteq> i"
    proof
      assume i: "cp_id p = i"
      then have "e = None" using e q by (simp add: profile_at_def)
      then have "id_text env i \<notin> pw_profile_id ` set t"
        using w i by (auto simp: profile_written_def insert_profile_row_def list_ex_iff split: if_splits)
      then show False using find_row_Some [OF q(1)] by (metis imageI)
    qed
    have "find_row env i t' = Some q"
    proof (cases e)
      case None
      then show ?thesis using w q(1) by (auto simp: profile_written_def insert_profile_row_def find_row_append split: if_splits)
    next
      case (Some k)
      define f where "f = (\<lambda>r :: profile_row. if pw_profile_id r = id_text env (cp_id p) \<and> pw_revision r = uint k
          then r\<lparr>pw_protocol := protocol_code (cp_protocol p), pw_revision := uint (k + 1), pw_document := d, pw_updated_at_unix_ms := now\<rparr> else r)"
      have t': "t' = map f t" using w Some by (auto simp: profile_written_def update_profile_row_def Let_def f_def)
      have "f q = q" using find_row_Some [OF q(1)] other assms(1) by (simp add: f_def)
      then show ?thesis unfolding t' using q(1) by (subst find_row_map) (simp_all add: f_def)
    qed
    then show ?thesis using q(2) other ProfileUpsert by (auto simp: stuck_row_def)
  qed (use rel assms(2) ProfileUpsert in auto)
qed

lemma written_back_stuck:
  assumes ok: "profiles_ok env now t" and cur: "profile_at env t (cp_id p) = Some cur"
    and w: "profile_written env now' p d (Some e) t t'" and early: "now' < sp_created_at_unix_ms cur"
  shows "stuck_row env (cp_id p) t'"
proof -
  define f where "f = (\<lambda>r :: profile_row. if pw_profile_id r = id_text env (cp_id p) \<and> pw_revision r = uint e
      then r\<lparr>pw_protocol := protocol_code (cp_protocol p), pw_revision := uint (e + 1), pw_document := d, pw_updated_at_unix_ms := now'\<rparr> else r)"
  have t': "t' = map f t" and hit: "length (filter (\<lambda>r. pw_profile_id r = id_text env (cp_id p) \<and> pw_revision r = uint e) t) = 1"
    using w by (auto simp: profile_written_def update_profile_row_def Let_def f_def)
  obtain r0 where r0: "r0 \<in> set t" "pw_profile_id r0 = id_text env (cp_id p)" "pw_revision r0 = uint e"
    by (rule singleton_hit [OF hit]) auto
  have find: "find_row env (cp_id p) t = Some r0" using r0 ok by (subst find_row_mem) (auto simp: profiles_ok_def)
  then have "decode_profile_row env r0 = Ok cur" using cur by (auto simp: profile_at_def split: sum.splits)
  then have "pw_updated_at_unix_ms (f r0) < pw_created_at_unix_ms (f r0)"
    using early r0 by (simp add: f_def decode_profile_row_Ok)
  then have "decode_profile_row env (f r0) \<noteq> Ok s" for s
    by (auto simp: decode_profile_row_Ok stored_validate_def and_then_eq_Ok split: if_splits)
  then have "decode_profile_row env (f r0) = Err (Failed profile_store_corrupt)"
    by (cases "decode_profile_row env (f r0)") (auto dest: decode_error)
  moreover have "find_row env (cp_id p) t' = Some (f r0)" unfolding t' using find by (subst find_row_map) (simp_all add: f_def)
  ultimately show ?thesis by (auto simp: stuck_row_def)
qed

fun run_profiles :: "profiles_env \<Rightarrow> (i64 \<times> profile_command \<times> bool \<times> bool list) list \<Rightarrow> profile_table \<Rightarrow> profile_table" where
  "run_profiles env [] t = t"
| "run_profiles env ((now, command, b, fs) # steps) t =
     run_profiles env steps (fst (snd (profile_execute env now command b (t, fs))))"

lemma unreadable_run: "codec_laws env \<Longrightarrow> stuck_row env i t \<Longrightarrow> stuck_row env i (run_profiles env steps t)"
proof (induction env steps t rule: run_profiles.induct)
  case (2 env now command b fs steps t)
  obtain r t' fs' where "profile_execute env now command b (t, fs) = (r, (t', fs'))" by (metis surj_pair)
  then show ?case using 2 stuck_step [OF 2(2,3)] by simp
qed simp

lemma update_run:
  assumes laws: "codec_laws env" and ok: "profiles_ok env now t" and cur: "profile_at env t (cp_id p) = Some cur"
    and p: "profile_validate p = Ok ()" "cp_protocol p = cp_protocol (sp_profile cur)" "encode_profile env p = Ok d"
    and e: "uint (sp_revision cur) < i64_max"
  shows "\<exists>t'. profile_execute env now' (ProfileUpsert p (Some (sp_revision cur))) b (t, []) =
      (Ok (ProfileStored (stored_answer now' p (Some (sp_revision cur)) (Some cur))), (t', [])) \<and>
    profile_written env now' p d (Some (sp_revision cur)) t t'"
proof -
  let ?e = "sp_revision cur"
  obtain r where r: "find_row env (cp_id p) t = Some r" "decode_profile_row env r = Ok cur"
    using cur by (auto simp: profile_at_def split: option.splits sum.splits)
  have d: "distinct (map pw_profile_id t)" using ok by (simp add: profiles_ok_def)
  have mem: "r \<in> set t" "pw_profile_id r = id_text env (cp_id p)" using find_row_Some [OF r(1)] by auto
  then have "pw_revision r < 2 ^ 64" using ok by (simp add: profiles_ok_def)
  then have rev: "pw_revision r = uint ?e" using r(2) by (simp add: decode_profile_row_Ok uint_word_of_int take_bit_int_eq_self)
  have up: "uint (?e + 1) = uint ?e + 1" "i64_of_u64 ?e = Some (uint ?e)" "i64_of_u64 (?e + 1) = Some (uint ?e + 1)"
    using e by (simp_all add: i64_of_u64_def i64_max_def uint_word_ariths)
  have "filter (\<lambda>q. pw_profile_id q = id_text env (cp_id p) \<and> pw_revision q = uint ?e) t = [r]"
  proof -
    have "filter (\<lambda>q. pw_profile_id q = id_text env (cp_id p) \<and> pw_revision q = uint ?e) t = filter (\<lambda>q. q = r) t"
    proof (rule filter_cong [OF refl])
      fix q assume "q \<in> set t"
      then have "pw_profile_id q = pw_profile_id r \<longleftrightarrow> q = r" using mem(1) d by (metis distinct_map inj_onD)
      then show "(pw_profile_id q = id_text env (cp_id p) \<and> pw_revision q = uint ?e) \<longleftrightarrow> q = r" using mem(2) rev by auto
    qed
    moreover have "filter (\<lambda>q. q = r) t = [r]" using mem(1) distinct_map [of pw_profile_id t] d
      by (induction t) (auto simp: filter_empty_conv)
    ultimately show ?thesis by simp
  qed
  then obtain t' where t': "update_profile_row (id_text env (cp_id p)) (uint ?e) (protocol_code (cp_protocol p)) (uint (?e + 1)) d now' t = (1, t')"
    by (simp add: update_profile_row_def Let_def)
  have "profile_execute env now' (ProfileUpsert p (Some ?e)) b (t, []) =
      (Ok (ProfileStored (stored_answer now' p (Some ?e) (Some cur))), (t', []))"
    using r p up t' unfolding profile_execute_def profile_command.case profile_upsert_def
    by (simp add: u_bind_def u_lift_def load_profile_by_id_def statement_run check_upsert_def write_profile_row_def new_revision_def transaction_def)
  then show ?thesis using t' by (auto simp: profile_written_def)
qed

text \<open>C40: An update under a clock that was set back is accepted and makes the profile unreadable for good. When
  the clock reads a time before the creation of a profile, an otherwise proper update of the profile
  succeeds and is committed; afterwards, over all further commands, at any time and with any failures, the
  profile can never be loaded or updated again, and no delete of any profile succeeds any more.
\<close>

theorem clock_back_blocks_profiles:
  assumes "codec_laws env" "profiles_reached env now t" "profile_at env t (cp_id p) = Some cur"
    and "profile_validate p = Ok ()" "cp_protocol p = cp_protocol (sp_profile cur)" "is_ok (encode_profile env p)"
    and "uint (sp_revision cur) < i64_max" "now' < sp_created_at_unix_ms cur"
  shows "\<exists>s t'. profile_execute env now' (ProfileUpsert p (Some (sp_revision cur))) b (t, []) = (Ok (ProfileStored s), (t', [])) \<and>
    (\<forall>steps. let t'' = run_profiles env steps t' in
      (\<forall>fs. \<not> is_ok (fst (load_profile_by_id env (cp_id p) (t'', fs)))) \<and>
      (\<forall>time q e c fs. cp_id q = cp_id p \<longrightarrow> \<not> is_ok (fst (profile_execute env time (ProfileUpsert q e) c (t'', fs)))) \<and>
      (\<forall>time j e c fs. \<not> is_ok (fst (profile_execute env time (ProfileDelete j e) c (t'', fs)))))"
proof -
  have ok: "profiles_ok env now t" using reached_ok assms by blast
  obtain d where d: "encode_profile env p = Ok d" using assms(6) by (auto simp: is_ok_iff)
  let ?e = "sp_revision cur"
  obtain t' where t': "profile_execute env now' (ProfileUpsert p (Some ?e)) b (t, []) =
      (Ok (ProfileStored (stored_answer now' p (Some ?e) (Some cur))), (t', []))" "profile_written env now' p d (Some ?e) t t'"
    using update_run [OF assms(1) ok assms(3-5) d assms(7)] by blast
  have stuck: "stuck_row env (cp_id p) t'" by (rule written_back_stuck [OF ok assms(3) t'(2) assms(8)])
  have "stuck_row env (cp_id p) (run_profiles env steps t')" for steps by (rule unreadable_run [OF assms(1) stuck])
  note later = stuck_step [OF assms(1) this] stuck_load [OF this]
  show ?thesis
    using t'(1) later by (intro exI conjI) (auto simp: Let_def is_ok_iff, (metis prod.collapse)+)
qed

section \<open>A small store\<close>

definition sample_profile :: connection_profile where
  "sample_profile = \<lparr>cp_id = ProfileId 1, cp_label = ''p'', cp_protocol = Proto_Ssh, cp_endpoint = \<lparr>ep_host = ''h'', ep_port = 22\<rparr>,
     cp_username = None, cp_domain = None, cp_authentication = Auth_SshAgent, cp_trust = Trust_SshKnownHosts FirstUse_Reject,
     cp_options = Opt_Ssh [] False\<rparr>"

definition sample_profiles_env :: profiles_env where
  "sample_profiles_env = \<lparr>pe_to_vec = (\<lambda>p. if p = sample_profile then Some [7] else None),
     pe_from_slice = (\<lambda>d. if d = [7] then Some sample_profile else None),
     pe_uuid_text = (\<lambda>u. replicate (Suc (unat u)) (CHR ''1''))\<rparr>"

definition sample_profile_row :: profile_row where
  "sample_profile_row = \<lparr>pw_profile_id = ''11'', pw_protocol = ''ssh'', pw_revision = 0, pw_document = [7],
     pw_created_at_unix_ms = 10, pw_updated_at_unix_ms = 10\<rparr>"

definition sample_stored :: stored_profile where
  "sample_stored = \<lparr>sp_profile = sample_profile, sp_revision = 0, sp_created_at_unix_ms = 10, sp_updated_at_unix_ms = 10\<rparr>"

lemma replicate_less: "m < n \<Longrightarrow> replicate m c < replicate n c" for c :: char
proof (induction m arbitrary: n)
  case (Suc m)
  then obtain k where "n = Suc k" by (cases n) auto
  then show ?case using Suc by (simp add: Cons_less_Cons)
next
  case 0
  then show ?case by (cases n) (simp_all add: Nil_less_Cons)
qed

lemma sample_codec_laws: "codec_laws sample_profiles_env"
  using replicate_less [of "Suc (unat _)" "Suc (unat _)"] unfolding codec_laws_def sample_profiles_env_def
  by (auto simp: word_less_nat_alt simp del: replicate_Suc split: if_splits)

lemma sample_id_text: "id_text sample_profiles_env (ProfileId 1) = ''11''"
  by (simp add: id_text_def sample_profiles_env_def)

lemma sample_profile_facts:
  "profile_validate sample_profile = Ok ()" "encode_profile sample_profiles_env sample_profile = Ok [7]"
  "decode_profile_row sample_profiles_env sample_profile_row = Ok sample_stored"
  "cp_id sample_profile = ProfileId 1"
proof -
  show v: "profile_validate sample_profile = Ok ()"
    by (simp add: profile_validate_def sample_profile_def validate_display_field_def trust_matches_def authentication_matches_def)
  show i: "cp_id sample_profile = ProfileId 1" by (simp add: sample_profile_def)
  show "encode_profile sample_profiles_env sample_profile = Ok [7]"
    by (simp add: encode_profile_def sample_profiles_env_def MAX_REMOTE_PROFILE_DOCUMENT_BYTES_def)
  have "cp_protocol sample_profile = Proto_Ssh" "pe_from_slice sample_profiles_env [7] = Some sample_profile"
    by (simp add: sample_profile_def, simp add: sample_profiles_env_def)
  then show "decode_profile_row sample_profiles_env sample_profile_row = Ok sample_stored"
    using v i sample_id_text
    by (simp add: decode_profile_row_Ok sample_profile_row_def sample_stored_def stored_validate_def MAX_REMOTE_PROFILE_DOCUMENT_BYTES_def)
qed

lemma sample_store_at: "profile_at sample_profiles_env [sample_profile_row] (ProfileId 1) = Some sample_stored"
  using sample_profile_facts(3) sample_id_text by (simp add: profile_at_def find_row_def) (simp add: sample_profile_row_def)

lemma sample_store_reached: "profiles_reached sample_profiles_env 10 [sample_profile_row]"
proof (rule reached_step [OF reached_empty, where command = "ProfileUpsert sample_profile None" and b = False and fs = "[]" and fs' = "[]"])
  have "cp_protocol sample_profile = Proto_Ssh" by (simp add: sample_profile_def)
  then show "profile_execute sample_profiles_env 10 (ProfileUpsert sample_profile None) False ([], []) =
      (Ok (ProfileStored (stored_answer 10 sample_profile None None)), ([sample_profile_row], []))"
    using sample_profile_facts(1,2,4) sample_id_text
    by (simp add: profile_execute_def profile_upsert_def u_bind_def u_lift_def load_profile_by_id_def find_row_def statement_run check_upsert_def
        write_profile_row_def transaction_def insert_profile_row_def sample_profile_row_def)
qed (simp_all add: sample_profile_facts(1))

lemma sample_delete:
  "profile_execute sample_profiles_env 20 (ProfileDelete (ProfileId 1) 0) False ([sample_profile_row], []) = (Ok (ProfileDeleted (ProfileId 1)), ([], []))"
proof -
  have "sp_id sample_stored = ProfileId 1" using sample_profile_facts(4) by (simp add: sample_stored_def)
  then show ?thesis
    using sample_profile_facts(3) sample_id_text
    by (simp add: profile_execute_def profile_delete_def profile_is_referenced_def delete_profile_row_def u_bind_def u_lift_def statement_run
        transaction_def i64_of_u64_def i64_max_def) (simp add: sample_profile_row_def)
qed

theorem profile_store_is_map_witness:
  "map_option sp_revision (profile_at sample_profiles_env [sample_profile_row] (ProfileId 1)) = Some 0 \<and>
   profile_at sample_profiles_env [] = (profile_at sample_profiles_env [sample_profile_row])(ProfileId 1 := None)"
  using profile_store_is_map [OF sample_codec_laws sample_store_reached _ _ sample_delete] by simp

theorem profile_listing_complete_witness:
  "\<exists>ps. profile_pages sample_profiles_env 2 1 None [sample_profile_row] = Some ps \<and> sample_stored \<in> set ps \<and> length ps = 1"
proof -
  have limit: "(1 :: u16) \<le> 16" by (simp add: word_le_nat_alt)
  obtain ps where "profile_pages sample_profiles_env 2 1 None [sample_profile_row] = Some ps" "length ps = 1"
    "\<forall>i s. profile_at sample_profiles_env [sample_profile_row] i = Some s \<longleftrightarrow> s \<in> set ps \<and> sp_id s = i"
    using profile_listing_complete [OF sample_codec_laws sample_store_reached order_refl limit]
    by (auto simp: numeral_2_eq_2 simp del: profile_pages.simps)
  then show ?thesis using sample_store_at by blast
qed

definition sample_profiles_runtime :: "(memory_store, unit) profile_runtime" where
  "sample_profiles_runtime = \<lparr>rt_provider_live = True, rt_executor = Some running_exec,
     pf_store = Some ([sample_profile_row], []), pf_poisoned = False, pf_inactive_refs = None\<rparr>"

text \<open>The profile is deleted while a transfer of another profile runs.\<close>

theorem profile_in_use_kept_witness:
  "(\<exists>rt'. profile_command_op sample_profiles_env 20 (ProfileDelete (ProfileId 1) 0) sample_profiles_runtime =
      Some (Ok (ProfileDeleted (ProfileId 1)), rt')) \<and>
   \<not> transfer_refers (ProfileId 1) sample_profiles_runtime \<and> transfer_refers (ProfileId 7) sample_profiles_runtime"
proof -
  have q: "queue_task (TransferId 1) (x_queue running_exec) = Some sample_started"
    using running_exec_facts(3) by (simp add: sample_started_def sample_task_def)
  have p: "remote_profile_id sample_started = Some (ProfileId 7)"
    by (simp add: sample_started_def sample_task_def remote_profile_id_def remote_endpoint_def sample_remote_def)
  then have "references_profile (ProfileId 1) running_exec = (Ok False, running_exec)"
    by (simp add: references_profile_def ensure_open_def running_exec_def sample_exec_def with_queue_def sample_queue1_def bt_values_def)
  then obtain rt' where run: "profile_command_op sample_profiles_env 20 (ProfileDelete (ProfileId 1) 0) sample_profiles_runtime =
      Some (Ok (ProfileDeleted (ProfileId 1)), rt')"
    using sample_delete
    by (simp add: profile_command_op_def transfer_profile_is_referenced_def run_profile_worker_def sample_profiles_runtime_def)
  have "\<not> transfer_refers (ProfileId 1) sample_profiles_runtime"
    using profile_in_use_kept [OF sample_codec_laws sample_store_reached _ _ run, of "[]" "ProfileId 1" 0]
    by (simp add: sample_profiles_runtime_def)
  moreover have "transfer_refers (ProfileId 7) sample_profiles_runtime"
    using q p by (auto simp: transfer_refers_def sample_profiles_runtime_def)
  ultimately show ?thesis using run by blast
qed

theorem clock_back_blocks_profiles_witness:
  "\<exists>s t'. profile_execute sample_profiles_env 3 (ProfileUpsert sample_profile (Some 0)) False ([sample_profile_row], []) =
      (Ok (ProfileStored s), (t', [])) \<and>
    (\<forall>fs. \<not> is_ok (fst (load_profile_by_id sample_profiles_env (ProfileId 1) (t', fs))))"
proof -
  have cur: "profile_at sample_profiles_env [sample_profile_row] (cp_id sample_profile) = Some sample_stored"
    using sample_store_at sample_profile_facts(4) by simp
  have "sp_revision sample_stored = 0" "sp_created_at_unix_ms sample_stored = 10" "sp_profile sample_stored = sample_profile"
    by (simp_all add: sample_stored_def)
  then obtain s t' where "profile_execute sample_profiles_env 3 (ProfileUpsert sample_profile (Some 0)) False ([sample_profile_row], []) =
      (Ok (ProfileStored s), (t', []))"
    "\<forall>steps fs. \<not> is_ok (fst (load_profile_by_id sample_profiles_env (ProfileId 1) (run_profiles sample_profiles_env steps t', fs)))"
    using clock_back_blocks_profiles [OF sample_codec_laws sample_store_reached cur, of 3 False] sample_profile_facts
    by (auto simp: Let_def i64_max_def)
  then show ?thesis by (metis run_profiles.simps(1))
qed

end
