(* ===== verification/Terminal_Contract.thy ===== *)
theory Terminal_Contract
  imports Remote_Core
begin

text \<open>
  The public contract of terminals (crates/remote-core/src/terminal.rs): sizes, data, capabilities,
  status, commands and results with their validation. The standard base64 alphabet comes from
  another crate and is a record of two functions.
\<close>

type_synonym i32 = int

definition MAX_TERMINAL_IPC_BYTES :: nat where "MAX_TERMINAL_IPC_BYTES = 45056"
definition MAX_TERMINAL_DATA_BASE64_BYTES :: nat where "MAX_TERMINAL_DATA_BASE64_BYTES = 60076"
definition MAX_TERMINAL_SIZE :: u16 where "MAX_TERMINAL_SIZE = 1000"
definition MAX_TERMINAL_PIXEL_DIMENSION :: u16 where "MAX_TERMINAL_PIXEL_DIMENSION = 32767"
definition MAX_PUBLIC_TRANSCRIPT_BYTES :: u32 where "MAX_PUBLIC_TRANSCRIPT_BYTES = 64 * 1024"

datatype terminal_session_id = TerminalSessionId uuid

fun terminal_uuid :: "terminal_session_id \<Rightarrow> uuid" where
  "terminal_uuid (TerminalSessionId u) = u"

datatype terminal_contract_error =
    Tc_InvalidSize | Tc_InvalidReadLimit | Tc_InvalidData | Tc_InvalidCapabilities | Tc_InvalidResult

record terminal_size =
  tz_rows :: u16
  tz_columns :: u16
  tz_pixel_width :: u16
  tz_pixel_height :: u16

definition terminal_size_validate :: "terminal_size \<Rightarrow> (terminal_contract_error, unit) result" where
  "terminal_size_validate z =
     (if tz_rows z = 0 \<or> MAX_TERMINAL_SIZE < tz_rows z \<or> tz_columns z = 0 \<or> MAX_TERMINAL_SIZE < tz_columns z \<or>
        MAX_TERMINAL_PIXEL_DIMENSION < tz_pixel_width z \<or> MAX_TERMINAL_PIXEL_DIMENSION < tz_pixel_height z
      then Err Tc_InvalidSize else Ok ())"

section \<open>Data\<close>

record base64_codec =
  b64_encode :: "bytes \<Rightarrow> string"
  b64_decode :: "string \<Rightarrow> bytes option"

datatype terminal_data = TerminalData string

definition data_from_bytes :: "base64_codec \<Rightarrow> bytes \<Rightarrow> (terminal_contract_error, terminal_data) result" where
  "data_from_bytes b64 bs =
     (if bs = [] \<or> MAX_TERMINAL_IPC_BYTES < length bs then Err Tc_InvalidData
      else Ok (TerminalData (b64_encode b64 bs)))"

fun data_decode :: "base64_codec \<Rightarrow> terminal_data \<Rightarrow> (terminal_contract_error, bytes) result" where
  "data_decode b64 (TerminalData s) =
     (if s = [] \<or> MAX_TERMINAL_DATA_BASE64_BYTES < length s then Err Tc_InvalidData
      else and_then (ok_or (b64_decode b64 s) Tc_InvalidData) (\<lambda>bs.
        if bs = [] \<or> MAX_TERMINAL_IPC_BYTES < length bs then Err Tc_InvalidData else Ok bs))"

section \<open>Capabilities and status\<close>

record public_capabilities =
  pc_max_output_chunk_bytes :: u32
  pc_max_input_chunk_bytes :: u32
  pc_max_transcript_bytes :: u32
  pc_max_rows :: u16
  pc_max_columns :: u16
  pc_max_pixel_dimension :: u16
  pc_nonblocking_output :: bool
  pc_fixed_openssh_program :: bool

definition public_capabilities_validate :: "public_capabilities \<Rightarrow> (terminal_contract_error, unit) result" where
  "public_capabilities_validate c =
     (if pc_max_output_chunk_bytes c = 0 \<or> MAX_TERMINAL_IPC_BYTES < unat (pc_max_output_chunk_bytes c) \<or>
        pc_max_input_chunk_bytes c = 0 \<or> MAX_TERMINAL_IPC_BYTES < unat (pc_max_input_chunk_bytes c) \<or>
        pc_max_transcript_bytes c = 0 \<or> MAX_PUBLIC_TRANSCRIPT_BYTES < pc_max_transcript_bytes c \<or>
        pc_max_rows c = 0 \<or> MAX_TERMINAL_SIZE < pc_max_rows c \<or>
        pc_max_columns c = 0 \<or> MAX_TERMINAL_SIZE < pc_max_columns c \<or>
        MAX_TERMINAL_PIXEL_DIMENSION < pc_max_pixel_dimension c \<or>
        \<not> pc_nonblocking_output c \<or> \<not> pc_fixed_openssh_program c
      then Err Tc_InvalidCapabilities else Ok ())"

datatype disconnect_reason =
    Dr_HostKeyChanged | Dr_HostKeyRevoked | Dr_HostKeyUnknown | Dr_AuthenticationFailed
  | Dr_NetworkUnreachable | Dr_ConnectionLost | Dr_OpenSshFailure

datatype terminal_state =
    Ts_Running | Ts_Exited "i32 option" | Ts_Disconnected disconnect_reason | Ts_ClosedByClient

record public_status_of_terminal =
  pt_state :: terminal_state
  pt_transcript_retained_bytes :: u32
  pt_transcript_dropped_bytes :: u64

definition terminal_status_validate :: "public_status_of_terminal \<Rightarrow> (terminal_contract_error, unit) result" where
  "terminal_status_validate s =
     (if MAX_PUBLIC_TRANSCRIPT_BYTES < pt_transcript_retained_bytes s then Err Tc_InvalidResult else Ok ())"

datatype public_read = Pub_Pending | Pub_Data terminal_data | Pub_EndOfStream

section \<open>Commands and results\<close>

datatype terminal_command =
    Term_Open profile_id terminal_size bool
  | Term_Read terminal_session_id u32
  | Term_Stream terminal_session_id u32
  | Term_Write terminal_session_id terminal_data
  | Term_Resize terminal_session_id terminal_size
  | Term_Poll terminal_session_id
  | Term_Close terminal_session_id

definition read_limit_validate :: "u32 \<Rightarrow> (terminal_contract_error, unit) result" where
  "read_limit_validate max_bytes =
     (if 0 < max_bytes \<and> unat max_bytes \<le> MAX_TERMINAL_IPC_BYTES then Ok () else Err Tc_InvalidReadLimit)"

fun terminal_command_validate :: "base64_codec \<Rightarrow> terminal_command \<Rightarrow> (terminal_contract_error, unit) result" where
  "terminal_command_validate b64 (Term_Open _ sz _) = terminal_size_validate sz"
| "terminal_command_validate b64 (Term_Resize _ sz) = terminal_size_validate sz"
| "terminal_command_validate b64 (Term_Read _ max_bytes) = read_limit_validate max_bytes"
| "terminal_command_validate b64 (Term_Stream _ max_bytes) = read_limit_validate max_bytes"
| "terminal_command_validate b64 (Term_Write _ data) = and_then (data_decode b64 data) (\<lambda>_. Ok ())"
| "terminal_command_validate b64 (Term_Poll _) = Ok ()"
| "terminal_command_validate b64 (Term_Close _) = Ok ()"

fun command_session_id :: "terminal_command \<Rightarrow> terminal_session_id option" where
  "command_session_id (Term_Open _ _ _) = None"
| "command_session_id (Term_Read i _) = Some i"
| "command_session_id (Term_Stream i _) = Some i"
| "command_session_id (Term_Write i _) = Some i"
| "command_session_id (Term_Resize i _) = Some i"
| "command_session_id (Term_Poll i) = Some i"
| "command_session_id (Term_Close i) = Some i"

datatype terminal_result =
    Res_Opened terminal_session_id public_capabilities public_status_of_terminal
  | Res_Read terminal_session_id public_read
  | Res_Wrote terminal_session_id u32
  | Res_Resized terminal_session_id
  | Res_Status terminal_session_id public_status_of_terminal
  | Res_Closed terminal_session_id public_status_of_terminal

fun output_within :: "base64_codec \<Rightarrow> u32 \<Rightarrow> public_read \<Rightarrow> bool" where
  "output_within b64 max_bytes (Pub_Data data) =
     (case data_decode b64 data of Inl _ \<Rightarrow> False | Inr bs \<Rightarrow> length bs \<le> unat max_bytes)"
| "output_within b64 max_bytes _ = True"

fun terminal_result_matches :: "base64_codec \<Rightarrow> terminal_result \<Rightarrow> terminal_command \<Rightarrow> bool" where
  "terminal_result_matches b64 (Res_Opened i caps status) (Term_Open _ _ _) =
     (\<not> is_nil (terminal_uuid i) \<and> is_ok (public_capabilities_validate caps) \<and>
      is_ok (terminal_status_validate status) \<and> pt_state status = Ts_Running)"
| "terminal_result_matches b64 (Res_Read i out) (Term_Read expected max_bytes) =
     (i = expected \<and> output_within b64 max_bytes out)"
| "terminal_result_matches b64 (Res_Wrote i accepted) (Term_Write expected data) =
     (i = expected \<and> (case data_decode b64 data of Inl _ \<Rightarrow> False | Inr bs \<Rightarrow> length bs = unat accepted))"
| "terminal_result_matches b64 (Res_Resized i) (Term_Resize expected _) = (i = expected)"
| "terminal_result_matches b64 (Res_Status i status) (Term_Poll expected) =
     (i = expected \<and> is_ok (terminal_status_validate status))"
| "terminal_result_matches b64 (Res_Closed i status) (Term_Close expected) =
     (i = expected \<and> is_ok (terminal_status_validate status) \<and> pt_state status = Ts_ClosedByClient)"
| "terminal_result_matches b64 _ _ = False"

definition terminal_result_validate_for ::
  "base64_codec \<Rightarrow> terminal_result \<Rightarrow> terminal_command \<Rightarrow> (terminal_contract_error, unit) result" where
  "terminal_result_validate_for b64 r c = (if terminal_result_matches b64 r c then Ok () else Err Tc_InvalidResult)"

section \<open>Laws\<close>

text \<open>What the code relies on of base64: decoding undoes encoding, and \<open>n\<close> bytes take
  \<open>4 * ceil (n / 3)\<close> characters.\<close>

definition base64_laws :: "base64_codec \<Rightarrow> bool" where
  "base64_laws b64 \<longleftrightarrow> (\<forall>bs. b64_decode b64 (b64_encode b64 bs) = Some bs \<and> length (b64_encode b64 bs) = 4 * ((length bs + 2) div 3))"

lemma data_round_trip:
  assumes "base64_laws b64" "data_from_bytes b64 bs = Ok d"
  shows "data_decode b64 d = Ok bs"
proof -
  from assms have b: "bs \<noteq> []" "length bs \<le> MAX_TERMINAL_IPC_BYTES" "d = TerminalData (b64_encode b64 bs)"
    by (auto simp: data_from_bytes_def split: if_splits)
  have len: "length (b64_encode b64 bs) = 4 * ((length bs + 2) div 3)"
    and dec: "b64_decode b64 (b64_encode b64 bs) = Some bs"
    using assms(1) by (auto simp: base64_laws_def)
  obtain n where "length bs = Suc n" using b(1) by (cases bs) auto
  then have "0 < length (b64_encode b64 bs)" "length (b64_encode b64 bs) \<le> MAX_TERMINAL_DATA_BASE64_BYTES"
    unfolding len using b(2) by (auto simp: MAX_TERMINAL_IPC_BYTES_def MAX_TERMINAL_DATA_BASE64_BYTES_def)
  then show ?thesis using b dec by auto
qed

lemma data_decode_bounded: "data_decode b64 d = Ok bs \<Longrightarrow> bs \<noteq> [] \<and> length bs \<le> MAX_TERMINAL_IPC_BYTES"
  by (cases d) (auto simp: and_then_eq_Ok split: if_splits)

end
