(* ===== verification/Terminal_Session.thy ===== *)
theory Terminal_Session
  imports Terminal_Contract "HOL-Library.Sublist"
begin

text \<open>
  A terminal over an OpenSSH process (crates/remote-ssh/src/pty.rs, the terminal part of openssh.rs,
  terminal_bridge.rs): the pseudo-terminal, reading with bounded buffers, the transcript, the
  classification of how a session ended, and the translation of errors. The operating system is
  a script of what each call on the terminal and on the process answers. Shown: the
  transcript is exactly the end of the output, no output is lost uncounted or out of order,
  and a write that fails may have been accepted in part.
\<close>

section \<open>Pseudo-terminals (pty.rs)\<close>

definition MAX_PTY_ROWS :: u16 where "MAX_PTY_ROWS = 1000"
definition MAX_PTY_COLUMNS :: u16 where "MAX_PTY_COLUMNS = 1000"
definition MAX_PTY_PIXEL_DIMENSION :: u16 where "MAX_PTY_PIXEL_DIMENSION = 32767"

record pty_size =
  pz_rows :: u16
  pz_columns :: u16
  pz_pixel_width :: u16
  pz_pixel_height :: u16

datatype pty_error =
    Pty_InvalidSize u16 u16 u16 u16
  | Pty_Allocate | Pty_CloneSlave | Pty_Spawn | Pty_ConfigureNonblocking | Pty_Resize | Pty_Inspect | Pty_Close

definition with_pixels :: "u16 \<Rightarrow> u16 \<Rightarrow> u16 \<Rightarrow> u16 \<Rightarrow> (pty_error, pty_size) result" where
  "with_pixels rows columns pixel_width pixel_height =
     (if rows = 0 \<or> MAX_PTY_ROWS < rows \<or> columns = 0 \<or> MAX_PTY_COLUMNS < columns \<or>
        MAX_PTY_PIXEL_DIMENSION < pixel_width \<or> MAX_PTY_PIXEL_DIMENSION < pixel_height
      then Err (Pty_InvalidSize rows columns pixel_width pixel_height)
      else Ok \<lparr>pz_rows = rows, pz_columns = columns, pz_pixel_width = pixel_width, pz_pixel_height = pixel_height\<rparr>)"

definition pty_size_new :: "u16 \<Rightarrow> u16 \<Rightarrow> (pty_error, pty_size) result" where
  "pty_size_new rows columns = with_pixels rows columns 0 0"

text \<open>What the system answers: the bytes that are available to one read, of which a read takes at
  most its buffer; the number of bytes that a write accepts; whether the child runs. A script that
  has ended answers that nothing is available, nothing can be written and the child still runs.\<close>

datatype read_event = Rd_Bytes bytes | Rd_Eof | Rd_WouldBlock | Rd_Eio | Rd_Error
datatype write_event = Wr_Accept nat | Wr_Interrupted | Wr_Error
datatype wait_event = Wt_Running | Wt_Exited "i32 option" | Wt_Error
datatype signal_event = Sg_Sent | Sg_NoProcess | Sg_Error

datatype io_error = Io_WouldBlock | Io_Eio | Io_WriteZero | Io_Other

record pty_session =
  py_reads :: "read_event list"
  py_writes :: "write_event list"
  py_waits :: "wait_event list"
  py_resize_fails :: bool
  py_hangup :: signal_event
  py_grace_polls :: nat
  py_kill_fails :: bool
  py_final_wait :: "(unit, i32 option) result"
  py_written :: bytes
  py_exit :: "i32 option option"
  py_close_requested :: bool

text \<open>\<open>Read::read\<close> with a buffer of \<open>n\<close> bytes.\<close>

fun read_script :: "nat \<Rightarrow> read_event list \<Rightarrow> (io_error, bytes) result \<times> read_event list" where
  "read_script n [] = (Err Io_WouldBlock, [])"
| "read_script n (Rd_Bytes bs # es) = (Ok (take n bs), if n < length bs then Rd_Bytes (drop n bs) # es else es)"
| "read_script n (Rd_Eof # es) = (Ok [], es)"
| "read_script n (Rd_WouldBlock # es) = (Err Io_WouldBlock, es)"
| "read_script n (Rd_Eio # es) = (Err Io_Eio, es)"
| "read_script n (Rd_Error # es) = (Err Io_Other, es)"

definition pty_read :: "nat \<Rightarrow> pty_session \<Rightarrow> (io_error, bytes) result \<times> pty_session" where
  "pty_read n p = (let (r, es) = read_script n (py_reads p) in (r, p\<lparr>py_reads := es\<rparr>))"

text \<open>\<open>Write::write_all\<close>: an interrupted call is repeated, any other error ends it, and the bytes that
  were accepted before stay accepted. The result has the accepted bytes.\<close>

fun write_script :: "bytes \<Rightarrow> write_event list \<Rightarrow> (io_error, unit) result \<times> bytes \<times> write_event list" where
  "write_script [] ws = (Ok (), [], ws)"
| "write_script (b # bs) [] = (Err Io_WouldBlock, [], [])"
| "write_script (b # bs) (Wr_Interrupted # ws) = write_script (b # bs) ws"
| "write_script (b # bs) (Wr_Error # ws) = (Err Io_Other, [], ws)"
| "write_script (b # bs) (Wr_Accept n # ws) =
     (if n = 0 then (Err Io_WriteZero, [], ws)
      else let (r, sent, ws') = write_script (drop n (b # bs)) ws in (r, take n (b # bs) @ sent, ws'))"

definition pty_write_all :: "bytes \<Rightarrow> pty_session \<Rightarrow> (io_error, unit) result \<times> pty_session" where
  "pty_write_all bs p =
     (let (r, sent, ws) = write_script bs (py_writes p) in (r, p\<lparr>py_writes := ws, py_written := py_written p @ sent\<rparr>))"

definition pty_resize :: "pty_size \<Rightarrow> pty_session \<Rightarrow> (pty_error, unit) result" where
  "pty_resize sz p = (if py_resize_fails p then Err Pty_Resize else Ok ())"

text \<open>\<open>Child::try_wait\<close> remembers the status of a child that has ended.\<close>

definition pty_try_wait :: "pty_session \<Rightarrow> (pty_error, i32 option option) result \<times> pty_session" where
  "pty_try_wait p =
     (case py_exit p of
        Some code \<Rightarrow> (Ok (Some code), p)
      | None \<Rightarrow>
          (case py_waits p of
             [] \<Rightarrow> (Ok None, p)
           | Wt_Running # es \<Rightarrow> (Ok None, p\<lparr>py_waits := es\<rparr>)
           | Wt_Error # es \<Rightarrow> (Err Pty_Inspect, p\<lparr>py_waits := es\<rparr>)
           | Wt_Exited code # es \<Rightarrow> (Ok (Some code), p\<lparr>py_waits := es, py_exit := Some code\<rparr>)))"

text \<open>The wait for the child after the hangup: the number of polls before the deadline.\<close>

fun grace_period :: "nat \<Rightarrow> pty_session \<Rightarrow> (pty_error, i32 option option) result \<times> pty_session" where
  "grace_period 0 p = (Ok None, p)"
| "grace_period (Suc n) p =
     (case pty_try_wait p of
        (Inr None, p') \<Rightarrow> grace_period n p'
      | (r, p') \<Rightarrow> (r, p'))"

definition kill_child :: "pty_session \<Rightarrow> (pty_error, i32 option) result \<times> pty_session" where
  "kill_child p =
     (if py_kill_fails p then (Err Pty_Close, p)
      else case py_final_wait p of
        Inl _ \<Rightarrow> (Err Pty_Close, p)
      | Inr code \<Rightarrow> (Ok code, p\<lparr>py_exit := Some code\<rparr>))"

definition pty_close :: "pty_session \<Rightarrow> (pty_error, i32 option) result \<times> pty_session" where
  "pty_close p0 =
     (case pty_try_wait (p0\<lparr>py_close_requested := True\<rparr>) of
        (Inl e, p) \<Rightarrow> (Err e, p)
      | (Inr (Some code), p) \<Rightarrow> (Ok code, p)
      | (Inr None, p) \<Rightarrow>
          if py_hangup p = Sg_Error then (Err Pty_Close, p)
          else case grace_period (py_grace_polls p) p of
            (Inl e, p') \<Rightarrow> (Err e, p')
          | (Inr (Some code), p') \<Rightarrow> (Ok code, p')
          | (Inr None, p') \<Rightarrow> kill_child p')"

section \<open>Bounded buffers (openssh.rs)\<close>

definition MAX_TERMINAL_OUTPUT_BYTES :: nat where "MAX_TERMINAL_OUTPUT_BYTES = 64 * 1024"
definition MAX_TERMINAL_INPUT_BYTES :: nat where "MAX_TERMINAL_INPUT_BYTES = 64 * 1024"
definition MAX_TERMINAL_TRANSCRIPT_BYTES :: nat where "MAX_TERMINAL_TRANSCRIPT_BYTES = 64 * 1024"

record bounded_bytes =
  bb_bytes :: bytes
  bb_dropped_bytes :: u64

text \<open>\<open>BoundedPendingOutput::push\<close> and \<open>BoundedTranscript::push\<close> are the same code with different
  bounds. Lengths of buffers in memory do not overflow.\<close>

definition bounded_push :: "nat \<Rightarrow> bytes \<Rightarrow> bounded_bytes \<Rightarrow> bounded_bytes" where
  "bounded_push bound incoming b =
     (let total = length (bb_bytes b) + length incoming
      in if bound < total
         then let overflow = total - bound;
                  remove_existing = min overflow (length (bb_bytes b));
                  skip_incoming = overflow - remove_existing
              in \<lparr>bb_bytes = drop remove_existing (bb_bytes b) @ drop skip_incoming incoming,
                  bb_dropped_bytes = saturating_add (bb_dropped_bytes b) (of_nat overflow)\<rparr>
         else b\<lparr>bb_bytes := bb_bytes b @ incoming\<rparr>)"

definition pending_push :: "bytes \<Rightarrow> bounded_bytes \<Rightarrow> bounded_bytes" where
  "pending_push = bounded_push MAX_TERMINAL_OUTPUT_BYTES"

definition pending_take :: "nat \<Rightarrow> bounded_bytes \<Rightarrow> bytes option \<times> bounded_bytes" where
  "pending_take maximum b =
     (if bb_bytes b = [] then (None, b)
      else let count = min maximum (length (bb_bytes b))
           in (Some (take count (bb_bytes b)), b\<lparr>bb_bytes := drop count (bb_bytes b)\<rparr>))"

definition transcript_push :: "bytes \<Rightarrow> bounded_bytes \<Rightarrow> bounded_bytes" where
  "transcript_push = bounded_push MAX_TERMINAL_TRANSCRIPT_BYTES"

section \<open>Terminal sessions (openssh.rs)\<close>

record ssh_capabilities =
  sc_max_output_chunk_bytes :: nat
  sc_max_pending_output_bytes :: nat
  sc_max_input_chunk_bytes :: nat
  sc_max_transcript_bytes :: nat
  sc_max_rows :: u16
  sc_max_columns :: u16
  sc_max_pixel_dimension :: u16
  sc_nonblocking_output :: bool
  sc_fixed_openssh_program :: bool

definition TERMINAL_CAPABILITIES :: ssh_capabilities where
  "TERMINAL_CAPABILITIES =
     \<lparr>sc_max_output_chunk_bytes = MAX_TERMINAL_OUTPUT_BYTES, sc_max_pending_output_bytes = MAX_TERMINAL_OUTPUT_BYTES,
      sc_max_input_chunk_bytes = MAX_TERMINAL_INPUT_BYTES, sc_max_transcript_bytes = MAX_TERMINAL_TRANSCRIPT_BYTES,
      sc_max_rows = MAX_PTY_ROWS, sc_max_columns = MAX_PTY_COLUMNS, sc_max_pixel_dimension = MAX_PTY_PIXEL_DIMENSION,
      sc_nonblocking_output = True, sc_fixed_openssh_program = True\<rparr>"

datatype ssh_read = Ssh_Pending | Ssh_Data bytes | Ssh_EndOfStream

record ssh_status =
  st_state :: terminal_state
  st_pending_output_bytes :: nat
  st_pending_output_dropped_bytes :: u64
  st_transcript_retained_bytes :: nat
  st_transcript_dropped_bytes :: u64

datatype terminal_error =
    Te_InvalidReadLimit nat nat | Te_InputTooLarge nat nat | Te_Read io_error | Te_Write io_error | Te_Pty pty_error

fun terminal_error_code :: "terminal_error \<Rightarrow> string" where
  "terminal_error_code (Te_InvalidReadLimit _ _) = ''terminal_read_limit_invalid''"
| "terminal_error_code (Te_InputTooLarge _ _) = ''terminal_input_too_large''"
| "terminal_error_code (Te_Read _) = ''terminal_read_failed''"
| "terminal_error_code (Te_Write _) = ''terminal_write_failed''"
| "terminal_error_code (Te_Pty (Pty_InvalidSize _ _ _ _)) = ''terminal_size_invalid''"
| "terminal_error_code (Te_Pty _) = ''terminal_pty_failed''"

fun terminal_error_retryable :: "terminal_error \<Rightarrow> bool" where
  "terminal_error_retryable (Te_Read _) = True"
| "terminal_error_retryable (Te_Write _) = True"
| "terminal_error_retryable _ = False"

record terminal_session =
  ts_pty :: pty_session
  ts_pending_output :: bounded_bytes
  ts_transcript :: bounded_bytes

definition terminal_open :: "pty_session \<Rightarrow> terminal_session" where
  "terminal_open p =
     \<lparr>ts_pty = p, ts_pending_output = \<lparr>bb_bytes = [], bb_dropped_bytes = 0\<rparr>,
      ts_transcript = \<lparr>bb_bytes = [], bb_dropped_bytes = 0\<rparr>\<rparr>"

definition session_resize :: "pty_size \<Rightarrow> terminal_session \<Rightarrow> (terminal_error, unit) result" where
  "session_resize sz s = map_err Te_Pty (pty_resize sz (ts_pty s))"

definition read_output :: "nat \<Rightarrow> terminal_session \<Rightarrow> (terminal_error, ssh_read) result \<times> terminal_session" where
  "read_output max_bytes s =
     (if max_bytes = 0 \<or> MAX_TERMINAL_OUTPUT_BYTES < max_bytes
      then (Err (Te_InvalidReadLimit max_bytes MAX_TERMINAL_OUTPUT_BYTES), s)
      else case pending_take max_bytes (ts_pending_output s) of
        (Some bs, pending) \<Rightarrow> (Ok (Ssh_Data bs), s\<lparr>ts_pending_output := pending\<rparr>)
      | (None, _) \<Rightarrow>
          (case pty_read max_bytes (ts_pty s) of
             (Inr [], p) \<Rightarrow> (Ok Ssh_EndOfStream, s\<lparr>ts_pty := p\<rparr>)
           | (Inr bs, p) \<Rightarrow> (Ok (Ssh_Data bs), s\<lparr>ts_pty := p, ts_transcript := transcript_push bs (ts_transcript s)\<rparr>)
           | (Inl Io_WouldBlock, p) \<Rightarrow> (Ok Ssh_Pending, s\<lparr>ts_pty := p\<rparr>)
           | (Inl Io_Eio, p) \<Rightarrow>
               (case pty_try_wait p of
                  (Inl e, p') \<Rightarrow> (Err (Te_Pty e), s\<lparr>ts_pty := p'\<rparr>)
                | (Inr (Some _), p') \<Rightarrow> (Ok Ssh_EndOfStream, s\<lparr>ts_pty := p'\<rparr>)
                | (Inr None, p') \<Rightarrow> (Err (Te_Read Io_Eio), s\<lparr>ts_pty := p'\<rparr>))
           | (Inl e, p) \<Rightarrow> (Err (Te_Read e), s\<lparr>ts_pty := p\<rparr>)))"

definition write_input :: "bytes \<Rightarrow> terminal_session \<Rightarrow> (terminal_error, unit) result \<times> terminal_session" where
  "write_input inp s =
     (if MAX_TERMINAL_INPUT_BYTES < length inp
      then (Err (Te_InputTooLarge (length inp) MAX_TERMINAL_INPUT_BYTES), s)
      else let (r, p) = pty_write_all inp (ts_pty s) in (map_err Te_Write r, s\<lparr>ts_pty := p\<rparr>))"

datatype output_capture = Cap_Drained | Cap_BudgetExhausted

text \<open>The loop of \<open>capture_pending_output\<close>: every round that goes on captures at least one byte.\<close>

definition capture_limit :: "nat \<Rightarrow> nat" where
  "capture_limit captured = min (MAX_TERMINAL_OUTPUT_BYTES - captured) (8 * 1024)"

function (sequential) capture_loop ::
  "nat \<Rightarrow> terminal_session \<Rightarrow> (terminal_error, output_capture) result \<times> terminal_session" where
  "capture_loop captured s =
     (if captured < MAX_TERMINAL_OUTPUT_BYTES
      then case pty_read (capture_limit captured) (ts_pty s) of
        (Inr [], p) \<Rightarrow> (Ok Cap_Drained, s\<lparr>ts_pty := p\<rparr>)
      | (Inr (b # bs), p) \<Rightarrow>
          capture_loop (captured + length (b # bs))
            (s\<lparr>ts_pty := p, ts_pending_output := pending_push (b # bs) (ts_pending_output s),
               ts_transcript := transcript_push (b # bs) (ts_transcript s)\<rparr>)
      | (Inl Io_WouldBlock, p) \<Rightarrow> (Ok Cap_Drained, s\<lparr>ts_pty := p\<rparr>)
      | (Inl Io_Eio, p) \<Rightarrow> (Ok Cap_Drained, s\<lparr>ts_pty := p\<rparr>)
      | (Inl e, p) \<Rightarrow> (Err (Te_Read e), s\<lparr>ts_pty := p\<rparr>)
      else (Ok Cap_BudgetExhausted, s))"
  by pat_completeness auto
termination
  by (relation "measure (\<lambda>(captured, s). MAX_TERMINAL_OUTPUT_BYTES - captured)") auto

declare capture_loop.simps [simp del]

definition session_status :: "terminal_state \<Rightarrow> terminal_session \<Rightarrow> ssh_status" where
  "session_status state s =
     \<lparr>st_state = state, st_pending_output_bytes = length (bb_bytes (ts_pending_output s)),
      st_pending_output_dropped_bytes = bb_dropped_bytes (ts_pending_output s),
      st_transcript_retained_bytes = length (bb_bytes (ts_transcript s)),
      st_transcript_dropped_bytes = bb_dropped_bytes (ts_transcript s)\<rparr>"

text \<open>\<open>String::from_utf8_lossy\<close> replaces bytes above the ASCII range only, so the output contains a text
  of ASCII characters exactly when the bytes contain it.\<close>

definition bytes_contain :: "string \<Rightarrow> bytes \<Rightarrow> bool" where
  "bytes_contain pat bs = list_ex (\<lambda>r. prefix (map of_char pat) r) (suffixes bs)"

definition classify_disconnect_reason :: "bytes \<Rightarrow> disconnect_reason" where
  "classify_disconnect_reason transcript =
     (let contains = (\<lambda>pat. bytes_contain pat transcript)
      in if contains ''REMOTE HOST IDENTIFICATION HAS CHANGED'' then Dr_HostKeyChanged
         else if contains ''REVOKED HOST KEY DETECTED'' \<or> contains ''revoked host key'' then Dr_HostKeyRevoked
         else if contains ''Host key verification failed'' \<or> contains ''No ED25519 host key is known'' \<or>
           contains ''No ECDSA host key is known'' \<or> contains ''No RSA host key is known'' then Dr_HostKeyUnknown
         else if contains ''Permission denied'' then Dr_AuthenticationFailed
         else if contains ''No route to host'' \<or> contains ''Network is unreachable'' \<or>
           contains ''Could not resolve hostname'' then Dr_NetworkUnreachable
         else if contains ''Connection reset'' \<or> contains ''Connection timed out'' \<or>
           contains ''Connection closed'' \<or> contains ''Broken pipe'' then Dr_ConnectionLost
         else Dr_OpenSshFailure)"

fun classify_session :: "i32 option option \<Rightarrow> bytes \<Rightarrow> bool \<Rightarrow> terminal_state" where
  "classify_session None transcript close_requested = Ts_Running"
| "classify_session (Some code) transcript close_requested =
     (if close_requested then Ts_ClosedByClient
      else if code \<noteq> Some 255 then Ts_Exited code
      else Ts_Disconnected (classify_disconnect_reason transcript))"

definition poll_state :: "terminal_session \<Rightarrow> (terminal_error, ssh_status) result \<times> terminal_session" where
  "poll_state s =
     (case capture_loop 0 s of
        (Inl e, s1) \<Rightarrow> (Err e, s1)
      | (Inr capture, s1) \<Rightarrow>
          (case pty_try_wait (ts_pty s1) of
             (Inl e, p) \<Rightarrow> (Err (Te_Pty e), s1\<lparr>ts_pty := p\<rparr>)
           | (Inr exit, p) \<Rightarrow>
               let s2 = s1\<lparr>ts_pty := p\<rparr>
               in if capture = Cap_BudgetExhausted then (Ok (session_status Ts_Running s2), s2)
                  else (Ok (session_status (classify_session exit (bb_bytes (ts_transcript s2))
                    (py_close_requested (ts_pty s2))) s2), s2)))"

definition session_close :: "terminal_session \<Rightarrow> (terminal_error, ssh_status) result \<times> terminal_session" where
  "session_close s =
     (case pty_close (ts_pty s) of
        (Inl e, p) \<Rightarrow> (Err (Te_Pty e), s\<lparr>ts_pty := p\<rparr>)
      | (Inr _, p) \<Rightarrow> let s' = s\<lparr>ts_pty := p\<rparr> in (Ok (session_status Ts_ClosedByClient s'), s'))"

section \<open>Errors of the bridge (terminal_bridge.rs)\<close>

definition bridge_error :: "remote_error_kind \<Rightarrow> remote_operation \<Rightarrow> string \<Rightarrow> retry_disposition \<Rightarrow> remote_error" where
  "bridge_error kind operation reason retry =
     \<lparr>re_kind = kind, re_operation = operation, re_reason = SafeReason reason, re_retry = retry\<rparr>"

fun map_terminal_error :: "terminal_error \<Rightarrow> remote_operation \<Rightarrow> remote_error" where
  "map_terminal_error (Te_InvalidReadLimit _ _) operation =
     bridge_error Ek_InvalidInput operation ''ssh_terminal_read_limit_invalid'' Retry_Never"
| "map_terminal_error (Te_InputTooLarge _ _) operation =
     bridge_error Ek_InvalidInput operation ''ssh_terminal_input_too_large'' Retry_Never"
| "map_terminal_error (Te_Pty (Pty_InvalidSize _ _ _ _)) operation =
     bridge_error Ek_InvalidInput operation ''ssh_terminal_size_invalid'' Retry_Never"
| "map_terminal_error (Te_Read _) operation =
     bridge_error Ek_Transport operation ''ssh_terminal_read_failed'' Retry_Backoff"
| "map_terminal_error (Te_Write _) operation =
     bridge_error Ek_Transport operation ''ssh_terminal_write_failed'' Retry_Backoff"
| "map_terminal_error (Te_Pty _) operation =
     bridge_error Ek_Transport operation ''ssh_terminal_pty_failed'' Retry_Backoff"

text \<open>\<open>SshTerminalSession\<close> translates the error of each call.\<close>

definition ssh_read_output :: "nat \<Rightarrow> terminal_session \<Rightarrow> (remote_error, ssh_read) result \<times> terminal_session" where
  "ssh_read_output max_bytes s = apfst (map_err (\<lambda>e. map_terminal_error e Op_Read)) (read_output max_bytes s)"

definition ssh_write_input :: "bytes \<Rightarrow> terminal_session \<Rightarrow> (remote_error, unit) result \<times> terminal_session" where
  "ssh_write_input inp s = apfst (map_err (\<lambda>e. map_terminal_error e Op_Write)) (write_input inp s)"

definition ssh_resize :: "pty_size \<Rightarrow> terminal_session \<Rightarrow> (remote_error, unit) result" where
  "ssh_resize sz s = map_err (\<lambda>e. map_terminal_error e Op_Connect) (session_resize sz s)"

definition ssh_poll_state :: "terminal_session \<Rightarrow> (remote_error, ssh_status) result \<times> terminal_session" where
  "ssh_poll_state s = apfst (map_err (\<lambda>e. map_terminal_error e Op_Connect)) (poll_state s)"

definition ssh_close :: "terminal_session \<Rightarrow> (remote_error, ssh_status) result \<times> terminal_session" where
  "ssh_close s = apfst (map_err (\<lambda>e. map_terminal_error e Op_Disconnect)) (session_close s)"

section \<open>Laws of the buffers\<close>

lemma bounded_push_bytes:
  "bb_bytes (bounded_push bound inc b) = drop (length (bb_bytes b) + length inc - bound) (bb_bytes b @ inc)"
  by (simp add: bounded_push_def Let_def min_def)

lemma bounded_push_dropped:
  assumes "length (bb_bytes b) + length inc < 2 ^ 64"
  shows "unat (bb_dropped_bytes (bounded_push bound inc b)) =
    min (unat (bb_dropped_bytes b) + (length (bb_bytes b) + length inc - bound)) (2 ^ 64 - 1)"
proof -
  let ?o = "length (bb_bytes b) + length inc - bound"
  have o: "unat (of_nat ?o :: u64) = ?o" using assms by (simp add: unat_of_nat take_bit_eq_mod)
  have "unat (bb_dropped_bytes b) \<le> 2 ^ 64 - 1" using unat_less_pow [of "bb_dropped_bytes b"] by simp
  then show ?thesis using o by (auto simp: bounded_push_def Let_def unat_saturating_add simp del: unat_of_nat)
qed

lemma pending_take_Some:
  "pending_take n b = (Some bs, b') \<Longrightarrow> bb_bytes b = bs @ bb_bytes b' \<and> bb_dropped_bytes b' = bb_dropped_bytes b \<and>
     (0 < n \<longrightarrow> bs \<noteq> []) \<and> length bs \<le> n"
  by (auto simp: pending_take_def Let_def min_def split: if_splits)

lemma pending_take_None: "pending_take n b = (None, b') \<Longrightarrow> bb_bytes b = []"
  by (auto simp: pending_take_def Let_def split: if_splits)

section \<open>The output of a session\<close>

definition event_bytes :: "read_event \<Rightarrow> bytes" where
  "event_bytes e = (case e of Rd_Bytes bs \<Rightarrow> bs | _ \<Rightarrow> [])"

definition script_bytes :: "read_event list \<Rightarrow> bytes" where
  "script_bytes es = concat (map event_bytes es)"

abbreviation unread :: "terminal_session \<Rightarrow> bytes" where
  "unread s \<equiv> script_bytes (py_reads (ts_pty s))"

fun result_bytes :: "(io_error, bytes) result \<Rightarrow> bytes" where
  "result_bytes (Inr bs) = bs"
| "result_bytes (Inl _) = []"

lemma pty_read_bytes:
  assumes "pty_read n p = (r, p')"
  shows "script_bytes (py_reads p) = result_bytes r @ script_bytes (py_reads p') \<and> length (result_bytes r) \<le> n"
proof -
  obtain es where es: "read_script n (py_reads p) = (r, es)" "py_reads p' = es"
    using assms by (auto simp: pty_read_def split: prod.splits)
  have "script_bytes (py_reads p) = result_bytes r @ script_bytes es \<and> length (result_bytes r) \<le> n"
    using es(1) by (cases "(n, py_reads p)" rule: read_script.cases)
      (auto simp: script_bytes_def event_bytes_def split: if_splits)
  then show ?thesis using es(2) by simp
qed

lemma pty_try_wait_reads: "pty_try_wait p = (r, p') \<Longrightarrow> py_reads p' = py_reads p"
  by (auto simp: pty_try_wait_def split: option.splits list.splits wait_event.splits)

lemma grace_period_reads: "grace_period n p = (r, p') \<Longrightarrow> py_reads p' = py_reads p"
proof (induction n p rule: grace_period.induct)
  case (2 n p)
  obtain r1 p1 where w: "pty_try_wait p = (r1, p1)" by fastforce
  note k = pty_try_wait_reads [OF w]
  show ?case
  proof (cases "r1 = Inr None")
    case True
    then show ?thesis using 2 w k by simp
  next
    case False
    then show ?thesis using 2(2) w k by (auto split: sum.splits option.splits)
  qed
qed simp

lemma pty_close_reads: "pty_close p = (r, p') \<Longrightarrow> py_reads p' = py_reads p"
proof -
  assume c: "pty_close p = (r, p')"
  obtain r1 p1 where w: "pty_try_wait (p\<lparr>py_close_requested := True\<rparr>) = (r1, p1)" by fastforce
  obtain r2 p2 where g: "grace_period (py_grace_polls p1) p1 = (r2, p2)" by fastforce
  show ?thesis using c pty_try_wait_reads [OF w] grace_period_reads [OF g]
    by (auto simp: pty_close_def w g kill_child_def split: sum.splits option.splits if_splits)
qed

text \<open>What the reader has got so far and what the session holds account for the output \<open>out\<close>.\<close>

definition accounted :: "bytes \<Rightarrow> bytes \<Rightarrow> terminal_session \<Rightarrow> bool" where
  "accounted out del s \<longleftrightarrow>
     bb_bytes (ts_transcript s) = drop (length out - MAX_TERMINAL_TRANSCRIPT_BYTES) out \<and>
     unat (bb_dropped_bytes (ts_transcript s)) = min (length out - MAX_TERMINAL_TRANSCRIPT_BYTES) (2 ^ 64 - 1) \<and>
     subseq (del @ bb_bytes (ts_pending_output s)) out \<and>
     length (bb_bytes (ts_pending_output s)) \<le> MAX_TERMINAL_OUTPUT_BYTES \<and>
     unat (bb_dropped_bytes (ts_pending_output s)) =
       min (length out - (length del + length (bb_bytes (ts_pending_output s)))) (2 ^ 64 - 1)"

lemma accounted_pty [simp]: "accounted out del (s\<lparr>ts_pty := p\<rparr>) = accounted out del s"
  by (simp add: accounted_def)

lemma transcript_push_accounted:
  assumes t: "bb_bytes t = drop (length out - MAX_TERMINAL_TRANSCRIPT_BYTES) out"
      "unat (bb_dropped_bytes t) = min (length out - MAX_TERMINAL_TRANSCRIPT_BYTES) (2 ^ 64 - 1)"
    and b: "length bs \<le> MAX_TERMINAL_OUTPUT_BYTES"
  shows "bb_bytes (transcript_push bs t) = drop (length (out @ bs) - MAX_TERMINAL_TRANSCRIPT_BYTES) (out @ bs)"
    and "unat (bb_dropped_bytes (transcript_push bs t)) =
      min (length (out @ bs) - MAX_TERMINAL_TRANSCRIPT_BYTES) (2 ^ 64 - 1)"
proof -
  let ?k = MAX_TERMINAL_TRANSCRIPT_BYTES
  have len: "length (bb_bytes t) = min (length out) ?k" using t(1) by simp
  have "length (bb_bytes t) + length bs < 2 ^ 64"
    using b unfolding len by (simp add: MAX_TERMINAL_OUTPUT_BYTES_def MAX_TERMINAL_TRANSCRIPT_BYTES_def min_def)
  note d = bounded_push_dropped [OF this, of ?k]
  show "bb_bytes (transcript_push bs t) = drop (length (out @ bs) - ?k) (out @ bs)"
  proof (cases "length out \<le> ?k")
    case False
    then have e: "length out + length bs - (length out - ?k + ?k) + (length out - ?k) = length out + length bs - ?k" by simp
    show ?thesis unfolding transcript_push_def bounded_push_bytes t(1) using False by (simp add: e) (simp add: add.commute)
  qed (simp add: transcript_push_def bounded_push_bytes t(1))
  show "unat (bb_dropped_bytes (transcript_push bs t)) = min (length (out @ bs) - ?k) (2 ^ 64 - 1)"
    unfolding transcript_push_def d t(2) len by (auto simp: min_def)
qed

text \<open>A chunk that goes to the reader at once, and a chunk that is buffered.\<close>

lemma accounted_direct:
  assumes a: "accounted out del s" and e: "bb_bytes (ts_pending_output s) = []"
    and b: "length bs \<le> MAX_TERMINAL_OUTPUT_BYTES"
  shows "accounted (out @ bs) (del @ bs) (s\<lparr>ts_pty := p, ts_transcript := transcript_push bs (ts_transcript s)\<rparr>)"
proof -
  have t: "bb_bytes (ts_transcript s) = drop (length out - MAX_TERMINAL_TRANSCRIPT_BYTES) out"
      "unat (bb_dropped_bytes (ts_transcript s)) = min (length out - MAX_TERMINAL_TRANSCRIPT_BYTES) (2 ^ 64 - 1)"
    using a by (auto simp: accounted_def)
  show ?thesis using a e transcript_push_accounted [OF t b] by (simp add: accounted_def)
qed

lemma accounted_buffered:
  assumes a: "accounted out del s" and b: "length bs \<le> MAX_TERMINAL_OUTPUT_BYTES"
  shows "accounted (out @ bs) del (s\<lparr>ts_pty := p, ts_pending_output := pending_push bs (ts_pending_output s),
    ts_transcript := transcript_push bs (ts_transcript s)\<rparr>)"
proof -
  let ?P = "bb_bytes (ts_pending_output s)" and ?k = MAX_TERMINAL_OUTPUT_BYTES
  have t: "bb_bytes (ts_transcript s) = drop (length out - MAX_TERMINAL_TRANSCRIPT_BYTES) out"
      "unat (bb_dropped_bytes (ts_transcript s)) = min (length out - MAX_TERMINAL_TRANSCRIPT_BYTES) (2 ^ 64 - 1)"
    using a by (auto simp: accounted_def)
  have sub: "subseq (del @ ?P) out" and lp: "length ?P \<le> ?k"
    and dr: "unat (bb_dropped_bytes (ts_pending_output s)) = min (length out - (length del + length ?P)) (2 ^ 64 - 1)"
    using a by (auto simp: accounted_def)
  have le: "length del + length ?P \<le> length out" using list_emb_length [OF sub] by simp
  have "length ?P + length bs < 2 ^ 64" using lp b by (simp add: MAX_TERMINAL_OUTPUT_BYTES_def)
  note d = bounded_push_dropped [OF this, of ?k]
  have "subseq (drop (length ?P + length bs - ?k) (?P @ bs)) (?P @ bs)"
    by (metis append_take_drop_id list_emb_append2 subseq_order.order_refl)
  then have "subseq (del @ drop (length ?P + length bs - ?k) (?P @ bs)) (del @ ?P @ bs)"
    by (rule list_emb_append_mono [OF subseq_order.order_refl])
  moreover have "subseq ((del @ ?P) @ bs) (out @ bs)"
    by (rule list_emb_append_mono [OF sub subseq_order.order_refl])
  ultimately have s': "subseq (del @ bb_bytes (pending_push bs (ts_pending_output s))) (out @ bs)"
    unfolding pending_push_def bounded_push_bytes by (metis append.assoc subseq_order.order_trans)
  have l': "length (bb_bytes (pending_push bs (ts_pending_output s))) = min (length ?P + length bs) ?k"
    unfolding pending_push_def bounded_push_bytes by (simp add: min_def) arith
  have "unat (bb_dropped_bytes (pending_push bs (ts_pending_output s))) =
      min (length (out @ bs) - (length del + length (bb_bytes (pending_push bs (ts_pending_output s))))) (2 ^ 64 - 1)"
    unfolding pending_push_def d dr using l' [unfolded pending_push_def] le by (auto simp: min_def)
  then show ?thesis using s' l' transcript_push_accounted [OF t b] by (simp add: accounted_def)
qed

lemma capture_loop_accounted:
  assumes "capture_loop captured s = (r, s')" "accounted out del s"
  shows "\<exists>bs. unread s = bs @ unread s' \<and> accounted (out @ bs) del s'"
  using assms
proof (induction captured s arbitrary: out rule: capture_loop.induct)
  case (1 captured s)
  show ?case
  proof (cases "captured < MAX_TERMINAL_OUTPUT_BYTES")
    case False
    with 1(2,3) show ?thesis by (auto simp: capture_loop.simps intro: exI [of _ "[]"])
  next
    case True
    obtain r1 p1 where rd: "pty_read (capture_limit captured) (ts_pty s) = (r1, p1)" by fastforce
    note rb = pty_read_bytes [OF rd]
    show ?thesis
    proof (cases r1)
      case (Inl e)
      then have "r1 = Inl e" "s' = s\<lparr>ts_pty := p1\<rparr>"
        using 1(2) True rd by (subst (asm) capture_loop.simps, cases e, auto)+
      then show ?thesis using rb 1(3) by (auto intro: exI [of _ "[]"])
    next
      case (Inr bs)
      show ?thesis
      proof (cases bs)
        case Nil
        then have "s' = s\<lparr>ts_pty := p1\<rparr>" using 1(2) True rd Inr by (subst (asm) capture_loop.simps) auto
        then show ?thesis using rb Inr Nil 1(3) by (auto intro: exI [of _ "[]"])
      next
        case (Cons b bs')
        let ?s = "s\<lparr>ts_pty := p1, ts_pending_output := pending_push (b # bs') (ts_pending_output s),
          ts_transcript := transcript_push (b # bs') (ts_transcript s)\<rparr>"
        have go: "capture_loop (captured + length (b # bs')) ?s = (r, s')"
          using 1(2) True rd Inr Cons by (subst (asm) capture_loop.simps) auto
        have "length (b # bs') \<le> MAX_TERMINAL_OUTPUT_BYTES"
          using rb Inr Cons by (auto simp: capture_limit_def)
        then have "accounted (out @ b # bs') del ?s" using 1(3) by (rule accounted_buffered [rotated])
        from 1(1) [OF True rd [symmetric] Inr Cons go this] obtain cs where
          "unread ?s = cs @ unread s'" "accounted ((out @ b # bs') @ cs) del s'" by blast
        then show ?thesis using rb Inr Cons by (intro exI [of _ "(b # bs') @ cs"]) auto
      qed
    qed
  qed
qed

lemma read_output_accounted:
  assumes r: "read_output n s = (r, s')" and a: "accounted out del s"
  shows "\<exists>bs. unread s = bs @ unread s' \<and>
    accounted (out @ bs) (del @ (case r of Inr (Ssh_Data d) \<Rightarrow> d | _ \<Rightarrow> [])) s'"
proof (cases "n = 0 \<or> MAX_TERMINAL_OUTPUT_BYTES < n")
  case True
  then show ?thesis using r a by (auto simp: read_output_def intro: exI [of _ "[]"])
next
  case n: False
  obtain t pend where take: "pending_take n (ts_pending_output s) = (t, pend)" by fastforce
  show ?thesis
  proof (cases t)
    case (Some bs)
    have "r = Inr (Ssh_Data bs)" "s' = s\<lparr>ts_pending_output := pend\<rparr>"
      using r n take Some by (auto simp: read_output_def)
    moreover have "accounted out (del @ bs) (s\<lparr>ts_pending_output := pend\<rparr>)"
      using a pending_take_Some [OF take [unfolded Some]] by (simp add: accounted_def add.assoc)
    ultimately show ?thesis by (auto intro: exI [of _ "[]"])
  next
    case None
    then have e: "bb_bytes (ts_pending_output s) = []" using take pending_take_None by blast
    obtain r1 p1 where rd: "pty_read n (ts_pty s) = (r1, p1)" by fastforce
    note rb = pty_read_bytes [OF rd]
    show ?thesis
    proof (cases "result_bytes r1 = []")
      case True
      obtain w p2 where w: "pty_try_wait p1 = (w, p2)" by fastforce
      have "(case r of Inr (Ssh_Data d) \<Rightarrow> d | _ \<Rightarrow> []) = [] \<and> (s' = s\<lparr>ts_pty := p1\<rparr> \<or> s' = s\<lparr>ts_pty := p2\<rparr>)"
        using r n take None rd w True
        by (cases r1) (auto simp: read_output_def split: io_error.splits sum.splits option.splits)
      then show ?thesis using rb True a pty_try_wait_reads [OF w] by (auto intro: exI [of _ "[]"])
    next
      case False
      then obtain bs where bs: "r1 = Inr bs" "bs \<noteq> []" by (cases r1) auto
      then have "r = Inr (Ssh_Data bs)"
        "s' = s\<lparr>ts_pty := p1, ts_transcript := transcript_push bs (ts_transcript s)\<rparr>"
        using r n take None rd by (auto simp: read_output_def split: list.splits)
      moreover have "length bs \<le> MAX_TERMINAL_OUTPUT_BYTES" using rb bs n by simp
      ultimately show ?thesis using accounted_direct [OF a e, of bs p1] rb bs by auto
    qed
  qed
qed

section \<open>Sequences of calls\<close>

datatype terminal_call = Call_Read nat | Call_Write bytes | Call_Resize pty_size | Call_Poll | Call_Close

text \<open>The bytes a call hands to the client, and the session after it.\<close>

fun terminal_step :: "terminal_call \<Rightarrow> terminal_session \<Rightarrow> bytes \<times> terminal_session" where
  "terminal_step (Call_Read n) s =
     (let (r, s') = read_output n s in (case r of Inr (Ssh_Data d) \<Rightarrow> d | _ \<Rightarrow> [], s'))"
| "terminal_step (Call_Write inp) s = ([], snd (write_input inp s))"
| "terminal_step (Call_Resize sz) s = ([], s)"
| "terminal_step Call_Poll s = ([], snd (poll_state s))"
| "terminal_step Call_Close s = ([], snd (session_close s))"

fun terminal_calls :: "terminal_call list \<Rightarrow> terminal_session \<Rightarrow> bytes \<times> terminal_session" where
  "terminal_calls [] s = ([], s)"
| "terminal_calls (c # cs) s =
     (let (d, s1) = terminal_step c s; (ds, s2) = terminal_calls cs s1 in (d @ ds, s2))"

lemma poll_state_accounted:
  assumes "accounted out del s"
  shows "\<exists>bs. unread s = bs @ unread (snd (poll_state s)) \<and> accounted (out @ bs) del (snd (poll_state s))"
proof -
  obtain r s1 where c: "capture_loop 0 s = (r, s1)" by fastforce
  obtain w p where w: "pty_try_wait (ts_pty s1) = (w, p)" by fastforce
  have "snd (poll_state s) = s1 \<or> snd (poll_state s) = s1\<lparr>ts_pty := p\<rparr>"
    by (auto simp: poll_state_def c w Let_def split: sum.splits)
  then show ?thesis using capture_loop_accounted [OF c assms] pty_try_wait_reads [OF w] by auto
qed

lemma terminal_step_accounted:
  assumes "terminal_step c s = (d, s')" "accounted out del s"
  shows "\<exists>bs. unread s = bs @ unread s' \<and> accounted (out @ bs) (del @ d) s'"
proof (cases c)
  case (Call_Read n)
  obtain r s1 where "read_output n s = (r, s1)" by fastforce
  then show ?thesis using assms Call_Read read_output_accounted by fastforce
next
  case (Call_Write inp)
  have "\<exists>p. snd (write_input inp s) = s\<lparr>ts_pty := p\<rparr> \<and> py_reads p = py_reads (ts_pty s)"
    by (auto simp: write_input_def pty_write_all_def split: prod.splits intro: exI [of _ "ts_pty s"])
  then show ?thesis using assms Call_Write by (auto intro: exI [of _ "[]"])
next
  case Call_Poll
  then show ?thesis using assms poll_state_accounted by fastforce
next
  case Call_Close
  obtain r p where p: "pty_close (ts_pty s) = (r, p)" by fastforce
  then have c: "snd (session_close s) = s\<lparr>ts_pty := p\<rparr>" by (auto simp: session_close_def Let_def split: sum.splits)
  show ?thesis using assms Call_Close pty_close_reads [OF p] by (auto simp: c intro!: exI [of _ "[]"])
qed (use assms in \<open>auto intro: exI [of _ "[]"]\<close>)

lemma terminal_calls_accounted:
  assumes "terminal_calls cs s = (d, s')" "accounted out del s"
  shows "\<exists>bs. unread s = bs @ unread s' \<and> accounted (out @ bs) (del @ d) s'"
  using assms
proof (induction cs arbitrary: s d out del)
  case (Cons c cs)
  obtain d1 s1 where 1: "terminal_step c s = (d1, s1)" by fastforce
  obtain d2 s2 where 2: "terminal_calls cs s1 = (d2, s2)" by fastforce
  have e: "d = d1 @ d2" "s' = s2" using Cons.prems 1 2 by auto
  from terminal_step_accounted [OF 1 Cons.prems(2)] obtain b1 where
    b1: "unread s = b1 @ unread s1" "accounted (out @ b1) (del @ d1) s1" by blast
  from Cons.IH [OF 2 [folded e(2)] b1(2)] obtain b2 where
    "unread s1 = b2 @ unread s'" "accounted ((out @ b1) @ b2) ((del @ d1) @ d2) s'" by blast
  then show ?case using b1 e by (intro exI [of _ "b1 @ b2"]) auto
qed (auto intro: exI [of _ "[]"])

text \<open>C29: However a terminal is read, written, polled and closed: with \<open>out\<close> the output that the
  session took from the process, the transcript is exactly its last 64 KiB and counts the rest, and what the client
  has got, followed by what is pending, is a part of \<open>out\<close> in its order, with every missing byte
  counted. When nothing was dropped the client gets the output exactly.
\<close>

theorem terminal_output_accounted:
  assumes "terminal_calls cs (terminal_open p) = (got, s)"
  shows "\<exists>out. script_bytes (py_reads p) = out @ script_bytes (py_reads (ts_pty s)) \<and>
    bb_bytes (ts_transcript s) = drop (length out - 65536) out \<and>
    unat (bb_dropped_bytes (ts_transcript s)) = min (length out - 65536) (2 ^ 64 - 1) \<and>
    subseq (got @ bb_bytes (ts_pending_output s)) out \<and>
    unat (bb_dropped_bytes (ts_pending_output s)) =
      min (length out - (length got + length (bb_bytes (ts_pending_output s)))) (2 ^ 64 - 1) \<and>
    (bb_dropped_bytes (ts_pending_output s) = 0 \<longrightarrow> got @ bb_bytes (ts_pending_output s) = out)"
proof -
  have "accounted [] [] (terminal_open p)" by (simp add: accounted_def terminal_open_def)
  from terminal_calls_accounted [OF assms this] obtain out where
    u: "unread (terminal_open p) = out @ unread s" and a: "accounted out got s" by auto
  have "got @ bb_bytes (ts_pending_output s) = out" if z: "bb_dropped_bytes (ts_pending_output s) = 0"
  proof -
    have sub: "subseq (got @ bb_bytes (ts_pending_output s)) out" using a by (simp add: accounted_def)
    have "min (length out - (length got + length (bb_bytes (ts_pending_output s)))) (2 ^ 64 - 1) = 0"
      using a z unfolding accounted_def by (metis unat_0)
    then have "length out \<le> length (got @ bb_bytes (ts_pending_output s))" by (simp add: min_def split: if_splits)
    then show ?thesis using sub by (metis le_antisym list_emb_length subseq_same_length)
  qed
  then show ?thesis using u a
    by (intro exI [of _ out]) (simp add: accounted_def terminal_open_def MAX_TERMINAL_TRANSCRIPT_BYTES_def)
qed

definition sample_pty :: "read_event list \<Rightarrow> write_event list \<Rightarrow> pty_session" where
  "sample_pty rs ws =
     \<lparr>py_reads = rs, py_writes = ws, py_waits = [Wt_Running], py_resize_fails = False, py_hangup = Sg_Sent,
      py_grace_polls = 1, py_kill_fails = False, py_final_wait = Ok None, py_written = [], py_exit = None,
      py_close_requested = False\<rparr>"

lemma sample_calls:
  "terminal_calls [Call_Poll, Call_Read 2, Call_Read 2] (terminal_open (sample_pty [Rd_Bytes [1, 2, 3]] [])) =
     ([1, 2, 3], (terminal_open ((sample_pty [] [])\<lparr>py_waits := []\<rparr>))\<lparr>ts_transcript := \<lparr>bb_bytes = [1, 2, 3], bb_dropped_bytes = 0\<rparr>\<rparr>)"
  by (simp add: terminal_open_def sample_pty_def poll_state_def capture_loop.simps capture_limit_def pty_read_def
      MAX_TERMINAL_OUTPUT_BYTES_def MAX_TERMINAL_TRANSCRIPT_BYTES_def pending_push_def transcript_push_def
      bounded_push_def pty_try_wait_def read_output_def pending_take_def Let_def)

theorem terminal_output_accounted_witness:
  "\<exists>out. script_bytes [Rd_Bytes [1, 2, 3]] = out @ [] \<and> subseq ([1, 2, 3] @ []) out \<and> [1, 2, 3 :: u8] = out"
  using terminal_output_accounted [OF sample_calls]
  by (auto simp: terminal_open_def sample_pty_def script_bytes_def event_bytes_def)

section \<open>Failed writes\<close>

lemma write_script_prefix:
  assumes "write_script bs ws = (r, sent, ws')"
  shows "(r = Ok () \<longrightarrow> sent = bs) \<and> (is_ok r \<or> (\<exists>k < length bs. sent = take k bs))"
  using assms
proof (induction bs ws arbitrary: r sent ws' rule: write_script.induct)
  case (5 b bs n ws)
  show ?case
  proof (cases "n = 0")
    case True
    then show ?thesis using 5(2) by (auto intro: exI [of _ 0])
  next
    case False
    obtain r1 s1 ws1 where w: "write_script (drop n (b # bs)) ws = (r1, s1, ws1)" by (metis prod_cases3)
    have e: "r = r1" "sent = take n (b # bs) @ s1" using 5(2) False w by auto
    note ih = 5(1) [OF False w]
    show ?thesis
    proof (cases "is_ok r1")
      case True
      then show ?thesis using ih e by (auto simp: is_ok_unit)
    next
      case f: False
      then obtain k where k: "k < length (drop n (b # bs))" "s1 = take k (drop n (b # bs))" using ih by auto
      then have "sent = take (n + k) (b # bs)" "n + k < length (b # bs)" using e by (simp_all add: take_add)
      then show ?thesis using f e by auto
    qed
  qed
qed auto

text \<open>C38: The terminal is not blocking and \<open>write_all\<close> gives up when it is full. The failure is
  reported as one to try again, although the process may have received the first bytes: when the
  same input is then written with success the process has received those bytes twice. Every
  number of bytes that falls short of the input can be accepted that way.
\<close>

theorem failed_write_repeats_input:
  assumes "write_input inp s = (Err (Te_Write e), s1)" "write_input inp s1 = (Ok (), s2)"
  shows "(\<exists>k < length inp. py_written (ts_pty s2) = py_written (ts_pty s) @ take k inp @ inp) \<and>
    remote_error_retryable (map_terminal_error (Te_Write e) Op_Write) \<and>
    (\<forall>k. 0 < k \<and> k < length inp \<longrightarrow>
      write_script inp [Wr_Accept k] = (Err Io_WouldBlock, take k inp, []))"
proof -
  have small: "\<not> MAX_TERMINAL_INPUT_BYTES < length inp" using assms(1) by (auto simp: write_input_def split: if_splits)
  obtain r1 b1 w1 where w1: "write_script inp (py_writes (ts_pty s)) = (r1, b1, w1)" by (metis prod_cases3)
  obtain r2 b2 w2 where w2: "write_script inp (py_writes (ts_pty s1)) = (r2, b2, w2)" by (metis prod_cases3)
  have 1: "r1 = Err e" "py_written (ts_pty s1) = py_written (ts_pty s) @ b1"
    using assms(1) small w1 by (auto simp: write_input_def pty_write_all_def map_err_Err_iff)
  have 2: "r2 = Ok ()" "py_written (ts_pty s2) = py_written (ts_pty s1) @ b2"
    using assms(2) small w2 by (auto simp: write_input_def pty_write_all_def)
  have "write_script inp [Wr_Accept k] = (Err Io_WouldBlock, take k inp, [])" if k: "0 < k" "k < length inp" for k
  proof -
    obtain b bs where i: "inp = b # bs" using k by (cases inp) auto
    obtain c cs where "drop k inp = c # cs" using k by (cases "drop k inp") auto
    then show ?thesis using k i by simp
  qed
  then show ?thesis
    using write_script_prefix [OF w1] write_script_prefix [OF w2] 1 2
    by (auto simp: remote_error_retryable_def bridge_error_def)
qed

theorem failed_write_repeats_input_witness:
  "\<exists>k < 3. [7, 8, 7, 8, 9 :: u8] = take k [7, 8, 9] @ [7, 8, 9]"
proof -
  let ?s = "terminal_open (sample_pty [] [Wr_Accept 2, Wr_Error, Wr_Accept 4])"
  let ?s1 = "?s\<lparr>ts_pty := (ts_pty ?s)\<lparr>py_writes := [Wr_Accept 4], py_written := [7, 8]\<rparr>\<rparr>"
  let ?s2 = "?s\<lparr>ts_pty := (ts_pty ?s)\<lparr>py_writes := [], py_written := [7, 8, 7, 8, 9]\<rparr>\<rparr>"
  have "write_input [7, 8, 9] ?s = (Err (Te_Write Io_Other), ?s1)" "write_input [7, 8, 9] ?s1 = (Ok (), ?s2)"
    by (simp_all add: write_input_def pty_write_all_def terminal_open_def sample_pty_def MAX_TERMINAL_INPUT_BYTES_def)
  from failed_write_repeats_input [OF this, THEN conjunct1] obtain k where
    "k < length [7, 8, 9 :: u8]" "py_written (ts_pty ?s2) = py_written (ts_pty ?s) @ take k [7, 8, 9] @ [7, 8, 9]" by blast
  then show ?thesis by (intro exI [of _ k]) (simp add: terminal_open_def sample_pty_def)
qed

end
