(* ===== verification/Session_Contract.thy ===== *)
theory Session_Contract
  imports Remote_Core
begin

text \<open>
  Sessions of file servers (crates/remote-core/src/session.rs): the state of a connection and its
  transitions, directory queries and pages, the commands and results with their validation; and
  the way the FTP and the SMB adapter end a session (remote_core.rs of crates/remote-ftp, bridge.rs
  of crates/remote-smb). Shown: over any transitions a session follows the diagram with
  time going forward and can always be brought to its end; ending it under a clock that was set
  back works with SMB and fails with FTP.
\<close>

section \<open>States of a connection\<close>

datatype session_id = SessionId uuid

datatype connection_state_kind =
    Ck_Disconnected | Ck_Connecting | Ck_Authenticating | Ck_Ready | Ck_Degraded | Ck_Reconnecting
  | Ck_Closing | Ck_Unsupported | Ck_Unreachable

datatype connection_state =
    Conn_Disconnected | Conn_Connecting | Conn_Authenticating | Conn_Ready | Conn_Degraded safe_reason
  | Conn_Reconnecting u32 | Conn_Closing | Conn_Unsupported safe_reason | Conn_Unreachable safe_reason

fun connection_kind :: "connection_state \<Rightarrow> connection_state_kind" where
  "connection_kind Conn_Disconnected = Ck_Disconnected"
| "connection_kind Conn_Connecting = Ck_Connecting"
| "connection_kind Conn_Authenticating = Ck_Authenticating"
| "connection_kind Conn_Ready = Ck_Ready"
| "connection_kind (Conn_Degraded _) = Ck_Degraded"
| "connection_kind (Conn_Reconnecting _) = Ck_Reconnecting"
| "connection_kind Conn_Closing = Ck_Closing"
| "connection_kind (Conn_Unsupported _) = Ck_Unsupported"
| "connection_kind (Conn_Unreachable _) = Ck_Unreachable"

fun kind_edge :: "connection_state_kind \<Rightarrow> connection_state_kind \<Rightarrow> bool" where
  "kind_edge Ck_Disconnected Ck_Connecting = True"
| "kind_edge Ck_Connecting Ck_Authenticating = True"
| "kind_edge Ck_Connecting Ck_Ready = True"
| "kind_edge Ck_Connecting Ck_Degraded = True"
| "kind_edge Ck_Connecting Ck_Unsupported = True"
| "kind_edge Ck_Connecting Ck_Unreachable = True"
| "kind_edge Ck_Authenticating Ck_Ready = True"
| "kind_edge Ck_Authenticating Ck_Degraded = True"
| "kind_edge Ck_Authenticating Ck_Unreachable = True"
| "kind_edge Ck_Ready Ck_Degraded = True"
| "kind_edge Ck_Ready Ck_Reconnecting = True"
| "kind_edge Ck_Degraded Ck_Ready = True"
| "kind_edge Ck_Degraded Ck_Reconnecting = True"
| "kind_edge Ck_Reconnecting Ck_Connecting = True"
| "kind_edge Ck_Reconnecting Ck_Ready = True"
| "kind_edge Ck_Reconnecting Ck_Degraded = True"
| "kind_edge Ck_Reconnecting Ck_Unreachable = True"
| "kind_edge Ck_Unreachable Ck_Reconnecting = True"
| "kind_edge _ Ck_Closing = True"
| "kind_edge Ck_Closing Ck_Disconnected = True"
| "kind_edge Ck_Unsupported Ck_Disconnected = True"
| "kind_edge Ck_Unreachable Ck_Disconnected = True"
| "kind_edge _ _ = False"

definition can_transition_to :: "connection_state \<Rightarrow> connection_state \<Rightarrow> bool" where
  "can_transition_to s next =
     (connection_kind s = connection_kind next \<or> kind_edge (connection_kind s) (connection_kind next))"

record remote_session =
  rs_id :: session_id
  rs_profile_id :: profile_id
  rs_protocol :: remote_protocol
  rs_state :: connection_state
  rs_capabilities :: capability_matrix
  rs_opened_at_unix_ms :: i64
  rs_updated_at_unix_ms :: i64

datatype session_transition_error =
    InvalidTransition connection_state_kind connection_state_kind | TimestampRegressed

definition transition ::
  "connection_state \<Rightarrow> i64 \<Rightarrow> remote_session \<Rightarrow> (session_transition_error, bool) result \<times> remote_session" where
  "transition next at s =
     (if at < rs_updated_at_unix_ms s then (Err TimestampRegressed, s)
      else if \<not> can_transition_to (rs_state s) next
      then (Err (InvalidTransition (connection_kind (rs_state s)) (connection_kind next)), s)
      else if rs_state s = next then (Ok False, s)
      else (Ok True, s\<lparr>rs_state := next, rs_updated_at_unix_ms := at\<rparr>))"

section \<open>Directories, commands, results\<close>

datatype session_command_error = Sc_InvalidPageLimit | Sc_InvalidResult

definition MAX_REMOTE_DIRECTORY_PAGE_SIZE :: u8 where "MAX_REMOTE_DIRECTORY_PAGE_SIZE = 2"

record directory_query =
  dq_session_id :: session_id
  dq_path :: remote_path
  dq_offset :: u32
  dq_limit :: u8

definition directory_query_validate :: "directory_query \<Rightarrow> (session_command_error, unit) result" where
  "directory_query_validate q =
     (if dq_limit q = 0 \<or> MAX_REMOTE_DIRECTORY_PAGE_SIZE < dq_limit q then Err Sc_InvalidPageLimit else Ok ())"

record directory_page =
  dp_session_id :: session_id
  dp_path :: remote_path
  dp_offset :: u32
  dp_entries :: "remote_entry list"
  dp_next_offset :: "u32 option"

datatype session_command =
    Sess_Connect profile_id
  | Sess_Disconnect session_id
  | Sess_List directory_query
  | Sess_Stat session_id remote_path
  | Sess_CreateDirectory session_id remote_path
  | Sess_Rename session_id remote_path remote_path
  | Sess_Delete session_id remote_path

fun session_command_validate :: "session_command \<Rightarrow> (session_command_error, unit) result" where
  "session_command_validate (Sess_List q) = directory_query_validate q"
| "session_command_validate _ = Ok ()"

datatype session_result =
    SR_Session remote_session
  | SR_DirectoryPage directory_page
  | SR_Entry remote_entry
  | SR_Deleted session_id
  | SR_Disconnected session_id

definition u32_try_from :: "nat \<Rightarrow> u32 option" where
  "u32_try_from n = (if n < 2 ^ 32 then Some (of_nat n) else None)"

definition page_matches :: "directory_page \<Rightarrow> directory_query \<Rightarrow> bool" where
  "page_matches page q \<longleftrightarrow>
     dp_session_id page = dq_session_id q \<and> dp_path page = dq_path q \<and> dp_offset page = dq_offset q \<and>
     length (dp_entries page) \<le> unat (dq_limit q) \<and>
     is_none_or (dp_next_offset page) (\<lambda>next.
       next = saturating_add (dq_offset q) (case u32_try_from (length (dp_entries page)) of None \<Rightarrow> -1 | Some n \<Rightarrow> n))"

fun session_result_validate_for :: "session_result \<Rightarrow> session_command \<Rightarrow> (session_command_error, unit) result" where
  "session_result_validate_for (SR_Session s) (Sess_Connect p) =
     (if rs_profile_id s = p then Ok () else Err Sc_InvalidResult)"
| "session_result_validate_for (SR_Disconnected i) (Sess_Disconnect requested) =
     (if i = requested then Ok () else Err Sc_InvalidResult)"
| "session_result_validate_for (SR_DirectoryPage page) (Sess_List q) =
     and_then (directory_query_validate q) (\<lambda>_. if page_matches page q then Ok () else Err Sc_InvalidResult)"
| "session_result_validate_for (SR_Entry e) (Sess_Stat _ path) =
     (if ent_path e = path then Ok () else Err Sc_InvalidResult)"
| "session_result_validate_for (SR_Entry e) (Sess_CreateDirectory _ path) =
     (if ent_path e = path then Ok () else Err Sc_InvalidResult)"
| "session_result_validate_for (SR_Entry e) (Sess_Rename _ _ to) =
     (if ent_path e = to then Ok () else Err Sc_InvalidResult)"
| "session_result_validate_for (SR_Deleted i) (Sess_Delete requested _) =
     (if i = requested then Ok () else Err Sc_InvalidResult)"
| "session_result_validate_for _ _ = Err Sc_InvalidResult"

section \<open>The end of a session in the adapters\<close>

text \<open>What a disconnect changes: the snapshot and the pending writes, which the adapters keep in a map;
  the SMB adapter also gives up its client.\<close>

record 'w adapter_session =
  as_snapshot :: remote_session
  as_writes :: "'w list"
  as_client :: bool

text \<open>\<open>unix_time_ms\<close> of the FTP adapter fails for a clock before 1970: \<open>None\<close>. \<open>internal_state_error\<close> and the clock
  error are one value here. A lock poisoned by a panic, which the adapter reports as the same error, is left out.\<close>

datatype ftp_disconnect_error = Ftp_Clock | Ftp_InternalState

definition ftp_disconnect ::
  "i64 option \<Rightarrow> 'w adapter_session \<Rightarrow> (ftp_disconnect_error, unit) result \<times> 'w adapter_session" where
  "ftp_disconnect clock a =
     (case clock of
        None \<Rightarrow> (Err Ftp_Clock, a)
      | Some now \<Rightarrow>
          (case transition Conn_Closing now (as_snapshot a) of
             (Inl _, s) \<Rightarrow> (Err Ftp_InternalState, a\<lparr>as_snapshot := s\<rparr>)
           | (Inr _, s) \<Rightarrow>
               (case transition Conn_Disconnected now s of
                  (Inl _, s') \<Rightarrow> (Err Ftp_InternalState, a\<lparr>as_snapshot := s'\<rparr>)
                | (Inr _, s') \<Rightarrow> (Ok (), a\<lparr>as_snapshot := s', as_writes := []\<rparr>))))"

definition smb_disconnect ::
  "i64 \<Rightarrow> 'w adapter_session \<Rightarrow> (session_transition_error, unit) result \<times> 'w adapter_session" where
  "smb_disconnect clock a =
     (if rs_state (as_snapshot a) = Conn_Disconnected then (Ok (), a)
      else let now = max clock (rs_updated_at_unix_ms (as_snapshot a))
           in case transition Conn_Closing now (as_snapshot a) of
                (Inl e, s) \<Rightarrow> (Err e, a\<lparr>as_snapshot := s\<rparr>)
              | (Inr _, s) \<Rightarrow>
                  (case transition Conn_Disconnected now s of
                     (Inl e, s') \<Rightarrow> (Err e, a\<lparr>as_snapshot := s', as_client := False, as_writes := []\<rparr>)
                   | (Inr _, s') \<Rightarrow> (Ok (), a\<lparr>as_snapshot := s', as_client := False, as_writes := []\<rparr>)))"

section \<open>Laws\<close>

lemma kind_edge_closing: "kind_edge k Ck_Closing" by (cases k) auto

lemma can_close: "can_transition_to s Conn_Closing" by (simp add: can_transition_to_def kind_edge_closing)

lemma can_disconnect: "can_transition_to Conn_Closing Conn_Disconnected" by (simp add: can_transition_to_def)

text \<open>Any number of attempted transitions, at any times.\<close>

fun transitions :: "(connection_state \<times> i64) list \<Rightarrow> remote_session \<Rightarrow> remote_session list" where
  "transitions [] s = [s]"
| "transitions ((next, at) # ts) s = s # transitions ts (snd (transition next at s))"

lemma transition_follows:
  "transition next at s = (r, s') \<Longrightarrow> can_transition_to (rs_state s) (rs_state s') \<and>
     rs_updated_at_unix_ms s \<le> rs_updated_at_unix_ms s' \<and>
     s' = s\<lparr>rs_state := rs_state s', rs_updated_at_unix_ms := rs_updated_at_unix_ms s'\<rparr> \<and>
     (\<not> is_ok r \<longrightarrow> s' = s)"
  by (auto simp: transition_def can_transition_to_def split: if_splits)

lemma transitions_hd [simp]: "hd (transitions ts s) = s" "transitions ts s \<noteq> []"
  by (cases ts; auto)+

lemma ftp_disconnect_fails:
  assumes "now < rs_updated_at_unix_ms (as_snapshot a)"
  shows "ftp_disconnect (Some now) a = (Err Ftp_InternalState, a)"
  using assms by (simp add: ftp_disconnect_def transition_def)

lemma disconnect_transitions:
  assumes "rs_updated_at_unix_ms s \<le> now"
  shows "\<exists>b1 s1 b2 s2. transition Conn_Closing now s = (Ok b1, s1) \<and> transition Conn_Disconnected now s1 = (Ok b2, s2) \<and>
    rs_state s2 = Conn_Disconnected"
  using assms can_close [of "rs_state s"] can_disconnect by (cases "rs_state s = Conn_Closing") (simp_all add: transition_def, blast+)

section \<open>Properties\<close>

text \<open>
  Whatever transitions are attempted, every step follows an edge of the diagram or
  stays in the kind of state it is in, the time of the last update never goes back, the identity of the session
  stays, and a refused attempt changes nothing. From every state the session can be brought to
  its end by two transitions.
\<close>

theorem session_follows_diagram:
  "sorted_wrt (\<lambda>a b. rs_updated_at_unix_ms a \<le> rs_updated_at_unix_ms b) (transitions ts s) \<and>
   list_all (\<lambda>(a, b). can_transition_to (rs_state a) (rs_state b)) (zip (transitions ts s) (tl (transitions ts s))) \<and>
   list_all (\<lambda>a. rs_id a = rs_id s \<and> rs_profile_id a = rs_profile_id s \<and> rs_protocol a = rs_protocol s \<and>
     rs_capabilities a = rs_capabilities s \<and> rs_opened_at_unix_ms a = rs_opened_at_unix_ms s) (transitions ts s) \<and>
   (\<exists>at. rs_state (last (transitions (ts @ [(Conn_Closing, at), (Conn_Disconnected, at)]) s)) = Conn_Disconnected)"
proof (induction ts arbitrary: s)
  case Nil
  obtain s1 s2 b1 b2 where "transition Conn_Closing (rs_updated_at_unix_ms s) s = (Ok b1, s1)"
    "transition Conn_Disconnected (rs_updated_at_unix_ms s) s1 = (Ok b2, s2)" "rs_state s2 = Conn_Disconnected"
    using disconnect_transitions [of s "rs_updated_at_unix_ms s"] by (meson order_refl)
  then show ?case by (intro conjI exI [of _ "rs_updated_at_unix_ms s"]) auto
next
  case (Cons t ts)
  obtain next_state at where t: "t = (next_state, at)" by fastforce
  let ?s = "snd (transition next_state at s)"
  have f: "can_transition_to (rs_state s) (rs_state ?s)" "rs_updated_at_unix_ms s \<le> rs_updated_at_unix_ms ?s"
    using transition_follows [of next_state at s "fst (transition next_state at s)" ?s] by simp_all
  have id: "rs_id ?s = rs_id s" "rs_profile_id ?s = rs_profile_id s" "rs_protocol ?s = rs_protocol s"
    "rs_capabilities ?s = rs_capabilities s" "rs_opened_at_unix_ms ?s = rs_opened_at_unix_ms s"
    by (simp_all add: transition_def)
  obtain xs where xs: "transitions ts ?s = ?s # xs" by (cases ts) auto
  from Cons [of ?s] f id show ?case unfolding t by (auto simp: xs list.pred_set intro: order_trans)
qed

text \<open>C39: A session ends with SMB whatever the clock reads. With FTP it ends when the clock is not behind
  the last change of the session; behind it every attempt fails and leaves the session connected
  with its pending writes.
\<close>

theorem ftp_disconnect_needs_clock:
  "fst (smb_disconnect clock a) = Ok () \<and> rs_state (as_snapshot (snd (smb_disconnect clock a))) = Conn_Disconnected \<and>
   (fst (ftp_disconnect (Some clock) a) = Ok () \<longleftrightarrow> rs_updated_at_unix_ms (as_snapshot a) \<le> clock) \<and>
   (fst (ftp_disconnect (Some clock) a) = Ok () \<or> snd (ftp_disconnect (Some clock) a) = a)"
proof -
  let ?s = "as_snapshot a"
  obtain s1 s2 b1 b2 where smb: "transition Conn_Closing (max clock (rs_updated_at_unix_ms ?s)) ?s = (Ok b1, s1)"
    "transition Conn_Disconnected (max clock (rs_updated_at_unix_ms ?s)) s1 = (Ok b2, s2)" "rs_state s2 = Conn_Disconnected"
    using disconnect_transitions [of ?s "max clock (rs_updated_at_unix_ms ?s)"] by (meson max.cobounded2)
  have "fst (ftp_disconnect (Some clock) a) = Ok ()" if now: "rs_updated_at_unix_ms ?s \<le> clock"
  proof -
    obtain u1 u2 c1 c2 where "transition Conn_Closing clock ?s = (Ok c1, u1)" "transition Conn_Disconnected clock u1 = (Ok c2, u2)"
      using disconnect_transitions [OF now] by metis
    then show ?thesis by (simp add: ftp_disconnect_def)
  qed
  moreover have "ftp_disconnect (Some clock) a = (Err Ftp_InternalState, a)" if "clock < rs_updated_at_unix_ms ?s"
    using that by (rule ftp_disconnect_fails)
  ultimately show ?thesis using smb
    by (cases "rs_updated_at_unix_ms ?s \<le> clock") (auto simp: smb_disconnect_def Let_def)
qed

end
