(* ===== verification/Appd_Sessions.thy ===== *)
theory Appd_Sessions
  imports Profile_Store Terminal_Session Session_Contract "HOL-Library.AList"
begin

text \<open>
  The sessions of the daemon (bins/appd/src/remote.rs, \<open>session_command\<close>, \<open>terminal_command\<close> and
  what they use): the two tables of sessions, the permits that bound their number, the admission that
  a shutdown closes, the reapers that end idle sessions, and the commands. Every critical
  section under the locks is one operation on the registry, so that a sequence of operations is an
  interleaving of the tasks. The protocol adapters and their answers are parameters.
\<close>

section \<open>Leases\<close>

text \<open>Instants and durations in nanoseconds.\<close>

definition MAX_REMOTE_SESSIONS :: nat where "MAX_REMOTE_SESSIONS = 32"
definition REMOTE_SESSION_IDLE_TIMEOUT :: nat where "REMOTE_SESSION_IDLE_TIMEOUT = 15 * 60 * 10 ^ 9"
definition REMOTE_SESSION_MAX_LEASE :: nat where "REMOTE_SESSION_MAX_LEASE = 8 * 60 * 60 * 10 ^ 9"

definition session_expiry_wait :: "nat \<Rightarrow> nat \<Rightarrow> nat \<Rightarrow> nat" where
  "session_expiry_wait now opened_at last_activity =
     min (REMOTE_SESSION_MAX_LEASE - (now - opened_at)) (REMOTE_SESSION_IDLE_TIMEOUT - (now - last_activity))"

definition session_is_expired :: "nat \<Rightarrow> nat \<Rightarrow> nat \<Rightarrow> bool" where
  "session_is_expired now opened_at last_activity \<longleftrightarrow>
     REMOTE_SESSION_MAX_LEASE \<le> now - opened_at \<or> REMOTE_SESSION_IDLE_TIMEOUT \<le> now - last_activity"

section \<open>A table of sessions with its reapers\<close>

text \<open>\<open>FileSessionEntry\<close> and \<open>TerminalSessionEntry\<close> differ in the session they hold, and the functions on the two
  tables are the same code; a desk is one table with the tasks of its reapers. The permit and the sender
  that cancels the reaper belong to the entry.\<close>

record 's session_entry =
  en_session :: 's
  en_opened_at :: nat
  en_last_activity :: nat

datatype reaper_state = Rp_Check | Rp_Sleep nat | Rp_Remove

record 'k reaper =
  rp_key :: 'k
  rp_state :: reaper_state
  rp_cancelled :: bool

record ('k, 's) desk =
  dk_entries :: "('k \<times> 's session_entry) list"
  dk_reapers :: "'k reaper list"

definition desk_get :: "'k \<Rightarrow> ('k, 's) desk \<Rightarrow> 's session_entry option" where
  "desk_get k d = map_of (dk_entries d) k"

text \<open>The insert into a vacant place, and the reaper that is spawned for it. The code spawns the reaper
  right after it has released the lock of the table; as a reaper first of all looks up its entry and
  sleeps until the entry can have expired, whatever happens in between it finds as it does here.\<close>

definition desk_insert :: "'k \<Rightarrow> 's \<Rightarrow> nat \<Rightarrow> ('k, 's) desk \<Rightarrow> ('k, 's) desk" where
  "desk_insert k s now d =
     \<lparr>dk_entries = (k, \<lparr>en_session = s, en_opened_at = now, en_last_activity = now\<rparr>) # dk_entries d,
      dk_reapers = dk_reapers d @ [\<lparr>rp_key = k, rp_state = Rp_Check, rp_cancelled = False\<rparr>]\<rparr>"

definition cancel_key :: "'k \<Rightarrow> 'k reaper list \<Rightarrow> 'k reaper list" where
  "cancel_key k = map (\<lambda>rp. if rp_key rp = k then rp\<lparr>rp_cancelled := True\<rparr> else rp)"

definition desk_remove :: "'k \<Rightarrow> ('k, 's) desk \<Rightarrow> ('k, 's) desk" where
  "desk_remove k d = \<lparr>dk_entries = AList.delete k (dk_entries d), dk_reapers = cancel_key k (dk_reapers d)\<rparr>"

definition desk_touch :: "'k \<Rightarrow> nat \<Rightarrow> ('k, 's) desk \<Rightarrow> ('k, 's) desk" where
  "desk_touch k now d = d\<lparr>dk_entries := AList.map_entry k (\<lambda>e. e\<lparr>en_last_activity := now\<rparr>) (dk_entries d)\<rparr>"

text \<open>The session behind its \<open>Arc\<close> after a call on it.\<close>

definition desk_set_session :: "'k \<Rightarrow> 's \<Rightarrow> ('k, 's) desk \<Rightarrow> ('k, 's) desk" where
  "desk_set_session k s d = d\<lparr>dk_entries := AList.map_entry k (\<lambda>e. e\<lparr>en_session := s\<rparr>) (dk_entries d)\<rparr>"

definition desk_drain :: "('k, 's) desk \<Rightarrow> ('k, 's) desk" where
  "desk_drain d = \<lparr>dk_entries = [], dk_reapers = map (\<lambda>rp. rp\<lparr>rp_cancelled := True\<rparr>) (dk_reapers d)\<rparr>"

definition reaper_ends :: "nat \<Rightarrow> ('k, 's) desk \<Rightarrow> ('k, 's) desk" where
  "reaper_ends i d = d\<lparr>dk_reapers := take i (dk_reapers d) @ drop (Suc i) (dk_reapers d)\<rparr>"

definition reaper_goes :: "nat \<Rightarrow> reaper_state \<Rightarrow> ('k, 's) desk \<Rightarrow> ('k, 's) desk" where
  "reaper_goes i st d = d\<lparr>dk_reapers := (dk_reapers d)[i := (dk_reapers d ! i)\<lparr>rp_state := st\<rparr>]\<rparr>"

text \<open>One round of the \<open>i\<close>-th reaper at the time \<open>now\<close>: the look at the entry, the end of the sleep,
  and the removal of an entry that is still expired. A sleep can last longer than asked. True: an entry was removed and is to
  be closed.\<close>

definition desk_reap :: "nat \<Rightarrow> nat \<Rightarrow> ('k, 's) desk \<Rightarrow> bool \<times> ('k, 's) desk" where
  "desk_reap i now d =
     (if length (dk_reapers d) \<le> i then (False, d)
      else let rp = dk_reapers d ! i; entry = desk_get (rp_key rp) d
           in case rp_state rp of
                Rp_Check \<Rightarrow>
                  (case entry of
                     None \<Rightarrow> (False, reaper_ends i d)
                   | Some e \<Rightarrow>
                       let wait = session_expiry_wait now (en_opened_at e) (en_last_activity e)
                       in (False, reaper_goes i (if wait \<noteq> 0 then Rp_Sleep (now + wait) else Rp_Remove) d))
              | Rp_Sleep due \<Rightarrow> (False, if now < due then d else reaper_goes i Rp_Check d)
              | Rp_Remove \<Rightarrow>
                  if is_some_and entry (\<lambda>e. session_is_expired now (en_opened_at e) (en_last_activity e))
                  then (True, reaper_ends i (desk_remove (rp_key rp) d))
                  else (False, reaper_goes i Rp_Check d))"

text \<open>A sleeping reaper that sees its cancellation ends.\<close>

definition desk_cancel :: "nat \<Rightarrow> ('k, 's) desk \<Rightarrow> ('k, 's) desk" where
  "desk_cancel i d =
     (if i < length (dk_reapers d) \<and> rp_cancelled (dk_reapers d ! i) \<and>
        (case rp_state (dk_reapers d ! i) of Rp_Sleep _ \<Rightarrow> True | _ \<Rightarrow> False)
      then reaper_ends i d else d)"

section \<open>The registry\<close>

text \<open>Besides the two tables: the free permits of \<open>session_capacity\<close>, the permits of connections in
  progress and of the sessions of transfers, and those of sessions that are being closed.\<close>

record registry =
  rg_files :: "(session_id, remote_session) desk"
  rg_terminals :: "(terminal_session_id, terminal_session) desk"
  rg_free :: nat
  rg_capacity_closed :: bool
  rg_admission :: bool
  rg_holders :: nat
  rg_closing :: nat
  rg_now :: nat

definition registry_new :: registry where
  "registry_new =
     \<lparr>rg_files = \<lparr>dk_entries = [], dk_reapers = []\<rparr>, rg_terminals = \<lparr>dk_entries = [], dk_reapers = []\<rparr>,
      rg_free = MAX_REMOTE_SESSIONS, rg_capacity_closed = False, rg_admission = True, rg_holders = 0, rg_closing = 0, rg_now = 0\<rparr>"

definition remote_runtime_shutting_down :: runtime_error where
  "remote_runtime_shutting_down =
     runtime_error_new ''remote_session_unavailable'' ''remote_runtime_shutting_down'' False"

definition terminal_session_not_found :: runtime_error where
  "terminal_session_not_found = runtime_error_new ''terminal_session_not_found'' ''terminal_session_not_found'' False"

definition remote_session_not_found :: runtime_error where
  "remote_session_not_found = runtime_error_new ''remote_session_not_found'' ''remote_session_not_found'' False"

definition remote_worker_failed :: runtime_error where
  "remote_worker_failed = runtime_error_new ''remote_worker_failed'' ''remote_worker_failed'' True"

definition acquire_session_permit :: "registry \<Rightarrow> (runtime_error, unit) result \<times> registry" where
  "acquire_session_permit r =
     (if rg_capacity_closed r \<or> rg_free r = 0
      then (Err (runtime_error_new ''remote_session_busy'' ''remote_session_capacity_exceeded'' True), r)
      else (Ok (), r\<lparr>rg_free := rg_free r - 1, rg_holders := rg_holders r + 1\<rparr>))"

text \<open>A permit is dropped: by its holder, and at the end of the close of a session.\<close>

definition release_holder :: "registry \<Rightarrow> registry" where
  "release_holder r = (if rg_holders r = 0 then r else r\<lparr>rg_holders := rg_holders r - 1, rg_free := rg_free r + 1\<rparr>)"

definition finish_close :: "registry \<Rightarrow> registry" where
  "finish_close r = (if rg_closing r = 0 then r else r\<lparr>rg_closing := rg_closing r - 1, rg_free := rg_free r + 1\<rparr>)"

text \<open>The holder of a permit closes the session that it was for.\<close>

definition holder_closes :: "registry \<Rightarrow> registry" where
  "holder_closes r = r\<lparr>rg_holders := rg_holders r - 1, rg_closing := rg_closing r + 1\<rparr>"

definition session_snapshot_is_usable :: "remote_session \<Rightarrow> bool" where
  "session_snapshot_is_usable s \<longleftrightarrow>
     (case rs_state s of Conn_Ready \<Rightarrow> True | Conn_Degraded _ \<Rightarrow> True | _ \<Rightarrow> False) \<and>
     list_ex (\<lambda>c. cap_is_supported (oc_status c)) (matrix_entries (rs_capabilities s))"

text \<open>The critical section of the two functions that register a session, under the lock of the admission.\<close>

definition register_file_session :: "remote_session \<Rightarrow> registry \<Rightarrow> (runtime_error, remote_session) result \<times> registry" where
  "register_file_session snapshot r =
     (if \<not> session_snapshot_is_usable snapshot
      then (Err (runtime_error_new ''remote_unsupported'' ''remote_session_not_usable'' False), holder_closes r)
      else if \<not> rg_admission r then (Err remote_runtime_shutting_down, holder_closes r)
      else if desk_get (rs_id snapshot) (rg_files r) \<noteq> None
      then (Err (runtime_error_new ''remote_session_conflict'' ''remote_session_id_collision'' False), holder_closes r)
      else (Ok snapshot, r\<lparr>rg_files := desk_insert (rs_id snapshot) snapshot (rg_now r) (rg_files r), rg_holders := rg_holders r - 1\<rparr>))"

definition register_terminal_session ::
  "terminal_session_id \<Rightarrow> terminal_session \<Rightarrow> registry \<Rightarrow> (runtime_error, terminal_session_id) result \<times> registry" where
  "register_terminal_session i s r =
     (if \<not> rg_admission r then (Err remote_runtime_shutting_down, holder_closes r)
      else if desk_get i (rg_terminals r) \<noteq> None
      then (Err (runtime_error_new ''remote_session_conflict'' ''terminal_session_id_collision'' False), holder_closes r)
      else (Ok i, r\<lparr>rg_terminals := desk_insert i s (rg_now r) (rg_terminals r), rg_holders := rg_holders r - 1\<rparr>))"

text \<open>The entry that a disconnect or a close takes out of its table keeps its permit until it is closed.\<close>

definition take_file_session :: "session_id \<Rightarrow> registry \<Rightarrow> (runtime_error, remote_session) result \<times> registry" where
  "take_file_session i r =
     (case desk_get i (rg_files r) of
        None \<Rightarrow> (Err remote_session_not_found, r)
      | Some e \<Rightarrow> (Ok (en_session e), r\<lparr>rg_files := desk_remove i (rg_files r), rg_closing := rg_closing r + 1\<rparr>))"

definition take_terminal_session :: "terminal_session_id \<Rightarrow> registry \<Rightarrow> (runtime_error, terminal_session) result \<times> registry" where
  "take_terminal_session i r =
     (case desk_get i (rg_terminals r) of
        None \<Rightarrow> (Err terminal_session_not_found, r)
      | Some e \<Rightarrow> (Ok (en_session e), r\<lparr>rg_terminals := desk_remove i (rg_terminals r), rg_closing := rg_closing r + 1\<rparr>))"

definition file_session :: "session_id \<Rightarrow> registry \<Rightarrow> (runtime_error, remote_session) result \<times> registry" where
  "file_session i r =
     (case desk_get i (rg_files r) of
        None \<Rightarrow> (Err remote_session_not_found, r)
      | Some e \<Rightarrow> (Ok (en_session e), r\<lparr>rg_files := desk_touch i (rg_now r) (rg_files r)\<rparr>))"

definition terminal_session_of :: "terminal_session_id \<Rightarrow> registry \<Rightarrow> (runtime_error, terminal_session) result" where
  "terminal_session_of i r =
     (case desk_get i (rg_terminals r) of None \<Rightarrow> Err terminal_session_not_found | Some e \<Rightarrow> Ok (en_session e))"

definition active_terminal_session :: "terminal_session_id \<Rightarrow> registry \<Rightarrow> (runtime_error, terminal_session) result \<times> registry" where
  "active_terminal_session i r =
     (case desk_get i (rg_terminals r) of
        None \<Rightarrow> (Err terminal_session_not_found, r)
      | Some e \<Rightarrow> (Ok (en_session e), r\<lparr>rg_terminals := desk_touch i (rg_now r) (rg_terminals r)\<rparr>))"

definition close_session_admission :: "registry \<Rightarrow> registry" where
  "close_session_admission r = r\<lparr>rg_admission := False, rg_capacity_closed := True\<rparr>"

definition drain_files :: "registry \<Rightarrow> registry" where
  "drain_files r =
     r\<lparr>rg_files := desk_drain (rg_files r), rg_closing := rg_closing r + length (dk_entries (rg_files r))\<rparr>"

definition drain_terminals :: "registry \<Rightarrow> registry" where
  "drain_terminals r =
     r\<lparr>rg_terminals := desk_drain (rg_terminals r), rg_closing := rg_closing r + length (dk_entries (rg_terminals r))\<rparr>"

definition reap_file :: "nat \<Rightarrow> registry \<Rightarrow> registry" where
  "reap_file i r =
     (let (removed, d) = desk_reap i (rg_now r) (rg_files r)
      in r\<lparr>rg_files := d, rg_closing := rg_closing r + (if removed then 1 else 0)\<rparr>)"

definition reap_terminal :: "nat \<Rightarrow> registry \<Rightarrow> registry" where
  "reap_terminal i r =
     (let (removed, d) = desk_reap i (rg_now r) (rg_terminals r)
      in r\<lparr>rg_terminals := d, rg_closing := rg_closing r + (if removed then 1 else 0)\<rparr>)"

section \<open>Interleavings\<close>

text \<open>What the tasks of the daemon do to the registry, one critical section at a time, and the passing
  of time. A register step belongs to a connection that holds a permit.\<close>

datatype registry_event =
    Ev_Acquire
  | Ev_Release
  | Ev_RegisterFile remote_session
  | Ev_RegisterTerminal terminal_session_id terminal_session
  | Ev_TakeFile session_id
  | Ev_TakeTerminal terminal_session_id
  | Ev_UseFile session_id
  | Ev_UseTerminal terminal_session_id
  | Ev_FinishClose
  | Ev_ReapFile nat
  | Ev_ReapTerminal nat
  | Ev_CancelFile nat
  | Ev_CancelTerminal nat
  | Ev_CloseAdmission
  | Ev_DrainFiles
  | Ev_DrainTerminals
  | Ev_Elapse nat

fun registry_step :: "registry_event \<Rightarrow> registry \<Rightarrow> registry" where
  "registry_step Ev_Acquire r = snd (acquire_session_permit r)"
| "registry_step Ev_Release r = release_holder r"
| "registry_step (Ev_RegisterFile s) r = (if rg_holders r = 0 then r else snd (register_file_session s r))"
| "registry_step (Ev_RegisterTerminal i s) r = (if rg_holders r = 0 then r else snd (register_terminal_session i s r))"
| "registry_step (Ev_TakeFile i) r = snd (take_file_session i r)"
| "registry_step (Ev_TakeTerminal i) r = snd (take_terminal_session i r)"
| "registry_step (Ev_UseFile i) r = snd (file_session i r)"
| "registry_step (Ev_UseTerminal i) r = snd (active_terminal_session i r)"
| "registry_step Ev_FinishClose r = finish_close r"
| "registry_step (Ev_ReapFile n) r = reap_file n r"
| "registry_step (Ev_ReapTerminal n) r = reap_terminal n r"
| "registry_step (Ev_CancelFile n) r = r\<lparr>rg_files := desk_cancel n (rg_files r)\<rparr>"
| "registry_step (Ev_CancelTerminal n) r = r\<lparr>rg_terminals := desk_cancel n (rg_terminals r)\<rparr>"
| "registry_step Ev_CloseAdmission r = close_session_admission r"
| "registry_step Ev_DrainFiles r = drain_files r"
| "registry_step Ev_DrainTerminals r = drain_terminals r"
| "registry_step (Ev_Elapse n) r = r\<lparr>rg_now := rg_now r + n\<rparr>"

definition registry_run :: "registry_event list \<Rightarrow> registry \<Rightarrow> registry" where
  "registry_run es r = fold registry_step es r"

section \<open>Invariant\<close>

definition entry_expiry :: "'s session_entry \<Rightarrow> nat" where
  "entry_expiry e = min (en_opened_at e + REMOTE_SESSION_MAX_LEASE) (en_last_activity e + REMOTE_SESSION_IDLE_TIMEOUT)"

text \<open>Every entry is watched by a reaper that wakes up when the entry expires at the latest.\<close>

definition watches :: "'s session_entry \<Rightarrow> 'k reaper \<Rightarrow> bool" where
  "watches e rp \<longleftrightarrow> \<not> rp_cancelled rp \<and> (case rp_state rp of Rp_Sleep due \<Rightarrow> due \<le> entry_expiry e | _ \<Rightarrow> True)"

definition desk_ok :: "nat \<Rightarrow> ('k, 's) desk \<Rightarrow> bool" where
  "desk_ok now d \<longleftrightarrow> distinct (map fst (dk_entries d)) \<and>
     (\<forall>k e. desk_get k d = Some e \<longrightarrow> en_opened_at e \<le> now \<and> en_last_activity e \<le> now \<and>
       (\<exists>rp \<in> set (dk_reapers d). rp_key rp = k \<and> watches e rp))"

definition registry_ok :: "registry \<Rightarrow> bool" where
  "registry_ok r \<longleftrightarrow> desk_ok (rg_now r) (rg_files r) \<and> desk_ok (rg_now r) (rg_terminals r) \<and>
     rg_free r + rg_holders r + rg_closing r + length (dk_entries (rg_files r)) + length (dk_entries (rg_terminals r)) =
       MAX_REMOTE_SESSIONS"

lemma desk_okI:
  assumes "distinct (map fst (dk_entries d))"
    and "\<And>k e. desk_get k d = Some e \<Longrightarrow> en_opened_at e \<le> now \<and> en_last_activity e \<le> now \<and>
       (\<exists>rp \<in> set (dk_reapers d). rp_key rp = k \<and> watches e rp)"
  shows "desk_ok now d"
  using assms by (auto simp: desk_ok_def)

lemma desk_okD:
  assumes "desk_ok now d" "desk_get k d = Some e"
  shows "en_opened_at e \<le> now" "en_last_activity e \<le> now" "\<exists>rp \<in> set (dk_reapers d). rp_key rp = k \<and> watches e rp"
  using assms by (auto simp: desk_ok_def)

lemma desk_ok_later: "desk_ok now d \<Longrightarrow> now \<le> now' \<Longrightarrow> desk_ok now' d"
  by (fastforce simp: desk_ok_def intro: order_trans)

lemma desk_get_insert: "desk_get k' (desk_insert k s now d) =
    (if k' = k then Some \<lparr>en_session = s, en_opened_at = now, en_last_activity = now\<rparr> else desk_get k' d)"
  by (simp add: desk_get_def desk_insert_def)

lemma desk_insert_ok:
  assumes "desk_ok now d" "desk_get k d = None"
  shows "desk_ok now (desk_insert k s now d)"
proof (rule desk_okI)
  show "distinct (map fst (dk_entries (desk_insert k s now d)))"
    using assms by (auto simp: desk_ok_def desk_insert_def desk_get_def map_of_eq_None_iff)
next
  fix k' e assume "desk_get k' (desk_insert k s now d) = Some e"
  then show "en_opened_at e \<le> now \<and> en_last_activity e \<le> now \<and>
      (\<exists>rp \<in> set (dk_reapers (desk_insert k s now d)). rp_key rp = k' \<and> watches e rp)"
    using desk_okD [OF assms(1)]
    by (auto simp: desk_get_insert split: if_splits) (auto simp: desk_insert_def watches_def)
qed

lemma desk_get_remove: "desk_get k' (desk_remove k d) = (if k' = k then None else desk_get k' d)"
  by (simp add: desk_get_def desk_remove_def delete_conv')

lemma desk_remove_ok:
  assumes "desk_ok now d"
  shows "desk_ok now (desk_remove k d)"
proof (rule desk_okI)
  show "distinct (map fst (dk_entries (desk_remove k d)))"
    using assms by (simp add: desk_ok_def desk_remove_def distinct_delete)
next
  fix k' e assume "desk_get k' (desk_remove k d) = Some e"
  then have k: "k' \<noteq> k" "desk_get k' d = Some e" by (auto simp: desk_get_remove split: if_splits)
  then obtain rp where "rp \<in> set (dk_reapers d)" "rp_key rp = k'" "watches e rp" using desk_okD [OF assms] by blast
  then have "rp \<in> set (dk_reapers (desk_remove k d))" using k by (force simp: desk_remove_def cancel_key_def)
  then show "en_opened_at e \<le> now \<and> en_last_activity e \<le> now \<and>
      (\<exists>rp \<in> set (dk_reapers (desk_remove k d)). rp_key rp = k' \<and> watches e rp)"
    using desk_okD [OF assms k(2)] \<open>rp_key rp = k'\<close> \<open>watches e rp\<close> by blast
qed

lemma length_delete:
  "distinct (map fst xs) \<Longrightarrow> k \<in> fst ` set xs \<Longrightarrow> length xs = Suc (length (AList.delete k xs))"
proof (induction xs)
  case (Cons x xs)
  show ?case
  proof (cases "fst x = k")
    case True
    then have "k \<notin> fst ` set xs" using Cons.prems(1) by auto
    then have "AList.delete k xs = xs" by (rule delete_id)
    then show ?thesis using True by (cases x) simp
  qed (use Cons in \<open>cases x, auto\<close>)
qed simp

lemma desk_remove_length:
  assumes "desk_ok now d" "desk_get k d = Some e"
  shows "length (dk_entries d) = Suc (length (dk_entries (desk_remove k d)))"
proof -
  have "k \<in> fst ` set (dk_entries d)" using assms(2) by (force simp: desk_get_def dest: map_of_SomeD)
  moreover have "distinct (map fst (dk_entries d))" using assms(1) by (simp add: desk_ok_def)
  ultimately show ?thesis by (simp add: desk_remove_def length_delete)
qed

lemma map_entry_get: "map_of (AList.map_entry k f xs) k' = (if k' = k then map_option f (map_of xs k') else map_of xs k')"
  by (induction xs) auto

text \<open>A change of entries that keeps the keys and does not bring an expiry forward.\<close>

lemma desk_map_entry_ok:
  assumes "desk_ok now d"
    and "\<And>e. desk_get k d = Some e \<Longrightarrow> en_opened_at (f e) \<le> now \<and> en_last_activity (f e) \<le> now \<and> entry_expiry e \<le> entry_expiry (f e)"
  shows "desk_ok now (d\<lparr>dk_entries := AList.map_entry k f (dk_entries d)\<rparr>)"
proof (rule desk_okI)
  show "distinct (map fst (dk_entries (d\<lparr>dk_entries := AList.map_entry k f (dk_entries d)\<rparr>)))"
    using assms(1) by (simp add: desk_ok_def distinct_map_entry)
next
  fix k' e assume e: "desk_get k' (d\<lparr>dk_entries := AList.map_entry k f (dk_entries d)\<rparr>) = Some e"
  then obtain e0 where e0: "desk_get k' d = Some e0" "e = (if k' = k then f e0 else e0)"
    by (auto simp: desk_get_def map_entry_get split: if_splits)
  then have *: "en_opened_at e \<le> now \<and> en_last_activity e \<le> now \<and> entry_expiry e0 \<le> entry_expiry e"
    using assms(2) desk_okD [OF assms(1) e0(1)] by auto
  then show "en_opened_at e \<le> now \<and> en_last_activity e \<le> now \<and>
      (\<exists>rp \<in> set (dk_reapers (d\<lparr>dk_entries := AList.map_entry k f (dk_entries d)\<rparr>)). rp_key rp = k' \<and> watches e rp)"
    using desk_okD(3) [OF assms(1) e0(1)] by (fastforce simp: watches_def split: reaper_state.splits)
qed

lemma length_map_entry: "length (AList.map_entry k f xs) = length xs"
  by (induction xs) auto

lemma desk_touch_ok: "desk_ok now d \<Longrightarrow> desk_ok now (desk_touch k now d)"
  unfolding desk_touch_def by (rule desk_map_entry_ok) (auto dest: desk_okD simp: entry_expiry_def)

lemma desk_set_session_ok: "desk_ok now d \<Longrightarrow> desk_ok now (desk_set_session k s d)"
  unfolding desk_set_session_def by (rule desk_map_entry_ok) (auto dest: desk_okD simp: entry_expiry_def)

text \<open>The step of a reaper, as far as the entries are concerned, and what it leaves of the watches.\<close>

lemma desk_ok_reapers:
  assumes ok: "desk_ok now d"
    and "\<And>k e rp. desk_get k d = Some e \<Longrightarrow> rp \<in> set (dk_reapers d) \<Longrightarrow> rp_key rp = k \<Longrightarrow> watches e rp \<Longrightarrow>
      \<exists>rp' \<in> set rs. rp_key rp' = k \<and> watches e rp'"
  shows "desk_ok now (d\<lparr>dk_reapers := rs\<rparr>)"
proof (rule desk_okI)
  fix k e assume "desk_get k (d\<lparr>dk_reapers := rs\<rparr>) = Some e"
  then have "desk_get k d = Some e" by (simp add: desk_get_def)
  then show "en_opened_at e \<le> now \<and> en_last_activity e \<le> now \<and>
      (\<exists>rp \<in> set (dk_reapers (d\<lparr>dk_reapers := rs\<rparr>)). rp_key rp = k \<and> watches e rp)"
    using desk_okD [OF ok] assms(2) by (metis desk.select_convs(2) desk.surjective desk.update_convs(2))
qed (use ok in \<open>simp add: desk_ok_def\<close>)

lemma reaper_goes_ok:
  assumes "desk_ok now d" "i < length (dk_reapers d)"
    and "\<And>e. desk_get (rp_key (dk_reapers d ! i)) d = Some e \<Longrightarrow>
      (case st of Rp_Sleep due \<Rightarrow> due \<le> entry_expiry e | _ \<Rightarrow> True)"
  shows "desk_ok now (reaper_goes i st d)"
  unfolding reaper_goes_def
proof (rule desk_ok_reapers [OF assms(1)])
  fix k e rp assume e: "desk_get k d = Some e" and rp: "rp \<in> set (dk_reapers d)" "rp_key rp = k" "watches e rp"
  let ?new = "(dk_reapers d ! i)\<lparr>rp_state := st\<rparr>" and ?rs = "(dk_reapers d)[i := (dk_reapers d ! i)\<lparr>rp_state := st\<rparr>]"
  have new: "?new \<in> set ?rs" using assms(2) by (simp add: set_update_memI)
  show "\<exists>rp' \<in> set ?rs. rp_key rp' = k \<and> watches e rp'"
  proof (cases "rp = dk_reapers d ! i")
    case True
    then have "rp_key ?new = k" "watches e ?new" using rp e assms(3) by (auto simp: watches_def)
    then show ?thesis using new by blast
  next
    case False
    then obtain j where "j < length (dk_reapers d)" "j \<noteq> i" "dk_reapers d ! j = rp" using rp(1) by (metis in_set_conv_nth)
    then have "rp \<in> set ?rs" by (metis length_list_update nth_list_update_neq nth_mem)
    then show ?thesis using rp by blast
  qed
qed

lemma reaper_ends_ok:
  assumes "desk_ok now d" "i < length (dk_reapers d)"
    and "desk_get (rp_key (dk_reapers d ! i)) d = None \<or> rp_cancelled (dk_reapers d ! i)"
  shows "desk_ok now (reaper_ends i d)"
  unfolding reaper_ends_def
proof (rule desk_ok_reapers [OF assms(1)])
  fix k e rp assume e: "desk_get k d = Some e" and rp: "rp \<in> set (dk_reapers d)" "rp_key rp = k" "watches e rp"
  have "rp \<noteq> dk_reapers d ! i" using assms(3) e rp by (auto simp: watches_def)
  moreover have "dk_reapers d = take i (dk_reapers d) @ dk_reapers d ! i # drop (Suc i) (dk_reapers d)"
    using assms(2) by (rule id_take_nth_drop)
  then have "set (dk_reapers d) = insert (dk_reapers d ! i) (set (take i (dk_reapers d) @ drop (Suc i) (dk_reapers d)))"
    by (metis Un_insert_right list.simps(15) set_append)
  ultimately have "rp \<in> set (take i (dk_reapers d) @ drop (Suc i) (dk_reapers d))" using rp(1) by blast
  then show "\<exists>rp' \<in> set (take i (dk_reapers d) @ drop (Suc i) (dk_reapers d)). rp_key rp' = k \<and> watches e rp'" using rp by blast
qed

lemma expiry_wait:
  assumes "en_opened_at e \<le> now" "en_last_activity e \<le> now"
  shows "session_expiry_wait now (en_opened_at e) (en_last_activity e) \<noteq> 0 \<Longrightarrow>
      now + session_expiry_wait now (en_opened_at e) (en_last_activity e) = entry_expiry e"
    and "session_expiry_wait now (en_opened_at e) (en_last_activity e) = 0 \<longleftrightarrow> entry_expiry e \<le> now"
    and "session_is_expired now (en_opened_at e) (en_last_activity e) \<longleftrightarrow> entry_expiry e \<le> now"
  using assms unfolding session_expiry_wait_def session_is_expired_def entry_expiry_def min_def by auto

lemma desk_remove_reapers: "length (dk_reapers (desk_remove k d)) = length (dk_reapers d)"
  "i < length (dk_reapers d) \<Longrightarrow> rp_key (dk_reapers (desk_remove k d) ! i) = rp_key (dk_reapers d ! i)"
  by (auto simp: desk_remove_def cancel_key_def)

lemma reaper_entries [simp]: "dk_entries (reaper_goes i st d) = dk_entries d" "dk_entries (reaper_ends i d) = dk_entries d"
  by (simp_all add: reaper_goes_def reaper_ends_def)

lemma desk_get_entries: "dk_entries d' = dk_entries d \<Longrightarrow> desk_get k d' = desk_get k d"
  by (simp add: desk_get_def)

lemma reap_remove_ok:
  assumes ok: "desk_ok now d" and i: "i < length (dk_reapers d)" and k: "rp_key (dk_reapers d ! i) = k"
  shows "desk_ok now (reaper_ends i (desk_remove k d))"
proof (rule reaper_ends_ok [OF desk_remove_ok [OF ok]])
  show "i < length (dk_reapers (desk_remove k d))" using i by (simp add: desk_remove_reapers)
  have "rp_key (dk_reapers (desk_remove k d) ! i) = k" using i k by (simp add: desk_remove_reapers)
  then show "desk_get (rp_key (dk_reapers (desk_remove k d) ! i)) (desk_remove k d) = None \<or>
      rp_cancelled (dk_reapers (desk_remove k d) ! i)" by (simp add: desk_get_remove)
qed

lemma desk_reap_ok:
  assumes ok: "desk_ok now d" and step: "desk_reap i now d = (removed, d')"
  shows "desk_ok now d'" and "length (dk_entries d) = length (dk_entries d') + (if removed then 1 else 0)"
    and "\<And>k e. desk_get k d = Some e \<Longrightarrow> desk_get k d' \<noteq> Some e \<Longrightarrow> removed \<and> entry_expiry e \<le> now \<and> desk_get k d' = None"
    and "\<And>k. desk_get k d = None \<Longrightarrow> desk_get k d' = None"
proof -
  let ?rp = "dk_reapers d ! i"
  have "desk_ok now d' \<and> length (dk_entries d) = length (dk_entries d') + (if removed then 1 else 0) \<and>
    (\<forall>k e. desk_get k d = Some e \<longrightarrow> desk_get k d' \<noteq> Some e \<longrightarrow> removed \<and> entry_expiry e \<le> now \<and> desk_get k d' = None) \<and>
    (\<forall>k. desk_get k d = None \<longrightarrow> desk_get k d' = None)"
  proof (cases "i < length (dk_reapers d)")
    case False
    then have "removed = False \<and> d' = d" using step by (simp add: desk_reap_def)
    then show ?thesis using ok by simp
  next
    case i: True
    have same: ?thesis if "desk_ok now d'" "dk_entries d' = dk_entries d" "\<not> removed"
      using that by (simp add: desk_get_entries [OF that(2)])
    show ?thesis
    proof (cases "rp_state ?rp")
      case Rp_Check
      show ?thesis
      proof (cases "desk_get (rp_key ?rp) d")
        case None
        then have "d' = reaper_ends i d" "\<not> removed" using step i Rp_Check by (auto simp: desk_reap_def Let_def)
        then show ?thesis using same reaper_ends_ok [OF ok i] None by simp
      next
        case (Some e)
        let ?w = "session_expiry_wait now (en_opened_at e) (en_last_activity e)"
        have d': "d' = reaper_goes i (if ?w \<noteq> 0 then Rp_Sleep (now + ?w) else Rp_Remove) d" "\<not> removed"
          using step i Rp_Check Some by (auto simp: desk_reap_def Let_def)
        have "desk_ok now d'" unfolding d'
          using Some expiry_wait(1) [OF desk_okD(1,2) [OF ok Some]] by (intro reaper_goes_ok [OF ok i]) auto
        then show ?thesis using same d' by simp
      qed
    next
      case (Rp_Sleep due)
      then have d': "d' = (if now < due then d else reaper_goes i Rp_Check d)" "\<not> removed"
        using step i by (auto simp: desk_reap_def Let_def)
      have "desk_ok now (reaper_goes i Rp_Check d)" using reaper_goes_ok [OF ok i] by simp
      then show ?thesis using same d' ok by auto
    next
      case Rp_Remove
      show ?thesis
      proof (cases "is_some_and (desk_get (rp_key ?rp) d) (\<lambda>e. session_is_expired now (en_opened_at e) (en_last_activity e))")
        case False
        then have "d' = reaper_goes i Rp_Check d" "\<not> removed" using step i Rp_Remove by (auto simp: desk_reap_def Let_def)
        then show ?thesis using same reaper_goes_ok [OF ok i] by simp
      next
        case True
        then obtain e where e: "desk_get (rp_key ?rp) d = Some e" "session_is_expired now (en_opened_at e) (en_last_activity e)"
          by (cases "desk_get (rp_key ?rp) d") auto
        have d': "d' = reaper_ends i (desk_remove (rp_key ?rp) d)" "removed"
          using step i Rp_Remove True by (auto simp: desk_reap_def Let_def)
        have get: "desk_get k d' = (if k = rp_key ?rp then None else desk_get k d)" for k
          using d'(1) desk_get_entries [of d' "desk_remove (rp_key ?rp) d"] by (simp add: desk_get_remove)
        have "entry_expiry e \<le> now" using e expiry_wait(3) [OF desk_okD(1,2) [OF ok e(1)]] by simp
        then show ?thesis using d' get e reap_remove_ok [OF ok i refl] desk_remove_length [OF ok e(1)] by auto
      qed
    qed
  qed
  then show "desk_ok now d'" "length (dk_entries d) = length (dk_entries d') + (if removed then 1 else 0)"
    "\<And>k e. desk_get k d = Some e \<Longrightarrow> desk_get k d' \<noteq> Some e \<Longrightarrow> removed \<and> entry_expiry e \<le> now \<and> desk_get k d' = None"
    "\<And>k. desk_get k d = None \<Longrightarrow> desk_get k d' = None" by blast+
qed

lemma desk_cancel_ok: "desk_ok now d \<Longrightarrow> desk_ok now (desk_cancel i d)"
  by (auto simp: desk_cancel_def intro: reaper_ends_ok)

lemma desk_cancel_entries [simp]: "dk_entries (desk_cancel i d) = dk_entries d"
  by (simp add: desk_cancel_def)

lemma desk_drain_ok: "desk_ok now (desk_drain d)"
  by (simp add: desk_ok_def desk_drain_def desk_get_def)

section \<open>The number of sessions\<close>

lemma registry_new_ok: "registry_ok registry_new"
  by (simp add: registry_ok_def registry_new_def desk_ok_def desk_get_def)

lemmas registry_defs = acquire_session_permit_def release_holder_def finish_close_def holder_closes_def
  register_file_session_def register_terminal_session_def take_file_session_def take_terminal_session_def
  file_session_def active_terminal_session_def close_session_admission_def drain_files_def drain_terminals_def

lemma registry_step_ok:
  assumes "registry_ok r"
  shows "registry_ok (registry_step ev r)"
proof (cases ev)
  case (Ev_RegisterFile s)
  then show ?thesis using assms by (auto simp: registry_ok_def registry_defs desk_insert_ok) (simp_all add: desk_insert_def)
next
  case (Ev_RegisterTerminal i s)
  then show ?thesis using assms by (auto simp: registry_ok_def registry_defs desk_insert_ok) (simp_all add: desk_insert_def)
next
  case (Ev_TakeFile i)
  then show ?thesis using assms desk_remove_length [of "rg_now r" "rg_files r" i]
    by (auto simp: registry_ok_def registry_defs desk_remove_ok split: option.splits)
next
  case (Ev_TakeTerminal i)
  then show ?thesis using assms desk_remove_length [of "rg_now r" "rg_terminals r" i]
    by (auto simp: registry_ok_def registry_defs desk_remove_ok split: option.splits)
next
  case (Ev_UseFile i)
  then show ?thesis using assms
    by (auto simp: registry_ok_def registry_defs desk_touch_ok split: option.splits) (simp add: desk_touch_def length_map_entry)
next
  case (Ev_UseTerminal i)
  then show ?thesis using assms
    by (auto simp: registry_ok_def registry_defs desk_touch_ok split: option.splits) (simp add: desk_touch_def length_map_entry)
next
  case (Ev_ReapFile n)
  obtain b d where d: "desk_reap n (rg_now r) (rg_files r) = (b, d)" by fastforce
  then show ?thesis using assms Ev_ReapFile desk_reap_ok [OF _ d] by (simp add: registry_ok_def reap_file_def)
next
  case (Ev_ReapTerminal n)
  obtain b d where d: "desk_reap n (rg_now r) (rg_terminals r) = (b, d)" by fastforce
  then show ?thesis using assms Ev_ReapTerminal desk_reap_ok [OF _ d] by (simp add: registry_ok_def reap_terminal_def)
next
  case (Ev_Elapse n)
  then show ?thesis using assms by (simp add: registry_ok_def desk_ok_later [of "rg_now r"])
qed (use assms in \<open>auto simp: registry_ok_def registry_defs desk_cancel_ok desk_drain_ok, auto simp: desk_drain_def\<close>)

lemma registry_run_ok: "registry_ok r \<Longrightarrow> registry_ok (registry_run es r)"
  by (induction es arbitrary: r) (simp_all add: registry_run_def registry_step_ok)

text \<open>C26: However the tasks interleave, there are never more than 32 sessions, counting those that are
  being opened, that transfers use and that are being closed; no permit is lost: when nobody
  holds one, all 32 are free.
\<close>

theorem session_capacity_kept:
  "length (dk_entries (rg_files (registry_run es registry_new))) +
   length (dk_entries (rg_terminals (registry_run es registry_new))) +
   rg_holders (registry_run es registry_new) + rg_closing (registry_run es registry_new) +
   rg_free (registry_run es registry_new) = 32"
  using registry_run_ok [OF registry_new_ok, of es] by (simp add: registry_ok_def MAX_REMOTE_SESSIONS_def)

section \<open>Idle sessions\<close>

fun reap_rounds :: "nat \<Rightarrow> nat \<Rightarrow> nat \<Rightarrow> ('k, 's) desk \<Rightarrow> ('k, 's) desk" where
  "reap_rounds 0 i now d = d"
| "reap_rounds (Suc n) i now d = reap_rounds n i now (snd (desk_reap i now d))"

lemma expired_entry_reaped:
  assumes ok: "desk_ok now d" and e: "desk_get k d = Some e" and x: "entry_expiry e \<le> now"
  shows "\<exists>i n. n \<le> 3 \<and> desk_get k (reap_rounds n i now d) = None"
proof -
  obtain i where i: "i < length (dk_reapers d)" "rp_key (dk_reapers d ! i) = k" "watches e (dk_reapers d ! i)"
    using desk_okD(3) [OF ok e] by (metis in_set_conv_nth)
  note t = desk_okD(1,2) [OF ok e]
  have ex: "session_is_expired now (en_opened_at e) (en_last_activity e)"
    "session_expiry_wait now (en_opened_at e) (en_last_activity e) = 0"
    using x expiry_wait [OF t] by auto
  have remove: "desk_get k (snd (desk_reap i now d')) = None"
    if "i < length (dk_reapers d')" "rp_key (dk_reapers d' ! i) = k" "rp_state (dk_reapers d' ! i) = Rp_Remove" "dk_entries d' = dk_entries d" for d'
    using that e ex by (simp add: desk_reap_def Let_def desk_get_def desk_remove_def reaper_ends_def delete_conv')
  have check: "desk_get k (snd (desk_reap i now (snd (desk_reap i now d')))) = None"
    if c: "i < length (dk_reapers d')" "rp_key (dk_reapers d' ! i) = k" "rp_state (dk_reapers d' ! i) = Rp_Check" "dk_entries d' = dk_entries d" for d'
  proof -
    have "snd (desk_reap i now d') = reaper_goes i Rp_Remove d'" using c e ex by (simp add: desk_reap_def Let_def desk_get_def)
    then show ?thesis using c remove [of "reaper_goes i Rp_Remove d'"] by (simp add: reaper_goes_def)
  qed
  show ?thesis
  proof (cases "rp_state (dk_reapers d ! i)")
    case Rp_Check
    then show ?thesis using check [OF i(1,2)] by (intro exI [of _ i] exI [of _ 2]) (simp add: numeral_2_eq_2)
  next
    case (Rp_Sleep due)
    then have "\<not> now < due" using i(3) x by (simp add: watches_def)
    then have "snd (desk_reap i now d) = reaper_goes i Rp_Check d" using i Rp_Sleep by (simp add: desk_reap_def Let_def)
    then show ?thesis using check [of "reaper_goes i Rp_Check d"] i
      by (intro exI [of _ i] exI [of _ 3]) (simp add: numeral_3_eq_3 reaper_goes_def)
  next
    case Rp_Remove
    then show ?thesis using remove [OF i(1,2)] by (intro exI [of _ i] exI [of _ 1]) simp
  qed
qed

lemma reap_file_rounds:
  "rg_files (registry_run (replicate n (Ev_ReapFile i)) r) = reap_rounds n i (rg_now r) (rg_files r)"
  by (induction n arbitrary: r) (simp_all add: registry_run_def reap_file_def split_def Let_def)

lemma reap_terminal_rounds:
  "rg_terminals (registry_run (replicate n (Ev_ReapTerminal i)) r) = reap_rounds n i (rg_now r) (rg_terminals r)"
  by (induction n arbitrary: r) (simp_all add: registry_run_def reap_terminal_def split_def Let_def)

text \<open>C27: Whatever happened before: a session that was idle for 15 minutes or open for 8 hours has a reaper that
  takes it away in at most three rounds, as soon as that task runs.
\<close>

theorem idle_sessions_reaped:
  assumes "r = registry_run es registry_new"
  shows "(\<forall>k e. desk_get k (rg_files r) = Some e \<longrightarrow> session_is_expired (rg_now r) (en_opened_at e) (en_last_activity e) \<longrightarrow>
      (\<exists>i n. n \<le> 3 \<and> desk_get k (rg_files (registry_run (replicate n (Ev_ReapFile i)) r)) = None)) \<and>
    (\<forall>k e. desk_get k (rg_terminals r) = Some e \<longrightarrow> session_is_expired (rg_now r) (en_opened_at e) (en_last_activity e) \<longrightarrow>
      (\<exists>i n. n \<le> 3 \<and> desk_get k (rg_terminals (registry_run (replicate n (Ev_ReapTerminal i)) r)) = None))"
proof -
  have ok: "desk_ok (rg_now r) (rg_files r)" "desk_ok (rg_now r) (rg_terminals r)"
    using registry_run_ok [OF registry_new_ok, of es] assms by (simp_all add: registry_ok_def)
  show ?thesis
    using expired_entry_reaped [OF ok(1)] expired_entry_reaped [OF ok(2)]
      expiry_wait(3) [OF desk_okD(1,2) [OF ok(1)]] expiry_wait(3) [OF desk_okD(1,2) [OF ok(2)]]
    by (simp add: reap_file_rounds reap_terminal_rounds)
qed

text \<open>What a step leaves of an entry: all of it but a later time of use.\<close>

definition kept_as :: "'s session_entry \<Rightarrow> 's session_entry option \<Rightarrow> bool" where
  "kept_as e x \<longleftrightarrow> (\<exists>e'. x = Some e' \<and> en_session e' = en_session e \<and> en_opened_at e' = en_opened_at e \<and> en_last_activity e \<le> en_last_activity e')"

lemma kept_as_same [simp]: "kept_as e (Some e)" by (simp add: kept_as_def)

lemma desk_get_touch:
  "desk_get k' (desk_touch k now d) =
     (if k' = k then map_option (\<lambda>e. e\<lparr>en_last_activity := now\<rparr>) (desk_get k' d) else desk_get k' d)"
  by (simp add: desk_get_def desk_touch_def map_entry_get)

lemma desk_reap_keeps:
  assumes "desk_ok now d" "desk_get k d = Some e" "now < entry_expiry e"
  shows "desk_get k (snd (desk_reap i now d)) = Some e"
proof (rule ccontr)
  assume "\<not> ?thesis"
  then show False using desk_reap_ok(3) [OF assms(1) _ assms(2), of i "fst (desk_reap i now d)" "snd (desk_reap i now d)"] assms(3) by simp
qed

lemma file_session_kept:
  assumes ok: "desk_ok (rg_now r) (rg_files r)" and e: "desk_get k (rg_files r) = Some e" "rg_now r < entry_expiry e"
    and ev: "ev \<notin> {Ev_TakeFile k, Ev_DrainFiles}"
  shows "kept_as e (desk_get k (rg_files (registry_step ev r)))"
proof (cases ev)
  case (Ev_UseFile i)
  then show ?thesis using e desk_okD(2) [OF ok e(1)] by (auto simp: registry_defs desk_get_touch kept_as_def split: option.splits)
next
  case (Ev_ReapFile n)
  then show ?thesis using desk_reap_keeps [OF ok e] by (simp add: reap_file_def split_def Let_def)
next
  case (Ev_CancelFile n)
  then show ?thesis using e desk_get_entries [of "desk_cancel n (rg_files r)" "rg_files r" k] by simp
qed (use e ev in \<open>auto simp: registry_defs desk_get_insert desk_get_remove reap_terminal_def split_def Let_def split: option.splits\<close>)

lemma terminal_session_kept:
  assumes ok: "desk_ok (rg_now r) (rg_terminals r)" and e: "desk_get k (rg_terminals r) = Some e" "rg_now r < entry_expiry e"
    and ev: "ev \<notin> {Ev_TakeTerminal k, Ev_DrainTerminals}"
  shows "kept_as e (desk_get k (rg_terminals (registry_step ev r)))"
proof (cases ev)
  case (Ev_UseTerminal i)
  then show ?thesis using e desk_okD(2) [OF ok e(1)] by (auto simp: registry_defs desk_get_touch kept_as_def split: option.splits)
next
  case (Ev_ReapTerminal n)
  then show ?thesis using desk_reap_keeps [OF ok e] by (simp add: reap_terminal_def split_def Let_def)
next
  case (Ev_CancelTerminal n)
  then show ?thesis using e desk_get_entries [of "desk_cancel n (rg_terminals r)" "rg_terminals r" k] by simp
qed (use e ev in \<open>auto simp: registry_defs desk_get_insert desk_get_remove reap_file_def split_def Let_def split: option.splits\<close>)

text \<open>C35: A session in use is kept: until it is idle for 15 minutes or open for 8 hours, no step of any
  task takes it away, other than its own disconnect and the shutdown.
\<close>

theorem live_sessions_kept:
  assumes "r = registry_run es registry_new"
  shows "(\<forall>k e. desk_get k (rg_files r) = Some e \<longrightarrow> \<not> session_is_expired (rg_now r) (en_opened_at e) (en_last_activity e) \<longrightarrow>
      ev \<notin> {Ev_TakeFile k, Ev_DrainFiles} \<longrightarrow> kept_as e (desk_get k (rg_files (registry_step ev r)))) \<and>
    (\<forall>k e. desk_get k (rg_terminals r) = Some e \<longrightarrow> \<not> session_is_expired (rg_now r) (en_opened_at e) (en_last_activity e) \<longrightarrow>
      ev \<notin> {Ev_TakeTerminal k, Ev_DrainTerminals} \<longrightarrow> kept_as e (desk_get k (rg_terminals (registry_step ev r))))"
proof -
  have ok: "desk_ok (rg_now r) (rg_files r)" "desk_ok (rg_now r) (rg_terminals r)"
    using registry_run_ok [OF registry_new_ok, of es] assms by (simp_all add: registry_ok_def)
  show ?thesis
    using file_session_kept [OF ok(1)] terminal_session_kept [OF ok(2)]
      expiry_wait(3) [OF desk_okD(1,2) [OF ok(1)]] expiry_wait(3) [OF desk_okD(1,2) [OF ok(2)]]
    by (auto simp: not_le)
qed

section \<open>Shutdown\<close>

lemma closed_stays: "\<not> rg_admission r \<Longrightarrow> \<not> rg_admission (registry_step ev r)"
  by (cases ev) (auto simp: registry_defs reap_file_def reap_terminal_def split_def Let_def split: option.splits)

lemma desk_reap_empty: "dk_entries d = [] \<Longrightarrow> dk_entries (snd (desk_reap i now d)) = []"
  by (auto simp: desk_reap_def desk_get_def desk_remove_def reaper_ends_def reaper_goes_def Let_def
      split: reaper_state.splits option.splits)

lemma empty_stays:
  assumes "\<not> rg_admission r"
  shows "dk_entries (rg_files r) = [] \<Longrightarrow> dk_entries (rg_files (registry_step ev r)) = []"
    and "dk_entries (rg_terminals r) = [] \<Longrightarrow> dk_entries (rg_terminals (registry_step ev r)) = []"
  using assms
  by (cases ev; auto simp: registry_defs reap_file_def reap_terminal_def desk_reap_empty desk_get_def desk_touch_def
      desk_remove_def desk_drain_def split_def Let_def split: option.splits)+

lemma closed_run: "\<not> rg_admission r \<Longrightarrow> \<not> rg_admission (registry_run es r)"
  by (induction es arbitrary: r) (simp_all add: registry_run_def closed_stays)

lemma empty_run:
  "\<not> rg_admission r \<Longrightarrow> dk_entries (rg_files r) = [] \<Longrightarrow> dk_entries (rg_files (registry_run es r)) = []"
  "\<not> rg_admission r \<Longrightarrow> dk_entries (rg_terminals r) = [] \<Longrightarrow> dk_entries (rg_terminals (registry_run es r)) = []"
  by (induction es arbitrary: r) (simp_all add: registry_run_def closed_stays empty_stays)

lemma registry_run_append: "registry_run (es @ es') r = registry_run es' (registry_run es r)"
  by (simp add: registry_run_def)

text \<open>\<open>shutdown_sessions\<close>: the admission is closed, then each table is drained under its lock, while the other tasks
  go on; the sessions it took are closed afterwards.\<close>

definition shutdown_steps :: "registry_event list \<Rightarrow> registry_event list \<Rightarrow> registry_event list" where
  "shutdown_steps between_1 between_2 =
     Ev_CloseAdmission # between_1 @ Ev_DrainFiles # between_2 @ [Ev_DrainTerminals]"

text \<open>C28: After a shutdown no session is left and none is ever registered again, even when connections that
  began before it are still in progress; and no further permit is given out.
\<close>

theorem no_session_after_shutdown:
  "dk_entries (rg_files (registry_run (before @ shutdown_steps between_1 between_2 @ after) registry_new)) = [] \<and>
   dk_entries (rg_terminals (registry_run (before @ shutdown_steps between_1 between_2 @ after) registry_new)) = [] \<and>
   \<not> is_ok (fst (acquire_session_permit (registry_run (before @ shutdown_steps between_1 between_2 @ after) registry_new)))"
proof -
  define r1 where "r1 = registry_step Ev_CloseAdmission (registry_run before registry_new)"
  define r2 where "r2 = registry_step Ev_DrainFiles (registry_run between_1 r1)"
  define r3 where "r3 = registry_step Ev_DrainTerminals (registry_run between_2 r2)"
  have run: "registry_run (before @ shutdown_steps between_1 between_2 @ after) registry_new = registry_run after r3"
    by (simp add: shutdown_steps_def registry_run_def r1_def r2_def r3_def)
  have c1: "\<not> rg_admission r1" by (simp add: r1_def close_session_admission_def)
  have c2: "\<not> rg_admission r2" unfolding r2_def by (intro closed_stays closed_run c1)
  have c3: "\<not> rg_admission r3" unfolding r3_def by (intro closed_stays closed_run c2)
  have f: "dk_entries (rg_files r2) = []" by (simp add: r2_def drain_files_def desk_drain_def)
  have t: "dk_entries (rg_terminals r3) = []" by (simp add: r3_def drain_terminals_def desk_drain_def)
  have f3: "dk_entries (rg_files r3) = []" unfolding r3_def using empty_run(1) [OF c2 f] empty_stays(1) closed_run [OF c2] by blast
  have "rg_capacity_closed r \<Longrightarrow> rg_capacity_closed (registry_step ev r)" for ev r
    by (cases ev) (auto simp: registry_defs reap_file_def reap_terminal_def split_def Let_def split: option.splits)
  then have closed: "rg_capacity_closed r \<Longrightarrow> rg_capacity_closed (registry_run es r)" for es r
    by (induction es arbitrary: r) (simp_all add: registry_run_def)
  have "rg_capacity_closed r1" by (simp add: r1_def close_session_admission_def)
  then have "rg_capacity_closed (registry_run after r3)"
    by (simp add: r2_def r3_def closed drain_files_def drain_terminals_def)
  then show ?thesis unfolding run using empty_run [OF c3] f3 t by (simp add: acquire_session_permit_def)
qed

section \<open>Witnesses\<close>

definition sample_terminal :: terminal_session where
  "sample_terminal = terminal_open (sample_pty [] [])"

definition sample_events :: "registry_event list" where
  "sample_events = [Ev_Acquire, Ev_RegisterTerminal (TerminalSessionId 7) sample_terminal, Ev_ReapTerminal 0]"

definition sample_entry :: "terminal_session session_entry" where
  "sample_entry = \<lparr>en_session = sample_terminal, en_opened_at = 0, en_last_activity = 0\<rparr>"

lemma sample_registry:
  "desk_get (TerminalSessionId 7) (rg_terminals (registry_run (sample_events @ [Ev_Elapse n]) registry_new)) = Some sample_entry"
  "rg_now (registry_run (sample_events @ [Ev_Elapse n]) registry_new) = n"
  by (simp_all add: registry_run_def sample_events_def registry_new_def registry_defs MAX_REMOTE_SESSIONS_def desk_insert_def
      reap_terminal_def desk_reap_def desk_get_def reaper_goes_def sample_entry_def Let_def)

theorem idle_sessions_reaped_witness:
  "\<exists>i n. n \<le> 3 \<and> desk_get (TerminalSessionId 7) (rg_terminals (registry_run (replicate n (Ev_ReapTerminal i))
     (registry_run (sample_events @ [Ev_Elapse (900 * 10 ^ 9)]) registry_new))) = None"
  using conjunct2 [OF idle_sessions_reaped [OF refl, of "sample_events @ [Ev_Elapse (900 * 10 ^ 9)]"], rule_format, OF sample_registry(1)]
  unfolding sample_registry(2) by (simp add: session_is_expired_def sample_entry_def REMOTE_SESSION_IDLE_TIMEOUT_def)

theorem live_sessions_kept_witness:
  "kept_as sample_entry (desk_get (TerminalSessionId 7) (rg_terminals (registry_step (Ev_ReapTerminal 0)
     (registry_run (sample_events @ [Ev_Elapse 5]) registry_new))))"
  using conjunct2 [OF live_sessions_kept [OF refl, of "sample_events @ [Ev_Elapse 5]" "Ev_ReapTerminal 0"], rule_format, OF sample_registry(1)]
  unfolding sample_registry(2) by (simp add: session_is_expired_def sample_entry_def REMOTE_SESSION_IDLE_TIMEOUT_def REMOTE_SESSION_MAX_LEASE_def)

end
