(* ===== verification/Appd_Commands.thy ===== *)
theory Appd_Commands
  imports Appd_Sessions
begin

text \<open>
  The commands on sessions (bins/appd/src/remote.rs, \<open>session_command\<close> and \<open>terminal_command\<close>), each
  composed of the operations on the registry, the profile store and a session. The adapters are a record of
  parameters. Shown: every answer to a terminal command satisfies the public contract and none is
  given up as invalid, and following the pages of a directory yields its listing exactly.
\<close>

section \<open>Adapters\<close>

text \<open>What the adapters answer; \<open>None\<close> is a worker that panicked or had no runtime.\<close>

type_synonym 'a outcome = "(remote_error, 'a) result option"

record file_service =
  fs_adapters :: "remote_protocol \<Rightarrow> file_adapter option"
  fs_connect :: "connection_profile \<Rightarrow> remote_session outcome"
  fs_disconnect :: "remote_session \<Rightarrow> unit outcome"
  fs_list :: "remote_session \<Rightarrow> remote_path \<Rightarrow> remote_entry list outcome"
  fs_stat :: "remote_session \<Rightarrow> remote_path \<Rightarrow> remote_entry outcome"
  fs_create_directory :: "remote_session \<Rightarrow> remote_path \<Rightarrow> remote_entry outcome"
  fs_rename :: "remote_session \<Rightarrow> remote_path \<Rightarrow> remote_path \<Rightarrow> remote_entry outcome"
  fs_delete :: "remote_session \<Rightarrow> remote_path \<Rightarrow> unit outcome"
  fs_terminal :: "(connection_profile \<Rightarrow> pty_size \<Rightarrow> bool \<Rightarrow> pty_session outcome) option"

definition run_session_future :: "'a outcome \<Rightarrow> (runtime_error, 'a) result" where
  "run_session_future out = (case out of None \<Rightarrow> Err remote_worker_failed | Some r \<Rightarrow> map_err map_remote_error r)"

section \<open>Commands on file sessions\<close>

definition remote_entry_is_unsafe :: "remote_entry \<Rightarrow> bool" where
  "remote_entry_is_unsafe e \<longleftrightarrow>
     ent_name e = [] \<or> 1024 < length (ent_name e) \<or> has_control (ent_name e) \<or>
     is_some_and (oi_etag (ent_identity e)) (\<lambda>etag. 1024 < length etag \<or> has_control etag)"

definition remote_entry_invalid :: runtime_error where
  "remote_entry_invalid = runtime_error_new ''remote_response_invalid'' ''remote_entry_invalid'' False"

definition validate_remote_entry :: "remote_entry \<Rightarrow> (runtime_error, unit) result" where
  "validate_remote_entry e = (if remote_entry_is_unsafe e then Err remote_entry_invalid else Ok ())"

text \<open>The page of a listing; \<open>None\<close> is the panic of an offset beyond 32 bits.\<close>

definition list_page :: "directory_query \<Rightarrow> remote_entry list \<Rightarrow> (runtime_error, directory_page) result option" where
  "list_page q entries =
     (if list_ex remote_entry_is_unsafe entries then Some (Err remote_entry_invalid)
      else let offset = unat (dq_offset q);
               stop = min (offset + unat (dq_limit q)) (length entries);
               page_entries = (if length entries \<le> offset then [] else take (stop - offset) (drop offset entries))
           in if stop < length entries
              then map_option (\<lambda>next. Ok \<lparr>dp_session_id = dq_session_id q, dp_path = dq_path q, dp_offset = dq_offset q,
                     dp_entries = page_entries, dp_next_offset = Some next\<rparr>) (u32_try_from stop)
              else Some (Ok \<lparr>dp_session_id = dq_session_id q, dp_path = dq_path q, dp_offset = dq_offset q,
                     dp_entries = page_entries, dp_next_offset = None\<rparr>))"

type_synonym ('s, 'r) service_state = "('s, 'r) profile_runtime \<times> registry"

definition connect_command ::
  "profiles_env \<Rightarrow> file_service \<Rightarrow> profile_id \<Rightarrow> ('s, 'r) service_state \<Rightarrow>
   (runtime_error, session_result) result \<times> ('s, 'r) service_state" where
  "connect_command env fs i = (\<lambda>(rt, rg).
     case load_profile env i rt of
       (Inl e, rt1) \<Rightarrow> (Err e, rt1, rg)
     | (Inr stored, rt1) \<Rightarrow>
         (case fs_adapters fs (cp_protocol (sp_profile stored)) of
            None \<Rightarrow> (Err (runtime_error_new ''remote_protocol_unsupported'' ''remote_protocol_has_no_file_adapter'' False), rt1, rg)
          | Some adapter \<Rightarrow>
              (case ensure_file_adapter_usable adapter of
                 Inl e \<Rightarrow> (Err e, rt1, rg)
               | Inr _ \<Rightarrow>
                   (case acquire_session_permit rg of
                      (Inl e, rg1) \<Rightarrow> (Err e, rt1, rg1)
                    | (Inr _, rg1) \<Rightarrow>
                        (case run_session_future (fs_connect fs (sp_profile stored)) of
                           Inl e \<Rightarrow> (Err e, rt1, release_holder rg1)
                         | Inr session \<Rightarrow>
                             (case register_file_session session rg1 of
                                (Inl e, rg2) \<Rightarrow> (Err e, rt1, finish_close rg2)
                              | (Inr snapshot, rg2) \<Rightarrow> (Ok (SR_Session snapshot), rt1, rg2)))))))"

definition disconnect_command ::
  "file_service \<Rightarrow> session_id \<Rightarrow> registry \<Rightarrow> (runtime_error, session_result) result \<times> registry" where
  "disconnect_command fs i rg =
     (case take_file_session i rg of
        (Inl e, rg1) \<Rightarrow> (Err e, rg1)
      | (Inr session, rg1) \<Rightarrow>
          (and_then (run_session_future (fs_disconnect fs session)) (\<lambda>_. Ok (SR_Disconnected i)), finish_close rg1))"

text \<open>A command that works on a session: the session is found and marked as used, then the adapter is called.\<close>

definition with_session ::
  "session_id \<Rightarrow> (remote_session \<Rightarrow> (runtime_error, session_result) result) \<Rightarrow> registry \<Rightarrow>
   (runtime_error, session_result) result \<times> registry" where
  "with_session i f rg =
     (case file_session i rg of (Inl e, rg1) \<Rightarrow> (Err e, rg1) | (Inr session, rg1) \<Rightarrow> (f session, rg1))"

definition entry_answer :: "remote_entry outcome \<Rightarrow> (runtime_error, session_result) result" where
  "entry_answer out =
     and_then (run_session_future out) (\<lambda>e. and_then (validate_remote_entry e) (\<lambda>_. Ok (SR_Entry e)))"

text \<open>\<open>None\<close> is a panic of the command.\<close>

definition list_command ::
  "file_service \<Rightarrow> directory_query \<Rightarrow> registry \<Rightarrow> ((runtime_error, session_result) result \<times> registry) option" where
  "list_command fs q rg =
     (case file_session (dq_session_id q) rg of
        (Inl e, rg1) \<Rightarrow> Some (Err e, rg1)
      | (Inr session, rg1) \<Rightarrow>
          (case run_session_future (fs_list fs session (dq_path q)) of
             Inl e \<Rightarrow> Some (Err e, rg1)
           | Inr entries \<Rightarrow> map_option (\<lambda>page. (and_then page (\<lambda>p. Ok (SR_DirectoryPage p)), rg1)) (list_page q entries)))"

definition session_command_op ::
  "profiles_env \<Rightarrow> file_service \<Rightarrow> session_command \<Rightarrow> ('s, 'r) service_state \<Rightarrow>
   ((runtime_error, session_result) result \<times> ('s, 'r) service_state) option" where
  "session_command_op env fs command = (\<lambda>(rt, rg).
     let keep = (\<lambda>(r, rg'). (r, rt, rg'))
     in case session_command_validate command of
          Inl _ \<Rightarrow> Some (Err (runtime_error_new ''remote_session_invalid'' ''remote_session_command_invalid'' False), rt, rg)
        | Inr _ \<Rightarrow>
            (case command of
               Sess_Connect i \<Rightarrow> Some (connect_command env fs i (rt, rg))
             | Sess_Disconnect i \<Rightarrow> Some (keep (disconnect_command fs i rg))
             | Sess_List q \<Rightarrow> map_option keep (list_command fs q rg)
             | Sess_Stat i path \<Rightarrow> Some (keep (with_session i (\<lambda>s. entry_answer (fs_stat fs s path)) rg))
             | Sess_CreateDirectory i path \<Rightarrow> Some (keep (with_session i (\<lambda>s. entry_answer (fs_create_directory fs s path)) rg))
             | Sess_Rename i from to \<Rightarrow> Some (keep (with_session i (\<lambda>s. entry_answer (fs_rename fs s from to)) rg))
             | Sess_Delete i path \<Rightarrow>
                 Some (keep (with_session i (\<lambda>s. and_then (run_session_future (fs_delete fs s path)) (\<lambda>_. Ok (SR_Deleted i))) rg))))"

section \<open>Commands on terminals\<close>

definition map_terminal_capabilities :: public_capabilities where
  "map_terminal_capabilities =
     \<lparr>pc_max_output_chunk_bytes = of_nat (min (sc_max_output_chunk_bytes TERMINAL_CAPABILITIES) MAX_TERMINAL_IPC_BYTES),
      pc_max_input_chunk_bytes = of_nat (min (sc_max_input_chunk_bytes TERMINAL_CAPABILITIES) MAX_TERMINAL_IPC_BYTES),
      pc_max_transcript_bytes = of_nat (sc_max_transcript_bytes TERMINAL_CAPABILITIES),
      pc_max_rows = sc_max_rows TERMINAL_CAPABILITIES, pc_max_columns = sc_max_columns TERMINAL_CAPABILITIES,
      pc_max_pixel_dimension = sc_max_pixel_dimension TERMINAL_CAPABILITIES,
      pc_nonblocking_output = sc_nonblocking_output TERMINAL_CAPABILITIES,
      pc_fixed_openssh_program = sc_fixed_openssh_program TERMINAL_CAPABILITIES\<rparr>"

definition terminal_response_invalid :: "string \<Rightarrow> runtime_error" where
  "terminal_response_invalid reason = runtime_error_new ''terminal_response_invalid'' reason False"

definition map_terminal_status :: "ssh_status \<Rightarrow> (runtime_error, public_status_of_terminal) result" where
  "map_terminal_status s =
     and_then (ok_or (u32_try_from (st_transcript_retained_bytes s)) (terminal_response_invalid ''terminal_transcript_size_invalid''))
       (\<lambda>retained.
         let status = \<lparr>pt_state = st_state s, pt_transcript_retained_bytes = retained,
                       pt_transcript_dropped_bytes = st_transcript_dropped_bytes s\<rparr>
         in and_then (map_err (\<lambda>_. terminal_response_invalid ''terminal_status_invalid'') (terminal_status_validate status))
              (\<lambda>_. Ok status))"

definition terminal_invalid :: "string \<Rightarrow> runtime_error" where
  "terminal_invalid reason = runtime_error_new ''terminal_invalid'' reason False"

definition size_of_request :: "terminal_size \<Rightarrow> (runtime_error, pty_size) result" where
  "size_of_request z =
     map_err (\<lambda>_. terminal_invalid ''ssh_terminal_size_invalid'')
       (with_pixels (tz_rows z) (tz_columns z) (tz_pixel_width z) (tz_pixel_height z))"

definition initial_status :: public_status_of_terminal where
  "initial_status = \<lparr>pt_state = Ts_Running, pt_transcript_retained_bytes = 0, pt_transcript_dropped_bytes = 0\<rparr>"

definition open_command ::
  "profiles_env \<Rightarrow> file_service \<Rightarrow> terminal_session_id \<Rightarrow> profile_id \<Rightarrow> terminal_size \<Rightarrow> bool \<Rightarrow> ('s, 'r) service_state \<Rightarrow>
   (runtime_error, terminal_result) result \<times> ('s, 'r) service_state" where
  "open_command env fs new_id i z accept_new = (\<lambda>(rt, rg).
     case acquire_session_permit rg of
       (Inl e, rg1) \<Rightarrow> (Err e, rt, rg1)
     | (Inr _, rg1) \<Rightarrow>
         (case load_profile env i rt of
            (Inl e, rt1) \<Rightarrow> (Err e, rt1, release_holder rg1)
          | (Inr stored, rt1) \<Rightarrow>
              (case fs_terminal fs of
                 None \<Rightarrow> (Err (runtime_error_new ''terminal_unsupported'' ''ssh_terminal_adapter_unavailable'' False), rt1, release_holder rg1)
               | Some adapter \<Rightarrow>
                   (case size_of_request z of
                      Inl e \<Rightarrow> (Err e, rt1, release_holder rg1)
                    | Inr pz \<Rightarrow>
                        (case run_session_future (adapter (sp_profile stored) pz accept_new) of
                           Inl e \<Rightarrow> (Err e, rt1, release_holder rg1)
                         | Inr pty \<Rightarrow>
                             (case register_terminal_session new_id (terminal_open pty) rg1 of
                                (Inl e, rg2) \<Rightarrow> (Err e, rt1, finish_close rg2)
                              | (Inr j, rg2) \<Rightarrow>
                                  (Ok (Res_Opened j map_terminal_capabilities initial_status), rt1, rg2)))))))"

definition store_session :: "terminal_session_id \<Rightarrow> terminal_session \<Rightarrow> registry \<Rightarrow> registry" where
  "store_session i s rg = rg\<lparr>rg_terminals := desk_set_session i s (rg_terminals rg)\<rparr>"

definition public_read_of :: "base64_codec \<Rightarrow> ssh_read \<Rightarrow> (runtime_error, public_read) result" where
  "public_read_of b64 out =
     (case out of
        Ssh_Pending \<Rightarrow> Ok Pub_Pending
      | Ssh_Data bs \<Rightarrow>
          and_then (map_err (\<lambda>_. terminal_response_invalid ''terminal_output_invalid'') (data_from_bytes b64 bs)) (\<lambda>d. Ok (Pub_Data d))
      | Ssh_EndOfStream \<Rightarrow> Ok Pub_EndOfStream)"

definition read_command ::
  "base64_codec \<Rightarrow> terminal_session_id \<Rightarrow> u32 \<Rightarrow> registry \<Rightarrow> (runtime_error, terminal_result) result \<times> registry" where
  "read_command b64 i max_bytes rg =
     (case terminal_session_of i rg of
        Inl e \<Rightarrow> (Err e, rg)
      | Inr s \<Rightarrow>
          let (r, s') = ssh_read_output (unat max_bytes) s
          in (and_then (map_err map_remote_error r) (\<lambda>out. and_then (public_read_of b64 out) (\<lambda>p. Ok (Res_Read i p))),
              store_session i s' rg))"

text \<open>\<open>u32::try_from(bytes.len()).expect(..)\<close>: the decoded input is bounded by the validation.\<close>

definition write_command ::
  "base64_codec \<Rightarrow> terminal_session_id \<Rightarrow> terminal_data \<Rightarrow> registry \<Rightarrow> (runtime_error, terminal_result) result \<times> registry" where
  "write_command b64 i data rg =
     (case data_decode b64 data of
        Inl _ \<Rightarrow> (Err (terminal_invalid ''terminal_input_invalid''), rg)
      | Inr bs \<Rightarrow>
          (case active_terminal_session i rg of
             (Inl e, rg1) \<Rightarrow> (Err e, rg1)
           | (Inr s, rg1) \<Rightarrow>
               let (r, s') = ssh_write_input bs s
               in (and_then (map_err map_remote_error r) (\<lambda>_. Ok (Res_Wrote i (of_nat (length bs)))), store_session i s' rg1)))"

definition resize_command ::
  "terminal_session_id \<Rightarrow> terminal_size \<Rightarrow> registry \<Rightarrow> (runtime_error, terminal_result) result \<times> registry" where
  "resize_command i z rg =
     (case size_of_request z of
        Inl e \<Rightarrow> (Err e, rg)
      | Inr pz \<Rightarrow>
          (case active_terminal_session i rg of
             (Inl e, rg1) \<Rightarrow> (Err e, rg1)
           | (Inr s, rg1) \<Rightarrow> (and_then (map_err map_remote_error (ssh_resize pz s)) (\<lambda>_. Ok (Res_Resized i)), rg1)))"

definition poll_command :: "terminal_session_id \<Rightarrow> registry \<Rightarrow> (runtime_error, terminal_result) result \<times> registry" where
  "poll_command i rg =
     (case terminal_session_of i rg of
        Inl e \<Rightarrow> (Err e, rg)
      | Inr s \<Rightarrow>
          let (r, s') = ssh_poll_state s
          in (and_then (map_err map_remote_error r) (\<lambda>st. and_then (map_terminal_status st) (\<lambda>p. Ok (Res_Status i p))),
              store_session i s' rg))"

definition close_command :: "terminal_session_id \<Rightarrow> registry \<Rightarrow> (runtime_error, terminal_result) result \<times> registry" where
  "close_command i rg =
     (case take_terminal_session i rg of
        (Inl e, rg1) \<Rightarrow> (Err e, rg1)
      | (Inr s, rg1) \<Rightarrow>
          (and_then (map_err map_remote_error (fst (ssh_close s)))
             (\<lambda>st. and_then (map_terminal_status st) (\<lambda>p. Ok (Res_Closed i p))), finish_close rg1))"

definition terminal_command_op ::
  "base64_codec \<Rightarrow> profiles_env \<Rightarrow> file_service \<Rightarrow> terminal_session_id \<Rightarrow> terminal_command \<Rightarrow> ('s, 'r) service_state \<Rightarrow>
   (runtime_error, terminal_result) result \<times> ('s, 'r) service_state" where
  "terminal_command_op b64 env fs new_id command = (\<lambda>(rt, rg).
     let keep = (\<lambda>(r, rg'). (r, rt, rg'))
     in case terminal_command_validate b64 command of
          Inl _ \<Rightarrow> (Err (terminal_invalid ''terminal_command_invalid''), rt, rg)
        | Inr _ \<Rightarrow>
            (case command of
               Term_Open i z accept_new \<Rightarrow> open_command env fs new_id i z accept_new (rt, rg)
             | Term_Read i max_bytes \<Rightarrow> keep (read_command b64 i max_bytes rg)
             | Term_Stream _ _ \<Rightarrow> (Err (terminal_invalid ''terminal_stream_requires_ipc_server''), rt, rg)
             | Term_Write i data \<Rightarrow> keep (write_command b64 i data rg)
             | Term_Resize i z \<Rightarrow> keep (resize_command i z rg)
             | Term_Poll i \<Rightarrow> keep (poll_command i rg)
             | Term_Close i \<Rightarrow> keep (close_command i rg)))"

section \<open>Directories\<close>

text \<open>A client that follows \<open>next_offset\<close> while the listing stays the same.\<close>

fun follow_pages :: "nat \<Rightarrow> directory_query \<Rightarrow> remote_entry list \<Rightarrow> remote_entry list option" where
  "follow_pages 0 q entries = None"
| "follow_pages (Suc fuel) q entries =
     (case list_page q entries of
        Some (Inr page) \<Rightarrow>
          (case dp_next_offset page of
             None \<Rightarrow> Some (dp_entries page)
           | Some next \<Rightarrow> map_option (\<lambda>es. dp_entries page @ es) (follow_pages fuel (q\<lparr>dq_offset := next\<rparr>) entries))
      | _ \<Rightarrow> None)"

lemma u32_of_nat_small: "n < 2 ^ 32 \<Longrightarrow> unat (of_nat n :: u32) = n"
  by (simp add: unat_of_nat take_bit_eq_mod)

lemma directory_query_valid:
  "directory_query_validate q = Ok () \<longleftrightarrow> 0 < unat (dq_limit q) \<and> unat (dq_limit q) \<le> 2"
  by (auto simp: directory_query_validate_def MAX_REMOTE_DIRECTORY_PAGE_SIZE_def word_le_nat_alt word_less_nat_alt unat_gt_0)

lemma list_page_matches:
  assumes "directory_query_validate q = Ok ()" "list_page q entries = Some (Ok page)"
  shows "page_matches page q"
proof -
  let ?o = "unat (dq_offset q)" and ?l = "unat (dq_limit q)"
  have l: "0 < ?l" "?l \<le> 2" using assms(1) by (simp_all add: directory_query_valid)
  have safe: "\<not> list_ex remote_entry_is_unsafe entries" using assms(2) by (auto simp: list_page_def split: if_splits)
  show ?thesis
  proof (cases "?o + ?l < length entries")
    case False
    then show ?thesis using assms(2) safe l by (auto simp: list_page_def Let_def page_matches_def min_def split: if_splits)
  next
    case True
    then obtain n where n: "u32_try_from (?o + ?l) = Some n" and
      page: "page = \<lparr>dp_session_id = dq_session_id q, dp_path = dq_path q, dp_offset = dq_offset q,
        dp_entries = take ?l (drop ?o entries), dp_next_offset = Some n\<rparr>"
      using assms(2) safe by (auto simp: list_page_def Let_def min_def)
    have len: "length (take ?l (drop ?o entries)) = ?l" using True by simp
    have small: "?o + ?l < 2 ^ 32" using n by (auto simp: u32_try_from_def split: if_splits)
    have "unat n = ?o + ?l" using n small u32_of_nat_small [OF small] by (auto simp: u32_try_from_def)
    moreover have ul: "unat (of_nat ?l :: u32) = ?l" using l by (intro u32_of_nat_small) simp
    have "unat (saturating_add (dq_offset q) (of_nat ?l)) = ?o + ?l"
      unfolding unat_saturating_add ul using small by simp
    ultimately have "n = saturating_add (dq_offset q) (of_nat ?l)" by (metis word_unat_eq_iff)
    then show ?thesis unfolding page page_matches_def using l len by (simp add: u32_try_from_def)
  qed
qed

lemma follow_pages_exact:
  assumes "directory_query_validate q = Ok ()" "\<not> list_ex remote_entry_is_unsafe entries" "length entries < 2 ^ 32"
  shows "length entries - unat (dq_offset q) < fuel \<Longrightarrow>
    follow_pages fuel q entries = Some (drop (unat (dq_offset q)) entries)"
  using assms(1)
proof (induction fuel arbitrary: q)
  case (Suc fuel)
  let ?o = "unat (dq_offset q)" and ?l = "unat (dq_limit q)"
  have l: "0 < ?l" using Suc.prems(2) by (simp add: directory_query_valid)
  show ?case
  proof (cases "?o + ?l < length entries")
    case False
    then show ?thesis using assms(2) by (auto simp: list_page_def Let_def min_def)
  next
    case True
    then have u: "u32_try_from (?o + ?l) = Some (of_nat (?o + ?l))" "unat (of_nat (?o + ?l) :: u32) = ?o + ?l"
      using assms(3) u32_of_nat_small [of "?o + ?l"] by (simp_all add: u32_try_from_def)
    let ?q = "q\<lparr>dq_offset := of_nat (?o + ?l)\<rparr>"
    have "follow_pages fuel ?q entries = Some (drop (unat (dq_offset ?q)) entries)"
    proof (rule Suc.IH)
      show "length entries - unat (dq_offset ?q) < fuel" using Suc.prems(1) l True u(2) by simp
      show "directory_query_validate ?q = Ok ()" using Suc.prems(2) by (simp add: directory_query_valid)
    qed
    then have "follow_pages (Suc fuel) q entries = Some (take ?l (drop ?o entries) @ drop (?o + ?l) entries)"
      using True u assms(2) by (simp add: list_page_def Let_def min_def del: of_nat_add)
    then show ?thesis by (metis add.commute append_take_drop_id drop_drop)
  qed
qed simp

text \<open>
  A client that asks for the first page of a directory and follows \<open>next_offset\<close> gets every entry of the listing
  once, in order, after at most one page per entry and one more; and every page satisfies the
  contract of its query.
\<close>

theorem directory_pages_complete:
  assumes "directory_query_validate q = Ok ()" "dq_offset q = 0"
    and "\<not> list_ex remote_entry_is_unsafe entries" "length entries < 2 ^ 32"
  shows "follow_pages (Suc (length entries)) q entries = Some entries \<and>
    (\<forall>offset page. list_page (q\<lparr>dq_offset := offset\<rparr>) entries = Some (Ok page) \<longrightarrow>
      session_result_validate_for (SR_DirectoryPage page) (Sess_List (q\<lparr>dq_offset := offset\<rparr>)) = Ok ())"
proof -
  have "directory_query_validate (q\<lparr>dq_offset := offset\<rparr>) = Ok ()" for offset
    using assms(1) by (simp add: directory_query_valid)
  then show ?thesis
    using follow_pages_exact [OF assms(1,3,4), of "Suc (length entries)"] assms(2) list_page_matches by simp
qed

section \<open>Answers to terminal commands\<close>

definition transcript_bounded :: "terminal_session \<Rightarrow> bool" where
  "transcript_bounded s \<longleftrightarrow> length (bb_bytes (ts_transcript s)) \<le> MAX_TERMINAL_TRANSCRIPT_BYTES"

definition terminals_ok :: "registry \<Rightarrow> bool" where
  "terminals_ok rg \<longleftrightarrow> (\<forall>k e. desk_get k (rg_terminals rg) = Some e \<longrightarrow> transcript_bounded (en_session e))"

lemma transcript_push_bounded: "length (bb_bytes (transcript_push bs t)) \<le> MAX_TERMINAL_TRANSCRIPT_BYTES"
  by (simp add: transcript_push_def bounded_push_bytes)

lemma capture_loop_bounded: "transcript_bounded s \<Longrightarrow> transcript_bounded (snd (capture_loop n s))"
proof (induction n s rule: capture_loop.induct)
  case (1 n s)
  obtain r p where rd: "pty_read (capture_limit n) (ts_pty s) = (r, p)" by fastforce
  show ?case
  proof (cases "n < MAX_TERMINAL_OUTPUT_BYTES \<and> (\<exists>b bs. r = Inr (b # bs))")
    case True
    then obtain b bs where b: "n < MAX_TERMINAL_OUTPUT_BYTES" "r = Inr (b # bs)" by auto
    have "transcript_bounded (s\<lparr>ts_pty := p, ts_pending_output := pending_push (b # bs) (ts_pending_output s),
        ts_transcript := transcript_push (b # bs) (ts_transcript s)\<rparr>)"
      using transcript_push_bounded by (simp add: transcript_bounded_def)
    from 1(1) [OF b(1) rd [symmetric] b(2) refl this] show ?thesis
      by (subst capture_loop.simps) (simp add: b rd)
  next
    case False
    then show ?thesis using 1(2) rd
      by (subst capture_loop.simps) (auto simp: transcript_bounded_def split: sum.splits list.splits io_error.splits)
  qed
qed

lemma poll_state_bounded: "transcript_bounded s \<Longrightarrow> transcript_bounded (snd (poll_state s))"
  using capture_loop_bounded [of s 0]
  by (auto simp: poll_state_def transcript_bounded_def Let_def split: prod.splits sum.splits)

lemma poll_state_retained:
  "poll_state s = (Ok st, s') \<Longrightarrow> st_transcript_retained_bytes st = length (bb_bytes (ts_transcript s'))"
  by (auto simp: poll_state_def session_status_def Let_def split: prod.splits sum.splits if_splits)

lemma session_close_status:
  "session_close s = (Ok st, s') \<Longrightarrow> st_state st = Ts_ClosedByClient \<and> st_transcript_retained_bytes st = length (bb_bytes (ts_transcript s))"
  by (auto simp: session_close_def session_status_def Let_def split: prod.splits sum.splits)

lemma read_output_bounded: "transcript_bounded s \<Longrightarrow> transcript_bounded (snd (read_output n s))"
  using transcript_push_bounded
  by (auto simp: read_output_def transcript_bounded_def split: prod.splits option.splits sum.splits list.splits io_error.splits)

text \<open>A read hands out between one byte and what was asked for.\<close>

lemma read_output_data:
  assumes "read_output n s = (Ok (Ssh_Data bs), s')"
  shows "bs \<noteq> [] \<and> length bs \<le> n"
proof -
  have n: "0 < n" using assms by (auto simp: read_output_def split: if_splits)
  obtain t pend where t: "pending_take n (ts_pending_output s) = (t, pend)" by fastforce
  obtain r p where rd: "pty_read n (ts_pty s) = (r, p)" by fastforce
  show ?thesis
  proof (cases t)
    case (Some xs)
    then have "bs = xs" using assms t by (auto simp: read_output_def split: if_splits)
    then show ?thesis using pending_take_Some [OF t [unfolded Some]] n by simp
  next
    case None
    then have "r = Inr bs \<and> bs \<noteq> []"
      using assms t rd by (auto simp: read_output_def split: if_splits sum.splits list.splits io_error.splits option.splits prod.splits)
    then show ?thesis using pty_read_bytes [OF rd] by simp
  qed
qed

lemma map_terminal_status_Ok:
  assumes "st_transcript_retained_bytes st \<le> MAX_TERMINAL_TRANSCRIPT_BYTES"
  shows "\<exists>p. map_terminal_status st = Ok p \<and> terminal_status_validate p = Ok () \<and> pt_state p = st_state st"
proof -
  have n: "st_transcript_retained_bytes st < 2 ^ 32" using assms by (simp add: MAX_TERMINAL_TRANSCRIPT_BYTES_def)
  have "\<not> MAX_PUBLIC_TRANSCRIPT_BYTES < (of_nat (st_transcript_retained_bytes st) :: u32)"
    using assms u32_of_nat_small [OF n]
    by (simp add: word_less_nat_alt MAX_PUBLIC_TRANSCRIPT_BYTES_def MAX_TERMINAL_TRANSCRIPT_BYTES_def)
  then show ?thesis using n by (simp add: map_terminal_status_def u32_try_from_def terminal_status_validate_def Let_def)
qed

text \<open>What an answer must be: valid for its command, or an error that does not blame the answer.\<close>

definition good_answer :: "base64_codec \<Rightarrow> terminal_command \<Rightarrow> (runtime_error, terminal_result) result \<Rightarrow> bool" where
  "good_answer b64 command r =
     (case r of Inr res \<Rightarrow> terminal_result_validate_for b64 res command = Ok ()
      | Inl e \<Rightarrow> er_code e \<noteq> ''terminal_response_invalid'')"

lemma good_answer_simps [simp]:
  "good_answer b64 c (Inr res) \<longleftrightarrow> terminal_result_matches b64 res c"
  "good_answer b64 c (Inl e) \<longleftrightarrow> er_code e \<noteq> ''terminal_response_invalid''"
  by (simp_all add: good_answer_def terminal_result_validate_for_def)

lemma map_remote_error_code: "er_code (map_remote_error e) \<noteq> ''terminal_response_invalid''"
  by (cases "re_kind e") (simp_all add: map_remote_error_def runtime_error_new_def)

lemma run_session_future_code: "run_session_future out = Inl e \<Longrightarrow> er_code e \<noteq> ''terminal_response_invalid''"
  by (auto simp: run_session_future_def remote_worker_failed_def runtime_error_new_def map_err_Err_iff map_remote_error_code
      split: option.splits)

lemma decode_profile_row_code: "decode_profile_row env r = Inl f \<Longrightarrow> f = Failed profile_store_corrupt"
  by (auto simp: decode_profile_row_def and_then_eq_Err map_err_Err_iff ok_or_def Let_def split: if_splits option.splits)

lemma load_profile_code: "load_profile env i rt = (Inl e, rt') \<Longrightarrow> er_code e \<noteq> ''terminal_response_invalid''"
  by (auto simp: load_profile_def load_profile_by_id_def u_bind_def u_lift_def statement_def and_then_eq_Err
      profile_store_unavailable_def profile_store_corrupt_def remote_profile_not_found_def runtime_error_new_def
      dest!: decode_profile_row_code split: option.splits prod.splits sum.splits profile_failure.splits if_splits)

lemma capabilities_valid: "public_capabilities_validate map_terminal_capabilities = Ok ()"
  by (simp add: public_capabilities_validate_def map_terminal_capabilities_def TERMINAL_CAPABILITIES_def
      MAX_TERMINAL_OUTPUT_BYTES_def MAX_TERMINAL_INPUT_BYTES_def MAX_TERMINAL_TRANSCRIPT_BYTES_def MAX_TERMINAL_IPC_BYTES_def
      MAX_PUBLIC_TRANSCRIPT_BYTES_def MAX_PTY_ROWS_def MAX_PTY_COLUMNS_def MAX_PTY_PIXEL_DIMENSION_def MAX_TERMINAL_SIZE_def
      MAX_TERMINAL_PIXEL_DIMENSION_def word_less_nat_alt)

lemma status_answer:
  assumes "st_transcript_retained_bytes st \<le> MAX_TERMINAL_TRANSCRIPT_BYTES"
  obtains p where "map_terminal_status st = Ok p" "is_ok (terminal_status_validate p)" "pt_state p = st_state st"
proof -
  obtain p where "map_terminal_status st = Ok p \<and> terminal_status_validate p = Ok () \<and> pt_state p = st_state st"
    using map_terminal_status_Ok [OF assms] by blast
  then show ?thesis using that [of p] by (simp add: is_ok_unit)
qed

lemma terminals_ok_get: "terminals_ok rg \<Longrightarrow> desk_get i (rg_terminals rg) = Some e \<Longrightarrow> transcript_bounded (en_session e)"
  by (auto simp: terminals_ok_def)

lemma desk_get_set_session:
  "desk_get k (desk_set_session i s d) = (if k = i then map_option (\<lambda>e. e\<lparr>en_session := s\<rparr>) (desk_get k d) else desk_get k d)"
  by (simp add: desk_get_def desk_set_session_def map_entry_get)

lemma store_session_ok: "terminals_ok rg \<Longrightarrow> transcript_bounded s \<Longrightarrow> terminals_ok (store_session i s rg)"
  by (auto simp: terminals_ok_def store_session_def desk_get_set_session split: if_splits)

lemma active_session_ok: "terminals_ok rg \<Longrightarrow> active_terminal_session i rg = (r, rg') \<Longrightarrow>
    terminals_ok rg' \<and> (\<forall>s. r = Inr s \<longrightarrow> transcript_bounded s) \<and> (\<forall>e. r = Inl e \<longrightarrow> e = terminal_session_not_found)"
  by (auto simp: active_terminal_session_def terminals_ok_def desk_get_touch split: option.splits if_splits)

lemma write_input_transcript: "ts_transcript (snd (write_input bs s)) = ts_transcript s"
  by (simp add: write_input_def split_def Let_def)

lemmas answer_codes = terminal_session_not_found_def terminal_invalid_def runtime_error_new_def map_remote_error_code

lemma read_command_good:
  assumes "base64_laws b64" "terminals_ok rg" "read_limit_validate n = Ok ()" "read_command b64 i n rg = (r, rg')"
  shows "good_answer b64 (Term_Read i n) r \<and> terminals_ok rg'"
proof (cases "desk_get i (rg_terminals rg)")
  case None
  then show ?thesis using assms by (auto simp: read_command_def terminal_session_of_def answer_codes)
next
  case (Some e)
  obtain r1 s' where rd: "read_output (unat n) (en_session e) = (r1, s')" by fastforce
  have rg': "terminals_ok rg'"
    using assms(2,4) Some rd read_output_bounded [OF terminals_ok_get [OF assms(2) Some], of "unat n"]
    by (auto simp: read_command_def terminal_session_of_def ssh_read_output_def intro: store_session_ok)
  have r: "r = and_then (map_err map_remote_error (map_err (\<lambda>e. map_terminal_error e Op_Read) r1))
      (\<lambda>out. and_then (public_read_of b64 out) (\<lambda>p. Ok (Res_Read i p)))"
    using assms(4) Some rd by (auto simp: read_command_def terminal_session_of_def ssh_read_output_def)
  have n: "unat n \<le> MAX_TERMINAL_IPC_BYTES" using assms(3) by (simp add: read_limit_validate_def split: if_splits)
  show ?thesis
  proof (cases "\<exists>bs. r1 = Inr (Ssh_Data bs)")
    case False
    then show ?thesis using r rg' by (cases r1) (auto simp: public_read_of_def map_remote_error_code split: ssh_read.splits)
  next
    case True
    then obtain bs where bs: "r1 = Inr (Ssh_Data bs)" by blast
    then have len: "bs \<noteq> []" "length bs \<le> unat n" using read_output_data rd by blast+
    then obtain d where d: "data_from_bytes b64 bs = Ok d" using n by (auto simp: data_from_bytes_def)
    have "data_decode b64 d = Ok bs" by (rule data_round_trip [OF assms(1) d])
    then show ?thesis using r bs d len rg' by (simp add: public_read_of_def)
  qed
qed

lemma write_command_good:
  assumes "terminals_ok rg" "write_command b64 i data rg = (r, rg')"
  shows "good_answer b64 (Term_Write i data) r \<and> terminals_ok rg'"
proof (cases "data_decode b64 data")
  case (Inl e)
  then show ?thesis using assms by (auto simp: write_command_def answer_codes)
next
  case (Inr bs)
  obtain a rg1 where a: "active_terminal_session i rg = (a, rg1)" by fastforce
  note ok = active_session_ok [OF assms(1) a]
  show ?thesis
  proof (cases a)
    case (Inl e)
    then show ?thesis using assms(2) a ok \<open>data_decode b64 data = Inr bs\<close> by (auto simp: write_command_def answer_codes)
  next
    case s: (Inr s)
    obtain w s' where w: "write_input bs s = (w, s')" by fastforce
    have len: "unat (of_nat (length bs) :: u32) = length bs"
      using data_decode_bounded [OF Inr] by (intro u32_of_nat_small) (simp add: MAX_TERMINAL_IPC_BYTES_def)
    have "transcript_bounded s'" using ok s write_input_transcript [of bs s] w by (simp add: transcript_bounded_def)
    then have rg': "terminals_ok rg'" using assms(2) a s Inr w ok by (auto simp: write_command_def ssh_write_input_def intro: store_session_ok)
    have "r = and_then (map_err map_remote_error (map_err (\<lambda>e. map_terminal_error e Op_Write) w)) (\<lambda>_. Ok (Res_Wrote i (of_nat (length bs))))"
      using assms(2) a s Inr w by (auto simp: write_command_def ssh_write_input_def)
    then show ?thesis using rg' Inr len by (cases w) (auto simp: map_remote_error_code)
  qed
qed

lemma resize_command_good:
  assumes "terminals_ok rg" "resize_command i z rg = (r, rg')"
  shows "good_answer b64 (Term_Resize i z) r \<and> terminals_ok rg'"
proof -
  obtain a rg1 where a: "active_terminal_session i rg = (a, rg1)" by fastforce
  note ok = active_session_ok [OF assms(1) a]
  have "er_code e = ''terminal_invalid''" if "size_of_request z = Inl e" for e
    using that by (auto simp: size_of_request_def map_err_Err_iff terminal_invalid_def runtime_error_new_def)
  then show ?thesis using assms a ok
    by (auto simp: resize_command_def answer_codes and_then_def map_err_def split: sum.splits)
qed

lemma poll_command_good:
  assumes "terminals_ok rg" "poll_command i rg = (r, rg')"
  shows "good_answer b64 (Term_Poll i) r \<and> terminals_ok rg'"
proof (cases "desk_get i (rg_terminals rg)")
  case None
  then show ?thesis using assms by (auto simp: poll_command_def terminal_session_of_def answer_codes)
next
  case (Some e)
  obtain r1 s' where rd: "poll_state (en_session e) = (r1, s')" by fastforce
  have b: "transcript_bounded s'" using poll_state_bounded [OF terminals_ok_get [OF assms(1) Some]] rd by simp
  have rg': "terminals_ok rg'" using assms Some rd b
    by (auto simp: poll_command_def terminal_session_of_def ssh_poll_state_def intro: store_session_ok)
  have r: "r = and_then (map_err map_remote_error (map_err (\<lambda>e. map_terminal_error e Op_Connect) r1))
      (\<lambda>st. and_then (map_terminal_status st) (\<lambda>p. Ok (Res_Status i p)))"
    using assms(2) Some rd by (auto simp: poll_command_def terminal_session_of_def ssh_poll_state_def)
  show ?thesis
  proof (cases r1)
    case (Inr st)
    then have "st_transcript_retained_bytes st \<le> MAX_TERMINAL_TRANSCRIPT_BYTES"
      using poll_state_retained rd b by (simp add: transcript_bounded_def)
    then obtain p where "map_terminal_status st = Ok p" "is_ok (terminal_status_validate p)" by (rule status_answer)
    then show ?thesis using r Inr rg' by simp
  qed (use r rg' in \<open>simp add: map_remote_error_code\<close>)
qed

lemma close_command_good:
  assumes "terminals_ok rg" "close_command i rg = (r, rg')"
  shows "good_answer b64 (Term_Close i) r \<and> terminals_ok rg'"
proof (cases "desk_get i (rg_terminals rg)")
  case None
  then show ?thesis using assms by (auto simp: close_command_def take_terminal_session_def answer_codes)
next
  case (Some e)
  obtain r1 s' where rd: "session_close (en_session e) = (r1, s')" by fastforce
  have rg': "terminals_ok rg'" using assms Some
    by (auto simp: close_command_def take_terminal_session_def finish_close_def terminals_ok_def desk_get_remove split: if_splits)
  have r: "r = and_then (map_err map_remote_error (map_err (\<lambda>e. map_terminal_error e Op_Disconnect) r1))
      (\<lambda>st. and_then (map_terminal_status st) (\<lambda>p. Ok (Res_Closed i p)))"
    using assms(2) Some rd by (auto simp: close_command_def take_terminal_session_def ssh_close_def)
  show ?thesis
  proof (cases r1)
    case (Inr st)
    then have st: "st_state st = Ts_ClosedByClient" "st_transcript_retained_bytes st \<le> MAX_TERMINAL_TRANSCRIPT_BYTES"
      using session_close_status rd terminals_ok_get [OF assms(1) Some] by (auto simp: transcript_bounded_def)
    from st(2) obtain p where "map_terminal_status st = Ok p" "is_ok (terminal_status_validate p)" "pt_state p = st_state st"
      by (rule status_answer)
    then show ?thesis using r Inr rg' st by simp
  qed (use r rg' in \<open>simp add: map_remote_error_code\<close>)
qed

lemma terminals_ok_cong: "rg_terminals rg' = rg_terminals rg \<Longrightarrow> terminals_ok rg' = terminals_ok rg"
  by (simp add: terminals_ok_def)

lemma holder_terminals [simp]:
  "rg_terminals (release_holder rg) = rg_terminals rg" "rg_terminals (finish_close rg) = rg_terminals rg"
  "rg_terminals (holder_closes rg) = rg_terminals rg" "rg_terminals (snd (acquire_session_permit rg)) = rg_terminals rg"
  by (simp_all add: registry_defs)

lemma register_terminal_good:
  assumes "terminals_ok rg" "register_terminal_session new_id (terminal_open pty) rg = (r, rg')"
  shows "terminals_ok rg' \<and> (r = Inr new_id \<or> (\<exists>e. r = Inl e \<and> er_code e \<noteq> ''terminal_response_invalid''))"
  using assms by (auto simp: register_terminal_session_def terminals_ok_def desk_get_insert transcript_bounded_def terminal_open_def
      remote_runtime_shutting_down_def runtime_error_new_def split: if_splits)

lemma open_command_good:
  assumes "terminals_ok rg" "terminal_uuid new_id \<noteq> 0" "open_command env fs new_id i z accept_new (rt, rg) = (r, rt', rg')"
  shows "good_answer b64 (Term_Open i z accept_new) r \<and> terminals_ok rg'"
proof -
  obtain a rg1 where a: "acquire_session_permit rg = (a, rg1)" by fastforce
  obtain l rt1 where l: "load_profile env i rt = (l, rt1)" by fastforce
  have t1: "terminals_ok rg1" "terminals_ok (release_holder rg1)"
    using assms(1) a holder_terminals(4) [of rg] by (simp_all add: terminals_ok_def)
  have ae: "er_code e \<noteq> ''terminal_response_invalid''" if "a = Inl e" for e
    using a that by (auto simp: acquire_session_permit_def runtime_error_new_def split: if_splits)
  have ze: "er_code e \<noteq> ''terminal_response_invalid''" if "size_of_request z = Inl e" for e
    using that by (auto simp: size_of_request_def map_err_Err_iff terminal_invalid_def runtime_error_new_def)
  show ?thesis
  proof (cases "\<exists>pty. a = Ok () \<and> (\<exists>stored adapter pz. l = Inr stored \<and> fs_terminal fs = Some adapter \<and> size_of_request z = Inr pz \<and>
      run_session_future (adapter (sp_profile stored) pz accept_new) = Inr pty)")
    case False
    then show ?thesis using assms(3) a l t1 ae ze
      by (auto simp: open_command_def runtime_error_new_def dest: load_profile_code run_session_future_code
          split: sum.splits option.splits)
  next
    case True
    then obtain pty where pty: "a = Ok ()" "(\<exists>stored adapter pz. l = Inr stored \<and> fs_terminal fs = Some adapter \<and> size_of_request z = Inr pz \<and>
      run_session_future (adapter (sp_profile stored) pz accept_new) = Inr pty)" by blast
    obtain g rg2 where g: "register_terminal_session new_id (terminal_open pty) rg1 = (g, rg2)" by fastforce
    note good = register_terminal_good [OF t1(1) g]
    have "(r, rg') = (case g of Inl e \<Rightarrow> (Err e, finish_close rg2)
        | Inr j \<Rightarrow> (Ok (Res_Opened j map_terminal_capabilities initial_status), rg2))"
      using assms(3) a l g pty by (auto simp: open_command_def split: sum.splits)
    moreover have "terminals_ok (finish_close rg2)" using good by (simp add: terminals_ok_def)
    ultimately show ?thesis using good assms(2) capabilities_valid
      by (auto simp: is_nil_def initial_status_def terminal_status_validate_def split: sum.splits)
  qed
qed

lemma terminal_command_good:
  assumes "base64_laws b64" "terminals_ok rg" "terminal_uuid new_id \<noteq> 0"
    and "terminal_command_op b64 env fs new_id command (rt, rg) = (r, rt', rg')"
  shows "good_answer b64 command r \<and> terminals_ok rg'"
proof (cases "terminal_command_validate b64 command")
  case (Inl e)
  then show ?thesis using assms by (auto simp: terminal_command_op_def answer_codes)
next
  case (Inr u)
  show ?thesis
  proof (cases command)
    case (Term_Open i z a)
    then show ?thesis using assms Inr open_command_good by (fastforce simp: terminal_command_op_def)
  next
    case (Term_Read i n)
    then show ?thesis using assms Inr read_command_good by (fastforce simp: terminal_command_op_def split: prod.splits)
  next
    case (Term_Stream i n)
    then show ?thesis using assms Inr by (auto simp: terminal_command_op_def answer_codes)
  next
    case (Term_Write i d)
    then show ?thesis using assms Inr write_command_good by (fastforce simp: terminal_command_op_def split: prod.splits)
  next
    case (Term_Resize i z)
    then show ?thesis using assms Inr resize_command_good by (fastforce simp: terminal_command_op_def split: prod.splits)
  next
    case (Term_Poll i)
    then show ?thesis using assms Inr poll_command_good by (fastforce simp: terminal_command_op_def split: prod.splits)
  next
    case (Term_Close i)
    then show ?thesis using assms Inr close_command_good by (fastforce simp: terminal_command_op_def split: prod.splits)
  qed
qed

section \<open>Histories of the service\<close>

text \<open>Commands of both kinds and steps of the other tasks, in any order. A terminal is registered by its open command.\<close>

datatype service_event =
    Sv_Terminal terminal_session_id terminal_command
  | Sv_Session session_command
  | Sv_Task registry_event

fun service_step ::
  "base64_codec \<Rightarrow> profiles_env \<Rightarrow> file_service \<Rightarrow> service_event \<Rightarrow> ('s, 'r) service_state \<Rightarrow> ('s, 'r) service_state" where
  "service_step b64 env fs (Sv_Terminal new_id command) st = snd (terminal_command_op b64 env fs new_id command st)"
| "service_step b64 env fs (Sv_Session command) st =
     (case session_command_op env fs command st of None \<Rightarrow> st | Some (_, st') \<Rightarrow> st')"
| "service_step b64 env fs (Sv_Task (Ev_RegisterTerminal _ _)) st = st"
| "service_step b64 env fs (Sv_Task ev) st = apsnd (registry_step ev) st"

definition service_run ::
  "base64_codec \<Rightarrow> profiles_env \<Rightarrow> file_service \<Rightarrow> service_event list \<Rightarrow> ('s, 'r) service_state \<Rightarrow> ('s, 'r) service_state" where
  "service_run b64 env fs evs st = fold (service_step b64 env fs) evs st"

text \<open>New identifiers are random UUIDs of version 4, which are never nil.\<close>

fun event_id_ok :: "service_event \<Rightarrow> bool" where
  "event_id_ok (Sv_Terminal i _) = (terminal_uuid i \<noteq> 0)"
| "event_id_ok _ = True"

lemma desk_reap_get: "desk_get k (snd (desk_reap i now d)) = Some e \<Longrightarrow> desk_get k d = Some e"
  by (auto simp: desk_reap_def Let_def desk_get_def reaper_goes_def reaper_ends_def desk_remove_def delete_conv'
      split: if_splits reaper_state.splits option.splits)

lemma desk_get_drain: "desk_get k (desk_drain d) = None"
  by (simp add: desk_get_def desk_drain_def)

lemma registry_step_terminals:
  assumes "terminals_ok rg" "\<And>i s. ev \<noteq> Ev_RegisterTerminal i s"
  shows "terminals_ok (registry_step ev rg)"
proof (cases ev)
  case (Ev_ReapTerminal n)
  then show ?thesis using assms(1)
    by (auto simp: terminals_ok_def reap_terminal_def split_def Let_def dest!: desk_reap_get)
next
  case (Ev_CancelTerminal n)
  then show ?thesis using assms(1) desk_get_entries [of "desk_cancel n (rg_terminals rg)" "rg_terminals rg"]
    by (simp add: terminals_ok_def)
qed (use assms in \<open>auto simp: terminals_ok_def registry_defs reap_file_def desk_get_remove desk_get_touch desk_get_drain split_def Let_def split: option.splits if_splits\<close>)

lemma file_session_terminals:
  "file_session i rg = (x, rg2) \<Longrightarrow> rg_terminals rg2 = rg_terminals rg"
  "take_file_session i rg = (x, rg2) \<Longrightarrow> rg_terminals rg2 = rg_terminals rg"
  "register_file_session s rg = (y, rg2) \<Longrightarrow> rg_terminals rg2 = rg_terminals rg"
  by (auto simp: registry_defs split: option.splits if_splits)

lemma session_command_terminals:
  assumes "session_command_op env fs command (rt, rg) = Some (r, rt', rg')"
  shows "rg_terminals rg' = rg_terminals rg"
proof -
  obtain a rg1 where a: "acquire_session_permit rg = (a, rg1)" by fastforce
  have 1: "rg_terminals rg1 = rg_terminals rg" using holder_terminals(4) [of rg] a by simp
  note keep = file_session_terminals
  have c: "rg_terminals (snd (snd (connect_command env fs i (rt, rg)))) = rg_terminals rg" for i
    by (auto simp: connect_command_def a 1 dest: keep split: prod.splits sum.splits option.splits)
  have d: "rg_terminals (snd (disconnect_command fs i rg)) = rg_terminals rg" for i
    by (auto simp: disconnect_command_def dest: keep split: prod.splits sum.splits)
  have w: "rg_terminals (snd (with_session i f rg)) = rg_terminals rg" for i f
    by (auto simp: with_session_def dest: keep split: prod.splits sum.splits)
  have l: "rg_terminals rg2 = rg_terminals rg" if "list_command fs q rg = Some (x, rg2)" for q x rg2
    using that by (auto simp: list_command_def dest: keep split: prod.splits sum.splits)
  show ?thesis using assms c d w l
    by (auto simp: session_command_op_def Let_def split: sum.splits session_command.splits prod.splits) (metis snd_conv)+
qed

lemma service_step_terminals:
  assumes "base64_laws b64" "terminals_ok (snd st)" "event_id_ok ev"
  shows "terminals_ok (snd (service_step b64 env fs ev st))"
proof (cases ev)
  case (Sv_Terminal i c)
  obtain rt rg where st: "st = (rt, rg)" by fastforce
  obtain r rt' rg' where run: "terminal_command_op b64 env fs i c (rt, rg) = (r, rt', rg')" by (metis prod_cases3)
  show ?thesis using terminal_command_good [OF assms(1) _ _ run] assms st Sv_Terminal run by simp
next
  case (Sv_Session c)
  obtain rt rg where st: "st = (rt, rg)" by fastforce
  show ?thesis
  proof (cases "session_command_op env fs c (rt, rg)")
    case (Some x)
    obtain r rt' rg' where x: "x = (r, rt', rg')" by (metis prod_cases3)
    show ?thesis using session_command_terminals [OF Some [unfolded x]] assms(2) st Sv_Session Some x
      by (simp add: terminals_ok_def)
  qed (use assms st Sv_Session in simp)
next
  case (Sv_Task e)
  show ?thesis
  proof (cases "\<exists>i s. e = Ev_RegisterTerminal i s")
    case False
    then have "service_step b64 env fs ev st = apsnd (registry_step e) st" using Sv_Task by (cases e) auto
    then show ?thesis using registry_step_terminals assms(2) False by (cases st) auto
  qed (use Sv_Task assms in auto)
qed

lemma service_run_terminals:
  "base64_laws b64 \<Longrightarrow> terminals_ok (snd st) \<Longrightarrow> list_all event_id_ok evs \<Longrightarrow>
   terminals_ok (snd (service_run b64 env fs evs st))"
  by (induction evs arbitrary: st) (simp_all add: service_run_def service_step_terminals)

text \<open>C30: After any history of commands and other tasks, the answer to a terminal command satisfies the
  public contract of that command: the session it names, the bounds on output, on the
  accepted input and on the transcript, the state of an opened and of a closed terminal. The daemon
  never gives up an answer of its own as invalid.
\<close>

theorem terminal_answers_valid:
  assumes "base64_laws b64" "list_all event_id_ok evs" "terminal_uuid new_id \<noteq> 0"
    and "terminal_command_op b64 env fs new_id command (service_run b64 env fs evs (rt, registry_new)) = (r, st)"
  shows "(\<forall>res. r = Ok res \<longrightarrow> terminal_result_validate_for b64 res command = Ok ()) \<and>
    (\<forall>e. r = Err e \<longrightarrow> er_code e \<noteq> ''terminal_response_invalid'')"
proof -
  have "terminals_ok (snd (rt, registry_new))" by (simp add: terminals_ok_def registry_new_def desk_get_def)
  then have ok: "terminals_ok (snd (service_run b64 env fs evs (rt, registry_new)))"
    using service_run_terminals assms(1,2) by blast
  obtain rt1 rg1 where s1: "service_run b64 env fs evs (rt, registry_new) = (rt1, rg1)" by fastforce
  obtain rt2 rg2 where s2: "st = (rt2, rg2)" by fastforce
  have "good_answer b64 command r"
    using terminal_command_good [OF assms(1) _ assms(3), of rg1 env fs command rt1 r rt2 rg2] ok assms(4) s1 s2 by simp
  then show ?thesis by (auto simp: terminal_result_validate_for_def)
qed

section \<open>Witnesses\<close>

text \<open>A codec with the laws of base64: the bytes, zeros, and the number of bytes that are missing to a multiple of three.\<close>

definition sample_base64 :: base64_codec where
  "sample_base64 =
     \<lparr>b64_encode = (\<lambda>bs. let k = (length bs + 2) div 3 in if bs = [] then [] else
        map (\<lambda>b. char_of (unat b)) bs @ replicate (4 * k - length bs - 1) (CHR 0x00) @ [char_of (3 * k - length bs)]),
      b64_decode = (\<lambda>s. if s = [] then Some [] else
        Some (map (\<lambda>c. of_nat (of_char c)) (take (3 * (length s div 4) - of_char (last s)) s)))\<rparr>"

lemma sample_base64_laws: "base64_laws sample_base64"
  unfolding base64_laws_def
proof (intro allI conjI)
  fix bs :: bytes
  let ?k = "(length bs + 2) div 3"
  let ?s = "b64_encode sample_base64 bs"
  show len: "length ?s = 4 * ?k"
  proof (cases bs)
    case (Cons b bs')
    then show ?thesis by (simp add: sample_base64_def Let_def)
  qed (simp add: sample_base64_def)
  show "b64_decode sample_base64 ?s = Some bs"
  proof (cases "bs = []")
    case False
    have s: "?s = map (\<lambda>b. char_of (unat b)) bs @ replicate (4 * ?k - length bs - 1) (CHR 0x00) @ [char_of (3 * ?k - length bs)]"
      using False by (simp add: sample_base64_def Let_def)
    have "3 * ?k - length bs < 256" by arith
    then have r: "(of_char (last ?s) :: nat) = 3 * ?k - length bs" unfolding s by simp
    have "length bs \<le> 3 * ?k" by arith
    then have "3 * (length ?s div 4) - of_char (last ?s) = length bs" unfolding r len by simp
    moreover have "take (length bs) ?s = map (\<lambda>b. char_of (unat b)) bs" unfolding s by simp
    moreover have "of_nat (of_char (char_of (unat b)) :: nat) = b" for b :: u8
      using unat_less_pow [of b] by simp
    moreover have "?s \<noteq> []" unfolding s by simp
    ultimately show ?thesis by (simp add: sample_base64_def o_def)
  qed (simp add: sample_base64_def)
qed

definition sample_service :: file_service where
  "sample_service =
     \<lparr>fs_adapters = (\<lambda>_. None), fs_connect = (\<lambda>_. None), fs_disconnect = (\<lambda>_. None), fs_list = (\<lambda>_ _. None),
      fs_stat = (\<lambda>_ _. None), fs_create_directory = (\<lambda>_ _. None), fs_rename = (\<lambda>_ _ _. None), fs_delete = (\<lambda>_ _. None),
      fs_terminal = Some (\<lambda>_ _ _. Some (Ok (sample_pty [Rd_Bytes [1, 2, 3]] [])))\<rparr>"

definition sample_profile_runtime :: "(memory_store, unit) profile_runtime" where
  "sample_profile_runtime = \<lparr>rt_provider_live = True, rt_executor = None,
     pf_store = Some ([sample_profile_row], []), pf_poisoned = False, pf_inactive_refs = None\<rparr>"

definition sample_size :: terminal_size where
  "sample_size = \<lparr>tz_rows = 24, tz_columns = 80, tz_pixel_width = 0, tz_pixel_height = 0\<rparr>"

definition sample_history :: "service_event list" where
  "sample_history = [Sv_Terminal (TerminalSessionId 5) (Term_Open (ProfileId 1) sample_size False)]"

abbreviation sample_desk :: "read_event list \<Rightarrow> bytes \<Rightarrow> (terminal_session_id, terminal_session) desk" where
  "sample_desk rs seen \<equiv> desk_insert (TerminalSessionId 5)
     ((terminal_open (sample_pty rs []))\<lparr>ts_transcript := \<lparr>bb_bytes = seen, bb_dropped_bytes = 0\<rparr>\<rparr>) 0
     \<lparr>dk_entries = [], dk_reapers = []\<rparr>"

lemma sample_load: "load_profile sample_profiles_env (ProfileId 1) sample_profile_runtime = (Ok sample_stored, sample_profile_runtime)"
proof -
  have "find_row sample_profiles_env (ProfileId 1) [sample_profile_row] = Some sample_profile_row"
    using sample_id_text by (simp add: find_row_def) (simp add: sample_profile_row_def)
  then show ?thesis using sample_profile_facts(3)
    by (simp add: load_profile_def load_profile_by_id_def u_bind_def u_lift_def statement_def sample_profile_runtime_def)
qed

lemma sample_opened:
  "service_run sample_base64 sample_profiles_env sample_service sample_history (sample_profile_runtime, registry_new) =
     (sample_profile_runtime, registry_new\<lparr>rg_free := 31, rg_terminals := sample_desk [Rd_Bytes [1, 2, 3]] []\<rparr>)"
  using sample_load
  by (simp add: service_run_def sample_history_def terminal_command_op_def open_command_def registry_defs registry_new_def
      sample_service_def sample_size_def terminal_size_validate_def size_of_request_def with_pixels_def run_session_future_def
      MAX_TERMINAL_SIZE_def MAX_TERMINAL_PIXEL_DIMENSION_def MAX_PTY_ROWS_def MAX_PTY_COLUMNS_def MAX_PTY_PIXEL_DIMENSION_def
      MAX_REMOTE_SESSIONS_def desk_get_def terminal_open_def word_less_nat_alt)

lemma sample_read:
  "read_command sample_base64 (TerminalSessionId 5) 2
     (registry_new\<lparr>rg_free := 31, rg_terminals := sample_desk [Rd_Bytes [1, 2, 3]] []\<rparr>) =
   (Ok (Res_Read (TerminalSessionId 5) (Pub_Data (TerminalData (b64_encode sample_base64 [1, 2])))),
    registry_new\<lparr>rg_free := 31, rg_terminals := sample_desk [Rd_Bytes [3]] [1, 2]\<rparr>)"
  by (simp add: read_command_def terminal_session_of_def registry_new_def desk_get_def desk_insert_def ssh_read_output_def
      read_output_def pending_take_def pty_read_def sample_pty_def terminal_open_def transcript_push_def bounded_push_def
      MAX_TERMINAL_OUTPUT_BYTES_def MAX_TERMINAL_TRANSCRIPT_BYTES_def public_read_of_def data_from_bytes_def MAX_TERMINAL_IPC_BYTES_def
      store_session_def desk_set_session_def Let_def)

theorem terminal_answers_valid_witness:
  "terminal_result_validate_for sample_base64
     (Res_Read (TerminalSessionId 5) (Pub_Data (TerminalData (b64_encode sample_base64 [1, 2])))) (Term_Read (TerminalSessionId 5) 2) = Ok ()"
proof -
  have valid: "terminal_command_validate sample_base64 (Term_Read (TerminalSessionId 5) 2) = Ok ()"
    by (simp add: read_limit_validate_def MAX_TERMINAL_IPC_BYTES_def word_less_nat_alt)
  have run: "terminal_command_op sample_base64 sample_profiles_env sample_service (TerminalSessionId 9) (Term_Read (TerminalSessionId 5) 2)
      (service_run sample_base64 sample_profiles_env sample_service sample_history (sample_profile_runtime, registry_new)) =
    (Ok (Res_Read (TerminalSessionId 5) (Pub_Data (TerminalData (b64_encode sample_base64 [1, 2])))),
     sample_profile_runtime, registry_new\<lparr>rg_free := 31, rg_terminals := sample_desk [Rd_Bytes [3]] [1, 2]\<rparr>)"
    unfolding sample_opened terminal_command_op_def using valid sample_read by simp
  have "list_all event_id_ok sample_history" "terminal_uuid (TerminalSessionId 9) \<noteq> 0" by (simp_all add: sample_history_def)
  from terminal_answers_valid [OF sample_base64_laws this run] show ?thesis by blast
qed

definition sample_directory_query :: directory_query where
  "sample_directory_query = \<lparr>dq_session_id = SessionId 1, dq_path = RemotePath ''/'', dq_offset = 0, dq_limit = 2\<rparr>"

definition sample_remote_entry :: "string \<Rightarrow> remote_entry" where
  "sample_remote_entry name = \<lparr>ent_name = name, ent_path = RemotePath name, ent_kind = Entry_File,
     ent_identity = \<lparr>oi_size_bytes = None, oi_modified_at_unix_ms = None, oi_etag = None\<rparr>, ent_unix_mode = None,
     ent_capabilities = CapabilityMatrix []\<rparr>"

theorem directory_pages_complete_witness:
  "follow_pages 4 sample_directory_query (map sample_remote_entry [''a'', ''b'', ''c'']) =
     Some (map sample_remote_entry [''a'', ''b'', ''c''])"
proof -
  have "directory_query_validate sample_directory_query = Ok ()" "dq_offset sample_directory_query = 0"
    by (simp_all add: directory_query_validate_def sample_directory_query_def MAX_REMOTE_DIRECTORY_PAGE_SIZE_def)
  moreover have "\<not> list_ex remote_entry_is_unsafe (map sample_remote_entry [''a'', ''b'', ''c''])"
    by (simp add: remote_entry_is_unsafe_def sample_remote_entry_def)
  ultimately have "follow_pages (Suc 3) sample_directory_query (map sample_remote_entry [''a'', ''b'', ''c'']) =
      Some (map sample_remote_entry [''a'', ''b'', ''c''])"
    using conjunct1 [OF directory_pages_complete [of sample_directory_query "map sample_remote_entry [''a'', ''b'', ''c'']"]]
    by (simp add: numeral_3_eq_3 del: follow_pages.simps)
  then show ?thesis by (simp add: eval_nat_numeral del: follow_pages.simps)
qed

end
