(* ===== verification/Usage_Buckets.thy ===== *)
theory Usage_Buckets
  imports Rust_Text
begin

text \<open>
  Clock samples and calendar buckets of the usage accounting (crates/usage/src/clock.rs and
  bucket.rs): the interpolation of a sample, the split of a counted span into local minutes,
  and the identity of the daily and weekly bucket of a sample. The calendar itself is the
  chrono crate, a parameter: a record of the calls the code makes. The loop of the split ends,
  never underflows, and distributes exactly the monotonic span over the minutes.
\<close>

section \<open>Signed integers\<close>

definition i64_checked :: "int \<Rightarrow> i64 option" where
  "i64_checked x = (if i64_min \<le> x \<and> x \<le> i64_max then Some x else None)"

definition is_i64 :: "int \<Rightarrow> bool" where
  "is_i64 x = (i64_min \<le> x \<and> x \<le> i64_max)"

definition is_i32 :: "int \<Rightarrow> bool" where
  "is_i32 x = (- (2 ^ 31) \<le> x \<and> x < 2 ^ 31)"

section \<open>Clock samples\<close>

record clock_sample =
  cs_boot_id :: string
  cs_monotonic_ns :: u64
  cs_wall_utc_ms :: i64
  cs_utc_offset_seconds :: int
  cs_timezone_id :: string

text \<open>The fields at their width.\<close>

definition sample_typed :: "clock_sample \<Rightarrow> bool" where
  "sample_typed s = (is_i64 (cs_wall_utc_ms s) \<and> is_i32 (cs_utc_offset_seconds s))"

text \<open>Rust's integer division truncates towards zero.\<close>

definition rust_div :: "int \<Rightarrow> int \<Rightarrow> int" where
  "rust_div a b = sgn a * sgn b * (\<bar>a\<bar> div \<bar>b\<bar>)"

definition interpolate_monotonic :: "clock_sample \<Rightarrow> clock_sample \<Rightarrow> u64 \<Rightarrow> clock_sample option" where
  "interpolate_monotonic self end_s target =
     (case checked_sub (cs_monotonic_ns end_s) (cs_monotonic_ns self) of
        None \<Rightarrow> None
      | Some mono_span \<Rightarrow>
          if target < cs_monotonic_ns self \<or> cs_monotonic_ns end_s < target \<or> mono_span = 0
          then None
          else case i64_checked (cs_wall_utc_ms end_s - cs_wall_utc_ms self) of
            None \<Rightarrow> None
          | Some wall_span \<Rightarrow>
              let elapsed = target - cs_monotonic_ns self;
                  wall_delta = rust_div (wall_span * uint elapsed) (uint mono_span)
              in case i64_checked (cs_wall_utc_ms self + wall_delta) of
                   None \<Rightarrow> None
                 | Some wall \<Rightarrow> Some (self\<lparr>cs_monotonic_ns := target, cs_wall_utc_ms := wall\<rparr>))"

text \<open>\<open>monotonic_ns\<close> on the pair of fields \<open>clock_gettime\<close> filled in; \<open>None\<close> stands for its
  failure and for every \<open>io::Error::other\<close> of the conversion.\<close>

definition monotonic_of_timespec :: "(i64 \<times> i64) option \<Rightarrow> u64 option" where
  "monotonic_of_timespec ts =
     (case ts of
        None \<Rightarrow> None
      | Some (sec, nsec) \<Rightarrow>
          (case u64_of_i64 sec of
             None \<Rightarrow> None
           | Some seconds \<Rightarrow>
               (case u64_of_i64 nsec of
                  None \<Rightarrow> None
                | Some nanos \<Rightarrow>
                    if unat seconds * 1000000000 < 2 ^ 64
                    then checked_add (seconds * 1000000000) nanos
                    else None)))"

section \<open>The calendar\<close>

text \<open>
  The calls of chrono the code makes, on its own types \<open>'o\<close> (\<open>FixedOffset\<close>),
  \<open>'d\<close> (\<open>DateTime<FixedOffset>\<close>) and \<open>'n\<close> (\<open>NaiveDate\<close>). \<open>ch_at_millis\<close> is
  \<open>from_timestamp_millis\<close> followed by \<open>with_timezone\<close>; \<open>ch_midnight\<close> is \<open>and_hms_opt(0,0,0)\<close>
  and \<open>from_local_datetime(..).single()\<close> at an offset.
\<close>

record ('o, 'd, 'n) chrono =
  ch_east_opt :: "int \<Rightarrow> 'o option"
  ch_local_minus_utc :: "'o \<Rightarrow> int"
  ch_at_millis :: "i64 \<Rightarrow> 'o \<Rightarrow> 'd option"
  ch_offset :: "'d \<Rightarrow> 'o"
  ch_with_second_0 :: "'d \<Rightarrow> 'd option"
  ch_with_nanosecond_0 :: "'d \<Rightarrow> 'd option"
  ch_timestamp_millis :: "'d \<Rightarrow> i64"
  ch_date_naive :: "'d \<Rightarrow> 'n"
  ch_midnight :: "'o \<Rightarrow> 'n \<Rightarrow> 'd option"
  ch_days_from_monday :: "'d \<Rightarrow> nat"
  ch_sub_days :: "'n \<Rightarrow> nat \<Rightarrow> 'n option"
  ch_format_minute :: "'d \<Rightarrow> string"
  ch_format_day :: "'d \<Rightarrow> string"
  ch_iso_year :: "'d \<Rightarrow> int"
  ch_iso_week :: "'d \<Rightarrow> nat"

section \<open>Buckets\<close>

record bucket_slice =
  bs_minute_key :: string
  bs_day_key :: string
  bs_week_key :: string
  bs_timezone_id :: string
  bs_utc_offset_seconds :: int
  bs_bucket_start_utc_ms :: i64
  bs_day_start_utc_ms :: i64
  bs_week_start_utc_ms :: i64
  bs_last_wall_utc_ms :: i64
  bs_duration_ns :: u64

datatype summary_kind = DailySummary | WeeklySummary

record summary_bucket =
  sb_kind :: summary_kind
  sb_bucket_key :: string
  sb_timezone_id :: string
  sb_utc_offset_seconds :: int
  sb_bucket_start_utc_ms :: i64

datatype bucket_error =
    BootChanged
  | MonotonicRegression
  | TimezoneChanged
  | WallClockRegression
  | WallClockJump
  | InvalidWallTime

definition MINUTE_MS :: i64 where "MINUTE_MS = 60000"
definition MAX_WALL_DRIFT_NS :: int where "MAX_WALL_DRIFT_NS = 5000000000"

text \<open>The formatting of \<open>{:04}-W{:02}\<close>: a sign counts
  towards the width.\<close>

definition padded_int :: "nat \<Rightarrow> int \<Rightarrow> string" where
  "padded_int w x = (if x < 0 then CHR ''-'' # padded (w - 1) (nat (- x)) else padded w (nat x))"

definition week_key_of :: "int \<Rightarrow> nat \<Rightarrow> string" where
  "week_key_of year week = padded_int 4 year @ ''-W'' @ padded 2 week"

definition local_datetime :: "('o, 'd, 'n) chrono \<Rightarrow> i64 \<Rightarrow> int \<Rightarrow> (bucket_error, 'd) result" where
  "local_datetime ch wall offset_seconds =
     and_then (ok_or (ch_east_opt ch offset_seconds) InvalidWallTime) (\<lambda>offset.
     ok_or (ch_at_millis ch wall offset) InvalidWallTime)"

definition local_summary_identity ::
  "('o, 'd, 'n) chrono \<Rightarrow> 'd \<Rightarrow> (bucket_error, string \<times> string \<times> i64 \<times> i64) result" where
  "local_summary_identity ch local =
     (let offset = ch_offset ch local; day = ch_date_naive ch local in
      and_then (ok_or (ch_midnight ch offset day) InvalidWallTime) (\<lambda>day_start.
      and_then (ok_or (ch_sub_days ch day (ch_days_from_monday ch local)) InvalidWallTime) (\<lambda>week_day.
      and_then (ok_or (ch_midnight ch offset week_day) InvalidWallTime) (\<lambda>week_start.
      Ok (ch_format_day ch local, week_key_of (ch_iso_year ch local) (ch_iso_week ch local),
          ch_timestamp_millis ch day_start, ch_timestamp_millis ch week_start)))))"

definition for_sample ::
  "('o, 'd, 'n) chrono \<Rightarrow> summary_kind \<Rightarrow> clock_sample \<Rightarrow> (bucket_error, summary_bucket) result" where
  "for_sample ch kind s =
     and_then (local_datetime ch (cs_wall_utc_ms s) (cs_utc_offset_seconds s)) (\<lambda>local.
     and_then (local_summary_identity ch local) (\<lambda>(day_key, week_key, day_start, week_start).
     Ok \<lparr>sb_kind = kind,
         sb_bucket_key = (case kind of DailySummary \<Rightarrow> day_key | WeeklySummary \<Rightarrow> week_key),
         sb_timezone_id = cs_timezone_id s,
         sb_utc_offset_seconds = cs_utc_offset_seconds s,
         sb_bucket_start_utc_ms =
           (case kind of DailySummary \<Rightarrow> day_start | WeeklySummary \<Rightarrow> week_start)\<rparr>))"

definition bucket_for_local_millis ::
  "('o, 'd, 'n) chrono \<Rightarrow> i64 \<Rightarrow> i64 \<Rightarrow> clock_sample \<Rightarrow> u64 \<Rightarrow> (bucket_error, bucket_slice) result" where
  "bucket_for_local_millis ch local_ms slice_end sample duration =
     and_then (ok_or (ch_east_opt ch (cs_utc_offset_seconds sample)) InvalidWallTime) (\<lambda>offset.
     and_then (ok_or (i64_checked (local_ms - cs_utc_offset_seconds sample * 1000)) InvalidWallTime) (\<lambda>utc_ms.
     and_then (local_datetime ch utc_ms (cs_utc_offset_seconds sample)) (\<lambda>local.
     and_then (ok_or (Option.bind (ch_with_second_0 ch local) (ch_with_nanosecond_0 ch)) InvalidWallTime) (\<lambda>minute.
     and_then (local_summary_identity ch local) (\<lambda>(day_key, week_key, day_start, week_start).
     Ok \<lparr>bs_minute_key = ch_format_minute ch minute,
         bs_day_key = day_key,
         bs_week_key = week_key,
         bs_timezone_id = cs_timezone_id sample,
         bs_utc_offset_seconds = ch_local_minus_utc ch offset,
         bs_bucket_start_utc_ms = ch_timestamp_millis ch minute,
         bs_day_start_utc_ms = day_start,
         bs_week_start_utc_ms = week_start,
         bs_last_wall_utc_ms = slice_end - cs_utc_offset_seconds sample * 1000,
         bs_duration_ns = duration\<rparr>)))))"

text \<open>
  The \<open>while\<close> loop. The subtraction \<open>cumulative_ns - assigned_ns\<close> is the word subtraction;
  \<open>split_loop_exact\<close> below shows that it never wraps.
\<close>

definition next_minute :: "i64 \<Rightarrow> i64 option" where
  "next_minute cursor =
     Option.bind (i64_checked (cursor div MINUTE_MS + 1)) (\<lambda>minute. i64_checked (minute * MINUTE_MS))"

definition cumulative_at :: "u64 \<Rightarrow> i64 \<Rightarrow> i64 \<Rightarrow> i64 \<Rightarrow> (bucket_error, u64) result" where
  "cumulative_at span local_start local_end slice_end =
     (if slice_end - local_start < 0 \<or> local_end - local_start < 0 then Err InvalidWallTime
      else if slice_end = local_end then Ok span
      else let q = unat span * nat (slice_end - local_start) div nat (local_end - local_start)
           in if q < 2 ^ 64 then Ok (of_nat q) else Err InvalidWallTime)"

lemma next_minute_eq: "next_minute c = Some n \<Longrightarrow> n = c div 60000 * 60000 + 60000"
  by (auto simp: next_minute_def i64_checked_def MINUTE_MS_def bind_eq_Some_conv algebra_simps
      split: if_splits)

lemma next_minute_gt: "next_minute c = Some n \<Longrightarrow> c < n"
  using next_minute_eq [of c n] div_mult_mod_eq [of c 60000] pos_mod_bound [of 60000 c] by linarith

function split_loop ::
  "('o, 'd, 'n) chrono \<Rightarrow> clock_sample \<Rightarrow> u64 \<Rightarrow> i64 \<Rightarrow> i64 \<Rightarrow> i64 \<Rightarrow> u64 \<Rightarrow> bucket_slice list \<Rightarrow>
   (bucket_error, bucket_slice list) result" where
  "split_loop ch start span local_start local_end cursor assigned slices =
     (if \<not> cursor < local_end then Ok slices
      else case next_minute cursor of
        None \<Rightarrow> Err InvalidWallTime
      | Some next \<Rightarrow>
          let slice_end = min next local_end in
          and_then (cumulative_at span local_start local_end slice_end) (\<lambda>cumulative.
          let duration = cumulative - assigned in
          and_then (if 0 < duration
                    then and_then (bucket_for_local_millis ch cursor slice_end start duration)
                           (\<lambda>s. Ok (slices @ [s]))
                    else Ok slices) (\<lambda>slices'.
          split_loop ch start span local_start local_end slice_end cumulative slices')))"
  by pat_completeness auto
termination
  by (relation "measure (\<lambda>(ch, start, span, ls, le, cursor, assigned, slices). nat (le - cursor))")
     (auto dest!: next_minute_gt simp: min_def)

declare split_loop.simps [simp del]

definition split_into_local_minutes ::
  "('o, 'd, 'n) chrono \<Rightarrow> clock_sample \<Rightarrow> clock_sample \<Rightarrow> (bucket_error, bucket_slice list) result" where
  "split_into_local_minutes ch start end_s =
     (if cs_boot_id start \<noteq> cs_boot_id end_s then Err BootChanged
      else if cs_monotonic_ns end_s \<le> cs_monotonic_ns start then Err MonotonicRegression
      else if cs_utc_offset_seconds start \<noteq> cs_utc_offset_seconds end_s \<or>
              cs_timezone_id start \<noteq> cs_timezone_id end_s then Err TimezoneChanged
      else and_then (ok_or (i64_checked (cs_wall_utc_ms end_s - cs_wall_utc_ms start)) WallClockRegression) (\<lambda>wall_ms.
      if wall_ms \<le> 0 then Err WallClockRegression
      else let monotonic = cs_monotonic_ns end_s - cs_monotonic_ns start;
               wall_ns = wall_ms * 1000000
      in if MAX_WALL_DRIFT_NS < \<bar>wall_ns - uint monotonic\<bar> then Err WallClockJump
      else let offset_ms = cs_utc_offset_seconds start * 1000 in
      and_then (ok_or (i64_checked (cs_wall_utc_ms start + offset_ms)) InvalidWallTime) (\<lambda>local_start.
      and_then (ok_or (i64_checked (cs_wall_utc_ms end_s + offset_ms)) InvalidWallTime) (\<lambda>local_end.
      split_loop ch start monotonic local_start local_end local_start 0 []))))"

section \<open>The split is exact\<close>

lemma split_loop_done: "le \<le> cursor \<Longrightarrow> split_loop ch start span ls le cursor assigned slices = Ok slices"
  by (simp add: split_loop.simps)

lemma split_loop_push:
  assumes "cursor < le" "next_minute cursor = Some n" "cumulative_at span ls le (min n le) = Ok c"
    "0 < c - assigned" "bucket_for_local_millis ch cursor (min n le) start (c - assigned) = Ok s"
  shows "split_loop ch start span ls le cursor assigned slices =
         split_loop ch start span ls le (min n le) c (slices @ [s])"
  using assms by (subst split_loop.simps) (simp add: Let_def)

text \<open>The share of the span counted up to a local instant: the floor of the proportion.\<close>

definition share :: "u64 \<Rightarrow> i64 \<Rightarrow> i64 \<Rightarrow> i64 \<Rightarrow> nat" where
  "share span ls le t = unat span * nat (t - ls) div nat (le - ls)"

abbreviation slices_total :: "bucket_slice list \<Rightarrow> nat" where
  "slices_total xs \<equiv> sum_list (map (unat \<circ> bs_duration_ns) xs)"

lemma share_start [simp]: "share span ls le ls = 0"
  by (simp add: share_def)

lemma share_end: "ls < le \<Longrightarrow> share span ls le le = unat span"
  by (simp add: share_def)

lemma share_mono: "s \<le> t \<Longrightarrow> share span ls le s \<le> share span ls le t"
  by (simp add: share_def div_le_mono mult_le_mono2 nat_mono)

lemma share_less_end: "ls < le \<Longrightarrow> t < le \<Longrightarrow> 0 < span \<Longrightarrow> share span ls le t < unat span"
  by (auto simp: share_def less_mult_imp_div_less unat_gt_0 nat_less_eq_zless word_gt_0 mult.commute)

lemma share_bound: "ls < le \<Longrightarrow> t \<le> le \<Longrightarrow> share span ls le t < 2 ^ 64"
  using share_mono [of t le span ls le] share_end [of ls le span] unat_less_pow [of span] by simp

lemma cumulative_at_share:
  assumes "ls < le" "ls \<le> t" "t \<le> le"
  shows "\<exists>c. cumulative_at span ls le t = Ok c \<and> unat c = share span ls le t"
  using assms share_bound [of ls le t span] share_end [of ls le span]
  by (auto simp: cumulative_at_def Let_def share_def [symmetric] unsigned_of_nat take_bit_nat_eq_self)

lemma next_minute_same:
  assumes "next_minute c = Some n" "c < t" "t \<le> n"
  shows "(t - 1) div MINUTE_MS = c div MINUTE_MS"
proof -
  have "c div 60000 \<le> (t - 1) div 60000" using assms(2) by (simp add: zdiv_mono1)
  moreover have "(t - 1) div 60000 * 60000 < c div 60000 * 60000 + 60000"
    using assms(3) next_minute_eq [OF assms(1)] div_mult_mod_eq [of "t - 1" 60000]
      pos_mod_sign [of 60000 "t - 1"] by linarith
  ultimately show ?thesis by (simp add: MINUTE_MS_def)
qed

text \<open>
  What one run of the loop appends from a cursor on: every slice is the bucket of a span that
  stays within one local minute, and the durations up to a slice add up to the share at its end.
\<close>

definition slice_of ::
  "('o, 'd, 'n) chrono \<Rightarrow> clock_sample \<Rightarrow> i64 \<Rightarrow> bucket_slice \<Rightarrow> bool" where
  "slice_of ch start le s =
     (\<exists>c. let t = bs_last_wall_utc_ms s + cs_utc_offset_seconds start * 1000 in
        c < t \<and> t \<le> le \<and> (t - 1) div MINUTE_MS = c div MINUTE_MS \<and> 0 < bs_duration_ns s \<and>
        bucket_for_local_millis ch c t start (bs_duration_ns s) = Ok s)"

definition slices_from ::
  "('o, 'd, 'n) chrono \<Rightarrow> clock_sample \<Rightarrow> u64 \<Rightarrow> i64 \<Rightarrow> i64 \<Rightarrow> i64 \<Rightarrow> bucket_slice list \<Rightarrow> bool" where
  "slices_from ch start span ls le cursor xs =
     (let off = cs_utc_offset_seconds start * 1000 in
      (\<forall>x \<in> set xs. slice_of ch start le x \<and> cursor < bs_last_wall_utc_ms x + off) \<and>
      sorted_wrt (<) (map bs_last_wall_utc_ms xs) \<and>
      (\<forall>k < length xs. share span ls le cursor + slices_total (take (Suc k) xs) =
         share span ls le (bs_last_wall_utc_ms (xs ! k) + off)) \<and>
      (cursor < le \<longrightarrow> xs \<noteq> [] \<and> bs_last_wall_utc_ms (last xs) + off = le))"

lemma bucket_for_local_millis_fields:
  assumes "bucket_for_local_millis ch c t start d = Ok s"
  shows "bs_last_wall_utc_ms s = t - cs_utc_offset_seconds start * 1000" "bs_duration_ns s = d"
    "bs_timezone_id s = cs_timezone_id start"
  using assms by (auto simp: bucket_for_local_millis_def and_then_eq_Ok)

lemma slices_from_skip:
  assumes "slices_from ch start span ls le t xs" "c \<le> t" "share span ls le c = share span ls le t"
    "t < le \<or> \<not> c < le"
  shows "slices_from ch start span ls le c xs"
  using assms by (force simp: slices_from_def Let_def)

lemma slices_from_Cons:
  assumes "slices_from ch start span ls le t xs" "slice_of ch start le s" "c < t"
    "bs_last_wall_utc_ms s + cs_utc_offset_seconds start * 1000 = t" "t \<le> le"
    "share span ls le c + unat (bs_duration_ns s) = share span ls le t" 
  shows "slices_from ch start span ls le c (s # xs)"
proof -
  have "share span ls le c + slices_total (take (Suc k) (s # xs)) =
      share span ls le (bs_last_wall_utc_ms ((s # xs) ! k) + cs_utc_offset_seconds start * 1000)"
    if "k < length (s # xs)" for k
    using that assms by (cases k) (auto simp: slices_from_def Let_def)
  moreover have "\<forall>x \<in> set xs. bs_last_wall_utc_ms s < bs_last_wall_utc_ms x"
    using assms(1,4) by (force simp: slices_from_def Let_def)
  moreover have "le \<le> t \<Longrightarrow> xs = []"
    using assms(1) by (cases xs) (auto simp: slices_from_def slice_of_def Let_def)
  ultimately show ?thesis
    using assms unfolding slices_from_def Let_def
    by (auto simp del: take_Suc_Cons) fastforce+
qed

lemma split_loop_exact:
  assumes "split_loop ch start span ls le cursor assigned slices = Ok out"
    "ls < le" "ls \<le> cursor" "cursor \<le> le" "0 < span" "unat assigned = share span ls le cursor"
  shows "\<exists>xs. out = slices @ xs \<and> slices_from ch start span ls le cursor xs"
  using assms
proof (induction ch start span ls le cursor assigned slices rule: split_loop.induct)
  case (1 ch start span ls le cursor assigned slices)
  show ?case
  proof (cases "cursor < le")
    case False
    then show ?thesis using "1.prems" by (simp add: split_loop.simps slices_from_def Let_def)
  next
    case True
    then obtain n where n: "next_minute cursor = Some n"
      using "1.prems"(1) by (subst (asm) split_loop.simps) (auto split: option.splits)
    define t where "t = min n le"
    have t: "cursor < t" "t \<le> le" "t \<le> n" "ls \<le> t"
      using next_minute_gt [OF n] True "1.prems"(3) by (auto simp: t_def)
    obtain c where c: "cumulative_at span ls le t = Ok c" "unat c = share span ls le t"
      using cumulative_at_share [OF "1.prems"(2) t(4) t(2)] by blast
    have le: "assigned \<le> c"
      using c(2) "1.prems"(6) t(1) share_mono [of cursor t span ls le] by (simp add: word_le_nat_alt)
    have d: "share span ls le cursor + unat (c - assigned) = share span ls le t"
      using le c(2) "1.prems"(6) by (simp add: unat_sub word_le_nat_alt)
    have same: "(t - 1) div MINUTE_MS = cursor div MINUTE_MS"
      by (rule next_minute_same [OF n t(1) t(3)])
    obtain sl where sl: "(if 0 < c - assigned
                    then and_then (bucket_for_local_millis ch cursor t start (c - assigned))
                           (\<lambda>s. Ok (slices @ [s])) else Ok slices) = Ok sl"
      and rec: "split_loop ch start span ls le t c sl = Ok out"
      using "1.prems"(1) True n c(1)
      by (subst (asm) split_loop.simps) (auto simp: t_def [symmetric] Let_def and_then_eq_Ok split: if_splits)
    have "\<exists>xs. out = sl @ xs \<and> slices_from ch start span ls le t xs"
      using "1.IH" [OF _ n t_def refl rec] "1.prems" True t c(2) by simp
    then obtain xs where xs: "out = sl @ xs" "slices_from ch start span ls le t xs" by blast
    show ?thesis
    proof (cases "0 < c - assigned")
      case True
      then obtain s where s: "bucket_for_local_millis ch cursor t start (c - assigned) = Ok s"
        "sl = slices @ [s]"
        using sl by (auto simp: and_then_eq_Ok)
      have "slices_from ch start span ls le cursor (s # xs)"
        using bucket_for_local_millis_fields [OF s(1)] True s(1) t same d
        by (intro slices_from_Cons [OF xs(2)]) (auto simp: slice_of_def Let_def)
      then show ?thesis using xs(1) s(2) by auto
    next
      case False
      then have "share span ls le cursor = share span ls le t" "sl = slices"
        using d sl by (auto simp: word_gt_0)
      moreover have "t < le"
        using share_less_end [OF "1.prems"(2) True "1.prems"(5)] share_end [OF "1.prems"(2), of span]
          calculation(1) t(2) by (cases "t = le") auto
      ultimately show ?thesis
        using slices_from_skip [OF xs(2)] xs(1) t by auto
    qed
  qed
qed

section \<open>A calendar\<close>

text \<open>
  The proleptic Gregorian calendar with ISO weeks, as an instance of the parameter: dates are
  day numbers from 1970-01-01, a date and time is its UTC milliseconds with its offset.
\<close>

definition civil_of_days :: "int \<Rightarrow> int \<times> int \<times> int" where
  "civil_of_days day =
     (let z = day + 719468; era = z div 146097; doe = z mod 146097;
          yoe = (doe - doe div 1460 + doe div 36524 - doe div 146096) div 365;
          doy = doe - (365 * yoe + yoe div 4 - yoe div 100);
          mp = (5 * doy + 2) div 153;
          d = doy - (153 * mp + 2) div 5 + 1;
          m = (if mp < 10 then mp + 3 else mp - 9)
      in (yoe + era * 400 + (if m \<le> 2 then 1 else 0), m, d))"

definition civil_local_ms :: "int \<times> int \<Rightarrow> int" where
  "civil_local_ms d = fst d + snd d * 1000"

definition civil_weekday :: "int \<Rightarrow> int" where
  "civil_weekday day = (day + 3) mod 7"

definition civil_iso :: "int \<Rightarrow> int \<times> nat" where
  "civil_iso day =
     (let thursday = day - civil_weekday day + 3;
          (year, m, d) = civil_of_days thursday;
          day_of_year = (if m \<le> 2 then (m - 1) * 31 + d - 1
                         else (153 * (m - 3) + 2) div 5 + d - 1 + 59 +
                              (if year mod 4 = 0 \<and> (year mod 100 \<noteq> 0 \<or> year mod 400 = 0) then 1 else 0))
      in (year, nat (day_of_year div 7 + 1)))"

definition civil_day_text :: "int \<Rightarrow> string" where
  "civil_day_text day =
     (case civil_of_days day of (y, m, d) \<Rightarrow>
        padded_int 4 y @ ''-'' @ padded 2 (nat m) @ ''-'' @ padded 2 (nat d))"

definition civil_minute_text :: "int \<times> int \<Rightarrow> string" where
  "civil_minute_text t =
     (let ms = civil_local_ms t mod 86400000; off = \<bar>snd t\<bar> div 60 in
      civil_day_text (civil_local_ms t div 86400000) @ ''T'' @
      padded 2 (nat (ms div 3600000)) @ '':'' @ padded 2 (nat (ms div 60000 mod 60)) @
      (if snd t < 0 then ''-'' else ''+'') @ padded 2 (nat (off div 60)) @ '':'' @ padded 2 (nat (off mod 60)))"

definition civil :: "(int, int \<times> int, int) chrono" where
  "civil =
     \<lparr>ch_east_opt = (\<lambda>s. if \<bar>s\<bar> < 86400 then Some s else None),
      ch_local_minus_utc = id,
      ch_at_millis = (\<lambda>ms fo. if \<bar>ms\<bar> \<le> 8000000000000000 then Some (ms, fo) else None),
      ch_offset = snd,
      ch_with_second_0 = (\<lambda>d. Some (fst d - civil_local_ms d div 1000 mod 60 * 1000, snd d)),
      ch_with_nanosecond_0 = (\<lambda>d. Some (fst d - civil_local_ms d mod 1000, snd d)),
      ch_timestamp_millis = fst,
      ch_date_naive = (\<lambda>d. civil_local_ms d div 86400000),
      ch_midnight = (\<lambda>fo day. Some (day * 86400000 - fo * 1000, fo)),
      ch_days_from_monday = (\<lambda>d. nat (civil_weekday (civil_local_ms d div 86400000))),
      ch_sub_days = (\<lambda>day n. Some (day - int n)),
      ch_format_minute = civil_minute_text,
      ch_format_day = (\<lambda>d. civil_day_text (civil_local_ms d div 86400000)),
      ch_iso_year = (\<lambda>d. fst (civil_iso (civil_local_ms d div 86400000))),
      ch_iso_week = (\<lambda>d. snd (civil_iso (civil_local_ms d div 86400000)))\<rparr>"

lemma civil_ops:
  "ch_east_opt civil s = (if \<bar>s\<bar> < 86400 then Some s else None)"
  "ch_local_minus_utc civil fo = fo"
  "ch_at_millis civil ms fo = (if \<bar>ms\<bar> \<le> 8000000000000000 then Some (ms, fo) else None)"
  "ch_offset civil d = snd d"
  "ch_with_second_0 civil d = Some (fst d - civil_local_ms d div 1000 mod 60 * 1000, snd d)"
  "ch_with_nanosecond_0 civil d = Some (fst d - civil_local_ms d mod 1000, snd d)"
  "ch_timestamp_millis civil d = fst d"
  "ch_date_naive civil d = civil_local_ms d div 86400000"
  "ch_midnight civil fo day = Some (day * 86400000 - fo * 1000, fo)"
  "ch_days_from_monday civil d = nat (civil_weekday (civil_local_ms d div 86400000))"
  "ch_sub_days civil day n = Some (day - int n)"
  "ch_format_minute civil = civil_minute_text"
  "ch_format_day civil d = civil_day_text (civil_local_ms d div 86400000)"
  "ch_iso_year civil d = fst (civil_iso (civil_local_ms d div 86400000))"
  "ch_iso_week civil d = snd (civil_iso (civil_local_ms d div 86400000))"
  by (simp_all add: civil_def)

text \<open>
  What the code relies on of the calendar: an offset is the seconds it was made from, and
  clearing the second and the nanosecond gives the start of the local minute.
\<close>

definition calendar_minutes :: "('o, 'd, 'n) chrono \<Rightarrow> bool" where
  "calendar_minutes ch \<longleftrightarrow>
     (\<forall>secs fo. ch_east_opt ch secs = Some fo \<longrightarrow> ch_local_minus_utc ch fo = secs) \<and>
     (\<forall>ms fo d m. ch_at_millis ch ms fo = Some d \<longrightarrow>
        Option.bind (ch_with_second_0 ch d) (ch_with_nanosecond_0 ch) = Some m \<longrightarrow>
        ch_timestamp_millis ch m = ms - (ms + ch_local_minus_utc ch fo * 1000) mod MINUTE_MS)"

lemma minute_floor:
  "x - x div 1000 mod 60 * 1000 - (x - x div 1000 mod 60 * 1000) mod 1000 = x - x mod (60000::int)"
proof -
  have "x mod 60000 = 1000 * (x div 1000 mod 60) + x mod 1000"
    using zmod_zmult2_eq [of 60 x 1000] by simp
  moreover have "(x - x div 1000 mod 60 * 1000) mod 1000 = x mod 1000"
    using mod_mult_self1 [of x "- (x div 1000 mod 60)" 1000] by simp
  ultimately show ?thesis by simp
qed

lemma civil_minutes: "calendar_minutes civil"
proof -
  have "ms - (ms + fo * 1000) div 1000 mod 60 * 1000 -
        (ms - (ms + fo * 1000) div 1000 mod 60 * 1000 + fo * 1000) mod 1000
      = ms - (ms + fo * 1000) mod 60000" for ms fo :: int
    using minute_floor [of "ms + fo * 1000"] by (simp add: algebra_simps)
  moreover have "ch_at_millis civil ms fo = Some d \<Longrightarrow> d = (ms, fo)" for ms fo d
    by (simp add: civil_def split: if_splits)
  moreover have "Option.bind (ch_with_second_0 civil (ms, fo)) (ch_with_nanosecond_0 civil) = Some m \<Longrightarrow>
      ch_timestamp_millis civil m = ms - (ms + fo * 1000) div 1000 mod 60 * 1000 -
        (ms - (ms + fo * 1000) div 1000 mod 60 * 1000 + fo * 1000) mod 1000" for ms fo m
    by (auto simp only: civil_def chrono.simps civil_local_ms_def bind.bind_lunit option.inject fst_conv snd_conv)
  moreover have "ch_east_opt civil secs = Some fo \<Longrightarrow> ch_local_minus_utc civil fo = secs" for secs fo
    by (simp add: civil_def split: if_splits)
  moreover have "ch_local_minus_utc civil fo = fo" for fo
    by (simp add: civil_def)
  ultimately show ?thesis
    unfolding calendar_minutes_def MINUTE_MS_def by metis
qed

section \<open>Properties\<close>

lemma slice_of_minute:
  assumes "slice_of ch start le s" "calendar_minutes ch"
  shows "bs_bucket_start_utc_ms s < bs_last_wall_utc_ms s"
    "bs_last_wall_utc_ms s \<le> bs_bucket_start_utc_ms s + MINUTE_MS"
    "bs_utc_offset_seconds s = cs_utc_offset_seconds start"
    "bs_timezone_id s = cs_timezone_id start" "0 < bs_duration_ns s"
proof -
  let ?off = "cs_utc_offset_seconds start * 1000"
  let ?t = "bs_last_wall_utc_ms s + ?off"
  obtain c t d where c: "c < ?t" "(?t - 1) div MINUTE_MS = c div MINUTE_MS" "0 < bs_duration_ns s"
    and b: "bucket_for_local_millis ch c t start d = Ok s"
    using assms(1) by (auto simp: slice_of_def Let_def)
  obtain off local minute where
    ch: "ch_east_opt ch (cs_utc_offset_seconds start) = Some off"
      "ch_at_millis ch (c - ?off) off = Some local"
      "Option.bind (ch_with_second_0 ch local) (ch_with_nanosecond_0 ch) = Some minute"
    and f: "bs_bucket_start_utc_ms s = ch_timestamp_millis ch minute"
      "bs_utc_offset_seconds s = ch_local_minus_utc ch off"
      "bs_timezone_id s = cs_timezone_id start"
    using b by (auto simp: bucket_for_local_millis_def local_datetime_def and_then_eq_Ok i64_checked_def
        split: if_splits)
  have off: "ch_local_minus_utc ch off = cs_utc_offset_seconds start"
    using assms(2) ch(1) by (simp add: calendar_minutes_def)
  have st: "bs_bucket_start_utc_ms s = c - ?off - c mod 60000"
    using assms(2) ch(2,3) f(1) off by (simp add: calendar_minutes_def MINUTE_MS_def)
  have "c mod 60000 \<ge> 0" "(?t - 1) mod 60000 < 60000" by simp_all
  moreover have "(?t - 1) div 60000 = c div 60000" using c(2) by (simp add: MINUTE_MS_def)
  ultimately show "bs_bucket_start_utc_ms s < bs_last_wall_utc_ms s"
    "bs_last_wall_utc_ms s \<le> bs_bucket_start_utc_ms s + MINUTE_MS"
    using st c(1) div_mult_mod_eq [of c 60000] div_mult_mod_eq [of "?t - 1" 60000]
    unfolding MINUTE_MS_def by linarith+
  show "bs_utc_offset_seconds s = cs_utc_offset_seconds start" "bs_timezone_id s = cs_timezone_id start"
    "0 < bs_duration_ns s"
    using f off c(3) by simp_all
qed

lemma split_slices_from:
  assumes "split_into_local_minutes ch start end_s = Ok xs"
  defines "off \<equiv> cs_utc_offset_seconds start * 1000"
  shows "slices_from ch start (cs_monotonic_ns end_s - cs_monotonic_ns start)
           (cs_wall_utc_ms start + off) (cs_wall_utc_ms end_s + off) (cs_wall_utc_ms start + off) xs"
    "cs_monotonic_ns start < cs_monotonic_ns end_s" "cs_wall_utc_ms start < cs_wall_utc_ms end_s"
    "cs_boot_id start = cs_boot_id end_s"
proof -
  show *: "cs_monotonic_ns start < cs_monotonic_ns end_s" "cs_wall_utc_ms start < cs_wall_utc_ms end_s"
    "cs_boot_id start = cs_boot_id end_s"
    using assms(1) by (auto simp: split_into_local_minutes_def and_then_eq_Ok i64_checked_def not_le
        Let_def split: if_splits)
  have "split_loop ch start (cs_monotonic_ns end_s - cs_monotonic_ns start)
      (cs_wall_utc_ms start + off) (cs_wall_utc_ms end_s + off) (cs_wall_utc_ms start + off) 0 [] = Ok xs"
    using assms by (auto simp: split_into_local_minutes_def and_then_eq_Ok i64_checked_def Let_def
        split: if_splits)
  from split_loop_exact [OF this] show "slices_from ch start (cs_monotonic_ns end_s - cs_monotonic_ns start)
           (cs_wall_utc_ms start + off) (cs_wall_utc_ms end_s + off) (cs_wall_utc_ms start + off) xs"
    using * by (auto simp: word_gt_0)
qed

lemma split_total:
  assumes "split_into_local_minutes ch start end_s = Ok xs"
  shows "slices_total xs = unat (cs_monotonic_ns end_s) - unat (cs_monotonic_ns start)"
proof -
  let ?span = "cs_monotonic_ns end_s - cs_monotonic_ns start"
  let ?ls = "cs_wall_utc_ms start + cs_utc_offset_seconds start * 1000"
  let ?le = "cs_wall_utc_ms end_s + cs_utc_offset_seconds start * 1000"
  note s = split_slices_from [OF assms]
  then have "xs \<noteq> []" "bs_last_wall_utc_ms (last xs) = cs_wall_utc_ms end_s"
    by (auto simp: slices_from_def Let_def)
  have k: "\<forall>k < length xs. slices_total (take (Suc k) xs) =
      share ?span ?ls ?le (bs_last_wall_utc_ms (xs ! k) + cs_utc_offset_seconds start * 1000)"
    using s(1) by (simp add: slices_from_def Let_def)
  have "slices_total (take (Suc (length xs - 1)) xs) =
      share ?span ?ls ?le (bs_last_wall_utc_ms (xs ! (length xs - 1)) + cs_utc_offset_seconds start * 1000)"
    using k [rule_format, of "length xs - 1"] \<open>xs \<noteq> []\<close> by simp
  then have "slices_total xs = share ?span ?ls ?le ?le"
    using \<open>xs \<noteq> []\<close> \<open>bs_last_wall_utc_ms (last xs) = _\<close> by (simp add: last_conv_nth)
  then show ?thesis
    using s by (simp add: share_end unat_sub word_less_nat_alt word_le_nat_alt)
qed

text \<open>C6: a counted span is split exactly: every slice has a positive duration and lies within the
  local minute it is booked on, the slices follow one another up to the end of the span, the
  durations up to each slice are the floor of its share of the monotonic span, and all of
  them together are the whole span.\<close>

theorem split_exact:
  assumes "split_into_local_minutes ch start end_s = Ok xs" "calendar_minutes ch"
  shows "(\<forall>x \<in> set xs. 0 < bs_duration_ns x \<and> bs_bucket_start_utc_ms x < bs_last_wall_utc_ms x \<and>
           bs_last_wall_utc_ms x \<le> bs_bucket_start_utc_ms x + MINUTE_MS \<and>
           bs_timezone_id x = cs_timezone_id start \<and> bs_utc_offset_seconds x = cs_utc_offset_seconds start) \<and>
         sorted_wrt (<) (map bs_last_wall_utc_ms xs) \<and>
         xs \<noteq> [] \<and> bs_last_wall_utc_ms (last xs) = cs_wall_utc_ms end_s \<and>
         (\<forall>k < length xs. slices_total (take (Suc k) xs) =
            (unat (cs_monotonic_ns end_s) - unat (cs_monotonic_ns start)) *
            nat (bs_last_wall_utc_ms (xs ! k) - cs_wall_utc_ms start) div
            nat (cs_wall_utc_ms end_s - cs_wall_utc_ms start)) \<and>
         slices_total xs = unat (cs_monotonic_ns end_s) - unat (cs_monotonic_ns start)"
proof -
  have "\<forall>x \<in> set xs. 0 < bs_duration_ns x \<and> bs_bucket_start_utc_ms x < bs_last_wall_utc_ms x \<and>
           bs_last_wall_utc_ms x \<le> bs_bucket_start_utc_ms x + MINUTE_MS \<and>
           bs_timezone_id x = cs_timezone_id start \<and> bs_utc_offset_seconds x = cs_utc_offset_seconds start"
    using split_slices_from(1) [OF assms(1)] slice_of_minute [OF _ assms(2)]
    by (auto simp: slices_from_def Let_def)
  then show ?thesis
    using split_slices_from [OF assms(1)] split_total [OF assms(1)]
    by (simp add: slices_from_def share_def Let_def unat_sub word_le_nat_alt word_less_nat_alt)
qed

text \<open>The samples of the unit test across New Year: one slice in each day and week.\<close>

definition sample_at :: "u64 \<Rightarrow> i64 \<Rightarrow> clock_sample" where
  "sample_at m w = \<lparr>cs_boot_id = ''boot-a'', cs_monotonic_ns = m, cs_wall_utc_ms = w,
     cs_utc_offset_seconds = 0, cs_timezone_id = ''UTC''\<rparr>"

lemma civil_samples:
  "civil_of_days 20453 = (2025, 12, 31)" "civil_of_days 20454 = (2026, 1, 1)"
  "civil_iso 20453 = (2026, 1)" "civil_iso 20454 = (2026, 1)"
  by code_simp+

lemma civil_texts:
  "civil_day_text 20453 = ''2025-12-31''" "civil_day_text 20454 = ''2026-01-01''"
  "week_key_of 2026 (Suc 0) = ''2026-W01''" "padded 2 23 = ''23''" "padded 2 59 = ''59''" "padded 2 0 = ''00''"
  by (simp_all add: civil_day_text_def civil_samples padded_int_def padded_def week_key_of_def decimal_digit
      decimal_step char_of_def bit_0)

lemma civil_minute_sample:
  "civil_minute_text (1767225540000, 0) = ''2025-12-31T23:59+00:00''"
  "civil_minute_text (1767225600000, 0) = ''2026-01-01T00:00+00:00''"
  by (simp_all add: civil_minute_text_def civil_local_ms_def civil_texts)

lemmas civil_eval = civil_ops civil_local_ms_def civil_weekday_def civil_minute_sample civil_samples civil_texts

lemma sample_bucket:
  "bucket_for_local_millis civil 1767225599500 1767225600000 (sample_at 0 1767225599500) 500000000 =
   Ok \<lparr>bs_minute_key = ''2025-12-31T23:59+00:00'', bs_day_key = ''2025-12-31'', bs_week_key = ''2026-W01'',
        bs_timezone_id = ''UTC'', bs_utc_offset_seconds = 0, bs_bucket_start_utc_ms = 1767225540000,
        bs_day_start_utc_ms = 1767139200000, bs_week_start_utc_ms = 1766966400000,
        bs_last_wall_utc_ms = 1767225600000, bs_duration_ns = 500000000\<rparr>"
  "bucket_for_local_millis civil 1767225600000 1767225601500 (sample_at 0 1767225599500) 1500000000 =
   Ok \<lparr>bs_minute_key = ''2026-01-01T00:00+00:00'', bs_day_key = ''2026-01-01'', bs_week_key = ''2026-W01'',
        bs_timezone_id = ''UTC'', bs_utc_offset_seconds = 0, bs_bucket_start_utc_ms = 1767225600000,
        bs_day_start_utc_ms = 1767225600000, bs_week_start_utc_ms = 1766966400000,
        bs_last_wall_utc_ms = 1767225601500, bs_duration_ns = 1500000000\<rparr>"
  by (simp_all add: bucket_for_local_millis_def local_datetime_def local_summary_identity_def civil_eval
      sample_at_def i64_checked_def i64_min_def i64_max_def Let_def)

lemma sample_split:
  "split_into_local_minutes civil (sample_at 0 1767225599500) (sample_at 2000000000 1767225601500) =
   Ok [\<lparr>bs_minute_key = ''2025-12-31T23:59+00:00'', bs_day_key = ''2025-12-31'', bs_week_key = ''2026-W01'',
        bs_timezone_id = ''UTC'', bs_utc_offset_seconds = 0, bs_bucket_start_utc_ms = 1767225540000,
        bs_day_start_utc_ms = 1767139200000, bs_week_start_utc_ms = 1766966400000,
        bs_last_wall_utc_ms = 1767225600000, bs_duration_ns = 500000000\<rparr>,
       \<lparr>bs_minute_key = ''2026-01-01T00:00+00:00'', bs_day_key = ''2026-01-01'', bs_week_key = ''2026-W01'',
        bs_timezone_id = ''UTC'', bs_utc_offset_seconds = 0, bs_bucket_start_utc_ms = 1767225600000,
        bs_day_start_utc_ms = 1767225600000, bs_week_start_utc_ms = 1766966400000,
        bs_last_wall_utc_ms = 1767225601500, bs_duration_ns = 1500000000\<rparr>]"
proof -
  let ?s = "sample_at 0 1767225599500"
  let ?ls = "1767225599500 :: int" and ?le = "1767225601500 :: int"
  have n: "next_minute 1767225599500 = Some 1767225600000" "next_minute 1767225600000 = Some 1767225660000"
    by (simp_all add: next_minute_def i64_checked_def i64_min_def i64_max_def MINUTE_MS_def)
  have c: "cumulative_at 2000000000 ?ls ?le (min 1767225600000 ?le) = Ok 500000000"
    "cumulative_at 2000000000 ?ls ?le (min 1767225660000 ?le) = Ok 2000000000"
    by (simp_all add: cumulative_at_def)
  show ?thesis
    using split_loop_push [of ?ls ?le _ 2000000000 ?ls _ 0 civil ?s, OF _ n(1) c(1), of _ "[]"]
      split_loop_push [of 1767225600000 ?le _ 2000000000 ?ls _ 500000000 civil ?s, OF _ n(2) c(2)]
      sample_bucket
    by (simp add: split_into_local_minutes_def sample_at_def i64_checked_def i64_min_def i64_max_def
        MAX_WALL_DRIFT_NS_def split_loop_done)
qed

theorem split_exact_witness:
  "\<exists>xs. split_into_local_minutes civil (sample_at 0 1767225599500) (sample_at 2000000000 1767225601500) = Ok xs \<and>
        length xs = 2 \<and> slices_total xs = 2000000000"
  using split_exact [OF sample_split civil_minutes]
  by (simp add: sample_split)

text \<open>Within the range of the calendar the loop never fails.\<close>

definition calendar_covers :: "('o, 'd, 'n) chrono \<Rightarrow> int \<Rightarrow> i64 \<Rightarrow> i64 \<Rightarrow> bool" where
  "calendar_covers ch offset lo hi \<longleftrightarrow>
     (\<exists>fo. ch_east_opt ch offset = Some fo \<and>
        (\<forall>ms. lo \<le> ms \<and> ms \<le> hi \<longrightarrow>
           (\<exists>d m i. ch_at_millis ch ms fo = Some d \<and>
              Option.bind (ch_with_second_0 ch d) (ch_with_nanosecond_0 ch) = Some m \<and>
              local_summary_identity ch d = Ok i)))"

lemma bucket_for_local_millis_ok:
  assumes "calendar_covers ch (cs_utc_offset_seconds start) lo hi" "i64_min \<le> lo" "hi \<le> i64_max"
    "lo + cs_utc_offset_seconds start * 1000 \<le> c" "c \<le> hi + cs_utc_offset_seconds start * 1000"
  shows "\<exists>s. bucket_for_local_millis ch c t start d = Ok s"
proof -
  have "lo \<le> c - cs_utc_offset_seconds start * 1000" "c - cs_utc_offset_seconds start * 1000 \<le> hi"
    using assms(4,5) by linarith+
  then show ?thesis
    using assms(1-3)
    by (fastforce simp: calendar_covers_def bucket_for_local_millis_def local_datetime_def i64_checked_def)
qed

lemma next_minute_defined: "i64_min \<le> c \<Longrightarrow> c \<le> i64_max - 60000 \<Longrightarrow> \<exists>n. next_minute c = Some n"
proof -
  assume c: "i64_min \<le> c" "c \<le> i64_max - 60000"
  have "c div 60000 * 60000 \<le> c" "c < c div 60000 * 60000 + 60000"
    using div_mult_mod_eq [of c 60000] pos_mod_bound [of 60000 c] pos_mod_sign [of 60000 c] by linarith+
  with c show ?thesis
    by (auto simp: next_minute_def i64_checked_def MINUTE_MS_def i64_min_def i64_max_def algebra_simps)
qed

lemma split_loop_succeeds:
  assumes "calendar_covers ch (cs_utc_offset_seconds start) lo hi" "i64_min \<le> lo" "hi \<le> i64_max"
    "ls < le" "lo + cs_utc_offset_seconds start * 1000 \<le> ls" "le \<le> hi + cs_utc_offset_seconds start * 1000"
    "i64_min \<le> ls" "le \<le> i64_max - 60000" "ls \<le> cursor"
  shows "\<exists>xs. split_loop ch start span ls le cursor assigned slices = Ok xs"
  using assms
proof (induction ch start span ls le cursor assigned slices rule: split_loop.induct)
  case (1 ch start span ls le cursor assigned slices)
  show ?case
  proof (cases "cursor < le")
    case False
    then show ?thesis by (simp add: split_loop.simps)
  next
    case True
    then obtain n where n: "next_minute cursor = Some n"
      using next_minute_defined [of cursor] "1.prems" by auto
    define t where "t = min n le"
    have t: "ls \<le> t" "t \<le> le"
      using next_minute_gt [OF n] True "1.prems" by (auto simp: t_def)
    obtain c where c: "cumulative_at span ls le t = Ok c"
      using cumulative_at_share [OF "1.prems"(4) t] by blast
    obtain s where s: "bucket_for_local_millis ch cursor t start (c - assigned) = Ok s"
      using bucket_for_local_millis_ok [OF "1.prems"(1-3), of cursor] "1.prems" True by auto
    have "\<exists>xs. split_loop ch start span ls le t c sl = Ok xs" for sl
      using "1.IH" [OF _ n t_def refl] True "1.prems" t by simp
    then show ?thesis
      using True n c s by (subst split_loop.simps) (simp add: t_def [symmetric] Let_def)
  qed
qed

text \<open>Within the range of the calendar a span is accounted exactly when both samples are of one
  boot and one timezone offset, both clocks have advanced, and the wall clock has not
  drifted more than five seconds from the monotonic one; in every other case the split reports
  why.\<close>

theorem split_accepts_iff:
  assumes "calendar_covers ch (cs_utc_offset_seconds start) (cs_wall_utc_ms start) (cs_wall_utc_ms end_s)"
    "\<bar>cs_wall_utc_ms start\<bar> < 2 ^ 61" "\<bar>cs_wall_utc_ms end_s\<bar> < 2 ^ 61" "is_i32 (cs_utc_offset_seconds start)"
  shows "(\<exists>xs. split_into_local_minutes ch start end_s = Ok xs) \<longleftrightarrow>
         cs_boot_id start = cs_boot_id end_s \<and>
         cs_monotonic_ns start < cs_monotonic_ns end_s \<and>
         cs_utc_offset_seconds start = cs_utc_offset_seconds end_s \<and>
         cs_timezone_id start = cs_timezone_id end_s \<and>
         cs_wall_utc_ms start < cs_wall_utc_ms end_s \<and>
         \<bar>(cs_wall_utc_ms end_s - cs_wall_utc_ms start) * 1000000 -
           uint (cs_monotonic_ns end_s - cs_monotonic_ns start)\<bar> \<le> MAX_WALL_DRIFT_NS"
    (is "?L \<longleftrightarrow> ?R")
proof
  assume ?L
  then show ?R
    by (auto simp: split_into_local_minutes_def and_then_eq_Ok i64_checked_def Let_def not_le not_less
        split: if_splits)
next
  assume R: ?R
  let ?off = "cs_utc_offset_seconds start * 1000"
  have r: "i64_checked (cs_wall_utc_ms end_s - cs_wall_utc_ms start) = Some (cs_wall_utc_ms end_s - cs_wall_utc_ms start)"
    "i64_checked (cs_wall_utc_ms start + ?off) = Some (cs_wall_utc_ms start + ?off)"
    "i64_checked (cs_wall_utc_ms end_s + ?off) = Some (cs_wall_utc_ms end_s + ?off)"
    using assms(2-4) by (auto simp: i64_checked_def i64_min_def i64_max_def is_i32_def)
  have "\<exists>xs. split_loop ch start (cs_monotonic_ns end_s - cs_monotonic_ns start) (cs_wall_utc_ms start + ?off)
      (cs_wall_utc_ms end_s + ?off) (cs_wall_utc_ms start + ?off) 0 [] = Ok xs"
    by (rule split_loop_succeeds [OF assms(1)])
       (use R assms(2-4) in \<open>auto simp: i64_min_def i64_max_def is_i32_def\<close>)
  then show ?L
    using R r by (simp add: split_into_local_minutes_def Let_def not_le)
qed

lemma civil_covers:
  assumes "\<bar>offset\<bar> < 86400" "- 8000000000000000 \<le> lo" "hi \<le> 8000000000000000"
  shows "calendar_covers civil offset lo hi"
  using assms by (auto simp: calendar_covers_def civil_def local_summary_identity_def Let_def)

theorem split_accepts_iff_witness:
  "(\<exists>xs. split_into_local_minutes civil (sample_at 0 1767225599500) (sample_at 2000000000 1767225601500) = Ok xs) \<and>
   \<not> (\<exists>xs. split_into_local_minutes civil (sample_at 10 10000) (sample_at 1000000010 30000) = Ok xs)"
  using split_accepts_iff [of civil "sample_at 0 1767225599500" "sample_at 2000000000 1767225601500"]
    split_accepts_iff [of civil "sample_at 10 10000" "sample_at 1000000010 30000"]
  by (simp add: civil_covers sample_at_def is_i32_def MAX_WALL_DRIFT_NS_def)

end
