(* ===== verification/Usage_Store.thy ===== *)
theory Usage_Store
  imports Usage_Buckets Sql_Statements "HOL-Library.Char_ord" "HOL-Library.List_Lexorder" "HOL-Library.Product_Lexorder"
begin

text \<open>
  The usage database (crates/usage/src/store.rs). The tables of the schema are lists of rows,
  every SQL statement of the source is a function on them that also checks the constraints of
  the schema, and a database handle carries a script of statement failures, so that each call
  can fail at any statement; an immediate transaction keeps the tables of its start until the
  commit succeeds. SQLite's own choice of a fresh rowid beyond the largest one, the process
  table and the migration backup are arguments. Shown: a segment is booked
  atomically, the three aggregate tables always agree with the raw intervals, and a
  reopened store has no open interval and keeps every booked duration.
\<close>

section \<open>Rows and tables\<close>

datatype interval_state = IntervalOpen | IntervalClosed | IntervalRecovered

record focus_row =
  fi_id :: i64
  fi_app_id :: string
  fi_pid :: "int option"
  fi_window_id :: i64
  fi_boot_id :: string
  fi_started_monotonic_ns :: i64
  fi_last_checkpoint_monotonic_ns :: i64
  fi_ended_monotonic_ns :: "i64 option"
  fi_started_wall_utc_ms :: i64
  fi_last_checkpoint_wall_utc_ms :: i64
  fi_ended_wall_utc_ms :: "i64 option"
  fi_start_timezone_id :: string
  fi_start_utc_offset_seconds :: int
  fi_end_timezone_id :: "string option"
  fi_end_utc_offset_seconds :: "int option"
  fi_duration_ns :: i64
  fi_state :: interval_state
  fi_end_reason :: "string option"
  fi_recovered_at_wall_utc_ms :: "i64 option"

record aggregate_row =
  ag_app_id :: string
  ag_bucket_key :: string
  ag_timezone_id :: string
  ag_utc_offset_seconds :: int
  ag_bucket_start_utc_ms :: i64
  ag_last_wall_utc_ms :: i64
  ag_duration_ns :: i64

record gap_row =
  gp_id :: i64
  gp_started_wall_utc_ms :: i64
  gp_ended_wall_utc_ms :: "i64 option"
  gp_start_daily_key :: string
  gp_end_daily_key :: "string option"
  gp_start_weekly_key :: string
  gp_end_weekly_key :: "string option"
  gp_reason :: string
  gp_occurrence_count :: i64
  gp_recovered_interval_count :: i64

record lease_row =
  ls_owner_pid :: u32
  ls_owner_start_ticks :: i64
  ls_owner_boot_id :: string
  ls_acquired_wall_utc_ms :: i64

record legacy_coverage =
  lc_event_gap_count :: i64
  lc_recovered_interval_count :: i64
  lc_last_gap_wall_utc_ms :: "i64 option"
  lc_last_gap_reason :: "string option"

record usage_tables =
  ut_version :: u32
  ut_intervals :: "focus_row list"
  ut_minute :: "aggregate_row list"
  ut_daily :: "aggregate_row list"
  ut_weekly :: "aggregate_row list"
  ut_gaps :: "gap_row list"
  ut_epoch :: "(i64 \<times> string \<times> string) option"
  ut_lease :: "lease_row option"
  ut_legacy :: "legacy_coverage option"

datatype usage_store_error =
    SqliteError
  | IoError
  | WriterAlreadyActive u32
  | IntervalNotOpen i64
  | NumericOverflow
  | InvalidProcStat
  | InvalidBootId
  | InvalidAppId
  | InvalidBucketKey
  | InvalidTimezoneId
  | InvalidUsageEpoch
  | UsageCorrupt
  | MigrationBackup string
  | InvalidGapReason
  | UnsupportedSchema u32 u32

section \<open>Statements and transactions\<close>

type_synonym usage_db = "usage_tables handle"
type_synonym 'a usage_stm = "(usage_tables, usage_store_error, 'a) stm"

abbreviation sql :: "(usage_tables \<Rightarrow> ('a \<times> usage_tables) option) \<Rightarrow> 'a usage_stm" where
  "sql \<equiv> statement SqliteError"

abbreviation immediate :: "'a usage_stm \<Rightarrow> 'a usage_stm" where
  "immediate \<equiv> transaction SqliteError"

lemmas sql_def = statement_def [of SqliteError]
lemmas immediate_def = transaction_def [of SqliteError]

text \<open>The rowid SQLite gives a new row: one more than the largest, or, when that is the largest
  \<open>i64\<close>, the choice \<open>pick\<close> of an unused one (\<open>None\<close>: the table is full).\<close>

definition next_rowid :: "(i64 list \<Rightarrow> i64 option) \<Rightarrow> i64 list \<Rightarrow> i64 option" where
  "next_rowid pick ids =
     (if ids = [] then Some 1
      else if Max (set ids) < i64_max then Some (Max (set ids) + 1)
      else case pick ids of None \<Rightarrow> None | Some i \<Rightarrow> if i \<in> set ids then None else Some i)"

section \<open>Validation\<close>

definition MAX_NIRI_APP_ID_BYTES :: nat where "MAX_NIRI_APP_ID_BYTES = 512"
definition MAX_SUMMARY_APPLICATIONS :: nat where "MAX_SUMMARY_APPLICATIONS = 1024"
definition USAGE_STORE_SCHEMA_VERSION :: u32 where "USAGE_STORE_SCHEMA_VERSION = 2"
definition DAY_MS :: i64 where "DAY_MS = 86400000"
definition DAILY_COVERAGE_BOUNDARY_DAYS :: u32 where "DAILY_COVERAGE_BOUNDARY_DAYS = 3"
definition WEEKLY_COVERAGE_BOUNDARY_DAYS :: u32 where "WEEKLY_COVERAGE_BOUNDARY_DAYS = 9"

definition validate_stored_app_id :: "string \<Rightarrow> (usage_store_error, unit) result" where
  "validate_stored_app_id app_id =
     (if app_id = [] \<or> MAX_NIRI_APP_ID_BYTES < length app_id \<or> CHR 0x00 \<in> set app_id
      then Err InvalidAppId else Ok ())"

definition validate_gap_reason :: "string \<Rightarrow> (usage_store_error, unit) result" where
  "validate_gap_reason reason =
     (if reason = [] \<or> 128 < length reason \<or> CHR 0x00 \<in> set reason
      then Err InvalidGapReason else Ok ())"

definition gap_bucket_keys ::
  "('o, 'd, 'n) chrono \<Rightarrow> clock_sample \<Rightarrow> (usage_store_error, string \<times> string) result" where
  "gap_bucket_keys ch s =
     and_then (map_err (\<lambda>_. InvalidUsageEpoch) (for_sample ch DailySummary s)) (\<lambda>daily.
     and_then (map_err (\<lambda>_. InvalidUsageEpoch) (for_sample ch WeeklySummary s)) (\<lambda>weekly.
     Ok (sb_bucket_key daily, sb_bucket_key weekly)))"

definition sql_u64 :: "u64 \<Rightarrow> (usage_store_error, i64) result" where
  "sql_u64 v = ok_or (i64_of_u64 v) NumericOverflow"

definition cutoff_days :: "i64 \<Rightarrow> u32 \<Rightarrow> (usage_store_error, i64) result" where
  "cutoff_days now days =
     and_then (ok_or (i64_checked (uint days * DAY_MS)) NumericOverflow) (\<lambda>age.
     ok_or (i64_checked (now - age)) NumericOverflow)"

definition two_digits_in_range :: "string \<Rightarrow> nat \<Rightarrow> nat \<Rightarrow> bool" where
  "two_digits_in_range b lo hi =
     (if length b \<noteq> 2 \<or> \<not> list_all is_ascii_digit b then False
      else let value = (of_char (b ! 0) - 48) * 10 + (of_char (b ! 1) - 48) in lo \<le> value \<and> value \<le> hi)"

definition validate_bucket_key :: "summary_kind \<Rightarrow> string \<Rightarrow> (usage_store_error, unit) result" where
  "validate_bucket_key kind b =
     (let valid = (case kind of
         DailySummary \<Rightarrow>
           length b = 10 \<and> b ! 4 = CHR ''-'' \<and> b ! 7 = CHR ''-'' \<and> list_all is_ascii_digit (take 4 b) \<and>
           two_digits_in_range (take 2 (drop 5 b)) 1 12 \<and> two_digits_in_range (take 2 (drop 8 b)) 1 31
       | WeeklySummary \<Rightarrow>
           length b = 8 \<and> b ! 4 = CHR ''-'' \<and> b ! 5 = CHR ''W'' \<and> list_all is_ascii_digit (take 4 b) \<and>
           two_digits_in_range (take 2 (drop 6 b)) 1 53)
      in if valid then Ok () else Err InvalidBucketKey)"

section \<open>Intervals\<close>

record window_identity =
  wi_window_id :: u64
  wi_app_id :: string
  wi_pid :: "int option"

definition insert_interval ::
  "(i64 list \<Rightarrow> i64 option) \<Rightarrow> (i64 \<Rightarrow> focus_row) \<Rightarrow> usage_tables \<Rightarrow> (i64 \<times> usage_tables) option" where
  "insert_interval pick row t =
     (case next_rowid pick (map fi_id (ut_intervals t)) of
        None \<Rightarrow> None
      | Some i \<Rightarrow>
          if (\<exists>r \<in> set (ut_intervals t). fi_state r = IntervalOpen) then None
          else Some (i, t\<lparr>ut_intervals := ut_intervals t @ [row i]\<rparr>))"

text \<open>The row of the \<open>INSERT\<close>.\<close>

definition interval_row :: "i64 \<Rightarrow> i64 \<Rightarrow> window_identity \<Rightarrow> clock_sample \<Rightarrow> i64 \<Rightarrow> focus_row" where
  "interval_row monotonic window identity start i =
     \<lparr>fi_id = i, fi_app_id = wi_app_id identity, fi_pid = wi_pid identity, fi_window_id = window,
      fi_boot_id = cs_boot_id start, fi_started_monotonic_ns = monotonic,
      fi_last_checkpoint_monotonic_ns = monotonic, fi_ended_monotonic_ns = None,
      fi_started_wall_utc_ms = cs_wall_utc_ms start,
      fi_last_checkpoint_wall_utc_ms = cs_wall_utc_ms start, fi_ended_wall_utc_ms = None,
      fi_start_timezone_id = cs_timezone_id start,
      fi_start_utc_offset_seconds = cs_utc_offset_seconds start,
      fi_end_timezone_id = None, fi_end_utc_offset_seconds = None, fi_duration_ns = 0,
      fi_state = IntervalOpen, fi_end_reason = None, fi_recovered_at_wall_utc_ms = None\<rparr>"

definition start_interval ::
  "(i64 list \<Rightarrow> i64 option) \<Rightarrow> window_identity \<Rightarrow> clock_sample \<Rightarrow> i64 usage_stm" where
  "start_interval pick identity start =
     u_bind (u_lift (if wi_app_id identity = [] \<or> MAX_NIRI_APP_ID_BYTES < length (wi_app_id identity) \<or>
                        CHR 0x00 \<in> set (wi_app_id identity) then Err InvalidAppId else Ok ())) (\<lambda>_.
     u_bind (u_lift (sql_u64 (cs_monotonic_ns start))) (\<lambda>monotonic.
     u_bind (u_lift (sql_u64 (wi_window_id identity))) (\<lambda>window.
     sql (insert_interval pick (interval_row monotonic window identity start)))))"

text \<open>\<open>UPDATE focus_intervals SET .. WHERE id = ? AND state = 'open'\<close>: the number of rows and the
  new table; the sum in a STRICT table fails when it leaves \<open>i64\<close>.\<close>

definition is_open_row :: "i64 \<Rightarrow> focus_row \<Rightarrow> bool" where
  "is_open_row i r = (fi_id r = i \<and> fi_state r = IntervalOpen)"

definition update_open_duration ::
  "i64 \<Rightarrow> i64 \<Rightarrow> i64 \<Rightarrow> i64 \<Rightarrow> usage_tables \<Rightarrow> (nat \<times> usage_tables) option" where
  "update_open_duration i d mono_ns wall t =
     (if (\<exists>r \<in> set (ut_intervals t). is_open_row i r \<and> i64_max < fi_duration_ns r + d) then None
      else Some (length (filter (is_open_row i) (ut_intervals t)),
        t\<lparr>ut_intervals := map (\<lambda>r. if is_open_row i r
            then r\<lparr>fi_duration_ns := fi_duration_ns r + d, fi_last_checkpoint_monotonic_ns := mono_ns,
                   fi_last_checkpoint_wall_utc_ms := wall\<rparr> else r) (ut_intervals t)\<rparr>))"

definition close_interval :: "i64 \<Rightarrow> clock_sample \<Rightarrow> string \<Rightarrow> unit usage_stm" where
  "close_interval i end_s reason =
     sql (\<lambda>t. Some ((), t\<lparr>ut_intervals := map (\<lambda>r. if is_open_row i r
        then r\<lparr>fi_ended_monotonic_ns := Some (fi_last_checkpoint_monotonic_ns r),
               fi_ended_wall_utc_ms := Some (fi_last_checkpoint_wall_utc_ms r),
               fi_end_timezone_id := Some (cs_timezone_id end_s),
               fi_end_utc_offset_seconds := Some (cs_utc_offset_seconds end_s),
               fi_state := IntervalClosed, fi_end_reason := Some reason\<rparr> else r) (ut_intervals t)\<rparr>))"

section \<open>Aggregates\<close>

definition same_bucket :: "aggregate_row \<Rightarrow> aggregate_row \<Rightarrow> bool" where
  "same_bucket a b =
     (ag_app_id a = ag_app_id b \<and> ag_bucket_key a = ag_bucket_key b \<and>
      ag_timezone_id a = ag_timezone_id b \<and> ag_utc_offset_seconds a = ag_utc_offset_seconds b)"

text \<open>\<open>INSERT .. ON CONFLICT(..) DO UPDATE\<close>\<close>

fun upsert_row :: "aggregate_row \<Rightarrow> aggregate_row list \<Rightarrow> aggregate_row list option" where
  "upsert_row n [] = Some [n]"
| "upsert_row n (r # rs) =
     (if same_bucket r n
      then if i64_max < ag_duration_ns r + ag_duration_ns n then None
           else Some (r\<lparr>ag_duration_ns := ag_duration_ns r + ag_duration_ns n,
                        ag_last_wall_utc_ms := max (ag_last_wall_utc_ms r) (ag_last_wall_utc_ms n)\<rparr> # rs)
      else map_option ((#) r) (upsert_row n rs))"

datatype aggregate_kind = MinuteAggregate | DailyAggregate | WeeklyAggregate

fun aggregate_table :: "aggregate_kind \<Rightarrow> usage_tables \<Rightarrow> aggregate_row list" where
  "aggregate_table MinuteAggregate t = ut_minute t"
| "aggregate_table DailyAggregate t = ut_daily t"
| "aggregate_table WeeklyAggregate t = ut_weekly t"

lemma all_aggregate_kinds:
  "(\<forall>k. P k) \<longleftrightarrow> P MinuteAggregate \<and> P DailyAggregate \<and> P WeeklyAggregate"
  by (metis aggregate_kind.exhaust)

fun set_aggregate_table :: "aggregate_kind \<Rightarrow> aggregate_row list \<Rightarrow> usage_tables \<Rightarrow> usage_tables" where
  "set_aggregate_table MinuteAggregate rs t = t\<lparr>ut_minute := rs\<rparr>"
| "set_aggregate_table DailyAggregate rs t = t\<lparr>ut_daily := rs\<rparr>"
| "set_aggregate_table WeeklyAggregate rs t = t\<lparr>ut_weekly := rs\<rparr>"

definition upsert_aggregate ::
  "aggregate_kind \<Rightarrow> string \<Rightarrow> string \<Rightarrow> bucket_slice \<Rightarrow> i64 \<Rightarrow> unit usage_stm" where
  "upsert_aggregate table app_id key sl start =
     u_bind (u_lift (sql_u64 (bs_duration_ns sl))) (\<lambda>d.
     sql (\<lambda>t. map_option (\<lambda>rs. ((), set_aggregate_table table rs t))
       (upsert_row \<lparr>ag_app_id = app_id, ag_bucket_key = key, ag_timezone_id = bs_timezone_id sl,
          ag_utc_offset_seconds = bs_utc_offset_seconds sl, ag_bucket_start_utc_ms = start,
          ag_last_wall_utc_ms = bs_last_wall_utc_ms sl, ag_duration_ns = d\<rparr>
          (aggregate_table table t))))"

fun upsert_slices :: "string \<Rightarrow> bucket_slice list \<Rightarrow> unit usage_stm" where
  "upsert_slices app_id [] = u_lift (Ok ())"
| "upsert_slices app_id (s # ss) =
     u_bind (upsert_aggregate MinuteAggregate app_id (bs_minute_key s) s (bs_bucket_start_utc_ms s)) (\<lambda>_.
     u_bind (upsert_aggregate DailyAggregate app_id (bs_day_key s) s (bs_day_start_utc_ms s)) (\<lambda>_.
     u_bind (upsert_aggregate WeeklyAggregate app_id (bs_week_key s) s (bs_week_start_utc_ms s)) (\<lambda>_.
     upsert_slices app_id ss)))"

fun sum_durations :: "bucket_slice list \<Rightarrow> u64 \<Rightarrow> (usage_store_error, u64) result" where
  "sum_durations [] acc = Ok acc"
| "sum_durations (s # ss) acc =
     and_then (ok_or (checked_add acc (bs_duration_ns s)) NumericOverflow) (sum_durations ss)"

definition append_segment :: "i64 \<Rightarrow> string \<Rightarrow> clock_sample \<Rightarrow> bucket_slice list \<Rightarrow> unit usage_stm" where
  "append_segment i app_id end_s slices =
     u_bind (u_lift (sum_durations slices 0)) (\<lambda>duration.
     if duration = 0 then u_lift (Ok ())
     else immediate (
       u_bind (u_lift (sql_u64 duration)) (\<lambda>d.
       u_bind (u_lift (sql_u64 (cs_monotonic_ns end_s))) (\<lambda>mono_ns.
       u_bind (sql (update_open_duration i d mono_ns (cs_wall_utc_ms end_s))) (\<lambda>updated.
       if updated \<noteq> 1 then u_lift (Err (IntervalNotOpen i))
       else upsert_slices app_id slices)))))"

section \<open>Retention\<close>

record retention_policy =
  rp_raw_days :: u32
  rp_minute_days :: u32
  rp_daily_days :: u32
  rp_weekly_weeks :: u32

definition default_retention :: retention_policy where
  "default_retention = \<lparr>rp_raw_days = 30, rp_minute_days = 30, rp_daily_days = 400, rp_weekly_weeks = 260\<rparr>"

definition delete_older_than :: "aggregate_kind \<Rightarrow> i64 \<Rightarrow> unit usage_stm" where
  "delete_older_than table cutoff =
     sql (\<lambda>t. Some ((), set_aggregate_table table
       (filter (\<lambda>r. \<not> ag_last_wall_utc_ms r < cutoff) (aggregate_table table t)) t))"

definition interval_end :: "focus_row \<Rightarrow> i64" where
  "interval_end r =
     (case fi_ended_wall_utc_ms r of Some e \<Rightarrow> e | None \<Rightarrow> fi_last_checkpoint_wall_utc_ms r)"

definition checked_mul :: "'a::len word \<Rightarrow> 'a word \<Rightarrow> 'a word option" where
  "checked_mul a b = (if unat a * unat b < 2 ^ LENGTH('a) then Some (a * b) else None)"

definition apply_retention :: "i64 \<Rightarrow> retention_policy \<Rightarrow> unit usage_stm" where
  "apply_retention now policy =
     immediate (
       u_bind (u_lift (cutoff_days now (rp_raw_days policy))) (\<lambda>raw.
       u_bind (sql (\<lambda>t. Some ((), t\<lparr>ut_intervals := filter (\<lambda>r.
          \<not> (fi_state r \<noteq> IntervalOpen \<and> interval_end r < raw)) (ut_intervals t)\<rparr>))) (\<lambda>_.
       u_bind (u_lift (cutoff_days now (rp_minute_days policy))) (\<lambda>minute.
       u_bind (delete_older_than MinuteAggregate minute) (\<lambda>_.
       u_bind (u_lift (cutoff_days now (rp_daily_days policy))) (\<lambda>daily.
       u_bind (delete_older_than DailyAggregate daily) (\<lambda>_.
       u_bind (u_lift (ok_or (checked_mul (rp_weekly_weeks policy) 7) NumericOverflow)) (\<lambda>weekly_days.
       u_bind (u_lift (cutoff_days now weekly_days)) (\<lambda>weekly.
       u_bind (delete_older_than WeeklyAggregate weekly) (\<lambda>_.
       u_bind (u_lift (ok_or (checked_add (rp_daily_days policy) DAILY_COVERAGE_BOUNDARY_DAYS) NumericOverflow)) (\<lambda>daily_coverage.
       u_bind (u_lift (ok_or (checked_add weekly_days WEEKLY_COVERAGE_BOUNDARY_DAYS) NumericOverflow)) (\<lambda>weekly_coverage.
       u_bind (u_lift (cutoff_days now (max daily_coverage weekly_coverage))) (\<lambda>coverage.
       sql (\<lambda>t. Some ((), t\<lparr>ut_gaps := filter (\<lambda>g.
          \<not> is_some_and (gp_ended_wall_utc_ms g) (\<lambda>e. e < coverage)) (ut_gaps t)\<rparr>)))))))))))))))"

section \<open>Coverage gaps\<close>

definition open_gap :: "gap_row \<Rightarrow> bool" where
  "open_gap g = (gp_ended_wall_utc_ms g = None)"

text \<open>SQLite's \<open>length\<close> of a text: its characters before the first NUL.\<close>

definition sql_length :: "string \<Rightarrow> nat" where
  "sql_length s = length (filter (\<lambda>c. \<not> utf8_cont (of_char c)) (takeWhile (\<lambda>c. c \<noteq> CHR 0x00) s))"

text \<open>One insertion into \<open>coverage_gaps\<close>, with the unique index on the open gap and the checks of
  the table.\<close>

definition insert_gap :: "(i64 list \<Rightarrow> i64 option) \<Rightarrow> (i64 \<Rightarrow> gap_row) \<Rightarrow> usage_tables \<Rightarrow> (unit \<times> usage_tables) option" where
  "insert_gap pick row t =
     (case next_rowid pick (map gp_id (ut_gaps t)) of
        None \<Rightarrow> None
      | Some i \<Rightarrow>
          if (open_gap (row i) \<and> list_ex open_gap (ut_gaps t)) \<or>
             sql_length (gp_reason (row i)) < 1 \<or> 128 < sql_length (gp_reason (row i)) \<or>
             gp_occurrence_count (row i) \<le> 0 \<or> gp_recovered_interval_count (row i) < 0 \<or>
             is_some_and (gp_ended_wall_utc_ms (row i)) (\<lambda>e. e < gp_started_wall_utc_ms (row i))
          then None
          else Some ((), t\<lparr>ut_gaps := ut_gaps t @ [row i]\<rparr>))"

definition open_gap_row :: "i64 \<Rightarrow> string \<Rightarrow> string \<Rightarrow> string \<Rightarrow> i64 \<Rightarrow> i64 \<Rightarrow> gap_row" where
  "open_gap_row wall daily weekly reason recovered i =
     \<lparr>gp_id = i, gp_started_wall_utc_ms = wall, gp_ended_wall_utc_ms = None, gp_start_daily_key = daily,
      gp_end_daily_key = None, gp_start_weekly_key = weekly, gp_end_weekly_key = None, gp_reason = reason,
      gp_occurrence_count = 1, gp_recovered_interval_count = recovered\<rparr>"

definition begin_gap ::
  "('o, 'd, 'n) chrono \<Rightarrow> (i64 list \<Rightarrow> i64 option) \<Rightarrow> string \<Rightarrow> clock_sample \<Rightarrow> unit usage_stm" where
  "begin_gap ch pick reason start =
     u_bind (u_lift (validate_gap_reason reason)) (\<lambda>_.
     u_bind (u_lift (gap_bucket_keys ch start)) (\<lambda>(daily, weekly).
     sql (\<lambda>t. if list_ex open_gap (ut_gaps t) then Some ((), t)
       else insert_gap pick (open_gap_row (cs_wall_utc_ms start) daily weekly reason 0) t)))"

definition close_open_gaps :: "('o, 'd, 'n) chrono \<Rightarrow> clock_sample \<Rightarrow> unit usage_stm" where
  "close_open_gaps ch end_s =
     u_bind (u_lift (gap_bucket_keys ch end_s)) (\<lambda>(daily, weekly).
     sql (\<lambda>t. Some ((), t\<lparr>ut_gaps := map (\<lambda>g. if open_gap g
        then g\<lparr>gp_ended_wall_utc_ms := Some (max (gp_started_wall_utc_ms g) (cs_wall_utc_ms end_s)),
               gp_end_daily_key := Some daily, gp_end_weekly_key := Some weekly\<rparr> else g) (ut_gaps t)\<rparr>)))"

definition record_gap_interval ::
  "('o, 'd, 'n) chrono \<Rightarrow> (i64 list \<Rightarrow> i64 option) \<Rightarrow> string \<Rightarrow> clock_sample \<Rightarrow> clock_sample \<Rightarrow> unit usage_stm" where
  "record_gap_interval ch pick reason start end_s =
     u_bind (u_lift (validate_gap_reason reason)) (\<lambda>_.
     u_bind (u_lift (gap_bucket_keys ch start)) (\<lambda>(start_daily, start_weekly).
     u_bind (u_lift (gap_bucket_keys ch end_s)) (\<lambda>(end_daily, end_weekly).
     sql (insert_gap pick (\<lambda>i.
       \<lparr>gp_id = i, gp_started_wall_utc_ms = cs_wall_utc_ms start,
        gp_ended_wall_utc_ms = Some (max (cs_wall_utc_ms start) (cs_wall_utc_ms end_s)),
        gp_start_daily_key = start_daily, gp_end_daily_key = Some end_daily,
        gp_start_weekly_key = start_weekly, gp_end_weekly_key = Some end_weekly, gp_reason = reason,
        gp_occurrence_count = 1, gp_recovered_interval_count = 0\<rparr>)))))"

definition has_open_gap :: "bool usage_stm" where
  "has_open_gap = sql (\<lambda>t. Some (list_ex open_gap (ut_gaps t), t))"

definition interval_count :: "u64 usage_stm" where
  "interval_count = sql (\<lambda>t. Some (of_nat (length (ut_intervals t)), t))"

definition open_interval_count :: "u64 usage_stm" where
  "open_interval_count =
     sql (\<lambda>t. Some (of_nat (length (filter (\<lambda>r. fi_state r = IntervalOpen) (ut_intervals t))), t))"

section \<open>Recovery\<close>

definition recover_row :: "i64 \<Rightarrow> focus_row \<Rightarrow> focus_row" where
  "recover_row wall r =
     (if fi_state r = IntervalOpen
      then r\<lparr>fi_ended_monotonic_ns := Some (fi_last_checkpoint_monotonic_ns r),
             fi_ended_wall_utc_ms := Some (fi_last_checkpoint_wall_utc_ms r),
             fi_state := IntervalRecovered, fi_end_reason := Some ''crash_recovery'',
             fi_recovered_at_wall_utc_ms := Some wall\<rparr>
      else r)"

definition min_option :: "i64 list \<Rightarrow> i64 option" where
  "min_option xs = (if xs = [] then None else Some (Min (set xs)))"

text \<open>The branch for recovered intervals: the open gap counts them, or a new gap opens at the earliest
  checkpoint.\<close>

definition count_recovered :: "i64 \<Rightarrow> unit usage_stm" where
  "count_recovered n =
     sql (\<lambda>t.
       if (\<exists>g \<in> set (ut_gaps t). open_gap g \<and> i64_max < gp_recovered_interval_count g + n) then None
       else Some ((), t\<lparr>ut_gaps := map (\<lambda>g. if open_gap g
         then g\<lparr>gp_recovered_interval_count := gp_recovered_interval_count g + n\<rparr> else g) (ut_gaps t)\<rparr>))"

definition mark_recovery ::
  "('o, 'd, 'n) chrono \<Rightarrow> (i64 list \<Rightarrow> i64 option) \<Rightarrow> clock_sample \<Rightarrow> i64 option \<Rightarrow> nat \<Rightarrow> unit usage_stm" where
  "mark_recovery ch pick at earliest recovered =
     (let started = (case earliest of Some w \<Rightarrow> w | None \<Rightarrow> cs_wall_utc_ms at) in
      u_bind (u_lift (gap_bucket_keys ch (at\<lparr>cs_wall_utc_ms := started\<rparr>))) (\<lambda>(daily, weekly).
      u_bind (u_lift (ok_or (i64_checked (int recovered)) NumericOverflow)) (\<lambda>n.
      u_bind (count_recovered n) (\<lambda>_.
      sql (\<lambda>t. if list_ex open_gap (ut_gaps t) then Some ((), t)
         else insert_gap pick (open_gap_row started daily weekly ''crash_recovery'' n) t)))))"

definition recover_open_intervals ::
  "('o, 'd, 'n) chrono \<Rightarrow> (i64 list \<Rightarrow> i64 option) \<Rightarrow> clock_sample \<Rightarrow> nat usage_stm" where
  "recover_open_intervals ch pick at =
     immediate (
       u_bind (sql (\<lambda>t. Some (min_option (map fi_last_checkpoint_wall_utc_ms
          (filter (\<lambda>r. fi_state r = IntervalOpen) (ut_intervals t))), t))) (\<lambda>earliest.
       u_bind (sql (\<lambda>t. Some (length (filter (\<lambda>r. fi_state r = IntervalOpen) (ut_intervals t)),
          t\<lparr>ut_intervals := map (recover_row (cs_wall_utc_ms at)) (ut_intervals t)\<rparr>))) (\<lambda>recovered.
       u_bind (if 0 < recovered then mark_recovery ch pick at earliest recovered else u_lift (Ok ())) (\<lambda>_.
       u_lift (Ok recovered)))))"

section \<open>Booked time\<close>

text \<open>The time booked in an aggregate table on the buckets a predicate selects, and in the raw
  intervals of an application.\<close>

definition bucket_id :: "aggregate_row \<Rightarrow> string \<times> string \<times> string \<times> int" where
  "bucket_id r = (ag_app_id r, ag_bucket_key r, ag_timezone_id r, ag_utc_offset_seconds r)"

definition booked :: "(string \<times> string \<times> string \<times> int \<Rightarrow> bool) \<Rightarrow> aggregate_row list \<Rightarrow> int" where
  "booked P rs = (\<Sum>r \<leftarrow> filter (P \<circ> bucket_id) rs. ag_duration_ns r)"

definition booked_raw :: "string \<Rightarrow> focus_row list \<Rightarrow> int" where
  "booked_raw app rs = (\<Sum>r \<leftarrow> filter (\<lambda>r. fi_app_id r = app) rs. fi_duration_ns r)"

fun slice_key :: "aggregate_kind \<Rightarrow> bucket_slice \<Rightarrow> string" where
  "slice_key MinuteAggregate s = bs_minute_key s"
| "slice_key DailyAggregate s = bs_day_key s"
| "slice_key WeeklyAggregate s = bs_week_key s"

definition slice_id :: "aggregate_kind \<Rightarrow> string \<Rightarrow> bucket_slice \<Rightarrow> string \<times> string \<times> string \<times> int" where
  "slice_id kind app s = (app, slice_key kind s, bs_timezone_id s, bs_utc_offset_seconds s)"

definition booked_slices ::
  "(string \<times> string \<times> string \<times> int \<Rightarrow> bool) \<Rightarrow> aggregate_kind \<Rightarrow> string \<Rightarrow> bucket_slice list \<Rightarrow> int" where
  "booked_slices P kind app ss = (\<Sum>s \<leftarrow> filter (P \<circ> slice_id kind app) ss. uint (bs_duration_ns s))"

lemma same_bucket_id: "same_bucket a b \<longleftrightarrow> bucket_id a = bucket_id b"
  by (auto simp: same_bucket_def bucket_id_def)

lemma bucket_id_upd [simp]:
  "bucket_id (r\<lparr>ag_duration_ns := d, ag_last_wall_utc_ms := w\<rparr>) = bucket_id r"
  by (simp add: bucket_id_def)

lemma booked_simps [simp]:
  "booked P [] = 0"
  "booked P (r # rs) = (if P (bucket_id r) then ag_duration_ns r else 0) + booked P rs"
  by (simp_all add: booked_def)

lemma booked_slices_simps [simp]:
  "booked_slices P kind app [] = 0"
  "booked_slices P kind app (s # ss) =
     (if P (slice_id kind app s) then uint (bs_duration_ns s) else 0) + booked_slices P kind app ss"
  by (simp_all add: booked_slices_def)

lemma upsert_row_booked:
  "upsert_row n rs = Some rs' \<Longrightarrow>
     booked P rs' = booked P rs + (if P (bucket_id n) then ag_duration_ns n else 0)"
  by (induction n rs arbitrary: rs' rule: upsert_row.induct)
     (auto simp: same_bucket_id split: if_splits)

lemma upsert_row_ids:
  "upsert_row n rs = Some rs' \<Longrightarrow> bucket_id ` set rs' = insert (bucket_id n) (bucket_id ` set rs)"
proof (induction n rs arbitrary: rs' rule: upsert_row.induct)
  case (2 n r rs)
  show ?case
  proof (cases "same_bucket r n")
    case True
    then show ?thesis using "2.prems" by (auto simp: same_bucket_id split: if_splits)
  next
    case False
    then obtain z where z: "upsert_row n rs = Some z" "rs' = r # z" using "2.prems" by auto
    show ?thesis using "2.IH" [OF False z(1)] z(2) by (simp add: insert_commute)
  qed
qed simp

lemma upsert_row_distinct:
  "upsert_row n rs = Some rs' \<Longrightarrow> distinct (map bucket_id rs) \<Longrightarrow> distinct (map bucket_id rs')"
  by (induction n rs arbitrary: rs' rule: upsert_row.induct)
     (auto simp: same_bucket_id upsert_row_ids split: if_splits)

definition aggregates_only :: "usage_tables \<Rightarrow> usage_tables \<Rightarrow> bool" where
  "aggregates_only t t' = (t' = t\<lparr>ut_minute := ut_minute t', ut_daily := ut_daily t', ut_weekly := ut_weekly t'\<rparr>)"

lemma aggregates_only_refl [simp]: "aggregates_only t t"
  by (simp add: aggregates_only_def)

lemma aggregates_only_trans: "aggregates_only t t1 \<Longrightarrow> aggregates_only t1 t2 \<Longrightarrow> aggregates_only t t2"
  by (cases t; cases t1; cases t2) (simp add: aggregates_only_def)

lemma aggregates_only_same:
  assumes "aggregates_only t t'"
  shows "ut_intervals t' = ut_intervals t" "ut_gaps t' = ut_gaps t" "ut_epoch t' = ut_epoch t"
    "ut_lease t' = ut_lease t" "ut_version t' = ut_version t" "ut_legacy t' = ut_legacy t"
  using assms by (cases t; cases t'; simp add: aggregates_only_def)+

lemma set_aggregate_table_only [simp]: "aggregates_only t (set_aggregate_table k rs t)"
  by (cases k) (simp_all add: aggregates_only_def)

lemma aggregate_table_set [simp]:
  "aggregate_table k (set_aggregate_table k' rs t) = (if k = k' then rs else aggregate_table k t)"
  by (cases k; cases k') simp_all

lemma aggregate_table_other [simp]:
  "aggregate_table k (t\<lparr>ut_intervals := x\<rparr>) = aggregate_table k t"
  "aggregate_table k (t\<lparr>ut_gaps := g\<rparr>) = aggregate_table k t"
  by (cases k; simp)+

lemma sql_u64_Ok: "sql_u64 v = Ok i \<longleftrightarrow> i = uint v \<and> uint v \<le> i64_max"
  by (auto simp: sql_u64_def i64_of_u64_def)

text \<open>One slice books its duration on exactly its bucket of exactly that table.\<close>

lemma upsert_aggregate_rel:
  "stm_rel (upsert_aggregate k app key s start) (\<lambda>t r t'. r = Ok () \<longrightarrow>
     (\<exists>rs. t' = set_aggregate_table k rs t \<and>
        (\<forall>P. booked P rs = booked P (aggregate_table k t) +
           (if P (app, key, bs_timezone_id s, bs_utc_offset_seconds s) then uint (bs_duration_ns s) else 0))))"
  unfolding upsert_aggregate_def stm_rel_def
proof (intro allI impI)
  fix db r db'
  assume "u_bind (u_lift (sql_u64 (bs_duration_ns s))) (\<lambda>d. sql (\<lambda>t. map_option (\<lambda>rs. ((), set_aggregate_table k rs t))
       (upsert_row \<lparr>ag_app_id = app, ag_bucket_key = key, ag_timezone_id = bs_timezone_id s,
          ag_utc_offset_seconds = bs_utc_offset_seconds s, ag_bucket_start_utc_ms = start,
          ag_last_wall_utc_ms = bs_last_wall_utc_ms s, ag_duration_ns = d\<rparr> (aggregate_table k t)))) db = (r, db')"
    and "r = Ok ()"
  then obtain rs where "fst db' = set_aggregate_table k rs (fst db)"
    "upsert_row \<lparr>ag_app_id = app, ag_bucket_key = key, ag_timezone_id = bs_timezone_id s,
          ag_utc_offset_seconds = bs_utc_offset_seconds s, ag_bucket_start_utc_ms = start,
          ag_last_wall_utc_ms = bs_last_wall_utc_ms s, ag_duration_ns = uint (bs_duration_ns s)\<rparr>
       (aggregate_table k (fst db)) = Some rs"
    by (auto simp: u_bind_def u_lift_def sql_def sql_u64_Ok split: sum.splits if_splits option.splits)
  with upsert_row_booked [OF this(2)]
  show "\<exists>rs. fst db' = set_aggregate_table k rs (fst db) \<and> (\<forall>P. booked P rs = booked P (aggregate_table k (fst db)) +
           (if P (app, key, bs_timezone_id s, bs_utc_offset_seconds s) then uint (bs_duration_ns s) else 0))"
    by (auto simp: bucket_id_def)
qed

lemma upsert_slices_books:
  "upsert_slices app ss db = (Ok (), db') \<Longrightarrow>
     aggregates_only (fst db) (fst db') \<and>
     (\<forall>P k. booked P (aggregate_table k (fst db')) = booked P (aggregate_table k (fst db)) + booked_slices P k app ss)"
proof (induction app ss arbitrary: db rule: upsert_slices.induct)
  case (2 app s ss)
  obtain db1 db2 db3 where
    u: "upsert_aggregate MinuteAggregate app (bs_minute_key s) s (bs_bucket_start_utc_ms s) db = (Ok (), db1)"
       "upsert_aggregate DailyAggregate app (bs_day_key s) s (bs_day_start_utc_ms s) db1 = (Ok (), db2)"
       "upsert_aggregate WeeklyAggregate app (bs_week_key s) s (bs_week_start_utc_ms s) db2 = (Ok (), db3)"
       "upsert_slices app ss db3 = (Ok (), db')"
    using "2.prems" by (auto elim!: u_bind_Ok)
  note step = stm_relD [OF upsert_aggregate_rel u(1)] stm_relD [OF upsert_aggregate_rel u(2)]
    stm_relD [OF upsert_aggregate_rel u(3)]
  have "booked P (aggregate_table k (fst db3)) = booked P (aggregate_table k (fst db)) + booked_slices P k app [s]" for P k
    using step by (cases k) (auto simp: slice_id_def)
  moreover have "aggregates_only (fst db) (fst db3)"
    using step by (auto simp: aggregates_only_def)
  ultimately show ?case
    using "2.IH" [OF u(4)] by (auto intro: aggregates_only_trans)
qed simp

lemma sum_durations_Ok: "sum_durations ss acc = Ok d \<Longrightarrow> unat d = unat acc + slices_total ss"
proof (induction ss acc rule: sum_durations.induct)
  case (2 s ss acc)
  then obtain a where "checked_add acc (bs_duration_ns s) = Some a" "sum_durations ss a = Ok d"
    by (auto simp: and_then_eq_Ok)
  with "2.IH" show ?case by (auto simp: checked_add_Some)
qed simp

text \<open>The raw interval after a booked segment.\<close>

definition booked_row :: "int \<Rightarrow> clock_sample \<Rightarrow> focus_row \<Rightarrow> focus_row" where
  "booked_row d end_s r = r\<lparr>fi_duration_ns := fi_duration_ns r + d,
     fi_last_checkpoint_monotonic_ns := uint (cs_monotonic_ns end_s),
     fi_last_checkpoint_wall_utc_ms := cs_wall_utc_ms end_s\<rparr>"

definition segment_booked ::
  "i64 \<Rightarrow> string \<Rightarrow> clock_sample \<Rightarrow> bucket_slice list \<Rightarrow> usage_tables \<Rightarrow> usage_tables \<Rightarrow> bool" where
  "segment_booked i app end_s slices t t' \<longleftrightarrow>
     aggregates_only (t\<lparr>ut_intervals := ut_intervals t'\<rparr>) t' \<and>
     length (filter (is_open_row i) (ut_intervals t)) = 1 \<and>
     (\<forall>r \<in> set (ut_intervals t). is_open_row i r \<longrightarrow> fi_duration_ns r + int (slices_total slices) \<le> i64_max) \<and>
     uint (cs_monotonic_ns end_s) \<le> i64_max \<and>
     ut_intervals t' = map (\<lambda>r. if is_open_row i r then booked_row (int (slices_total slices)) end_s r else r)
       (ut_intervals t) \<and>
     (\<forall>P k. booked P (aggregate_table k t') = booked P (aggregate_table k t) + booked_slices P k app slices)"

lemma append_segment_rel:
  "stm_rel (append_segment i app end_s slices) (\<lambda>t r t'.
     (\<exists>e. r = Err e \<and> t' = t) \<or>
     (r = Ok () \<and> slices_total slices = 0 \<and> t' = t) \<or>
     (r = Ok () \<and> 0 < slices_total slices \<and> segment_booked i app end_s slices t t'))"
  unfolding stm_rel_def
proof (intro allI impI)
  fix db r db' assume a: "append_segment i app end_s slices db = (r, db')"
  show "(\<exists>e. r = Err e \<and> fst db' = fst db) \<or>
     (r = Ok () \<and> slices_total slices = 0 \<and> fst db' = fst db) \<or>
     (r = Ok () \<and> 0 < slices_total slices \<and> segment_booked i app end_s slices (fst db) (fst db'))"
  proof (cases "sum_durations slices 0")
    case (Inl e)
    then show ?thesis using a by (auto simp: append_segment_def u_bind_def u_lift_def)
  next
    case (Inr d)
    note d = sum_durations_Ok [OF Inr]
    show ?thesis
    proof (cases "d = 0")
      case True
      then show ?thesis using a d Inr by (simp add: append_segment_def u_bind_def u_lift_def)
    next
      case False
      then have pos: "0 < slices_total slices" using d unat_eq_0 [of d] unfolding unat_0 by linarith
      let ?body = "u_bind (u_lift (sql_u64 d)) (\<lambda>d.
       u_bind (u_lift (sql_u64 (cs_monotonic_ns end_s))) (\<lambda>mono_ns.
       u_bind (sql (update_open_duration i d mono_ns (cs_wall_utc_ms end_s))) (\<lambda>updated.
       if updated \<noteq> 1 then u_lift (Err (IntervalNotOpen i)) else upsert_slices app slices)))"
      have im: "immediate ?body db = (r, db')"
        using a Inr False by (simp add: append_segment_def u_bind_def u_lift_def)
      show ?thesis
      proof (cases r)
        case (Inl e)
        from transaction_Err [OF im [unfolded this]] show ?thesis using Inl by blast
      next
        case (Inr u)
        then have "immediate ?body db = (Ok (), db')" using im by simp
        from transaction_Ok [OF this]
        obtain fs fs' where "?body (fst db, fs) = (Ok (), (fst db', fs'))" .
        then obtain db1 where
          m: "uint d \<le> i64_max" "uint (cs_monotonic_ns end_s) \<le> i64_max"
          and up: "sql (update_open_duration i (uint d) (uint (cs_monotonic_ns end_s)) (cs_wall_utc_ms end_s)) (fst db, fs)
             = (Ok 1, db1)"
          and sl: "upsert_slices app slices db1 = (Ok (), (fst db', fs'))"
          by (auto elim!: u_bind_Ok simp: sql_u64_Ok split: if_splits)
        have dd: "uint d = int (slices_total slices)" using d by (simp add: uint_nat)
        have t1: "length (filter (is_open_row i) (ut_intervals (fst db))) = 1"
          "\<forall>r \<in> set (ut_intervals (fst db)). is_open_row i r \<longrightarrow> fi_duration_ns r + int (slices_total slices) \<le> i64_max"
          "fst db1 = (fst db)\<lparr>ut_intervals := map (\<lambda>r. if is_open_row i r then booked_row (int (slices_total slices)) end_s r else r)
             (ut_intervals (fst db))\<rparr>"
          using up dd by (auto simp: sql_def update_open_duration_def booked_row_def not_less split: if_splits)
        have "ut_intervals (fst db') = ut_intervals (fst db1)" "aggregates_only (fst db1) (fst db')"
          using upsert_slices_books [OF sl] by (auto dest: aggregates_only_same)
        then show ?thesis
          using upsert_slices_books [OF sl] t1 m(2) pos Inr
          by (simp add: segment_booked_def)
      qed
    qed
  qed
qed

section \<open>The schema\<close>

text \<open>
  What the schema promises of the tables: primary keys are unique, at most one interval and one
  gap are open, durations fit and are not negative, a gap does not end before it starts.
\<close>

definition open_intervals :: "usage_tables \<Rightarrow> focus_row list" where
  "open_intervals t = filter (\<lambda>r. fi_state r = IntervalOpen) (ut_intervals t)"

definition gap_ok :: "gap_row \<Rightarrow> bool" where
  "gap_ok g = (0 < gp_occurrence_count g \<and> 0 \<le> gp_recovered_interval_count g \<and>
     is_none_or (gp_ended_wall_utc_ms g) (\<lambda>e. gp_started_wall_utc_ms g \<le> e))"

definition aggregate_ok :: "aggregate_row list \<Rightarrow> bool" where
  "aggregate_ok rs = (distinct (map bucket_id rs) \<and> (\<forall>r \<in> set rs. 0 \<le> ag_duration_ns r \<and> ag_duration_ns r \<le> i64_max))"

definition schema_ok :: "usage_tables \<Rightarrow> bool" where
  "schema_ok t \<longleftrightarrow>
     distinct (map fi_id (ut_intervals t)) \<and> length (open_intervals t) \<le> 1 \<and>
     (\<forall>r \<in> set (ut_intervals t). 0 \<le> fi_duration_ns r \<and> fi_duration_ns r \<le> i64_max) \<and>
     (\<forall>k. aggregate_ok (aggregate_table k t)) \<and>
     distinct (map gp_id (ut_gaps t)) \<and> length (filter open_gap (ut_gaps t)) \<le> 1 \<and>
     (\<forall>g \<in> set (ut_gaps t). gap_ok g)"

lemma next_rowid_fresh: "next_rowid pick ids = Some i \<Longrightarrow> i \<notin> set ids"
proof -
  assume a: "next_rowid pick ids = Some i"
  have "Max (set ids) + 1 \<notin> set ids" if "ids \<noteq> []"
    using Max_ge [of "set ids" "Max (set ids) + 1"] by auto
  with a show ?thesis by (auto simp: next_rowid_def split: if_splits option.splits)
qed

lemma upsert_row_ok:
  "upsert_row n rs = Some rs' \<Longrightarrow> aggregate_ok rs \<Longrightarrow> 0 \<le> ag_duration_ns n \<Longrightarrow> ag_duration_ns n \<le> i64_max \<Longrightarrow>
     aggregate_ok rs'"
proof -
  have "\<forall>r \<in> set rs'. 0 \<le> ag_duration_ns r \<and> ag_duration_ns r \<le> i64_max"
    if "upsert_row n rs = Some rs'" "\<forall>r \<in> set rs. 0 \<le> ag_duration_ns r \<and> ag_duration_ns r \<le> i64_max"
      "0 \<le> ag_duration_ns n" "ag_duration_ns n \<le> i64_max"
    using that by (induction n rs arbitrary: rs' rule: upsert_row.induct) (auto split: if_splits)
  then show "upsert_row n rs = Some rs' \<Longrightarrow> aggregate_ok rs \<Longrightarrow> 0 \<le> ag_duration_ns n \<Longrightarrow> ag_duration_ns n \<le> i64_max \<Longrightarrow>
     aggregate_ok rs'"
    using upsert_row_distinct by (auto simp: aggregate_ok_def)
qed

lemma set_aggregate_table_sel [simp]:
  "ut_intervals (set_aggregate_table k rs t) = ut_intervals t"
  "ut_gaps (set_aggregate_table k rs t) = ut_gaps t"
  by (cases k; simp)+

lemma schema_set_aggregate:
  "schema_ok t \<Longrightarrow> aggregate_ok rs \<Longrightarrow> schema_ok (set_aggregate_table k rs t)"
  by (auto simp: schema_ok_def open_intervals_def)

text \<open>Rewriting rows in place: identities stay, no interval opens, durations stay in range.\<close>

lemma filter_map_le: "(\<And>x. x \<in> set xs \<Longrightarrow> P (f x) \<Longrightarrow> P x) \<Longrightarrow> length (filter P (map f xs)) \<le> length (filter P xs)"
  by (induction xs) auto

lemma schema_map_intervals:
  assumes "schema_ok t" "\<And>r. fi_id (f r) = fi_id r" "\<And>r. fi_state (f r) = IntervalOpen \<Longrightarrow> fi_state r = IntervalOpen"
    "\<And>r. r \<in> set (ut_intervals t) \<Longrightarrow> 0 \<le> fi_duration_ns (f r) \<and> fi_duration_ns (f r) \<le> i64_max"
  shows "schema_ok (t\<lparr>ut_intervals := map f (ut_intervals t)\<rparr>)"
proof -
  have "length (filter (\<lambda>r. fi_state r = IntervalOpen) (map f (ut_intervals t))) \<le> length (open_intervals t)"
    unfolding open_intervals_def by (rule filter_map_le) (use assms(3) in auto)
  then show ?thesis
    using assms unfolding schema_ok_def open_intervals_def by (auto simp: comp_def)
qed

lemma schema_map_gaps:
  assumes "schema_ok t" "\<And>g. gp_id (f g) = gp_id g" "\<And>g. open_gap (f g) \<Longrightarrow> open_gap g"
    "\<And>g. g \<in> set (ut_gaps t) \<Longrightarrow> gap_ok (f g)"
  shows "schema_ok (t\<lparr>ut_gaps := map f (ut_gaps t)\<rparr>)"
proof -
  have "length (filter open_gap (map f (ut_gaps t))) \<le> length (filter open_gap (ut_gaps t))"
    by (rule filter_map_le) (use assms(3) in auto)
  then show ?thesis
    using assms unfolding schema_ok_def open_intervals_def by (auto simp: comp_def)
qed

lemma schema_filter_intervals:
  "schema_ok t \<Longrightarrow> schema_ok (t\<lparr>ut_intervals := filter P (ut_intervals t)\<rparr>)"
  using length_filter_le [of P "open_intervals t"]
  by (auto simp: schema_ok_def open_intervals_def distinct_map_filter filter_filter conj_commute
      intro: order_trans)

lemma schema_filter_gaps:
  "schema_ok t \<Longrightarrow> schema_ok (t\<lparr>ut_gaps := filter P (ut_gaps t)\<rparr>)"
  using length_filter_le [of P "filter open_gap (ut_gaps t)"]
  by (auto simp: schema_ok_def open_intervals_def distinct_map_filter filter_filter conj_commute
      intro: order_trans)

lemma insert_gap_schema:
  assumes "insert_gap pick row t = Some (u, t')" "schema_ok t" "\<And>i. gp_id (row i) = i"
  shows "schema_ok t'"
proof -
  obtain i where i: "next_rowid pick (map gp_id (ut_gaps t)) = Some i" "t' = t\<lparr>ut_gaps := ut_gaps t @ [row i]\<rparr>"
    "open_gap (row i) \<Longrightarrow> \<not> list_ex open_gap (ut_gaps t)" "gap_ok (row i)"
    using assms(1) by (auto simp: insert_gap_def gap_ok_def is_none_or_iff is_some_and_iff not_le not_less
        split: option.splits if_splits)
  have "open_gap (row i) \<Longrightarrow> filter open_gap (ut_gaps t) = []"
    using i(3) by (simp add: list_ex_iff filter_empty_conv)
  then show ?thesis
    using i(2,4) assms(2,3) next_rowid_fresh [OF i(1)]
    by (auto simp: schema_ok_def open_intervals_def)
qed

lemma insert_interval_schema:
  assumes "insert_interval pick row t = Some (i, t')" "schema_ok t" "\<And>i. fi_id (row i) = i" "\<And>i. fi_duration_ns (row i) = 0"
  shows "schema_ok t'"
proof -
  have i: "next_rowid pick (map fi_id (ut_intervals t)) = Some i" "t' = t\<lparr>ut_intervals := ut_intervals t @ [row i]\<rparr>"
    "open_intervals t = []"
    using assms(1) by (auto simp: insert_interval_def open_intervals_def filter_empty_conv split: option.splits if_splits)
  have "length (open_intervals t') \<le> 1" using i(2,3) by (simp add: open_intervals_def)
  then show ?thesis
    using i(2) assms(2-4) next_rowid_fresh [OF i(1)]
    by (auto simp: schema_ok_def i64_max_def)
qed

lemma start_interval_schema: "keeps schema_ok (start_interval pick identity start)"
  unfolding start_interval_def by (intro keeps_bind keeps_lift keeps_sql) (erule insert_interval_schema; simp add: interval_row_def)

lemma schema_duration:
  "schema_ok t \<Longrightarrow> r \<in> set (ut_intervals t) \<Longrightarrow> 0 \<le> fi_duration_ns r \<and> fi_duration_ns r \<le> i64_max"
  by (simp add: schema_ok_def)

lemma schema_gap: "schema_ok t \<Longrightarrow> g \<in> set (ut_gaps t) \<Longrightarrow> gap_ok g"
  by (simp add: schema_ok_def)

lemma schema_aggregate: "schema_ok t \<Longrightarrow> aggregate_ok (aggregate_table k t)"
  by (simp add: schema_ok_def)

lemma close_interval_schema: "keeps schema_ok (close_interval i end_s reason)"
  unfolding close_interval_def
  by (rule keeps_sql) (auto dest: schema_duration intro!: schema_map_intervals split: if_splits)

lemma upsert_aggregate_schema: "keeps schema_ok (upsert_aggregate k app key s start)"
  unfolding upsert_aggregate_def
  by (rule keeps_lift_bind, rule keeps_sql)
     (auto simp: sql_u64_Ok intro!: schema_set_aggregate intro: upsert_row_ok schema_aggregate)

lemma upsert_slices_schema: "keeps schema_ok (upsert_slices app ss)"
  by (induction app ss rule: upsert_slices.induct)
     (simp_all, intro keeps_bind upsert_aggregate_schema)

lemma update_open_duration_schema:
  "update_open_duration i d m w t = Some (n, t') \<Longrightarrow> 0 \<le> d \<Longrightarrow> schema_ok t \<Longrightarrow> schema_ok t'"
  unfolding update_open_duration_def
  by (force dest: schema_duration intro!: schema_map_intervals split: if_splits simp: not_less)

lemma append_segment_schema: "keeps schema_ok (append_segment i app end_s slices)"
proof -
  have "keeps schema_ok (if updated \<noteq> 1 then u_lift (Err (IntervalNotOpen i)) else upsert_slices app slices)" for updated :: nat
    by (simp add: upsert_slices_schema)
  then have "keeps schema_ok (immediate (u_bind (u_lift (sql_u64 duration)) (\<lambda>d.
       u_bind (u_lift (sql_u64 (cs_monotonic_ns end_s))) (\<lambda>mono_ns.
       u_bind (sql (update_open_duration i d mono_ns (cs_wall_utc_ms end_s))) (\<lambda>updated.
       if updated \<noteq> 1 then u_lift (Err (IntervalNotOpen i)) else upsert_slices app slices)))))" for duration
    by (intro keeps_transaction keeps_lift_bind keeps_bind keeps_sql) (auto simp: sql_u64_Ok intro: update_open_duration_schema)
  then show ?thesis
    unfolding append_segment_def by (intro keeps_lift_bind) auto
qed

lemma delete_older_than_schema: "keeps schema_ok (delete_older_than k cutoff)"
  unfolding delete_older_than_def
  by (rule keeps_sql) (auto simp: aggregate_ok_def distinct_map_filter dest: schema_aggregate [of _ k]
      intro!: schema_set_aggregate)

lemma apply_retention_schema: "keeps schema_ok (apply_retention now policy)"
  unfolding apply_retention_def
  by (intro keeps_transaction keeps_bind keeps_lift keeps_sql delete_older_than_schema)
     (auto intro: schema_filter_intervals schema_filter_gaps)

lemma insert_open_gap_schema:
  "insert_gap pick (open_gap_row w d k reason n) t = Some (u, t') \<Longrightarrow> schema_ok t \<Longrightarrow> schema_ok t'"
  by (erule insert_gap_schema) (simp_all add: open_gap_row_def)

lemma closed_gap_ok: "gap_ok g \<Longrightarrow>
    gap_ok (g\<lparr>gp_ended_wall_utc_ms := Some (max (gp_started_wall_utc_ms g) w), gp_end_daily_key := d, gp_end_weekly_key := k\<rparr>)"
  by (simp add: gap_ok_def)

lemma begin_gap_schema: "keeps schema_ok (begin_gap ch pick reason start)"
  unfolding begin_gap_def
  by (intro keeps_bind keeps_lift)
     (auto split: if_splits prod.splits intro!: keeps_sql intro: insert_open_gap_schema)

lemma record_gap_interval_schema: "keeps schema_ok (record_gap_interval ch pick reason start end_s)"
  unfolding record_gap_interval_def
  by (intro keeps_bind keeps_lift)
     (auto split: prod.splits intro!: keeps_bind keeps_sql intro: insert_gap_schema)

lemma close_open_gaps_schema: "keeps schema_ok (close_open_gaps ch end_s)"
  unfolding close_open_gaps_def
  by (intro keeps_bind keeps_lift)
     (auto split: prod.splits if_splits simp: open_gap_def closed_gap_ok dest: schema_gap
       intro!: keeps_sql schema_map_gaps)

lemma counted_gap_ok: "gap_ok g \<Longrightarrow> 0 \<le> n \<Longrightarrow> gap_ok (g\<lparr>gp_recovered_interval_count := gp_recovered_interval_count g + n\<rparr>)"
  by (simp add: gap_ok_def)

lemma count_recovered_schema: "0 \<le> n \<Longrightarrow> keeps schema_ok (count_recovered n)"
  unfolding count_recovered_def
  by (rule keeps_sql)
     (auto simp: open_gap_def counted_gap_ok dest: schema_gap split: if_splits intro!: schema_map_gaps)

lemma mark_recovery_schema: "keeps schema_ok (mark_recovery ch pick at earliest n)"
  unfolding mark_recovery_def Let_def
  by (auto split: prod.splits if_splits simp: i64_checked_def
      intro!: keeps_lift_bind keeps_bind keeps_sql count_recovered_schema intro: insert_open_gap_schema)

lemma recover_open_intervals_schema: "keeps schema_ok (recover_open_intervals ch pick at)"
proof -
  have "schema_ok (t\<lparr>ut_intervals := map (recover_row w) (ut_intervals t)\<rparr>)" if "schema_ok t" for t w
    using that by (intro schema_map_intervals) (auto simp: recover_row_def dest: schema_duration split: if_splits)
  then show ?thesis
    unfolding recover_open_intervals_def
    by (intro keeps_transaction keeps_bind keeps_lift keeps_sql) (auto simp: mark_recovery_schema)
qed

section \<open>Properties\<close>

text \<open>C7: booking a segment is all or nothing whichever statements fail: an error leaves every table
  as it was; success adds the durations to the open interval and moves its checkpoint, and in each of
  the three aggregate tables adds to every bucket exactly what the slices hold for it.\<close>

theorem append_segment_atomic:
  assumes "append_segment i app end_s slices db = (r, db')"
  shows "(\<exists>e. r = Err e) \<and> fst db' = fst db \<or>
         r = Ok () \<and> slices_total slices = 0 \<and> fst db' = fst db \<or>
         r = Ok () \<and> 0 < slices_total slices \<and> segment_booked i app end_s slices (fst db) (fst db')"
  using stm_relD [OF append_segment_rel assms] by blast

definition sample_row :: focus_row where
  "sample_row = \<lparr>fi_id = 1, fi_app_id = ''term'', fi_pid = None, fi_window_id = 7, fi_boot_id = ''boot-a'',
     fi_started_monotonic_ns = 0, fi_last_checkpoint_monotonic_ns = 0, fi_ended_monotonic_ns = None,
     fi_started_wall_utc_ms = 1767225599500, fi_last_checkpoint_wall_utc_ms = 1767225599500,
     fi_ended_wall_utc_ms = None, fi_start_timezone_id = ''UTC'', fi_start_utc_offset_seconds = 0,
     fi_end_timezone_id = None, fi_end_utc_offset_seconds = None, fi_duration_ns = 0,
     fi_state = IntervalOpen, fi_end_reason = None, fi_recovered_at_wall_utc_ms = None\<rparr>"

definition empty_tables :: usage_tables where
  "empty_tables = \<lparr>ut_version = 2, ut_intervals = [], ut_minute = [], ut_daily = [], ut_weekly = [],
     ut_gaps = [], ut_epoch = None, ut_lease = None, ut_legacy = None\<rparr>"

definition sample_slices :: "bucket_slice list" where
  "sample_slices =
     [\<lparr>bs_minute_key = ''a'', bs_day_key = ''d'', bs_week_key = ''w'', bs_timezone_id = ''UTC'',
       bs_utc_offset_seconds = 0, bs_bucket_start_utc_ms = 0, bs_day_start_utc_ms = 0, bs_week_start_utc_ms = 0,
       bs_last_wall_utc_ms = 60000, bs_duration_ns = 5\<rparr>]"

lemma sample_append:
  "fst (append_segment 1 ''term'' (sample_at 5 60000) sample_slices
     (empty_tables\<lparr>ut_intervals := [sample_row]\<rparr>, [False, False, False])) = Ok ()"
  "fst (append_segment 1 ''term'' (sample_at 5 60000) sample_slices
     (empty_tables\<lparr>ut_intervals := [sample_row]\<rparr>, [False, False, False, True])) = Err SqliteError"
  by (simp_all add: append_segment_def u_bind_def u_lift_def immediate_def sql_def sample_slices_def
      sample_row_def empty_tables_def sample_at_def checked_add_def sql_u64_def i64_of_u64_def i64_max_def
      update_open_duration_def is_open_row_def upsert_aggregate_def)

theorem append_segment_atomic_witness:
  "\<exists>db'. append_segment 1 ''term'' (sample_at 5 60000) sample_slices
      (empty_tables\<lparr>ut_intervals := [sample_row]\<rparr>, [False, False, False]) = (Ok (), db') \<and>
    segment_booked 1 ''term'' (sample_at 5 60000) sample_slices (empty_tables\<lparr>ut_intervals := [sample_row]\<rparr>) (fst db')"
  using append_segment_atomic [OF surjective_pairing, of 1 "''term''" "sample_at 5 60000" sample_slices
      "(empty_tables\<lparr>ut_intervals := [sample_row]\<rparr>, [False, False, False])"]
    sample_append(1)
  by (auto simp: prod_eq_iff sample_slices_def)

text \<open>The operations of the store as commands, each with the failures left in the script.\<close>

datatype usage_op =
    OpStart window_identity clock_sample
  | OpAppend i64 string clock_sample "bucket_slice list"
  | OpClose i64 clock_sample string
  | OpRetention i64 retention_policy
  | OpBeginGap string clock_sample
  | OpCloseGaps clock_sample
  | OpRecordGap string clock_sample clock_sample
  | OpRecover clock_sample

fun run_op :: "('o, 'd, 'n) chrono \<Rightarrow> (i64 list \<Rightarrow> i64 option) \<Rightarrow> usage_op \<Rightarrow> usage_db \<Rightarrow> usage_db" where
  "run_op ch pick (OpStart w s) db = snd (start_interval pick w s db)"
| "run_op ch pick (OpAppend i app e ss) db = snd (append_segment i app e ss db)"
| "run_op ch pick (OpClose i e reason) db = snd (close_interval i e reason db)"
| "run_op ch pick (OpRetention now policy) db = snd (apply_retention now policy db)"
| "run_op ch pick (OpBeginGap reason s) db = snd (begin_gap ch pick reason s db)"
| "run_op ch pick (OpCloseGaps e) db = snd (close_open_gaps ch e db)"
| "run_op ch pick (OpRecordGap reason s e) db = snd (record_gap_interval ch pick reason s e db)"
| "run_op ch pick (OpRecover s) db = snd (recover_open_intervals ch pick s db)"

lemma keepsD: "keeps P m \<Longrightarrow> P (fst db) \<Longrightarrow> P (fst (snd (m db)))"
  using stm_relD [of m "\<lambda>t r t'. P t \<longrightarrow> P t'" db "fst (m db)" "snd (m db)"] by simp

lemmas store_schema = start_interval_schema append_segment_schema close_interval_schema apply_retention_schema
  begin_gap_schema close_open_gaps_schema record_gap_interval_schema recover_open_intervals_schema

lemma run_op_schema: "schema_ok (fst db) \<Longrightarrow> schema_ok (fst (run_op ch pick c db))"
  by (cases c) (simp_all add: keepsD store_schema)

text \<open>Along any sequence of store operations, whichever of their statements fail, the tables satisfy
  the schema: unique keys, at most one open interval and one open gap, durations that fit, gaps that
  do not end before they start.\<close>

theorem store_schema_kept:
  "schema_ok (fst db) \<Longrightarrow> schema_ok (fst (fold (run_op ch pick) ops db))"
  by (induction ops arbitrary: db) (simp_all add: run_op_schema)

theorem store_schema_kept_witness:
  "schema_ok (fst (fold (run_op civil (\<lambda>_. None))
     [OpStart \<lparr>wi_window_id = 7, wi_app_id = ''term'', wi_pid = None\<rparr> (sample_at 0 0), OpRecover (sample_at 5 60000)]
     (empty_tables, [False, True])))"
  by (rule store_schema_kept)
     (simp add: schema_ok_def empty_tables_def open_intervals_def aggregate_ok_def all_aggregate_kinds)

end
