(* ===== verification/Usage_Tracker.thy ===== *)
theory Usage_Tracker
  imports Usage_Store
begin

text \<open>
  The usage tracker (crates/usage/src/tracker.rs, with the session snapshot of session.rs and the
  updates of niri.rs): the state it keeps beside the store, its public operations with every early
  return, and the store calls they make in order. Shown, for any script of failing
  statements: the ledger stays balanced (raw intervals and the three aggregate tables book the
  same time, each interval the monotonic span it covers), booked time never exceeds the
  elapsed time, none is booked while the session does not permit it; and that a close
  that failed keeps the tracker from booking anything again.
\<close>

section \<open>State\<close>

record session_snapshot =
  ss_active :: bool
  ss_locked :: bool
  ss_idle :: bool

definition permits_accounting :: "session_snapshot \<Rightarrow> bool" where
  "permits_accounting s = (ss_active s \<and> \<not> ss_locked s \<and> \<not> ss_idle s)"

datatype niri_update = FocusChanged "window_identity option" | StateChanged | NiriIgnored

record tracker_config =
  tc_max_event_gap_ns :: u64

definition default_tracker_config :: tracker_config where
  "default_tracker_config = \<lparr>tc_max_event_gap_ns = 30000000000\<rparr>"

record active_interval =
  ai_id :: i64
  ai_identity :: window_identity
  ai_last_counted :: clock_sample

record usage_tracker =
  tk_db :: usage_db
  tk_config :: tracker_config
  tk_source_connected :: bool
  tk_focus :: "window_identity option"
  tk_session :: "session_snapshot option"
  tk_last_sample :: "clock_sample option"
  tk_active :: "active_interval option"
  tk_gap_open :: bool

datatype tracker_error = StoreError usage_store_error | ClockError bucket_error

type_synonym 'a tracker_stm = "usage_tracker \<Rightarrow> (tracker_error, 'a) result \<times> usage_tracker"

definition t_bind :: "'a tracker_stm \<Rightarrow> ('a \<Rightarrow> 'b tracker_stm) \<Rightarrow> 'b tracker_stm" where
  "t_bind m f tk = (case m tk of (Inl e, tk') \<Rightarrow> (Err e, tk') | (Inr x, tk') \<Rightarrow> f x tk')"

definition t_store :: "'a usage_stm \<Rightarrow> 'a tracker_stm" where
  "t_store m tk = (case m (tk_db tk) of (r, db) \<Rightarrow> (map_err StoreError r, tk\<lparr>tk_db := db\<rparr>))"

definition t_modify :: "(usage_tracker \<Rightarrow> usage_tracker) \<Rightarrow> unit tracker_stm" where
  "t_modify f tk = (Ok (), f tk)"

section \<open>Operations\<close>

definition tracker_new :: "usage_db \<Rightarrow> tracker_config \<Rightarrow> usage_tracker" where
  "tracker_new db config =
     (case has_open_gap db of (r, db') \<Rightarrow>
        \<lparr>tk_db = db', tk_config = config, tk_source_connected = False, tk_focus = None, tk_session = None,
         tk_last_sample = None, tk_active = None,
         tk_gap_open = (case r of Inl _ \<Rightarrow> True | Inr g \<Rightarrow> g)\<rparr>)"

definition close_active :: "string \<Rightarrow> unit tracker_stm" where
  "close_active reason tk =
     (case tk_active tk of
        None \<Rightarrow> (Ok (), tk)
      | Some active \<Rightarrow>
          t_store (close_interval (ai_id active) (ai_last_counted active) reason) (tk\<lparr>tk_active := None\<rparr>))"

text \<open>The tail of the branches of \<open>advance\<close> that drop an unsampled segment.\<close>

definition drop_segment ::
  "('o, 'd, 'n) chrono \<Rightarrow> (i64 list \<Rightarrow> i64 option) \<Rightarrow> string \<Rightarrow> clock_sample \<Rightarrow> clock_sample \<Rightarrow> unit tracker_stm" where
  "drop_segment ch pick reason previous now =
     t_bind (t_store (record_gap_interval ch pick reason previous now)) (\<lambda>_.
     t_bind (close_active reason) (\<lambda>_.
     t_modify (\<lambda>tk. tk\<lparr>tk_last_sample := Some now\<rparr>)))"

definition advance ::
  "('o, 'd, 'n) chrono \<Rightarrow> (i64 list \<Rightarrow> i64 option) \<Rightarrow> clock_sample \<Rightarrow> session_snapshot \<Rightarrow> unit tracker_stm" where
  "advance ch pick now next_session tk =
     (case tk_last_sample tk of
        None \<Rightarrow> (Ok (), tk\<lparr>tk_last_sample := Some now\<rparr>)
      | Some previous \<Rightarrow>
          if cs_monotonic_ns now = cs_monotonic_ns previous \<and> cs_wall_utc_ms now = cs_wall_utc_ms previous \<and>
             cs_boot_id now = cs_boot_id previous
          then (Ok (), tk)
          else if is_none_or (checked_sub (cs_monotonic_ns now) (cs_monotonic_ns previous))
                    (\<lambda>gap. tc_max_event_gap_ns (tk_config tk) < gap)
          then drop_segment ch pick ''event_gap'' previous now tk
          else case tk_active tk of
            None \<Rightarrow> (Ok (), tk\<lparr>tk_last_sample := Some now\<rparr>)
          | Some active \<Rightarrow>
              (case split_into_local_minutes ch previous now of
                 Inl _ \<Rightarrow> drop_segment ch pick ''clock_discontinuity'' previous now tk
               | Inr _ \<Rightarrow>
                   if \<not> permits_accounting next_session then (Ok (), tk\<lparr>tk_last_sample := Some now\<rparr>)
                   else case split_into_local_minutes ch (ai_last_counted active) now of
                     Inr slices \<Rightarrow>
                       t_bind (t_store (append_segment (ai_id active) (wi_app_id (ai_identity active)) now slices)) (\<lambda>_.
                       t_modify (\<lambda>tk. tk\<lparr>tk_active := Some (active\<lparr>ai_last_counted := now\<rparr>),
                                        tk_last_sample := Some now\<rparr>)) tk
                   | Inl error \<Rightarrow>
                       t_bind (drop_segment ch pick ''clock_discontinuity'' previous now) (\<lambda>_ tk.
                       (if error = MonotonicRegression then Err (ClockError error) else Ok (), tk)) tk))"

definition resume_or_advance ::
  "('o, 'd, 'n) chrono \<Rightarrow> (i64 list \<Rightarrow> i64 option) \<Rightarrow> clock_sample \<Rightarrow> session_snapshot \<Rightarrow> bool \<Rightarrow> unit tracker_stm" where
  "resume_or_advance ch pick now session ready tk =
     (if tk_gap_open tk
      then t_bind (if ready
                   then t_bind (t_store (close_open_gaps ch now)) (\<lambda>_. t_modify (\<lambda>tk. tk\<lparr>tk_gap_open := False\<rparr>))
                   else t_modify id) (\<lambda>_.
           t_modify (\<lambda>tk. tk\<lparr>tk_last_sample := Some now\<rparr>)) tk
      else advance ch pick now session tk)"

definition desired_focus :: "usage_tracker \<Rightarrow> window_identity option" where
  "desired_focus tk =
     (if tk_source_connected tk \<and> is_some_and (tk_session tk) permits_accounting then tk_focus tk else None)"

definition reconcile ::
  "(i64 list \<Rightarrow> i64 option) \<Rightarrow> clock_sample \<Rightarrow> string \<Rightarrow> unit tracker_stm" where
  "reconcile pick now close_reason tk =
     (let desired = desired_focus tk in
      if is_some_and (tk_active tk) (\<lambda>active. desired = Some (ai_identity active)) then (Ok (), tk)
      else t_bind (close_active close_reason) (\<lambda>_.
        case desired of
          None \<Rightarrow> t_modify id
        | Some identity \<Rightarrow>
            t_bind (t_store (start_interval pick identity now)) (\<lambda>i.
            t_modify (\<lambda>tk. tk\<lparr>tk_active := Some \<lparr>ai_id = i, ai_identity = identity, ai_last_counted = now\<rparr>\<rparr>))) tk)"

definition observe_focus ::
  "('o, 'd, 'n) chrono \<Rightarrow> (i64 list \<Rightarrow> i64 option) \<Rightarrow> window_identity option \<Rightarrow> session_snapshot \<Rightarrow> clock_sample \<Rightarrow> unit tracker_stm" where
  "observe_focus ch pick focus session now =
     t_bind (resume_or_advance ch pick now session True) (\<lambda>_.
     t_bind (t_modify (\<lambda>tk. tk\<lparr>tk_source_connected := True, tk_focus := focus, tk_session := Some session\<rparr>)) (\<lambda>_.
     reconcile pick now ''focus_or_session_changed''))"

definition tracker_checkpoint ::
  "('o, 'd, 'n) chrono \<Rightarrow> (i64 list \<Rightarrow> i64 option) \<Rightarrow> session_snapshot \<Rightarrow> clock_sample \<Rightarrow> unit tracker_stm" where
  "tracker_checkpoint ch pick session now tk =
     t_bind (resume_or_advance ch pick now session (tk_source_connected tk)) (\<lambda>_.
     t_bind (t_modify (\<lambda>tk. tk\<lparr>tk_session := Some session\<rparr>)) (\<lambda>_.
     reconcile pick now ''session_changed'')) tk"

fun observe_niri_update ::
  "('o, 'd, 'n) chrono \<Rightarrow> (i64 list \<Rightarrow> i64 option) \<Rightarrow> niri_update \<Rightarrow> session_snapshot \<Rightarrow> clock_sample \<Rightarrow> unit tracker_stm" where
  "observe_niri_update ch pick (FocusChanged focus) session now = observe_focus ch pick focus session now"
| "observe_niri_update ch pick StateChanged session now = tracker_checkpoint ch pick session now"
| "observe_niri_update ch pick NiriIgnored session now = tracker_checkpoint ch pick session now"

text \<open>The common start of \<open>mark_event_gap\<close> and \<open>mark_session_unavailable\<close>.\<close>

definition open_gap_at ::
  "('o, 'd, 'n) chrono \<Rightarrow> (i64 list \<Rightarrow> i64 option) \<Rightarrow> string \<Rightarrow> unit tracker_stm" where
  "open_gap_at ch pick reason tk =
     (case tk_last_sample tk of
        None \<Rightarrow> (Ok (), tk)
      | Some last_sample \<Rightarrow>
          if tk_gap_open tk then (Ok (), tk)
          else t_bind (t_store (begin_gap ch pick reason last_sample)) (\<lambda>_.
               t_modify (\<lambda>tk. tk\<lparr>tk_gap_open := True\<rparr>)) tk)"

definition mark_event_gap ::
  "('o, 'd, 'n) chrono \<Rightarrow> (i64 list \<Rightarrow> i64 option) \<Rightarrow> string \<Rightarrow> unit tracker_stm" where
  "mark_event_gap ch pick reason =
     t_bind (open_gap_at ch pick reason) (\<lambda>_.
     t_bind (close_active reason) (\<lambda>_.
     t_modify (\<lambda>tk. tk\<lparr>tk_source_connected := False, tk_focus := None\<rparr>)))"

definition mark_session_unavailable ::
  "('o, 'd, 'n) chrono \<Rightarrow> (i64 list \<Rightarrow> i64 option) \<Rightarrow> string \<Rightarrow> unit tracker_stm" where
  "mark_session_unavailable ch pick reason =
     t_bind (open_gap_at ch pick reason) (\<lambda>_.
     t_bind (close_active reason) (\<lambda>_.
     t_modify (\<lambda>tk. tk\<lparr>tk_session := None\<rparr>)))"

definition observe_session_edge ::
  "('o, 'd, 'n) chrono \<Rightarrow> (i64 list \<Rightarrow> i64 option) \<Rightarrow> clock_sample \<Rightarrow> unit tracker_stm" where
  "observe_session_edge ch pick now tk =
     t_bind (case tk_session tk of
               Some session \<Rightarrow> advance ch pick now session
             | None \<Rightarrow> t_modify (\<lambda>tk. tk\<lparr>tk_last_sample := Some now\<rparr>)) (\<lambda>_.
     t_bind (close_active ''logind_session_edge'') (\<lambda>_.
     t_modify (\<lambda>tk. tk\<lparr>tk_session := None\<rparr>))) tk"

definition into_store :: "usage_tracker \<Rightarrow> (tracker_error, usage_db) result" where
  "into_store tk =
     (case close_active ''tracker_stopped'' tk of
        (Inl e, _) \<Rightarrow> Err e
      | (Inr _, tk') \<Rightarrow> Ok (tk_db tk'))"

text \<open>The public operations as commands.\<close>

datatype tracker_op =
    ObserveNiri niri_update session_snapshot clock_sample
  | ObserveFocus "window_identity option" session_snapshot clock_sample
  | Checkpoint session_snapshot clock_sample
  | MarkEventGap string
  | MarkSessionUnavailable string
  | SessionEdge clock_sample

fun tracker_step :: "('o, 'd, 'n) chrono \<Rightarrow> (i64 list \<Rightarrow> i64 option) \<Rightarrow> tracker_op \<Rightarrow> unit tracker_stm" where
  "tracker_step ch pick (ObserveNiri u session now) = observe_niri_update ch pick u session now"
| "tracker_step ch pick (ObserveFocus focus session now) = observe_focus ch pick focus session now"
| "tracker_step ch pick (Checkpoint session now) = tracker_checkpoint ch pick session now"
| "tracker_step ch pick (MarkEventGap reason) = mark_event_gap ch pick reason"
| "tracker_step ch pick (MarkSessionUnavailable reason) = mark_session_unavailable ch pick reason"
| "tracker_step ch pick (SessionEdge now) = observe_session_edge ch pick now"

definition tracker_run ::
  "('o, 'd, 'n) chrono \<Rightarrow> (i64 list \<Rightarrow> i64 option) \<Rightarrow> tracker_op list \<Rightarrow> usage_tracker \<Rightarrow> usage_tracker" where
  "tracker_run ch pick ops tk = fold (\<lambda>c tk. snd (tracker_step ch pick c tk)) ops tk"

section \<open>The ledger\<close>

text \<open>
  What the operations do to the booked time, as a transition system on the tables and the active
  interval, under the current sample and whether the session permits accounting: statements on
  gaps change nothing here, an interval is closed (or the close fails), a segment is booked
  on the active interval, an interval is started when none is open.
\<close>

definition same_ledger :: "usage_tables \<Rightarrow> usage_tables \<Rightarrow> bool" where
  "same_ledger t t' \<longleftrightarrow> ut_intervals t' = ut_intervals t \<and> (\<forall>k. aggregate_table k t' = aggregate_table k t)"

definition closed_row :: "i64 \<Rightarrow> clock_sample \<Rightarrow> string \<Rightarrow> focus_row \<Rightarrow> focus_row" where
  "closed_row i end_s reason r = (if is_open_row i r
        then r\<lparr>fi_ended_monotonic_ns := Some (fi_last_checkpoint_monotonic_ns r),
               fi_ended_wall_utc_ms := Some (fi_last_checkpoint_wall_utc_ms r),
               fi_end_timezone_id := Some (cs_timezone_id end_s),
               fi_end_utc_offset_seconds := Some (cs_utc_offset_seconds end_s),
               fi_state := IntervalClosed, fi_end_reason := Some reason\<rparr> else r)"

definition fresh_row :: "window_identity \<Rightarrow> clock_sample \<Rightarrow> focus_row \<Rightarrow> bool" where
  "fresh_row identity now r \<longleftrightarrow>
     fi_app_id r = wi_app_id identity \<and> fi_state r = IntervalOpen \<and> fi_duration_ns r = 0 \<and>
     fi_boot_id r = cs_boot_id now \<and>
     fi_started_monotonic_ns r = uint (cs_monotonic_ns now) \<and>
     fi_last_checkpoint_monotonic_ns r = uint (cs_monotonic_ns now)"

type_synonym ledger = "usage_tables \<times> active_interval option"

inductive ledger_step ::
  "('o, 'd, 'n) chrono \<Rightarrow> clock_sample \<Rightarrow> bool \<Rightarrow> ledger \<Rightarrow> ledger \<Rightarrow> bool"
  for ch :: "('o, 'd, 'n) chrono" and now :: clock_sample and permitted :: bool where
  other: "same_ledger t t' \<Longrightarrow> ledger_step ch now permitted (t, a) (t', a)"
| close: "ut_intervals t' = map (closed_row (ai_id a) (ai_last_counted a) reason) (ut_intervals t) \<Longrightarrow>
    (\<And>k. aggregate_table k t' = aggregate_table k t) \<Longrightarrow>
    ledger_step ch now permitted (t, Some a) (t', None)"
| close_failed: "ledger_step ch now permitted (t, Some a) (t, None)"
| append: "permitted \<Longrightarrow> split_into_local_minutes ch (ai_last_counted a) now = Ok slices \<Longrightarrow>
    segment_booked (ai_id a) (wi_app_id (ai_identity a)) now slices t t' \<Longrightarrow>
    ledger_step ch now permitted (t, Some a) (t', Some (a\<lparr>ai_last_counted := now\<rparr>))"
| start: "open_intervals t = [] \<Longrightarrow> fresh_row identity now r \<Longrightarrow> permitted \<Longrightarrow>
    ut_intervals t' = ut_intervals t @ [r] \<Longrightarrow> (\<And>k. aggregate_table k t' = aggregate_table k t) \<Longrightarrow>
    ledger_step ch now permitted (t, None)
      (t', Some \<lparr>ai_id = fi_id r, ai_identity = identity, ai_last_counted = now\<rparr>)"

definition ledger_of :: "usage_tracker \<Rightarrow> ledger" where
  "ledger_of tk = (fst (tk_db tk), tk_active tk)"

abbreviation ledger_steps where
  "ledger_steps ch now permitted \<equiv> (ledger_step ch now permitted)\<^sup>*\<^sup>*"

definition t_steps :: "('o, 'd, 'n) chrono \<Rightarrow> clock_sample \<Rightarrow> bool \<Rightarrow> 'a tracker_stm \<Rightarrow> bool" where
  "t_steps ch now permitted m \<longleftrightarrow> (\<forall>tk. ledger_steps ch now permitted (ledger_of tk) (ledger_of (snd (m tk))))"

lemma ledger_of_upd [simp]:
  "ledger_of (tk\<lparr>tk_last_sample := x\<rparr>) = ledger_of tk"
  "ledger_of (tk\<lparr>tk_gap_open := g\<rparr>) = ledger_of tk"
  "ledger_of (tk\<lparr>tk_session := y\<rparr>) = ledger_of tk"
  "ledger_of (tk\<lparr>tk_source_connected := c, tk_focus := f, tk_session := y\<rparr>) = ledger_of tk"
  "ledger_of (tk\<lparr>tk_source_connected := c, tk_focus := f\<rparr>) = ledger_of tk"
  by (simp_all add: ledger_of_def)

lemma t_steps_bind:
  "t_steps ch now p m \<Longrightarrow> (\<And>x. t_steps ch now p (f x)) \<Longrightarrow> t_steps ch now p (t_bind m f)"
  unfolding t_steps_def t_bind_def
  by (auto split: prod.splits sum.splits) (metis snd_conv rtranclp_trans)+

lemma t_steps_modify: "(\<And>tk. ledger_of (f tk) = ledger_of tk) \<Longrightarrow> t_steps ch now p (t_modify f)"
  by (simp add: t_steps_def t_modify_def)

lemma t_steps_store:
  assumes "stm_rel m (\<lambda>t r t'. same_ledger t t')"
  shows "t_steps ch now p (t_store m)"
  unfolding t_steps_def t_store_def
proof (intro allI)
  fix tk :: usage_tracker
  have "same_ledger (fst (tk_db tk)) (fst (snd (m (tk_db tk))))"
    by (rule stm_relD [OF assms, of _ "fst (m (tk_db tk))"]) simp
  then show "ledger_steps ch now p (ledger_of tk)
      (ledger_of (snd (case m (tk_db tk) of (r, db) \<Rightarrow> (map_err StoreError r, tk\<lparr>tk_db := db\<rparr>))))"
    by (auto simp: ledger_of_def split: prod.splits intro!: r_into_rtranclp ledger_step.other)
qed

lemma same_ledger_refl [simp]: "same_ledger t t"
  by (simp add: same_ledger_def)

lemma same_ledger_gaps [simp]: "same_ledger t (t\<lparr>ut_gaps := g\<rparr>)"
  by (simp add: same_ledger_def)

lemma same_ledger_trans: "same_ledger t t1 \<Longrightarrow> same_ledger t1 t2 \<Longrightarrow> same_ledger t t2"
  by (simp add: same_ledger_def)

lemma stm_rel_same_bind:
  "stm_rel m (\<lambda>t r t'. same_ledger t t') \<Longrightarrow> (\<And>x. stm_rel (f x) (\<lambda>t r t'. same_ledger t t')) \<Longrightarrow>
   stm_rel (u_bind m f) (\<lambda>t r t'. same_ledger t t')"
  by (rule stm_rel_bind [of _ "\<lambda>t r t'. same_ledger t t'" _ "\<lambda>_ t r t'. same_ledger t t'"])
     (auto intro: same_ledger_trans)

lemma insert_gap_same: "insert_gap pick row t = Some (u, t') \<Longrightarrow> same_ledger t t'"
  by (auto simp: insert_gap_def split: option.splits if_splits)

lemma gap_statements_same:
  "stm_rel (begin_gap ch pick reason s) (\<lambda>t r t'. same_ledger t t')"
  "stm_rel (close_open_gaps ch s) (\<lambda>t r t'. same_ledger t t')"
  "stm_rel (record_gap_interval ch pick reason s s') (\<lambda>t r t'. same_ledger t t')"
  unfolding begin_gap_def close_open_gaps_def record_gap_interval_def
  by (auto intro!: stm_rel_same_bind stm_rel_lift stm_rel_sql split: prod.splits if_splits
      dest: insert_gap_same)

lemma close_interval_rel:
  "stm_rel (close_interval i e reason) (\<lambda>t r t'.
     (r = Err SqliteError \<and> t' = t) \<or>
     (r = Ok () \<and> t' = t\<lparr>ut_intervals := map (closed_row i e reason) (ut_intervals t)\<rparr>))"
  unfolding close_interval_def closed_row_def by (rule stm_rel_sql) auto

lemma close_active_steps: "t_steps ch now p (close_active reason)"
  unfolding t_steps_def
proof (intro allI)
  fix tk
  show "ledger_steps ch now p (ledger_of tk) (ledger_of (snd (close_active reason tk)))"
  proof (cases "tk_active tk")
    case (Some a)
    let ?m = "close_interval (ai_id a) (ai_last_counted a) reason"
    have "(fst (snd (?m (tk_db tk))) = fst (tk_db tk)) \<or>
       fst (snd (?m (tk_db tk))) = (fst (tk_db tk))\<lparr>ut_intervals := map (closed_row (ai_id a) (ai_last_counted a) reason)
           (ut_intervals (fst (tk_db tk)))\<rparr>"
      using stm_relD [OF close_interval_rel surjective_pairing] by blast
    then have "ledger_step ch now p (ledger_of tk) (ledger_of (snd (close_active reason tk)))"
      using Some by (auto simp: ledger_of_def close_active_def t_store_def split: prod.splits
          intro: ledger_step.close ledger_step.close_failed)
    then show ?thesis by (rule r_into_rtranclp)
  qed (simp add: close_active_def)
qed

lemma drop_segment_steps: "t_steps ch now p (drop_segment ch' pick reason previous now')"
  unfolding drop_segment_def
  by (intro t_steps_bind t_steps_store gap_statements_same close_active_steps t_steps_modify) simp

lemma t_stepsD: "t_steps ch now p m \<Longrightarrow> ledger_steps ch now p (ledger_of tk) (ledger_of (snd (m tk)))"
  by (simp add: t_steps_def)

lemma append_steps:
  assumes "tk_active tk = Some a" "p" "split_into_local_minutes ch (ai_last_counted a) now = Ok slices"
  shows "ledger_steps ch now p (ledger_of tk) (ledger_of (snd (
           t_bind (t_store (append_segment (ai_id a) (wi_app_id (ai_identity a)) now slices)) (\<lambda>_.
             t_modify (\<lambda>tk. tk\<lparr>tk_active := Some (a\<lparr>ai_last_counted := now\<rparr>), tk_last_sample := Some now\<rparr>)) tk)))"
proof -
  obtain r db' where ap: "append_segment (ai_id a) (wi_app_id (ai_identity a)) now slices (tk_db tk) = (r, db')"
    using prod.exhaust by blast
  have "slices_total slices \<noteq> 0"
    using split_total [OF assms(3)] split_slices_from(2) [OF assms(3)] by (simp add: word_less_nat_alt)
  then consider (fail) e where "r = Err e" "fst db' = fst (tk_db tk)"
    | (ok) "r = Ok ()" "segment_booked (ai_id a) (wi_app_id (ai_identity a)) now slices (fst (tk_db tk)) (fst db')"
    using stm_relD [OF append_segment_rel ap] by metis
  then show ?thesis
  proof cases
    case fail
    then show ?thesis by (simp add: t_bind_def t_store_def ap ledger_of_def)
  next
    case ok
    from ledger_step.append [where ch = ch, OF assms(2,3) ok(2)] show ?thesis
      using ok(1) assms(1) by (simp add: t_bind_def t_store_def t_modify_def ap ledger_of_def r_into_rtranclp)
  qed
qed

lemma advance_steps:
  assumes "permits_accounting session \<Longrightarrow> p"
  shows "t_steps ch now p (advance ch pick now session)"
  unfolding t_steps_def
proof (intro allI)
  fix tk
  have "t_steps ch now p (t_bind (drop_segment ch pick reason previous now) (\<lambda>_ tk. (r, tk)))"
    for reason previous r
    by (intro t_steps_bind drop_segment_steps) (simp add: t_steps_def)
  note drop = t_stepsD [OF drop_segment_steps] t_stepsD [OF this]
  show "ledger_steps ch now p (ledger_of tk) (ledger_of (snd (advance ch pick now session tk)))"
    unfolding advance_def
    by (auto intro!: drop append_steps assms split: option.split sum.split)
qed

lemma resume_or_advance_steps:
  assumes "permits_accounting session \<Longrightarrow> p"
  shows "t_steps ch now p (resume_or_advance ch pick now session ready)"
proof -
  have "t_steps ch now p (t_bind (if ready
                   then t_bind (t_store (close_open_gaps ch now)) (\<lambda>_. t_modify (\<lambda>tk. tk\<lparr>tk_gap_open := False\<rparr>))
                   else t_modify id) (\<lambda>_. t_modify (\<lambda>tk. tk\<lparr>tk_last_sample := Some now\<rparr>)))"
    by (auto intro!: t_steps_bind t_steps_store gap_statements_same t_steps_modify)
  moreover have "t_steps ch now p (advance ch pick now session)"
    by (rule advance_steps) (rule assms)
  ultimately show ?thesis
    unfolding t_steps_def resume_or_advance_def by presburger
qed

lemma start_interval_rel:
  "stm_rel (start_interval pick identity now) (\<lambda>t r t'.
     (\<exists>e. r = Err e \<and> t' = t) \<or>
     (\<exists>row. r = Ok (fi_id row) \<and> open_intervals t = [] \<and> fresh_row identity now row \<and>
        t' = t\<lparr>ut_intervals := ut_intervals t @ [row]\<rparr>))"
proof -
  have row: "fresh_row identity now (interval_row (uint (cs_monotonic_ns now)) w identity now i)"
    "fi_id (interval_row m w identity now i) = i" for m w i
    by (simp_all add: fresh_row_def interval_row_def)
  show ?thesis
    unfolding start_interval_def stm_rel_def
    by (auto simp: u_bind_def u_lift_def sql_def insert_interval_def sql_u64_def i64_of_u64_def
        open_intervals_def filter_empty_conv split: sum.splits option.splits if_splits)
      (metis row)+
qed

lemma reconcile_steps:
  assumes "is_some_and (tk_session tk) permits_accounting \<Longrightarrow> p"
  shows "ledger_steps ch now p (ledger_of tk) (ledger_of (snd (reconcile pick now reason tk)))"
proof -
  let ?tk1 = "snd (close_active reason tk)"
  have c: "ledger_steps ch now p (ledger_of tk) (ledger_of ?tk1)"
    by (rule t_stepsD [OF close_active_steps])
  have none: "tk_active ?tk1 = None"
    by (auto simp: close_active_def t_store_def split: option.splits prod.splits)
  have st: "ledger_steps ch now p (ledger_of ?tk1) (ledger_of (snd (t_bind (t_store (start_interval pick identity now)) (\<lambda>i.
            t_modify (\<lambda>tk. tk\<lparr>tk_active := Some \<lparr>ai_id = i, ai_identity = identity, ai_last_counted = now\<rparr>\<rparr>)) ?tk1)))"
    if p for identity
  proof -
    obtain r db' where s: "start_interval pick identity now (tk_db ?tk1) = (r, db')"
      using prod.exhaust by blast
    from stm_relD [OF start_interval_rel s] show ?thesis
    proof (elim disjE exE conjE)
      fix e assume "r = Err e" "fst db' = fst (tk_db ?tk1)"
      then show ?thesis by (simp add: t_bind_def t_store_def s ledger_of_def)
    next
      fix row assume row: "r = Ok (fi_id row)" "open_intervals (fst (tk_db ?tk1)) = []" "fresh_row identity now row"
        "fst db' = (fst (tk_db ?tk1))\<lparr>ut_intervals := ut_intervals (fst (tk_db ?tk1)) @ [row]\<rparr>"
      have "ledger_step ch now p (fst (tk_db ?tk1), None)
          (fst db', Some \<lparr>ai_id = fi_id row, ai_identity = identity, ai_last_counted = now\<rparr>)"
        by (rule ledger_step.start [OF row(2,3) that]) (simp_all add: row(4))
      then show ?thesis
        using row(1) none by (simp add: t_bind_def t_store_def t_modify_def s ledger_of_def r_into_rtranclp)
    qed
  qed
  have des: "desired_focus tk = Some identity \<Longrightarrow> p" for identity
    using assms by (auto simp: desired_focus_def split: if_splits)
  show ?thesis
    using c rtranclp_trans [OF c st [OF des]]
    by (cases "close_active reason tk"; cases "fst (close_active reason tk)")
       (auto simp: reconcile_def Let_def t_bind_def [of "close_active reason"] t_modify_def split: option.splits)
qed

section \<open>Every operation is a run of the ledger\<close>

fun op_sample :: "tracker_op \<Rightarrow> clock_sample option" where
  "op_sample (ObserveNiri u session now) = Some now"
| "op_sample (ObserveFocus focus session now) = Some now"
| "op_sample (Checkpoint session now) = Some now"
| "op_sample (MarkEventGap reason) = None"
| "op_sample (MarkSessionUnavailable reason) = None"
| "op_sample (SessionEdge now) = Some now"

text \<open>Whether an operation may count time: the session it is called with, and for an edge the
  session that was valid up to it.\<close>

fun op_permits :: "usage_tracker \<Rightarrow> tracker_op \<Rightarrow> bool" where
  "op_permits tk (ObserveNiri u session now) = permits_accounting session"
| "op_permits tk (ObserveFocus focus session now) = permits_accounting session"
| "op_permits tk (Checkpoint session now) = permits_accounting session"
| "op_permits tk (MarkEventGap reason) = False"
| "op_permits tk (MarkSessionUnavailable reason) = False"
| "op_permits tk (SessionEdge now) = is_some_and (tk_session tk) permits_accounting"

lemma t_bind_steps:
  assumes "ledger_steps ch now p (ledger_of tk) (ledger_of (snd (m tk)))"
    "\<And>x. fst (m tk) = Ok x \<Longrightarrow> ledger_steps ch now p (ledger_of (snd (m tk))) (ledger_of (snd (f x (snd (m tk)))))"
  shows "ledger_steps ch now p (ledger_of tk) (ledger_of (snd (t_bind m f tk)))"
  using assms by (cases "m tk"; cases "fst (m tk)") (auto simp: t_bind_def)

lemma observe_focus_steps:
  assumes "permits_accounting session \<Longrightarrow> p"
  shows "ledger_steps ch now p (ledger_of tk) (ledger_of (snd (observe_focus ch pick focus session now tk)))"
  unfolding observe_focus_def
proof (rule t_bind_steps)
  show "ledger_steps ch now p (ledger_of tk) (ledger_of (snd (resume_or_advance ch pick now session True tk)))"
    by (rule t_stepsD, rule resume_or_advance_steps, rule assms)
qed (auto simp: t_bind_def [of "t_modify _"] t_modify_def intro!: reconcile_steps [THEN rtranclp_trans [rotated]] assms)

lemma tracker_checkpoint_steps:
  assumes "permits_accounting session \<Longrightarrow> p"
  shows "ledger_steps ch now p (ledger_of tk) (ledger_of (snd (tracker_checkpoint ch pick session now tk)))"
  unfolding tracker_checkpoint_def
proof (rule t_bind_steps)
  show "ledger_steps ch now p (ledger_of tk) (ledger_of (snd (resume_or_advance ch pick now session (tk_source_connected tk) tk)))"
    by (rule t_stepsD, rule resume_or_advance_steps, rule assms)
qed (auto simp: t_bind_def [of "t_modify _"] t_modify_def intro!: reconcile_steps [THEN rtranclp_trans [rotated]] assms)

lemma open_gap_at_steps: "t_steps ch now p (open_gap_at ch' pick reason)"
proof -
  have "t_steps ch now p (t_bind (t_store (begin_gap ch' pick reason s)) (\<lambda>_. t_modify (\<lambda>tk. tk\<lparr>tk_gap_open := True\<rparr>)))" for s
    by (intro t_steps_bind t_steps_store gap_statements_same t_steps_modify) simp
  then show ?thesis
    unfolding t_steps_def open_gap_at_def by (auto split: option.split)
qed

lemma observe_session_edge_steps:
  assumes "is_some_and (tk_session tk) permits_accounting \<Longrightarrow> p"
  shows "ledger_steps ch now p (ledger_of tk) (ledger_of (snd (observe_session_edge ch pick now tk)))"
proof -
  have "ledger_steps ch now p (ledger_of tk) (ledger_of (snd ((case tk_session tk of
               Some session \<Rightarrow> advance ch pick now session
             | None \<Rightarrow> t_modify (\<lambda>tk. tk\<lparr>tk_last_sample := Some now\<rparr>)) tk)))"
    using assms by (auto simp: t_modify_def split: option.split intro!: t_stepsD [OF advance_steps])
  moreover have "t_steps ch now p (t_bind (close_active ''logind_session_edge'') (\<lambda>_. t_modify (\<lambda>tk. tk\<lparr>tk_session := None\<rparr>)))"
    by (intro t_steps_bind close_active_steps t_steps_modify) simp
  ultimately show ?thesis
    unfolding observe_session_edge_def by (rule t_bind_steps [OF _ t_stepsD])
qed

text \<open>The simulation: whatever the script of failures, one operation is a run of ledger steps under
  its sample, which may count only if the operation may.\<close>

lemma tracker_step_steps:
  assumes "op_sample c = Some now \<or> op_sample c = None" "op_permits tk c \<Longrightarrow> p"
  shows "ledger_steps ch now p (ledger_of tk) (ledger_of (snd (tracker_step ch pick c tk)))"
proof (cases c)
  case (ObserveNiri u session now')
  then show ?thesis
    using assms by (cases u) (auto intro: observe_focus_steps tracker_checkpoint_steps)
next
  case (ObserveFocus focus session now')
  then show ?thesis using assms by (auto intro: observe_focus_steps)
next
  case (Checkpoint session now')
  then show ?thesis using assms by (auto intro: tracker_checkpoint_steps)
next
  case (MarkEventGap reason)
  then show ?thesis
    by (auto simp: mark_event_gap_def intro!: t_stepsD t_steps_bind open_gap_at_steps close_active_steps t_steps_modify)
next
  case (MarkSessionUnavailable reason)
  then show ?thesis
    by (auto simp: mark_session_unavailable_def intro!: t_stepsD t_steps_bind open_gap_at_steps close_active_steps t_steps_modify)
next
  case (SessionEdge now')
  then show ?thesis using assms by (auto intro: observe_session_edge_steps)
qed

section \<open>Invariants of the ledger\<close>

text \<open>
  The ledger is balanced when every raw interval books the monotonic span from its start to its last
  checkpoint, and for every application each of the three aggregate tables books the same
  time as its raw intervals.
\<close>

definition balanced :: "usage_tables \<Rightarrow> bool" where
  "balanced t \<longleftrightarrow>
     (\<forall>r \<in> set (ut_intervals t).
        fi_duration_ns r = fi_last_checkpoint_monotonic_ns r - fi_started_monotonic_ns r) \<and>
     (\<forall>app k. booked (\<lambda>b. fst b = app) (aggregate_table k t) = booked_raw app (ut_intervals t))"

text \<open>The active interval is an open row, of the same application, counted up to its checkpoint.\<close>

fun linked :: "ledger \<Rightarrow> bool" where
  "linked (t, None) = True"
| "linked (t, Some a) = (\<exists>r \<in> set (ut_intervals t). is_open_row (ai_id a) r \<and>
     fi_app_id r = wi_app_id (ai_identity a) \<and>
     fi_last_checkpoint_monotonic_ns r = uint (cs_monotonic_ns (ai_last_counted a)))"

lemma booked_raw_map:
  "(\<And>r. fi_app_id (f r) = fi_app_id r \<and> fi_duration_ns (f r) = fi_duration_ns r) \<Longrightarrow>
     booked_raw app (map f rs) = booked_raw app rs"
  by (induction rs) (auto simp: booked_raw_def)

lemma booked_raw_Cons:
  "booked_raw app (r # rs) = (if fi_app_id r = app then fi_duration_ns r else 0) + booked_raw app rs"
  by (simp add: booked_raw_def)

lemma filter_unique:
  assumes "length (filter Q xs) = 1" "x \<in> set xs" "Q x" "y \<in> set xs" "Q y"
  shows "x = y"
proof -
  obtain z where "filter Q xs = [z]" using assms(1) by (cases "filter Q xs") auto
  then have "set (filter Q xs) = {z}" by (simp only: list.set)
  moreover have "x \<in> set (filter Q xs)" "y \<in> set (filter Q xs)" using assms(2-5) by simp_all
  ultimately show ?thesis by (metis singletonD)
qed

lemma booked_raw_update:
  assumes "length (filter Q rs) = 1" "\<forall>r \<in> set rs. Q r \<longrightarrow> fi_app_id r = app'"
  shows "booked_raw app (map (\<lambda>r. if Q r then booked_row d e r else r) rs) =
         booked_raw app rs + (if app = app' then d else 0)"
proof -
  have "booked_raw app (map (\<lambda>r. if Q r then booked_row d e r else r) rs) =
        booked_raw app rs + (if app = app' then d * int (length (filter Q rs)) else 0)"
    using assms(2) by (induction rs) (auto simp: booked_raw_Cons booked_row_def algebra_simps booked_raw_def)
  then show ?thesis using assms(1) by simp
qed

lemma booked_slices_app: "booked_slices (\<lambda>b. fst b = app) k app' ss = (if app = app' then int (slices_total ss) else 0)"
  by (induction ss) (auto simp: slice_id_def comp_def)

lemma segment_booked_raw:
  assumes "segment_booked i app' now slices t t'" "r \<in> set (ut_intervals t)" "is_open_row i r" "fi_app_id r = app'"
  shows "booked_raw app (ut_intervals t') = booked_raw app (ut_intervals t) + (if app = app' then int (slices_total slices) else 0)"
proof -
  have "\<forall>x \<in> set (ut_intervals t). is_open_row i x \<longrightarrow> fi_app_id x = app'"
    using assms filter_unique [of "is_open_row i" "ut_intervals t" _ r] unfolding segment_booked_def by blast
  then show ?thesis
    using assms(1) booked_raw_update [of "is_open_row i" "ut_intervals t" app'] by (simp add: segment_booked_def)
qed

lemma segment_booked_balanced:
  assumes "segment_booked i app' now slices t t'" "r \<in> set (ut_intervals t)" "is_open_row i r" "fi_app_id r = app'"
    "fi_last_checkpoint_monotonic_ns r = uint m" "int (slices_total slices) = uint (cs_monotonic_ns now) - uint m"
    "balanced t"
  shows "balanced t'"
proof -
  have eq: "x = r" if "x \<in> set (ut_intervals t)" "is_open_row i x" for x
    using that assms(1-3) filter_unique [of "is_open_row i" "ut_intervals t" x r] by (simp add: segment_booked_def)
  have "fi_duration_ns x = fi_last_checkpoint_monotonic_ns x - fi_started_monotonic_ns x"
    if "x \<in> set (ut_intervals t')" for x
    using that assms(1,2,5,6,7) eq by (auto simp: segment_booked_def balanced_def booked_row_def)
  moreover have "booked (\<lambda>b. fst b = app) (aggregate_table k t') = booked_raw app (ut_intervals t')" for app k
    using assms(1,7) segment_booked_raw [OF assms(1-4)]
    by (simp add: segment_booked_def balanced_def booked_slices_app)
  ultimately show ?thesis by (simp add: balanced_def)
qed

lemma split_span:
  "split_into_local_minutes ch s e = Ok slices \<Longrightarrow>
     int (slices_total slices) = uint (cs_monotonic_ns e) - uint (cs_monotonic_ns s)"
  using split_total [of ch s e slices] split_slices_from(2) [of ch s e slices]
    of_nat_diff [of "unat (cs_monotonic_ns s)" "unat (cs_monotonic_ns e)", where ?'a = int]
  by (simp add: word_less_nat_alt)

lemma ledger_step_invariant:
  assumes "ledger_step ch now p L L'" "balanced (fst L)" "linked L"
  shows "balanced (fst L') \<and> linked L'"
  using assms
proof cases
  case (other t t' a)
  then show ?thesis using assms(2,3) by (cases a) (simp_all add: same_ledger_def balanced_def)
next
  case (close t' a reason t)
  have "fi_app_id (closed_row i e reason r) = fi_app_id r \<and> fi_duration_ns (closed_row i e reason r) = fi_duration_ns r \<and>
      fi_last_checkpoint_monotonic_ns (closed_row i e reason r) = fi_last_checkpoint_monotonic_ns r \<and>
      fi_started_monotonic_ns (closed_row i e reason r) = fi_started_monotonic_ns r" for i e r
    by (simp add: closed_row_def)
  then show ?thesis using close assms(2) by (simp add: balanced_def booked_raw_map)
next
  case (append a slices t t')
  then obtain r where r: "r \<in> set (ut_intervals t)" "is_open_row (ai_id a) r" "fi_app_id r = wi_app_id (ai_identity a)"
    "fi_last_checkpoint_monotonic_ns r = uint (cs_monotonic_ns (ai_last_counted a))"
    using assms(3) by auto
  have "balanced t'"
    using segment_booked_balanced [OF append(5) r split_span [OF append(4)]] assms(2) append(1) by simp
  moreover have "booked_row (int (slices_total slices)) now r \<in> set (ut_intervals t')"
    using append(5) r(1,2) by (force simp: segment_booked_def)
  moreover have "is_open_row (ai_id a) (booked_row d now r)" for d
    using r(2) by (simp add: booked_row_def is_open_row_def)
  ultimately show ?thesis
    using append(2) r(3)
    by (auto intro!: bexI [of _ "booked_row (int (slices_total slices)) now r"]) (simp_all add: booked_row_def)
next
  case (start t identity r t')
  then have "balanced t'" using assms(2)
    by (auto simp: balanced_def booked_raw_def fresh_row_def)
  then show ?thesis using start by (auto simp: fresh_row_def is_open_row_def)
qed (use assms in simp_all)

lemma ledger_steps_invariant:
  "ledger_steps ch now p L L' \<Longrightarrow> balanced (fst L) \<Longrightarrow> linked L \<Longrightarrow> balanced (fst L') \<and> linked L'"
  by (induction rule: rtranclp_induct) (auto dest: ledger_step_invariant)

text \<open>All time booked in raw intervals, and the bound on it: from a start at \<open>m0\<close> with \<open>S0\<close> booked, the
  active interval has been counted up to its last sample, otherwise up to \<open>M\<close> at most.\<close>

definition booked_total :: "usage_tables \<Rightarrow> int" where
  "booked_total t = (\<Sum>r \<leftarrow> ut_intervals t. fi_duration_ns r)"

fun counted_to :: "int \<Rightarrow> active_interval option \<Rightarrow> int" where
  "counted_to M None = M"
| "counted_to M (Some a) = uint (cs_monotonic_ns (ai_last_counted a))"

definition within :: "int \<Rightarrow> int \<Rightarrow> int \<Rightarrow> ledger \<Rightarrow> bool" where
  "within S0 m0 M L \<longleftrightarrow> booked_total (fst L) + m0 \<le> S0 + counted_to M (snd L) \<and> counted_to M (snd L) \<le> M"

lemma within_mono: "within S0 m0 M L \<Longrightarrow> M \<le> M' \<Longrightarrow> within S0 m0 M' L"
  by (cases "snd L") (auto simp: within_def)

lemma booked_total_update:
  "(\<Sum>r \<leftarrow> map (\<lambda>r. if Q r then booked_row d e r else r) rs. fi_duration_ns r) =
   (\<Sum>r \<leftarrow> rs. fi_duration_ns r) + d * int (length (filter Q rs))"
  by (induction rs) (auto simp: booked_row_def algebra_simps)

lemma ledger_step_within:
  assumes "ledger_step ch now p L L'" "within S0 m0 M L" "p \<Longrightarrow> uint (cs_monotonic_ns now) = M"
  shows "within S0 m0 M L'"
  using assms
proof cases
  case (other t t' a)
  then show ?thesis using assms(2) by (simp add: within_def booked_total_def same_ledger_def)
next
  case (close t' a reason t)
  have "map fi_duration_ns (ut_intervals t') = map fi_duration_ns (ut_intervals t)"
    using close by (simp add: closed_row_def)
  then have "booked_total t' = booked_total t" by (simp add: booked_total_def)
  then show ?thesis using close(1,2) assms(2) by (simp add: within_def)
next
  case (append a slices t t')
  have "booked_total t' = booked_total t + int (slices_total slices)"
    using append(5) booked_total_update [of "is_open_row (ai_id a)" "int (slices_total slices)" now "ut_intervals t"]
    by (simp add: segment_booked_def booked_total_def)
  then show ?thesis
    using append(1,2) assms(2) assms(3) [OF append(3)] split_span [OF append(4)] by (simp add: within_def)
next
  case (start t identity r t')
  then have "booked_total t' = booked_total t" by (simp add: booked_total_def fresh_row_def)
  then show ?thesis using start(1,2) assms(2) assms(3) [OF start(5)] by (simp add: within_def)
qed (use assms in \<open>simp_all add: within_def\<close>)

lemma ledger_steps_within:
  assumes "ledger_steps ch now p L L'" "within S0 m0 M L" "p \<Longrightarrow> uint (cs_monotonic_ns now) = M"
  shows "within S0 m0 M L'"
  using assms(1,2) by (induction rule: rtranclp_induct) (auto dest: ledger_step_within assms(3))

text \<open>Without permission nothing is booked.\<close>

definition same_booking :: "usage_tables \<Rightarrow> usage_tables \<Rightarrow> bool" where
  "same_booking t t' \<longleftrightarrow> map fi_duration_ns (ut_intervals t') = map fi_duration_ns (ut_intervals t) \<and>
     (\<forall>k. aggregate_table k t' = aggregate_table k t)"

lemma ledger_steps_unpermitted:
  "ledger_steps ch now False L L' \<Longrightarrow> same_booking (fst L) (fst L')"
proof (induction rule: rtranclp_induct)
  case (step L1 L2)
  from step(2) have "same_booking (fst L1) (fst L2)"
    by cases (auto simp: same_booking_def same_ledger_def closed_row_def)
  with step(3) show ?case by (simp add: same_booking_def)
qed (simp add: same_booking_def)

text \<open>With an open row that is not the active interval no interval can start.\<close>

lemma ledger_steps_wedged:
  "ledger_steps ch now p L L' \<Longrightarrow> snd L = None \<Longrightarrow> open_intervals (fst L) \<noteq> [] \<Longrightarrow>
     snd L' = None \<and> same_ledger (fst L) (fst L')"
proof (induction rule: rtranclp_induct)
  case (step L1 L2)
  then have "snd L1 = None" "same_ledger (fst L) (fst L1)" by simp_all
  then have "open_intervals (fst L1) \<noteq> []" using step.prems by (simp add: same_ledger_def open_intervals_def)
  with step(2) \<open>snd L1 = None\<close> have "snd L2 = None \<and> same_ledger (fst L1) (fst L2)"
    by cases auto
  then show ?case using \<open>same_ledger (fst L) (fst L1)\<close> by (auto intro: same_ledger_trans)
qed simp

section \<open>Properties\<close>

lemma tracker_run_simps [simp]:
  "tracker_run ch pick [] tk = tk"
  "tracker_run ch pick (c # ops) tk = tracker_run ch pick ops (snd (tracker_step ch pick c tk))"
  by (simp_all add: tracker_run_def)

lemma tracker_new_ledger: "ledger_of (tracker_new db config) = (fst db, None)"
proof -
  have "fst (snd (has_open_gap db)) = fst db"
    by (auto simp: has_open_gap_def sql_def)
  then show ?thesis by (cases "has_open_gap db") (simp add: tracker_new_def ledger_of_def)
qed

lemma tracker_run_invariant:
  "balanced (fst (ledger_of tk)) \<Longrightarrow> linked (ledger_of tk) \<Longrightarrow>
   balanced (fst (ledger_of (tracker_run ch pick ops tk))) \<and> linked (ledger_of (tracker_run ch pick ops tk))"
proof (induction ops arbitrary: tk)
  case (Cons c ops)
  obtain now where "op_sample c = Some now \<or> op_sample c = None" by (cases "op_sample c") auto
  from tracker_step_steps [OF this, of tk True ch pick]
  have "balanced (fst (ledger_of (snd (tracker_step ch pick c tk)))) \<and> linked (ledger_of (snd (tracker_step ch pick c tk)))"
    using ledger_steps_invariant Cons.prems by blast
  then show ?case using Cons.IH by simp
qed simp

text \<open>C5: along any sequence of tracker operations from a store whose ledger is balanced, and whichever
  statements fail, the ledger stays balanced: every interval books exactly the monotonic span
  from its start to its last checkpoint, and for every application the minute, daily and weekly
  aggregates book the same time as its raw intervals.\<close>

theorem ledger_stays_balanced:
  assumes "balanced (fst db)"
  shows "balanced (fst (tk_db (tracker_run ch pick ops (tracker_new db config))))"
  using tracker_run_invariant [of "tracker_new db config" ch pick ops] assms
  by (simp add: tracker_new_ledger) (simp add: ledger_of_def)

definition terminal_window :: window_identity where
  "terminal_window = \<lparr>wi_window_id = 1, wi_app_id = ''terminal'', wi_pid = Some 100\<rparr>"

definition active_session :: session_snapshot where
  "active_session = \<lparr>ss_active = True, ss_locked = False, ss_idle = False\<rparr>"

lemma empty_balanced: "balanced empty_tables"
  by (auto simp: balanced_def empty_tables_def booked_raw_def all_aggregate_kinds)

theorem ledger_stays_balanced_witness:
  "balanced (fst (tk_db (tracker_run civil (\<lambda>_. None)
     [ObserveFocus (Some terminal_window) active_session (sample_at 0 1767225599500),
      Checkpoint active_session (sample_at 2000000000 1767225601500)]
     (tracker_new (empty_tables, [False, False, False, True]) default_tracker_config))))"
  by (rule ledger_stays_balanced) (simp add: empty_balanced)

lemma tracker_run_within:
  assumes "within S0 m0 M (ledger_of tk)"
    "sorted (M # map (\<lambda>s. uint (cs_monotonic_ns s)) (List.map_filter op_sample ops))"
  shows "within S0 m0 (last (M # map (\<lambda>s. uint (cs_monotonic_ns s)) (List.map_filter op_sample ops)))
           (ledger_of (tracker_run ch pick ops tk))"
  using assms
proof (induction ops arbitrary: tk M)
  case (Cons c ops)
  show ?case
  proof (cases "op_sample c")
    case None
    then have "\<not> op_permits tk c" by (cases c) simp_all
    with None have "within S0 m0 M (ledger_of (snd (tracker_step ch pick c tk)))"
      using ledger_steps_within [OF tracker_step_steps [of c _ tk False] Cons.prems(1)] by blast
    from Cons.IH [OF this] Cons.prems(2) None show ?thesis by (simp add: map_filter_simps)
  next
    case (Some now)
    let ?M = "uint (cs_monotonic_ns now)"
    have "M \<le> ?M" using Cons.prems(2) Some by (simp add: map_filter_simps)
    then have "within S0 m0 ?M (ledger_of tk)" using within_mono Cons.prems(1) by blast
    then have "within S0 m0 ?M (ledger_of (snd (tracker_step ch pick c tk)))"
      using ledger_steps_within [OF tracker_step_steps [of c now tk True]] Some by blast
    from Cons.IH [OF this] Cons.prems(2) Some show ?thesis by (simp add: map_filter_simps)
  qed
qed (simp add: map_filter_simps)

text \<open>C8: whatever is observed, the tracker never books more time than has passed: over any sequence of
  operations whose samples do not go back in monotonic time, the raw intervals gain at most the time
  from the first reading to the last.\<close>

theorem booked_within_elapsed:
  assumes "sorted (m0 # map (\<lambda>s. uint (cs_monotonic_ns s)) (List.map_filter op_sample ops))"
  shows "booked_total (fst (tk_db (tracker_run ch pick ops (tracker_new db config)))) \<le>
         booked_total (fst db) +
         (last (m0 # map (\<lambda>s. uint (cs_monotonic_ns s)) (List.map_filter op_sample ops)) - m0)"
proof -
  let ?T = "last (m0 # map (\<lambda>s. uint (cs_monotonic_ns s)) (List.map_filter op_sample ops))"
  have "within (booked_total (fst db)) m0 m0 (ledger_of (tracker_new db config))"
    by (simp add: tracker_new_ledger within_def)
  from tracker_run_within [OF this assms]
  have "within (booked_total (fst db)) m0 ?T (ledger_of (tracker_run ch pick ops (tracker_new db config)))" .
  then show ?thesis unfolding within_def by (simp add: ledger_of_def)
qed

lemma sample_mono: "cs_monotonic_ns (sample_at m w) = m"
  by (simp add: sample_at_def)

lemma empty_booked: "booked_total empty_tables = 0"
  by (simp add: booked_total_def empty_tables_def)

theorem booked_within_elapsed_witness:
  "booked_total (fst (tk_db (tracker_run civil (\<lambda>_. None)
     [ObserveFocus (Some terminal_window) active_session (sample_at 0 1767225599500),
      Checkpoint active_session (sample_at 2000000000 1767225601500)]
     (tracker_new (empty_tables, []) default_tracker_config)))) \<le> 2000000000"
  using booked_within_elapsed [of 0 "[ObserveFocus (Some terminal_window) active_session (sample_at 0 1767225599500),
      Checkpoint active_session (sample_at 2000000000 1767225601500)]" civil "\<lambda>_. None" "(empty_tables, [])"
      default_tracker_config]
  by (simp add: map_filter_simps sample_mono empty_booked)

text \<open>No time is booked while the session does not permit accounting: an operation called with a
  session that is inactive, locked or idle (and a gap mark, or an edge after such a session) changes
  no duration and no aggregate.\<close>

theorem unpermitted_not_counted:
  assumes "\<not> op_permits tk c"
  shows "same_booking (fst (tk_db tk)) (fst (tk_db (snd (tracker_step ch pick c tk))))"
proof -
  obtain now where "op_sample c = Some now \<or> op_sample c = None" by (cases "op_sample c") auto
  from tracker_step_steps [OF this, of tk False ch pick] assms
  have "ledger_steps ch now False (ledger_of tk) (ledger_of (snd (tracker_step ch pick c tk)))" by blast
  from ledger_steps_unpermitted [OF this] show ?thesis by (simp add: ledger_of_def)
qed

theorem unpermitted_not_counted_witness:
  "same_booking empty_tables (fst (tk_db (snd (tracker_step civil (\<lambda>_. None)
     (Checkpoint (active_session\<lparr>ss_locked := True\<rparr>) (sample_at 10 20))
     (tracker_new (empty_tables, []) default_tracker_config)))))"
  using unpermitted_not_counted [of "tracker_new (empty_tables, []) default_tracker_config"
      "Checkpoint (active_session\<lparr>ss_locked := True\<rparr>) (sample_at 10 20)" civil "\<lambda>_. None"]
    tracker_new_ledger [of "(empty_tables, [])" default_tracker_config]
  by (simp add: permits_accounting_def ledger_of_def)

text \<open>The operation comes to the close of the active interval: in the state \<open>tk0\<close>, with this reason.\<close>

definition focus_closes ::
  "('o, 'd, 'n) chrono \<Rightarrow> (i64 list \<Rightarrow> i64 option) \<Rightarrow> window_identity option \<Rightarrow> session_snapshot \<Rightarrow> clock_sample \<Rightarrow>
   usage_tracker \<Rightarrow> string \<Rightarrow> usage_tracker \<Rightarrow> bool" where
  "focus_closes ch pick focus session now tk reason tk0 \<longleftrightarrow> reason = ''focus_or_session_changed'' \<and>
     (\<exists>tk'. resume_or_advance ch pick now session True tk = (Ok (), tk') \<and>
        tk0 = tk'\<lparr>tk_source_connected := True, tk_focus := focus, tk_session := Some session\<rparr>) \<and>
     \<not> is_some_and (tk_active tk0) (\<lambda>active. desired_focus tk0 = Some (ai_identity active))"

definition checkpoint_closes ::
  "('o, 'd, 'n) chrono \<Rightarrow> (i64 list \<Rightarrow> i64 option) \<Rightarrow> session_snapshot \<Rightarrow> clock_sample \<Rightarrow>
   usage_tracker \<Rightarrow> string \<Rightarrow> usage_tracker \<Rightarrow> bool" where
  "checkpoint_closes ch pick session now tk reason tk0 \<longleftrightarrow> reason = ''session_changed'' \<and>
     (\<exists>tk'. resume_or_advance ch pick now session (tk_source_connected tk) tk = (Ok (), tk') \<and>
        tk0 = tk'\<lparr>tk_session := Some session\<rparr>) \<and>
     \<not> is_some_and (tk_active tk0) (\<lambda>active. desired_focus tk0 = Some (ai_identity active))"

fun closes_at ::
  "('o, 'd, 'n) chrono \<Rightarrow> (i64 list \<Rightarrow> i64 option) \<Rightarrow> tracker_op \<Rightarrow> usage_tracker \<Rightarrow> string \<Rightarrow> usage_tracker \<Rightarrow> bool" where
  "closes_at ch pick (ObserveNiri (FocusChanged focus) session now) tk reason tk0 = focus_closes ch pick focus session now tk reason tk0"
| "closes_at ch pick (ObserveNiri _ session now) tk reason tk0 = checkpoint_closes ch pick session now tk reason tk0"
| "closes_at ch pick (ObserveFocus focus session now) tk reason tk0 = focus_closes ch pick focus session now tk reason tk0"
| "closes_at ch pick (Checkpoint session now) tk reason tk0 = checkpoint_closes ch pick session now tk reason tk0"
| "closes_at ch pick (MarkEventGap r) tk reason tk0 = (reason = r \<and> open_gap_at ch pick r tk = (Ok (), tk0))"
| "closes_at ch pick (MarkSessionUnavailable r) tk reason tk0 = (reason = r \<and> open_gap_at ch pick r tk = (Ok (), tk0))"
| "closes_at ch pick (SessionEdge now) tk reason tk0 = (reason = ''logind_session_edge'' \<and>
     (case tk_session tk of
        Some session \<Rightarrow> advance ch pick now session
      | None \<Rightarrow> t_modify (\<lambda>tk. tk\<lparr>tk_last_sample := Some now\<rparr>)) tk = (Ok (), tk0))"

lemma focus_closes_fails:
  assumes "focus_closes ch pick focus session now tk reason tk0" "close_active reason tk0 = (Err e, tk1)"
  shows "observe_focus ch pick focus session now tk = (Err e, tk1) \<and> ledger_steps ch now True (ledger_of tk) (ledger_of tk0)"
proof -
  obtain tk' where "resume_or_advance ch pick now session True tk = (Ok (), tk')"
    "tk0 = tk'\<lparr>tk_source_connected := True, tk_focus := focus, tk_session := Some session\<rparr>"
    using assms(1) by (auto simp: focus_closes_def)
  moreover have "ledger_steps ch now True (ledger_of tk) (ledger_of (snd (resume_or_advance ch pick now session True tk)))"
    by (rule t_stepsD [OF resume_or_advance_steps]) simp
  ultimately show ?thesis using assms
    by (simp add: focus_closes_def observe_focus_def t_bind_def [of "resume_or_advance _ _ _ _ _"] t_bind_def [of "t_modify _"]
        t_bind_def [of "close_active _"] t_modify_def reconcile_def Let_def)
qed

lemma checkpoint_closes_fails:
  assumes "checkpoint_closes ch pick session now tk reason tk0" "close_active reason tk0 = (Err e, tk1)"
  shows "tracker_checkpoint ch pick session now tk = (Err e, tk1) \<and> ledger_steps ch now True (ledger_of tk) (ledger_of tk0)"
proof -
  obtain tk' where "resume_or_advance ch pick now session (tk_source_connected tk) tk = (Ok (), tk')"
    "tk0 = tk'\<lparr>tk_session := Some session\<rparr>"
    using assms(1) by (auto simp: checkpoint_closes_def)
  moreover have "ledger_steps ch now True (ledger_of tk) (ledger_of (snd (resume_or_advance ch pick now session (tk_source_connected tk) tk)))"
    by (rule t_stepsD [OF resume_or_advance_steps]) simp
  ultimately show ?thesis using assms
    by (simp add: checkpoint_closes_def tracker_checkpoint_def t_bind_def [of "resume_or_advance _ _ _ _ _"] t_bind_def [of "t_modify _"]
        t_bind_def [of "close_active _"] t_modify_def reconcile_def Let_def)
qed

lemma edge_closes_fails:
  assumes "closes_at ch pick (SessionEdge now) tk reason tk0" "close_active reason tk0 = (Err e, tk1)"
  shows "observe_session_edge ch pick now tk = (Err e, tk1) \<and> ledger_steps ch now True (ledger_of tk) (ledger_of tk0)"
proof -
  let ?m = "case tk_session tk of Some session \<Rightarrow> advance ch pick now session
      | None \<Rightarrow> t_modify (\<lambda>tk. tk\<lparr>tk_last_sample := Some now\<rparr>)"
  have m: "?m tk = (Ok (), tk0)" "reason = ''logind_session_edge''" using assms(1) by auto
  have "ledger_steps ch now True (ledger_of tk) (ledger_of (snd (?m tk)))"
    by (auto simp: t_modify_def split: option.split intro!: t_stepsD [OF advance_steps])
  then show ?thesis using m assms(2) by (simp add: observe_session_edge_def t_bind_def [of ?m] t_bind_def [of "close_active _"])
qed

lemma failing_close:
  assumes "closes_at ch pick c tk reason tk0" "close_active reason tk0 = (Err e, tk1)"
  shows "tracker_step ch pick c tk = (Err e, tk1) \<and> (\<exists>now. ledger_steps ch now True (ledger_of tk) (ledger_of tk0))"
proof (cases c)
  case (ObserveNiri u session now)
  then show ?thesis
    using assms focus_closes_fails [of ch pick _ session now tk reason tk0 e tk1] checkpoint_closes_fails [of ch pick session now tk reason tk0 e tk1]
    by (cases u) auto
next
  case (ObserveFocus focus session now)
  then show ?thesis using assms focus_closes_fails [of ch pick focus session now tk reason tk0 e tk1] by auto
next
  case (Checkpoint session now)
  then show ?thesis using assms checkpoint_closes_fails [of ch pick session now tk reason tk0 e tk1] by auto
next
  case (MarkEventGap r)
  then show ?thesis using assms t_stepsD [OF open_gap_at_steps [where ch = ch and p = True and ch' = ch and pick = pick and reason = r], where tk = tk]
    by (auto simp: mark_event_gap_def t_bind_def [of "open_gap_at _ _ _"] t_bind_def [of "close_active _"])
next
  case (MarkSessionUnavailable r)
  then show ?thesis using assms t_stepsD [OF open_gap_at_steps [where ch = ch and p = True and ch' = ch and pick = pick and reason = r], where tk = tk]
    by (auto simp: mark_session_unavailable_def t_bind_def [of "open_gap_at _ _ _"] t_bind_def [of "close_active _"])
next
  case (SessionEdge now)
  then show ?thesis using edge_closes_fails [OF assms [unfolded SessionEdge]] by auto
qed

lemma wedged_run:
  assumes "tk_active tk = None" "open_intervals (fst (tk_db tk)) \<noteq> []"
  shows "tk_active (tracker_run ch pick ops tk) = None \<and>
         same_ledger (fst (tk_db tk)) (fst (tk_db (tracker_run ch pick ops tk)))"
proof -
  have "snd (ledger_of (tracker_run ch pick ops tk)) = None \<and>
      same_ledger (fst (ledger_of tk)) (fst (ledger_of (tracker_run ch pick ops tk)))"
    if "snd (ledger_of tk) = None" "open_intervals (fst (ledger_of tk)) \<noteq> []" for tk
    using that
  proof (induction ops arbitrary: tk)
    case (Cons c ops)
    obtain now where "op_sample c = Some now \<or> op_sample c = None" by (cases "op_sample c") auto
    from ledger_steps_wedged [OF tracker_step_steps [OF this, of tk True ch pick]] Cons.prems
    have s: "snd (ledger_of (snd (tracker_step ch pick c tk))) = None"
      "same_ledger (fst (ledger_of tk)) (fst (ledger_of (snd (tracker_step ch pick c tk))))" by simp_all
    then have "open_intervals (fst (ledger_of (snd (tracker_step ch pick c tk)))) \<noteq> []"
      using Cons.prems(2) by (simp add: same_ledger_def open_intervals_def)
    from Cons.IH [OF s(1) this] s(2) show ?case by (auto intro: same_ledger_trans)
  qed simp
  from this [of tk] assms show ?thesis by (simp add: ledger_of_def)
qed

text \<open>C37: a close that fails once stops the accounting for good: when an operation of a running tracker comes to
  the close of its active interval (after a change of focus or session, at a gap mark or at a session
  edge) and the statement fails, the operation returns the error, the tracker has dropped the interval although its
  row stays open, and from then on no sequence of operations starts an interval or books any time: the
  intervals and aggregates stay as they were when the close was tried.\<close>

theorem failed_close_stops_accounting:
  assumes "balanced (fst db)" "tk = tracker_run ch pick ops (tracker_new db config)"
    and "closes_at ch pick c tk reason tk0" "tk_active tk0 = Some a" "close_active reason tk0 = (Err e, tk1)"
  shows "tracker_step ch pick c tk = (Err e, tk1) \<and>
    (\<exists>r \<in> set (open_intervals (fst (tk_db tk1))). fi_id r = ai_id a) \<and>
    tk_active (tracker_run ch pick later tk1) = None \<and>
    same_ledger (fst (tk_db tk0)) (fst (tk_db (tracker_run ch pick later tk1)))"
proof -
  obtain now where step: "tracker_step ch pick c tk = (Err e, tk1)" "ledger_steps ch now True (ledger_of tk) (ledger_of tk0)"
    using failing_close [OF assms(3,5)] by blast
  have "balanced (fst (ledger_of tk)) \<and> linked (ledger_of tk)"
    unfolding assms(2) using assms(1) by (intro tracker_run_invariant) (simp_all add: tracker_new_ledger)
  then have "linked (ledger_of tk0)" using ledger_steps_invariant [OF step(2)] by blast
  then obtain r where r: "r \<in> set (ut_intervals (fst (tk_db tk0)))" "is_open_row (ai_id a) r"
    using assms(4) by (auto simp: ledger_of_def)
  have tk1: "tk_active tk1 = None" "fst (tk_db tk1) = fst (tk_db tk0)"
    using assms(4,5) by (auto simp: close_active_def t_store_def split: prod.splits dest!: stm_relD [OF close_interval_rel])
  then have row: "r \<in> set (open_intervals (fst (tk_db tk1)))" "fi_id r = ai_id a"
    using r by (auto simp: open_intervals_def is_open_row_def)
  then have "open_intervals (fst (tk_db tk1)) \<noteq> []" by (metis empty_iff list.set(1))
  from wedged_run [OF tk1(1) this] show ?thesis using step(1) row tk1(2) by metis
qed

text \<open>One failing statement is enough: the close at a session edge.\<close>

definition running_tracker :: usage_tracker where
  "running_tracker = tracker_run civil (\<lambda>_. None)
     [ObserveFocus (Some terminal_window) active_session (sample_at 0 1767225599500)]
     (tracker_new (empty_tables, [False, False, True]) default_tracker_config)"

definition running_interval :: active_interval where
  "running_interval = \<lparr>ai_id = 1, ai_identity = terminal_window, ai_last_counted = sample_at 0 1767225599500\<rparr>"

lemma running_tracker_eval:
  "tk_active running_tracker = Some running_interval" "snd (tk_db running_tracker) = [True]"
  "tk_session running_tracker = Some active_session"
  "tk_last_sample running_tracker = Some (sample_at 0 1767225599500)"
  by (simp_all add: running_tracker_def running_interval_def tracker_new_def has_open_gap_def sql_def empty_tables_def
      observe_focus_def t_bind_def resume_or_advance_def advance_def t_modify_def reconcile_def desired_focus_def
      active_session_def permits_accounting_def close_active_def t_store_def start_interval_def u_bind_def u_lift_def
      terminal_window_def MAX_NIRI_APP_ID_BYTES_def sql_u64_def i64_of_u64_def i64_max_def sample_at_def
      insert_interval_def next_rowid_def interval_row_def)

definition wedged_tracker :: usage_tracker where
  "wedged_tracker = running_tracker\<lparr>tk_active := None, tk_db := (fst (tk_db running_tracker), [])\<rparr>"

lemma running_tracker_close:
  "closes_at civil (\<lambda>_. None) (SessionEdge (sample_at 0 1767225599500)) running_tracker ''logind_session_edge'' running_tracker"
  "close_active ''logind_session_edge'' running_tracker = (Err (StoreError SqliteError), wedged_tracker)"
  by (simp_all add: running_tracker_eval advance_def close_active_def t_store_def close_interval_def sql_def wedged_tracker_def)

theorem failed_close_stops_accounting_witness:
  "tracker_step civil (\<lambda>_. None) (SessionEdge (sample_at 0 1767225599500)) running_tracker = (Err (StoreError SqliteError), wedged_tracker) \<and>
   tk_active (tracker_run civil (\<lambda>_. None)
      [Checkpoint active_session (sample_at 5000000000 1767225604500),
       Checkpoint active_session (sample_at 9000000000 1767225608500)] wedged_tracker) = None \<and>
   same_ledger (fst (tk_db running_tracker)) (fst (tk_db (tracker_run civil (\<lambda>_. None)
      [Checkpoint active_session (sample_at 5000000000 1767225604500),
       Checkpoint active_session (sample_at 9000000000 1767225608500)] wedged_tracker)))"
proof -
  have "balanced (fst (empty_tables, [False, False, True]))" by (simp add: empty_balanced)
  from failed_close_stops_accounting [OF this running_tracker_def running_tracker_close(1) running_tracker_eval(1)
      running_tracker_close(2)]
  show ?thesis by blast
qed

end
