(* ===== verification/Usage_Open.thy ===== *)
theory Usage_Open
  imports Usage_Tracker
begin

text \<open>
  Opening and closing the usage database (crates/usage/src/store.rs): the integrity check, the schema
  migration with its epoch and gap rows, the writer lease, the recovery of intervals a crash
  left open, and the release of the lease on drop. The process table (\<open>/proc/<pid>/stat\<close>), the
  identity of the running process, the file backup of a migration and the outcome of SQLite's
  \<open>quick_check\<close> are fields of an environment record. Shown: an opened store has no open
  interval, keeps every booked duration and marks a recovered crash as a gap; a lease is
  never taken from a live writer.
\<close>

section \<open>Environment\<close>

record writer_identity =
  wr_pid :: u32
  wr_start_ticks :: u64
  wr_boot_id :: string

record usage_env =
  ue_pick :: "i64 list \<Rightarrow> i64 option"
  ue_start_ticks :: "u32 \<Rightarrow> (usage_store_error, u64) result"
  ue_writer :: "(usage_store_error, writer_identity) result"
  ue_backup :: "u32 \<Rightarrow> (usage_store_error, unit) result"
  ue_quick_check_ok :: bool

section \<open>Integrity and migration\<close>

definition ensure_usage_integrity :: "usage_env \<Rightarrow> unit usage_stm" where
  "ensure_usage_integrity env db =
     (case sql (\<lambda>t. Some (ue_quick_check_ok env, t)) db of
        (Inl _, db') \<Rightarrow> (Err UsageCorrupt, db')
      | (Inr ok, db') \<Rightarrow> (if ok then Ok () else Err UsageCorrupt, db'))"

definition ensure_reader_schema :: "unit usage_stm" where
  "ensure_reader_schema =
     u_bind (sql (\<lambda>t. Some (ut_version t, t))) (\<lambda>version.
     u_lift (if version \<noteq> USAGE_STORE_SCHEMA_VERSION
             then Err (UnsupportedSchema version USAGE_STORE_SCHEMA_VERSION) else Ok ()))"

text \<open>\<open>ORDER BY started_wall_utc_ms ASC, id ASC LIMIT 1\<close>\<close>

definition earliest_interval :: "focus_row list \<Rightarrow> focus_row option" where
  "earliest_interval rs =
     (case sort_key (\<lambda>r. (fi_started_wall_utc_ms r, fi_id r)) rs of [] \<Rightarrow> None | r # _ \<Rightarrow> Some r)"

definition initialize_usage_epoch :: "('o, 'd, 'n) chrono \<Rightarrow> clock_sample \<Rightarrow> unit usage_stm" where
  "initialize_usage_epoch ch at =
     u_bind (sql (\<lambda>t. Some (earliest_interval (ut_intervals t), t))) (\<lambda>earliest.
     let s = (case earliest of
                Some r \<Rightarrow> at\<lparr>cs_wall_utc_ms := fi_started_wall_utc_ms r, cs_utc_offset_seconds := fi_start_utc_offset_seconds r,
                             cs_timezone_id := fi_start_timezone_id r\<rparr>
              | None \<Rightarrow> at) in
     u_bind (u_lift (gap_bucket_keys ch s)) (\<lambda>(daily, weekly).
     sql (\<lambda>t. Some ((), if ut_epoch t = None then t\<lparr>ut_epoch := Some (cs_wall_utc_ms s, daily, weekly)\<rparr> else t))))"

definition migrate_legacy_coverage_gap ::
  "('o, 'd, 'n) chrono \<Rightarrow> (i64 list \<Rightarrow> i64 option) \<Rightarrow> clock_sample \<Rightarrow> unit usage_stm" where
  "migrate_legacy_coverage_gap ch pick at =
     u_bind (sql (\<lambda>t. map_option (\<lambda>l. (l, t)) (ut_legacy t))) (\<lambda>legacy.
     case lc_last_gap_wall_utc_ms legacy of
       None \<Rightarrow> u_lift (Ok ())
     | Some wall \<Rightarrow>
         if lc_event_gap_count legacy \<le> 0 then u_lift (Ok ())
         else u_bind (u_lift (gap_bucket_keys ch (at\<lparr>cs_wall_utc_ms := wall\<rparr>))) (\<lambda>(daily, weekly).
           sql (insert_gap pick (\<lambda>i.
             \<lparr>gp_id = i, gp_started_wall_utc_ms = wall, gp_ended_wall_utc_ms = Some wall,
              gp_start_daily_key = daily, gp_end_daily_key = Some daily, gp_start_weekly_key = weekly,
              gp_end_weekly_key = Some weekly,
              gp_reason = (case lc_last_gap_reason legacy of Some r \<Rightarrow> r | None \<Rightarrow> ''legacy_gap''),
              gp_occurrence_count = lc_event_gap_count legacy,
              gp_recovered_interval_count = lc_recovered_interval_count legacy\<rparr>))))"

text \<open>\<open>ORDER BY last_checkpoint_wall_utc_ms DESC, id DESC LIMIT 1\<close>\<close>

definition latest_interval :: "focus_row list \<Rightarrow> focus_row option" where
  "latest_interval rs =
     (case sort_key (\<lambda>r. (- fi_last_checkpoint_wall_utc_ms r, - fi_id r)) rs of [] \<Rightarrow> None | r # _ \<Rightarrow> Some r)"

definition begin_schema_upgrade_transition ::
  "('o, 'd, 'n) chrono \<Rightarrow> (i64 list \<Rightarrow> i64 option) \<Rightarrow> clock_sample \<Rightarrow> unit usage_stm" where
  "begin_schema_upgrade_transition ch pick at =
     u_bind (sql (\<lambda>t. Some (latest_interval (ut_intervals t), t))) (\<lambda>latest.
     let start = (case latest of
                    Some r \<Rightarrow>
                      if fi_last_checkpoint_wall_utc_ms r \<le> cs_wall_utc_ms at
                      then at\<lparr>cs_wall_utc_ms := fi_last_checkpoint_wall_utc_ms r,
                              cs_utc_offset_seconds := (case fi_end_utc_offset_seconds r of Some z \<Rightarrow> z | None \<Rightarrow> fi_start_utc_offset_seconds r),
                              cs_timezone_id := (case fi_end_timezone_id r of Some z \<Rightarrow> z | None \<Rightarrow> fi_start_timezone_id r)\<rparr>
                      else at
                  | None \<Rightarrow> at) in
     u_bind (u_lift (gap_bucket_keys ch start)) (\<lambda>(daily, weekly).
     sql (insert_gap pick (open_gap_row (cs_wall_utc_ms start) daily weekly ''usage_schema_upgrade_transition'' 0))))"

text \<open>
  \<open>execute_batch\<close> of the schemas creates the tables that are missing and leaves the others as they are;
  an absent table is an empty list here, so only the row of \<open>usage_coverage\<close> shows.
\<close>

definition create_schema_v1 :: "unit usage_stm" where
  "create_schema_v1 = sql (\<lambda>t. Some ((), if ut_legacy t = None
     then t\<lparr>ut_legacy := Some \<lparr>lc_event_gap_count = 0, lc_recovered_interval_count = 0,
            lc_last_gap_wall_utc_ms = None, lc_last_gap_reason = None\<rparr>\<rparr> else t))"

definition create_schema_v2 :: "unit usage_stm" where
  "create_schema_v2 = sql (\<lambda>t. Some ((), t))"

definition drop_usage_coverage :: "unit usage_stm" where
  "drop_usage_coverage = sql (\<lambda>t. if ut_legacy t = None then None else Some ((), t\<lparr>ut_legacy := None\<rparr>))"

definition set_user_version :: "u32 \<Rightarrow> unit usage_stm" where
  "set_user_version v = sql (\<lambda>t. Some ((), t\<lparr>ut_version := v\<rparr>))"

definition pragma :: "unit usage_stm" where
  "pragma = sql (\<lambda>t. Some ((), t))"

definition migrate_usage_schema ::
  "('o, 'd, 'n) chrono \<Rightarrow> usage_env \<Rightarrow> clock_sample \<Rightarrow> unit usage_stm" where
  "migrate_usage_schema ch env at =
     u_bind (sql (\<lambda>t. Some (ut_version t, t))) (\<lambda>version.
     if USAGE_STORE_SCHEMA_VERSION < version
     then u_lift (Err (UnsupportedSchema version USAGE_STORE_SCHEMA_VERSION))
     else u_bind (u_lift (if 0 < version \<and> version < USAGE_STORE_SCHEMA_VERSION then ue_backup env version else Ok ())) (\<lambda>_.
     u_bind pragma (\<lambda>_.
     u_bind (if version = 0
             then immediate (u_bind create_schema_v1 (\<lambda>_. u_bind create_schema_v2 (\<lambda>_.
                    u_bind (initialize_usage_epoch ch at) (\<lambda>_. u_bind drop_usage_coverage (\<lambda>_.
                    set_user_version USAGE_STORE_SCHEMA_VERSION)))))
             else if version = 1
             then immediate (u_bind create_schema_v2 (\<lambda>_.
                    u_bind (migrate_legacy_coverage_gap ch (ue_pick env) at) (\<lambda>_.
                    u_bind (begin_schema_upgrade_transition ch (ue_pick env) at) (\<lambda>_.
                    u_bind drop_usage_coverage (\<lambda>_. set_user_version USAGE_STORE_SCHEMA_VERSION)))))
             else u_lift (Ok ())) (\<lambda>_. pragma))))"

section \<open>The writer lease\<close>

text \<open>The row belongs to a live writer: same boot, and the process has the recorded start time
  (\<open>ok()\<close> on both sides: two failures compare equal).\<close>

definition ok_of :: "('e, 'a) result \<Rightarrow> 'a option" where
  "ok_of r = (case r of Inl _ \<Rightarrow> None | Inr x \<Rightarrow> Some x)"

definition lease_alive :: "usage_env \<Rightarrow> string \<Rightarrow> lease_row \<Rightarrow> bool" where
  "lease_alive env boot l =
     (ls_owner_boot_id l = boot \<and> u64_of_i64 (ls_owner_start_ticks l) = ok_of (ue_start_ticks env (ls_owner_pid l)))"

definition acquire_writer_lease :: "usage_env \<Rightarrow> writer_identity \<Rightarrow> i64 \<Rightarrow> unit usage_stm" where
  "acquire_writer_lease env writer wall =
     immediate (
       u_bind (sql (\<lambda>t. Some (ut_lease t, t))) (\<lambda>existing.
       if is_some_and existing (lease_alive env (wr_boot_id writer))
       then u_lift (Err (WriterAlreadyActive (ls_owner_pid (the existing))))
       else u_bind (u_lift (sql_u64 (wr_start_ticks writer))) (\<lambda>ticks.
         sql (\<lambda>t. Some ((), t\<lparr>ut_lease := Some \<lparr>ls_owner_pid = wr_pid writer, ls_owner_start_ticks = ticks,
            ls_owner_boot_id = wr_boot_id writer, ls_acquired_wall_utc_ms = wall\<rparr>\<rparr>)))))"

text \<open>\<open>Drop\<close>: the row goes if it is this writer's; its errors are ignored.\<close>

definition drop_store :: "writer_identity \<Rightarrow> usage_db \<Rightarrow> usage_db" where
  "drop_store writer db =
     snd (sql (\<lambda>t. Some ((), if is_some_and (ut_lease t) (\<lambda>l. ls_owner_pid l = wr_pid writer \<and>
            Some (ls_owner_start_ticks l) = i64_of_u64 (wr_start_ticks writer) \<and> ls_owner_boot_id l = wr_boot_id writer)
          then t\<lparr>ut_lease := None\<rparr> else t)) db)"

section \<open>Opening\<close>

text \<open>\<open>UsageStore::open\<close>; when the recovery fails, the store that was built is dropped.\<close>

definition usage_open ::
  "('o, 'd, 'n) chrono \<Rightarrow> usage_env \<Rightarrow> clock_sample \<Rightarrow> writer_identity usage_stm" where
  "usage_open ch env at =
     u_bind pragma (\<lambda>_. u_bind pragma (\<lambda>_.
     u_bind (ensure_usage_integrity env) (\<lambda>_.
     u_bind (migrate_usage_schema ch env at) (\<lambda>_.
     u_bind (u_lift (ue_writer env)) (\<lambda>writer.
     u_bind (acquire_writer_lease env writer (cs_wall_utc_ms at)) (\<lambda>_ db.
     case recover_open_intervals ch (ue_pick env) at db of
       (Inl e, db') \<Rightarrow> (Err e, drop_store writer db')
     | (Inr _, db') \<Rightarrow> (Ok writer, db')))))))"

definition reader_open :: "usage_env \<Rightarrow> unit usage_stm" where
  "reader_open env =
     u_bind pragma (\<lambda>_. u_bind pragma (\<lambda>_.
     u_bind (ensure_usage_integrity env) (\<lambda>_.
     u_bind ensure_reader_schema (\<lambda>_. pragma))))"

section \<open>Lemmas\<close>

lemma same_ledger_upd [simp]:
  "same_ledger t (t\<lparr>ut_epoch := e\<rparr>)" "same_ledger t (t\<lparr>ut_legacy := l\<rparr>)"
  "same_ledger t (t\<lparr>ut_version := v\<rparr>)" "same_ledger t (t\<lparr>ut_lease := w\<rparr>)"
  by (simp_all add: same_ledger_def all_aggregate_kinds)

abbreviation ledger_kept :: "'a usage_stm \<Rightarrow> bool" where
  "ledger_kept m \<equiv> stm_rel m (\<lambda>t r t'. same_ledger t t')"

lemma ledger_kept_lift: "ledger_kept (u_lift r)"
  by (rule stm_rel_lift) simp

lemma ledger_kept_sql: "(\<And>t x t'. f t = Some (x, t') \<Longrightarrow> same_ledger t t') \<Longrightarrow> ledger_kept (sql f)"
  by (rule stm_rel_sql) simp_all

lemma ledger_kept_immediate: "ledger_kept m \<Longrightarrow> ledger_kept (immediate m)"
  by (erule stm_rel_transaction) simp_all

lemmas ledger_kept_intros = ledger_kept_lift ledger_kept_sql ledger_kept_immediate stm_rel_same_bind

lemma schema_statements_kept:
  "ledger_kept pragma" "ledger_kept create_schema_v1" "ledger_kept create_schema_v2"
  "ledger_kept drop_usage_coverage" "ledger_kept (set_user_version v)"
  "ledger_kept (initialize_usage_epoch ch at)"
  "ledger_kept (migrate_legacy_coverage_gap ch pick at)"
  "ledger_kept (begin_schema_upgrade_transition ch pick at)"
  unfolding pragma_def create_schema_v1_def create_schema_v2_def drop_usage_coverage_def set_user_version_def
    initialize_usage_epoch_def migrate_legacy_coverage_gap_def begin_schema_upgrade_transition_def Let_def
  by (auto intro!: ledger_kept_intros split: if_splits prod.splits option.splits dest: insert_gap_same)

lemma migrate_kept: "ledger_kept (migrate_usage_schema ch env at)"
  unfolding migrate_usage_schema_def
  by (intro stm_rel_same_bind ledger_kept_sql ledger_kept_lift)
     (auto intro!: ledger_kept_intros schema_statements_kept)

lemma integrity_kept: "ledger_kept (ensure_usage_integrity env)"
  unfolding ensure_usage_integrity_def stm_rel_def sql_def by (auto split: if_splits sum.splits prod.splits)

lemma acquire_writer_lease_rel:
  "stm_rel (acquire_writer_lease env writer wall) (\<lambda>t r t'.
     same_ledger t t' \<and> ut_gaps t' = ut_gaps t \<and>
     (\<forall>l. ut_lease t = Some l \<and> lease_alive env (wr_boot_id writer) l \<longrightarrow> r \<noteq> Ok () \<and> t' = t) \<and>
     (r = Ok () \<longrightarrow> ut_lease t' = Some \<lparr>ls_owner_pid = wr_pid writer, ls_owner_start_ticks = uint (wr_start_ticks writer),
        ls_owner_boot_id = wr_boot_id writer, ls_acquired_wall_utc_ms = wall\<rparr>))"
proof -
  let ?body = "u_bind (sql (\<lambda>t. Some (ut_lease t, t))) (\<lambda>existing.
       if is_some_and existing (lease_alive env (wr_boot_id writer))
       then u_lift (Err (WriterAlreadyActive (ls_owner_pid (the existing))))
       else u_bind (u_lift (sql_u64 (wr_start_ticks writer))) (\<lambda>ticks.
         sql (\<lambda>t. Some ((), t\<lparr>ut_lease := Some \<lparr>ls_owner_pid = wr_pid writer, ls_owner_start_ticks = ticks,
            ls_owner_boot_id = wr_boot_id writer, ls_acquired_wall_utc_ms = wall\<rparr>\<rparr>))))"
  have "stm_rel ?body (\<lambda>t r t'. r = Ok () \<longrightarrow> \<not> is_some_and (ut_lease t) (lease_alive env (wr_boot_id writer)) \<and>
      t' = t\<lparr>ut_lease := Some \<lparr>ls_owner_pid = wr_pid writer, ls_owner_start_ticks = uint (wr_start_ticks writer),
        ls_owner_boot_id = wr_boot_id writer, ls_acquired_wall_utc_ms = wall\<rparr>\<rparr>)"
    unfolding stm_rel_def
    by (auto simp: u_bind_def sql_def sql_u64_Ok u_lift_def split: if_splits sum.splits prod.splits)
  then show ?thesis
    unfolding acquire_writer_lease_def by (rule stm_rel_transaction) (auto simp: is_some_and_iff)
qed

text \<open>What a recovery leaves: every open interval is closed at its checkpoint, and if there was one,
  a gap is open.\<close>

definition recovered :: "i64 \<Rightarrow> usage_tables \<Rightarrow> usage_tables \<Rightarrow> bool" where
  "recovered wall t t' \<longleftrightarrow>
     ut_intervals t' = map (recover_row wall) (ut_intervals t) \<and>
     (\<forall>k. aggregate_table k t' = aggregate_table k t) \<and> ut_lease t' = ut_lease t \<and>
     (open_intervals t \<noteq> [] \<longrightarrow> list_ex open_gap (ut_gaps t'))"

lemma insert_open_gap_opens:
  "insert_gap pick (open_gap_row w d k reason n) t = Some (u, t') \<Longrightarrow>
     list_ex open_gap (ut_gaps t') \<and> same_ledger t t' \<and> ut_lease t' = ut_lease t"
  by (auto simp: insert_gap_def open_gap_row_def open_gap_def split: option.splits if_splits)

lemma mark_recovery_rel:
  "stm_rel (mark_recovery ch pick at earliest n) (\<lambda>t r t'.
     same_ledger t t' \<and> ut_lease t' = ut_lease t \<and> (r = Ok () \<longrightarrow> list_ex open_gap (ut_gaps t')))"
proof -
  have "stm_rel (count_recovered m) (\<lambda>t r t'. same_ledger t t' \<and> ut_lease t' = ut_lease t)" for m
    unfolding count_recovered_def by (rule stm_rel_sql) (auto split: if_splits)
  moreover have "stm_rel (sql (\<lambda>t. if list_ex open_gap (ut_gaps t) then Some ((), t)
         else insert_gap pick (open_gap_row w d k reason m) t)) (\<lambda>t r t'.
     same_ledger t t' \<and> ut_lease t' = ut_lease t \<and> (r = Ok () \<longrightarrow> list_ex open_gap (ut_gaps t')))" for w d k reason m
    by (rule stm_rel_sql) (auto split: if_splits dest: insert_open_gap_opens)
  ultimately have "stm_rel (u_bind (count_recovered m) (\<lambda>_. sql (\<lambda>t. if list_ex open_gap (ut_gaps t) then Some ((), t)
         else insert_gap pick (open_gap_row w d k reason m) t))) (\<lambda>t r t'.
     same_ledger t t' \<and> ut_lease t' = ut_lease t \<and> (r = Ok () \<longrightarrow> list_ex open_gap (ut_gaps t')))" for w d k reason m
    by (rule stm_rel_bind) (auto intro: same_ledger_trans)
  then show ?thesis
    unfolding mark_recovery_def Let_def stm_rel_def
    by (auto simp: u_bind_def [of "u_lift _"] u_lift_def split: sum.splits prod.splits)
qed

lemma recover_open_intervals_rel:
  assumes "recover_open_intervals ch pick at db = (Ok n, db')"
  shows "recovered (cs_wall_utc_ms at) (fst db) (fst db')"
proof -
  let ?t0 = "fst db"
  let ?t1 = "?t0\<lparr>ut_intervals := map (recover_row (cs_wall_utc_ms at)) (ut_intervals ?t0)\<rparr>"
  from transaction_Ok [OF assms [unfolded recover_open_intervals_def]] obtain fs fs' where
    "u_bind (sql (\<lambda>t. Some (min_option (map fi_last_checkpoint_wall_utc_ms
          (filter (\<lambda>r. fi_state r = IntervalOpen) (ut_intervals t))), t))) (\<lambda>earliest.
       u_bind (sql (\<lambda>t. Some (length (filter (\<lambda>r. fi_state r = IntervalOpen) (ut_intervals t)),
          t\<lparr>ut_intervals := map (recover_row (cs_wall_utc_ms at)) (ut_intervals t)\<rparr>))) (\<lambda>recovered.
       u_bind (if 0 < recovered then mark_recovery ch pick at earliest recovered else u_lift (Ok ())) (\<lambda>_.
       u_lift (Ok recovered)))) (?t0, fs) = (Ok n, (fst db', fs'))" .
  then obtain e fs1 where
    m: "(if 0 < length (open_intervals ?t0) then mark_recovery ch pick at e (length (open_intervals ?t0)) else u_lift (Ok ()))
       (?t1, fs1) = (Ok (), (fst db', fs'))"
    by (auto elim!: u_bind_Ok simp: sql_def open_intervals_def split: if_splits)
  show ?thesis
  proof (cases "open_intervals ?t0 = []")
    case True
    then show ?thesis using m by (auto simp: recovered_def)
  next
    case False
    then have "mark_recovery ch pick at e (length (open_intervals ?t0)) (?t1, fs1) = (Ok (), (fst db', fs'))"
      using m by simp
    from stm_relD [OF mark_recovery_rel this] show ?thesis by (simp add: recovered_def same_ledger_def)
  qed
qed

section \<open>Properties\<close>

lemma recover_row_fields:
  "fi_state (recover_row w r) \<noteq> IntervalOpen" "fi_duration_ns (recover_row w r) = fi_duration_ns r"
  "fi_app_id (recover_row w r) = fi_app_id r"
  "fi_last_checkpoint_monotonic_ns (recover_row w r) = fi_last_checkpoint_monotonic_ns r"
  "fi_started_monotonic_ns (recover_row w r) = fi_started_monotonic_ns r"
  by (simp_all add: recover_row_def)

lemma usage_open_Ok:
  assumes "usage_open ch env at db = (Ok w, db')"
  obtains db1 db2 where "same_ledger (fst db) (fst db1)" "ue_writer env = Ok w"
    "acquire_writer_lease env w (cs_wall_utc_ms at) db1 = (Ok (), db2)"
    "recovered (cs_wall_utc_ms at) (fst db2) (fst db')"
proof -
  obtain a b c db1 db2 n where s: "pragma db = (Ok (), a)" "pragma a = (Ok (), b)" "ensure_usage_integrity env b = (Ok (), c)"
    "migrate_usage_schema ch env at c = (Ok (), db1)" "ue_writer env = Ok w"
    "acquire_writer_lease env w (cs_wall_utc_ms at) db1 = (Ok (), db2)"
    "recover_open_intervals ch (ue_pick env) at db2 = (Ok n, db')"
    using assms unfolding usage_open_def by (auto elim!: u_bind_Ok split: sum.splits prod.splits)
  have "same_ledger (fst db) (fst db1)"
    using stm_relD [OF schema_statements_kept(1) s(1)] stm_relD [OF schema_statements_kept(1) s(2)]
      stm_relD [OF integrity_kept s(3)] stm_relD [OF migrate_kept s(4)] by (metis same_ledger_trans)
  then show ?thesis using that s(5,6) recover_open_intervals_rel [OF s(7)] by blast
qed

text \<open>C31: a store that opens has recovered from any crash: no interval is open, every duration and every
  aggregate is as it was, a ledger that was balanced still is, an interval found open has left an
  open gap, and the lease is the opening writer's.\<close>

theorem usage_open_recovers:
  assumes "usage_open ch env at db = (Ok w, db')"
  shows "open_intervals (fst db') = [] \<and> same_booking (fst db) (fst db') \<and>
         (balanced (fst db) \<longrightarrow> balanced (fst db')) \<and>
         (open_intervals (fst db) \<noteq> [] \<longrightarrow> list_ex open_gap (ut_gaps (fst db'))) \<and>
         ut_lease (fst db') = Some \<lparr>ls_owner_pid = wr_pid w, ls_owner_start_ticks = uint (wr_start_ticks w),
           ls_owner_boot_id = wr_boot_id w, ls_acquired_wall_utc_ms = cs_wall_utc_ms at\<rparr>"
proof -
  from usage_open_Ok [OF assms] obtain db1 db2 where
    s: "same_ledger (fst db) (fst db1)" "acquire_writer_lease env w (cs_wall_utc_ms at) db1 = (Ok (), db2)"
      "recovered (cs_wall_utc_ms at) (fst db2) (fst db')" by blast
  have a: "same_ledger (fst db) (fst db2)" "ut_lease (fst db2) = Some \<lparr>ls_owner_pid = wr_pid w,
      ls_owner_start_ticks = uint (wr_start_ticks w), ls_owner_boot_id = wr_boot_id w,
      ls_acquired_wall_utc_ms = cs_wall_utc_ms at\<rparr>"
    using stm_relD [OF acquire_writer_lease_rel s(2)] s(1) by (auto intro: same_ledger_trans)
  have m: "map fi_duration_ns (map (recover_row v) rs) = map fi_duration_ns rs" for v rs
    by (simp add: recover_row_fields)
  have "open_intervals (fst db') = []"
    using s(3) by (simp add: recovered_def open_intervals_def filter_empty_conv recover_row_fields)
  moreover have "same_booking (fst db) (fst db')"
    using a(1) s(3) by (simp add: same_booking_def same_ledger_def recovered_def m del: map_map)
  moreover have "balanced (fst db')" if "balanced (fst db)"
    using that a(1) s(3)
    by (auto simp: balanced_def same_ledger_def recovered_def recover_row_fields booked_raw_map)
  moreover have "list_ex open_gap (ut_gaps (fst db'))" if "open_intervals (fst db) \<noteq> []"
    using that a(1) s(3) by (simp add: recovered_def same_ledger_def open_intervals_def)
  ultimately show ?thesis using a(2) s(3) by (simp add: recovered_def)
qed

text \<open>A lease of a live writer is never taken over.\<close>

lemma live_lease_blocks:
  assumes "ut_lease (fst db) = Some l" "lease_alive env (wr_boot_id w) l"
    "acquire_writer_lease env w wall db = (r, db')"
  shows "r \<noteq> Ok () \<and> fst db' = fst db"
  using stm_relD [OF acquire_writer_lease_rel assms(3)] assms(1,2) by blast

definition sample_usage_env :: usage_env where
  "sample_usage_env = \<lparr>ue_pick = (\<lambda>_. None), ue_start_ticks = (\<lambda>_. Err IoError),
     ue_writer = Ok \<lparr>wr_pid = 42, wr_start_ticks = 1000, wr_boot_id = ''boot-a''\<rparr>,
     ue_backup = (\<lambda>_. Ok ()), ue_quick_check_ok = True\<rparr>"

lemma civil_gap_keys: "\<bar>cs_wall_utc_ms s\<bar> \<le> 8000000000000000 \<Longrightarrow> \<bar>cs_utc_offset_seconds s\<bar> < 86400 \<Longrightarrow>
    \<exists>d k. gap_bucket_keys civil s = Ok (d, k)"
  by (simp add: gap_bucket_keys_def for_sample_def local_datetime_def local_summary_identity_def civil_ops Let_def)

lemma crash_recovery_length: "sql_length ''crash_recovery'' = 14"
  by (simp add: sql_length_def utf8_cont_def)

lemma sample_usage_open:
  "\<exists>db'. usage_open civil sample_usage_env (sample_at 5 1767225601500)
     (empty_tables\<lparr>ut_intervals := [sample_row]\<rparr>, []) =
     (Ok \<lparr>wr_pid = 42, wr_start_ticks = 1000, wr_boot_id = ''boot-a''\<rparr>, db')"
proof -
  obtain d k where g: "gap_bucket_keys civil (sample_at 5 1767225601500\<lparr>cs_wall_utc_ms := 1767225599500\<rparr>) = Ok (d, k)"
    using civil_gap_keys [of "sample_at 5 1767225601500\<lparr>cs_wall_utc_ms := 1767225599500\<rparr>"] by (auto simp: sample_at_def)
  note eval = usage_open_def u_bind_def pragma_def sql_def ensure_usage_integrity_def migrate_usage_schema_def
    sample_usage_env_def empty_tables_def USAGE_STORE_SCHEMA_VERSION_def u_lift_def acquire_writer_lease_def
    immediate_def sql_u64_def i64_of_u64_def i64_max_def recover_open_intervals_def mark_recovery_def
    min_option_def sample_row_def count_recovered_def i64_checked_def i64_min_def
    insert_gap_def next_rowid_def open_gap_row_def open_gap_def crash_recovery_length
  show ?thesis
    by (simp add: eval) (simp add: eval sample_at_def g [unfolded sample_at_def, simplified])
qed

theorem usage_open_recovers_witness:
  "\<exists>w db'. usage_open civil sample_usage_env (sample_at 5 1767225601500)
     (empty_tables\<lparr>ut_intervals := [sample_row]\<rparr>, []) = (Ok w, db') \<and>
     open_intervals (fst db') = [] \<and> list_ex open_gap (ut_gaps (fst db'))"
proof -
  have "open_intervals (empty_tables\<lparr>ut_intervals := [sample_row]\<rparr>) \<noteq> []"
    by (simp add: open_intervals_def sample_row_def)
  then show ?thesis
    using sample_usage_open usage_open_recovers [of civil sample_usage_env "sample_at 5 1767225601500"
        "(empty_tables\<lparr>ut_intervals := [sample_row]\<rparr>, [])"] by fastforce
qed

end
