(* ===== verification/Usage_Queries.thy ===== *)
theory Usage_Queries
  imports Usage_Store
begin

text \<open>
  The read side of the usage database (crates/usage/src/store.rs): the bounded summaries of a daily or
  weekly bucket and the coverage state, with SQLite's ordering, limits and sums written out. Shown: a
  summary is the ranking of exactly the matching rows, cut at the bound and marked when it is;
  retention never removes a gap before the aggregates it makes partial; and a gap recorded
  over a clock that was set back across midnight is reported for no day.
\<close>

section \<open>Summaries\<close>

record aggregate_entry =
  ae_app_id :: string
  ae_duration_ns :: u64

record aggregate_query =
  aq_entries :: "aggregate_entry list"
  aq_truncated :: bool

record segmented_entry =
  se_app_id :: string
  se_bucket_key :: string
  se_timezone_id :: string
  se_utc_offset_seconds :: int
  se_bucket_start_utc_ms :: i64
  se_last_wall_utc_ms :: i64
  se_duration_ns :: u64

record segmented_query =
  sq_entries :: "segmented_entry list"
  sq_truncated :: bool

fun summary_table :: "summary_kind \<Rightarrow> aggregate_kind" where
  "summary_table DailySummary = DailyAggregate"
| "summary_table WeeklySummary = WeeklyAggregate"

definition aggregate_duration_ns :: "aggregate_kind \<Rightarrow> string \<Rightarrow> string \<Rightarrow> u64 usage_stm" where
  "aggregate_duration_ns kind app_id key =
     u_bind (sql (\<lambda>t. let s = (\<Sum>r \<leftarrow> filter (\<lambda>r. ag_app_id r = app_id \<and> ag_bucket_key r = key)
                              (aggregate_table kind t). ag_duration_ns r)
                    in if i64_max < s then None else Some (s, t))) (\<lambda>value.
     u_lift (ok_or (u64_of_i64 value) NumericOverflow))"

fun aggregate_entries :: "aggregate_row list \<Rightarrow> (usage_store_error, aggregate_entry list) result" where
  "aggregate_entries [] = Ok []"
| "aggregate_entries (r # rs) =
     and_then (validate_stored_app_id (ag_app_id r)) (\<lambda>_.
     and_then (ok_or (u64_of_i64 (ag_duration_ns r)) NumericOverflow) (\<lambda>d.
     and_then (aggregate_entries rs) (\<lambda>es.
     Ok (\<lparr>ae_app_id = ag_app_id r, ae_duration_ns = d\<rparr> # es))))"

text \<open>\<open>WHERE .. ORDER BY duration_ns DESC, app_id ASC LIMIT 1025\<close>; text compares bytewise.\<close>

definition bucket_rows :: "summary_bucket \<Rightarrow> aggregate_row list \<Rightarrow> aggregate_row list" where
  "bucket_rows b rs = filter (\<lambda>r. ag_bucket_key r = sb_bucket_key b \<and> ag_timezone_id r = sb_timezone_id b \<and>
     ag_utc_offset_seconds r = sb_utc_offset_seconds b \<and> ag_bucket_start_utc_ms r = sb_bucket_start_utc_ms b) rs"

definition query_aggregates_for_bucket :: "summary_bucket \<Rightarrow> aggregate_query usage_stm" where
  "query_aggregates_for_bucket bucket =
     u_bind (sql (\<lambda>t. Some (take (MAX_SUMMARY_APPLICATIONS + 1)
       (sort_key (\<lambda>r. (- ag_duration_ns r, ag_app_id r))
          (bucket_rows bucket (aggregate_table (summary_table (sb_kind bucket)) t))), t))) (\<lambda>rows.
     u_bind (u_lift (aggregate_entries rows)) (\<lambda>entries.
     u_lift (Ok \<lparr>aq_entries = take MAX_SUMMARY_APPLICATIONS entries,
                 aq_truncated = (MAX_SUMMARY_APPLICATIONS < length entries)\<rparr>)))"

fun segment_entries :: "aggregate_row list \<Rightarrow> (usage_store_error, segmented_entry list) result" where
  "segment_entries [] = Ok []"
| "segment_entries (r # rs) =
     and_then (if is_i32 (ag_utc_offset_seconds r) then Ok () else Err SqliteError) (\<lambda>_.
     and_then (validate_stored_app_id (ag_app_id r)) (\<lambda>_.
     and_then (if ag_timezone_id r = [] \<or> 128 < length (ag_timezone_id r) \<or> CHR 0x00 \<in> set (ag_timezone_id r)
               then Err InvalidTimezoneId else Ok ()) (\<lambda>_.
     and_then (ok_or (u64_of_i64 (ag_duration_ns r)) NumericOverflow) (\<lambda>d.
     and_then (segment_entries rs) (\<lambda>es.
     Ok (\<lparr>se_app_id = ag_app_id r, se_bucket_key = ag_bucket_key r, se_timezone_id = ag_timezone_id r,
          se_utc_offset_seconds = ag_utc_offset_seconds r, se_bucket_start_utc_ms = ag_bucket_start_utc_ms r,
          se_last_wall_utc_ms = ag_last_wall_utc_ms r, se_duration_ns = d\<rparr> # es))))))"

definition query_aggregate_segments_for_key :: "summary_kind \<Rightarrow> string \<Rightarrow> segmented_query usage_stm" where
  "query_aggregate_segments_for_key kind key =
     u_bind (u_lift (validate_bucket_key kind key)) (\<lambda>_.
     u_bind (sql (\<lambda>t. Some (take (MAX_SUMMARY_APPLICATIONS + 1)
       (sort_key (\<lambda>r. (- ag_duration_ns r, ag_app_id r, ag_timezone_id r, ag_utc_offset_seconds r, ag_bucket_start_utc_ms r))
          (filter (\<lambda>r. ag_bucket_key r = key) (aggregate_table (summary_table kind) t))), t))) (\<lambda>rows.
     u_bind (u_lift (segment_entries rows)) (\<lambda>entries.
     u_lift (Ok \<lparr>sq_entries = take MAX_SUMMARY_APPLICATIONS entries,
                 sq_truncated = (MAX_SUMMARY_APPLICATIONS < length entries)\<rparr>))))"

section \<open>Coverage\<close>

record usage_coverage_state =
  uc_event_gap_count :: u64
  uc_recovered_interval_count :: u64
  uc_last_gap_wall_utc_ms :: "i64 option"
  uc_last_gap_reason :: "string option"
  uc_tracking_started_wall_utc_ms :: "i64 option"
  uc_tracking_start_daily_key :: "string option"
  uc_tracking_start_weekly_key :: "string option"

text \<open>\<open>WHERE start_key <= ?1 AND (end_key IS NULL OR end_key >= ?1)\<close>\<close>

fun gap_touches :: "(summary_kind \<times> string) option \<Rightarrow> gap_row \<Rightarrow> bool" where
  "gap_touches None g = True"
| "gap_touches (Some (DailySummary, key)) g =
     (gp_start_daily_key g \<le> key \<and> is_none_or (gp_end_daily_key g) (\<lambda>e. key \<le> e))"
| "gap_touches (Some (WeeklySummary, key)) g =
     (gp_start_weekly_key g \<le> key \<and> is_none_or (gp_end_weekly_key g) (\<lambda>e. key \<le> e))"

definition gap_wall :: "gap_row \<Rightarrow> i64" where
  "gap_wall g = (case gp_ended_wall_utc_ms g of Some e \<Rightarrow> e | None \<Rightarrow> gp_started_wall_utc_ms g)"

definition max_option :: "i64 list \<Rightarrow> i64 option" where
  "max_option xs = (if xs = [] then None else Some (Max (set xs)))"

definition sum_fits :: "i64 list \<Rightarrow> bool" where
  "sum_fits xs = (sum_list xs \<le> i64_max)"

definition query_coverage_state_filtered ::
  "(summary_kind \<times> string) option \<Rightarrow> usage_coverage_state usage_stm" where
  "query_coverage_state_filtered bucket =
     u_bind (sql (\<lambda>t. let gs = filter (gap_touches bucket) (ut_gaps t) in
        if sum_fits (map gp_occurrence_count gs) \<and> sum_fits (map gp_recovered_interval_count gs)
        then Some ((sum_list (map gp_occurrence_count gs), sum_list (map gp_recovered_interval_count gs),
                    max_option (map gap_wall gs)), t)
        else None)) (\<lambda>(events, recovered, last_wall).
     u_bind (case last_wall of
               None \<Rightarrow> u_lift (Ok None)
             | Some _ \<Rightarrow> sql (\<lambda>t. Some (case sort_key (\<lambda>g. (- gap_wall g, - gp_id g))
                    (filter (gap_touches bucket) (ut_gaps t)) of [] \<Rightarrow> None | g # _ \<Rightarrow> Some (gp_reason g), t))) (\<lambda>reason.
     u_bind (sql (\<lambda>t. Some (ut_epoch t, t))) (\<lambda>epoch.
     u_bind (u_lift (ok_or (u64_of_i64 events) NumericOverflow)) (\<lambda>event_count.
     u_bind (u_lift (ok_or (u64_of_i64 recovered) NumericOverflow)) (\<lambda>recovered_count.
     u_lift (Ok \<lparr>uc_event_gap_count = event_count, uc_recovered_interval_count = recovered_count,
        uc_last_gap_wall_utc_ms = last_wall, uc_last_gap_reason = reason,
        uc_tracking_started_wall_utc_ms = map_option fst epoch,
        uc_tracking_start_daily_key = map_option (fst \<circ> snd) epoch,
        uc_tracking_start_weekly_key = map_option (snd \<circ> snd) epoch\<rparr>))))))"

definition query_coverage_state :: "usage_coverage_state usage_stm" where
  "query_coverage_state = query_coverage_state_filtered None"

definition query_coverage_state_for_bucket :: "summary_kind \<Rightarrow> string \<Rightarrow> usage_coverage_state usage_stm" where
  "query_coverage_state_for_bucket kind key =
     u_bind (u_lift (validate_bucket_key kind key)) (\<lambda>_. query_coverage_state_filtered (Some (kind, key)))"

section \<open>The summaries rank exactly the matching rows\<close>

lemma u64_of_i64_Some: "u64_of_i64 i = Some d \<Longrightarrow> i \<le> i64_max \<Longrightarrow> uint d = i"
  by (auto simp: u64_of_i64_def i64_max_def uint_word_of_int split: if_splits)

lemma aggregate_entries_Ok:
  "aggregate_entries rs = Ok es \<Longrightarrow> \<forall>r \<in> set rs. ag_duration_ns r \<le> i64_max \<Longrightarrow>
     map (\<lambda>e. (ae_app_id e, uint (ae_duration_ns e))) es = map (\<lambda>r. (ag_app_id r, ag_duration_ns r)) rs"
  by (induction rs arbitrary: es) (auto simp: and_then_eq_Ok u64_of_i64_Some)

lemma query_keeps:
  "query_aggregates_for_bucket b db = (r, db') \<Longrightarrow> fst db' = fst db"
  by (auto simp: query_aggregates_for_bucket_def u_bind_def u_lift_def sql_def
      split: if_splits sum.splits prod.splits)

text \<open>A summary is the ranking of the bucket's rows by duration, then application, cut at 1024, and says
  whether it was cut.\<close>

lemma summary_ranks:
  assumes "query_aggregates_for_bucket b db = (Ok q, db')" "schema_ok (fst db)"
  defines "rows \<equiv> sort_key (\<lambda>r. (- ag_duration_ns r, ag_app_id r))
                  (bucket_rows b (aggregate_table (summary_table (sb_kind b)) (fst db)))"
  shows "map (\<lambda>e. (ae_app_id e, uint (ae_duration_ns e))) (aq_entries q) =
           map (\<lambda>r. (ag_app_id r, ag_duration_ns r)) (take MAX_SUMMARY_APPLICATIONS rows)"
    "aq_truncated q \<longleftrightarrow> MAX_SUMMARY_APPLICATIONS < length rows"
proof -
  obtain es where es: "aggregate_entries (take (MAX_SUMMARY_APPLICATIONS + 1) rows) = Ok es"
    "q = \<lparr>aq_entries = take MAX_SUMMARY_APPLICATIONS es, aq_truncated = (MAX_SUMMARY_APPLICATIONS < length es)\<rparr>"
    using assms(1) unfolding rows_def
    by (auto simp: query_aggregates_for_bucket_def u_bind_def u_lift_def sql_def
        split: if_splits sum.splits prod.splits)
  have "\<forall>r \<in> set (take (MAX_SUMMARY_APPLICATIONS + 1) rows). ag_duration_ns r \<le> i64_max"
    using assms(2) unfolding rows_def
    by (auto simp: schema_ok_def aggregate_ok_def bucket_rows_def dest!: in_set_takeD)
  note e = aggregate_entries_Ok [OF es(1) this]
  have "take MAX_SUMMARY_APPLICATIONS (map (\<lambda>e. (ae_app_id e, uint (ae_duration_ns e))) es) =
        take MAX_SUMMARY_APPLICATIONS (map (\<lambda>r. (ag_app_id r, ag_duration_ns r)) (take (MAX_SUMMARY_APPLICATIONS + 1) rows))"
    using e by simp
  then show "map (\<lambda>e. (ae_app_id e, uint (ae_duration_ns e))) (aq_entries q) =
           map (\<lambda>r. (ag_app_id r, ag_duration_ns r)) (take MAX_SUMMARY_APPLICATIONS rows)"
    using es(2) by (simp add: take_map)
  show "aq_truncated q \<longleftrightarrow> MAX_SUMMARY_APPLICATIONS < length rows"
    using arg_cong [OF e, of length] es(2) by auto
qed

section \<open>A clock set back across midnight\<close>

text \<open>The row \<open>record_gap_interval\<close> writes when the day of its end is before the day of its start
  touches no day at all.\<close>

lemma backward_gap_touches_nothing:
  "gp_end_daily_key g = Some e \<Longrightarrow> e < gp_start_daily_key g \<Longrightarrow> \<not> gap_touches (Some (DailySummary, key)) g"
  by auto

text \<open>A gap recorded over a wall clock that was set back to an earlier day is stored but reported for no
  day: the coverage of every day is computed from the same gaps as before.\<close>

theorem backward_gap_unseen:
  assumes "record_gap_interval ch pick reason start end_s db = (Ok (), db')"
    "gap_bucket_keys ch start = Ok (start_day, start_week)" "gap_bucket_keys ch end_s = Ok (end_day, end_week)"
    "end_day < start_day"
  shows "length (ut_gaps (fst db')) = Suc (length (ut_gaps (fst db))) \<and>
    (\<forall>key. filter (gap_touches (Some (DailySummary, key))) (ut_gaps (fst db')) =
           filter (gap_touches (Some (DailySummary, key))) (ut_gaps (fst db)))"
proof -
  obtain g where "ut_gaps (fst db') = ut_gaps (fst db) @ [g]" "gp_start_daily_key g = start_day"
    "gp_end_daily_key g = Some end_day"
    using assms by (auto simp: record_gap_interval_def u_bind_def u_lift_def sql_def insert_gap_def
        split: if_splits sum.splits prod.splits option.splits)
  with assms(4) show ?thesis by auto
qed

lemma new_year_keys:
  "gap_bucket_keys civil (sample_at 0 1767225600500) = Ok (''2026-01-01'', ''2026-W01'')"
  "gap_bucket_keys civil (sample_at 5 1767225599500) = Ok (''2025-12-31'', ''2026-W01'')"
  by (simp_all add: gap_bucket_keys_def for_sample_def local_datetime_def local_summary_identity_def sample_at_def
      civil_eval Let_def)

lemma new_year_gap:
  "\<exists>db'. record_gap_interval civil (\<lambda>_. None) ''x'' (sample_at 0 1767225600500) (sample_at 5 1767225599500)
     (empty_tables, []) = (Ok (), db')"
  by (simp add: record_gap_interval_def u_bind_def u_lift_def sql_def insert_gap_def validate_gap_reason_def
      new_year_keys empty_tables_def next_rowid_def open_gap_def sql_length_def utf8_cont_def)

theorem backward_gap_unseen_witness:
  "\<exists>db'. record_gap_interval civil (\<lambda>_. None) ''x'' (sample_at 0 1767225600500) (sample_at 5 1767225599500)
     (empty_tables, []) = (Ok (), db') \<and> length (ut_gaps (fst db')) = 1 \<and>
     filter (gap_touches (Some (DailySummary, ''2025-12-31''))) (ut_gaps (fst db')) = []"
proof -
  obtain db' where d: "record_gap_interval civil (\<lambda>_. None) ''x'' (sample_at 0 1767225600500) (sample_at 5 1767225599500)
     (empty_tables, []) = (Ok (), db')" using new_year_gap by blast
  from backward_gap_unseen [OF d new_year_keys] have "length (ut_gaps (fst db')) = 1"
    "filter (gap_touches (Some (DailySummary, ''2025-12-31''))) (ut_gaps (fst db')) = []"
    by (simp_all add: empty_tables_def less_char_def)
  then show ?thesis using d by blast
qed

section \<open>Retention\<close>

text \<open>
  Keys as day numbers. An aggregate of the daily table lies on the local day of its key: its last
  instant is that day at the offset of the row. The end key of a gap is the local day, at some
  offset, of an instant no later than its recorded end. Byte order of keys is the order of
  their days.
\<close>

definition day_of :: "i64 \<Rightarrow> int \<Rightarrow> int" where
  "day_of wall offset = (wall + offset * 1000) div DAY_MS"

definition daily_row_ok :: "(string \<Rightarrow> int) \<Rightarrow> aggregate_row \<Rightarrow> bool" where
  "daily_row_ok dayno r \<longleftrightarrow> \<bar>ag_utc_offset_seconds r\<bar> < 86400 \<and>
     dayno (ag_bucket_key r) = day_of (ag_last_wall_utc_ms r - 1) (ag_utc_offset_seconds r)"

definition daily_gap_ok :: "(string \<Rightarrow> int) \<Rightarrow> gap_row \<Rightarrow> bool" where
  "daily_gap_ok dayno g \<longleftrightarrow> (\<forall>e k. gp_ended_wall_utc_ms g = Some e \<longrightarrow> gp_end_daily_key g = Some k \<longrightarrow>
     (\<exists>w offset. w \<le> e \<and> \<bar>offset\<bar> < 86400 \<and> dayno k = day_of w offset))"

definition keys_ordered :: "(string \<Rightarrow> int) \<Rightarrow> usage_tables \<Rightarrow> bool" where
  "keys_ordered dayno t \<longleftrightarrow> (\<forall>r \<in> set (ut_daily t). \<forall>g \<in> set (ut_gaps t). \<forall>k.
     gp_end_daily_key g = Some k \<longrightarrow> ag_bucket_key r \<le> k \<longrightarrow> dayno (ag_bucket_key r) \<le> dayno k)"

text \<open>Instants on local days in order, at any two offsets, are less than three days apart.\<close>

lemma day_of_order:
  assumes "day_of x o1 \<le> day_of y o2" "\<bar>o1\<bar> < 86400" "\<bar>o2\<bar> < 86400"
  shows "x < y + 3 * DAY_MS"
proof -
  have "x + o1 * 1000 < (day_of x o1 + 1) * DAY_MS"
    using div_mult_mod_eq [of "x + o1 * 1000" 86400000] pos_mod_bound [of 86400000 "x + o1 * 1000"]
    unfolding day_of_def DAY_MS_def by (simp add: algebra_simps)
  also have "\<dots> \<le> (day_of y o2 + 1) * DAY_MS"
    using assms(1) by (simp add: DAY_MS_def)
  also have "\<dots> \<le> y + o2 * 1000 + DAY_MS"
    using div_mult_mod_eq [of "y + o2 * 1000" 86400000] pos_mod_sign [of 86400000 "y + o2 * 1000"]
    unfolding day_of_def DAY_MS_def by (simp add: algebra_simps)
  finally show ?thesis using assms(2,3) unfolding DAY_MS_def abs_less_iff by linarith
qed

lemma cutoff_days_Ok: "cutoff_days now days = Ok c \<Longrightarrow> c = now - uint days * DAY_MS"
  by (auto simp: cutoff_days_def and_then_eq_Ok i64_checked_def split: if_splits)

lemma coverage_days_ge:
  assumes "checked_add d DAILY_COVERAGE_BOUNDARY_DAYS = Some x"
  shows "uint d + 3 \<le> uint (max x y)"
proof -
  have "unat x = unat d + 3"
    using assms checked_add_Some [of d 3 x] by (auto simp: DAILY_COVERAGE_BOUNDARY_DAYS_def)
  moreover have "unat x \<le> unat (max x y)" by (simp add: max_def word_le_nat_alt)
  ultimately have "unat d + 3 \<le> unat (max x y)" by simp
  then have "int (unat d + 3) \<le> int (unat (max x y))" by (simp only: of_nat_le_iff)
  then show ?thesis by simp
qed

lemma delete_older_than_Ok:
  "delete_older_than k c db = (Ok (), db') \<Longrightarrow>
     fst db' = set_aggregate_table k (filter (\<lambda>r. \<not> ag_last_wall_utc_ms r < c) (aggregate_table k (fst db))) (fst db)"
  by (auto simp: delete_older_than_def sql_def split: if_splits)

lemma sql_Some_Ok:
  "sql (\<lambda>t. Some ((), f t)) db = (Ok u, db') \<Longrightarrow> fst db' = f (fst db)"
  by (auto simp: sql_def split: if_splits)

lemma apply_retention_Ok:
  assumes "apply_retention now policy db = (Ok (), db')"
  shows "ut_daily (fst db') = filter (\<lambda>r. \<not> ag_last_wall_utc_ms r < now - uint (rp_daily_days policy) * DAY_MS) (ut_daily (fst db))"
    "\<exists>coverage. uint (rp_daily_days policy) + 3 \<le> coverage \<and> ut_gaps (fst db') =
       filter (\<lambda>g. \<not> is_some_and (gp_ended_wall_utc_ms g) (\<lambda>e. e < now - coverage * DAY_MS)) (ut_gaps (fst db))"
proof -
  have "ut_daily (fst db') = filter (\<lambda>r. \<not> ag_last_wall_utc_ms r < now - uint (rp_daily_days policy) * DAY_MS) (ut_daily (fst db)) \<and>
    (\<exists>coverage. uint (rp_daily_days policy) + 3 \<le> coverage \<and> ut_gaps (fst db') =
       filter (\<lambda>g. \<not> is_some_and (gp_ended_wall_utc_ms g) (\<lambda>e. e < now - coverage * DAY_MS)) (ut_gaps (fst db)))"
    by (rule transaction_Ok [OF assms [unfolded apply_retention_def]], elim u_bind_Ok)
       (auto dest!: cutoff_days_Ok delete_older_than_Ok sql_Some_Ok, blast intro: coverage_days_ge)
  then show "ut_daily (fst db') = filter (\<lambda>r. \<not> ag_last_wall_utc_ms r < now - uint (rp_daily_days policy) * DAY_MS) (ut_daily (fst db))"
    "\<exists>coverage. uint (rp_daily_days policy) + 3 \<le> coverage \<and> ut_gaps (fst db') =
       filter (\<lambda>g. \<not> is_some_and (gp_ended_wall_utc_ms g) (\<lambda>e. e < now - coverage * DAY_MS)) (ut_gaps (fst db))"
    by blast+
qed

text \<open>Retention never removes a coverage gap before the daily aggregates it makes partial: after it, a
  gap that touches the day of a remaining aggregate remains, at whatever offsets the two were
  recorded.\<close>

theorem retention_keeps_coverage:
  assumes "apply_retention now policy db = (Ok (), db')" "keys_ordered dayno (fst db)"
    "\<forall>r \<in> set (ut_daily (fst db)). daily_row_ok dayno r" "\<forall>g \<in> set (ut_gaps (fst db)). daily_gap_ok dayno g"
    "r \<in> set (ut_daily (fst db'))" "g \<in> set (ut_gaps (fst db))"
    "gp_ended_wall_utc_ms g = None \<or> gp_end_daily_key g \<noteq> None"
    "gap_touches (Some (DailySummary, ag_bucket_key r)) g"
  shows "g \<in> set (ut_gaps (fst db'))"
proof (cases "gp_ended_wall_utc_ms g")
  case None
  then show ?thesis using apply_retention_Ok(2) [OF assms(1)] assms(6) by auto
next
  case (Some e)
  obtain k where k: "gp_end_daily_key g = Some k" "ag_bucket_key r \<le> k" using assms(7,8) Some by auto
  have r: "r \<in> set (ut_daily (fst db))" "now - uint (rp_daily_days policy) * DAY_MS \<le> ag_last_wall_utc_ms r"
    using assms(5) apply_retention_Ok(1) [OF assms(1)] by auto
  obtain w off where w: "w \<le> e" "\<bar>off\<bar> < 86400" "dayno k = day_of w off"
    using assms(4,6) Some k(1) unfolding daily_gap_ok_def by blast
  have "dayno (ag_bucket_key r) \<le> dayno k"
    using assms(2,6) r(1) k unfolding keys_ordered_def by blast
  then have "ag_last_wall_utc_ms r - 1 < w + 3 * DAY_MS"
    using day_of_order [of "ag_last_wall_utc_ms r - 1" "ag_utc_offset_seconds r" w off] assms(3) r(1) w(2,3)
    by (auto simp: daily_row_ok_def)
  then have lw: "ag_last_wall_utc_ms r \<le> e + 3 * DAY_MS" using w(1) by linarith
  obtain c where c: "uint (rp_daily_days policy) + 3 \<le> c" "ut_gaps (fst db') =
       filter (\<lambda>g. \<not> is_some_and (gp_ended_wall_utc_ms g) (\<lambda>e. e < now - c * DAY_MS)) (ut_gaps (fst db))"
    using apply_retention_Ok(2) [OF assms(1)] by blast
  have "(uint (rp_daily_days policy) + 3) * DAY_MS \<le> c * DAY_MS"
    using c(1) by (simp add: DAY_MS_def)
  then have "\<not> e < now - c * DAY_MS"
    using r(2) lw by (simp add: algebra_simps)
  then show ?thesis using c(2) assms(6) Some by simp
qed

text \<open>A gap that ended in the evening of a day, an aggregate of that day recorded 23 hours east, and a
  retention run that keeps the aggregate only just.\<close>

definition old_gap :: gap_row where
  "old_gap = \<lparr>gp_id = 1, gp_started_wall_utc_ms = 0, gp_ended_wall_utc_ms = Some 1000,
     gp_start_daily_key = ''1970-01-01'', gp_end_daily_key = Some ''1970-01-01'', gp_start_weekly_key = ''1970-W01'',
     gp_end_weekly_key = Some ''1970-W01'', gp_reason = ''event_gap'', gp_occurrence_count = 1,
     gp_recovered_interval_count = 0\<rparr>"

definition old_aggregate :: aggregate_row where
  "old_aggregate = \<lparr>ag_app_id = ''term'', ag_bucket_key = ''1970-01-01'', ag_timezone_id = ''UTC'',
     ag_utc_offset_seconds = 0, ag_bucket_start_utc_ms = 0, ag_last_wall_utc_ms = 86400000, ag_duration_ns = 5\<rparr>"

definition old_tables :: usage_tables where
  "old_tables = empty_tables\<lparr>ut_daily := [old_aggregate], ut_gaps := [old_gap]\<rparr>"

lemma old_retention:
  "\<exists>db'. apply_retention (401 * 86400000) default_retention (old_tables, []) = (Ok (), db') \<and>
      old_aggregate \<in> set (ut_daily (fst db'))"
  by (simp add: apply_retention_def immediate_def u_bind_def u_lift_def sql_def cutoff_days_def i64_checked_def
      i64_min_def i64_max_def DAY_MS_def default_retention_def delete_older_than_def checked_mul_def checked_add_def
      DAILY_COVERAGE_BOUNDARY_DAYS_def WEEKLY_COVERAGE_BOUNDARY_DAYS_def old_tables_def empty_tables_def old_aggregate_def)

theorem retention_keeps_coverage_witness:
  "\<exists>db'. apply_retention (401 * 86400000) default_retention (old_tables, []) = (Ok (), db') \<and>
      old_gap \<in> set (ut_gaps (fst db'))"
proof -
  obtain db' where d: "apply_retention (401 * 86400000) default_retention (old_tables, []) = (Ok (), db')"
    "old_aggregate \<in> set (ut_daily (fst db'))" using old_retention by blast
  have "old_gap \<in> set (ut_gaps (fst db'))"
  proof (rule retention_keeps_coverage [OF d(1), of "\<lambda>_. 0" old_aggregate])
    show "\<forall>r \<in> set (ut_daily (fst (old_tables, []))). daily_row_ok (\<lambda>_. 0) r"
      by (simp add: old_tables_def daily_row_ok_def old_aggregate_def day_of_def DAY_MS_def)
    show "\<forall>g \<in> set (ut_gaps (fst (old_tables, []))). daily_gap_ok (\<lambda>_. 0) g"
      by (auto simp: old_tables_def daily_gap_ok_def old_gap_def day_of_def DAY_MS_def intro!: exI [of _ 0])
  qed (use d(2) in \<open>auto simp: keys_ordered_def old_tables_def old_gap_def old_aggregate_def\<close>)
  then show ?thesis using d(1) by blast
qed

end
