(* ===== verification/Framing.thy ===== *)
theory Framing
  imports Prelude
begin

text \<open>
  Length-prefixed frames: the IPC framing with its wire budget and its timeouts
  (crates/ipc/src/frame.rs) and the blocking framing of the two helper protocols
  (crates/network-helper-protocol/src/lib.rs and crates/telemetry-helper-protocol/src/lib.rs). A
  reader is the bytes that will arrive and whether the stream then breaks or ends; the
  clock and the completion of each asynchronous operation are events of the environment;
  serde_json is a parameter. A locale states what a framing promises, and its round trip is
  proved once for the three. Shown besides: the budget is never exceeded.
\<close>

section \<open>Readers\<close>

datatype io_kind = UnexpectedEof | OtherIo

record reader =
  rd_bytes :: bytes
  rd_breaks :: bool

text \<open>\<open>read_exact\<close>: all the bytes asked for, or the error; what was left is then consumed.\<close>

definition read_exact :: "nat \<Rightarrow> reader \<Rightarrow> (io_kind, bytes) result \<times> reader" where
  "read_exact n r =
     (if n \<le> length (rd_bytes r)
      then (Ok (take n (rd_bytes r)), r\<lparr>rd_bytes := drop n (rd_bytes r)\<rparr>)
      else (Err (if rd_breaks r then OtherIo else UnexpectedEof), r\<lparr>rd_bytes := []\<rparr>))"

text \<open>\<open>u32::to_be_bytes\<close> and \<open>u32::from_be_bytes\<close>.\<close>

definition to_be_bytes :: "u32 \<Rightarrow> bytes" where
  "to_be_bytes v = [ucast (drop_bit 24 v), ucast (drop_bit 16 v), ucast (drop_bit 8 v), ucast v]"

fun from_be_bytes :: "bytes \<Rightarrow> u32" where
  "from_be_bytes [a, b, c, d] =
     of_nat (unat a * 2 ^ 24 + unat b * 2 ^ 16 + unat c * 2 ^ 8 + unat d)"
| "from_be_bytes _ = 0"

section \<open>IPC framing\<close>

definition MAX_FRAME_PAYLOAD_BYTES :: nat where "MAX_FRAME_PAYLOAD_BYTES = 65536"
definition FRAME_PREFIX_BYTES :: u64 where "FRAME_PREFIX_BYTES = 4"
definition FRAME_IDLE_TIMEOUT :: nat where "FRAME_IDLE_TIMEOUT = 2000000000"

record wire_budget =
  wb_max_frames :: u64
  wb_max_wire_bytes :: u64
  wb_observed_frames :: u64
  wb_observed_wire_bytes :: u64

datatype frame_error =
    Fe_Io io_kind
  | Fe_IdleTimeout
  | Fe_DeadlineExceeded
  | Fe_UnexpectedEof
  | Fe_Empty
  | Fe_Oversize
  | Fe_FrameLimitExceeded
  | Fe_WireBytesExceeded
  | Fe_BudgetOverflow
  | Fe_InvalidJson

definition budget_new :: "u64 \<Rightarrow> u64 \<Rightarrow> wire_budget" where
  "budget_new max_frames max_wire_bytes =
     \<lparr>wb_max_frames = max_frames, wb_max_wire_bytes = max_wire_bytes, wb_observed_frames = 0, wb_observed_wire_bytes = 0\<rparr>"

definition observe_payload_len :: "u64 \<Rightarrow> wire_budget \<Rightarrow> (frame_error, unit) result \<times> wire_budget" where
  "observe_payload_len payload_len b =
     (case checked_add (wb_observed_frames b) 1 of
        None \<Rightarrow> (Err Fe_BudgetOverflow, b)
      | Some frames \<Rightarrow>
          if wb_max_frames b < frames then (Err Fe_FrameLimitExceeded, b)
          else case checked_add FRAME_PREFIX_BYTES payload_len of
            None \<Rightarrow> (Err Fe_BudgetOverflow, b)
          | Some frame_wire_bytes \<Rightarrow>
              (case checked_add (wb_observed_wire_bytes b) frame_wire_bytes of
                 None \<Rightarrow> (Err Fe_BudgetOverflow, b)
               | Some wire_bytes \<Rightarrow>
                   if wb_max_wire_bytes b < wire_bytes then (Err Fe_WireBytesExceeded, b)
                   else (Ok (), b\<lparr>wb_observed_frames := frames, wb_observed_wire_bytes := wire_bytes\<rparr>)))"

text \<open>One asynchronous operation: the instant it starts at, whether it is ready before its
  deadline, and how many bytes had been moved when it was given up or failed.\<close>

record io_event =
  ev_now :: nat
  ev_ready :: bool
  ev_moved :: nat

definition timed_io ::
  "nat \<Rightarrow> nat \<Rightarrow> io_event \<Rightarrow> (io_kind, 'a) result \<times> 'r \<Rightarrow> 'r \<Rightarrow> 'r \<Rightarrow> (frame_error, 'a) result \<times> 'r" where
  "timed_io deadline idle ev completed interrupted r =
     (if deadline \<le> ev_now ev then (Err Fe_DeadlineExceeded, r)
      else let operation_deadline = min deadline (ev_now ev + idle) in
        if ev_ready ev then (map_err Fe_Io (fst completed), snd completed)
        else if operation_deadline = deadline then (Err Fe_DeadlineExceeded, interrupted)
        else (Err Fe_IdleTimeout, interrupted))"

text \<open>Reading exactly \<open>n\<close> bytes in time; a read given up has taken some of them.\<close>

definition timed_read :: "nat \<Rightarrow> nat \<Rightarrow> io_event \<Rightarrow> nat \<Rightarrow> reader \<Rightarrow> (frame_error, bytes) result \<times> reader" where
  "timed_read deadline idle ev n r =
     timed_io deadline idle ev (read_exact n r) (r\<lparr>rd_bytes := drop (min n (ev_moved ev)) (rd_bytes r)\<rparr>) r"

fun map_eof :: "frame_error \<Rightarrow> frame_error" where
  "map_eof (Fe_Io UnexpectedEof) = Fe_UnexpectedEof"
| "map_eof e = e"

definition read_frame_with_idle_timeout ::
  "io_event \<times> io_event \<Rightarrow> nat \<Rightarrow> nat \<Rightarrow> reader \<times> wire_budget \<Rightarrow> (frame_error, bytes) result \<times> reader \<times> wire_budget" where
  "read_frame_with_idle_timeout evs deadline idle st =
     (case timed_read deadline idle (fst evs) 4 (fst st) of
        (Inl e, r) \<Rightarrow> (Err (map_eof e), r, snd st)
      | (Inr header, r) \<Rightarrow>
          let len = unat (from_be_bytes header) in
          if len = 0 then (Err Fe_Empty, r, snd st)
          else case observe_payload_len (of_nat len) (snd st) of
            (Inl e, b) \<Rightarrow> (Err e, r, b)
          | (Inr _, b) \<Rightarrow>
              if MAX_FRAME_PAYLOAD_BYTES < len then (Err Fe_Oversize, r, b)
              else (case timed_read deadline idle (snd evs) len r of
                      (Inl e, r') \<Rightarrow> (Err (map_eof e), r', b)
                    | (Inr payload, r') \<Rightarrow> (Ok payload, r', b)))"

definition ipc_read_frame ::
  "io_event \<times> io_event \<Rightarrow> nat \<Rightarrow> reader \<times> wire_budget \<Rightarrow> (frame_error, bytes) result \<times> reader \<times> wire_budget" where
  "ipc_read_frame evs deadline = read_frame_with_idle_timeout evs deadline FRAME_IDLE_TIMEOUT"

text \<open>Writing: what has been put on the wire grows by the frame, or by the part of it that a failing or
  late write had moved.\<close>

definition write_frame_with_idle_timeout ::
  "io_event \<times> io_event \<Rightarrow> (io_kind, unit) result \<times> (io_kind, unit) result \<Rightarrow> nat \<Rightarrow> nat \<Rightarrow> bytes \<Rightarrow> bytes \<Rightarrow>
   (frame_error, unit) result \<times> bytes" where
  "write_frame_with_idle_timeout evs outcomes deadline idle payload wire =
     (if payload = [] then (Err Fe_Empty, wire)
      else if MAX_FRAME_PAYLOAD_BYTES < length payload then (Err Fe_Oversize, wire)
      else let frame = to_be_bytes (of_nat (length payload)) @ payload in
        case timed_io deadline idle (fst evs)
               (fst outcomes, wire @ (case fst outcomes of Inl _ \<Rightarrow> take (ev_moved (fst evs)) frame | Inr _ \<Rightarrow> frame))
               (wire @ take (ev_moved (fst evs)) frame) wire of
          (Inl e, w) \<Rightarrow> (Err e, w)
        | (Inr _, w) \<Rightarrow> timed_io deadline idle (snd evs) (snd outcomes, w) w w)"

definition ipc_write_frame ::
  "io_event \<times> io_event \<Rightarrow> (io_kind, unit) result \<times> (io_kind, unit) result \<Rightarrow> nat \<Rightarrow> bytes \<Rightarrow> bytes \<Rightarrow>
   (frame_error, unit) result \<times> bytes" where
  "ipc_write_frame evs outcomes deadline = write_frame_with_idle_timeout evs outcomes deadline FRAME_IDLE_TIMEOUT"

text \<open>\<open>write_json\<close> and \<open>read_json\<close> over serde_json's \<open>to_vec\<close> and \<open>from_slice\<close>.\<close>

definition write_json ::
  "('a \<Rightarrow> bytes option) \<Rightarrow> io_event \<times> io_event \<Rightarrow> (io_kind, unit) result \<times> (io_kind, unit) result \<Rightarrow> nat \<Rightarrow> 'a \<Rightarrow> bytes \<Rightarrow>
   (frame_error, unit) result \<times> bytes" where
  "write_json to_vec evs outcomes deadline v wire =
     (case to_vec v of
        None \<Rightarrow> (Err Fe_InvalidJson, wire)
      | Some payload \<Rightarrow> ipc_write_frame evs outcomes deadline payload wire)"

definition read_json_with_idle_timeout ::
  "(bytes \<Rightarrow> 'a option) \<Rightarrow> io_event \<times> io_event \<Rightarrow> nat \<Rightarrow> nat \<Rightarrow> reader \<times> wire_budget \<Rightarrow>
   (frame_error, 'a) result \<times> reader \<times> wire_budget" where
  "read_json_with_idle_timeout from_slice evs deadline idle st =
     (case read_frame_with_idle_timeout evs deadline idle st of
        (Inl e, st') \<Rightarrow> (Err e, st')
      | (Inr payload, st') \<Rightarrow> (ok_or (from_slice payload) Fe_InvalidJson, st'))"

definition read_json ::
  "(bytes \<Rightarrow> 'a option) \<Rightarrow> io_event \<times> io_event \<Rightarrow> nat \<Rightarrow> reader \<times> wire_budget \<Rightarrow>
   (frame_error, 'a) result \<times> reader \<times> wire_budget" where
  "read_json from_slice evs deadline = read_json_with_idle_timeout from_slice evs deadline FRAME_IDLE_TIMEOUT"

section \<open>Helper framing\<close>

text \<open>The two helper protocols have the same code with their own bound: 512 KiB for the network helper,
  1 MiB for the telemetry helper.\<close>

definition NETWORK_MAX_FRAME_BYTES :: nat where "NETWORK_MAX_FRAME_BYTES = 524288"
definition TELEMETRY_MAX_FRAME_BYTES :: nat where "TELEMETRY_MAX_FRAME_BYTES = 1048576"

datatype helper_frame_error =
    Hf_Io io_kind
  | Hf_TruncatedLength
  | Hf_TruncatedPayload
  | Hf_Empty
  | Hf_Oversized nat nat
  | Hf_LengthOverflow
  | Hf_MalformedJson
  | Hf_UnsupportedVersion u16
  | Hf_InvalidPayload string

definition helper_read_frame :: "nat \<Rightarrow> reader \<Rightarrow> (helper_frame_error, bytes option) result \<times> reader" where
  "helper_read_frame max_bytes r =
     (case read_exact 1 r of
        (Inl e, r1) \<Rightarrow> (case e of UnexpectedEof \<Rightarrow> Ok None | _ \<Rightarrow> Err (Hf_Io e), r1)
      | (Inr first, r1) \<Rightarrow>
          (case read_exact 3 r1 of
             (Inl _, r2) \<Rightarrow> (Err Hf_TruncatedLength, r2)
           | (Inr rest, r2) \<Rightarrow>
               let len = unat (from_be_bytes (first @ rest)) in
               if len = 0 then (Err Hf_Empty, r2)
               else if max_bytes < len then (Err (Hf_Oversized len max_bytes), r2)
               else (case read_exact len r2 of
                       (Inl _, r3) \<Rightarrow> (Err Hf_TruncatedPayload, r3)
                     | (Inr payload, r3) \<Rightarrow> (Ok (Some payload), r3))))"

definition ensure_payload_size :: "nat \<Rightarrow> bytes \<Rightarrow> (helper_frame_error, unit) result" where
  "ensure_payload_size max_bytes payload =
     (if payload = [] then Err Hf_Empty
      else if max_bytes < length payload then Err (Hf_Oversized (length payload) max_bytes)
      else Ok ())"

text \<open>The bytes written; \<open>Some (e, n)\<close> is a writer that fails with \<open>e\<close> after \<open>n\<close> bytes.\<close>

definition helper_write_frame ::
  "nat \<Rightarrow> (io_kind \<times> nat) option \<Rightarrow> bytes \<Rightarrow> bytes \<Rightarrow> (helper_frame_error, unit) result \<times> bytes" where
  "helper_write_frame max_bytes outcome payload wire =
     (case ensure_payload_size max_bytes payload of
        Inl e \<Rightarrow> (Err e, wire)
      | Inr _ \<Rightarrow>
          if 2 ^ 32 \<le> length payload then (Err Hf_LengthOverflow, wire)
          else let frame = to_be_bytes (of_nat (length payload)) @ payload in
            case outcome of
              Some (e, n) \<Rightarrow> (Err (Hf_Io e), wire @ take n frame)
            | None \<Rightarrow> (Ok (), wire @ frame))"

definition helper_encode :: "nat \<Rightarrow> ('a \<Rightarrow> bytes option) \<Rightarrow> 'a \<Rightarrow> (helper_frame_error, bytes) result" where
  "helper_encode max_bytes to_vec v =
     and_then (ok_or (to_vec v) Hf_MalformedJson) (\<lambda>payload.
     and_then (ensure_payload_size max_bytes payload) (\<lambda>_. Ok payload))"

definition network_read_frame :: "reader \<Rightarrow> (helper_frame_error, bytes option) result \<times> reader" where
  "network_read_frame = helper_read_frame NETWORK_MAX_FRAME_BYTES"

definition network_write_frame ::
  "(io_kind \<times> nat) option \<Rightarrow> bytes \<Rightarrow> bytes \<Rightarrow> (helper_frame_error, unit) result \<times> bytes" where
  "network_write_frame = helper_write_frame NETWORK_MAX_FRAME_BYTES"

definition telemetry_read_frame :: "reader \<Rightarrow> (helper_frame_error, bytes option) result \<times> reader" where
  "telemetry_read_frame = helper_read_frame TELEMETRY_MAX_FRAME_BYTES"

definition telemetry_write_frame ::
  "(io_kind \<times> nat) option \<Rightarrow> bytes \<Rightarrow> bytes \<Rightarrow> (helper_frame_error, unit) result \<times> bytes" where
  "telemetry_write_frame = helper_write_frame TELEMETRY_MAX_FRAME_BYTES"

section \<open>Big-endian prefixes\<close>

lemma base256:
  "q1 * 256 + x0 = n \<Longrightarrow> q2 * 256 + x1 = q1 \<Longrightarrow> q3 * 256 + x2 = q2 \<Longrightarrow>
   q3 * 16777216 + x2 * 65536 + x1 * 256 + x0 = (n::nat)"
  by simp

lemma nat_bytes:
  assumes "n < 2 ^ 32"
  shows "n div 2 ^ 24 mod 256 * 2 ^ 24 + n div 2 ^ 16 mod 256 * 2 ^ 16 + n div 2 ^ 8 mod 256 * 2 ^ 8 + n mod 256 = (n::nat)"
proof -
  have pow: "(2::nat) ^ 8 = 256" "(2::nat) ^ 16 = 65536" "(2::nat) ^ 24 = 16777216" by simp_all
  have d: "n div 65536 = n div 256 div 256" "n div 16777216 = n div 256 div 256 div 256"
    by (simp_all add: div_mult2_eq [symmetric])
  have m: "n div 256 div 256 div 256 mod 256 = n div 256 div 256 div 256"
    using assms by (simp add: div_mult2_eq [symmetric] less_mult_imp_div_less)
  show ?thesis
    unfolding pow d m by (rule base256; rule div_mult_mod_eq)
qed

lemma length_to_be_bytes [simp]: "length (to_be_bytes v) = 4"
  by (simp add: to_be_bytes_def)

lemma unat_mod32: "unat v mod 4294967296 = unat v" for v :: u32
  using unat_less_pow [of v] by simp

lemma unat_byte: "unat (ucast (drop_bit k v) :: 8 word) = unat v div 2 ^ k mod 256" for v :: u32
  by (simp add: unsigned_ucast_eq unsigned_drop_bit_eq drop_bit_eq_div [where ?'a = nat] take_bit_eq_mod unat_mod32)

lemma from_to_be_bytes [simp]: "from_be_bytes (to_be_bytes v) = v"
proof -
  have "unat (ucast v :: 8 word) = unat v mod 256"
    using unat_byte [of 0 v] by simp
  then have "unat (ucast (drop_bit 24 v) :: 8 word) * 2 ^ 24 + unat (ucast (drop_bit 16 v) :: 8 word) * 2 ^ 16 +
      unat (ucast (drop_bit 8 v) :: 8 word) * 2 ^ 8 + unat (ucast v :: 8 word) = unat v"
    using nat_bytes [of "unat v"] unat_less_pow [of v] by (simp only: unat_byte) simp
  then show ?thesis
    unfolding to_be_bytes_def from_be_bytes.simps by simp
qed

section \<open>What a framing promises\<close>

text \<open>
  A writer turns a payload into bytes; a reader with some state takes one payload off the front of what
  arrives. \<open>fits\<close> says of a state that a sequence of payloads may follow. The promise: a payload
  that fits is written, and read back from whatever follows it, leaving a state that fits the rest.
\<close>

locale framing =
  fixes put :: "bytes \<Rightarrow> bytes option"
    and get :: "'s \<Rightarrow> bytes \<Rightarrow> (bytes \<times> 's \<times> bytes) option"
    and fits :: "'s \<Rightarrow> bytes list \<Rightarrow> bool"
  assumes get_put: "fits s (p # ps) \<Longrightarrow>
    \<exists>w s'. put p = Some w \<and> (\<forall>rest. get s (w @ rest) = Some (p, s', rest)) \<and> fits s' ps"
begin

fun put_all :: "bytes list \<Rightarrow> bytes option" where
  "put_all [] = Some []"
| "put_all (p # ps) = (case put p of None \<Rightarrow> None | Some w \<Rightarrow> map_option ((@) w) (put_all ps))"

fun get_all :: "nat \<Rightarrow> 's \<Rightarrow> bytes \<Rightarrow> (bytes list \<times> 's \<times> bytes) option" where
  "get_all 0 s wire = Some ([], s, wire)"
| "get_all (Suc n) s wire =
     (case get s wire of
        None \<Rightarrow> None
      | Some (p, s', rest) \<Rightarrow> map_option (\<lambda>(ps, r). (p # ps, r)) (get_all n s' rest))"

lemma get_put_all:
  "fits s ps \<Longrightarrow> \<exists>w s'. put_all ps = Some w \<and> (\<forall>rest. get_all (length ps) s (w @ rest) = Some (ps, s', rest))"
proof (induction ps arbitrary: s)
  case (Cons p ps)
  from get_put [OF Cons.prems] obtain w s' where
    w: "put p = Some w" "\<forall>rest. get s (w @ rest) = Some (p, s', rest)" "fits s' ps" by blast
  from Cons.IH [OF w(3)] obtain w' s'' where
    "put_all ps = Some w'" "\<forall>rest. get_all (length ps) s' (w' @ rest) = Some (ps, s'', rest)" by blast
  with w show ?case by (intro exI [of _ "w @ w'"] exI [of _ s'']) simp
qed simp

end

lemma read_exact_append:
  "length p = n \<Longrightarrow> read_exact n \<lparr>rd_bytes = p @ q, rd_breaks = b\<rparr> = (Ok p, \<lparr>rd_bytes = q, rd_breaks = b\<rparr>)"
  by (simp add: read_exact_def)

lemma prefix_length: "n < 2 ^ 32 \<Longrightarrow> unat (from_be_bytes (to_be_bytes (of_nat n))) = n"
  by (simp add: unat_of_nat)

lemma to_be_bytes_split: "\<exists>a b c d. to_be_bytes v = [a, b, c, d]"
  by (simp add: to_be_bytes_def)

subsection \<open>The helper protocols\<close>

definition payload_fits :: "nat \<Rightarrow> bytes \<Rightarrow> bool" where
  "payload_fits max_bytes p = (p \<noteq> [] \<and> length p \<le> max_bytes)"

definition helper_put :: "nat \<Rightarrow> bytes \<Rightarrow> bytes option" where
  "helper_put max_bytes p =
     (case helper_write_frame max_bytes None p [] of (Inl _, _) \<Rightarrow> None | (Inr _, w) \<Rightarrow> Some w)"

definition helper_get :: "nat \<Rightarrow> unit \<Rightarrow> bytes \<Rightarrow> (bytes \<times> unit \<times> bytes) option" where
  "helper_get max_bytes u wire =
     (case helper_read_frame max_bytes \<lparr>rd_bytes = wire, rd_breaks = False\<rparr> of
        (Inr (Some p), r) \<Rightarrow> Some (p, (), rd_bytes r)
      | _ \<Rightarrow> None)"

lemma helper_get_put:
  assumes "payload_fits m p" "m < 2 ^ 32"
  shows "helper_put m p = Some (to_be_bytes (of_nat (length p)) @ p)"
    "helper_get m () ((to_be_bytes (of_nat (length p)) @ p) @ rest) = Some (p, (), rest)"
proof -
  have l: "length p < 2 ^ 32" using assms by (auto simp: payload_fits_def)
  then show "helper_put m p = Some (to_be_bytes (of_nat (length p)) @ p)"
    using assms by (simp add: helper_put_def helper_write_frame_def ensure_payload_size_def payload_fits_def)
  obtain a b c d where h: "to_be_bytes (of_nat (length p)) = [a, b, c, d]" using to_be_bytes_split by blast
  have len: "unat (from_be_bytes [a, b, c, d]) = length p" using prefix_length [OF l] h by simp
  have "read_exact 1 \<lparr>rd_bytes = [a, b, c, d] @ q, rd_breaks = False\<rparr> = (Ok [a], \<lparr>rd_bytes = [b, c, d] @ q, rd_breaks = False\<rparr>)"
    "read_exact 3 \<lparr>rd_bytes = [b, c, d] @ q, rd_breaks = False\<rparr> = (Ok [b, c, d], \<lparr>rd_bytes = q, rd_breaks = False\<rparr>)" for q
    by (simp_all add: read_exact_def numeral_3_eq_3)
  then show "helper_get m () ((to_be_bytes (of_nat (length p)) @ p) @ rest) = Some (p, (), rest)"
    using assms len read_exact_append [of p "length p" rest False]
    by (simp add: helper_get_def helper_read_frame_def h payload_fits_def Let_def del: from_be_bytes.simps)
qed

lemma helper_framing:
  assumes "m < 2 ^ 32"
  shows "framing (helper_put m) (helper_get m) (\<lambda>_. list_all (payload_fits m))"
proof
  fix s p ps assume "list_all (payload_fits m) (p # ps)"
  then have "payload_fits m p" "list_all (payload_fits m) ps" by simp_all
  then show "\<exists>w s'. helper_put m p = Some w \<and> (\<forall>rest. helper_get m s (w @ rest) = Some (p, s', rest)) \<and>
      list_all (payload_fits m) ps"
    using helper_get_put [OF _ assms] by (metis old.unit.exhaust)
qed

interpretation network: framing "helper_put NETWORK_MAX_FRAME_BYTES" "helper_get NETWORK_MAX_FRAME_BYTES"
    "\<lambda>_. list_all (payload_fits NETWORK_MAX_FRAME_BYTES)"
  by (rule helper_framing) (simp add: NETWORK_MAX_FRAME_BYTES_def)

interpretation telemetry: framing "helper_put TELEMETRY_MAX_FRAME_BYTES" "helper_get TELEMETRY_MAX_FRAME_BYTES"
    "\<lambda>_. list_all (payload_fits TELEMETRY_MAX_FRAME_BYTES)"
  by (rule helper_framing) (simp add: TELEMETRY_MAX_FRAME_BYTES_def)

subsection \<open>The IPC framing\<close>

text \<open>The schedule of the round trip: operations that complete in time, at instant \<open>0\<close> of a later deadline. Those that
  do not end in an error, and nothing is delivered.\<close>

definition ready :: "io_event \<times> io_event" where
  "ready = (\<lparr>ev_now = 0, ev_ready = True, ev_moved = 0\<rparr>, \<lparr>ev_now = 0, ev_ready = True, ev_moved = 0\<rparr>)"

definition ipc_put :: "bytes \<Rightarrow> bytes option" where
  "ipc_put p = (case ipc_write_frame ready (Ok (), Ok ()) 1 p [] of (Inl _, _) \<Rightarrow> None | (Inr _, w) \<Rightarrow> Some w)"

definition ipc_get :: "wire_budget \<Rightarrow> bytes \<Rightarrow> (bytes \<times> wire_budget \<times> bytes) option" where
  "ipc_get b wire =
     (case ipc_read_frame ready 1 (\<lparr>rd_bytes = wire, rd_breaks = False\<rparr>, b) of
        (Inl _, _) \<Rightarrow> None
      | (Inr p, r, b') \<Rightarrow> Some (p, b', rd_bytes r))"

text \<open>The budget has room for the frames of the payloads.\<close>

definition budget_fits :: "wire_budget \<Rightarrow> bytes list \<Rightarrow> bool" where
  "budget_fits b ps \<longleftrightarrow> list_all (payload_fits MAX_FRAME_PAYLOAD_BYTES) ps \<and>
     unat (wb_observed_frames b) + length ps \<le> unat (wb_max_frames b) \<and>
     unat (wb_observed_wire_bytes b) + (\<Sum>p \<leftarrow> ps. 4 + length p) \<le> unat (wb_max_wire_bytes b)"

lemma checked_add_fits: "unat a + unat b \<le> unat c \<Longrightarrow> checked_add a b = Some (a + b) \<and> unat (a + b) = unat a + unat b"
  for a b c :: u64
  using unat_less_pow [of c] by (auto simp: checked_add_def unat_add_lem [THEN iffD1])

lemma observe_fits:
  assumes "unat (wb_observed_frames b) + 1 \<le> unat (wb_max_frames b)" "n \<le> 65536"
    "unat (wb_observed_wire_bytes b) + (4 + n) \<le> unat (wb_max_wire_bytes b)"
  obtains b' where "observe_payload_len (of_nat n) b = (Ok (), b')"
    "unat (wb_observed_frames b') = unat (wb_observed_frames b) + 1"
    "unat (wb_observed_wire_bytes b') = unat (wb_observed_wire_bytes b) + (4 + n)"
    "wb_max_frames b' = wb_max_frames b" "wb_max_wire_bytes b' = wb_max_wire_bytes b"
proof -
  have n: "unat (of_nat n :: u64) = n" using assms(2) by (simp add: unat_of_nat)
  then have p: "checked_add FRAME_PREFIX_BYTES (of_nat n) = Some (FRAME_PREFIX_BYTES + of_nat n)"
    "unat (FRAME_PREFIX_BYTES + of_nat n) = 4 + n"
    using assms(2) by (auto simp: checked_add_def FRAME_PREFIX_BYTES_def unat_add_lem [THEN iffD1])
  have f: "checked_add (wb_observed_frames b) 1 = Some (wb_observed_frames b + 1)"
    "unat (wb_observed_frames b + 1) = unat (wb_observed_frames b) + 1"
    using checked_add_fits [of "wb_observed_frames b" 1] assms(1) by auto
  have w: "checked_add (wb_observed_wire_bytes b) (FRAME_PREFIX_BYTES + of_nat n) =
      Some (wb_observed_wire_bytes b + (FRAME_PREFIX_BYTES + of_nat n))"
    "unat (wb_observed_wire_bytes b + (FRAME_PREFIX_BYTES + of_nat n)) = unat (wb_observed_wire_bytes b) + (4 + n)"
    using checked_add_fits [of "wb_observed_wire_bytes b" "FRAME_PREFIX_BYTES + of_nat n"] p(2) assms(3) by auto
  show ?thesis
    by (rule that [of "b\<lparr>wb_observed_frames := wb_observed_frames b + 1,
            wb_observed_wire_bytes := wb_observed_wire_bytes b + (FRAME_PREFIX_BYTES + of_nat n)\<rparr>"])
       (use f w p assms in \<open>simp_all add: observe_payload_len_def word_less_nat_alt\<close>)
qed

lemma ipc_put_fits: "payload_fits MAX_FRAME_PAYLOAD_BYTES p \<Longrightarrow> ipc_put p = Some (to_be_bytes (of_nat (length p)) @ p)"
  by (simp add: ipc_put_def ipc_write_frame_def write_frame_with_idle_timeout_def timed_io_def ready_def
      payload_fits_def Let_def)

lemma ipc_get_fits:
  assumes "payload_fits MAX_FRAME_PAYLOAD_BYTES p" "observe_payload_len (of_nat (length p)) b = (Ok (), b')"
  shows "ipc_get b ((to_be_bytes (of_nat (length p)) @ p) @ rest) = Some (p, b', rest)"
proof -
  have "length p < 2 ^ 32" using assms(1) by (simp add: payload_fits_def MAX_FRAME_PAYLOAD_BYTES_def)
  note len = prefix_length [OF this]
  show ?thesis
    using assms len read_exact_append [of "to_be_bytes (of_nat (length p))" 4 "p @ rest" False]
      read_exact_append [of p "length p" rest False]
    by (simp add: ipc_get_def ipc_read_frame_def read_frame_with_idle_timeout_def timed_read_def timed_io_def ready_def
        payload_fits_def Let_def)
qed

interpretation ipc: framing ipc_put ipc_get budget_fits
proof
  fix b p ps assume f: "budget_fits b (p # ps)"
  then have p: "payload_fits MAX_FRAME_PAYLOAD_BYTES p" "length p \<le> 65536"
    by (simp_all add: budget_fits_def payload_fits_def MAX_FRAME_PAYLOAD_BYTES_def)
  have "unat (wb_observed_frames b) + 1 \<le> unat (wb_max_frames b)"
    "unat (wb_observed_wire_bytes b) + (4 + length p) \<le> unat (wb_max_wire_bytes b)"
    using f by (simp_all add: budget_fits_def)
  from observe_fits [OF this(1) p(2) this(2)] obtain b' where b': "observe_payload_len (of_nat (length p)) b = (Ok (), b')"
    "unat (wb_observed_frames b') = unat (wb_observed_frames b) + 1"
    "unat (wb_observed_wire_bytes b') = unat (wb_observed_wire_bytes b) + (4 + length p)"
    "wb_max_frames b' = wb_max_frames b" "wb_max_wire_bytes b' = wb_max_wire_bytes b" .
  have "budget_fits b' ps" using f b' by (simp add: budget_fits_def)
  then show "\<exists>w s'. ipc_put p = Some w \<and> (\<forall>rest. ipc_get b (w @ rest) = Some (p, s', rest)) \<and> budget_fits s' ps"
    using ipc_put_fits [OF p(1)] ipc_get_fits [OF p(1) b'(1)] by blast
qed

section \<open>The budget bounds what a peer can send\<close>

text \<open>One read under any events and any bytes: the budget stays within its limits, and a payload that is
  returned has been paid for, prefix included.\<close>

definition budget_ok :: "wire_budget \<Rightarrow> bool" where
  "budget_ok b = (wb_observed_frames b \<le> wb_max_frames b \<and> wb_observed_wire_bytes b \<le> wb_max_wire_bytes b)"

definition same_limits :: "wire_budget \<Rightarrow> wire_budget \<Rightarrow> bool" where
  "same_limits b b' = (wb_max_frames b' = wb_max_frames b \<and> wb_max_wire_bytes b' = wb_max_wire_bytes b)"

lemma observe_cases:
  assumes "observe_payload_len n b = (r, b')"
  obtains e where "r = Err e" "b' = b"
  | "r = Ok ()" "same_limits b b'" "budget_ok b'"
    "unat (wb_observed_frames b') = unat (wb_observed_frames b) + 1"
    "unat (wb_observed_wire_bytes b') = unat (wb_observed_wire_bytes b) + (4 + unat n)"
  using assms
  by (auto simp: observe_payload_len_def budget_ok_def same_limits_def checked_add_Some FRAME_PREFIX_BYTES_def not_less
      split: option.splits if_splits)

lemma timed_read_Ok: "timed_read deadline idle ev n r = (Ok p, r') \<Longrightarrow> length p = n"
  by (auto simp: timed_read_def timed_io_def read_exact_def Let_def split: if_splits)

lemma read_frame_paid:
  assumes "read_frame_with_idle_timeout evs deadline idle (r, b) = (res, r', b')" "budget_ok b"
  shows "budget_ok b' \<and> same_limits b b' \<and>
    (\<forall>p. res = Ok p \<longrightarrow> p \<noteq> [] \<and> length p \<le> MAX_FRAME_PAYLOAD_BYTES \<and>
       unat (wb_observed_frames b') = unat (wb_observed_frames b) + 1 \<and>
       unat (wb_observed_wire_bytes b') = unat (wb_observed_wire_bytes b) + (4 + length p))"
proof -
  have refl: "same_limits b b" by (simp add: same_limits_def)
  have u: "unat (of_nat (unat (from_be_bytes h)) :: u64) = unat (from_be_bytes h)" for h
    using unat_less_pow [of "from_be_bytes h"] by (simp add: unsigned_ucast_eq take_bit_nat_eq_self)
  show ?thesis
    using assms refl u
    by (auto simp: read_frame_with_idle_timeout_def Let_def not_less split: prod.splits sum.splits if_splits
        elim!: observe_cases dest!: timed_read_Ok)
qed

text \<open>A caller that reads frames until one fails: the payloads it got.\<close>

fun read_until_error ::
  "(io_event \<times> io_event) list \<Rightarrow> nat \<Rightarrow> nat \<Rightarrow> reader \<times> wire_budget \<Rightarrow> bytes list" where
  "read_until_error [] deadline idle st = []"
| "read_until_error (ev # evs) deadline idle st =
     (case read_frame_with_idle_timeout ev deadline idle st of
        (Inl _, _) \<Rightarrow> []
      | (Inr p, st') \<Rightarrow> p # read_until_error evs deadline idle st')"

lemma read_until_error_paid:
  "budget_ok (snd st) \<Longrightarrow>
   (\<forall>p \<in> set (read_until_error evs deadline idle st). p \<noteq> [] \<and> length p \<le> MAX_FRAME_PAYLOAD_BYTES) \<and>
   unat (wb_observed_frames (snd st)) + length (read_until_error evs deadline idle st) \<le> unat (wb_max_frames (snd st)) \<and>
   unat (wb_observed_wire_bytes (snd st)) + (\<Sum>p \<leftarrow> read_until_error evs deadline idle st. 4 + length p)
     \<le> unat (wb_max_wire_bytes (snd st))"
proof (induction evs deadline idle st rule: read_until_error.induct)
  case (2 ev evs deadline idle st)
  obtain res r' b' where f: "read_frame_with_idle_timeout ev deadline idle st = (res, r', b')"
    using prod_cases3 by blast
  note paid = read_frame_paid [of ev deadline idle "fst st" "snd st", OF _ "2.prems", unfolded prod.collapse, OF f]
  show ?case
  proof (cases res)
    case (Inl e)
    then show ?thesis using f "2.prems" by (simp add: budget_ok_def word_le_nat_alt)
  next
    case (Inr p)
    have "budget_ok (snd (r', b'))" using paid by simp
    from "2.IH" [OF f [symmetric] Inr this] show ?thesis
      using paid f Inr by (simp add: same_limits_def)
  qed
qed (simp add: budget_ok_def word_le_nat_alt)

section \<open>Properties\<close>

text \<open>C36: frames survive the wire: any sequence of payloads the bounds (and for IPC the budget) allow is
  written, and reading back as many frames gives exactly these payloads, whatever bytes follow;
  the same holds for the IPC framing and the framings of both helper protocols.\<close>

theorem frames_round_trip:
  "(budget_fits b ps \<longrightarrow>
      (\<exists>w b'. ipc.put_all ps = Some w \<and> (\<forall>rest. ipc.get_all (length ps) b (w @ rest) = Some (ps, b', rest)))) \<and>
   (list_all (payload_fits NETWORK_MAX_FRAME_BYTES) ps \<longrightarrow>
      (\<exists>w. network.put_all ps = Some w \<and> (\<forall>rest. network.get_all (length ps) () (w @ rest) = Some (ps, (), rest)))) \<and>
   (list_all (payload_fits TELEMETRY_MAX_FRAME_BYTES) ps \<longrightarrow>
      (\<exists>w. telemetry.put_all ps = Some w \<and> (\<forall>rest. telemetry.get_all (length ps) () (w @ rest) = Some (ps, (), rest))))"
  using ipc.get_put_all [of b ps] network.get_put_all [of ps "()"] telemetry.get_put_all [of ps "()"] by auto

theorem frames_round_trip_witness:
  "(\<exists>w b'. ipc.put_all [[1, 2, 3], [4]] = Some w \<and>
      ipc.get_all 2 (budget_new 4 100) (w @ [9]) = Some ([[1, 2, 3], [4]], b', [9])) \<and>
   (\<exists>w. network.put_all [[1, 2, 3], [4]] = Some w \<and>
      network.get_all 2 () (w @ [9]) = Some ([[1, 2, 3], [4]], (), [9]))"
proof -
  have "budget_fits (budget_new 4 100) [[1, 2, 3], [4]]"
    by (simp add: budget_fits_def budget_new_def payload_fits_def MAX_FRAME_PAYLOAD_BYTES_def)
  moreover have "list_all (payload_fits NETWORK_MAX_FRAME_BYTES) [[1, 2, 3], [4]]"
    by (simp add: payload_fits_def NETWORK_MAX_FRAME_BYTES_def)
  ultimately show ?thesis
    using frames_round_trip [of "budget_new 4 100" "[[1, 2, 3], [4]]"] by (auto simp: numeral_2_eq_2)
qed

text \<open>A peer cannot make the reader accept more than its budget: whatever arrives and however the reads
  are timed, the frames read before the first error number at most the frame limit, none is empty or
  longer than 65536 bytes, and with their prefixes they fit in the byte limit.\<close>

theorem wire_budget_kept:
  "length (read_until_error evs deadline idle (r, budget_new max_frames max_wire)) \<le> unat max_frames \<and>
   (\<Sum>p \<leftarrow> read_until_error evs deadline idle (r, budget_new max_frames max_wire). 4 + length p) \<le> unat max_wire \<and>
   list_all (payload_fits 65536) (read_until_error evs deadline idle (r, budget_new max_frames max_wire))"
  using read_until_error_paid [of "(r, budget_new max_frames max_wire)" evs deadline idle]
  by (auto simp: budget_ok_def budget_new_def list_all_iff payload_fits_def MAX_FRAME_PAYLOAD_BYTES_def)

end
