(* ===== verification/Network_Protocol.thy ===== *)
theory Network_Protocol
  imports Framing
begin

text \<open>
  The messages between the service and the privileged network helper
  (crates/network-helper-protocol/src/lib.rs): requests that bind cgroups to applications,
  snapshots of their counters, errors, and the validation that both ends run on every
  message they encode or decode. serde_json is the pair of parameters \<open>to_vec\<close> and
  \<open>from_slice\<close>. Shown: what a side encodes the other decodes to the same message, and every message that is
  decoded satisfies the declarative contract of the protocol.
\<close>

section \<open>Validation in sequence\<close>

text \<open>A function body that applies the question mark operator to one check after another.\<close>

fun checks :: "('e, unit) result list \<Rightarrow> ('e, unit) result" where
  "checks [] = Ok ()"
| "checks (r # rs) = and_then r (\<lambda>_. checks rs)"

lemma checks_Ok [simp]: "checks rs = Ok () \<longleftrightarrow> (\<forall>r \<in> set rs. r = Ok ())"
  by (induction rs) (auto simp: result_simps)

declare checks.simps [simp del]

definition require :: "bool \<Rightarrow> 'e \<Rightarrow> ('e, unit) result" where
  "require b e = (if b then Ok () else Err e)"

lemma require_Ok [simp]: "require b e = Ok () \<longleftrightarrow> b"
  by (simp add: require_def)

definition has_nul :: "string \<Rightarrow> bool" where
  "has_nul s = (CHR 0x00 \<in> set s)"

section \<open>Messages\<close>

definition NETWORK_PROTOCOL_VERSION :: u16 where "NETWORK_PROTOCOL_VERSION = 1"
definition MAX_BINDINGS :: nat where "MAX_BINDINGS = 4096"
definition MAX_COUNTER_RECORDS :: nat where "MAX_COUNTER_RECORDS = 4096"
definition MAX_APPLICATION_KEY_BYTES :: nat where "MAX_APPLICATION_KEY_BYTES = 512"
definition MAX_REASON_BYTES :: nat where "MAX_REASON_BYTES = 256"

datatype request_kind = Collect

record cgroup_binding =
  cb_cgroup_id :: u64
  cb_application_key :: string

record network_request =
  nr_version :: u16
  nr_generation :: u64
  nr_kind :: request_kind
  nr_bindings :: "cgroup_binding list"

datatype network_status = Healthy | Degraded | Unsupported

datatype network_reason =
    CoreCgroupCollectorAttached
  | CoreCgroupCollectorNotAttached
  | CoreCgroupCollectorNotBuilt
  | UnprivilegedBpfPermanentlyDisabled
  | KernelBtfUnavailable
  | LibbpfRuntimeUnavailable
  | HelperPermissionDenied
  | IdentityBindingsUnavailable

record helper_capability =
  hc_status :: network_status
  hc_reason :: network_reason

record cgroup_counter =
  cc_cgroup_id :: u64
  cc_rx_bytes :: u64
  cc_tx_bytes :: u64

record counter_snapshot =
  cs_capability :: helper_capability
  cs_captured_boottime_ns :: "u64 option"
  cs_records :: "cgroup_counter list"

datatype network_error_code =
    Ne_MalformedRequest
  | Ne_UnsupportedVersion
  | Ne_OversizedFrame
  | Ne_InvalidRequest
  | Ne_CollectorUnavailable
  | Ne_PermissionDenied
  | Ne_LimitExceeded
  | Ne_Internal

record network_error =
  ne_code :: network_error_code
  ne_retryable :: bool
  ne_reason :: string

datatype network_reply_body = Nb_Snapshot counter_snapshot | Nb_Error network_error

record network_reply =
  np_version :: u16
  np_generation :: u64
  np_body :: network_reply_body

definition network_collect :: "u64 \<Rightarrow> cgroup_binding list \<Rightarrow> network_request" where
  "network_collect generation bindings =
     \<lparr>nr_version = NETWORK_PROTOCOL_VERSION, nr_generation = generation, nr_kind = Collect, nr_bindings = bindings\<rparr>"

definition unsupported_capability :: "network_reason \<Rightarrow> helper_capability" where
  "unsupported_capability reason = \<lparr>hc_status = Unsupported, hc_reason = reason\<rparr>"

definition network_error_new :: "network_error_code \<Rightarrow> bool \<Rightarrow> string \<Rightarrow> network_error" where
  "network_error_new code retryable reason = \<lparr>ne_code = code, ne_retryable = retryable, ne_reason = reason\<rparr>"

definition network_reply_snapshot :: "u64 \<Rightarrow> counter_snapshot \<Rightarrow> network_reply" where
  "network_reply_snapshot generation snapshot =
     \<lparr>np_version = NETWORK_PROTOCOL_VERSION, np_generation = generation, np_body = Nb_Snapshot snapshot\<rparr>"

definition network_reply_error :: "u64 \<Rightarrow> network_error \<Rightarrow> network_reply" where
  "network_reply_error generation error =
     \<lparr>np_version = NETWORK_PROTOCOL_VERSION, np_generation = generation, np_body = Nb_Error error\<rparr>"

section \<open>Validation\<close>

definition network_validate_version :: "u16 \<Rightarrow> (helper_frame_error, unit) result" where
  "network_validate_version version =
     (if version = NETWORK_PROTOCOL_VERSION then Ok () else Err (Hf_UnsupportedVersion version))"

definition validate_application_key :: "string \<Rightarrow> (helper_frame_error, unit) result" where
  "validate_application_key value =
     (if value = [] \<or> MAX_APPLICATION_KEY_BYTES < length value \<or> has_nul value
      then Err (Hf_InvalidPayload ''application_key_invalid'') else Ok ())"

text \<open>The loop over the bindings with the set of the ids seen so far.\<close>

fun validate_bindings :: "u64 set \<Rightarrow> cgroup_binding list \<Rightarrow> (helper_frame_error, unit) result" where
  "validate_bindings ids [] = Ok ()"
| "validate_bindings ids (binding # bs) =
     (if cb_cgroup_id binding = 0 then Err (Hf_InvalidPayload ''cgroup_id_invalid'')
      else if cb_cgroup_id binding \<in> ids then Err (Hf_InvalidPayload ''cgroup_id_duplicate'')
      else and_then (validate_application_key (cb_application_key binding)) (\<lambda>_.
        validate_bindings (insert (cb_cgroup_id binding) ids) bs))"

definition network_request_validate :: "network_request \<Rightarrow> (helper_frame_error, unit) result" where
  "network_request_validate r =
     and_then (network_validate_version (nr_version r)) (\<lambda>_.
       if nr_generation r = 0 then Err (Hf_InvalidPayload ''generation_must_be_nonzero'')
       else if MAX_BINDINGS < length (nr_bindings r) then Err (Hf_InvalidPayload ''binding_limit_exceeded'')
       else validate_bindings {} (nr_bindings r))"

definition capability_validate :: "helper_capability \<Rightarrow> (helper_frame_error, unit) result" where
  "capability_validate c =
     (let valid = (case hc_status c of
          Healthy \<Rightarrow> hc_reason c = CoreCgroupCollectorAttached
        | Degraded \<Rightarrow> hc_reason c \<in> {CoreCgroupCollectorNotAttached, HelperPermissionDenied, IdentityBindingsUnavailable}
        | Unsupported \<Rightarrow> hc_reason c \<in> {CoreCgroupCollectorNotBuilt, UnprivilegedBpfPermanentlyDisabled,
              KernelBtfUnavailable, LibbpfRuntimeUnavailable, HelperPermissionDenied}) in
      if valid then Ok () else Err (Hf_InvalidPayload ''capability_state_invalid''))"

fun validate_records :: "u64 set \<Rightarrow> cgroup_counter list \<Rightarrow> (helper_frame_error, unit) result" where
  "validate_records ids [] = Ok ()"
| "validate_records ids (record # rs) =
     (if cc_cgroup_id record = 0 then Err (Hf_InvalidPayload ''counter_cgroup_id_invalid'')
      else if cc_cgroup_id record \<in> ids then Err (Hf_InvalidPayload ''counter_cgroup_id_duplicate'')
      else validate_records (insert (cc_cgroup_id record) ids) rs)"

definition counter_snapshot_validate :: "counter_snapshot \<Rightarrow> (helper_frame_error, unit) result" where
  "counter_snapshot_validate s =
     and_then (capability_validate (cs_capability s)) (\<lambda>_.
       if MAX_COUNTER_RECORDS < length (cs_records s)
       then Err (Hf_InvalidPayload ''counter_record_limit_exceeded'')
       else if hc_status (cs_capability s) = Healthy \<and> cs_captured_boottime_ns s = None
       then Err (Hf_InvalidPayload ''healthy_capture_time_missing'')
       else if hc_status (cs_capability s) = Unsupported \<and> (cs_records s \<noteq> [] \<or> cs_captured_boottime_ns s \<noteq> None)
       then Err (Hf_InvalidPayload ''unsupported_snapshot_has_facts'')
       else if cs_records s \<noteq> [] \<and> cs_captured_boottime_ns s = None
       then Err (Hf_InvalidPayload ''counter_capture_time_missing'')
       else validate_records {} (cs_records s))"

definition network_error_validate :: "network_error \<Rightarrow> (helper_frame_error, unit) result" where
  "network_error_validate e =
     (if ne_reason e = [] \<or> MAX_REASON_BYTES < length (ne_reason e) \<or> has_nul (ne_reason e)
      then Err (Hf_InvalidPayload ''helper_reason_invalid'') else Ok ())"

definition network_reply_validate :: "network_reply \<Rightarrow> (helper_frame_error, unit) result" where
  "network_reply_validate r =
     and_then (network_validate_version (np_version r)) (\<lambda>_.
       case np_body r of
         Nb_Snapshot snapshot \<Rightarrow>
           if np_generation r = 0 then Err (Hf_InvalidPayload ''snapshot_generation_must_be_nonzero'')
           else counter_snapshot_validate snapshot
       | Nb_Error error \<Rightarrow> network_error_validate error)"

section \<open>Encoding and decoding\<close>

text \<open>\<open>decode_request\<close> and \<open>decode_reply\<close> of both helper protocols have this body.\<close>

definition helper_decode ::
  "nat \<Rightarrow> (bytes \<Rightarrow> 'a option) \<Rightarrow> ('a \<Rightarrow> (helper_frame_error, unit) result) \<Rightarrow> bytes \<Rightarrow> (helper_frame_error, 'a) result" where
  "helper_decode max_bytes from_slice validate payload =
     and_then (ensure_payload_size max_bytes payload) (\<lambda>_.
     and_then (ok_or (from_slice payload) Hf_MalformedJson) (\<lambda>message.
     and_then (validate message) (\<lambda>_. Ok message)))"

definition network_encode_request ::
  "(network_request \<Rightarrow> bytes option) \<Rightarrow> network_request \<Rightarrow> (helper_frame_error, bytes) result" where
  "network_encode_request to_vec request =
     and_then (network_request_validate request) (\<lambda>_. helper_encode NETWORK_MAX_FRAME_BYTES to_vec request)"

definition network_decode_request ::
  "(bytes \<Rightarrow> network_request option) \<Rightarrow> bytes \<Rightarrow> (helper_frame_error, network_request) result" where
  "network_decode_request from_slice = helper_decode NETWORK_MAX_FRAME_BYTES from_slice network_request_validate"

definition network_encode_reply ::
  "(network_reply \<Rightarrow> bytes option) \<Rightarrow> network_reply \<Rightarrow> (helper_frame_error, bytes) result" where
  "network_encode_reply to_vec reply =
     and_then (network_reply_validate reply) (\<lambda>_. helper_encode NETWORK_MAX_FRAME_BYTES to_vec reply)"

definition network_decode_reply ::
  "(bytes \<Rightarrow> network_reply option) \<Rightarrow> bytes \<Rightarrow> (helper_frame_error, network_reply) result" where
  "network_decode_reply from_slice = helper_decode NETWORK_MAX_FRAME_BYTES from_slice network_reply_validate"

lemma helper_encode_Ok:
  "helper_encode m to_vec v = Ok p \<longleftrightarrow> to_vec v = Some p \<and> payload_fits m p"
  by (auto simp: helper_encode_def ensure_payload_size_def payload_fits_def result_simps split: if_splits)

lemma helper_decode_Ok:
  "helper_decode m from_slice validate p = Ok v \<longleftrightarrow> payload_fits m p \<and> from_slice p = Some v \<and> validate v = Ok ()"
  by (auto simp: helper_decode_def ensure_payload_size_def payload_fits_def result_simps split: if_splits)

section \<open>The contract of the messages\<close>

definition name_ok :: "nat \<Rightarrow> string \<Rightarrow> bool" where
  "name_ok n s \<longleftrightarrow> s \<noteq> [] \<and> length s \<le> n \<and> \<not> has_nul s"

lemma validate_bindings_Ok:
  "validate_bindings ids bs = Ok () \<longleftrightarrow>
     distinct (map cb_cgroup_id bs) \<and> 0 \<notin> cb_cgroup_id ` set bs \<and> cb_cgroup_id ` set bs \<inter> ids = {} \<and>
     (\<forall>b \<in> set bs. name_ok MAX_APPLICATION_KEY_BYTES (cb_application_key b))"
  by (induction bs arbitrary: ids)
     (auto simp: result_simps validate_application_key_def name_ok_def split: if_splits)

lemma validate_records_Ok:
  "validate_records ids rs = Ok () \<longleftrightarrow>
     distinct (map cc_cgroup_id rs) \<and> 0 \<notin> cc_cgroup_id ` set rs \<and> cc_cgroup_id ` set rs \<inter> ids = {}"
  by (induction rs arbitrary: ids) (auto split: if_splits)

text \<open>A request names each cgroup once; a snapshot reports each cgroup once, says when its counters were
  read, and reports nothing when the collector is unsupported.\<close>

definition request_contract :: "network_request \<Rightarrow> bool" where
  "request_contract r \<longleftrightarrow> nr_version r = 1 \<and> nr_generation r \<noteq> 0 \<and> length (nr_bindings r) \<le> 4096 \<and>
     distinct (map cb_cgroup_id (nr_bindings r)) \<and>
     (\<forall>b \<in> set (nr_bindings r). cb_cgroup_id b \<noteq> 0 \<and> name_ok 512 (cb_application_key b))"

definition snapshot_contract :: "counter_snapshot \<Rightarrow> bool" where
  "snapshot_contract s \<longleftrightarrow> capability_validate (cs_capability s) = Ok () \<and> length (cs_records s) \<le> 4096 \<and>
     distinct (map cc_cgroup_id (cs_records s)) \<and> 0 \<notin> cc_cgroup_id ` set (cs_records s) \<and>
     (cs_records s \<noteq> [] \<or> hc_status (cs_capability s) = Healthy \<longrightarrow> cs_captured_boottime_ns s \<noteq> None) \<and>
     (hc_status (cs_capability s) = Unsupported \<longrightarrow> cs_records s = [] \<and> cs_captured_boottime_ns s = None)"

definition reply_contract :: "network_reply \<Rightarrow> bool" where
  "reply_contract r \<longleftrightarrow> np_version r = 1 \<and>
     (case np_body r of
        Nb_Snapshot s \<Rightarrow> np_generation r \<noteq> 0 \<and> snapshot_contract s
      | Nb_Error e \<Rightarrow> name_ok 256 (ne_reason e))"

lemma network_request_validate_Ok: "network_request_validate r = Ok () \<longleftrightarrow> request_contract r"
  by (auto simp: network_request_validate_def request_contract_def result_simps network_validate_version_def
      NETWORK_PROTOCOL_VERSION_def MAX_BINDINGS_def validate_bindings_Ok MAX_APPLICATION_KEY_BYTES_def split: if_splits)

lemma counter_snapshot_validate_Ok: "counter_snapshot_validate s = Ok () \<longleftrightarrow> snapshot_contract s"
  by (auto simp: counter_snapshot_validate_def snapshot_contract_def result_simps MAX_COUNTER_RECORDS_def
      validate_records_Ok split: if_splits)

lemma network_reply_validate_Ok: "network_reply_validate r = Ok () \<longleftrightarrow> reply_contract r"
  by (auto simp: network_reply_validate_def reply_contract_def result_simps network_validate_version_def
      NETWORK_PROTOCOL_VERSION_def counter_snapshot_validate_Ok network_error_validate_def name_ok_def MAX_REASON_BYTES_def
      split: if_splits network_reply_body.splits)

section \<open>Properties\<close>

text \<open>Helper messages are checked on both sides and survive the exchange: a request or reply is encoded exactly
  when it satisfies the contract of the protocol and its encoding is not empty and at most 512 KiB long;
  when serde_json reads back what it wrote, the other side then decodes the same message; and whatever
  bytes arrive, a message that is decoded satisfies the contract.\<close>

theorem network_messages_checked:
  assumes "\<And>p. to_vec request = Some p \<Longrightarrow> from_slice p = Some request"
    "\<And>p. to_vec' reply = Some p \<Longrightarrow> from_slice' p = Some reply"
  shows "(network_encode_request to_vec request = Ok p \<longleftrightarrow>
        request_contract request \<and> to_vec request = Some p \<and> p \<noteq> [] \<and> length p \<le> 524288) \<and>
    (network_encode_reply to_vec' reply = Ok p' \<longleftrightarrow>
        reply_contract reply \<and> to_vec' reply = Some p' \<and> p' \<noteq> [] \<and> length p' \<le> 524288) \<and>
    (network_encode_request to_vec request = Ok p \<longrightarrow> network_decode_request from_slice p = Ok request) \<and>
    (network_encode_reply to_vec' reply = Ok p' \<longrightarrow> network_decode_reply from_slice' p' = Ok reply) \<and>
    (network_decode_request from_slice arrived = Ok request' \<longrightarrow> request_contract request') \<and>
    (network_decode_reply from_slice' arrived = Ok reply' \<longrightarrow> reply_contract reply')"
  using assms
  by (auto simp: network_encode_request_def network_decode_request_def network_encode_reply_def network_decode_reply_def
      result_simps helper_encode_Ok helper_decode_Ok payload_fits_def network_request_validate_Ok network_reply_validate_Ok
      NETWORK_MAX_FRAME_BYTES_def)

text \<open>A request with two bindings and a healthy snapshot, under a serializer that writes one byte.\<close>

definition sample_request :: network_request where
  "sample_request = network_collect 7 [\<lparr>cb_cgroup_id = 42, cb_application_key = ''app''\<rparr>, \<lparr>cb_cgroup_id = 43, cb_application_key = ''b''\<rparr>]"

definition sample_reply :: network_reply where
  "sample_reply = network_reply_snapshot 7 \<lparr>cs_capability = \<lparr>hc_status = Healthy, hc_reason = CoreCgroupCollectorAttached\<rparr>,
     cs_captured_boottime_ns = Some 5, cs_records = [\<lparr>cc_cgroup_id = 42, cc_rx_bytes = 1, cc_tx_bytes = 2\<rparr>]\<rparr>"

theorem network_messages_checked_witness:
  "network_encode_request (\<lambda>r. if r = sample_request then Some [1] else None) sample_request = Ok [1] \<and>
   network_decode_request (\<lambda>p. if p = [1] then Some sample_request else None) [1] = Ok sample_request \<and>
   network_decode_reply (\<lambda>p. if p = [1] then Some sample_reply else None) [1] = Ok sample_reply"
proof -
  have req: "request_contract sample_request"
    by (simp add: request_contract_def sample_request_def network_collect_def NETWORK_PROTOCOL_VERSION_def name_ok_def has_nul_def)
  have rep: "reply_contract sample_reply"
    by (simp add: reply_contract_def sample_reply_def network_reply_snapshot_def NETWORK_PROTOCOL_VERSION_def
        snapshot_contract_def capability_validate_def)
  show ?thesis
    using network_messages_checked [of "\<lambda>r. if r = sample_request then Some [1] else None" sample_request
        "\<lambda>p. if p = [1] then Some sample_request else None" "\<lambda>r. if r = sample_reply then Some [1] else None" sample_reply
        "\<lambda>p. if p = [1] then Some sample_reply else None" "[1]" "[1]" "[1]" sample_request sample_reply] req rep
    by simp
qed

end
