(* ===== verification/Network_Sampler.thy ===== *)
theory Network_Sampler
  imports Network_Protocol "HOL-Library.Multiset" "HOL-Library.Char_ord" "HOL-Library.List_Lexorder"
begin

unbundle bit_operations_syntax

text \<open>
  Network sampling (crates/network/src/sampler.rs, core.rs and the types and the monitor of lib.rs): rates from
  successive readings of the interface counters, totals, coverage and events; the assessment of
  the per-application collector and the aggregation of its cgroup counters. A \<open>Duration\<close> is its nanoseconds. Parameters: the
  floating-point quotient of a byte count by a duration, the floating-point sum, and the order in which a \<open>HashSet\<close> is
  walked. Shown: after any history the sampler reports exactly the comparison with the
  previous reading, and the aggregation equals the sums of the counters of each application.
\<close>

section \<open>Data\<close>

datatype net_status = Net_Healthy | Net_Degraded | Net_Unsupported | Net_Unreachable

record capability_state =
  nc_status :: net_status
  nc_reason :: string

definition cap_healthy :: "string \<Rightarrow> capability_state" where
  "cap_healthy reason = \<lparr>nc_status = Net_Healthy, nc_reason = reason\<rparr>"

definition cap_degraded :: "string \<Rightarrow> capability_state" where
  "cap_degraded reason = \<lparr>nc_status = Net_Degraded, nc_reason = reason\<rparr>"

definition cap_unsupported :: "string \<Rightarrow> capability_state" where
  "cap_unsupported reason = \<lparr>nc_status = Net_Unsupported, nc_reason = reason\<rparr>"

definition cap_unreachable :: "string \<Rightarrow> capability_state" where
  "cap_unreachable reason = \<lparr>nc_status = Net_Unreachable, nc_reason = reason\<rparr>"

datatype interface_kind = Physical | Loopback | Tunnel | Virtual

datatype counter_width = Bits32 | Bits64

record link_counters =
  lc_rx_bytes :: u64
  lc_tx_bytes :: u64
  lc_width :: counter_width

record interface_id =
  ii_index :: u32
  ii_name :: string

record raw_interface =
  ri_id :: interface_id
  ri_kind :: interface_kind
  ri_kernel_kind :: "string option"
  ri_is_up :: bool
  ri_carrier_up :: bool
  ri_counters :: "link_counters option"

datatype rate_state = Rs_Known | Rs_WarmingUp | Rs_SamplingGap | Rs_CounterResetOrWrap | Rs_CountersUnavailable

record 'f traffic_rate =
  rt_rx_bytes_per_second :: "'f option"
  rt_tx_bytes_per_second :: "'f option"
  rt_state :: rate_state
  rt_reason :: string

definition rate_unavailable :: "rate_state \<Rightarrow> string \<Rightarrow> 'f traffic_rate" where
  "rate_unavailable state reason =
     \<lparr>rt_rx_bytes_per_second = None, rt_tx_bytes_per_second = None, rt_state = state, rt_reason = reason\<rparr>"

datatype interface_transition =
    It_Stable
  | It_FirstObservation
  | It_HotplugAdded
  | It_SamplingGap
  | It_CounterResetOrWrap
  | It_CountersUnavailable

record 'f interface_traffic =
  it_interface :: raw_interface
  it_rate :: "'f traffic_rate"
  it_transition :: interface_transition

datatype network_event =
    InterfaceAdded interface_id
  | InterfaceRemoved interface_id
  | InterfaceRenamed u32 string string
  | Ev_CounterResetOrWrap interface_id
  | Ev_SamplingGap

record byte_totals =
  bt_rx_bytes :: u64
  bt_tx_bytes :: u64

definition totals_add :: "link_counters \<Rightarrow> byte_totals \<Rightarrow> byte_totals" where
  "totals_add counters t = t\<lparr>bt_rx_bytes := saturating_add (bt_rx_bytes t) (lc_rx_bytes counters),
     bt_tx_bytes := saturating_add (bt_tx_bytes t) (lc_tx_bytes counters)\<rparr>"

record traffic_totals =
  tt_all_interfaces :: byte_totals
  tt_physical :: byte_totals
  tt_loopback :: byte_totals
  tt_tunnel :: byte_totals
  tt_other_virtual :: byte_totals

datatype layered_accounting = NotDetected | PossibleVpnUnderlayDoubleCounting

record network_coverage =
  nv_reported_interfaces :: nat
  nv_interfaces_with_counters :: nat
  nv_includes_loopback :: bool
  nv_includes_tunnels :: bool
  nv_layered_accounting :: layered_accounting
  nv_reason :: string

record application_traffic =
  at_application_key :: string
  at_rx_bytes :: u64
  at_tx_bytes :: u64

record 'f network_snapshot =
  sn_observed_boottime :: nat
  sn_system_traffic :: capability_state
  sn_per_application :: capability_state
  sn_coverage :: network_coverage
  sn_totals :: traffic_totals
  sn_aggregate_rate :: "'f traffic_rate"
  sn_interfaces :: "'f interface_traffic list"
  sn_applications :: "application_traffic list"
  sn_events :: "network_event list"

section \<open>The sampler\<close>

record baseline_counters =
  bl_observed_boottime :: nat
  bl_counters :: link_counters

record network_sampler =
  ns_maximum_rate_interval :: nat
  ns_baselines :: "interface_id \<Rightarrow> baseline_counters option"
  ns_names_by_index :: "u32 \<Rightarrow> string option"
  ns_previous_ids :: "interface_id list"
  ns_observed_once :: bool
  ns_previous_observed_boottime :: "nat option"

definition default_rate_interval :: nat where "default_rate_interval = 5000000000"

definition sampler_new :: "nat \<Rightarrow> network_sampler" where
  "sampler_new maximum_rate_interval =
     \<lparr>ns_maximum_rate_interval = maximum_rate_interval, ns_baselines = Map.empty, ns_names_by_index = Map.empty,
      ns_previous_ids = [], ns_observed_once = False, ns_previous_observed_boottime = None\<rparr>"

definition sampler_reset :: "network_sampler \<Rightarrow> network_sampler" where
  "sampler_reset s = s\<lparr>ns_baselines := Map.empty, ns_names_by_index := Map.empty, ns_previous_ids := [],
     ns_observed_once := False, ns_previous_observed_boottime := None\<rparr>"

text \<open>\<open>Duration::checked_sub\<close>.\<close>

definition duration_sub :: "nat \<Rightarrow> nat \<Rightarrow> nat option" where
  "duration_sub a b = (if b \<le> a then Some (a - b) else None)"

definition interface_rate ::
  "(u64 \<Rightarrow> nat \<Rightarrow> 'f) \<Rightarrow> raw_interface \<Rightarrow> baseline_counters option \<Rightarrow> nat \<Rightarrow> bool \<Rightarrow> bool \<Rightarrow>
   'f traffic_rate \<times> interface_transition" where
  "interface_rate per_second i previous observed_boottime observed_once sampling_gap =
     (case ri_counters i of
        None \<Rightarrow> (rate_unavailable Rs_CountersUnavailable ''interface_counters_missing'', It_CountersUnavailable)
      | Some current \<Rightarrow>
        (case previous of
           None \<Rightarrow> (rate_unavailable Rs_WarmingUp ''interface_baseline_missing'',
                    if observed_once then It_HotplugAdded else It_FirstObservation)
         | Some p \<Rightarrow>
           if sampling_gap then (rate_unavailable Rs_SamplingGap ''sampling_or_suspend_gap'', It_SamplingGap)
           else (case duration_sub observed_boottime (bl_observed_boottime p) of
             None \<Rightarrow> (rate_unavailable Rs_SamplingGap ''boottime_not_monotonic'', It_SamplingGap)
           | Some elapsed \<Rightarrow>
               if elapsed = 0 then (rate_unavailable Rs_SamplingGap ''sample_interval_zero'', It_SamplingGap)
               else if lc_width current \<noteq> lc_width (bl_counters p) \<or> lc_rx_bytes current < lc_rx_bytes (bl_counters p) \<or>
                  lc_tx_bytes current < lc_tx_bytes (bl_counters p)
               then (rate_unavailable Rs_CounterResetOrWrap ''counter_reset_or_native_width_wrap'', It_CounterResetOrWrap)
               else (\<lparr>rt_rx_bytes_per_second = Some (per_second (lc_rx_bytes current - lc_rx_bytes (bl_counters p)) elapsed),
                      rt_tx_bytes_per_second = Some (per_second (lc_tx_bytes current - lc_tx_bytes (bl_counters p)) elapsed),
                      rt_state = Rs_Known, rt_reason = ''rate_from_monotonic_counter_delta''\<rparr>, It_Stable))))"

fun kind_of :: "'f interface_traffic \<Rightarrow> interface_kind" where
  "kind_of t = ri_kind (it_interface t)"

fun add_counters :: "traffic_totals \<Rightarrow> 'f interface_traffic list \<Rightarrow> traffic_totals" where
  "add_counters totals [] = totals"
| "add_counters totals (t # ts) =
     (case ri_counters (it_interface t) of
        None \<Rightarrow> add_counters totals ts
      | Some c \<Rightarrow>
          let all = totals\<lparr>tt_all_interfaces := totals_add c (tt_all_interfaces totals)\<rparr> in
          add_counters (case kind_of t of
             Physical \<Rightarrow> all\<lparr>tt_physical := totals_add c (tt_physical all)\<rparr>
           | Loopback \<Rightarrow> all\<lparr>tt_loopback := totals_add c (tt_loopback all)\<rparr>
           | Tunnel \<Rightarrow> all\<lparr>tt_tunnel := totals_add c (tt_tunnel all)\<rparr>
           | Virtual \<Rightarrow> all\<lparr>tt_other_virtual := totals_add c (tt_other_virtual all)\<rparr>) ts)"

definition zero_totals :: byte_totals where "zero_totals = \<lparr>bt_rx_bytes = 0, bt_tx_bytes = 0\<rparr>"

definition default_totals :: traffic_totals where
  "default_totals = \<lparr>tt_all_interfaces = zero_totals, tt_physical = zero_totals, tt_loopback = zero_totals,
     tt_tunnel = zero_totals, tt_other_virtual = zero_totals\<rparr>"

definition totals_and_coverage ::
  "'f interface_traffic list \<Rightarrow> traffic_totals \<times> network_coverage \<times> capability_state" where
  "totals_and_coverage interfaces =
     (let with_counters = length (filter (\<lambda>t. ri_counters (it_interface t) \<noteq> None) interfaces);
          physical_present = list_ex (\<lambda>t. kind_of t = Physical) interfaces;
          loopback_present = list_ex (\<lambda>t. kind_of t = Loopback) interfaces;
          tunnel_present = list_ex (\<lambda>t. kind_of t = Tunnel) interfaces;
          complete = (with_counters = length interfaces)
      in (add_counters default_totals interfaces,
          \<lparr>nv_reported_interfaces = length interfaces, nv_interfaces_with_counters = with_counters,
           nv_includes_loopback = loopback_present, nv_includes_tunnels = tunnel_present,
           nv_layered_accounting = (if physical_present \<and> tunnel_present then PossibleVpnUnderlayDoubleCounting else NotDetected),
           nv_reason = (if complete then ''all_reported_interfaces_have_counters'' else ''some_interface_counters_missing'')\<rparr>,
          if interfaces = [] then cap_degraded ''rtnetlink_no_interfaces_reported''
          else if complete then cap_healthy ''rtnetlink_system_counters_available''
          else cap_degraded ''rtnetlink_interface_coverage_partial''))"

fun aggregate_reason :: "rate_state \<Rightarrow> string" where
  "aggregate_reason Rs_CounterResetOrWrap = ''aggregate_counter_reset_or_wrap''"
| "aggregate_reason Rs_SamplingGap = ''aggregate_sampling_gap''"
| "aggregate_reason Rs_CountersUnavailable = ''aggregate_counters_unavailable''"
| "aggregate_reason Rs_WarmingUp = ''aggregate_rate_warming_up''"
| "aggregate_reason Rs_Known = ''unreachable''"

definition aggregate_rate :: "('f list \<Rightarrow> 'f) \<Rightarrow> 'f interface_traffic list \<Rightarrow> bool \<Rightarrow> 'f traffic_rate" where
  "aggregate_rate fsum interfaces sampling_gap =
     (if sampling_gap then rate_unavailable Rs_SamplingGap ''sampling_or_suspend_gap''
      else if interfaces = [] then rate_unavailable Rs_CountersUnavailable ''no_interfaces_reported''
      else case find (\<lambda>state. state \<noteq> Rs_Known) (map (rt_state \<circ> it_rate) interfaces) of
        Some state \<Rightarrow> rate_unavailable state (aggregate_reason state)
      | None \<Rightarrow>
          \<lparr>rt_rx_bytes_per_second = Some (fsum (List.map_filter (rt_rx_bytes_per_second \<circ> it_rate) interfaces)),
           rt_tx_bytes_per_second = Some (fsum (List.map_filter (rt_tx_bytes_per_second \<circ> it_rate) interfaces)),
           rt_state = Rs_Known, rt_reason = ''sum_of_complete_interface_rates_may_include_layered_traffic''\<rparr>)"

text \<open>The loop of \<open>observe\<close> over the sorted interfaces, with what it builds up.\<close>

record 'f observed =
  ob_baselines :: "interface_id \<Rightarrow> baseline_counters option"
  ob_names :: "u32 \<Rightarrow> string option"
  ob_events :: "network_event list"
  ob_interfaces :: "'f interface_traffic list"

definition rename_events :: "network_sampler \<Rightarrow> interface_id \<Rightarrow> network_event list" where
  "rename_events s i =
     (case ns_names_by_index s (ii_index i) of
        Some previous_name \<Rightarrow>
          if previous_name \<noteq> ii_name i then [InterfaceRenamed (ii_index i) previous_name (ii_name i)] else []
      | None \<Rightarrow> [])"

definition added_events :: "network_sampler \<Rightarrow> interface_id \<Rightarrow> network_event list" where
  "added_events s i =
     (if ns_observed_once s \<and> i \<notin> set (ns_previous_ids s) \<and> \<not> list_ex (\<lambda>p. ii_index p = ii_index i) (ns_previous_ids s)
      then [InterfaceAdded i] else [])"

fun observe_loop ::
  "(u64 \<Rightarrow> nat \<Rightarrow> 'f) \<Rightarrow> network_sampler \<Rightarrow> nat \<Rightarrow> bool \<Rightarrow> raw_interface list \<Rightarrow> 'f observed \<Rightarrow> 'f observed" where
  "observe_loop per_second s now gap [] acc = acc"
| "observe_loop per_second s now gap (i # is) acc =
     (let (rate, transition) = interface_rate per_second i (ns_baselines s (ri_id i)) now (ns_observed_once s) gap in
      observe_loop per_second s now gap is
        \<lparr>ob_baselines = (case ri_counters i of
            Some c \<Rightarrow> (ob_baselines acc)(ri_id i \<mapsto> \<lparr>bl_observed_boottime = now, bl_counters = c\<rparr>)
          | None \<Rightarrow> ob_baselines acc),
         ob_names = (ob_names acc)(ii_index (ri_id i) \<mapsto> ii_name (ri_id i)),
         ob_events = ob_events acc @ rename_events s (ri_id i) @ added_events s (ri_id i) @
           (if transition = It_CounterResetOrWrap then [Ev_CounterResetOrWrap (ri_id i)] else []),
         ob_interfaces = ob_interfaces acc @ [\<lparr>it_interface = i, it_rate = rate, it_transition = transition\<rparr>]\<rparr>)"

definition sampling_gap :: "network_sampler \<Rightarrow> nat \<Rightarrow> bool" where
  "sampling_gap s now = is_some_and (ns_previous_observed_boottime s) (\<lambda>previous.
     is_none_or (duration_sub now previous) (\<lambda>elapsed. ns_maximum_rate_interval s < elapsed))"

definition removed_events :: "(interface_id list \<Rightarrow> interface_id list) \<Rightarrow> network_sampler \<Rightarrow> interface_id list \<Rightarrow> network_event list" where
  "removed_events walk s current_ids =
     (if ns_observed_once s
      then map InterfaceRemoved (filter (\<lambda>p. p \<notin> set current_ids \<and> \<not> list_ex (\<lambda>c. ii_index c = ii_index p) current_ids)
             (walk (ns_previous_ids s)))
      else [])"

definition sampler_observe ::
  "(interface_id list \<Rightarrow> interface_id list) \<Rightarrow> (u64 \<Rightarrow> nat \<Rightarrow> 'f) \<Rightarrow> ('f list \<Rightarrow> 'f) \<Rightarrow> raw_interface list \<Rightarrow> nat \<Rightarrow>
   network_sampler \<Rightarrow> 'f network_snapshot \<times> network_sampler" where
  "sampler_observe walk per_second fsum raw now s =
     (let raw_interfaces = sort_key (\<lambda>i. ii_index (ri_id i)) raw;
          gap = sampling_gap s now;
          current_ids = remdups (map ri_id raw_interfaces);
          acc = observe_loop per_second s now gap raw_interfaces
            \<lparr>ob_baselines = Map.empty, ob_names = Map.empty,
             ob_events = (if gap then [Ev_SamplingGap] else []) @ removed_events walk s current_ids, ob_interfaces = []\<rparr>;
          (totals, coverage, system_traffic) = totals_and_coverage (ob_interfaces acc)
      in (\<lparr>sn_observed_boottime = now, sn_system_traffic = system_traffic,
           sn_per_application = cap_unsupported ''per_app_collector_not_probed'', sn_coverage = coverage, sn_totals = totals,
           sn_aggregate_rate = aggregate_rate fsum (ob_interfaces acc) gap, sn_interfaces = ob_interfaces acc,
           sn_applications = [], sn_events = ob_events acc\<rparr>,
          s\<lparr>ns_baselines := ob_baselines acc, ns_names_by_index := ob_names acc, ns_previous_ids := current_ids,
            ns_observed_once := True, ns_previous_observed_boottime := Some now\<rparr>))"

section \<open>Per-application traffic\<close>

definition MAX_CGROUP_TRAFFIC_RECORDS :: nat where "MAX_CGROUP_TRAFFIC_RECORDS = 4096"
definition MAX_APPLICATION_TRAFFIC_RECORDS :: nat where "MAX_APPLICATION_TRAFFIC_RECORDS = 1024"
definition CORE_MAX_APPLICATION_KEY_BYTES :: nat where "CORE_MAX_APPLICATION_KEY_BYTES = 512"
definition CAP_NET_ADMIN :: nat where "CAP_NET_ADMIN = 12"
definition CAP_BPF :: nat where "CAP_BPF = 39"

record core_probe_facts =
  cf_effective_uid :: u32
  cf_effective_capabilities :: "u64 option"
  cf_unprivileged_bpf_disabled :: "u32 option"
  cf_kernel_btf_available :: bool
  cf_libbpf_available :: bool
  cf_collector_built :: bool
  cf_collector_attached :: bool

definition assess_core_support :: "core_probe_facts \<Rightarrow> capability_state" where
  "assess_core_support facts =
     (let privileged = cf_effective_uid facts = 0 \<or> is_some_and (cf_effective_capabilities facts) (\<lambda>capabilities.
            capabilities AND push_bit CAP_BPF 1 \<noteq> 0 \<and> capabilities AND push_bit CAP_NET_ADMIN 1 \<noteq> 0) in
      if \<not> privileged \<and> cf_unprivileged_bpf_disabled facts = Some 2
      then cap_unsupported ''unprivileged_bpf_permanently_disabled''
      else if \<not> cf_kernel_btf_available facts then cap_unsupported ''kernel_btf_unavailable''
      else if \<not> cf_libbpf_available facts then cap_unsupported ''libbpf_runtime_unavailable''
      else if \<not> cf_collector_built facts then cap_unsupported ''core_cgroup_collector_not_built''
      else if \<not> cf_collector_attached facts then cap_degraded ''core_cgroup_collector_not_attached''
      else cap_healthy ''core_cgroup_collector_attached'')"

record cgroup_traffic =
  ct_cgroup_id :: u64
  ct_application_key :: string
  ct_rx_bytes :: u64
  ct_tx_bytes :: u64

text \<open>A \<open>PerAppCollectorError\<close> is its reason.\<close>

fun aggregate_loop :: "u64 set \<Rightarrow> (string, u64 \<times> u64) btree \<Rightarrow> cgroup_traffic list \<Rightarrow> (string, (string, u64 \<times> u64) btree) result" where
  "aggregate_loop seen apps [] = Ok apps"
| "aggregate_loop seen apps (record # rs) =
     (if ct_cgroup_id record = 0 then Err ''per_app_cgroup_id_invalid''
      else if ct_cgroup_id record \<in> seen then Err ''per_app_cgroup_id_duplicate''
      else if ct_application_key record = [] \<or> CORE_MAX_APPLICATION_KEY_BYTES < length (ct_application_key record) \<or>
         has_nul (ct_application_key record)
      then Err ''per_app_application_key_invalid''
      else let (rx, tx) = (case bt_get (ct_application_key record) apps of Some t \<Rightarrow> t | None \<Rightarrow> (0, 0)) in
        and_then (ok_or (checked_add rx (ct_rx_bytes record)) ''per_app_counter_overflow'') (\<lambda>rx'.
        and_then (ok_or (checked_add tx (ct_tx_bytes record)) ''per_app_counter_overflow'') (\<lambda>tx'.
          aggregate_loop (insert (ct_cgroup_id record) seen) (bt_insert (ct_application_key record) (rx', tx') apps) rs)))"

definition aggregate_cgroup_traffic :: "cgroup_traffic list \<Rightarrow> (string, application_traffic list) result" where
  "aggregate_cgroup_traffic records =
     (if MAX_CGROUP_TRAFFIC_RECORDS < length records then Err ''per_app_cgroup_record_limit_exceeded''
      else and_then (aggregate_loop {} [] records) (\<lambda>applications.
        if MAX_APPLICATION_TRAFFIC_RECORDS < length applications then Err ''per_app_application_record_limit_exceeded''
        else Ok (map (\<lambda>(key, rx, tx). \<lparr>at_application_key = key, at_rx_bytes = rx, at_tx_bytes = tx\<rparr>) applications)))"

text \<open>\<open>collect_per_application\<close>: the collector is its capability and the outcome of its \<open>collect\<close>, and
  \<open>probed\<close> the answer of the host probe when there is none.\<close>

definition collect_per_application ::
  "capability_state \<Rightarrow> (capability_state \<times> (string, cgroup_traffic list) result) option \<Rightarrow> 'f network_snapshot \<Rightarrow> 'f network_snapshot" where
  "collect_per_application probed collector snapshot =
     (case collector of
        None \<Rightarrow> snapshot\<lparr>sn_per_application := probed\<rparr>
      | Some (capability, collected) \<Rightarrow>
          if nc_status capability \<in> {Net_Unsupported, Net_Unreachable}
          then snapshot\<lparr>sn_per_application := capability, sn_applications := []\<rparr>
          else (case and_then collected aggregate_cgroup_traffic of
              Inr applications \<Rightarrow> snapshot\<lparr>sn_per_application := capability, sn_applications := applications\<rparr>
            | Inl error \<Rightarrow> snapshot\<lparr>sn_per_application := cap_degraded error, sn_applications := []\<rparr>))"

section \<open>The comparison of two readings\<close>

text \<open>A reading is what was observed and when. The counters it has for an interface are those of the last entry
  with that identity that has counters.\<close>

type_synonym reading = "raw_interface list \<times> nat"

definition reading_counters :: "raw_interface list \<Rightarrow> interface_id \<Rightarrow> link_counters option" where
  "reading_counters raw i = map_of (rev (List.map_filter (\<lambda>r. map_option (Pair (ri_id r)) (ri_counters r)) raw)) i"

definition reading_name :: "raw_interface list \<Rightarrow> u32 \<Rightarrow> string option" where
  "reading_name raw n = map_of (rev (map (\<lambda>r. (ii_index (ri_id r), ii_name (ri_id r))) raw)) n"

text \<open>The counters an interface has gained since the previous reading, and the time that took, when both are
  known: the readings are in order and at most the maximal interval apart, and no counter went back or changed its width.\<close>

definition counted_since :: "nat \<Rightarrow> reading option \<Rightarrow> nat \<Rightarrow> raw_interface \<Rightarrow> (u64 \<times> u64 \<times> nat) option" where
  "counted_since max_interval previous now i =
     (case (previous, ri_counters i) of
        (Some (raw, t), Some c) \<Rightarrow>
          (case reading_counters raw (ri_id i) of
             Some p \<Rightarrow>
               if t < now \<and> now - t \<le> max_interval \<and> lc_width c = lc_width p \<and> lc_rx_bytes p \<le> lc_rx_bytes c \<and>
                  lc_tx_bytes p \<le> lc_tx_bytes c
               then Some (lc_rx_bytes c - lc_rx_bytes p, lc_tx_bytes c - lc_tx_bytes p, now - t) else None
           | None \<Rightarrow> None)
      | _ \<Rightarrow> None)"

text \<open>The sampler remembers the previous reading and nothing else.\<close>

fun remembers :: "reading option \<Rightarrow> network_sampler \<Rightarrow> bool" where
  "remembers None s \<longleftrightarrow> ns_baselines s = Map.empty \<and> ns_names_by_index s = Map.empty \<and> ns_previous_ids s = [] \<and>
     \<not> ns_observed_once s \<and> ns_previous_observed_boottime s = None"
| "remembers (Some (raw, t)) s \<longleftrightarrow>
     ns_baselines s = (\<lambda>i. map_option (\<lambda>c. \<lparr>bl_observed_boottime = t, bl_counters = c\<rparr>) (reading_counters raw i)) \<and>
     ns_names_by_index s = reading_name raw \<and> set (ns_previous_ids s) = ri_id ` set raw \<and>
     ns_observed_once s \<and> ns_previous_observed_boottime s = Some t"

lemma observe_loop_interfaces:
  "ob_interfaces (observe_loop per_second s now gap is acc) = ob_interfaces acc @
     map (\<lambda>i. let (rate, transition) = interface_rate per_second i (ns_baselines s (ri_id i)) now (ns_observed_once s) gap in
        \<lparr>it_interface = i, it_rate = rate, it_transition = transition\<rparr>) is"
  by (induction "is" arbitrary: acc) (auto simp: Let_def split: prod.splits)

lemma observe_loop_baselines:
  "ob_baselines (observe_loop per_second s now gap is acc) = ob_baselines acc ++
     (\<lambda>i. map_option (\<lambda>c. \<lparr>bl_observed_boottime = now, bl_counters = c\<rparr>) (reading_counters is i))"
  by (induction "is" arbitrary: acc)
     (auto simp: Let_def reading_counters_def map_filter_simps map_add_def fun_eq_iff split: prod.splits option.splits)

lemma observe_loop_names:
  "ob_names (observe_loop per_second s now gap is acc) = ob_names acc ++ reading_name is"
  by (induction "is" arbitrary: acc)
     (auto simp: Let_def reading_name_def map_add_def fun_eq_iff split: prod.splits option.splits)

text \<open>Sorting by the index is stable, so it does not change what a reading says of an identity or an index.\<close>

lemma map_filter_filter: "List.map_filter f xs = map (the \<circ> f) (filter (\<lambda>x. f x \<noteq> None) xs)"
  by (simp add: List.map_filter_def)

lemma map_of_rev_filter: "map_of (rev xs) k = map_of (rev (filter (\<lambda>e. fst e = k) xs)) k"
  by (induction xs) (auto simp: map_add_def split: option.splits)

lemma reading_counters_filter:
  "reading_counters raw i = reading_counters (filter (\<lambda>r. ii_index (ri_id r) = ii_index i) raw) i"
proof -
  have *: "filter (\<lambda>e. fst e = i) (List.map_filter (\<lambda>r. map_option (Pair (ri_id r)) (ri_counters r)) raw) =
      filter (\<lambda>e. fst e = i) (List.map_filter (\<lambda>r. map_option (Pair (ri_id r)) (ri_counters r))
        (filter (\<lambda>r. ii_index (ri_id r) = ii_index i) raw))"
    by (induction raw) (auto simp: map_filter_simps split: option.splits)
  show ?thesis unfolding reading_counters_def by (subst (1 2) map_of_rev_filter) (simp only: *)
qed

lemma reading_name_filter: "reading_name raw n = reading_name (filter (\<lambda>r. ii_index (ri_id r) = n) raw) n"
proof -
  have *: "filter (\<lambda>e. fst e = n) (map (\<lambda>r. (ii_index (ri_id r), ii_name (ri_id r))) raw) =
      filter (\<lambda>e. fst e = n) (map (\<lambda>r. (ii_index (ri_id r), ii_name (ri_id r))) (filter (\<lambda>r. ii_index (ri_id r) = n) raw))"
    by (induction raw) auto
  show ?thesis unfolding reading_name_def by (subst (1 2) map_of_rev_filter) (simp only: *)
qed

lemma reading_sorted [simp]:
  "reading_counters (sort_key (\<lambda>i. ii_index (ri_id i)) raw) = reading_counters raw"
  "reading_name (sort_key (\<lambda>i. ii_index (ri_id i)) raw) = reading_name raw"
  using sort_key_stable [of "\<lambda>i. ii_index (ri_id i)" _ raw]
  by (auto simp: fun_eq_iff reading_counters_filter [of "sort_key _ _"] reading_counters_filter [of raw]
      reading_name_filter [of "sort_key _ _"] reading_name_filter [of raw])

lemma remembers_observe:
  "remembers (Some (raw, now)) (snd (sampler_observe walk per_second fsum raw now s))"
  by (auto simp: sampler_observe_def Let_def observe_loop_baselines observe_loop_names split: prod.splits)

lemma observe_config [simp]:
  "ns_maximum_rate_interval (snd (sampler_observe walk per_second fsum raw now s)) = ns_maximum_rate_interval s"
  by (simp add: sampler_observe_def Let_def split: prod.splits)

text \<open>Histories of a sampler, and the reading they leave as the previous one.\<close>

datatype sampler_op = Observe "raw_interface list" nat | Reset

fun sampler_step ::
  "(interface_id list \<Rightarrow> interface_id list) \<Rightarrow> (u64 \<Rightarrow> nat \<Rightarrow> 'f) \<Rightarrow> ('f list \<Rightarrow> 'f) \<Rightarrow> network_sampler \<Rightarrow> sampler_op \<Rightarrow> network_sampler" where
  "sampler_step walk per_second fsum s (Observe raw now) = snd (sampler_observe walk per_second fsum raw now s)"
| "sampler_step walk per_second fsum s Reset = sampler_reset s"

fun previous_reading :: "reading option \<Rightarrow> sampler_op list \<Rightarrow> reading option" where
  "previous_reading prev [] = prev"
| "previous_reading prev (Observe raw now # ops) = previous_reading (Some (raw, now)) ops"
| "previous_reading prev (Reset # ops) = previous_reading None ops"

lemma history_remembers:
  "remembers prev s \<Longrightarrow>
   remembers (previous_reading prev ops) (foldl (sampler_step walk per_second fsum) s ops) \<and>
   ns_maximum_rate_interval (foldl (sampler_step walk per_second fsum) s ops) = ns_maximum_rate_interval s"
proof (induction ops arbitrary: prev s)
  case (Cons op ops)
  show ?case
  proof (cases op)
    case (Observe raw now)
    then show ?thesis using Cons.IH [OF remembers_observe [of raw now walk per_second fsum s]] by simp
  next
    case Reset
    have "remembers None (sampler_reset s)" by (simp add: sampler_reset_def)
    from Cons.IH [OF this] show ?thesis using Reset by (simp add: sampler_reset_def)
  qed
qed simp

definition sampler_after ::
  "(interface_id list \<Rightarrow> interface_id list) \<Rightarrow> (u64 \<Rightarrow> nat \<Rightarrow> 'f) \<Rightarrow> ('f list \<Rightarrow> 'f) \<Rightarrow> nat \<Rightarrow> sampler_op list \<Rightarrow> network_sampler" where
  "sampler_after walk per_second fsum max_interval ops = foldl (sampler_step walk per_second fsum) (sampler_new max_interval) ops"

lemma sampler_after_remembers:
  "remembers (previous_reading None ops) (sampler_after walk per_second fsum max_interval ops)"
  "ns_maximum_rate_interval (sampler_after walk per_second fsum max_interval ops) = max_interval"
  using history_remembers [of None "sampler_new max_interval" ops walk per_second fsum] by (simp_all add: sampler_after_def sampler_new_def)

text \<open>The rate of one interface against the previous reading.\<close>

definition known_rate :: "(u64 \<Rightarrow> nat \<Rightarrow> 'f) \<Rightarrow> u64 \<times> u64 \<times> nat \<Rightarrow> 'f traffic_rate" where
  "known_rate per_second g = (case g of (rx, tx, dt) \<Rightarrow>
     \<lparr>rt_rx_bytes_per_second = Some (per_second rx dt), rt_tx_bytes_per_second = Some (per_second tx dt),
      rt_state = Rs_Known, rt_reason = ''rate_from_monotonic_counter_delta''\<rparr>)"

definition rate_agrees :: "(u64 \<Rightarrow> nat \<Rightarrow> 'f) \<Rightarrow> (u64 \<times> u64 \<times> nat) option \<Rightarrow> 'f traffic_rate \<Rightarrow> bool" where
  "rate_agrees per_second g r = (case g of
      Some g \<Rightarrow> r = known_rate per_second g
    | None \<Rightarrow> rt_state r \<noteq> Rs_Known \<and> rt_rx_bytes_per_second r = None \<and> rt_tx_bytes_per_second r = None)"

lemma rate_agrees_Known: "rate_agrees per_second g r \<Longrightarrow> rt_state r = Rs_Known \<longleftrightarrow> g \<noteq> None"
  by (auto simp: rate_agrees_def known_rate_def split: option.splits prod.splits)

lemma interface_rate_agrees:
  assumes "remembers prev s"
  shows "rate_agrees per_second (counted_since (ns_maximum_rate_interval s) prev now i)
    (fst (interface_rate per_second i (ns_baselines s (ri_id i)) now (ns_observed_once s) (sampling_gap s now)))"
proof (cases prev)
  case None
  then show ?thesis
    using assms by (auto simp: rate_agrees_def counted_since_def interface_rate_def rate_unavailable_def split: option.splits)
next
  case (Some reading)
  then show ?thesis
    using assms
    by (cases reading) (auto simp: rate_agrees_def counted_since_def interface_rate_def rate_unavailable_def sampling_gap_def
        duration_sub_def known_rate_def not_le not_less split: option.splits if_splits prod.splits)
qed

lemma gap_counts_nothing:
  "remembers prev s \<Longrightarrow> sampling_gap s now \<Longrightarrow> counted_since (ns_maximum_rate_interval s) prev now i = None"
  by (cases prev) (auto simp: sampling_gap_def duration_sub_def counted_since_def split: option.splits if_splits)

lemma observe_interfaces:
  "sn_interfaces (fst (sampler_observe walk per_second fsum raw now s)) =
     map (\<lambda>i. let (rate, transition) = interface_rate per_second i (ns_baselines s (ri_id i)) now (ns_observed_once s) (sampling_gap s now) in
        \<lparr>it_interface = i, it_rate = rate, it_transition = transition\<rparr>) (sort_key (\<lambda>i. ii_index (ri_id i)) raw)"
  by (simp add: sampler_observe_def Let_def observe_loop_interfaces split: prod.splits)

lemma observe_aggregate:
  "sn_aggregate_rate (fst (sampler_observe walk per_second fsum raw now s)) =
     aggregate_rate fsum (sn_interfaces (fst (sampler_observe walk per_second fsum raw now s))) (sampling_gap s now)"
  by (simp add: sampler_observe_def Let_def split: prod.splits)

lemma aggregate_rate_Known:
  "rt_state (aggregate_rate fsum is gap) = Rs_Known \<longleftrightarrow> \<not> gap \<and> is \<noteq> [] \<and> (\<forall>t \<in> set is. rt_state (it_rate t) = Rs_Known)"
proof (cases "find (\<lambda>state. state \<noteq> Rs_Known) (map (rt_state \<circ> it_rate) is)")
  case None
  then show ?thesis using iffD1 [OF find_None_iff None] by (auto simp: aggregate_rate_def rate_unavailable_def)
next
  case (Some st)
  then have "st \<noteq> Rs_Known" "st \<in> set (map (rt_state \<circ> it_rate) is)" by (auto simp: find_Some_iff)
  then show ?thesis using Some by (auto simp: aggregate_rate_def rate_unavailable_def)
qed

section \<open>Totals\<close>

text \<open>The bytes that the interfaces of some kinds report.\<close>

definition kind_total :: "(link_counters \<Rightarrow> u64) \<Rightarrow> interface_kind set \<Rightarrow> raw_interface list \<Rightarrow> nat" where
  "kind_total sel kinds raw =
     (\<Sum>i \<leftarrow> filter (\<lambda>i. ri_kind i \<in> kinds) raw. case ri_counters i of Some c \<Rightarrow> unat (sel c) | None \<Rightarrow> 0)"

lemma kind_total_sorted: "kind_total sel kinds (sort_key f raw) = kind_total sel kinds raw"
proof -
  have "mset (map h (filter P (sort_key f raw))) = mset (map h (filter P raw))" for h :: "raw_interface \<Rightarrow> nat" and P
    by (simp add: mset_filter)
  then show ?thesis unfolding kind_total_def by (metis sum_mset_sum_list)
qed

definition saturated :: "nat \<Rightarrow> nat" where
  "saturated n = min n (2 ^ 64 - 1)"

lemma saturated_step: "saturated (unat (saturating_add a b) + n) = saturated (unat a + (unat b + n))" for a b :: u64
  by (simp add: saturated_def unat_saturating_add)

lemma saturated_word: "saturated (unat a) = unat a" for a :: u64
  using unat_less_pow [of a] by (simp add: saturated_def)

definition totals_match :: "byte_totals \<Rightarrow> interface_kind set \<Rightarrow> raw_interface list \<Rightarrow> byte_totals \<Rightarrow> bool" where
  "totals_match t kinds raw t' \<longleftrightarrow>
     unat (bt_rx_bytes t') = saturated (unat (bt_rx_bytes t) + kind_total lc_rx_bytes kinds raw) \<and>
     unat (bt_tx_bytes t') = saturated (unat (bt_tx_bytes t) + kind_total lc_tx_bytes kinds raw)"

lemma totals_match_Nil: "totals_match t kinds [] t"
  by (simp add: totals_match_def kind_total_def saturated_word)

lemma totals_match_skip:
  "ri_counters i = None \<or> ri_kind i \<notin> kinds \<Longrightarrow> totals_match t kinds (i # raw) t' \<longleftrightarrow> totals_match t kinds raw t'"
  by (auto simp: totals_match_def kind_total_def)

lemma totals_match_add:
  "ri_counters i = Some c \<Longrightarrow> ri_kind i \<in> kinds \<Longrightarrow>
   totals_match t kinds (i # raw) t' \<longleftrightarrow> totals_match (totals_add c t) kinds raw t'"
  by (simp add: totals_match_def kind_total_def totals_add_def saturated_step)

lemma add_counters_match:
  "totals_match (tt_all_interfaces t) UNIV (map it_interface ts) (tt_all_interfaces (add_counters t ts)) \<and>
   totals_match (tt_physical t) {Physical} (map it_interface ts) (tt_physical (add_counters t ts)) \<and>
   totals_match (tt_loopback t) {Loopback} (map it_interface ts) (tt_loopback (add_counters t ts)) \<and>
   totals_match (tt_tunnel t) {Tunnel} (map it_interface ts) (tt_tunnel (add_counters t ts)) \<and>
   totals_match (tt_other_virtual t) {Virtual} (map it_interface ts) (tt_other_virtual (add_counters t ts))"
proof (induction t ts rule: add_counters.induct)
  case (1 totals)
  then show ?case by (simp add: totals_match_Nil)
next
  case (2 totals t ts)
  show ?case
  proof (cases "ri_counters (it_interface t)")
    case None
    then show ?thesis using "2.IH"(1) by (simp add: totals_match_skip)
  next
    case (Some c)
    then show ?thesis using "2.IH"(2) [OF Some refl]
      by (cases "kind_of t") (simp_all add: totals_match_skip totals_match_add Let_def)
  qed
qed

section \<open>Events\<close>

lemma observe_loop_events:
  "set (ob_events (observe_loop per_second s now gap is acc)) = set (ob_events acc) \<union>
     (\<Union>i \<in> set is. set (rename_events s (ri_id i)) \<union> set (added_events s (ri_id i)) \<union>
        (if snd (interface_rate per_second i (ns_baselines s (ri_id i)) now (ns_observed_once s) gap) = It_CounterResetOrWrap
         then {Ev_CounterResetOrWrap (ri_id i)} else {}))"
  by (induction "is" arbitrary: acc) (auto simp: Let_def split: prod.splits)

lemma observe_events:
  "set (sn_events (fst (sampler_observe walk per_second fsum raw now s))) =
     (if sampling_gap s now then {Ev_SamplingGap} else {}) \<union> set (removed_events walk s (remdups (map ri_id (sort_key (\<lambda>i. ii_index (ri_id i)) raw)))) \<union>
     (\<Union>i \<in> set raw. set (rename_events s (ri_id i)) \<union> set (added_events s (ri_id i)) \<union>
        (if snd (interface_rate per_second i (ns_baselines s (ri_id i)) now (ns_observed_once s) (sampling_gap s now)) = It_CounterResetOrWrap
         then {Ev_CounterResetOrWrap (ri_id i)} else {}))"
  by (simp add: sampler_observe_def Let_def observe_loop_events split: prod.splits)

text \<open>The indices of a reading.\<close>

definition indices :: "raw_interface list \<Rightarrow> u32 set" where
  "indices raw = ii_index ` ri_id ` set raw"

lemma list_ex_index: "list_ex (\<lambda>p. ii_index p = n) ps \<longleftrightarrow> n \<in> ii_index ` set ps"
  by (induction ps) auto

lemma added_events_iff:
  "remembers prev s \<Longrightarrow> InterfaceAdded j \<in> set (added_events s i) \<longleftrightarrow>
     j = i \<and> (\<exists>raw t. prev = Some (raw, t) \<and> ii_index i \<notin> indices raw)"
  by (cases prev) (auto simp: added_events_def indices_def list_ex_index)

lemma rename_events_iff:
  "remembers prev s \<Longrightarrow> InterfaceRenamed n a b \<in> set (rename_events s i) \<longleftrightarrow>
     n = ii_index i \<and> b = ii_name i \<and> a \<noteq> b \<and> (\<exists>raw t. prev = Some (raw, t) \<and> reading_name raw n = Some a)"
  by (cases prev) (auto simp: rename_events_def split: option.splits)

lemma removed_events_iff:
  assumes "remembers prev s" "set (walk (ns_previous_ids s)) = set (ns_previous_ids s)"
  shows "InterfaceRemoved j \<in> set (removed_events walk s (remdups (map ri_id (sort_key f raw)))) \<longleftrightarrow>
    (\<exists>raw0 t. prev = Some (raw0, t) \<and> j \<in> ri_id ` set raw0 \<and> ii_index j \<notin> indices raw)"
  using assms by (cases prev) (auto simp: removed_events_def indices_def list_ex_index image_image)

lemma event_kinds:
  "InterfaceAdded j \<notin> set (rename_events s i)" "InterfaceAdded j \<notin> set (removed_events walk s is)"
  "InterfaceRemoved j \<notin> set (rename_events s i)" "InterfaceRemoved j \<notin> set (added_events s i)"
  "InterfaceRenamed n a b \<notin> set (added_events s i)" "InterfaceRenamed n a b \<notin> set (removed_events walk s is)"
  by (auto simp: rename_events_def added_events_def removed_events_def split: option.splits)

section \<open>Aggregation\<close>

text \<open>The reference: the applications in order, each with the sums of its cgroups' counters.\<close>

definition app_sum :: "(cgroup_traffic \<Rightarrow> u64) \<Rightarrow> cgroup_traffic list \<Rightarrow> string \<Rightarrow> nat" where
  "app_sum sel rs k = (\<Sum>r \<leftarrow> filter (\<lambda>r. ct_application_key r = k) rs. unat (sel r))"

definition app_keys :: "cgroup_traffic list \<Rightarrow> string set" where
  "app_keys rs = ct_application_key ` set rs"

definition app_sums :: "cgroup_traffic list \<Rightarrow> application_traffic list" where
  "app_sums rs = map (\<lambda>k. \<lparr>at_application_key = k, at_rx_bytes = of_nat (app_sum ct_rx_bytes rs k),
     at_tx_bytes = of_nat (app_sum ct_tx_bytes rs k)\<rparr>) (sorted_list_of_set (app_keys rs))"

definition records_ok :: "cgroup_traffic list \<Rightarrow> bool" where
  "records_ok rs \<longleftrightarrow> distinct (map ct_cgroup_id rs) \<and>
     (\<forall>r \<in> set rs. ct_cgroup_id r \<noteq> 0 \<and> name_ok 512 (ct_application_key r) \<and>
        app_sum ct_rx_bytes rs (ct_application_key r) < 2 ^ 64 \<and> app_sum ct_tx_bytes rs (ct_application_key r) < 2 ^ 64)"

definition apps_of :: "(string, u64 \<times> u64) btree \<Rightarrow> cgroup_traffic list \<Rightarrow> bool" where
  "apps_of apps rs \<longleftrightarrow> bt_ok apps \<and> fst ` set apps = app_keys rs \<and>
     (\<forall>k rx tx. bt_get k apps = Some (rx, tx) \<longrightarrow> unat rx = app_sum ct_rx_bytes rs k \<and> unat tx = app_sum ct_tx_bytes rs k)"

lemma app_sum_snoc:
  "app_sum sel (rs @ [r]) k = app_sum sel rs k + (if ct_application_key r = k then unat (sel r) else 0)"
  by (simp add: app_sum_def)

lemma app_sum_append: "app_sum sel (xs @ ys) k = app_sum sel xs k + app_sum sel ys k"
  by (simp add: app_sum_def)

lemma app_sum_absent: "k \<notin> app_keys rs \<Longrightarrow> app_sum sel rs k = 0"
  by (auto simp: app_sum_def app_keys_def filter_empty_conv)

lemma apps_of_get:
  assumes "apps_of apps rs" "(case bt_get k apps of Some t \<Rightarrow> t | None \<Rightarrow> (0, 0)) = (rx, tx)"
  shows "unat rx = app_sum ct_rx_bytes rs k \<and> unat tx = app_sum ct_tx_bytes rs k"
proof (cases "bt_get k apps")
  case None
  then have "k \<notin> app_keys rs" using assms(1) by (auto simp: apps_of_def bt_get_None_iff)
  then show ?thesis using None assms(2) by (simp add: app_sum_absent)
qed (use assms in \<open>auto simp: apps_of_def\<close>)

lemma apps_of_insert:
  assumes "apps_of apps rs" "unat rx = app_sum ct_rx_bytes (rs @ [r]) (ct_application_key r)"
    "unat tx = app_sum ct_tx_bytes (rs @ [r]) (ct_application_key r)"
  shows "apps_of (bt_insert (ct_application_key r) (rx, tx) apps) (rs @ [r])"
  using assms by (auto simp: apps_of_def app_keys_def bt_keys_insert app_sum_snoc)

text \<open>What the checks of one record and of a list of records amount to, after the records before.\<close>

definition record_ok :: "cgroup_traffic list \<Rightarrow> cgroup_traffic \<Rightarrow> bool" where
  "record_ok before r \<longleftrightarrow> ct_cgroup_id r \<noteq> 0 \<and> ct_cgroup_id r \<notin> ct_cgroup_id ` set before \<and> name_ok 512 (ct_application_key r) \<and>
     app_sum ct_rx_bytes (before @ [r]) (ct_application_key r) < 2 ^ 64 \<and>
     app_sum ct_tx_bytes (before @ [r]) (ct_application_key r) < 2 ^ 64"

fun each_ok :: "cgroup_traffic list \<Rightarrow> cgroup_traffic list \<Rightarrow> bool" where
  "each_ok before [] = True"
| "each_ok before (r # rs) = (record_ok before r \<and> each_ok (before @ [r]) rs)"

lemma aggregate_loop_Ok:
  assumes "apps_of apps before"
  shows "aggregate_loop (ct_cgroup_id ` set before) apps rs = Ok apps' \<Longrightarrow> each_ok before rs \<and> apps_of apps' (before @ rs)"
    and "each_ok before rs \<Longrightarrow> is_ok (aggregate_loop (ct_cgroup_id ` set before) apps rs)"
proof -
  have "(aggregate_loop (ct_cgroup_id ` set before) apps rs = Ok apps' \<longrightarrow> each_ok before rs \<and> apps_of apps' (before @ rs)) \<and>
      (each_ok before rs \<longrightarrow> is_ok (aggregate_loop (ct_cgroup_id ` set before) apps rs))"
    using assms
  proof (induction rs arbitrary: apps before)
    case (Cons r rs)
    let ?k = "ct_application_key r"
    obtain rx tx where t: "(case bt_get ?k apps of Some t \<Rightarrow> t | None \<Rightarrow> (0, 0)) = (rx, tx)" by fastforce
    note get = apps_of_get [OF Cons.prems t]
    have add: "checked_add rx (ct_rx_bytes r) = Some rx' \<longleftrightarrow> unat rx' = app_sum ct_rx_bytes (before @ [r]) ?k"
      "checked_add tx (ct_tx_bytes r) = Some tx' \<longleftrightarrow> unat tx' = app_sum ct_tx_bytes (before @ [r]) ?k" for rx' tx'
      using get by (auto simp: checked_add_Some app_sum_snoc word_unat_eq_iff unat_add_lem [THEN iffD1])
        (metis unat_add_lem unat_less_pow word_unat_eq_iff)+
    have small: "checked_add rx (ct_rx_bytes r) \<noteq> None \<longleftrightarrow> app_sum ct_rx_bytes (before @ [r]) ?k < 2 ^ 64"
      "checked_add tx (ct_tx_bytes r) \<noteq> None \<longleftrightarrow> app_sum ct_tx_bytes (before @ [r]) ?k < 2 ^ 64"
      using get by (auto simp: checked_add_def app_sum_snoc)
    show ?case
    proof (cases "record_ok before r")
      case True
      then obtain rx' tx' where c: "checked_add rx (ct_rx_bytes r) = Some rx'" "checked_add tx (ct_tx_bytes r) = Some tx'"
        using small by (auto simp: record_ok_def)
      have ids: "insert (ct_cgroup_id r) (ct_cgroup_id ` set before) = ct_cgroup_id ` set (before @ [r])" by simp
      have "aggregate_loop (ct_cgroup_id ` set before) apps (r # rs) =
          aggregate_loop (ct_cgroup_id ` set (before @ [r])) (bt_insert ?k (rx', tx') apps) rs"
        using True t c unfolding ids [symmetric]
        by (auto simp: record_ok_def name_ok_def CORE_MAX_APPLICATION_KEY_BYTES_def)
      moreover have "apps_of (bt_insert ?k (rx', tx') apps) (before @ [r])"
        using c add by (intro apps_of_insert [OF Cons.prems]) auto
      ultimately show ?thesis using Cons.IH True by fastforce
    next
      case False
      then have "\<not> is_ok (aggregate_loop (ct_cgroup_id ` set before) apps (r # rs))"
        using t small by (auto simp: record_ok_def name_ok_def CORE_MAX_APPLICATION_KEY_BYTES_def is_ok_iff and_then_eq_Ok)
      then show ?thesis using False by auto
    qed
  qed auto
  then show "aggregate_loop (ct_cgroup_id ` set before) apps rs = Ok apps' \<Longrightarrow> each_ok before rs \<and> apps_of apps' (before @ rs)"
    "each_ok before rs \<Longrightarrow> is_ok (aggregate_loop (ct_cgroup_id ` set before) apps rs)" by blast+
qed

lemma each_ok_append: "each_ok before (xs @ ys) \<longleftrightarrow> each_ok before xs \<and> each_ok (before @ xs) ys"
  by (induction xs arbitrary: before) auto

lemma records_ok_snoc: "records_ok (rs @ [r]) \<longleftrightarrow> records_ok rs \<and> record_ok rs r"
  by (auto simp: records_ok_def record_ok_def app_sum_snoc split: if_splits)

lemma each_ok_records: "each_ok [] rs \<longleftrightarrow> records_ok rs"
  by (induction rs rule: rev_induct) (simp_all add: each_ok_append records_ok_snoc, simp add: records_ok_def)

lemma of_nat_of_unat: "of_nat (unat w) = (w :: u64)"
  by simp

lemma apps_of_sums:
  assumes "apps_of apps rs"
  shows "map (\<lambda>(key, rx, tx). \<lparr>at_application_key = key, at_rx_bytes = rx, at_tx_bytes = tx\<rparr>) apps = app_sums rs"
proof -
  have ok: "bt_ok apps" and keys: "fst ` set apps = app_keys rs" using assms by (auto simp: apps_of_def)
  have sorted: "map fst apps = sorted_list_of_set (app_keys rs)"
    using ok keys strict_sorted_iff [of "map fst apps"] sorted_list_of_set.idem_if_sorted_distinct [of "map fst apps"]
    by (simp add: bt_ok_def)
  have "(case e of (key, rx, tx) \<Rightarrow> \<lparr>at_application_key = key, at_rx_bytes = rx, at_tx_bytes = tx\<rparr>) =
      \<lparr>at_application_key = fst e, at_rx_bytes = of_nat (app_sum ct_rx_bytes rs (fst e)),
       at_tx_bytes = of_nat (app_sum ct_tx_bytes rs (fst e))\<rparr>" if "e \<in> set apps" for e
  proof -
    obtain k rx tx where e: "e = (k, rx, tx)" using prod_cases3 by blast
    then have "bt_get k apps = Some (rx, tx)"
      using that ok by (simp add: bt_get_def bt_ok_distinct)
    then have "unat rx = app_sum ct_rx_bytes rs k" "unat tx = app_sum ct_tx_bytes rs k"
      using assms by (auto simp: apps_of_def)
    then have "rx = of_nat (app_sum ct_rx_bytes rs k)" "tx = of_nat (app_sum ct_tx_bytes rs k)"
      using of_nat_of_unat [of rx] of_nat_of_unat [of tx] by simp_all
    then show ?thesis by (simp add: e)
  qed
  then have "map (\<lambda>(key, rx, tx). \<lparr>at_application_key = key, at_rx_bytes = rx, at_tx_bytes = tx\<rparr>) apps =
      map (\<lambda>k. \<lparr>at_application_key = k, at_rx_bytes = of_nat (app_sum ct_rx_bytes rs k),
        at_tx_bytes = of_nat (app_sum ct_tx_bytes rs k)\<rparr>) (map fst apps)" by simp
  then show ?thesis unfolding sorted app_sums_def .
qed

section \<open>Properties\<close>

text \<open>The snapshot of an observation after a history.\<close>

definition sampler_snapshot ::
  "(interface_id list \<Rightarrow> interface_id list) \<Rightarrow> (u64 \<Rightarrow> nat \<Rightarrow> 'f) \<Rightarrow> ('f list \<Rightarrow> 'f) \<Rightarrow> nat \<Rightarrow> sampler_op list \<Rightarrow> reading \<Rightarrow>
   'f network_snapshot" where
  "sampler_snapshot walk per_second fsum max_interval ops current =
     fst (sampler_observe walk per_second fsum (fst current) (snd current) (sampler_after walk per_second fsum max_interval ops))"

text \<open>The total rate against the gains of the interfaces: the sum of their rates, received and sent, when
  there are interfaces and every gain is known, and unknown otherwise.\<close>

definition total_agrees ::
  "(u64 \<Rightarrow> nat \<Rightarrow> 'f) \<Rightarrow> ('f list \<Rightarrow> 'f) \<Rightarrow> (u64 \<times> u64 \<times> nat) option list \<Rightarrow> 'f traffic_rate \<Rightarrow> bool" where
  "total_agrees per_second fsum gains r \<longleftrightarrow>
     (if gains \<noteq> [] \<and> None \<notin> set gains
      then rt_state r = Rs_Known \<and>
        rt_rx_bytes_per_second r = Some (fsum (map (\<lambda>g. case the g of (rx, tx, dt) \<Rightarrow> per_second rx dt) gains)) \<and>
        rt_tx_bytes_per_second r = Some (fsum (map (\<lambda>g. case the g of (rx, tx, dt) \<Rightarrow> per_second tx dt) gains))
      else rt_state r \<noteq> Rs_Known \<and> rt_rx_bytes_per_second r = None \<and> rt_tx_bytes_per_second r = None)"

text \<open>The totals of all interfaces and of each kind.\<close>

definition totals_of_kinds :: "raw_interface list \<Rightarrow> traffic_totals \<Rightarrow> bool" where
  "totals_of_kinds raw t \<longleftrightarrow>
     totals_match zero_totals UNIV raw (tt_all_interfaces t) \<and> totals_match zero_totals {Physical} raw (tt_physical t) \<and>
     totals_match zero_totals {Loopback} raw (tt_loopback t) \<and> totals_match zero_totals {Tunnel} raw (tt_tunnel t) \<and>
     totals_match zero_totals {Virtual} raw (tt_other_virtual t)"

lemma aggregate_rate_unknown:
  "rt_state (aggregate_rate fsum is gap) \<noteq> Rs_Known \<Longrightarrow>
   rt_rx_bytes_per_second (aggregate_rate fsum is gap) = None \<and> rt_tx_bytes_per_second (aggregate_rate fsum is gap) = None"
  by (auto simp: aggregate_rate_def rate_unavailable_def split: option.splits if_splits)

lemma aggregate_rate_sums:
  assumes "rt_state (aggregate_rate fsum is gap) = Rs_Known"
    and "\<forall>t \<in> set is. \<exists>g. gain (it_interface t) = Some g \<and> it_rate t = known_rate per_second g"
  shows "total_agrees per_second fsum (map (gain \<circ> it_interface) is) (aggregate_rate fsum is gap)"
proof -
  have known: "\<not> gap" "is \<noteq> []" "\<forall>t \<in> set is. rt_state (it_rate t) = Rs_Known"
    using assms(1) unfolding aggregate_rate_Known by simp_all
  then have "find (\<lambda>state. state \<noteq> Rs_Known) (map (rt_state \<circ> it_rate) is) = None" by (auto simp: find_None_iff)
  moreover have "List.map_filter (rt_rx_bytes_per_second \<circ> it_rate) is =
      map (\<lambda>g. case the g of (rx, tx, dt) \<Rightarrow> per_second rx dt) (map (gain \<circ> it_interface) is)"
    "List.map_filter (rt_tx_bytes_per_second \<circ> it_rate) is =
      map (\<lambda>g. case the g of (rx, tx, dt) \<Rightarrow> per_second tx dt) (map (gain \<circ> it_interface) is)"
    using assms(2) by (induction "is") (auto simp: map_filter_simps known_rate_def split: prod.splits)
  moreover have "None \<notin> set (map (gain \<circ> it_interface) is)" using assms(2) by force
  ultimately show ?thesis using known by (simp add: total_agrees_def aggregate_rate_def)
qed

text \<open>C33: after any history of observations and resets, the sampler reports exactly the comparison with the last
  reading: every interface is reported once, in the order of the indices, its rate is known exactly when both readings
  have its counters, they are in order, at most the maximal interval apart, of the same width, and neither counter
  went back, and it is then the gain over the time between, received and sent. The total rate is known exactly when
  there are interfaces and every rate is known, and it is then the sum of the rates received and the sum of the rates sent.
  The totals of all interfaces and of the physical, loopback, tunnel and other virtual ones are the sums of the
  counters of the interfaces of that kind, received and sent, capped at 64 bits.\<close>

theorem sampler_compares_readings:
  "map it_interface (sn_interfaces (sampler_snapshot walk per_second fsum max_interval ops (raw, now))) =
     sort_key (\<lambda>i. ii_index (ri_id i)) raw \<and>
   (\<forall>t \<in> set (sn_interfaces (sampler_snapshot walk per_second fsum max_interval ops (raw, now))).
      rate_agrees per_second (counted_since max_interval (previous_reading None ops) now (it_interface t)) (it_rate t)) \<and>
   total_agrees per_second fsum
     (map (counted_since max_interval (previous_reading None ops) now) (sort_key (\<lambda>i. ii_index (ri_id i)) raw))
     (sn_aggregate_rate (sampler_snapshot walk per_second fsum max_interval ops (raw, now))) \<and>
   totals_of_kinds raw (sn_totals (sampler_snapshot walk per_second fsum max_interval ops (raw, now)))"
proof -
  let ?s = "sampler_after walk per_second fsum max_interval ops"
    and ?snap = "sampler_snapshot walk per_second fsum max_interval ops (raw, now)"
    and ?gain = "counted_since max_interval (previous_reading None ops) now"
  note rem = sampler_after_remembers [where ops = ops and walk = walk and per_second = per_second and fsum = fsum and max_interval = max_interval]
  have map: "map it_interface (sn_interfaces ?snap) = sort_key (\<lambda>i. ii_index (ri_id i)) raw"
    unfolding sampler_snapshot_def fst_conv snd_conv observe_interfaces by (simp add: Let_def case_prod_beta comp_def)
  have rates: "\<forall>t \<in> set (sn_interfaces ?snap). rate_agrees per_second (?gain (it_interface t)) (it_rate t)"
    using interface_rate_agrees [OF rem(1), of per_second now]
    unfolding sampler_snapshot_def fst_conv snd_conv observe_interfaces rem(2) by (auto simp: Let_def case_prod_beta)
  have gap: "?gain i = None" if "sampling_gap ?s now" for i
    using gap_counts_nothing [OF rem(1) that] by (simp add: rem(2))
  have agg: "sn_aggregate_rate ?snap = aggregate_rate fsum (sn_interfaces ?snap) (sampling_gap ?s now)"
    by (simp add: sampler_snapshot_def observe_aggregate)
  have gains: "map ?gain (sort_key (\<lambda>i. ii_index (ri_id i)) raw) = map (?gain \<circ> it_interface) (sn_interfaces ?snap)"
    unfolding map [symmetric] by simp
  have "total_agrees per_second fsum (map (?gain \<circ> it_interface) (sn_interfaces ?snap)) (sn_aggregate_rate ?snap)"
  proof (cases "rt_state (sn_aggregate_rate ?snap) = Rs_Known")
    case True
    then have "\<forall>t \<in> set (sn_interfaces ?snap). rt_state (it_rate t) = Rs_Known" unfolding agg aggregate_rate_Known by simp
    then have "\<forall>t \<in> set (sn_interfaces ?snap). \<exists>g. ?gain (it_interface t) = Some g \<and> it_rate t = known_rate per_second g"
      using rates by (fastforce simp: rate_agrees_def split: option.splits)
    then show ?thesis using aggregate_rate_sums True unfolding agg by blast
  next
    case False
    have "sn_interfaces ?snap = [] \<or> (\<exists>t \<in> set (sn_interfaces ?snap). ?gain (it_interface t) = None)"
      using False rates gap unfolding agg aggregate_rate_Known by (metis list.set_intros(1) neq_Nil_conv rate_agrees_Known)
    then have "\<not> (map (?gain \<circ> it_interface) (sn_interfaces ?snap) \<noteq> [] \<and> None \<notin> set (map (?gain \<circ> it_interface) (sn_interfaces ?snap)))"
      by force
    then show ?thesis using False aggregate_rate_unknown [of fsum "sn_interfaces ?snap" "sampling_gap ?s now"]
      unfolding total_agrees_def agg by presburger
  qed
  moreover have "kind_total sel kinds (map it_interface (sn_interfaces ?snap)) = kind_total sel kinds raw" for sel kinds
    unfolding map by (rule kind_total_sorted)
  then have "totals_of_kinds raw (sn_totals ?snap)"
    using add_counters_match [of default_totals "sn_interfaces ?snap"]
    by (simp add: totals_of_kinds_def totals_match_def sampler_snapshot_def sampler_observe_def totals_and_coverage_def
        default_totals_def Let_def)
  ultimately show ?thesis using map rates gains by simp
qed

text \<open>Two readings one second apart of one interface that gained 10 and 20 bytes; the quotient is taken as an integer.\<close>

definition sample_interface :: "u64 \<Rightarrow> u64 \<Rightarrow> raw_interface" where
  "sample_interface rx tx = \<lparr>ri_id = \<lparr>ii_index = 2, ii_name = ''eth0''\<rparr>, ri_kind = Physical, ri_kernel_kind = None,
     ri_is_up = True, ri_carrier_up = True, ri_counters = Some \<lparr>lc_rx_bytes = rx, lc_tx_bytes = tx, lc_width = Bits64\<rparr>\<rparr>"

theorem sampler_compares_readings_witness:
  "rt_state (sn_aggregate_rate (sampler_snapshot id (\<lambda>b dt. unat b * 1000000000 div dt) sum_list 5000000000
      [Observe [sample_interface 100 200] 1000000000] ([sample_interface 110 220], 2000000000))) = Rs_Known \<and>
   rt_tx_bytes_per_second (sn_aggregate_rate (sampler_snapshot id (\<lambda>b dt. unat b * 1000000000 div dt) sum_list 5000000000
      [Observe [sample_interface 100 200] 1000000000] ([sample_interface 110 220], 2000000000))) = Some 20 \<and>
   map it_rate (sn_interfaces (sampler_snapshot id (\<lambda>b dt. unat b * 1000000000 div dt) sum_list 5000000000
      [Observe [sample_interface 100 200] 1000000000] ([sample_interface 110 220], 2000000000))) =
   [known_rate (\<lambda>b dt. unat b * 1000000000 div dt) (10, 20, 1000000000)]"
proof -
  have c: "counted_since 5000000000 (Some ([sample_interface 100 200], 1000000000)) 2000000000 (sample_interface 110 220) =
      Some (10, 20, 1000000000)"
    by (simp add: counted_since_def sample_interface_def reading_counters_def map_filter_simps)
  let ?s = "sampler_snapshot id (\<lambda>b dt. unat b * 1000000000 div dt) sum_list 5000000000
      [Observe [sample_interface 100 200] 1000000000] ([sample_interface 110 220], 2000000000)"
  note compares = sampler_compares_readings [of id "\<lambda>b dt. unat b * 1000000000 div dt" sum_list 5000000000
      "[Observe [sample_interface 100 200] 1000000000]" "[sample_interface 110 220]" 2000000000]
  from compares obtain t where "sn_interfaces ?s = [t]" "it_interface t = sample_interface 110 220" by (auto simp: map_eq_Cons_conv)
  then show ?thesis using compares by (simp add: c rate_agrees_def total_agrees_def)
qed

text \<open>The events of a snapshot are exactly the changes since the last reading, whatever order the set of the previous
  identities is walked in: an interface is added when the last reading has no interface of its index, removed when
  the current one has none, and renamed when its index had another name.\<close>

theorem interface_events_exact:
  assumes "\<And>ids. set (walk ids) = set ids"
  shows "(InterfaceAdded j \<in> set (sn_events (sampler_snapshot walk per_second fsum max_interval ops (raw, now))) \<longleftrightarrow>
      (\<exists>raw0 t. previous_reading None ops = Some (raw0, t) \<and> j \<in> ri_id ` set raw \<and> ii_index j \<notin> indices raw0)) \<and>
    (InterfaceRemoved j \<in> set (sn_events (sampler_snapshot walk per_second fsum max_interval ops (raw, now))) \<longleftrightarrow>
      (\<exists>raw0 t. previous_reading None ops = Some (raw0, t) \<and> j \<in> ri_id ` set raw0 \<and> ii_index j \<notin> indices raw)) \<and>
    (InterfaceRenamed n a b \<in> set (sn_events (sampler_snapshot walk per_second fsum max_interval ops (raw, now))) \<longleftrightarrow>
      (\<exists>raw0 t. previous_reading None ops = Some (raw0, t) \<and> reading_name raw0 n = Some a \<and> a \<noteq> b \<and>
         \<lparr>ii_index = n, ii_name = b\<rparr> \<in> ri_id ` set raw))"
proof -
  note rem = sampler_after_remembers(1) [where ops = ops and walk = walk and per_second = per_second and fsum = fsum
      and max_interval = max_interval]
  note iffs = added_events_iff [OF rem] rename_events_iff [OF rem] removed_events_iff [where walk = walk, OF rem assms] event_kinds
  have id: "\<lparr>ii_index = n, ii_name = b\<rparr> \<in> ri_id ` set raw \<longleftrightarrow> (\<exists>i \<in> set raw. n = ii_index (ri_id i) \<and> b = ii_name (ri_id i))"
  proof -
    have "\<lparr>ii_index = n, ii_name = b\<rparr> = i \<longleftrightarrow> n = ii_index i \<and> b = ii_name i" for i by (cases i) auto
    then show ?thesis by (simp add: image_iff)
  qed
  show ?thesis
    unfolding sampler_snapshot_def fst_conv snd_conv observe_events id
    by (intro conjI) (simp_all add: iffs, blast+)
qed

theorem interface_events_exact_witness:
  "InterfaceRenamed 2 ''eth0'' ''lan0'' \<in> set (sn_events (sampler_snapshot rev (\<lambda>b dt. unat b div dt) sum_list 5
     [Observe [sample_interface 100 200] 1] ([(sample_interface 1 2)\<lparr>ri_id := \<lparr>ii_index = 2, ii_name = ''lan0''\<rparr>\<rparr>], 2)))"
  using interface_events_exact [of rev undefined "\<lambda>b dt. unat b div dt" sum_list 5 "[Observe [sample_interface 100 200] 1]"
      "[(sample_interface 1 2)\<lparr>ri_id := \<lparr>ii_index = 2, ii_name = ''lan0''\<rparr>\<rparr>]" 2 2 "''eth0''" "''lan0''"]
  by (simp add: reading_name_def sample_interface_def)

text \<open>The aggregation of cgroup counters equals its reference: it succeeds exactly when at most 4096 records name
  at most 1024 applications, no cgroup is 0 or occurs twice, every application key is valid and no
  application's sum overflows, and the result is then each application once, in order, with the exact sums.\<close>

theorem aggregation_exact:
  "aggregate_cgroup_traffic rs = Ok apps \<longleftrightarrow>
     length rs \<le> 4096 \<and> records_ok rs \<and> card (app_keys rs) \<le> 1024 \<and> apps = app_sums rs"
proof -
  have start: "apps_of [] []" by (simp add: apps_of_def app_keys_def)
  note loop = aggregate_loop_Ok [OF start, simplified]
  have len: "length as = card (app_keys rs)" if "apps_of as rs" for as
    using that bt_ok_distinct [of as] distinct_card [of "map fst as"] by (simp add: apps_of_def)
  show ?thesis
    unfolding aggregate_cgroup_traffic_def MAX_CGROUP_TRAFFIC_RECORDS_def MAX_APPLICATION_TRAFFIC_RECORDS_def
    using loop(1) [of rs] loop(2) [of rs] each_ok_records [of rs] len apps_of_sums [of _ rs]
    by (cases "aggregate_loop {} [] rs") (auto simp: not_less)
qed

end
