(* ===== verification/Telemetry_Protocol.thy ===== *)
theory Telemetry_Protocol
  imports Network_Protocol "HOL-Library.Char_ord" "HOL-Library.List_Lexorder"
begin

text \<open>
  The messages of the telemetry helper (crates/telemetry-helper-protocol/src/lib.rs): the private
  snapshot of processes, cgroups and applications, its validation, and the reduction of a reply that does not fit
  a frame (\<open>bounded_reply\<close>): first issue counts are trimmed, then a binary search keeps as many
  applications as fit. The type \<open>'f\<close> stands for the floating-point numbers, which the protocol only
  carries; serde_json is a parameter. Shown: a reply that is written is valid, fits, holds whole
  applications of the snapshot and is what the peer reads; and a reply is always found when the bare
  snapshot fits.
\<close>

declare checks.simps [simp del]

section \<open>Data\<close>

definition TELEMETRY_PROTOCOL_VERSION :: u16 where "TELEMETRY_PROTOCOL_VERSION = 3"
definition MAX_PROCESS_RECORDS :: nat where "MAX_PROCESS_RECORDS = 4096"
definition MAX_APPLICATION_RECORDS :: nat where "MAX_APPLICATION_RECORDS = 1024"
definition MAX_CGROUP_RECORDS :: nat where "MAX_CGROUP_RECORDS = MAX_PROCESS_RECORDS"
definition MAX_ISSUE_RECORDS :: nat where "MAX_ISSUE_RECORDS = 256"
definition MAX_STRING_BYTES :: nat where "MAX_STRING_BYTES = 4096"
definition TELEMETRY_MAX_REASON_BYTES :: nat where "TELEMETRY_MAX_REASON_BYTES = 256"

record telemetry_request =
  tr_version :: u16
  tr_generation :: u64
  tr_kind :: request_kind

definition telemetry_collect :: "u64 \<Rightarrow> telemetry_request" where
  "telemetry_collect generation =
     \<lparr>tr_version = TELEMETRY_PROTOCOL_VERSION, tr_generation = generation, tr_kind = Collect\<rparr>"

datatype telemetry_error_code =
    Te_MalformedRequest
  | Te_UnsupportedVersion
  | Te_OversizedFrame
  | Te_InvalidRequest
  | Te_ProcUnavailable
  | Te_ProcPermissionDenied
  | Te_ProcRaced
  | Te_ProcInvalid
  | Te_LimitExceeded
  | Te_ShuttingDown
  | Te_Internal

fun error_code_as_str :: "telemetry_error_code \<Rightarrow> string" where
  "error_code_as_str Te_MalformedRequest = ''malformed_request''"
| "error_code_as_str Te_UnsupportedVersion = ''unsupported_version''"
| "error_code_as_str Te_OversizedFrame = ''oversized_frame''"
| "error_code_as_str Te_InvalidRequest = ''invalid_request''"
| "error_code_as_str Te_ProcUnavailable = ''proc_unavailable''"
| "error_code_as_str Te_ProcPermissionDenied = ''proc_permission_denied''"
| "error_code_as_str Te_ProcRaced = ''proc_raced''"
| "error_code_as_str Te_ProcInvalid = ''proc_invalid''"
| "error_code_as_str Te_LimitExceeded = ''limit_exceeded''"
| "error_code_as_str Te_ShuttingDown = ''shutting_down''"
| "error_code_as_str Te_Internal = ''internal''"

record telemetry_error =
  te_code :: telemetry_error_code
  te_retryable :: bool
  te_reason :: string

definition telemetry_error_new :: "telemetry_error_code \<Rightarrow> bool \<Rightarrow> string \<Rightarrow> telemetry_error" where
  "telemetry_error_new code retryable reason = \<lparr>te_code = code, te_retryable = retryable, te_reason = reason\<rparr>"

datatype metric_state =
    Ms_Known
  | Ms_Unknown
  | Ms_PermissionDenied
  | Ms_Raced
  | Ms_Unbounded
  | Ms_WarmingUp
  | Ms_SamplingGap

record 'a private_metric =
  pm_value :: "'a option"
  pm_state :: metric_state
  pm_reason :: "string option"

definition metric_known :: "'a \<Rightarrow> 'a private_metric" where
  "metric_known v = \<lparr>pm_value = Some v, pm_state = Ms_Known, pm_reason = None\<rparr>"

definition metric_unavailable :: "metric_state \<Rightarrow> string \<Rightarrow> 'a private_metric" where
  "metric_unavailable state reason = \<lparr>pm_value = None, pm_state = state, pm_reason = Some reason\<rparr>"

record process_identity =
  pi_boot_id :: string
  pi_pid :: u32
  pi_start_time_ticks :: u64
  pi_euid :: u32

datatype grouping_resolution = DesktopEntryExact | CgroupScope | InheritedParent | Gr_Unknown

record issue_count =
  ic_code :: string
  ic_count :: u64

record 'f process_record =
  pr_identity :: process_identity
  pr_ppid :: u32
  pr_comm :: string
  pr_exe_basename :: "string option"
  pr_cgroup_content :: string
  pr_application_key :: string
  pr_desktop_entry_id :: "string option"
  pr_grouping_resolution :: grouping_resolution
  pr_cpu_jiffies :: u64
  pr_rss_bytes :: "u64 private_metric"
  pr_pss_bytes :: "u64 private_metric"
  pr_fd_used :: "u64 private_metric"
  pr_fd_soft_limit :: "u64 private_metric"
  pr_fd_percent_of_soft_limit :: "'f private_metric"

record cgroup_record =
  cr_cgroup_path :: string
  cr_application_key :: string
  cr_cpu_usage_usec :: "u64 private_metric"
  cr_memory_current_bytes :: "u64 private_metric"
  cr_process_count :: "u64 private_metric"

record 'f application_record =
  ar_application_key :: string
  ar_process_count :: u64
  ar_proc_cpu_jiffies_sum :: "u64 private_metric"
  ar_rss_sum_bytes :: "u64 private_metric"
  ar_pss_sum_bytes :: "u64 private_metric"
  ar_fd_used_sum :: "u64 private_metric"
  ar_fd_soft_limit_sum :: "u64 private_metric"
  ar_fd_percent_of_attributed_sum :: "'f private_metric"
  ar_fd_percent_of_soft_limit_sum :: "'f private_metric"
  ar_cgroup_cpu_usage_usec :: "u64 private_metric"
  ar_memory_current_bytes :: "u64 private_metric"
  ar_cgroup_process_count :: "u64 private_metric"

record 'f system_fd_snapshot =
  sf_file_nr_allocated :: "u64 private_metric"
  sf_file_nr_max :: "u64 private_metric"
  sf_file_max :: "u64 private_metric"
  sf_pressure_percent :: "'f private_metric"

definition system_fd_unavailable :: "metric_state \<Rightarrow> string \<Rightarrow> 'f system_fd_snapshot" where
  "system_fd_unavailable state reason =
     \<lparr>sf_file_nr_allocated = metric_unavailable state reason, sf_file_nr_max = metric_unavailable state reason,
      sf_file_max = metric_unavailable state reason, sf_pressure_percent = metric_unavailable state reason\<rparr>"

record 'f private_snapshot =
  ps_boot_id :: string
  ps_euid :: u32
  ps_captured_at_unix_ms :: i64
  ps_captured_at_monotonic_ns :: "u64 private_metric"
  ps_total_cpu_jiffies :: u64
  ps_logical_cpu_count :: u32
  ps_processes :: "'f process_record list"
  ps_cgroups :: "cgroup_record list"
  ps_applications :: "'f application_record list"
  ps_system_fd :: "'f system_fd_snapshot"
  ps_excluded_other_uid :: u64
  ps_skipped_race :: u64
  ps_permission_denied_counts :: "issue_count list"
  ps_issues :: "issue_count list"

datatype 'f telemetry_body = Tb_Snapshot "'f private_snapshot" | Tb_Error telemetry_error

record 'f telemetry_reply =
  tp_version :: u16
  tp_generation :: u64
  tp_body :: "'f telemetry_body"

definition telemetry_reply_snapshot :: "u64 \<Rightarrow> 'f private_snapshot \<Rightarrow> 'f telemetry_reply" where
  "telemetry_reply_snapshot generation snapshot =
     \<lparr>tp_version = TELEMETRY_PROTOCOL_VERSION, tp_generation = generation, tp_body = Tb_Snapshot snapshot\<rparr>"

definition telemetry_reply_error :: "u64 \<Rightarrow> telemetry_error \<Rightarrow> 'f telemetry_reply" where
  "telemetry_reply_error generation error =
     \<lparr>tp_version = TELEMETRY_PROTOCOL_VERSION, tp_generation = generation, tp_body = Tb_Error error\<rparr>"

section \<open>Validation\<close>

definition telemetry_validate_version :: "u16 \<Rightarrow> (helper_frame_error, unit) result" where
  "telemetry_validate_version version =
     (if version = TELEMETRY_PROTOCOL_VERSION then Ok () else Err (Hf_UnsupportedVersion version))"

definition validate_string :: "string \<Rightarrow> string \<Rightarrow> (helper_frame_error, unit) result" where
  "validate_string value field =
     (if value = [] \<or> MAX_STRING_BYTES < length value \<or> has_nul value
      then Err (Hf_InvalidPayload (field @ '' is empty, contains NUL, or is oversized'')) else Ok ())"

definition validate_metric :: "'a private_metric \<Rightarrow> (helper_frame_error, unit) result" where
  "validate_metric metric =
     (if is_some_and (pm_reason metric) (\<lambda>reason. reason = [] \<or> TELEMETRY_MAX_REASON_BYTES < length reason \<or> has_nul reason)
      then Err (Hf_InvalidPayload ''metric reason is empty, contains NUL, or is oversized'')
      else if pm_state metric = Ms_Known \<and> pm_value metric = None
      then Err (Hf_InvalidPayload ''known metric is missing its value'')
      else if pm_state metric \<noteq> Ms_Known \<and> pm_value metric \<noteq> None
      then Err (Hf_InvalidPayload ''unavailable metric must not carry a value'')
      else Ok ())"

definition validate_issue_counts :: "issue_count list \<Rightarrow> (helper_frame_error, unit) result" where
  "validate_issue_counts issues =
     (if MAX_ISSUE_RECORDS < length issues then Err (Hf_InvalidPayload ''issue record count exceeds 256'')
      else checks (map (\<lambda>issue. validate_string (ic_code issue) ''issue.code'') issues))"

definition validate_optional :: "string option \<Rightarrow> string \<Rightarrow> (helper_frame_error, unit) result" where
  "validate_optional v field = (case v of None \<Rightarrow> Ok () | Some s \<Rightarrow> validate_string s field)"

definition validate_process :: "'f private_snapshot \<Rightarrow> 'f process_record \<Rightarrow> (helper_frame_error, unit) result" where
  "validate_process s process = checks
     [validate_string (pi_boot_id (pr_identity process)) ''process.boot_id'',
      require (pi_boot_id (pr_identity process) = ps_boot_id s \<and> pi_euid (pr_identity process) = ps_euid s)
        (Hf_InvalidPayload ''process identity does not match snapshot scope''),
      validate_string (pr_comm process) ''process.comm'',
      validate_string (pr_cgroup_content process) ''process.cgroup_content'',
      validate_string (pr_application_key process) ''process.application_key'',
      validate_optional (pr_exe_basename process) ''process.exe_basename'',
      validate_optional (pr_desktop_entry_id process) ''process.desktop_entry_id'',
      validate_metric (pr_rss_bytes process),
      validate_metric (pr_pss_bytes process),
      validate_metric (pr_fd_used process),
      validate_metric (pr_fd_soft_limit process),
      validate_metric (pr_fd_percent_of_soft_limit process)]"

definition validate_cgroup :: "cgroup_record \<Rightarrow> (helper_frame_error, unit) result" where
  "validate_cgroup cgroup = checks
     [validate_string (cr_cgroup_path cgroup) ''cgroup.cgroup_path'',
      require (take 1 (cr_cgroup_path cgroup) = ''/'') (Hf_InvalidPayload ''cgroup.cgroup_path must be absolute''),
      validate_string (cr_application_key cgroup) ''cgroup.application_key'',
      validate_metric (cr_cpu_usage_usec cgroup),
      validate_metric (cr_memory_current_bytes cgroup),
      validate_metric (cr_process_count cgroup)]"

definition validate_application :: "'f application_record \<Rightarrow> (helper_frame_error, unit) result" where
  "validate_application application = checks
     [validate_string (ar_application_key application) ''application.application_key'',
      validate_metric (ar_proc_cpu_jiffies_sum application),
      validate_metric (ar_rss_sum_bytes application),
      validate_metric (ar_pss_sum_bytes application),
      validate_metric (ar_fd_used_sum application),
      validate_metric (ar_fd_soft_limit_sum application),
      validate_metric (ar_fd_percent_of_attributed_sum application),
      validate_metric (ar_fd_percent_of_soft_limit_sum application),
      validate_metric (ar_cgroup_cpu_usage_usec application),
      validate_metric (ar_memory_current_bytes application),
      validate_metric (ar_cgroup_process_count application)]"

definition private_snapshot_validate :: "'f private_snapshot \<Rightarrow> (helper_frame_error, unit) result" where
  "private_snapshot_validate s = checks (
     [validate_string (ps_boot_id s) ''boot_id'',
      validate_metric (ps_captured_at_monotonic_ns s),
      require (ps_logical_cpu_count s \<noteq> 0) (Hf_InvalidPayload ''logical_cpu_count must be positive''),
      require (length (ps_processes s) \<le> MAX_PROCESS_RECORDS) (Hf_InvalidPayload ''process record count exceeds 4096''),
      require (length (ps_cgroups s) \<le> MAX_CGROUP_RECORDS) (Hf_InvalidPayload ''cgroup record count exceeds 4096''),
      require (length (ps_applications s) \<le> MAX_APPLICATION_RECORDS)
        (Hf_InvalidPayload ''application record count exceeds 1024''),
      validate_issue_counts (ps_permission_denied_counts s),
      validate_issue_counts (ps_issues s)]
     @ map (validate_process s) (ps_processes s)
     @ map validate_cgroup (ps_cgroups s)
     @ map validate_application (ps_applications s)
     @ [validate_metric (sf_file_nr_allocated (ps_system_fd s)),
        validate_metric (sf_file_nr_max (ps_system_fd s)),
        validate_metric (sf_file_max (ps_system_fd s)),
        validate_metric (sf_pressure_percent (ps_system_fd s))])"

definition telemetry_error_validate :: "telemetry_error \<Rightarrow> (helper_frame_error, unit) result" where
  "telemetry_error_validate e =
     (if te_reason e = [] \<or> TELEMETRY_MAX_REASON_BYTES < length (te_reason e)
      then Err (Hf_InvalidPayload ''helper error reason is empty or oversized'') else Ok ())"

definition telemetry_request_validate :: "telemetry_request \<Rightarrow> (helper_frame_error, unit) result" where
  "telemetry_request_validate r = telemetry_validate_version (tr_version r)"

definition telemetry_reply_validate :: "'f telemetry_reply \<Rightarrow> (helper_frame_error, unit) result" where
  "telemetry_reply_validate r =
     and_then (telemetry_validate_version (tp_version r)) (\<lambda>_.
       case tp_body r of
         Tb_Snapshot snapshot \<Rightarrow> private_snapshot_validate snapshot
       | Tb_Error error \<Rightarrow> telemetry_error_validate error)"

section \<open>Reducing a reply to the frame\<close>

definition serialized_len :: "('a \<Rightarrow> bytes option) \<Rightarrow> 'a \<Rightarrow> (helper_frame_error, nat) result" where
  "serialized_len to_vec v = ok_or (map_option length (to_vec v)) Hf_MalformedJson"

fun bump_issue :: "string \<Rightarrow> u64 \<Rightarrow> issue_count list \<Rightarrow> issue_count list option" where
  "bump_issue code count [] = None"
| "bump_issue code count (i # is) =
     (if ic_code i = code then Some (i\<lparr>ic_count := saturating_add (ic_count i) count\<rparr> # is)
      else map_option ((#) i) (bump_issue code count is))"

definition add_or_replace_issue :: "issue_count list \<Rightarrow> string \<Rightarrow> u64 \<Rightarrow> issue_count list" where
  "add_or_replace_issue issues code count =
     (case bump_issue code count issues of
        Some issues' \<Rightarrow> issues'
      | None \<Rightarrow>
          (if length issues = MAX_ISSUE_RECORDS then butlast issues else issues) @ [\<lparr>ic_code = code, ic_count = count\<rparr>])"

text \<open>\<open>Iterator::rposition\<close> and \<open>Vec::remove\<close>.\<close>

fun rposition :: "('a \<Rightarrow> bool) \<Rightarrow> 'a list \<Rightarrow> nat option" where
  "rposition p [] = None"
| "rposition p (x # xs) =
     (case rposition p xs of Some i \<Rightarrow> Some (Suc i) | None \<Rightarrow> if p x then Some 0 else None)"

definition remove_at :: "nat \<Rightarrow> 'a list \<Rightarrow> 'a list" where
  "remove_at i xs = take i xs @ drop (Suc i) xs"

lemma rposition_Some: "rposition p xs = Some i \<Longrightarrow> i < length xs \<and> p (xs ! i)"
  by (induction xs arbitrary: i) (auto split: option.splits if_splits)

lemma rposition_None: "rposition p xs = None \<longleftrightarrow> (\<forall>x \<in> set xs. \<not> p x)"
  by (induction xs) (auto split: option.splits)

lemma length_remove_at: "i < length xs \<Longrightarrow> length (remove_at i xs) < length xs"
  by (simp add: remove_at_def)

lemma set_remove_at: "set (remove_at i xs) \<subseteq> set xs"
  by (auto simp: remove_at_def dest: in_set_takeD in_set_dropD)

lemma filter_remove_at: "i < length xs \<Longrightarrow> \<not> P (xs ! i) \<Longrightarrow> filter P (remove_at i xs) = filter P xs"
  using arg_cong [OF id_take_nth_drop [of i xs], of "filter P"] by (simp add: remove_at_def)

definition BUDGET_CODE :: string where "BUDGET_CODE = ''reply_budget_exceeded''"

fun with_snapshot :: "'f telemetry_reply \<Rightarrow> 'f private_snapshot \<Rightarrow> 'f telemetry_reply" where
  "with_snapshot reply s = reply\<lparr>tp_body := Tb_Snapshot s\<rparr>"

fun metadata_size :: "'f telemetry_reply \<Rightarrow> nat" where
  "metadata_size reply = (case tp_body reply of
     Tb_Snapshot s \<Rightarrow> length (ps_permission_denied_counts s) + length (ps_issues s) | Tb_Error _ \<Rightarrow> 0)"

function trim_issue_metadata_to_fit ::
  "('f telemetry_reply \<Rightarrow> bytes option) \<Rightarrow> 'f telemetry_reply \<Rightarrow> (helper_frame_error, unit) result \<times> 'f telemetry_reply" where
  "trim_issue_metadata_to_fit to_vec reply =
     (case serialized_len to_vec reply of
        Inl e \<Rightarrow> (Err e, reply)
      | Inr len \<Rightarrow>
          if len \<le> TELEMETRY_MAX_FRAME_BYTES then (Ok (), reply)
          else (case tp_body reply of
            Tb_Error _ \<Rightarrow> (Err (Hf_Oversized len TELEMETRY_MAX_FRAME_BYTES), reply)
          | Tb_Snapshot snapshot \<Rightarrow>
              if ps_permission_denied_counts snapshot \<noteq> []
              then trim_issue_metadata_to_fit to_vec (with_snapshot reply (snapshot\<lparr>ps_permission_denied_counts :=
                     butlast (ps_permission_denied_counts snapshot)\<rparr>))
              else (case rposition (\<lambda>issue. ic_code issue \<noteq> BUDGET_CODE) (ps_issues snapshot) of
                Some index \<Rightarrow>
                  trim_issue_metadata_to_fit to_vec (with_snapshot reply (snapshot\<lparr>ps_issues := remove_at index (ps_issues snapshot)\<rparr>))
              | None \<Rightarrow> (Err (Hf_Oversized len TELEMETRY_MAX_FRAME_BYTES), reply))))"
  by pat_completeness auto

termination
  by (relation "measure (metadata_size \<circ> snd)")
     (auto simp: length_greater_0_conv [symmetric] simp del: length_greater_0_conv dest: rposition_Some intro!: length_remove_at)

definition retained_apps :: "string set \<Rightarrow> 'f private_snapshot \<Rightarrow> 'f private_snapshot" where
  "retained_apps retained s = s\<lparr>
     ps_processes := filter (\<lambda>p. pr_application_key p \<in> retained) (ps_processes s),
     ps_cgroups := filter (\<lambda>c. cr_application_key c \<in> retained) (ps_cgroups s),
     ps_applications := filter (\<lambda>a. ar_application_key a \<in> retained) (ps_applications s)\<rparr>"

definition dropped_records :: "'f private_snapshot \<Rightarrow> 'f private_snapshot \<Rightarrow> nat" where
  "dropped_records s b = min (2 ^ 64 - 1)
     ((length (ps_processes s) - length (ps_processes b)) + (length (ps_cgroups s) - length (ps_cgroups b)) +
      (length (ps_applications s) - length (ps_applications b)))"

definition percent_reduced :: "'f application_record \<Rightarrow> 'f application_record" where
  "percent_reduced a = a\<lparr>ar_fd_percent_of_attributed_sum := metric_unavailable Ms_Unknown ''reply_budget_reduced''\<rparr>"

definition bounded_snapshot :: "'f private_snapshot \<Rightarrow> string list \<Rightarrow> 'f private_snapshot" where
  "bounded_snapshot snapshot retained_keys =
     (let bounded = retained_apps (set retained_keys) snapshot;
          dropped = dropped_records snapshot bounded;
          bounded' = (if 0 < dropped then bounded\<lparr>ps_applications := map percent_reduced (ps_applications bounded)\<rparr> else bounded)
      in bounded'\<lparr>ps_issues := add_or_replace_issue (ps_issues bounded') BUDGET_CODE (max (of_nat dropped) 1)\<rparr>)"

definition bounded_snapshot_reply :: "u64 \<Rightarrow> 'f private_snapshot \<Rightarrow> string list \<Rightarrow> 'f telemetry_reply" where
  "bounded_snapshot_reply generation snapshot retained_keys =
     telemetry_reply_snapshot generation (bounded_snapshot snapshot retained_keys)"

text \<open>The binary search for how many application keys can stay.\<close>

function search_retained ::
  "('f telemetry_reply \<Rightarrow> bytes option) \<Rightarrow> u64 \<Rightarrow> 'f private_snapshot \<Rightarrow> string list \<Rightarrow> nat \<Rightarrow> nat \<Rightarrow>
   (helper_frame_error, nat) result" where
  "search_retained to_vec generation snapshot keys lower upper =
     (if lower < upper then
        let candidate_count = lower + (upper - lower + 1) div 2 in
        and_then (serialized_len to_vec (bounded_snapshot_reply generation snapshot (take candidate_count keys))) (\<lambda>len.
          if len \<le> TELEMETRY_MAX_FRAME_BYTES then search_retained to_vec generation snapshot keys candidate_count upper
          else search_retained to_vec generation snapshot keys lower (candidate_count - 1))
      else Ok lower)"
  by pat_completeness auto

termination
  by (relation "measure (\<lambda>(_, _, _, _, lower, upper). upper - lower)") auto

definition sorted_metadata :: "'f private_snapshot \<Rightarrow> 'f private_snapshot" where
  "sorted_metadata s = s\<lparr>
     ps_permission_denied_counts := sort_key ic_code (ps_permission_denied_counts s),
     ps_issues := add_or_replace_issue (sort_key ic_code (ps_issues s)) BUDGET_CODE 1\<rparr>"

definition application_keys :: "'f private_snapshot \<Rightarrow> string list" where
  "application_keys s = sort (remdups (map ar_application_key (ps_applications s)))"

definition reduce_applications ::
  "('f telemetry_reply \<Rightarrow> bytes option) \<Rightarrow> u64 \<Rightarrow> 'f private_snapshot \<Rightarrow> (helper_frame_error, 'f telemetry_reply) result" where
  "reduce_applications to_vec generation snapshot =
     and_then (search_retained to_vec generation snapshot (application_keys snapshot) 0 (length (application_keys snapshot))) (\<lambda>lower.
       case trim_issue_metadata_to_fit to_vec
              (bounded_snapshot_reply generation snapshot (take lower (application_keys snapshot))) of
         (Inl e, _) \<Rightarrow> Err e
       | (Inr _, bounded) \<Rightarrow> and_then (telemetry_reply_validate bounded) (\<lambda>_. Ok bounded))"

definition bounded_reply ::
  "('f telemetry_reply \<Rightarrow> bytes option) \<Rightarrow> 'f telemetry_reply \<Rightarrow> (helper_frame_error, 'f telemetry_reply) result" where
  "bounded_reply to_vec reply =
     and_then (telemetry_reply_validate reply) (\<lambda>_.
     and_then (serialized_len to_vec reply) (\<lambda>len.
       if len \<le> TELEMETRY_MAX_FRAME_BYTES then Ok reply
       else (case tp_body reply of
         Tb_Error _ \<Rightarrow> Err (Hf_Oversized len TELEMETRY_MAX_FRAME_BYTES)
       | Tb_Snapshot s \<Rightarrow>
           (case trim_issue_metadata_to_fit to_vec (with_snapshot reply (sorted_metadata s)) of
              (Inr _, metadata_bounded) \<Rightarrow>
                and_then (telemetry_reply_validate metadata_bounded) (\<lambda>_. Ok metadata_bounded)
            | (Inl (Hf_Oversized _ _), metadata_bounded) \<Rightarrow>
                (case tp_body metadata_bounded of
                   Tb_Snapshot snapshot \<Rightarrow> reduce_applications to_vec (tp_generation reply) snapshot
                 | Tb_Error _ \<Rightarrow> Err (Hf_InvalidPayload ''unreachable''))
            | (Inl e, _) \<Rightarrow> Err e))))"

section \<open>Reading and writing messages\<close>

definition telemetry_encode :: "('a \<Rightarrow> bytes option) \<Rightarrow> 'a \<Rightarrow> (helper_frame_error, bytes) result" where
  "telemetry_encode to_vec v = helper_encode TELEMETRY_MAX_FRAME_BYTES to_vec v"

definition telemetry_decode_request ::
  "(bytes \<Rightarrow> telemetry_request option) \<Rightarrow> bytes \<Rightarrow> (helper_frame_error, telemetry_request) result" where
  "telemetry_decode_request from_slice = helper_decode TELEMETRY_MAX_FRAME_BYTES from_slice telemetry_request_validate"

definition telemetry_decode_reply ::
  "(bytes \<Rightarrow> 'f telemetry_reply option) \<Rightarrow> bytes \<Rightarrow> (helper_frame_error, 'f telemetry_reply) result" where
  "telemetry_decode_reply from_slice = helper_decode TELEMETRY_MAX_FRAME_BYTES from_slice telemetry_reply_validate"

text \<open>\<open>read_frame(reader)?.map(decode).transpose()\<close>.\<close>

definition read_message ::
  "(bytes \<Rightarrow> (helper_frame_error, 'a) result) \<Rightarrow> reader \<Rightarrow> (helper_frame_error, 'a option) result \<times> reader" where
  "read_message decode r =
     (case telemetry_read_frame r of
        (Inl e, r') \<Rightarrow> (Err e, r')
      | (Inr None, r') \<Rightarrow> (Ok None, r')
      | (Inr (Some payload), r') \<Rightarrow> (and_then (decode payload) (\<lambda>m. Ok (Some m)), r'))"

definition read_request ::
  "(bytes \<Rightarrow> telemetry_request option) \<Rightarrow> reader \<Rightarrow> (helper_frame_error, telemetry_request option) result \<times> reader" where
  "read_request from_slice = read_message (telemetry_decode_request from_slice)"

definition read_reply ::
  "(bytes \<Rightarrow> 'f telemetry_reply option) \<Rightarrow> reader \<Rightarrow> (helper_frame_error, 'f telemetry_reply option) result \<times> reader" where
  "read_reply from_slice = read_message (telemetry_decode_reply from_slice)"

definition write_request ::
  "(telemetry_request \<Rightarrow> bytes option) \<Rightarrow> (io_kind \<times> nat) option \<Rightarrow> telemetry_request \<Rightarrow> bytes \<Rightarrow>
   (helper_frame_error, unit) result \<times> bytes" where
  "write_request to_vec outcome request wire =
     (case and_then (telemetry_request_validate request) (\<lambda>_. telemetry_encode to_vec request) of
        Inl e \<Rightarrow> (Err e, wire)
      | Inr payload \<Rightarrow> telemetry_write_frame outcome payload wire)"

definition write_reply ::
  "('f telemetry_reply \<Rightarrow> bytes option) \<Rightarrow> (io_kind \<times> nat) option \<Rightarrow> 'f telemetry_reply \<Rightarrow> bytes \<Rightarrow>
   (helper_frame_error, unit) result \<times> bytes" where
  "write_reply to_vec outcome reply wire =
     (case and_then (bounded_reply to_vec reply) (\<lambda>reply'. telemetry_encode to_vec reply') of
        Inl e \<Rightarrow> (Err e, wire)
      | Inr payload \<Rightarrow> telemetry_write_frame outcome payload wire)"

section \<open>What the reduction keeps\<close>

declare trim_issue_metadata_to_fit.simps [simp del] search_retained.simps [simp del]

definition fits :: "('a \<Rightarrow> bytes option) \<Rightarrow> 'a \<Rightarrow> bool" where
  "fits to_vec v = is_some_and (to_vec v) (\<lambda>p. length p \<le> TELEMETRY_MAX_FRAME_BYTES)"

lemma serialized_len_Ok: "serialized_len to_vec v = Ok n \<longleftrightarrow> (\<exists>p. to_vec v = Some p \<and> n = length p)"
  by (cases "to_vec v") (auto simp: serialized_len_def)

lemma fits_len: "fits to_vec v \<longleftrightarrow> (\<exists>n. serialized_len to_vec v = Ok n \<and> n \<le> TELEMETRY_MAX_FRAME_BYTES)"
  by (auto simp: fits_def serialized_len_Ok is_some_and_iff)

definition budget_issues :: "issue_count list \<Rightarrow> issue_count list" where
  "budget_issues = filter (\<lambda>i. ic_code i = BUDGET_CODE)"

abbreviation with_metadata :: "issue_count list \<Rightarrow> issue_count list \<Rightarrow> 'f private_snapshot \<Rightarrow> 'f private_snapshot" where
  "with_metadata d is s \<equiv> s\<lparr>ps_permission_denied_counts := d, ps_issues := is\<rparr>"

text \<open>The reply with no metadata but the budget issue.\<close>

definition bare :: "'f private_snapshot \<Rightarrow> 'f private_snapshot" where
  "bare s = with_metadata [] (budget_issues (ps_issues s)) s"

text \<open>One round of the trimming loop.\<close>

lemma trim_cases:
  assumes "tp_body reply = Tb_Snapshot s"
  obtains (json) e where "to_vec reply = None" "e = Hf_MalformedJson"
      "trim_issue_metadata_to_fit to_vec reply = (Err e, reply)"
  | (finished) "fits to_vec reply" "trim_issue_metadata_to_fit to_vec reply = (Ok (), reply)"
  | (denied) "\<not> fits to_vec reply" "ps_permission_denied_counts s \<noteq> []"
      "trim_issue_metadata_to_fit to_vec reply = trim_issue_metadata_to_fit to_vec
         (with_snapshot reply (s\<lparr>ps_permission_denied_counts := butlast (ps_permission_denied_counts s)\<rparr>))"
  | (issue) i where "\<not> fits to_vec reply" "ps_permission_denied_counts s = []"
      "i < length (ps_issues s)" "ic_code (ps_issues s ! i) \<noteq> BUDGET_CODE"
      "trim_issue_metadata_to_fit to_vec reply = trim_issue_metadata_to_fit to_vec
         (with_snapshot reply (s\<lparr>ps_issues := remove_at i (ps_issues s)\<rparr>))"
  | (stuck) n where "\<not> fits to_vec reply" "s = bare s"
      "trim_issue_metadata_to_fit to_vec reply = (Err (Hf_Oversized n TELEMETRY_MAX_FRAME_BYTES), reply)"
proof (cases "serialized_len to_vec reply")
  case (Inl e)
  then show ?thesis
    by (intro json [of e]) (auto simp: trim_issue_metadata_to_fit.simps [of to_vec reply] serialized_len_def ok_or_def split: option.splits)
next
  case (Inr n)
  show ?thesis
  proof (cases "n \<le> TELEMETRY_MAX_FRAME_BYTES")
    case True
    then show ?thesis using Inr by (intro finished) (auto simp: trim_issue_metadata_to_fit.simps [of to_vec reply] fits_len)
  next
    case False
    then have nf: "\<not> fits to_vec reply" using Inr by (auto simp: fits_len)
    note step = trim_issue_metadata_to_fit.simps [of to_vec reply]
    show ?thesis
    proof (cases "ps_permission_denied_counts s = []")
      case d: True
      show ?thesis
      proof (cases "rposition (\<lambda>issue. ic_code issue \<noteq> BUDGET_CODE) (ps_issues s)")
        case None
        then have "budget_issues (ps_issues s) = ps_issues s"
          by (auto simp: rposition_None budget_issues_def filter_id_conv)
        then show ?thesis using None nf d step False Inr assms by (intro stuck) (auto simp: bare_def)
      next
        case (Some i)
        then show ?thesis using nf d step False Inr assms rposition_Some [OF Some] by (intro issue) auto
      qed
    next
      case d: False
      then show ?thesis using nf step False Inr assms by (intro denied) auto
    qed
  qed
qed

lemma budget_issues_remove_at:
  "i < length is \<Longrightarrow> ic_code (is ! i) \<noteq> BUDGET_CODE \<Longrightarrow> budget_issues (remove_at i is) = budget_issues is"
  by (simp add: budget_issues_def filter_remove_at)

text \<open>The loop only takes metadata away and never a budget issue; it ends with a reply that fits, or with
  the bare one.\<close>

definition trimmed :: "'f private_snapshot \<Rightarrow> 'f private_snapshot \<Rightarrow> bool" where
  "trimmed s s' \<longleftrightarrow> (\<exists>d is. s' = with_metadata d is s \<and> set d \<subseteq> set (ps_permission_denied_counts s) \<and>
     length d \<le> length (ps_permission_denied_counts s) \<and> set is \<subseteq> set (ps_issues s) \<and>
     length is \<le> length (ps_issues s) \<and> budget_issues is = budget_issues (ps_issues s))"

lemma trimmed_refl: "trimmed s s"
  unfolding trimmed_def by (intro exI [of _ "ps_permission_denied_counts s"] exI [of _ "ps_issues s"]) simp

lemma trimmed_trans: "trimmed s s' \<Longrightarrow> trimmed s' s'' \<Longrightarrow> trimmed s s''"
  unfolding trimmed_def by force

lemma trimmed_denied: "trimmed s (s\<lparr>ps_permission_denied_counts := butlast (ps_permission_denied_counts s)\<rparr>)"
  unfolding trimmed_def
  by (intro exI [of _ "butlast (ps_permission_denied_counts s)"] exI [of _ "ps_issues s"])
     (auto dest: in_set_butlastD)

lemma trimmed_issue:
  "i < length (ps_issues s) \<Longrightarrow> ic_code (ps_issues s ! i) \<noteq> BUDGET_CODE \<Longrightarrow>
   trimmed s (s\<lparr>ps_issues := remove_at i (ps_issues s)\<rparr>)"
  unfolding trimmed_def
  by (intro exI [of _ "ps_permission_denied_counts s"] exI [of _ "remove_at i (ps_issues s)"])
     (use length_remove_at [of i "ps_issues s"] set_remove_at [of i "ps_issues s"] in
       \<open>auto simp: budget_issues_remove_at\<close>)

lemma trimmed_bare: "trimmed s s' \<Longrightarrow> bare s' = bare s"
  by (auto simp: trimmed_def bare_def)

lemma trim_result:
  assumes "tp_body reply = Tb_Snapshot s"
  shows "\<exists>s'. snd (trim_issue_metadata_to_fit to_vec reply) = with_snapshot reply s' \<and> trimmed s s' \<and>
    (fst (trim_issue_metadata_to_fit to_vec reply) = Ok () \<longrightarrow> fits to_vec (with_snapshot reply s')) \<and>
    (\<forall>e. fst (trim_issue_metadata_to_fit to_vec reply) = Err e \<longrightarrow>
       (\<exists>n m. e = Hf_Oversized n m) \<and> s' = bare s \<or> e = Hf_MalformedJson \<and> (\<exists>v. to_vec v = None))"
  using assms
proof (induction "metadata_size reply" arbitrary: reply s rule: less_induct)
  case less
  note IH = less.hyps and body = less.prems
  have self: "with_snapshot reply s = reply" using body by simp
  have rec: "?case"
    if t: "trim_issue_metadata_to_fit to_vec reply = trim_issue_metadata_to_fit to_vec (with_snapshot reply s1)"
      and m: "metadata_size (with_snapshot reply s1) < metadata_size reply" and s1: "trimmed s s1" for s1
    using IH [OF m, of s1] s1 t trimmed_trans [OF s1] trimmed_bare [OF s1] by auto
  from body show ?case
  proof (cases rule: trim_cases [where to_vec = to_vec])
    case json
    then show ?thesis using self trimmed_refl [of s] by (intro exI [of _ s]) auto
  next
    case finished
    then show ?thesis using self trimmed_refl [of s] by (intro exI [of _ s]) auto
  next
    case denied
    then show ?thesis using body by (intro rec [OF denied(3)]) (auto simp: trimmed_denied)
  next
    case (issue i)
    then show ?thesis using body length_remove_at [OF issue(3)] by (intro rec [OF issue(5)]) (auto intro: trimmed_issue)
  next
    case stuck
    then show ?thesis using self trimmed_refl [of s] by (intro exI [of _ s]) auto
  qed
qed

lemma trim_total:
  assumes "tp_body reply = Tb_Snapshot s" "\<And>r. to_vec r \<noteq> None" "fits to_vec (with_snapshot reply (bare s))"
  shows "fst (trim_issue_metadata_to_fit to_vec reply) = Ok ()"
  using assms(1,3)
proof (induction "metadata_size reply" arbitrary: reply s rule: less_induct)
  case less
  note IH = less.hyps and body = less.prems(1) and bare = less.prems(2)
  have rec: "?case"
    if t: "trim_issue_metadata_to_fit to_vec reply = trim_issue_metadata_to_fit to_vec (with_snapshot reply s1)"
      and m: "metadata_size (with_snapshot reply s1) < metadata_size reply" and s1: "trimmed s s1" for s1
    using IH [OF m, of s1] bare t trimmed_bare [OF s1] by simp
  from body show ?case
  proof (cases rule: trim_cases [where to_vec = to_vec])
    case json
    then show ?thesis using assms(2) [of reply] by simp
  next
    case denied
    then show ?thesis using body by (intro rec [OF denied(3)]) (auto simp: trimmed_denied)
  next
    case (issue i)
    then show ?thesis using body length_remove_at [OF issue(3)] by (intro rec [OF issue(5)]) (auto intro: trimmed_issue)
  next
    case stuck
    moreover have "with_snapshot reply s = reply" using body by simp
    ultimately show ?thesis using bare by metis
  qed simp
qed

text \<open>The search ends at a number of keys that fits, or at none, and one more key would not fit.\<close>

lemma search_result:
  assumes "search_retained to_vec generation s keys lower upper = Ok n" "lower \<le> upper"
  shows "lower \<le> n \<and> n \<le> upper \<and> (n = lower \<or> fits to_vec (bounded_snapshot_reply generation s (take n keys))) \<and>
    (n = upper \<or> \<not> fits to_vec (bounded_snapshot_reply generation s (take (Suc n) keys)))"
  using assms
proof (induction to_vec generation s keys lower upper rule: search_retained.induct)
  case (1 to_vec generation s keys lower upper)
  show ?case
  proof (cases "lower < upper")
    case True
    define c where "c = lower + (upper - lower + 1) div 2"
    have c: "lower < c" "c \<le> upper" using True by (auto simp: c_def)
    obtain len where len: "serialized_len to_vec (bounded_snapshot_reply generation s (take c keys)) = Ok len"
      and rest: "(if len \<le> TELEMETRY_MAX_FRAME_BYTES then search_retained to_vec generation s keys c upper
         else search_retained to_vec generation s keys lower (c - 1)) = Ok n"
      using "1.prems"(1) True unfolding search_retained.simps [of to_vec generation s keys lower upper] Let_def c_def [symmetric] and_then_eq_Ok
        if_P [OF True]
      by blast
    show ?thesis
    proof (cases "len \<le> TELEMETRY_MAX_FRAME_BYTES")
      case fit: True
      then have "fits to_vec (bounded_snapshot_reply generation s (take c keys))" using len by (auto simp: fits_len)
      then show ?thesis using "1.IH"(1) [OF True c_def fit] rest fit c by auto
    next
      case big: False
      then have "\<not> fits to_vec (bounded_snapshot_reply generation s (take c keys))" using len by (auto simp: fits_len)
      moreover have "lower \<le> c - 1" "c - 1 < upper" "Suc (c - 1) = c" using c by auto
      ultimately show ?thesis using "1.IH"(2) [OF True c_def big] rest big by auto
    qed
  next
    case False
    then show ?thesis using "1.prems" unfolding search_retained.simps [of to_vec generation s keys lower upper] by simp
  qed
qed

lemma search_total:
  assumes "\<And>r. to_vec r \<noteq> None"
  shows "\<exists>n. search_retained to_vec generation s keys lower upper = Ok n"
  using assms
proof (induction to_vec generation s keys lower upper rule: search_retained.induct)
  case (1 to_vec generation s keys lower upper)
  obtain len where "serialized_len to_vec (bounded_snapshot_reply generation s (take (lower + (upper - lower + 1) div 2) keys)) = Ok len"
    using "1.prems" [of "bounded_snapshot_reply generation s (take (lower + (upper - lower + 1) div 2) keys)"]
    by (auto simp: serialized_len_def)
  then show ?case using 1 unfolding search_retained.simps [of to_vec generation s keys lower upper] by (auto simp: Let_def)
qed

section \<open>Validity\<close>

definition issues_ok :: "issue_count list \<Rightarrow> bool" where
  "issues_ok is \<longleftrightarrow> length is \<le> 256 \<and> (\<forall>i \<in> set is. name_ok 4096 (ic_code i))"

lemma validate_string_Ok: "validate_string v f = Ok () \<longleftrightarrow> name_ok 4096 v"
  by (auto simp: validate_string_def name_ok_def MAX_STRING_BYTES_def)

lemma validate_issue_counts_Ok: "validate_issue_counts is = Ok () \<longleftrightarrow> issues_ok is"
  by (auto simp: validate_issue_counts_def issues_ok_def MAX_ISSUE_RECORDS_def validate_string_Ok)

lemma BUDGET_CODE_ok: "name_ok 4096 BUDGET_CODE"
  by (simp add: BUDGET_CODE_def name_ok_def has_nul_def)

text \<open>The parts of the validation that do not look at the records or the metadata; the records and the
  metadata can then be replaced by valid ones.\<close>

definition scalars_ok :: "'f private_snapshot \<Rightarrow> bool" where
  "scalars_ok s \<longleftrightarrow> name_ok 4096 (ps_boot_id s) \<and> validate_metric (ps_captured_at_monotonic_ns s) = Ok () \<and>
     ps_logical_cpu_count s \<noteq> 0 \<and> validate_metric (sf_file_nr_allocated (ps_system_fd s)) = Ok () \<and>
     validate_metric (sf_file_nr_max (ps_system_fd s)) = Ok () \<and> validate_metric (sf_file_max (ps_system_fd s)) = Ok () \<and>
     validate_metric (sf_pressure_percent (ps_system_fd s)) = Ok ()"

lemma snapshot_valid_iff:
  "private_snapshot_validate s = Ok () \<longleftrightarrow> scalars_ok s \<and>
     length (ps_processes s) \<le> 4096 \<and> length (ps_cgroups s) \<le> 4096 \<and> length (ps_applications s) \<le> 1024 \<and>
     issues_ok (ps_permission_denied_counts s) \<and> issues_ok (ps_issues s) \<and>
     (\<forall>p \<in> set (ps_processes s). validate_process s p = Ok ()) \<and> (\<forall>c \<in> set (ps_cgroups s). validate_cgroup c = Ok ()) \<and>
     (\<forall>a \<in> set (ps_applications s). validate_application a = Ok ())"
  unfolding private_snapshot_validate_def checks_Ok set_append ball_Un set_map ball_simps list.set require_Ok validate_issue_counts_Ok
    validate_string_Ok scalars_ok_def MAX_PROCESS_RECORDS_def MAX_CGROUP_RECORDS_def MAX_APPLICATION_RECORDS_def
  by blast

lemma validate_process_cong:
  "ps_boot_id s' = ps_boot_id s \<Longrightarrow> ps_euid s' = ps_euid s \<Longrightarrow> validate_process s' = validate_process s"
  by (simp add: validate_process_def fun_eq_iff)

lemma snapshot_valid_update:
  assumes "private_snapshot_validate s = Ok ()" "set P \<subseteq> set (ps_processes s)" "length P \<le> length (ps_processes s)"
    "set C \<subseteq> set (ps_cgroups s)" "length C \<le> length (ps_cgroups s)" "length A \<le> length (ps_applications s)"
    "\<forall>a \<in> set A. validate_application a = Ok ()" "issues_ok d" "issues_ok is"
  shows "private_snapshot_validate (with_metadata d is (s\<lparr>ps_processes := P, ps_cgroups := C, ps_applications := A\<rparr>)) = Ok ()"
proof -
  let ?s = "with_metadata d is (s\<lparr>ps_processes := P, ps_cgroups := C, ps_applications := A\<rparr>)"
  have "validate_process ?s = validate_process s" by (rule validate_process_cong) simp_all
  then show ?thesis
    using assms unfolding snapshot_valid_iff by (auto simp: scalars_ok_def)
qed

lemma snapshot_valid_metadata:
  assumes "private_snapshot_validate s = Ok ()" "issues_ok d" "issues_ok is"
  shows "private_snapshot_validate (with_metadata d is s) = Ok ()"
  using snapshot_valid_update [OF assms(1), of "ps_processes s" "ps_cgroups s" "ps_applications s" d "is"] assms
  by (simp add: snapshot_valid_iff)

lemma snapshot_valid_issues:
  assumes "private_snapshot_validate s = Ok ()"
  shows "issues_ok (ps_permission_denied_counts s)" "issues_ok (ps_issues s)"
  using assms by (simp_all add: snapshot_valid_iff)

lemma trimmed_valid: "trimmed s s' \<Longrightarrow> private_snapshot_validate s = Ok () \<Longrightarrow> private_snapshot_validate s' = Ok ()"
  using snapshot_valid_issues [of s] unfolding trimmed_def
  by (auto simp: issues_ok_def subset_iff intro!: snapshot_valid_metadata)

lemma bump_issue_Some:
  "bump_issue code count is = Some is' \<Longrightarrow>
   length is' = length is \<and> map ic_code is' = map ic_code is \<and> code \<in> ic_code ` set is' \<and>
   (\<forall>i \<in> set is'. i \<in> set is \<or> ic_code i = code)"
  by (induction "is" arbitrary: is') (auto split: if_splits)

lemma bump_issue_None: "bump_issue code count is = None \<longleftrightarrow> code \<notin> ic_code ` set is"
  by (induction "is") auto

lemma add_issue_facts:
  "code \<in> ic_code ` set (add_or_replace_issue is code count)"
  "i \<in> set (add_or_replace_issue is code count) \<Longrightarrow> i \<in> set is \<or> ic_code i = code"
  "issues_ok is \<Longrightarrow> name_ok 4096 code \<Longrightarrow> issues_ok (add_or_replace_issue is code count)"
proof -
  have codes: "x \<in> ic_code ` set a" if "map ic_code a = map ic_code is" "x \<in> ic_code ` set is" for a x
    using that by (metis list.set_map)
  show "code \<in> ic_code ` set (add_or_replace_issue is code count)"
    by (auto simp: add_or_replace_issue_def dest: bump_issue_Some split: option.splits)
  show "i \<in> set (add_or_replace_issue is code count) \<Longrightarrow> i \<in> set is \<or> ic_code i = code"
    by (auto simp: add_or_replace_issue_def dest: bump_issue_Some in_set_butlastD split: option.splits if_splits)
  then have sub: "\<And>i. i \<in> set (add_or_replace_issue is code count) \<Longrightarrow> i \<in> set is \<or> ic_code i = code"
    by (auto simp: add_or_replace_issue_def dest: bump_issue_Some in_set_butlastD split: option.splits if_splits)
  show "issues_ok is \<Longrightarrow> name_ok 4096 code \<Longrightarrow> issues_ok (add_or_replace_issue is code count)"
    using sub by (fastforce simp: issues_ok_def add_or_replace_issue_def MAX_ISSUE_RECORDS_def dest: bump_issue_Some split: option.splits)
qed

lemma percent_reduced_valid: "validate_application a = Ok () \<Longrightarrow> validate_application (percent_reduced a) = Ok ()"
  by (simp add: validate_application_def percent_reduced_def metric_unavailable_def validate_metric_def
      TELEMETRY_MAX_REASON_BYTES_def has_nul_def)

text \<open>The snapshot with the applications of \<open>K\<close> only and the metadata \<open>d\<close> and \<open>is\<close>: an application stays
  with all its processes and cgroups, and its share of the attributed total is withdrawn as soon as any
  record is missing.\<close>

definition reduction :: "string set \<Rightarrow> issue_count list \<Rightarrow> issue_count list \<Rightarrow> 'f private_snapshot \<Rightarrow> 'f private_snapshot" where
  "reduction K d is s =
     with_metadata d is (if retained_apps K s = s then s
       else (retained_apps K s)\<lparr>ps_applications := map percent_reduced (ps_applications (retained_apps K s))\<rparr>)"

lemma filter_length_same: "length xs \<le> length (filter P xs) \<longleftrightarrow> filter P xs = xs"
  by (metis filter_True filter_id_conv le_refl length_filter_less not_le)

lemma min_sum_zero: "min (2 ^ 64 - 1) (a + b + c) = 0 \<longleftrightarrow> a = 0 \<and> b = 0 \<and> c = (0::nat)"
  by (auto simp: min_def)

lemma retained_apps_same: "retained_apps K s = s \<longleftrightarrow> dropped_records s (retained_apps K s) = 0"
proof -
  have "dropped_records s (retained_apps K s) = 0 \<longleftrightarrow>
      filter (\<lambda>p. pr_application_key p \<in> K) (ps_processes s) = ps_processes s \<and>
      filter (\<lambda>c. cr_application_key c \<in> K) (ps_cgroups s) = ps_cgroups s \<and>
      filter (\<lambda>a. ar_application_key a \<in> K) (ps_applications s) = ps_applications s"
    unfolding dropped_records_def min_sum_zero diff_is_0_eq by (simp add: retained_apps_def filter_length_same)
  then show ?thesis by (cases s) (simp add: retained_apps_def)
qed

lemma bounded_snapshot_reduction:
  "bounded_snapshot s keys =
     reduction (set keys) (ps_permission_denied_counts s)
       (add_or_replace_issue (ps_issues s) BUDGET_CODE (max (of_nat (dropped_records s (retained_apps (set keys) s))) 1)) s"
proof (cases "retained_apps (set keys) s = s")
  case True
  then have "dropped_records s (retained_apps (set keys) s) = 0" by (simp only: retained_apps_same)
  then show ?thesis using True by (simp add: bounded_snapshot_def reduction_def Let_def)
next
  case False
  then have "0 < dropped_records s (retained_apps (set keys) s)" by (simp add: retained_apps_same)
  then show ?thesis using False unfolding bounded_snapshot_def reduction_def Let_def by (simp add: retained_apps_def)
qed

lemma reduction_valid:
  assumes "private_snapshot_validate s = Ok ()" "issues_ok d" "issues_ok is"
  shows "private_snapshot_validate (reduction K d is s) = Ok ()"
proof (cases "retained_apps K s = s")
  case True
  then show ?thesis using assms by (simp add: reduction_def snapshot_valid_metadata)
next
  case False
  have "\<forall>a \<in> set (map percent_reduced (filter (\<lambda>a. ar_application_key a \<in> K) (ps_applications s))). validate_application a = Ok ()"
    using assms(1) by (auto simp: snapshot_valid_iff percent_reduced_valid)
  from snapshot_valid_update [OF assms(1) _ _ _ _ _ this assms(2,3), of "filter (\<lambda>p. pr_application_key p \<in> K) (ps_processes s)"
      "filter (\<lambda>c. cr_application_key c \<in> K) (ps_cgroups s)"]
  show ?thesis using False by (simp add: reduction_def retained_apps_def length_filter_le)
qed

lemma reduction_metadata [simp]:
  "reduction K d is (with_metadata d' is' s) = reduction K d is s"
  "with_metadata d is (reduction K d' is' s) = reduction K d is s"
  "reduction UNIV d is s = with_metadata d is s"
proof -
  have "retained_apps K (with_metadata d' is' s) = with_metadata d' is' s \<longleftrightarrow> retained_apps K s = s"
    by (cases s) (simp add: retained_apps_def)
  then show "reduction K d is (with_metadata d' is' s) = reduction K d is s"
    unfolding reduction_def by (simp add: retained_apps_def)
qed (simp_all add: reduction_def retained_apps_def)

lemma reduction_sel [simp]:
  "ps_permission_denied_counts (reduction K d is s) = d" "ps_issues (reduction K d is s) = is"
  by (simp_all add: reduction_def)

lemma trimmed_reduction:
  "trimmed (reduction K d0 is0 s) s' \<Longrightarrow>
   \<exists>d is. s' = reduction K d is s \<and> set d \<subseteq> set d0 \<and> set is \<subseteq> set is0 \<and> budget_issues is = budget_issues is0"
  unfolding trimmed_def reduction_sel reduction_metadata by blast

lemma bounded_with_metadata:
  "\<exists>count. bounded_snapshot (with_metadata d is s) ks = reduction (set ks) d (add_or_replace_issue is BUDGET_CODE count) s"
  using bounded_snapshot_reduction [of "with_metadata d is s" ks] unfolding reduction_metadata by auto

text \<open>What may become of a reply: it is unchanged, or it is a snapshot reduced to whole applications whose issues
  say so; unless all applications are there, the next one would not fit even without other metadata.\<close>

definition reply_reduces :: "('f telemetry_reply \<Rightarrow> bytes option) \<Rightarrow> 'f telemetry_reply \<Rightarrow> 'f telemetry_reply \<Rightarrow> bool" where
  "reply_reduces to_vec r r' \<longleftrightarrow> r' = r \<or>
     (\<exists>s K d is. tp_body r = Tb_Snapshot s \<and> r' = with_snapshot r (reduction K d is s) \<and>
        set d \<subseteq> set (ps_permission_denied_counts s) \<and>
        (\<forall>i \<in> set is. i \<in> set (ps_issues s) \<or> ic_code i = BUDGET_CODE) \<and> BUDGET_CODE \<in> ic_code ` set is \<and>
        (K = UNIV \<or> (\<exists>n. K = set (take n (application_keys s)) \<and>
           (n = length (application_keys s) \<or>
            \<not> fits to_vec (with_snapshot r (bounded_snapshot (bare (sorted_metadata s)) (take (Suc n) (application_keys s))))))))"

lemma budget_code_in: "BUDGET_CODE \<in> ic_code ` set is \<longleftrightarrow> budget_issues is \<noteq> []"
  unfolding image_iff budget_issues_def filter_empty_conv by metis

lemma sorted_metadata_facts:
  "private_snapshot_validate s = Ok () \<Longrightarrow> private_snapshot_validate (sorted_metadata s) = Ok ()"
  "BUDGET_CODE \<in> ic_code ` set (ps_issues (sorted_metadata s))"
  "i \<in> set (ps_issues (sorted_metadata s)) \<Longrightarrow> i \<in> set (ps_issues s) \<or> ic_code i = BUDGET_CODE"
  "set (ps_permission_denied_counts (sorted_metadata s)) = set (ps_permission_denied_counts s)"
proof -
  show "private_snapshot_validate s = Ok () \<Longrightarrow> private_snapshot_validate (sorted_metadata s) = Ok ()"
    unfolding sorted_metadata_def using snapshot_valid_issues [of s]
    by (intro snapshot_valid_metadata add_issue_facts(3) BUDGET_CODE_ok) (simp_all add: issues_ok_def)
  show "BUDGET_CODE \<in> ic_code ` set (ps_issues (sorted_metadata s))"
    by (simp add: sorted_metadata_def add_issue_facts(1))
  show "i \<in> set (ps_issues (sorted_metadata s)) \<Longrightarrow> i \<in> set (ps_issues s) \<or> ic_code i = BUDGET_CODE"
    using add_issue_facts(2) [of i "sort_key ic_code (ps_issues s)" BUDGET_CODE 1] by (simp add: sorted_metadata_def)
qed (simp add: sorted_metadata_def)

lemma trimmed_sorted:
  assumes "trimmed (sorted_metadata s) s'"
  shows "\<exists>d is. s' = with_metadata d is s \<and> set d \<subseteq> set (ps_permission_denied_counts s) \<and>
    (\<forall>i \<in> set is. i \<in> set (ps_issues s) \<or> ic_code i = BUDGET_CODE) \<and> BUDGET_CODE \<in> ic_code ` set is"
proof -
  from assms obtain d "is" where t: "s' = with_metadata d is (sorted_metadata s)"
    "set d \<subseteq> set (ps_permission_denied_counts (sorted_metadata s))" "set is \<subseteq> set (ps_issues (sorted_metadata s))"
    "budget_issues is = budget_issues (ps_issues (sorted_metadata s))"
    unfolding trimmed_def by blast
  moreover have "with_metadata d is (sorted_metadata s) = with_metadata d is s" by (simp add: sorted_metadata_def)
  ultimately show ?thesis
    using sorted_metadata_facts(2-4) [where s = s] unfolding budget_code_in by (metis subsetD)
qed

lemma trim_fits: "fits to_vec reply \<Longrightarrow> trim_issue_metadata_to_fit to_vec reply = (Ok (), reply)"
  by (subst trim_issue_metadata_to_fit.simps) (auto simp: fits_len)

text \<open>The two phases of the reduction.\<close>

lemma after_trim:
  "(case x of (Inl e, _) \<Rightarrow> Err e | (Inr _, b) \<Rightarrow> f b) = Ok y \<longleftrightarrow> fst x = Ok () \<and> f (snd x) = Ok y"
  by (cases x; cases "fst x") auto

lemma reply_valid_snapshot:
  "tp_body r = Tb_Snapshot s \<Longrightarrow> telemetry_reply_validate r = Ok () \<longleftrightarrow> tp_version r = 3 \<and> private_snapshot_validate s = Ok ()"
  by (auto simp: telemetry_reply_validate_def telemetry_validate_version_def TELEMETRY_PROTOCOL_VERSION_def and_then_eq_Ok
      split: if_splits)

lemma bounded_bare:
  obtains "is" where "bounded_snapshot (bare (sorted_metadata s)) ks = reduction (set ks) [] is s"
    "\<forall>i \<in> set is. ic_code i = BUDGET_CODE" "BUDGET_CODE \<in> ic_code ` set is"
    "private_snapshot_validate s = Ok () \<Longrightarrow> issues_ok is"
proof -
  let ?is0 = "budget_issues (ps_issues (sorted_metadata s))"
  have s2: "bare (sorted_metadata s) = with_metadata [] ?is0 s" by (simp add: bare_def sorted_metadata_def)
  from bounded_with_metadata [of ?is0 "[]" s ks] obtain c where
    c: "bounded_snapshot (bare (sorted_metadata s)) ks = reduction (set ks) [] (add_or_replace_issue ?is0 BUDGET_CODE c) s"
    unfolding s2 by blast
  have "\<forall>i \<in> set (add_or_replace_issue ?is0 BUDGET_CODE c). ic_code i = BUDGET_CODE"
    using add_issue_facts(2) [of _ ?is0] by (auto simp: budget_issues_def)
  moreover have "issues_ok (add_or_replace_issue ?is0 BUDGET_CODE c)" if "private_snapshot_validate s = Ok ()"
  proof (rule add_issue_facts(3) [OF _ BUDGET_CODE_ok])
    show "issues_ok ?is0"
      using snapshot_valid_issues(2) [OF sorted_metadata_facts(1) [OF that]] by (auto simp: issues_ok_def budget_issues_def intro: le_trans [OF length_filter_le])
  qed
  ultimately show ?thesis using that c add_issue_facts(1) by blast
qed

lemma bounded_reply_version:
  "tp_version r = 3 \<Longrightarrow> bounded_snapshot_reply (tp_generation r) s ks = with_snapshot r (bounded_snapshot s ks)"
  by (cases r) (simp add: bounded_snapshot_reply_def telemetry_reply_snapshot_def TELEMETRY_PROTOCOL_VERSION_def)

lemma application_keys_bare: "application_keys (bare (sorted_metadata s)) = application_keys s"
  by (simp add: application_keys_def bare_def sorted_metadata_def)

lemma reduce_applications_Ok:
  assumes "tp_version r = 3"
  shows "reduce_applications to_vec (tp_generation r) (bare (sorted_metadata s)) = Ok r' \<longleftrightarrow>
    (\<exists>n. search_retained to_vec (tp_generation r) (bare (sorted_metadata s)) (application_keys s) 0
          (length (application_keys s)) = Ok n \<and>
       trim_issue_metadata_to_fit to_vec (with_snapshot r (bounded_snapshot (bare (sorted_metadata s)) (take n (application_keys s))))
         = (Ok (), r') \<and>
       telemetry_reply_validate r' = Ok ())"
  unfolding reduce_applications_def application_keys_bare bounded_reply_version [OF assms] after_trim and_then_eq_Ok prod_eq_iff
  by auto

lemma reduce_applications_result:
  assumes version: "tp_version r = 3" and body: "tp_body r = Tb_Snapshot s"
    and result: "reduce_applications to_vec (tp_generation r) (bare (sorted_metadata s)) = Ok r'"
  shows "telemetry_reply_validate r' = Ok () \<and> fits to_vec r' \<and> reply_reduces to_vec r r'"
proof -
  let ?ks = "\<lambda>n. take n (application_keys s)" and ?b = "\<lambda>n. bounded_snapshot (bare (sorted_metadata s)) (take n (application_keys s))"
  from result obtain n where n: "search_retained to_vec (tp_generation r) (bare (sorted_metadata s)) (application_keys s) 0
        (length (application_keys s)) = Ok n"
    and t: "trim_issue_metadata_to_fit to_vec (with_snapshot r (?b n)) = (Ok (), r')" and valid: "telemetry_reply_validate r' = Ok ()"
    unfolding reduce_applications_Ok [OF version] by blast
  obtain s' where s': "r' = with_snapshot r s'" "trimmed (?b n) s'" "fits to_vec r'"
    using trim_result [of "with_snapshot r (?b n)" "?b n" to_vec] t by auto
  obtain is0 where is0: "?b n = reduction (set (?ks n)) [] is0 s" "\<forall>i \<in> set is0. ic_code i = BUDGET_CODE"
    "BUDGET_CODE \<in> ic_code ` set is0" by (rule bounded_bare [of s "?ks n"])
  from trimmed_reduction [OF s'(2) [unfolded is0(1)]] obtain d "is" where m: "s' = reduction (set (?ks n)) d is s" "set d \<subseteq> {}"
    "set is \<subseteq> set is0" "budget_issues is = budget_issues is0" by auto
  have red: "r' = with_snapshot r (reduction (set (?ks n)) d is s)" using s'(1) m(1) by simp
  have mem: "BUDGET_CODE \<in> ic_code ` set is" using is0(3) m(4) unfolding budget_code_in by metis
  have maximal: "n = length (application_keys s) \<or> \<not> fits to_vec (with_snapshot r (?b (Suc n)))"
    using search_result [OF n] by (simp add: bounded_reply_version [OF version])
  have "reply_reduces to_vec r r'"
    unfolding reply_reduces_def using body red m(2,3) is0(2) mem maximal
    by (intro disjI2 exI [of _ s] exI [of _ "set (?ks n)"] exI [of _ d] exI [of _ "is"]) auto
  with s'(3) valid show ?thesis by blast
qed

text \<open>Enough is left to send when the snapshot without records and metadata fits.\<close>

definition bare_fits :: "('f telemetry_reply \<Rightarrow> bytes option) \<Rightarrow> 'f telemetry_reply \<Rightarrow> 'f private_snapshot \<Rightarrow> bool" where
  "bare_fits to_vec r s \<longleftrightarrow> (\<forall>is. issues_ok is \<and> (\<forall>i \<in> set is. ic_code i = BUDGET_CODE) \<longrightarrow>
     fits to_vec (with_snapshot r (reduction {} [] is s)))"

lemma reduce_applications_total:
  assumes valid: "telemetry_reply_validate r = Ok ()" and body: "tp_body r = Tb_Snapshot s"
    and vec: "\<And>v. to_vec v \<noteq> None" and bare: "bare_fits to_vec r s"
  shows "is_ok (reduce_applications to_vec (tp_generation r) (bare (sorted_metadata s)))"
proof -
  let ?ks = "\<lambda>n. take n (application_keys s)" and ?b = "\<lambda>n. bounded_snapshot (bare (sorted_metadata s)) (take n (application_keys s))"
  have version: "tp_version r = 3" and s: "private_snapshot_validate s = Ok ()"
    using valid reply_valid_snapshot [OF body] by auto
  obtain n where n: "search_retained to_vec (tp_generation r) (bare (sorted_metadata s)) (application_keys s) 0
      (length (application_keys s)) = Ok n"
    using search_total [of to_vec] vec by blast
  obtain "is" where "is": "?b n = reduction (set (?ks n)) [] is s" "\<forall>i \<in> set is. ic_code i = BUDGET_CODE" "issues_ok is"
    by (rule bounded_bare [of s "?ks n"]) (rule that, use s in auto)
  have t: "fst (trim_issue_metadata_to_fit to_vec (with_snapshot r (?b n))) = Ok ()"
  proof (cases "n = 0")
    case True
    have "fits to_vec (with_snapshot (with_snapshot r (?b n)) (bare (?b n)))"
      using bare "is" True by (auto simp: bare_fits_def bare_def reduction_def budget_issues_def filter_True)
    then show ?thesis using trim_total [OF _ vec, of "with_snapshot r (?b n)" "?b n"] by simp
  next
    case False
    then have "fits to_vec (with_snapshot r (?b n))"
      using search_result [OF n] by (simp add: bounded_reply_version [OF version])
    then show ?thesis by (simp only: trim_fits fst_conv)
  qed
  obtain s' where s': "snd (trim_issue_metadata_to_fit to_vec (with_snapshot r (?b n))) = with_snapshot r s'" "trimmed (?b n) s'"
    using trim_result [of "with_snapshot r (?b n)" "?b n" to_vec] by auto
  have "private_snapshot_validate (?b n) = Ok ()"
    unfolding "is"(1) by (rule reduction_valid [OF s _ "is"(3)]) (simp add: issues_ok_def)
  then have "telemetry_reply_validate (with_snapshot r s') = Ok ()"
    using trimmed_valid [OF s'(2)] version reply_valid_snapshot [of "with_snapshot r s'" s'] by simp
  then show ?thesis
    unfolding is_ok_iff reduce_applications_Ok [OF version] using n t s'(1) by (metis prod.collapse)
qed

text \<open>How \<open>bounded_reply\<close> gets to a reply.\<close>

lemma bounded_reply_cases:
  assumes "telemetry_reply_validate r = Ok ()" "to_vec r \<noteq> None"
  obtains (small) "fits to_vec r" "bounded_reply to_vec r = Ok r"
  | (error) e where "tp_body r = Tb_Error e" "\<not> is_ok (bounded_reply to_vec r)"
  | (metadata) s s1 where "tp_body r = Tb_Snapshot s" "trimmed (sorted_metadata s) s1" "fits to_vec (with_snapshot r s1)"
      "bounded_reply to_vec r = Ok (with_snapshot r s1)"
  | (json) s v where "tp_body r = Tb_Snapshot s" "to_vec v = None" "\<not> is_ok (bounded_reply to_vec r)"
  | (apps) s where "tp_body r = Tb_Snapshot s"
      "bounded_reply to_vec r = reduce_applications to_vec (tp_generation r) (bare (sorted_metadata s))"
proof -
  obtain p where p: "to_vec r = Some p" using assms(2) by blast
  then have len: "serialized_len to_vec r = Ok (length p)" by (simp add: serialized_len_Ok)
  note unfold = bounded_reply_def [of to_vec r, unfolded assms(1) len and_then_Ok]
  show ?thesis
  proof (cases "fits to_vec r")
    case True
    then show ?thesis using small unfold p by (auto simp: fits_def)
  next
    case False
    then have big: "\<not> length p \<le> TELEMETRY_MAX_FRAME_BYTES" using p by (simp add: fits_def)
    show ?thesis
    proof (cases "tp_body r")
      case (Tb_Error e)
      then show ?thesis using error unfold big by simp
    next
      case (Tb_Snapshot s)
      let ?r = "with_snapshot r (sorted_metadata s)"
      obtain res r1 where t: "trim_issue_metadata_to_fit to_vec ?r = (res, r1)" by fastforce
      obtain s1 where s1: "r1 = with_snapshot r s1" "trimmed (sorted_metadata s) s1" "res = Ok () \<longrightarrow> fits to_vec r1"
        "\<And>e. res = Err e \<Longrightarrow> (\<exists>n m. e = Hf_Oversized n m) \<and> s1 = bare (sorted_metadata s) \<or>
           e = Hf_MalformedJson \<and> (\<exists>v. to_vec v = None)"
        using trim_result [of ?r "sorted_metadata s" to_vec] t by auto
      have valid: "telemetry_reply_validate r1 = Ok ()"
        using assms(1) s1(1) trimmed_valid [OF s1(2)] sorted_metadata_facts(1) [of s] reply_valid_snapshot [OF Tb_Snapshot]
          reply_valid_snapshot [of "with_snapshot r s1" s1] by simp
      show ?thesis
      proof (cases res)
        case (Inr u)
        then show ?thesis using metadata [OF Tb_Snapshot s1(2)] s1 unfold big t valid Tb_Snapshot by simp
      next
        case (Inl e)
        show ?thesis
        proof (cases "\<exists>n m. e = Hf_Oversized n m")
          case True
          then show ?thesis using apps [OF Tb_Snapshot] s1 unfold big t Tb_Snapshot Inl by auto
        next
          case other: False
          then have "\<not> is_ok (bounded_reply to_vec r)"
            using unfold big t Tb_Snapshot Inl by (auto split: helper_frame_error.splits)
          moreover have "\<exists>v. to_vec v = None" using s1(4) [OF Inl] other by blast
          ultimately show ?thesis using json Tb_Snapshot by blast
        qed
      qed
    qed
  qed
qed

lemma bounded_reply_result:
  assumes "bounded_reply to_vec r = Ok r'"
  shows "telemetry_reply_validate r' = Ok () \<and> fits to_vec r' \<and> reply_reduces to_vec r r'"
proof -
  have valid: "telemetry_reply_validate r = Ok ()" and vec: "to_vec r \<noteq> None"
    using assms by (auto simp: bounded_reply_def and_then_eq_Ok serialized_len_Ok)
  from valid vec show ?thesis
  proof (cases rule: bounded_reply_cases)
    case small
    then show ?thesis using assms valid by (simp add: reply_reduces_def)
  next
    case (metadata s s1)
    from trimmed_sorted [OF metadata(2)] obtain d "is" where m: "s1 = with_metadata d is s" "set d \<subseteq> set (ps_permission_denied_counts s)"
      "\<forall>i \<in> set is. i \<in> set (ps_issues s) \<or> ic_code i = BUDGET_CODE" "BUDGET_CODE \<in> ic_code ` set is" by blast
    have "private_snapshot_validate s1 = Ok ()" "tp_version r = 3"
      using valid reply_valid_snapshot [OF metadata(1)] trimmed_valid [OF metadata(2)] sorted_metadata_facts(1) by blast+
    then have "telemetry_reply_validate (with_snapshot r s1) = Ok ()"
      using reply_valid_snapshot [of "with_snapshot r s1" s1] by simp
    moreover have "reply_reduces to_vec r (with_snapshot r s1)"
      unfolding reply_reduces_def using m metadata(1)
      by (intro disjI2 exI [of _ s] exI [of _ UNIV] exI [of _ d] exI [of _ "is"]) simp
    ultimately show ?thesis using metadata assms by simp
  next
    case (apps s)
    then show ?thesis using assms valid reply_valid_snapshot [OF apps(1)] reduce_applications_result [OF _ apps(1)] by metis
  qed (use assms in auto)
qed

section \<open>On the wire\<close>

lemma write_frame_Ok:
  "helper_write_frame m outcome p wire = (Ok (), w) \<longleftrightarrow>
     outcome = None \<and> payload_fits m p \<and> length p < 2 ^ 32 \<and> w = wire @ to_be_bytes (of_nat (length p)) @ p"
  by (auto simp: helper_write_frame_def ensure_payload_size_def payload_fits_def Let_def split: option.splits prod.splits if_splits)

lemma read_written_frame:
  assumes "payload_fits TELEMETRY_MAX_FRAME_BYTES p"
  shows "\<exists>r. telemetry_read_frame \<lparr>rd_bytes = (to_be_bytes (of_nat (length p)) @ p) @ rest, rd_breaks = False\<rparr> = (Ok (Some p), r) \<and>
    rd_bytes r = rest"
  using helper_get_put(2) [OF assms, of rest]
  by (auto simp: helper_get_def telemetry_read_frame_def TELEMETRY_MAX_FRAME_BYTES_def split: prod.splits sum.splits option.splits)

lemma or_return:
  "(case x of Inl e \<Rightarrow> (Err e, wire) | Inr p \<Rightarrow> f p) = (Ok (), w) \<longleftrightarrow> (\<exists>p. x = Ok p \<and> f p = (Ok (), w))"
  by (cases x) auto

lemma write_reply_Ok:
  "write_reply to_vec outcome r wire = (Ok (), w) \<longleftrightarrow>
     (\<exists>r' p. bounded_reply to_vec r = Ok r' \<and> to_vec r' = Some p \<and> p \<noteq> [] \<and> outcome = None \<and>
        w = wire @ to_be_bytes (of_nat (length p)) @ p)"
proof -
  have "to_vec r' = Some p \<Longrightarrow> p \<noteq> [] \<Longrightarrow> bounded_reply to_vec r = Ok r' \<Longrightarrow>
      payload_fits TELEMETRY_MAX_FRAME_BYTES p \<and> length p < 2 ^ 32" for r' p
    using bounded_reply_result [of to_vec r r'] by (auto simp: fits_def payload_fits_def TELEMETRY_MAX_FRAME_BYTES_def)
  then show ?thesis
    unfolding write_reply_def telemetry_encode_def telemetry_write_frame_def or_return and_then_eq_Ok helper_encode_Ok write_frame_Ok
    by (auto simp: payload_fits_def)
qed

lemma bounded_reply_total:
  assumes "telemetry_reply_validate r = Ok ()" "tp_body r = Tb_Snapshot s" "\<And>v. to_vec v \<noteq> None" "bare_fits to_vec r s"
  shows "is_ok (bounded_reply to_vec r)"
  using assms(1,3)
proof (cases rule: bounded_reply_cases [of r to_vec])
  case (apps s')
  then show ?thesis using assms reduce_applications_total [of r s' to_vec] by simp
qed (use assms in auto)

section \<open>Properties\<close>

text \<open>C32: a written reply arrives: when the helper has written a reply, it put one frame on the wire, whose
  payload is the JSON of a valid reply within the size limit that is the original or its reduction to whole
  applications: those that are kept come with all their processes and cgroups, the issues say that the
  budget was exceeded, and one more application would not have fitted. From these bytes the service, whatever follows
  them, hands exactly the payload to serde_json, takes the value it reads if that value is valid, and leaves what
  follows unread. Nothing is assumed of how numbers are read back: the value is the reply that was written
  when serde_json reads the payload back exactly, which it does not promise for every \<open>f64\<close>.\<close>

theorem telemetry_reply_delivered:
  assumes "write_reply to_vec outcome r wire = (Ok (), wire')"
  shows "\<exists>r' payload. telemetry_reply_validate r' = Ok () \<and> reply_reduces to_vec r r' \<and> to_vec r' = Some payload \<and>
    length payload \<le> TELEMETRY_MAX_FRAME_BYTES \<and> wire' = wire @ to_be_bytes (of_nat (length payload)) @ payload \<and>
    (\<forall>rest. \<exists>left. rd_bytes left = rest \<and>
       read_reply from_slice \<lparr>rd_bytes = (to_be_bytes (of_nat (length payload)) @ payload) @ rest, rd_breaks = False\<rparr> =
       (case from_slice payload of
          None \<Rightarrow> Err Hf_MalformedJson
        | Some v \<Rightarrow> (case telemetry_reply_validate v of Inl e \<Rightarrow> Err e | Inr _ \<Rightarrow> Ok (Some v)), left))"
proof -
  from assms obtain r' p where w: "bounded_reply to_vec r = Ok r'" "to_vec r' = Some p" "p \<noteq> []"
    "wire' = wire @ to_be_bytes (of_nat (length p)) @ p" unfolding write_reply_Ok by blast
  note r' = bounded_reply_result [OF w(1)]
  then have p: "payload_fits TELEMETRY_MAX_FRAME_BYTES p" using w by (simp add: fits_def payload_fits_def)
  then have "telemetry_decode_reply from_slice p =
      (case from_slice p of None \<Rightarrow> Err Hf_MalformedJson
       | Some v \<Rightarrow> (case telemetry_reply_validate v of Inl e \<Rightarrow> Err e | Inr _ \<Rightarrow> Ok v))"
    by (auto simp: telemetry_decode_reply_def helper_decode_def ensure_payload_size_def payload_fits_def result_simps
        split: option.splits sum.splits)
  then have "\<exists>left. rd_bytes left = rest \<and>
      read_reply from_slice \<lparr>rd_bytes = (to_be_bytes (of_nat (length p)) @ p) @ rest, rd_breaks = False\<rparr> =
       (case from_slice p of None \<Rightarrow> Err Hf_MalformedJson
        | Some v \<Rightarrow> (case telemetry_reply_validate v of Inl e \<Rightarrow> Err e | Inr _ \<Rightarrow> Ok (Some v)), left)" for rest
    using read_written_frame [OF p, of rest] unfolding read_reply_def read_message_def
    by (auto split: option.splits sum.splits)
  then show ?thesis using w(2,4) r' p by (intro exI [of _ r'] exI [of _ p]) (simp add: payload_fits_def)
qed

text \<open>A snapshot of two applications and a serializer under which it is too large until its metadata is sorted and
  marked, written as one byte then.\<close>

definition sample_application :: "string \<Rightarrow> nat application_record" where
  "sample_application key = \<lparr>ar_application_key = key, ar_process_count = 1, ar_proc_cpu_jiffies_sum = metric_known 1,
     ar_rss_sum_bytes = metric_known 1, ar_pss_sum_bytes = metric_known 1, ar_fd_used_sum = metric_known 1,
     ar_fd_soft_limit_sum = metric_known 1, ar_fd_percent_of_attributed_sum = metric_known 50,
     ar_fd_percent_of_soft_limit_sum = metric_known 1, ar_cgroup_cpu_usage_usec = metric_unavailable Ms_Unknown ''none'',
     ar_memory_current_bytes = metric_known 1, ar_cgroup_process_count = metric_known 1\<rparr>"

definition sample_snapshot :: "nat private_snapshot" where
  "sample_snapshot = \<lparr>ps_boot_id = ''boot'', ps_euid = 1000, ps_captured_at_unix_ms = 1, ps_captured_at_monotonic_ns = metric_known 1,
     ps_total_cpu_jiffies = 10, ps_logical_cpu_count = 2, ps_processes = [], ps_cgroups = [],
     ps_applications = [sample_application ''a'', sample_application ''b''],
     ps_system_fd = system_fd_unavailable Ms_Unknown ''none'', ps_excluded_other_uid = 0, ps_skipped_race = 0,
     ps_permission_denied_counts = [], ps_issues = []\<rparr>"

definition sample_telemetry_reply :: "nat telemetry_reply" where
  "sample_telemetry_reply = telemetry_reply_snapshot 1 sample_snapshot"

definition oversized :: bytes where
  "oversized = replicate (Suc TELEMETRY_MAX_FRAME_BYTES) 0"

lemma sample_valid: "telemetry_reply_validate sample_telemetry_reply = Ok ()"
proof -
  have m: "validate_metric (metric_known x) = Ok ()" "validate_metric (metric_unavailable Ms_Unknown ''none'') = Ok ()" for x :: 'z
    by (simp_all add: validate_metric_def metric_known_def metric_unavailable_def TELEMETRY_MAX_REASON_BYTES_def has_nul_def)
  have "private_snapshot_validate sample_snapshot = Ok ()"
    by (simp add: snapshot_valid_iff scalars_ok_def sample_snapshot_def sample_application_def validate_application_def validate_string_Ok
        name_ok_def has_nul_def issues_ok_def system_fd_unavailable_def m)
  then show ?thesis
    using reply_valid_snapshot [of sample_telemetry_reply sample_snapshot]
    by (simp add: sample_telemetry_reply_def telemetry_reply_snapshot_def TELEMETRY_PROTOCOL_VERSION_def)
qed

definition sample_to_vec :: "nat telemetry_reply \<Rightarrow> bytes option" where
  "sample_to_vec v =
     (if v = sample_telemetry_reply then Some oversized
      else if v = with_snapshot sample_telemetry_reply (sorted_metadata sample_snapshot) then Some [1] else None)"

definition sample_from_slice :: "bytes \<Rightarrow> nat telemetry_reply option" where
  "sample_from_slice p =
     (if p = [1] then Some (with_snapshot sample_telemetry_reply (sorted_metadata sample_snapshot))
      else if p = oversized then Some sample_telemetry_reply else None)"

lemma oversized_facts: "length oversized = Suc TELEMETRY_MAX_FRAME_BYTES" "oversized \<noteq> [1]"
proof -
  show len: "length oversized = Suc TELEMETRY_MAX_FRAME_BYTES" by (simp only: oversized_def length_replicate)
  show "oversized \<noteq> [1]"
  proof
    assume "oversized = [1]"
    from arg_cong [OF this, of length] show False using len by (simp add: TELEMETRY_MAX_FRAME_BYTES_def)
  qed
qed

lemma sample_marked: "with_snapshot sample_telemetry_reply (sorted_metadata sample_snapshot) \<noteq> sample_telemetry_reply"
  by (simp add: sample_telemetry_reply_def telemetry_reply_snapshot_def sorted_metadata_def sample_snapshot_def
      add_or_replace_issue_def MAX_ISSUE_RECORDS_def)

lemma sample_written: "write_reply sample_to_vec None sample_telemetry_reply [] = (Ok (), to_be_bytes 1 @ [1])"
proof -
  let ?m = "with_snapshot sample_telemetry_reply (sorted_metadata sample_snapshot)"
  have small: "fits sample_to_vec ?m"
    using sample_marked by (simp add: fits_def sample_to_vec_def TELEMETRY_MAX_FRAME_BYTES_def)
  have big: "serialized_len sample_to_vec sample_telemetry_reply = Ok (Suc TELEMETRY_MAX_FRAME_BYTES)"
    by (simp add: serialized_len_Ok sample_to_vec_def oversized_facts)
  have body: "tp_body sample_telemetry_reply = Tb_Snapshot sample_snapshot"
    by (simp add: sample_telemetry_reply_def telemetry_reply_snapshot_def)
  have "telemetry_reply_validate ?m = Ok ()"
    using sample_valid reply_valid_snapshot [OF body] reply_valid_snapshot [of ?m] sorted_metadata_facts(1) [of sample_snapshot] by simp
  then have "bounded_reply sample_to_vec sample_telemetry_reply = Ok ?m"
    unfolding bounded_reply_def sample_valid big body and_then_Ok telemetry_body.case trim_fits [OF small] by simp
  moreover have "sample_to_vec ?m = Some [1]" using sample_marked by (simp add: sample_to_vec_def)
  ultimately show ?thesis unfolding write_reply_Ok by simp
qed

theorem telemetry_reply_delivered_witness:
  "\<exists>r' left. reply_reduces sample_to_vec sample_telemetry_reply r' \<and> rd_bytes left = [7, 7] \<and>
     read_reply sample_from_slice \<lparr>rd_bytes = (to_be_bytes 1 @ [1]) @ [7, 7], rd_breaks = False\<rparr> = (Ok (Some r'), left)"
proof -
  obtain r' p where r': "telemetry_reply_validate r' = Ok ()" "reply_reduces sample_to_vec sample_telemetry_reply r'"
    "sample_to_vec r' = Some p" and wire: "to_be_bytes 1 @ [1] = [] @ to_be_bytes (of_nat (length p)) @ p"
    and read: "\<exists>left. rd_bytes left = [7, 7] \<and>
       read_reply sample_from_slice \<lparr>rd_bytes = (to_be_bytes (of_nat (length p)) @ p) @ [7, 7], rd_breaks = False\<rparr> =
       (case sample_from_slice p of None \<Rightarrow> Err Hf_MalformedJson
        | Some v \<Rightarrow> (case telemetry_reply_validate v of Inl e \<Rightarrow> Err e | Inr _ \<Rightarrow> Ok (Some v)), left)"
    using telemetry_reply_delivered [of sample_to_vec None sample_telemetry_reply "[]" _ sample_from_slice, OF sample_written] by blast
  have "sample_from_slice p = Some r'"
    using r'(3) oversized_facts(2) by (auto simp: sample_to_vec_def sample_from_slice_def split: if_splits)
  then show ?thesis using read r'(1,2) wire by (metis (no_types, lifting) append_Nil option.simps(5) sum.case(2))
qed

text \<open>C34: the helper always has an answer: for a valid snapshot that serde_json can write, however large, a reply is
  found and written, provided the snapshot without records and metadata fits a frame.\<close>

theorem telemetry_reply_found:
  assumes "telemetry_reply_validate r = Ok ()" "tp_body r = Tb_Snapshot s"
    and "\<And>v. \<exists>p. to_vec v = Some p \<and> p \<noteq> []" and "bare_fits to_vec r s"
  shows "\<exists>frame. write_reply to_vec None r wire = (Ok (), wire @ frame)"
proof -
  have "\<And>v. to_vec v \<noteq> None" using assms(3) by (metis option.distinct(1))
  from bounded_reply_total [OF assms(1,2) this assms(4)] obtain r' where r': "bounded_reply to_vec r = Ok r'"
    by (auto simp: is_ok_iff)
  obtain p where "to_vec r' = Some p" "p \<noteq> []" using assms(3) by blast
  with r' show ?thesis unfolding write_reply_Ok by blast
qed

text \<open>Here every application takes 600000 bytes, so that only one of the two can stay.\<close>

definition sized_to_vec :: "nat telemetry_reply \<Rightarrow> bytes option" where
  "sized_to_vec v = Some (replicate (case tp_body v of
     Tb_Snapshot s \<Rightarrow> Suc (600000 * length (ps_applications s)) | Tb_Error _ \<Rightarrow> 1) 0)"

theorem telemetry_reply_found_witness:
  "\<exists>frame. write_reply sized_to_vec None sample_telemetry_reply [] = (Ok (), [] @ frame)"
proof (rule telemetry_reply_found [OF sample_valid])
  show "tp_body sample_telemetry_reply = Tb_Snapshot sample_snapshot"
    by (simp add: sample_telemetry_reply_def telemetry_reply_snapshot_def)
  show "\<exists>p. sized_to_vec v = Some p \<and> p \<noteq> []" for v
    by (auto simp: sized_to_vec_def split: telemetry_body.splits)
  show "bare_fits sized_to_vec sample_telemetry_reply sample_snapshot"
    by (auto simp: bare_fits_def fits_def sized_to_vec_def reduction_def retained_apps_def sample_snapshot_def TELEMETRY_MAX_FRAME_BYTES_def)
qed

end
