(* ===== verification/Notes_Model.thy ===== *)
theory Notes_Model
  imports Rust_Text
begin

text \<open>
  The data of the notes component (crates/notes/src/model.rs): notes, drafts, queries and
  retention policies, the check of diary dates, and the checklist items inside a Markdown body.
  Shown: the date check accepts exactly the printed days of the calendar, the status texts
  round trip, and setting an item of a checklist changes the mark of that item and nothing else.
\<close>

section \<open>Limits\<close>

definition MAX_TITLE_CHARS :: nat where "MAX_TITLE_CHARS = 512"
definition MAX_BODY_BYTES :: nat where "MAX_BODY_BYTES = 4 * 1024 * 1024"
definition MAX_TAGS :: nat where "MAX_TAGS = 64"
definition MAX_TAG_CHARS :: nat where "MAX_TAG_CHARS = 64"
definition MAX_QUERY_LIMIT :: u32 where "MAX_QUERY_LIMIT = 500"

section \<open>Notes\<close>

datatype note_status = NoteDraftStatus | NoteActive | NoteCompleted | NoteArchived

fun status_as_str :: "note_status \<Rightarrow> string" where
  "status_as_str NoteDraftStatus = ''draft''"
| "status_as_str NoteActive = ''active''"
| "status_as_str NoteCompleted = ''completed''"
| "status_as_str NoteArchived = ''archived''"

definition status_parse :: "string \<Rightarrow> note_status option" where
  "status_parse v =
     (if v = ''draft'' then Some NoteDraftStatus
      else if v = ''active'' then Some NoteActive
      else if v = ''completed'' then Some NoteCompleted
      else if v = ''archived'' then Some NoteArchived
      else None)"

record note_data =
  n_id :: string
  n_title :: string
  n_body_markdown :: string
  n_diary_date :: "string option"
  n_tags :: "string list"
  n_status :: note_status
  n_pinned :: bool
  n_created_at_ms :: i64
  n_updated_at_ms :: i64
  n_deleted_at_ms :: "i64 option"
  n_revision :: u64

record note_draft =
  d_title :: string
  d_body_markdown :: string
  d_diary_date :: "string option"
  d_tags :: "string list"
  d_status :: note_status
  d_pinned :: bool

record create_note =
  c_title :: string
  c_body_markdown :: string
  c_diary_date :: "string option"
  c_tags :: "string list"
  c_status :: note_status
  c_pinned :: bool

definition draft_of_create :: "create_note \<Rightarrow> note_draft" where
  "draft_of_create v =
     \<lparr>d_title = c_title v, d_body_markdown = c_body_markdown v, d_diary_date = c_diary_date v,
      d_tags = c_tags v, d_status = c_status v, d_pinned = c_pinned v\<rparr>"

record save_note =
  s_id :: string
  s_expected_revision :: u64
  s_draft :: note_draft

record note_revision =
  nr_note :: note_data
  nr_recorded_at_ms :: i64

datatype deleted_filter = DeletedExclude | DeletedInclude | DeletedOnly

datatype note_sort = UpdatedDesc | CreatedDesc | TitleAsc | DiaryDateDesc

record note_query =
  q_search :: "string option"
  q_diary_date_from :: "string option"
  q_diary_date_to :: "string option"
  q_tags :: "string list"
  q_status :: "note_status option"
  q_deleted :: deleted_filter
  q_sort :: note_sort
  q_limit :: u32
  q_offset :: u32

record note_retention_policy =
  purge_deleted_before_ms :: "i64 option"
  prune_revisions_before_ms :: "i64 option"
  keep_latest_revisions :: u32

record note_retention_result =
  purged_notes :: nat
  pruned_revisions :: nat

section \<open>Checklists\<close>

record checklist_item =
  ci_index :: nat
  ci_line :: nat
  ci_checked :: bool
  ci_text :: string

text \<open>The byte offset of the opening bracket of \<open>- [x]\<close>, after spaces and tabs.\<close>

definition checklist_marker_offset :: "string \<Rightarrow> nat option" where
  "checklist_marker_offset line =
     (let trimmed = dropWhile (\<lambda>c. c = CHR '' '' \<or> c = CHR 0x09) line;
          indent = length line - length trimmed
      in if length trimmed < 5 \<or> trimmed ! 0 \<notin> {CHR ''-'', CHR ''*'', CHR ''+''} \<or> trimmed ! 1 \<noteq> CHR '' '' then None
         else if trimmed ! 2 \<noteq> CHR ''['' \<or> trimmed ! 3 \<notin> {CHR '' '', CHR ''x'', CHR ''X''} \<or> trimmed ! 4 \<noteq> CHR '']'' then None
         else Some (indent + 2))"

definition checklist_marker :: "string \<Rightarrow> (bool \<times> string) option" where
  "checklist_marker line =
     (case checklist_marker_offset line of
        None \<Rightarrow> None
      | Some marker \<Rightarrow>
          Some (line ! (marker + 1) \<in> {CHR ''x'', CHR ''X''}, trim_start (drop (marker + 3) line)))"

definition checklist_items :: "string \<Rightarrow> checklist_item list" where
  "checklist_items markdown =
     map (\<lambda>(index, line, checked, text). \<lparr>ci_index = index, ci_line = line, ci_checked = checked, ci_text = text\<rparr>)
       (enumerate 0 (List.map_filter (\<lambda>(line, source). map_option (\<lambda>(checked, text). (line, checked, text)) (checklist_marker source))
          (enumerate 0 (text_lines markdown))))"

text \<open>The loop of \<open>set_checklist_item\<close> over the numbered lines; the question mark on a missing
  marker ends it.\<close>

definition mark_line :: "bool \<Rightarrow> nat \<Rightarrow> string \<Rightarrow> string" where
  "mark_line checked marker line =
     take (marker + 1) line @ [if checked then CHR ''x'' else CHR '' ''] @ drop (marker + 2) line"

fun rewrite_lines :: "nat \<Rightarrow> bool \<Rightarrow> (nat \<times> string) list \<Rightarrow> string \<Rightarrow> string option" where
  "rewrite_lines target checked [] output = Some output"
| "rewrite_lines target checked ((i, line) # rest) output =
     (if i = target
      then case checklist_marker_offset line of
             None \<Rightarrow> None
           | Some marker \<Rightarrow> rewrite_lines target checked rest (output @ mark_line checked marker line)
      else rewrite_lines target checked rest (output @ line))"

definition set_checklist_item :: "string \<Rightarrow> nat \<Rightarrow> bool \<Rightarrow> string option" where
  "set_checklist_item markdown item_index checked =
     (if item_index < length (checklist_items markdown)
      then rewrite_lines (ci_line (checklist_items markdown ! item_index)) checked
             (enumerate 0 (split_inclusive markdown)) []
      else None)"

section \<open>Diary dates\<close>

definition max_day :: "u32 \<Rightarrow> u32 \<Rightarrow> u32 option" where
  "max_day year month =
     (if month \<in> {1, 3, 5, 7, 8, 10, 12} then Some 31
      else if month \<in> {4, 6, 9, 11} then Some 30
      else if month = 2 \<and> (year mod 400 = 0 \<or> (year mod 4 = 0 \<and> year mod 100 \<noteq> 0)) then Some 29
      else if month = 2 then Some 28
      else None)"

definition validate_date :: "string \<Rightarrow> bool" where
  "validate_date v =
     (if length v \<noteq> 10 \<or> v ! 4 \<noteq> CHR ''-'' \<or> v ! 7 \<noteq> CHR ''-'' \<or>
         list_ex (\<lambda>(index, byte). index \<notin> {4, 7} \<and> \<not> is_ascii_digit byte) (enumerate 0 v)
      then False
      else case (parse_u32 (take 4 v), parse_u32 (take 2 (drop 5 v)), parse_u32 (take 2 (drop 8 v))) of
        (Some year, Some month, Some day) \<Rightarrow>
          (case max_day year month of None \<Rightarrow> False | Some m \<Rightarrow> 1 \<le> day \<and> day \<le> m)
      | _ \<Rightarrow> False)"

text \<open>The days of the Gregorian calendar, and the text \<open>YYYY-MM-DD\<close> of a day.\<close>

definition days_in_month :: "nat \<Rightarrow> nat \<Rightarrow> nat" where
  "days_in_month y m =
     (if m = 2 then (if 4 dvd y \<and> (100 dvd y \<longrightarrow> 400 dvd y) then 29 else 28)
      else if m \<in> {4, 6, 9, 11} then 30 else 31)"

definition date_text :: "nat \<Rightarrow> nat \<Rightarrow> nat \<Rightarrow> string" where
  "date_text y m d = padded 4 y @ ''-'' @ padded 2 m @ ''-'' @ padded 2 d"

section \<open>Lemmas on dates\<close>

lemma decimal_length: "0 < w \<Longrightarrow> n < 10 ^ w \<Longrightarrow> length (decimal n) \<le> w"
proof (induction w arbitrary: n)
  case (Suc w)
  show ?case
  proof (cases "n < 10")
    case False
    then have "0 < w" "n div 10 < 10 ^ w" using Suc.prems by (auto intro: gr0I)
    then show ?thesis using Suc.IH [of "n div 10"] False by (simp add: decimal_step)
  qed (simp add: decimal_digit)
qed simp

lemma digits_value_zeros: "digits_value 0 (replicate k (CHR ''0'')) = 0"
  by (induction k) auto

lemma ascii_digit_cases:
  assumes "is_ascii_digit c"
  obtains d :: nat where "d < 10" "c = char_of (48 + d)" "of_char c = 48 + d"
  using assms that [of "of_char c - 48"] by (auto simp: is_ascii_digit_def)

lemma padded_number:
  assumes "0 < w" "n < 10 ^ w"
  shows "length (padded w n) = w" "list_all is_ascii_digit (padded w n)" "digits_value 0 (padded w n) = n"
  using decimal_length [OF assms]
  by (simp_all add: padded_def digits_value_zeros digits_value_decimal decimal_digits)
     (simp add: list_all_iff is_ascii_digit_def)

lemma padded_snoc:
  assumes "0 < w" "d < 10"
  shows "padded (Suc w) (v * 10 + d) = padded w v @ [char_of (48 + d)]"
proof (cases "v = 0")
  case True
  obtain k where "w = Suc k" using assms(1) by (cases w) auto
  then show ?thesis using True assms(2)
    by (simp add: padded_def decimal_digit replicate_append_same [symmetric])
       (simp add: char_of_def bit_0)
next
  case False
  then have "decimal (v * 10 + d) = decimal v @ [char_of (48 + d)]"
    using assms(2) by (simp add: decimal_step)
  then show ?thesis by (simp add: padded_def)
qed

lemma padded_digits_value:
  assumes "ds \<noteq> []" "list_all is_ascii_digit ds"
  shows "padded (length ds) (digits_value 0 ds) = ds"
  using assms
proof (induction ds rule: rev_nonempty_induct)
  case (single c)
  then obtain d :: nat where "d < 10" "c = char_of (48 + d)" "of_char c = 48 + d"
    by (auto elim: ascii_digit_cases)
  then show ?case by (simp add: padded_def decimal_digit)
next
  case (snoc c ds)
  then obtain d :: nat where "d < 10" "c = char_of (48 + d)" "of_char c = 48 + d"
    by (auto elim: ascii_digit_cases)
  then show ?case using snoc padded_snoc [of "length ds" d "digits_value 0 ds"] by simp
qed

lemma digits_value_bound: "list_all is_ascii_digit ds \<Longrightarrow> digits_value 0 ds < 10 ^ length ds"
proof (induction ds rule: rev_induct)
  case (snoc c ds)
  then obtain d :: nat where "d < 10" "of_char c = 48 + d" by (auto elim: ascii_digit_cases)
  then show ?case using snoc by simp
qed simp

lemma parse_digits:
  assumes "ds \<noteq> []" "length ds \<le> 4" "list_all is_ascii_digit ds"
  shows "parse_u32 ds = Some (of_nat (digits_value 0 ds))"
proof -
  have "hd ds \<noteq> CHR ''+''" using assms by (cases ds) (auto simp: is_ascii_digit_def)
  moreover have "(10::nat) ^ length ds \<le> 10 ^ 4" using assms(2) by (intro power_increasing) auto
  then have "digits_value 0 ds < 2 ^ 32" using digits_value_bound [OF assms(3)] by simp
  ultimately show ?thesis using assms by (simp add: parse_u32_def)
qed

lemma small_word_facts:
  fixes n k :: nat
  assumes "n < 10000" "k < 10000"
  shows "(of_nat n :: u32) = of_nat k \<longleftrightarrow> n = k" "(of_nat n :: u32) \<le> of_nat k \<longleftrightarrow> n \<le> k"
    "(of_nat n :: u32) mod of_nat k = of_nat (n mod k)"
proof -
  have u: "unat (of_nat i :: u32) = i" if "i < 10000" for i
    using that by (simp add: unat_of_nat take_bit_nat_eq_self)
  show "(of_nat n :: u32) = of_nat k \<longleftrightarrow> n = k" using u assms by metis
  show "(of_nat n :: u32) \<le> of_nat k \<longleftrightarrow> n \<le> k" using u assms by (simp add: word_le_nat_alt)
  have "n mod k < 10000" using assms(1) mod_less_eq_dividend order.strict_trans1 by blast
  then show "(of_nat n :: u32) mod of_nat k = of_nat (n mod k)"
    using u assms by (simp add: word_unat_eq_iff unat_mod_distrib)
qed

lemma max_day_exact:
  assumes "y < 10000" "m < 100"
  shows "max_day (of_nat y) (of_nat m) =
    (if 1 \<le> m \<and> m \<le> 12 then Some (of_nat (days_in_month y m)) else None)"
proof -
  have eq: "(of_nat m :: u32) = numeral k \<longleftrightarrow> m = numeral k" if "numeral k < (10000::nat)" for k
    using small_word_facts(1) [of m "numeral k"] assms(2) that by simp
  have one: "(of_nat m :: u32) = 1 \<longleftrightarrow> m = 1"
    using small_word_facts(1) [of m 1] assms(2) by simp
  have md: "(of_nat y :: u32) mod numeral k = 0 \<longleftrightarrow> numeral k dvd y" if "numeral k < (10000::nat)" for k
  proof -
    have "y mod numeral k < 10000" using assms(1) mod_less_eq_dividend order.strict_trans1 by blast
    then have "(of_nat (y mod numeral k) :: u32) = of_nat 0 \<longleftrightarrow> y mod numeral k = 0"
      by (intro small_word_facts(1)) auto
    then show ?thesis using small_word_facts(3) [of y "numeral k"] assms(1) that
      by (simp add: dvd_eq_mod_eq_0)
  qed
  have "1 \<le> m \<and> m \<le> 12 \<longleftrightarrow> m \<in> {1,2,3,4,5,6,7,8,9,10,11,12}"
    unfolding insert_iff empty_iff by presburger
  moreover have "100 dvd y" if "400 dvd y" using that by (rule dvd_trans [rotated]) simp
  moreover have "4 dvd y" if "400 dvd y" using that by (rule dvd_trans [rotated]) simp
  ultimately show ?thesis by (auto simp: max_day_def days_in_month_def eq one md)
qed

lemma length_cases:
  "length xs = 2 \<longleftrightarrow> (\<exists>a b. xs = [a, b])"
  "length xs = 4 \<longleftrightarrow> (\<exists>a b c d. xs = [a, b, c, d])"
  "length xs = 10 \<longleftrightarrow> (\<exists>a b c d e f g h i j. xs = [a, b, c, d, e, f, g, h, i, j])"
  by (auto simp: numeral_eq_Suc length_Suc_conv)

definition date_shape :: "string \<Rightarrow> string \<Rightarrow> string \<Rightarrow> bool" where
  "date_shape a b c \<longleftrightarrow> length a = 4 \<and> length b = 2 \<and> length c = 2 \<and>
     list_all is_ascii_digit a \<and> list_all is_ascii_digit b \<and> list_all is_ascii_digit c"

lemma date_bytes:
  "(length v = 10 \<and> v ! 4 = CHR ''-'' \<and> v ! 7 = CHR ''-'' \<and>
    \<not> list_ex (\<lambda>(index, byte). index \<notin> {4, 7} \<and> \<not> is_ascii_digit byte) (enumerate 0 v)) \<longleftrightarrow>
   (\<exists>a b c. date_shape a b c \<and> v = a @ ''-'' @ b @ ''-'' @ c)" (is "?l \<longleftrightarrow> ?r")
proof
  assume ?l
  then obtain a b c d e f g h i j where v: "v = [a, b, c, d, e, f, g, h, i, j]" by (auto simp: length_cases)
  then have "date_shape [a, b, c, d] [f, g] [i, j] \<and> v = [a, b, c, d] @ ''-'' @ [f, g] @ ''-'' @ [i, j]"
    using \<open>?l\<close> by (simp add: date_shape_def)
  then show ?r by blast
next
  assume ?r
  then show ?l by (auto simp: date_shape_def length_cases)
qed

lemma validate_date_shape:
  assumes "date_shape a b c"
  shows "validate_date (a @ ''-'' @ b @ ''-'' @ c) \<longleftrightarrow>
    1 \<le> digits_value 0 b \<and> digits_value 0 b \<le> 12 \<and> 1 \<le> digits_value 0 c \<and>
    digits_value 0 c \<le> days_in_month (digits_value 0 a) (digits_value 0 b)"
proof -
  let ?v = "a @ ''-'' @ b @ ''-'' @ c"
  have l: "length a = 4" "length b = 2" "length c = 2" and
    digits: "list_all is_ascii_digit a" "list_all is_ascii_digit b" "list_all is_ascii_digit c"
    using assms by (auto simp: date_shape_def)
  have parts: "take 4 ?v = a" "take 2 (drop 5 ?v) = b" "take 2 (drop 8 ?v) = c"
    using l by (auto simp: length_cases)
  have p: "parse_u32 a = Some (of_nat (digits_value 0 a))" "parse_u32 b = Some (of_nat (digits_value 0 b))"
    "parse_u32 c = Some (of_nat (digits_value 0 c))"
    using parse_digits [of a] parse_digits [of b] parse_digits [of c] l digits by fastforce+
  have bounds: "digits_value 0 a < 10000" "digits_value 0 b < 100" "digits_value 0 c < 100"
    using digits_value_bound [of a] digits_value_bound [of b] digits_value_bound [of c] l digits by auto
  have "days_in_month (digits_value 0 a) (digits_value 0 b) < 10000" by (simp add: days_in_month_def)
  moreover have "(1 :: u32) \<le> of_nat (digits_value 0 c) \<longleftrightarrow> 1 \<le> digits_value 0 c"
    using small_word_facts(2) [of 1 "digits_value 0 c"] bounds by simp
  moreover have "length ?v = 10 \<and> ?v ! 4 = CHR ''-'' \<and> ?v ! 7 = CHR ''-'' \<and>
    \<not> list_ex (\<lambda>(index, byte). index \<notin> {4, 7} \<and> \<not> is_ascii_digit byte) (enumerate 0 ?v)"
    unfolding date_bytes using assms by blast
  ultimately show ?thesis using p bounds
    unfolding validate_date_def parts by (auto simp: max_day_exact small_word_facts(2))
qed

text \<open>
  The check of diary dates accepts a text exactly when it is the \<open>YYYY-MM-DD\<close> form of a day that
  exists in the Gregorian calendar, in the years 0 to 9999.
\<close>

theorem diary_dates_exact:
  "validate_date v \<longleftrightarrow>
   (\<exists>y m d. y < 10000 \<and> 1 \<le> m \<and> m \<le> 12 \<and> 1 \<le> d \<and> d \<le> days_in_month y m \<and> v = date_text y m d)"
proof
  assume v: "validate_date v"
  then have "length v = 10 \<and> v ! 4 = CHR ''-'' \<and> v ! 7 = CHR ''-'' \<and>
    \<not> list_ex (\<lambda>(index, byte). index \<notin> {4, 7} \<and> \<not> is_ascii_digit byte) (enumerate 0 v)"
    by (auto simp: validate_date_def split: if_splits)
  then obtain a b c where s: "date_shape a b c" and e: "v = a @ ''-'' @ b @ ''-'' @ c"
    unfolding date_bytes by blast
  have "a \<noteq> []" "b \<noteq> []" "c \<noteq> []" using s by (auto simp: date_shape_def)
  then have "v = date_text (digits_value 0 a) (digits_value 0 b) (digits_value 0 c)"
    using s padded_digits_value [of a] padded_digits_value [of b] padded_digits_value [of c]
    by (auto simp: e date_text_def date_shape_def)
  moreover have "digits_value 0 a < 10000"
    using s digits_value_bound [of a] by (simp add: date_shape_def)
  ultimately show "\<exists>y m d. y < 10000 \<and> 1 \<le> m \<and> m \<le> 12 \<and> 1 \<le> d \<and> d \<le> days_in_month y m \<and> v = date_text y m d"
    using v [unfolded e validate_date_shape [OF s]] by blast
next
  assume "\<exists>y m d. y < 10000 \<and> 1 \<le> m \<and> m \<le> 12 \<and> 1 \<le> d \<and> d \<le> days_in_month y m \<and> v = date_text y m d"
  then obtain y m d where ymd: "y < 10000" "1 \<le> m" "m \<le> 12" "1 \<le> d" "d \<le> days_in_month y m"
    and v: "v = date_text y m d" by blast
  have "d < 100" using ymd(5) by (auto simp: days_in_month_def split: if_splits)
  note n = padded_number [of 4 y] padded_number [of 2 m] padded_number [of 2 d]
  have "date_shape (padded 4 y) (padded 2 m) (padded 2 d)"
    using n ymd \<open>d < 100\<close> by (simp add: date_shape_def)
  from validate_date_shape [OF this] show "validate_date v"
    using n ymd \<open>d < 100\<close> by (simp add: v date_text_def)
qed

section \<open>Lemmas on checklists\<close>

lemma status_round_trip [simp]: "status_parse (status_as_str st) = Some st"
  by (cases st) (simp_all add: status_parse_def)

text \<open>The lines that carry an item.\<close>

definition item_line :: "string \<Rightarrow> char \<Rightarrow> char \<Rightarrow> string \<Rightarrow> string" where
  "item_line pre k x rest = pre @ k # '' ['' @ x # CHR '']'' # rest"

definition item_parts :: "string \<Rightarrow> char \<Rightarrow> char \<Rightarrow> bool" where
  "item_parts pre k x \<longleftrightarrow> (\<forall>c \<in> set pre. c = CHR '' '' \<or> c = CHR 0x09) \<and>
     k \<in> {CHR ''-'', CHR ''*'', CHR ''+''} \<and> x \<in> {CHR '' '', CHR ''x'', CHR ''X''}"

lemma item_line_trimmed:
  assumes "item_parts pre k x"
  shows "dropWhile (\<lambda>c. c = CHR '' '' \<or> c = CHR 0x09) (item_line pre k x rest) = k # '' ['' @ x # CHR '']'' # rest"
proof -
  have "k \<noteq> CHR '' '' \<and> k \<noteq> CHR 0x09" using assms by (auto simp: item_parts_def)
  then show ?thesis using assms by (simp add: item_parts_def item_line_def dropWhile_append2)
qed

lemma marker_of_item:
  assumes "item_parts pre k x"
  shows "checklist_marker_offset (item_line pre k x rest) = Some (length pre + 2)"
  using assms unfolding checklist_marker_offset_def item_line_trimmed [OF assms]
  by (simp add: item_parts_def item_line_def Let_def)

lemma item_of_marker:
  assumes "checklist_marker_offset line = Some m"
  obtains pre k x rest where "item_parts pre k x" "line = item_line pre k x rest" "m = length pre + 2"
proof -
  define blank where "blank = (\<lambda>c. c = CHR '' '' \<or> c = CHR 0x09)"
  define tr where "tr = dropWhile blank line"
  have l: "5 \<le> length tr" "tr ! 0 \<in> {CHR ''-'', CHR ''*'', CHR ''+''}" "tr ! 1 = CHR '' ''" "tr ! 2 = CHR ''[''"
    "tr ! 3 \<in> {CHR '' '', CHR ''x'', CHR ''X''}" "tr ! 4 = CHR '']''" and m: "m = length line - length tr + 2"
    using assms by (auto simp: checklist_marker_offset_def Let_def tr_def blank_def split: if_splits)
  obtain k x rest where tr: "tr = k # '' ['' @ x # CHR '']'' # rest"
    using l by (auto simp: numeral_eq_Suc Suc_le_length_iff)
  have "line = takeWhile blank line @ tr" by (simp add: tr_def)
  then have "line = item_line (takeWhile blank line) k x rest" "length line = length (takeWhile blank line) + length tr"
    by (metis item_line_def tr) (metis length_append \<open>line = takeWhile blank line @ tr\<close>)
  moreover have "item_parts (takeWhile blank line) k x"
    using l tr by (auto simp: item_parts_def blank_def dest: set_takeWhileD)
  ultimately show ?thesis using that m by simp
qed

lemma marker_item:
  "item_parts pre k x \<Longrightarrow>
   checklist_marker (item_line pre k x rest) = Some (x \<in> {CHR ''x'', CHR ''X''}, trim_start rest)"
  using marker_of_item [of pre k x rest] by (simp add: checklist_marker_def item_line_def nth_append)

lemma mark_item:
  "item_parts pre k x \<Longrightarrow>
   mark_line checked (length pre + 2) (item_line pre k x rest) = item_line pre k (if checked then CHR ''x'' else CHR '' '') rest"
  by (simp add: mark_line_def item_line_def)

lemma strip_newline_prefix: "\<exists>e. line = strip_newline line @ e"
  by (auto simp: strip_newline_def strip_suffix_def split: option.splits)
     (metis append_butlast_last_id append_assoc)+

lemma strip_newline_item:
  "\<exists>r. \<forall>x. strip_newline (item_line pre k x rest) = item_line pre k x r"
  by (cases rest rule: rev_cases)
     (auto simp: strip_newline_def strip_suffix_def item_line_def newline_def carriage_return_def
        butlast_append split: option.splits if_splits)

text \<open>The numbered items of a list of lines.\<close>

abbreviation found_items :: "nat \<Rightarrow> string list \<Rightarrow> (nat \<times> bool \<times> string) list" where
  "found_items n ls \<equiv> List.map_filter (\<lambda>(line, source). map_option (\<lambda>(checked, text). (line, checked, text)) (checklist_marker source)) (enumerate n ls)"

lemma found_items_Cons:
  "found_items n (l # ls) =
     (case checklist_marker l of None \<Rightarrow> [] | Some (c, text) \<Rightarrow> [(n, c, text)]) @ found_items (Suc n) ls"
  by (auto simp: map_filter_simps split: option.splits)

lemma found_items_at:
  "(t, x, text) \<in> set (found_items n ls) \<Longrightarrow> n \<le> t \<and> t < n + length ls \<and> checklist_marker (ls ! (t - n)) = Some (x, text)"
proof (induction ls arbitrary: n)
  case (Cons l ls)
  from Cons.prems consider "t = n" "checklist_marker l = Some (x, text)" | "(t, x, text) \<in> set (found_items (Suc n) ls)"
    unfolding found_items_Cons by (auto split: option.splits)
  then show ?case
  proof cases
    case 2
    from Cons.IH [OF this] show ?thesis by (simp add: Suc_diff_Suc [symmetric] Suc_le_eq)
  qed simp
qed (simp add: map_filter_simps)

lemma found_items_update:
  assumes "i < length (found_items n ls)" "fst (found_items n ls ! i) = t"
    "checklist_marker l' = Some (c, text)"
  shows "found_items n (ls[t - n := l']) = (found_items n ls)[i := (t, c, text)]"
  using assms
proof (induction ls arbitrary: n i)
  case (Cons l ls)
  have later: "Suc n \<le> t" if "i < length (found_items (Suc n) ls)" "fst (found_items (Suc n) ls ! i) = t" for i
    using found_items_at [of t _ _ "Suc n" ls] nth_mem [OF that(1)] that(2) by (metis prod.collapse)
  have step: "(l # ls)[t - n := l'] = l # ls[t - Suc n := l']" if "Suc n \<le> t"
    using that by (metis Suc_diff_le diff_Suc_Suc list_update_code(3))
  show ?case
  proof (cases "checklist_marker l")
    case None
    then show ?thesis using Cons later [of i] step by (simp add: found_items_Cons)
  next
    case (Some p)
    show ?thesis
    proof (cases i)
      case 0
      then show ?thesis using Some Cons.prems by (auto simp: found_items_Cons split: prod.splits)
    next
      case (Suc j)
      then show ?thesis using Some Cons later [of j] step by (auto simp: found_items_Cons split: prod.splits)
    qed
  qed
qed (simp add: map_filter_simps)

lemma rewrite_lines_enumerate:
  "n \<le> t \<Longrightarrow> t < n + length ls \<Longrightarrow> checklist_marker_offset (ls ! (t - n)) = Some m \<Longrightarrow>
   rewrite_lines t c (enumerate n ls) out = Some (out @ concat (ls[t - n := mark_line c m (ls ! (t - n))]))"
  "t < n \<Longrightarrow> rewrite_lines t c (enumerate n ls) out = Some (out @ concat ls)"
proof (induction ls arbitrary: n out)
  case (Cons l ls)
  {
    case 1
    then show ?case
    proof (cases "t = n")
      case False
      then have "t - n = Suc (t - Suc n)" using 1 by simp
      then show ?thesis using Cons.IH(1) [of "Suc n" "out @ l"] 1 False by simp
    qed (use Cons.IH(2) [of "Suc n"] 1 in simp)
  next
    case 2
    then show ?case using Cons.IH(2) [of "Suc n" "out @ l"] by simp
  }
qed auto

definition number_items :: "(nat \<times> bool \<times> string) list \<Rightarrow> checklist_item list" where
  "number_items fs = map (\<lambda>(index, line, checked, text). \<lparr>ci_index = index, ci_line = line, ci_checked = checked, ci_text = text\<rparr>) (enumerate 0 fs)"

lemma checklist_items_found: "checklist_items md = number_items (found_items 0 (text_lines md))"
  by (simp add: checklist_items_def number_items_def)

lemma number_items_length [simp]: "length (number_items fs) = length fs"
  by (simp add: number_items_def)

lemma number_items_nth:
  "i < length fs \<Longrightarrow> fs ! i = (t, x, text) \<Longrightarrow>
   number_items fs ! i = \<lparr>ci_index = i, ci_line = t, ci_checked = x, ci_text = text\<rparr>"
  by (simp add: number_items_def nth_enumerate_eq)

lemma number_items_update:
  "i < length fs \<Longrightarrow> fs ! i = (t, x, text) \<Longrightarrow>
   number_items (fs[i := (t, c, text)]) = (number_items fs)[i := (number_items fs ! i)\<lparr>ci_checked := c\<rparr>]"
  by (rule nth_equalityI)
     (auto simp: number_items_nth nth_list_update number_items_def nth_enumerate_eq split: prod.splits)

text \<open>One line of the list replaced: the items change at its mark only.\<close>

lemma set_item_lines:
  assumes i: "i < length (checklist_items md)"
  obtains t pre k x rest where
    "t < length (split_inclusive md)" "split_inclusive md ! t = item_line pre k x rest" "item_parts pre k x"
    "set_checklist_item md i c =
       Some (concat ((split_inclusive md)[t := item_line pre k (if c then CHR ''x'' else CHR '' '') rest]))"
    "number_items (found_items 0 (map strip_newline
        ((split_inclusive md)[t := item_line pre k (if c then CHR ''x'' else CHR '' '') rest]))) =
     (checklist_items md)[i := (checklist_items md ! i)\<lparr>ci_checked := c\<rparr>]"
proof -
  let ?ls = "split_inclusive md" and ?mark = "if c then CHR ''x'' else CHR '' ''"
  obtain t y tx where f: "found_items 0 (text_lines md) ! i = (t, y, tx)"
    by (metis prod.exhaust)
  have len: "i < length (found_items 0 (text_lines md))" using i by (simp add: checklist_items_found)
  have at: "t < length ?ls" "checklist_marker (strip_newline (?ls ! t)) = Some (y, tx)"
    using found_items_at [of t y tx 0 "text_lines md"] nth_mem [OF len] f by (auto simp: text_lines_def)
  then obtain m where "checklist_marker_offset (strip_newline (?ls ! t)) = Some m"
    by (auto simp: checklist_marker_def split: option.splits)
  then obtain pre k x r0 where parts: "item_parts pre k x" and s: "strip_newline (?ls ! t) = item_line pre k x r0"
    by (rule item_of_marker)
  obtain e where "?ls ! t = strip_newline (?ls ! t) @ e" using strip_newline_prefix by blast
  then have l: "?ls ! t = item_line pre k x (r0 @ e)" by (simp add: s item_line_def)
  obtain r where r: "\<And>z. strip_newline (item_line pre k z (r0 @ e)) = item_line pre k z r"
    using strip_newline_item by metis
  have parts': "item_parts pre k ?mark" using parts by (simp add: item_parts_def)
  have tx: "tx = trim_start r" using at(2) l r parts by (simp add: marker_item)
  have "ci_line (checklist_items md ! i) = t"
    using number_items_nth [OF len f] by (simp add: checklist_items_found)
  then have set: "set_checklist_item md i c = Some (concat (?ls[t := item_line pre k ?mark (r0 @ e)]))"
    using i at(1) rewrite_lines_enumerate(1) [of 0 t ?ls "length pre + 2" c "[]"] parts l
    by (simp add: set_checklist_item_def marker_of_item mark_item [unfolded add_2_eq_Suc'])
  have "checklist_marker (item_line pre k ?mark r) = Some (c, tx)"
    using marker_item [OF parts'] tx by simp
  from found_items_update [OF len _ this, of t] f
  have "found_items 0 ((text_lines md)[t := item_line pre k ?mark r]) = (found_items 0 (text_lines md))[i := (t, c, tx)]"
    by simp
  then have "number_items (found_items 0 (map strip_newline (?ls[t := item_line pre k ?mark (r0 @ e)]))) =
      (checklist_items md)[i := (checklist_items md ! i)\<lparr>ci_checked := c\<rparr>]"
    using number_items_update [OF len f] by (simp add: checklist_items_found text_lines_def map_update r)
  from that [OF at(1) l parts set this] show ?thesis .
qed

text \<open>
  Setting an item of a checklist succeeds exactly for the numbers of its items; it replaces one
  byte of the text, and the checklist read back afterwards is the old one with the mark of that
  item set: no other item, no line number and no text of an item changes.
\<close>

theorem checklist_set_exact:
  "case set_checklist_item md i c of
     None \<Rightarrow> length (checklist_items md) \<le> i
   | Some md' \<Rightarrow>
       i < length (checklist_items md) \<and>
       checklist_items md' = (checklist_items md)[i := (checklist_items md ! i)\<lparr>ci_checked := c\<rparr>] \<and>
       (\<exists>p x r. md = p @ x # r \<and> md' = p @ (if c then CHR ''x'' else CHR '' '') # r)"
proof (cases "i < length (checklist_items md)")
  case True
  let ?ls = "split_inclusive md" and ?mark = "if c then CHR ''x'' else CHR '' ''"
  obtain t pre k x rest where t: "t < length ?ls" "?ls ! t = item_line pre k x rest" and parts: "item_parts pre k x"
    and set: "set_checklist_item md i c = Some (concat (?ls[t := item_line pre k ?mark rest]))"
    and items: "number_items (found_items 0 (map strip_newline (?ls[t := item_line pre k ?mark rest]))) =
      (checklist_items md)[i := (checklist_items md ! i)\<lparr>ci_checked := c\<rparr>]"
    using set_item_lines [OF True] by blast
  have clean: "newline \<notin> set (butlast (item_line pre k x rest))"
    using line_list_nth [OF line_list_split t(1)] t(2) by simp
  have "newline \<notin> set (butlast (item_line pre k ?mark rest))"
    using clean by (auto simp: item_line_def butlast_append newline_def)
  moreover have "last (item_line pre k ?mark rest) = last (?ls ! t)" "item_line pre k ?mark rest \<noteq> []"
    unfolding t(2) by (simp_all add: item_line_def)
  ultimately have "line_list (?ls[t := item_line pre k ?mark rest])"
    using line_list_split t(1) by (intro line_list_update)
  then have "checklist_items (concat (?ls[t := item_line pre k ?mark rest])) =
      (checklist_items md)[i := (checklist_items md ! i)\<lparr>ci_checked := c\<rparr>]"
    using items by (simp add: checklist_items_found text_lines_def split_inclusive_concat)
  moreover have "md = (concat (take t ?ls) @ pre @ k # '' ['') @ x # (CHR '']'' # rest) @ concat (drop (Suc t) ?ls)"
    using arg_cong [OF id_take_nth_drop [OF t(1)], of concat] t(2) by (simp add: item_line_def)
  moreover have "concat (?ls[t := item_line pre k ?mark rest]) =
      (concat (take t ?ls) @ pre @ k # '' ['') @ ?mark # (CHR '']'' # rest) @ concat (drop (Suc t) ?ls)"
    using t(1) by (simp add: upd_conv_take_nth_drop item_line_def)
  ultimately show ?thesis using True set by (simp only: option.case) blast
qed (simp add: set_checklist_item_def)

end
