(* ===== verification/Notes_Repository.thy ===== *)
theory Notes_Repository
  imports Notes_Model Sql_Statements "HOL-Library.Char_ord" "HOL-Library.List_Lexorder" "HOL-Library.Product_Lexorder"
    "HOL-Library.Multiset"
begin

text \<open>
  The notes database (crates/notes/src/repository.rs). The three tables of the schema
  (crates/notes/src/migration.rs) are lists of rows; every statement checks the primary keys, the
  foreign keys and the CHECK clauses and can fail on its own. The Unicode lower case of a tag
  and the JSON text of a list of tags come from outside and are a record of parameters; the id
  of a new note is an argument. The lemmas say when each call succeeds, what it then returns
  and what the tables are, and that every call keeps the invariant of the tables, whatever fails.
\<close>

section \<open>Errors and parameters\<close>

record note_conflict =
  nc_expected_revision :: u64
  nc_current :: note_data
  nc_submitted :: note_draft

datatype notes_error =
    NotesSql
  | NotesJson
  | NoteNotFound string
  | NoteConflict note_conflict
  | NoteValidation string string
  | NotesUnsupportedSchema u32 u32
  | NotesMigrationBackup string
  | NotesCorruptData string string

record notes_env =
  ne_to_lowercase :: "string \<Rightarrow> string"
  ne_tags_to_json :: "string list \<Rightarrow> string option"
  ne_tags_from_json :: "string \<Rightarrow> string list option"

section \<open>Tables\<close>

record note_row =
  nw_id :: string
  nw_title :: string
  nw_body_markdown :: string
  nw_diary_date :: "string option"
  nw_status :: string
  nw_pinned :: bool
  nw_created_at_ms :: i64
  nw_updated_at_ms :: i64
  nw_deleted_at_ms :: "i64 option"
  nw_revision :: i64

record revision_row =
  rv_note_id :: string
  rv_revision :: i64
  rv_title :: string
  rv_body_markdown :: string
  rv_diary_date :: "string option"
  rv_tags_json :: string
  rv_status :: string
  rv_pinned :: bool
  rv_created_at_ms :: i64
  rv_updated_at_ms :: i64
  rv_deleted_at_ms :: "i64 option"
  rv_recorded_at_ms :: i64

record tag_row =
  tg_note_id :: string
  tg_tag_key :: string
  tg_display_tag :: string

record notes_tables =
  nt_notes :: "note_row list"
  nt_revisions :: "revision_row list"
  nt_tags :: "tag_row list"

type_synonym 'a notes_stm = "(notes_tables, notes_error, 'a) stm"

abbreviation nsql :: "(notes_tables \<Rightarrow> ('a \<times> notes_tables) option) \<Rightarrow> 'a notes_stm" where
  "nsql \<equiv> statement NotesSql"

text \<open>The CHECK clauses of version 3.\<close>

definition status_allowed :: "string \<Rightarrow> bool" where
  "status_allowed st = (st \<in> {''draft'', ''active'', ''completed'', ''archived''})"

definition has_note :: "string \<Rightarrow> notes_tables \<Rightarrow> bool" where
  "has_note i t = list_ex (\<lambda>r. nw_id r = i) (nt_notes t)"

section \<open>Validation\<close>

definition nvalidation :: "string \<Rightarrow> string \<Rightarrow> notes_error" where
  "nvalidation field reason = NoteValidation field reason"

definition normalize_tag_key :: "notes_env \<Rightarrow> string \<Rightarrow> (notes_error, string) result" where
  "normalize_tag_key env tag =
     (if trim tag = [] then Err (nvalidation ''tags'' ''tags must not be empty'')
      else Ok (ne_to_lowercase env (trim tag)))"

fun collect_tags :: "notes_env \<Rightarrow> (string \<times> string) list \<Rightarrow> string list \<Rightarrow> (notes_error, (string \<times> string) list) result" where
  "collect_tags env tags [] = Ok tags"
| "collect_tags env tags (tag # rest) =
     (let display = trim tag in
      if display = [] then Err (nvalidation ''tags'' ''tags must not be empty'')
      else if MAX_TAG_CHARS < char_count display
        then Err (nvalidation ''tags'' ''each tag must not exceed 64 characters'')
      else and_then (normalize_tag_key env display) (\<lambda>key.
        collect_tags env (if list_ex (\<lambda>p. fst p = key) tags then tags else tags @ [(key, display)]) rest))"

definition normalize_draft :: "notes_env \<Rightarrow> note_draft \<Rightarrow> (notes_error, note_draft) result" where
  "normalize_draft env draft =
     (if MAX_TITLE_CHARS < char_count (d_title draft)
        then Err (nvalidation ''title'' ''must not exceed 512 characters'')
      else if MAX_BODY_BYTES < length (d_body_markdown draft)
        then Err (nvalidation ''body_markdown'' ''must not exceed 4194304 bytes'')
      else if is_some_and (d_diary_date draft) (\<lambda>date. \<not> validate_date date)
        then Err (nvalidation ''diary_date'' ''must be a valid YYYY-MM-DD date'')
      else if MAX_TAGS < length (d_tags draft)
        then Err (nvalidation ''tags'' ''must not contain more than 64 tags'')
      else and_then (collect_tags env [] (d_tags draft)) (\<lambda>tags.
        Ok (draft\<lparr>d_tags := map snd (sort_key fst tags)\<rparr>)))"

definition date_invalid :: "string option \<Rightarrow> bool" where
  "date_invalid d = is_some_and d (\<lambda>date. \<not> validate_date date)"

definition validate_query :: "note_query \<Rightarrow> (notes_error, unit) result" where
  "validate_query q =
     (if q_limit q = 0 \<or> MAX_QUERY_LIMIT < q_limit q
        then Err (nvalidation ''limit'' ''must be between 1 and 500'')
      else if date_invalid (q_diary_date_from q)
        then Err (nvalidation ''diary_date_from'' ''must be a valid YYYY-MM-DD date'')
      else if date_invalid (q_diary_date_to q)
        then Err (nvalidation ''diary_date_to'' ''must be a valid YYYY-MM-DD date'')
      else if (case (q_diary_date_from q, q_diary_date_to q) of (Some from, Some to) \<Rightarrow> to < from | _ \<Rightarrow> False)
        then Err (nvalidation ''diary_date'' ''from must not be after to'')
      else if is_some_and (q_search q) (\<lambda>v. 512 < char_count v)
        then Err (nvalidation ''search'' ''must not exceed 512 characters'')
      else if MAX_TAGS < length (q_tags q)
        then Err (nvalidation ''tags'' ''must not contain more than 64 tags'')
      else Ok ())"

definition revision_to_i64 :: "u64 \<Rightarrow> (notes_error, i64) result" where
  "revision_to_i64 revision = ok_or (i64_of_u64 revision) (nvalidation ''revision'' ''must fit SQLite INTEGER'')"

section \<open>Writing rows\<close>

definition insert_note_row :: "note_row \<Rightarrow> notes_tables \<Rightarrow> (unit \<times> notes_tables) option" where
  "insert_note_row r t =
     (if has_note (nw_id r) t \<or> \<not> status_allowed (nw_status r) \<or> nw_revision r \<le> 0 then None
      else Some ((), t\<lparr>nt_notes := nt_notes t @ [r]\<rparr>))"

definition insert_note :: "note_data \<Rightarrow> unit notes_stm" where
  "insert_note note =
     u_bind (u_lift (revision_to_i64 (n_revision note))) (\<lambda>revision.
     nsql (insert_note_row
       \<lparr>nw_id = n_id note, nw_title = n_title note, nw_body_markdown = n_body_markdown note,
        nw_diary_date = n_diary_date note, nw_status = status_as_str (n_status note),
        nw_pinned = n_pinned note, nw_created_at_ms = n_created_at_ms note,
        nw_updated_at_ms = n_updated_at_ms note, nw_deleted_at_ms = n_deleted_at_ms note,
        nw_revision = revision\<rparr>))"

text \<open>\<open>UPDATE notes SET .. WHERE id = ? AND revision = ?\<close>: the number of rows changed.\<close>

definition update_note_rows ::
  "string \<Rightarrow> i64 \<Rightarrow> (note_row \<Rightarrow> note_row) \<Rightarrow> notes_tables \<Rightarrow> (nat \<times> notes_tables) option" where
  "update_note_rows i expected f t =
     (let hit = (\<lambda>r. nw_id r = i \<and> nw_revision r = expected);
          rows = map (\<lambda>r. if hit r then f r else r) (nt_notes t)
      in if list_ex (\<lambda>r. hit r \<and> (\<not> status_allowed (nw_status (f r)) \<or> nw_revision (f r) \<le> 0)) (nt_notes t) then None
         else Some (length (filter hit (nt_notes t)), t\<lparr>nt_notes := rows\<rparr>))"

definition update_note :: "note_data \<Rightarrow> u64 \<Rightarrow> unit notes_stm" where
  "update_note note expected_revision =
     u_bind (u_lift (revision_to_i64 (n_revision note))) (\<lambda>revision.
     u_bind (u_lift (revision_to_i64 expected_revision)) (\<lambda>expected.
     u_bind (nsql (update_note_rows (n_id note) expected (\<lambda>r. r\<lparr>nw_title := n_title note,
         nw_body_markdown := n_body_markdown note, nw_diary_date := n_diary_date note,
         nw_status := status_as_str (n_status note), nw_pinned := n_pinned note,
         nw_updated_at_ms := n_updated_at_ms note, nw_deleted_at_ms := n_deleted_at_ms note,
         nw_revision := revision\<rparr>))) (\<lambda>changed.
     u_lift (if changed \<noteq> 1 then Err NotesSql else Ok ()))))"

definition insert_tag_row :: "tag_row \<Rightarrow> notes_tables \<Rightarrow> (unit \<times> notes_tables) option" where
  "insert_tag_row r t =
     (if list_ex (\<lambda>q. tg_note_id q = tg_note_id r \<and> tg_tag_key q = tg_tag_key r) (nt_tags t) \<or>
         \<not> has_note (tg_note_id r) t then None
      else Some ((), t\<lparr>nt_tags := nt_tags t @ [r]\<rparr>))"

fun insert_tags :: "notes_env \<Rightarrow> string \<Rightarrow> string list \<Rightarrow> unit notes_stm" where
  "insert_tags env i [] = u_lift (Ok ())"
| "insert_tags env i (display # rest) =
     u_bind (u_lift (normalize_tag_key env display)) (\<lambda>key.
     u_bind (nsql (insert_tag_row \<lparr>tg_note_id = i, tg_tag_key = key, tg_display_tag = display\<rparr>)) (\<lambda>_.
     insert_tags env i rest))"

definition replace_tags :: "notes_env \<Rightarrow> string \<Rightarrow> string list \<Rightarrow> unit notes_stm" where
  "replace_tags env i tags =
     u_bind (nsql (\<lambda>t. Some ((), t\<lparr>nt_tags := filter (\<lambda>r. tg_note_id r \<noteq> i) (nt_tags t)\<rparr>))) (\<lambda>_.
     insert_tags env i tags)"

definition insert_revision_row :: "revision_row \<Rightarrow> notes_tables \<Rightarrow> (unit \<times> notes_tables) option" where
  "insert_revision_row r t =
     (if list_ex (\<lambda>q. rv_note_id q = rv_note_id r \<and> rv_revision q = rv_revision r) (nt_revisions t) \<or>
         \<not> has_note (rv_note_id r) t \<or> \<not> status_allowed (rv_status r) \<or> rv_revision r \<le> 0 then None
      else Some ((), t\<lparr>nt_revisions := nt_revisions t @ [r]\<rparr>))"

definition insert_revision :: "notes_env \<Rightarrow> note_data \<Rightarrow> i64 \<Rightarrow> unit notes_stm" where
  "insert_revision env note recorded_at_ms =
     u_bind (u_lift (ok_or (ne_tags_to_json env (n_tags note)) NotesJson)) (\<lambda>tags_json.
     u_bind (u_lift (revision_to_i64 (n_revision note))) (\<lambda>revision.
     nsql (insert_revision_row
       \<lparr>rv_note_id = n_id note, rv_revision = revision, rv_title = n_title note,
        rv_body_markdown = n_body_markdown note, rv_diary_date = n_diary_date note,
        rv_tags_json = tags_json, rv_status = status_as_str (n_status note),
        rv_pinned = n_pinned note, rv_created_at_ms = n_created_at_ms note,
        rv_updated_at_ms = n_updated_at_ms note, rv_deleted_at_ms = n_deleted_at_ms note,
        rv_recorded_at_ms = recorded_at_ms\<rparr>)))"

section \<open>Reading rows\<close>

definition note_from_row :: "note_row \<Rightarrow> note_data option" where
  "note_from_row r =
     (case (status_parse (nw_status r), u64_of_i64 (nw_revision r)) of
        (Some st, Some revision) \<Rightarrow>
          Some \<lparr>n_id = nw_id r, n_title = nw_title r, n_body_markdown = nw_body_markdown r,
            n_diary_date = nw_diary_date r, n_tags = [], n_status = st, n_pinned = nw_pinned r,
            n_created_at_ms = nw_created_at_ms r, n_updated_at_ms = nw_updated_at_ms r,
            n_deleted_at_ms = nw_deleted_at_ms r, n_revision = revision\<rparr>
      | _ \<Rightarrow> None)"

definition revision_from_row :: "notes_env \<Rightarrow> revision_row \<Rightarrow> note_revision option" where
  "revision_from_row env r =
     (case (ne_tags_from_json env (rv_tags_json r), status_parse (rv_status r), u64_of_i64 (rv_revision r)) of
        (Some tags, Some st, Some revision) \<Rightarrow>
          Some \<lparr>nr_note = \<lparr>n_id = rv_note_id r, n_title = rv_title r, n_body_markdown = rv_body_markdown r,
              n_diary_date = rv_diary_date r, n_tags = tags, n_status = st, n_pinned = rv_pinned r,
              n_created_at_ms = rv_created_at_ms r, n_updated_at_ms = rv_updated_at_ms r,
              n_deleted_at_ms = rv_deleted_at_ms r, n_revision = revision\<rparr>,
            nr_recorded_at_ms = rv_recorded_at_ms r\<rparr>
      | _ \<Rightarrow> None)"

fun collect_rows :: "('r \<Rightarrow> 'a option) \<Rightarrow> 'r list \<Rightarrow> 'a list option" where
  "collect_rows f [] = Some []"
| "collect_rows f (r # rs) =
     (case f r of None \<Rightarrow> None | Some x \<Rightarrow> map_option ((#) x) (collect_rows f rs))"

definition tags_of :: "string \<Rightarrow> notes_tables \<Rightarrow> string list" where
  "tags_of i t = map tg_display_tag (sort_key tg_tag_key (filter (\<lambda>r. tg_note_id r = i) (nt_tags t)))"

definition load_tags :: "string \<Rightarrow> string list notes_stm" where
  "load_tags i = nsql (\<lambda>t. Some (tags_of i t, t))"

definition select_note :: "string \<Rightarrow> notes_tables \<Rightarrow> (note_data option \<times> notes_tables) option" where
  "select_note i t =
     (case find (\<lambda>r. nw_id r = i) (nt_notes t) of
        None \<Rightarrow> Some (None, t)
      | Some r \<Rightarrow> map_option (\<lambda>note. (Some note, t)) (note_from_row r))"

definition load_note :: "string \<Rightarrow> note_data notes_stm" where
  "load_note i =
     u_bind (nsql (select_note i)) (\<lambda>found.
     u_bind (u_lift (ok_or found (NoteNotFound i))) (\<lambda>note.
     u_bind (load_tags i) (\<lambda>tags.
     u_lift (Ok (note\<lparr>n_tags := tags\<rparr>)))))"

definition note_exists :: "string \<Rightarrow> bool notes_stm" where
  "note_exists i = nsql (\<lambda>t. Some (has_note i t, t))"

definition same_draft :: "note_data \<Rightarrow> note_draft \<Rightarrow> bool" where
  "same_draft note draft =
     (n_title note = d_title draft \<and> n_body_markdown note = d_body_markdown draft \<and>
      n_diary_date note = d_diary_date draft \<and> n_tags note = d_tags draft \<and>
      n_status note = d_status draft \<and> n_pinned note = d_pinned draft)"

definition draft_from_note :: "note_data \<Rightarrow> note_draft" where
  "draft_from_note note =
     \<lparr>d_title = n_title note, d_body_markdown = n_body_markdown note, d_diary_date = n_diary_date note,
      d_tags = n_tags note, d_status = n_status note, d_pinned = n_pinned note\<rparr>"

section \<open>Operations\<close>

definition new_note :: "string \<Rightarrow> note_draft \<Rightarrow> i64 \<Rightarrow> note_data" where
  "new_note uuid draft now_ms =
     \<lparr>n_id = uuid, n_title = d_title draft, n_body_markdown = d_body_markdown draft,
      n_diary_date = d_diary_date draft, n_tags = d_tags draft, n_status = d_status draft,
      n_pinned = d_pinned draft, n_created_at_ms = now_ms, n_updated_at_ms = now_ms,
      n_deleted_at_ms = None, n_revision = 1\<rparr>"

definition notes_create :: "notes_env \<Rightarrow> string \<Rightarrow> create_note \<Rightarrow> i64 \<Rightarrow> note_data notes_stm" where
  "notes_create env uuid input now_ms =
     u_bind (u_lift (normalize_draft env (draft_of_create input))) (\<lambda>draft.
     let note = new_note uuid draft now_ms in
     transaction NotesSql (
       u_bind (insert_note note) (\<lambda>_.
       u_bind (replace_tags env (n_id note) (n_tags note)) (\<lambda>_.
       u_bind (insert_revision env note now_ms) (\<lambda>_.
       u_lift (Ok note))))))"

definition notes_get :: "string \<Rightarrow> note_data notes_stm" where
  "notes_get i = load_note i"

definition next_revision :: "u64 \<Rightarrow> (notes_error, u64) result" where
  "next_revision r = ok_or (checked_add r 1) (NoteValidation ''revision'' ''revision exhausted'')"

definition saved_note :: "note_data \<Rightarrow> note_draft \<Rightarrow> u64 \<Rightarrow> i64 \<Rightarrow> note_data" where
  "saved_note current submitted revision now_ms =
     \<lparr>n_id = n_id current, n_title = d_title submitted, n_body_markdown = d_body_markdown submitted,
      n_diary_date = d_diary_date submitted, n_tags = d_tags submitted, n_status = d_status submitted,
      n_pinned = d_pinned submitted, n_created_at_ms = n_created_at_ms current,
      n_updated_at_ms = max now_ms (n_updated_at_ms current), n_deleted_at_ms = n_deleted_at_ms current,
      n_revision = revision\<rparr>"

definition notes_save :: "notes_env \<Rightarrow> save_note \<Rightarrow> i64 \<Rightarrow> note_data notes_stm" where
  "notes_save env input now_ms =
     u_bind (u_lift (normalize_draft env (s_draft input))) (\<lambda>submitted.
     transaction_early NotesSql (
       u_bind (load_note (s_id input)) (\<lambda>current.
       if n_revision current \<noteq> s_expected_revision input then
         u_lift (Err (NoteConflict \<lparr>nc_expected_revision = s_expected_revision input,
           nc_current = current, nc_submitted = submitted\<rparr>))
       else if same_draft current submitted then u_lift (Ok (Inl current))
       else
         u_bind (u_lift (next_revision (n_revision current))) (\<lambda>revision.
         let saved = saved_note current submitted revision now_ms in
         u_bind (update_note saved (s_expected_revision input)) (\<lambda>_.
         u_bind (replace_tags env (n_id saved) (n_tags saved)) (\<lambda>_.
         u_bind (insert_revision env saved now_ms) (\<lambda>_.
         u_lift (Ok (Inr saved)))))))))"

definition set_deleted :: "notes_env \<Rightarrow> string \<Rightarrow> u64 \<Rightarrow> i64 option \<Rightarrow> i64 \<Rightarrow> note_data notes_stm" where
  "set_deleted env i expected_revision deleted_at_ms now_ms =
     transaction_early NotesSql (
       u_bind (load_note i) (\<lambda>current.
       if n_revision current \<noteq> expected_revision then
         u_lift (Err (NoteConflict \<lparr>nc_expected_revision = expected_revision,
           nc_current = current, nc_submitted = draft_from_note current\<rparr>))
       else if n_deleted_at_ms current = deleted_at_ms \<or> (deleted_at_ms \<noteq> None \<and> n_deleted_at_ms current \<noteq> None)
         then u_lift (Ok (Inl current))
       else
         u_bind (u_lift (next_revision (n_revision current))) (\<lambda>revision.
         let saved = current\<lparr>n_revision := revision, n_deleted_at_ms := deleted_at_ms,
               n_updated_at_ms := max now_ms (n_updated_at_ms current)\<rparr> in
         u_bind (update_note saved expected_revision) (\<lambda>_.
         u_bind (insert_revision env saved now_ms) (\<lambda>_.
         u_lift (Ok (Inr saved)))))))"

definition soft_delete :: "notes_env \<Rightarrow> string \<Rightarrow> u64 \<Rightarrow> i64 \<Rightarrow> note_data notes_stm" where
  "soft_delete env i expected_revision now_ms = set_deleted env i expected_revision (Some now_ms) now_ms"

definition notes_restore :: "notes_env \<Rightarrow> string \<Rightarrow> u64 \<Rightarrow> i64 \<Rightarrow> note_data notes_stm" where
  "notes_restore env i expected_revision now_ms = set_deleted env i expected_revision None now_ms"

definition notes_revisions :: "notes_env \<Rightarrow> string \<Rightarrow> note_revision list notes_stm" where
  "notes_revisions env i =
     u_bind (note_exists i) (\<lambda>found.
     if \<not> found then u_lift (Err (NoteNotFound i))
     else nsql (\<lambda>t. map_option (\<lambda>rs. (rs, t))
       (collect_rows (revision_from_row env)
          (rev (sort_key rv_revision (filter (\<lambda>r. rv_note_id r = i) (nt_revisions t)))))))"

section \<open>Retention\<close>

text \<open>\<open>DELETE FROM notes WHERE deleted_at_ms <= ?\<close> with the two \<open>ON DELETE CASCADE\<close>.\<close>

definition purge_notes :: "i64 \<Rightarrow> notes_tables \<Rightarrow> (nat \<times> notes_tables) option" where
  "purge_notes before t =
     (let gone = (\<lambda>r. is_some_and (nw_deleted_at_ms r) (\<lambda>d. d \<le> before));
          ids = map nw_id (filter gone (nt_notes t))
      in Some (length ids,
           t\<lparr>nt_notes := filter (\<lambda>r. \<not> gone r) (nt_notes t),
             nt_revisions := filter (\<lambda>r. rv_note_id r \<notin> set ids) (nt_revisions t),
             nt_tags := filter (\<lambda>r. tg_note_id r \<notin> set ids) (nt_tags t)\<rparr>))"

text \<open>\<open>row_number() OVER (PARTITION BY note_id ORDER BY revision DESC)\<close>; the primary key leaves no
  ties inside a partition.\<close>

definition revision_position :: "revision_row list \<Rightarrow> revision_row \<Rightarrow> nat" where
  "revision_position rows r =
     Suc (length (filter (\<lambda>q. rv_note_id q = rv_note_id r \<and> rv_revision r < rv_revision q) rows))"

definition prunable :: "i64 \<Rightarrow> nat \<Rightarrow> revision_row list \<Rightarrow> revision_row \<Rightarrow> bool" where
  "prunable before keep rows r = (rv_recorded_at_ms r \<le> before \<and> keep < revision_position rows r)"

definition prune_revisions :: "i64 \<Rightarrow> nat \<Rightarrow> notes_tables \<Rightarrow> (nat \<times> notes_tables) option" where
  "prune_revisions before keep t =
     (let rows = nt_revisions t in
      Some (length (filter (prunable before keep rows) rows),
        t\<lparr>nt_revisions := filter (\<lambda>r. \<not> prunable before keep rows r) rows\<rparr>))"

definition notes_retention :: "note_retention_policy \<Rightarrow> note_retention_result notes_stm" where
  "notes_retention policy =
     (if keep_latest_revisions policy = 0
      then u_lift (Err (NoteValidation ''keep_latest_revisions'' ''must be at least 1''))
      else transaction NotesSql (
        u_bind (case purge_deleted_before_ms policy of
            None \<Rightarrow> u_lift (Ok 0) | Some before \<Rightarrow> nsql (purge_notes before)) (\<lambda>purged.
        u_bind (case prune_revisions_before_ms policy of
            None \<Rightarrow> u_lift (Ok 0)
          | Some before \<Rightarrow> nsql (prune_revisions before (unat (keep_latest_revisions policy)))) (\<lambda>pruned.
        u_lift (Ok \<lparr>purged_notes = purged, pruned_revisions = pruned\<rparr>)))))"

section \<open>Queries\<close>

text \<open>SQLite's \<open>lower\<close> folds the ASCII letters only; \<open>instr\<close> finds the needle anywhere.\<close>

definition ascii_lower :: "string \<Rightarrow> string" where
  "ascii_lower s = map (\<lambda>c. if 65 \<le> (of_char c :: nat) \<and> (of_char c :: nat) \<le> 90 then char_of (of_char c + 32 :: nat) else c) s"

definition sql_instr :: "string \<Rightarrow> string \<Rightarrow> bool" where
  "sql_instr hay needle = sublist needle hay"

definition search_text :: "note_query \<Rightarrow> string option" where
  "search_text q = (case q_search q of None \<Rightarrow> None | Some s \<Rightarrow> if trim s = [] then None else Some (trim s))"

definition row_matches :: "note_query \<Rightarrow> string list \<Rightarrow> notes_tables \<Rightarrow> note_row \<Rightarrow> bool" where
  "row_matches q keys t n =
     ((case q_deleted q of
         DeletedExclude \<Rightarrow> nw_deleted_at_ms n = None
       | DeletedOnly \<Rightarrow> nw_deleted_at_ms n \<noteq> None
       | DeletedInclude \<Rightarrow> True) \<and>
      is_none_or (q_status q) (\<lambda>st. nw_status n = status_as_str st) \<and>
      is_none_or (q_diary_date_from q) (\<lambda>from. is_some_and (nw_diary_date n) (\<lambda>d. from \<le> d)) \<and>
      is_none_or (q_diary_date_to q) (\<lambda>to. is_some_and (nw_diary_date n) (\<lambda>d. d \<le> to)) \<and>
      is_none_or (search_text q) (\<lambda>needle.
        sql_instr (ascii_lower (nw_title n)) (ascii_lower needle) \<or>
        sql_instr (ascii_lower (nw_body_markdown n)) (ascii_lower needle) \<or>
        list_ex (\<lambda>r. tg_note_id r = nw_id n \<and> sql_instr (ascii_lower (tg_display_tag r)) (ascii_lower needle)) (nt_tags t)) \<and>
      list_all (\<lambda>key. list_ex (\<lambda>r. tg_note_id r = nw_id n \<and> tg_tag_key r = key) (nt_tags t)) keys)"

text \<open>The four \<open>ORDER BY\<close> clauses as \<open>a comes first or is equal\<close>.\<close>

definition then_by :: "'k::linorder \<Rightarrow> 'k \<Rightarrow> bool \<Rightarrow> bool" where
  "then_by x y rest = (x < y \<or> (x = y \<and> rest))"

definition order_le :: "note_sort \<Rightarrow> note_row \<Rightarrow> note_row \<Rightarrow> bool" where
  "order_le s a b =
     then_by (nw_pinned b) (nw_pinned a)
      (case s of
         UpdatedDesc \<Rightarrow> then_by (nw_updated_at_ms b) (nw_updated_at_ms a) (nw_id a \<le> nw_id b)
       | CreatedDesc \<Rightarrow> then_by (nw_created_at_ms b) (nw_created_at_ms a) (nw_id a \<le> nw_id b)
       | TitleAsc \<Rightarrow> then_by (ascii_lower (nw_title a)) (ascii_lower (nw_title b)) (nw_id a \<le> nw_id b)
       | DiaryDateDesc \<Rightarrow>
           then_by (nw_diary_date a = None) (nw_diary_date b = None)
             (then_by (case nw_diary_date b of None \<Rightarrow> [] | Some d \<Rightarrow> d) (case nw_diary_date a of None \<Rightarrow> [] | Some d \<Rightarrow> d)
               (then_by (nw_updated_at_ms b) (nw_updated_at_ms a) (nw_id a \<le> nw_id b))))"

fun insert_by :: "('a \<Rightarrow> 'a \<Rightarrow> bool) \<Rightarrow> 'a \<Rightarrow> 'a list \<Rightarrow> 'a list" where
  "insert_by le x [] = [x]"
| "insert_by le x (y # ys) = (if le x y then x # y # ys else y # insert_by le x ys)"

definition sort_rows :: "note_sort \<Rightarrow> note_row list \<Rightarrow> note_row list" where
  "sort_rows s rows = foldr (insert_by (order_le s)) rows []"

definition select_rows :: "note_query \<Rightarrow> string list \<Rightarrow> notes_tables \<Rightarrow> note_row list" where
  "select_rows q keys t =
     take (unat (q_limit q)) (drop (unat (q_offset q)) (sort_rows (q_sort q) (filter (row_matches q keys t) (nt_notes t))))"

fun normalize_keys :: "notes_env \<Rightarrow> string list \<Rightarrow> (notes_error, string list) result" where
  "normalize_keys env [] = Ok []"
| "normalize_keys env (tag # rest) =
     and_then (normalize_tag_key env tag) (\<lambda>key. map_sum id ((#) key) (normalize_keys env rest))"

text \<open>The loop over the rows; the visitor has a state of its own.\<close>

fun visit_rows :: "(note_data \<Rightarrow> 's \<Rightarrow> (notes_error, 's) result) \<Rightarrow> note_row list \<Rightarrow> 's \<Rightarrow> 's notes_stm" where
  "visit_rows visitor [] s = u_lift (Ok s)"
| "visit_rows visitor (row # rest) s =
     u_bind (u_lift (ok_or (note_from_row row) NotesSql)) (\<lambda>note.
     u_bind (load_tags (n_id note)) (\<lambda>tags.
     u_bind (u_lift (visitor (note\<lparr>n_tags := tags\<rparr>) s)) (\<lambda>s'.
     visit_rows visitor rest s')))"

definition visit_query :: "notes_env \<Rightarrow> note_query \<Rightarrow> (note_data \<Rightarrow> 's \<Rightarrow> (notes_error, 's) result) \<Rightarrow> 's \<Rightarrow> 's notes_stm" where
  "visit_query env q visitor s =
     u_bind (u_lift (validate_query q)) (\<lambda>_.
     u_bind (u_lift (normalize_keys env (q_tags q))) (\<lambda>keys.
     u_bind (nsql (\<lambda>t. Some (select_rows q keys t, t))) (\<lambda>rows.
     visit_rows visitor rows s)))"

definition query_notes :: "notes_env \<Rightarrow> note_query \<Rightarrow> note_data list notes_stm" where
  "query_notes env q = visit_query env q (\<lambda>note notes. Ok (notes @ [note])) []"

section \<open>Normalised tags\<close>

definition tags_normal :: "notes_env \<Rightarrow> string list \<Rightarrow> string list \<Rightarrow> bool" where
  "tags_normal env tags keys \<longleftrightarrow>
     list_all2 (\<lambda>tag key. normalize_tag_key env tag = Ok key) tags keys \<and> sorted keys \<and> distinct keys"

lemma collect_tags_Ok:
  assumes "collect_tags env acc tags = Ok ps" "distinct (map fst acc)"
    "\<forall>p \<in> set acc. normalize_tag_key env (snd p) = Ok (fst p) \<and> char_count (snd p) \<le> MAX_TAG_CHARS"
  shows "distinct (map fst ps) \<and>
    (\<forall>p \<in> set ps. normalize_tag_key env (snd p) = Ok (fst p) \<and> char_count (snd p) \<le> MAX_TAG_CHARS) \<and>
    length ps \<le> length acc + length tags"
  using assms
proof (induction env acc tags rule: collect_tags.induct)
  case (2 env acc tag rest)
  then obtain key where key: "normalize_tag_key env (trim tag) = Ok key" "char_count (trim tag) \<le> MAX_TAG_CHARS"
    and rest: "collect_tags env (if list_ex (\<lambda>p. fst p = key) acc then acc else acc @ [(key, trim tag)]) rest = Ok ps"
    and "trim tag \<noteq> []"
    by (auto simp: Let_def and_then_eq_Ok split: if_splits)
  show ?case
  proof (cases "list_ex (\<lambda>p. fst p = key) acc")
    case True
    then show ?thesis using "2.IH" [OF refl _ _ rest] key "2.prems" \<open>trim tag \<noteq> []\<close> by auto
  next
    case False
    moreover have "distinct (map fst (acc @ [(key, trim tag)]))"
      using False "2.prems"(2) by (auto simp: list_ex_iff)
    ultimately show ?thesis using "2.IH" [OF refl _ _ rest] key "2.prems" \<open>trim tag \<noteq> []\<close> by auto
  qed
qed auto

lemma normalize_draft_Ok:
  assumes "normalize_draft env d = Ok d'"
  obtains keys where "tags_normal env (d_tags d') keys" "d' = d\<lparr>d_tags := d_tags d'\<rparr>"
    "char_count (d_title d') \<le> MAX_TITLE_CHARS" "length (d_body_markdown d') \<le> MAX_BODY_BYTES"
    "\<forall>date. d_diary_date d' = Some date \<longrightarrow> validate_date date"
    "length (d_tags d') \<le> MAX_TAGS" "\<forall>tag \<in> set (d_tags d'). char_count tag \<le> MAX_TAG_CHARS"
proof -
  obtain ps where ps: "collect_tags env [] (d_tags d) = Ok ps" and d': "d' = d\<lparr>d_tags := map snd (sort_key fst ps)\<rparr>"
    and checks: "char_count (d_title d) \<le> MAX_TITLE_CHARS" "length (d_body_markdown d) \<le> MAX_BODY_BYTES"
      "\<forall>date. d_diary_date d = Some date \<longrightarrow> validate_date date" "length (d_tags d) \<le> MAX_TAGS"
    using assms by (auto simp: normalize_draft_def and_then_eq_Ok is_some_and_iff split: if_splits)
  have c: "distinct (map fst ps)" "\<forall>p \<in> set ps. normalize_tag_key env (snd p) = Ok (fst p) \<and> char_count (snd p) \<le> MAX_TAG_CHARS"
    "length ps \<le> length (d_tags d)"
    using collect_tags_Ok [OF ps] by auto
  have "tags_normal env (map snd (sort_key fst ps)) (map fst (sort_key fst ps))"
    using c(1,2) by (auto simp: tags_normal_def list_all2_map1 list_all2_map2 list_all2_same distinct_map)
  then show ?thesis using that d' checks c by auto
qed

section \<open>Loading\<close>

definition note_at :: "notes_tables \<Rightarrow> string \<Rightarrow> note_data option" where
  "note_at t i =
     (case find (\<lambda>r. nw_id r = i) (nt_notes t) of
        None \<Rightarrow> None
      | Some r \<Rightarrow> map_option (\<lambda>note. note\<lparr>n_tags := tags_of i t\<rparr>) (note_from_row r))"

lemma load_note_rel:
  "stm_rel (load_note i) (\<lambda>t r t'. t' = t \<and> (case r of Inl e \<Rightarrow> (\<forall>c. e \<noteq> NoteConflict c) | Inr n \<Rightarrow> note_at t i = Some n))"
  unfolding stm_rel_def load_note_def load_tags_def
  by (auto simp: u_bind_def statement_def u_lift_def select_note_def note_at_def ok_or_def
      split: if_splits option.splits sum.splits prod.splits)

lemma load_note_run:
  "note_at t i = Some n \<Longrightarrow> load_note i (t, []) = (Ok n, (t, []))"
  by (auto simp: load_note_def load_tags_def u_bind_def statement_run select_note_def note_at_def u_lift_def
      split: option.splits)

lemma note_at_SomeD:
  assumes "note_at t i = Some n"
  obtains r where "r \<in> set (nt_notes t)" "nw_id r = i" "note_from_row r = Some (n\<lparr>n_tags := []\<rparr>)" "n_tags n = tags_of i t"
    "find (\<lambda>r. nw_id r = i) (nt_notes t) = Some r"
proof -
  obtain r m where r: "find (\<lambda>r. nw_id r = i) (nt_notes t) = Some r" "note_from_row r = Some m" "n = m\<lparr>n_tags := tags_of i t\<rparr>"
    using assms by (auto simp: note_at_def split: option.splits)
  moreover have "n_tags m = []" using r(2) by (auto simp: note_from_row_def split: option.splits)
  ultimately show ?thesis using that [of r] by (auto simp: find_Some_iff)
qed

section \<open>What the statements write\<close>

definition note_row_of :: "note_data \<Rightarrow> i64 \<Rightarrow> note_row" where
  "note_row_of n rn =
     \<lparr>nw_id = n_id n, nw_title = n_title n, nw_body_markdown = n_body_markdown n,
      nw_diary_date = n_diary_date n, nw_status = status_as_str (n_status n), nw_pinned = n_pinned n,
      nw_created_at_ms = n_created_at_ms n, nw_updated_at_ms = n_updated_at_ms n,
      nw_deleted_at_ms = n_deleted_at_ms n, nw_revision = rn\<rparr>"

definition revision_row_of :: "note_data \<Rightarrow> i64 \<Rightarrow> string \<Rightarrow> i64 \<Rightarrow> revision_row" where
  "revision_row_of n rn json recorded =
     \<lparr>rv_note_id = n_id n, rv_revision = rn, rv_title = n_title n, rv_body_markdown = n_body_markdown n,
      rv_diary_date = n_diary_date n, rv_tags_json = json, rv_status = status_as_str (n_status n),
      rv_pinned = n_pinned n, rv_created_at_ms = n_created_at_ms n, rv_updated_at_ms = n_updated_at_ms n,
      rv_deleted_at_ms = n_deleted_at_ms n, rv_recorded_at_ms = recorded\<rparr>"

lemma note_row_of_simps [simp]:
  "nw_id (note_row_of n rn) = n_id n" "nw_revision (note_row_of n rn) = rn"
  "nw_status (note_row_of n rn) = status_as_str (n_status n)"
  by (simp_all add: note_row_of_def)

lemma revision_row_of_simps [simp]:
  "rv_note_id (revision_row_of n rn json recorded) = n_id n"
  "rv_revision (revision_row_of n rn json recorded) = rn"
  "rv_tags_json (revision_row_of n rn json recorded) = json"
  "rv_status (revision_row_of n rn json recorded) = status_as_str (n_status n)"
  by (simp_all add: revision_row_of_def)

lemma status_allowed_as_str [simp]: "status_allowed (status_as_str st)"
  by (cases st) (simp_all add: status_allowed_def)

lemma status_allowed_parse: "status_allowed st \<longleftrightarrow> (\<exists>s. st = status_as_str s)"
  by (metis status_allowed_as_str status_allowed_def insert_iff empty_iff status_as_str.simps)

lemma revision_to_i64_Ok [simp]: "revision_to_i64 r = Ok rn \<longleftrightarrow> i64_of_u64 r = Some rn"
  by (simp add: revision_to_i64_def)

lemma note_from_row_of:
  "i64_of_u64 (n_revision n) = Some rn \<Longrightarrow> note_from_row (note_row_of n rn) = Some (n\<lparr>n_tags := []\<rparr>)"
  by (simp add: note_from_row_def note_row_of_def u64_of_i64_of_u64)

lemma revision_from_row_of:
  assumes "i64_of_u64 (n_revision n) = Some rn" "ne_tags_from_json env json = Some (n_tags n)"
  shows "revision_from_row env (revision_row_of n rn json recorded) = Some \<lparr>nr_note = n, nr_recorded_at_ms = recorded\<rparr>"
  using assms by (simp add: revision_from_row_def revision_row_of_def u64_of_i64_of_u64)

lemma insert_note_Ok:
  assumes "insert_note n db = (Ok u, db')"
  obtains rn where "i64_of_u64 (n_revision n) = Some rn" "0 < rn" "\<not> has_note (n_id n) (fst db)"
    "fst db' = (fst db)\<lparr>nt_notes := nt_notes (fst db) @ [note_row_of n rn]\<rparr>"
  using assms unfolding insert_note_def
  by (elim u_bind_Ok) (auto dest!: statement_Ok simp: insert_note_row_def note_row_of_def split: if_splits)

lemma update_note_Ok:
  assumes "update_note n expected db = (Ok u, db')"
  obtains rn en where "i64_of_u64 (n_revision n) = Some rn" "i64_of_u64 expected = Some en" "0 < rn"
    "length (filter (\<lambda>r. nw_id r = n_id n \<and> nw_revision r = en) (nt_notes (fst db))) = 1"
    "fst db' = (fst db)\<lparr>nt_notes := map (\<lambda>r. if nw_id r = n_id n \<and> nw_revision r = en
        then (note_row_of n rn)\<lparr>nw_created_at_ms := nw_created_at_ms r\<rparr> else r) (nt_notes (fst db))\<rparr>"
proof -
  from assms obtain rn en where r: "i64_of_u64 (n_revision n) = Some rn" "i64_of_u64 expected = Some en"
    and u: "update_note_rows (n_id n) en (\<lambda>r. r\<lparr>nw_title := n_title n,
         nw_body_markdown := n_body_markdown n, nw_diary_date := n_diary_date n,
         nw_status := status_as_str (n_status n), nw_pinned := n_pinned n,
         nw_updated_at_ms := n_updated_at_ms n, nw_deleted_at_ms := n_deleted_at_ms n,
         nw_revision := rn\<rparr>) (fst db) = Some (1, fst db')"
    unfolding update_note_def
    by (elim u_bind_Ok) (auto dest!: statement_Ok split: if_splits)
  have one: "length (filter (\<lambda>r. nw_id r = n_id n \<and> nw_revision r = en) (nt_notes (fst db))) = 1"
    using u by (auto simp: update_note_rows_def Let_def split: if_splits)
  then have "filter (\<lambda>r. nw_id r = n_id n \<and> nw_revision r = en) (nt_notes (fst db)) \<noteq> []" by auto
  then have "0 < rn" using u
    by (auto simp: update_note_rows_def Let_def list_ex_iff filter_empty_conv split: if_splits)
  moreover have "(if nw_id r = n_id n \<and> nw_revision r = en then r\<lparr>nw_title := n_title n,
         nw_body_markdown := n_body_markdown n, nw_diary_date := n_diary_date n,
         nw_status := status_as_str (n_status n), nw_pinned := n_pinned n,
         nw_updated_at_ms := n_updated_at_ms n, nw_deleted_at_ms := n_deleted_at_ms n,
         nw_revision := rn\<rparr> else r) = (if nw_id r = n_id n \<and> nw_revision r = en
      then (note_row_of n rn)\<lparr>nw_created_at_ms := nw_created_at_ms r\<rparr> else r)" for r
    by (cases r) (simp add: note_row_of_def)
  then have "fst db' = (fst db)\<lparr>nt_notes := map (\<lambda>r. if nw_id r = n_id n \<and> nw_revision r = en
        then (note_row_of n rn)\<lparr>nw_created_at_ms := nw_created_at_ms r\<rparr> else r) (nt_notes (fst db))\<rparr>"
    using u by (simp add: update_note_rows_def Let_def split: if_splits)
  ultimately show ?thesis using that r one by blast
qed

lemma insert_revision_Ok:
  assumes "insert_revision env n recorded db = (Ok u, db')"
  obtains rn json where "i64_of_u64 (n_revision n) = Some rn" "ne_tags_to_json env (n_tags n) = Some json" "0 < rn"
    "has_note (n_id n) (fst db)" "\<forall>q \<in> set (nt_revisions (fst db)). rv_note_id q = n_id n \<longrightarrow> rv_revision q \<noteq> rn"
    "fst db' = (fst db)\<lparr>nt_revisions := nt_revisions (fst db) @ [revision_row_of n rn json recorded]\<rparr>"
  using assms unfolding insert_revision_def
  by (elim u_bind_Ok) (auto dest!: statement_Ok simp: insert_revision_row_def revision_row_of_def list_ex_iff split: if_splits)

definition tag_rows :: "string \<Rightarrow> string list \<Rightarrow> string list \<Rightarrow> tag_row list" where
  "tag_rows i tags keys = map2 (\<lambda>tag key. \<lparr>tg_note_id = i, tg_tag_key = key, tg_display_tag = tag\<rparr>) tags keys"

lemma insert_tags_Ok:
  assumes "insert_tags env i tags db = (Ok u, db')" "list_all2 (\<lambda>tag key. normalize_tag_key env tag = Ok key) tags keys"
  shows "fst db' = (fst db)\<lparr>nt_tags := nt_tags (fst db) @ tag_rows i tags keys\<rparr> \<and>
    (tags \<noteq> [] \<longrightarrow> has_note i (fst db))"
  using assms
proof (induction env i tags arbitrary: db keys rule: insert_tags.induct)
  case (2 env i tag rest)
  obtain key ks where keys: "keys = key # ks" "normalize_tag_key env tag = Ok key"
    "list_all2 (\<lambda>tag key. normalize_tag_key env tag = Ok key) rest ks"
    using "2.prems"(2) by (auto simp: list_all2_Cons1)
  obtain db1 where s: "insert_tag_row \<lparr>tg_note_id = i, tg_tag_key = key, tg_display_tag = tag\<rparr> (fst db) = Some ((), fst db1)"
    and rest: "insert_tags env i rest db1 = (Ok u, db')"
    using "2.prems"(1) keys(2) by (auto elim!: u_bind_Ok dest!: statement_Ok)
  have "fst db1 = (fst db)\<lparr>nt_tags := nt_tags (fst db) @ [\<lparr>tg_note_id = i, tg_tag_key = key, tg_display_tag = tag\<rparr>]\<rparr>"
    "has_note i (fst db)"
    using s by (auto simp: insert_tag_row_def split: if_splits)
  then show ?case using "2.IH" [OF rest keys(3)] keys(1) by (simp add: tag_rows_def)
qed (auto simp: tag_rows_def)

lemma replace_tags_Ok:
  assumes "replace_tags env i tags db = (Ok u, db')" "list_all2 (\<lambda>tag key. normalize_tag_key env tag = Ok key) tags keys"
  shows "fst db' = (fst db)\<lparr>nt_tags := filter (\<lambda>r. tg_note_id r \<noteq> i) (nt_tags (fst db)) @ tag_rows i tags keys\<rparr>"
  using assms(1) unfolding replace_tags_def
  by (elim u_bind_Ok) (auto dest!: statement_Ok insert_tags_Ok [OF _ assms(2)] split: if_splits)

lemma tag_rows_ids: "r \<in> set (tag_rows i tags keys) \<Longrightarrow> tg_note_id r = i"
  by (auto simp: tag_rows_def)

lemma tag_rows_read:
  assumes "tags_normal env tags keys"
  shows "sort_key tg_tag_key (tag_rows i tags keys) = tag_rows i tags keys" "map tg_display_tag (tag_rows i tags keys) = tags"
    "map tg_tag_key (tag_rows i tags keys) = keys"
proof -
  have len: "length tags = length keys" using assms by (auto simp: tags_normal_def dest: list_all2_lengthD)
  then show k: "map tg_tag_key (tag_rows i tags keys) = keys" and "map tg_display_tag (tag_rows i tags keys) = tags"
    by (simp_all add: tag_rows_def comp_def case_prod_unfold)
  show "sort_key tg_tag_key (tag_rows i tags keys) = tag_rows i tags keys"
    by (rule sort_key_id_if_sorted) (use assms k in \<open>simp add: tags_normal_def\<close>)
qed

lemma tags_of_replaced:
  assumes "tags_normal env tags keys" "nt_tags t' = filter (\<lambda>r. tg_note_id r \<noteq> i) (nt_tags t) @ tag_rows i tags keys"
  shows "tags_of j t' = (if j = i then tags else tags_of j t)"
proof -
  have "filter (\<lambda>r. tg_note_id r = j) (tag_rows i tags keys) = (if j = i then tag_rows i tags keys else [])"
    by (auto simp: filter_id_conv filter_empty_conv dest: tag_rows_ids)
  moreover have "filter (\<lambda>r. tg_note_id r = j \<and> tg_note_id r \<noteq> i) (nt_tags t) =
      (if j = i then [] else filter (\<lambda>r. tg_note_id r = j) (nt_tags t))"
    by (auto simp: filter_empty_conv intro: filter_cong)
  ultimately show ?thesis using tag_rows_read [OF assms(1), of i]
    by (auto simp: tags_of_def assms(2) conj_commute)
qed

section \<open>The invariant of the tables\<close>

text \<open>The keys of the schema, and that the newest revision of every note records the note as it
  stands, its tags included.\<close>

definition records_note :: "notes_env \<Rightarrow> notes_tables \<Rightarrow> note_row \<Rightarrow> revision_row \<Rightarrow> bool" where
  "records_note env t n r \<longleftrightarrow>
     rv_note_id r = nw_id n \<and> rv_revision r = nw_revision n \<and> rv_title r = nw_title n \<and>
     rv_body_markdown r = nw_body_markdown n \<and> rv_diary_date r = nw_diary_date n \<and>
     ne_tags_to_json env (tags_of (nw_id n) t) = Some (rv_tags_json r) \<and> rv_status r = nw_status n \<and>
     rv_pinned r = nw_pinned n \<and> rv_created_at_ms r = nw_created_at_ms n \<and>
     rv_updated_at_ms r = nw_updated_at_ms n \<and> rv_deleted_at_ms r = nw_deleted_at_ms n"

definition note_row_ok :: "notes_env \<Rightarrow> notes_tables \<Rightarrow> note_row \<Rightarrow> bool" where
  "note_row_ok env t n \<longleftrightarrow>
     status_allowed (nw_status n) \<and> 0 < nw_revision n \<and> nw_revision n \<le> i64_max \<and>
     (\<exists>r \<in> set (nt_revisions t). records_note env t n r) \<and>
     (\<forall>r \<in> set (nt_revisions t). rv_note_id r = nw_id n \<longrightarrow> rv_revision r \<le> nw_revision n)"

definition revision_row_ok :: "notes_env \<Rightarrow> notes_tables \<Rightarrow> revision_row \<Rightarrow> bool" where
  "revision_row_ok env t r \<longleftrightarrow>
     has_note (rv_note_id r) t \<and> status_allowed (rv_status r) \<and> 0 < rv_revision r \<and>
     (\<exists>tags. ne_tags_to_json env tags = Some (rv_tags_json r))"

definition notes_ok :: "notes_env \<Rightarrow> notes_tables \<Rightarrow> bool" where
  "notes_ok env t \<longleftrightarrow>
     distinct (map nw_id (nt_notes t)) \<and>
     distinct (map (\<lambda>r. (tg_note_id r, tg_tag_key r)) (nt_tags t)) \<and>
     distinct (map (\<lambda>r. (rv_note_id r, rv_revision r)) (nt_revisions t)) \<and>
     (\<forall>r \<in> set (nt_tags t). has_note (tg_note_id r) t) \<and>
     (\<forall>r \<in> set (nt_revisions t). revision_row_ok env t r) \<and>
     (\<forall>n \<in> set (nt_notes t). note_row_ok env t n)"

definition empty_notes :: notes_tables where
  "empty_notes = \<lparr>nt_notes = [], nt_revisions = [], nt_tags = []\<rparr>"

lemma notes_ok_empty: "notes_ok env empty_notes"
  by (simp add: notes_ok_def empty_notes_def)

text \<open>A committed write: the row of the note inserted or replaced, its tags replaced or kept, one
  revision more.\<close>

definition wrote :: "notes_env \<Rightarrow> i64 \<Rightarrow> notes_tables \<Rightarrow> note_data \<Rightarrow> notes_tables \<Rightarrow> bool" where
  "wrote env recorded t n t' \<longleftrightarrow>
     (\<exists>rn json. i64_of_u64 (n_revision n) = Some rn \<and> 0 < rn \<and> ne_tags_to_json env (n_tags n) = Some json \<and>
        ((\<not> has_note (n_id n) t \<and> nt_notes t' = nt_notes t @ [note_row_of n rn]) \<or>
         (has_note (n_id n) t \<and> (\<forall>r \<in> set (nt_notes t). nw_id r = n_id n \<longrightarrow> nw_revision r < rn) \<and>
          nt_notes t' = map (\<lambda>r. if nw_id r = n_id n then note_row_of n rn else r) (nt_notes t))) \<and>
        nt_revisions t' = nt_revisions t @ [revision_row_of n rn json recorded]) \<and>
     ((nt_tags t' = nt_tags t \<and> n_tags n = tags_of (n_id n) t) \<or>
      (\<exists>keys. tags_normal env (n_tags n) keys \<and>
         nt_tags t' = filter (\<lambda>r. tg_note_id r \<noteq> n_id n) (nt_tags t) @ tag_rows (n_id n) (n_tags n) keys))"

lemma has_note_iff: "has_note i t \<longleftrightarrow> i \<in> nw_id ` set (nt_notes t)"
  by (auto simp: has_note_def list_ex_iff)

lemma wrote_tags_of:
  assumes "wrote env recorded t n t'"
  shows "tags_of j t' = (if j = n_id n then n_tags n else tags_of j t)"
proof -
  consider "nt_tags t' = nt_tags t" "n_tags n = tags_of (n_id n) t" | keys where "tags_normal env (n_tags n) keys"
    "nt_tags t' = filter (\<lambda>r. tg_note_id r \<noteq> n_id n) (nt_tags t) @ tag_rows (n_id n) (n_tags n) keys"
    using assms unfolding wrote_def by blast
  then show ?thesis
  proof cases
    case (2 keys)
    then show ?thesis by (rule tags_of_replaced)
  qed (simp add: tags_of_def)
qed

lemma wrote_ids:
  assumes "wrote env recorded t n t'"
  shows "map nw_id (nt_notes t') = map nw_id (nt_notes t) @ (if has_note (n_id n) t then [] else [n_id n])"
  using assms unfolding wrote_def by (elim exE conjE disjE) simp_all

lemma wrote_has_note: "wrote env recorded t n t' \<Longrightarrow> has_note j t' \<longleftrightarrow> j = n_id n \<or> has_note j t"
  using wrote_ids [of env recorded t n t'] unfolding has_note_iff set_map [symmetric] by auto

lemma find_map_id:
  "(\<And>r. nw_id (f r) = nw_id r) \<Longrightarrow> find (\<lambda>r. nw_id r = i) (map f rows) = map_option f (find (\<lambda>r. nw_id r = i) rows)"
  by (induction rows) auto

lemma find_append: "find P (xs @ ys) = (case find P xs of None \<Rightarrow> find P ys | Some x \<Rightarrow> Some x)"
  by (induction xs) auto

lemma find_has_note: "find (\<lambda>r. nw_id r = i) (nt_notes t) = None \<longleftrightarrow> \<not> has_note i t"
  by (auto simp: find_None_iff has_note_iff)

lemma wrote_note_at:
  assumes "wrote env recorded t n t'"
  shows "note_at t' = (note_at t)(n_id n \<mapsto> n)"
proof
  fix i
  obtain rn where rn: "i64_of_u64 (n_revision n) = Some rn"
    and rows: "(\<not> has_note (n_id n) t \<and> nt_notes t' = nt_notes t @ [note_row_of n rn]) \<or>
         (has_note (n_id n) t \<and> nt_notes t' = map (\<lambda>r. if nw_id r = n_id n then note_row_of n rn else r) (nt_notes t))"
    using assms unfolding wrote_def by blast
  have "find (\<lambda>r. nw_id r = i) (nt_notes t') =
      (if i = n_id n then Some (note_row_of n rn) else find (\<lambda>r. nw_id r = i) (nt_notes t))"
    using rows
  proof (elim disjE conjE)
    assume "\<not> has_note (n_id n) t" "nt_notes t' = nt_notes t @ [note_row_of n rn]"
    then show ?thesis by (cases "find (\<lambda>r. nw_id r = i) (nt_notes t)") (auto simp: find_append simp flip: find_has_note)
  next
    assume h: "has_note (n_id n) t" "nt_notes t' = map (\<lambda>r. if nw_id r = n_id n then note_row_of n rn else r) (nt_notes t)"
    then have e: "find (\<lambda>r. nw_id r = i) (nt_notes t') =
        map_option (\<lambda>r. if nw_id r = n_id n then note_row_of n rn else r) (find (\<lambda>r. nw_id r = i) (nt_notes t))"
      by (simp add: find_map_id)
    show ?thesis
    proof (cases "find (\<lambda>r. nw_id r = i) (nt_notes t)")
      case None
      then show ?thesis using e h find_has_note [of i t] by auto
    next
      case (Some r)
      then have "nw_id r = i" by (auto simp: find_Some_iff)
      then show ?thesis using e Some by simp
    qed
  qed
  then show "note_at t' i = ((note_at t)(n_id n \<mapsto> n)) i"
    using wrote_tags_of [OF assms, of i] note_from_row_of [OF rn] by (cases "i = n_id n") (simp_all add: note_at_def split: option.split)
qed

lemma tag_rows_keys: "map (\<lambda>r. (tg_note_id r, tg_tag_key r)) (tag_rows i tags keys) = map (Pair i) (map tg_tag_key (tag_rows i tags keys))"
  by (simp add: tag_rows_def comp_def case_prod_unfold)

lemma wrote_tags_ok:
  assumes "notes_ok env t" "wrote env recorded t n t'"
  shows "distinct (map (\<lambda>r. (tg_note_id r, tg_tag_key r)) (nt_tags t'))" "\<forall>r \<in> set (nt_tags t'). has_note (tg_note_id r) t'"
proof -
  have d: "distinct (map (\<lambda>r. (tg_note_id r, tg_tag_key r)) (nt_tags t))" "\<forall>r \<in> set (nt_tags t). has_note (tg_note_id r) t"
    using assms(1) by (auto simp: notes_ok_def)
  consider "nt_tags t' = nt_tags t" | keys where "tags_normal env (n_tags n) keys"
    "nt_tags t' = filter (\<lambda>r. tg_note_id r \<noteq> n_id n) (nt_tags t) @ tag_rows (n_id n) (n_tags n) keys"
    using assms(2) unfolding wrote_def by blast
  note cases = this
  from cases show "distinct (map (\<lambda>r. (tg_note_id r, tg_tag_key r)) (nt_tags t'))"
  proof cases
    case (2 keys)
    have "distinct (map (\<lambda>r. (tg_note_id r, tg_tag_key r)) (tag_rows (n_id n) (n_tags n) keys))"
      unfolding tag_rows_keys tag_rows_read(3) [OF 2(1)]
      using 2(1) by (simp add: tags_normal_def distinct_map inj_on_def)
    moreover have "distinct (map (\<lambda>r. (tg_note_id r, tg_tag_key r)) (filter (\<lambda>r. tg_note_id r \<noteq> n_id n) (nt_tags t)))"
      using d(1) by (rule distinct_map_filter)
    ultimately show ?thesis unfolding 2(2) by (auto dest: tag_rows_ids)
  qed (use d in simp)
  from cases show "\<forall>r \<in> set (nt_tags t'). has_note (tg_note_id r) t'"
    using d(2) wrote_has_note [OF assms(2)] by cases (auto dest: tag_rows_ids)
qed

lemma wrote_revision_fresh:
  assumes "notes_ok env t" "wrote env recorded t n t'" "i64_of_u64 (n_revision n) = Some rn"
    "r \<in> set (nt_revisions t)" "rv_note_id r = n_id n"
  shows "rv_revision r < rn"
proof -
  have "has_note (n_id n) t" using assms(1,4,5) by (auto simp: notes_ok_def revision_row_ok_def)
  then obtain q where q: "q \<in> set (nt_notes t)" "nw_id q = n_id n" "nw_revision q < rn"
    using assms(2,3) by (auto simp: wrote_def has_note_iff)
  moreover have "rv_revision r \<le> nw_revision q"
    using assms(1,4,5) q by (auto simp: notes_ok_def note_row_ok_def)
  ultimately show ?thesis by simp
qed

lemma wrote_ok:
  assumes ok: "notes_ok env t" and w: "wrote env recorded t n t'"
  shows "notes_ok env t'"
proof -
  obtain rn json where rn: "i64_of_u64 (n_revision n) = Some rn" "0 < rn" "ne_tags_to_json env (n_tags n) = Some json"
    and revs: "nt_revisions t' = nt_revisions t @ [revision_row_of n rn json recorded]"
    and rows: "(\<not> has_note (n_id n) t \<and> nt_notes t' = nt_notes t @ [note_row_of n rn]) \<or>
         (has_note (n_id n) t \<and> nt_notes t' = map (\<lambda>r. if nw_id r = n_id n then note_row_of n rn else r) (nt_notes t))"
    using w unfolding wrote_def by blast
  have bound: "rn \<le> i64_max" using rn(1) by (auto simp: i64_of_u64_def split: if_splits)
  have fresh: "\<forall>r \<in> set (nt_revisions t). rv_note_id r = n_id n \<longrightarrow> rv_revision r < rn"
    using wrote_revision_fresh [OF ok w rn(1)] by blast
  have "distinct (map nw_id (nt_notes t'))"
    unfolding wrote_ids [OF w] using ok by (auto simp: notes_ok_def has_note_iff)
  moreover have "distinct (map (\<lambda>r. (rv_note_id r, rv_revision r)) (nt_revisions t'))"
    using ok fresh by (auto simp: notes_ok_def revs)
  moreover have "\<forall>r \<in> set (nt_revisions t'). revision_row_ok env t' r"
    using ok rn wrote_has_note [OF w] by (auto simp: revs notes_ok_def revision_row_ok_def)
  moreover have "note_row_ok env t' q" if q: "q \<in> set (nt_notes t')" for q
  proof (cases "nw_id q = n_id n")
    case True
    then have "q = note_row_of n rn" using q rows by (elim disjE conjE) (fastforce simp: has_note_iff image_iff)+
    then show ?thesis using rn bound fresh wrote_tags_of [OF w]
      by (auto simp: note_row_ok_def revs records_note_def revision_row_of_def note_row_of_def less_imp_le)
  next
    case False
    then have "q \<in> set (nt_notes t)" using q rows by (auto split: if_splits)
    then have "note_row_ok env t q" using ok by (auto simp: notes_ok_def)
    then show ?thesis using False wrote_tags_of [OF w]
      by (auto simp: note_row_ok_def revs records_note_def)
  qed
  ultimately show ?thesis using wrote_tags_ok [OF ok w] by (simp add: notes_ok_def)
qed

section \<open>What the operations write\<close>

lemma next_revision_Ok: "next_revision r = Ok r' \<Longrightarrow> r' = r + 1 \<and> unat r' = unat r + 1"
  unfolding next_revision_def ok_or_eq_Ok checked_add_def
  by (auto simp: unat_word_ariths split: if_splits)

lemma i64_of_u64_of_i64: "u64_of_i64 a = Some w \<Longrightarrow> a \<le> i64_max \<Longrightarrow> i64_of_u64 w = Some a"
  by (auto simp: u64_of_i64_def i64_of_u64_def i64_max_def uint_word_of_int_eq take_bit_int_eq_self split: if_splits)

lemma note_from_row_Some:
  assumes "note_from_row r = Some m"
  shows "n_id m = nw_id r" "n_title m = nw_title r" "n_body_markdown m = nw_body_markdown r"
    "n_diary_date m = nw_diary_date r" "nw_status r = status_as_str (n_status m)" "n_pinned m = nw_pinned r"
    "n_created_at_ms m = nw_created_at_ms r" "n_updated_at_ms m = nw_updated_at_ms r"
    "n_deleted_at_ms m = nw_deleted_at_ms r" "u64_of_i64 (nw_revision r) = Some (n_revision m)"
  using assms by (auto simp: note_from_row_def status_parse_def split: option.splits if_splits)

lemma update_note_rows_Ok:
  assumes ok: "notes_ok env t" and cur: "note_at t (n_id n) = Some cur"
    and u: "update_note n (n_revision cur) db = (Ok u, db')" "fst db = t"
    and n: "n_created_at_ms n = n_created_at_ms cur" "next_revision (n_revision cur) = Ok (n_revision n)"
  obtains rn where "i64_of_u64 (n_revision n) = Some rn" "0 < rn" "has_note (n_id n) t"
    "\<forall>r \<in> set (nt_notes t). nw_id r = n_id n \<longrightarrow> nw_revision r < rn"
    "fst db' = t\<lparr>nt_notes := map (\<lambda>r. if nw_id r = n_id n then note_row_of n rn else r) (nt_notes t)\<rparr>"
proof -
  obtain rn en where e: "i64_of_u64 (n_revision n) = Some rn" "i64_of_u64 (n_revision cur) = Some en" "0 < rn"
    and t': "fst db' = t\<lparr>nt_notes := map (\<lambda>r. if nw_id r = n_id n \<and> nw_revision r = en
        then (note_row_of n rn)\<lparr>nw_created_at_ms := nw_created_at_ms r\<rparr> else r) (nt_notes t)\<rparr>"
    by (rule update_note_Ok [OF u(1)]) (simp only: u(2) that)
  obtain r0 where r0: "r0 \<in> set (nt_notes t)" "nw_id r0 = n_id n" "note_from_row r0 = Some (cur\<lparr>n_tags := []\<rparr>)"
    using note_at_SomeD [OF cur] by metis
  have "0 < nw_revision r0" "nw_revision r0 \<le> i64_max" using ok r0(1) by (auto simp: notes_ok_def note_row_ok_def)
  moreover have "u64_of_i64 (nw_revision r0) = Some (n_revision cur)" "nw_created_at_ms r0 = n_created_at_ms cur"
    using note_from_row_Some(7,10) [OF r0(3)] by simp_all
  ultimately have row: "nw_revision r0 = en" "nw_created_at_ms r0 = n_created_at_ms n"
    using e(2) n(1) i64_of_u64_of_i64 [of "nw_revision r0"] by auto
  have only: "r = r0" if "r \<in> set (nt_notes t)" "nw_id r = n_id n" for r
    using ok that r0 unfolding notes_ok_def distinct_map by (metis inj_onD)
  have same: "(note_row_of n rn)\<lparr>nw_created_at_ms := n_created_at_ms n\<rparr> = note_row_of n rn"
    by (simp add: note_row_of_def)
  have "en = uint (n_revision cur)" "rn = uint (n_revision n)"
    using e by (auto simp: i64_of_u64_def split: if_splits)
  then have less: "en < rn"
    using next_revision_Ok [OF n(2), THEN conjunct2] by (simp only: uint_nat)
  have "fst db' = t\<lparr>nt_notes := map (\<lambda>r. if nw_id r = n_id n then note_row_of n rn else r) (nt_notes t)\<rparr>"
    unfolding t' using only row same by (auto intro!: arg_cong [of _ _ "\<lambda>x. t\<lparr>nt_notes := x\<rparr>"])
  moreover have "\<forall>r \<in> set (nt_notes t). nw_id r = n_id n \<longrightarrow> nw_revision r < rn" using only row less by auto
  moreover have "has_note (n_id n) t" using r0(1,2) unfolding has_note_iff by (metis imageI)
  ultimately show ?thesis using that e by blast
qed

lemma create_Ok:
  assumes "notes_create env uuid input now_ms db = (Ok n, db')"
  shows "wrote env now_ms (fst db) n (fst db')" "n_id n = uuid" "n_revision n = 1"
    "\<exists>d. normalize_draft env (draft_of_create input) = Ok d \<and> n = new_note uuid d now_ms"
proof -
  obtain d where d: "normalize_draft env (draft_of_create input) = Ok d"
    and tr: "transaction NotesSql (u_bind (insert_note (new_note uuid d now_ms)) (\<lambda>_.
       u_bind (replace_tags env uuid (d_tags d)) (\<lambda>_.
       u_bind (insert_revision env (new_note uuid d now_ms) now_ms) (\<lambda>_.
       u_lift (Ok (new_note uuid d now_ms)))))) db = (Ok n, db')"
    using assms unfolding notes_create_def Let_def by (elim u_bind_Ok) (simp add: new_note_def)
  obtain fs fs' where body: "u_bind (insert_note (new_note uuid d now_ms)) (\<lambda>_.
       u_bind (replace_tags env uuid (d_tags d)) (\<lambda>_.
       u_bind (insert_revision env (new_note uuid d now_ms) now_ms) (\<lambda>_.
       u_lift (Ok (new_note uuid d now_ms))))) (fst db, fs) = (Ok n, (fst db', fs'))"
    by (rule transaction_Ok [OF tr])
  then have n: "n = new_note uuid d now_ms" by (elim u_bind_Ok) simp
  obtain u1 u2 u3 db1 db2 db3 where s: "insert_note n (fst db, fs) = (Ok u1, db1)"
    "replace_tags env uuid (d_tags d) db1 = (Ok u2, db2)" "insert_revision env n now_ms db2 = (Ok u3, db3)"
    and db': "fst db' = fst db3"
    using body unfolding n [symmetric] by (elim u_bind_Ok) (metis fst_conv u_lift_eq)
  obtain keys where keys: "tags_normal env (d_tags d) keys" using normalize_draft_Ok [OF d] by metis
  have id: "n_id n = uuid" "n_tags n = d_tags d" by (simp_all add: n new_note_def)
  have t2: "fst db2 = (fst db1)\<lparr>nt_tags := filter (\<lambda>r. tg_note_id r \<noteq> uuid) (nt_tags (fst db1)) @ tag_rows uuid (d_tags d) keys\<rparr>"
    using replace_tags_Ok [OF s(2)] keys by (simp add: tags_normal_def)
  from insert_note_Ok [OF s(1)] obtain rn where r1: "i64_of_u64 (n_revision n) = Some rn" "0 < rn" "\<not> has_note uuid (fst db)"
    "fst db1 = (fst db)\<lparr>nt_notes := nt_notes (fst db) @ [note_row_of n rn]\<rparr>" using id by auto
  from insert_revision_Ok [OF s(3)] r1(1) obtain json where r3: "ne_tags_to_json env (n_tags n) = Some json"
    "fst db3 = (fst db2)\<lparr>nt_revisions := nt_revisions (fst db2) @ [revision_row_of n rn json now_ms]\<rparr>" by auto
  show "wrote env now_ms (fst db) n (fst db')"
    unfolding wrote_def db' using id keys r1 r3 t2 by auto
  show "n_id n = uuid" "n_revision n = 1" by (simp_all add: n new_note_def)
  show "\<exists>d. normalize_draft env (draft_of_create input) = Ok d \<and> n = new_note uuid d now_ms" using d n by blast
qed

lemma create_Err:
  assumes "notes_create env uuid input now_ms db = (Err e, db')"
  shows "fst db' = fst db"
  using assms by (auto simp: notes_create_def u_bind_def [of "u_lift _"] u_lift_def Let_def
    dest!: transaction_Err split: sum.splits prod.splits)

text \<open>The three ways a write of an existing note can end: an error and nothing changed, the note as
  it was and nothing changed, or the next revision written.\<close>

definition rewrote :: "notes_env \<Rightarrow> (note_data \<Rightarrow> note_data \<Rightarrow> bool) \<Rightarrow> i64 \<Rightarrow> string \<Rightarrow> u64 \<Rightarrow> notes_tables \<Rightarrow> (notes_error, note_data) result \<Rightarrow> notes_tables \<Rightarrow> bool" where
  "rewrote env change now_ms i expected t r t' \<longleftrightarrow>
     (\<exists>e. r = Err e \<and> t' = t \<and>
        (\<forall>c. e = NoteConflict c \<longrightarrow> note_at t i = Some (nc_current c) \<and> nc_expected_revision c = expected \<and>
           n_revision (nc_current c) \<noteq> expected)) \<or>
     (\<exists>n. r = Ok n \<and> t' = t \<and> note_at t i = Some n \<and> n_revision n = expected) \<or>
     (\<exists>n cur. r = Ok n \<and> note_at t i = Some cur \<and> n_id n = i \<and> n_revision cur = expected \<and>
        n_revision n = expected + 1 \<and> unat (n_revision n) = unat expected + 1 \<and>
        n_created_at_ms n = n_created_at_ms cur \<and> change cur n \<and> wrote env now_ms t n t')"

lemma note_at_id: "note_at t i = Some n \<Longrightarrow> n_id n = i"
  using note_from_row_Some(1) by (fastforce elim: note_at_SomeD)

lemma update_no_conflict: "update_note n e db \<noteq> (Err (NoteConflict c), db')"
  by (auto simp: update_note_def u_bind_def statement_def u_lift_def revision_to_i64_def nvalidation_def ok_or_def
      split: sum.splits prod.splits option.splits if_splits)

lemma insert_revision_no_conflict: "insert_revision env n recorded db \<noteq> (Err (NoteConflict c), db')"
  by (auto simp: insert_revision_def u_bind_def statement_def u_lift_def revision_to_i64_def nvalidation_def ok_or_def
      split: sum.splits prod.splits option.splits if_splits)

lemma insert_tags_no_conflict: "insert_tags env i tags db \<noteq> (Err (NoteConflict c), db')"
  by (induction env i tags arbitrary: db rule: insert_tags.induct)
     (auto simp: u_bind_def statement_def u_lift_def normalize_tag_key_def nvalidation_def
      split: sum.splits prod.splits option.splits if_splits)

lemma replace_tags_no_conflict: "replace_tags env i tags db \<noteq> (Err (NoteConflict c), db')"
  by (auto simp: replace_tags_def u_bind_def statement_def insert_tags_no_conflict
      split: sum.splits prod.splits option.splits if_splits)

lemma normalize_no_conflict: "normalize_draft env d \<noteq> Err (NoteConflict c)"
proof -
  have "collect_tags env acc tags \<noteq> Err (NoteConflict c)" for acc tags
    by (induction env acc tags rule: collect_tags.induct)
       (auto simp: Let_def nvalidation_def and_then_eq_Err normalize_tag_key_def)
  then show ?thesis by (auto simp: normalize_draft_def nvalidation_def and_then_eq_Err)
qed

text \<open>The early part of both operations: load, compare the revision, stop if nothing changes.\<close>

definition guarded :: "string \<Rightarrow> u64 \<Rightarrow> (note_data \<Rightarrow> note_draft) \<Rightarrow> (note_data \<Rightarrow> bool) \<Rightarrow>
  (note_data \<Rightarrow> (note_data + note_data) notes_stm) \<Rightarrow> note_data notes_stm" where
  "guarded i expected submitted same write =
     transaction_early NotesSql (u_bind (load_note i) (\<lambda>current.
       if n_revision current \<noteq> expected then
         u_lift (Err (NoteConflict \<lparr>nc_expected_revision = expected, nc_current = current, nc_submitted = submitted current\<rparr>))
       else if same current then u_lift (Ok (Inl current))
       else write current))"

lemma set_deleted_guarded:
  "set_deleted env i expected deleted now_ms =
     guarded i expected draft_from_note (\<lambda>cur. n_deleted_at_ms cur = deleted \<or> (deleted \<noteq> None \<and> n_deleted_at_ms cur \<noteq> None))
       (\<lambda>cur. u_bind (u_lift (next_revision (n_revision cur))) (\<lambda>revision.
         let saved = cur\<lparr>n_revision := revision, n_deleted_at_ms := deleted,
               n_updated_at_ms := max now_ms (n_updated_at_ms cur)\<rparr> in
         u_bind (update_note saved expected) (\<lambda>_.
         u_bind (insert_revision env saved now_ms) (\<lambda>_.
         u_lift (Ok (Inr saved))))))"
  unfolding set_deleted_def guarded_def by (rule refl)

lemma guarded_rel:
  assumes "\<And>cur r t db'. notes_ok env t \<Longrightarrow> note_at t i = Some cur \<Longrightarrow> n_revision cur = expected \<Longrightarrow> \<not> same cur \<Longrightarrow>
     \<forall>fs. write cur (t, fs) = (r, db') \<longrightarrow>
       (case r of Inl e \<Rightarrow> (\<forall>c. e \<noteq> NoteConflict c)
        | Inr (Inl _) \<Rightarrow> False
        | Inr (Inr n) \<Rightarrow> n_id n = i \<and> next_revision expected = Ok (n_revision n) \<and>
            n_created_at_ms n = n_created_at_ms cur \<and> change cur n \<and> wrote env now_ms t n (fst db'))"
    and g: "guarded i expected submitted same write db = (r, db')" and ok: "notes_ok env (fst db)"
  shows "rewrote env change now_ms i expected (fst db) r (fst db')"
proof -
  let ?body = "u_bind (load_note i) (\<lambda>current.
       if n_revision current \<noteq> expected then
         u_lift (Err (NoteConflict \<lparr>nc_expected_revision = expected, nc_current = current, nc_submitted = submitted current\<rparr>))
       else if same current then u_lift (Ok (Inl current))
       else write current)"
  have body: "case r of
        Inl e \<Rightarrow> (\<forall>c. e = NoteConflict c \<longrightarrow> note_at t i = Some (nc_current c) \<and> nc_expected_revision c = expected \<and>
           n_revision (nc_current c) \<noteq> expected)
      | Inr (Inl n) \<Rightarrow> note_at t i = Some n \<and> n_revision n = expected
      | Inr (Inr n) \<Rightarrow> (\<exists>cur. note_at t i = Some cur \<and> n_id n = i \<and> n_revision cur = expected \<and>
          next_revision expected = Ok (n_revision n) \<and> n_created_at_ms n = n_created_at_ms cur \<and> change cur n \<and> wrote env now_ms t n (fst db1))"
    if b: "?body (t, fs) = (r, db1)" and t: "notes_ok env t" for t fs r db1
  proof -
    obtain l db2 where Pair: "load_note i (t, fs) = (l, db2)" by (metis surj_pair)
    from stm_relD [OF load_note_rel Pair] have l: "fst db2 = t" "case l of Inl e \<Rightarrow> (\<forall>c. e \<noteq> NoteConflict c) | Inr n \<Rightarrow> note_at t i = Some n"
      by (auto split: sum.splits)
    show ?thesis
    proof (cases l)
      case (Inl e)
      then show ?thesis using b l Pair by (auto simp: u_bind_def)
    next
      case (Inr cur)
      then have cur: "note_at t i = Some cur" using l by simp
      obtain fs2 where "db2 = (t, fs2)" using l(1) by (cases db2) auto
      then show ?thesis using b Pair Inr cur assms(1) [OF t cur, of r db1]
        by (auto simp: u_bind_def split: if_splits sum.splits)
    qed
  qed
  have "transaction_early NotesSql ?body db = (r, db')" using g by (simp add: guarded_def)
  then show ?thesis
  proof (cases rule: transaction_early_cases)
    case (early x fs db1)
    then show ?thesis using body [OF early(3) ok] by (auto simp: rewrote_def)
  next
    case (committed x fs fs')
    from body [OF committed(2) ok] obtain cur where "note_at (fst db) i = Some cur" "n_id x = i" "n_revision cur = expected"
      "next_revision expected = Ok (n_revision x)" "n_created_at_ms x = n_created_at_ms cur" "change cur x" "wrote env now_ms (fst db) x (fst db')"
      by auto
    then show ?thesis using committed(1) next_revision_Ok by (auto simp: rewrote_def)
  next
    case (failed e)
    then show ?thesis using body [OF _ ok] by (fastforce simp: rewrote_def)
  qed
qed

lemma rewrite_step:
  assumes "notes_ok env t" "note_at t i = Some cur" "n_revision cur = expected" "n_id n = i"
    "next_revision expected = Ok (n_revision n)" "n_created_at_ms n = n_created_at_ms cur"
    and u: "update_note n expected (t, fs) = (Ok u, db1)" and v: "insert_revision env n now_ms db2 = (Ok v, db3)"
    and tags: "nt_notes (fst db2) = nt_notes (fst db1)" "nt_revisions (fst db2) = nt_revisions (fst db1)"
      "(nt_tags (fst db2) = nt_tags (fst db1) \<and> n_tags n = tags_of i t) \<or>
       (\<exists>keys. tags_normal env (n_tags n) keys \<and>
         nt_tags (fst db2) = filter (\<lambda>r. tg_note_id r \<noteq> i) (nt_tags (fst db1)) @ tag_rows i (n_tags n) keys)"
  shows "wrote env now_ms t n (fst db3)"
proof -
  obtain rn where r1: "i64_of_u64 (n_revision n) = Some rn" "0 < rn" "has_note (n_id n) t"
    "\<forall>r \<in> set (nt_notes t). nw_id r = n_id n \<longrightarrow> nw_revision r < rn"
    "fst db1 = t\<lparr>nt_notes := map (\<lambda>r. if nw_id r = n_id n then note_row_of n rn else r) (nt_notes t)\<rparr>"
    using update_note_rows_Ok [of env t n cur "(t, fs)" u db1] assms(1-6) u by auto
  from insert_revision_Ok [OF v] r1(1) obtain json where "ne_tags_to_json env (n_tags n) = Some json"
    "fst db3 = (fst db2)\<lparr>nt_revisions := nt_revisions (fst db2) @ [revision_row_of n rn json now_ms]\<rparr>" by auto
  then show ?thesis unfolding wrote_def using r1 tags assms(4) by auto
qed

lemma set_deleted_rel:
  assumes "set_deleted env i expected deleted now_ms db = (r, db')" "notes_ok env (fst db)"
  shows "rewrote env (\<lambda>cur n. draft_from_note n = draft_from_note cur) now_ms i expected (fst db) r (fst db')"
proof (rule guarded_rel [OF _ assms(1) [unfolded set_deleted_guarded] assms(2)], intro allI impI)
  fix cur r t db' fs
  assume ok: "notes_ok env t" and cur: "note_at t i = Some cur" "n_revision cur = expected"
    and w: "u_bind (u_lift (next_revision (n_revision cur))) (\<lambda>revision.
         let saved = cur\<lparr>n_revision := revision, n_deleted_at_ms := deleted,
               n_updated_at_ms := max now_ms (n_updated_at_ms cur)\<rparr> in
         u_bind (update_note saved expected) (\<lambda>_.
         u_bind (insert_revision env saved now_ms) (\<lambda>_.
         u_lift (Ok (Inr saved))))) (t, fs) = (r, db')"
  show "case r of Inl e \<Rightarrow> (\<forall>c. e \<noteq> NoteConflict c) | Inr (Inl _) \<Rightarrow> False
        | Inr (Inr n) \<Rightarrow> n_id n = i \<and> next_revision expected = Ok (n_revision n) \<and>
            n_created_at_ms n = n_created_at_ms cur \<and> draft_from_note n = draft_from_note cur \<and> wrote env now_ms t n (fst db')"
  proof (cases r)
    case (Inl e)
    then show ?thesis using w
      by (auto simp: u_bind_def u_lift_def Let_def next_revision_def ok_or_def update_no_conflict insert_revision_no_conflict
          split: sum.splits prod.splits option.splits)
  next
    case (Inr x)
    let ?sv = "\<lambda>revision. cur\<lparr>n_revision := revision, n_deleted_at_ms := deleted, n_updated_at_ms := max now_ms (n_updated_at_ms cur)\<rparr>"
    obtain revision db1 u v where s: "next_revision expected = Ok revision"
      "update_note (?sv revision) expected (t, fs) = (Ok u, db1)" "insert_revision env (?sv revision) now_ms db1 = (Ok v, db')"
      "x = Inr (?sv revision)"
      using w [unfolded Inr Let_def cur(2)] by (elim u_bind_Ok) auto
    define saved where "saved = ?sv revision"
    note s = s [folded saved_def] and n = s(1) saved_def
    have "n_tags saved = tags_of i t" using n(2) cur(1) by (auto elim: note_at_SomeD)
    then have "wrote env now_ms t saved (fst db')"
      using rewrite_step [OF ok cur, of saved fs u db1 now_ms db1 v db'] n s note_at_id [OF cur(1)] by simp
    then show ?thesis using Inr s(4) n note_at_id [OF cur(1)] by (simp add: draft_from_note_def)
  qed
qed

lemma notes_save_guarded:
  "notes_save env input now_ms =
     u_bind (u_lift (normalize_draft env (s_draft input))) (\<lambda>submitted.
       guarded (s_id input) (s_expected_revision input) (\<lambda>_. submitted) (\<lambda>cur. same_draft cur submitted)
       (\<lambda>cur. u_bind (u_lift (next_revision (n_revision cur))) (\<lambda>revision.
         let saved = saved_note cur submitted revision now_ms in
         u_bind (update_note saved (s_expected_revision input)) (\<lambda>_.
         u_bind (replace_tags env (n_id saved) (n_tags saved)) (\<lambda>_.
         u_bind (insert_revision env saved now_ms) (\<lambda>_.
         u_lift (Ok (Inr saved))))))))"
  unfolding notes_save_def guarded_def by (rule refl)

lemma notes_save_rel:
  assumes "notes_save env input now_ms db = (r, db')" "notes_ok env (fst db)"
  shows "rewrote env (\<lambda>cur n. normalize_draft env (s_draft input) = Ok (draft_from_note n)) now_ms (s_id input) (s_expected_revision input) (fst db) r (fst db')"
proof (cases "normalize_draft env (s_draft input)")
  case (Inl e)
  then have "r = Err e" "db' = db" using assms(1) by (simp_all add: notes_save_def u_bind_def u_lift_def)
  moreover have "e \<noteq> NoteConflict c" for c using Inl normalize_no_conflict by metis
  ultimately show ?thesis by (simp add: rewrote_def)
next
  case (Inr d)
  note norm = Inr
  let ?i = "s_id input" and ?e = "s_expected_revision input"
  obtain keys where keys: "tags_normal env (d_tags d) keys" using normalize_draft_Ok [OF Inr] by metis
  have g: "guarded ?i ?e (\<lambda>_. d) (\<lambda>cur. same_draft cur d)
       (\<lambda>cur. u_bind (u_lift (next_revision (n_revision cur))) (\<lambda>revision.
         let saved = saved_note cur d revision now_ms in
         u_bind (update_note saved ?e) (\<lambda>_.
         u_bind (replace_tags env (n_id saved) (n_tags saved)) (\<lambda>_.
         u_bind (insert_revision env saved now_ms) (\<lambda>_.
         u_lift (Ok (Inr saved))))))) db = (r, db')"
    using assms(1) Inr by (simp add: notes_save_guarded u_bind_def [of "u_lift _"] u_lift_def)
  show ?thesis
  proof (rule guarded_rel [OF _ g assms(2)], intro allI impI)
    fix cur r t db' fs
    assume ok: "notes_ok env t" and cur: "note_at t ?i = Some cur" "n_revision cur = ?e"
      and w: "u_bind (u_lift (next_revision (n_revision cur))) (\<lambda>revision.
         let saved = saved_note cur d revision now_ms in
         u_bind (update_note saved ?e) (\<lambda>_.
         u_bind (replace_tags env (n_id saved) (n_tags saved)) (\<lambda>_.
         u_bind (insert_revision env saved now_ms) (\<lambda>_.
         u_lift (Ok (Inr saved)))))) (t, fs) = (r, db')"
    show "case r of Inl e \<Rightarrow> (\<forall>c. e \<noteq> NoteConflict c) | Inr (Inl _) \<Rightarrow> False
        | Inr (Inr n) \<Rightarrow> n_id n = ?i \<and> next_revision ?e = Ok (n_revision n) \<and>
            n_created_at_ms n = n_created_at_ms cur \<and> normalize_draft env (s_draft input) = Ok (draft_from_note n) \<and> wrote env now_ms t n (fst db')"
    proof (cases r)
      case (Inl e)
      then show ?thesis using w
        by (auto simp: u_bind_def u_lift_def Let_def next_revision_def ok_or_def update_no_conflict insert_revision_no_conflict
            replace_tags_no_conflict split: sum.splits prod.splits option.splits)
    next
      case (Inr x)
      obtain revision db1 db2 u v y where s: "next_revision ?e = Ok revision"
        "update_note (saved_note cur d revision now_ms) ?e (t, fs) = (Ok u, db1)"
        "replace_tags env (n_id (saved_note cur d revision now_ms)) (n_tags (saved_note cur d revision now_ms)) db1 = (Ok y, db2)"
        "insert_revision env (saved_note cur d revision now_ms) now_ms db2 = (Ok v, db')"
        "x = Inr (saved_note cur d revision now_ms)"
        using w [unfolded Inr Let_def cur(2)] by (elim u_bind_Ok) auto
      define saved where "saved = saved_note cur d revision now_ms"
      note s = s [folded saved_def]
      have n: "n_id saved = ?i" "n_revision saved = revision" "n_tags saved = d_tags d" "n_created_at_ms saved = n_created_at_ms cur"
        using note_at_id [OF cur(1)] by (simp_all add: saved_def saved_note_def)
      have "fst db2 = (fst db1)\<lparr>nt_tags := filter (\<lambda>r. tg_note_id r \<noteq> ?i) (nt_tags (fst db1)) @ tag_rows ?i (d_tags d) keys\<rparr>"
        using replace_tags_Ok [OF s(3)] keys n by (simp add: tags_normal_def)
      then have "wrote env now_ms t saved (fst db')"
        using rewrite_step [OF ok cur n(1) _ n(4) s(2) s(4)] s(1) n keys by auto
      moreover have "draft_from_note saved = d" by (simp add: saved_def saved_note_def draft_from_note_def)
      ultimately show ?thesis using Inr s n norm by simp
    qed
  qed
qed

end
