(* ===== verification/Notes_History.thy ===== *)
theory Notes_History
  imports Notes_Repository
begin

text \<open>
  What callers of the notes repository can rely on over any sequence of calls with any statement
  failing: a write is atomic and reads back as returned, two writers on the same revision never
  overwrite each other, the newest entry of a note's history is the note, and retention removes
  exactly the notes and revisions its policy names.
\<close>

section \<open>Retention keeps the invariant\<close>

lemma tags_of_filter:
  "P i \<Longrightarrow> tags_of i (t\<lparr>nt_notes := a, nt_revisions := b, nt_tags := filter (\<lambda>r. P (tg_note_id r)) (nt_tags t)\<rparr>) = tags_of i t"
  unfolding tags_of_def by (auto intro!: arg_cong [of _ _ "\<lambda>rs. map tg_display_tag (sort_key tg_tag_key rs)"] filter_cong)

lemma purge_ok:
  assumes "notes_ok env t" "purge_notes before t = Some (k, t')"
  shows "notes_ok env t'"
proof -
  let ?gone = "\<lambda>r. is_some_and (nw_deleted_at_ms r) (\<lambda>d. d \<le> before)"
  let ?ids = "map nw_id (filter ?gone (nt_notes t))"
  have t': "t' = t\<lparr>nt_notes := filter (\<lambda>r. \<not> ?gone r) (nt_notes t),
             nt_revisions := filter (\<lambda>r. rv_note_id r \<notin> set ?ids) (nt_revisions t),
             nt_tags := filter (\<lambda>r. tg_note_id r \<notin> set ?ids) (nt_tags t)\<rparr>"
    using assms(2) by (simp add: purge_notes_def Let_def)
  have keep: "has_note i t' \<longleftrightarrow> has_note i t \<and> i \<notin> set ?ids" for i
  proof -
    have "inj_on nw_id (set (nt_notes t))" using assms(1) by (simp add: notes_ok_def distinct_map)
    then show ?thesis unfolding t' has_note_iff by (auto dest: inj_onD)
  qed
  have alive: "nw_id q \<notin> set ?ids" if "q \<in> set (nt_notes t')" for q
    using that keep by (metis has_note_iff imageI)
  have "note_row_ok env t' q" if q: "q \<in> set (nt_notes t')" for q
  proof -
    have "tags_of (nw_id q) t' = tags_of (nw_id q) t"
      unfolding t' using alive [OF q] by (intro tags_of_filter [of "\<lambda>i. i \<notin> set ?ids"])
    then have rec: "records_note env t' q r = records_note env t q r" for r by (simp add: records_note_def)
    have "note_row_ok env t q" using assms(1) q by (auto simp: t' notes_ok_def)
    moreover have "r \<in> set (nt_revisions t')" if "r \<in> set (nt_revisions t)" "rv_note_id r = nw_id q" for r
      using that alive [OF q] by (auto simp: t')
    moreover have "r \<in> set (nt_revisions t)" if "r \<in> set (nt_revisions t')" for r using that by (simp add: t')
    moreover have "rv_note_id r = nw_id q" if "records_note env t q r" for r using that by (simp add: records_note_def)
    ultimately show ?thesis unfolding note_row_ok_def rec by metis
  qed
  then show ?thesis using assms(1) keep
    unfolding notes_ok_def revision_row_ok_def by (auto simp: t' distinct_map_filter)
qed

lemma prune_ok:
  assumes ok: "notes_ok env t" and "prune_revisions before keep t = Some (k, t')" "1 \<le> keep"
  shows "notes_ok env t'"
proof -
  let ?rows = "nt_revisions t"
  have t': "t' = t\<lparr>nt_revisions := filter (\<lambda>r. \<not> prunable before keep ?rows r) ?rows\<rparr>"
    using assms(2) by (simp add: prune_revisions_def Let_def)
  have tags: "tags_of i t' = tags_of i t" "has_note i t' = has_note i t" for i by (simp_all add: t' tags_of_def has_note_def)
  have "note_row_ok env t' q" if q: "q \<in> set (nt_notes t)" for q
  proof -
    have "note_row_ok env t q" using ok q by (simp add: notes_ok_def)
    then obtain r where r: "r \<in> set ?rows" "records_note env t q r" "\<forall>p \<in> set ?rows. rv_note_id p = nw_id q \<longrightarrow> rv_revision p \<le> nw_revision q"
      by (auto simp: note_row_ok_def)
    then have "filter (\<lambda>p. rv_note_id p = rv_note_id r \<and> rv_revision r < rv_revision p) ?rows = []"
      by (auto simp: filter_empty_conv records_note_def)
    then have "\<not> prunable before keep ?rows r" using assms(3) by (simp add: prunable_def revision_position_def)
    then show ?thesis using \<open>note_row_ok env t q\<close> r(1,2) tags
      by (auto simp: t' note_row_ok_def records_note_def)
  qed
  then show ?thesis using ok tags
    unfolding notes_ok_def revision_row_ok_def by (auto simp: t' distinct_map_filter)
qed

lemma retention_keeps: "keeps (notes_ok env) (notes_retention policy)"
proof (cases "keep_latest_revisions policy = 0")
  case False
  then have "1 \<le> unat (keep_latest_revisions policy)" by (simp add: Suc_le_eq unat_gt_0)
  then have "keeps (notes_ok env) (case prune_revisions_before_ms policy of None \<Rightarrow> u_lift (Ok 0)
      | Some before \<Rightarrow> nsql (prune_revisions before (unat (keep_latest_revisions policy))))"
    by (cases "prune_revisions_before_ms policy") (auto intro!: keeps_sql intro: prune_ok)
  moreover have "keeps (notes_ok env) (case purge_deleted_before_ms policy of None \<Rightarrow> u_lift (Ok 0) | Some before \<Rightarrow> nsql (purge_notes before))"
    by (cases "purge_deleted_before_ms policy") (auto intro!: keeps_sql intro: purge_ok)
  ultimately show ?thesis using False unfolding notes_retention_def
    by (simp only: if_False) (intro keeps_transaction keeps_bind keeps_lift)
qed (simp add: notes_retention_def)

section \<open>Sequences of calls\<close>

datatype notes_write =
    WriteCreate string create_note i64
  | WriteSave save_note i64
  | WriteDelete string u64 i64
  | WriteRestore string u64 i64

fun run_write :: "notes_env \<Rightarrow> notes_write \<Rightarrow> note_data notes_stm" where
  "run_write env (WriteCreate uuid input now_ms) = notes_create env uuid input now_ms"
| "run_write env (WriteSave input now_ms) = notes_save env input now_ms"
| "run_write env (WriteDelete i expected now_ms) = soft_delete env i expected now_ms"
| "run_write env (WriteRestore i expected now_ms) = notes_restore env i expected now_ms"

text \<open>The note and the revision a write of an existing note names.\<close>

fun write_target :: "notes_write \<Rightarrow> (string \<times> u64) option" where
  "write_target (WriteCreate _ _ _) = None"
| "write_target (WriteSave input _) = Some (s_id input, s_expected_revision input)"
| "write_target (WriteDelete i expected _) = Some (i, expected)"
| "write_target (WriteRestore i expected _) = Some (i, expected)"

datatype notes_call = CallWrite notes_write | CallRetention note_retention_policy

fun run_calls :: "notes_env \<Rightarrow> notes_call list \<Rightarrow> notes_tables handle \<Rightarrow> notes_tables handle" where
  "run_calls env [] db = db"
| "run_calls env (CallWrite w # cs) db = run_calls env cs (snd (run_write env w db))"
| "run_calls env (CallRetention p # cs) db = run_calls env cs (snd (notes_retention p db))"

text \<open>The tables of a database that was empty at first, after any calls with any failures.\<close>

definition notes_reached :: "notes_env \<Rightarrow> notes_tables \<Rightarrow> bool" where
  "notes_reached env t \<longleftrightarrow> (\<exists>calls fs. t = fst (run_calls env calls (empty_notes, fs)))"

text \<open>What a write does to the text of a note: \<open>save\<close> stores the normalised draft, the deletion
  mark changes nothing of it.\<close>

fun write_change :: "notes_env \<Rightarrow> notes_write \<Rightarrow> note_data \<Rightarrow> note_data \<Rightarrow> bool" where
  "write_change env (WriteSave input _) = (\<lambda>cur n. normalize_draft env (s_draft input) = Ok (draft_from_note n))"
| "write_change env _ = (\<lambda>cur n. draft_from_note n = draft_from_note cur)"

lemma run_write_target:
  "write_target w = Some (i, expected) \<Longrightarrow> run_write env w db = (r, db') \<Longrightarrow> notes_ok env (fst db) \<Longrightarrow>
   \<exists>now_ms. rewrote env (write_change env w) now_ms i expected (fst db) r (fst db')"
  by (cases w) (auto simp: soft_delete_def notes_restore_def dest: notes_save_rel set_deleted_rel)

lemma run_write_cases [consumes 2, case_names failed same written]:
  assumes "run_write env w db = (r, db')" "notes_ok env (fst db)"
  obtains (failed) e where "r = Err e" "fst db' = fst db"
  | (same) n where "r = Ok n" "fst db' = fst db" "note_at (fst db) (n_id n) = Some n"
  | (written) n now_ms where "r = Ok n" "wrote env now_ms (fst db) n (fst db')"
proof (cases "write_target w")
  case None
  then obtain uuid input now_ms where w: "w = WriteCreate uuid input now_ms" by (cases w) auto
  show ?thesis
  proof (cases r)
    case (Inl e)
    then show ?thesis using failed assms(1) create_Err by (simp add: w)
  next
    case (Inr n)
    then show ?thesis using written [OF Inr] assms(1) create_Ok(1) unfolding w run_write.simps by blast
  qed
next
  case (Some p)
  then obtain now_ms where "rewrote env (write_change env w) now_ms (fst p) (snd p) (fst db) r (fst db')"
    using run_write_target [OF _ assms] by (metis prod.collapse)
  then consider e where "r = Err e" "fst db' = fst db"
    | n where "r = Ok n" "fst db' = fst db" "note_at (fst db) (fst p) = Some n"
    | n where "r = Ok n" "wrote env now_ms (fst db) n (fst db')"
    unfolding rewrote_def by blast
  then show ?thesis
  proof cases
    case (1 e)
    then show ?thesis by (rule failed)
  next
    case (2 n)
    then have "note_at (fst db) (n_id n) = Some n" using note_at_id [OF 2(3)] by simp
    then show ?thesis by (rule same [OF 2(1,2)])
  next
    case (3 n)
    then show ?thesis by (rule written)
  qed
qed

lemma run_write_keeps: "keeps (notes_ok env) (run_write env w)"
  unfolding stm_rel_def by (metis run_write_cases wrote_ok)

lemma run_calls_keeps: "notes_ok env (fst db) \<Longrightarrow> notes_ok env (fst (run_calls env calls db))"
proof (induction env calls db rule: run_calls.induct)
  case (2 env w cs db)
  then show ?case using stm_relD [OF run_write_keeps, of env w db "fst (run_write env w db)"] by simp
next
  case (3 env p cs db)
  then show ?case using stm_relD [OF retention_keeps, of p db "fst (notes_retention p db)"] by simp
qed simp

lemma notes_reached_ok: "notes_reached env t \<Longrightarrow> notes_ok env t"
  unfolding notes_reached_def using run_calls_keeps notes_ok_empty by fastforce

section \<open>Reading a reached database\<close>

lemma note_row_decodes:
  assumes "note_row_ok env t q"
  obtains n where "note_from_row q = Some n" "i64_of_u64 (n_revision n) = Some (nw_revision q)"
proof -
  obtain st where "nw_status q = status_as_str st" using assms by (auto simp: note_row_ok_def status_allowed_parse)
  moreover have "u64_of_i64 (nw_revision q) = Some (word_of_int (nw_revision q))" "nw_revision q \<le> i64_max"
    using assms by (auto simp: u64_of_i64_def note_row_ok_def)
  ultimately show ?thesis using that i64_of_u64_of_i64 by (auto simp: note_from_row_def)
qed

lemma get_run:
  assumes "notes_ok env t"
  shows "notes_get i (t, []) = (case note_at t i of None \<Rightarrow> Err (NoteNotFound i) | Some n \<Rightarrow> Ok n, (t, []))"
proof (cases "find (\<lambda>r. nw_id r = i) (nt_notes t)")
  case None
  then show ?thesis
    by (simp add: notes_get_def load_note_def u_bind_def statement_run select_note_def note_at_def u_lift_def)
next
  case (Some q)
  then have "note_row_ok env t q" using assms by (auto simp: notes_ok_def find_Some_iff)
  then obtain n where "note_from_row q = Some n" by (rule note_row_decodes)
  then have "note_at t i = Some (n\<lparr>n_tags := tags_of i t\<rparr>)" using Some by (simp add: note_at_def)
  then show ?thesis by (simp add: notes_get_def load_note_run)
qed

lemma collect_rows_map:
  "(\<And>r. r \<in> set rs \<Longrightarrow> f r = Some (g r)) \<Longrightarrow> collect_rows f rs = Some (map g rs)"
  by (induction rs) auto

definition codec_ok :: "notes_env \<Rightarrow> bool" where
  "codec_ok env \<longleftrightarrow> (\<forall>tags json. ne_tags_to_json env tags = Some json \<longrightarrow> ne_tags_from_json env json = Some tags)"

lemma revision_row_decodes:
  assumes "codec_ok env" "revision_row_ok env t r" "rv_revision r \<le> i64_max"
  obtains v where "revision_from_row env r = Some v" "i64_of_u64 (n_revision (nr_note v)) = Some (rv_revision r)"
proof -
  obtain st where "rv_status r = status_as_str st" using assms(2) by (auto simp: revision_row_ok_def status_allowed_parse)
  moreover obtain tags where "ne_tags_from_json env (rv_tags_json r) = Some tags"
    using assms by (auto simp: revision_row_ok_def codec_ok_def)
  moreover have "u64_of_i64 (rv_revision r) = Some (word_of_int (rv_revision r))"
    using assms(2) by (simp add: u64_of_i64_def revision_row_ok_def)
  ultimately show ?thesis using that i64_of_u64_of_i64 assms(3) by (auto simp: revision_from_row_def)
qed

lemma revision_of_record:
  assumes "codec_ok env" "records_note env t q r" "note_from_row q = Some n"
  shows "revision_from_row env r =
    Some \<lparr>nr_note = n\<lparr>n_tags := tags_of (nw_id q) t\<rparr>, nr_recorded_at_ms = rv_recorded_at_ms r\<rparr>"
  using assms by (auto simp: records_note_def codec_ok_def revision_from_row_def note_from_row_def split: option.splits)

lemma newest_row:
  assumes "notes_ok env t" "q \<in> set (nt_notes t)" "r \<in> set (nt_revisions t)" "records_note env t q r"
  defines "rows \<equiv> rev (sort_key rv_revision (filter (\<lambda>p. rv_note_id p = nw_id q) (nt_revisions t)))"
  shows "sorted_wrt (>) (map rv_revision rows)" "rows \<noteq> []" "hd rows = r"
proof -
  let ?rs = "filter (\<lambda>p. rv_note_id p = nw_id q) (nt_revisions t)"
  have "distinct (map (\<lambda>p. (rv_note_id p, rv_revision p)) ?rs)"
    using assms(1) by (auto simp: notes_ok_def intro: distinct_map_filter)
  then have "distinct (map rv_revision ?rs)" by (auto simp: distinct_map inj_on_def)
  then have "distinct (map rv_revision (sort_key rv_revision ?rs))" by (simp add: distinct_map)
  then have "sorted_wrt (<) (map rv_revision (sort_key rv_revision ?rs))"
    by (simp add: strict_sorted_iff)
  then show s: "sorted_wrt (>) (map rv_revision rows)" by (simp add: rows_def rev_map [symmetric] sorted_wrt_rev)
  have r: "r \<in> set rows" "rv_revision r = nw_revision q" using assms(3,4) by (auto simp: rows_def records_note_def)
  then show "rows \<noteq> []" by auto
  then obtain h rest where h: "rows = h # rest" by (cases rows) auto
  then have "h \<in> set rows" by simp
  then have "h \<in> set (nt_revisions t)" "rv_note_id h = nw_id q" by (auto simp: rows_def)
  then have "rv_revision h \<le> nw_revision q" using assms(1,2) by (auto simp: notes_ok_def note_row_ok_def)
  then show "hd rows = r" using s r by (auto simp: h)
qed

lemma revision_less:
  "i64_of_u64 (a :: u64) = Some x \<Longrightarrow> i64_of_u64 b = Some y \<Longrightarrow> a < b \<longleftrightarrow> x < y"
  by (auto simp: i64_of_u64_def word_less_def split: if_splits)

text \<open>C16: The newest revision is the note: in a database reached from the empty one by any calls, with
  any statement failing, a note that \<open>get\<close> returns has a history that \<open>revisions\<close> returns without
  error, newest first with strictly falling numbers, and its first entry is that note, tags
  included, whatever retention has removed. The parameter is the JSON text of the tags, which
  parses back.
\<close>

theorem newest_revision_is_note:
  assumes "codec_ok env" "notes_reached env t" "notes_get i (t, []) = (Ok n, (t, []))"
  shows "\<exists>rs. notes_revisions env i (t, []) = (Ok rs, (t, [])) \<and> rs \<noteq> [] \<and> nr_note (hd rs) = n \<and>
    sorted_wrt (>) (map (\<lambda>v. n_revision (nr_note v)) rs)"
proof -
  have ok: "notes_ok env t" using assms(2) by (rule notes_reached_ok)
  have n: "note_at t i = Some n" using assms(3) get_run [OF ok, of i] by (auto split: option.splits)
  obtain q where q: "q \<in> set (nt_notes t)" "nw_id q = i" "note_from_row q = Some (n\<lparr>n_tags := []\<rparr>)" "n_tags n = tags_of i t"
    using note_at_SomeD [OF n] by metis
  have qok: "note_row_ok env t q" using ok q(1) by (simp add: notes_ok_def)
  then obtain r where r: "r \<in> set (nt_revisions t)" "records_note env t q r" by (auto simp: note_row_ok_def)
  define rows where "rows = rev (sort_key rv_revision (filter (\<lambda>p. rv_note_id p = i) (nt_revisions t)))"
  note rows = newest_row [OF ok q(1) r, unfolded q(2), folded rows_def]
  have dec: "\<exists>v. revision_from_row env p = Some v \<and> i64_of_u64 (n_revision (nr_note v)) = Some (rv_revision p)"
    if "p \<in> set rows" for p
  proof -
    have p: "p \<in> set (nt_revisions t)" "rv_note_id p = i" using that by (auto simp: rows_def)
    then have "revision_row_ok env t p" "rv_revision p \<le> i64_max"
      using ok qok q(2) by (auto simp: notes_ok_def note_row_ok_def)
    then show ?thesis using revision_row_decodes assms(1) by metis
  qed
  define g where "g = (\<lambda>p. the (revision_from_row env p))"
  have g: "revision_from_row env p = Some (g p)" "i64_of_u64 (n_revision (nr_note (g p))) = Some (rv_revision p)"
    if "p \<in> set rows" for p using dec [OF that] by (auto simp: g_def)
  have "collect_rows (revision_from_row env) rows = Some (map g rows)" using g(1) by (rule collect_rows_map)
  moreover have "has_note i t" using q(1,2) unfolding has_note_iff by (metis imageI)
  ultimately have run: "notes_revisions env i (t, []) = (Ok (map g rows), (t, []))"
    by (simp add: notes_revisions_def note_exists_def u_bind_def statement_run rows_def [symmetric])
  have "nr_note (g r) = n"
    using revision_of_record [OF assms(1) r(2) q(3)] g_def q(2,4) by simp
  moreover have "sorted_wrt (\<lambda>p p'. n_revision (nr_note (g p')) < n_revision (nr_note (g p))) rows"
    using rows(1) unfolding sorted_wrt_map by (rule sorted_wrt_mono_rel [rotated]) (simp add: revision_less [OF g(2) g(2)])
  ultimately show ?thesis using run rows(2,3)
    by (intro exI [of _ "map g rows"]) (simp add: hd_map sorted_wrt_map)
qed

text \<open>C18: A write is atomic and read back exactly: whatever statement fails, \<open>create\<close>, \<open>save\<close>,
  \<open>soft_delete\<close> and \<open>restore\<close> either return an error and leave every table as it was, or return a
  note that \<open>get\<close> then returns as it is, tags and their order included, while \<open>get\<close> of every other
  id answers as before.
\<close>

theorem note_write_exact:
  assumes "notes_reached env t" "run_write env w (t, fs) = (r, (t', fs'))"
  shows "case r of
      Inl e \<Rightarrow> t' = t
    | Inr n \<Rightarrow> \<forall>i. notes_get i (t', []) = (if i = n_id n then Ok n else fst (notes_get i (t, [])), (t', []))"
proof -
  have ok: "notes_ok env t" using assms(1) by (rule notes_reached_ok)
  have "notes_ok env (fst (t, fs))" using ok by simp
  with assms(2) show ?thesis
  proof (cases rule: run_write_cases)
    case (same n)
    then show ?thesis by (auto simp: get_run [OF ok])
  next
    case (written n now_ms)
    then have "notes_ok env t'" "note_at t' = (note_at t)(n_id n \<mapsto> n)"
      using wrote_ok [OF ok] wrote_note_at by auto
    then show ?thesis using written by (auto simp: get_run [OF ok] get_run [of env t'])
  qed simp
qed

lemma load_note_stored:
  assumes "note_at t i = Some n" "load_note i (t, fs) = (r, db')"
  shows "fst db' = t \<and> (r = Ok n \<or> r = Err NotesSql \<and> True \<in> set fs)"
  using assms
  by (cases fs; cases "tl fs")
     (auto simp: load_note_def load_tags_def u_bind_def statement_def u_lift_def select_note_def note_at_def ok_or_def
       split: if_splits option.splits)

lemma guarded_conflict:
  assumes "note_at t i = Some cur" "n_revision cur \<noteq> expected" "guarded i expected submitted same write (t, fs) = (r, db')"
  shows "fst db' = t \<and>
    (r = Err (NoteConflict \<lparr>nc_expected_revision = expected, nc_current = cur, nc_submitted = submitted cur\<rparr>) \<or>
     r = Err NotesSql \<and> True \<in> set fs)"
proof -
  obtain l db1 where l: "load_note i (t, tl fs) = (l, db1)" by (meson surj_pair)
  from load_note_stored [OF assms(1) this] have "l = Ok cur \<or> l = Err NotesSql \<and> True \<in> set fs"
    by (cases fs) auto
  then show ?thesis using assms(2,3) l
    by (cases fs; cases "hd fs") (auto simp: guarded_def transaction_early_def u_bind_def statement_def u_lift_def)
qed

text \<open>The draft a write submits, which a conflict gives back.\<close>

fun submitted_draft :: "notes_env \<Rightarrow> notes_write \<Rightarrow> note_data \<Rightarrow> (notes_error, note_draft) result" where
  "submitted_draft env (WriteSave input _) cur = normalize_draft env (s_draft input)"
| "submitted_draft env _ cur = Ok (draft_from_note cur)"

lemma stale_write:
  assumes "write_target w = Some (i, e)" "note_at t i = Some cur" "n_revision cur \<noteq> e" "run_write env w (t, fs) = (r, db')"
  shows "fst db' = t \<and> (case submitted_draft env w cur of
      Inl v \<Rightarrow> r = Err v
    | Inr d \<Rightarrow> r = Err (NoteConflict \<lparr>nc_expected_revision = e, nc_current = cur, nc_submitted = d\<rparr>) \<or>
        r = Err NotesSql \<and> True \<in> set fs)"
proof (cases w)
  case (WriteSave input now_ms)
  show ?thesis
  proof (cases "normalize_draft env (s_draft input)")
    case (Inl v)
    then show ?thesis using WriteSave assms(4) by (auto simp: notes_save_def u_bind_def u_lift_def)
  next
    case (Inr d)
    then have "\<exists>write. guarded i e (\<lambda>_. d) (\<lambda>c. same_draft c d) write (t, fs) = (r, db')"
      using WriteSave assms(1,4) by (auto simp: notes_save_def guarded_def u_bind_def [of "u_lift _"] u_lift_def)
    then show ?thesis using guarded_conflict [OF assms(2,3)] WriteSave Inr by fastforce
  qed
qed (use assms guarded_conflict [OF assms(2,3)] in
    \<open>auto simp: soft_delete_def notes_restore_def set_deleted_guarded\<close>)

text \<open>A write never lowers the revision of a note, and never removes one.\<close>

lemma wrote_revision:
  assumes "notes_ok env t" "wrote env recorded t n t'" "note_at t (n_id n) = Some a"
  shows "unat (n_revision a) < unat (n_revision n)"
proof -
  obtain q where q: "q \<in> set (nt_notes t)" "nw_id q = n_id n" "note_from_row q = Some (a\<lparr>n_tags := []\<rparr>)"
    using assms(3) by (rule note_at_SomeD)
  then have "u64_of_i64 (nw_revision q) = Some (n_revision a)"
    using note_from_row_Some(10) [OF q(3)] by simp
  moreover have "has_note (n_id n) t" using q(1,2) unfolding has_note_iff by (metis imageI)
  then obtain rn where "i64_of_u64 (n_revision n) = Some rn" "nw_revision q < rn"
    using assms(2) q by (auto simp: wrote_def)
  ultimately have rows: "i64_of_u64 (n_revision a) = Some (nw_revision q)"
    using i64_of_u64_of_i64 [of "nw_revision q"] by (simp add: i64_of_u64_def split: if_splits)
  with \<open>i64_of_u64 (n_revision n) = Some rn\<close> \<open>nw_revision q < rn\<close> show ?thesis
    by (auto simp: i64_of_u64_def word_less_nat_alt [symmetric] word_less_def split: if_splits)
qed

lemma run_write_revision:
  assumes "notes_ok env (fst db)" "note_at (fst db) i = Some a" "run_write env w db = (r, db')"
  shows "\<exists>b. note_at (fst db') i = Some b \<and> unat (n_revision a) \<le> unat (n_revision b)"
  using assms(3,1)
proof (cases rule: run_write_cases)
  case (written n now_ms)
  then show ?thesis using wrote_note_at [OF written(2)] wrote_revision [OF assms(1) written(2)] assms(2)
    by (cases "n_id n = i") (auto simp: less_imp_le)
qed (use assms(2) in auto)

lemma run_writes_revision:
  assumes "notes_ok env (fst db)" "note_at (fst db) i = Some a"
  shows "\<exists>b. note_at (fst (run_calls env (map CallWrite ws) db)) i = Some b \<and>
    unat (n_revision a) \<le> unat (n_revision b)"
  using assms
proof (induction ws arbitrary: db a)
  case (Cons w ws)
  obtain r db' where w: "run_write env w db = (r, db')" by (meson surj_pair)
  have "notes_ok env (fst db')" using stm_relD [OF run_write_keeps w] Cons.prems(1) by simp
  then show ?case using run_write_revision [OF Cons.prems w] Cons.IH [of db'] w by fastforce
qed auto

text \<open>C17: No write is lost: when a write of a note on revision e has changed the tables, every write
  that names the same note and the same revision e, right after it or after any other writes,
  changes nothing and gets the conflict that carries the note as it is stored, with a higher revision
  than e, and the draft it submitted. The only other answers are the error of a draft that is invalid
  in itself, and the database error when one of its own statements fails.
\<close>

theorem no_lost_note_write:
  assumes "notes_reached env t" "run_write env w (t, fs) = (Ok n, (t1, fs1))" "t1 \<noteq> t"
    "write_target w = Some (i, e)" "write_target w' = Some (i, e)"
    "run_calls env (map CallWrite ws) (t1, gs) = (t2, gs')" "run_write env w' (t2, hs) = (r, (t3, hs'))"
  shows "t3 = t2 \<and> (\<exists>cur. notes_get i (t2, []) = (Ok cur, (t2, [])) \<and> unat e < unat (n_revision cur) \<and>
    (ws = [] \<longrightarrow> cur = n) \<and>
    (case submitted_draft env w' cur of
       Inl v \<Rightarrow> r = Err v
     | Inr d \<Rightarrow> r = Err (NoteConflict \<lparr>nc_expected_revision = e, nc_current = cur, nc_submitted = d\<rparr>) \<or>
         r = Err NotesSql \<and> True \<in> set hs))"
proof -
  have ok: "notes_ok env t" using assms(1) by (rule notes_reached_ok)
  obtain now_ms where "rewrote env (write_change env w) now_ms i e t (Ok n) t1" using run_write_target [OF assms(4,2)] ok by auto
  then have n: "n_id n = i" "unat (n_revision n) = unat e + 1" "wrote env now_ms t n t1"
    using assms(3) by (auto simp: rewrote_def)
  have t1: "notes_ok env t1" "note_at t1 i = Some n" using wrote_ok [OF ok n(3)] wrote_note_at [OF n(3)] n(1) by auto
  have t2: "notes_ok env t2" using run_calls_keeps [of env "(t1, gs)" "map CallWrite ws"] t1(1) assms(6) by simp
  obtain cur where cur: "note_at t2 i = Some cur" "unat (n_revision n) \<le> unat (n_revision cur)"
    using run_writes_revision [of env "(t1, gs)" i n ws] t1 assms(6) by auto
  have "ws = [] \<longrightarrow> cur = n" using t1(2) cur(1) assms(6) by auto
  moreover have "unat e < unat (n_revision cur)" using n(2) cur(2) by simp
  moreover have "n_revision cur \<noteq> e" using calculation(2) by auto
  ultimately show ?thesis using stale_write [OF assms(5) cur(1) _ assms(7)] get_run [OF t2, of i] cur(1) by auto
qed

section \<open>What retention removes\<close>

lemma retention_Ok:
  assumes "notes_retention policy (t, fs) = (Ok res, (t', fs'))"
  obtains t1 where
    "case purge_deleted_before_ms policy of None \<Rightarrow> t1 = t \<and> purged_notes res = 0
       | Some before \<Rightarrow> purge_notes before t = Some (purged_notes res, t1)"
    "case prune_revisions_before_ms policy of None \<Rightarrow> t' = t1 \<and> pruned_revisions res = 0
       | Some before \<Rightarrow> prune_revisions before (unat (keep_latest_revisions policy)) t1 = Some (pruned_revisions res, t')"
proof -
  let ?p1 = "case purge_deleted_before_ms policy of None \<Rightarrow> u_lift (Ok 0) | Some before \<Rightarrow> nsql (purge_notes before)"
  let ?p2 = "case prune_revisions_before_ms policy of None \<Rightarrow> u_lift (Ok 0)
      | Some before \<Rightarrow> nsql (prune_revisions before (unat (keep_latest_revisions policy)))"
  obtain gs gs' where body: "u_bind ?p1 (\<lambda>purged. u_bind ?p2 (\<lambda>pruned.
        u_lift (Ok \<lparr>purged_notes = purged, pruned_revisions = pruned\<rparr>))) (t, gs) = (Ok res, (t', gs'))"
    using assms by (auto simp: notes_retention_def split: if_splits elim: transaction_Ok)
  then obtain a b db1 where s: "?p1 (t, gs) = (Ok a, db1)" "?p2 db1 = (Ok b, (t', gs'))" "res = \<lparr>purged_notes = a, pruned_revisions = b\<rparr>"
    by (elim u_bind_Ok) auto
  have "case purge_deleted_before_ms policy of None \<Rightarrow> fst db1 = t \<and> purged_notes res = 0
       | Some before \<Rightarrow> purge_notes before t = Some (purged_notes res, fst db1)"
    using s(1,3) by (auto split: option.splits dest!: statement_Ok)
  moreover have "case prune_revisions_before_ms policy of None \<Rightarrow> t' = fst db1 \<and> pruned_revisions res = 0
       | Some before \<Rightarrow> prune_revisions before (unat (keep_latest_revisions policy)) (fst db1) = Some (pruned_revisions res, t')"
    using s(2,3) by (auto split: option.splits dest!: statement_Ok)
  ultimately show ?thesis by (rule that)
qed

definition purged :: "note_retention_policy \<Rightarrow> i64 option \<Rightarrow> bool" where
  "purged policy deleted = is_some_and (purge_deleted_before_ms policy) (\<lambda>before. is_some_and deleted (\<lambda>d. d \<le> before))"

lemma find_filter_unique:
  "(\<And>x y. x \<in> set xs \<Longrightarrow> y \<in> set xs \<Longrightarrow> P x \<Longrightarrow> P y \<Longrightarrow> x = y) \<Longrightarrow>
   find P (filter Q xs) = (case find P xs of None \<Rightarrow> None | Some x \<Rightarrow> if Q x then Some x else None)"
proof (induction xs)
  case (Cons x xs)
  have "find P (filter Q xs) = (case find P xs of None \<Rightarrow> None | Some x \<Rightarrow> if Q x then Some x else None)"
    using Cons.prems by (intro Cons.IH) auto
  moreover have "find P (filter Q xs) = None" if "P x" "\<not> Q x"
    using Cons.prems [of x] that by (auto simp: find_None_iff)
  ultimately show ?case by (auto split: option.splits)
qed simp

lemma purge_effect:
  assumes ok: "notes_ok env t" and p: "purge_notes before t = Some (k, t1)"
  shows "note_at t1 i = (case note_at t i of None \<Rightarrow> None
      | Some n \<Rightarrow> if is_some_and (n_deleted_at_ms n) (\<lambda>d. d \<le> before) then None else Some n)"
    and "r \<in> set (nt_revisions t1) \<longleftrightarrow> r \<in> set (nt_revisions t) \<and> has_note (rv_note_id r) t1"
    and "r \<in> set (nt_revisions t1) \<Longrightarrow> revision_position (nt_revisions t1) r = revision_position (nt_revisions t) r"
proof -
  let ?gone = "\<lambda>r. is_some_and (nw_deleted_at_ms r) (\<lambda>d. d \<le> before)"
  let ?ids = "map nw_id (filter ?gone (nt_notes t))"
  have t1: "t1 = t\<lparr>nt_notes := filter (\<lambda>r. \<not> ?gone r) (nt_notes t),
             nt_revisions := filter (\<lambda>r. rv_note_id r \<notin> set ?ids) (nt_revisions t),
             nt_tags := filter (\<lambda>r. tg_note_id r \<notin> set ?ids) (nt_tags t)\<rparr>"
    using p by (simp add: purge_notes_def Let_def)
  have inj: "inj_on nw_id (set (nt_notes t))" using ok by (simp add: notes_ok_def distinct_map)
  have gone: "nw_id q \<in> set ?ids \<longleftrightarrow> ?gone q" if "q \<in> set (nt_notes t)" for q
    using that inj by (auto dest: inj_onD)
  have f: "find (\<lambda>r. nw_id r = i) (nt_notes t1) = (case find (\<lambda>r. nw_id r = i) (nt_notes t) of
      None \<Rightarrow> None | Some q \<Rightarrow> if \<not> ?gone q then Some q else None)"
    unfolding t1 using inj by (simp, subst find_filter_unique) (auto dest: inj_onD)
  show "note_at t1 i = (case note_at t i of None \<Rightarrow> None
      | Some n \<Rightarrow> if is_some_and (n_deleted_at_ms n) (\<lambda>d. d \<le> before) then None else Some n)"
  proof (cases "find (\<lambda>r. nw_id r = i) (nt_notes t)")
    case (Some q)
    then have q: "q \<in> set (nt_notes t)" "nw_id q = i" by (auto simp: find_Some_iff)
    then obtain n where n: "note_from_row q = Some n" using ok note_row_decodes by (metis notes_ok_def)
    have "tags_of i t1 = tags_of i t" if "\<not> ?gone q"
      unfolding t1 using that gone [OF q(1)] q(2) by (intro tags_of_filter [of "\<lambda>i. i \<notin> set ?ids"]) simp
    then show ?thesis using f Some n note_from_row_Some(9) [OF n] by (auto simp: note_at_def)
  qed (simp add: note_at_def f)
  have alive: "has_note j t1 \<longleftrightarrow> has_note j t \<and> j \<notin> set ?ids" for j
    unfolding t1 has_note_iff using inj by (auto dest: inj_onD)
  have "has_note (rv_note_id r) t" if "r \<in> set (nt_revisions t)"
    using ok that by (auto simp: notes_ok_def revision_row_ok_def)
  then show "r \<in> set (nt_revisions t1) \<longleftrightarrow> r \<in> set (nt_revisions t) \<and> has_note (rv_note_id r) t1"
    unfolding alive by (auto simp: t1)
  show "revision_position (nt_revisions t1) r = revision_position (nt_revisions t) r" if "r \<in> set (nt_revisions t1)"
  proof -
    have "rv_note_id r \<notin> set ?ids" using that by (simp add: t1)
    then have "filter (\<lambda>q. rv_note_id q = rv_note_id r \<and> rv_revision r < rv_revision q) (nt_revisions t1) =
        filter (\<lambda>q. rv_note_id q = rv_note_id r \<and> rv_revision r < rv_revision q) (nt_revisions t)"
      unfolding t1 by (auto intro!: filter_cong simp: conj_commute image_iff)
    then show ?thesis by (simp add: revision_position_def)
  qed
qed

lemma prune_effect:
  assumes "prune_revisions before keep t = Some (k, t')"
  shows "note_at t' i = note_at t i" "has_note i t' = has_note i t"
    "r \<in> set (nt_revisions t') \<longleftrightarrow> r \<in> set (nt_revisions t) \<and> \<not> prunable before keep (nt_revisions t) r"
  using assms by (auto simp: prune_revisions_def Let_def note_at_def tags_of_def has_note_def split: option.splits)

text \<open>
  Retention removes exactly what its policy names: after a run that succeeds, a note is gone if and
  only if it was deleted no later than the purge limit, every other note reads as before, and of
  the history of a surviving note exactly those revisions are gone that were recorded no later
  than the prune limit and have at least \<open>keep_latest_revisions\<close> newer ones.
\<close>

theorem notes_retention_exact:
  assumes "notes_reached env t" "notes_retention policy (t, fs) = (Ok res, (t', fs'))"
  shows "notes_get i (t', []) = (case fst (notes_get i (t, [])) of
        Inl e \<Rightarrow> Err e
      | Inr n \<Rightarrow> if purged policy (n_deleted_at_ms n) then Err (NoteNotFound i) else Ok n, (t', [])) \<and>
    (r \<in> set (nt_revisions t') \<longleftrightarrow> r \<in> set (nt_revisions t) \<and> has_note (rv_note_id r) t' \<and>
      \<not> (is_some_and (prune_revisions_before_ms policy) (\<lambda>before. rv_recorded_at_ms r \<le> before) \<and>
          unat (keep_latest_revisions policy) < revision_position (nt_revisions t) r))"
proof -
  have ok: "notes_ok env t" using assms(1) by (rule notes_reached_ok)
  have ok': "notes_ok env t'" using stm_relD [OF retention_keeps assms(2), of env] ok by simp
  obtain t1 where p1: "case purge_deleted_before_ms policy of None \<Rightarrow> t1 = t \<and> purged_notes res = 0
       | Some before \<Rightarrow> purge_notes before t = Some (purged_notes res, t1)"
    and p2: "case prune_revisions_before_ms policy of None \<Rightarrow> t' = t1 \<and> pruned_revisions res = 0
       | Some before \<Rightarrow> prune_revisions before (unat (keep_latest_revisions policy)) t1 = Some (pruned_revisions res, t')"
    using retention_Ok [OF assms(2)] by metis
  have at1: "note_at t1 i = (case note_at t i of None \<Rightarrow> None
      | Some n \<Rightarrow> if purged policy (n_deleted_at_ms n) then None else Some n)"
    using p1 purge_effect(1) [OF ok] by (auto simp: purged_def split: option.splits)
  have rows1: "(r \<in> set (nt_revisions t1) \<longleftrightarrow> r \<in> set (nt_revisions t) \<and> has_note (rv_note_id r) t1) \<and>
      (r \<in> set (nt_revisions t1) \<longrightarrow> revision_position (nt_revisions t1) r = revision_position (nt_revisions t) r)"
  proof (cases "purge_deleted_before_ms policy")
    case None
    then show ?thesis using p1 ok by (auto simp: notes_ok_def revision_row_ok_def)
  next
    case (Some before)
    then show ?thesis using p1 purge_effect(2,3) [OF ok] by auto
  qed
  have "note_at t' i = note_at t1 i" "has_note (rv_note_id r) t' = has_note (rv_note_id r) t1"
    "r \<in> set (nt_revisions t') \<longleftrightarrow> r \<in> set (nt_revisions t1) \<and>
       \<not> (is_some_and (prune_revisions_before_ms policy) (\<lambda>before. rv_recorded_at_ms r \<le> before) \<and>
          unat (keep_latest_revisions policy) < revision_position (nt_revisions t1) r)"
    using p2 prune_effect by (auto simp: prunable_def split: option.splits)
  then show ?thesis using at1 rows1 by (auto simp: get_run [OF ok] get_run [OF ok'] split: option.splits)
qed

section \<open>A small database\<close>

definition json_home :: string where
  "json_home = CHR ''['' # CHR 0x22 # ''Home'' @ [CHR 0x22, CHR '']'']"

definition sample_env :: notes_env where
  "sample_env = \<lparr>ne_to_lowercase = ascii_lower,
     ne_tags_to_json = (\<lambda>tags. if tags = [] then Some ''[]'' else if tags = [''Home''] then Some json_home else None),
     ne_tags_from_json = (\<lambda>json. if json = ''[]'' then Some [] else if json = json_home then Some [''Home''] else None)\<rparr>"

definition sample_create :: create_note where
  "sample_create = \<lparr>c_title = ''t'', c_body_markdown = ''b'', c_diary_date = None, c_tags = [''Home''],
     c_status = NoteActive, c_pinned = False\<rparr>"

definition sample_save :: save_note where
  "sample_save = \<lparr>s_id = ''a'', s_expected_revision = 1, s_draft = \<lparr>d_title = ''u'', d_body_markdown = ''b'',
     d_diary_date = None, d_tags = [], d_status = NoteCompleted, d_pinned = True\<rparr>\<rparr>"

definition sample_note :: note_data where
  "sample_note = \<lparr>n_id = ''a'', n_title = ''t'', n_body_markdown = ''b'', n_diary_date = None, n_tags = [''Home''],
     n_status = NoteActive, n_pinned = False, n_created_at_ms = 5, n_updated_at_ms = 5, n_deleted_at_ms = None, n_revision = 1\<rparr>"

definition sample_saved :: note_data where
  "sample_saved = \<lparr>n_id = ''a'', n_title = ''u'', n_body_markdown = ''b'', n_diary_date = None, n_tags = [],
     n_status = NoteCompleted, n_pinned = True, n_created_at_ms = 5, n_updated_at_ms = 9, n_deleted_at_ms = None, n_revision = 2\<rparr>"

definition sample_tables :: notes_tables where
  "sample_tables = \<lparr>nt_notes = [note_row_of sample_note 1], nt_revisions = [revision_row_of sample_note 1 json_home 5],
     nt_tags = [\<lparr>tg_note_id = ''a'', tg_tag_key = ''home'', tg_display_tag = ''Home''\<rparr>]\<rparr>"

definition sample_tables2 :: notes_tables where
  "sample_tables2 = \<lparr>nt_notes = [note_row_of sample_saved 2],
     nt_revisions = [revision_row_of sample_note 1 json_home 5, revision_row_of sample_saved 2 ''[]'' 9], nt_tags = []\<rparr>"

lemma sample_texts:
  "trim ''Home'' = ''Home''" "ascii_lower ''Home'' = ''home''" "char_count ''Home'' = 4"
  by (simp add: trim_plain graphic_def, code_simp, code_simp)

lemmas notes_eval = normalize_draft_def normalize_tag_key_def MAX_TITLE_CHARS_def MAX_BODY_BYTES_def MAX_TAGS_def MAX_TAG_CHARS_def
  char_count_def [of "[_]"] utf8_cont_def Let_def insert_note_def insert_note_row_def replace_tags_def insert_tag_row_def
  insert_revision_def insert_revision_row_def update_note_def update_note_rows_def load_note_def select_note_def load_tags_def
  tags_of_def note_from_row_def status_parse_def status_allowed_def has_note_def revision_to_i64_def i64_of_u64_def u64_of_i64_def
  i64_max_def same_draft_def next_revision_def checked_add_def u_bind_def u_lift_def statement_def transaction_def transaction_early_def

lemmas sample_defs = sample_env_def sample_create_def sample_save_def sample_note_def sample_saved_def sample_tables_def
  sample_tables2_def empty_notes_def note_row_of_def revision_row_of_def

lemma sample_runs:
  "run_write sample_env (WriteCreate ''a'' sample_create 5) (empty_notes, []) = (Ok sample_note, (sample_tables, []))"
  "run_write sample_env (WriteSave sample_save 9) (sample_tables, []) = (Ok sample_saved, (sample_tables2, []))"
  by (simp_all add: notes_create_def notes_save_def new_note_def saved_note_def draft_of_create_def sample_texts sample_defs notes_eval)

lemma sample_codec: "codec_ok sample_env"
  by (simp add: codec_ok_def sample_env_def json_home_def)

lemma sample_reached: "notes_reached sample_env sample_tables" "notes_reached sample_env sample_tables2"
proof -
  have "fst (run_calls sample_env [CallWrite (WriteCreate ''a'' sample_create 5)] (empty_notes, [])) = sample_tables"
    using sample_runs by simp
  then show "notes_reached sample_env sample_tables" unfolding notes_reached_def by metis
  have "fst (run_calls sample_env [CallWrite (WriteCreate ''a'' sample_create 5), CallWrite (WriteSave sample_save 9)] (empty_notes, [])) = sample_tables2"
    using sample_runs by simp
  then show "notes_reached sample_env sample_tables2" unfolding notes_reached_def by metis
qed

theorem newest_revision_is_note_witness:
  "codec_ok sample_env \<and> notes_reached sample_env sample_tables2 \<and>
   notes_get ''a'' (sample_tables2, []) = (Ok sample_saved, (sample_tables2, [])) \<and>
   (\<exists>rs. notes_revisions sample_env ''a'' (sample_tables2, []) = (Ok rs, (sample_tables2, [])) \<and> rs \<noteq> [] \<and>
      nr_note (hd rs) = sample_saved \<and> sorted_wrt (>) (map (\<lambda>v. n_revision (nr_note v)) rs))"
proof -
  have g: "notes_get ''a'' (sample_tables2, []) = (Ok sample_saved, (sample_tables2, []))"
    by (simp add: notes_get_def sample_defs notes_eval)
  then show ?thesis
    using newest_revision_is_note [OF sample_codec sample_reached(2) g] sample_codec sample_reached(2) by simp
qed

theorem note_write_exact_witness:
  "notes_reached sample_env sample_tables \<and>
   notes_get ''a'' (sample_tables2, []) = (Ok sample_saved, (sample_tables2, [])) \<and>
   notes_get ''b'' (sample_tables2, []) = (fst (notes_get ''b'' (sample_tables, [])), (sample_tables2, []))"
  using note_write_exact [OF sample_reached(1) sample_runs(2)] sample_reached(1) by (simp add: sample_saved_def)

definition sample_other :: save_note where
  "sample_other = \<lparr>s_id = ''a'', s_expected_revision = 1, s_draft = \<lparr>d_title = ''o'', d_body_markdown = [],
     d_diary_date = None, d_tags = [], d_status = NoteActive, d_pinned = False\<rparr>\<rparr>"

theorem no_lost_note_write_witness:
  "fst (run_write sample_env (WriteSave sample_other 11) (sample_tables2, [])) =
     Err (NoteConflict \<lparr>nc_expected_revision = 1, nc_current = sample_saved, nc_submitted = s_draft sample_other\<rparr>) \<and>
   fst (snd (run_write sample_env (WriteSave sample_other 11) (sample_tables2, []))) = sample_tables2"
proof -
  have r: "run_write sample_env (WriteSave sample_other 11) (sample_tables2, []) =
      (Err (NoteConflict \<lparr>nc_expected_revision = 1, nc_current = sample_saved, nc_submitted = s_draft sample_other\<rparr>), (sample_tables2, []))"
    by (simp add: notes_save_def sample_other_def sample_defs notes_eval)
  have "sample_tables2 \<noteq> sample_tables" by (simp add: sample_defs)
  from no_lost_note_write [OF sample_reached(1) sample_runs(2) this _ _ _ r, of "''a''" 1 "[]" "[]" "[]"]
  show ?thesis using r by (simp add: sample_save_def sample_other_def)
qed

definition sample_policy :: note_retention_policy where
  "sample_policy = \<lparr>purge_deleted_before_ms = Some 100, prune_revisions_before_ms = Some 100, keep_latest_revisions = 1\<rparr>"

theorem notes_retention_exact_witness:
  "\<exists>t'. fst (snd (notes_retention sample_policy (sample_tables2, []))) = t' \<and>
     notes_get ''a'' (t', []) = (Ok sample_saved, (t', [])) \<and>
     revision_row_of sample_note 1 json_home 5 \<notin> set (nt_revisions t') \<and>
     revision_row_of sample_saved 2 ''[]'' 9 \<in> set (nt_revisions t')"
proof -
  let ?t = "sample_tables2\<lparr>nt_revisions := [revision_row_of sample_saved 2 ''[]'' 9]\<rparr>"
  have r: "notes_retention sample_policy (sample_tables2, []) = (Ok \<lparr>purged_notes = 0, pruned_revisions = 1\<rparr>, (?t, []))"
    by (simp add: notes_retention_def sample_policy_def purge_notes_def prune_revisions_def prunable_def revision_position_def
        sample_defs notes_eval)
  have "fst (notes_get ''a'' (sample_tables2, [])) = Ok sample_saved" by (simp add: notes_get_def sample_defs notes_eval)
  then show ?thesis
    using notes_retention_exact [OF sample_reached(2) r, of "''a''" "revision_row_of sample_note 1 json_home 5"]
      notes_retention_exact [OF sample_reached(2) r, of "''a''" "revision_row_of sample_saved 2 ''[]'' 9"] r
    by (simp add: purged_def sample_policy_def sample_defs revision_position_def has_note_def json_home_def)
qed

end
