(* ===== verification/Notes_Contract.thy ===== *)
theory Notes_Contract
  imports Notes_Model
begin

text \<open>
  The public types of the notes component (crates/domain/src/notes.rs): the commands a client
  sends, the documents, pages and exports it receives, and the validation both ends run. Whether
  a text is a UUID is decided by the uuid crate and is a parameter. Shown: the two date checks
  of the program agree, and what a validated command guarantees.
\<close>

section \<open>Limits\<close>

definition MAX_NOTE_TITLE_CHARS :: nat where "MAX_NOTE_TITLE_CHARS = 512"
definition MAX_NOTE_BODY_BYTES :: nat where "MAX_NOTE_BODY_BYTES = 4 * 1024 * 1024"
definition MAX_NOTE_TAGS :: nat where "MAX_NOTE_TAGS = 64"
definition MAX_NOTE_TAG_CHARS :: nat where "MAX_NOTE_TAG_CHARS = 64"
definition MAX_NOTE_QUERY_LIMIT :: u32 where "MAX_NOTE_QUERY_LIMIT = 64"
definition MAX_NOTE_QUERY_OFFSET :: u32 where "MAX_NOTE_QUERY_OFFSET = 100000"
definition MAX_NOTE_SEARCH_CHARS :: nat where "MAX_NOTE_SEARCH_CHARS = 512"
definition NOTE_CONTENT_CHUNK_BYTES :: nat where "NOTE_CONTENT_CHUNK_BYTES = 45056"
definition MAX_NOTE_CONTENT_BASE64_BYTES :: nat where "MAX_NOTE_CONTENT_BASE64_BYTES = 60076"
definition MAX_NOTE_UPLOAD_SESSIONS :: nat where "MAX_NOTE_UPLOAD_SESSIONS = 4"
definition MAX_NOTE_STAGED_BYTES :: nat where "MAX_NOTE_STAGED_BYTES = 16 * 1024 * 1024"
definition MAX_NOTE_EXPORT_DATA_FRAMES :: nat where "MAX_NOTE_EXPORT_DATA_FRAMES = 598"
definition MAX_NOTE_EXPORT_BYTES :: nat where
  "MAX_NOTE_EXPORT_BYTES = NOTE_CONTENT_CHUNK_BYTES * MAX_NOTE_EXPORT_DATA_FRAMES"

section \<open>Types\<close>

datatype public_status = PublicDraft | PublicActive | PublicCompleted | PublicArchived
datatype public_deleted = PublicExclude | PublicInclude | PublicOnly
datatype public_sort = PublicUpdatedDesc | PublicCreatedDesc | PublicTitleAsc | PublicDiaryDateDesc
datatype export_kind = ExportMarkdown | ExportJson

record draft_meta =
  dm_title :: string
  dm_diary_date :: "string option"
  dm_tags :: "string list"
  dm_status :: public_status
  dm_pinned :: bool

record note_summary =
  ns_id :: string
  ns_title :: string
  ns_diary_date :: "string option"
  ns_tags :: "string list"
  ns_status :: public_status
  ns_pinned :: bool
  ns_created_at_ms :: i64
  ns_updated_at_ms :: i64
  ns_deleted_at_ms :: "i64 option"
  ns_revision :: u64
  ns_body_bytes :: u32
  ns_body_sha256 :: string

record note_document =
  nd_summary :: note_summary
  nd_body_markdown :: string

record public_query =
  pq_search :: "string option"
  pq_diary_date_from :: "string option"
  pq_diary_date_to :: "string option"
  pq_tags :: "string list"
  pq_status :: "public_status option"
  pq_deleted :: public_deleted
  pq_sort :: public_sort
  pq_limit :: u32
  pq_offset :: u32

record note_page =
  np_query :: public_query
  np_notes :: "note_summary list"
  np_has_more :: bool
  np_next_offset :: "u32 option"

datatype write_intent = IntentCreate | IntentSave string u64 bool

datatype notes_command =
    CmdList public_query
  | CmdGet string
  | CmdWriteInline write_intent draft_meta string
  | CmdDelete string u64
  | CmdRestore string u64
  | CmdExport public_query export_kind
  | CmdUploadBegin write_intent draft_meta u32 string
  | CmdUploadAppend uuid u32 u32 string
  | CmdUploadCommit uuid write_intent
  | CmdUploadAbort uuid

datatype mutation_result =
    MutStored note_summary
  | MutDeleted note_summary
  | MutRestored note_summary
  | MutConflict u64 note_summary
  | MutUploadBegun uuid u32
  | MutUploadAccepted uuid u32 u32
  | MutUploadAborted uuid

record note_export =
  nx_format :: export_kind
  nx_content :: string
  nx_content_bytes :: u32
  nx_content_sha256 :: string

datatype notes_output =
    OutMutation mutation_result
  | OutPage note_page
  | OutDocument note_document
  | OutExport note_export

section \<open>Validation\<close>

definition validate_sha256 :: "string \<Rightarrow> (string, unit) result" where
  "validate_sha256 v =
     (if length v = 64 \<and> list_all (\<lambda>c. is_ascii_digit c \<or> (97 \<le> (of_char c :: nat) \<and> (of_char c :: nat) \<le> 102)) v
      then Ok () else Err ''note_sha256_invalid'')"

text \<open>The second date check of the program.\<close>

definition valid_calendar_date :: "string \<Rightarrow> bool" where
  "valid_calendar_date v =
     (if length v \<noteq> 10 \<or> v ! 4 \<noteq> CHR ''-'' \<or> v ! 7 \<noteq> CHR ''-'' then False
      else if list_ex (\<lambda>(index, byte). index \<notin> {4, 7} \<and> \<not> is_ascii_digit byte) (enumerate 0 v) then False
      else case parse_u32 (take 4 v) of None \<Rightarrow> False | Some year \<Rightarrow>
           (case parse_u32 (take 2 (drop 5 v)) of None \<Rightarrow> False | Some month \<Rightarrow>
           (case parse_u32 (take 2 (drop 8 v)) of None \<Rightarrow> False | Some day \<Rightarrow>
           (case max_day year month of None \<Rightarrow> False | Some m \<Rightarrow> 1 \<le> day \<and> day \<le> m))))"

definition tag_invalid :: "string \<Rightarrow> bool" where
  "tag_invalid tag = (tag = [] \<or> MAX_NOTE_TAG_CHARS < char_count tag \<or> CHR 0x00 \<in> set tag)"

definition validate_meta :: "draft_meta \<Rightarrow> (string, unit) result" where
  "validate_meta m =
     (if MAX_NOTE_TITLE_CHARS < char_count (dm_title m) then Err ''note_title_exceeds_512_characters''
      else if CHR 0x00 \<in> set (dm_title m) then Err ''note_title_contains_nul''
      else if MAX_NOTE_TAGS < length (dm_tags m) then Err ''note_tags_exceeds_64''
      else if list_ex tag_invalid (dm_tags m) then Err ''note_tag_invalid''
      else if is_some_and (dm_diary_date m) (\<lambda>d. \<not> valid_calendar_date d) then Err ''note_diary_date_invalid''
      else Ok ())"

definition validate_summary :: "(string \<Rightarrow> bool) \<Rightarrow> note_summary \<Rightarrow> (string, unit) result" where
  "validate_summary is_uuid s =
     (if \<not> is_uuid (ns_id s) then Err ''note_id_invalid''
      else and_then (validate_meta \<lparr>dm_title = ns_title s, dm_diary_date = ns_diary_date s, dm_tags = ns_tags s,
             dm_status = ns_status s, dm_pinned = ns_pinned s\<rparr>) (\<lambda>_.
        if ns_revision s = 0 \<or> MAX_NOTE_BODY_BYTES < unat (ns_body_bytes s) then Err ''note_summary_revision_or_size_invalid''
        else validate_sha256 (ns_body_sha256 s)))"

definition validate_document :: "(string \<Rightarrow> bool) \<Rightarrow> note_document \<Rightarrow> (string, unit) result" where
  "validate_document is_uuid d =
     and_then (validate_summary is_uuid (nd_summary d)) (\<lambda>_.
     if length (nd_body_markdown d) \<noteq> unat (ns_body_bytes (nd_summary d)) then Err ''note_document_body_length_mismatch''
     else Ok ())"

definition validate_public_query :: "public_query \<Rightarrow> (string, unit) result" where
  "validate_public_query q =
     (if \<not> (1 \<le> pq_limit q \<and> pq_limit q \<le> MAX_NOTE_QUERY_LIMIT) then Err ''note_query_limit_invalid''
      else if MAX_NOTE_QUERY_OFFSET < pq_offset q then Err ''note_query_offset_invalid''
      else if is_some_and (pq_search q) (\<lambda>s. MAX_NOTE_SEARCH_CHARS < char_count s \<or> CHR 0x00 \<in> set s)
        then Err ''note_query_search_invalid''
      else if MAX_NOTE_TAGS < length (pq_tags q) \<or> list_ex tag_invalid (pq_tags q) then Err ''note_query_tags_invalid''
      else if is_some_and (pq_diary_date_from q) (\<lambda>d. \<not> valid_calendar_date d) \<or>
              is_some_and (pq_diary_date_to q) (\<lambda>d. \<not> valid_calendar_date d) then Err ''note_query_date_invalid''
      else Ok ())"

definition validate_page :: "(string \<Rightarrow> bool) \<Rightarrow> note_page \<Rightarrow> (string, unit) result" where
  "validate_page is_uuid p =
     and_then (validate_public_query (np_query p)) (\<lambda>_.
     if unat (pq_limit (np_query p)) < length (np_notes p) \<or>
        list_ex (\<lambda>n. \<not> is_ok (validate_summary is_uuid n)) (np_notes p) then Err ''note_page_records_invalid''
     else and_then
       (if np_has_more p
        then map_sum id Some (ok_or (checked_add (pq_offset (np_query p)) (of_nat (length (np_notes p)))) ''note_page_next_offset_overflow'')
        else Ok None) (\<lambda>expected_next.
       if np_next_offset p \<noteq> expected_next then Err ''note_page_next_offset_invalid'' else Ok ()))"

definition validate_intent :: "(string \<Rightarrow> bool) \<Rightarrow> write_intent \<Rightarrow> (string, unit) result" where
  "validate_intent is_uuid w =
     (case w of
        IntentCreate \<Rightarrow> Ok ()
      | IntentSave i expected autosave \<Rightarrow>
          if is_uuid i \<and> 0 < expected then Ok () else Err ''note_write_intent_invalid'')"

definition validate_note_id :: "(string \<Rightarrow> bool) \<Rightarrow> string \<Rightarrow> (string, unit) result" where
  "validate_note_id is_uuid i = (if is_uuid i then Ok () else Err ''note_id_invalid'')"

definition validate_command :: "(string \<Rightarrow> bool) \<Rightarrow> notes_command \<Rightarrow> (string, unit) result" where
  "validate_command is_uuid cmd =
     and_then (case cmd of
         CmdList q \<Rightarrow> validate_public_query q
       | CmdExport q _ \<Rightarrow> validate_public_query q
       | CmdGet i \<Rightarrow> validate_note_id is_uuid i
       | CmdDelete i _ \<Rightarrow> validate_note_id is_uuid i
       | CmdRestore i _ \<Rightarrow> validate_note_id is_uuid i
       | CmdWriteInline intent meta body \<Rightarrow>
           and_then (validate_intent is_uuid intent) (\<lambda>_.
           and_then (validate_meta meta) (\<lambda>_.
           if MAX_NOTE_BODY_BYTES < length body then Err ''note_body_exceeds_4_mib'' else Ok ()))
       | CmdUploadBegin intent meta total_bytes sha \<Rightarrow>
           and_then (validate_intent is_uuid intent) (\<lambda>_.
           and_then (validate_meta meta) (\<lambda>_.
           if MAX_NOTE_BODY_BYTES < unat total_bytes then Err ''note_body_exceeds_4_mib''
           else validate_sha256 sha))
       | CmdUploadAppend upload_id _ _ data \<Rightarrow>
           if is_nil upload_id \<or> MAX_NOTE_CONTENT_BASE64_BYTES < length data
           then Err ''note_upload_append_invalid'' else Ok ()
       | CmdUploadCommit upload_id intent \<Rightarrow>
           and_then (validate_intent is_uuid intent) (\<lambda>_.
           if is_nil upload_id then Err ''note_upload_id_invalid'' else Ok ())
       | CmdUploadAbort upload_id \<Rightarrow>
           if is_nil upload_id then Err ''note_upload_id_invalid'' else Ok ()) (\<lambda>_.
     case cmd of
       CmdDelete _ expected \<Rightarrow> if expected = 0 then Err ''note_expected_revision_invalid'' else Ok ()
     | CmdRestore _ expected \<Rightarrow> if expected = 0 then Err ''note_expected_revision_invalid'' else Ok ()
     | _ \<Rightarrow> Ok ())"

definition validate_export :: "note_export \<Rightarrow> (string, unit) result" where
  "validate_export x =
     (if length (nx_content x) \<noteq> unat (nx_content_bytes x) \<or> MAX_NOTE_EXPORT_BYTES < length (nx_content x)
      then Err ''note_export_length_invalid'' else validate_sha256 (nx_content_sha256 x))"

section \<open>Lemmas\<close>

lemma valid_calendar_date_eq: "valid_calendar_date = validate_date"
  by (rule ext) (simp add: valid_calendar_date_def validate_date_def split: option.splits)

lemma validate_meta_Ok:
  "validate_meta m = Ok u \<longleftrightarrow>
   char_count (dm_title m) \<le> MAX_NOTE_TITLE_CHARS \<and> CHR 0x00 \<notin> set (dm_title m) \<and> length (dm_tags m) \<le> MAX_NOTE_TAGS \<and>
   (\<forall>tag \<in> set (dm_tags m). \<not> tag_invalid tag) \<and> is_none_or (dm_diary_date m) validate_date"
  by (auto simp: validate_meta_def valid_calendar_date_eq list_ex_iff not_less is_some_and_iff is_none_or_iff)

end
