(* ===== verification/Notes_Service.thy ===== *)
theory Notes_Service
  imports Notes_History Notes_Contract
begin

text \<open>
  The notes service (crates/notes/src/service.rs) and the bounded exporter
  (crates/notes/src/export.rs): the commands of a client, validated and run on the repository, and
  the staged uploads of long bodies with their budget of sessions and bytes. The digest, the
  base64 decoder, the UUID parser, the JSON text of a title and of a note and the text of a decoding error come from other crates and are
  a record of parameters; the id of a new note or upload is an argument; \<open>Instant\<close> is a number
  of nanoseconds. The hash map of the uploads is the list of its entries in key order; nothing
  depends on the order.
\<close>

section \<open>Parameters, state, errors\<close>

record service_env =
  se_notes :: notes_env
  se_is_uuid :: "string \<Rightarrow> bool"
  se_digest :: "string \<Rightarrow> u8 list"
  se_base64 :: "string \<Rightarrow> string option"
  se_title_json :: "string \<Rightarrow> string option"
  se_note_json :: "note_data \<Rightarrow> string option"
  se_utf8_error :: "string \<Rightarrow> string"

record pending_upload =
  pu_intent :: write_intent
  pu_meta :: draft_meta
  pu_expected_total_bytes :: nat
  pu_expected_sha256 :: string
  pu_bytes :: string
  pu_next_sequence :: u32
  pu_last_activity :: nat

record notes_service =
  sv_repository :: "notes_tables handle"
  sv_uploads :: "(uuid, pending_upload) btree"
  sv_reserved_staged_bytes :: nat
  sv_accepting_uploads :: bool

datatype service_error =
    InvalidCommand string
  | RepositoryError notes_error
  | UploadCapacity
  | UploadNotFound
  | UploadSequence
  | UploadOffset
  | UploadChunk
  | UploadLength
  | UploadHash
  | UploadUtf8
  | UploadClosed
  | ExportTooLarge

fun service_reason_code :: "service_error \<Rightarrow> string" where
  "service_reason_code (InvalidCommand reason) = reason"
| "service_reason_code (RepositoryError e) =
     (case e of
        NoteNotFound _ \<Rightarrow> ''note_not_found''
      | NotesUnsupportedSchema _ _ \<Rightarrow> ''notes_schema_unsupported''
      | NotesMigrationBackup reason \<Rightarrow> reason
      | NoteConflict _ \<Rightarrow> ''note_revision_conflict''
      | NoteValidation _ _ \<Rightarrow> ''note_validation_failed''
      | NotesCorruptData _ _ \<Rightarrow> ''notes_database_corrupt''
      | NotesSql \<Rightarrow> ''notes_storage_failed''
      | NotesJson \<Rightarrow> ''notes_storage_failed'')"
| "service_reason_code UploadCapacity = ''note_upload_capacity_exceeded''"
| "service_reason_code UploadNotFound = ''note_upload_not_found''"
| "service_reason_code UploadSequence = ''note_upload_sequence_invalid''"
| "service_reason_code UploadOffset = ''note_upload_offset_invalid''"
| "service_reason_code UploadChunk = ''note_upload_chunk_invalid''"
| "service_reason_code UploadLength = ''note_upload_length_mismatch''"
| "service_reason_code UploadHash = ''note_upload_hash_mismatch''"
| "service_reason_code UploadUtf8 = ''note_upload_utf8_invalid''"
| "service_reason_code UploadClosed = ''note_uploads_closed''"
| "service_reason_code ExportTooLarge = ''note_export_too_large''"

fun service_retryable :: "service_error \<Rightarrow> bool" where
  "service_retryable (RepositoryError NotesSql) = True"
| "service_retryable UploadCapacity = True"
| "service_retryable _ = False"

definition NOTE_UPLOAD_IDLE_TTL :: nat where "NOTE_UPLOAD_IDLE_TTL = 60 * 1000000000"

definition new_service :: "notes_tables handle \<Rightarrow> notes_service" where
  "new_service repository =
     \<lparr>sv_repository = repository, sv_uploads = [], sv_reserved_staged_bytes = 0, sv_accepting_uploads = True\<rparr>"

type_synonym 'a service_stm = "notes_service \<Rightarrow> (service_error, 'a) result \<times> notes_service"

text \<open>A call of the repository, its error wrapped by \<open>From\<close>.\<close>

definition repository_call :: "'a notes_stm \<Rightarrow> notes_service \<Rightarrow> (notes_error, 'a) result \<times> notes_service" where
  "repository_call m sv = (case m (sv_repository sv) of (r, db) \<Rightarrow> (r, sv\<lparr>sv_repository := db\<rparr>))"

section \<open>Conversions\<close>

definition hex_digit :: "nat \<Rightarrow> char" where
  "hex_digit n = char_of (if n < 10 then 48 + n else 87 + n)"

definition hex_byte :: "u8 \<Rightarrow> string" where
  "hex_byte b = [hex_digit (unat b div 16), hex_digit (unat b mod 16)]"

definition sha256_hex :: "service_env \<Rightarrow> string \<Rightarrow> string" where
  "sha256_hex env bs = concat (map hex_byte (se_digest env bs))"

fun note_status_of :: "public_status \<Rightarrow> note_status" where
  "note_status_of PublicDraft = NoteDraftStatus"
| "note_status_of PublicActive = NoteActive"
| "note_status_of PublicCompleted = NoteCompleted"
| "note_status_of PublicArchived = NoteArchived"

fun public_status_of :: "note_status \<Rightarrow> public_status" where
  "public_status_of NoteDraftStatus = PublicDraft"
| "public_status_of NoteActive = PublicActive"
| "public_status_of NoteCompleted = PublicCompleted"
| "public_status_of NoteArchived = PublicArchived"

definition summary_of_note :: "service_env \<Rightarrow> note_data \<Rightarrow> note_summary" where
  "summary_of_note env n =
     \<lparr>ns_id = n_id n, ns_title = n_title n, ns_diary_date = n_diary_date n, ns_tags = n_tags n,
      ns_status = public_status_of (n_status n), ns_pinned = n_pinned n,
      ns_created_at_ms = n_created_at_ms n, ns_updated_at_ms = n_updated_at_ms n,
      ns_deleted_at_ms = n_deleted_at_ms n, ns_revision = n_revision n,
      ns_body_bytes = of_nat (length (n_body_markdown n)),
      ns_body_sha256 = sha256_hex env (n_body_markdown n)\<rparr>"

definition document_of_note :: "service_env \<Rightarrow> note_data \<Rightarrow> note_document" where
  "document_of_note env n = \<lparr>nd_summary = summary_of_note env n, nd_body_markdown = n_body_markdown n\<rparr>"

definition repository_query :: "public_query \<Rightarrow> note_query" where
  "repository_query q =
     \<lparr>q_search = pq_search q, q_diary_date_from = pq_diary_date_from q, q_diary_date_to = pq_diary_date_to q,
      q_tags = pq_tags q, q_status = map_option note_status_of (pq_status q),
      q_deleted = (case pq_deleted q of PublicExclude \<Rightarrow> DeletedExclude | PublicInclude \<Rightarrow> DeletedInclude | PublicOnly \<Rightarrow> DeletedOnly),
      q_sort = (case pq_sort q of PublicUpdatedDesc \<Rightarrow> UpdatedDesc | PublicCreatedDesc \<Rightarrow> CreatedDesc
                | PublicTitleAsc \<Rightarrow> TitleAsc | PublicDiaryDateDesc \<Rightarrow> DiaryDateDesc),
      q_limit = pq_limit q, q_offset = pq_offset q\<rparr>"

section \<open>The bounded exporter\<close>

record exporter =
  ex_format :: export_kind
  ex_max_bytes :: nat
  ex_note_count :: nat
  ex_content :: string

definition EXPORT_SCHEMA :: string where "EXPORT_SCHEMA = ''localdesk.notes.export.v1''"

definition export_too_large :: notes_error where
  "export_too_large = NoteValidation ''export'' ''serialized export exceeds transport budget''"

definition is_export_too_large :: "notes_error \<Rightarrow> bool" where
  "is_export_too_large e =
     (case e of NoteValidation field reason \<Rightarrow>
        field = ''export'' \<and> reason = ''serialized export exceeds transport budget'' | _ \<Rightarrow> False)"

text \<open>\<open>usize::checked_add\<close>\<close>

definition usize_checked_add :: "nat \<Rightarrow> nat \<Rightarrow> nat option" where
  "usize_checked_add a b = (if a + b < 2 ^ 64 then Some (a + b) else None)"

definition ex_append :: "string \<Rightarrow> exporter \<Rightarrow> (notes_error, exporter) result" where
  "ex_append fragment x =
     and_then (ok_or (usize_checked_add (length (ex_content x)) (length fragment)) export_too_large) (\<lambda>required.
     if ex_max_bytes x < required then Err export_too_large
     else Ok (x\<lparr>ex_content := ex_content x @ fragment\<rparr>))"

fun ex_append_all :: "string list \<Rightarrow> exporter \<Rightarrow> (notes_error, exporter) result" where
  "ex_append_all [] x = Ok x"
| "ex_append_all (f # fs) x = and_then (ex_append f x) (ex_append_all fs)"

definition quote :: string where "quote = [CHR 0x22]"

definition new_exporter :: "export_kind \<Rightarrow> nat \<Rightarrow> (notes_error, exporter) result" where
  "new_exporter format max_bytes =
     (let x = \<lparr>ex_format = format, ex_max_bytes = max_bytes, ex_note_count = 0, ex_content = []\<rparr> in
      if format = ExportJson
      then ex_append_all [''{'' @ quote @ ''schema'' @ quote @ '':'' @ quote, EXPORT_SCHEMA,
             quote @ '','' @ quote @ ''notes'' @ quote @ '':[''] x
      else Ok x)"

text \<open>\<open>serde_json::to_writer\<close> into the bounded writer: the text arrives in pieces, and a piece that
  does not fit ends the call. What an ended call left behind is cut off by \<open>push\<close>.\<close>

definition push_json :: "service_env \<Rightarrow> note_data \<Rightarrow> exporter \<Rightarrow> (notes_error, exporter) result" where
  "push_json env n x =
     (if ex_max_bytes x < 2 then Err export_too_large
      else case se_note_json env n of
        None \<Rightarrow> Err NotesJson
      | Some json \<Rightarrow>
          and_then (ok_or (usize_checked_add (length (ex_content x)) (length json)) export_too_large) (\<lambda>required.
          if ex_max_bytes x - 2 < required then Err export_too_large
          else Ok (x\<lparr>ex_content := ex_content x @ json\<rparr>)))"

definition newlines :: "nat \<Rightarrow> string" where "newlines k = replicate k newline"

definition push_markdown :: "service_env \<Rightarrow> note_data \<Rightarrow> exporter \<Rightarrow> (notes_error, exporter) result" where
  "push_markdown env n x =
     and_then (ok_or (se_title_json env (n_title n)) NotesJson) (\<lambda>title.
     and_then (ok_or (ne_tags_to_json (se_notes env) (n_tags n)) NotesJson) (\<lambda>tags.
     ex_append_all
       [''---'' @ newlines 1 @ ''schema: '', EXPORT_SCHEMA,
        newlines 1 @ ''id: '', n_id n,
        newlines 1 @ ''revision: '', decimal (unat (n_revision n)),
        newlines 1 @ ''status: '', status_as_str (n_status n),
        newlines 1 @ ''diary_date: '', (case n_diary_date n of None \<Rightarrow> ''null'' | Some d \<Rightarrow> d),
        newlines 1 @ ''tags: '', tags,
        newlines 1 @ ''title: '', title,
        newlines 1 @ ''---'' @ newlines 2 @ ''# '', n_title n,
        newlines 2, n_body_markdown n] x))"

definition separator :: "export_kind \<Rightarrow> nat \<Rightarrow> string" where
  "separator format note_count =
     (if note_count = 0 then []
      else case format of ExportJson \<Rightarrow> '','' | ExportMarkdown \<Rightarrow> newlines 2 @ ''---'' @ newlines 2)"

text \<open>On an error the content goes back to the checkpoint; the caller drops the exporter.\<close>

definition ex_push :: "service_env \<Rightarrow> note_data \<Rightarrow> exporter \<Rightarrow> (notes_error, exporter) result" where
  "ex_push env n x =
     and_then (ex_append (separator (ex_format x) (ex_note_count x)) x) (\<lambda>y.
     and_then (case ex_format x of ExportJson \<Rightarrow> push_json env n y | ExportMarkdown \<Rightarrow> push_markdown env n y) (\<lambda>z.
     Ok (z\<lparr>ex_note_count := ex_note_count z + 1\<rparr>)))"

definition ex_finish :: "service_env \<Rightarrow> exporter \<Rightarrow> (notes_error, string) result" where
  "ex_finish env x =
     and_then (if ex_format x = ExportJson then ex_append '']}'' x else Ok x) (\<lambda>y.
     if valid_utf8 (ex_content y) then Ok (ex_content y) else Err (NotesCorruptData ''export'' (se_utf8_error env (ex_content y))))"

fun push_all :: "service_env \<Rightarrow> note_data list \<Rightarrow> exporter \<Rightarrow> (notes_error, exporter) result" where
  "push_all env [] x = Ok x"
| "push_all env (n # ns) x = and_then (ex_push env n x) (push_all env ns)"

definition export_notes :: "service_env \<Rightarrow> note_data list \<Rightarrow> export_kind \<Rightarrow> (notes_error, string) result" where
  "export_notes env notes format =
     and_then (new_exporter format (2 ^ 64 - 1)) (\<lambda>x. and_then (push_all env notes x) (ex_finish env))"

definition map_export_error :: "notes_error \<Rightarrow> service_error" where
  "map_export_error e = (if is_export_too_large e then ExportTooLarge else RepositoryError e)"

section \<open>Reading\<close>

definition service_list :: "service_env \<Rightarrow> public_query \<Rightarrow> notes_output service_stm" where
  "service_list env query sv =
     (case repository_call (query_notes (se_notes env) ((repository_query query)\<lparr>q_limit := pq_limit query + 1\<rparr>)) sv of
        (Inl e, sv') \<Rightarrow> (Err (RepositoryError e), sv')
      | (Inr notes, sv') \<Rightarrow>
          let has_more = unat (pq_limit query) < length notes;
              kept = (if has_more then take (unat (pq_limit query)) notes else notes);
              summaries = map (summary_of_note env) kept;
              next_offset = (if has_more then checked_add (pq_offset query) (of_nat (length summaries)) else None);
              page = \<lparr>np_query = query, np_notes = summaries, np_has_more = has_more, np_next_offset = next_offset\<rparr>
          in (and_then (map_err InvalidCommand (validate_page (se_is_uuid env) page)) (\<lambda>_. Ok (OutPage page)), sv'))"

definition service_get :: "service_env \<Rightarrow> string \<Rightarrow> notes_output service_stm" where
  "service_get env i sv =
     (case repository_call (notes_get i) sv of
        (Inl e, sv') \<Rightarrow> (Err (RepositoryError e), sv')
      | (Inr n, sv') \<Rightarrow>
          (and_then (map_err InvalidCommand (validate_document (se_is_uuid env) (document_of_note env n))) (\<lambda>_.
           Ok (OutDocument (document_of_note env n))), sv'))"

definition service_export :: "service_env \<Rightarrow> public_query \<Rightarrow> export_kind \<Rightarrow> notes_output service_stm" where
  "service_export env query format sv =
     (case new_exporter format MAX_NOTE_EXPORT_BYTES of
        Inl e \<Rightarrow> (Err (map_export_error e), sv)
      | Inr x \<Rightarrow>
          (case repository_call (visit_query (se_notes env) (repository_query query) (ex_push env) x) sv of
             (Inl e, sv') \<Rightarrow> (Err (map_export_error e), sv')
           | (Inr y, sv') \<Rightarrow>
               (and_then (map_err map_export_error (ex_finish env y)) (\<lambda>content.
                Ok (OutExport \<lparr>nx_format = format, nx_content = content, nx_content_bytes = of_nat (length content),
                      nx_content_sha256 = sha256_hex env content\<rparr>)), sv')))"

section \<open>Writing\<close>

text \<open>The answer to a write: a conflict is an answer, not an error.\<close>

definition mutation_answer ::
  "service_env \<Rightarrow> (note_summary \<Rightarrow> mutation_result) \<Rightarrow> (notes_error, note_data) result \<Rightarrow> (service_error, notes_output) result" where
  "mutation_answer env wrap r =
     (case r of
        Inr n \<Rightarrow> Ok (OutMutation (wrap (summary_of_note env n)))
      | Inl (NoteConflict c) \<Rightarrow> Ok (OutMutation (MutConflict (nc_expected_revision c) (summary_of_note env (nc_current c))))
      | Inl e \<Rightarrow> Err (RepositoryError e))"

definition service_delete :: "service_env \<Rightarrow> string \<Rightarrow> u64 \<Rightarrow> i64 \<Rightarrow> notes_output service_stm" where
  "service_delete env i expected now_ms sv =
     (case repository_call (soft_delete (se_notes env) i expected now_ms) sv of
        (r, sv') \<Rightarrow> (mutation_answer env MutDeleted r, sv'))"

definition service_restore :: "service_env \<Rightarrow> string \<Rightarrow> u64 \<Rightarrow> i64 \<Rightarrow> notes_output service_stm" where
  "service_restore env i expected now_ms sv =
     (case repository_call (notes_restore (se_notes env) i expected now_ms) sv of
        (r, sv') \<Rightarrow> (mutation_answer env MutRestored r, sv'))"

definition commit_draft ::
  "service_env \<Rightarrow> string \<Rightarrow> write_intent \<Rightarrow> draft_meta \<Rightarrow> string \<Rightarrow> i64 \<Rightarrow> notes_output service_stm" where
  "commit_draft env uuid intent meta body now_ms sv =
     (if MAX_NOTE_BODY_BYTES < length body then (Err (InvalidCommand ''note_body_exceeds_4_mib''), sv)
      else
        let call = (case intent of
              IntentCreate \<Rightarrow> notes_create (se_notes env) uuid
                \<lparr>c_title = dm_title meta, c_body_markdown = body, c_diary_date = dm_diary_date meta,
                 c_tags = dm_tags meta, c_status = note_status_of (dm_status meta), c_pinned = dm_pinned meta\<rparr> now_ms
            | IntentSave i expected autosave \<Rightarrow> notes_save (se_notes env)
                \<lparr>s_id = i, s_expected_revision = expected, s_draft =
                  \<lparr>d_title = dm_title meta, d_body_markdown = body, d_diary_date = dm_diary_date meta,
                   d_tags = dm_tags meta, d_status = note_status_of (dm_status meta), d_pinned = dm_pinned meta\<rparr>\<rparr> now_ms)
        in (case repository_call call sv of (r, sv') \<Rightarrow> (mutation_answer env MutStored r, sv')))"

section \<open>Uploads\<close>

definition bt_remove :: "'k \<Rightarrow> ('k, 'v) btree \<Rightarrow> ('k, 'v) btree" where
  "bt_remove k m = filter (\<lambda>p. fst p \<noteq> k) m"

definition remove_upload :: "uuid \<Rightarrow> notes_service \<Rightarrow> pending_upload option \<times> notes_service" where
  "remove_upload u sv =
     (case bt_get u (sv_uploads sv) of
        None \<Rightarrow> (None, sv)
      | Some up \<Rightarrow> (Some up, sv\<lparr>sv_uploads := bt_remove u (sv_uploads sv),
          sv_reserved_staged_bytes := sv_reserved_staged_bytes sv - pu_expected_total_bytes up\<rparr>))"

definition begin_upload ::
  "uuid \<Rightarrow> write_intent \<Rightarrow> draft_meta \<Rightarrow> nat \<Rightarrow> string \<Rightarrow> nat \<Rightarrow> notes_output service_stm" where
  "begin_upload upload_id intent meta total_bytes sha now sv =
     (if \<not> sv_accepting_uploads sv then (Err UploadClosed, sv)
      else if MAX_NOTE_UPLOAD_SESSIONS \<le> length (sv_uploads sv) \<or>
        is_none_or (usize_checked_add (sv_reserved_staged_bytes sv) total_bytes) (\<lambda>s. MAX_NOTE_STAGED_BYTES < s)
      then (Err UploadCapacity, sv)
      else (Ok (OutMutation (MutUploadBegun upload_id (of_nat NOTE_CONTENT_CHUNK_BYTES))),
        sv\<lparr>sv_reserved_staged_bytes := sv_reserved_staged_bytes sv + total_bytes,
           sv_uploads := bt_insert upload_id
             \<lparr>pu_intent = intent, pu_meta = meta, pu_expected_total_bytes = total_bytes, pu_expected_sha256 = sha,
              pu_bytes = [], pu_next_sequence = 0, pu_last_activity = now\<rparr> (sv_uploads sv)\<rparr>))"

definition put_upload :: "uuid \<Rightarrow> pending_upload \<Rightarrow> notes_service \<Rightarrow> notes_service" where
  "put_upload u up sv = sv\<lparr>sv_uploads := bt_insert u up (sv_uploads sv)\<rparr>"

definition append_upload ::
  "service_env \<Rightarrow> uuid \<Rightarrow> u32 \<Rightarrow> u32 \<Rightarrow> string \<Rightarrow> nat \<Rightarrow> notes_output service_stm" where
  "append_upload env upload_id sequence offset data_base64 now sv =
     (case se_base64 env data_base64 of
        None \<Rightarrow> (Err UploadChunk, snd (remove_upload upload_id sv))
      | Some decoded \<Rightarrow>
          if decoded = [] \<or> NOTE_CONTENT_CHUNK_BYTES < length decoded
          then (Err UploadChunk, snd (remove_upload upload_id sv))
          else case bt_get upload_id (sv_uploads sv) of
            None \<Rightarrow> (Err UploadNotFound, sv)
          | Some up \<Rightarrow>
              if sequence \<noteq> pu_next_sequence up then (Err UploadSequence, snd (remove_upload upload_id sv))
              else if unat offset \<noteq> length (pu_bytes up) then (Err UploadOffset, snd (remove_upload upload_id sv))
              else if is_none_or (usize_checked_add (length (pu_bytes up)) (length decoded)) (\<lambda>l. pu_expected_total_bytes up < l)
              then (Err UploadLength, snd (remove_upload upload_id sv))
              else let extended = up\<lparr>pu_bytes := pu_bytes up @ decoded\<rparr> in
                (case checked_add (pu_next_sequence up) 1 of
                   None \<Rightarrow> (Err UploadSequence, put_upload upload_id extended sv)
                 | Some next \<Rightarrow>
                     (Ok (OutMutation (MutUploadAccepted upload_id next (of_nat (length (pu_bytes extended))))),
                      put_upload upload_id (extended\<lparr>pu_next_sequence := next, pu_last_activity := now\<rparr>) sv)))"

definition commit_upload ::
  "service_env \<Rightarrow> string \<Rightarrow> uuid \<Rightarrow> write_intent \<Rightarrow> i64 \<Rightarrow> notes_output service_stm" where
  "commit_upload env uuid upload_id intent now_ms sv =
     (case remove_upload upload_id sv of
        (None, sv') \<Rightarrow> (Err UploadNotFound, sv')
      | (Some up, sv') \<Rightarrow>
          if pu_intent up \<noteq> intent then (Err (InvalidCommand ''note_upload_intent_mismatch''), sv')
          else if length (pu_bytes up) \<noteq> pu_expected_total_bytes up then (Err UploadLength, sv')
          else if sha256_hex env (pu_bytes up) \<noteq> pu_expected_sha256 up then (Err UploadHash, sv')
          else if \<not> valid_utf8 (pu_bytes up) then (Err UploadUtf8, sv')
          else commit_draft env uuid (pu_intent up) (pu_meta up) (pu_bytes up) now_ms sv')"

definition abort_upload :: "uuid \<Rightarrow> notes_service \<Rightarrow> mutation_result \<times> notes_service" where
  "abort_upload upload_id sv = (MutUploadAborted upload_id, snd (remove_upload upload_id sv))"

definition upload_expired :: "nat \<Rightarrow> pending_upload \<Rightarrow> bool" where
  "upload_expired now up = (pu_last_activity up \<le> now \<and> NOTE_UPLOAD_IDLE_TTL \<le> now - pu_last_activity up)"

fun remove_uploads :: "uuid list \<Rightarrow> notes_service \<Rightarrow> notes_service" where
  "remove_uploads [] sv = sv"
| "remove_uploads (u # us) sv = remove_uploads us (snd (remove_upload u sv))"

definition cleanup_expired :: "nat \<Rightarrow> notes_service \<Rightarrow> nat \<times> notes_service" where
  "cleanup_expired now sv =
     (let expired = map fst (filter (\<lambda>p. upload_expired now (snd p)) (sv_uploads sv))
      in (length expired, remove_uploads expired sv))"

section \<open>Commands\<close>

definition execute_notes ::
  "service_env \<Rightarrow> string \<Rightarrow> uuid \<Rightarrow> notes_command \<Rightarrow> i64 \<Rightarrow> nat \<Rightarrow> notes_output service_stm" where
  "execute_notes env uuid upload_uuid command now_ms now sv =
     (case validate_command (se_is_uuid env) command of
        Inl e \<Rightarrow> (Err (InvalidCommand e), sv)
      | Inr _ \<Rightarrow>
          (let sv1 = snd (cleanup_expired now sv) in
           case command of
             CmdList query \<Rightarrow> service_list env query sv1
           | CmdGet i \<Rightarrow> service_get env i sv1
           | CmdWriteInline intent meta body \<Rightarrow> commit_draft env uuid intent meta body now_ms sv1
           | CmdDelete i expected \<Rightarrow> service_delete env i expected now_ms sv1
           | CmdRestore i expected \<Rightarrow> service_restore env i expected now_ms sv1
           | CmdExport query format \<Rightarrow> service_export env query format sv1
           | CmdUploadBegin intent meta total_bytes sha \<Rightarrow>
               begin_upload upload_uuid intent meta (unat total_bytes) sha now sv1
           | CmdUploadAppend upload_id sequence offset data \<Rightarrow> append_upload env upload_id sequence offset data now sv1
           | CmdUploadCommit upload_id intent \<Rightarrow> commit_upload env uuid upload_id intent now_ms sv1
           | CmdUploadAbort upload_id \<Rightarrow>
               (case abort_upload upload_id sv1 of (r, sv2) \<Rightarrow> (Ok (OutMutation r), sv2))))"

definition begin_shutdown :: "notes_service \<Rightarrow> notes_service" where
  "begin_shutdown sv = sv\<lparr>sv_accepting_uploads := False\<rparr>"

definition checkpoint :: "unit notes_stm" where
  "checkpoint = nsql (\<lambda>t. Some ((), t))"

definition service_shutdown :: "unit service_stm" where
  "service_shutdown sv =
     (case repository_call checkpoint ((begin_shutdown sv)\<lparr>sv_uploads := [], sv_reserved_staged_bytes := 0\<rparr>) of
        (r, sv') \<Rightarrow> (map_err RepositoryError r, sv'))"

end
