(* ===== verification/Notes_Uploads.thy ===== *)
theory Notes_Uploads
  imports Notes_Service
begin

text \<open>
  The staged uploads of the notes service. Shown: over every run the uploads stay within their
  budget of sessions and bytes, and a body that arrives in chunks is stored exactly as one that
  arrives in a single command.
\<close>

lemma checked_add_1: "checked_add a 1 = Some (b :: u32) \<Longrightarrow> unat b = Suc (unat a)"
  by (auto simp: checked_add_def unat_word_ariths split: if_splits)

section \<open>The budget of the uploads\<close>

definition staged :: "(uuid, pending_upload) btree \<Rightarrow> nat" where
  "staged m = sum_list (map (\<lambda>p. pu_expected_total_bytes (snd p)) m)"

definition upload_ok :: "pending_upload \<Rightarrow> bool" where
  "upload_ok up \<longleftrightarrow> length (pu_bytes up) \<le> pu_expected_total_bytes up \<and>
     pu_expected_total_bytes up \<le> MAX_NOTE_BODY_BYTES \<and> unat (pu_next_sequence up) \<le> length (pu_bytes up)"

definition uploads_ok :: "notes_service \<Rightarrow> bool" where
  "uploads_ok sv \<longleftrightarrow> bt_ok (sv_uploads sv) \<and> sv_reserved_staged_bytes sv = staged (sv_uploads sv) \<and>
     sv_reserved_staged_bytes sv \<le> MAX_NOTE_STAGED_BYTES \<and> length (sv_uploads sv) \<le> MAX_NOTE_UPLOAD_SESSIONS \<and>
     (\<forall>p \<in> set (sv_uploads sv). upload_ok (snd p))"

lemma bt_ok_remove: "bt_ok m \<Longrightarrow> bt_ok (bt_remove k m)"
  by (auto simp: bt_ok_def bt_remove_def sorted_wrt_map intro: sorted_wrt_filter)

lemma staged_remove: "bt_ok m \<Longrightarrow> bt_get k m = Some up \<Longrightarrow> staged m = staged (bt_remove k m) + pu_expected_total_bytes up"
proof (induction m)
  case (Cons p m)
  show ?case
  proof (cases "fst p = k")
    case True
    then have "\<forall>q \<in> set m. fst q \<noteq> k" using Cons.prems(1) by (auto simp: bt_ok_Cons)
    then have "bt_remove k (p # m) = m" using True by (simp add: bt_remove_def filter_id_conv)
    then show ?thesis using Cons.prems(2) True by (cases p) (auto simp: staged_def bt_get_def)
  next
    case False
    then show ?thesis using Cons by (cases p) (auto simp: staged_def bt_get_def bt_remove_def bt_ok_Cons)
  qed
qed simp

lemma staged_insert:
  "bt_ok m \<Longrightarrow> staged (bt_insert k up m) = staged (bt_remove k m) + pu_expected_total_bytes up"
proof (induction k up m rule: bt_insert.induct)
  case (2 k v k' v' m)
  have "k' < k \<or> k = k' \<or> k < k'" by auto
  moreover have "bt_remove k m = m" if "k \<le> k'" using that "2.prems" by (force simp: bt_remove_def filter_id_conv bt_ok_Cons)
  ultimately show ?case using 2 by (auto simp: staged_def bt_remove_def bt_ok_Cons)
qed (simp add: staged_def bt_remove_def)

lemma bt_remove_absent: "bt_get k m = None \<Longrightarrow> bt_remove k m = m"
  by (auto simp: bt_remove_def bt_get_def map_of_eq_None_iff filter_id_conv)

lemma bt_get_mem: "bt_get k m = Some v \<Longrightarrow> (k, v) \<in> set m"
  by (simp add: bt_get_def map_of_SomeD)

lemma bt_insert_mem: "p \<in> set (bt_insert k v m) \<Longrightarrow> p = (k, v) \<or> p \<in> set m"
  by (induction k v m rule: bt_insert.induct) (auto split: if_splits)

lemma bt_insert_length: "bt_get k m \<noteq> None \<Longrightarrow> bt_ok m \<Longrightarrow> length (bt_insert k v m) = length m"
  by (simp add: bt_length_insert)

lemma remove_upload_ok: "uploads_ok sv \<Longrightarrow> uploads_ok (snd (remove_upload u sv))"
proof (cases "bt_get u (sv_uploads sv)")
  case (Some up)
  assume "uploads_ok sv"
  then show ?thesis using Some staged_remove [OF _ Some]
    by (auto simp: remove_upload_def uploads_ok_def bt_ok_remove)
       (auto simp: bt_remove_def intro: le_trans [OF length_filter_le])
qed (simp add: remove_upload_def)

lemma remove_upload_keys: "fst ` set (sv_uploads (snd (remove_upload u sv))) \<subseteq> fst ` set (sv_uploads sv)"
  by (auto simp: remove_upload_def bt_remove_def split: option.splits)

lemma put_upload_ok:
  assumes "uploads_ok sv" "bt_get u (sv_uploads sv) = Some up" "upload_ok up'"
    "pu_expected_total_bytes up' = pu_expected_total_bytes up"
  shows "uploads_ok (put_upload u up' sv)"
  using assms staged_insert [of "sv_uploads sv" u up'] staged_remove [of "sv_uploads sv" u up]
  by (auto simp: uploads_ok_def put_upload_def bt_insert_length dest!: bt_insert_mem)

lemma put_upload_keys:
  assumes "bt_get u (sv_uploads sv) = Some up"
  shows "fst ` set (sv_uploads (put_upload u up' sv)) = fst ` set (sv_uploads sv)"
proof -
  have "u \<in> fst ` set (sv_uploads sv)" using assms by (metis bt_get_None_iff option.discI)
  then show ?thesis by (simp add: put_upload_def bt_keys_insert insert_absorb)
qed

lemma remove_uploads_ok: "uploads_ok sv \<Longrightarrow> uploads_ok (remove_uploads us sv)"
  by (induction us arbitrary: sv) (simp_all add: remove_upload_ok)

lemma remove_uploads_keys: "fst ` set (sv_uploads (remove_uploads us sv)) \<subseteq> fst ` set (sv_uploads sv)"
proof (induction us arbitrary: sv)
  case (Cons u us)
  show ?case using Cons [of "snd (remove_upload u sv)"] remove_upload_keys [of u sv] by simp
qed simp

lemma append_upload_ok:
  assumes "uploads_ok sv"
  shows "uploads_ok (snd (append_upload env u sequence offset data now sv))"
proof (cases "bt_get u (sv_uploads sv)")
  case (Some up)
  have up: "upload_ok up" using assms bt_get_mem [OF Some] by (auto simp: uploads_ok_def)
  have put: "uploads_ok (put_upload u (up\<lparr>pu_bytes := pu_bytes up @ d, pu_next_sequence := s, pu_last_activity := l\<rparr>) sv)"
    if "d \<noteq> []" "length (pu_bytes up) + length d \<le> pu_expected_total_bytes up" "unat s \<le> Suc (unat (pu_next_sequence up))" for d s l
  proof (rule put_upload_ok [OF assms Some])
    have "1 \<le> length d" using that(1) by (cases d) auto
    then show "upload_ok (up\<lparr>pu_bytes := pu_bytes up @ d, pu_next_sequence := s, pu_last_activity := l\<rparr>)"
      using up that by (auto simp: upload_ok_def)
  qed simp
  have "uploads_ok (put_upload u (up\<lparr>pu_bytes := pu_bytes up @ d\<rparr>) sv)"
    if "d \<noteq> []" "length (pu_bytes up) + length d \<le> pu_expected_total_bytes up" for d
    using put [OF that, of "pu_next_sequence up" "pu_last_activity up"] by simp
  then show ?thesis using Some put remove_upload_ok [OF assms] checked_add_1
    by (auto simp: append_upload_def usize_checked_add_def Let_def assms split: option.splits if_splits)
qed (auto simp: append_upload_def assms remove_upload_ok [OF assms] split: option.splits)

text \<open>Calls of the repository leave the uploads alone.\<close>

definition same_uploads :: "notes_service \<Rightarrow> notes_service \<Rightarrow> bool" where
  "same_uploads sv sv' \<longleftrightarrow> sv_uploads sv' = sv_uploads sv \<and>
     sv_reserved_staged_bytes sv' = sv_reserved_staged_bytes sv \<and> sv_accepting_uploads sv' = sv_accepting_uploads sv"

lemma same_uploads_ok: "same_uploads sv sv' \<Longrightarrow> uploads_ok sv' = uploads_ok sv"
  by (simp add: same_uploads_def uploads_ok_def)

lemma repository_call_same: "repository_call m sv = (r, sv') \<Longrightarrow> same_uploads sv sv'"
  by (auto simp: repository_call_def same_uploads_def split: prod.splits)

lemma same_uploads_refl [simp]: "same_uploads sv sv"
  by (simp add: same_uploads_def)

lemma reads_same:
  "same_uploads sv (snd (service_list env q sv))" "same_uploads sv (snd (service_get env i sv))"
  "same_uploads sv (snd (service_export env q f sv))"
  by (auto simp: service_list_def service_get_def service_export_def Let_def dest: repository_call_same
      split: prod.splits sum.splits)

lemma writes_same:
  "same_uploads sv (snd (service_delete env i e now_ms sv))" "same_uploads sv (snd (service_restore env i e now_ms sv))"
  "same_uploads sv (snd (commit_draft env uuid intent meta body now_ms sv))"
  by (auto simp: service_delete_def service_restore_def commit_draft_def Let_def dest: repository_call_same
      split: prod.splits)

lemma commit_upload_ok:
  assumes "uploads_ok sv"
  shows "uploads_ok (snd (commit_upload env uuid u intent now_ms sv))"
    "fst ` set (sv_uploads (snd (commit_upload env uuid u intent now_ms sv))) \<subseteq> fst ` set (sv_uploads sv)"
proof -
  obtain r sv' where sv': "remove_upload u sv = (r, sv')" by (metis surj_pair)
  then have ok: "uploads_ok sv'" "fst ` set (sv_uploads sv') \<subseteq> fst ` set (sv_uploads sv)"
    using remove_upload_ok [OF assms, of u] remove_upload_keys [of u sv] by simp_all
  have same: "same_uploads sv' (snd (commit_upload env uuid u intent now_ms sv))"
    unfolding commit_upload_def sv' using writes_same(3) by (cases r) simp_all
  show "uploads_ok (snd (commit_upload env uuid u intent now_ms sv))" using same_uploads_ok [OF same] ok(1) by simp
  show "fst ` set (sv_uploads (snd (commit_upload env uuid u intent now_ms sv))) \<subseteq> fst ` set (sv_uploads sv)"
    using same ok(2) unfolding same_uploads_def by simp
qed

lemma begin_upload_ok:
  assumes "uploads_ok sv" "bt_get u (sv_uploads sv) = None" "n \<le> MAX_NOTE_BODY_BYTES"
  shows "uploads_ok (snd (begin_upload u intent meta n sha now sv))"
    "fst ` set (sv_uploads (snd (begin_upload u intent meta n sha now sv))) \<subseteq> insert u (fst ` set (sv_uploads sv))"
proof -
  define up where "up = \<lparr>pu_intent = intent, pu_meta = meta, pu_expected_total_bytes = n, pu_expected_sha256 = sha,
      pu_bytes = [], pu_next_sequence = 0, pu_last_activity = now\<rparr>"
  define sv' where "sv' = sv\<lparr>sv_reserved_staged_bytes := sv_reserved_staged_bytes sv + n, sv_uploads := bt_insert u up (sv_uploads sv)\<rparr>"
  have ok: "bt_ok (sv_uploads sv)" using assms(1) by (simp add: uploads_ok_def)
  have up: "upload_ok up" "pu_expected_total_bytes up = n" using assms(3) by (simp_all add: up_def upload_ok_def)
  have new: "uploads_ok sv'" if "length (sv_uploads sv) < MAX_NOTE_UPLOAD_SESSIONS" "sv_reserved_staged_bytes sv + n \<le> MAX_NOTE_STAGED_BYTES"
    using that assms(1) up staged_insert [OF ok, of u up] bt_remove_absent [OF assms(2)] bt_length_insert [OF ok, of u up] assms(2)
    unfolding uploads_ok_def sv'_def by (auto dest!: bt_insert_mem)
  have cases: "snd (begin_upload u intent meta n sha now sv) = sv \<or>
      (snd (begin_upload u intent meta n sha now sv) = sv' \<and> length (sv_uploads sv) < MAX_NOTE_UPLOAD_SESSIONS \<and>
       sv_reserved_staged_bytes sv + n \<le> MAX_NOTE_STAGED_BYTES)"
    unfolding begin_upload_def sv'_def up_def by (simp add: usize_checked_add_def not_le not_less)
  then show "uploads_ok (snd (begin_upload u intent meta n sha now sv))" using new assms(1) by auto
  show "fst ` set (sv_uploads (snd (begin_upload u intent meta n sha now sv))) \<subseteq> insert u (fst ` set (sv_uploads sv))"
    using cases by (elim disjE conjE) (simp_all add: sv'_def bt_keys_insert, blast)
qed

lemma append_upload_keys:
  "fst ` set (sv_uploads (snd (append_upload env u sequence offset data now sv))) \<subseteq> fst ` set (sv_uploads sv)"
  using remove_upload_keys [of u sv] put_upload_keys [of u sv]
  by (simp add: append_upload_def Let_def split: option.splits)

text \<open>The state after a command that passed the validation.\<close>

lemma execute_next:
  assumes "validate_command (se_is_uuid env) command = Ok x"
  shows "snd (execute_notes env uuid u command now_ms now sv) =
    (let sv1 = snd (cleanup_expired now sv) in case command of
        CmdList query \<Rightarrow> snd (service_list env query sv1)
      | CmdGet i \<Rightarrow> snd (service_get env i sv1)
      | CmdWriteInline intent meta body \<Rightarrow> snd (commit_draft env uuid intent meta body now_ms sv1)
      | CmdDelete i expected \<Rightarrow> snd (service_delete env i expected now_ms sv1)
      | CmdRestore i expected \<Rightarrow> snd (service_restore env i expected now_ms sv1)
      | CmdExport query format \<Rightarrow> snd (service_export env query format sv1)
      | CmdUploadBegin intent meta total_bytes sha \<Rightarrow> snd (begin_upload u intent meta (unat total_bytes) sha now sv1)
      | CmdUploadAppend upload_id sequence offset data \<Rightarrow> snd (append_upload env upload_id sequence offset data now sv1)
      | CmdUploadCommit upload_id intent \<Rightarrow> snd (commit_upload env uuid upload_id intent now_ms sv1)
      | CmdUploadAbort upload_id \<Rightarrow> snd (remove_upload upload_id sv1))"
  using assms by (simp add: execute_notes_def Let_def abort_upload_def split: notes_command.split)

lemma execute_uploads_ok:
  assumes "uploads_ok sv" "u \<notin> fst ` set (sv_uploads sv)"
  shows "uploads_ok (snd (execute_notes env uuid u command now_ms now sv)) \<and>
    fst ` set (sv_uploads (snd (execute_notes env uuid u command now_ms now sv))) \<subseteq> insert u (fst ` set (sv_uploads sv))"
proof (cases "validate_command (se_is_uuid env) command")
  case (Inl e)
  then show ?thesis using assms by (auto simp: execute_notes_def)
next
  case (Inr x)
  define sv1 where "sv1 = snd (cleanup_expired now sv)"
  have sv1: "uploads_ok sv1" "fst ` set (sv_uploads sv1) \<subseteq> fst ` set (sv_uploads sv)"
    unfolding sv1_def cleanup_expired_def Let_def using remove_uploads_ok [OF assms(1)] remove_uploads_keys by simp_all
  then have fresh: "bt_get u (sv_uploads sv1) = None" using assms(2) by (auto simp: bt_get_None_iff)
  have same: "uploads_ok sv2 \<and> fst ` set (sv_uploads sv2) \<subseteq> insert u (fst ` set (sv_uploads sv))" if "same_uploads sv1 sv2" for sv2
    using that sv1 same_uploads_ok [OF that] by (auto simp: same_uploads_def)
  note cmd = execute_next [OF Inr, of uuid u now_ms now sv, unfolded Let_def, folded sv1_def]
  show ?thesis
  proof (cases command)
    case (CmdUploadBegin intent meta n sha)
    then have "unat n \<le> MAX_NOTE_BODY_BYTES"
      using Inr by (auto simp: validate_command_def and_then_eq_Ok split: if_splits)
    from begin_upload_ok [OF sv1(1) fresh this, of intent meta sha now] show ?thesis
      unfolding cmd using sv1(2) by (simp add: CmdUploadBegin) blast
  next
    case (CmdUploadAppend upload_id sequence offset data)
    then show ?thesis unfolding cmd
      using append_upload_ok [OF sv1(1), of env upload_id sequence offset data now]
        append_upload_keys [of env upload_id sequence offset data now sv1] sv1(2) by (simp, blast)
  next
    case (CmdUploadCommit upload_id intent)
    then show ?thesis using commit_upload_ok [OF sv1(1), of env uuid upload_id intent now_ms] sv1(2) unfolding cmd by (simp, blast)
  next
    case (CmdUploadAbort upload_id)
    then show ?thesis using remove_upload_ok [OF sv1(1), of upload_id] remove_upload_keys [of upload_id sv1] sv1(2) unfolding cmd by (simp, blast)
  qed (unfold cmd, simp_all add: same reads_same writes_same)
qed

section \<open>Runs of the service\<close>

text \<open>A command with the ids and the clock readings of its run.\<close>

record service_step =
  st_note_id :: string
  st_upload_id :: uuid
  st_command :: notes_command
  st_now_ms :: i64
  st_now :: nat

fun run_service :: "service_env \<Rightarrow> service_step list \<Rightarrow> notes_service \<Rightarrow> notes_service" where
  "run_service env [] sv = sv"
| "run_service env (s # ss) sv =
     run_service env ss (snd (execute_notes env (st_note_id s) (st_upload_id s) (st_command s) (st_now_ms s) (st_now s) sv))"

lemma run_service_uploads_ok:
  "uploads_ok sv \<Longrightarrow> distinct (map st_upload_id ss) \<Longrightarrow> set (map st_upload_id ss) \<inter> fst ` set (sv_uploads sv) = {} \<Longrightarrow>
   uploads_ok (run_service env ss sv)"
proof (induction ss arbitrary: sv)
  case (Cons s ss)
  define sv' where "sv' = snd (execute_notes env (st_note_id s) (st_upload_id s) (st_command s) (st_now_ms s) (st_now s) sv)"
  have "uploads_ok sv'" "fst ` set (sv_uploads sv') \<subseteq> insert (st_upload_id s) (fst ` set (sv_uploads sv))"
    unfolding sv'_def using execute_uploads_ok [OF Cons.prems(1), of "st_upload_id s"] Cons.prems(3) by auto
  moreover have "set (map st_upload_id ss) \<inter> insert (st_upload_id s) (fst ` set (sv_uploads sv)) = {}"
    using Cons.prems(2,3) by auto
  ultimately have "uploads_ok (run_service env ss sv')" using Cons.prems(2) by (intro Cons.IH) (simp, simp, blast)
  then show ?case by (simp add: sv'_def)
qed simp

text \<open>C20: The budget of the staged uploads holds over every run: whatever commands clients send, in any
  order, with any statement of the database failing and any upload expiring, there are never
  more than four staged uploads, the reserved bytes are exactly the sum of what the staged
  uploads announced and never above sixteen mebibytes, and no upload holds more bytes than it
  announced. The ids the service draws for new uploads are pairwise different.
\<close>

theorem upload_budget_kept:
  assumes "distinct (map st_upload_id steps)" and sv_def: "sv = run_service env steps (new_service db)"
  shows "length (sv_uploads sv) \<le> 4 \<and>
    sv_reserved_staged_bytes sv = (\<Sum>p\<leftarrow>sv_uploads sv. pu_expected_total_bytes (snd p)) \<and>
    sv_reserved_staged_bytes sv \<le> 16 * 1024 * 1024 \<and>
    list_all (\<lambda>p. length (pu_bytes (snd p)) \<le> pu_expected_total_bytes (snd p)) (sv_uploads sv)"
proof -
  have "uploads_ok (new_service db)" by (simp add: uploads_ok_def new_service_def staged_def)
  then have "uploads_ok sv" unfolding sv_def using assms(1)
    by (rule run_service_uploads_ok) (simp add: new_service_def)
  then show ?thesis
    by (auto simp: uploads_ok_def staged_def upload_ok_def list_all_iff MAX_NOTE_UPLOAD_SESSIONS_def MAX_NOTE_STAGED_BYTES_def)
qed

section \<open>Chunked uploads\<close>

lemma hex_digit_ok:
  assumes "n < 16"
  shows "is_ascii_digit (hex_digit n) \<or> (97 \<le> (of_char (hex_digit n) :: nat) \<and> (of_char (hex_digit n) :: nat) \<le> 102)"
  using assms by (auto simp: hex_digit_def is_ascii_digit_def)

lemma hex_byte_ok:
  "list_all (\<lambda>c. is_ascii_digit c \<or> (97 \<le> (of_char c :: nat) \<and> (of_char c :: nat) \<le> 102)) (hex_byte b)"
proof -
  have "unat b < 256" using unat_less_pow [of b] by simp
  then show ?thesis using hex_digit_ok [of "unat b div 16"] hex_digit_ok [of "unat b mod 16"] by (simp add: hex_byte_def)
qed

lemma sha256_hex_valid:
  assumes "length (se_digest env bs) = 32"
  shows "validate_sha256 (sha256_hex env bs) = Ok ()"
proof -
  have "length (sha256_hex env bs) = 64"
    using assms by (simp add: sha256_hex_def length_concat comp_def hex_byte_def sum_list_triv)
  moreover have "list_all (\<lambda>c. is_ascii_digit c \<or> (97 \<le> (of_char c :: nat) \<and> (of_char c :: nat) \<le> 102)) (sha256_hex env bs)"
    unfolding sha256_hex_def using hex_byte_ok by (auto simp: list_all_iff)
  ultimately show ?thesis by (simp add: validate_sha256_def)
qed

lemma bt_insert_insert: "bt_ok m \<Longrightarrow> bt_insert k v (bt_insert k w m) = bt_insert k v m"
  by (induction k w m rule: bt_insert.induct) (auto simp: bt_ok_Cons)

lemma bt_remove_insert: "bt_ok m \<Longrightarrow> bt_get k m = None \<Longrightarrow> bt_remove k (bt_insert k v m) = m"
proof (induction k v m rule: bt_insert.induct)
  case (2 k v k' v' m)
  then have "k \<noteq> k'" "bt_get k m = None" by (auto simp: bt_get_def split: if_splits)
  moreover have "bt_remove k m = m" using \<open>bt_get k m = None\<close> by (rule bt_remove_absent)
  ultimately show ?case using 2 by (auto simp: bt_remove_def bt_ok_Cons)
qed (simp add: bt_remove_def)

lemma remove_uploads_uploads:
  "sv_uploads (remove_uploads us sv) = filter (\<lambda>p. fst p \<notin> set us) (sv_uploads sv)"
proof (induction us arbitrary: sv)
  case (Cons u us)
  have "sv_uploads (snd (remove_upload u sv)) = bt_remove u (sv_uploads sv)"
    by (auto simp: remove_upload_def bt_remove_absent split: option.splits)
  then show ?case using Cons by (simp add: bt_remove_def)
qed simp

lemma remove_uploads_rest:
  "sv_repository (remove_uploads us sv) = sv_repository sv \<and>
   sv_accepting_uploads (remove_uploads us sv) = sv_accepting_uploads sv"
proof (induction us arbitrary: sv)
  case (Cons u us)
  then show ?case by (auto simp: remove_upload_def split: option.splits)
qed simp

text \<open>The reservation is the sum of what the uploads announced.\<close>

definition tallied :: "notes_service \<Rightarrow> bool" where
  "tallied sv \<longleftrightarrow> bt_ok (sv_uploads sv) \<and> sv_reserved_staged_bytes sv = staged (sv_uploads sv)"

lemma uploads_ok_tallied: "uploads_ok sv \<Longrightarrow> tallied sv"
  by (simp add: uploads_ok_def tallied_def)

lemma remove_uploads_tallied: "tallied sv \<Longrightarrow> tallied (remove_uploads us sv)"
proof (induction us arbitrary: sv)
  case (Cons u us)
  then have "tallied (snd (remove_upload u sv))"
    using staged_remove by (auto simp: tallied_def remove_upload_def bt_ok_remove split: option.splits)
  then show ?case by (simp add: Cons.IH)
qed simp

text \<open>The service without the uploads that have expired.\<close>

definition swept :: "nat \<Rightarrow> notes_service \<Rightarrow> notes_service" where
  "swept now sv =
     (let kept = filter (\<lambda>p. \<not> upload_expired now (snd p)) (sv_uploads sv)
      in sv\<lparr>sv_uploads := kept, sv_reserved_staged_bytes := staged kept\<rparr>)"

lemma cleanup_swept: "tallied sv \<Longrightarrow> snd (cleanup_expired now sv) = swept now sv"
proof -
  assume ok: "tallied sv"
  let ?us = "map fst (filter (\<lambda>p. upload_expired now (snd p)) (sv_uploads sv))"
  have "distinct (map fst (sv_uploads sv))" using ok by (simp add: tallied_def bt_ok_distinct)
  then have "filter (\<lambda>p. fst p \<notin> set ?us) (sv_uploads sv) = filter (\<lambda>p. \<not> upload_expired now (snd p)) (sv_uploads sv)"
    by (intro filter_cong refl) (force dest: eq_key_imp_eq_value)
  moreover have "tallied (remove_uploads ?us sv)" by (rule remove_uploads_tallied [OF ok])
  ultimately show ?thesis using remove_uploads_rest [of ?us sv] remove_uploads_uploads [of ?us sv]
    by (auto simp: cleanup_expired_def swept_def tallied_def Let_def intro!: notes_service.equality)
qed

lemma swept_tallied: "tallied sv \<Longrightarrow> tallied (swept now sv)"
  unfolding cleanup_swept [symmetric] by (simp add: cleanup_expired_def Let_def remove_uploads_tallied)

lemma expired_later: "upload_expired n up \<Longrightarrow> n \<le> n' \<Longrightarrow> upload_expired n' up"
  by (auto simp: upload_expired_def)

lemma swept_swept: "n \<le> n' \<Longrightarrow> swept n' (swept n sv) = swept n' sv"
proof -
  assume "n \<le> n'"
  then have "filter (\<lambda>p. \<not> upload_expired n (snd p) \<and> \<not> upload_expired n' (snd p)) (sv_uploads sv) =
      filter (\<lambda>p. \<not> upload_expired n' (snd p)) (sv_uploads sv)"
    by (intro filter_cong refl) (auto dest: expired_later)
  then show ?thesis by (simp add: swept_def Let_def conj_commute)
qed

lemma swept_uploads: "sv_uploads (swept n sv) = filter (\<lambda>p. \<not> upload_expired n (snd p)) (sv_uploads sv)"
  by (simp add: swept_def Let_def)

lemma swept_get_None: "bt_get u (sv_uploads sv) = None \<Longrightarrow> bt_get u (sv_uploads (swept n sv)) = None"
  by (auto simp: swept_def Let_def bt_get_None_iff)

lemma bt_insert_front: "\<forall>p \<in> set m. k < fst p \<Longrightarrow> bt_insert k v m = (k, v) # m"
  by (cases m) auto

lemma filter_bt_insert:
  "P (k, v) \<Longrightarrow> bt_ok m \<Longrightarrow> bt_get k m = None \<Longrightarrow> filter P (bt_insert k v m) = bt_insert k v (filter P m)"
proof (induction k v m rule: bt_insert.induct)
  case (2 k v k' v' m)
  have ne: "k \<noteq> k'" "bt_get k m = None" using "2.prems"(3) by (auto simp: bt_get_def split: if_splits)
  have "bt_insert k v (filter P m) = (k, v) # filter P m" if "k < k'"
    using that "2.prems"(2) by (intro bt_insert_front) (force simp: bt_ok_Cons)
  then show ?case using 2 ne by (auto simp: bt_ok_Cons)
qed simp

text \<open>The commands that carry a body as base64 chunks, numbered from \<open>k\<close> and from the offset \<open>off\<close>.\<close>

fun append_commands :: "uuid \<Rightarrow> nat \<Rightarrow> nat \<Rightarrow> (string \<times> string) list \<Rightarrow> notes_command list" where
  "append_commands u k off [] = []"
| "append_commands u k off ((data, chunk) # rest) =
     CmdUploadAppend u (of_nat k) (of_nat off) data # append_commands u (k + 1) (off + length chunk) rest"

text \<open>A sequence of commands, each with its wall clock and its instant; instants that follow each
  other within the idle limit.\<close>

fun run_timed :: "service_env \<Rightarrow> string \<Rightarrow> uuid \<Rightarrow> (notes_command \<times> i64 \<times> nat) list \<Rightarrow> notes_service \<Rightarrow> notes_service" where
  "run_timed env uuid u [] sv = sv"
| "run_timed env uuid u ((c, now_ms, now) # cs) sv = run_timed env uuid u cs (snd (execute_notes env uuid u c now_ms now sv))"

definition paced :: "nat list \<Rightarrow> bool" where
  "paced = successively (\<lambda>a b. a \<le> b \<and> b - a < NOTE_UPLOAD_IDLE_TTL)"

definition chunk_ok :: "service_env \<Rightarrow> string \<times> string \<Rightarrow> bool" where
  "chunk_ok env p \<longleftrightarrow> se_base64 env (fst p) = Some (snd p) \<and> snd p \<noteq> [] \<and>
     length (snd p) \<le> NOTE_CONTENT_CHUNK_BYTES \<and> length (fst p) \<le> MAX_NOTE_CONTENT_BASE64_BYTES"

text \<open>The service with one more upload, \<open>k\<close> chunks of which have arrived.\<close>

definition staging ::
  "uuid \<Rightarrow> write_intent \<Rightarrow> draft_meta \<Rightarrow> nat \<Rightarrow> string \<Rightarrow> nat \<Rightarrow> nat \<Rightarrow> string \<Rightarrow> notes_service \<Rightarrow> notes_service" where
  "staging u intent meta n sha now k bs sv =
     sv\<lparr>sv_reserved_staged_bytes := sv_reserved_staged_bytes sv + n,
        sv_uploads := bt_insert u \<lparr>pu_intent = intent, pu_meta = meta, pu_expected_total_bytes = n, pu_expected_sha256 = sha,
           pu_bytes = bs, pu_next_sequence = of_nat k, pu_last_activity = now\<rparr> (sv_uploads sv)\<rparr>"

lemma staging_tallied:
  assumes "tallied sv" "bt_get u (sv_uploads sv) = None"
  shows "tallied (staging u intent meta n sha now k bs sv)"
  using assms by (simp add: tallied_def staging_def staged_insert bt_remove_absent)

text \<open>Time passes, but less than the idle limit: the upload stays, others may expire.\<close>

lemma cleanup_staging_later:
  assumes "tallied sv" "bt_get u (sv_uploads sv) = None" "a \<le> b" "b - a < NOTE_UPLOAD_IDLE_TTL"
  shows "snd (cleanup_expired b (staging u intent meta n sha a k bs (swept a sv))) = staging u intent meta n sha a k bs (swept b sv)"
proof -
  let ?up = "\<lparr>pu_intent = intent, pu_meta = meta, pu_expected_total_bytes = n, pu_expected_sha256 = sha,
           pu_bytes = bs, pu_next_sequence = of_nat k, pu_last_activity = a\<rparr>"
  let ?kept = "filter (\<lambda>p. \<not> upload_expired b (snd p)) (sv_uploads (swept a sv))"
  note t = swept_tallied [OF assms(1)] swept_get_None [OF assms(2)]
  have "\<not> upload_expired b ?up" using assms(3,4) by (simp add: upload_expired_def)
  then have kept: "filter (\<lambda>p. \<not> upload_expired b (snd p)) (bt_insert u ?up (sv_uploads (swept a sv))) = bt_insert u ?up ?kept"
    using t by (intro filter_bt_insert) (auto simp: tallied_def)
  have k: "?kept = sv_uploads (swept b sv)" using swept_swept [OF assms(3)] by (simp only: swept_uploads [symmetric])
  have "staged (bt_insert u ?up (sv_uploads (swept b sv))) = sv_reserved_staged_bytes (swept b sv) + n"
    using t [of b] by (simp add: staged_insert tallied_def bt_remove_absent)
  moreover have "snd (cleanup_expired b (staging u intent meta n sha a k bs (swept a sv))) =
      swept b (staging u intent meta n sha a k bs (swept a sv))"
    by (rule cleanup_swept [OF staging_tallied [OF t]])
  ultimately show ?thesis using kept k
    by (intro notes_service.equality) (simp_all add: staging_def swept_def [of b "staging _ _ _ _ _ _ _ _ _"] Let_def, simp_all add: swept_def Let_def)
qed

lemma append_step:
  assumes "tallied sv" "bt_get u (sv_uploads sv) = None" "u \<noteq> 0" "chunk_ok env (data, chunk)" "length bs + length chunk \<le> n"
    "n \<le> MAX_NOTE_BODY_BYTES" "k \<le> length bs" "a \<le> b" "b - a < NOTE_UPLOAD_IDLE_TTL"
  shows "snd (execute_notes env uuid v (CmdUploadAppend u (of_nat k) (of_nat (length bs)) data) now_ms b
      (staging u intent meta n sha a k bs (swept a sv))) = staging u intent meta n sha b (k + 1) (bs @ chunk) (swept b sv)"
proof -
  have small: "length bs < 2 ^ 32" "k + 1 < 2 ^ 32" "length bs + length chunk < 2 ^ 64"
    using assms(5-7) by (auto simp: MAX_NOTE_BODY_BYTES_def)
  then have "unat (of_nat (length bs) :: u32) = length bs" "unat (of_nat k :: u32) = k"
    by (simp_all add: unat_of_nat take_bit_nat_eq_self)
  then have seq: "checked_add (of_nat k :: u32) 1 = Some (of_nat (k + 1))" using small(2) by (simp add: checked_add_def)
  have "bt_ok (sv_uploads (swept b sv))" using swept_tallied [OF assms(1)] by (simp add: tallied_def)
  then show ?thesis
    using assms(3-5) small seq \<open>unat (of_nat (length bs) :: u32) = length bs\<close>
    unfolding execute_notes_def cleanup_staging_later [OF assms(1,2,8,9)] Let_def
    by (simp add: validate_command_def chunk_ok_def is_nil_def append_upload_def staging_def bt_get_insert usize_checked_add_def
        put_upload_def bt_insert_insert Let_def)
qed

lemma append_run:
  assumes "tallied sv" "bt_get u (sv_uploads sv) = None" "u \<noteq> 0" "n \<le> MAX_NOTE_BODY_BYTES"
  shows "list_all (chunk_ok env) pairs \<Longrightarrow> length bs + length (concat (map snd pairs)) \<le> n \<Longrightarrow> k \<le> length bs \<Longrightarrow>
    length stamps = length pairs \<Longrightarrow> paced (a # map snd stamps) \<Longrightarrow>
    run_timed env uuid v (zip (append_commands u k (length bs) pairs) stamps) (staging u intent meta n sha a k bs (swept a sv)) =
    staging u intent meta n sha (last (a # map snd stamps)) (k + length pairs) (bs @ concat (map snd pairs))
      (swept (last (a # map snd stamps)) sv)"
proof (induction pairs arbitrary: k bs a stamps)
  case (Cons p pairs)
  obtain data chunk where p: "p = (data, chunk)" by (cases p)
  obtain ms b rest where st: "stamps = (ms, b) # rest" using Cons.prems(4) by (cases stamps) auto
  have c: "chunk_ok env (data, chunk)" "1 \<le> length chunk" using Cons.prems(1) by (auto simp: p chunk_ok_def Suc_le_eq)
  have "snd (execute_notes env uuid v (CmdUploadAppend u (of_nat k) (of_nat (length bs)) data) ms b
      (staging u intent meta n sha a k bs (swept a sv))) = staging u intent meta n sha b (k + 1) (bs @ chunk) (swept b sv)"
    using Cons.prems c assms by (intro append_step) (auto simp: p st paced_def)
  then show ?case using Cons.IH [of "bs @ chunk" "k + 1" rest b] Cons.prems c(2) by (simp add: p st paced_def)
qed simp

text \<open>C19: A chunked upload is an inline write: beginning an upload, sending the body in any number of
  chunks and committing it ends in the same answer and the same state of the service as writing the
  body inline at the moment of the commit. The commands may come at different times, as long as
  time does not go back and each follows the one before within the idle limit of 60 seconds;
  uploads of others may expire meanwhile. It holds when, at the beginning and without the expired
  uploads, the service accepts uploads and has a slot and the bytes free; when the upload's id is
  new, no other command comes in between, every chunk is the base64 of at least one and at most
  45056 bytes, the inline write is a valid command, and the body is UTF-8; the digest has 32 bytes.
\<close>

theorem chunked_upload_is_inline:
  assumes "distinct (map st_upload_id steps)" and sv: "sv = run_service env steps (new_service db)"
    and "bt_get u (sv_uploads sv) = None" "u \<noteq> 0"
    and "free = snd (cleanup_expired begun sv)"
    and "sv_accepting_uploads free" "length (sv_uploads free) < MAX_NOTE_UPLOAD_SESSIONS"
      "sv_reserved_staged_bytes free + length body \<le> MAX_NOTE_STAGED_BYTES"
    and "list_all (chunk_ok env) chunks" "body = concat (map snd chunks)" "valid_utf8 body"
    and "length stamps = length chunks" "paced (begun # map snd stamps @ [now])"
    and valid: "validate_command (se_is_uuid env) (CmdWriteInline intent meta body) = Ok ()"
    and digest: "length (se_digest env body) = 32"
  shows "execute_notes env uuid u (CmdUploadCommit u intent) now_ms now
      (run_timed env uuid u
        ((CmdUploadBegin intent meta (of_nat (length body)) (sha256_hex env body), begun_ms, begun) #
         zip (append_commands u 0 0 chunks) stamps) sv) =
    execute_notes env uuid u (CmdWriteInline intent meta body) now_ms now sv"
proof -
  let ?sha = "sha256_hex env body" and ?b = "last (begun # map snd stamps)"
  have "uploads_ok (new_service db)" by (simp add: uploads_ok_def new_service_def staged_def)
  then have "uploads_ok sv" unfolding sv using assms(1)
    by (rule run_service_uploads_ok) (simp add: new_service_def)
  then have ok: "tallied sv" by (rule uploads_ok_tallied)
  have free: "free = swept begun sv" unfolding assms(5) by (rule cleanup_swept [OF ok])
  have v: "validate_intent (se_is_uuid env) intent = Ok ()" "validate_meta meta = Ok ()" "length body \<le> MAX_NOTE_BODY_BYTES"
    using valid by (auto simp: validate_command_def and_then_eq_Ok split: if_splits)
  then have n: "unat (of_nat (length body) :: u32) = length body"
    by (simp add: unat_of_nat take_bit_nat_eq_self MAX_NOTE_BODY_BYTES_def)
  have pace: "paced (begun # map snd stamps)" "?b \<le> now" "now - ?b < NOTE_UPLOAD_IDLE_TTL"
    using assms(13) successively_append_iff [of _ "begun # map snd stamps" "[now]"] by (auto simp: paced_def)
  have "snd (execute_notes env uuid u (CmdUploadBegin intent meta (of_nat (length body)) ?sha) begun_ms begun sv) =
      staging u intent meta (length body) ?sha begun 0 [] (swept begun sv)"
    using v n sha256_hex_valid [OF digest] assms(6-8)
    unfolding free execute_notes_def cleanup_swept [OF ok] Let_def
    by (simp add: validate_command_def begin_upload_def staging_def usize_checked_add_def MAX_NOTE_STAGED_BYTES_def)
  then have run: "run_timed env uuid u
      ((CmdUploadBegin intent meta (of_nat (length body)) ?sha, begun_ms, begun) # zip (append_commands u 0 0 chunks) stamps) sv =
      staging u intent meta (length body) ?sha ?b (length chunks) body (swept ?b sv)"
    using append_run [OF ok assms(3,4) v(3) assms(9) _ _ assms(12) pace(1), of "[]" 0 uuid u intent meta ?sha] assms(10) by simp
  have "remove_upload u (staging u intent meta (length body) ?sha ?b (length chunks) body (swept now sv)) =
      (Some \<lparr>pu_intent = intent, pu_meta = meta, pu_expected_total_bytes = length body, pu_expected_sha256 = ?sha,
         pu_bytes = body, pu_next_sequence = of_nat (length chunks), pu_last_activity = ?b\<rparr>, swept now sv)"
    using swept_tallied [OF ok] swept_get_None [OF assms(3), of now]
    by (simp add: tallied_def remove_upload_def staging_def bt_get_insert bt_remove_insert)
  then show ?thesis unfolding run execute_notes_def cleanup_staging_later [OF ok assms(3) pace(2,3)] cleanup_swept [OF ok] Let_def
    using v assms(4,11) valid
    by (simp add: validate_command_def is_nil_def commit_upload_def)
qed

section \<open>A small service\<close>

definition sample_service :: service_env where
  "sample_service = \<lparr>se_notes = sample_env, se_is_uuid = (\<lambda>s. s = ''a''), se_digest = (\<lambda>bs. replicate 32 0),
     se_base64 = (\<lambda>s. if s = ''Yg=='' then Some ''b'' else None),
     se_title_json = (\<lambda>s. Some (quote @ s @ quote)), se_note_json = (\<lambda>n. Some (n_title n)), se_utf8_error = (\<lambda>bs. [])\<rparr>"

definition sample_meta :: draft_meta where
  "sample_meta = \<lparr>dm_title = ''t'', dm_diary_date = None, dm_tags = [''Home''], dm_status = PublicActive, dm_pinned = False\<rparr>"

definition sample_steps :: "service_step list" where
  "sample_steps =
     [\<lparr>st_note_id = ''a'', st_upload_id = 3, st_command = CmdUploadBegin IntentCreate sample_meta 1 (sha256_hex sample_service ''b''), st_now_ms = 5, st_now = 0\<rparr>]"

definition sample_write :: "service_step list" where
  "sample_write =
     [\<lparr>st_note_id = ''a'', st_upload_id = 3, st_command = CmdWriteInline IntentCreate sample_meta ''b'', st_now_ms = 5, st_now = 0\<rparr>]"

lemma sample_service_valid:
  "validate_meta sample_meta = Ok ()" "validate_sha256 (sha256_hex sample_service bs) = Ok ()"
  "validate_command (se_is_uuid sample_service) (CmdWriteInline IntentCreate sample_meta ''b'') = Ok ()"
proof -
  show "validate_meta sample_meta = Ok ()"
    by (simp add: validate_meta_def sample_meta_def char_count_def utf8_cont_def MAX_NOTE_TITLE_CHARS_def MAX_NOTE_TAGS_def
        tag_invalid_def MAX_NOTE_TAG_CHARS_def)
  then show "validate_command (se_is_uuid sample_service) (CmdWriteInline IntentCreate sample_meta ''b'') = Ok ()"
    by (simp add: validate_command_def validate_intent_def MAX_NOTE_BODY_BYTES_def)
  show "validate_sha256 (sha256_hex sample_service bs) = Ok ()" by (rule sha256_hex_valid) (simp add: sample_service_def)
qed

lemma sample_begun:
  "run_service sample_service sample_steps (new_service (empty_notes, [])) =
     \<lparr>sv_repository = (empty_notes, []), sv_uploads =
       [(3, \<lparr>pu_intent = IntentCreate, pu_meta = sample_meta, pu_expected_total_bytes = 1,
             pu_expected_sha256 = sha256_hex sample_service ''b'', pu_bytes = [], pu_next_sequence = 0, pu_last_activity = 0\<rparr>)],
      sv_reserved_staged_bytes = 1, sv_accepting_uploads = True\<rparr>"
  by (simp add: sample_steps_def execute_notes_def validate_command_def validate_intent_def sample_service_valid cleanup_expired_def begin_upload_def new_service_def
      usize_checked_add_def MAX_NOTE_UPLOAD_SESSIONS_def MAX_NOTE_STAGED_BYTES_def MAX_NOTE_BODY_BYTES_def)

theorem upload_budget_kept_witness:
  "length (sv_uploads (run_service sample_service sample_steps (new_service (empty_notes, [])))) \<le> 4 \<and>
   sv_reserved_staged_bytes (run_service sample_service sample_steps (new_service (empty_notes, []))) = 1 \<and>
   sv_uploads (run_service sample_service sample_steps (new_service (empty_notes, []))) \<noteq> []"
  using upload_budget_kept [of sample_steps _ sample_service "(empty_notes, [])", OF _ refl]
  by (simp add: sample_begun sample_steps_def [THEN arg_cong, of "map st_upload_id"])

text \<open>One chunk, sent and committed with pauses; an older upload expires at the beginning.\<close>

theorem chunked_upload_is_inline_witness:
  "execute_notes sample_service ''a'' 7 (CmdUploadCommit 7 IntentCreate) 5 (NOTE_UPLOAD_IDLE_TTL + 2)
     (run_timed sample_service ''a'' 7
       [(CmdUploadBegin IntentCreate sample_meta 1 (sha256_hex sample_service ''b''), 1, NOTE_UPLOAD_IDLE_TTL),
        (CmdUploadAppend 7 0 0 ''Yg=='', 2, NOTE_UPLOAD_IDLE_TTL + 1)]
       (run_service sample_service sample_steps (new_service (empty_notes, [])))) =
   execute_notes sample_service ''a'' 7 (CmdWriteInline IntentCreate sample_meta ''b'') 5 (NOTE_UPLOAD_IDLE_TTL + 2)
     (run_service sample_service sample_steps (new_service (empty_notes, [])))"
proof -
  let ?sv = "run_service sample_service sample_steps (new_service (empty_notes, []))"
  have "chunk_ok sample_service (''Yg=='', ''b'')"
    by (simp add: chunk_ok_def sample_service_def NOTE_CONTENT_CHUNK_BYTES_def MAX_NOTE_CONTENT_BASE64_BYTES_def)
  moreover have "snd (cleanup_expired NOTE_UPLOAD_IDLE_TTL ?sv) =
      \<lparr>sv_repository = (empty_notes, []), sv_uploads = [], sv_reserved_staged_bytes = 0, sv_accepting_uploads = True\<rparr>"
    by (simp add: sample_begun cleanup_expired_def upload_expired_def remove_upload_def bt_get_def bt_remove_def)
  ultimately show ?thesis
    using chunked_upload_is_inline [where sv = ?sv and steps = sample_steps and u = 7 and body = "''b''" and chunks = "[(''Yg=='', ''b'')]"
        and env = sample_service and intent = IntentCreate and meta = sample_meta and begun = NOTE_UPLOAD_IDLE_TTL and begun_ms = 1
        and stamps = "[(2, NOTE_UPLOAD_IDLE_TTL + 1)]" and now = "NOTE_UPLOAD_IDLE_TTL + 2" and db = "(empty_notes, [])"
        and uuid = "''a''" and now_ms = 5, OF _ refl]
    by (simp add: sample_service_valid sample_begun MAX_NOTE_UPLOAD_SESSIONS_def MAX_NOTE_STAGED_BYTES_def paced_def NOTE_UPLOAD_IDLE_TTL_def
        valid_utf8_def bt_get_def) (simp add: sample_steps_def sample_service_def)
qed

end
