(* ===== verification/Notes_Answers.thy ===== *)
theory Notes_Answers
  imports Notes_Uploads "HOL-Library.Multiset"
begin

text \<open>
  What the notes service answers. Shown: every stored note passes the validation that a document
  goes through before it leaves the service, and a page is an exact slice of the sorted list of
  matching notes.
\<close>

section \<open>Every stored note can be shown\<close>

definition draft_valid :: "note_draft \<Rightarrow> bool" where
  "draft_valid d \<longleftrightarrow> char_count (d_title d) \<le> MAX_NOTE_TITLE_CHARS \<and> CHR 0x00 \<notin> set (d_title d) \<and>
     length (d_tags d) \<le> MAX_NOTE_TAGS \<and> (\<forall>tag \<in> set (d_tags d). \<not> tag_invalid tag) \<and>
     is_none_or (d_diary_date d) validate_date \<and> length (d_body_markdown d) \<le> MAX_NOTE_BODY_BYTES"

definition note_valid :: "service_env \<Rightarrow> note_data \<Rightarrow> bool" where
  "note_valid env n \<longleftrightarrow> se_is_uuid env (n_id n) \<and> draft_valid (draft_from_note n)"

definition service_ok :: "service_env \<Rightarrow> notes_service \<Rightarrow> bool" where
  "service_ok env sv \<longleftrightarrow> notes_ok (se_notes env) (fst (sv_repository sv)) \<and>
     (\<forall>i n. note_at (fst (sv_repository sv)) i = Some n \<longrightarrow> note_valid env n) \<and>
     (\<forall>p \<in> set (sv_uploads sv). validate_meta (pu_meta (snd p)) = Ok ())"

lemma collect_tags_from:
  "collect_tags env acc tags = Ok ps \<Longrightarrow> snd ` set ps \<subseteq> snd ` set acc \<union> trim ` set tags"
proof (induction env acc tags rule: collect_tags.induct)
  case (2 env acc tag rest)
  then obtain key where key: "normalize_tag_key env (trim tag) = Ok key"
    and rest: "collect_tags env (if list_ex (\<lambda>p. fst p = key) acc then acc else acc @ [(key, trim tag)]) rest = Ok ps"
    and c: "trim tag \<noteq> []" "\<not> MAX_TAG_CHARS < char_count (trim tag)"
    by (auto simp: Let_def and_then_eq_Ok split: if_splits)
  from "2.IH" [OF refl c rest] show ?case by (auto split: if_splits)
qed simp

lemma normalized_valid:
  assumes "validate_meta meta = Ok ()" "length body \<le> MAX_NOTE_BODY_BYTES"
    "normalize_draft env \<lparr>d_title = dm_title meta, d_body_markdown = body, d_diary_date = dm_diary_date meta,
       d_tags = dm_tags meta, d_status = st, d_pinned = dm_pinned meta\<rparr> = Ok d"
  shows "draft_valid d"
proof -
  obtain ps where ps: "collect_tags env [] (dm_tags meta) = Ok ps"
    and d: "d = \<lparr>d_title = dm_title meta, d_body_markdown = body, d_diary_date = dm_diary_date meta,
       d_tags = map snd (sort_key fst ps), d_status = st, d_pinned = dm_pinned meta\<rparr>"
    using assms(3) by (auto simp: normalize_draft_def and_then_eq_Ok split: if_splits)
  have tags: "\<not> tag_invalid tag" if t: "tag \<in> set (map snd (sort_key fst ps))" for tag
  proof -
    obtain p where p: "p \<in> set ps" "tag = snd p" using t by auto
    then obtain raw where raw: "raw \<in> set (dm_tags meta)" "tag = trim raw" using collect_tags_from [OF ps] by auto
    have "normalize_tag_key env tag = Ok (fst p)" "char_count tag \<le> MAX_TAG_CHARS"
      using collect_tags_Ok [OF ps] p by auto
    moreover have "CHR 0x00 \<notin> set raw" using assms(1) raw(1) by (auto simp: validate_meta_Ok tag_invalid_def)
    ultimately show ?thesis using raw(2) trim_set [of raw]
      by (auto simp: tag_invalid_def normalize_tag_key_def MAX_NOTE_TAG_CHARS_def MAX_TAG_CHARS_def split: if_splits)
  qed
  have "length (d_tags d) \<le> length (dm_tags meta)" using collect_tags_Ok [OF ps] by (simp add: d)
  then show ?thesis using assms(1,2) tags by (auto simp: draft_valid_def d validate_meta_Ok)
qed

lemma wrote_tables:
  assumes "notes_ok (se_notes env) t" "\<forall>i n. note_at t i = Some n \<longrightarrow> note_valid env n"
    "wrote (se_notes env) now_ms t n t'" "note_valid env n"
  shows "notes_ok (se_notes env) t' \<and> (\<forall>i n. note_at t' i = Some n \<longrightarrow> note_valid env n)"
  using wrote_ok [OF assms(1,3)] wrote_note_at [OF assms(3)] assms(2,4) by (auto split: if_splits)

lemma run_write_valid:
  assumes w: "run_write (se_notes env) w db = (r, db')" and ok: "notes_ok (se_notes env) (fst db)"
    "\<forall>i n. note_at (fst db) i = Some n \<longrightarrow> note_valid env n"
    and new: "\<And>uuid input now_ms d. w = WriteCreate uuid input now_ms \<Longrightarrow>
      normalize_draft (se_notes env) (draft_of_create input) = Ok d \<Longrightarrow> se_is_uuid env uuid \<and> draft_valid d"
    and save: "\<And>input now_ms d. w = WriteSave input now_ms \<Longrightarrow>
      normalize_draft (se_notes env) (s_draft input) = Ok d \<Longrightarrow> draft_valid d"
  shows "notes_ok (se_notes env) (fst db') \<and> (\<forall>i n. note_at (fst db') i = Some n \<longrightarrow> note_valid env n)"
proof (cases "write_target w")
  case None
  then obtain uuid input now_ms where c: "w = WriteCreate uuid input now_ms" by (cases w) auto
  show ?thesis
  proof (cases r)
    case (Inl e)
    then show ?thesis using w ok create_Err by (simp add: c)
  next
    case (Inr n)
    note cr = create_Ok [OF w [unfolded c run_write.simps Inr]]
    obtain d where d: "normalize_draft (se_notes env) (draft_of_create input) = Ok d" "n = new_note uuid d now_ms"
      using cr(4) by blast
    have "draft_from_note n = d" by (simp add: d new_note_def draft_from_note_def)
    then have "note_valid env n" using new [OF c d(1)] cr(2) by (simp add: note_valid_def)
    then show ?thesis by (rule wrote_tables [OF ok cr(1)])
  qed
next
  case (Some p)
  then obtain now_ms where rw: "rewrote (se_notes env) (write_change (se_notes env) w) now_ms (fst p) (snd p) (fst db) r (fst db')"
    using run_write_target [OF _ w ok(1)] by (metis prod.collapse)
  then consider "fst db' = fst db" | n cur where "note_at (fst db) (fst p) = Some cur" "n_id n = fst p"
    "write_change (se_notes env) w cur n" "wrote (se_notes env) now_ms (fst db) n (fst db')"
    unfolding rewrote_def by blast
  then show ?thesis
  proof cases
    case 1
    then show ?thesis using ok by simp
  next
    case (2 n cur)
    have cur: "note_valid env cur" "n_id cur = fst p" using ok(2) 2(1) note_at_id by blast+
    then have "draft_valid (draft_from_note n)"
      using 2(3) save by (cases w) (auto simp: note_valid_def)
    then have "note_valid env n" using cur 2(2) by (simp add: note_valid_def)
    then show ?thesis by (rule wrote_tables [OF ok 2(4)])
  qed
qed

lemma note_valid_document:
  assumes "notes_ok (se_notes env) t" "note_at t i = Some n" "note_valid env n" "\<forall>bs. length (se_digest env bs) = 32"
  shows "validate_summary (se_is_uuid env) (summary_of_note env n) = Ok ()"
    "validate_document (se_is_uuid env) (document_of_note env n) = Ok ()"
proof -
  have len: "length (n_body_markdown n) \<le> MAX_NOTE_BODY_BYTES"
    using assms(3) by (simp add: note_valid_def draft_valid_def draft_from_note_def)
  then have unat: "unat (of_nat (length (n_body_markdown n)) :: u32) = length (n_body_markdown n)"
    by (simp add: unat_of_nat take_bit_nat_eq_self MAX_NOTE_BODY_BYTES_def)
  obtain q where q: "q \<in> set (nt_notes t)" "note_from_row q = Some (n\<lparr>n_tags := []\<rparr>)" using note_at_SomeD [OF assms(2)] by metis
  have "0 < nw_revision q" "nw_revision q \<le> i64_max" using assms(1) q(1) by (auto simp: notes_ok_def note_row_ok_def)
  moreover have "u64_of_i64 (nw_revision q) = Some (n_revision n)" using note_from_row_Some(10) [OF q(2)] by simp
  ultimately have "i64_of_u64 (n_revision n) = Some (nw_revision q)" using i64_of_u64_of_i64 by blast
  then have "n_revision n \<noteq> 0" using \<open>0 < nw_revision q\<close> by (auto simp: i64_of_u64_def split: if_splits)
  moreover have "validate_meta \<lparr>dm_title = n_title n, dm_diary_date = n_diary_date n, dm_tags = n_tags n,
      dm_status = public_status_of (n_status n), dm_pinned = n_pinned n\<rparr> = Ok ()"
    using assms(3) by (simp add: validate_meta_Ok note_valid_def draft_valid_def draft_from_note_def)
  ultimately show s: "validate_summary (se_is_uuid env) (summary_of_note env n) = Ok ()"
    using assms(3,4) len unat sha256_hex_valid [of env] by (simp add: validate_summary_def summary_of_note_def note_valid_def)
  then show "validate_document (se_is_uuid env) (document_of_note env n) = Ok ()"
    using unat by (simp add: validate_document_def document_of_note_def summary_of_note_def)
qed

text \<open>Reading leaves the tables as they are.\<close>

lemma visit_rows_same: "stm_rel (visit_rows visitor rows s) (\<lambda>t r t'. t' = t)"
proof (induction rows arbitrary: s)
  case (Cons row rows)
  have load: "stm_rel (load_tags i) (\<lambda>t r t'. t' = t)" for i unfolding load_tags_def by (rule stm_rel_sql) simp_all
  have bind: "stm_rel (u_bind m f) (\<lambda>t r t'. t' = t)"
    if "stm_rel m (\<lambda>t r t'. t' = t)" "\<And>x. stm_rel (f x) (\<lambda>t r t'. t' = t)"
    for m :: "'x notes_stm" and f :: "'x \<Rightarrow> 'a notes_stm"
    using that by (rule stm_rel_bind) auto
  show ?case unfolding visit_rows.simps by (intro bind stm_rel_lift load Cons.IH refl)
qed (simp add: stm_rel_lift)

lemma visit_query_same: "stm_rel (visit_query env q visitor s) (\<lambda>t r t'. t' = t)"
  unfolding stm_rel_def visit_query_def u_bind_def u_lift_def statement_def
  by (auto dest!: stm_relD [OF visit_rows_same] split: sum.splits prod.splits if_splits)

lemma repository_call_tables:
  "repository_call m sv = (r, sv') \<Longrightarrow> stm_rel m (\<lambda>t r t'. t' = t) \<Longrightarrow> fst (sv_repository sv') = fst (sv_repository sv)"
  by (auto simp: repository_call_def dest: stm_relD split: prod.splits)

lemma reads_tables:
  "fst (sv_repository (snd (service_list env q sv))) = fst (sv_repository sv)"
  "fst (sv_repository (snd (service_get env i sv))) = fst (sv_repository sv)"
  "fst (sv_repository (snd (service_export env q f sv))) = fst (sv_repository sv)"
proof -
  have get: "stm_rel (notes_get i) (\<lambda>t r t'. t' = t)"
    unfolding notes_get_def by (rule stm_rel_weaken [OF load_note_rel]) simp
  show "fst (sv_repository (snd (service_list env q sv))) = fst (sv_repository sv)"
    by (auto simp: service_list_def Let_def query_notes_def dest!: repository_call_tables [OF _ visit_query_same]
        split: prod.splits sum.splits)
  show "fst (sv_repository (snd (service_get env i sv))) = fst (sv_repository sv)"
    by (auto simp: service_get_def dest!: repository_call_tables [OF _ get] split: prod.splits sum.splits)
  show "fst (sv_repository (snd (service_export env q f sv))) = fst (sv_repository sv)"
    by (auto simp: service_export_def dest!: repository_call_tables [OF _ visit_query_same] split: prod.splits sum.splits)
qed

lemma service_ok_same:
  "service_ok env sv \<Longrightarrow> fst (sv_repository sv') = fst (sv_repository sv) \<Longrightarrow> set (sv_uploads sv') \<subseteq> set (sv_uploads sv) \<Longrightarrow> service_ok env sv'"
  by (auto simp: service_ok_def)

lemma remove_upload_service_ok: "service_ok env sv \<Longrightarrow> service_ok env (snd (remove_upload u sv))"
  by (erule service_ok_same) (auto simp: remove_upload_def bt_remove_def split: option.splits)

lemma remove_uploads_service_ok: "service_ok env sv \<Longrightarrow> service_ok env (remove_uploads us sv)"
  by (induction us arbitrary: sv) (simp_all add: remove_upload_service_ok)

lemma write_service_ok:
  assumes "service_ok env sv" "repository_call (run_write (se_notes env) w) sv = (r, sv')"
    and "\<And>uuid input now_ms d. w = WriteCreate uuid input now_ms \<Longrightarrow>
      normalize_draft (se_notes env) (draft_of_create input) = Ok d \<Longrightarrow> se_is_uuid env uuid \<and> draft_valid d"
    and "\<And>input now_ms d. w = WriteSave input now_ms \<Longrightarrow>
      normalize_draft (se_notes env) (s_draft input) = Ok d \<Longrightarrow> draft_valid d"
  shows "service_ok env sv'"
proof -
  obtain db' where w: "run_write (se_notes env) w (sv_repository sv) = (r, db')" "sv' = sv\<lparr>sv_repository := db'\<rparr>"
    using assms(2) by (auto simp: repository_call_def split: prod.splits)
  have ok: "notes_ok (se_notes env) (fst (sv_repository sv))"
    "\<forall>i n. note_at (fst (sv_repository sv)) i = Some n \<longrightarrow> note_valid env n"
    using assms(1) by (auto simp: service_ok_def)
  have "notes_ok (se_notes env) (fst db') \<and> (\<forall>i n. note_at (fst db') i = Some n \<longrightarrow> note_valid env n)"
    by (rule run_write_valid [OF w(1) ok]) (use assms(3,4) in blast)+
  then show ?thesis using assms(1) by (simp add: service_ok_def w(2))
qed

lemma delete_service_ok:
  "service_ok env sv \<Longrightarrow> service_ok env (snd (service_delete env i e now_ms sv))"
  "service_ok env sv \<Longrightarrow> service_ok env (snd (service_restore env i e now_ms sv))"
  unfolding service_delete_def service_restore_def
  by (cases "repository_call (soft_delete (se_notes env) i e now_ms) sv", simp,
      rule write_service_ok [of env sv "WriteDelete i e now_ms"], auto)
     (cases "repository_call (notes_restore (se_notes env) i e now_ms) sv", simp,
      rule write_service_ok [of env sv "WriteRestore i e now_ms"], auto)

lemma commit_draft_service_ok:
  assumes "service_ok env sv" "validate_meta meta = Ok ()" "se_is_uuid env uuid"
  shows "service_ok env (snd (commit_draft env uuid intent meta body now_ms sv))"
proof (cases "MAX_NOTE_BODY_BYTES < length body")
  case True
  then show ?thesis using assms(1) by (simp add: commit_draft_def)
next
  case False
  then have nv: "draft_valid d" if "normalize_draft (se_notes env) \<lparr>d_title = dm_title meta, d_body_markdown = body,
      d_diary_date = dm_diary_date meta, d_tags = dm_tags meta, d_status = st, d_pinned = dm_pinned meta\<rparr> = Ok d" for st d
    using that assms(2) by (intro normalized_valid [of meta body]) auto
  show ?thesis
  proof (cases intent)
    case IntentCreate
    let ?c = "\<lparr>c_title = dm_title meta, c_body_markdown = body, c_diary_date = dm_diary_date meta,
        c_tags = dm_tags meta, c_status = note_status_of (dm_status meta), c_pinned = dm_pinned meta\<rparr>"
    obtain r sv' where c: "repository_call (notes_create (se_notes env) uuid ?c now_ms) sv = (r, sv')" by (metis surj_pair)
    then have "service_ok env sv'"
      using write_service_ok [OF assms(1), of "WriteCreate uuid ?c now_ms" r sv'] assms(3) nv by (auto simp: draft_of_create_def)
    then show ?thesis using False IntentCreate c by (simp add: commit_draft_def)
  next
    case (IntentSave i e a)
    let ?s = "\<lparr>s_id = i, s_expected_revision = e, s_draft = \<lparr>d_title = dm_title meta, d_body_markdown = body,
        d_diary_date = dm_diary_date meta, d_tags = dm_tags meta, d_status = note_status_of (dm_status meta), d_pinned = dm_pinned meta\<rparr>\<rparr>"
    obtain r sv' where c: "repository_call (notes_save (se_notes env) ?s now_ms) sv = (r, sv')" by (metis surj_pair)
    have "service_ok env sv'"
      by (rule write_service_ok [OF assms(1), of "WriteSave ?s now_ms" r sv']) (use c nv in auto)
    then show ?thesis using False IntentSave c by (simp add: commit_draft_def)
  qed
qed

lemma bt_insert_subset: "set (bt_insert k v m) \<subseteq> insert (k, v) (set m)"
  using bt_insert_mem by fast

lemma begin_service_ok:
  assumes "service_ok env sv" "validate_meta meta = Ok ()"
  shows "service_ok env (snd (begin_upload u intent meta n sha now sv))"
  using assms bt_insert_subset by (fastforce simp: begin_upload_def service_ok_def)

lemma put_service_ok:
  assumes "service_ok env sv" "bt_get u (sv_uploads sv) = Some up" "pu_meta up' = pu_meta up"
  shows "service_ok env (put_upload u up' sv)"
  using assms bt_get_mem [OF assms(2)] by (auto simp: put_upload_def service_ok_def dest!: bt_insert_mem)

lemma append_service_ok:
  assumes "service_ok env sv"
  shows "service_ok env (snd (append_upload env u sequence offset data now sv))"
proof (cases "bt_get u (sv_uploads sv)")
  case (Some up)
  show ?thesis unfolding append_upload_def Let_def Some
    by (auto simp: assms remove_upload_service_ok [OF assms] put_service_ok [OF assms Some] split: option.splits)
qed (auto simp: append_upload_def assms remove_upload_service_ok [OF assms] split: option.splits)

lemma commit_upload_service_ok:
  assumes "service_ok env sv" "se_is_uuid env uuid"
  shows "service_ok env (snd (commit_upload env uuid u intent now_ms sv))"
proof (cases "bt_get u (sv_uploads sv)")
  case (Some up)
  define sv' where "sv' = snd (remove_upload u sv)"
  have r: "remove_upload u sv = (Some up, sv')" using Some by (simp add: sv'_def remove_upload_def)
  have ok: "service_ok env sv'" unfolding sv'_def by (rule remove_upload_service_ok [OF assms(1)])
  have "validate_meta (pu_meta up) = Ok ()" using assms(1) bt_get_mem [OF Some] by (auto simp: service_ok_def)
  then show ?thesis using commit_draft_service_ok [OF ok _ assms(2)] ok by (simp add: commit_upload_def r)
qed (simp add: commit_upload_def remove_upload_def assms)

lemma execute_service_ok:
  assumes "service_ok env sv" "se_is_uuid env uuid"
  shows "service_ok env (snd (execute_notes env uuid u command now_ms now sv))"
proof (cases "validate_command (se_is_uuid env) command")
  case (Inr x)
  define sv1 where "sv1 = snd (cleanup_expired now sv)"
  have sv1: "service_ok env sv1"
    unfolding sv1_def cleanup_expired_def Let_def using remove_uploads_service_ok [OF assms(1)] by simp
  have same: "service_ok env sv2" if "same_uploads sv1 sv2" "fst (sv_repository sv2) = fst (sv_repository sv1)" for sv2
    using sv1 that(2) by (rule service_ok_same) (use that(1) in \<open>simp add: same_uploads_def\<close>)
  have inline: "validate_meta meta = Ok ()" if "command = CmdWriteInline intent meta body" for intent meta body
    using that Inr by (auto simp: validate_command_def and_then_eq_Ok split: if_splits)
  have staged: "validate_meta meta = Ok ()" if "command = CmdUploadBegin intent meta n sha" for intent meta n sha
    using that Inr by (auto simp: validate_command_def and_then_eq_Ok split: if_splits)
  show ?thesis unfolding execute_next [OF Inr] Let_def sv1_def [symmetric]
    by (cases command)
       (simp_all add: same reads_same reads_tables remove_upload_service_ok [OF sv1] delete_service_ok [OF sv1] append_service_ok [OF sv1]
          commit_upload_service_ok [OF sv1 assms(2)] commit_draft_service_ok [OF sv1 inline assms(2)] begin_service_ok [OF sv1 staged])
qed (simp add: execute_notes_def assms)

lemma run_service_ok:
  "service_ok env sv \<Longrightarrow> list_all (\<lambda>s. se_is_uuid env (st_note_id s)) ss \<Longrightarrow> service_ok env (run_service env ss sv)"
  by (induction ss arbitrary: sv) (simp_all add: execute_service_ok)

lemma new_service_ok: "service_ok env (new_service (empty_notes, fs))"
  by (simp add: service_ok_def new_service_def notes_ok_empty) (simp add: note_at_def empty_notes_def)

text \<open>C21: Every stored note can be shown: over every run of the service from an empty database, with any
  failures and uploads, \<open>Get\<close> of an id either returns the document of the note that the
  repository holds, the whole body with its exact length and digest, or fails because there is no such
  note or a statement failed; the validation of the document before it leaves the service never
  rejects it.
\<close>

theorem stored_note_is_shown:
  assumes "list_all (\<lambda>s. se_is_uuid env (st_note_id s)) steps" "\<forall>bs. length (se_digest env bs) = 32"
    and sv: "sv = run_service env steps (new_service (empty_notes, fs))" and i: "se_is_uuid env i"
  shows "(\<exists>n. fst (execute_notes env uuid u (CmdGet i) now_ms now sv) = Ok (OutDocument (document_of_note env n)) \<and>
        fst (notes_get i (fst (sv_repository sv), [])) = Ok n) \<or>
    (\<exists>e. fst (execute_notes env uuid u (CmdGet i) now_ms now sv) = Err (RepositoryError e) \<and>
        (e = NotesSql \<or> (e = NoteNotFound i \<and> fst (notes_get i (fst (sv_repository sv), [])) = Err (NoteNotFound i))))"
proof -
  have ok: "service_ok env sv" unfolding sv by (rule run_service_ok [OF new_service_ok assms(1)])
  define sv1 where "sv1 = snd (cleanup_expired now sv)"
  have repo: "sv_repository sv1 = sv_repository sv"
  proof -
    have "sv_repository (remove_uploads us sv) = sv_repository sv" for us
      by (induction us arbitrary: sv) (simp_all add: remove_upload_def split: option.splits)
    then show ?thesis by (simp add: sv1_def cleanup_expired_def Let_def)
  qed
  let ?t = "fst (sv_repository sv)"
  have tok: "notes_ok (se_notes env) ?t" using ok by (simp add: service_ok_def)
  have run: "fst (execute_notes env uuid u (CmdGet i) now_ms now sv) = fst (service_get env i sv1)"
    using i by (simp add: execute_notes_def validate_command_def validate_note_id_def sv1_def)
  obtain r db' where l: "load_note i (sv_repository sv) = (r, db')" by (metis surj_pair)
  have get: "fst (service_get env i sv1) = (case r of Inl e \<Rightarrow> Err (RepositoryError e)
      | Inr n \<Rightarrow> and_then (map_err InvalidCommand (validate_document (se_is_uuid env) (document_of_note env n))) (\<lambda>_. Ok (OutDocument (document_of_note env n))))"
    using l by (simp add: service_get_def repository_call_def notes_get_def repo split: sum.splits)
  show ?thesis
  proof (cases r)
    case (Inl e)
    have "e = NotesSql \<or> (e = NoteNotFound i \<and> note_at ?t i = None)"
      using l unfolding Inl load_note_def load_tags_def
      by (auto simp: u_bind_def statement_def u_lift_def select_note_def note_at_def ok_or_def
          split: if_splits option.splits sum.splits prod.splits)
    then show ?thesis using get run Inl get_run [OF tok, of i] by auto
  next
    case (Inr n)
    then have "note_at ?t i = Some n" using stm_relD [OF load_note_rel l] by simp
    moreover from this have "note_valid env n" using ok by (auto simp: service_ok_def)
    ultimately show ?thesis
      using get run Inr get_run [OF tok, of i] note_valid_document(2) [OF tok _ _ assms(2)] by auto
  qed
qed

section \<open>Pages\<close>

lemma order_le_total: "order_le s a b \<or> order_le s b a"
  by (cases s) (auto simp: order_le_def then_by_def)

lemma then_by_trans:
  "then_by x y p \<Longrightarrow> then_by y z q \<Longrightarrow> (x = y \<Longrightarrow> y = z \<Longrightarrow> p \<Longrightarrow> q \<Longrightarrow> r) \<Longrightarrow> then_by x z r"
  by (auto simp: then_by_def)

lemma order_le_trans: "order_le s a b \<Longrightarrow> order_le s b c \<Longrightarrow> order_le s a c"
proof (cases s)
  case UpdatedDesc
  assume "order_le s a b" "order_le s b c"
  then show ?thesis unfolding order_le_def UpdatedDesc note_sort.case by (auto simp: then_by_def)
next
  case CreatedDesc
  assume "order_le s a b" "order_le s b c"
  then show ?thesis unfolding order_le_def CreatedDesc note_sort.case by (auto simp: then_by_def)
next
  case TitleAsc
  assume "order_le s a b" "order_le s b c"
  then show ?thesis unfolding order_le_def TitleAsc note_sort.case by (auto simp: then_by_def)
next
  case DiaryDateDesc
  assume "order_le s a b" "order_le s b c"
  then show ?thesis unfolding order_le_def DiaryDateDesc note_sort.case by (auto simp: then_by_def)
qed

lemma insert_by_mset: "mset (insert_by le x ys) = add_mset x (mset ys)"
  by (induction ys) auto

lemma insert_by_sorted:
  assumes "\<And>a b. le a b \<or> le b a" "\<And>a b c. le a b \<Longrightarrow> le b c \<Longrightarrow> le a c"
  shows "sorted_wrt le ys \<Longrightarrow> sorted_wrt le (insert_by le x ys)"
proof (induction ys)
  case (Cons y ys)
  have "set (insert_by le x ys) = insert x (set ys)"
    using arg_cong [OF insert_by_mset [of le x ys], of set_mset] by simp
  then show ?case using Cons assms by (auto intro: assms(2))
qed simp

lemma sort_rows_sorted: "mset (sort_rows s rows) = mset rows" "sorted_wrt (order_le s) (sort_rows s rows)"
  unfolding sort_rows_def
  by (induction rows) (simp_all add: insert_by_mset insert_by_sorted [OF order_le_total order_le_trans])

lemma visit_rows_run:
  assumes "\<forall>q \<in> set rows. note_at t (nw_id q) \<noteq> None \<and> find (\<lambda>r. nw_id r = nw_id q) (nt_notes t) = Some q"
  shows "visit_rows (\<lambda>note notes. Ok (notes @ [note])) rows acc (t, []) =
    (Ok (acc @ map (\<lambda>q. the (note_at t (nw_id q))) rows), (t, []))"
  using assms
proof (induction rows arbitrary: acc)
  case (Cons q rows)
  then obtain n where n: "note_from_row q = Some n" "note_at t (nw_id q) = Some (n\<lparr>n_tags := tags_of (nw_id q) t\<rparr>)"
    by (auto simp: note_at_def)
  have "n_id n = nw_id q" using n(1) by (rule note_from_row_Some(1))
  then show ?case using Cons n
    by (simp add: u_bind_def u_lift_def load_tags_def statement_run)
qed (simp add: u_lift_def)

lemma row_matches_limit [simp]: "row_matches (q\<lparr>q_limit := l\<rparr>) = row_matches q"
  by (rule ext)+ (simp add: row_matches_def search_text_def)

lemma list_query_valid:
  assumes "validate_public_query q = Ok ()"
    "case (pq_diary_date_from q, pq_diary_date_to q) of (Some a, Some b) \<Rightarrow> a \<le> b | _ \<Rightarrow> True"
  shows "validate_query ((repository_query q)\<lparr>q_limit := pq_limit q + 1\<rparr>) = Ok ()"
    "unat (pq_limit q + 1) = unat (pq_limit q) + 1" "unat (pq_limit q) \<le> 64" "unat (pq_offset q) \<le> 100000"
proof -
  have l: "1 \<le> pq_limit q" "pq_limit q \<le> 64" "pq_offset q \<le> 100000"
    and others: "is_none_or (pq_search q) (\<lambda>s. char_count s \<le> 512)" "length (pq_tags q) \<le> 64"
      "is_none_or (pq_diary_date_from q) validate_date" "is_none_or (pq_diary_date_to q) validate_date"
    using assms(1)
    by (auto simp: validate_public_query_def MAX_NOTE_QUERY_LIMIT_def MAX_NOTE_QUERY_OFFSET_def MAX_NOTE_SEARCH_CHARS_def
        MAX_NOTE_TAGS_def valid_calendar_date_eq is_none_or_iff is_some_and_iff not_less split: if_splits)
  show u: "unat (pq_limit q) \<le> 64" "unat (pq_offset q) \<le> 100000"
    using l(2,3) by (simp_all add: word_le_nat_alt)
  show u1: "unat (pq_limit q + 1) = unat (pq_limit q) + 1" using u(1) by (simp add: unat_word_ariths)
  have "pq_limit q + 1 \<noteq> 0" using u1 by (metis add_is_0 unat_0 zero_neq_one)
  moreover have "\<not> 500 < pq_limit q + 1" using u1 u(1) by (simp add: word_less_nat_alt)
  ultimately show "validate_query ((repository_query q)\<lparr>q_limit := pq_limit q + 1\<rparr>) = Ok ()"
    using others assms(2)
    by (auto simp: validate_query_def repository_query_def MAX_QUERY_LIMIT_def MAX_TAGS_def date_invalid_def is_none_or_iff
        is_some_and_iff not_less split: option.splits)
qed

text \<open>C22: A page is an exact slice: over every run of the service, listing without a failing statement
  answers with the slice \<open>offset .. offset + limit\<close> of one list, which holds exactly the notes
  that match the query, each once and in the requested order; \<open>has_more\<close> says whether the list
  goes on, and \<open>next_offset\<close> is where it does. The answer passes the validation of pages.
\<close>

theorem list_page_exact:
  assumes "list_all (\<lambda>s. se_is_uuid env (st_note_id s)) steps" "\<forall>bs. length (se_digest env bs) = 32"
    and sv: "sv = run_service env steps (new_service (empty_notes, fs))" and t: "t = fst (sv_repository sv)"
    and q: "validate_public_query q = Ok ()"
      "case (pq_diary_date_from q, pq_diary_date_to q) of (Some a, Some b) \<Rightarrow> a \<le> b | _ \<Rightarrow> True"
    and keys: "normalize_keys (se_notes env) (pq_tags q) = Ok keys"
  shows "\<exists>rows. mset rows = mset (filter (row_matches (repository_query q) keys t) (nt_notes t)) \<and>
    sorted_wrt (order_le (q_sort (repository_query q))) rows \<and>
    fst (service_list env q (sv\<lparr>sv_repository := (t, [])\<rparr>)) = Ok (OutPage
      \<lparr>np_query = q,
       np_notes = map (\<lambda>r. summary_of_note env (the (note_at t (nw_id r)))) (take (unat (pq_limit q)) (drop (unat (pq_offset q)) rows)),
       np_has_more = (unat (pq_offset q) + unat (pq_limit q) < length rows),
       np_next_offset = (if unat (pq_offset q) + unat (pq_limit q) < length rows then Some (pq_offset q + pq_limit q) else None)\<rparr>)"
proof -
  let ?q = "(repository_query q)\<lparr>q_limit := pq_limit q + 1\<rparr>"
  let ?l = "unat (pq_limit q)" and ?o = "unat (pq_offset q)"
  define rows where "rows = sort_rows (q_sort (repository_query q)) (filter (row_matches (repository_query q) keys t) (nt_notes t))"
  define f where "f = (\<lambda>r :: note_row. the (note_at t (nw_id r)))"
  have ok: "service_ok env sv" unfolding sv by (rule run_service_ok [OF new_service_ok assms(1)])
  then have tok: "notes_ok (se_notes env) t" by (simp add: service_ok_def t)
  note v = list_query_valid [OF q]
  have in_t: "r \<in> set (nt_notes t)" if "r \<in> set rows" for r
  proof -
    have "set rows = set (filter (row_matches (repository_query q) keys t) (nt_notes t))"
      unfolding rows_def by (metis set_mset_mset sort_rows_sorted(1))
    then show ?thesis using that by simp
  qed
  have at: "find (\<lambda>p. nw_id p = nw_id r) (nt_notes t) = Some r \<and> note_at t (nw_id r) = Some (f r) \<and> note_valid env (f r)"
    if r: "r \<in> set rows" for r
  proof -
    have inj: "inj_on nw_id (set (nt_notes t))" using tok by (simp add: notes_ok_def distinct_map)
    obtain p where p: "find (\<lambda>p. nw_id p = nw_id r) (nt_notes t) = Some p"
      using in_t [OF r] by (cases "find (\<lambda>p. nw_id p = nw_id r) (nt_notes t)") (auto simp: find_None_iff)
    then have "p \<in> set (nt_notes t)" "nw_id p = nw_id r" by (auto simp: find_Some_iff)
    then have pr: "p = r" using inj in_t [OF r] by (auto dest: inj_onD)
    obtain n where "note_from_row r = Some n" using tok in_t [OF r] note_row_decodes by (metis notes_ok_def)
    then have "note_at t (nw_id r) = Some (f r)" using p pr by (simp add: note_at_def f_def)
    then show ?thesis using p pr ok by (auto simp: service_ok_def t)
  qed
  have sel: "select_rows ?q keys t = take (?l + 1) (drop ?o rows)"
    unfolding select_rows_def rows_def by (simp add: v(2)) (simp add: repository_query_def)
  have tags: "q_tags (repository_query q) = pq_tags q" by (simp add: repository_query_def)
  have sub: "r \<in> set rows" if "r \<in> set (take k (drop ?o rows))" for r k
    using that by (meson in_set_dropD in_set_takeD)
  have "query_notes (se_notes env) ?q (t, []) = (Ok (map f (take (?l + 1) (drop ?o rows))), (t, []))"
    unfolding query_notes_def visit_query_def
    using visit_rows_run [of "take (?l + 1) (drop ?o rows)" t "[]"] at sub v(1) keys
    by (simp add: u_bind_def u_lift_def statement_run sel f_def [symmetric] tags)
  moreover have more: "?l < length (map f (take (?l + 1) (drop ?o rows))) \<longleftrightarrow> ?o + ?l < length rows" by auto
  moreover have kept: "(if ?o + ?l < length rows then take ?l (map f (take (?l + 1) (drop ?o rows))) else map f (take (?l + 1) (drop ?o rows))) =
      map f (take ?l (drop ?o rows))"
    by (auto simp: take_map min_def)
  moreover have next_off: "checked_add (pq_offset q) (of_nat (length (take ?l (drop ?o rows)))) = Some (pq_offset q + pq_limit q)"
    if "?o + ?l < length rows"
  proof -
    have "length (take ?l (drop ?o rows)) = ?l" using that by simp
    then show ?thesis using v(3,4) by (simp add: checked_add_def)
  qed
  moreover have "list_all (\<lambda>s. is_ok (validate_summary (se_is_uuid env) s)) (map (summary_of_note env) (map f (take ?l (drop ?o rows))))"
    using at sub note_valid_document(1) [OF tok _ _ assms(2)] by (fastforce simp: list_all_iff)
  ultimately have "fst (service_list env q (sv\<lparr>sv_repository := (t, [])\<rparr>)) = Ok (OutPage
      \<lparr>np_query = q, np_notes = map (summary_of_note env) (map f (take ?l (drop ?o rows))),
       np_has_more = (?o + ?l < length rows),
       np_next_offset = (if ?o + ?l < length rows then Some (pq_offset q + pq_limit q) else None)\<rparr>)"
    unfolding service_list_def repository_call_def
    by (simp add: Let_def validate_page_def q(1) list_all_iff list_ex_iff kept more next_off take_map min_def)
  then show ?thesis
    by (intro exI [of _ rows]) (simp add: rows_def sort_rows_sorted f_def comp_def)
qed

section \<open>The small service\<close>

lemma sample_service_written:
  "run_service sample_service sample_write (new_service (empty_notes, [])) = new_service (sample_tables, [])"
proof -
  have "notes_create sample_env ''a'' sample_create 5 (empty_notes, []) = (Ok sample_note, (sample_tables, []))"
    using sample_runs(1) by simp
  moreover have "\<lparr>c_title = dm_title sample_meta, c_body_markdown = ''b'', c_diary_date = dm_diary_date sample_meta, c_tags = dm_tags sample_meta,
      c_status = note_status_of (dm_status sample_meta), c_pinned = dm_pinned sample_meta\<rparr> = sample_create"
    by (simp add: sample_create_def sample_meta_def)
  moreover have "se_notes sample_service = sample_env" by (simp add: sample_service_def)
  ultimately show ?thesis
    by (simp add: sample_write_def execute_notes_def sample_service_valid cleanup_expired_def commit_draft_def Let_def repository_call_def
        new_service_def MAX_NOTE_BODY_BYTES_def)
qed

lemma sample_conditions:
  "list_all (\<lambda>s. se_is_uuid sample_service (st_note_id s)) sample_write" "\<forall>bs. length (se_digest sample_service bs) = 32"
  "se_is_uuid sample_service ''a''"
  by (simp_all add: sample_write_def sample_service_def)

theorem stored_note_is_shown_witness:
  "fst (execute_notes sample_service ''b'' 1 (CmdGet ''a'') 9 0 (new_service (sample_tables, []))) =
     Ok (OutDocument (document_of_note sample_service sample_note))"
proof -
  have "fst (notes_get ''a'' (sample_tables, [])) = Ok sample_note"
    by (simp add: notes_get_def sample_defs notes_eval)
  moreover have "fst (execute_notes sample_service ''b'' 1 (CmdGet ''a'') 9 0 (new_service (sample_tables, []))) \<noteq> Err (RepositoryError NotesSql)"
    by (simp add: execute_notes_def validate_command_def validate_note_id_def sample_conditions cleanup_expired_def new_service_def service_get_def
        repository_call_def notes_get_def sample_defs notes_eval)
      (simp add: and_then_def map_err_def split: sum.splits)
  ultimately show ?thesis
    using stored_note_is_shown [OF sample_conditions(1,2) sample_service_written [symmetric] sample_conditions(3), of "''b''" 1 9 0]
    by (auto simp: new_service_def)
qed

definition sample_query :: public_query where
  "sample_query = \<lparr>pq_search = None, pq_diary_date_from = None, pq_diary_date_to = None, pq_tags = [], pq_status = None,
     pq_deleted = PublicExclude, pq_sort = PublicUpdatedDesc, pq_limit = 10, pq_offset = 0\<rparr>"

lemma sample_query_valid: "validate_public_query sample_query = Ok ()"
  by (simp add: sample_query_def validate_public_query_def MAX_NOTE_QUERY_LIMIT_def MAX_NOTE_QUERY_OFFSET_def MAX_NOTE_TAGS_def)

theorem list_page_exact_witness:
  "fst (service_list sample_service sample_query (new_service (sample_tables, []))) =
     Ok (OutPage \<lparr>np_query = sample_query, np_notes = [summary_of_note sample_service sample_note], np_has_more = False, np_next_offset = None\<rparr>)"
proof -
  have keys: "normalize_keys (se_notes sample_service) (pq_tags sample_query) = Ok []"
    by (simp add: sample_query_def)
  have rows: "filter (row_matches (repository_query sample_query) [] sample_tables) (nt_notes sample_tables) = [note_row_of sample_note 1]"
    by (simp add: row_matches_def search_text_def repository_query_def sample_query_def sample_defs)
  have at: "note_at sample_tables ''a'' = Some sample_note" "nw_id (note_row_of sample_note 1) = ''a''"
    by (simp_all add: note_at_def sample_defs notes_eval)
  let ?sv = "new_service (sample_tables, [])"
  have lim: "unat (pq_limit sample_query) = 10" "unat (pq_offset sample_query) = 0" by (simp_all add: sample_query_def)
  have dates: "case (pq_diary_date_from sample_query, pq_diary_date_to sample_query) of (Some a, Some b) \<Rightarrow> a \<le> b | _ \<Rightarrow> True"
    by (simp add: sample_query_def)
  have sv: "sample_tables = fst (sv_repository ?sv)" "?sv\<lparr>sv_repository := (sample_tables, [])\<rparr> = ?sv" by (simp_all add: new_service_def)
  obtain rows where "mset rows = mset [note_row_of sample_note 1]" and page:
    "fst (service_list sample_service sample_query ?sv) = Ok (OutPage
      \<lparr>np_query = sample_query, np_notes = map (\<lambda>r. summary_of_note sample_service (the (note_at sample_tables (nw_id r)))) (take 10 rows),
       np_has_more = 10 < length rows, np_next_offset = (if 10 < length rows then Some (pq_offset sample_query + pq_limit sample_query) else None)\<rparr>)"
    using list_page_exact [OF sample_conditions(1,2) sample_service_written [symmetric] sv(1) sample_query_valid dates keys]
    unfolding lim sv(2) rows by auto
  then have "rows = [note_row_of sample_note 1]" by simp
  then show ?thesis using page at by simp
qed

end
