(* ===== verification/Notes_Export.thy ===== *)
theory Notes_Export
  imports Notes_Answers
begin

text \<open>
  Exports of notes. Shown: an export is the exact text of all the notes of the query or it is
  refused; it is never cut short.
\<close>

lemma visit_rows_extends:
  "visit_rows (\<lambda>note notes. Ok (notes @ [note])) rows acc (t, []) = (Ok out, db') \<Longrightarrow> \<exists>ns. out = acc @ ns"
proof (induction rows arbitrary: acc)
  case (Cons q rows)
  obtain n where "note_from_row q = Some n"
    using Cons.prems by (auto simp: u_bind_def u_lift_def ok_or_def split: option.splits)
  then have "visit_rows (\<lambda>note notes. Ok (notes @ [note])) rows (acc @ [n\<lparr>n_tags := tags_of (n_id n) t\<rparr>]) (t, []) = (Ok out, db')"
    using Cons.prems by (simp add: u_bind_def u_lift_def load_tags_def statement_run)
  from Cons.IH [OF this] show ?case by auto
qed (simp add: u_lift_def)

section \<open>Exports\<close>

text \<open>The text an export should be: the piece of every note, joined.\<close>

definition markdown_piece :: "service_env \<Rightarrow> note_data \<Rightarrow> string option" where
  "markdown_piece env n =
     (case (se_title_json env (n_title n), ne_tags_to_json (se_notes env) (n_tags n)) of
        (Some title, Some tags) \<Rightarrow> Some
          (''---'' @ newlines 1 @ ''schema: '' @ EXPORT_SCHEMA @ newlines 1 @ ''id: '' @ n_id n @
           newlines 1 @ ''revision: '' @ decimal (unat (n_revision n)) @
           newlines 1 @ ''status: '' @ status_as_str (n_status n) @
           newlines 1 @ ''diary_date: '' @ (case n_diary_date n of None \<Rightarrow> ''null'' | Some d \<Rightarrow> d) @
           newlines 1 @ ''tags: '' @ tags @ newlines 1 @ ''title: '' @ title @
           newlines 1 @ ''---'' @ newlines 2 @ ''# '' @ n_title n @ newlines 2 @ n_body_markdown n)
      | _ \<Rightarrow> None)"

definition export_piece :: "service_env \<Rightarrow> export_kind \<Rightarrow> note_data \<Rightarrow> string option" where
  "export_piece env format n = (case format of ExportJson \<Rightarrow> se_note_json env n | ExportMarkdown \<Rightarrow> markdown_piece env n)"

definition export_head :: "export_kind \<Rightarrow> string" where
  "export_head format = (case format of ExportMarkdown \<Rightarrow> []
     | ExportJson \<Rightarrow> ''{'' @ quote @ ''schema'' @ quote @ '':'' @ quote @ EXPORT_SCHEMA @ quote @ '','' @ quote @ ''notes'' @ quote @ '':['')"

definition export_tail :: "export_kind \<Rightarrow> string" where
  "export_tail format = (case format of ExportMarkdown \<Rightarrow> [] | ExportJson \<Rightarrow> '']}'')"

fun joined :: "export_kind \<Rightarrow> nat \<Rightarrow> string list \<Rightarrow> string" where
  "joined format k [] = []"
| "joined format k (p # ps) = separator format k @ p @ joined format (k + 1) ps"

definition export_text :: "service_env \<Rightarrow> export_kind \<Rightarrow> note_data list \<Rightarrow> string option" where
  "export_text env format notes =
     map_option (\<lambda>ps. export_head format @ joined format 0 ps @ export_tail format) (collect_rows (export_piece env format) notes)"

lemma ex_append_bound:
  "ex_max_bytes x < 2 ^ 64 \<Longrightarrow> ex_append fragment x =
     (if ex_max_bytes x < length (ex_content x) + length fragment then Err export_too_large
      else Ok (x\<lparr>ex_content := ex_content x @ fragment\<rparr>))"
  by (auto simp: ex_append_def usize_checked_add_def)

lemma ex_append_all_bound:
  "ex_max_bytes x < 2 ^ 64 \<Longrightarrow> length (ex_content x) \<le> ex_max_bytes x \<Longrightarrow> ex_append_all fs x =
     (if ex_max_bytes x < length (ex_content x) + length (concat fs) then Err export_too_large
      else Ok (x\<lparr>ex_content := ex_content x @ concat fs\<rparr>))"
proof (induction fs arbitrary: x)
  case (Cons f fs)
  show ?case
  proof (cases "ex_max_bytes x < length (ex_content x) + length f")
    case False
    then show ?thesis using Cons.IH [of "x\<lparr>ex_content := ex_content x @ f\<rparr>"] Cons.prems by (simp add: ex_append_bound add.assoc)
  qed (use Cons.prems in \<open>simp add: ex_append_bound\<close>)
qed simp

lemma ex_push_bound:
  assumes "ex_max_bytes x < 2 ^ 64" "length (ex_content x) \<le> ex_max_bytes x" "export_piece env (ex_format x) n = Some p"
  shows "ex_push env n x =
     (if ex_max_bytes x < length (ex_content x @ separator (ex_format x) (ex_note_count x) @ p) + length (export_tail (ex_format x))
      then Err export_too_large
      else Ok (x\<lparr>ex_content := ex_content x @ separator (ex_format x) (ex_note_count x) @ p, ex_note_count := ex_note_count x + 1\<rparr>))"
proof -
  let ?s = "separator (ex_format x) (ex_note_count x)"
  define y where "y = x\<lparr>ex_content := ex_content x @ ?s\<rparr>"
  have y: "ex_max_bytes y = ex_max_bytes x" "ex_format y = ex_format x" "ex_content y = ex_content x @ ?s" "ex_note_count y = ex_note_count x"
    by (simp_all add: y_def)
  show ?thesis
  proof (cases "ex_max_bytes x < length (ex_content x) + length ?s")
    case True
    then show ?thesis using assms(1) by (simp add: ex_push_def ex_append_bound)
  next
    case False
    then have a: "ex_append ?s x = Ok y" using assms(1) by (simp add: ex_append_bound y_def)
    show ?thesis
    proof (cases "ex_format x")
      case ExportJson
      then have "push_json env n y = (if ex_max_bytes x < length (ex_content x @ ?s @ p) + 2 then Err export_too_large
          else Ok (y\<lparr>ex_content := ex_content x @ ?s @ p\<rparr>))"
        using assms(1,3) by (auto simp: push_json_def export_piece_def y usize_checked_add_def)
      then show ?thesis using a ExportJson by (simp add: ex_push_def export_tail_def y_def)
    next
      case ExportMarkdown
      then obtain title tags where parts: "se_title_json env (n_title n) = Some title" "ne_tags_to_json (se_notes env) (n_tags n) = Some tags"
        using assms(3) by (auto simp: export_piece_def markdown_piece_def split: option.splits)
      define fs where "fs = [''---'' @ newlines 1 @ ''schema: '', EXPORT_SCHEMA,
        newlines 1 @ ''id: '', n_id n,
        newlines 1 @ ''revision: '', decimal (unat (n_revision n)),
        newlines 1 @ ''status: '', status_as_str (n_status n),
        newlines 1 @ ''diary_date: '', (case n_diary_date n of None \<Rightarrow> ''null'' | Some d \<Rightarrow> d),
        newlines 1 @ ''tags: '', tags,
        newlines 1 @ ''title: '', title,
        newlines 1 @ ''---'' @ newlines 2 @ ''# '', n_title n,
        newlines 2, n_body_markdown n]"
      have "concat fs = p" using assms(3) parts ExportMarkdown by (simp add: fs_def export_piece_def markdown_piece_def)
      moreover have "push_markdown env n y = ex_append_all fs y" using parts by (simp add: push_markdown_def fs_def)
      ultimately have "push_markdown env n y = (if ex_max_bytes x < length (ex_content x @ ?s @ p) then Err export_too_large
          else Ok (y\<lparr>ex_content := ex_content x @ ?s @ p\<rparr>))"
        using ex_append_all_bound [of y fs] assms(1) False by (simp add: y add.assoc)
      then show ?thesis using a ExportMarkdown by (simp add: ex_push_def export_tail_def y_def)
    qed
  qed
qed

lemma push_all_bound:
  assumes "ex_max_bytes x < 2 ^ 64" "length (ex_content x) \<le> ex_max_bytes x" "collect_rows (export_piece env (ex_format x)) ns = Some ps"
  shows "push_all env ns x =
     (if ns \<noteq> [] \<and> ex_max_bytes x < length (ex_content x @ joined (ex_format x) (ex_note_count x) ps) + length (export_tail (ex_format x))
      then Err export_too_large
      else Ok (x\<lparr>ex_content := ex_content x @ joined (ex_format x) (ex_note_count x) ps, ex_note_count := ex_note_count x + length ns\<rparr>))"
  using assms
proof (induction ns arbitrary: x ps)
  case (Cons n ns)
  then obtain p qs where p: "export_piece env (ex_format x) n = Some p" "collect_rows (export_piece env (ex_format x)) ns = Some qs" "ps = p # qs"
    by (auto split: option.splits)
  let ?c = "ex_content x @ separator (ex_format x) (ex_note_count x) @ p"
  define y where "y = x\<lparr>ex_content := ?c, ex_note_count := ex_note_count x + 1\<rparr>"
  have push: "ex_push env n x = (if ex_max_bytes x < length ?c + length (export_tail (ex_format x)) then Err export_too_large else Ok y)"
    using ex_push_bound [OF Cons.prems(1,2) p(1)] by (simp add: y_def)
  show ?case
  proof (cases "ex_max_bytes x < length ?c + length (export_tail (ex_format x))")
    case True
    then show ?thesis using push by (simp add: p(3))
  next
    case False
    then have "push_all env ns y =
     (if ns \<noteq> [] \<and> ex_max_bytes y < length (ex_content y @ joined (ex_format y) (ex_note_count y) qs) + length (export_tail (ex_format y))
      then Err export_too_large
      else Ok (y\<lparr>ex_content := ex_content y @ joined (ex_format y) (ex_note_count y) qs, ex_note_count := ex_note_count y + length ns\<rparr>))"
      using Cons.prems p(2) by (intro Cons.IH) (simp_all add: y_def)
    moreover have "ns = [] \<longrightarrow> qs = []" using p(2) by auto
    ultimately show ?thesis using push False by (auto simp: p(3) y_def)
  qed
qed simp

lemma new_exporter_bound:
  assumes "max_bytes < 2 ^ 64"
  shows "new_exporter format max_bytes = (if max_bytes < length (export_head format) then Err export_too_large
     else Ok \<lparr>ex_format = format, ex_max_bytes = max_bytes, ex_note_count = 0, ex_content = export_head format\<rparr>)"
  using assms by (cases format) (simp_all add: new_exporter_def Let_def ex_append_all_bound export_head_def del: ex_append_all.simps)

lemma export_run:
  assumes "max_bytes < 2 ^ 64" "export_text env format notes = Some content" "valid_utf8 content"
  shows "and_then (new_exporter format max_bytes) (\<lambda>x. and_then (push_all env notes x) (ex_finish env)) =
    (if max_bytes < length content then Err export_too_large else Ok content)"
proof -
  obtain ps where ps: "collect_rows (export_piece env format) notes = Some ps"
    "content = export_head format @ joined format 0 ps @ export_tail format"
    using assms(2) by (auto simp: export_text_def)
  define x where "x = \<lparr>ex_format = format, ex_max_bytes = max_bytes, ex_note_count = 0, ex_content = export_head format\<rparr>"
  have ps': "collect_rows (export_piece env (ex_format x)) notes = Some ps" using ps(1) by (simp add: x_def)
  have fin: "ex_finish env y = (if max_bytes < length content then Err export_too_large else Ok content)"
    if "ex_format y = format" "ex_max_bytes y = max_bytes" "ex_content y = export_head format @ joined format 0 ps" "length (ex_content y) \<le> max_bytes" for y
    using that assms(1,3) ps(2) by (cases format) (auto simp: ex_finish_def ex_append_bound export_tail_def)
  show ?thesis
  proof (cases "max_bytes < length (export_head format)")
    case True
    then show ?thesis using assms(1) by (simp add: new_exporter_bound ps(2))
  next
    case False
    then have new: "new_exporter format max_bytes = Ok x" using assms(1) by (simp add: new_exporter_bound x_def)
    have push: "push_all env notes x = (if notes \<noteq> [] \<and> max_bytes < length content then Err export_too_large
        else Ok (x\<lparr>ex_content := export_head format @ joined format 0 ps, ex_note_count := length notes\<rparr>))"
      using push_all_bound [of x env, OF _ _ ps'] assms(1) False ps by (simp add: x_def add.assoc)
    show ?thesis
    proof (cases "notes \<noteq> [] \<and> max_bytes < length content")
      case True
      then show ?thesis using new push by simp
    next
      case small: False
      then have "length (export_head format @ joined format 0 ps) \<le> max_bytes" using False ps by (cases "notes = []") auto
      then show ?thesis using new push small fin by (simp add: x_def)
    qed
  qed
qed

lemma visit_rows_fold:
  assumes "visit_rows (\<lambda>note notes. Ok (notes @ [note])) rows acc (t, []) = (Ok (acc @ out), db')"
  shows "visit_rows (ex_push env) rows x (t, []) = (push_all env out x, (t, []))"
  using assms
proof (induction rows arbitrary: acc out x)
  case (Cons q rows)
  obtain n where n: "note_from_row q = Some n"
    using Cons.prems by (auto simp: u_bind_def u_lift_def ok_or_def split: option.splits)
  let ?n = "n\<lparr>n_tags := tags_of (n_id n) t\<rparr>"
  have rest: "visit_rows (\<lambda>note notes. Ok (notes @ [note])) rows (acc @ [?n]) (t, []) = (Ok (acc @ out), db')"
    using Cons.prems n by (simp add: u_bind_def u_lift_def load_tags_def statement_run)
  obtain ns where ns: "acc @ out = (acc @ [?n]) @ ns" using visit_rows_extends [OF rest] by blast
  then have "out = ?n # ns" by simp
  moreover have "visit_rows (ex_push env) rows y (t, []) = (push_all env ns y, (t, []))" for y
    using Cons.IH rest ns by metis
  ultimately show ?case using n
    by (cases "ex_push env ?n x") (simp_all add: u_bind_def u_lift_def load_tags_def statement_run)
qed (simp add: u_lift_def)

text \<open>C23: An export is complete or refused: without a failing statement the export of a query is the
  exact text of all the notes the query returns, head, pieces, separators and tail, when it fits
  into the 26943488 bytes of the transport, and \<open>note_export_too_large\<close> otherwise; it is never
  cut short, and what is returned passes the validation of exports. The JSON texts exist and the text is
  UTF-8; the digest has 32 bytes.
\<close>

theorem export_complete_or_refused:
  assumes "query_notes (se_notes env) (repository_query q) (t, []) = (Ok notes, (t, []))"
    "export_text env format notes = Some content" "valid_utf8 content" "length (se_digest env content) = 32"
  defines "x \<equiv> \<lparr>nx_format = format, nx_content = content, nx_content_bytes = of_nat (length content), nx_content_sha256 = sha256_hex env content\<rparr>"
  shows "fst (service_export env q format (sv\<lparr>sv_repository := (t, [])\<rparr>)) =
      (if 26943488 < length content then Err ExportTooLarge else Ok (OutExport x)) \<and>
    (length content \<le> 26943488 \<longrightarrow> validate_export x = Ok ())"
proof -
  have m: "MAX_NOTE_EXPORT_BYTES = 26943488"
    by (simp add: MAX_NOTE_EXPORT_BYTES_def NOTE_CONTENT_CHUNK_BYTES_def MAX_NOTE_EXPORT_DATA_FRAMES_def)
  note run = export_run [OF _ assms(2,3), of MAX_NOTE_EXPORT_BYTES]
  obtain keys where "validate_query (repository_query q) = Ok ()" "normalize_keys (se_notes env) (q_tags (repository_query q)) = Ok keys"
    "visit_rows (\<lambda>note notes. Ok (notes @ [note])) (select_rows (repository_query q) keys t) [] (t, []) = (Ok ([] @ notes), (t, []))"
    using assms(1) by (auto simp: query_notes_def visit_query_def u_bind_def u_lift_def statement_run split: sum.splits)
  then have visit: "visit_query (se_notes env) (repository_query q) (ex_push env) y (t, []) = (push_all env notes y, (t, []))" for y
    by (simp add: visit_rows_fold [where acc = "[]"] visit_query_def u_bind_def u_lift_def statement_run)
  have "fst (service_export env q format (sv\<lparr>sv_repository := (t, [])\<rparr>)) =
      (case and_then (new_exporter format MAX_NOTE_EXPORT_BYTES) (\<lambda>y. and_then (push_all env notes y) (ex_finish env)) of
         Inl e \<Rightarrow> Err (map_export_error e)
       | Inr c \<Rightarrow> Ok (OutExport \<lparr>nx_format = format, nx_content = c, nx_content_bytes = of_nat (length c), nx_content_sha256 = sha256_hex env c\<rparr>))"
    by (simp add: service_export_def repository_call_def visit and_then_def map_err_def split: sum.splits)
  then have "fst (service_export env q format (sv\<lparr>sv_repository := (t, [])\<rparr>)) =
      (if 26943488 < length content then Err ExportTooLarge else Ok (OutExport x))"
    using run by (simp add: m map_export_error_def is_export_too_large_def export_too_large_def x_def)
  moreover have "validate_export x = Ok ()" if "length content \<le> 26943488"
    using that sha256_hex_valid [OF assms(4)] by (simp add: validate_export_def x_def m unat_of_nat take_bit_nat_eq_self)
  ultimately show ?thesis by blast
qed

theorem export_complete_or_refused_witness:
  "\<exists>content. export_text sample_service ExportMarkdown [sample_note] = Some content \<and> length content \<le> 26943488 \<and>
    fst (service_export sample_service sample_query ExportMarkdown (new_service (sample_tables, []))) =
      Ok (OutExport \<lparr>nx_format = ExportMarkdown, nx_content = content, nx_content_bytes = of_nat (length content),
        nx_content_sha256 = sha256_hex sample_service content\<rparr>)"
proof -
  have q: "query_notes (se_notes sample_service) (repository_query sample_query) (sample_tables, []) = (Ok [sample_note], (sample_tables, []))"
    by (simp add: query_notes_def visit_query_def validate_query_def select_rows_def sort_rows_def row_matches_def search_text_def repository_query_def
        sample_query_def sample_service_def sample_defs notes_eval MAX_QUERY_LIMIT_def date_invalid_def)
  obtain content where c: "export_text sample_service ExportMarkdown [sample_note] = Some content"
    "length content \<le> 26943488" "valid_utf8 content"
    by (simp add: export_text_def export_head_def export_tail_def export_piece_def markdown_piece_def sample_service_def sample_env_def
        sample_note_def EXPORT_SCHEMA_def newlines_def json_home_def quote_def separator_def decimal.simps valid_utf8_def newline_def numeral_2_eq_2)
  show ?thesis
    using export_complete_or_refused [OF q c(1,3), of "new_service (sample_tables, [])"] c
    by (intro exI [of _ content]) (simp add: sample_service_def new_service_def)
qed

end
