(* ===== verification/Spec2Isabelle.thy ===== *)
theory Spec2Isabelle
  imports Transfer_Delivery Appd_Commands Usage_Open Usage_Queries Network_Sampler Telemetry_Protocol Notes_Export
begin

text \<open>
  LocalDesk (system-status-console) is a Linux desktop console: a user interface talks over a local
  socket to the daemon \<open>appd\<close>, which owns four services. Transfers move files between the local
  disk and FTP, SMB and SSH servers through a durable queue; usage accounting books how long each
  application had the focus; notes are stored with their history in SQLite; network and telemetry
  sampling read counters, partly through two privileged helper processes. This development models
  the Rust code of these services and of the protocols between the processes, and proves what
  their users rely on.

  \<^bold>\<open>Conventions.\<close> A \<open>Result\<close> is a sum with the error on the left; a method on \<open>&mut self\<close> is a
  function that returns the new state; machine integers are words, with checked, saturating and
  wrapping operations written out (theory \<open>Prelude\<close>); \<open>usize\<close> lengths are natural numbers with
  the bound \<open>2 ^ 64\<close> where the code tests it; strings are lists of bytes in UTF-8
  (\<open>Rust_Text\<close>); an ordered map is its sorted list of entries (\<open>btree\<close> of \<open>Prelude\<close>). A panic is an
  outcome of its own. Code of other crates is a parameter, with what the program
  relies on as named hypotheses: SQLite's calls for the transfer store, \<open>serde_json\<close>,
  the text of a UUID, SHA-256 and base64, the Unicode lower case, the calendar of chrono, floating
  point arithmetic, the remote sessions, and the choice of new identifiers. Asynchronous code
  is the sequence of its steps; at every await of a remote call the rest of the service may
  change everything that it can change.

  \<^bold>\<open>Transfers\<close> (crates/transfers, crates/remote-core, bins/appd/src/remote.rs).
  \<open>Remote_Core\<close> has the errors, paths, capability matrices and I/O controls (error.rs, entry.rs,
  adapter.rs). \<open>Transfer_Model\<close> and \<open>Transfer_State\<close> have the task with all its methods (model.rs,
  state.rs); \<open>Transfer_Machine\<close> makes them one step function and proves the invariant, the
  refinement of the life-cycle diagram, the protection by run tokens and the bound on starts.
  \<open>Transfer_Store\<close> (persistence.rs) states the trait \<open>TransferStore\<close> as the locale
  \<open>transfer_store\<close>, interprets it by the in-memory store, and derives it for the SQLite store
  from the locale \<open>sqlite_engine\<close>, the promises of the SQLite calls, which a table with failing
  calls interprets. \<open>Transfer_Queue\<close> (queue.rs) works against the locale only:
  concurrency limits, first-come order, recovery after a restart, complete paging.
  \<open>Transfer_Public\<close> is the public contract (public.rs) and \<open>Appd_Transfers\<close> the answer of the
  daemon to a command, which always satisfies it. \<open>Host\<close> is what the executor uses of the
  operating system, with a script of what other processes do between its calls; \<open>Local_Owner\<close>,
  \<open>Transfer_Executor\<close> (executor.rs) are the staged local files and the run of a task.
  \<open>Local_Staging\<close>, \<open>Transfer_Runs\<close>, \<open>Transfer_Delivery\<close> and \<open>Transfer_Failures\<close> show: a staged
  write is atomic, every run returns, a successful download has delivered exactly the remote
  content, the bandwidth limit is kept, and a failed run settles its task. The copy
  loops run on fuel; a round moves at least one byte of a file of less than \<open>2 ^ 64\<close> bytes, so
  \<open>2 ^ 64\<close> rounds are enough, and that is proved.

  \<^bold>\<open>Profiles\<close> (crates/remote-core/src/profile.rs and catalog.rs, bins/appd/src/remote.rs).
  \<open>Remote_Profiles\<close> has the connection profiles, secrets, pages, commands and the adapter catalog with
  their validation; \<open>Appd_Profiles\<close> the profile store of the daemon and its command, on
  \<open>Sql_Statements\<close>; \<open>Profile_Store\<close> shows that the store is a map changed by compare-and-swap only,
  that pages list every profile once, that a profile in use is kept, and what a clock that was
  set back does to it.

  \<^bold>\<open>Sessions and terminals\<close> (session.rs and terminal.rs of crates/remote-core, crates/remote-ssh,
  bins/appd/src/remote.rs). \<open>Session_Contract\<close> and \<open>Terminal_Contract\<close> are the public types; a session
  follows the diagram of its states. \<open>Terminal_Session\<close> is a terminal over an OpenSSH process, with
  the system as a script of answers: its transcript is the end of the output, and no output is lost
  uncounted. \<open>Appd_Sessions\<close> is the registry of the daemon, one operation per critical section, so
  that a list of operations is an interleaving of its tasks: permits are never lost, an idle session is
  reaped and a live one kept, and nothing is left after a shutdown. \<open>Appd_Commands\<close> composes the
  commands from it and shows that answers satisfy the contract and pages of a directory are complete.

  \<^bold>\<open>Usage accounting\<close> (crates/usage). \<open>Sql_Statements\<close> is the way the stores call SQLite: tables
  as values, every statement may fail, a transaction is all or nothing. \<open>Usage_Buckets\<close> (clock.rs,
  bucket.rs) splits a span into local minutes, exactly; \<open>Usage_Store\<close> and \<open>Usage_Open\<close> (store.rs)
  are the tables, every statement, opening, recovery and the writer lease; \<open>Usage_Tracker\<close>
  (tracker.rs, session.rs) keeps the ledger balanced whatever fails and never books more than
  the elapsed time; \<open>Usage_Queries\<close> are the summaries, coverage and retention.

  \<^bold>\<open>Notes\<close> (crates/notes, crates/domain/src/notes.rs). \<open>Notes_Model\<close> has the data, the date check and
  the checklist in a body; \<open>Notes_Repository\<close> the tables and calls of the repository, on
  \<open>Sql_Statements\<close>; \<open>Notes_History\<close> what callers rely on over any sequence of calls: atomic writes
  that read back exactly, no lost write, the history, retention. \<open>Notes_Contract\<close> are the public types
  and their validation; \<open>Notes_Service\<close> the commands, the staged uploads and the exporter;
  \<open>Notes_Uploads\<close>, \<open>Notes_Answers\<close> and \<open>Notes_Export\<close> show the budget of uploads, that a chunked
  upload is an inline write, that every stored note can be shown, that pages are exact
  slices and that exports are complete or refused.

  \<^bold>\<open>Protocols and sampling\<close> (crates/ipc, crates/network, the helper protocols). \<open>Framing\<close> states a
  length-prefixed framing as the locale \<open>framing\<close> and interprets it by the three framings of
  the program; the wire budget holds for whatever arrives. \<open>Network_Protocol\<close> and
  \<open>Telemetry_Protocol\<close> are the helper messages with their validation, and the reduction of a
  telemetry reply to what fits into a frame: the reply is always found, valid and maximal.
  \<open>Network_Sampler\<close> (sampler.rs, core.rs) computes rates from successive readings and aggregates
  counters.

  \<^bold>\<open>Not modelled.\<close> Code whose work is I/O on a library or the system: the protocol adapters
  (libcurl, libsmbclient, SFTP over OpenSSH processes), sockets and tasks of the IPC client and server and of
  appd, netlink sockets, the reading of \<open>/proc\<close> and of the host's tools, eBPF loading, the Tauri
  bridge and the user interface. Of modelled components: \<open>run_ready\<close> of the executor (a
  set of concurrent runs of the asynchronous runtime), the backup files of migrations, opening
  and migration of the notes and profile databases, formatting of errors for people, and tests.
\<close>

end
